(* ===== verification/Prelude.thy ===== *)
theory Prelude
  imports Main "HOL-Library.Word"
begin

text \<open>
  Shared vocabulary of the development: the machine integer and pointer types of the driver, its
  error codes (common/mali\_osk.h), a reader-friendly checked write, and the generic facts about
  words, bit masks, lists and functions that several components use.  The driver runs on a 32-bit
  ARM core, so \<open>u32\<close>, \<open>unsigned long\<close> and pointers are all 32-bit words.
\<close>

unbundle bit_operations_syntax

type_synonym u32 = "32 word"
type_synonym ptr = "32 word"

text \<open>The error codes \<open>_mali_osk_errcode_t\<close>, in the order of the header.\<close>

datatype osk_err =
    ERR_OK
  | ERR_FAULT
  | ERR_INVALID_FUNC
  | ERR_INVALID_ARGS
  | ERR_NOMEM
  | ERR_TIMEOUT
  | ERR_RESTARTSYSCALL
  | ERR_ITEM_NOT_FOUND
  | ERR_BUSY
  | ERR_UNSUPPORTED

text \<open>
  What an operation on a heap block may do besides returning: write outside the block it owns, or
  not return.
\<close>

datatype 'a outcome = Done 'a | Corrupt | Diverge

fun bind_outcome :: "'a outcome \<Rightarrow> ('a \<Rightarrow> 'b outcome) \<Rightarrow> 'b outcome" where
  "bind_outcome (Done x) f = f x"
| "bind_outcome Corrupt f = Corrupt"
| "bind_outcome Diverge f = Diverge"

text \<open>The conversion of an arithmetic result to a 32-bit C \<open>int\<close>.\<close>

definition int32 :: "int \<Rightarrow> int" where
  "int32 x = signed_take_bit 31 x"

lemma int32_id [simp]: "- (2 ^ 31) \<le> x \<Longrightarrow> x < 2 ^ 31 \<Longrightarrow> int32 x = x"
  by (simp add: int32_def signed_take_bit_int_eq_self)

lemma sint_of_nat: "n < 2 ^ 31 \<Longrightarrow> sint (of_nat n :: u32) = int n"
  by (simp add: signed_of_nat signed_take_bit_int_eq_self)

lemma sint_eq_unat: "unat (x :: u32) < 2 ^ 31 \<Longrightarrow> sint x = int (unat x)"
  using sint_of_nat[of "unat x"] by (simp only: of_nat_unat ucast_id)

subsection \<open>Maps\<close>

lemma map_upds_nth:
  "distinct ks \<Longrightarrow> length vs = length ks \<Longrightarrow> i < length ks \<Longrightarrow> (m(ks [\<mapsto>] vs)) (ks ! i) = Some (vs ! i)"
proof (induction ks arbitrary: m vs i)
  case (Cons k ks)
  then show ?case
    by (cases vs; cases i) (auto simp: map_upds_apply_nontin)
qed simp

named_theorems mask_simps \<open>subset and disjointness of bit masks\<close>
named_theorems bits \<open>bits of words\<close>

subsection \<open>Bit masks as sets of bits\<close>

text \<open>A mask is a set of cores, blocks or flags; inclusion and disjointness as the code tests them.\<close>

definition submask :: "u32 \<Rightarrow> u32 \<Rightarrow> bool" where
  "submask a b \<longleftrightarrow> NOT b AND a = 0"

definition disjmask :: "u32 \<Rightarrow> u32 \<Rightarrow> bool" where
  "disjmask a b \<longleftrightarrow> a AND b = 0"

lemma mask_eq_bits: "(a :: u32) = b \<longleftrightarrow> (\<forall>n. bit a n \<longleftrightarrow> bit b n)"
  by (auto intro: bit_eqI)

lemma bit_u32_bound: "bit (a :: u32) n \<Longrightarrow> n < 32"
  using bit_imp_le_length by fastforce

lemma submask_bits: "submask a b \<longleftrightarrow> (\<forall>n. bit a n \<longrightarrow> bit b n)"
  by (auto simp: submask_def mask_eq_bits bit_and_iff bit_not_iff dest: bit_u32_bound)

lemma disjmask_bits: "disjmask a b \<longleftrightarrow> (\<forall>n. \<not> (bit a n \<and> bit b n))"
  by (simp add: disjmask_def mask_eq_bits bit_and_iff)

lemmas mask_bits = submask_bits disjmask_bits

lemmas mask_conv = submask_bits disjmask_bits mask_eq_bits

lemma mask_nz_bits: "(a :: u32) \<noteq> 0 \<longleftrightarrow> (\<exists>n. bit a n)"
  by (simp add: mask_eq_bits)

lemma bit_NOT_u32 [bits]: "bit (NOT (a :: u32)) n \<longleftrightarrow> n < 32 \<and> \<not> bit a n"
  by (auto simp: bit_not_iff)

lemma bit_exp_u32 [bits]: "bit (2 ^ k :: u32) n \<longleftrightarrow> n = k \<and> k < 32"
  by (auto simp: bit_exp_iff)

lemmas [bits] = bit_and_iff bit_or_iff

lemma submask_refl [simp]: "submask a a"
  by (simp add: mask_conv)

lemma submask_0 [simp]: "submask 0 a"
  by (simp add: mask_conv)

lemma submask_0_iff [simp]: "submask a 0 \<longleftrightarrow> a = 0"
  by (simp add: mask_conv)

lemma submask_trans: "submask a b \<Longrightarrow> submask b c \<Longrightarrow> submask a c"
  by (simp add: mask_conv)

lemma submask_antisym: "submask a b \<Longrightarrow> submask b a \<Longrightarrow> a = b"
  by (auto simp: mask_conv)

lemma disjmask_0 [simp]: "disjmask 0 a" "disjmask a 0"
  by (simp_all add: mask_conv)

lemma submask_or [simp]: "submask (a OR b) c \<longleftrightarrow> submask a c \<and> submask b c"
  by (auto simp: mask_conv bits)

lemma submask_or_left: "submask a b \<Longrightarrow> submask a (b OR c)"
  by (auto simp: mask_conv bits)

lemma submask_or_right: "submask a c \<Longrightarrow> submask a (b OR c)"
  by (auto simp: mask_conv bits)

lemma submask_and1: "submask a c \<Longrightarrow> submask (a AND b) c"
  by (auto simp: mask_conv bits)

lemma submask_and2: "submask b c \<Longrightarrow> submask (a AND b) c"
  by (auto simp: mask_conv bits)

lemma submask_minus: "submask (a AND NOT b) c \<longleftrightarrow> submask a (c OR b)"
  by (auto simp: mask_conv bits dest: bit_u32_bound)

subsection \<open>Setting, clearing and reading one bit\<close>

lemma bit_set_one [bits]:
  "bit (w OR 2 ^ k :: u32) n \<longleftrightarrow> bit w n \<or> (n = k \<and> k < 32)"
  by (auto simp: bit_or_iff bit_exp_iff)

lemma bit_clear_one [bits]:
  "bit (w AND NOT (2 ^ k) :: u32) n \<longleftrightarrow> bit w n \<and> n \<noteq> k"
  by (auto simp: bit_and_iff bit_not_iff bit_exp_iff dest: bit_u32_bound)

lemma and_one_bit_eq_0 [bits]:
  "k < 32 \<Longrightarrow> ((w :: u32) AND 2 ^ k = 0) \<longleftrightarrow> \<not> bit w k"
  by (auto simp: mask_eq_bits bit_and_iff bit_exp_iff)

subsection \<open>Rounding down to a power of two\<close>

lemma align_down: "(x :: u32) AND NOT (mask k) = push_bit k (drop_bit k x)"
proof -
  have "bit (x AND NOT (mask k)) n = bit (push_bit k (drop_bit k x)) n" for n
    by (cases "k \<le> n")
      (auto simp: bit_and_iff bit_not_iff bit_mask_iff bit_push_bit_iff bit_drop_bit_eq
        dest: bit_u32_bound)
  then show ?thesis by (simp add: mask_eq_bits)
qed

lemma unat_align_down: "unat ((x :: u32) AND NOT (mask k)) = 2 ^ k * (unat x div 2 ^ k)"
proof -
  have le: "2 ^ k * (unat x div 2 ^ k) \<le> unat x" by simp
  have "unat (push_bit k (drop_bit k x)) = take_bit 32 (push_bit k (unat (drop_bit k x)))"
    by (simp add: unsigned_push_bit_eq)
  also have "unat (drop_bit k x) = unat x div 2 ^ k"
    by (simp only: unat_drop_bit_eq drop_bit_eq_div[of k "unat x"])
  also have "take_bit 32 (push_bit k (unat x div 2 ^ k)) = 2 ^ k * (unat x div 2 ^ k)"
  proof -
    have "2 ^ k * (unat x div 2 ^ k) < 2 ^ 32"
      using le unsigned_less[of x, where 'a = nat] by (rule order_le_less_trans[OF _ order_less_le_trans]) simp
    then show ?thesis by (simp only: push_bit_eq_mult mult.commute[of "unat x div 2 ^ k"] take_bit_nat_eq_self)
  qed
  finally show ?thesis by (simp add: align_down)
qed

end
