(* ===== verification/Osk_Bitops.thy ===== *)
theory Osk_Bitops
  imports Prelude
begin

text \<open>
  The non-atomic bit operations of common/mali\_osk\_bitops.h.  A bit array is addressed through a
  \<open>u32 *\<close>; the model is the memory seen through that pointer, a function from word offsets to
  words, so that an operation reads and writes exactly the words the code dereferences.  Whether an
  offset lies inside an allocation is the concern of the caller (see the descriptor tables).
  \<open>fls\<close> is the Linux bit operation that \<open>_mali_osk_clz\<close> is written with: the
  position of the most significant set bit, counted from 1, and 0 for a zero word.
\<close>

type_synonym words = "nat \<Rightarrow> u32"

subsection \<open>Operations on one word\<close>

definition mali_internal_clear_bit :: "u32 \<Rightarrow> u32 \<Rightarrow> u32" where
  "mali_internal_clear_bit nr w = w AND NOT (push_bit (unat nr) 1)"

definition mali_internal_set_bit :: "u32 \<Rightarrow> u32 \<Rightarrow> u32" where
  "mali_internal_set_bit nr w = w OR push_bit (unat nr) 1"

definition mali_internal_test_bit :: "u32 \<Rightarrow> u32 \<Rightarrow> u32" where
  "mali_internal_test_bit nr w = w AND push_bit (unat nr) 1"

definition fls :: "u32 \<Rightarrow> nat" where
  "fls x = (case rev (filter (bit x) [0..<32]) of [] \<Rightarrow> 0 | i # _ \<Rightarrow> Suc i)"

definition mali_osk_clz :: "u32 \<Rightarrow> u32" where
  "mali_osk_clz input = 32 - of_nat (fls input)"

text \<open>The result is a C \<open>int\<close>: the unsigned \<open>31 - leading_zeros\<close> read as signed.\<close>

definition mali_internal_find_first_zero_bit :: "u32 \<Rightarrow> int" where
  "mali_internal_find_first_zero_bit v =
     (let inverted = NOT v;
          negated = - inverted;
          isolated = negated AND inverted;
          leading_zeros = mali_osk_clz isolated
      in sint (31 - leading_zeros))"

subsection \<open>Operations on a sequence of words\<close>

definition mali_osk_clear_nonatomic_bit :: "u32 \<Rightarrow> words \<Rightarrow> words" where
  "mali_osk_clear_nonatomic_bit nr f =
     (let addr = unat (drop_bit 5 nr); nr' = nr AND (push_bit 5 1 - 1)
      in f(addr := mali_internal_clear_bit nr' (f addr)))"

definition mali_osk_set_nonatomic_bit :: "u32 \<Rightarrow> words \<Rightarrow> words" where
  "mali_osk_set_nonatomic_bit nr f =
     (let addr = unat (drop_bit 5 nr); nr' = nr AND (push_bit 5 1 - 1)
      in f(addr := mali_internal_set_bit nr' (f addr)))"

definition mali_osk_test_bit :: "u32 \<Rightarrow> words \<Rightarrow> u32" where
  "mali_osk_test_bit nr f =
     (let addr = unat (drop_bit 5 nr); nr' = nr AND (push_bit 5 1 - 1)
      in mali_internal_test_bit nr' (f addr))"

text \<open>
  The search loop, with \<open>total\<close> (here \<open>tot\<close>) and \<open>addr\<close> as its variables.  \<open>tot\<close> is a \<open>u32\<close> that
  wraps, so for a \<open>maxbit\<close> above \<open>2 ^ 32 - 32\<close> the loop need not end: it is a partial function,
  \<open>None\<close> meaning that it does not return.
\<close>

partial_function (option) find_first_zero_loop :: "words \<Rightarrow> nat \<Rightarrow> u32 \<Rightarrow> u32 \<Rightarrow> u32 option" where
  "find_first_zero_loop f addr tot maxbit =
     (if tot < maxbit then
        (let result = mali_internal_find_first_zero_bit (f addr)
         in if 0 \<le> result then Some (tot + of_int result)
            else find_first_zero_loop f (Suc addr) (tot + 32) maxbit)
      else Some tot)"

definition mali_osk_find_first_zero_bit :: "words \<Rightarrow> u32 \<Rightarrow> u32 option" where
  "mali_osk_find_first_zero_bit f maxbit =
     map_option (\<lambda>tot. if tot \<ge> maxbit then maxbit else tot) (find_first_zero_loop f 0 0 maxbit)"

subsection \<open>The abstract view: a bit array is a set of bit numbers\<close>

definition usage_bit :: "words \<Rightarrow> nat \<Rightarrow> bool" where
  "usage_bit f n = bit (f (n div 32)) (n mod 32)"

lemma nr_low [simp]: "unat ((nr :: u32) AND 31) = unat nr mod 32"
proof -
  have "nr AND 31 = take_bit 5 nr"
    by (simp add: take_bit_eq_mask mask_eq_exp_minus_1)
  then have "unat (nr AND 31) = take_bit 5 (unat nr)"
    by (simp add: unsigned_take_bit_eq)
  then show ?thesis by (simp add: take_bit_eq_mod)
qed

lemma nr_high [simp]: "unat (drop_bit 5 (nr :: u32)) = unat nr div 32"
proof -
  have "unat (drop_bit 5 nr) = drop_bit 5 (unat nr)"
    by (rule unat_drop_bit_eq)
  then show ?thesis by (simp add: drop_bit_eq_div)
qed

lemma usage_bit_set [simp]:
  "usage_bit (mali_osk_set_nonatomic_bit nr f) n \<longleftrightarrow> n = unat nr \<or> usage_bit f n"
  by (auto simp: usage_bit_def mali_osk_set_nonatomic_bit_def mali_internal_set_bit_def bits Let_def)
     (metis mult_div_mod_eq)

lemma usage_bit_clear [simp]:
  "usage_bit (mali_osk_clear_nonatomic_bit nr f) n \<longleftrightarrow> n \<noteq> unat nr \<and> usage_bit f n"
  by (auto simp: usage_bit_def mali_osk_clear_nonatomic_bit_def mali_internal_clear_bit_def bits Let_def)
     (metis mult_div_mod_eq)

lemma test_bit_usage [simp]: "mali_osk_test_bit nr f = 0 \<longleftrightarrow> \<not> usage_bit f (unat nr)"
  by (simp add: usage_bit_def mali_osk_test_bit_def mali_internal_test_bit_def bits Let_def)

lemma set_bit_frame: "k \<noteq> unat nr div 32 \<Longrightarrow> mali_osk_set_nonatomic_bit nr f k = f k"
  by (simp add: mali_osk_set_nonatomic_bit_def Let_def)

lemma clear_bit_frame: "k \<noteq> unat nr div 32 \<Longrightarrow> mali_osk_clear_nonatomic_bit nr f k = f k"
  by (simp add: mali_osk_clear_nonatomic_bit_def Let_def)

subsection \<open>Isolating the lowest set bit\<close>

lemma isolate_lowest:
  fixes x :: u32
  assumes k: "bit x k" and low: "\<And>i. i < k \<Longrightarrow> \<not> bit x i"
  shows "- x AND x = 2 ^ k"
proof -
  have k32: "k < 32" using k by (rule bit_u32_bound)
  define y where "y = drop_bit k x"
  have x: "x = push_bit k y"
    unfolding mask_eq_bits
  proof
    fix n show "bit x n = bit (push_bit k y) n"
      using low[of n] by (cases "k \<le> n")
        (auto simp: y_def bit_push_bit_iff bit_drop_bit_eq dest: bit_u32_bound)
  qed
  have odd_y: "bit y 0" using k by (simp add: y_def bit_drop_bit_eq)
  have ym: "y - 1 = y AND NOT 1"
  proof -
    have "y = (y AND NOT 1) + 1"
    proof -
      have "y = (y AND NOT 1) OR 1"
        by (rule bit_eqI) (use odd_y in \<open>auto simp: bit_or_iff bit_and_iff bit_not_iff bit_1_iff\<close>)
      also have "\<dots> = (y AND NOT 1) + 1"
        by (rule disjunctive_add [symmetric]) (auto simp: bit_and_iff bit_not_iff bit_1_iff)
      finally show ?thesis .
    qed
    then show ?thesis by (metis add_diff_cancel_right')
  qed
  have neg: "- push_bit k y = push_bit k (- y)"
    by (simp add: push_bit_eq_mult)
  have "- y = NOT (y - 1)" by (simp add: minus_eq_not_minus_1)
  then have "- y AND y = 1"
    using odd_y by (auto simp: mask_eq_bits ym bit_and_iff bit_or_iff bit_not_iff bit_1_iff)
  then have "- x AND x = push_bit k 1"
    by (simp add: neg x flip: push_bit_and)
  then show ?thesis by simp
qed

lemma fls_0 [simp]: "fls 0 = 0"
  by (simp add: fls_def)

lemma distinct_filter_eq:
  "distinct xs \<Longrightarrow> filter (\<lambda>i. i = k) xs = (if k \<in> set xs then [k] else [])"
  by (induction xs) auto

lemma fls_exp: "k < 32 \<Longrightarrow> fls (2 ^ k) = Suc k"
proof -
  assume k: "k < 32"
  have "filter (bit (2 ^ k :: u32)) [0..<32] = filter (\<lambda>i. i = k) [0..<32]"
    by (rule filter_cong) (auto simp: bit_exp_iff k)
  also have "\<dots> = [k]"
    using k distinct_filter_eq[of "[0..<32]" k] by simp
  finally show ?thesis by (simp add: fls_def)
qed

text \<open>One word: the position of its lowest zero bit, or -1 when all bits are ones.\<close>

lemma find_first_zero_bit_word_some:
  assumes k: "k < 32" "\<not> bit v k" and low: "\<And>i. i < k \<Longrightarrow> bit v i"
  shows "mali_internal_find_first_zero_bit v = int k"
proof -
  have "- NOT v AND NOT v = 2 ^ k"
    by (rule isolate_lowest) (use assms in \<open>auto simp: bits\<close>)
  then have "mali_internal_find_first_zero_bit v = sint (31 - (32 - of_nat (Suc k)) :: u32)"
    by (simp add: mali_internal_find_first_zero_bit_def mali_osk_clz_def fls_exp[OF k(1)] Let_def)
  also have "31 - (32 - of_nat (Suc k)) = (of_nat k :: u32)" by simp
  also have "sint (of_nat k :: u32) = int k"
    using k(1) by (simp add: signed_of_nat signed_take_bit_int_eq_self)
  finally show ?thesis .
qed

lemma find_first_zero_bit_word_none:
  assumes "\<And>i. i < 32 \<Longrightarrow> bit v i"
  shows "mali_internal_find_first_zero_bit v = -1"
proof -
  have "NOT v = 0" using assms by (auto simp: mask_eq_bits bits)
  then show ?thesis
    by (simp add: mali_internal_find_first_zero_bit_def mali_osk_clz_def Let_def)
qed

subsection \<open>The search\<close>

text \<open>The reference: scan the bits one by one.\<close>

definition first_zero :: "words \<Rightarrow> nat \<Rightarrow> nat \<Rightarrow> bool" where
  "first_zero f m n \<longleftrightarrow> n \<le> m \<and> (\<forall>i < n. usage_bit f i) \<and> (n < m \<longrightarrow> \<not> usage_bit f n)"

lemma usage_bit_word: "i < 32 \<Longrightarrow> usage_bit f (32 * a + i) = bit (f a) i"
  by (simp add: usage_bit_def)

lemma usage_extend:
  assumes "\<forall>i < 32 * a. usage_bit f i" "k \<le> 32" "\<forall>i < k. bit (f a) i" "i < 32 * a + k"
  shows "usage_bit f i"
proof (cases "i < 32 * a")
  case False
  then have "i = 32 * a + (i - 32 * a)" "i - 32 * a < k" using assms(4) by auto
  then show ?thesis using assms(2,3) usage_bit_word[of "i - 32 * a" f a] by auto
qed (use assms in auto)

lemma least_failing: "(\<forall>i < m. P i) \<or> (\<exists>k < m. \<not> P k \<and> (\<forall>i < k. P i))" for m :: nat
proof (induction m)
  case (Suc m)
  then show ?case by (cases "P m") (auto simp: less_Suc_eq)
qed simp

lemma find_first_zero_loop_spec:
  assumes "maxbit \<le> 2 ^ 32 - 32" "32 * a < maxbit + 32" "\<forall>i < 32 * a. usage_bit f i"
  shows "\<exists>n. find_first_zero_loop f a (of_nat (32 * a)) (of_nat maxbit) = Some (of_nat n) \<and>
             n < 2 ^ 32 \<and> (\<forall>i < min n maxbit. usage_bit f i) \<and> (n < maxbit \<longrightarrow> \<not> usage_bit f n)"
  using assms
proof (induction "maxbit + 32 - 32 * a" arbitrary: a rule: less_induct)
  case less
  have lt: "(of_nat (32 * a) < (of_nat maxbit :: u32)) \<longleftrightarrow> 32 * a < maxbit"
    using less.prems by (simp add: word_of_nat_less_iff take_bit_nat_eq_self del: of_nat_mult)
  note unfold = find_first_zero_loop.simps[of f a "32 * of_nat a" "of_nat maxbit"]
  consider "maxbit \<le> 32 * a"
    | k where "32 * a < maxbit" "k < 32" "\<not> bit (f a) k" "\<And>i. i < k \<Longrightarrow> bit (f a) i"
    | "32 * a < maxbit" "\<forall>i < 32. bit (f a) i"
    using least_failing[of 32 "bit (f a)"] by (cases "maxbit \<le> 32 * a") auto
  then show ?case
  proof cases
    case 1
    then show ?thesis using less.prems lt by (intro exI[of _ "32 * a"]) (simp add: unfold)
  next
    case (2 k)
    have "\<forall>i < 32 * a + k. usage_bit f i"
      using usage_extend[OF less.prems(3), of k] 2(2,4) by auto
    moreover have "\<not> usage_bit f (32 * a + k)" using 2(2,3) by (simp add: usage_bit_word)
    ultimately show ?thesis using 2(1,2) less.prems(1) lt
      by (intro exI[of _ "32 * a + k"])
        (simp add: unfold find_first_zero_bit_word_some[OF 2(2-4)] Let_def)
  next
    case 3
    have "\<forall>i < 32 * Suc a. usage_bit f i"
      using usage_extend[OF less.prems(3), of 32] 3(2) by auto
    from less.hyps[OF _ less.prems(1) _ this] show ?thesis
      using 3 lt by (simp add: unfold find_first_zero_bit_word_none Let_def add.commute)
  qed
qed

lemma find_first_zero_bit_correct:
  assumes "maxbit \<le> 2 ^ 32 - 32"
  shows "\<exists>n. mali_osk_find_first_zero_bit f (of_nat maxbit) = Some (of_nat n) \<and> first_zero f maxbit n"
proof -
  obtain n where n: "find_first_zero_loop f 0 0 (of_nat maxbit) = Some (of_nat n)" "n < 2 ^ 32"
    "\<forall>i < min n maxbit. usage_bit f i" "n < maxbit \<longrightarrow> \<not> usage_bit f n"
    using find_first_zero_loop_spec[OF assms, of 0 f] by auto
  have "(of_nat maxbit \<le> (of_nat n :: u32)) \<longleftrightarrow> maxbit \<le> n"
    using assms n(2) by (simp add: word_le_nat_alt unat_of_nat)
  with n show ?thesis
    by (intro exI[of _ "min n maxbit"]) (auto simp: mali_osk_find_first_zero_bit_def first_zero_def min_def)
qed

subsection \<open>Property\<close>

text \<open>
  The search for a clear bit returns for every \<open>maxbit\<close> up to \<open>2 ^ 32 - 32\<close>: the number of the
  least clear bit below \<open>maxbit\<close>, and \<open>maxbit\<close> when every bit below it is set.
\<close>

theorem find_first_zero_bit_least:
  assumes "maxbit \<le> 2 ^ 32 - 32"
  shows "\<exists>n \<le> maxbit. mali_osk_find_first_zero_bit f (of_nat maxbit) = Some (of_nat n) \<and>
           (\<forall>i < n. usage_bit f i) \<and> (n < maxbit \<longrightarrow> \<not> usage_bit f n)"
  using find_first_zero_bit_correct[OF assms] by (auto simp: first_zero_def)

theorem find_first_zero_bit_least_witness:
  "\<exists>n \<le> 64. mali_osk_find_first_zero_bit (\<lambda>i. if i = 0 then - 1 else 0) 64 = Some (of_nat n) \<and>
     (\<forall>i < n. usage_bit (\<lambda>i. if i = 0 then - 1 else 0) i)"
  using find_first_zero_bit_least[of 64 "\<lambda>i. if i = 0 then - 1 else 0"] by auto

end
