(* ===== verification/Id_Map.thy ===== *)
theory Id_Map
  imports Prelude
begin

text \<open>
  The interface of a descriptor mapping: a namespace of small integers for kernel pointers, with
  descriptor 0 never handed out.  The Mali and the UMP driver each have an implementation; what a
  client relies on is stated once as a locale over the four operations and the abstract map, and
  the lemmas about whole sequences of operations are proved in it.
\<close>

text \<open>Allocate a descriptor for each target in turn, giving up at the first failure.\<close>

fun alloc_all :: "('m \<Rightarrow> ptr \<Rightarrow> (nat \<times> 'm) option) \<Rightarrow> 'm \<Rightarrow> ptr list \<Rightarrow> (nat list \<times> 'm) option" where
  "alloc_all alloc m [] = Some ([], m)"
| "alloc_all alloc m (t # ts) =
     (case alloc m t of None \<Rightarrow> None
      | Some (d, m') \<Rightarrow> map_option (map_prod (Cons d) id) (alloc_all alloc m' ts))"

locale id_map =
  fixes alloc :: "'m \<Rightarrow> ptr \<Rightarrow> (nat \<times> 'm) option"
    and get :: "'m \<Rightarrow> nat \<Rightarrow> ptr option"
    and set_at :: "'m \<Rightarrow> nat \<Rightarrow> ptr \<Rightarrow> 'm option"
    and release :: "'m \<Rightarrow> nat \<Rightarrow> 'm"
    and contents :: "'m \<Rightarrow> nat \<Rightarrow> ptr option"
    and inv :: "'m \<Rightarrow> bool"
  assumes alloc_fresh: "inv m \<Longrightarrow> alloc m t = Some (d, m') \<Longrightarrow> d \<noteq> 0 \<and> contents m d = None"
    and alloc_contents: "inv m \<Longrightarrow> alloc m t = Some (d, m') \<Longrightarrow> contents m' = (contents m)(d \<mapsto> t)"
    and alloc_inv: "inv m \<Longrightarrow> alloc m t = Some (d, m') \<Longrightarrow> inv m'"
    and get_contents: "inv m \<Longrightarrow> d \<noteq> 0 \<Longrightarrow> get m d = contents m d"
    and set_contents: "inv m \<Longrightarrow> d \<noteq> 0 \<Longrightarrow> set_at m d t = Some m' \<Longrightarrow>
        contents m d \<noteq> None \<and> contents m' = (contents m)(d \<mapsto> t) \<and> inv m'"
    and release_contents: "inv m \<Longrightarrow> d \<noteq> 0 \<Longrightarrow> contents (release m d) = (contents m)(d := None)"
    and release_inv: "inv m \<Longrightarrow> d \<noteq> 0 \<Longrightarrow> inv (release m d)"
begin

lemma get_alloc: "inv m \<Longrightarrow> alloc m t = Some (d, m') \<Longrightarrow> get m' d = Some t"
  by (simp add: alloc_fresh alloc_contents alloc_inv get_contents)

lemma get_alloc_other:
  "inv m \<Longrightarrow> alloc m t = Some (d, m') \<Longrightarrow> e \<noteq> 0 \<Longrightarrow> e \<noteq> d \<Longrightarrow> get m' e = get m e"
  by (metis alloc_contents alloc_inv get_contents fun_upd_apply)

lemma get_release: "inv m \<Longrightarrow> d \<noteq> 0 \<Longrightarrow> get (release m d) d = None"
  by (simp add: get_contents release_contents release_inv)

lemma release_alloc:
  assumes "inv m" "alloc m t = Some (d, m')"
  shows "contents (release m' d) = contents m"
  using alloc_fresh[OF assms] alloc_contents[OF assms] alloc_inv[OF assms]
  by (simp add: release_contents fun_upd_idem)

lemma alloc_all_fresh:
  assumes "inv m" "alloc_all alloc m ts = Some (ds, m')"
  shows "inv m' \<and> distinct ds \<and> length ds = length ts \<and> 0 \<notin> set ds \<and>
         (\<forall>d \<in> set ds. contents m d = None) \<and> contents m' = (contents m)(ds [\<mapsto>] ts)"
  using assms
proof (induction ts arbitrary: m ds)
  case Nil
  then show ?case by simp
next
  case (Cons t ts)
  then obtain d m1 ds1 where
    a: "alloc m t = Some (d, m1)" "alloc_all alloc m1 ts = Some (ds1, m')" "ds = d # ds1"
    by (auto split: option.splits)
  note f = alloc_fresh[OF Cons.prems(1) a(1)] alloc_contents[OF Cons.prems(1) a(1)]
    alloc_inv[OF Cons.prems(1) a(1)]
  note ih = Cons.IH[OF f(3) a(2)]
  have "d \<notin> set ds1" using ih f(2) by (metis fun_upd_same option.distinct(1))
  moreover have "\<forall>e \<in> set ds1. contents m e = None"
    using ih f(2) by (metis fun_upd_apply option.distinct(1))
  moreover have "contents m' = (contents m)(ds [\<mapsto>] (t # ts))"
    using ih by (simp only: f a(3) map_upds_Cons)
  ultimately show ?case using ih f(1) a(3) by auto
qed

lemma alloc_all_get:
  assumes "inv m" "alloc_all alloc m ts = Some (ds, m')"
  shows "distinct ds \<and> length ds = length ts \<and> (\<forall>i < length ts. get m' (ds ! i) = Some (ts ! i))"
proof -
  note f = alloc_all_fresh[OF assms]
  have "contents m' (ds ! i) = Some (ts ! i)" if "i < length ts" for i
    using f that by (simp add: map_upds_nth)
  moreover have "ds ! i \<noteq> 0" if "i < length ts" for i
    using f that by (metis nth_mem)
  ultimately show ?thesis using f by (simp add: get_contents)
qed

end

end
