(* ===== verification/Descriptor_Table.thy ===== *)
theory Descriptor_Table
  imports Osk_Bitops Id_Map
begin

text \<open>
  The descriptor table that the Mali and the UMP descriptor mappings share (the struct of
  mali\_kernel\_descriptor\_mapping.h): one heap block that holds, behind the struct, the usage bits
  and then the array of pointers.  The block is kept as memory, so that an access outside it reads
  what lies behind it and a write outside it is the outcome \<open>Corrupt\<close>.
\<close>

text \<open>
  \<open>tmem\<close> is the memory from the first usage word on, \<open>tsize\<close> the number of words of it that belong
  to the allocation, \<open>tmap\<close> the word offset at which \<open>mappings\<close> points.
\<close>

record desc_table =
  tmem :: words
  tsize :: nat
  tmap :: nat

record desc_mapping =
  max_nr_mappings_allowed :: int
  current_nr_mappings :: int
  table :: desc_table

text \<open>
  \<open>MALI_PAD_INT\<close>: \<open>BITS_PER_LONG\<close> is a \<open>sizeof\<close>, so the macro computes in unsigned arithmetic and
  the assignment converts back to \<open>int\<close>.
\<close>

definition mali_pad_int :: "int \<Rightarrow> int" where
  "mali_pad_int x = sint ((word_of_int x + (32 - 1)) AND NOT (32 - 1) :: u32)"

text \<open>
  \<open>calloc\<close> is what \<open>_mali_osk_calloc\<close> returns: \<open>None\<close> for \<open>NULL\<close>, otherwise a zeroed block with
  the given memory behind it.  The counts are multiples of 32, so \<open>4 * count / 32\<close> bytes of usage
  bits are \<open>count / 32\<close> words.
\<close>

definition descriptor_table_alloc :: "words option \<Rightarrow> int \<Rightarrow> desc_table option" where
  "descriptor_table_alloc calloc count =
     (case calloc of None \<Rightarrow> None
      | Some beyond \<Rightarrow>
         (let usage_words = nat count div 32; size = usage_words + nat count
          in Some \<lparr>tmem = (\<lambda>i. if i < size then 0 else beyond i), tsize = size, tmap = usage_words\<rparr>))"

subsection \<open>Accesses to the block\<close>

definition table_set_usage :: "int \<Rightarrow> desc_table \<Rightarrow> desc_table outcome" where
  "table_set_usage d t =
     (if unat (drop_bit 5 (word_of_int d :: u32)) < tsize t
      then Done (t\<lparr>tmem := mali_osk_set_nonatomic_bit (word_of_int d) (tmem t)\<rparr>) else Corrupt)"

definition table_clear_usage :: "int \<Rightarrow> desc_table \<Rightarrow> desc_table outcome" where
  "table_clear_usage d t =
     (if unat (drop_bit 5 (word_of_int d :: u32)) < tsize t
      then Done (t\<lparr>tmem := mali_osk_clear_nonatomic_bit (word_of_int d) (tmem t)\<rparr>) else Corrupt)"

definition table_store :: "int \<Rightarrow> ptr \<Rightarrow> desc_table \<Rightarrow> desc_table outcome" where
  "table_store d v t =
     (if tmap t + nat d < tsize t then Done (t\<lparr>tmem := (tmem t)(tmap t + nat d := v)\<rparr>) else Corrupt)"

definition table_load :: "int \<Rightarrow> desc_table \<Rightarrow> ptr" where
  "table_load d t = tmem t (tmap t + nat d)"

definition table_test :: "int \<Rightarrow> desc_table \<Rightarrow> bool" where
  "table_test d t \<longleftrightarrow> mali_osk_test_bit (word_of_int d) (tmem t) \<noteq> 0"

text \<open>\<open>_mali_osk_memcpy\<close> of \<open>n\<close> words from offset \<open>so\<close> of one block to offset \<open>d\<close> of another.\<close>

definition copy_words :: "words \<Rightarrow> nat \<Rightarrow> nat \<Rightarrow> nat \<Rightarrow> words \<Rightarrow> words" where
  "copy_words src so n d dst = (\<lambda>i. if d \<le> i \<and> i < d + n then src (so + (i - d)) else dst i)"

text \<open>The two copies of an expansion: \<open>usage_bytes / 4\<close> words of usage bits and \<open>n\<close> pointers.\<close>

definition table_copy :: "desc_table \<Rightarrow> desc_table \<Rightarrow> nat \<Rightarrow> nat \<Rightarrow> desc_table" where
  "table_copy old new usage_words n =
     new\<lparr>tmem := copy_words (tmem old) (tmap old) n (tmap new)
                    (copy_words (tmem old) 0 usage_words 0 (tmem new))\<rparr>"

text \<open>A descriptor is valid when it is in range and its usage bit is set: the guard of get, set and free.\<close>

definition valid_descriptor :: "desc_mapping \<Rightarrow> int \<Rightarrow> bool" where
  "valid_descriptor m d \<longleftrightarrow> 0 \<le> d \<and> d < current_nr_mappings m \<and> table_test d (table m)"

subsection \<open>Invariant and abstraction\<close>

text \<open>
  A well-formed table for \<open>cur\<close> descriptors: the block is laid out for exactly \<open>cur\<close> entries,
  descriptor 0 is reserved and maps to \<open>NULL\<close>.
\<close>

definition wf_mapping :: "desc_mapping \<Rightarrow> bool" where
  "wf_mapping m \<longleftrightarrow>
     (let cur = current_nr_mappings m; t = table m
      in 32 \<le> cur \<and> cur < 2 ^ 30 \<and> cur mod 32 = 0 \<and> max_nr_mappings_allowed m \<le> 2 ^ 29 \<and>
         tmap t = nat cur div 32 \<and> tsize t = nat cur div 32 + nat cur \<and>
         usage_bit (tmem t) 0 \<and> tmem t (tmap t) = 0)"

definition map_contents :: "desc_mapping \<Rightarrow> nat \<Rightarrow> ptr option" where
  "map_contents m d =
     (if 0 < d \<and> int d < current_nr_mappings m \<and> usage_bit (tmem (table m)) d
      then Some (tmem (table m) (tmap (table m) + d)) else None)"

lemma unat_word_of_int [simp]:
  "0 \<le> d \<Longrightarrow> d < 2 ^ 32 \<Longrightarrow> unat (word_of_int d :: u32) = nat d"
  by (simp add: unsigned_of_int take_bit_int_eq_self)

lemma div32_less:
  assumes "x mod 32 = 0" "e < nat x"
  shows "e div 32 < nat x div 32"
proof -
  define k where "k = nat x"
  have x: "x = int k" using assms(2) by (simp add: k_def)
  have "int (k mod 32) = 0" using assms(1) by (simp only: x zmod_int of_nat_numeral)
  then have "k mod 32 = 0" by (simp only: of_nat_eq_0_iff)
  moreover have "e < k" using assms(2) by (simp only: k_def)
  ultimately have "e < k div 32 * 32" by (simp add: mod_0_imp_dvd)
  then have "e div 32 < k div 32" by (rule less_mult_imp_div_less)
  then show ?thesis by (simp add: x)
qed

lemma wf_bounds:
  assumes "wf_mapping m" "0 \<le> d" "d < current_nr_mappings m"
  shows "unat (word_of_int d :: u32) = nat d" "nat d div 32 < tmap (table m)"
    "nat d div 32 < tsize (table m)" "tmap (table m) + nat d < tsize (table m)"
proof -
  have c: "current_nr_mappings m mod 32 = 0" "current_nr_mappings m < 2 ^ 30"
    "tmap (table m) = nat (current_nr_mappings m) div 32"
    "tsize (table m) = nat (current_nr_mappings m) div 32 + nat (current_nr_mappings m)"
    using assms(1) by (auto simp: wf_mapping_def Let_def)
  show "unat (word_of_int d :: u32) = nat d" using assms c(2) by simp
  show *: "nat d div 32 < tmap (table m)"
    unfolding c(3) using div32_less[OF c(1)] assms(2,3) by simp
  show "nat d div 32 < tsize (table m)" using * c by simp
  show "tmap (table m) + nat d < tsize (table m)" using assms c by simp
qed

lemma valid_descriptor_contents:
  "wf_mapping m \<Longrightarrow> 0 < d \<Longrightarrow> valid_descriptor m (int d) \<longleftrightarrow> map_contents m d \<noteq> None"
  using wf_bounds(1)[of m "int d"] by (auto simp: valid_descriptor_def table_test_def map_contents_def)

lemma load_contents:
  "map_contents m d = Some p \<Longrightarrow> table_load (int d) (table m) = p"
  by (auto simp: map_contents_def table_load_def split: if_splits)

lemma usage_bit_below:
  "(\<And>i. i < k \<Longrightarrow> f i = g i) \<Longrightarrow> n div 32 < k \<Longrightarrow> usage_bit f n = usage_bit g n"
  by (simp add: usage_bit_def)

text \<open>Storing a pointer and setting or clearing a usage bit, in range, do what they say on the contents.\<close>

lemma store_ok:
  assumes wf: "wf_mapping m" and d: "0 < d" "d < current_nr_mappings m"
  obtains t1 t2 where "table_set_usage d (table m) = Done t1" "table_store d v t1 = Done t2"
    "wf_mapping (m\<lparr>table := t2\<rparr>)" "map_contents (m\<lparr>table := t2\<rparr>) = (map_contents m)(nat d \<mapsto> v)"
proof -
  let ?t = "table m"
  note b = wf_bounds[OF wf less_imp_le[OF d(1)] d(2)]
  define t1 where "t1 = ?t\<lparr>tmem := mali_osk_set_nonatomic_bit (word_of_int d) (tmem ?t)\<rparr>"
  define t2 where "t2 = t1\<lparr>tmem := (tmem t1)(tmap ?t + nat d := v)\<rparr>"
  have mapreg: "tmem t1 (tmap ?t + i) = tmem ?t (tmap ?t + i)" for i
    using b by (simp add: t1_def set_bit_frame)
  have use: "usage_bit (tmem t2) n \<longleftrightarrow> n = nat d \<or> usage_bit (tmem ?t) n" if "n div 32 < tmap ?t" for n
  proof -
    have "usage_bit (tmem t2) n = usage_bit (tmem t1) n"
      by (rule usage_bit_below[OF _ that]) (simp add: t2_def)
    then show ?thesis using b(1) by (simp add: t1_def)
  qed
  have z: "0 < tmap ?t" using b(2) by simp
  show ?thesis
  proof (rule that[of t1 t2])
    show "table_set_usage d (table m) = Done t1" "table_store d v t1 = Done t2"
      using b by (simp_all add: table_set_usage_def table_store_def t1_def t2_def)
    show "wf_mapping (m\<lparr>table := t2\<rparr>)"
      using wf use[of 0] z mapreg[of 0] d by (auto simp: wf_mapping_def Let_def t2_def t1_def)
    show "map_contents (m\<lparr>table := t2\<rparr>) = (map_contents m)(nat d \<mapsto> v)"
    proof
      fix e
      show "map_contents (m\<lparr>table := t2\<rparr>) e = ((map_contents m)(nat d \<mapsto> v)) e"
        using use[of e] wf_bounds(2)[OF wf, of "int e"] d mapreg[of e]
        by (auto simp: map_contents_def t2_def t1_def)
    qed
  qed
qed

lemma load_store_frame:
  assumes wf: "wf_mapping m" and v: "valid_descriptor m d" and d: "0 < d"
  shows "\<exists>t'. table_store d p (table m) = Done t' \<and> wf_mapping (m\<lparr>table := t'\<rparr>) \<and>
           map_contents (m\<lparr>table := t'\<rparr>) = (map_contents m)(nat d \<mapsto> p)"
proof -
  let ?t = "table m"
  have dr: "0 \<le> d" "d < current_nr_mappings m" and dv: "table_test d ?t"
    using v by (auto simp: valid_descriptor_def)
  note b = wf_bounds[OF wf dr]
  define t' where "t' = ?t\<lparr>tmem := (tmem ?t)(tmap ?t + nat d := p)\<rparr>"
  have use: "usage_bit (tmem t') n = usage_bit (tmem ?t) n" if "n div 32 < tmap ?t" for n
    by (rule usage_bit_below[OF _ that]) (simp add: t'_def)
  have "wf_mapping (m\<lparr>table := t'\<rparr>)"
    using wf use[of 0] b d by (auto simp: wf_mapping_def Let_def t'_def)
  moreover have "map_contents (m\<lparr>table := t'\<rparr>) e = ((map_contents m)(nat d \<mapsto> p)) e" for e
    using use[of e] wf_bounds(2)[OF wf, of "int e"] dr dv d b(1)
    by (auto simp: map_contents_def t'_def table_test_def)
  ultimately show ?thesis
    using b by (auto simp: table_store_def t'_def)
qed

lemma clear_ok:
  assumes wf: "wf_mapping m" and v: "valid_descriptor m d" and d: "0 < d"
  obtains t1 t2 where "table_store d 0 (table m) = Done t1" "table_clear_usage d t1 = Done t2"
    "wf_mapping (m\<lparr>table := t2\<rparr>)" "map_contents (m\<lparr>table := t2\<rparr>) = (map_contents m)(nat d := None)"
proof -
  let ?t = "table m"
  have dr: "0 \<le> d" "d < current_nr_mappings m" using v by (auto simp: valid_descriptor_def)
  note b = wf_bounds[OF wf dr]
  define t1 where "t1 = ?t\<lparr>tmem := (tmem ?t)(tmap ?t + nat d := 0)\<rparr>"
  define t2 where "t2 = t1\<lparr>tmem := mali_osk_clear_nonatomic_bit (word_of_int d) (tmem t1)\<rparr>"
  have mapreg: "tmem t2 (tmap ?t + i) = (if i = nat d then 0 else tmem ?t (tmap ?t + i))" for i
    using b by (simp add: t2_def t1_def clear_bit_frame)
  have use: "usage_bit (tmem t2) n \<longleftrightarrow> n \<noteq> nat d \<and> usage_bit (tmem ?t) n" if "n div 32 < tmap ?t" for n
  proof -
    have "usage_bit (tmem t1) n = usage_bit (tmem ?t) n"
      by (rule usage_bit_below[OF _ that]) (simp add: t1_def)
    then show ?thesis using b(1) by (simp add: t2_def)
  qed
  show ?thesis
  proof (rule that[of t1 t2])
    show "table_store d 0 (table m) = Done t1" "table_clear_usage d t1 = Done t2"
      using b by (simp_all add: table_clear_usage_def table_store_def t1_def t2_def)
    show "wf_mapping (m\<lparr>table := t2\<rparr>)"
      using wf use[of 0] b mapreg[of 0] d by (auto simp: wf_mapping_def Let_def t2_def t1_def)
    show "map_contents (m\<lparr>table := t2\<rparr>) = (map_contents m)(nat d := None)"
    proof
      fix e
      show "map_contents (m\<lparr>table := t2\<rparr>) e = ((map_contents m)(nat d := None)) e"
        using use[of e] wf_bounds(2)[OF wf, of "int e"] d mapreg[of e]
        by (auto simp: map_contents_def t2_def t1_def)
    qed
  qed
qed

text \<open>
  Expanding: the new table keeps the contents, whatever number of pointers beyond the old ones is
  copied, provided that the usage words copied beyond the old ones are zero.
\<close>

lemma expand_ok:
  assumes wf: "wf_mapping m" and cur: "current_nr_mappings m \<le> cur'" "cur' < 2 ^ 30" "cur' mod 32 = 0"
    and new: "descriptor_table_alloc (Some beyond) cur' = Some new"
    and uw: "nat (current_nr_mappings m) div 32 \<le> uw" "uw \<le> nat cur' div 32"
    and z: "\<forall>i. nat (current_nr_mappings m) div 32 \<le> i \<and> i < uw \<longrightarrow> tmem (table m) i = 0"
    and n: "nat (current_nr_mappings m) \<le> n" "n \<le> nat cur'"
  defines "m' \<equiv> m\<lparr>current_nr_mappings := cur', table := table_copy (table m) new uw n\<rparr>"
  shows "wf_mapping m'" "map_contents m' = map_contents m"
    "\<forall>e. current_nr_mappings m \<le> int e \<and> int e < cur' \<longrightarrow> \<not> usage_bit (tmem (table m')) e"
proof -
  let ?c = "nat (current_nr_mappings m)"
  have c: "32 \<le> current_nr_mappings m" "current_nr_mappings m mod 32 = 0" "tmap (table m) = ?c div 32"
    "usage_bit (tmem (table m)) 0" "tmem (table m) (tmap (table m)) = 0"
    "max_nr_mappings_allowed m \<le> 2 ^ 29"
    using wf by (auto simp: wf_mapping_def Let_def)
  have nw: "tmap new = nat cur' div 32" "tsize new = nat cur' div 32 + nat cur'"
    "\<And>i. i < nat cur' div 32 + nat cur' \<Longrightarrow> tmem new i = 0"
    using new by (auto simp: descriptor_table_alloc_def Let_def)
  have cc: "?c div 32 \<le> nat cur' div 32" "32 \<le> ?c" "?c \<le> nat cur'"
    using c(1) cur(1) by (auto intro: div_le_mono)
  have lo: "tmem (table m') i = tmem (table m) i" if "i < ?c div 32" for i
    using that uw cc by (simp add: m'_def table_copy_def copy_words_def nw)
  have mid: "tmem (table m') i = 0" if "?c div 32 \<le> i" "i < nat cur' div 32" for i
    using that uw z nw(3) by (auto simp: m'_def table_copy_def copy_words_def nw(1))
  have hi: "tmem (table m') (tmap (table m') + i) = tmem (table m) (tmap (table m) + i)" if "i < ?c" for i
    using that n by (simp add: m'_def table_copy_def copy_words_def)
  have fresh: "\<not> usage_bit (tmem (table m')) e" if "?c \<le> e" "e < nat cur'" for e
  proof -
    have "?c div 32 \<le> e div 32" using that by (simp add: div_le_mono)
    moreover have "e div 32 < nat cur' div 32"
      using that(2) cur(3) by (intro div32_less)
    ultimately show ?thesis using mid by (simp add: usage_bit_def)
  qed
  have old: "usage_bit (tmem (table m')) e = usage_bit (tmem (table m)) e" if "e < ?c" for e
    by (rule usage_bit_below[of "?c div 32"])
      (use lo that wf_bounds(2)[OF wf, of "int e"] c(3) in auto)
  show "wf_mapping m'"
    using cur c cc nw old[of 0] hi[of 0]
    by (auto simp: wf_mapping_def Let_def m'_def table_copy_def)
  show "map_contents m' = map_contents m"
  proof
    fix e
    show "map_contents m' e = map_contents m e"
      using old[of e] hi[of e] fresh[of e] cc cur(1)
      by (cases "e < ?c") (auto simp: map_contents_def m'_def zless_nat_eq_int_zless)
  qed
  show "\<forall>e. current_nr_mappings m \<le> int e \<and> int e < cur' \<longrightarrow> \<not> usage_bit (tmem (table m')) e"
    using fresh by auto
qed

text \<open>The search in a well-formed table: the least free descriptor, or the capacity.\<close>

lemma find_descriptor:
  assumes wf: "wf_mapping m"
  obtains n w where
    "mali_osk_find_first_zero_bit (tmem (table m)) (word_of_int (current_nr_mappings m)) = Some w"
    "sint w = int n" "0 < n" "int n \<le> current_nr_mappings m"
    "\<forall>e. 0 < e \<and> e < n \<longrightarrow> map_contents m e \<noteq> None"
    "int n < current_nr_mappings m \<Longrightarrow> map_contents m n = None"
proof -
  let ?cur = "nat (current_nr_mappings m)"
  have c: "32 \<le> current_nr_mappings m" "current_nr_mappings m < 2 ^ 30" "usage_bit (tmem (table m)) 0"
    using wf by (auto simp: wf_mapping_def Let_def)
  then have cw: "word_of_int (current_nr_mappings m) = (of_nat ?cur :: u32)" by simp
  have le: "?cur \<le> 2 ^ 32 - 32" using c(2) by simp
  obtain n where n: "mali_osk_find_first_zero_bit (tmem (table m)) (of_nat ?cur) = Some (of_nat n)"
    "first_zero (tmem (table m)) ?cur n"
    using find_first_zero_bit_correct[of ?cur "tmem (table m)"] le by blast
  have nb: "int n \<le> current_nr_mappings m" "\<forall>i < n. usage_bit (tmem (table m)) i"
    "n < ?cur \<longrightarrow> \<not> usage_bit (tmem (table m)) n"
    using n(2) c by (auto simp: first_zero_def)
  show ?thesis
  proof (rule that[of "of_nat n" n])
    show "mali_osk_find_first_zero_bit (tmem (table m)) (word_of_int (current_nr_mappings m))
        = Some (of_nat n)"
      unfolding cw by (rule n(1))
    show "sint (of_nat n :: u32) = int n"
      using nb(1) c(2) by (simp add: signed_of_nat signed_take_bit_int_eq_self)
    show "0 < n" using nb(3) c by (cases n) auto
    show "int n \<le> current_nr_mappings m" by (rule nb(1))
    show "\<forall>e. 0 < e \<and> e < n \<longrightarrow> map_contents m e \<noteq> None"
      using nb by (auto simp: map_contents_def)
    show "map_contents m n = None" if "int n < current_nr_mappings m"
      using that nb(3) by (auto simp: map_contents_def)
  qed
qed

text \<open>A fresh table with bit 0 set is a well-formed empty mapping.\<close>

lemma fresh_table_ok:
  assumes cap: "32 \<le> cur" "cur < 2 ^ 30" "cur mod 32 = 0" and max: "mx \<le> 2 ^ 29"
    and t: "descriptor_table_alloc (Some beyond) cur = Some t"
  obtains t' where "table_set_usage 0 t = Done t'"
    "wf_mapping \<lparr>max_nr_mappings_allowed = mx, current_nr_mappings = cur, table = t'\<rparr>"
    "map_contents \<lparr>max_nr_mappings_allowed = mx, current_nr_mappings = cur, table = t'\<rparr> = Map.empty"
proof -
  have tt: "tmap t = nat cur div 32" "tsize t = nat cur div 32 + nat cur"
    "\<And>i. i < nat cur div 32 + nat cur \<Longrightarrow> tmem t i = 0"
    using t by (auto simp: descriptor_table_alloc_def Let_def)
  have pos: "0 < nat cur div 32" using cap(1) by (simp add: div_greater_zero_iff)
  define t' where "t' = t\<lparr>tmem := mali_osk_set_nonatomic_bit (word_of_int 0) (tmem t)\<rparr>"
  have use: "usage_bit (tmem t') e \<longleftrightarrow> e = 0" if "e < nat cur" for e
  proof -
    have "e div 32 < nat cur div 32" using div32_less[OF cap(3) that] .
    then have "\<not> usage_bit (tmem t) e" using tt(3) by (simp add: usage_bit_def)
    then show ?thesis by (simp add: t'_def)
  qed
  have "tmem t' (nat cur div 32) = 0"
    using pos tt(3)[of "nat cur div 32"] cap(1) by (simp add: t'_def set_bit_frame)
  moreover have "table_set_usage 0 t = Done t'"
    using pos by (simp add: table_set_usage_def t'_def tt(2))
  moreover have "tmap t' = nat cur div 32" "tsize t' = nat cur div 32 + nat cur"
    by (simp_all add: t'_def tt)
  ultimately show ?thesis
    using cap max use
    by (intro that[of t'])
      (auto simp: wf_mapping_def Let_def map_contents_def fun_eq_iff zless_nat_eq_int_zless)
qed

text \<open>A mapping is full when every descriptor below its capacity is in use.\<close>

definition mapping_full :: "desc_mapping \<Rightarrow> bool" where
  "mapping_full m \<longleftrightarrow> (\<forall>e. 0 < e \<and> int e < current_nr_mappings m \<longrightarrow> map_contents m e \<noteq> None)"

lemma find_free:
  assumes wf: "wf_mapping m" and free: "\<not> mapping_full m"
  obtains n w where
    "mali_osk_find_first_zero_bit (tmem (table m)) (word_of_int (current_nr_mappings m)) = Some w"
    "sint w = int n" "0 < n" "int n < current_nr_mappings m" "map_contents m n = None"
    "\<forall>e. 0 < e \<and> e < n \<longrightarrow> map_contents m e \<noteq> None"
proof -
  obtain n w where n:
    "mali_osk_find_first_zero_bit (tmem (table m)) (word_of_int (current_nr_mappings m)) = Some w"
    "sint w = int n" "0 < n" "int n \<le> current_nr_mappings m"
    "\<forall>e. 0 < e \<and> e < n \<longrightarrow> map_contents m e \<noteq> None"
    "int n < current_nr_mappings m \<Longrightarrow> map_contents m n = None"
    using find_descriptor[OF wf] by blast
  have lt: "int n < current_nr_mappings m"
    using free n(4,5) by (fastforce simp: mapping_full_def)
  show ?thesis by (rule that[of w n]) (use n lt in simp_all)
qed

text \<open>In a full mapping the search returns the capacity, and what follows depends on the limit.\<close>

lemma find_full:
  assumes wf: "wf_mapping m" and full: "mapping_full m"
  obtains w where
    "mali_osk_find_first_zero_bit (tmem (table m)) (word_of_int (current_nr_mappings m)) = Some w"
    "sint w = current_nr_mappings m"
proof -
  obtain n w where n:
    "mali_osk_find_first_zero_bit (tmem (table m)) (word_of_int (current_nr_mappings m)) = Some w"
    "sint w = int n" "0 < n" "int n \<le> current_nr_mappings m"
    "int n < current_nr_mappings m \<Longrightarrow> map_contents m n = None"
    using find_descriptor[OF wf] by blast
  have "int n = current_nr_mappings m"
    using full n(3-5) by (cases "int n < current_nr_mappings m") (auto simp: mapping_full_def)
  then show ?thesis using that n by simp
qed

lemma wf_current:
  assumes "wf_mapping m"
  shows "32 \<le> current_nr_mappings m" "current_nr_mappings m < 2 ^ 30" "current_nr_mappings m mod 32 = 0"
    "max_nr_mappings_allowed m \<le> 2 ^ 29" "tmem (table m) (nat (current_nr_mappings m) div 32) = 0"
    "tmap (table m) = nat (current_nr_mappings m) div 32"
  using assms by (auto simp: wf_mapping_def Let_def)

subsection \<open>Two concrete mappings\<close>

definition demo_empty :: desc_mapping where
  "demo_empty = \<lparr>max_nr_mappings_allowed = 64, current_nr_mappings = 32,
     table = \<lparr>tmem = (\<lambda>i. if i = 0 then 1 else 0), tsize = 33, tmap = 1\<rparr>\<rparr>"

definition demo_full :: desc_mapping where
  "demo_full = \<lparr>max_nr_mappings_allowed = 64, current_nr_mappings = 32,
     table = \<lparr>tmem = (\<lambda>i. if i = 0 then - 1 else if 1 < i \<and> i < 33 then 9 else 0), tsize = 33, tmap = 1\<rparr>\<rparr>"

lemma demo_empty_ok:
  "wf_mapping demo_empty" "\<not> mapping_full demo_empty" "map_contents demo_empty = Map.empty"
  by (auto simp: wf_mapping_def demo_empty_def mapping_full_def map_contents_def usage_bit_def
      bit_1_iff intro!: exI[of _ 1] ext)

lemma demo_full_ok:
  "wf_mapping demo_full" "mapping_full demo_full" "current_nr_mappings demo_full = 32"
  "max_nr_mappings_allowed demo_full = 64"
  by (auto simp: wf_mapping_def demo_full_def mapping_full_def map_contents_def usage_bit_def)

end
