(* ===== verification/Descriptor_Mapping.thy ===== *)
theory Descriptor_Mapping
  imports Descriptor_Table
begin

text \<open>
  The Mali descriptor mapping, mali\_kernel\_descriptor\_mapping.c.  Every function takes what the
  memory allocator and the lock constructor return as arguments.  The lock makes each operation
  atomic, so an operation is a function on the mapping.
\<close>

definition mali_descriptor_mapping_create ::
  "bool \<Rightarrow> words option \<Rightarrow> bool \<Rightarrow> int \<Rightarrow> int \<Rightarrow> desc_mapping option outcome" where
  "mali_descriptor_mapping_create map_alloc calloc lock_ok init_entries max_entries =
     (let init_entries = mali_pad_int init_entries; max_entries = mali_pad_int max_entries
      in if map_alloc then
           (case descriptor_table_alloc calloc init_entries of
              None \<Rightarrow> Done None
            | Some t \<Rightarrow>
                if lock_ok then
                  bind_outcome (table_set_usage 0 t)
                    (\<lambda>t'. Done (Some \<lparr>max_nr_mappings_allowed = max_entries,
                                     current_nr_mappings = init_entries, table = t'\<rparr>))
                else Done None)
         else Done None)"

text \<open>The tail of an allocation, once a descriptor has been found.\<close>

definition mali_take_descriptor ::
  "desc_mapping \<Rightarrow> int \<Rightarrow> ptr \<Rightarrow> (osk_err \<times> int option \<times> desc_mapping) outcome" where
  "mali_take_descriptor m d target =
     bind_outcome (table_set_usage d (table m))
       (\<lambda>t1. bind_outcome (table_store d target t1)
          (\<lambda>t2. Done (ERR_OK, Some d, m\<lparr>table := t2\<rparr>)))"

definition mali_descriptor_mapping_allocate_mapping ::
  "words option \<Rightarrow> desc_mapping \<Rightarrow> ptr \<Rightarrow> (osk_err \<times> int option \<times> desc_mapping) outcome" where
  "mali_descriptor_mapping_allocate_mapping calloc m target =
     (case mali_osk_find_first_zero_bit (tmem (table m)) (word_of_int (current_nr_mappings m)) of
        None \<Rightarrow> Diverge
      | Some w \<Rightarrow>
          (let new_descriptor = sint w
           in if new_descriptor = current_nr_mappings m then
                if current_nr_mappings m \<ge> max_nr_mappings_allowed m then Done (ERR_FAULT, None, m)
                else
                  (let nr = int32 (current_nr_mappings m + 32);
                       m' = m\<lparr>current_nr_mappings := nr\<rparr>
                   in case descriptor_table_alloc calloc nr of
                        None \<Rightarrow> Done (ERR_FAULT, None, m')
                      | Some new_table \<Rightarrow>
                          mali_take_descriptor
                            (m'\<lparr>table := table_copy (table m) new_table (nat nr div 32) (nat nr)\<rparr>)
                            new_descriptor target)
              else mali_take_descriptor m new_descriptor target))"

text \<open>The callback's effect is a state transformer; the read lock keeps the mapping fixed meanwhile.\<close>

definition mali_descriptor_mapping_call_for_each ::
  "desc_mapping \<Rightarrow> (int \<Rightarrow> ptr \<Rightarrow> 's \<Rightarrow> 's) \<Rightarrow> 's \<Rightarrow> 's" where
  "mali_descriptor_mapping_call_for_each m callback s =
     fold (\<lambda>i s. if table_test i (table m) then callback i (table_load i (table m)) s else s)
       [1..current_nr_mappings m - 1] s"

definition mali_descriptor_mapping_get :: "desc_mapping \<Rightarrow> int \<Rightarrow> osk_err \<times> ptr" where
  "mali_descriptor_mapping_get m d =
     (if valid_descriptor m d then (ERR_OK, table_load d (table m)) else (ERR_FAULT, 0))"

definition mali_descriptor_mapping_set ::
  "desc_mapping \<Rightarrow> int \<Rightarrow> ptr \<Rightarrow> (osk_err \<times> desc_mapping) outcome" where
  "mali_descriptor_mapping_set m d target =
     (if valid_descriptor m d then
        bind_outcome (table_store d target (table m)) (\<lambda>t. Done (ERR_OK, m\<lparr>table := t\<rparr>))
      else Done (ERR_FAULT, m))"

definition mali_descriptor_mapping_free :: "desc_mapping \<Rightarrow> int \<Rightarrow> desc_mapping outcome" where
  "mali_descriptor_mapping_free m d =
     (if valid_descriptor m d then
        bind_outcome (table_store d 0 (table m))
          (\<lambda>t1. bind_outcome (table_clear_usage d t1) (\<lambda>t2. Done (m\<lparr>table := t2\<rparr>)))
      else Done m)"

subsection \<open>What each operation does\<close>

lemma pad_int_nonneg:
  assumes "0 \<le> x" "x \<le> 2 ^ 29"
  shows "mali_pad_int x = 32 * ((x + 31) div 32)"
proof -
  define n where "n = nat (x + 31)"
  have n: "x + 31 = int n" "n < 2 ^ 30" using assms by (auto simp: n_def)
  have w: "word_of_int x + (32 - 1) = (of_nat n :: u32)"
  proof -
    have "word_of_int x + (32 - 1) = (word_of_int (x + 31) :: u32)" by simp
    then show ?thesis by (simp only: n(1) of_int_of_nat_eq)
  qed
  have m: "(32 - 1 :: u32) = mask 5" by (simp add: mask_eq_exp_minus_1)
  define u where "u = (of_nat n AND NOT (mask 5) :: u32)"
  have un: "unat (of_nat n :: u32) = n"
    using n(2) by (simp add: unsigned_of_nat take_bit_nat_eq_self)
  have uu: "unat u = 32 * (n div 32)"
    using unat_align_down[of "of_nat n" 5] by (simp only: un u_def) simp
  have "sint u = int (unat u)"
  proof -
    have "unat u < 2 ^ 31" using n(2) uu by simp
    then show ?thesis by (rule sint_eq_unat)
  qed
  moreover have "mali_pad_int x = sint u"
    by (simp only: mali_pad_int_def m w[unfolded m] u_def)
  ultimately show ?thesis using n(1) uu by (simp add: zdiv_int)
qed

text \<open>Taking a free descriptor in range: both writes stay inside the block.\<close>

lemma take_descriptor_ok:
  assumes "wf_mapping m" "0 < d" "d < current_nr_mappings m"
  obtains m' where "mali_take_descriptor m d t = Done (ERR_OK, Some d, m')" "wf_mapping m'"
    "map_contents m' = (map_contents m)(nat d \<mapsto> t)"
    "current_nr_mappings m' = current_nr_mappings m"
    "max_nr_mappings_allowed m' = max_nr_mappings_allowed m"
proof -
  obtain t1 t2 where t: "table_set_usage d (table m) = Done t1" "table_store d t t1 = Done t2"
    "wf_mapping (m\<lparr>table := t2\<rparr>)" "map_contents (m\<lparr>table := t2\<rparr>) = (map_contents m)(nat d \<mapsto> t)"
    using store_ok[OF assms] by blast
  show ?thesis
    by (rule that[of "m\<lparr>table := t2\<rparr>"]) (use t in \<open>simp_all add: mali_take_descriptor_def\<close>)
qed

lemma allocate_free:
  assumes wf: "wf_mapping m" and free: "\<not> mapping_full m"
  obtains n m' where "mali_descriptor_mapping_allocate_mapping c m t = Done (ERR_OK, Some (int n), m')"
    "0 < n" "int n < current_nr_mappings m" "map_contents m n = None"
    "\<forall>e. 0 < e \<and> e < n \<longrightarrow> map_contents m e \<noteq> None"
    "wf_mapping m'" "map_contents m' = (map_contents m)(n \<mapsto> t)"
    "current_nr_mappings m' = current_nr_mappings m"
proof -
  obtain n w where n:
    "mali_osk_find_first_zero_bit (tmem (table m)) (word_of_int (current_nr_mappings m)) = Some w"
    "sint w = int n" "0 < n" "int n < current_nr_mappings m" "map_contents m n = None"
    "\<forall>e. 0 < e \<and> e < n \<longrightarrow> map_contents m e \<noteq> None"
    by (rule find_free[OF assms])
  obtain m' where m': "mali_take_descriptor m (int n) t = Done (ERR_OK, Some (int n), m')"
    "wf_mapping m'" "map_contents m' = (map_contents m)(n \<mapsto> t)"
    "current_nr_mappings m' = current_nr_mappings m"
    using take_descriptor_ok[OF wf, of "int n" t] n(3,4) by auto
  show ?thesis
    by (rule that[of n m'])
      (use n m' in \<open>simp_all add: mali_descriptor_mapping_allocate_mapping_def Let_def\<close>)
qed

lemma allocate_limit:
  assumes "wf_mapping m" "mapping_full m" "max_nr_mappings_allowed m \<le> current_nr_mappings m"
  shows "mali_descriptor_mapping_allocate_mapping c m t = Done (ERR_FAULT, None, m)"
proof -
  obtain w where
    "mali_osk_find_first_zero_bit (tmem (table m)) (word_of_int (current_nr_mappings m)) = Some w"
    "sint w = current_nr_mappings m"
    by (rule find_full[OF assms(1,2)])
  then show ?thesis using assms(3) by (simp add: mali_descriptor_mapping_allocate_mapping_def)
qed

lemma allocate_no_memory:
  assumes wf: "wf_mapping m" and "mapping_full m" "current_nr_mappings m < max_nr_mappings_allowed m"
  shows "mali_descriptor_mapping_allocate_mapping None m t =
           Done (ERR_FAULT, None, m\<lparr>current_nr_mappings := current_nr_mappings m + 32\<rparr>)"
proof -
  obtain w where
    "mali_osk_find_first_zero_bit (tmem (table m)) (word_of_int (current_nr_mappings m)) = Some w"
    "sint w = current_nr_mappings m"
    by (rule find_full[OF assms(1,2)])
  moreover have "int32 (current_nr_mappings m + 32) = current_nr_mappings m + 32"
    using wf_current(1,2)[OF wf] by simp
  ultimately show ?thesis using assms(3)
    by (simp add: mali_descriptor_mapping_allocate_mapping_def descriptor_table_alloc_def)
qed

text \<open>
  The expansion copies one usage word and 32 pointers more than the old block's own; the word is
  \<open>mappings[0]\<close>, which is \<open>NULL\<close>, so the contents are kept all the same.
\<close>

lemma allocate_expand:
  assumes wf: "wf_mapping m" and full: "mapping_full m"
    and lim: "current_nr_mappings m < max_nr_mappings_allowed m"
  obtains m' where "mali_descriptor_mapping_allocate_mapping (Some beyond) m t =
      Done (ERR_OK, Some (current_nr_mappings m), m')"
    "wf_mapping m'" "map_contents m' = (map_contents m)(nat (current_nr_mappings m) \<mapsto> t)"
    "current_nr_mappings m' = current_nr_mappings m + 32"
proof -
  let ?c = "current_nr_mappings m" and ?c' = "current_nr_mappings m + 32"
  note c = wf_current[OF wf]
  obtain w where w:
    "mali_osk_find_first_zero_bit (tmem (table m)) (word_of_int ?c) = Some w" "sint w = ?c"
    using find_full[OF wf full] by blast
  obtain new where new: "descriptor_table_alloc (Some beyond) ?c' = Some new"
    by (simp add: descriptor_table_alloc_def Let_def)
  have q: "nat ?c' div 32 = Suc (nat ?c div 32)"
    using c(1) by (simp add: nat_add_distrib)
  define m1 where "m1 = m\<lparr>current_nr_mappings := ?c',
      table := table_copy (table m) new (nat ?c' div 32) (nat ?c')\<rparr>"
  have z: "\<forall>i. nat ?c div 32 \<le> i \<and> i < nat ?c' div 32 \<longrightarrow> tmem (table m) i = 0"
    using c(5) by (auto simp: q less_Suc_eq le_less)
  have wf1: "wf_mapping m1" "map_contents m1 = map_contents m"
    unfolding m1_def
    by (rule expand_ok[OF wf _ _ _ new _ _ z]; use c lim in \<open>simp add: nat_add_distrib\<close>)+
  obtain m' where m': "mali_take_descriptor m1 ?c t = Done (ERR_OK, Some ?c, m')"
    "wf_mapping m'" "map_contents m' = (map_contents m1)(nat ?c \<mapsto> t)"
    "current_nr_mappings m' = current_nr_mappings m1"
    using take_descriptor_ok[OF wf1(1), of ?c t] c(1) by (auto simp: m1_def)
  have i32: "int32 ?c' = ?c'" using c(1,2) by simp
  have "mali_descriptor_mapping_allocate_mapping (Some beyond) m t = mali_take_descriptor m1 ?c t"
    using w lim by (simp add: mali_descriptor_mapping_allocate_mapping_def Let_def i32 new m1_def)
  then show ?thesis
    by (intro that[of m']) (use m' wf1 in \<open>simp_all add: m1_def\<close>)
qed

text \<open>
  After a failed expansion the capacity is 32 too large for the block.  The search then reads
  \<open>mappings[0]\<close> as a usage word and finds its first bit clear; the next allocation sets that bit and
  stores the target behind the end of the block.
\<close>

lemma allocate_after_no_memory:
  assumes wf: "wf_mapping m" and full: "mapping_full m"
    and lim: "current_nr_mappings m < max_nr_mappings_allowed m"
  shows "mali_descriptor_mapping_allocate_mapping c
           (m\<lparr>current_nr_mappings := current_nr_mappings m + 32\<rparr>) t = Corrupt"
proof -
  let ?c = "nat (current_nr_mappings m)" and ?m = "tmem (table m)"
  note c = wf_current[OF wf]
  have lay: "tsize (table m) = ?c div 32 + ?c" using wf by (simp add: wf_mapping_def Let_def)
  obtain k where k: "?c = 32 * k" "int ?c = current_nr_mappings m"
  proof (rule that[of "?c div 32"])
    have "?c mod 32 = 0" using nat_mod_distrib[of "current_nr_mappings m" 32] c(1,3) by simp
    then show "?c = 32 * (?c div 32)" by (simp add: mod_0_imp_dvd)
  qed (use c(1) in simp)
  have used: "usage_bit ?m i" if "i < ?c" for i
    using that full wf by (cases "i = 0")
      (auto simp: mapping_full_def map_contents_def wf_mapping_def Let_def split: if_splits)
  have free: "\<not> usage_bit ?m ?c" using c(5) by (simp add: usage_bit_def)
  have big: "?c + 32 \<le> 2 ^ 32 - 32" using c(2) by simp
  obtain n where n: "mali_osk_find_first_zero_bit ?m (of_nat (?c + 32)) = Some (of_nat n)"
    "first_zero ?m (?c + 32) n"
    using find_first_zero_bit_correct[of "?c + 32" ?m] big k(1) by auto
  have "n = ?c"
    using n(2) used[of n] free by (cases n ?c rule: linorder_cases) (auto simp: first_zero_def)
  moreover have "word_of_int (current_nr_mappings m + 32) = (of_nat (?c + 32) :: u32)"
  proof -
    have "current_nr_mappings m + 32 = int (?c + 32)" using c(1) by simp
    then show ?thesis by (simp only: of_int_of_nat_eq)
  qed
  ultimately have f: "mali_osk_find_first_zero_bit ?m (word_of_int (current_nr_mappings m + 32)) =
      Some (of_nat ?c)"
    using n(1) by (simp only:)
  have sc: "sint (of_nat ?c :: u32) = current_nr_mappings m"
    using c(1,2) by (subst sint_of_nat) auto
  show ?thesis
    using f sc c(1,2,6) lay
    by (simp add: mali_descriptor_mapping_allocate_mapping_def Let_def mali_take_descriptor_def
        table_set_usage_def table_store_def)
qed

lemma get_spec:
  assumes "wf_mapping m" "0 < d"
  shows "mali_descriptor_mapping_get m (int d) =
           (case map_contents m d of Some p \<Rightarrow> (ERR_OK, p) | None \<Rightarrow> (ERR_FAULT, 0))"
  using valid_descriptor_contents[OF assms]
  by (cases "map_contents m d") (auto simp: mali_descriptor_mapping_get_def load_contents)

lemma get_negative: "d < 0 \<Longrightarrow> mali_descriptor_mapping_get m d = (ERR_FAULT, 0)"
  by (simp add: mali_descriptor_mapping_get_def valid_descriptor_def)

lemma set_spec:
  assumes "wf_mapping m" "0 < d"
  shows "map_contents m d = None \<and> mali_descriptor_mapping_set m (int d) p = Done (ERR_FAULT, m) \<or>
         map_contents m d \<noteq> None \<and>
         (\<exists>m'. mali_descriptor_mapping_set m (int d) p = Done (ERR_OK, m') \<and> wf_mapping m' \<and>
           current_nr_mappings m' = current_nr_mappings m \<and>
           map_contents m' = (map_contents m)(d \<mapsto> p))"
proof (cases "map_contents m d")
  case None
  then show ?thesis using valid_descriptor_contents[OF assms]
    by (simp add: mali_descriptor_mapping_set_def)
next
  case (Some q)
  then have v: "valid_descriptor m (int d)" using valid_descriptor_contents[OF assms] by simp
  show ?thesis
    using load_store_frame[OF assms(1) v, of p] v assms(2) Some
    by (auto simp: mali_descriptor_mapping_set_def)
qed

lemma free_spec:
  assumes "wf_mapping m" "0 < d"
  obtains m' where "mali_descriptor_mapping_free m (int d) = Done m'" "wf_mapping m'"
    "current_nr_mappings m' = current_nr_mappings m" "map_contents m' = (map_contents m)(d := None)"
proof (cases "map_contents m d")
  case None
  then show ?thesis using that[of m] valid_descriptor_contents[OF assms] assms(1)
    by (simp add: mali_descriptor_mapping_free_def fun_upd_idem)
next
  case (Some q)
  then have v: "valid_descriptor m (int d)" using valid_descriptor_contents[OF assms] by simp
  obtain t1 t2 where "table_store (int d) 0 (table m) = Done t1" "table_clear_usage (int d) t1 = Done t2"
    "wf_mapping (m\<lparr>table := t2\<rparr>)"
    "map_contents (m\<lparr>table := t2\<rparr>) = (map_contents m)(nat (int d) := None)"
    by (rule clear_ok[OF assms(1) v]) (use assms(2) in simp_all)
  then show ?thesis using that[of "m\<lparr>table := t2\<rparr>"] v
    by (simp add: mali_descriptor_mapping_free_def)
qed

subsection \<open>The interface\<close>

text \<open>
  The operations in the shape of the interface: a failure is \<open>None\<close>.  The allocator's answer may
  depend on the mapping; since every expansion changes the capacity, this lets every expansion of a
  sequence have its own answer.
\<close>

definition mali_map_alloc ::
  "(desc_mapping \<Rightarrow> words option) \<Rightarrow> desc_mapping \<Rightarrow> ptr \<Rightarrow> (nat \<times> desc_mapping) option" where
  "mali_map_alloc calloc m t =
     (case mali_descriptor_mapping_allocate_mapping (calloc m) m t of
        Done (ERR_OK, Some d, m') \<Rightarrow> Some (nat d, m') | _ \<Rightarrow> None)"

definition mali_map_get :: "desc_mapping \<Rightarrow> nat \<Rightarrow> ptr option" where
  "mali_map_get m d =
     (case mali_descriptor_mapping_get m (int d) of (ERR_OK, p) \<Rightarrow> Some p | _ \<Rightarrow> None)"

definition mali_map_set :: "desc_mapping \<Rightarrow> nat \<Rightarrow> ptr \<Rightarrow> desc_mapping option" where
  "mali_map_set m d p =
     (case mali_descriptor_mapping_set m (int d) p of Done (ERR_OK, m') \<Rightarrow> Some m' | _ \<Rightarrow> None)"

definition mali_map_free :: "desc_mapping \<Rightarrow> nat \<Rightarrow> desc_mapping" where
  "mali_map_free m d = (case mali_descriptor_mapping_free m (int d) of Done m' \<Rightarrow> m' | _ \<Rightarrow> m)"

lemma map_alloc_spec:
  assumes wf: "wf_mapping m" and a: "mali_map_alloc calloc m t = Some (d, m')"
  shows "d \<noteq> 0 \<and> map_contents m d = None \<and> map_contents m' = (map_contents m)(d \<mapsto> t) \<and> wf_mapping m'"
proof (cases "mapping_full m")
  case False
  obtain n m1 where "mali_descriptor_mapping_allocate_mapping (calloc m) m t = Done (ERR_OK, Some (int n), m1)"
    "0 < n" "map_contents m n = None" "wf_mapping m1" "map_contents m1 = (map_contents m)(n \<mapsto> t)"
    by (rule allocate_free[OF wf False])
  then show ?thesis using a by (auto simp: mali_map_alloc_def)
next
  case True
  have lim: "current_nr_mappings m < max_nr_mappings_allowed m"
    using a allocate_limit[OF wf True] by (fastforce simp: mali_map_alloc_def)
  obtain b where b: "calloc m = Some b"
    using a allocate_no_memory[OF wf True lim] by (cases "calloc m") (auto simp: mali_map_alloc_def)
  obtain m1 where "mali_descriptor_mapping_allocate_mapping (Some b) m t =
      Done (ERR_OK, Some (current_nr_mappings m), m1)"
    "wf_mapping m1" "map_contents m1 = (map_contents m)(nat (current_nr_mappings m) \<mapsto> t)"
    by (rule allocate_expand[OF wf True lim])
  moreover have "map_contents m (nat (current_nr_mappings m)) = None"
    by (simp add: map_contents_def)
  ultimately show ?thesis using a wf_current(1)[OF wf] by (auto simp: mali_map_alloc_def b)
qed

lemma map_get_spec: "wf_mapping m \<Longrightarrow> d \<noteq> 0 \<Longrightarrow> mali_map_get m d = map_contents m d"
  using get_spec[of m d] by (auto simp: mali_map_get_def split: option.splits)

lemma map_set_spec:
  assumes "wf_mapping m" "d \<noteq> 0" "mali_map_set m d p = Some m'"
  shows "map_contents m d \<noteq> None \<and> map_contents m' = (map_contents m)(d \<mapsto> p) \<and> wf_mapping m'"
  using set_spec[of m d p] assms by (auto simp: mali_map_set_def)

lemma map_free_spec:
  assumes "wf_mapping m" "d \<noteq> 0"
  shows "map_contents (mali_map_free m d) = (map_contents m)(d := None) \<and> wf_mapping (mali_map_free m d)"
proof -
  obtain m' where "mali_descriptor_mapping_free m (int d) = Done m'" "wf_mapping m'"
    "map_contents m' = (map_contents m)(d := None)"
    by (rule free_spec[of m d]) (use assms in simp_all)
  then show ?thesis by (simp add: mali_map_free_def)
qed

interpretation mali_map: id_map "mali_map_alloc calloc" mali_map_get mali_map_set mali_map_free
    map_contents wf_mapping
  for calloc
proof
  fix m t d m' p
  show "wf_mapping m \<Longrightarrow> mali_map_alloc calloc m t = Some (d, m') \<Longrightarrow> d \<noteq> 0 \<and> map_contents m d = None"
    and "wf_mapping m \<Longrightarrow> mali_map_alloc calloc m t = Some (d, m') \<Longrightarrow>
      map_contents m' = (map_contents m)(d \<mapsto> t)"
    and "wf_mapping m \<Longrightarrow> mali_map_alloc calloc m t = Some (d, m') \<Longrightarrow> wf_mapping m'"
    using map_alloc_spec by blast+
  show "wf_mapping m \<Longrightarrow> d \<noteq> 0 \<Longrightarrow> mali_map_get m d = map_contents m d"
    by (rule map_get_spec)
  show "wf_mapping m \<Longrightarrow> d \<noteq> 0 \<Longrightarrow> mali_map_set m d p = Some m' \<Longrightarrow>
      map_contents m d \<noteq> None \<and> map_contents m' = (map_contents m)(d \<mapsto> p) \<and> wf_mapping m'"
    by (rule map_set_spec)
  show "wf_mapping m \<Longrightarrow> d \<noteq> 0 \<Longrightarrow> map_contents (mali_map_free m d) = (map_contents m)(d := None)"
    and "wf_mapping m \<Longrightarrow> d \<noteq> 0 \<Longrightarrow> wf_mapping (mali_map_free m d)"
    using map_free_spec by blast+
qed

lemma demo_alloc:
  obtains d m' where "mali_map_alloc (\<lambda>_. None) demo_empty 7 = Some (d, m')"
proof -
  obtain n m' where "mali_descriptor_mapping_allocate_mapping None demo_empty 7 = Done (ERR_OK, Some (int n), m')"
    by (rule allocate_free[OF demo_empty_ok(1,2)])
  then show ?thesis by (intro that[of n m']) (simp add: mali_map_alloc_def)
qed

subsection \<open>Properties\<close>

text \<open>
  C28: an allocation in a well-formed mapping, on every branch: the least free descriptor is
  taken; a full mapping at its limit is refused unchanged; a full mapping that may grow grows by 32
  and hands out the old capacity; when memory runs out there, the table stays but the recorded
  capacity has grown.
\<close>

theorem mali_allocate_mapping_spec:
  assumes "wf_mapping m"
  shows "if \<not> mapping_full m then
           \<exists>n m'. mali_descriptor_mapping_allocate_mapping c m t = Done (ERR_OK, Some (int n), m') \<and>
             0 < n \<and> int n < current_nr_mappings m \<and> map_contents m n = None \<and>
             (\<forall>e. 0 < e \<and> e < n \<longrightarrow> map_contents m e \<noteq> None) \<and>
             wf_mapping m' \<and> map_contents m' = (map_contents m)(n \<mapsto> t) \<and>
             current_nr_mappings m' = current_nr_mappings m
         else if max_nr_mappings_allowed m \<le> current_nr_mappings m then
           mali_descriptor_mapping_allocate_mapping c m t = Done (ERR_FAULT, None, m)
         else if c = None then
           mali_descriptor_mapping_allocate_mapping c m t =
             Done (ERR_FAULT, None, m\<lparr>current_nr_mappings := current_nr_mappings m + 32\<rparr>)
         else
           \<exists>m'. mali_descriptor_mapping_allocate_mapping c m t =
               Done (ERR_OK, Some (current_nr_mappings m), m') \<and>
             wf_mapping m' \<and> map_contents m' = (map_contents m)(nat (current_nr_mappings m) \<mapsto> t) \<and>
             current_nr_mappings m' = current_nr_mappings m + 32"
proof (cases "mapping_full m")
  case False
  then show ?thesis by (simp only: not_False_eq_True if_True) (rule allocate_free[OF assms False, of c t], blast)
next
  case True
  show ?thesis
  proof (cases "current_nr_mappings m < max_nr_mappings_allowed m")
    case False
    then show ?thesis using allocate_limit[OF assms True] True by simp
  next
    case lim: True
    show ?thesis
    proof (cases c)
      case None
      then show ?thesis using allocate_no_memory[OF assms True lim] True lim by simp
    next
      case (Some b)
      obtain m' where "mali_descriptor_mapping_allocate_mapping (Some b) m t =
          Done (ERR_OK, Some (current_nr_mappings m), m')"
        "wf_mapping m'" "map_contents m' = (map_contents m)(nat (current_nr_mappings m) \<mapsto> t)"
        "current_nr_mappings m' = current_nr_mappings m + 32"
        by (rule allocate_expand[OF assms True lim])
      then show ?thesis using True lim Some by auto
    qed
  qed
qed

theorem mali_allocate_mapping_spec_witness:
  "\<exists>m'. mali_descriptor_mapping_allocate_mapping (Some (\<lambda>_. 0)) demo_full 7 =
     Done (ERR_OK, Some 32, m') \<and> map_contents m' 32 = Some 7"
  using mali_allocate_mapping_spec[OF demo_full_ok(1), of "Some (\<lambda>_. 0)" 7]
  by (auto simp: demo_full_ok)

text \<open>
  C29: an expansion that fails for want of memory has already raised the recorded capacity, so
  the next allocation, whatever it is given, writes behind the end of the old table.
\<close>

theorem mali_allocate_corrupts_after_no_memory:
  assumes "wf_mapping m" "mapping_full m" "current_nr_mappings m < max_nr_mappings_allowed m"
  shows "\<exists>m'. mali_descriptor_mapping_allocate_mapping None m t = Done (ERR_FAULT, None, m') \<and>
           mali_descriptor_mapping_allocate_mapping c m' t' = Corrupt"
  using allocate_no_memory[OF assms] allocate_after_no_memory[OF assms] by blast

theorem mali_allocate_corrupts_after_no_memory_witness:
  "\<exists>m'. mali_descriptor_mapping_allocate_mapping None demo_full 7 = Done (ERR_FAULT, None, m') \<and>
     mali_descriptor_mapping_allocate_mapping (Some (\<lambda>_. 0)) m' 8 = Corrupt"
  by (rule mali_allocate_corrupts_after_no_memory) (simp_all add: demo_full_ok)

text \<open>
  Targets registered one after the other, across any number of expansions, get distinct
  non-zero descriptors, and every descriptor still looks up its own target afterwards.
\<close>

theorem mali_alloc_sequence_lookup:
  assumes "wf_mapping m" "alloc_all (mali_map_alloc calloc) m ts = Some (ds, m')"
  shows "distinct ds \<and> length ds = length ts \<and>
         (\<forall>i < length ts. mali_map_get m' (ds ! i) = Some (ts ! i)) \<and> wf_mapping m'"
  using mali_map.alloc_all_get[OF assms] mali_map.alloc_all_fresh[OF assms] by simp

theorem mali_alloc_sequence_lookup_witness:
  "\<exists>d m'. alloc_all (mali_map_alloc (\<lambda>_. None)) demo_empty [7] = Some ([d], m') \<and> mali_map_get m' d = Some 7"
proof -
  obtain d m' where d: "mali_map_alloc (\<lambda>_. None) demo_empty 7 = Some (d, m')"
    by (rule demo_alloc)
  then have a: "alloc_all (mali_map_alloc (\<lambda>_. None)) demo_empty [7] = Some ([d], m')" by simp
  then show ?thesis using mali_alloc_sequence_lookup[OF demo_empty_ok(1) a] by auto
qed

text \<open>
  Freeing a descriptor that was just allocated restores the contents of the mapping, and the
  descriptor is an error to look up again.
\<close>

theorem mali_free_allocated:
  assumes "wf_mapping m" "mali_map_alloc calloc m t = Some (d, m')"
  shows "map_contents (mali_map_free m' d) = map_contents m \<and>
         mali_descriptor_mapping_get (mali_map_free m' d) (int d) = (ERR_FAULT, 0)"
proof -
  note s = map_alloc_spec[OF assms]
  have "wf_mapping (mali_map_free m' d)" "map_contents (mali_map_free m' d) d = None"
    using s map_free_spec[of m' d] by auto
  then show ?thesis using mali_map.release_alloc[OF assms] get_spec[of "mali_map_free m' d" d] s by simp
qed

theorem mali_free_allocated_witness:
  "\<exists>d m'. mali_map_alloc (\<lambda>_. None) demo_empty 7 = Some (d, m') \<and>
     mali_descriptor_mapping_get (mali_map_free m' d) (int d) = (ERR_FAULT, 0)"
proof -
  obtain d m' where a: "mali_map_alloc (\<lambda>_. None) demo_empty 7 = Some (d, m')"
    by (rule demo_alloc)
  then show ?thesis using mali_free_allocated[OF demo_empty_ok(1) a] by blast
qed

lemma pad32: "x \<le> 32 * ((x + 31) div 32)" "32 * ((x + 31) div 32) < x + 32" for x :: int
  by linarith+

lemma create_spec:
  assumes "0 < i" "i \<le> 2 ^ 29" "0 \<le> x" "x \<le> 2 ^ 29 - 31"
  shows "\<exists>m. mali_descriptor_mapping_create True (Some beyond) True i x = Done (Some m) \<and>
           wf_mapping m \<and> map_contents m = Map.empty \<and>
           current_nr_mappings m = 32 * ((i + 31) div 32) \<and>
           max_nr_mappings_allowed m = 32 * ((x + 31) div 32)"
proof -
  have p: "mali_pad_int i = 32 * ((i + 31) div 32)" "mali_pad_int x = 32 * ((x + 31) div 32)"
    using assms by (auto intro: pad_int_nonneg)
  have b: "32 \<le> 32 * ((i + 31) div 32)" "32 * ((i + 31) div 32) < 2 ^ 30" "32 * ((x + 31) div 32) \<le> 2 ^ 29"
    using assms pad32[of i] pad32[of x] by auto
  obtain tb where tb: "descriptor_table_alloc (Some beyond) (32 * ((i + 31) div 32)) = Some tb"
    by (simp add: descriptor_table_alloc_def Let_def)
  obtain t' where "table_set_usage 0 tb = Done t'"
    "wf_mapping \<lparr>max_nr_mappings_allowed = 32 * ((x + 31) div 32),
       current_nr_mappings = 32 * ((i + 31) div 32), table = t'\<rparr>"
    "map_contents \<lparr>max_nr_mappings_allowed = 32 * ((x + 31) div 32),
       current_nr_mappings = 32 * ((i + 31) div 32), table = t'\<rparr> = Map.empty"
    by (rule fresh_table_ok[OF b(1,2) _ b(3) tb]) simp
  then show ?thesis by (simp add: mali_descriptor_mapping_create_def Let_def p tb)
qed

text \<open>
  Creating a mapping rounds both sizes up to multiples of 32 and gives a well-formed
  mapping without entries; when one of the three allocations fails the result is \<open>NULL\<close>.
\<close>

theorem mali_create_spec:
  assumes "0 < i" "i \<le> 2 ^ 29" "0 \<le> x" "x \<le> 2 ^ 29 - 31"
  shows "(\<exists>m. mali_descriptor_mapping_create True (Some beyond) True i x = Done (Some m) \<and>
            wf_mapping m \<and> map_contents m = Map.empty \<and>
            i \<le> current_nr_mappings m \<and> current_nr_mappings m < i + 32 \<and>
            x \<le> max_nr_mappings_allowed m \<and> max_nr_mappings_allowed m < x + 32) \<and>
         mali_descriptor_mapping_create False calloc lock i x = Done None \<and>
         mali_descriptor_mapping_create True None lock i x = Done None \<and>
         mali_descriptor_mapping_create True (Some beyond) False i x = Done None"
proof -
  show ?thesis using create_spec[OF assms, of beyond] pad32[of i] pad32[of x]
    by (auto simp: mali_descriptor_mapping_create_def descriptor_table_alloc_def Let_def)
qed

theorem mali_create_spec_witness:
  "\<exists>m. mali_descriptor_mapping_create True (Some (\<lambda>_. 0)) True 40 100 = Done (Some m) \<and> wf_mapping m"
  using mali_create_spec[of 40 100 "\<lambda>_. 0"] by auto

lemma fold_guarded: "fold (\<lambda>i s. if P i then f i s else s) xs s = fold f (filter P xs) s"
  by (induction xs arbitrary: s) auto

lemma fold_cong_set: "(\<And>x s. x \<in> set xs \<Longrightarrow> f x s = g x s) \<Longrightarrow> fold f xs s = fold g xs s"
  by (rule fold_cong) auto

text \<open>
  The iteration calls back exactly the registered descriptors, in increasing order, each with
  its own target.
\<close>

theorem mali_call_for_each_visits:
  assumes "wf_mapping m"
  shows "mali_descriptor_mapping_call_for_each m callback s =
           fold (\<lambda>d. callback d (the (map_contents m (nat d))))
             (filter (\<lambda>d. map_contents m (nat d) \<noteq> None) [1..current_nr_mappings m - 1]) s"
proof -
  have eq: "table_test d (table m) \<longleftrightarrow> map_contents m (nat d) \<noteq> None"
    "table_test d (table m) \<Longrightarrow> table_load d (table m) = the (map_contents m (nat d))"
    if "d \<in> set [1..current_nr_mappings m - 1]" for d
    using that valid_descriptor_contents[OF assms, of "nat d"] load_contents[of m "nat d"]
    by (auto simp: valid_descriptor_def)
  have "fold (\<lambda>i s. if table_test i (table m) then callback i (table_load i (table m)) s else s)
      [1..current_nr_mappings m - 1] s =
    fold (\<lambda>i s. if map_contents m (nat i) \<noteq> None then callback i (the (map_contents m (nat i))) s else s)
      [1..current_nr_mappings m - 1] s"
    by (rule fold_cong_set) (use eq in auto)
  then show ?thesis by (simp only: mali_descriptor_mapping_call_for_each_def fold_guarded)
qed

theorem mali_call_for_each_visits_witness:
  "mali_descriptor_mapping_call_for_each demo_empty (\<lambda>d p ds. ds @ [d]) [] = []"
  by (subst mali_call_for_each_visits) (simp_all add: demo_empty_ok)

end
