(* ===== verification/Ump_Descriptor_Mapping.thy ===== *)
theory Ump_Descriptor_Mapping
  imports Descriptor_Mapping
begin

text \<open>
  The UMP descriptor mapping, ump\_kernel\_descriptor\_mapping.c (secure ids and per-session handles
  of the unified memory provider).  Its struct has the fields of the Mali one.  It doubles its
  capacity, updates it only after the new table has been allocated, copies only the old table, and
  reports errors as \<open>-1\<close>.
\<close>

definition ump_descriptor_table_alloc :: "words option \<Rightarrow> int \<Rightarrow> desc_table option" where
  "ump_descriptor_table_alloc calloc count =
     (case calloc of None \<Rightarrow> None
      | Some beyond \<Rightarrow>
         (let usage_words = nat count div 32; size = usage_words + nat count
          in Some \<lparr>tmem = (\<lambda>i. if i < size then 0 else beyond i), tsize = size, tmap = usage_words\<rparr>))"

definition ump_descriptor_mapping_create ::
  "bool \<Rightarrow> words option \<Rightarrow> bool \<Rightarrow> int \<Rightarrow> int \<Rightarrow> desc_mapping option outcome" where
  "ump_descriptor_mapping_create map_alloc calloc lock_ok init_entries max_entries =
     (let init_entries = mali_pad_int init_entries; max_entries = mali_pad_int max_entries
      in if map_alloc then
           (case ump_descriptor_table_alloc calloc init_entries of
              None \<Rightarrow> Done None
            | Some t \<Rightarrow>
                if lock_ok then
                  bind_outcome (table_set_usage 0 t)
                    (\<lambda>t'. Done (Some \<lparr>max_nr_mappings_allowed = max_entries,
                                     current_nr_mappings = init_entries, table = t'\<rparr>))
                else Done None)
         else Done None)"

text \<open>Lines 99 to 101: mark the descriptor used, store the target, return the descriptor.\<close>

definition ump_take_descriptor :: "desc_mapping \<Rightarrow> int \<Rightarrow> ptr \<Rightarrow> (int \<times> desc_mapping) outcome" where
  "ump_take_descriptor m d target =
     bind_outcome (table_set_usage d (table m))
       (\<lambda>t1. bind_outcome (table_store d target t1) (\<lambda>t2. Done (d, m\<lparr>table := t2\<rparr>)))"

definition ump_descriptor_mapping_allocate_mapping ::
  "words option \<Rightarrow> desc_mapping \<Rightarrow> ptr \<Rightarrow> (int \<times> desc_mapping) outcome" where
  "ump_descriptor_mapping_allocate_mapping calloc m target =
     (case mali_osk_find_first_zero_bit (tmem (table m)) (word_of_int (current_nr_mappings m)) of
        None \<Rightarrow> Diverge
      | Some w \<Rightarrow>
          (let descriptor = sint w
           in if descriptor = current_nr_mappings m then
                (let nr_mappings_new = int32 (current_nr_mappings m * 2)
                 in if current_nr_mappings m \<ge> max_nr_mappings_allowed m then Done (-1, m)
                    else case ump_descriptor_table_alloc calloc nr_mappings_new of
                           None \<Rightarrow> Done (-1, m)
                         | Some new_table \<Rightarrow>
                             ump_take_descriptor
                               (m\<lparr>current_nr_mappings := nr_mappings_new,
                                  table := table_copy (table m) new_table
                                    (nat (current_nr_mappings m) div 32) (nat (current_nr_mappings m))\<rparr>)
                               descriptor target)
              else ump_take_descriptor m descriptor target))"

definition ump_descriptor_mapping_get :: "desc_mapping \<Rightarrow> int \<Rightarrow> int \<times> ptr" where
  "ump_descriptor_mapping_get m d =
     (if valid_descriptor m d then (0, table_load d (table m)) else (-1, 0))"

definition ump_descriptor_mapping_set :: "desc_mapping \<Rightarrow> int \<Rightarrow> ptr \<Rightarrow> (int \<times> desc_mapping) outcome" where
  "ump_descriptor_mapping_set m d target =
     (if valid_descriptor m d then
        bind_outcome (table_store d target (table m)) (\<lambda>t. Done (0, m\<lparr>table := t\<rparr>))
      else Done (-1, m))"

definition ump_descriptor_mapping_free :: "desc_mapping \<Rightarrow> int \<Rightarrow> desc_mapping outcome" where
  "ump_descriptor_mapping_free m d =
     (if valid_descriptor m d then
        bind_outcome (table_store d 0 (table m))
          (\<lambda>t1. bind_outcome (table_clear_usage d t1) (\<lambda>t2. Done (m\<lparr>table := t2\<rparr>)))
      else Done m)"

subsection \<open>What each operation does\<close>

lemma ump_table_alloc_eq: "ump_descriptor_table_alloc = descriptor_table_alloc"
  by (intro ext) (simp add: ump_descriptor_table_alloc_def descriptor_table_alloc_def)

lemma ump_take_descriptor_ok:
  assumes "wf_mapping m" "0 < d" "d < current_nr_mappings m"
  obtains m' where "ump_take_descriptor m d t = Done (d, m')" "wf_mapping m'"
    "map_contents m' = (map_contents m)(nat d \<mapsto> t)"
    "current_nr_mappings m' = current_nr_mappings m"
proof -
  obtain t1 t2 where t: "table_set_usage d (table m) = Done t1" "table_store d t t1 = Done t2"
    "wf_mapping (m\<lparr>table := t2\<rparr>)" "map_contents (m\<lparr>table := t2\<rparr>) = (map_contents m)(nat d \<mapsto> t)"
    by (rule store_ok[OF assms])
  show ?thesis
    by (rule that[of "m\<lparr>table := t2\<rparr>"]) (use t in \<open>simp_all add: ump_take_descriptor_def\<close>)
qed

lemma ump_allocate_free:
  assumes wf: "wf_mapping m" and free: "\<not> mapping_full m"
  obtains n m' where "ump_descriptor_mapping_allocate_mapping c m t = Done (int n, m')"
    "0 < n" "int n < current_nr_mappings m" "map_contents m n = None"
    "\<forall>e. 0 < e \<and> e < n \<longrightarrow> map_contents m e \<noteq> None"
    "wf_mapping m'" "map_contents m' = (map_contents m)(n \<mapsto> t)"
    "current_nr_mappings m' = current_nr_mappings m"
proof -
  obtain n w where n:
    "mali_osk_find_first_zero_bit (tmem (table m)) (word_of_int (current_nr_mappings m)) = Some w"
    "sint w = int n" "0 < n" "int n < current_nr_mappings m" "map_contents m n = None"
    "\<forall>e. 0 < e \<and> e < n \<longrightarrow> map_contents m e \<noteq> None"
    by (rule find_free[OF assms])
  obtain m' where m': "ump_take_descriptor m (int n) t = Done (int n, m')"
    "wf_mapping m'" "map_contents m' = (map_contents m)(n \<mapsto> t)"
    "current_nr_mappings m' = current_nr_mappings m"
    using ump_take_descriptor_ok[OF wf, of "int n" t] n(3,4) by auto
  show ?thesis
    by (rule that[of n m'])
      (use n m' in \<open>simp_all add: ump_descriptor_mapping_allocate_mapping_def Let_def\<close>)
qed

text \<open>A failed allocation, at the limit or for want of memory, leaves the mapping as it was.\<close>

lemma ump_allocate_fails:
  assumes "wf_mapping m" "mapping_full m"
    "max_nr_mappings_allowed m \<le> current_nr_mappings m \<or> c = None"
  shows "ump_descriptor_mapping_allocate_mapping c m t = Done (-1, m)"
proof -
  obtain w where
    "mali_osk_find_first_zero_bit (tmem (table m)) (word_of_int (current_nr_mappings m)) = Some w"
    "sint w = current_nr_mappings m"
    by (rule find_full[OF assms(1,2)])
  then show ?thesis using assms(3)
    by (auto simp: ump_descriptor_mapping_allocate_mapping_def Let_def ump_descriptor_table_alloc_def)
qed

lemma ump_allocate_expand:
  assumes wf: "wf_mapping m" and full: "mapping_full m"
    and lim: "current_nr_mappings m < max_nr_mappings_allowed m"
  obtains m' where "ump_descriptor_mapping_allocate_mapping (Some beyond) m t =
      Done (current_nr_mappings m, m')"
    "wf_mapping m'" "map_contents m' = (map_contents m)(nat (current_nr_mappings m) \<mapsto> t)"
    "current_nr_mappings m' = 2 * current_nr_mappings m"
proof -
  let ?c = "current_nr_mappings m" and ?c' = "2 * current_nr_mappings m"
  note c = wf_current[OF wf]
  obtain w where w:
    "mali_osk_find_first_zero_bit (tmem (table m)) (word_of_int ?c) = Some w" "sint w = ?c"
    by (rule find_full[OF wf full])
  obtain new where new: "descriptor_table_alloc (Some beyond) ?c' = Some new"
    by (simp add: descriptor_table_alloc_def Let_def)
  have cc: "?c' < 2 ^ 30" "?c' mod 32 = 0" "nat ?c div 32 \<le> nat ?c' div 32"
    using c lim by (auto intro: div_le_mono)
  define m1 where "m1 = m\<lparr>current_nr_mappings := ?c',
      table := table_copy (table m) new (nat ?c div 32) (nat ?c)\<rparr>"
  have wf1: "wf_mapping m1" "map_contents m1 = map_contents m"
    unfolding m1_def
    by (rule expand_ok[OF wf _ _ _ new]; use c cc in \<open>auto simp: nat_le_eq_zle\<close>)+
  obtain m' where m': "ump_take_descriptor m1 ?c t = Done (?c, m')"
    "wf_mapping m'" "map_contents m' = (map_contents m1)(nat ?c \<mapsto> t)"
    "current_nr_mappings m' = current_nr_mappings m1"
    using ump_take_descriptor_ok[OF wf1(1), of ?c t] c(1) by (auto simp: m1_def)
  have i32: "int32 (?c * 2) = ?c'" using c(1) cc(1) by simp
  have "ump_descriptor_mapping_allocate_mapping (Some beyond) m t = ump_take_descriptor m1 ?c t"
    using w lim
    by (simp add: ump_descriptor_mapping_allocate_mapping_def Let_def i32 ump_table_alloc_eq new m1_def)
  then show ?thesis
    by (intro that[of m']) (use m' wf1 in \<open>simp_all add: m1_def\<close>)
qed

text \<open>The other operations are those of the Mali mapping with integer error codes.\<close>

definition ump_err :: "osk_err \<Rightarrow> int" where
  "ump_err e = (if e = ERR_OK then 0 else -1)"

lemma ump_get_eq: "ump_descriptor_mapping_get m d = map_prod ump_err id (mali_descriptor_mapping_get m d)"
  by (simp add: ump_descriptor_mapping_get_def mali_descriptor_mapping_get_def ump_err_def)

lemma ump_set_eq:
  "ump_descriptor_mapping_set m d p =
     bind_outcome (mali_descriptor_mapping_set m d p) (\<lambda>(e, m'). Done (ump_err e, m'))"
  by (cases "table_store d p (table m)")
    (simp_all add: ump_descriptor_mapping_set_def mali_descriptor_mapping_set_def ump_err_def)

lemma ump_free_eq: "ump_descriptor_mapping_free = mali_descriptor_mapping_free"
  by (intro ext) (simp add: ump_descriptor_mapping_free_def mali_descriptor_mapping_free_def)

subsection \<open>The interface\<close>

definition ump_map_alloc ::
  "(desc_mapping \<Rightarrow> words option) \<Rightarrow> desc_mapping \<Rightarrow> ptr \<Rightarrow> (nat \<times> desc_mapping) option" where
  "ump_map_alloc calloc m t =
     (case ump_descriptor_mapping_allocate_mapping (calloc m) m t of
        Done (d, m') \<Rightarrow> if d < 0 then None else Some (nat d, m') | _ \<Rightarrow> None)"

definition ump_map_get :: "desc_mapping \<Rightarrow> nat \<Rightarrow> ptr option" where
  "ump_map_get m d =
     (case ump_descriptor_mapping_get m (int d) of (r, p) \<Rightarrow> if r = 0 then Some p else None)"

definition ump_map_set :: "desc_mapping \<Rightarrow> nat \<Rightarrow> ptr \<Rightarrow> desc_mapping option" where
  "ump_map_set m d p =
     (case ump_descriptor_mapping_set m (int d) p of
        Done (r, m') \<Rightarrow> if r = 0 then Some m' else None | _ \<Rightarrow> None)"

definition ump_map_free :: "desc_mapping \<Rightarrow> nat \<Rightarrow> desc_mapping" where
  "ump_map_free m d = (case ump_descriptor_mapping_free m (int d) of Done m' \<Rightarrow> m' | _ \<Rightarrow> m)"

lemma ump_map_eqs:
  "ump_map_get = mali_map_get" "ump_map_set = mali_map_set" "ump_map_free = mali_map_free"
proof -
  show "ump_map_get = mali_map_get"
    by (intro ext) (auto simp: ump_map_get_def mali_map_get_def ump_get_eq ump_err_def
        split: prod.splits osk_err.splits)
  show "ump_map_set = mali_map_set"
  proof (intro ext)
    fix m d p
    show "ump_map_set m d p = mali_map_set m d p"
      by (cases "mali_descriptor_mapping_set m (int d) p")
        (auto simp: ump_map_set_def mali_map_set_def ump_set_eq ump_err_def
          split: prod.splits osk_err.splits)
  qed
  show "ump_map_free = mali_map_free"
    by (intro ext) (simp add: ump_map_free_def mali_map_free_def ump_free_eq)
qed

lemma ump_map_alloc_spec:
  assumes wf: "wf_mapping m" and a: "ump_map_alloc calloc m t = Some (d, m')"
  shows "d \<noteq> 0 \<and> map_contents m d = None \<and> map_contents m' = (map_contents m)(d \<mapsto> t) \<and> wf_mapping m'"
proof (cases "mapping_full m")
  case False
  obtain n m1 where "ump_descriptor_mapping_allocate_mapping (calloc m) m t = Done (int n, m1)"
    "0 < n" "map_contents m n = None" "wf_mapping m1" "map_contents m1 = (map_contents m)(n \<mapsto> t)"
    by (rule ump_allocate_free[OF wf False])
  then show ?thesis using a by (auto simp: ump_map_alloc_def)
next
  case True
  have "\<not> (max_nr_mappings_allowed m \<le> current_nr_mappings m \<or> calloc m = None)"
  proof
    assume "max_nr_mappings_allowed m \<le> current_nr_mappings m \<or> calloc m = None"
    from ump_allocate_fails[OF wf True this] a show False by (simp add: ump_map_alloc_def)
  qed
  then have lim: "current_nr_mappings m < max_nr_mappings_allowed m" "calloc m \<noteq> None" by auto
  then obtain b where b: "calloc m = Some b" by blast
  obtain m1 where "ump_descriptor_mapping_allocate_mapping (Some b) m t =
      Done (current_nr_mappings m, m1)"
    "wf_mapping m1" "map_contents m1 = (map_contents m)(nat (current_nr_mappings m) \<mapsto> t)"
    by (rule ump_allocate_expand[OF wf True lim(1)])
  moreover have "map_contents m (nat (current_nr_mappings m)) = None"
    by (simp add: map_contents_def)
  ultimately show ?thesis using a wf_current(1)[OF wf] by (auto simp: ump_map_alloc_def b split: if_splits)
qed

interpretation ump_map: id_map "ump_map_alloc calloc" ump_map_get ump_map_set ump_map_free
    map_contents wf_mapping
  for calloc
proof
  fix m t d m' p
  show "wf_mapping m \<Longrightarrow> ump_map_alloc calloc m t = Some (d, m') \<Longrightarrow> d \<noteq> 0 \<and> map_contents m d = None"
    and "wf_mapping m \<Longrightarrow> ump_map_alloc calloc m t = Some (d, m') \<Longrightarrow>
      map_contents m' = (map_contents m)(d \<mapsto> t)"
    and "wf_mapping m \<Longrightarrow> ump_map_alloc calloc m t = Some (d, m') \<Longrightarrow> wf_mapping m'"
    using ump_map_alloc_spec by blast+
  show "wf_mapping m \<Longrightarrow> d \<noteq> 0 \<Longrightarrow> ump_map_get m d = map_contents m d"
    by (simp add: ump_map_eqs map_get_spec)
  show "wf_mapping m \<Longrightarrow> d \<noteq> 0 \<Longrightarrow> ump_map_set m d p = Some m' \<Longrightarrow>
      map_contents m d \<noteq> None \<and> map_contents m' = (map_contents m)(d \<mapsto> p) \<and> wf_mapping m'"
    unfolding ump_map_eqs by (rule map_set_spec)
  show "wf_mapping m \<Longrightarrow> d \<noteq> 0 \<Longrightarrow> map_contents (ump_map_free m d) = (map_contents m)(d := None)"
    and "wf_mapping m \<Longrightarrow> d \<noteq> 0 \<Longrightarrow> wf_mapping (ump_map_free m d)"
    using map_free_spec by (simp_all add: ump_map_eqs)
qed

subsection \<open>Properties\<close>

text \<open>
  A UMP allocation on every branch: the least free descriptor when there is one;
  otherwise \<open>-1\<close> and an unchanged mapping at the limit and when memory runs out, or a doubled
  capacity and the old capacity as descriptor.
\<close>

theorem ump_allocate_mapping_spec:
  assumes "wf_mapping m"
  shows "if \<not> mapping_full m then
           \<exists>n m'. ump_descriptor_mapping_allocate_mapping c m t = Done (int n, m') \<and>
             0 < n \<and> int n < current_nr_mappings m \<and> map_contents m n = None \<and>
             (\<forall>e. 0 < e \<and> e < n \<longrightarrow> map_contents m e \<noteq> None) \<and>
             wf_mapping m' \<and> map_contents m' = (map_contents m)(n \<mapsto> t) \<and>
             current_nr_mappings m' = current_nr_mappings m
         else if max_nr_mappings_allowed m \<le> current_nr_mappings m \<or> c = None then
           ump_descriptor_mapping_allocate_mapping c m t = Done (-1, m)
         else
           \<exists>m'. ump_descriptor_mapping_allocate_mapping c m t = Done (current_nr_mappings m, m') \<and>
             wf_mapping m' \<and> map_contents m' = (map_contents m)(nat (current_nr_mappings m) \<mapsto> t) \<and>
             current_nr_mappings m' = 2 * current_nr_mappings m"
proof (cases "mapping_full m")
  case False
  then show ?thesis by (simp only: not_False_eq_True if_True) (rule ump_allocate_free[OF assms False, of c t], blast)
next
  case True
  show ?thesis
  proof (cases "max_nr_mappings_allowed m \<le> current_nr_mappings m \<or> c = None")
    case fails: True
    then show ?thesis using ump_allocate_fails[OF assms True fails] True by simp
  next
    case False
    then obtain b where b: "c = Some b" and lim: "current_nr_mappings m < max_nr_mappings_allowed m"
      by auto
    obtain m' where "ump_descriptor_mapping_allocate_mapping (Some b) m t = Done (current_nr_mappings m, m')"
      "wf_mapping m'" "map_contents m' = (map_contents m)(nat (current_nr_mappings m) \<mapsto> t)"
      "current_nr_mappings m' = 2 * current_nr_mappings m"
      by (rule ump_allocate_expand[OF assms True lim])
    then show ?thesis using True False b by auto
  qed
qed

theorem ump_allocate_mapping_spec_witness:
  "\<exists>m'. ump_descriptor_mapping_allocate_mapping (Some (\<lambda>_. 0)) demo_full 7 = Done (32, m') \<and>
     map_contents m' 32 = Some 7 \<and> current_nr_mappings m' = 64"
  using ump_allocate_mapping_spec[OF demo_full_ok(1), of "Some (\<lambda>_. 0)" 7]
  by (auto simp: demo_full_ok)

text \<open>
  In the UMP mapping, too, targets registered one after the other get distinct non-zero
  descriptors that keep looking up their own target, across expansions.
\<close>

theorem ump_alloc_sequence_lookup:
  assumes "wf_mapping m" "alloc_all (ump_map_alloc calloc) m ts = Some (ds, m')"
  shows "distinct ds \<and> 0 \<notin> set ds \<and> length ds = length ts \<and>
         (\<forall>i < length ts. ump_map_get m' (ds ! i) = Some (ts ! i)) \<and> wf_mapping m'"
  using ump_map.alloc_all_get[OF assms] ump_map.alloc_all_fresh[OF assms] by simp

theorem ump_alloc_sequence_lookup_witness:
  "\<exists>d m'. alloc_all (ump_map_alloc (\<lambda>_. Some (\<lambda>_. 0))) demo_full [7] = Some ([d], m') \<and>
     ump_map_get m' d = Some 7"
proof -
  obtain m' where "ump_descriptor_mapping_allocate_mapping (Some (\<lambda>_. 0)) demo_full 7 =
      Done (current_nr_mappings demo_full, m')"
    by (rule ump_allocate_expand[OF demo_full_ok(1,2)]) (simp_all add: demo_full_ok)
  then have a: "alloc_all (ump_map_alloc (\<lambda>_. Some (\<lambda>_. 0))) demo_full [7] = Some ([32], m')"
    by (simp add: ump_map_alloc_def demo_full_ok)
  show ?thesis using ump_alloc_sequence_lookup[OF demo_full_ok(1) a] a by auto
qed

text \<open>
  The release of a UMP descriptor: the freed descriptor can no longer be looked up, every other
  descriptor can be as before, and the mapping stays well formed.
\<close>

theorem ump_free_lookup:
  assumes "wf_mapping m" "0 < d"
  shows "\<exists>m'. ump_descriptor_mapping_free m (int d) = Done m' \<and> wf_mapping m' \<and>
           ump_descriptor_mapping_get m' (int d) = (-1, 0) \<and>
           (\<forall>e. 0 < e \<and> e \<noteq> d \<longrightarrow> ump_descriptor_mapping_get m' (int e) = ump_descriptor_mapping_get m (int e))"
proof -
  obtain m' where m': "mali_descriptor_mapping_free m (int d) = Done m'" "wf_mapping m'"
    "map_contents m' = (map_contents m)(d := None)"
    by (rule free_spec[OF assms])
  then show ?thesis
    using assms by (auto simp: ump_free_eq ump_get_eq get_spec ump_err_def intro!: exI[of _ m'])
qed

theorem ump_free_lookup_witness:
  "\<exists>m'. ump_descriptor_mapping_free demo_full 5 = Done m' \<and> ump_descriptor_mapping_get m' 5 = (-1, 0)"
  using ump_free_lookup[OF demo_full_ok(1), of 5] by auto

end
