(* ===== verification/Links.thy ===== *)
theory Links
  imports Main
begin

text \<open>
  Null-terminated lists through an array of links, as the block allocators of the Mali and of the UMP
  driver keep them: \<open>links nx p xs\<close> says that the elements of \<open>xs\<close> follow each other from \<open>p\<close>.
\<close>

fun links :: "(nat \<Rightarrow> nat option) \<Rightarrow> nat option \<Rightarrow> nat list \<Rightarrow> bool" where
  "links nx p [] \<longleftrightarrow> p = None"
| "links nx p (b # bs) \<longleftrightarrow> p = Some b \<and> links nx (nx b) bs"

lemma links_None [simp]: "links nx None xs \<longleftrightarrow> xs = []"
  by (cases xs) auto

lemma links_SomeE: "links nx (Some b) xs \<Longrightarrow> (\<And>ys. xs = b # ys \<Longrightarrow> links nx (nx b) ys \<Longrightarrow> Q) \<Longrightarrow> Q"
  by (cases xs) auto

lemma links_update [simp]: "b \<notin> set xs \<Longrightarrow> links (nx(b := q)) p xs = links nx p xs"
  by (induction xs arbitrary: p) auto

lemma links_cong: "(\<And>x. x \<in> set xs \<Longrightarrow> nx' x = nx x) \<Longrightarrow> links nx' p xs = links nx p xs"
  by (induction xs arbitrary: p) auto

lemma links_tail: "links nx p (xs @ b # ys) \<Longrightarrow> links nx (nx b) ys"
  by (induction xs arbitrary: p) auto

lemma links_head: "links nx p xs \<Longrightarrow> links nx q xs \<Longrightarrow> p = q"
  by (cases xs) auto

end
