(* ===== verification/Ump_Types.thy ===== *)
theory Ump_Types
  imports Ump_Descriptor_Mapping Links "HOL-Library.Monad_Syntax" "HOL-Library.Multiset"
begin

text \<open>
  The data of the UMP driver (common/ump\_kernel\_types.h, ump\_kernel\_common.h,
  ump\_kernel\_memory\_backend.h) and the answers of the operating system.  An operation that runs into a
  \<open>BUG_ON\<close>, uses memory that is not there or does not return has no result.
\<close>

subsection \<open>Handles\<close>

record ump_dd_physical_block =
  block_addr :: u32
  block_size :: u32

text \<open>The release function of a handle is that of the memory backend or that of memory of another driver.\<close>

datatype ump_release = Backend_release | Phys_blocks_release

record ump_dd_mem =
  secure_id :: u32
  ref_count :: int
  size_bytes :: u32
  nr_blocks :: u32
  block_array :: "ump_dd_physical_block list option"
  release_func :: ump_release
  backend_info :: "nat option"
  is_cached :: bool

subsection \<open>The operating system\<close>

text \<open>
  What the operating system answers during one operation: the addresses that \<open>kmalloc\<close> returns, absent
  for a null pointer, whether the other allocations succeed, what is in memory that is not cleared,
  whether a signal interrupts the wait for the semaphore of the backend in the release of a handle,
  the pages, and whether a piece can be mapped.
\<close>

record ump_env =
  new_mem :: "ptr option"
  new_allocation :: "ptr option"
  new_tracker :: "ptr option"
  new_session :: "ptr option"
  new_element :: bool
  new_array :: bool
  new_lock :: bool
  new_mapping :: bool
  map_lock :: bool
  table_calloc :: "words option"
  vmalloc :: "ump_dd_physical_block option"
  interrupted :: "ptr \<Rightarrow> bool"
  ump_alloc_page :: "nat \<Rightarrow> u32 option"
  remap :: "nat \<Rightarrow> bool"
  mem_region :: bool

text \<open>\<open>vmalloc\<close> of no bytes fails; the memory is not cleared.\<close>

definition vmalloc_blocks :: "ump_env \<Rightarrow> u32 \<Rightarrow> ump_dd_physical_block list option" where
  "vmalloc_blocks env n = (if n = 0 then None else map_option (replicate (unat n)) (vmalloc env))"

fun returned :: "'a outcome \<Rightarrow> 'a option" where
  "returned (Done x) = Some x"
| "returned Corrupt = None"
| "returned Diverge = None"

subsection \<open>Sizes\<close>

definition UMP_MINIMUM_SIZE :: u32 where "UMP_MINIMUM_SIZE = 4096"

definition UMP_SIZE_ALIGN :: "u32 \<Rightarrow> u32" where
  "UMP_SIZE_ALIGN x = (x + UMP_MINIMUM_SIZE - 1) AND NOT (UMP_MINIMUM_SIZE - 1)"

definition UMP_ADDR_ALIGN_OFFSET :: "u32 \<Rightarrow> u32" where
  "UMP_ADDR_ALIGN_OFFSET x = x AND (UMP_MINIMUM_SIZE - 1)"

lemma unat_mask_u32: "k < 32 \<Longrightarrow> unat (mask k :: u32) = 2 ^ k - 1"
proof -
  assume k: "k < 32"
  have "(mask k :: u32) = of_nat (mask k)" by (simp add: mask_eq_exp_minus_1)
  moreover have "(mask k :: nat) < 2 ^ 32"
    using k power_increasing[of k 32 "2 :: nat"] by (simp add: mask_eq_exp_minus_1)
  ultimately have "unat (mask k :: u32) = mask k" using k by (simp add: unsigned_of_nat min_def)
  then show ?thesis by (simp add: mask_eq_exp_minus_1)
qed

lemma round_up:
  assumes "k < 32" "unat (x :: u32) + (2 ^ k - 1) < 2 ^ 32"
  shows "unat ((x + mask k) AND NOT (mask k)) = 2 ^ k * ((unat x + (2 ^ k - 1)) div 2 ^ k)"
proof -
  have "unat (x + mask k) = unat x + (2 ^ k - 1)"
    using assms by (subst unat_add_lem[THEN iffD1]) (simp_all add: unat_mask_u32)
  then show ?thesis by (simp add: unat_align_down)
qed

lemma round_up_wraps:
  assumes "k < 32" "2 ^ 32 \<le> unat (x :: u32) + (2 ^ k - 1)"
  shows "(x + mask k) AND NOT (mask k) = 0"
proof -
  have w: "unat x < 2 ^ 32" using unsigned_less[of x, where 'a = nat] by simp
  have p: "(2 :: nat) ^ k < 2 ^ 32" "0 < (2 :: nat) ^ k" using assms(1) power_strict_increasing[of k 32 "2 :: nat"] by simp_all
  have "unat (x + mask k) = unat x + (2 ^ k - 1) - 2 ^ 32"
    using le_mod_geq[OF assms(2)] w p by (simp add: unat_word_ariths unat_mask_u32[OF assms(1)])
  then have "unat (x + mask k) < 2 ^ k" using w p by linarith
  then have "unat ((x + mask k) AND NOT (mask k)) = 0" by (simp add: unat_align_down)
  then show ?thesis by (simp add: unat_eq_0)
qed

text \<open>A size is rounded up to whole pages, and to none when the sum wraps around.\<close>

lemma size_align_mask: "UMP_SIZE_ALIGN x = (x + mask 12) AND NOT (mask 12)"
  by (simp add: UMP_SIZE_ALIGN_def UMP_MINIMUM_SIZE_def mask_eq_exp_minus_1 algebra_simps)

lemma size_align:
  "unat x \<le> 2 ^ 32 - 4096 \<Longrightarrow> unat (UMP_SIZE_ALIGN x) = 4096 * ((unat x + 4095) div 4096)"
  using round_up[of 12 x] by (simp add: size_align_mask)

lemma size_align_wraps: "2 ^ 32 - 4096 < unat x \<Longrightarrow> UMP_SIZE_ALIGN x = 0"
  using round_up_wraps[of 12 x] by (simp add: size_align_mask)

lemma addr_align: "UMP_ADDR_ALIGN_OFFSET x = 0 \<longleftrightarrow> 4096 dvd unat x"
proof -
  have "UMP_ADDR_ALIGN_OFFSET x = take_bit 12 x"
    by (simp add: UMP_ADDR_ALIGN_OFFSET_def UMP_MINIMUM_SIZE_def take_bit_eq_mask mask_eq_exp_minus_1)
  then have "unat (UMP_ADDR_ALIGN_OFFSET x) = take_bit 12 (unat x)" by (simp only: unsigned_take_bit_eq)
  then have "unat (UMP_ADDR_ALIGN_OFFSET x) = unat x mod 4096" by (simp add: take_bit_eq_mod)
  then show ?thesis by (simp add: unat_eq_0[symmetric] mod_eq_0_iff_dvd)
qed

subsection \<open>Sums over a heap\<close>

text \<open>What all the objects of a heap contribute to an account.\<close>

definition map_sum :: "('b \<Rightarrow> 'c multiset) \<Rightarrow> ('a \<rightharpoonup> 'b) \<Rightarrow> 'c multiset" where
  "map_sum f M = (\<Sum>a \<in> dom M. f (the (M a)))"

lemma map_sum_empty [simp]: "map_sum f Map.empty = {#}"
  by (simp add: map_sum_def)

lemma map_sum_upd:
  assumes "finite (dom M)"
  shows "map_sum f (M(a \<mapsto> x)) = f x + map_sum f (M(a := None))"
proof -
  have d: "dom (M(a \<mapsto> x)) = insert a (dom M - {a})" "dom (M(a := None)) = dom M - {a}" by auto
  have "map_sum f (M(a \<mapsto> x)) = f (the ((M(a \<mapsto> x)) a)) + (\<Sum>b \<in> dom M - {a}. f (the ((M(a \<mapsto> x)) b)))"
    unfolding map_sum_def d by (rule sum.insert) (use assms in auto)
  also have "(\<Sum>b \<in> dom M - {a}. f (the ((M(a \<mapsto> x)) b))) = map_sum f (M(a := None))"
    unfolding map_sum_def d by (intro sum.cong) auto
  finally show ?thesis by (simp only: fun_upd_same option.sel)
qed

lemma map_sum_at: "finite (dom M) \<Longrightarrow> M a = Some x \<Longrightarrow> map_sum f M = f x + map_sum f (M(a := None))"
  using map_sum_upd[of M f a x] by (metis fun_upd_triv)

lemma map_sum_new: "finite (dom M) \<Longrightarrow> M a = None \<Longrightarrow> map_sum f (M(a \<mapsto> x)) = f x + map_sum f M"
  using map_sum_upd[of M f a x] by (metis fun_upd_triv)

lemma map_sum_change: "finite (dom M) \<Longrightarrow> M a = Some x \<Longrightarrow> f y = f x \<Longrightarrow> map_sum f (M(a \<mapsto> y)) = map_sum f M"
  using map_sum_upd[of M f a y] map_sum_at[of M a x f] by simp

lemma map_sum_member: "finite (dom M) \<Longrightarrow> M a = Some x \<Longrightarrow> y \<in># f x \<Longrightarrow> y \<in># map_sum f M"
  using map_sum_at[of M a x f] by simp

lemma map_sum_memberE:
  assumes "y \<in># map_sum f M" "finite (dom M)"
  obtains a x where "M a = Some x" "y \<in># f x"
proof -
  have "\<exists>a \<in> dom M. y \<in># f (the (M a))"
    using assms unfolding map_sum_def by (simp add: set_mset_sum)
  then show ?thesis using that by auto
qed

end
