(* ===== verification/Ump_Backend.thy ===== *)
theory Ump_Backend
  imports Ump_Types
begin

text \<open>
  The interface of a memory backend (\<open>ump_memory_backend\<close> in common/ump\_kernel\_memory\_backend.h): it
  fills in the blocks of a new handle or refuses, and takes the blocks of a handle back.  What the handles
  rely on is an account \<open>ok n X b\<close>: the backend \<open>b\<close> has given out the extents \<open>X\<close>, and \<open>n\<close> units have been
  lost because a signal interrupted a release.
\<close>

subsection \<open>Extents\<close>

type_synonym ump_extent = "nat option \<times> u32 \<times> ump_dd_physical_block list option \<times> u32"

definition extent :: "ump_dd_mem \<Rightarrow> ump_extent" where
  "extent m = (backend_info m, nr_blocks m, block_array m, size_bytes m)"

definition array_blocks :: "ump_dd_physical_block list option \<Rightarrow> ump_dd_physical_block list" where
  "array_blocks a = (case a of None \<Rightarrow> [] | Some bs \<Rightarrow> bs)"

lemma array_blocks_Some [simp]: "array_blocks (Some bs) = bs"
  by (simp add: array_blocks_def)

definition extent_blocks :: "ump_extent multiset \<Rightarrow> ump_dd_physical_block multiset" where
  "extent_blocks X = (\<Sum>(i, n, a, s) \<in># X. mset (array_blocks a))"

lemma extent_blocks_simps [simp]:
  "extent_blocks {#} = {#}" "extent_blocks (add_mset (i, n, a, s) X) = mset (array_blocks a) + extent_blocks X"
  by (simp_all add: extent_blocks_def)

definition byte_range :: "ump_dd_physical_block \<Rightarrow> nat set" where
  "byte_range b = {unat (block_addr b)..<unat (block_addr b) + unat (block_size b)}"

definition block_wf :: "ump_dd_physical_block \<Rightarrow> bool" where
  "block_wf b \<longleftrightarrow> 4096 dvd unat (block_addr b) \<and> 4096 dvd unat (block_size b) \<and> block_size b \<noteq> 0 \<and>
     unat (block_addr b) + unat (block_size b) \<le> 2 ^ 32"

fun extent_wf :: "ump_extent \<Rightarrow> bool" where
  "extent_wf (i, n, a, s) \<longleftrightarrow> (\<exists>bs. a = Some bs \<and> length bs = unat n \<and> bs \<noteq> [] \<and> (\<forall>b \<in> set bs. block_wf b) \<and>
     unat s = sum_list (map (unat \<circ> block_size) bs))"

definition same_handle :: "ump_dd_mem \<Rightarrow> ump_dd_mem \<Rightarrow> bool" where
  "same_handle m m' \<longleftrightarrow> secure_id m' = secure_id m \<and> ref_count m' = ref_count m \<and> release_func m' = release_func m"

text \<open>The pages that the operating system hands out in one operation are fresh.\<close>

definition fresh_pages :: "ump_env \<Rightarrow> ump_extent multiset \<Rightarrow> bool" where
  "fresh_pages env X \<longleftrightarrow> (\<forall>i p. ump_alloc_page env i = Some p \<longrightarrow>
     4096 dvd unat p \<and> p \<notin> block_addr ` set_mset (extent_blocks X) \<and> (\<forall>j. ump_alloc_page env j = Some p \<longrightarrow> j = i))"

subsection \<open>The interface\<close>

locale ump_memory_backend =
  fixes allocate :: "ump_env \<Rightarrow> bool \<Rightarrow> ump_dd_mem \<Rightarrow> 'b \<Rightarrow> (bool \<times> ump_dd_mem \<times> 'b) option"
    and release :: "bool \<Rightarrow> ump_dd_mem \<Rightarrow> 'b \<Rightarrow> (ump_dd_mem \<times> 'b) option"
    and ok :: "nat \<Rightarrow> ump_extent multiset \<Rightarrow> 'b \<Rightarrow> bool"
  assumes allocate_ok: "ok n X b \<Longrightarrow> size_bytes m \<noteq> 0 \<Longrightarrow> 4096 dvd unat (size_bytes m) \<Longrightarrow> fresh_pages env X \<Longrightarrow>
      \<exists>r m' b'. allocate env intr m b = Some (r, m', b') \<and>
        (if r then same_handle m m' \<and> unat (size_bytes m) \<le> unat (size_bytes m') \<and> ok n (add_mset (extent m') X) b'
         else ok n X b')"
    and release_ok: "ok n (add_mset (extent m) X) b \<Longrightarrow>
      \<exists>m' b'. release intr m b = Some (m', b') \<and> ok (if intr then n + unat (nr_blocks m) else n) X b'"
    and extents_wf: "ok n X b \<Longrightarrow> e \<in># X \<Longrightarrow> extent_wf e"
    and apart: "ok n X b \<Longrightarrow> extent_blocks X = add_mset A (add_mset B Z) \<Longrightarrow> byte_range A \<inter> byte_range B = {}"
begin

text \<open>What was given out, when it is taken back without an interruption, leaves the account as before.\<close>

lemma allocate_release:
  assumes "ok n X b" "size_bytes m \<noteq> 0" "4096 dvd unat (size_bytes m)" "fresh_pages env X"
    "allocate env intr m b = Some (True, m', b')"
  shows "\<exists>m'' b''. release False m' b' = Some (m'', b'') \<and> ok n X b''"
  using allocate_ok[OF assms(1-4), of intr] assms(5) release_ok[of n m' X b' False] by auto

lemma given_out_wf: "ok n X b \<Longrightarrow> (i, k, a, s) \<in># X \<Longrightarrow> \<exists>bs. a = Some bs \<and> length bs = unat k \<and> (\<forall>b \<in> set bs. block_wf b)"
  using extents_wf[of n X b "(i, k, a, s)"] by auto

text \<open>Two extents have no byte in common.\<close>

lemma extents_apart:
  assumes "ok n (add_mset (i, k, a, s) (add_mset (i', k', a', s') X)) b" "B \<in> set (array_blocks a)" "B' \<in> set (array_blocks a')"
  shows "byte_range B \<inter> byte_range B' = {}"
proof -
  obtain P where P: "mset (array_blocks a) = add_mset B P" using assms(2) multi_member_split[of B "mset (array_blocks a)"] by auto
  obtain Q where Q: "mset (array_blocks a') = add_mset B' Q" using assms(3) multi_member_split[of B' "mset (array_blocks a')"] by auto
  show ?thesis by (rule apart[OF assms(1), of B B' "P + Q + extent_blocks X"]) (simp add: P Q)
qed

end

end
