(* ===== verification/Ump_Block_Backend.thy ===== *)
theory Ump_Block_Backend
  imports Ump_Backend
begin

text \<open>
  The dedicated memory backend, linux/ump\_kernel\_memory\_backend\_dedicated.c: a region of physical memory in
  blocks of 256 kB, in the array \<open>all_blocks\<close> of links.  A pointer into the array is the number of its block.
\<close>

subsection \<open>Operations\<close>

definition UMP_BLOCK_SIZE :: u32 where "UMP_BLOCK_SIZE = 256 * 1024"

record ump_block_allocator =
  all_blocks :: "nat \<Rightarrow> nat option"
  ump_first_free :: "nat option"
  ump_base :: u32
  ump_num_blocks :: u32
  ump_num_free :: u32

definition ump_push_free :: "nat \<Rightarrow> ump_block_allocator \<Rightarrow> ump_block_allocator" where
  "ump_push_free b a = a\<lparr>all_blocks := (all_blocks a)(b := ump_first_free a), ump_first_free := Some b\<rparr>"

text \<open>\<open>memory\<close> is whether the three \<open>kmalloc\<close> succeed.\<close>

definition ump_block_allocator_create :: "bool \<Rightarrow> u32 \<Rightarrow> u32 \<Rightarrow> ump_block_allocator option" where
  "ump_block_allocator_create memory base_address sz =
     (let usable_size = (sz + UMP_BLOCK_SIZE - 1) AND NOT (UMP_BLOCK_SIZE - 1);
          num = usable_size div UMP_BLOCK_SIZE
      in if usable_size = 0 \<or> \<not> memory then None
         else Some (fold ump_push_free [0..<unat num]
                \<lparr>all_blocks = \<lambda>_. None, ump_first_free = None, ump_base = base_address,
                 ump_num_blocks = num, ump_num_free = num\<rparr>))"

definition ump_get_phys :: "ump_block_allocator \<Rightarrow> nat \<Rightarrow> u32" where
  "ump_get_phys a b = ump_base a + of_nat b * UMP_BLOCK_SIZE"

text \<open>The loop of an allocation; \<open>i\<close> is the index of the next entry of the array.\<close>

function ump_take_blocks ::
  "u32 \<Rightarrow> nat option \<Rightarrow> nat \<Rightarrow> ump_dd_physical_block list \<Rightarrow> u32 \<Rightarrow> ump_block_allocator
     \<Rightarrow> (u32 \<times> nat option \<times> ump_dd_physical_block list \<times> u32 \<times> ump_block_allocator) option" where
  "ump_take_blocks left lst i arr bytes a =
     (if left = 0 then Some (left, lst, arr, bytes, a)
      else case ump_first_free a of
        None \<Rightarrow> Some (left, lst, arr, bytes, a)
      | Some b \<Rightarrow>
          if i < length arr then
            ump_take_blocks (if left < UMP_BLOCK_SIZE then 0 else left - UMP_BLOCK_SIZE) (Some b) (Suc i)
              (arr[i := \<lparr>block_addr = ump_get_phys a b, block_size = UMP_BLOCK_SIZE\<rparr>]) (bytes + UMP_BLOCK_SIZE)
              (a\<lparr>ump_first_free := all_blocks a b, all_blocks := (all_blocks a)(b := lst), ump_num_free := ump_num_free a - 1\<rparr>)
          else None)"
  by pat_completeness auto

termination
proof (relation "measure (\<lambda>(left, lst, i, arr, bytes, a). unat left)")
  fix left :: u32 and lst i arr bytes a b
  assume "left \<noteq> 0"
  then show "((if left < UMP_BLOCK_SIZE then 0 else left - UMP_BLOCK_SIZE, Some b, Suc i,
      arr[i := \<lparr>block_addr = ump_get_phys a b, block_size = UMP_BLOCK_SIZE\<rparr>], bytes + UMP_BLOCK_SIZE,
      a\<lparr>ump_first_free := all_blocks a b, all_blocks := (all_blocks a)(b := lst), ump_num_free := ump_num_free a - 1\<rparr>),
      left, lst, i, arr, bytes, a) \<in> measure (\<lambda>(left, lst, i, arr, bytes, a). unat left)"
    by (auto simp: unat_gt_0 word_less_nat_alt unat_sub word_le_nat_alt UMP_BLOCK_SIZE_def)
qed simp

declare ump_take_blocks.simps [simp del]

text \<open>The loops that put blocks back: after an allocation that found too few, and in a release.\<close>

partial_function (option) ump_put_back :: "nat option \<Rightarrow> ump_block_allocator \<Rightarrow> ump_block_allocator option" where
  "ump_put_back p a =
     (case p of None \<Rightarrow> Some a
      | Some b \<Rightarrow> ump_put_back (all_blocks a b) ((ump_push_free b a)\<lparr>ump_num_free := ump_num_free a + 1\<rparr>))"

partial_function (option) ump_release_blocks :: "nat option \<Rightarrow> ump_block_allocator \<Rightarrow> ump_block_allocator option" where
  "ump_release_blocks p a =
     (case p of None \<Rightarrow> Some a
      | Some b \<Rightarrow>
          if unat (ump_num_blocks a) < b then None
          else ump_release_blocks (all_blocks a b) ((ump_push_free b a)\<lparr>ump_num_free := ump_num_free a + 1\<rparr>))"

definition ump_block_allocator_allocate ::
  "ump_env \<Rightarrow> bool \<Rightarrow> ump_dd_mem \<Rightarrow> ump_block_allocator \<Rightarrow> (bool \<times> ump_dd_mem \<times> ump_block_allocator) option" where
  "ump_block_allocator_allocate env intr m a =
     (let left = size_bytes m
      in if left = 0 then None
         else let m = m\<lparr>nr_blocks := ((left + UMP_BLOCK_SIZE - 1) AND NOT (UMP_BLOCK_SIZE - 1)) div UMP_BLOCK_SIZE\<rparr>;
                  m = m\<lparr>block_array := vmalloc_blocks env (nr_blocks m)\<rparr>
              in case block_array m of
                   None \<Rightarrow> Some (False, m, a)
                 | Some arr \<Rightarrow>
                     if intr then Some (False, m, a)
                     else do {
                       (left, lst, arr, bytes, a) \<leftarrow> ump_take_blocks left None 0 arr 0 a;
                       let m = m\<lparr>size_bytes := bytes, block_array := Some arr\<rparr>;
                       if left \<noteq> 0 then do {
                         a \<leftarrow> ump_put_back lst a;
                         Some (False, m\<lparr>backend_info := None, block_array := None\<rparr>, a)
                       } else Some (True, m\<lparr>backend_info := lst, is_cached := False\<rparr>, a)
                     })"

definition ump_block_allocator_release ::
  "bool \<Rightarrow> ump_dd_mem \<Rightarrow> ump_block_allocator \<Rightarrow> (ump_dd_mem \<times> ump_block_allocator) option" where
  "ump_block_allocator_release intr m a =
     (if backend_info m = None then None
      else if intr then Some (m, a)
      else do {
        a \<leftarrow> ump_release_blocks (backend_info m) a;
        Some (m\<lparr>block_array := None\<rparr>, a)
      })"

subsection \<open>The account\<close>

text \<open>
  The blocks are partitioned into the free list, one list per extent, which starts with the block taken
  last, and those that an interrupted release has lost.
\<close>

definition phys_block :: "ump_block_allocator \<Rightarrow> nat \<Rightarrow> ump_dd_physical_block" where
  "phys_block a b = \<lparr>block_addr = ump_get_phys a b, block_size = UMP_BLOCK_SIZE\<rparr>"

definition chain_extent :: "ump_block_allocator \<Rightarrow> nat list \<Rightarrow> ump_extent" where
  "chain_extent a bs = (Some (hd bs), of_nat (length bs), Some (map (phys_block a) (rev bs)), of_nat (length bs) * UMP_BLOCK_SIZE)"

definition chains :: "ump_block_allocator \<Rightarrow> nat list multiset \<Rightarrow> bool" where
  "chains a L \<longleftrightarrow> (\<forall>bs \<in># L. bs \<noteq> [] \<and> links (all_blocks a) (Some (hd bs)) bs)"

definition chain_blocks :: "nat list multiset \<Rightarrow> nat multiset" where
  "chain_blocks L = (\<Sum>bs \<in># L. mset bs)"

lemma chain_blocks_simps [simp]: "chain_blocks {#} = {#}" "chain_blocks (add_mset bs L) = mset bs + chain_blocks L"
  by (simp_all add: chain_blocks_def)

definition region_ok :: "ump_block_allocator \<Rightarrow> bool" where
  "region_ok a \<longleftrightarrow> unat (ump_base a) + unat (ump_num_blocks a) * 2 ^ 18 \<le> 2 ^ 32 \<and>
     unat (ump_num_blocks a) < 2 ^ 14 \<and> 4096 dvd unat (ump_base a)"

definition block_account :: "nat list \<Rightarrow> nat list multiset \<Rightarrow> nat multiset \<Rightarrow> ump_block_allocator \<Rightarrow> bool" where
  "block_account fs L lost a \<longleftrightarrow> links (all_blocks a) (ump_first_free a) fs \<and> chains a L \<and>
     mset fs + chain_blocks L + lost = mset [0..<unat (ump_num_blocks a)] \<and>
     unat (ump_num_free a) = length fs \<and> region_ok a"

definition block_ok :: "nat \<Rightarrow> ump_extent multiset \<Rightarrow> ump_block_allocator \<Rightarrow> bool" where
  "block_ok n X a \<longleftrightarrow> (\<exists>fs L lost. block_account fs L lost a \<and> size lost = n \<and> X = image_mset (chain_extent a) L)"

lemma push_fields [simp]:
  "all_blocks (ump_push_free b a) = (all_blocks a)(b := ump_first_free a)" "ump_first_free (ump_push_free b a) = Some b"
  "ump_base (ump_push_free b a) = ump_base a" "ump_num_blocks (ump_push_free b a) = ump_num_blocks a"
  "ump_num_free (ump_push_free b a) = ump_num_free a"
  by (simp_all add: ump_push_free_def)

definition same_blocks :: "ump_block_allocator \<Rightarrow> ump_block_allocator \<Rightarrow> bool" where
  "same_blocks a b \<longleftrightarrow> ump_base a = ump_base b \<and> ump_num_blocks a = ump_num_blocks b"

lemma same_blocks_phys: "same_blocks a b \<Longrightarrow> phys_block a = phys_block b" "same_blocks a b \<Longrightarrow> chain_extent a = chain_extent b"
  "same_blocks a b \<Longrightarrow> region_ok a = region_ok b"
  by (auto simp: same_blocks_def phys_block_def ump_get_phys_def chain_extent_def region_ok_def fun_eq_iff)

lemma chains_cong:
  assumes "chains a L" "\<And>x. x \<in># chain_blocks L \<Longrightarrow> all_blocks a' x = all_blocks a x"
  shows "chains a' L"
  unfolding chains_def
proof (intro ballI conjI)
  fix bs assume bs: "bs \<in># L"
  show "bs \<noteq> []" using assms(1) bs by (simp add: chains_def)
  have "set_mset (mset bs) \<subseteq> set_mset (chain_blocks L)" using bs by (induction L) auto
  then have "links (all_blocks a') (Some (hd bs)) bs = links (all_blocks a) (Some (hd bs)) bs"
    using assms(2) by (intro links_cong) auto
  then show "links (all_blocks a') (Some (hd bs)) bs" using assms(1) bs by (simp add: chains_def)
qed

subsection \<open>The loops\<close>

lemma put_back_ok:
  assumes "links (all_blocks a) p xs" "links (all_blocks a) (ump_first_free a) fs" "distinct (xs @ fs)"
    "unat (ump_num_free a) = length fs" "length xs + length fs < 2 ^ 32" "\<forall>x \<in> set xs. x < unat (ump_num_blocks a)"
  shows "\<exists>a'. ump_put_back p a = Some a' \<and> ump_release_blocks p a = Some a' \<and>
    links (all_blocks a') (ump_first_free a') (rev xs @ fs) \<and> unat (ump_num_free a') = length xs + length fs \<and>
    (\<forall>b. b \<notin> set xs \<longrightarrow> all_blocks a' b = all_blocks a b) \<and> same_blocks a' a"
  using assms
proof (induction xs arbitrary: p a fs)
  case Nil
  then show ?case by (subst ump_put_back.simps, subst ump_release_blocks.simps) (simp add: same_blocks_def)
next
  case (Cons b xs)
  let ?a = "(ump_push_free b a)\<lparr>ump_num_free := ump_num_free a + 1\<rparr>"
  have p: "p = Some b" "links (all_blocks a) (all_blocks a b) xs" using Cons.prems(1) by auto
  have n: "unat (ump_num_free ?a) = Suc (length fs)"
    using Cons.prems(4,5) by (simp add: unat_word_ariths)
  have "\<exists>a'. ump_put_back (all_blocks a b) ?a = Some a' \<and> ump_release_blocks (all_blocks a b) ?a = Some a' \<and>
    links (all_blocks a') (ump_first_free a') (rev xs @ (b # fs)) \<and> unat (ump_num_free a') = length xs + length (b # fs) \<and>
    (\<forall>c. c \<notin> set xs \<longrightarrow> all_blocks a' c = all_blocks ?a c) \<and> same_blocks a' ?a"
  proof (rule Cons.IH)
    show "links (all_blocks ?a) (all_blocks a b) xs" "links (all_blocks ?a) (ump_first_free ?a) (b # fs)"
      using p(2) Cons.prems(2,3) by simp_all
  qed (use n Cons.prems in auto)
  then obtain a' where a': "ump_put_back (all_blocks a b) ?a = Some a'" "ump_release_blocks (all_blocks a b) ?a = Some a'"
    "links (all_blocks a') (ump_first_free a') (rev xs @ (b # fs))" "unat (ump_num_free a') = length xs + length (b # fs)"
    "\<forall>c. c \<notin> set xs \<longrightarrow> all_blocks a' c = all_blocks ?a c" "same_blocks a' ?a" by blast
  have b: "\<not> unat (ump_num_blocks a) < b" using Cons.prems(6) by auto
  show ?case
    by (subst ump_put_back.simps, subst ump_release_blocks.simps, intro exI[of _ a'])
      (use a' p b in \<open>auto simp: same_blocks_def\<close>)
qed

definition blocks_needed :: "u32 \<Rightarrow> nat" where
  "blocks_needed left = (unat left + (2 ^ 18 - 1)) div 2 ^ 18"

lemma blocks_needed_step:
  assumes "left \<noteq> 0"
  shows "blocks_needed left = Suc (blocks_needed (if left < UMP_BLOCK_SIZE then 0 else left - UMP_BLOCK_SIZE))"
proof (cases "left < UMP_BLOCK_SIZE")
  case True
  then have "unat left < 2 ^ 18" "0 < unat left"
    using assms by (simp_all add: word_less_nat_alt UMP_BLOCK_SIZE_def unat_gt_0)
  then show ?thesis using True by (simp add: blocks_needed_def)
next
  case False
  then have "2 ^ 18 \<le> unat left" by (simp add: word_less_nat_alt UMP_BLOCK_SIZE_def)
  moreover have "unat (left - UMP_BLOCK_SIZE) = unat left - 2 ^ 18"
    using False by (simp add: unat_sub not_less UMP_BLOCK_SIZE_def)
  ultimately show ?thesis using False by (simp add: blocks_needed_def)
qed

lemma blocks_needed_0: "blocks_needed left = 0 \<longleftrightarrow> left = 0"
proof
  assume "blocks_needed left = 0"
  then have "unat left + (2 ^ 18 - 1) < 2 ^ 18" by (simp add: blocks_needed_def)
  then show "left = 0" by (simp add: unat_eq_0[symmetric])
qed (simp add: blocks_needed_def)

lemma take_blocks_ok:
  assumes "links (all_blocks a) (ump_first_free a) fs" "links (all_blocks a) lst ts" "distinct (ts @ fs)"
    "unat (ump_num_free a) = length fs" "i = length ts" "length ts + blocks_needed left \<le> length arr"
    "take i arr = map (phys_block a) (rev ts)" "bytes = of_nat (length ts) * UMP_BLOCK_SIZE"
  shows "\<exists>left' lst' arr' a' fs' ts'. ump_take_blocks left lst i arr bytes a =
      Some (left', lst', arr', of_nat (length ts') * UMP_BLOCK_SIZE, a') \<and>
    links (all_blocks a') (ump_first_free a') fs' \<and> links (all_blocks a') lst' ts' \<and>
    mset ts' + mset fs' = mset ts + mset fs \<and> unat (ump_num_free a') = length fs' \<and>
    length arr' = length arr \<and> take (length ts') arr' = map (phys_block a) (rev ts') \<and>
    (left' = 0 \<longrightarrow> length ts' = length ts + blocks_needed left) \<and> (left' \<noteq> 0 \<longrightarrow> fs' = []) \<and>
    (\<forall>b. b \<notin> set ts \<union> set fs \<longrightarrow> all_blocks a' b = all_blocks a b) \<and> same_blocks a' a"
  using assms
proof (induction "unat left" arbitrary: left lst i arr bytes a fs ts rule: less_induct)
  case (less left)
  note P = less.prems
  show ?case
  proof (cases "left = 0 \<or> fs = []")
    case True
    then have e: "ump_take_blocks left lst i arr bytes a = Some (left, lst, arr, bytes, a)"
      using P(1) by (subst ump_take_blocks.simps) auto
    have z: "left = 0 \<Longrightarrow> blocks_needed left = 0" by (simp add: blocks_needed_0)
    show ?thesis unfolding e
      by (intro exI[of _ left] exI[of _ lst] exI[of _ arr] exI[of _ a] exI[of _ fs] exI[of _ ts])
        (use P True z in \<open>auto simp: same_blocks_def\<close>)
  next
    case False
    then obtain b fs0 where fs: "fs = b # fs0" by (cases fs) auto
    have ff: "ump_first_free a = Some b" "links (all_blocks a) (all_blocks a b) fs0" using P(1) fs by auto
    let ?left = "if left < UMP_BLOCK_SIZE then 0 else left - UMP_BLOCK_SIZE"
    let ?a = "a\<lparr>ump_first_free := all_blocks a b, all_blocks := (all_blocks a)(b := lst), ump_num_free := ump_num_free a - 1\<rparr>"
    let ?arr = "arr[i := phys_block a b]"
    have s: "blocks_needed left = Suc (blocks_needed ?left)" using blocks_needed_step False by blast
    have i: "i < length arr" using P(5,6) s by simp
    have e: "ump_take_blocks left lst i arr bytes a =
      ump_take_blocks ?left (Some b) (Suc i) ?arr (bytes + UMP_BLOCK_SIZE) ?a"
      using False ff(1) i by (subst ump_take_blocks.simps) (simp add: phys_block_def)
    have d: "b \<notin> set fs0" "b \<notin> set ts" "distinct ((b # ts) @ fs0)" using P(3) fs by auto
    have nf: "unat (ump_num_free a - 1) = length fs0"
    proof -
      have "1 \<le> ump_num_free a" using P(4) fs by (simp add: word_le_nat_alt)
      then show ?thesis using P(4) fs by (simp add: unat_sub)
    qed
    have ph: "phys_block ?a = phys_block a" by (simp add: phys_block_def ump_get_phys_def fun_eq_iff)
    have lt: "unat ?left < unat left"
      using False by (auto simp: unat_gt_0 word_less_nat_alt unat_sub word_le_nat_alt UMP_BLOCK_SIZE_def)
    have tk: "take (Suc i) ?arr = map (phys_block ?a) (rev (b # ts))"
      using P(7) i by (simp add: take_Suc_conv_app_nth ph)
    have bt: "bytes + UMP_BLOCK_SIZE = of_nat (length (b # ts)) * UMP_BLOCK_SIZE"
      using P(8) by (simp add: algebra_simps)
    have "\<exists>left' lst' arr' a' fs' ts'. ump_take_blocks ?left (Some b) (Suc i) ?arr (bytes + UMP_BLOCK_SIZE) ?a =
        Some (left', lst', arr', of_nat (length ts') * UMP_BLOCK_SIZE, a') \<and>
      links (all_blocks a') (ump_first_free a') fs' \<and> links (all_blocks a') lst' ts' \<and>
      mset ts' + mset fs' = mset (b # ts) + mset fs0 \<and> unat (ump_num_free a') = length fs' \<and>
      length arr' = length ?arr \<and> take (length ts') arr' = map (phys_block ?a) (rev ts') \<and>
      (left' = 0 \<longrightarrow> length ts' = length (b # ts) + blocks_needed ?left) \<and> (left' \<noteq> 0 \<longrightarrow> fs' = []) \<and>
      (\<forall>c. c \<notin> set (b # ts) \<union> set fs0 \<longrightarrow> all_blocks a' c = all_blocks ?a c) \<and> same_blocks a' ?a"
      by (rule less.hyps[OF lt]) (use P ff d nf tk bt s fs in \<open>simp_all\<close>)
    then obtain left' lst' arr' a' fs' ts' where r:
      "ump_take_blocks ?left (Some b) (Suc i) ?arr (bytes + UMP_BLOCK_SIZE) ?a =
        Some (left', lst', arr', of_nat (length ts') * UMP_BLOCK_SIZE, a')"
      "links (all_blocks a') (ump_first_free a') fs'" "links (all_blocks a') lst' ts'"
      "mset ts' + mset fs' = mset (b # ts) + mset fs0" "unat (ump_num_free a') = length fs'"
      "length arr' = length ?arr" "take (length ts') arr' = map (phys_block ?a) (rev ts')"
      "left' = 0 \<longrightarrow> length ts' = length (b # ts) + blocks_needed ?left" "left' \<noteq> 0 \<longrightarrow> fs' = []"
      "\<forall>c. c \<notin> set (b # ts) \<union> set fs0 \<longrightarrow> all_blocks a' c = all_blocks ?a c" "same_blocks a' ?a" by blast
    show ?thesis unfolding e r(1)
      by (intro exI[of _ left'] exI[of _ lst'] exI[of _ arr'] exI[of _ a'] exI[of _ fs'] exI[of _ ts'])
        (use r fs s ph in \<open>auto simp: same_blocks_def\<close>)
  qed
qed

subsection \<open>Allocation and release\<close>

lemma block_count:
  "unat (((left + UMP_BLOCK_SIZE - 1) AND NOT (UMP_BLOCK_SIZE - 1)) div UMP_BLOCK_SIZE) =
     (if unat left + (2 ^ 18 - 1) < 2 ^ 32 then blocks_needed left else 0)"
proof -
  have "left + UMP_BLOCK_SIZE - 1 = left + mask 18" "UMP_BLOCK_SIZE - 1 = mask 18"
    by (simp_all add: UMP_BLOCK_SIZE_def mask_eq_exp_minus_1)
  then have e: "(left + UMP_BLOCK_SIZE - 1) AND NOT (UMP_BLOCK_SIZE - 1) = (left + mask 18) AND NOT (mask 18)" by (simp only:)
  show ?thesis
  proof (cases "unat left + (2 ^ 18 - 1) < 2 ^ 32")
    case True
    have u: "unat ((left + mask 18) AND NOT (mask 18)) = 2 ^ 18 * ((unat left + (2 ^ 18 - 1)) div 2 ^ 18)"
      by (rule round_up[OF _ True]) simp
    have b: "unat UMP_BLOCK_SIZE = 2 ^ 18" by (simp add: UMP_BLOCK_SIZE_def)
    show ?thesis unfolding e using True by (simp only: unat_div u b blocks_needed_def) simp
  next
    case False
    then have "(left + mask 18) AND NOT (mask 18) = 0" by (intro round_up_wraps) simp_all
    then show ?thesis unfolding e using False by simp
  qed
qed

lemma account_partition:
  assumes "block_account fs L lost a"
  shows "distinct fs" "set fs \<inter> set_mset (chain_blocks L) = {}" "set fs \<subseteq> {..<unat (ump_num_blocks a)}"
    "set_mset (chain_blocks L) \<subseteq> {..<unat (ump_num_blocks a)}" "length fs < 2 ^ 14" "\<forall>b. count (chain_blocks L) b \<le> 1"
proof -
  have p: "mset fs + chain_blocks L + lost = mset [0..<unat (ump_num_blocks a)]" "unat (ump_num_blocks a) < 2 ^ 14"
    using assms by (simp_all add: block_account_def region_ok_def)
  have c: "count (mset fs) b + count (chain_blocks L) b + count lost b \<le> 1" for b
  proof -
    have "count (mset [0..<unat (ump_num_blocks a)]) b \<le> 1"
      using distinct_count_atmost_1[of "[0..<unat (ump_num_blocks a)]"] by (cases "b < unat (ump_num_blocks a)") auto
    then show ?thesis unfolding p(1)[symmetric] by simp
  qed
  show "distinct fs"
    using c by (metis add_leD1 count_mset_0_iff distinct_count_atmost_1 le_add1 le_antisym less_one not_less)
  show "\<forall>b. count (chain_blocks L) b \<le> 1" using c by (meson add_leD1 add_leD2)
  show "set fs \<inter> set_mset (chain_blocks L) = {}"
  proof (rule ccontr)
    assume "set fs \<inter> set_mset (chain_blocks L) \<noteq> {}"
    then obtain b where "0 < count (mset fs) b" "0 < count (chain_blocks L) b"
      by (auto simp: count_greater_zero_iff)
    then show False using c[of b] by linarith
  qed
  have "set_mset (mset fs + chain_blocks L + lost) = {..<unat (ump_num_blocks a)}" unfolding p(1) by auto
  then show "set fs \<subseteq> {..<unat (ump_num_blocks a)}" "set_mset (chain_blocks L) \<subseteq> {..<unat (ump_num_blocks a)}" by auto
  have "size (mset fs + chain_blocks L + lost) = unat (ump_num_blocks a)" unfolding p(1) by simp
  then show "length fs < 2 ^ 14" using p(2) by simp
qed

lemma chain_extent_wf:
  assumes r: "region_ok a" and bs: "bs \<noteq> []" "set bs \<subseteq> {..<unat (ump_num_blocks a)}" "distinct bs"
  shows "extent_wf (chain_extent a bs)"
proof -
  have n: "unat (ump_num_blocks a) < 2 ^ 14" "unat (ump_base a) + unat (ump_num_blocks a) * 2 ^ 18 \<le> 2 ^ 32" "4096 dvd unat (ump_base a)"
    using r by (simp_all add: region_ok_def)
  have len: "length bs \<le> unat (ump_num_blocks a)"
    using card_mono[OF _ bs(2)] distinct_card[OF bs(3)] by simp
  have B: "unat UMP_BLOCK_SIZE = 2 ^ 18" by (simp add: UMP_BLOCK_SIZE_def)
  have lw: "unat (of_nat (length bs) :: u32) = length bs"
    using len n(1) by (simp add: unsigned_of_nat take_bit_nat_eq_self)
  have sz: "unat (of_nat (length bs) * UMP_BLOCK_SIZE) = length bs * 2 ^ 18"
    using len n(1) by (simp add: unat_word_ariths lw B)
  have ph: "unat (ump_get_phys a b) = unat (ump_base a) + b * 2 ^ 18" if b: "b \<in> set bs" for b
  proof -
    have l: "b < unat (ump_num_blocks a)" using b bs(2) by auto
    have "unat (of_nat b :: u32) = b" using l n(1) by (simp add: unsigned_of_nat take_bit_nat_eq_self)
    then show ?thesis using l n(2) by (simp add: ump_get_phys_def unat_word_ariths B)
  qed
  have "block_wf (phys_block a b)" if b: "b \<in> set bs" for b
  proof -
    have l: "b < unat (ump_num_blocks a)" using b bs(2) by auto
    then have "unat (ump_get_phys a b) + 2 ^ 18 \<le> 2 ^ 32" using n(2) ph[OF b] by simp
    then show ?thesis using ph[OF b] n(3)
      by (simp add: block_wf_def phys_block_def B dvd_add) (simp add: UMP_BLOCK_SIZE_def)
  qed
  moreover have "sum_list (map (unat \<circ> block_size) (map (phys_block a) (rev bs))) = length bs * 2 ^ 18"
  proof -
    have "map (unat \<circ> block_size) (map (phys_block a) (rev bs)) = map (\<lambda>_. 2 ^ 18) (rev bs)"
      by (simp add: phys_block_def B)
    then show ?thesis by (simp only: sum_list_triv map_replicate_const sum_list_replicate) simp
  qed
  ultimately show ?thesis
    using bs(1) by (simp add: chain_extent_def lw sz comp_assoc)
qed

lemma ump_block_allocate_ok:
  assumes ok: "block_ok n X a" and s: "size_bytes m \<noteq> 0"
  shows "\<exists>r m' a'. ump_block_allocator_allocate env intr m a = Some (r, m', a') \<and>
    (if r then same_handle m m' \<and> unat (size_bytes m) \<le> unat (size_bytes m') \<and> block_ok n (add_mset (extent m') X) a'
     else block_ok n X a')"
proof -
  obtain fs L lost where acc: "block_account fs L lost a" and n: "size lost = n" and X: "X = image_mset (chain_extent a) L"
    using ok by (auto simp: block_ok_def)
  note p = account_partition[OF acc]
  let ?n = "((size_bytes m + UMP_BLOCK_SIZE - 1) AND NOT (UMP_BLOCK_SIZE - 1)) div UMP_BLOCK_SIZE"
  show ?thesis
  proof (cases "vmalloc_blocks env ?n = None \<or> intr")
    case True
    then show ?thesis using ok s
      by (cases "vmalloc_blocks env ?n") (auto simp: ump_block_allocator_allocate_def Let_def)
  next
    case False
    then obtain arr where arr: "vmalloc_blocks env ?n = Some arr" by auto
    then have "?n \<noteq> 0" "length arr = unat ?n" by (auto simp: vmalloc_blocks_def split: if_splits)
    then have nb: "unat (size_bytes m) + (2 ^ 18 - 1) < 2 ^ 32" "length arr = blocks_needed (size_bytes m)"
      "unat ?n = blocks_needed (size_bytes m)"
      using block_count[of "size_bytes m"] by (auto split: if_splits simp: unat_eq_0)
    have l: "links (all_blocks a) (ump_first_free a) fs" "links (all_blocks a) None []" "distinct ([] @ fs)"
      "unat (ump_num_free a) = length fs" "length [] + blocks_needed (size_bytes m) \<le> length arr"
      using acc p(1) nb(2) by (simp_all add: block_account_def)
    have z: "0 = length ([] :: nat list)" "take 0 arr = map (phys_block a) (rev [])"
      "0 = of_nat (length ([] :: nat list)) * UMP_BLOCK_SIZE" by simp_all
    obtain left' lst' arr' a' fs' ts' where r0:
      "ump_take_blocks (size_bytes m) None 0 arr 0 a = Some (left', lst', arr', of_nat (length ts') * UMP_BLOCK_SIZE, a')"
      "links (all_blocks a') (ump_first_free a') fs'" "links (all_blocks a') lst' ts'"
      "mset ts' + mset fs' = mset [] + mset fs" "unat (ump_num_free a') = length fs'"
      "length arr' = length arr" "take (length ts') arr' = map (phys_block a) (rev ts')"
      "left' = 0 \<longrightarrow> length ts' = length ([] :: nat list) + blocks_needed (size_bytes m)" "left' \<noteq> 0 \<longrightarrow> fs' = []"
      "\<forall>b. b \<notin> set [] \<union> set fs \<longrightarrow> all_blocks a' b = all_blocks a b" "same_blocks a' a"
      using take_blocks_ok[OF l(1-4) z(1) l(5) z(2,3)] by (elim exE conjE) (rule that)
    note r = r0(1-3) r0(4)[simplified mset.simps add_0] r0(5-7) r0(8)[simplified list.size add_0] r0(9)
      r0(10)[simplified list.set Un_empty_left] r0(11)
    have ch: "chains a L" using acc by (simp add: block_account_def)
    have set_ts: "set ts' \<union> set fs' = set fs"
      using arg_cong[OF r(4), of set_mset] by simp
    have dts: "distinct (ts' @ fs')"
    proof -
      have "mset (ts' @ fs') = mset fs" using r(4) by simp
      then show ?thesis using p(1) mset_eq_imp_distinct_iff by blast
    qed
    have keep: "chains a'' L" if "\<forall>b. b \<notin> set fs \<longrightarrow> all_blocks a'' b = all_blocks a b" for a''
      using chains_cong[OF ch, of a''] that p(2) by blast
    have rg: "region_ok a" using acc by (simp add: block_account_def)
    have part: "mset fs + chain_blocks L + lost = mset [0..<unat (ump_num_blocks a'')]" if "same_blocks a'' a" for a''
      using acc that by (simp only: block_account_def same_blocks_def)
    show ?thesis
    proof (cases "left' = 0")
      case True
      define m' where "m' = m\<lparr>nr_blocks := ?n, size_bytes := of_nat (length ts') * UMP_BLOCK_SIZE,
        block_array := Some arr', backend_info := lst', is_cached := False\<rparr>"
      have lt: "length ts' = blocks_needed (size_bytes m)" using True r(8) by simp
      have ts: "ts' \<noteq> []" using s lt blocks_needed_0[of "size_bytes m"] by auto
      then have lst: "lst' = Some (hd ts')" using r(3) by (cases ts') auto
      have arr': "arr' = map (phys_block a) (rev ts')" using r(6,7) nb(2) lt by simp
      have nn: "?n = of_nat (length ts')" unfolding lt nb(3)[symmetric] by (simp only: of_nat_unat ucast_id)
      have ex: "extent m' = chain_extent a ts'"
        unfolding m'_def extent_def chain_extent_def using lst arr' nn by simp
      have rel: "ump_block_allocator_allocate env intr m a = Some (True, m', a')"
        using False s arr r(1) True by (simp add: ump_block_allocator_allocate_def Let_def m'_def)
      have "block_account fs' (add_mset ts' L) lost a'"
        unfolding block_account_def
      proof (intro conjI)
        show "chains a' (add_mset ts' L)" using keep[OF r(10)] ts lst r(3) by (simp add: chains_def)
        show "mset fs' + chain_blocks (add_mset ts' L) + lost = mset [0..<unat (ump_num_blocks a')]"
          unfolding part[OF r(11), symmetric] r(4)[symmetric] by (simp add: ac_simps)
        show "region_ok a'" using rg same_blocks_phys(3)[OF r(11)] by simp
      qed (use r in simp_all)
      then have "block_ok n (add_mset (extent m') X) a'"
        unfolding block_ok_def X ex
        by (intro exI[of _ fs'] exI[of _ "add_mset ts' L"] exI[of _ lost])
          (use n same_blocks_phys(2)[OF r(11)] in simp)
      moreover have "unat (size_bytes m) \<le> unat (size_bytes m')"
      proof -
        have "length ts' * 2 ^ 18 \<le> unat (size_bytes m) + (2 ^ 18 - 1)" unfolding lt blocks_needed_def by simp
        then have "length ts' * 2 ^ 18 < 2 ^ 32" using nb(1) by linarith
        then have "unat (of_nat (length ts') * UMP_BLOCK_SIZE) = length ts' * 2 ^ 18"
          by (simp add: unat_word_ariths unsigned_of_nat take_bit_nat_eq_self UMP_BLOCK_SIZE_def)
        moreover have "unat (size_bytes m) \<le> length ts' * 2 ^ 18"
          unfolding lt blocks_needed_def using div_mult_mod_eq[of "unat (size_bytes m) + (2 ^ 18 - 1)" "2 ^ 18"]
            mod_less_divisor[of "2 ^ 18" "unat (size_bytes m) + (2 ^ 18 - 1)"] by simp
        ultimately show ?thesis by (simp add: m'_def)
      qed
      moreover have "same_handle m m'" by (simp add: same_handle_def m'_def)
      ultimately show ?thesis using rel by auto
    next
      case False
      have fs': "fs' = []" using r(9) False by simp
      have lens: "length ts' + length fs' < 2 ^ 32"
      proof -
        have "length ts' + length fs' = length fs" using arg_cong[OF r(4), of size] by simp
        then show ?thesis using p(5) by simp
      qed
      have bnd: "\<forall>x \<in> set ts'. x < unat (ump_num_blocks a')"
        using p(3) set_ts r(11) by (auto simp: same_blocks_def)
      obtain a'' where a'': "ump_put_back lst' a' = Some a''"
        "links (all_blocks a'') (ump_first_free a'') (rev ts' @ fs')" "unat (ump_num_free a'') = length ts' + length fs'"
        "\<forall>b. b \<notin> set ts' \<longrightarrow> all_blocks a'' b = all_blocks a' b" "same_blocks a'' a'"
        using put_back_ok[OF r(3,2) dts r(5) lens bnd] by blast
      have sb: "same_blocks a'' a" using a''(5) r(11) by (simp add: same_blocks_def)
      have fr: "\<forall>b. b \<notin> set fs \<longrightarrow> all_blocks a'' b = all_blocks a b" using a''(4) r(10) set_ts by auto
      have "\<exists>m'. ump_block_allocator_allocate env intr m a = Some (False, m', a'')"
        using \<open>\<not> (vmalloc_blocks env ?n = None \<or> intr)\<close> s arr r(1) a''(1) False
        by (simp add: ump_block_allocator_allocate_def Let_def)
      moreover have "block_account (rev ts' @ fs') L lost a''"
        unfolding block_account_def
      proof (intro conjI)
        show "chains a'' L" by (rule keep[OF fr])
        show "mset (rev ts' @ fs') + chain_blocks L + lost = mset [0..<unat (ump_num_blocks a'')]"
          unfolding part[OF sb, symmetric] r(4)[symmetric] by simp
        show "region_ok a''" using rg same_blocks_phys(3)[OF sb] by simp
      qed (use a'' in simp_all)
      then have "block_ok n X a''"
        unfolding block_ok_def X
        by (intro exI[of _ "rev ts' @ fs'"] exI[of _ L] exI[of _ lost]) (use n same_blocks_phys(2)[OF sb] in simp)
      ultimately show ?thesis by auto
    qed
  qed
qed

lemma ump_block_release_ok:
  assumes ok: "block_ok n (add_mset (extent m) X) a"
  shows "\<exists>m' a'. ump_block_allocator_release intr m a = Some (m', a') \<and>
    block_ok (if intr then n + unat (nr_blocks m) else n) X a'"
proof -
  obtain fs L0 lost where acc: "block_account fs L0 lost a" and n: "size lost = n"
    and X: "add_mset (extent m) X = image_mset (chain_extent a) L0"
    using ok by (auto simp: block_ok_def)
  obtain ts L where L0: "L0 = add_mset ts L" and m: "extent m = chain_extent a ts" and X': "X = image_mset (chain_extent a) L"
    using msed_map_invR[OF X[symmetric]] by auto
  note p = account_partition[OF acc]
  have ts: "ts \<noteq> []" "links (all_blocks a) (Some (hd ts)) ts" and ch: "chains a L"
    using acc unfolding L0 block_account_def chains_def by auto
  have bi: "backend_info m = Some (hd ts)" and nb: "nr_blocks m = of_nat (length ts)"
    using m by (simp_all add: extent_def chain_extent_def)
  have sets: "set ts \<subseteq> {..<unat (ump_num_blocks a)}" "set ts \<inter> set fs = {}" using p(2,4) unfolding L0 by auto
  have cnt: "count (mset ts) b + count (chain_blocks L) b \<le> 1" for b
    using p(6) unfolding L0 by (metis chain_blocks_simps(2) count_union)
  have dt: "distinct ts" "set ts \<inter> set_mset (chain_blocks L) = {}"
  proof -
    show "distinct ts" using cnt
      by (metis add_leD1 count_mset_0_iff distinct_count_atmost_1 le_antisym less_one not_less)
    show "set ts \<inter> set_mset (chain_blocks L) = {}"
    proof (rule ccontr)
      assume "set ts \<inter> set_mset (chain_blocks L) \<noteq> {}"
      then obtain b where "0 < count (mset ts) b" "0 < count (chain_blocks L) b"
        by (auto simp: count_greater_zero_iff)
      then show False using cnt[of b] by linarith
    qed
  qed
  have lt: "length ts < 2 ^ 14"
  proof -
    have "length ts \<le> unat (ump_num_blocks a)" using card_mono[OF _ sets(1)] distinct_card[OF dt(1)] by simp
    then show ?thesis using acc by (simp add: block_account_def region_ok_def)
  qed
  show ?thesis
  proof (cases intr)
    case True
    have "unat (nr_blocks m) = length ts" using lt by (simp add: nb unsigned_of_nat take_bit_nat_eq_self)
    moreover have "block_account fs L (lost + mset ts) a"
      using acc ch unfolding L0 block_account_def by (simp add: ac_simps)
    ultimately have "block_ok (n + unat (nr_blocks m)) X a"
      unfolding block_ok_def X' by (intro exI[of _ fs] exI[of _ L] exI[of _ "lost + mset ts"]) (use n in simp)
    then show ?thesis using True bi by (simp add: ump_block_allocator_release_def)
  next
    case False
    have l: "links (all_blocks a) (ump_first_free a) fs" "distinct (ts @ fs)" "unat (ump_num_free a) = length fs"
      "length ts + length fs < 2 ^ 32" "\<forall>x \<in> set ts. x < unat (ump_num_blocks a)"
      using acc p(1,5) dt(1) sets lt by (auto simp: block_account_def)
    obtain a' where a': "ump_release_blocks (Some (hd ts)) a = Some a'"
      "links (all_blocks a') (ump_first_free a') (rev ts @ fs)" "unat (ump_num_free a') = length ts + length fs"
      "\<forall>b. b \<notin> set ts \<longrightarrow> all_blocks a' b = all_blocks a b" "same_blocks a' a"
      using put_back_ok[OF ts(2) l] by blast
    have "block_account (rev ts @ fs) L lost a'"
      unfolding block_account_def
    proof (intro conjI)
      show "chains a' L" using chains_cong[OF ch, of a'] a'(4) dt(2) by blast
      show "mset (rev ts @ fs) + chain_blocks L + lost = mset [0..<unat (ump_num_blocks a')]"
        using acc a'(5) unfolding L0 block_account_def same_blocks_def by (simp add: ac_simps)
      show "region_ok a'" using acc same_blocks_phys(3)[OF a'(5)] by (simp add: block_account_def)
    qed (use a' in simp_all)
    then have "block_ok n X a'"
      unfolding block_ok_def X' by (intro exI[of _ "rev ts @ fs"] exI[of _ L] exI[of _ lost])
        (use n same_blocks_phys(2)[OF a'(5)] in simp)
    then show ?thesis using False bi a'(1) by (simp add: ump_block_allocator_release_def)
  qed
qed

subsection \<open>The interface\<close>

lemma sub_chain: "bs \<in># L \<Longrightarrow> set bs \<subseteq> set_mset (chain_blocks L) \<and> (\<forall>b. count (mset bs) b \<le> count (chain_blocks L) b)"
  by (induction L) (auto intro: trans_le_add2)

lemma block_extents_wf:
  assumes "block_ok n X a" "e \<in># X"
  shows "extent_wf e"
proof -
  obtain fs L lost where acc: "block_account fs L lost a" and X: "X = image_mset (chain_extent a) L"
    using assms(1) by (auto simp: block_ok_def)
  obtain bs where bs: "bs \<in># L" "e = chain_extent a bs" using assms(2) X by auto
  note p = account_partition[OF acc] and c = sub_chain[OF bs(1)]
  have "distinct bs"
  proof -
    have "count (mset bs) b \<le> 1" for b using c p(6) by (meson order_trans)
    then show ?thesis
      by (metis count_mset_0_iff distinct_count_atmost_1 le_antisym less_one not_less)
  qed
  then show ?thesis
    unfolding bs(2) using acc bs(1) c p(4) by (intro chain_extent_wf) (auto simp: block_account_def chains_def)
qed

lemma extent_blocks_chains: "extent_blocks (image_mset (chain_extent a) L) = image_mset (phys_block a) (chain_blocks L)"
  by (induction L) (simp_all add: chain_extent_def)

lemma block_apart:
  assumes "block_ok n X a" "extent_blocks X = add_mset A (add_mset B Z)"
  shows "byte_range A \<inter> byte_range B = {}"
proof -
  obtain fs L lost where acc: "block_account fs L lost a" and X: "X = image_mset (chain_extent a) L"
    using assms(1) by (auto simp: block_ok_def)
  note p = account_partition[OF acc]
  have n: "unat (ump_base a) + unat (ump_num_blocks a) * 2 ^ 18 \<le> 2 ^ 32" "unat (ump_num_blocks a) < 2 ^ 14"
    using acc by (simp_all add: block_account_def region_ok_def)
  have e: "image_mset (phys_block a) (chain_blocks L) = add_mset A (add_mset B Z)"
    using assms(2) unfolding X extent_blocks_chains .
  obtain x M where x: "chain_blocks L = add_mset x M" "A = phys_block a x" "image_mset (phys_block a) M = add_mset B Z"
    using msed_map_invR[OF e] by auto
  obtain y N where y: "M = add_mset y N" "B = phys_block a y"
    using msed_map_invR[OF x(3)] by auto
  have xy: "x \<noteq> y"
  proof
    assume "x = y"
    then have "count (chain_blocks L) x \<ge> 2" unfolding x(1) y(1) by simp
    then show False using p(6)[rule_format, of x] by simp
  qed
  have lt: "x < unat (ump_num_blocks a)" "y < unat (ump_num_blocks a)" using p(4) unfolding x(1) y(1) by auto
  have ph: "unat (ump_get_phys a b) = unat (ump_base a) + b * 2 ^ 18" if l: "b < unat (ump_num_blocks a)" for b
  proof -
    have "unat (of_nat b :: u32) = b" using l n(2) by (simp add: unsigned_of_nat take_bit_nat_eq_self)
    then show ?thesis using l n(1) by (simp add: ump_get_phys_def unat_word_ariths UMP_BLOCK_SIZE_def)
  qed
  have B: "unat UMP_BLOCK_SIZE = 2 ^ 18" by (simp add: UMP_BLOCK_SIZE_def)
  show ?thesis
    unfolding x(2) y(2) byte_range_def phys_block_def using xy ph[OF lt(1)] ph[OF lt(2)]
    by (cases x y rule: linorder_cases) (auto simp: B)
qed

interpretation block_backend: ump_memory_backend ump_block_allocator_allocate ump_block_allocator_release block_ok
  by unfold_locales (erule ump_block_allocate_ok ump_block_release_ok block_extents_wf block_apart; assumption?)+

text \<open>A backend that has been created owns all of its blocks.\<close>

lemma create_links:
  "links (all_blocks (fold ump_push_free [0..<n] a)) (ump_first_free (fold ump_push_free [0..<n] a)) (rev [0..<n])"
  if "ump_first_free a = None" for a
proof (induction n)
  case (Suc n)
  let ?f = "fold ump_push_free [0..<n] a"
  have "links ((all_blocks ?f)(n := ump_first_free ?f)) (ump_first_free ?f) (rev [0..<n])"
    by (subst links_update) (use Suc in simp_all)
  then show ?case by (simp add: fun_upd_def)
qed (use that in simp)

lemma create_fields:
  "ump_base (fold ump_push_free xs a) = ump_base a" "ump_num_blocks (fold ump_push_free xs a) = ump_num_blocks a"
  "ump_num_free (fold ump_push_free xs a) = ump_num_free a"
  by (induction xs arbitrary: a) simp_all

lemma ump_block_create_ok:
  assumes "ump_block_allocator_create memory base sz = Some a"
    "4096 dvd unat base" "unat base + unat (ump_num_blocks a) * 2 ^ 18 \<le> 2 ^ 32"
  shows "block_ok 0 {#} a"
proof -
  let ?n = "((sz + UMP_BLOCK_SIZE - 1) AND NOT (UMP_BLOCK_SIZE - 1)) div UMP_BLOCK_SIZE"
  let ?a = "\<lparr>all_blocks = \<lambda>_. None, ump_first_free = None, ump_base = base, ump_num_blocks = ?n, ump_num_free = ?n\<rparr>"
  have a: "a = fold ump_push_free [0..<unat ?n] ?a"
    using assms(1) by (auto simp: ump_block_allocator_create_def Let_def split: if_splits)
  have f: "ump_base a = base" "ump_num_blocks a = ?n" "ump_num_free a = ?n" by (simp_all add: a create_fields)
  have n: "unat ?n < 2 ^ 14"
    using unsigned_less[of sz, where 'a = nat] unfolding block_count blocks_needed_def by auto
  have "block_account (rev [0..<unat ?n]) {#} {#} a"
    using create_links[of ?a "unat ?n"] f assms(2,3) n
    by (simp add: block_account_def chains_def region_ok_def flip: a)
  then show ?thesis unfolding block_ok_def by (intro exI[of _ "rev [0..<unat ?n]"] exI[of _ "{#}"]) simp
qed

end
