(* ===== verification/Ump_Os_Backend.thy ===== *)
theory Ump_Os_Backend
  imports Ump_Backend
begin

text \<open>
  The memory backend of linux/ump\_kernel\_memory\_backend\_os.c, which takes single pages from the operating
  system up to a limit.  A page is its physical address, which is the address of its DMA mapping too.
\<close>

subsection \<open>Operations\<close>

definition PAGE_SIZE :: u32 where "PAGE_SIZE = 4096"

record ump_os_allocator =
  ump_pages_max :: u32
  ump_pages_allocated :: u32

text \<open>The limit is an \<open>int\<close>, so that its shift keeps the sign.\<close>

definition ump_os_memory_backend_create :: "bool \<Rightarrow> u32 \<Rightarrow> ump_os_allocator option" where
  "ump_os_memory_backend_create memory max_allocation =
     (if memory then Some \<lparr>ump_pages_max = signed_drop_bit 12 max_allocation, ump_pages_allocated = 0\<rparr> else None)"

text \<open>The loop of an allocation, with what is left and the number of pages so far.\<close>

function ump_take_pages ::
  "ump_env \<Rightarrow> ump_os_allocator \<Rightarrow> u32 \<Rightarrow> nat \<Rightarrow> ump_dd_physical_block list \<Rightarrow> (u32 \<times> nat \<times> ump_dd_physical_block list) option" where
  "ump_take_pages env a left i arr =
     (if 0 < left \<and> ump_pages_allocated a + of_nat i < ump_pages_max a then
        case ump_alloc_page env i of
          None \<Rightarrow> Some (left, i, arr)
        | Some p \<Rightarrow>
            if i < length arr then
              ump_take_pages env a (if left < PAGE_SIZE then 0 else left - PAGE_SIZE) (Suc i)
                (arr[i := \<lparr>block_addr = p, block_size = PAGE_SIZE\<rparr>])
            else None
      else Some (left, i, arr))"
  by pat_completeness auto

termination
proof (relation "measure (\<lambda>(env, a, left, i, arr). unat left)")
  fix env a i arr p and left :: u32
  assume "0 < left \<and> ump_pages_allocated a + of_nat i < ump_pages_max a"
  then show "((env, a, if left < PAGE_SIZE then 0 else left - PAGE_SIZE, Suc i,
      arr[i := \<lparr>block_addr = p, block_size = PAGE_SIZE\<rparr>]), env, a, left, i, arr)
      \<in> measure (\<lambda>(env, a, left, i, arr). unat left)"
    by (auto simp: unat_gt_0 word_less_nat_alt unat_sub word_le_nat_alt PAGE_SIZE_def)
qed simp

declare ump_take_pages.simps [simp del]

text \<open>An allocation that fails gives its pages back to the operating system, and keeps the array.\<close>

definition ump_os_allocate ::
  "ump_env \<Rightarrow> bool \<Rightarrow> ump_dd_mem \<Rightarrow> ump_os_allocator \<Rightarrow> (bool \<times> ump_dd_mem \<times> ump_os_allocator) option" where
  "ump_os_allocate env intr m a =
     (let left = size_bytes m
      in if intr then Some (False, m, a)
         else let m = m\<lparr>backend_info := None, nr_blocks := drop_bit 12 ((left + PAGE_SIZE - 1) AND NOT (PAGE_SIZE - 1))\<rparr>;
                  m = m\<lparr>block_array := vmalloc_blocks env (nr_blocks m)\<rparr>
              in case block_array m of
                   None \<Rightarrow> Some (False, m, a)
                 | Some arr \<Rightarrow> do {
                     (left, i, arr) \<leftarrow> ump_take_pages env a left 0 arr;
                     let m = m\<lparr>block_array := Some arr\<rparr>;
                     if left \<noteq> 0 then Some (False, m, a)
                     else Some (True, m, a\<lparr>ump_pages_allocated := ump_pages_allocated a + of_nat i\<rparr>)
                   })"

definition ump_os_free ::
  "bool \<Rightarrow> ump_dd_mem \<Rightarrow> ump_os_allocator \<Rightarrow> (ump_dd_mem \<times> ump_os_allocator) option" where
  "ump_os_free intr m a =
     (if ump_pages_allocated a < nr_blocks m then None
      else if intr then Some (m, a)
      else if length (array_blocks (block_array m)) < unat (nr_blocks m) then None
      else Some (m, a\<lparr>ump_pages_allocated := ump_pages_allocated a - nr_blocks m\<rparr>))"

subsection \<open>The account\<close>

text \<open>
  The pages that count as allocated are those of the extents and those that an interrupted release has
  lost; no page is in two places.
\<close>

fun page_extent :: "ump_extent \<Rightarrow> bool" where
  "page_extent (i, n, a, s) \<longleftrightarrow> (\<exists>bs. a = Some bs \<and> length bs = unat n \<and> bs \<noteq> [] \<and> length bs < 2 ^ 20 \<and>
     (\<forall>b \<in> set bs. block_size b = PAGE_SIZE \<and> 4096 dvd unat (block_addr b)) \<and> s = n * PAGE_SIZE)"

definition extent_pages :: "ump_extent multiset \<Rightarrow> nat" where
  "extent_pages X = (\<Sum>(i, n, a, s) \<in># X. unat n)"

lemma extent_pages_simps [simp]:
  "extent_pages {#} = 0" "extent_pages (add_mset (i, n, a, s) X) = unat n + extent_pages X"
  by (simp_all add: extent_pages_def)

definition os_ok :: "nat \<Rightarrow> ump_extent multiset \<Rightarrow> ump_os_allocator \<Rightarrow> bool" where
  "os_ok n X a \<longleftrightarrow> (\<forall>e \<in># X. page_extent e) \<and> (\<forall>p. count (image_mset block_addr (extent_blocks X)) p \<le> 1) \<and>
     unat (ump_pages_allocated a) = extent_pages X + n \<and> ump_pages_allocated a \<le> ump_pages_max a"

definition pages_needed :: "u32 \<Rightarrow> nat" where
  "pages_needed left = (unat left + 4095) div 4096"

lemma pages_needed_step:
  assumes "left \<noteq> 0"
  shows "pages_needed left = Suc (pages_needed (if left < PAGE_SIZE then 0 else left - PAGE_SIZE))"
proof (cases "left < PAGE_SIZE")
  case True
  then have "unat left < 4096" "0 < unat left"
    using assms by (simp_all add: word_less_nat_alt PAGE_SIZE_def unat_gt_0)
  then show ?thesis using True by (simp add: pages_needed_def)
next
  case False
  then have "4096 \<le> unat left" by (simp add: word_less_nat_alt PAGE_SIZE_def)
  moreover have "unat (left - PAGE_SIZE) = unat left - 4096"
    using False by (simp add: unat_sub not_less PAGE_SIZE_def)
  ultimately show ?thesis using False by (simp add: pages_needed_def)
qed

text \<open>The loop fills the entries from \<open>i\<close> on with the pages that the operating system hands out.\<close>

lemma take_pages_ok:
  assumes "i + pages_needed left \<le> length arr"
    "take i arr = map (\<lambda>k. \<lparr>block_addr = the (ump_alloc_page env k), block_size = PAGE_SIZE\<rparr>) [0..<i]"
    "\<forall>k < i. ump_alloc_page env k \<noteq> None"
    "unat (ump_pages_allocated a) + i \<le> unat (ump_pages_max a)"
  shows "\<exists>left' j arr'. ump_take_pages env a left i arr = Some (left', j, arr') \<and> length arr' = length arr \<and>
    take j arr' = map (\<lambda>k. \<lparr>block_addr = the (ump_alloc_page env k), block_size = PAGE_SIZE\<rparr>) [0..<j] \<and>
    (\<forall>k < j. ump_alloc_page env k \<noteq> None) \<and> unat (ump_pages_allocated a) + j \<le> unat (ump_pages_max a) \<and>
    (left' = 0 \<longrightarrow> j = i + pages_needed left)"
  using assms
proof (induction "unat left" arbitrary: left i arr rule: less_induct)
  case (less left)
  note P = less.prems
  have u: "unat (ump_pages_allocated a + of_nat i) = unat (ump_pages_allocated a) + i"
  proof -
    have m: "unat (ump_pages_max a) < 2 ^ 32" using unsigned_less[of "ump_pages_max a", where 'a = nat] by simp
    then have "unat (of_nat i :: u32) = i" using P(4) by (simp add: unsigned_of_nat take_bit_nat_eq_self)
    then show ?thesis using m P(4) by (simp add: unat_word_ariths)
  qed
  show ?case
  proof (cases "0 < left \<and> ump_pages_allocated a + of_nat i < ump_pages_max a \<and> ump_alloc_page env i \<noteq> None")
    case True
    then obtain p where p: "ump_alloc_page env i = Some p" by auto
    have l: "left \<noteq> 0" using True by auto
    let ?left = "if left < PAGE_SIZE then 0 else left - PAGE_SIZE"
    let ?arr = "arr[i := \<lparr>block_addr = p, block_size = PAGE_SIZE\<rparr>]"
    note s = pages_needed_step[OF l]
    have i: "i < length arr" using P(1) s by simp
    have e: "ump_take_pages env a left i arr = ump_take_pages env a ?left (Suc i) ?arr"
      using True i p by (subst ump_take_pages.simps) simp
    have lt: "unat ?left < unat left"
      using l by (auto simp: unat_gt_0 word_less_nat_alt unat_sub word_le_nat_alt PAGE_SIZE_def)
    have q: "\<forall>k < Suc i. ump_alloc_page env k \<noteq> None" using P(3) p by (auto simp: less_Suc_eq)
    have mx: "unat (ump_pages_allocated a) + Suc i \<le> unat (ump_pages_max a)"
      using True u by (simp add: word_less_nat_alt)
    have t: "take (Suc i) ?arr = map (\<lambda>k. \<lparr>block_addr = the (ump_alloc_page env k), block_size = PAGE_SIZE\<rparr>) [0..<Suc i]"
      using P(2) i p by (simp add: take_Suc_conv_app_nth)
    have ln: "Suc i + pages_needed ?left \<le> length ?arr" using P(1) s by simp
    show ?thesis unfolding e using less.hyps[OF lt ln t q mx] s by simp
  next
    case False
    then have e: "ump_take_pages env a left i arr = Some (left, i, arr)"
      by (subst ump_take_pages.simps) (auto split: option.splits)
    show ?thesis unfolding e using P by (auto simp: pages_needed_def)
  qed
qed

lemma page_count: "unat (drop_bit 12 ((left + PAGE_SIZE - 1) AND NOT (PAGE_SIZE - 1))) =
    (if unat left + 4095 < 2 ^ 32 then pages_needed left else 0)"
proof -
  have "left + PAGE_SIZE - 1 = left + mask 12" "PAGE_SIZE - 1 = mask 12"
    by (simp_all add: PAGE_SIZE_def mask_eq_exp_minus_1)
  then have e: "(left + PAGE_SIZE - 1) AND NOT (PAGE_SIZE - 1) = (left + mask 12) AND NOT (mask 12)" by (simp only:)
  have d: "unat (drop_bit 12 x :: u32) = unat x div 4096" for x :: u32
    by (simp only: unat_drop_bit_eq drop_bit_eq_div[of 12 "unat x"]) simp
  show ?thesis
  proof (cases "unat left + 4095 < 2 ^ 32")
    case True
    then have "unat ((left + mask 12) AND NOT (mask 12)) = 4096 * ((unat left + 4095) div 4096)"
      using round_up[of 12 left] by simp
    then show ?thesis unfolding e d using True by (simp add: pages_needed_def)
  next
    case False
    then have "(left + mask 12) AND NOT (mask 12) = 0" using round_up_wraps[of 12 left] by simp
    then show ?thesis unfolding e d using False by simp
  qed
qed

lemma ump_os_allocate_ok:
  assumes ok: "os_ok n X a" and s: "size_bytes m \<noteq> 0" "4096 dvd unat (size_bytes m)" and fr: "fresh_pages env X"
  shows "\<exists>r m' a'. ump_os_allocate env intr m a = Some (r, m', a') \<and>
    (if r then same_handle m m' \<and> unat (size_bytes m) \<le> unat (size_bytes m') \<and> os_ok n (add_mset (extent m') X) a'
     else os_ok n X a')"
proof -
  let ?n = "drop_bit 12 ((size_bytes m + PAGE_SIZE - 1) AND NOT (PAGE_SIZE - 1))"
  show ?thesis
  proof (cases "vmalloc_blocks env ?n = None \<or> intr")
    case True
    then show ?thesis using ok
      by (cases "vmalloc_blocks env ?n"; cases intr) (auto simp: ump_os_allocate_def Let_def)
  next
    case False
    then obtain arr where arr: "vmalloc_blocks env ?n = Some arr" by auto
    then have "?n \<noteq> 0" "length arr = unat ?n" by (auto simp: vmalloc_blocks_def split: if_splits)
    then have nb: "length arr = pages_needed (size_bytes m)" "unat ?n = pages_needed (size_bytes m)"
      using page_count[of "size_bytes m"] by (auto split: if_splits simp: unat_eq_0)
    obtain k where k: "unat (size_bytes m) = 4096 * k" using s(2) by blast
    have pk: "pages_needed (size_bytes m) = k" unfolding pages_needed_def k by simp
    have kb: "0 < k" "k < 2 ^ 20"
      using s(1) k unsigned_less[of "size_bytes m", where 'a = nat] by (auto simp: unat_eq_0[symmetric])
    have l: "0 + pages_needed (size_bytes m) \<le> length arr"
      "take 0 arr = map (\<lambda>k. \<lparr>block_addr = the (ump_alloc_page env k), block_size = PAGE_SIZE\<rparr>) [0..<0]"
      "\<forall>k < 0. ump_alloc_page env k \<noteq> None" "unat (ump_pages_allocated a) + 0 \<le> unat (ump_pages_max a)"
      using nb(1) ok by (simp_all add: os_ok_def word_le_nat_alt)
    obtain left' j arr' where r: "ump_take_pages env a (size_bytes m) 0 arr = Some (left', j, arr')" "length arr' = length arr"
      "take j arr' = map (\<lambda>k. \<lparr>block_addr = the (ump_alloc_page env k), block_size = PAGE_SIZE\<rparr>) [0..<j]"
      "\<forall>k < j. ump_alloc_page env k \<noteq> None" "unat (ump_pages_allocated a) + j \<le> unat (ump_pages_max a)"
      "left' = 0 \<longrightarrow> j = 0 + pages_needed (size_bytes m)"
      using take_pages_ok[OF l] by blast
    show ?thesis
    proof (cases "left' = 0")
      case False
      then show ?thesis using ok \<open>\<not> (vmalloc_blocks env ?n = None \<or> intr)\<close> arr r(1)
        by (auto simp: ump_os_allocate_def Let_def)
    next
      case True
      define m' where "m' = m\<lparr>backend_info := None, nr_blocks := ?n, block_array := Some arr'\<rparr>"
      define a' where "a' = a\<lparr>ump_pages_allocated := ump_pages_allocated a + of_nat j\<rparr>"
      have j: "j = k" using True r(6) pk by simp
      have rel: "ump_os_allocate env intr m a = Some (True, m', a')"
        using False True arr r(1) by (simp add: ump_os_allocate_def Let_def m'_def a'_def)
      have arr': "arr' = map (\<lambda>k. \<lparr>block_addr = the (ump_alloc_page env k), block_size = PAGE_SIZE\<rparr>) [0..<k]"
        using r(2,3) nb(1) pk j by simp
      have mx: "unat (ump_pages_max a) < 2 ^ 32" using unsigned_less[of "ump_pages_max a", where 'a = nat] by simp
      have al: "unat (ump_pages_allocated a') = unat (ump_pages_allocated a) + k"
        using r(5) mx kb j by (simp add: a'_def unat_word_ariths unsigned_of_nat take_bit_nat_eq_self)
      have pg: "4096 dvd unat (the (ump_alloc_page env i))" "the (ump_alloc_page env i) \<notin> block_addr ` set_mset (extent_blocks X)"
        "i' < k \<Longrightarrow> the (ump_alloc_page env i') = the (ump_alloc_page env i) \<Longrightarrow> i' = i" if i: "i < k" for i i'
      proof -
        obtain p where p: "ump_alloc_page env i = Some p" using r(4) i j by blast
        show "4096 dvd unat (the (ump_alloc_page env i))" "the (ump_alloc_page env i) \<notin> block_addr ` set_mset (extent_blocks X)"
          using fr p by (auto simp: fresh_pages_def)
        assume "i' < k" "the (ump_alloc_page env i') = the (ump_alloc_page env i)"
        then have "ump_alloc_page env i' = Some p" using r(4) p j by (metis option.collapse option.sel)
        then show "i' = i" using fr p unfolding fresh_pages_def by blast
      qed
      have sz: "size_bytes m = ?n * PAGE_SIZE"
      proof -
        have "unat (?n * PAGE_SIZE) = 4096 * k" using nb(2) pk kb(2)
          by (simp add: unat_word_ariths PAGE_SIZE_def)
        then show ?thesis using k by (metis word_unat_eq_iff)
      qed
      have wf: "page_extent (extent m')"
        unfolding extent_def m'_def
        using nb(2) pk kb sz arr' pg(1) by (auto simp: PAGE_SIZE_def)
      have dist: "distinct (map block_addr arr')"
        unfolding arr' by (auto simp: distinct_map intro!: inj_onI dest: pg(3))
      have disj: "set (map block_addr arr') \<inter> block_addr ` set_mset (extent_blocks X) = {}"
      proof -
        have "set (map block_addr arr') \<subseteq> (\<lambda>i. the (ump_alloc_page env i)) ` {0..<k}" unfolding arr' by auto
        then show ?thesis using pg(2) by (force simp: image_iff)
      qed
      have cnt: "count (image_mset block_addr (extent_blocks (add_mset (extent m') X))) p \<le> 1" for p
      proof -
        have e: "image_mset block_addr (extent_blocks (add_mset (extent m') X)) =
            mset (map block_addr arr') + image_mset block_addr (extent_blocks X)"
          by (simp add: extent_def m'_def)
        have c1: "count (mset (map block_addr arr')) p \<le> 1" using dist by (metis distinct_count_atmost_1 le_refl zero_le count_mset_0_iff)
        have c2: "count (image_mset block_addr (extent_blocks X)) p \<le> 1" using ok by (simp add: os_ok_def)
        show ?thesis
        proof (cases "p \<in> set (map block_addr arr')")
          case True
          then have "p \<notin># image_mset block_addr (extent_blocks X)" using disj by auto
          then have "count (image_mset block_addr (extent_blocks X)) p = 0" by (simp only: not_in_iff)
          then show ?thesis using c1 unfolding e by simp
        next
          case False
          then have "count (mset (map block_addr arr')) p = 0" by (simp only: count_mset_0_iff simp_thms)
          then show ?thesis using c2 unfolding e by simp
        qed
      qed
      have "os_ok n (add_mset (extent m') X) a'"
        unfolding os_ok_def
      proof (intro conjI allI)
        show "\<forall>e \<in># add_mset (extent m') X. page_extent e" using wf ok by (simp add: os_ok_def)
        show "count (image_mset block_addr (extent_blocks (add_mset (extent m') X))) p \<le> 1" for p by (rule cnt)
        have "extent_pages (add_mset (extent m') X) = k + extent_pages X"
          using nb(2) pk by (simp add: extent_def m'_def)
        then show "unat (ump_pages_allocated a') = extent_pages (add_mset (extent m') X) + n"
          using al ok by (simp add: os_ok_def)
        show "ump_pages_allocated a' \<le> ump_pages_max a'"
          using al r(5) j by (simp add: word_le_nat_alt) (simp add: a'_def)
      qed
      then show ?thesis using rel by (auto simp: same_handle_def m'_def)
    qed
  qed
qed

lemma os_free_ok:
  assumes ok: "os_ok n (add_mset (extent m) X) a"
  shows "\<exists>m' a'. ump_os_free intr m a = Some (m', a') \<and> os_ok (if intr then n + unat (nr_blocks m) else n) X a'"
proof -
  have p: "page_extent (extent m)" "\<forall>e \<in># X. page_extent e"
    "unat (ump_pages_allocated a) = unat (nr_blocks m) + extent_pages X + n" "ump_pages_allocated a \<le> ump_pages_max a"
    using ok by (simp_all add: os_ok_def extent_def)
  have c: "count (image_mset block_addr (extent_blocks X)) q \<le> 1" for q
  proof -
    have "count (image_mset block_addr (extent_blocks (add_mset (extent m) X))) q \<le> 1" using ok by (simp add: os_ok_def)
    then show ?thesis by (simp add: extent_def)
  qed
  have le: "nr_blocks m \<le> ump_pages_allocated a" using p(3) by (simp add: word_le_nat_alt)
  have len: "length (array_blocks (block_array m)) = unat (nr_blocks m)" using p(1) by (auto simp: extent_def)
  show ?thesis
  proof (cases intr)
    case True
    then show ?thesis using le p c by (auto simp: ump_os_free_def os_ok_def)
  next
    case False
    let ?a = "a\<lparr>ump_pages_allocated := ump_pages_allocated a - nr_blocks m\<rparr>"
    have "ump_os_free intr m a = Some (m, ?a)" using False le len by (simp add: ump_os_free_def)
    moreover have "os_ok n X ?a"
      using p c le by (simp add: os_ok_def unat_sub word_le_nat_alt)
    ultimately show ?thesis using False by auto
  qed
qed

subsection \<open>The interface\<close>

lemma page_block: "\<forall>e \<in># X. page_extent e \<Longrightarrow> b \<in># extent_blocks X \<Longrightarrow> block_size b = PAGE_SIZE \<and> 4096 dvd unat (block_addr b)"
proof (induction X)
  case (add e X)
  then show ?case by (cases e) auto
qed simp

lemma aligned_page_fits: "4096 dvd unat (p :: u32) \<Longrightarrow> unat p + 4096 \<le> 2 ^ 32"
  using unsigned_less[of p, where 'a = nat] by (auto simp: dvd_def)

lemma os_extents_wf:
  assumes "os_ok n X a" "e \<in># X"
  shows "extent_wf e"
proof -
  obtain i k ar s where e: "e = (i, k, ar, s)" by (cases e)
  have "page_extent (i, k, ar, s)" using assms e by (auto simp: os_ok_def)
  then obtain bs where bs: "ar = Some bs" "length bs = unat k" "bs \<noteq> []" "length bs < 2 ^ 20"
    "\<forall>b \<in> set bs. block_size b = PAGE_SIZE \<and> 4096 dvd unat (block_addr b)" "s = k * PAGE_SIZE" by auto
  have "\<forall>b \<in> set bs. block_wf b" using bs(5) aligned_page_fits by (auto simp: block_wf_def PAGE_SIZE_def)
  moreover have "sum_list (map (unat \<circ> block_size) bs) = unat s"
  proof -
    have "map (unat \<circ> block_size) bs = map (\<lambda>_. 4096) bs" using bs(5) by (auto simp: PAGE_SIZE_def)
    then have "sum_list (map (unat \<circ> block_size) bs) = length bs * 4096"
      by (simp only: map_replicate_const sum_list_replicate of_nat_id)
    then show ?thesis using bs(2,4,6) by (simp add: unat_word_ariths PAGE_SIZE_def)
  qed
  ultimately show ?thesis using bs e by auto
qed

lemma os_apart:
  assumes "os_ok n X a" "extent_blocks X = add_mset A (add_mset B Z)"
  shows "byte_range A \<inter> byte_range B = {}"
proof -
  have AB: "block_size b = PAGE_SIZE \<and> 4096 dvd unat (block_addr b)" if "b = A \<or> b = B" for b
    using page_block[of X b] assms that by (auto simp: os_ok_def)
  have ne: "unat (block_addr A) \<noteq> unat (block_addr B)"
  proof
    assume e: "unat (block_addr A) = unat (block_addr B)"
    have "count (image_mset block_addr (extent_blocks X)) (block_addr A) \<le> 1" using assms(1) by (simp add: os_ok_def)
    moreover have "block_addr A = block_addr B" using e by (simp add: word_unat_eq_iff)
    ultimately show False unfolding assms(2) by simp
  qed
  obtain x y where xy: "unat (block_addr A) = 4096 * x" "unat (block_addr B) = 4096 * y" using AB by (metis dvdE)
  have s: "unat (block_size A) = 4096" "unat (block_size B) = 4096" using AB by (simp_all add: PAGE_SIZE_def)
  show ?thesis unfolding byte_range_def s xy using ne xy by (cases x y rule: linorder_cases) auto
qed

interpretation os_backend: ump_memory_backend ump_os_allocate ump_os_free os_ok
  by unfold_locales (erule ump_os_allocate_ok os_free_ok os_extents_wf os_apart; assumption?)+

lemma ump_os_create_ok: "ump_os_memory_backend_create memory mx = Some a \<Longrightarrow> os_ok 0 {#} a"
  by (auto simp: ump_os_memory_backend_create_def os_ok_def split: if_splits)

end
