(* ===== verification/Ump_Handles.thy ===== *)
theory Ump_Handles
  imports Ump_Block_Backend Ump_Os_Backend
begin

text \<open>
  The handles of the UMP driver and their references: linux/ump\_memory\_backend.c, the kernel interface in
  common/ump\_kernel\_api.c, and handles on memory of other drivers in common/ump\_kernel\_ref\_drv.c.
  Every operation holds the lock of the secure ids while it works on the table and on a count, so
  that operations follow each other.
\<close>

subsection \<open>The memory backend\<close>

datatype ump_backend = Dedicated_backend ump_block_allocator | Os_backend ump_os_allocator

text \<open>\<open>region\<close> is the outcome of the request of the memory region, \<open>memory\<close> whether \<open>kmalloc\<close> succeeds.\<close>

definition ump_memory_backend_create :: "int \<Rightarrow> u32 \<Rightarrow> u32 \<Rightarrow> bool \<Rightarrow> bool \<Rightarrow> ump_backend option" where
  "ump_memory_backend_create kind address sz region memory =
     (if kind = 0 then
        if \<not> region then None else map_option Dedicated_backend (ump_block_allocator_create memory address sz)
      else if kind = 1 then map_option Os_backend (ump_os_memory_backend_create memory sz)
      else None)"

definition ump_backend_allocate ::
  "ump_env \<Rightarrow> bool \<Rightarrow> ump_dd_mem \<Rightarrow> ump_backend \<Rightarrow> (bool \<times> ump_dd_mem \<times> ump_backend) option" where
  "ump_backend_allocate env intr m b =
     (case b of
        Dedicated_backend a \<Rightarrow> map_option (\<lambda>(r, m, a). (r, m, Dedicated_backend a)) (ump_block_allocator_allocate env intr m a)
      | Os_backend a \<Rightarrow> map_option (\<lambda>(r, m, a). (r, m, Os_backend a)) (ump_os_allocate env intr m a))"

definition ump_backend_release :: "bool \<Rightarrow> ump_dd_mem \<Rightarrow> ump_backend \<Rightarrow> (ump_dd_mem \<times> ump_backend) option" where
  "ump_backend_release intr m b =
     (case b of
        Dedicated_backend a \<Rightarrow> map_option (\<lambda>(m, a). (m, Dedicated_backend a)) (ump_block_allocator_release intr m a)
      | Os_backend a \<Rightarrow> map_option (\<lambda>(m, a). (m, Os_backend a)) (ump_os_free intr m a))"

definition backend_ok :: "nat \<Rightarrow> ump_extent multiset \<Rightarrow> ump_backend \<Rightarrow> bool" where
  "backend_ok n X b = (case b of Dedicated_backend a \<Rightarrow> block_ok n X a | Os_backend a \<Rightarrow> os_ok n X a)"

interpretation backend: ump_memory_backend ump_backend_allocate ump_backend_release backend_ok
proof
  fix n X b env intr m e A B Z
  show "\<exists>r m' b'. ump_backend_allocate env intr m b = Some (r, m', b') \<and>
      (if r then same_handle m m' \<and> unat (size_bytes m) \<le> unat (size_bytes m') \<and> backend_ok n (add_mset (extent m') X) b'
       else backend_ok n X b')"
    if "backend_ok n X b" "size_bytes m \<noteq> 0" "4096 dvd unat (size_bytes m)" "fresh_pages env X"
  proof (cases b)
    case (Dedicated_backend a)
    then have "block_ok n X a" using that(1) by (simp add: backend_ok_def)
    from block_backend.allocate_ok[OF this that(2-4), of intr] obtain r m' a' where
      r: "ump_block_allocator_allocate env intr m a = Some (r, m', a')"
      "if r then same_handle m m' \<and> unat (size_bytes m) \<le> unat (size_bytes m') \<and> block_ok n (add_mset (extent m') X) a'
       else block_ok n X a'" by blast
    then show ?thesis by (intro exI[of _ r] exI[of _ m'] exI[of _ "Dedicated_backend a'"])
        (auto simp: ump_backend_allocate_def Dedicated_backend backend_ok_def)
  next
    case (Os_backend a)
    then have "os_ok n X a" using that(1) by (simp add: backend_ok_def)
    from os_backend.allocate_ok[OF this that(2-4), of intr] obtain r m' a' where
      r: "ump_os_allocate env intr m a = Some (r, m', a')"
      "if r then same_handle m m' \<and> unat (size_bytes m) \<le> unat (size_bytes m') \<and> os_ok n (add_mset (extent m') X) a'
       else os_ok n X a'" by blast
    then show ?thesis by (intro exI[of _ r] exI[of _ m'] exI[of _ "Os_backend a'"])
        (auto simp: ump_backend_allocate_def Os_backend backend_ok_def)
  qed
  show "\<exists>m' b'. ump_backend_release intr m b = Some (m', b') \<and>
      backend_ok (if intr then n + unat (nr_blocks m) else n) X b'"
    if "backend_ok n (add_mset (extent m) X) b"
    using that block_backend.release_ok[of n m X _ intr] os_backend.release_ok[of n m X _ intr]
    by (cases b) (fastforce simp: backend_ok_def ump_backend_release_def)+
  show "extent_wf e" if "backend_ok n X b" "e \<in># X"
    using that block_backend.extents_wf os_backend.extents_wf by (cases b) (auto simp: backend_ok_def)
  show "byte_range A \<inter> byte_range B = {}" if "backend_ok n X b" "extent_blocks X = add_mset A (add_mset B Z)"
    using that block_backend.apart os_backend.apart by (cases b) (auto simp: backend_ok_def)
qed

subsection \<open>References\<close>

text \<open>The memory of a handle is at its address until the last reference is given back.\<close>

record ump_device =
  secure_id_map :: desc_mapping
  backend :: ump_backend
  mems :: "ptr \<rightharpoonup> ump_dd_mem"

abbreviation set_mem :: "ptr \<Rightarrow> ump_dd_mem option \<Rightarrow> 'a ump_device_scheme \<Rightarrow> 'a ump_device_scheme" where
  "set_mem p x w \<equiv> w\<lparr>mems := (mems w)(p := x)\<rparr>"

definition UMP_DD_HANDLE_INVALID :: ptr where "UMP_DD_HANDLE_INVALID = 0"

definition ump_dd_secure_id_get :: "ptr \<Rightarrow> 'a ump_device_scheme \<Rightarrow> u32 option" where
  "ump_dd_secure_id_get p w = map_option secure_id (mems w p)"

definition ump_dd_size_get :: "ptr \<Rightarrow> 'a ump_device_scheme \<Rightarrow> u32 option" where
  "ump_dd_size_get p w = map_option size_bytes (mems w p)"

definition ump_dd_phys_block_count_get :: "ptr \<Rightarrow> 'a ump_device_scheme \<Rightarrow> u32 option" where
  "ump_dd_phys_block_count_get p w = map_option nr_blocks (mems w p)"

definition ump_dd_reference_add :: "ptr \<Rightarrow> 'a ump_device_scheme \<Rightarrow> 'a ump_device_scheme option" where
  "ump_dd_reference_add p w = do {
     m \<leftarrow> mems w p;
     Some (set_mem p (Some (m\<lparr>ref_count := int32 (ref_count m + 1)\<rparr>)) w)
   }"

definition phys_blocks_release :: "ump_dd_mem \<Rightarrow> ump_dd_mem" where
  "phys_blocks_release m = m\<lparr>block_array := None\<rparr>"

definition run_release_func :: "bool \<Rightarrow> ptr \<Rightarrow> 'a ump_device_scheme \<Rightarrow> 'a ump_device_scheme option" where
  "run_release_func intr p w = do {
     m \<leftarrow> mems w p;
     case release_func m of
       Phys_blocks_release \<Rightarrow> Some (set_mem p (Some (phys_blocks_release m)) w)
     | Backend_release \<Rightarrow> do {
         (m, b) \<leftarrow> ump_backend_release intr m (backend w);
         Some (set_mem p (Some m) (w\<lparr>backend := b\<rparr>))
       }
   }"

definition ump_dd_reference_release :: "ump_env \<Rightarrow> ptr \<Rightarrow> 'a ump_device_scheme \<Rightarrow> 'a ump_device_scheme option" where
  "ump_dd_reference_release env p w = do {
     m \<leftarrow> mems w p;
     let new_ref = int32 (ref_count m - 1);
     let w = set_mem p (Some (m\<lparr>ref_count := new_ref\<rparr>)) w;
     if new_ref = 0 then do {
       ids \<leftarrow> returned (ump_descriptor_mapping_free (secure_id_map w) (sint (secure_id m)));
       w \<leftarrow> run_release_func (interrupted env p) p (w\<lparr>secure_id_map := ids\<rparr>);
       Some (set_mem p None w)
     } else Some w
   }"

definition ump_dd_handle_create_from_secure_id :: "u32 \<Rightarrow> 'a ump_device_scheme \<Rightarrow> (ptr \<times> 'a ump_device_scheme) option" where
  "ump_dd_handle_create_from_secure_id sid w =
     (let (err, p) = ump_descriptor_mapping_get (secure_id_map w) (sint sid)
      in if err \<noteq> 0 then Some (UMP_DD_HANDLE_INVALID, w)
         else do { w \<leftarrow> ump_dd_reference_add p w; Some (p, w) })"

text \<open>The blocks of a handle; \<open>None\<close> as the result of the query is \<open>UMP_DD_INVALID\<close>.\<close>

definition ump_dd_phys_blocks_get ::
  "ptr \<Rightarrow> bool \<Rightarrow> u32 \<Rightarrow> 'a ump_device_scheme \<Rightarrow> ump_dd_physical_block list option option" where
  "ump_dd_phys_blocks_get p blocks num_blocks w = do {
     m \<leftarrow> mems w p;
     if \<not> blocks then Some None
     else if nr_blocks m \<noteq> num_blocks then Some None
     else if length (array_blocks (block_array m)) < unat (nr_blocks m) then None
     else Some (Some (take (unat (nr_blocks m)) (array_blocks (block_array m))))
   }"

definition ump_dd_phys_block_get ::
  "ptr \<Rightarrow> u32 \<Rightarrow> bool \<Rightarrow> 'a ump_device_scheme \<Rightarrow> ump_dd_physical_block option option" where
  "ump_dd_phys_block_get p index block w = do {
     m \<leftarrow> mems w p;
     if \<not> block then Some None
     else if nr_blocks m \<le> index then Some None
     else if length (array_blocks (block_array m)) \<le> unat index then None
     else Some (Some (array_blocks (block_array m) ! unat index))
   }"

text \<open>The pointer to the new handle is in the table before the handle is filled in, under the lock.\<close>

definition ump_dd_handle_create_from_phys_blocks ::
  "ump_env \<Rightarrow> ump_dd_physical_block list \<Rightarrow> 'a ump_device_scheme \<Rightarrow> (ptr \<times> 'a ump_device_scheme) option" where
  "ump_dd_handle_create_from_phys_blocks env blocks w =
     (if \<exists>b \<in> set blocks. UMP_ADDR_ALIGN_OFFSET (block_addr b) \<noteq> 0 \<or> UMP_ADDR_ALIGN_OFFSET (block_size b) \<noteq> 0
      then Some (UMP_DD_HANDLE_INVALID, w)
      else case new_mem env of
        None \<Rightarrow> Some (UMP_DD_HANDLE_INVALID, w)
      | Some p \<Rightarrow> do {
          (map_id, ids) \<leftarrow> returned (ump_descriptor_mapping_allocate_mapping (table_calloc env) (secure_id_map w) p);
          let w = w\<lparr>secure_id_map := ids\<rparr>;
          if map_id < 0 then Some (UMP_DD_HANDLE_INVALID, w)
          else if \<not> new_array env then do {
            ids \<leftarrow> returned (ump_descriptor_mapping_free (secure_id_map w) map_id);
            Some (UMP_DD_HANDLE_INVALID, w\<lparr>secure_id_map := ids\<rparr>)
          } else
            Some (p, set_mem p (Some \<lparr>secure_id = word_of_int map_id, ref_count = 1,
              size_bytes = sum_list (map block_size blocks), nr_blocks = of_nat (length blocks),
              block_array = Some blocks, release_func = Phys_blocks_release, backend_info = None, is_cached = False\<rparr>) w)
        })"

end
