(* ===== verification/Ump_References.thy ===== *)
theory Ump_References
  imports Ump_Handles
begin

text \<open>
  The account of the handles: the reference count of a handle is the number of those who hold it, the
  table of secure ids has exactly the live handles, and the memory backend has given out exactly the
  extents of those live handles that are its own.
\<close>

subsection \<open>The account\<close>

definition handle_extent :: "ump_dd_mem \<Rightarrow> ump_extent multiset" where
  "handle_extent m = (case release_func m of Backend_release \<Rightarrow> {#extent m#} | Phys_blocks_release \<Rightarrow> {#})"

definition live_extents :: "(ptr \<rightharpoonup> ump_dd_mem) \<Rightarrow> ump_extent multiset" where
  "live_extents M = map_sum handle_extent M"

definition handle_ok :: "ptr multiset \<Rightarrow> ptr \<Rightarrow> ump_dd_mem \<Rightarrow> bool" where
  "handle_ok R p m \<longleftrightarrow> ref_count m = int (count R p) \<and> 0 < count R p \<and> 0 < sint (secure_id m) \<and> p \<noteq> 0 \<and>
     (release_func m = Phys_blocks_release \<longrightarrow> (\<exists>bs. block_array m = Some bs \<and> of_nat (length bs) = nr_blocks m))"

definition ids_ok :: "desc_mapping \<Rightarrow> (ptr \<rightharpoonup> ump_dd_mem) \<Rightarrow> bool" where
  "ids_ok ids M \<longleftrightarrow> wf_mapping ids \<and>
     (\<forall>d p. map_contents ids d = Some p \<longleftrightarrow> (\<exists>m. M p = Some m \<and> sint (secure_id m) = int d))"

definition handles_ok :: "nat \<Rightarrow> ptr multiset \<Rightarrow> 'a ump_device_scheme \<Rightarrow> bool" where
  "handles_ok n R w \<longleftrightarrow> ids_ok (secure_id_map w) (mems w) \<and> finite (dom (mems w)) \<and>
     (\<forall>p m. mems w p = Some m \<longrightarrow> handle_ok R p m) \<and> set_mset R \<subseteq> dom (mems w) \<and> size R < 2 ^ 31 \<and>
     backend_ok n (live_extents (mems w)) (backend w)"

lemma live_extents_empty [simp]: "live_extents Map.empty = {#}"
  by (simp add: live_extents_def)

lemma live_extents_upd: "finite (dom M) \<Longrightarrow> live_extents (M(p \<mapsto> m)) = handle_extent m + live_extents (M(p := None))"
  unfolding live_extents_def by (rule map_sum_upd)

lemma live_extents_at: "finite (dom M) \<Longrightarrow> M p = Some m \<Longrightarrow> live_extents M = handle_extent m + live_extents (M(p := None))"
  unfolding live_extents_def by (rule map_sum_at)

lemma ids_ok_keep:
  assumes "ids_ok ids M" "M p = Some m" "secure_id m' = secure_id m"
  shows "ids_ok ids (M(p \<mapsto> m'))"
  using assms unfolding ids_ok_def by (auto split: if_splits)

lemma ids_ok_secure_id: "ids_ok ids M \<Longrightarrow> M p = Some m \<Longrightarrow> 0 < sint (secure_id m) \<Longrightarrow> map_contents ids (nat (sint (secure_id m))) = Some p"
  unfolding ids_ok_def by force

lemma ids_ok_unique:
  "ids_ok ids M \<Longrightarrow> M p = Some m \<Longrightarrow> M q = Some m' \<Longrightarrow> 0 < sint (secure_id m) \<Longrightarrow> sint (secure_id m') = sint (secure_id m) \<Longrightarrow> q = p"
  using ids_ok_secure_id[of ids M p m] ids_ok_secure_id[of ids M q m'] by simp

lemma ids_ok_remove:
  assumes ok: "ids_ok ids M" and m: "M p = Some m" "0 < sint (secure_id m)"
  obtains ids' where "ump_descriptor_mapping_free ids (sint (secure_id m)) = Done ids'" "ids_ok ids' (M(p := None))"
proof -
  obtain d where d: "sint (secure_id m) = int d" "0 < d" using m(2) by (metis of_nat_0_less_iff zero_le_imp_eq_int less_imp_le)
  obtain ids' where ids': "mali_descriptor_mapping_free ids (int d) = Done ids'" "wf_mapping ids'"
    "map_contents ids' = (map_contents ids)(d := None)"
    using free_spec[of ids d] ok d(2) unfolding ids_ok_def by metis
  have "ids_ok ids' (M(p := None))"
    unfolding ids_ok_def ids'(3)
  proof (intro conjI allI iffI)
    fix e q
    assume "((map_contents ids)(d := None)) e = Some q"
    then have "e \<noteq> d" "map_contents ids e = Some q" by (auto split: if_splits)
    then obtain m' where m': "M q = Some m'" "sint (secure_id m') = int e" using ok by (auto simp: ids_ok_def)
    then have "q \<noteq> p" using m(1) d \<open>e \<noteq> d\<close> by auto
    then show "\<exists>m'. (M(p := None)) q = Some m' \<and> sint (secure_id m') = int e" using m' by simp
  next
    fix e q
    assume "\<exists>m'. (M(p := None)) q = Some m' \<and> sint (secure_id m') = int e"
    then obtain m' where m': "q \<noteq> p" "M q = Some m'" "sint (secure_id m') = int e" by (auto split: if_splits)
    then have "e \<noteq> d" using ids_ok_unique[OF ok m(1) m'(2) m(2)] d(1) by auto
    then show "((map_contents ids)(d := None)) e = Some q" using ok m' by (auto simp: ids_ok_def)
  qed (rule ids'(2))
  then show ?thesis using that ids'(1) d(1) by (simp add: ump_free_eq)
qed

text \<open>An allocation in a well-formed table, on every branch.\<close>

lemma ump_allocate_cases:
  assumes wf: "wf_mapping ids"
  obtains d ids' where "ump_descriptor_mapping_allocate_mapping c ids p = Done (d, ids')"
    "if d < 0 then ids' = ids
     else 0 < d \<and> sint (word_of_int d :: u32) = d \<and> wf_mapping ids' \<and>
       map_contents ids' = (map_contents ids)(nat d \<mapsto> p) \<and> map_contents ids (nat d) = None"
proof -
  have s: "sint (word_of_int d :: u32) = d" if "0 < d" "d < 2 ^ 31" for d
    using that by (simp add: signed_of_int signed_take_bit_int_eq_self)
  note c = wf_current[OF wf]
  show ?thesis
  proof (cases "mapping_full ids")
    case False
    obtain e ids' where e: "ump_descriptor_mapping_allocate_mapping c ids p = Done (int e, ids')"
      "0 < e" "int e < current_nr_mappings ids" "map_contents ids e = None"
      "wf_mapping ids'" "map_contents ids' = (map_contents ids)(e \<mapsto> p)"
      by (rule ump_allocate_free[OF wf False, of c p])
    show ?thesis by (rule that[OF e(1)]) (use e c(2) s[of "int e"] in simp)
  next
    case full: True
    show ?thesis
    proof (cases "max_nr_mappings_allowed ids \<le> current_nr_mappings ids \<or> c = None")
      case True
      from ump_allocate_fails[OF wf full True, of p] show ?thesis using that[of "-1" ids] by simp
    next
      case False
      then obtain b where b: "c = Some b" and lim: "current_nr_mappings ids < max_nr_mappings_allowed ids" by auto
      obtain ids' where i: "ump_descriptor_mapping_allocate_mapping (Some b) ids p = Done (current_nr_mappings ids, ids')"
        "wf_mapping ids'" "map_contents ids' = (map_contents ids)(nat (current_nr_mappings ids) \<mapsto> p)"
        by (rule ump_allocate_expand[OF wf full lim])
      have free: "map_contents ids (nat (current_nr_mappings ids)) = None" by (simp add: map_contents_def)
      show ?thesis
        by (rule that[OF i(1)[folded b]]) (use i(2,3) c(1,2) free s[of "current_nr_mappings ids"] in simp)
    qed
  qed
qed

lemma ump_free_undo:
  assumes d: "0 < d" "wf_mapping ids'" "map_contents ids' = (map_contents ids)(nat d \<mapsto> p)" "map_contents ids (nat d) = None"
  obtains ids'' where "ump_descriptor_mapping_free ids' d = Done ids''" "wf_mapping ids''" "map_contents ids'' = map_contents ids"
proof -
  obtain ids'' where i: "mali_descriptor_mapping_free ids' (int (nat d)) = Done ids''" "wf_mapping ids''"
    "map_contents ids'' = (map_contents ids')(nat d := None)"
    by (rule free_spec[OF d(2), of "nat d"]) (use d(1) in simp)
  show ?thesis by (rule that[of ids'']) (use i d in \<open>simp_all add: ump_free_eq fun_upd_idem\<close>)
qed

text \<open>A new handle is entered into the table, or the table is as before.\<close>

lemma ids_ok_new:
  assumes ok: "ids_ok ids M" and p: "M p = None"
    and n: "wf_mapping ids'" "map_contents ids' = (map_contents ids)(e \<mapsto> p)" "map_contents ids e = None" "sint (secure_id m) = int e"
  shows "ids_ok ids' (M(p \<mapsto> m))"
  unfolding ids_ok_def n(2)
proof (intro conjI allI iffI)
  fix k q
  assume "((map_contents ids)(e \<mapsto> p)) k = Some q"
  then show "\<exists>m'. (M(p \<mapsto> m)) q = Some m' \<and> sint (secure_id m') = int k"
    using ok n(4) p by (auto simp: ids_ok_def split: if_splits)
next
  fix k q
  assume "\<exists>m'. (M(p \<mapsto> m)) q = Some m' \<and> sint (secure_id m') = int k"
  then obtain m' where m': "(M(p \<mapsto> m)) q = Some m'" "sint (secure_id m') = int k" by blast
  show "((map_contents ids)(e \<mapsto> p)) k = Some q"
  proof (cases "q = p")
    case False
    then have "map_contents ids k = Some q" using ok m' by (auto simp: ids_ok_def)
    then show ?thesis using n(3) by auto
  qed (use m' n(4) in simp)
qed (rule n(1))

lemma ids_ok_allocate:
  assumes ok: "ids_ok ids M" and p: "M p = None"
  obtains d ids' where "ump_descriptor_mapping_allocate_mapping c ids p = Done (d, ids')"
    "if d < 0 then ids' = ids
     else 0 < d \<and> (\<forall>m. sint (secure_id m) = d \<longrightarrow> ids_ok ids' (M(p \<mapsto> m))) \<and> sint (word_of_int d :: u32) = d \<and> wf_mapping ids' \<and>
       map_contents ids' = (map_contents ids)(nat d \<mapsto> p) \<and> map_contents ids (nat d) = None"
proof -
  have wf: "wf_mapping ids" using ok by (simp add: ids_ok_def)
  obtain d ids' where d: "ump_descriptor_mapping_allocate_mapping c ids p = Done (d, ids')"
    "if d < 0 then ids' = ids
     else 0 < d \<and> sint (word_of_int d :: u32) = d \<and> wf_mapping ids' \<and>
       map_contents ids' = (map_contents ids)(nat d \<mapsto> p) \<and> map_contents ids (nat d) = None"
    by (rule ump_allocate_cases[OF wf])
  have "ids_ok ids' (M(p \<mapsto> m))" if "\<not> d < 0" "sint (secure_id m) = d" for m
    by (rule ids_ok_new[OF ok p, of ids' "nat d"]) (use d(2) that in \<open>simp_all split: if_splits\<close>)
  then show ?thesis using that[OF d(1)] d(2) by simp
qed

lemma ids_ok_lookup:
  assumes ok: "ids_ok ids M" and s: "sint sid \<noteq> 0"
  shows "ump_descriptor_mapping_get ids (sint sid) = (case map_contents ids (nat (sint sid)) of Some p \<Rightarrow> (0, p) | None \<Rightarrow> (-1, 0))"
proof (cases "sint sid < 0")
  case True
  then have "map_contents ids (nat (sint sid)) = None" by (simp add: map_contents_def)
  then show ?thesis using get_negative[OF True, of ids] by (simp add: ump_get_eq ump_err_def)
next
  case False
  then obtain d where d: "sint sid = int d" "0 < d" using s by (metis not_less of_nat_0_less_iff order_le_less zero_le_imp_eq_int)
  have wf: "wf_mapping ids" using ok by (simp add: ids_ok_def)
  show ?thesis using get_spec[OF wf d(2)] d(1) by (simp add: ump_get_eq ump_err_def split: option.splits)
qed

text \<open>The secure id 0 is taken, but its entry is a null pointer.\<close>

lemma lookup_zero:
  assumes wf: "wf_mapping ids"
  shows "ump_descriptor_mapping_get ids 0 = (0, 0)"
proof -
  have t: "usage_bit (tmem (table ids)) 0" "tmem (table ids) (tmap (table ids)) = 0" "0 < current_nr_mappings ids"
    using wf by (auto simp: wf_mapping_def Let_def)
  have "valid_descriptor ids 0" using t(1,3) by (simp add: valid_descriptor_def table_test_def)
  moreover have "table_load 0 (table ids) = 0" using t(2) by (simp add: table_load_def)
  ultimately show ?thesis by (simp add: ump_descriptor_mapping_get_def)
qed

subsection \<open>Taking and giving back a reference\<close>

lemma handle_okD:
  assumes "handles_ok n R w" "mems w p = Some m"
  shows "ref_count m = int (count R p)" "0 < count R p" "0 < sint (secure_id m)" "p \<noteq> 0"
    "release_func m = Phys_blocks_release \<Longrightarrow> \<exists>bs. block_array m = Some bs \<and> of_nat (length bs) = nr_blocks m"
  using assms by (auto simp: handles_ok_def handle_ok_def)

lemma handles_okD:
  assumes "handles_ok n R w"
  shows "ids_ok (secure_id_map w) (mems w)" "finite (dom (mems w))" "set_mset R \<subseteq> dom (mems w)" "size R < 2 ^ 31"
    "backend_ok n (live_extents (mems w)) (backend w)"
  using assms by (simp_all add: handles_ok_def)

lemma handle_ok_other: "handle_ok R q m \<Longrightarrow> q \<noteq> p \<Longrightarrow> handle_ok (add_mset p R) q m"
  by (simp add: handle_ok_def)

lemma handle_ok_other': "handle_ok (add_mset p R) q m \<Longrightarrow> q \<noteq> p \<Longrightarrow> handle_ok R q m"
  by (simp add: handle_ok_def)

lemma count_bound: "size R < 2 ^ 31 \<Longrightarrow> int (count R p) < 2 ^ 31"
  using count_le_size[of R p] by simp

text \<open>A handle that only changes its count.\<close>

lemma live_extents_count:
  assumes "finite (dom M)" "M p = Some m"
  shows "live_extents (M(p \<mapsto> m\<lparr>ref_count := k\<rparr>)) = live_extents M"
proof -
  have "handle_extent (m\<lparr>ref_count := k\<rparr>) = handle_extent m"
    by (cases "release_func m") (simp_all add: handle_extent_def extent_def)
  then show ?thesis unfolding live_extents_upd[OF assms(1)] live_extents_at[OF assms] by simp
qed

lemma handles_ok_count:
  assumes ok: "handles_ok n R w" and m: "mems w p = Some m"
    and R: "\<And>q. q \<noteq> p \<Longrightarrow> count R' q = count R q" "0 < count R' p" "size R' < 2 ^ 31"
  shows "handles_ok n R' (set_mem p (Some (m\<lparr>ref_count := int (count R' p)\<rparr>)) w)"
proof -
  let ?m = "m\<lparr>ref_count := int (count R' p)\<rparr>"
  note h = handles_okD[OF ok] and hm = handle_okD[OF ok m]
  have "ids_ok (secure_id_map w) ((mems w)(p \<mapsto> ?m))" by (rule ids_ok_keep[OF h(1) m]) simp
  moreover have "handle_ok R' q m'" if q: "((mems w)(p \<mapsto> ?m)) q = Some m'" for q m'
  proof (cases "q = p")
    case True
    then have "m' = ?m" using q by simp
    then show ?thesis using True hm R(2) by (simp add: handle_ok_def)
  next
    case False
    then have "handle_ok R q m'" using q ok by (auto simp: handles_ok_def)
    then show ?thesis using R(1)[OF False] by (simp add: handle_ok_def)
  qed
  moreover have "set_mset R' \<subseteq> dom ((mems w)(p \<mapsto> ?m))"
  proof
    fix q assume "q \<in># R'"
    then have "q = p \<or> q \<in># R" using R(1)[of q] by (metis count_greater_zero_iff)
    then show "q \<in> dom ((mems w)(p \<mapsto> ?m))" using h(3) by auto
  qed
  ultimately show ?thesis
    using h(2,5) R(3) live_extents_count[OF h(2) m] by (simp add: handles_ok_def)
qed

lemma reference_add_ok:
  assumes ok: "handles_ok n R w" and m: "mems w p = Some m" and sz: "Suc (size R) < 2 ^ 31"
  obtains w' where "ump_dd_reference_add p w = Some w'" "w' = set_mem p (Some (m\<lparr>ref_count := int (Suc (count R p))\<rparr>)) w"
    "handles_ok n (add_mset p R) w'"
proof (rule that)
  have "int (count R p) + 1 < 2 ^ 31" using count_le_size[of R p] sz by simp
  then have i: "int32 (ref_count m + 1) = int (Suc (count R p))"
    using handle_okD(1)[OF ok m] by simp
  show "ump_dd_reference_add p w = Some (set_mem p (Some (m\<lparr>ref_count := int (Suc (count R p))\<rparr>)) w)"
    by (simp add: ump_dd_reference_add_def m i del: of_nat_Suc)
  have "handles_ok n (add_mset p R) (set_mem p (Some (m\<lparr>ref_count := int (count (add_mset p R) p)\<rparr>)) w)"
    by (rule handles_ok_count[OF ok m]) (use sz in simp_all)
  then show "handles_ok n (add_mset p R) (set_mem p (Some (m\<lparr>ref_count := int (Suc (count R p))\<rparr>)) w)"
    by (simp only: count_add_mset if_True refl)
qed rule

text \<open>The last reference takes the handle, its secure id and its memory along.\<close>

lemma handles_ok_remove:
  assumes ok: "handles_ok n (add_mset p R) w" and m: "mems w p = Some m" and p: "p \<notin># R"
    and ids: "ids_ok ids ((mems w)(p := None))" and b: "backend_ok n' (live_extents ((mems w)(p := None))) b"
  shows "handles_ok n' R (w\<lparr>secure_id_map := ids, backend := b, mems := (mems w)(p := None)\<rparr>)"
proof -
  note h = handles_okD[OF ok]
  have "handle_ok R q m'" if "((mems w)(p := None)) q = Some m'" for q m'
    using that ok handle_ok_other'[of p R q m'] by (auto simp: handles_ok_def split: if_splits)
  moreover have "set_mset R \<subseteq> dom ((mems w)(p := None))" using h(3) p by auto
  ultimately show ?thesis using ids b h(2,4) by (simp add: handles_ok_def)
qed

definition lost_units :: "ump_env \<Rightarrow> ptr \<Rightarrow> ump_dd_mem \<Rightarrow> nat" where
  "lost_units env p m = (if release_func m = Backend_release \<and> interrupted env p then unat (nr_blocks m) else 0)"

lemma run_release_ok:
  assumes b: "backend_ok n (handle_extent m + X) (backend w)" and m: "mems w p = Some m"
  obtains m' b' where "run_release_func (interrupted env p) p w = Some (set_mem p (Some m') (w\<lparr>backend := b'\<rparr>))"
    "backend_ok (n + lost_units env p m) X b'"
proof (cases "release_func m")
  case Backend_release
  then have "backend_ok n (add_mset (extent m) X) (backend w)" using b by (simp add: handle_extent_def)
  from backend.release_ok[OF this, of "interrupted env p"] obtain m' b' where
    r: "ump_backend_release (interrupted env p) m (backend w) = Some (m', b')"
    "backend_ok (if interrupted env p then n + unat (nr_blocks m) else n) X b'" by blast
  show ?thesis
    by (rule that[of b' m']) (use r Backend_release m in \<open>simp_all add: run_release_func_def lost_units_def split: if_splits\<close>)
next
  case Phys_blocks_release
  show ?thesis
    by (rule that[of "backend w" "phys_blocks_release m"])
      (use b Phys_blocks_release m in \<open>simp_all add: run_release_func_def lost_units_def handle_extent_def\<close>)
qed

lemma reference_release_ok:
  assumes ok: "handles_ok n (add_mset p R) w"
  obtains m w' where "mems w p = Some m" "ump_dd_reference_release env p w = Some w'"
    "if p \<in># R then w' = set_mem p (Some (m\<lparr>ref_count := int (count R p)\<rparr>)) w \<and> handles_ok n R w'
     else (\<exists>ids b. w' = w\<lparr>secure_id_map := ids, backend := b, mems := (mems w)(p := None)\<rparr>) \<and>
       handles_ok (n + lost_units env p m) R w'"
proof -
  note h = handles_okD[OF ok]
  obtain m where m: "mems w p = Some m" using h(3) by auto
  note hm = handle_okD[OF ok m]
  have "int (count R p) < 2 ^ 31" using h(4) count_le_size[of R p] by simp
  then have i: "int32 (ref_count m - 1) = int (count R p)" using hm(1) by simp
  show ?thesis
  proof (cases "p \<in># R")
    case True
    let ?w = "set_mem p (Some (m\<lparr>ref_count := int (count R p)\<rparr>)) w"
    have "handles_ok n R ?w" by (rule handles_ok_count[OF ok m]) (use True h(4) in simp_all)
    moreover have "ump_dd_reference_release env p w = Some ?w"
    proof -
      obtain k where "count R p = Suc k" using True by (cases "count R p") (auto simp: not_in_iff[symmetric])
      then show ?thesis using i by (simp add: ump_dd_reference_release_def m Let_def)
    qed
    ultimately show ?thesis using that[OF m, of ?w] True by simp
  next
    case False
    then have z: "count R p = 0" by (simp add: not_in_iff)
    obtain ids where ids: "ump_descriptor_mapping_free (secure_id_map w) (sint (secure_id m)) = Done ids"
      "ids_ok ids ((mems w)(p := None))"
      by (rule ids_ok_remove[OF h(1) m hm(3)])
    let ?w1 = "w\<lparr>mems := (mems w)(p \<mapsto> m\<lparr>ref_count := 0\<rparr>), secure_id_map := ids\<rparr>"
    have ext: "handle_extent (m\<lparr>ref_count := 0\<rparr>) = handle_extent m"
      by (cases "release_func m") (simp_all add: handle_extent_def extent_def)
    have b: "backend_ok n (handle_extent (m\<lparr>ref_count := 0\<rparr>) + live_extents ((mems w)(p := None))) (backend ?w1)"
      using h(5) live_extents_at[OF h(2) m] by (simp add: ext)
    have m1: "mems ?w1 p = Some (m\<lparr>ref_count := 0\<rparr>)" by simp
    obtain m' b' where r: "run_release_func (interrupted env p) p ?w1 = Some (set_mem p (Some m') (?w1\<lparr>backend := b'\<rparr>))"
      "backend_ok (n + lost_units env p (m\<lparr>ref_count := 0\<rparr>)) (live_extents ((mems w)(p := None))) b'"
      by (rule run_release_ok[OF b m1])
    let ?w = "w\<lparr>secure_id_map := ids, backend := b', mems := (mems w)(p := None)\<rparr>"
    have l: "lost_units env p (m\<lparr>ref_count := 0\<rparr>) = lost_units env p m" by (simp add: lost_units_def)
    have "ump_dd_reference_release env p w = Some ?w"
      using r(1) ids(1) z i by (simp add: ump_dd_reference_release_def m Let_def)
    moreover have "handles_ok (n + lost_units env p m) R ?w"
      by (rule handles_ok_remove[OF ok m False ids(2) r(2)[unfolded l]])
    ultimately show ?thesis using that[OF m, of ?w] False by auto
  qed
qed

lemma lookup_ok:
  assumes ok: "handles_ok n R w" and s: "sint sid \<noteq> 0" and sz: "Suc (size R) < 2 ^ 31"
  shows "case map_contents (secure_id_map w) (nat (sint sid)) of
      None \<Rightarrow> ump_dd_handle_create_from_secure_id sid w = Some (UMP_DD_HANDLE_INVALID, w)
    | Some p \<Rightarrow> \<exists>m w'. mems w p = Some m \<and> secure_id m = sid \<and> p \<noteq> UMP_DD_HANDLE_INVALID \<and>
        ump_dd_handle_create_from_secure_id sid w = Some (p, w') \<and>
        w' = set_mem p (Some (m\<lparr>ref_count := int (Suc (count R p))\<rparr>)) w \<and> handles_ok n (add_mset p R) w'"
proof (cases "map_contents (secure_id_map w) (nat (sint sid))")
  case None
  then show ?thesis using ids_ok_lookup[OF handles_okD(1)[OF ok] s]
    by (simp add: ump_dd_handle_create_from_secure_id_def)
next
  case (Some p)
  then have "0 < nat (sint sid)" by (simp add: map_contents_def split: if_splits)
  then obtain m where m: "mems w p = Some m" "sint (secure_id m) = sint sid"
    using handles_okD(1)[OF ok] Some by (auto simp: ids_ok_def)
  obtain w' where w': "ump_dd_reference_add p w = Some w'" "w' = set_mem p (Some (m\<lparr>ref_count := int (Suc (count R p))\<rparr>)) w"
    "handles_ok n (add_mset p R) w'"
    by (rule reference_add_ok[OF ok m(1) sz])
  have "ump_dd_handle_create_from_secure_id sid w = Some (p, w')"
    using ids_ok_lookup[OF handles_okD(1)[OF ok] s] Some w'(1) by (simp add: ump_dd_handle_create_from_secure_id_def)
  moreover have "secure_id m = sid" using m(2) by (simp add: signed_word_eqI)
  ultimately show ?thesis using Some m(1) w' handle_okD(4)[OF ok m(1)] by (simp add: UMP_DD_HANDLE_INVALID_def)
qed

text \<open>A user space lookup of the secure id 0 uses a null pointer.\<close>

lemma lookup_zero_fails:
  assumes "handles_ok n R w"
  shows "ump_dd_handle_create_from_secure_id 0 w = None"
proof -
  have "mems w 0 = None" using handle_okD(4)[OF assms, of 0] by (cases "mems w 0") auto
  then show ?thesis using lookup_zero handles_okD(1)[OF assms]
    by (simp add: ump_dd_handle_create_from_secure_id_def ids_ok_def ump_dd_reference_add_def)
qed

text \<open>A new handle with its first reference.\<close>

lemma handles_ok_new:
  assumes ok: "handles_ok n R w" and p: "mems w p = None" "p \<noteq> 0" and sz: "Suc (size R) < 2 ^ 31"
    and ids: "ids_ok ids ((mems w)(p \<mapsto> m))" and m: "handle_ok {#p#} p m"
    and b: "backend_ok n (handle_extent m + live_extents (mems w)) b"
  shows "handles_ok n (add_mset p R) (w\<lparr>secure_id_map := ids, backend := b, mems := (mems w)(p \<mapsto> m)\<rparr>)"
proof -
  note h = handles_okD[OF ok]
  have z: "count R p = 0" using h(3) p(1) by (auto simp: not_in_iff[symmetric])
  have "handle_ok (add_mset p R) q m'" if q: "((mems w)(p \<mapsto> m)) q = Some m'" for q m'
  proof (cases "q = p")
    case True
    then show ?thesis using q m z by (simp add: handle_ok_def)
  next
    case False
    then show ?thesis using q ok handle_ok_other[of R q m' p] by (auto simp: handles_ok_def)
  qed
  moreover have "live_extents ((mems w)(p \<mapsto> m)) = handle_extent m + live_extents (mems w)"
    using live_extents_upd[OF h(2), of p m] p(1) by (metis fun_upd_triv)
  ultimately show ?thesis using h ids b sz by (auto simp: handles_ok_def)
qed

lemma create_from_phys_blocks_ok:
  assumes ok: "handles_ok n R w" and sz: "Suc (size R) < 2 ^ 31"
    and new: "\<And>p. new_mem env = Some p \<Longrightarrow> p \<noteq> 0 \<and> mems w p = None"
  shows "\<exists>p w'. ump_dd_handle_create_from_phys_blocks env blocks w = Some (p, w') \<and>
    (if p = UMP_DD_HANDLE_INVALID then handles_ok n R w' \<and> mems w' = mems w
     else new_mem env = Some p \<and> handles_ok n (add_mset p R) w' \<and>
       (\<exists>m. mems w' = (mems w)(p \<mapsto> m) \<and> ref_count m = 1 \<and> block_array m = Some blocks \<and> is_cached m = False)) \<and>
    ump_device.more w' = ump_device.more w"
proof (cases "(\<exists>b \<in> set blocks. UMP_ADDR_ALIGN_OFFSET (block_addr b) \<noteq> 0 \<or> UMP_ADDR_ALIGN_OFFSET (block_size b) \<noteq> 0) \<or> new_mem env = None")
  case True
  then show ?thesis using ok
    by (cases "\<exists>b \<in> set blocks. UMP_ADDR_ALIGN_OFFSET (block_addr b) \<noteq> 0 \<or> UMP_ADDR_ALIGN_OFFSET (block_size b) \<noteq> 0")
      (simp_all only: ump_dd_handle_create_from_phys_blocks_def if_True if_False simp_thms option.case option.inject prod.inject, auto)
next
  case False
  then obtain p where p: "new_mem env = Some p" by auto
  note f = new[OF p] and h = handles_okD[OF ok]
  obtain d ids' where d: "ump_descriptor_mapping_allocate_mapping (table_calloc env) (secure_id_map w) p = Done (d, ids')"
    "if d < 0 then ids' = secure_id_map w
     else 0 < d \<and> (\<forall>m. sint (secure_id m) = d \<longrightarrow> ids_ok ids' ((mems w)(p \<mapsto> m))) \<and> sint (word_of_int d :: u32) = d \<and> wf_mapping ids' \<and>
       map_contents ids' = (map_contents (secure_id_map w))(nat d \<mapsto> p) \<and> map_contents (secure_id_map w) (nat d) = None"
    by (rule ids_ok_allocate[OF h(1) conjunct2[OF f]])
  define m where "m = \<lparr>secure_id = word_of_int d, ref_count = 1, size_bytes = sum_list (map block_size blocks),
    nr_blocks = of_nat (length blocks), block_array = Some blocks, release_func = Phys_blocks_release,
    backend_info = None, is_cached = False\<rparr>"
  show ?thesis
  proof (cases "d < 0")
    case True
    then show ?thesis using False p d ok by (auto simp: ump_dd_handle_create_from_phys_blocks_def UMP_DD_HANDLE_INVALID_def)
  next
    case pos: False
    then have dd: "0 < d" "\<forall>m. sint (secure_id m) = d \<longrightarrow> ids_ok ids' ((mems w)(p \<mapsto> m))" "sint (word_of_int d :: u32) = d"
      "wf_mapping ids'" "map_contents ids' = (map_contents (secure_id_map w))(nat d \<mapsto> p)" "map_contents (secure_id_map w) (nat d) = None"
      using d(2) by auto
    show ?thesis
    proof (cases "new_array env")
      case True
      have "handles_ok n (add_mset p R) (w\<lparr>secure_id_map := ids', backend := backend w, mems := (mems w)(p \<mapsto> m)\<rparr>)"
        by (rule handles_ok_new[OF ok _ _ sz]) (use f dd h(5) in \<open>simp_all add: m_def handle_ok_def handle_extent_def\<close>)
      moreover have "ump_dd_handle_create_from_phys_blocks env blocks w =
          Some (p, w\<lparr>secure_id_map := ids', backend := backend w, mems := (mems w)(p \<mapsto> m)\<rparr>)"
        using False True p d(1) pos by (simp add: ump_dd_handle_create_from_phys_blocks_def m_def)
      ultimately show ?thesis using p f by (auto simp: UMP_DD_HANDLE_INVALID_def m_def)
    next
      case no_array: False
      obtain ids'' where i: "mali_descriptor_mapping_free ids' (int (nat d)) = Done ids''" "wf_mapping ids''"
        "map_contents ids'' = (map_contents ids')(nat d := None)"
        by (rule free_spec[OF dd(4), of "nat d"]) (use dd(1) in simp)
      have "map_contents ids'' = map_contents (secure_id_map w)" using i(3) dd(5,6) by (simp add: fun_upd_idem)
      then have "handles_ok n R (w\<lparr>secure_id_map := ids''\<rparr>)"
        using ok i(2) by (simp add: handles_ok_def ids_ok_def)
      moreover have "ump_dd_handle_create_from_phys_blocks env blocks w =
          Some (UMP_DD_HANDLE_INVALID, w\<lparr>secure_id_map := ids''\<rparr>)"
        using False no_array p d(1) pos i(1) dd(1) by (simp add: ump_dd_handle_create_from_phys_blocks_def ump_free_eq)
      ultimately show ?thesis by auto
    qed
  qed
qed

end
