(* ===== verification/Ump_Sessions.thy ===== *)
theory Ump_Sessions
  imports Ump_References
begin

text \<open>
  The user interface of the UMP driver: sessions, the memory they hold and the memory they map
  (common/ump\_kernel\_common.c, common/ump\_kernel\_ref\_drv.c, common/ump\_kernel\_api.c), and the mapping of
  memory into a process on Linux (linux/ump\_osk\_low\_level\_mem.c).
\<close>

subsection \<open>State\<close>

text \<open>
  The memory a session holds and the mappings it has are lists of pointers, the newest first.  A virtual
  memory area has the pieces that are mapped in it: the virtual address, the physical one and the size.
\<close>

record ump_session_data =
  session_memory_list :: "ptr list"
  session_mappings_list :: "ptr list"
  api_version :: u32
  cookies_map :: desc_mapping

record ump_memory_allocation =
  ump_phys_addr :: ptr
  ump_mapping :: u32
  ump_size :: u32
  handle :: ptr
  process_mapping_info :: ptr
  ump_cookie :: u32
  ump_session :: ptr
  ump_is_cached :: bool

record ump_vma_usage_tracker =
  tracker_references :: int
  tracker_descriptor :: ptr

record ump_vma =
  ump_vm_start :: u32
  ump_vm_end :: u32
  ump_vm_pgoff :: u32
  ump_vm_shared :: bool
  ump_vm_writecombine :: bool
  ump_vm_private_data :: ptr
  ump_vm_pages :: "(u32 \<times> u32 \<times> u32) list"

record ump_state = ump_device +
  sessions :: "ptr \<rightharpoonup> ump_session_data"
  allocations :: "ptr \<rightharpoonup> ump_memory_allocation"
  trackers :: "ptr \<rightharpoonup> ump_vma_usage_tracker"
  ump_vmas :: "ptr \<rightharpoonup> ump_vma"

abbreviation set_session :: "ptr \<Rightarrow> ump_session_data option \<Rightarrow> ump_state \<Rightarrow> ump_state" where
  "set_session s x w \<equiv> w\<lparr>sessions := (sessions w)(s := x)\<rparr>"

abbreviation set_allocation :: "ptr \<Rightarrow> ump_memory_allocation option \<Rightarrow> ump_state \<Rightarrow> ump_state" where
  "set_allocation a x w \<equiv> w\<lparr>allocations := (allocations w)(a := x)\<rparr>"

abbreviation set_tracker :: "ptr \<Rightarrow> ump_vma_usage_tracker option \<Rightarrow> ump_state \<Rightarrow> ump_state" where
  "set_tracker t x w \<equiv> w\<lparr>trackers := (trackers w)(t := x)\<rparr>"

abbreviation set_ump_vma :: "ptr \<Rightarrow> ump_vma option \<Rightarrow> ump_state \<Rightarrow> ump_state" where
  "set_ump_vma v x w \<equiv> w\<lparr>ump_vmas := (ump_vmas w)(v := x)\<rparr>"

text \<open>The values of the error codes; some paths return a code with its sign changed.\<close>

fun osk_code :: "osk_err \<Rightarrow> int" where
  "osk_code ERR_OK = 0"
| "osk_code ERR_FAULT = -1"
| "osk_code ERR_INVALID_FUNC = -2"
| "osk_code ERR_INVALID_ARGS = -3"
| "osk_code ERR_NOMEM = -4"
| "osk_code ERR_TIMEOUT = -5"
| "osk_code ERR_RESTARTSYSCALL = -6"
| "osk_code ERR_ITEM_NOT_FOUND = -7"
| "osk_code ERR_BUSY = -8"
| "osk_code ERR_UNSUPPORTED = -9"

subsection \<open>The device\<close>

definition UMP_SECURE_ID_TABLE_ENTRIES_INITIAL :: int where "UMP_SECURE_ID_TABLE_ENTRIES_INITIAL = 128"
definition UMP_SECURE_ID_TABLE_ENTRIES_MAXIMUM :: int where "UMP_SECURE_ID_TABLE_ENTRIES_MAXIMUM = 4096"

text \<open>\<open>osk\<close> is whether the character device was set up; the arguments of the module choose the backend.\<close>

definition ump_kernel_constructor :: "ump_env \<Rightarrow> bool \<Rightarrow> int \<Rightarrow> u32 \<Rightarrow> u32 \<Rightarrow> bool \<Rightarrow> (int \<times> ump_state option) option" where
  "ump_kernel_constructor env osk kind address sz memory =
     (if \<not> osk then Some (osk_code ERR_FAULT, None)
      else if \<not> new_lock env then Some (osk_code ERR_NOMEM, None)
      else do {
        ids \<leftarrow> returned (ump_descriptor_mapping_create (new_mapping env) (table_calloc env) (map_lock env)
          UMP_SECURE_ID_TABLE_ENTRIES_INITIAL UMP_SECURE_ID_TABLE_ENTRIES_MAXIMUM);
        case ids of
          None \<Rightarrow> Some (osk_code ERR_NOMEM, None)
        | Some ids \<Rightarrow>
            (case ump_memory_backend_create kind address sz (mem_region env) memory of
               None \<Rightarrow> Some (osk_code ERR_NOMEM, None)
             | Some b \<Rightarrow> Some (osk_code ERR_OK, Some \<lparr>secure_id_map = ids, backend = b, mems = Map.empty, sessions = Map.empty,
                 allocations = Map.empty, trackers = Map.empty, ump_vmas = Map.empty\<rparr>))
      })"

subsection \<open>Memory of a session\<close>

definition MAKE_VERSION_ID :: "u32 \<Rightarrow> u32" where "MAKE_VERSION_ID x = push_bit 16 x OR x"
definition UMP_IOCTL_API_VERSION :: u32 where "UMP_IOCTL_API_VERSION = MAKE_VERSION_ID 2"

text \<open>The result is the version for the client and whether it is compatible.\<close>

definition ump_uku_get_api_version :: "ptr \<Rightarrow> u32 \<Rightarrow> ump_state \<Rightarrow> (int \<times> (u32 \<times> bool) \<times> ump_state) option" where
  "ump_uku_get_api_version s version w = do {
     d \<leftarrow> sessions w s;
     if version = UMP_IOCTL_API_VERSION \<or> version = MAKE_VERSION_ID 1
     then Some (osk_code ERR_OK, (version, True), set_session s (Some (d\<lparr>api_version := version\<rparr>)) w)
     else Some (osk_code ERR_OK, (UMP_IOCTL_API_VERSION, False), w)
   }"

definition ump_ukk_open :: "ump_env \<Rightarrow> ump_state \<Rightarrow> (int \<times> ptr option \<times> ump_state) option" where
  "ump_ukk_open env w =
     (case new_session env of
        None \<Rightarrow> Some (osk_code ERR_NOMEM, None, w)
      | Some s \<Rightarrow>
          if \<not> new_lock env then Some (osk_code ERR_NOMEM, None, w)
          else do {
            cookies \<leftarrow> returned (ump_descriptor_mapping_create (new_mapping env) (table_calloc env) (map_lock env)
              UMP_SECURE_ID_TABLE_ENTRIES_INITIAL UMP_SECURE_ID_TABLE_ENTRIES_MAXIMUM);
            case cookies of
              None \<Rightarrow> Some (osk_code ERR_NOMEM, None, w)
            | Some c \<Rightarrow> Some (osk_code ERR_OK, Some s, set_session s (Some \<lparr>session_memory_list = [],
                session_mappings_list = [], api_version = MAKE_VERSION_ID 1, cookies_map = c\<rparr>) w)
          })"

record ump_uk_allocate_s =
  allocate_ctx :: ptr
  allocate_secure_id :: u32
  allocate_size :: u32
  allocate_constraints :: u32

definition UMP_REF_DRV_UK_CONSTRAINT_USE_CACHE :: u32 where "UMP_REF_DRV_UK_CONSTRAINT_USE_CACHE = 4"

definition ump_ukk_allocate :: "ump_env \<Rightarrow> ump_uk_allocate_s \<Rightarrow> ump_state \<Rightarrow> (int \<times> ump_uk_allocate_s \<times> ump_state) option" where
  "ump_ukk_allocate env args w =
     (if \<not> new_element env then Some (osk_code ERR_NOMEM, args, w)
      else case new_mem env of
        None \<Rightarrow> Some (osk_code ERR_NOMEM, args, w)
      | Some p \<Rightarrow> do {
          (map_id, ids) \<leftarrow> returned (ump_descriptor_mapping_allocate_mapping (table_calloc env) (secure_id_map w) p);
          let w = w\<lparr>secure_id_map := ids\<rparr>;
          if map_id < 0 then Some (- osk_code ERR_INVALID_FUNC, args, w)
          else do {
            let args = (if allocate_size args = 0 then args\<lparr>allocate_size := 1\<rparr> else args);
            let m = \<lparr>secure_id = word_of_int map_id, ref_count = 1, size_bytes = UMP_SIZE_ALIGN (allocate_size args),
              nr_blocks = 0, block_array = None, release_func = Backend_release, backend_info = None,
              is_cached = (UMP_REF_DRV_UK_CONSTRAINT_USE_CACHE AND allocate_constraints args \<noteq> 0)\<rparr>;
            (ok, m, b) \<leftarrow> ump_backend_allocate env (interrupted env p) m (backend w);
            let w = w\<lparr>backend := b\<rparr>;
            if \<not> ok then do {
              ids \<leftarrow> returned (ump_descriptor_mapping_free (secure_id_map w) map_id);
              Some (osk_code ERR_INVALID_FUNC, args, w\<lparr>secure_id_map := ids\<rparr>)
            } else do {
              let w = set_mem p (Some m) w;
              d \<leftarrow> sessions w (allocate_ctx args);
              let w = set_session (allocate_ctx args) (Some (d\<lparr>session_memory_list := p # session_memory_list d\<rparr>)) w;
              Some (osk_code ERR_OK, args\<lparr>allocate_secure_id := secure_id m, allocate_size := size_bytes m\<rparr>, w)
            }
          }
        })"

text \<open>The search in the list of the session: the elements before the one found, it and those after it.\<close>

fun find_session_memory :: "u32 \<Rightarrow> ptr list \<Rightarrow> ump_state \<Rightarrow> (ptr list \<times> ptr \<times> ptr list) option option" where
  "find_session_memory sid [] w = Some None"
| "find_session_memory sid (p # ps) w = do {
     m \<leftarrow> mems w p;
     if secure_id m = sid then Some (Some ([], p, ps))
     else do {
       r \<leftarrow> find_session_memory sid ps w;
       Some (map_option (\<lambda>(xs, q, ys). (p # xs, q, ys)) r)
     }
   }"

definition ump_ukk_release :: "ump_env \<Rightarrow> ptr \<Rightarrow> u32 \<Rightarrow> ump_state \<Rightarrow> (int \<times> ump_state) option" where
  "ump_ukk_release env s sid w = do {
     d \<leftarrow> sessions w s;
     r \<leftarrow> find_session_memory sid (session_memory_list d) w;
     case r of
       None \<Rightarrow> Some (osk_code ERR_INVALID_FUNC, w)
     | Some (xs, p, ys) \<Rightarrow> do {
         w \<leftarrow> ump_dd_reference_release env p (set_session s (Some (d\<lparr>session_memory_list := xs @ ys\<rparr>)) w);
         Some (osk_code ERR_OK, w)
       }
   }"

definition ump_ukk_size_get :: "u32 \<Rightarrow> ump_state \<Rightarrow> (int \<times> u32) option" where
  "ump_ukk_size_get sid w =
     (let (err, p) = ump_descriptor_mapping_get (secure_id_map w) (sint sid)
      in if err = 0 then do { m \<leftarrow> mems w p; Some (osk_code ERR_OK, size_bytes m) }
         else Some (osk_code ERR_FAULT, 0))"

subsection \<open>Mapping memory into a process\<close>

definition ump_osk_mem_mapregion_init :: "ump_env \<Rightarrow> ptr \<Rightarrow> ump_state \<Rightarrow> (int \<times> ump_state) option" where
  "ump_osk_mem_mapregion_init env a w =
     (case new_tracker env of
        None \<Rightarrow> Some (- osk_code ERR_FAULT, w)
      | Some t \<Rightarrow> do {
          d \<leftarrow> allocations w a;
          if process_mapping_info d = 0 then Some (osk_code ERR_FAULT, w)
          else do {
            v \<leftarrow> ump_vmas w (process_mapping_info d);
            let w = set_ump_vma (process_mapping_info d) (Some (v\<lparr>ump_vm_private_data := t,
              ump_vm_writecombine := (\<not> ump_is_cached d \<or> ump_vm_writecombine v)\<rparr>)) w;
            let w = set_allocation a (Some (d\<lparr>ump_mapping := ump_vm_start v\<rparr>)) w;
            Some (osk_code ERR_OK, set_tracker t (Some \<lparr>tracker_references = 1, tracker_descriptor = a\<rparr>) w)
          }
        })"

text \<open>The end of a mapping frees the usage tracker, which it reaches through the area.\<close>

definition ump_osk_mem_mapregion_term :: "ptr \<Rightarrow> ump_state \<Rightarrow> ump_state option" where
  "ump_osk_mem_mapregion_term a w = do {
     d \<leftarrow> allocations w a;
     v \<leftarrow> ump_vmas w (process_mapping_info d);
     if ump_vm_private_data v = 0 then Some w
     else do {
       t \<leftarrow> trackers w (ump_vm_private_data v);
       Some (set_tracker (ump_vm_private_data v) None w)
     }
   }"

definition page_base :: "u32 \<Rightarrow> u32" where "page_base x = push_bit 12 (drop_bit 12 x)"

definition ump_osk_mem_mapregion_map :: "bool \<Rightarrow> ptr \<Rightarrow> u32 \<Rightarrow> u32 \<Rightarrow> u32 \<Rightarrow> ump_state \<Rightarrow> (bool \<times> ump_state) option" where
  "ump_osk_mem_mapregion_map remapped a offset phys sz w = do {
     d \<leftarrow> allocations w a;
     if process_mapping_info d = 0 then Some (False, w)
     else if \<not> remapped then Some (False, w)
     else do {
       v \<leftarrow> ump_vmas w (process_mapping_info d);
       Some (True, set_ump_vma (process_mapping_info d)
         (Some (v\<lparr>ump_vm_pages := ump_vm_pages v @ [(ump_mapping d + offset, page_base phys, sz)]\<rparr>)) w)
     }
   }"

text \<open>The blocks are mapped one after the other, from block \<open>i\<close> on.\<close>

fun ump_map_blocks ::
  "ump_env \<Rightarrow> ptr \<Rightarrow> nat \<Rightarrow> u32 \<Rightarrow> u32 \<Rightarrow> ump_dd_physical_block list \<Rightarrow> ump_state \<Rightarrow> (bool \<times> ump_state) option" where
  "ump_map_blocks env a i offset left [] w = Some (True, w)"
| "ump_map_blocks env a i offset left (b # bs) w =
     (let size_to_map = (if block_size b < left then block_size b else left)
      in do {
        (ok, w) \<leftarrow> ump_osk_mem_mapregion_map (remap env i) a offset (block_addr b) size_to_map w;
        if ok then ump_map_blocks env a (Suc i) (offset + size_to_map) (left - size_to_map) bs w
        else Some (False, w)
      })"

record ump_uk_map_mem_s =
  map_ctx :: ptr
  map_mapping :: u32
  map_phys_addr :: ptr
  map_size :: u32
  map_secure_id :: u32
  map_private :: ptr
  map_cookie :: u32
  map_is_cached :: bool

text \<open>The cookie of a mapping is given back.\<close>

definition free_cookie :: "ptr \<Rightarrow> int \<Rightarrow> ump_state \<Rightarrow> ump_state option" where
  "free_cookie s map_id w = do {
     d \<leftarrow> sessions w s;
     c \<leftarrow> returned (ump_descriptor_mapping_free (cookies_map d) map_id);
     Some (set_session s (Some (d\<lparr>cookies_map := c\<rparr>)) w)
   }"

definition nr_block_list :: "ump_dd_mem \<Rightarrow> ump_dd_physical_block list option" where
  "nr_block_list m =
     (if length (array_blocks (block_array m)) < unat (nr_blocks m) then None
      else Some (take (unat (nr_blocks m)) (array_blocks (block_array m))))"

definition ump_ukk_map_mem :: "ump_env \<Rightarrow> ump_uk_map_mem_s \<Rightarrow> ump_state \<Rightarrow> (int \<times> ump_uk_map_mem_s \<times> ump_state) option" where
  "ump_ukk_map_mem env args w =
     (if map_ctx args = 0 then Some (osk_code ERR_INVALID_ARGS, args, w)
      else case new_allocation env of
        None \<Rightarrow> Some (osk_code ERR_NOMEM, args, w)
      | Some a \<Rightarrow> do {
          (h, w) \<leftarrow> ump_dd_handle_create_from_secure_id (map_secure_id args) w;
          if h = UMP_DD_HANDLE_INVALID then Some (osk_code ERR_FAULT, args, w)
          else do {
            m \<leftarrow> mems w h;
            if size_bytes m \<noteq> map_size args then do {
              w \<leftarrow> ump_dd_reference_release env h w;
              Some (osk_code ERR_FAULT, args, w)
            } else do {
              s \<leftarrow> sessions w (map_ctx args);
              (map_id, c) \<leftarrow> returned (ump_descriptor_mapping_allocate_mapping (table_calloc env) (cookies_map s) a);
              let w = set_session (map_ctx args) (Some (s\<lparr>cookies_map := c\<rparr>)) w;
              if map_id < 0 then do {
                w \<leftarrow> ump_dd_reference_release env h w;
                Some (osk_code ERR_NOMEM, args, w)
              } else do {
                let args = args\<lparr>map_is_cached := is_cached m\<rparr>;
                let w = set_allocation a (Some \<lparr>ump_phys_addr = map_phys_addr args, ump_mapping = 0, ump_size = map_size args,
                  handle = h, process_mapping_info = map_private args, ump_cookie = word_of_int map_id,
                  ump_session = map_ctx args, ump_is_cached = is_cached m\<rparr>) w;
                (err, w) \<leftarrow> ump_osk_mem_mapregion_init env a w;
                if err \<noteq> osk_code ERR_OK then do {
                  w \<leftarrow> free_cookie (map_ctx args) map_id w;
                  w \<leftarrow> ump_dd_reference_release env h (set_allocation a None w);
                  Some (err, args, w)
                } else do {
                  bs \<leftarrow> nr_block_list m;
                  (ok, w) \<leftarrow> ump_map_blocks env a 0 0 (map_size args) bs w;
                  if \<not> ok then do {
                    w \<leftarrow> free_cookie (map_ctx args) map_id w;
                    w \<leftarrow> ump_dd_reference_release env h w;
                    w \<leftarrow> ump_osk_mem_mapregion_term a w;
                    Some (osk_code ERR_FAULT, args, set_allocation a None w)
                  } else do {
                    s \<leftarrow> sessions w (map_ctx args);
                    d \<leftarrow> allocations w a;
                    Some (osk_code ERR_OK, args\<lparr>map_mapping := ump_mapping d, map_cookie := ump_cookie d\<rparr>,
                      set_session (map_ctx args) (Some (s\<lparr>session_mappings_list := a # session_mappings_list s\<rparr>)) w)
                  }
                }
              }
            }
          }
        })"

definition ump_ukk_unmap_mem :: "ump_env \<Rightarrow> ptr \<Rightarrow> u32 \<Rightarrow> ump_state \<Rightarrow> ump_state option" where
  "ump_ukk_unmap_mem env ctx cookie w =
     (if ctx = 0 then Some w
      else do {
        s \<leftarrow> sessions w ctx;
        let (err, a) = ump_descriptor_mapping_get (cookies_map s) (sint cookie);
        if err \<noteq> 0 then Some w
        else do {
          d \<leftarrow> allocations w a;
          if handle d = UMP_DD_HANDLE_INVALID then Some w
          else do {
            w \<leftarrow> free_cookie ctx (sint cookie)
              (set_session ctx (Some (s\<lparr>session_mappings_list := remove1 a (session_mappings_list s)\<rparr>)) w);
            w \<leftarrow> ump_dd_reference_release env (handle d) w;
            w \<leftarrow> ump_osk_mem_mapregion_term a w;
            Some (set_allocation a None w)
          }
        }
      })"

subsection \<open>The end of a session\<close>

text \<open>Both loops save the next element before the current one is removed.\<close>

fun ump_unmap_all :: "ump_env \<Rightarrow> ptr \<Rightarrow> ptr list \<Rightarrow> ump_state \<Rightarrow> ump_state option" where
  "ump_unmap_all env s [] w = Some w"
| "ump_unmap_all env s (a # as) w = do {
     d \<leftarrow> allocations w a;
     w \<leftarrow> ump_ukk_unmap_mem env s (ump_cookie d) w;
     ump_unmap_all env s as w
   }"

fun ump_release_all :: "ump_env \<Rightarrow> ptr \<Rightarrow> ptr list \<Rightarrow> ump_state \<Rightarrow> ump_state option" where
  "ump_release_all env s [] w = Some w"
| "ump_release_all env s (p # ps) w = do {
     d \<leftarrow> sessions w s;
     w \<leftarrow> ump_dd_reference_release env p (set_session s (Some (d\<lparr>session_memory_list := ps\<rparr>)) w);
     ump_release_all env s ps w
   }"

definition ump_ukk_close :: "ump_env \<Rightarrow> ptr \<Rightarrow> ump_state \<Rightarrow> (int \<times> ump_state) option" where
  "ump_ukk_close env s w =
     (if s = 0 then Some (osk_code ERR_INVALID_ARGS, w)
      else do {
        d \<leftarrow> sessions w s;
        w \<leftarrow> ump_unmap_all env s (session_mappings_list d) w;
        d \<leftarrow> sessions w s;
        w \<leftarrow> ump_release_all env s (session_memory_list d) w;
        Some (osk_code ERR_OK, set_session s None w)
      })"

end
