(* ===== verification/Ump_Linux.thy ===== *)
theory Ump_Linux
  imports Ump_Sessions
begin

text \<open>
  The UMP driver under Linux: the operations of the file (linux/ump\_kernel\_linux.c), the wrappers that copy
  arguments from and to user space (linux/ump\_ukk\_wrappers.c, linux/ump\_ukk\_ref\_wrappers.c), the hooks of a
  virtual memory area (linux/ump\_osk\_low\_level\_mem.c), and the maintenance of the caches
  (\<open>_ump_ukk_msync\<close> in common/ump\_kernel\_api.c).
\<close>

subsection \<open>Error numbers\<close>

definition EFAULT :: int where "EFAULT = 14"
definition ENOTTY :: int where "ENOTTY = 25"
definition EINVAL :: int where "EINVAL = 22"
definition ENOMEM :: int where "ENOMEM = 12"
definition ETIMEDOUT :: int where "ETIMEDOUT = 110"
definition ERESTARTSYS :: int where "ERESTARTSYS = 512"
definition ENOENT :: int where "ENOENT = 2"
definition ENODEV :: int where "ENODEV = 19"

lemmas errno_defs = EFAULT_def ENOTTY_def EINVAL_def ENOMEM_def ETIMEDOUT_def ERESTARTSYS_def ENOENT_def ENODEV_def

definition map_errcode :: "int \<Rightarrow> int" where
  "map_errcode err =
     (if err = osk_code ERR_OK then 0
      else if err = osk_code ERR_FAULT then - EFAULT
      else if err = osk_code ERR_INVALID_FUNC then - ENOTTY
      else if err = osk_code ERR_INVALID_ARGS then - EINVAL
      else if err = osk_code ERR_NOMEM then - ENOMEM
      else if err = osk_code ERR_TIMEOUT then - ETIMEDOUT
      else if err = osk_code ERR_RESTARTSYSCALL then - ERESTARTSYS
      else if err = osk_code ERR_ITEM_NOT_FOUND then - ENOENT
      else - EFAULT)"

lemma map_errcode_0 [simp]: "map_errcode 0 = 0" "map_errcode err = 0 \<longleftrightarrow> err = 0"
  by (simp_all add: map_errcode_def errno_defs)

subsection \<open>Maintenance of the caches\<close>

definition UMP_UK_MSYNC_CLEAN :: u32 where "UMP_UK_MSYNC_CLEAN = 0"
definition UMP_UK_MSYNC_CLEAN_AND_INVALIDATE :: u32 where "UMP_UK_MSYNC_CLEAN_AND_INVALIDATE = 1"
definition UMP_UK_MSYNC_READOUT_CACHE_ENABLED :: u32 where "UMP_UK_MSYNC_READOUT_CACHE_ENABLED = 128"

text \<open>The calls that flush the first level cache by virtual and the second level by physical addresses.\<close>

datatype cache_call = Dmac_flush_range u32 u32 | Outer_clean_range u32 u32 | Outer_flush_range u32 u32

definition outer_range :: "u32 \<Rightarrow> u32 \<Rightarrow> u32 \<Rightarrow> cache_call list" where
  "outer_range op start_p end_p =
     (if op = UMP_UK_MSYNC_CLEAN then [Outer_clean_range start_p end_p]
      else if op = UMP_UK_MSYNC_CLEAN_AND_INVALIDATE then [Outer_flush_range start_p end_p]
      else [])"

fun flush_blocks :: "u32 \<Rightarrow> u32 \<Rightarrow> u32 \<Rightarrow> ump_dd_physical_block list \<Rightarrow> cache_call list" where
  "flush_blocks op offset sz [] = []"
| "flush_blocks op offset sz (b # bs) =
     (if block_size b \<le> offset then flush_blocks op (offset - block_size b) sz bs
      else let start_p = (if offset \<noteq> 0 then block_addr b + offset else block_addr b)
           in if sz < block_size b - offset then outer_range op start_p (start_p + sz - 1)
              else let end_p = (if offset \<noteq> 0 then start_p + (block_size b - offset - 1) else start_p + block_size b - 1);
                       sz = (if offset \<noteq> 0 then sz - (block_size b - offset) else sz - block_size b)
                   in outer_range op start_p end_p @ (if sz = 0 then [] else flush_blocks op 0 sz bs))"

definition ump_osk_msync ::
  "(u32 \<Rightarrow> u32 \<Rightarrow> bool) \<Rightarrow> ump_dd_mem \<Rightarrow> u32 \<Rightarrow> u32 \<Rightarrow> u32 \<Rightarrow> u32 \<Rightarrow> cache_call list option" where
  "ump_osk_msync access_ok m virt offset sz op =
     (if access_ok virt sz then do {
        bs \<leftarrow> nr_block_list m;
        Some (Dmac_flush_range virt (virt + sz - 1) # flush_blocks op offset sz bs)
      } else Some [])"

record ump_uk_msync_s =
  msync_mapping :: u32
  msync_address :: u32
  msync_size :: u32
  msync_op :: u32
  msync_secure_id :: u32
  msync_is_cached :: bool

definition msync_calls :: "(u32 \<Rightarrow> u32 \<Rightarrow> bool) \<Rightarrow> ump_dd_mem \<Rightarrow> ump_uk_msync_s \<Rightarrow> cache_call list option" where
  "msync_calls access_ok m args =
     (if msync_op args = UMP_UK_MSYNC_READOUT_CACHE_ENABLED then Some []
      else if \<not> is_cached m then Some []
      else let virt = (if msync_address args \<noteq> 0 then msync_address args else msync_mapping args);
               offset = (if msync_address args \<noteq> 0 then msync_address args - msync_mapping args else 0);
               sz = (if msync_size args \<noteq> 0 then msync_size args else size_bytes m - offset)
           in if size_bytes m < offset + sz then Some []
              else ump_osk_msync access_ok m virt offset sz (msync_op args))"

definition ump_ukk_msync ::
  "ump_env \<Rightarrow> (u32 \<Rightarrow> u32 \<Rightarrow> bool) \<Rightarrow> ump_uk_msync_s \<Rightarrow> ump_state \<Rightarrow> (ump_uk_msync_s \<times> cache_call list \<times> ump_state) option" where
  "ump_ukk_msync env access_ok args w =
     (let p = snd (ump_descriptor_mapping_get (secure_id_map w) (sint (msync_secure_id args)))
      in if p = 0 then Some (args, [], w)
         else do {
           w \<leftarrow> ump_dd_reference_add p w;
           m \<leftarrow> mems w p;
           calls \<leftarrow> msync_calls access_ok m args;
           w \<leftarrow> ump_dd_reference_release env p w;
           Some (args\<lparr>msync_is_cached := is_cached m\<rparr>, calls, w)
         })"

subsection \<open>Virtual memory areas\<close>

definition ump_vma_open :: "ptr \<Rightarrow> ump_state \<Rightarrow> ump_state option" where
  "ump_vma_open v w = do {
     a \<leftarrow> ump_vmas w v;
     if ump_vm_private_data a = 0 then None
     else do {
       t \<leftarrow> trackers w (ump_vm_private_data a);
       Some (set_tracker (ump_vm_private_data a) (Some (t\<lparr>tracker_references := int32 (tracker_references t + 1)\<rparr>)) w)
     }
   }"

definition ump_vma_close :: "ump_env \<Rightarrow> ptr \<Rightarrow> ump_state \<Rightarrow> ump_state option" where
  "ump_vma_close env v w = do {
     a \<leftarrow> ump_vmas w v;
     if ump_vm_private_data a = 0 then None
     else do {
       t \<leftarrow> trackers w (ump_vm_private_data a);
       let new_val = int32 (tracker_references t - 1);
       let w = set_tracker (ump_vm_private_data a) (Some (t\<lparr>tracker_references := new_val\<rparr>)) w;
       if new_val = 0 then do {
         d \<leftarrow> allocations w (tracker_descriptor t);
         ump_ukk_unmap_mem env (ump_session d) (ump_cookie d) w
       } else Some w
     }
   }"

subsection \<open>File operations\<close>

definition ump_file_open :: "ump_env \<Rightarrow> u32 \<Rightarrow> ump_state \<Rightarrow> (int \<times> ptr option \<times> ump_state) option" where
  "ump_file_open env minor w =
     (if minor \<noteq> 0 then Some (- ENODEV, None, w)
      else do {
        (err, s, w) \<leftarrow> ump_ukk_open env w;
        if err \<noteq> osk_code ERR_OK then Some (map_errcode err, None, w) else Some (0, s, w)
      })"

definition ump_file_release :: "ump_env \<Rightarrow> ptr \<Rightarrow> ump_state \<Rightarrow> (int \<times> ump_state) option" where
  "ump_file_release env s w = do {
     (err, w) \<leftarrow> ump_ukk_close env s w;
     if err \<noteq> osk_code ERR_OK then Some (map_errcode err, w) else Some (0, w)
   }"

definition ump_file_mmap :: "ump_env \<Rightarrow> ptr \<Rightarrow> ptr \<Rightarrow> ump_state \<Rightarrow> (int \<times> ump_state) option" where
  "ump_file_mmap env s v w =
     (if s = 0 then Some (- EFAULT, w)
      else do {
        a \<leftarrow> ump_vmas w v;
        let args = \<lparr>map_ctx = s, map_mapping = 0, map_phys_addr = 0, map_size = ump_vm_end a - ump_vm_start a,
          map_secure_id = ump_vm_pgoff a, map_private = v, map_cookie = 0, map_is_cached = (\<not> ump_vm_shared a)\<rparr>;
        (err, args, w) \<leftarrow> ump_ukk_map_mem env args (set_ump_vma v (Some (a\<lparr>ump_vm_shared := True\<rparr>)) w);
        if err \<noteq> osk_code ERR_OK then Some (map_errcode err, w) else Some (0, w)
      })"

text \<open>
  The control requests with the fields that the driver reads, and the answers with those that it sets.
  \<open>argument\<close> is whether the pointer is not null, \<open>copy_in\<close> and \<open>copy_out\<close> whether the copies succeed.
\<close>

datatype ump_request =
    Query_api_version u32
  | Allocate_request u32 u32
  | Release_request u32
  | Size_get_request u32
  | Msync_request ump_uk_msync_s
  | Other_request

datatype ump_answer =
    Version_answer u32 bool
  | Allocate_answer u32 u32
  | Size_answer u32
  | Msync_answer bool
  | No_answer

record user_copy =
  argument :: bool
  copy_in :: bool
  copy_out :: bool

definition ump_get_api_version_wrapper ::
  "user_copy \<Rightarrow> ptr \<Rightarrow> u32 \<Rightarrow> ump_state \<Rightarrow> (int \<times> ump_answer \<times> ump_state) option" where
  "ump_get_api_version_wrapper u s version w =
     (if \<not> argument u \<or> s = 0 then Some (- ENOTTY, No_answer, w)
      else if \<not> copy_in u then Some (- EFAULT, No_answer, w)
      else do {
        (err, (version, compatible), w) \<leftarrow> ump_uku_get_api_version s version w;
        if err \<noteq> osk_code ERR_OK then Some (map_errcode err, No_answer, w)
        else if \<not> copy_out u then Some (- EFAULT, No_answer, w)
        else Some (0, Version_answer version compatible, w)
      })"

definition ump_allocate_wrapper ::
  "ump_env \<Rightarrow> user_copy \<Rightarrow> ptr \<Rightarrow> u32 \<Rightarrow> u32 \<Rightarrow> ump_state \<Rightarrow> (int \<times> ump_answer \<times> ump_state) option" where
  "ump_allocate_wrapper env u s sz constraints w =
     (if \<not> argument u \<or> s = 0 then Some (- ENOTTY, No_answer, w)
      else if \<not> copy_in u then Some (- EFAULT, No_answer, w)
      else do {
        (err, args, w) \<leftarrow> ump_ukk_allocate env \<lparr>allocate_ctx = s, allocate_secure_id = 0, allocate_size = sz,
          allocate_constraints = constraints\<rparr> w;
        if err \<noteq> osk_code ERR_OK then Some (map_errcode err, No_answer, w)
        else if \<not> copy_out u then do {
          (err, w) \<leftarrow> ump_ukk_release env s (allocate_secure_id args) w;
          Some (- EFAULT, No_answer, w)
        } else Some (0, Allocate_answer (allocate_secure_id args) (allocate_size args), w)
      })"

definition ump_release_wrapper ::
  "ump_env \<Rightarrow> user_copy \<Rightarrow> ptr \<Rightarrow> u32 \<Rightarrow> ump_state \<Rightarrow> (int \<times> ump_answer \<times> ump_state) option" where
  "ump_release_wrapper env u s sid w =
     (if s = 0 then Some (- ENOTTY, No_answer, w)
      else if \<not> copy_in u then Some (- EFAULT, No_answer, w)
      else do {
        (err, w) \<leftarrow> ump_ukk_release env s sid w;
        if err \<noteq> osk_code ERR_OK then Some (map_errcode err, No_answer, w) else Some (0, No_answer, w)
      })"

definition ump_size_get_wrapper ::
  "user_copy \<Rightarrow> ptr \<Rightarrow> u32 \<Rightarrow> ump_state \<Rightarrow> (int \<times> ump_answer \<times> ump_state) option" where
  "ump_size_get_wrapper u s sid w =
     (if \<not> argument u \<or> s = 0 then Some (- ENOTTY, No_answer, w)
      else if \<not> copy_in u then Some (- EFAULT, No_answer, w)
      else do {
        (err, sz) \<leftarrow> ump_ukk_size_get sid w;
        if err \<noteq> osk_code ERR_OK then Some (map_errcode err, No_answer, w)
        else if \<not> copy_out u then Some (- EFAULT, No_answer, w)
        else Some (0, Size_answer sz, w)
      })"

definition ump_msync_wrapper ::
  "ump_env \<Rightarrow> (u32 \<Rightarrow> u32 \<Rightarrow> bool) \<Rightarrow> user_copy \<Rightarrow> ptr \<Rightarrow> ump_uk_msync_s \<Rightarrow> ump_state
     \<Rightarrow> (int \<times> ump_answer \<times> cache_call list \<times> ump_state) option" where
  "ump_msync_wrapper env access_ok u s args w =
     (if \<not> argument u \<or> s = 0 then Some (- ENOTTY, No_answer, [], w)
      else if \<not> copy_in u then Some (- EFAULT, No_answer, [], w)
      else do {
        (args, calls, w) \<leftarrow> ump_ukk_msync env access_ok args w;
        if \<not> copy_out u then Some (- EFAULT, No_answer, calls, w)
        else Some (0, Msync_answer (msync_is_cached args), calls, w)
      })"

definition ump_file_ioctl ::
  "ump_env \<Rightarrow> (u32 \<Rightarrow> u32 \<Rightarrow> bool) \<Rightarrow> user_copy \<Rightarrow> ptr \<Rightarrow> ump_request \<Rightarrow> ump_state
     \<Rightarrow> (int \<times> ump_answer \<times> cache_call list \<times> ump_state) option" where
  "ump_file_ioctl env access_ok u s r w =
     (if s = 0 then Some (- ENOTTY, No_answer, [], w)
      else case r of
        Query_api_version version \<Rightarrow> map_option (\<lambda>(err, a, w). (err, a, [], w)) (ump_get_api_version_wrapper u s version w)
      | Allocate_request sz constraints \<Rightarrow> map_option (\<lambda>(err, a, w). (err, a, [], w)) (ump_allocate_wrapper env u s sz constraints w)
      | Release_request sid \<Rightarrow> map_option (\<lambda>(err, a, w). (err, a, [], w)) (ump_release_wrapper env u s sid w)
      | Size_get_request sid \<Rightarrow> map_option (\<lambda>(err, a, w). (err, a, [], w)) (ump_size_get_wrapper u s sid w)
      | Msync_request args \<Rightarrow> ump_msync_wrapper env access_ok u s args w
      | Other_request \<Rightarrow> Some (- EFAULT, No_answer, [], w))"

end
