(* ===== verification/Ump_Accounts.thy ===== *)
theory Ump_Accounts
  imports Ump_Linux
begin

text \<open>
  The invariant of the UMP driver: who holds the references of a handle, which cookies a session has handed
  out, and which virtual memory areas show the memory of which handle.
\<close>

subsection \<open>References\<close>

text \<open>\<open>K\<close> are the references that other drivers hold.\<close>

definition session_refs :: "(ptr \<rightharpoonup> ump_session_data) \<Rightarrow> ptr multiset" where
  "session_refs S = map_sum (mset \<circ> session_memory_list) S"

definition mapping_refs :: "(ptr \<rightharpoonup> ump_memory_allocation) \<Rightarrow> ptr multiset" where
  "mapping_refs A = map_sum (\<lambda>d. {#handle d#}) A"

subsection \<open>Cookies\<close>

definition session_ok :: "(ptr \<rightharpoonup> ump_memory_allocation) \<Rightarrow> ptr \<Rightarrow> ump_session_data \<Rightarrow> bool" where
  "session_ok A s d \<longleftrightarrow> wf_mapping (cookies_map d) \<and> distinct (session_mappings_list d) \<and>
     set (session_mappings_list d) = {a. \<exists>x. A a = Some x \<and> ump_session x = s} \<and>
     (\<forall>k a. map_contents (cookies_map d) k = Some a \<longleftrightarrow>
       (\<exists>x. A a = Some x \<and> ump_session x = s \<and> sint (ump_cookie x) = int k))"

definition sessions_ok :: "(ptr \<rightharpoonup> ump_session_data) \<Rightarrow> (ptr \<rightharpoonup> ump_memory_allocation) \<Rightarrow> bool" where
  "sessions_ok S A \<longleftrightarrow> finite (dom S) \<and> finite (dom A) \<and> S 0 = None \<and> A 0 = None \<and>
     (\<forall>s d. S s = Some d \<longrightarrow> session_ok A s d) \<and>
     (\<forall>a x. A a = Some x \<longrightarrow> ump_session x \<in> dom S \<and> 0 < sint (ump_cookie x))"

subsection \<open>Areas\<close>

text \<open>A mapping has a usage tracker, which counts the areas that show it; the first of them is in the mapping.\<close>

definition showing :: "(ptr \<rightharpoonup> ump_vma) \<Rightarrow> ptr \<Rightarrow> ptr set" where
  "showing V t = {v. \<exists>y. V v = Some y \<and> ump_vm_private_data y = t}"

definition areas_ok :: "(ptr \<rightharpoonup> ump_memory_allocation) \<Rightarrow> (ptr \<rightharpoonup> ump_vma_usage_tracker) \<Rightarrow> (ptr \<rightharpoonup> ump_vma) \<Rightarrow> bool" where
  "areas_ok A T V \<longleftrightarrow> finite (dom V) \<and> V 0 = None \<and> T 0 = None \<and>
     (\<forall>a x. A a = Some x \<longrightarrow> (\<exists>y t. V (process_mapping_info x) = Some y \<and> T (ump_vm_private_data y) = Some t \<and>
       tracker_descriptor t = a)) \<and>
     (\<forall>v y. V v = Some y \<longrightarrow> ump_vm_private_data y \<in> dom T) \<and>
     (\<forall>p t. T p = Some t \<longrightarrow> tracker_references t = int (card (showing V p)) \<and> tracker_references t < 2 ^ 31 \<and>
       (\<exists>x. A (tracker_descriptor t) = Some x \<and> process_mapping_info x \<in> showing V p))"

text \<open>What an area shows is memory of the handle of its mapping.\<close>

definition page_of :: "ump_dd_mem \<Rightarrow> u32 \<times> u32 \<times> u32 \<Rightarrow> bool" where
  "page_of m pg \<longleftrightarrow> (\<exists>b \<in> set (array_blocks (block_array m)). fst (snd pg) = page_base (block_addr b) \<and> snd (snd pg) \<le> block_size b)"

definition pages_ok ::
  "(ptr \<rightharpoonup> ump_dd_mem) \<Rightarrow> (ptr \<rightharpoonup> ump_memory_allocation) \<Rightarrow> (ptr \<rightharpoonup> ump_vma_usage_tracker) \<Rightarrow> (ptr \<rightharpoonup> ump_vma) \<Rightarrow> bool" where
  "pages_ok M A T V \<longleftrightarrow> (\<forall>v y t x m. V v = Some y \<longrightarrow> T (ump_vm_private_data y) = Some t \<longrightarrow>
     A (tracker_descriptor t) = Some x \<longrightarrow> M (handle x) = Some m \<longrightarrow> (\<forall>pg \<in> set (ump_vm_pages y). page_of m pg))"

definition ump_parts ::
  "nat \<Rightarrow> ptr multiset \<Rightarrow> (ptr \<rightharpoonup> ump_session_data) \<Rightarrow> (ptr \<rightharpoonup> ump_memory_allocation) \<Rightarrow>
     (ptr \<rightharpoonup> ump_vma_usage_tracker) \<Rightarrow> (ptr \<rightharpoonup> ump_vma) \<Rightarrow> ump_state \<Rightarrow> bool" where
  "ump_parts n K S A T V w \<longleftrightarrow> handles_ok n (session_refs S + mapping_refs A + K) w \<and> sessions_ok S A \<and>
     areas_ok A T V \<and> pages_ok (mems w) A T V"

definition ump_ok :: "nat \<Rightarrow> ptr multiset \<Rightarrow> ump_state \<Rightarrow> bool" where
  "ump_ok n K w \<longleftrightarrow> ump_parts n K (sessions w) (allocations w) (trackers w) (ump_vmas w) w"

lemma ump_partsD:
  assumes "ump_parts n K S A T V w"
  shows "handles_ok n (session_refs S + mapping_refs A + K) w" "sessions_ok S A" "areas_ok A T V" "pages_ok (mems w) A T V"
    "finite (dom S)" "finite (dom A)" "finite (dom V)"
  using assms unfolding ump_parts_def sessions_ok_def areas_ok_def by blast+

subsection \<open>What keeps the parts\<close>

text \<open>The memory of a handle stays as it is, apart from its count, or goes.\<close>

definition memory_kept :: "(ptr \<rightharpoonup> ump_dd_mem) \<Rightarrow> (ptr \<rightharpoonup> ump_dd_mem) \<Rightarrow> bool" where
  "memory_kept M' M \<longleftrightarrow> (\<forall>p m'. M' p = Some m' \<longrightarrow> (\<exists>m. M p = Some m \<and> block_array m' = block_array m))"

lemma pages_ok_memory:
  assumes "pages_ok M A T V" "memory_kept M' M"
  shows "pages_ok M' A T V"
  unfolding pages_ok_def
proof (intro allI impI ballI)
  fix v y t x m' pg
  assume v: "V v = Some y" "T (ump_vm_private_data y) = Some t" "A (tracker_descriptor t) = Some x"
    "M' (handle x) = Some m'" and pg: "pg \<in> set (ump_vm_pages y)"
  obtain m where m: "M (handle x) = Some m" "block_array m' = block_array m"
    using assms(2) v(4) unfolding memory_kept_def by blast
  have "page_of m pg" using assms(1) v(1-3) m(1) pg unfolding pages_ok_def by blast
  then show "page_of m' pg" using m(2) by (simp add: page_of_def)
qed

lemma memory_kept_count: "M p = Some m \<Longrightarrow> memory_kept (M(p \<mapsto> m\<lparr>ref_count := k\<rparr>)) M"
  by (simp add: memory_kept_def)

lemma memory_kept_remove: "memory_kept (M(p := None)) M"
  by (simp add: memory_kept_def)

text \<open>A new handle is shown nowhere.\<close>

lemma pages_ok_new_handle:
  assumes "pages_ok M A T V" "\<forall>a x. A a = Some x \<longrightarrow> handle x \<noteq> p"
  shows "pages_ok (M(p \<mapsto> m)) A T V"
  using assms unfolding pages_ok_def by (metis fun_upd_other)

lemma mapping_handle:
  assumes "ump_parts n K S A T V w" "A a = Some x"
  shows "handle x \<in># mapping_refs A" "handle x \<in> dom (mems w)" "handle x \<noteq> 0"
proof -
  note p = ump_partsD[OF assms(1)]
  show h: "handle x \<in># mapping_refs A"
    unfolding mapping_refs_def by (rule map_sum_member[OF p(6) assms(2)]) simp
  then show d: "handle x \<in> dom (mems w)" using handles_okD(3)[OF p(1)] by auto
  then show "handle x \<noteq> 0" using handle_okD(4)[OF p(1)] by auto
qed

lemma session_of:
  assumes "sessions_ok S A" "S s = Some d"
  shows "session_ok A s d" "s \<noteq> 0"
  using assms by (auto simp: sessions_ok_def)

text \<open>A session that only changes the memory it holds and the version.\<close>

lemma sessions_ok_keep:
  assumes ok: "sessions_ok S A" and s: "S s = Some d" and d: "session_mappings_list d' = session_mappings_list d"
    "cookies_map d' = cookies_map d"
  shows "sessions_ok (S(s \<mapsto> d')) A"
proof -
  have "session_ok A s d'" using session_of(1)[OF ok s] d by (simp add: session_ok_def)
  moreover have "s \<noteq> 0" by (rule session_of(2)[OF ok s])
  moreover have "dom (S(s \<mapsto> d')) = dom S" using s by auto
  ultimately show ?thesis using ok unfolding sessions_ok_def by auto
qed

lemma sessions_ok_new:
  assumes ok: "sessions_ok S A" and s: "S s = None" "s \<noteq> 0" and d: "session_mappings_list d = []"
    "wf_mapping (cookies_map d)" "map_contents (cookies_map d) = Map.empty"
  shows "sessions_ok (S(s \<mapsto> d)) A"
proof -
  have n: "\<not> (A a = Some x \<and> ump_session x = s)" for a x using ok s(1) by (auto simp: sessions_ok_def)
  have "session_ok A s d" unfolding session_ok_def using n d by auto
  then show ?thesis using ok s(2) unfolding sessions_ok_def by auto
qed

lemma sessions_ok_end:
  assumes ok: "sessions_ok S A" and s: "\<forall>a x. A a = Some x \<longrightarrow> ump_session x \<noteq> s"
  shows "sessions_ok (S(s := None)) A"
  using assms unfolding sessions_ok_def by (auto split: if_splits)

lemma session_refs_upd:
  assumes "finite (dom S)" "S s = Some d"
  shows "session_refs (S(s \<mapsto> d')) + mset (session_memory_list d) = session_refs S + mset (session_memory_list d')"
  using map_sum_upd[OF assms(1), of "mset \<circ> session_memory_list" s d'] map_sum_at[OF assms, of "mset \<circ> session_memory_list"]
  by (simp add: session_refs_def)

lemma session_refs_same: "finite (dom S) \<Longrightarrow> S s = Some d \<Longrightarrow> session_memory_list d' = session_memory_list d \<Longrightarrow>
    session_refs (S(s \<mapsto> d')) = session_refs S"
  using session_refs_upd[of S s d d'] by simp

subsection \<open>References on behalf of other drivers\<close>

lemma parts_add:
  assumes ok: "ump_parts n K S A T V w" and m: "mems w p = Some m"
    and sz: "Suc (size (session_refs S + mapping_refs A + K)) < 2 ^ 31"
  obtains w' k where "ump_dd_reference_add p w = Some w'" "w' = set_mem p (Some (m\<lparr>ref_count := k\<rparr>)) w"
    "ump_parts n (add_mset p K) S A T V w'"
proof -
  note d = ump_partsD[OF ok]
  obtain w' where w': "ump_dd_reference_add p w = Some w'"
    "w' = set_mem p (Some (m\<lparr>ref_count := int (Suc (count (session_refs S + mapping_refs A + K) p))\<rparr>)) w"
    "handles_ok n (add_mset p (session_refs S + mapping_refs A + K)) w'"
    by (rule reference_add_ok[OF d(1) m sz])
  have "pages_ok (mems w') A T V"
    by (rule pages_ok_memory[OF d(4)]) (use w'(2) memory_kept_count[where M = "mems w", OF m] in simp)
  then have "ump_parts n (add_mset p K) S A T V w'" using w'(3) d by (simp add: ump_parts_def)
  then show ?thesis using that w'(1,2) by blast
qed

lemma parts_release:
  assumes ok: "ump_parts n (add_mset p K) S A T V w"
  obtains m w' where "mems w p = Some m" "ump_dd_reference_release env p w = Some w'"
    "if p \<in># session_refs S + mapping_refs A + K
     then (\<exists>k. w' = set_mem p (Some (m\<lparr>ref_count := k\<rparr>)) w) \<and> ump_parts n K S A T V w'
     else (\<exists>ids b. w' = w\<lparr>secure_id_map := ids, backend := b, mems := (mems w)(p := None)\<rparr>) \<and>
       ump_parts (n + lost_units env p m) K S A T V w'"
proof -
  note d = ump_partsD[OF ok]
  have h: "handles_ok n (add_mset p (session_refs S + mapping_refs A + K)) w" using d(1) by simp
  obtain m w' where r: "mems w p = Some m" "ump_dd_reference_release env p w = Some w'"
    "if p \<in># session_refs S + mapping_refs A + K
     then w' = set_mem p (Some (m\<lparr>ref_count := int (count (session_refs S + mapping_refs A + K) p)\<rparr>)) w \<and>
       handles_ok n (session_refs S + mapping_refs A + K) w'
     else (\<exists>ids b. w' = w\<lparr>secure_id_map := ids, backend := b, mems := (mems w)(p := None)\<rparr>) \<and>
       handles_ok (n + lost_units env p m) (session_refs S + mapping_refs A + K) w'"
    by (rule reference_release_ok[OF h])
  have "memory_kept (mems w') (mems w)"
    using r(1,3) memory_kept_count[where M = "mems w", OF r(1)] memory_kept_remove[of "mems w" p] by (auto split: if_splits)
  then have "pages_ok (mems w') A T V" by (rule pages_ok_memory[OF d(4)])
  then show ?thesis using that[OF r(1,2)] r(3) d by (auto simp: ump_parts_def split: if_splits)
qed

text \<open>What the rest of the state sees of a release.\<close>

definition same_user :: "ump_state \<Rightarrow> ump_state \<Rightarrow> bool" where
  "same_user w' w \<longleftrightarrow> sessions w' = sessions w \<and> allocations w' = allocations w \<and> trackers w' = trackers w \<and> ump_vmas w' = ump_vmas w"

lemma parts_release':
  assumes ok: "ump_parts n (add_mset p K) S A T V w"
  obtains w' n' where "ump_dd_reference_release env p w = Some w'" "same_user w' w" "ump_parts n' K S A T V w'"
    "n \<le> n'" "(\<forall>q. \<not> interrupted env q) \<longrightarrow> n' = n"
proof -
  obtain m w' where r: "mems w p = Some m" "ump_dd_reference_release env p w = Some w'"
    "if p \<in># session_refs S + mapping_refs A + K
     then (\<exists>k. w' = set_mem p (Some (m\<lparr>ref_count := k\<rparr>)) w) \<and> ump_parts n K S A T V w'
     else (\<exists>ids b. w' = w\<lparr>secure_id_map := ids, backend := b, mems := (mems w)(p := None)\<rparr>) \<and>
       ump_parts (n + lost_units env p m) K S A T V w'"
    by (rule parts_release[OF ok])
  have s: "same_user w' w" using r(3) by (auto simp: same_user_def split: if_splits)
  show ?thesis
  proof (cases "p \<in># session_refs S + mapping_refs A + K")
    case True
    then show ?thesis using that[OF r(2) s, of n] r(3) by simp
  next
    case False
    then show ?thesis using that[OF r(2) s, of "n + lost_units env p m"] r(3) by (simp add: lost_units_def)
  qed
qed

lemma parts_lookup:
  assumes ok: "ump_parts n K S A T V w" and s: "sint sid \<noteq> 0"
    and sz: "Suc (size (session_refs S + mapping_refs A + K)) < 2 ^ 31"
  obtains (none) "ump_dd_handle_create_from_secure_id sid w = Some (UMP_DD_HANDLE_INVALID, w)"
  | (found) p m k w' where "mems w p = Some m" "secure_id m = sid" "p \<noteq> UMP_DD_HANDLE_INVALID"
    "ump_dd_handle_create_from_secure_id sid w = Some (p, w')" "w' = set_mem p (Some (m\<lparr>ref_count := k\<rparr>)) w"
    "ump_parts n (add_mset p K) S A T V w'"
proof -
  note d = ump_partsD[OF ok]
  show ?thesis
  proof (cases "map_contents (secure_id_map w) (nat (sint sid))")
    case None
    then show ?thesis using lookup_ok[OF d(1) s sz] none by simp
  next
    case (Some p)
    then obtain m w' where f: "mems w p = Some m" "secure_id m = sid" "p \<noteq> UMP_DD_HANDLE_INVALID"
      "ump_dd_handle_create_from_secure_id sid w = Some (p, w')"
      "w' = set_mem p (Some (m\<lparr>ref_count := int (Suc (count (session_refs S + mapping_refs A + K) p))\<rparr>)) w"
      "handles_ok n (add_mset p (session_refs S + mapping_refs A + K)) w'"
      using lookup_ok[OF d(1) s sz] by auto
    have "pages_ok (mems w') A T V"
      by (rule pages_ok_memory[OF d(4)]) (use f(5) memory_kept_count[where M = "mems w", OF f(1)] in simp)
    then have "ump_parts n (add_mset p K) S A T V w'" using f(6) d by (simp add: ump_parts_def)
    then show ?thesis using found f(1-5) by blast
  qed
qed

text \<open>A session takes over a reference, and gives it up.\<close>

lemma parts_give:
  assumes ok: "ump_parts n (add_mset p K) S A T V w" and s: "S s = Some d"
  shows "ump_parts n K (S(s \<mapsto> d\<lparr>session_memory_list := p # session_memory_list d\<rparr>)) A T V w"
proof -
  note h = ump_partsD[OF ok]
  let ?d = "d\<lparr>session_memory_list := p # session_memory_list d\<rparr>"
  have "session_refs (S(s \<mapsto> ?d)) + mapping_refs A + K = session_refs S + mapping_refs A + add_mset p K"
    using session_refs_upd[OF h(5) s, of ?d] by simp
  moreover have "sessions_ok (S(s \<mapsto> ?d)) A" by (rule sessions_ok_keep[OF h(2) s]) simp_all
  ultimately show ?thesis using h unfolding ump_parts_def by metis
qed

lemma parts_take:
  assumes ok: "ump_parts n K S A T V w" and s: "S s = Some d" and l: "session_memory_list d = xs @ p # ys"
  shows "ump_parts n (add_mset p K) (S(s \<mapsto> d\<lparr>session_memory_list := xs @ ys\<rparr>)) A T V w"
proof -
  note h = ump_partsD[OF ok]
  let ?d = "d\<lparr>session_memory_list := xs @ ys\<rparr>"
  have "session_refs (S(s \<mapsto> ?d)) + mapping_refs A + add_mset p K = session_refs S + mapping_refs A + K"
    using session_refs_upd[OF h(5) s, of ?d] l by simp
  moreover have "sessions_ok (S(s \<mapsto> ?d)) A" by (rule sessions_ok_keep[OF h(2) s]) simp_all
  ultimately show ?thesis using h unfolding ump_parts_def by metis
qed

end
