(* ===== verification/Ump_Areas.thy ===== *)
theory Ump_Areas
  imports Ump_Accounts
begin

text \<open>
  How the invariant changes when a mapping begins and ends and when virtual memory areas are copied, cut
  and closed.
\<close>

subsection \<open>Areas that show a mapping\<close>

lemma showing_simps:
  "V v = None \<Longrightarrow> showing (V(v \<mapsto> y)) t = (if ump_vm_private_data y = t then insert v (showing V t) else showing V t)"
  "showing (V(v := None)) t = showing V t - {v}"
  "v \<in> showing V t \<longleftrightarrow> (\<exists>y. V v = Some y \<and> ump_vm_private_data y = t)"
  by (auto simp: showing_def split: if_splits)

lemma showing_finite: "finite (dom V) \<Longrightarrow> finite (showing V t)"
  by (rule finite_subset[of _ "dom V"]) (auto simp: showing_def)

lemma showing_keep: "V v = Some y \<Longrightarrow> ump_vm_private_data y' = ump_vm_private_data y \<Longrightarrow> showing (V(v \<mapsto> y')) t = showing V t"
  by (auto simp: showing_def split: if_splits)

lemma areas_okD:
  assumes "areas_ok A T V"
  shows "finite (dom V)" "V 0 = None" "T 0 = None"
    "A a = Some x \<Longrightarrow> \<exists>y t. V (process_mapping_info x) = Some y \<and> T (ump_vm_private_data y) = Some t \<and> tracker_descriptor t = a"
    "V v = Some y \<Longrightarrow> \<exists>t. T (ump_vm_private_data y) = Some t"
    "T p = Some t \<Longrightarrow> tracker_references t = int (card (showing V p))"
    "T p = Some t \<Longrightarrow> tracker_references t < 2 ^ 31"
    "T p = Some t \<Longrightarrow> \<exists>x. A (tracker_descriptor t) = Some x \<and> process_mapping_info x \<in> showing V p"
  using assms unfolding areas_ok_def by blast+

text \<open>A mapping has one tracker.\<close>

lemma one_tracker:
  assumes ok: "areas_ok A T V" and t: "T p = Some t" "T p' = Some t'" "tracker_descriptor t' = tracker_descriptor t"
  shows "p' = p"
  using areas_okD(8)[OF ok t(1)] areas_okD(8)[OF ok t(2)] t(3) by (auto simp: showing_def)

lemma one_mapping:
  assumes ok: "areas_ok A T V" and x: "A a = Some x" "A a' = Some x'" "process_mapping_info x' = process_mapping_info x"
  shows "a' = a"
  using areas_okD(4)[OF ok x(1)] areas_okD(4)[OF ok x(2)] x(3) by auto

lemma areas_ok_begin:
  assumes ok: "areas_ok A T V" and a: "A a = None" and t: "T p = None" "p \<noteq> 0" and v: "V v = None" "v \<noteq> 0"
    and x: "process_mapping_info x = v" and y: "ump_vm_private_data y = p"
  shows "areas_ok (A(a \<mapsto> x)) (T(p \<mapsto> \<lparr>tracker_references = 1, tracker_descriptor = a\<rparr>)) (V(v \<mapsto> y))"
proof -
  note d = areas_okD[OF ok]
  have np: "showing V p = {}" using d(5) t(1) by (fastforce simp: showing_def)
  have sh: "showing (V(v \<mapsto> y)) q = (if q = p then {v} else showing V q)" for q
    using showing_simps(1)[of V v y q, OF v(1)] y np by auto
  show ?thesis
    unfolding areas_ok_def
  proof (intro conjI allI impI)
    fix b z assume b: "(A(a \<mapsto> x)) b = Some z"
    show "\<exists>y' t. (V(v \<mapsto> y)) (process_mapping_info z) = Some y' \<and>
        (T(p \<mapsto> \<lparr>tracker_references = 1, tracker_descriptor = a\<rparr>)) (ump_vm_private_data y') = Some t \<and> tracker_descriptor t = b"
    proof (cases "b = a")
      case True
      then show ?thesis using b x y by auto
    next
      case False
      then have "A b = Some z" using b by simp
      from d(4)[OF this] obtain y' t' where r: "V (process_mapping_info z) = Some y'" "T (ump_vm_private_data y') = Some t'"
        "tracker_descriptor t' = b" by blast
      have "process_mapping_info z \<noteq> v" "ump_vm_private_data y' \<noteq> p" using r v(1) t(1) by auto
      then show ?thesis using r by auto
    qed
  next
    fix u z assume "(V(v \<mapsto> y)) u = Some z"
    then show "ump_vm_private_data z \<in> dom (T(p \<mapsto> \<lparr>tracker_references = 1, tracker_descriptor = a\<rparr>))"
      using d(5)[of u z] y by (auto split: if_splits)
  next
    fix q r assume r: "(T(p \<mapsto> \<lparr>tracker_references = 1, tracker_descriptor = a\<rparr>)) q = Some r"
    show "tracker_references r = int (card (showing (V(v \<mapsto> y)) q))"
      "tracker_references r < 2 ^ 31"
      using r d(6)[of q r] d(7)[of q r] unfolding sh by (auto split: if_splits)
    show "\<exists>z. (A(a \<mapsto> x)) (tracker_descriptor r) = Some z \<and> process_mapping_info z \<in> showing (V(v \<mapsto> y)) q"
    proof (cases "q = p")
      case True
      then show ?thesis using r x unfolding sh by auto
    next
      case False
      then have "T q = Some r" using r by simp
      from d(8)[OF this] a False show ?thesis unfolding sh by auto
    qed
  qed (use d t v in auto)
qed

lemma areas_ok_end:
  assumes ok: "areas_ok A T V" and v: "V v = Some y" and t: "T (ump_vm_private_data y) = Some t" "tracker_references t = 1"
    and x: "A (tracker_descriptor t) = Some x"
  shows "process_mapping_info x = v"
    "areas_ok (A(tracker_descriptor t := None)) (T(ump_vm_private_data y := None)) (V(v := None))"
proof -
  note d = areas_okD[OF ok]
  let ?p = "ump_vm_private_data y" and ?a = "tracker_descriptor t"
  have "card (showing V ?p) = 1" using d(6)[OF t(1)] t(2) by simp
  moreover have "v \<in> showing V ?p" using v by (auto simp: showing_def)
  ultimately have one: "showing V ?p = {v}" by (metis card_1_singletonE singletonD)
  show pv: "process_mapping_info x = v" using d(8)[OF t(1)] x one by auto
  show "areas_ok (A(?a := None)) (T(?p := None)) (V(v := None))"
    unfolding areas_ok_def
  proof (intro conjI allI impI)
    fix b z assume "(A(?a := None)) b = Some z"
    then have b: "b \<noteq> ?a" "A b = Some z" by (auto split: if_splits)
    from d(4)[OF b(2)] obtain y' t' where r: "V (process_mapping_info z) = Some y'" "T (ump_vm_private_data y') = Some t'"
      "tracker_descriptor t' = b" by blast
    have "ump_vm_private_data y' \<noteq> ?p" using r b(1) t(1) by auto
    moreover then have "process_mapping_info z \<noteq> v" using r(1) v by auto
    ultimately show "\<exists>y' t'. (V(v := None)) (process_mapping_info z) = Some y' \<and>
        (T(?p := None)) (ump_vm_private_data y') = Some t' \<and> tracker_descriptor t' = b" using r by auto
  next
    fix u z assume "(V(v := None)) u = Some z"
    then have u: "u \<noteq> v" "V u = Some z" by (auto split: if_splits)
    then have "ump_vm_private_data z \<noteq> ?p" using one by (auto simp: showing_def)
    then show "ump_vm_private_data z \<in> dom (T(?p := None))" using d(5)[OF u(2)] by auto
  next
    fix q r assume "(T(?p := None)) q = Some r"
    then have q: "q \<noteq> ?p" "T q = Some r" by (auto split: if_splits)
    have nv: "v \<notin> showing V q" using q(1) v by (auto simp: showing_def)
    then show "tracker_references r = int (card (showing (V(v := None)) q))" "tracker_references r < 2 ^ 31"
      using d(6)[OF q(2)] d(7)[OF q(2)] by (simp_all add: showing_simps(2))
    have "tracker_descriptor r \<noteq> ?a" using one_tracker[OF ok t(1) q(2)] q(1) by auto
    then show "\<exists>z. (A(?a := None)) (tracker_descriptor r) = Some z \<and> process_mapping_info z \<in> showing (V(v := None)) q"
      using d(8)[OF q(2)] nv by (auto simp: showing_simps(2))
  qed (use d in auto)
qed

text \<open>A copy of an area, one that is cut, and one that is closed while others show the mapping.\<close>

lemma areas_ok_copy:
  assumes ok: "areas_ok A T V" and v: "V v = Some y" and t: "T (ump_vm_private_data y) = Some t" "tracker_references t + 1 < 2 ^ 31"
    and u: "V u = None" "u \<noteq> 0" and y': "ump_vm_private_data y' = ump_vm_private_data y"
  shows "areas_ok A (T(ump_vm_private_data y \<mapsto> t\<lparr>tracker_references := tracker_references t + 1\<rparr>)) (V(u \<mapsto> y'))"
proof -
  note d = areas_okD[OF ok]
  let ?p = "ump_vm_private_data y" and ?t = "t\<lparr>tracker_references := tracker_references t + 1\<rparr>"
  have sh: "showing (V(u \<mapsto> y')) q = (if q = ?p then insert u (showing V q) else showing V q)" for q
    using showing_simps(1)[of V u y' q, OF u(1)] y' by auto
  have nu: "u \<notin> showing V q" for q using u(1) by (simp add: showing_def)
  show ?thesis
    unfolding areas_ok_def
  proof (intro conjI allI impI)
    fix a x assume "A a = Some x"
    from d(4)[OF this] obtain z r where r: "V (process_mapping_info x) = Some z" "T (ump_vm_private_data z) = Some r"
      "tracker_descriptor r = a" by blast
    then have "process_mapping_info x \<noteq> u" using u(1) by auto
    then show "\<exists>z r. (V(u \<mapsto> y')) (process_mapping_info x) = Some z \<and> (T(?p \<mapsto> ?t)) (ump_vm_private_data z) = Some r \<and>
        tracker_descriptor r = a" using r t(1) by (cases "ump_vm_private_data z = ?p") auto
  next
    fix q r assume r: "(T(?p \<mapsto> ?t)) q = Some r"
    show "tracker_references r = int (card (showing (V(u \<mapsto> y')) q))" "tracker_references r < 2 ^ 31"
      using r t d(6)[OF t(1)] d(6)[of q r] d(7)[of q r] nu showing_finite[OF d(1)] unfolding sh by (auto split: if_splits)
    have "\<exists>r'. T q = Some r' \<and> tracker_descriptor r = tracker_descriptor r'" using r t(1) by (auto split: if_splits)
    then obtain r' where r': "T q = Some r'" "tracker_descriptor r = tracker_descriptor r'" by blast
    show "\<exists>x. A (tracker_descriptor r) = Some x \<and> process_mapping_info x \<in> showing (V(u \<mapsto> y')) q"
      using d(8)[OF r'(1)] r'(2) unfolding sh by auto
  next
    fix v' z assume "(V(u \<mapsto> y')) v' = Some z"
    then show "ump_vm_private_data z \<in> dom (T(?p \<mapsto> ?t))" using d(5)[of v' z] y' by (auto split: if_splits)
  qed (use d u t in auto)
qed

lemma areas_ok_cut:
  assumes ok: "areas_ok A T V" and v: "V v = Some y" and y': "ump_vm_private_data y' = ump_vm_private_data y"
  shows "areas_ok A T (V(v \<mapsto> y'))"
proof -
  note d = areas_okD[OF ok]
  have sh: "showing (V(v \<mapsto> y')) q = showing V q" for q using showing_keep[of V v y y' q] v y' by simp
  have v0: "v \<noteq> 0" using v d(2) by auto
  show ?thesis
    unfolding areas_ok_def sh
  proof (intro conjI allI impI)
    fix a x assume "A a = Some x"
    from d(4)[OF this] show "\<exists>z r. (V(v \<mapsto> y')) (process_mapping_info x) = Some z \<and> T (ump_vm_private_data z) = Some r \<and>
        tracker_descriptor r = a" using v y' by (cases "process_mapping_info x = v") auto
  next
    fix u z assume "(V(v \<mapsto> y')) u = Some z"
    then show "ump_vm_private_data z \<in> dom T" using d(5)[OF v] d(5)[of u z] y' by (auto split: if_splits)
  qed (use d v0 in auto)
qed

lemma areas_ok_close:
  assumes ok: "areas_ok A T V" and v: "V v = Some y" and t: "T (ump_vm_private_data y) = Some t"
    and x: "A (tracker_descriptor t) = Some x" "process_mapping_info x \<noteq> v"
  shows "areas_ok A (T(ump_vm_private_data y \<mapsto> t\<lparr>tracker_references := tracker_references t - 1\<rparr>)) (V(v := None))"
proof -
  note d = areas_okD[OF ok]
  let ?p = "ump_vm_private_data y" and ?t = "t\<lparr>tracker_references := tracker_references t - 1\<rparr>"
  have vp: "v \<in> showing V q \<longleftrightarrow> q = ?p" for q using v by (auto simp: showing_def)
  have cd: "int (card (showing V ?p - {v})) = int (card (showing V ?p)) - 1"
  proof -
    have "Suc (card (showing V ?p - {v})) = card (showing V ?p)"
      by (rule card_Suc_Diff1) (use vp[of ?p] showing_finite[OF d(1), of ?p] in simp_all)
    then show ?thesis by simp
  qed
  have nv: "process_mapping_info z \<noteq> v" if z: "A a = Some z" for a z
  proof
    assume e: "process_mapping_info z = v"
    from d(4)[OF z] obtain r where "T ?p = Some r" "tracker_descriptor r = a" using e v by auto
    then show False using e t x z by simp
  qed
  show ?thesis
    unfolding areas_ok_def
  proof (intro conjI allI impI)
    fix a z assume z: "A a = Some z"
    from d(4)[OF z] obtain y' r where r: "V (process_mapping_info z) = Some y'" "T (ump_vm_private_data y') = Some r"
      "tracker_descriptor r = a" by blast
    then show "\<exists>y' r. (V(v := None)) (process_mapping_info z) = Some y' \<and> (T(?p \<mapsto> ?t)) (ump_vm_private_data y') = Some r \<and>
        tracker_descriptor r = a" using nv[OF z] t by (cases "ump_vm_private_data y' = ?p") auto
  next
    fix u z assume "(V(v := None)) u = Some z"
    then show "ump_vm_private_data z \<in> dom (T(?p \<mapsto> ?t))" using d(5)[of u z] by (auto split: if_splits)
  next
    fix q r assume r: "(T(?p \<mapsto> ?t)) q = Some r"
    show "tracker_references r = int (card (showing (V(v := None)) q))"
      using r d(6)[OF t] d(6)[of q r] cd vp[of q] unfolding showing_simps(2) by (auto split: if_splits)
    show "tracker_references r < 2 ^ 31"
      using r d(7)[OF t] d(7)[of q r] by (auto split: if_splits)
    have "\<exists>r'. T q = Some r' \<and> tracker_descriptor r = tracker_descriptor r'" using r t by (auto split: if_splits)
    then obtain r' where r': "T q = Some r'" "tracker_descriptor r = tracker_descriptor r'" by blast
    show "\<exists>x. A (tracker_descriptor r) = Some x \<and> process_mapping_info x \<in> showing (V(v := None)) q"
      using d(8)[OF r'(1)] r'(2) nv unfolding showing_simps(2) by auto
  qed (use d t in auto)
qed

subsection \<open>What areas show\<close>

lemma pages_ok_sub:
  assumes ok: "pages_ok M A T V"
    and sub: "\<And>v y t x. V' v = Some y \<Longrightarrow> T' (ump_vm_private_data y) = Some t \<Longrightarrow> A' (tracker_descriptor t) = Some x \<Longrightarrow>
      \<exists>v0 y0 t0. V v0 = Some y0 \<and> set (ump_vm_pages y) \<subseteq> set (ump_vm_pages y0) \<and>
        T (ump_vm_private_data y0) = Some t0 \<and> A (tracker_descriptor t0) = Some x"
  shows "pages_ok M A' T' V'"
  unfolding pages_ok_def
proof (intro allI impI ballI)
  fix v y t x m pg
  assume v: "V' v = Some y" "T' (ump_vm_private_data y) = Some t" "A' (tracker_descriptor t) = Some x"
    "M (handle x) = Some m" and pg: "pg \<in> set (ump_vm_pages y)"
  obtain v0 y0 t0 where "V v0 = Some y0" "set (ump_vm_pages y) \<subseteq> set (ump_vm_pages y0)"
    "T (ump_vm_private_data y0) = Some t0" "A (tracker_descriptor t0) = Some x"
    using sub[OF v(1-3)] by blast
  then show "page_of m pg" using ok v(4) pg unfolding pages_ok_def by blast
qed

lemma pages_ok_begin:
  assumes ok: "pages_ok M A T V" and ar: "areas_ok A T V" and a: "A a = None" and t: "T p = None"
    and y: "ump_vm_private_data y = p" and m: "M (handle x) = Some m" "\<forall>pg \<in> set (ump_vm_pages y). page_of m pg"
  shows "pages_ok M (A(a \<mapsto> x)) (T(p \<mapsto> \<lparr>tracker_references = k, tracker_descriptor = a\<rparr>)) (V(v \<mapsto> y))"
  unfolding pages_ok_def
proof (intro allI impI ballI)
  fix u z r x' m' pg
  assume u: "(V(v \<mapsto> y)) u = Some z" "(T(p \<mapsto> \<lparr>tracker_references = k, tracker_descriptor = a\<rparr>)) (ump_vm_private_data z) = Some r"
    "(A(a \<mapsto> x)) (tracker_descriptor r) = Some x'" "M (handle x') = Some m'" and pg: "pg \<in> set (ump_vm_pages z)"
  show "page_of m' pg"
  proof (cases "u = v")
    case True
    then have "z = y" "r = \<lparr>tracker_references = k, tracker_descriptor = a\<rparr>" using u(1,2) y by auto
    then have "x' = x" using u(3) by simp
    then show ?thesis using m u(4) pg \<open>z = y\<close> by simp
  next
    case False
    then have z: "V u = Some z" using u(1) by simp
    then have "ump_vm_private_data z \<noteq> p" using areas_okD(5)[OF ar] t by fastforce
    then have r: "T (ump_vm_private_data z) = Some r" using u(2) by simp
    then have "tracker_descriptor r \<noteq> a" using areas_okD(8)[OF ar r] a by auto
    then have "A (tracker_descriptor r) = Some x'" using u(3) by simp
    then show ?thesis using ok z r u(4) pg unfolding pages_ok_def by blast
  qed
qed

subsection \<open>Cookies\<close>

lemma sessions_ok_begin:
  assumes ok: "sessions_ok S A" and s: "S s = Some d" and a: "A a = None" "a \<noteq> 0"
    and c: "wf_mapping c" "map_contents c = (map_contents (cookies_map d))(k \<mapsto> a)" "map_contents (cookies_map d) k = None"
    and x: "ump_session x = s" "sint (ump_cookie x) = int k" "0 < k"
    and d': "cookies_map d' = c" "session_mappings_list d' = a # session_mappings_list d"
  shows "sessions_ok (S(s \<mapsto> d')) (A(a \<mapsto> x))"
proof -
  note sd = session_of[OF ok s]
  have na: "a \<notin> set (session_mappings_list d)" using sd(1) a(1) by (auto simp: session_ok_def)
  have nk: "\<not> (A b = Some z \<and> ump_session z = s \<and> sint (ump_cookie z) = int k)" for b z
    using sd(1) c(3) unfolding session_ok_def by (metis option.distinct(1))
  have "session_ok (A(a \<mapsto> x)) s d'"
    unfolding session_ok_def
  proof (intro conjI allI)
    show "set (session_mappings_list d') = {b. \<exists>z. (A(a \<mapsto> x)) b = Some z \<and> ump_session z = s}"
      using sd(1) x(1) a(1) d'(2) by (auto simp: session_ok_def)
    fix j b
    show "(map_contents (cookies_map d') j = Some b) = (\<exists>z. (A(a \<mapsto> x)) b = Some z \<and> ump_session z = s \<and> sint (ump_cookie z) = int j)"
    proof (cases "b = a")
      case True
      have "map_contents (cookies_map d) j \<noteq> Some a" using sd(1) a(1) by (auto simp: session_ok_def)
      then show ?thesis using True x c(2) d'(1) by auto
    next
      case False
      then show ?thesis using sd(1) c(2) d'(1) nk by (auto simp: session_ok_def)
    qed
  qed (use sd(1) na c(1) d' in \<open>simp_all add: session_ok_def\<close>)
  moreover have "session_ok (A(a \<mapsto> x)) r e" if "S r = Some e" "r \<noteq> s" for r e
    using session_of(1)[OF ok that(1)] that(2) x(1) a(1) unfolding session_ok_def by auto
  ultimately show ?thesis using ok s a(2) sd(2) x unfolding sessions_ok_def by auto
qed

lemma sessions_ok_end_mapping:
  assumes ok: "sessions_ok S A" and a: "A a = Some x" and s: "S (ump_session x) = Some d"
    and c: "wf_mapping c" "map_contents c = (map_contents (cookies_map d))(nat (sint (ump_cookie x)) := None)"
    and d': "cookies_map d' = c" "session_mappings_list d' = remove1 a (session_mappings_list d)"
  shows "sessions_ok (S(ump_session x \<mapsto> d')) (A(a := None))"
proof -
  let ?s = "ump_session x"
  note sd = session_of[OF ok s]
  have ck: "0 < sint (ump_cookie x)" using ok a by (auto simp: sessions_ok_def)
  have own: "map_contents (cookies_map d) (nat (sint (ump_cookie x))) = Some a"
    using sd(1) a ck by (auto simp: session_ok_def)
  have "session_ok (A(a := None)) ?s d'"
    unfolding session_ok_def
  proof (intro conjI allI)
    show "set (session_mappings_list d') = {b. \<exists>z. (A(a := None)) b = Some z \<and> ump_session z = ?s}"
      using sd(1) d'(2) unfolding session_ok_def by (auto simp: set_remove1_eq)
    fix j b
    show "(map_contents (cookies_map d') j = Some b) = (\<exists>z. (A(a := None)) b = Some z \<and> ump_session z = ?s \<and> sint (ump_cookie z) = int j)"
    proof (cases "b = a")
      case True
      have "j = nat (sint (ump_cookie x))" if "map_contents (cookies_map d) j = Some a"
        using sd(1) that a unfolding session_ok_def by fastforce
      then show ?thesis using True c(2) d'(1) by auto
    next
      case False
      have "j \<noteq> nat (sint (ump_cookie x))" if "map_contents (cookies_map d) j = Some b" using that own False by auto
      then show ?thesis using sd(1) False c(2) d'(1) by (auto simp: session_ok_def)
    qed
  qed (use sd(1) c(1) d' in \<open>simp_all add: session_ok_def\<close>)
  moreover have "session_ok (A(a := None)) r e" if "S r = Some e" "r \<noteq> ?s" for r e
    using session_of(1)[OF ok that(1)] that(2) a unfolding session_ok_def by auto
  ultimately show ?thesis using ok s sd(2) unfolding sessions_ok_def by auto
qed

subsection \<open>Mappings\<close>

text \<open>A mapping takes over a reference to its handle when it begins, and leaves one behind when it ends.\<close>

lemma parts_begin:
  assumes ok: "ump_parts n (add_mset (handle x) K) S A T V w" and s: "S s = Some d" and a: "A a = None" "a \<noteq> 0"
    and c: "wf_mapping c" "map_contents c = (map_contents (cookies_map d))(k \<mapsto> a)" "map_contents (cookies_map d) k = None"
    and x: "ump_session x = s" "sint (ump_cookie x) = int k" "0 < k" "process_mapping_info x = v"
    and t: "T p = None" "p \<noteq> 0" and v: "V v = None" "v \<noteq> 0" and y: "ump_vm_private_data y = p"
    and m: "mems w (handle x) = Some m" "\<forall>pg \<in> set (ump_vm_pages y). page_of m pg"
    and d': "cookies_map d' = c" "session_mappings_list d' = a # session_mappings_list d"
      "session_memory_list d' = session_memory_list d"
  shows "ump_parts n K (S(s \<mapsto> d')) (A(a \<mapsto> x))
    (T(p \<mapsto> \<lparr>tracker_references = 1, tracker_descriptor = a\<rparr>)) (V(v \<mapsto> y)) w"
proof -
  note h = ump_partsD[OF ok]
  have "session_refs (S(s \<mapsto> d')) = session_refs S" using session_refs_same[where S = S, OF h(5) s] d'(3) by simp
  moreover have "mapping_refs (A(a \<mapsto> x)) = add_mset (handle x) (mapping_refs A)"
    using map_sum_new[where M = A, OF h(6) a(1), of "\<lambda>d. {#handle d#}" x] by (simp add: mapping_refs_def)
  ultimately have "session_refs (S(s \<mapsto> d')) + mapping_refs (A(a \<mapsto> x)) + K = session_refs S + mapping_refs A + add_mset (handle x) K"
    by simp
  then have "handles_ok n (session_refs (S(s \<mapsto> d')) + mapping_refs (A(a \<mapsto> x)) + K) w" using h(1) by (simp only:)
  moreover have "sessions_ok (S(s \<mapsto> d')) (A(a \<mapsto> x))"
    by (rule sessions_ok_begin[OF h(2) s a c x(1-3) d'(1,2)])
  moreover have "areas_ok (A(a \<mapsto> x)) (T(p \<mapsto> \<lparr>tracker_references = 1, tracker_descriptor = a\<rparr>)) (V(v \<mapsto> y))"
    by (rule areas_ok_begin[OF h(3) a(1) t v x(4) y])
  moreover have "pages_ok (mems w) (A(a \<mapsto> x)) (T(p \<mapsto> \<lparr>tracker_references = 1, tracker_descriptor = a\<rparr>)) (V(v \<mapsto> y))"
    by (rule pages_ok_begin[OF h(4,3) a(1) t(1) y m])
  ultimately show ?thesis by (simp only: ump_parts_def simp_thms)
qed

lemma parts_end:
  assumes ok: "ump_parts n K S A T V w" and v: "V v = Some y" and t: "T (ump_vm_private_data y) = Some t" "tracker_references t = 1"
    and x: "A (tracker_descriptor t) = Some x" and s: "S (ump_session x) = Some d"
    and c: "wf_mapping c" "map_contents c = (map_contents (cookies_map d))(nat (sint (ump_cookie x)) := None)"
    and d': "cookies_map d' = c" "session_mappings_list d' = remove1 (tracker_descriptor t) (session_mappings_list d)"
      "session_memory_list d' = session_memory_list d"
  shows "ump_parts n (add_mset (handle x) K) (S(ump_session x \<mapsto> d')) (A(tracker_descriptor t := None))
    (T(ump_vm_private_data y := None)) (V(v := None)) w"
proof -
  note h = ump_partsD[OF ok]
  let ?a = "tracker_descriptor t" and ?s = "ump_session x" and ?p = "ump_vm_private_data y"
  have "session_refs (S(?s \<mapsto> d')) = session_refs S" using session_refs_same[where S = S, OF h(5) s] d'(3) by simp
  moreover have "add_mset (handle x) (mapping_refs (A(?a := None))) = mapping_refs A"
    using map_sum_at[where M = A, OF h(6) x, of "\<lambda>d. {#handle d#}"] by (simp add: mapping_refs_def)
  ultimately have "session_refs (S(?s \<mapsto> d')) + mapping_refs (A(?a := None)) + add_mset (handle x) K =
      session_refs S + mapping_refs A + K"
    by (metis add_mset_add_single union_assoc union_commute)
  then have "handles_ok n (session_refs (S(?s \<mapsto> d')) + mapping_refs (A(?a := None)) + add_mset (handle x) K) w"
    using h(1) by (simp only:)
  moreover have "sessions_ok (S(?s \<mapsto> d')) (A(?a := None))"
    by (rule sessions_ok_end_mapping[OF h(2) x s c d'(1,2)])
  moreover have ar: "areas_ok (A(?a := None)) (T(?p := None)) (V(v := None))"
    by (rule areas_ok_end[OF h(3) v t x])
  moreover have "pages_ok (mems w) (A(?a := None)) (T(?p := None)) (V(v := None))"
    by (rule pages_ok_sub[OF h(4)]) (auto split: if_splits)
  ultimately show ?thesis by (simp only: ump_parts_def simp_thms)
qed

text \<open>A new handle with one reference.\<close>

lemma parts_new_handle:
  assumes ok: "ump_parts n K S A T V w" and p: "mems w p = None"
    and new: "handles_ok n (add_mset p (session_refs S + mapping_refs A + K)) w'" and m: "mems w' = (mems w)(p \<mapsto> m)"
  shows "ump_parts n (add_mset p K) S A T V w'"
proof -
  note h = ump_partsD[OF ok]
  have "handle x \<noteq> p" if "A a = Some x" for a x using mapping_handle(2)[OF ok that] p by auto
  then have "pages_ok (mems w') A T V" unfolding m using pages_ok_new_handle[OF h(4)] by blast
  then show ?thesis using new h by (simp add: ump_parts_def)
qed

end
