(* ===== verification/Ump_Steps.thy ===== *)
theory Ump_Steps
  imports Ump_Areas
begin

text \<open>
  Every operation of the UMP driver, from a state that satisfies the invariant, returns and leads to such a
  state.
\<close>

subsection \<open>What the operating system promises\<close>

text \<open>What \<open>kmalloc\<close> returns is not null and not in use, and the pages are fresh.\<close>

definition env_ok :: "ump_env \<Rightarrow> ump_state \<Rightarrow> bool" where
  "env_ok env w \<longleftrightarrow> (\<forall>p. new_mem env = Some p \<longrightarrow> p \<noteq> 0 \<and> mems w p = None) \<and>
     (\<forall>p. new_allocation env = Some p \<longrightarrow> p \<noteq> 0 \<and> allocations w p = None) \<and>
     (\<forall>p. new_tracker env = Some p \<longrightarrow> p \<noteq> 0 \<and> trackers w p = None) \<and>
     (\<forall>p. new_session env = Some p \<longrightarrow> p \<noteq> 0 \<and> sessions w p = None) \<and>
     fresh_pages env (live_extents (mems w))"

text \<open>The number of references stays below \<open>2\<^sup>31\<close>.\<close>

definition few_references :: "ptr multiset \<Rightarrow> ump_state \<Rightarrow> bool" where
  "few_references K w \<longleftrightarrow> Suc (size (session_refs (sessions w) + mapping_refs (allocations w) + K)) < 2 ^ 31"

lemma ump_ok_user: "same_user w' w \<Longrightarrow> ump_ok n K w' = ump_parts n K (sessions w) (allocations w) (trackers w) (ump_vmas w) w'"
  by (simp add: ump_ok_def same_user_def)

lemma same_user_simps [simp]:
  "same_user w w" "same_user (w\<lparr>secure_id_map := ids\<rparr>) w = same_user w w" "same_user (set_mem p x w) w"
  "same_user (w\<lparr>secure_id_map := ids, backend := b, mems := M\<rparr>) w" "same_user (w\<lparr>backend := b\<rparr>) w"
  by (simp_all add: same_user_def)

lemma handles_ok_frame [simp]:
  "handles_ok n R (w\<lparr>sessions := S\<rparr>) = handles_ok n R w" "handles_ok n R (w\<lparr>allocations := A\<rparr>) = handles_ok n R w"
  "handles_ok n R (w\<lparr>trackers := T\<rparr>) = handles_ok n R w" "handles_ok n R (w\<lparr>ump_vmas := V\<rparr>) = handles_ok n R w"
  by (simp_all add: handles_ok_def)

lemma parts_frame [simp]:
  "ump_parts n K S A T V (w\<lparr>sessions := S'\<rparr>) = ump_parts n K S A T V w"
  "ump_parts n K S A T V (w\<lparr>allocations := A'\<rparr>) = ump_parts n K S A T V w"
  "ump_parts n K S A T V (w\<lparr>trackers := T'\<rparr>) = ump_parts n K S A T V w"
  "ump_parts n K S A T V (w\<lparr>ump_vmas := V'\<rparr>) = ump_parts n K S A T V w"
  by (simp_all add: ump_parts_def)

subsection \<open>References of other drivers\<close>

lemma add_step:
  assumes ok: "ump_ok n K w" and p: "p \<in> dom (mems w)" and f: "few_references K w"
  obtains w' where "ump_dd_reference_add p w = Some w'" "same_user w' w" "ump_ok n (add_mset p K) w'"
proof -
  obtain m where m: "mems w p = Some m" using p by auto
  obtain w' k where r: "ump_dd_reference_add p w = Some w'" "w' = set_mem p (Some (m\<lparr>ref_count := k\<rparr>)) w"
    "ump_parts n (add_mset p K) (sessions w) (allocations w) (trackers w) (ump_vmas w) w'"
    by (rule parts_add[OF ok[unfolded ump_ok_def] m f[unfolded few_references_def]])
  have s: "same_user w' w" using r(2) by simp
  show ?thesis by (rule that[OF r(1) s]) (use r(3) ump_ok_user[OF s] in simp)
qed

lemma release_step:
  assumes ok: "ump_ok n (add_mset p K) w"
  obtains w' n' where "ump_dd_reference_release env p w = Some w'" "same_user w' w" "ump_ok n' K w'"
    "n \<le> n'" "(\<forall>q. \<not> interrupted env q) \<longrightarrow> n' = n"
proof -
  obtain w' n' where r: "ump_dd_reference_release env p w = Some w'" "same_user w' w"
    "ump_parts n' K (sessions w) (allocations w) (trackers w) (ump_vmas w) w'" "n \<le> n'" "(\<forall>q. \<not> interrupted env q) \<longrightarrow> n' = n"
    by (rule parts_release'[OF ok[unfolded ump_ok_def], where env = env])
  show ?thesis by (rule that[OF r(1,2) _ r(4,5)]) (use r(3) ump_ok_user[OF r(2)] in simp_all)
qed

lemma lookup_step:
  assumes ok: "ump_ok n K w" and s: "sint sid \<noteq> 0" and f: "few_references K w"
  obtains (none) "ump_dd_handle_create_from_secure_id sid w = Some (UMP_DD_HANDLE_INVALID, w)"
  | (found) p m k w' where "mems w p = Some m" "secure_id m = sid" "p \<noteq> UMP_DD_HANDLE_INVALID"
    "ump_dd_handle_create_from_secure_id sid w = Some (p, w')" "w' = set_mem p (Some (m\<lparr>ref_count := k\<rparr>)) w"
    "same_user w' w" "ump_ok n (add_mset p K) w'"
proof (rule parts_lookup[OF ok[unfolded ump_ok_def] s f[unfolded few_references_def]])
  assume "ump_dd_handle_create_from_secure_id sid w = Some (UMP_DD_HANDLE_INVALID, w)"
  then show thesis by (rule none)
next
  fix p m k w'
  assume r: "mems w p = Some m" "secure_id m = sid" "p \<noteq> UMP_DD_HANDLE_INVALID"
    "ump_dd_handle_create_from_secure_id sid w = Some (p, w')" "w' = set_mem p (Some (m\<lparr>ref_count := k\<rparr>)) w"
    "ump_parts n (add_mset p K) (sessions w) (allocations w) (trackers w) (ump_vmas w) w'"
  have s: "same_user w' w" using r(5) by simp
  show thesis by (rule found[OF r(1-5) s]) (use r(6) ump_ok_user[OF s] in simp)
qed

lemma phys_blocks_step:
  assumes ok: "ump_ok n K w" and f: "few_references K w" and env: "env_ok env w"
  obtains p w' where "ump_dd_handle_create_from_phys_blocks env blocks w = Some (p, w')" "same_user w' w"
    "if p = UMP_DD_HANDLE_INVALID then ump_ok n K w' \<and> mems w' = mems w else ump_ok n (add_mset p K) w'"
proof -
  note h = ump_partsD[OF ok[unfolded ump_ok_def]]
  have new: "p \<noteq> 0 \<and> mems w p = None" if "new_mem env = Some p" for p using env that by (simp add: env_ok_def)
  let ?R = "session_refs (sessions w) + mapping_refs (allocations w) + K"
  obtain p w' where r: "ump_dd_handle_create_from_phys_blocks env blocks w = Some (p, w')"
    "if p = UMP_DD_HANDLE_INVALID then handles_ok n ?R w' \<and> mems w' = mems w
     else new_mem env = Some p \<and> handles_ok n (add_mset p ?R) w' \<and>
       (\<exists>m. mems w' = (mems w)(p \<mapsto> m) \<and> ref_count m = 1 \<and> block_array m = Some blocks \<and> is_cached m = False)"
    "ump_device.more w' = ump_device.more w"
    using create_from_phys_blocks_ok[OF h(1) f[unfolded few_references_def], where env = env and blocks = blocks] new by blast
  have s: "same_user w' w" using r(3) by (cases w; cases w'; simp add: same_user_def)
  show ?thesis
  proof (rule that[OF r(1) s])
    show "if p = UMP_DD_HANDLE_INVALID then ump_ok n K w' \<and> mems w' = mems w else ump_ok n (add_mset p K) w'"
    proof (cases "p = UMP_DD_HANDLE_INVALID")
      case True
      then show ?thesis using r(2) h ump_ok_user[OF s, of n K] by (simp add: ump_parts_def)
    next
      case False
      then obtain m where m: "new_mem env = Some p" "handles_ok n (add_mset p ?R) w'" "mems w' = (mems w)(p \<mapsto> m)" using r(2) by auto
      have "ump_parts n (add_mset p K) (sessions w) (allocations w) (trackers w) (ump_vmas w) w'"
        by (rule parts_new_handle[OF ok[unfolded ump_ok_def] _ m(2,3)]) (use new[OF m(1)] in simp)
      then show ?thesis using False ump_ok_user[OF s] by simp
    qed
  qed
qed

subsection \<open>Allocation\<close>

definition no_wrap :: "u32 \<Rightarrow> bool" where
  "no_wrap sz \<longleftrightarrow> unat sz \<le> 2 ^ 32 - 4096"

lemma align_ok:
  assumes "no_wrap sz" "sz \<noteq> 0"
  shows "UMP_SIZE_ALIGN sz \<noteq> 0" "4096 dvd unat (UMP_SIZE_ALIGN sz)" "unat sz \<le> unat (UMP_SIZE_ALIGN sz)"
proof -
  have u: "unat (UMP_SIZE_ALIGN sz) = 4096 * ((unat sz + 4095) div 4096)"
    using assms(1) size_align[of sz] by (simp add: no_wrap_def)
  have p: "0 < unat sz" using assms(2) by (simp add: unat_gt_0)
  show "4096 dvd unat (UMP_SIZE_ALIGN sz)" unfolding u by simp
  have "x \<le> 4096 * ((x + 4095) div 4096)" for x :: nat
    using mult_div_mod_eq[of 4096 "x + 4095"] mod_less_divisor[of 4096 "x + 4095"] by linarith
  then show le: "unat sz \<le> unat (UMP_SIZE_ALIGN sz)" by (simp only: u)
  show "UMP_SIZE_ALIGN sz \<noteq> 0"
  proof
    assume "UMP_SIZE_ALIGN sz = 0"
    then have "unat sz \<le> 0" using le by (simp only: unat_0)
    then show False using p by simp
  qed
qed

text \<open>Giving a fresh id back makes the table what it was.\<close>

lemma ids_ok_undo:
  assumes ok: "ids_ok ids M" and d: "0 < d" "wf_mapping ids'" "map_contents ids' = (map_contents ids)(nat d \<mapsto> p)"
    "map_contents ids (nat d) = None"
  obtains ids'' where "ump_descriptor_mapping_free ids' d = Done ids''" "ids_ok ids'' M"
  by (rule ump_free_undo[OF d]) (use ok that in \<open>simp add: ids_ok_def\<close>)

lemma allocate_step:
  assumes ok: "ump_ok n K w" and f: "few_references K w" and env: "env_ok env w"
    and s: "sessions w (allocate_ctx args) = Some d" and sz: "no_wrap (allocate_size args)"
  obtains err args' w' where "ump_ukk_allocate env args w = Some (err, args', w')" "ump_ok n K w'"
    "if err = osk_code ERR_OK
     then \<exists>p m. new_mem env = Some p \<and> mems w' = (mems w)(p \<mapsto> m) \<and> ref_count m = 1 \<and> release_func m = Backend_release \<and>
       allocate_secure_id args' = secure_id m \<and> allocate_size args' = size_bytes m \<and>
       max 1 (unat (allocate_size args)) \<le> unat (size_bytes m) \<and>
       w' = set_session (allocate_ctx args) (Some (d\<lparr>session_memory_list := p # session_memory_list d\<rparr>))
         (w\<lparr>secure_id_map := secure_id_map w', backend := backend w', mems := mems w'\<rparr>)
     else mems w' = mems w \<and> same_user w' w"
proof (cases "\<not> new_element env \<or> new_mem env = None")
  case True
  then show ?thesis using that[of "osk_code ERR_NOMEM" args w] ok
    by (cases "new_element env") (auto simp: ump_ukk_allocate_def)
next
  case False
  then obtain p where p: "new_element env" "new_mem env = Some p" by auto
  note h = ump_partsD[OF ok[unfolded ump_ok_def]] and hk = handles_okD[OF ump_partsD(1)[OF ok[unfolded ump_ok_def]]]
  let ?R = "session_refs (sessions w) + mapping_refs (allocations w) + K"
  have np: "p \<noteq> 0" "mems w p = None" using env p(2) by (simp_all add: env_ok_def)
  obtain i ids where i: "ump_descriptor_mapping_allocate_mapping (table_calloc env) (secure_id_map w) p = Done (i, ids)"
    "if i < 0 then ids = secure_id_map w
     else 0 < i \<and> (\<forall>m. sint (secure_id m) = i \<longrightarrow> ids_ok ids ((mems w)(p \<mapsto> m))) \<and> sint (word_of_int i :: u32) = i \<and> wf_mapping ids \<and>
       map_contents ids = (map_contents (secure_id_map w))(nat i \<mapsto> p) \<and> map_contents (secure_id_map w) (nat i) = None"
    by (rule ids_ok_allocate[OF hk(1) np(2)])
  show ?thesis
  proof (cases "i < 0")
    case True
    then show ?thesis using that[of "- osk_code ERR_INVALID_FUNC" args w] p i ok
      by (simp add: ump_ukk_allocate_def)
  next
    case pos: False
    then have ii: "0 < i" "\<forall>m. sint (secure_id m) = i \<longrightarrow> ids_ok ids ((mems w)(p \<mapsto> m))" "sint (word_of_int i :: u32) = i"
      "wf_mapping ids" "map_contents ids = (map_contents (secure_id_map w))(nat i \<mapsto> p)" "map_contents (secure_id_map w) (nat i) = None"
      using i(2) by auto
    let ?args = "if allocate_size args = 0 then args\<lparr>allocate_size := 1\<rparr> else args"
    let ?sz = "UMP_SIZE_ALIGN (allocate_size ?args)"
    have asz: "no_wrap (allocate_size ?args)" "allocate_size ?args \<noteq> 0" "unat (allocate_size ?args) = max 1 (unat (allocate_size args))"
      using sz by (auto simp: no_wrap_def max_def unat_eq_0[symmetric] le_Suc_eq)
    note al = align_ok[OF asz(1,2)]
    define m0 where "m0 = \<lparr>secure_id = word_of_int i, ref_count = 1, size_bytes = ?sz,
      nr_blocks = 0, block_array = None, release_func = Backend_release, backend_info = None,
      is_cached = (UMP_REF_DRV_UK_CONSTRAINT_USE_CACHE AND allocate_constraints ?args \<noteq> 0)\<rparr>"
    have fp: "fresh_pages env (live_extents (mems w))" using env by (simp add: env_ok_def)
    have m0: "size_bytes m0 \<noteq> 0" "4096 dvd unat (size_bytes m0)" using al by (simp_all add: m0_def)
    obtain r m b where r: "ump_backend_allocate env (interrupted env p) m0 (backend w) = Some (r, m, b)"
      "if r then same_handle m0 m \<and> unat (size_bytes m0) \<le> unat (size_bytes m) \<and>
         backend_ok n (add_mset (extent m) (live_extents (mems w))) b
       else backend_ok n (live_extents (mems w)) b"
      using backend.allocate_ok[OF hk(5) m0 fp, of "interrupted env p"] by blast
    show ?thesis
    proof (cases r)
      case True
      let ?w1 = "w\<lparr>secure_id_map := ids, backend := b, mems := (mems w)(p \<mapsto> m)\<rparr>"
      let ?d = "d\<lparr>session_memory_list := p # session_memory_list d\<rparr>"
      let ?w = "set_session (allocate_ctx args) (Some ?d) ?w1"
      have m: "secure_id m = word_of_int i" "ref_count m = 1" "release_func m = Backend_release"
        using r(2) True by (simp_all add: same_handle_def m0_def)
      have "handles_ok n (add_mset p ?R) ?w1"
        by (rule handles_ok_new[OF h(1) np(2,1) f[unfolded few_references_def]])
          (use ii m r(2) True np in \<open>simp_all add: handle_ok_def handle_extent_def\<close>)
      then have "ump_parts n (add_mset p K) (sessions w) (allocations w) (trackers w) (ump_vmas w) ?w1"
        using parts_new_handle[OF ok[unfolded ump_ok_def] np(2), of ?w1 m] by simp
      then have "ump_ok n K ?w" using parts_give[where S = "sessions w", OF _ s] by (simp add: ump_ok_def)
      moreover have "ump_ukk_allocate env args w =
          Some (osk_code ERR_OK, ?args\<lparr>allocate_secure_id := secure_id m, allocate_size := size_bytes m\<rparr>, ?w)"
        using p i(1) pos r(1) True s by (simp add: ump_ukk_allocate_def Let_def m0_def[symmetric])
      moreover have "max 1 (unat (allocate_size args)) \<le> unat (size_bytes m)"
        using r(2) True al(3) asz(3) by (simp add: m0_def)
      ultimately show ?thesis
        by (intro that[of "osk_code ERR_OK" "?args\<lparr>allocate_secure_id := secure_id m, allocate_size := size_bytes m\<rparr>" ?w])
          (simp_all only: if_True refl, intro exI[of _ p] exI[of _ m], use m p(2) in simp)
    next
      case False
      obtain ids' where u: "ump_descriptor_mapping_free ids i = Done ids'" "ids_ok ids' (mems w)"
        by (rule ids_ok_undo[OF hk(1) ii(1,4-6)])
      let ?w = "w\<lparr>secure_id_map := ids', backend := b\<rparr>"
      have "handles_ok n ?R ?w" using h(1) u(2) r(2) False by (simp add: handles_ok_def)
      then have "ump_ok n K ?w" using h by (simp add: ump_ok_def ump_parts_def)
      moreover have "ump_ukk_allocate env args w = Some (osk_code ERR_INVALID_FUNC, ?args, ?w)"
        using p i(1) pos r(1) False u(1) by (simp add: ump_ukk_allocate_def Let_def m0_def[symmetric])
      ultimately show ?thesis using that[of "osk_code ERR_INVALID_FUNC" ?args ?w] by (simp add: same_user_def)
    qed
  qed
qed

subsection \<open>Release\<close>

text \<open>The search finds the first element with the secure id.\<close>

lemma find_memory_ok:
  assumes "\<forall>p \<in> set ps. p \<in> dom (mems w)"
  shows "\<exists>r. find_session_memory sid ps w = Some r \<and>
    (case r of None \<Rightarrow> \<forall>p \<in> set ps. secure_id (the (mems w p)) \<noteq> sid
     | Some (xs, p, ys) \<Rightarrow> ps = xs @ p # ys \<and> secure_id (the (mems w p)) = sid \<and>
         (\<forall>q \<in> set xs. secure_id (the (mems w q)) \<noteq> sid))"
  using assms
proof (induction ps)
  case (Cons p ps)
  obtain m where m: "mems w p = Some m" using Cons.prems by auto
  obtain r where r: "find_session_memory sid ps w = Some r"
    "case r of None \<Rightarrow> \<forall>p \<in> set ps. secure_id (the (mems w p)) \<noteq> sid
     | Some (xs, p, ys) \<Rightarrow> ps = xs @ p # ys \<and> secure_id (the (mems w p)) = sid \<and>
         (\<forall>q \<in> set xs. secure_id (the (mems w q)) \<noteq> sid)" using Cons by auto
  show ?case
  proof (cases "secure_id m = sid")
    case True
    then show ?thesis using m by simp
  next
    case False
    then show ?thesis using m r by (cases r) auto
  qed
qed simp

lemma session_memory_live:
  assumes "ump_ok n K w" "sessions w s = Some d" "p \<in> set (session_memory_list d)"
  shows "p \<in> dom (mems w)"
proof -
  note h = ump_partsD[OF assms(1)[unfolded ump_ok_def]]
  have "p \<in># session_refs (sessions w)"
    unfolding session_refs_def by (rule map_sum_member[where M = "sessions w", OF h(5) assms(2)]) (use assms(3) in simp)
  then show ?thesis using handles_okD(3)[OF h(1)] by auto
qed

lemma ukk_release_step:
  assumes ok: "ump_ok n K w" and s: "sessions w s = Some d"
  obtains (none) "ump_ukk_release env s sid w = Some (osk_code ERR_INVALID_FUNC, w)"
      "\<forall>p \<in> set (session_memory_list d). secure_id (the (mems w p)) \<noteq> sid"
  | (found) xs p ys w' n' where "session_memory_list d = xs @ p # ys" "secure_id (the (mems w p)) = sid"
      "ump_ukk_release env s sid w = Some (osk_code ERR_OK, w')" "ump_ok n' K w'" "n \<le> n'" "(\<forall>q. \<not> interrupted env q) \<longrightarrow> n' = n"
      "same_user w' (set_session s (Some (d\<lparr>session_memory_list := xs @ ys\<rparr>)) w)"
proof -
  obtain r where r: "find_session_memory sid (session_memory_list d) w = Some r"
    "case r of None \<Rightarrow> \<forall>p \<in> set (session_memory_list d). secure_id (the (mems w p)) \<noteq> sid
     | Some (xs, p, ys) \<Rightarrow> session_memory_list d = xs @ p # ys \<and> secure_id (the (mems w p)) = sid \<and>
         (\<forall>q \<in> set xs. secure_id (the (mems w q)) \<noteq> sid)"
    using find_memory_ok[of "session_memory_list d" w sid] session_memory_live[OF ok s] by blast
  show ?thesis
  proof (cases r)
    case None
    then show ?thesis using none r s by (simp add: ump_ukk_release_def)
  next
    case (Some a)
    then obtain xs p ys where a: "r = Some (xs, p, ys)" by (cases a) auto
    then have l: "session_memory_list d = xs @ p # ys" "secure_id (the (mems w p)) = sid" using r(2) by simp_all
    let ?w = "set_session s (Some (d\<lparr>session_memory_list := xs @ ys\<rparr>)) w"
    have "ump_ok n (add_mset p K) ?w"
      using parts_take[where S = "sessions w", OF ok[unfolded ump_ok_def] s l(1)] by (simp add: ump_ok_def)
    then obtain w' n' where w': "ump_dd_reference_release env p ?w = Some w'" "same_user w' ?w" "ump_ok n' K w'" "n \<le> n'"
      "(\<forall>q. \<not> interrupted env q) \<longrightarrow> n' = n"
      by (rule release_step[where env = env])
    have "ump_ukk_release env s sid w = Some (osk_code ERR_OK, w')" using r(1) a s w'(1) by (simp add: ump_ukk_release_def)
    then show ?thesis by (rule found[OF l _ w'(3-5,2)])
  qed
qed

lemma size_get_step:
  assumes ok: "ump_ok n K w" and s: "sint sid \<noteq> 0"
  shows "ump_ukk_size_get sid w = Some (case map_contents (secure_id_map w) (nat (sint sid)) of
    Some p \<Rightarrow> (osk_code ERR_OK, size_bytes (the (mems w p))) | None \<Rightarrow> (osk_code ERR_FAULT, 0))"
proof -
  note hk = handles_okD[OF ump_partsD(1)[OF ok[unfolded ump_ok_def]]]
  have "mems w p \<noteq> None" if "map_contents (secure_id_map w) k = Some p" for k p
    using hk(1) that unfolding ids_ok_def by blast
  then have m: "\<exists>m. mems w p = Some m" if "map_contents (secure_id_map w) k = Some p" for k p using that by blast
  show ?thesis
  proof (cases "map_contents (secure_id_map w) (nat (sint sid))")
    case None
    then show ?thesis using ids_ok_lookup[OF hk(1) s] by (simp add: ump_ukk_size_get_def)
  next
    case (Some p)
    obtain x where "mems w p = Some x" using m[OF Some] by blast
    then show ?thesis using ids_ok_lookup[OF hk(1) s] Some by (simp add: ump_ukk_size_get_def)
  qed
qed

subsection \<open>Sessions\<close>

lemma cookies_create:
  assumes "returned (ump_descriptor_mapping_create ma c lo UMP_SECURE_ID_TABLE_ENTRIES_INITIAL UMP_SECURE_ID_TABLE_ENTRIES_MAXIMUM) = r"
  shows "r = Some None \<or> (\<exists>m. r = Some (Some m) \<and> wf_mapping m \<and> map_contents m = Map.empty)"
proof -
  have e: "ump_descriptor_mapping_create = mali_descriptor_mapping_create"
    by (intro ext) (simp add: ump_descriptor_mapping_create_def mali_descriptor_mapping_create_def
        fun_cong[OF fun_cong[OF ump_table_alloc_eq]] Let_def)
  show ?thesis
  proof (cases "ma \<and> c \<noteq> None \<and> lo")
    case True
    then obtain b where c: "c = Some b" "ma" "lo" by auto
    have "\<exists>m. mali_descriptor_mapping_create True (Some b) True 128 4096 = Done (Some m) \<and> wf_mapping m \<and> map_contents m = Map.empty"
      using create_spec[of 128 4096 b] by auto
    then show ?thesis using assms c
      by (auto simp: e UMP_SECURE_ID_TABLE_ENTRIES_INITIAL_def UMP_SECURE_ID_TABLE_ENTRIES_MAXIMUM_def)
  next
    case False
    then have "mali_descriptor_mapping_create ma c lo i x = Done None" for i x
      by (cases c; cases ma; cases lo) (simp_all add: mali_descriptor_mapping_create_def descriptor_table_alloc_def Let_def)
    then show ?thesis using assms by (auto simp: e)
  qed
qed

lemma open_step:
  assumes ok: "ump_ok n K w" and env: "env_ok env w"
  obtains err r w' where "ump_ukk_open env w = Some (err, r, w')" "ump_ok n K w'"
    "if err = osk_code ERR_OK then \<exists>s d. r = Some s \<and> new_session env = Some s \<and> w' = set_session s (Some d) w \<and>
       session_memory_list d = [] \<and> session_mappings_list d = [] \<and> map_contents (cookies_map d) = Map.empty
     else r = None \<and> w' = w"
proof (cases "new_session env = None \<or> \<not> new_lock env")
  case True
  then show ?thesis using that[of "osk_code ERR_NOMEM" None w] ok
    by (cases "new_session env") (auto simp: ump_ukk_open_def)
next
  case False
  then obtain s where s: "new_session env = Some s" "new_lock env" by auto
  then have ns: "sessions w s = None" "s \<noteq> 0" using env by (simp_all add: env_ok_def)
  from cookies_create[OF refl, of "new_mapping env" "table_calloc env" "map_lock env"]
  show ?thesis
  proof
    assume "returned (ump_descriptor_mapping_create (new_mapping env) (table_calloc env) (map_lock env)
      UMP_SECURE_ID_TABLE_ENTRIES_INITIAL UMP_SECURE_ID_TABLE_ENTRIES_MAXIMUM) = Some None"
    then show ?thesis using that[of "osk_code ERR_NOMEM" None w] ok s by (simp add: ump_ukk_open_def)
  next
    assume "\<exists>m. returned (ump_descriptor_mapping_create (new_mapping env) (table_calloc env) (map_lock env)
      UMP_SECURE_ID_TABLE_ENTRIES_INITIAL UMP_SECURE_ID_TABLE_ENTRIES_MAXIMUM) = Some (Some m) \<and> wf_mapping m \<and> map_contents m = Map.empty"
    then obtain c where c: "returned (ump_descriptor_mapping_create (new_mapping env) (table_calloc env) (map_lock env)
      UMP_SECURE_ID_TABLE_ENTRIES_INITIAL UMP_SECURE_ID_TABLE_ENTRIES_MAXIMUM) = Some (Some c)" "wf_mapping c" "map_contents c = Map.empty"
      by blast
    define d where "d = \<lparr>session_memory_list = [], session_mappings_list = [], api_version = MAKE_VERSION_ID 1, cookies_map = c\<rparr>"
    let ?w = "set_session s (Some d) w"
    have "ump_ukk_open env w = Some (osk_code ERR_OK, Some s, ?w)" using s c(1) by (simp add: ump_ukk_open_def d_def)
    moreover have "ump_ok n K ?w"
    proof -
      note h = ump_partsD[OF ok[unfolded ump_ok_def]]
      have "session_refs ((sessions w)(s \<mapsto> d)) = session_refs (sessions w)"
        unfolding session_refs_def using map_sum_new[where M = "sessions w", OF h(5) ns(1), of "mset \<circ> session_memory_list" d] by (simp add: d_def)
      moreover have "sessions_ok ((sessions w)(s \<mapsto> d)) (allocations w)"
        by (rule sessions_ok_new[OF h(2) ns]) (simp_all add: d_def c)
      ultimately show ?thesis using h by (simp add: ump_ok_def ump_parts_def)
    qed
    moreover have "session_memory_list d = [] \<and> session_mappings_list d = [] \<and> map_contents (cookies_map d) = Map.empty"
      by (simp add: d_def c)
    ultimately show ?thesis
      by (intro that[of "osk_code ERR_OK" "Some s" ?w]) (simp_all only: if_True refl, use s(1) in blast)
  qed
qed

lemma version_step:
  assumes ok: "ump_ok n K w" and s: "sessions w s = Some d"
  obtains r w' where "ump_uku_get_api_version s version w = Some (osk_code ERR_OK, r, w')" "ump_ok n K w'"
    "snd r \<longleftrightarrow> version = UMP_IOCTL_API_VERSION \<or> version = MAKE_VERSION_ID 1"
proof (cases "version = UMP_IOCTL_API_VERSION \<or> version = MAKE_VERSION_ID 1")
  case True
  let ?w = "set_session s (Some (d\<lparr>api_version := version\<rparr>)) w"
  note h = ump_partsD[OF ok[unfolded ump_ok_def]]
  have "session_refs ((sessions w)(s \<mapsto> d\<lparr>api_version := version\<rparr>)) = session_refs (sessions w)"
    using session_refs_same[where S = "sessions w", OF h(5) s] by simp
  moreover have "sessions_ok ((sessions w)(s \<mapsto> d\<lparr>api_version := version\<rparr>)) (allocations w)"
    by (rule sessions_ok_keep[OF h(2) s]) simp_all
  ultimately have "ump_ok n K ?w" using h by (simp add: ump_ok_def ump_parts_def)
  then show ?thesis using that[of "(version, True)" ?w] True s by (simp add: ump_uku_get_api_version_def)
next
  case False
  then show ?thesis using that[of "(UMP_IOCTL_API_VERSION, False)" w] ok s by (simp add: ump_uku_get_api_version_def)
qed

text \<open>A session ends when nothing is mapped in it any more; its references are given back one by one.\<close>

lemma release_all_step:
  assumes "ump_ok n K w" "sessions w s = Some d" "session_memory_list d = ps"
  shows "\<exists>w' n'. ump_release_all env s ps w = Some w' \<and> ump_ok n' K w' \<and> n \<le> n' \<and> ((\<forall>q. \<not> interrupted env q) \<longrightarrow> n' = n) \<and>
    same_user w' (set_session s (Some (d\<lparr>session_memory_list := []\<rparr>)) w)"
  using assms
proof (induction ps arbitrary: n w d)
  case Nil
  have "d\<lparr>session_memory_list := []\<rparr> = d" using Nil(3) by (cases d) simp
  then have "same_user w (set_session s (Some (d\<lparr>session_memory_list := []\<rparr>)) w)"
    using Nil(2) by (simp add: same_user_def fun_upd_idem)
  moreover have "ump_release_all env s [] w = Some w" by simp
  ultimately show ?case using Nil(1) by blast
next
  case (Cons p ps)
  let ?w = "set_session s (Some (d\<lparr>session_memory_list := ps\<rparr>)) w"
  have l: "session_memory_list d = [] @ p # ps" using Cons.prems(3) by simp
  have "ump_ok n (add_mset p K) ?w"
    using parts_take[where S = "sessions w", OF Cons.prems(1)[unfolded ump_ok_def] Cons.prems(2) l] by (simp add: ump_ok_def)
  then obtain w1 n1 where w1: "ump_dd_reference_release env p ?w = Some w1" "same_user w1 ?w" "ump_ok n1 K w1" "n \<le> n1"
    "(\<forall>q. \<not> interrupted env q) \<longrightarrow> n1 = n"
    by (rule release_step[where env = env])
  have s1: "sessions w1 s = Some (d\<lparr>session_memory_list := ps\<rparr>)" using w1(2) by (simp add: same_user_def)
  have l1: "session_memory_list (d\<lparr>session_memory_list := ps\<rparr>) = ps" by simp
  obtain w2 n2 where w2: "ump_release_all env s ps w1 = Some w2" "ump_ok n2 K w2" "n1 \<le> n2"
    "(\<forall>q. \<not> interrupted env q) \<longrightarrow> n2 = n1"
    "same_user w2 (set_session s (Some (d\<lparr>session_memory_list := ps, session_memory_list := []\<rparr>)) w1)"
    using Cons.IH[OF w1(3) s1 l1] by (elim exE conjE) (rule that)
  have "same_user w2 (set_session s (Some (d\<lparr>session_memory_list := []\<rparr>)) w)"
    using w2(5) w1(2) by (simp add: same_user_def)
  moreover have "ump_release_all env s (p # ps) w = Some w2" using Cons.prems(2) w1(1) w2(1) by simp
  moreover have "n \<le> n2" "(\<forall>q. \<not> interrupted env q) \<longrightarrow> n2 = n" using w1(4,5) w2(3,4) by simp_all
  ultimately show ?case using w2(2) by blast
qed

lemma close_step:
  assumes ok: "ump_ok n K w" and s: "sessions w s = Some d" and no: "session_mappings_list d = []"
  obtains w' n' where "ump_ukk_close env s w = Some (osk_code ERR_OK, w')" "ump_ok n' K w'" "n \<le> n'"
    "(\<forall>q. \<not> interrupted env q) \<longrightarrow> n' = n" "same_user w' (set_session s None w)"
proof -
  obtain w1 n1 where w1: "ump_release_all env s (session_memory_list d) w = Some w1" "ump_ok n1 K w1" "n \<le> n1"
    "(\<forall>q. \<not> interrupted env q) \<longrightarrow> n1 = n" "same_user w1 (set_session s (Some (d\<lparr>session_memory_list := []\<rparr>)) w)"
    using release_all_step[OF ok s refl, of env] by blast
  note h = ump_partsD[OF w1(2)[unfolded ump_ok_def]]
  have s1: "sessions w1 s = Some (d\<lparr>session_memory_list := []\<rparr>)" using w1(5) by (simp add: same_user_def)
  have s0: "s \<noteq> 0" by (rule session_of(2)[OF h(2) s1])
  let ?w = "set_session s None w1"
  have "ump_ukk_close env s w = Some (osk_code ERR_OK, ?w)" using s no w1(1) s0 by (simp add: ump_ukk_close_def)
  moreover have "ump_ok n1 K ?w"
  proof -
    have "session_refs ((sessions w1)(s := None)) = session_refs (sessions w1)"
      unfolding session_refs_def using map_sum_at[where M = "sessions w1", OF h(5) s1, of "mset \<circ> session_memory_list"] by simp
    moreover have "sessions_ok ((sessions w1)(s := None)) (allocations w1)"
    proof (rule sessions_ok_end[OF h(2)])
      show "\<forall>a x. allocations w1 a = Some x \<longrightarrow> ump_session x \<noteq> s"
        using session_of(1)[OF h(2) s1] no by (auto simp: session_ok_def)
    qed
    ultimately show ?thesis using h by (simp add: ump_ok_def ump_parts_def)
  qed
  moreover have "same_user ?w (set_session s None w)" using w1(5) by (simp add: same_user_def)
  ultimately show ?thesis using that[of ?w n1] w1(3,4) by simp
qed

end
