(* ===== verification/Ump_Mapping.thy ===== *)
theory Ump_Mapping
  imports Ump_Steps
begin

text \<open>
  Mapping memory into a process and the end of a mapping keep the invariant.  The area is not part of the
  invariant before its mapping has succeeded and after its close.
\<close>

subsection \<open>The pieces of a mapping\<close>

fun pieces :: "u32 \<Rightarrow> u32 \<Rightarrow> u32 \<Rightarrow> ump_dd_physical_block list \<Rightarrow> (u32 \<times> u32 \<times> u32) list" where
  "pieces base offset left [] = []"
| "pieces base offset left (b # bs) =
     (let sz = (if block_size b < left then block_size b else left)
      in (base + offset, page_base (block_addr b), sz) # pieces base (offset + sz) (left - sz) bs)"

lemma pieces_of_blocks:
  assumes "pg \<in> set (pieces base offset left bs)"
  shows "\<exists>b \<in> set bs. fst (snd pg) = page_base (block_addr b) \<and> snd (snd pg) \<le> block_size b"
  using assms by (induction bs arbitrary: offset left) (fastforce simp: Let_def split: if_splits)+

definition with_pages :: "ump_vma \<Rightarrow> (u32 \<times> u32 \<times> u32) list \<Rightarrow> ump_vma" where
  "with_pages y ps = y\<lparr>ump_vm_pages := ump_vm_pages y @ ps\<rparr>"

lemma with_pages_simps [simp]:
  "with_pages y [] = y" "with_pages (with_pages y ps) qs = with_pages y (ps @ qs)"
  "ump_vm_pages (with_pages y ps) = ump_vm_pages y @ ps" "ump_vm_private_data (with_pages y ps) = ump_vm_private_data y"
  "ump_vm_start (with_pages y ps) = ump_vm_start y"
  by (simp_all add: with_pages_def)

text \<open>The loop adds pieces of the blocks, and all of them when it succeeds.\<close>

lemma map_blocks_ok:
  assumes "allocations w a = Some d" "process_mapping_info d = v" "v \<noteq> 0" "ump_vmas w v = Some y"
  shows "\<exists>ok ps. ump_map_blocks env a i offset left bs w = Some (ok, set_ump_vma v (Some (with_pages y ps)) w) \<and>
    set ps \<subseteq> set (pieces (ump_mapping d) offset left bs) \<and> (ok \<longrightarrow> ps = pieces (ump_mapping d) offset left bs)"
  using assms
proof (induction bs arbitrary: i offset left w y)
  case Nil
  have e: "set_ump_vma v (Some (with_pages y [])) w = w" using Nil(4) by (cases w) (simp add: fun_upd_idem)
  have "ump_map_blocks env a i offset left [] w = Some (True, set_ump_vma v (Some (with_pages y [])) w)"
    by (simp only: e ump_map_blocks.simps)
  then show ?case by (metis empty_set order_refl pieces.simps(1))
next
  case (Cons b bs)
  let ?sz = "if block_size b < left then block_size b else left"
  show ?case
  proof (cases "remap env i")
    case False
    have e: "set_ump_vma v (Some (with_pages y [])) w = w" using Cons.prems(4) by (cases w) (simp add: fun_upd_idem)
    have "ump_map_blocks env a i offset left (b # bs) w = Some (False, w)"
      using False Cons.prems by (simp add: ump_osk_mem_mapregion_map_def Let_def)
    then have "ump_map_blocks env a i offset left (b # bs) w = Some (False, set_ump_vma v (Some (with_pages y [])) w)"
      by (simp only: e)
    then show ?thesis by (metis empty_set empty_subsetI)
  next
    case True
    let ?pg = "(ump_mapping d + offset, page_base (block_addr b), ?sz)"
    let ?w = "set_ump_vma v (Some (with_pages y [?pg])) w"
    have st: "ump_osk_mem_mapregion_map (remap env i) a offset (block_addr b) ?sz w = Some (True, ?w)"
      using True Cons.prems by (simp add: ump_osk_mem_mapregion_map_def with_pages_def)
    have "\<exists>ok ps. ump_map_blocks env a (Suc i) (offset + ?sz) (left - ?sz) bs ?w =
        Some (ok, set_ump_vma v (Some (with_pages (with_pages y [?pg]) ps)) ?w) \<and>
      set ps \<subseteq> set (pieces (ump_mapping d) (offset + ?sz) (left - ?sz) bs) \<and>
      (ok \<longrightarrow> ps = pieces (ump_mapping d) (offset + ?sz) (left - ?sz) bs)"
      by (rule Cons.IH) (use Cons.prems in simp_all)
    then obtain ok ps where r: "ump_map_blocks env a (Suc i) (offset + ?sz) (left - ?sz) bs ?w =
        Some (ok, set_ump_vma v (Some (with_pages (with_pages y [?pg]) ps)) ?w)"
      "set ps \<subseteq> set (pieces (ump_mapping d) (offset + ?sz) (left - ?sz) bs)"
      "ok \<longrightarrow> ps = pieces (ump_mapping d) (offset + ?sz) (left - ?sz) bs" by blast
    have "ump_map_blocks env a i offset left (b # bs) w = Some (ok, set_ump_vma v (Some (with_pages y (?pg # ps))) w)"
      using st r(1) by (simp add: Let_def)
    moreover have "set (?pg # ps) \<subseteq> set (pieces (ump_mapping d) offset left (b # bs)) \<and>
        (ok \<longrightarrow> ?pg # ps = pieces (ump_mapping d) offset left (b # bs))"
      using r(2,3) by (auto simp: Let_def)
    ultimately show ?thesis by blast
  qed
qed

lemma live_extent_member:
  assumes "finite (dom M)" "M p = Some m" "release_func m = Backend_release"
  shows "extent m \<in># live_extents M"
  unfolding live_extents_def by (rule map_sum_member[where M = M, OF assms(1,2)]) (simp add: handle_extent_def assms(3))

text \<open>The array of a live handle has all its blocks.\<close>

lemma handle_blocks:
  assumes "handles_ok n R w" "mems w p = Some m"
  shows "nr_block_list m = Some (array_blocks (block_array m)) \<or>
    (\<exists>bs. nr_block_list m = Some (take (unat (nr_blocks m)) bs) \<and> block_array m = Some bs \<and> release_func m = Phys_blocks_release)"
proof (cases "release_func m")
  case Backend_release
  have "extent_wf (extent m)"
    by (rule backend.extents_wf[OF handles_okD(5)[OF assms(1)] live_extent_member[OF handles_okD(2)[OF assms(1)] assms(2) Backend_release]])
  then show ?thesis by (auto simp: extent_def nr_block_list_def)
next
  case Phys_blocks_release
  then obtain bs where bs: "block_array m = Some bs" "of_nat (length bs) = nr_blocks m" using handle_okD(5)[OF assms] by auto
  have "unat (nr_blocks m) \<le> length bs" unfolding bs(2)[symmetric] by (simp add: unsigned_of_nat take_bit_eq_mod)
  then show ?thesis using bs(1) Phys_blocks_release by (simp add: nr_block_list_def)
qed

lemma handle_blocks':
  assumes "handles_ok n R w" "mems w p = Some m"
  obtains bs where "nr_block_list m = Some bs" "set bs \<subseteq> set (array_blocks (block_array m))"
  using handle_blocks[OF assms] set_take_subset by fastforce

subsection \<open>A new mapping\<close>

lemma sessions_ok_cookies:
  assumes ok: "sessions_ok S A" and s: "S s = Some d" and c: "wf_mapping c" "map_contents c = map_contents (cookies_map d)"
  shows "sessions_ok (S(s \<mapsto> d\<lparr>cookies_map := c\<rparr>)) A"
proof -
  have "session_ok A s (d\<lparr>cookies_map := c\<rparr>)" using session_of(1)[OF ok s] c by (simp add: session_ok_def)
  then show ?thesis using ok s session_of(2)[OF ok s] unfolding sessions_ok_def by auto
qed

lemma parts_cookies:
  assumes ok: "ump_parts n K S A T V w" and s: "S s = Some d" and c: "wf_mapping c" "map_contents c = map_contents (cookies_map d)"
  shows "ump_parts n K (S(s \<mapsto> d\<lparr>cookies_map := c\<rparr>)) A T V w"
proof -
  note h = ump_partsD[OF ok]
  have "session_refs (S(s \<mapsto> d\<lparr>cookies_map := c\<rparr>)) = session_refs S" using session_refs_same[where S = S, OF h(5) s] by simp
  then show ?thesis using h sessions_ok_cookies[OF h(2) s c] by (simp add: ump_parts_def)
qed

text \<open>
  The state is as in the invariant but for the area \<open>v\<close>.  A failure leaves all but the area, the second
  lookup of which no longer matters, and the table of cookies as they were.
\<close>

definition mapped_ok :: "nat \<Rightarrow> ptr multiset \<Rightarrow> ptr \<Rightarrow> ump_state \<Rightarrow> bool" where
  "mapped_ok n K v w \<longleftrightarrow> ump_parts n K (sessions w) (allocations w) (trackers w) ((ump_vmas w)(v := None)) w"

lemma mapped_ok_close: "mapped_ok n K v w = ump_ok n K (set_ump_vma v None w)"
  by (simp add: mapped_ok_def ump_ok_def)

text \<open>What a mapping that succeeded looks like.\<close>

definition is_mapped :: "ptr \<Rightarrow> ptr \<Rightarrow> u32 \<Rightarrow> u32 \<Rightarrow> ump_vma \<Rightarrow> ump_state \<Rightarrow> bool" where
  "is_mapped s v sid sz y w \<longleftrightarrow> (\<exists>a x m y' bs. allocations w a = Some x \<and> ump_session x = s \<and> process_mapping_info x = v \<and>
     mems w (handle x) = Some m \<and> secure_id m = sid \<and> size_bytes m = sz \<and> ump_is_cached x = is_cached m \<and>
     ump_vmas w v = Some y' \<and> nr_block_list m = Some bs \<and>
     ump_vm_pages y' = ump_vm_pages y @ pieces (ump_vm_start y) 0 sz bs)"

text \<open>A reference is given back while the area is there.\<close>

lemma mapped_release:
  assumes ok: "mapped_ok n (add_mset p K) v w"
  obtains w' n' where "ump_dd_reference_release env p w = Some w'" "same_user w' w" "mapped_ok n' K v w'"
    "n \<le> n'" "(\<forall>q. \<not> interrupted env q) \<longrightarrow> n' = n"
proof -
  obtain w' n' where r: "ump_dd_reference_release env p w = Some w'" "same_user w' w"
    "ump_parts n' K (sessions w) (allocations w) (trackers w) ((ump_vmas w)(v := None)) w'" "n \<le> n'"
    "(\<forall>q. \<not> interrupted env q) \<longrightarrow> n' = n"
    by (rule parts_release'[OF ok[unfolded mapped_ok_def], where env = env])
  have "mapped_ok n' K v w'" using r(2,3) by (simp add: mapped_ok_def same_user_def)
  then show ?thesis using that r by blast
qed

lemma mapped_okI:
  assumes "ump_parts n K S A T V w" "sessions w' = S" "allocations w' = A" "trackers w' = T" "(ump_vmas w')(v := None) = V"
    "secure_id_map w' = secure_id_map w" "backend w' = backend w" "mems w' = mems w"
  shows "mapped_ok n K v w'"
  using assms by (simp add: mapped_ok_def ump_parts_def handles_ok_def)

lemma ump_okI:
  assumes "ump_parts n K S A T V w" "sessions w' = S" "allocations w' = A" "trackers w' = T" "ump_vmas w' = V"
    "secure_id_map w' = secure_id_map w" "backend w' = backend w" "mems w' = mems w"
  shows "ump_ok n K w'"
  using assms by (simp add: ump_ok_def ump_parts_def handles_ok_def)

lemma free_cookie_ok:
  assumes "sessions w s = Some d" "ump_descriptor_mapping_free (cookies_map d) i = Done c"
  shows "free_cookie s i w = Some (set_session s (Some (d\<lparr>cookies_map := c\<rparr>)) w)"
  using assms by (simp add: free_cookie_def)

text \<open>The second half: the cookie is there.\<close>

lemma map_region_step:
  assumes ok: "mapped_ok n (add_mset h K) v w" and y: "ump_vmas w v = Some y" "v \<noteq> 0" and e: "ump_vm_pages y = []"
    and s: "sessions w s = Some d" and h: "mems w h = Some m"
    and a: "a \<noteq> 0" "allocations w a = None" and t: "\<And>t. new_tracker env = Some t \<Longrightarrow> t \<noteq> 0 \<and> trackers w t = None"
    and c: "0 < i" "sint (word_of_int i :: u32) = i" "wf_mapping c" "map_contents c = (map_contents (cookies_map d))(nat i \<mapsto> a)"
      "map_contents (cookies_map d) (nat i) = None"
    and x: "x = \<lparr>ump_phys_addr = ph, ump_mapping = 0, ump_size = sz, handle = h, process_mapping_info = v,
      ump_cookie = word_of_int i, ump_session = s, ump_is_cached = is_cached m\<rparr>"
  defines "w1 \<equiv> set_allocation a (Some x) (set_session s (Some (d\<lparr>cookies_map := c\<rparr>)) w)"
  obtains (no_tracker) w' n' where "ump_osk_mem_mapregion_init env a w1 = Some (1, w1)"
      "(do { w \<leftarrow> free_cookie s i w1; ump_dd_reference_release env h (set_allocation a None w) }) = Some w'"
      "mapped_ok n' K v w'" "n \<le> n'" "(\<forall>q. \<not> interrupted env q) \<longrightarrow> n' = n"
  | (not_mapped) w2 w3 bs w' n' where "ump_osk_mem_mapregion_init env a w1 = Some (0, w2)" "nr_block_list m = Some bs"
      "ump_map_blocks env a 0 0 sz bs w2 = Some (False, w3)"
      "(do { w \<leftarrow> free_cookie s i w3; w \<leftarrow> ump_dd_reference_release env h w; w \<leftarrow> ump_osk_mem_mapregion_term a w;
         Some (set_allocation a None w) }) = Some w'"
      "mapped_ok n' K v w'" "n \<le> n'" "(\<forall>q. \<not> interrupted env q) \<longrightarrow> n' = n"
  | (mapped) w2 w3 bs x' where "ump_osk_mem_mapregion_init env a w1 = Some (0, w2)" "nr_block_list m = Some bs"
      "ump_map_blocks env a 0 0 sz bs w2 = Some (True, w3)"
      "sessions w3 s = Some (d\<lparr>cookies_map := c\<rparr>)" "allocations w3 a = Some x'" "x' = x\<lparr>ump_mapping := ump_vm_start y\<rparr>"
      "ump_ok n K (set_session s (Some (d\<lparr>cookies_map := c, session_mappings_list := a # session_mappings_list d\<rparr>)) w3)"
      "mems w3 = mems w" "\<exists>y'. ump_vmas w3 v = Some y' \<and> ump_vm_pages y' = ump_vm_pages y @ pieces (ump_vm_start y) 0 sz bs"
proof -
  let ?S = "sessions w" and ?A = "allocations w" and ?T = "trackers w" and ?V = "(ump_vmas w)(v := None)"
  note p = ok[unfolded mapped_ok_def] and hp = ump_partsD[OF ok[unfolded mapped_ok_def]]
  let ?d = "d\<lparr>cookies_map := c\<rparr>"
  obtain c' where c': "ump_descriptor_mapping_free c i = Done c'" "wf_mapping c'" "map_contents c' = map_contents (cookies_map d)"
    by (rule ump_free_undo[OF c(1,3,4,5)])
  let ?S' = "?S(s \<mapsto> d\<lparr>cookies_map := c'\<rparr>)"
  have q: "ump_parts n (add_mset h K) ?S' ?A ?T ?V w" by (rule parts_cookies[where S = ?S, OF p s c'(2,3)])
  have w1: "sessions w1 = ?S(s \<mapsto> ?d)" "allocations w1 = ?A(a \<mapsto> x)" "trackers w1 = ?T" "ump_vmas w1 = ump_vmas w"
    "secure_id_map w1 = secure_id_map w" "backend w1 = backend w" "mems w1 = mems w" by (simp_all add: w1_def)
  show ?thesis
  proof (cases "new_tracker env")
    case None
    have i1: "ump_osk_mem_mapregion_init env a w1 = Some (1, w1)" using None by (simp add: ump_osk_mem_mapregion_init_def)
    let ?w = "set_allocation a None (set_session s (Some (?d\<lparr>cookies_map := c'\<rparr>)) w1)"
    have f: "free_cookie s i w1 = Some (set_session s (Some (?d\<lparr>cookies_map := c'\<rparr>)) w1)"
      by (rule free_cookie_ok) (use w1 c'(1) in simp_all)
    have "mapped_ok n (add_mset h K) v ?w"
      by (rule mapped_okI[OF q]) (use w1 a(2) in \<open>simp_all add: fun_upd_idem\<close>)
    then obtain w' n' where "ump_dd_reference_release env h ?w = Some w'" "mapped_ok n' K v w'" "n \<le> n'"
      "(\<forall>q. \<not> interrupted env q) \<longrightarrow> n' = n"
      by (rule mapped_release[where env = env])
    then show ?thesis using no_tracker[OF i1] f by simp
  next
    case (Some tr)
    note tt = t[OF Some]
    define y1 where "y1 = y\<lparr>ump_vm_private_data := tr, ump_vm_writecombine := (\<not> is_cached m \<or> ump_vm_writecombine y)\<rparr>"
    define x1 where "x1 = x\<lparr>ump_mapping := ump_vm_start y\<rparr>"
    define w2 where "w2 = set_tracker tr (Some \<lparr>tracker_references = 1, tracker_descriptor = a\<rparr>)
      (set_allocation a (Some x1) (set_ump_vma v (Some y1) w1))"
    have i2: "ump_osk_mem_mapregion_init env a w1 = Some (0, w2)"
      using Some w1 y x by (simp add: ump_osk_mem_mapregion_init_def w2_def y1_def x1_def)
    have w2: "sessions w2 = ?S(s \<mapsto> ?d)" "allocations w2 = ?A(a \<mapsto> x1)"
      "trackers w2 = ?T(tr \<mapsto> \<lparr>tracker_references = 1, tracker_descriptor = a\<rparr>)" "ump_vmas w2 = (ump_vmas w)(v \<mapsto> y1)"
      "secure_id_map w2 = secure_id_map w" "backend w2 = backend w" "mems w2 = mems w" by (simp_all add: w2_def w1)
    obtain bs where bs: "nr_block_list m = Some bs" "set bs \<subseteq> set (array_blocks (block_array m))"
      by (rule handle_blocks'[OF hp(1) h])
    have x1: "process_mapping_info x1 = v" "ump_mapping x1 = ump_vm_start y" "handle x1 = h" "ump_session x1 = s"
      "sint (ump_cookie x1) = int (nat i)" using c(1,2) by (simp_all add: x1_def x)
    have mb: "allocations w2 a = Some x1" "ump_vmas w2 v = Some y1" using w2 by simp_all
    obtain r ps where r: "ump_map_blocks env a 0 0 sz bs w2 = Some (r, set_ump_vma v (Some (with_pages y1 ps)) w2)"
      "set ps \<subseteq> set (pieces (ump_vm_start y) 0 sz bs)" "r \<longrightarrow> ps = pieces (ump_vm_start y) 0 sz bs"
      using map_blocks_ok[OF mb(1) x1(1) y(2) mb(2), of env 0 0 sz bs] x1(2) by auto
    define w3 where "w3 = set_ump_vma v (Some (with_pages y1 ps)) w2"
    have w3: "sessions w3 = ?S(s \<mapsto> ?d)" "allocations w3 = ?A(a \<mapsto> x1)"
      "trackers w3 = ?T(tr \<mapsto> \<lparr>tracker_references = 1, tracker_descriptor = a\<rparr>)" "ump_vmas w3 = ?V(v \<mapsto> with_pages y1 ps)"
      "secure_id_map w3 = secure_id_map w" "backend w3 = backend w" "mems w3 = mems w" by (simp_all add: w3_def w2)
    note r' = r(1)[folded w3_def]
    show ?thesis
    proof (cases r)
      case False
      have f: "free_cookie s i w3 = Some (set_session s (Some (?d\<lparr>cookies_map := c'\<rparr>)) w3)"
        by (rule free_cookie_ok) (use w3 c'(1) in simp_all)
      let ?w = "set_session s (Some (?d\<lparr>cookies_map := c'\<rparr>)) w3"
      have "ump_parts n (add_mset h K) ?S' ?A ?T ?V ?w" using q w3(5-7) by (simp add: ump_parts_def handles_ok_def)
      then obtain w4 n' where w4: "ump_dd_reference_release env h ?w = Some w4" "same_user w4 ?w"
        "ump_parts n' K ?S' ?A ?T ?V w4" "n \<le> n'" "(\<forall>q. \<not> interrupted env q) \<longrightarrow> n' = n"
        by (rule parts_release'[where env = env])
      have u4: "sessions w4 = ?S'" "allocations w4 = ?A(a \<mapsto> x1)"
        "trackers w4 = ?T(tr \<mapsto> \<lparr>tracker_references = 1, tracker_descriptor = a\<rparr>)" "ump_vmas w4 = ?V(v \<mapsto> with_pages y1 ps)"
        using w4(2) w3 by (simp_all add: same_user_def)
      have tm: "ump_osk_mem_mapregion_term a w4 = Some (set_tracker tr None w4)"
        using u4 x1(1) tt by (simp add: ump_osk_mem_mapregion_term_def y1_def)
      have "mapped_ok n' K v (set_allocation a None (set_tracker tr None w4))"
        by (rule mapped_okI[OF w4(3)]) (use u4 a(2) tt in \<open>simp_all add: fun_upd_idem\<close>)
      then show ?thesis using not_mapped[OF i2 bs(1)] r' False f w4(1,4,5) tm by simp
    next
      case True
      let ?d' = "d\<lparr>cookies_map := c, session_mappings_list := a # session_mappings_list d\<rparr>" and ?y = "with_pages y1 ps"
      have all: "ps = pieces (ump_vm_start y) 0 sz bs" using r(3) True by blast
      have vp: "ump_vm_pages ?y = ps" using e by (simp add: y1_def)
      have pg: "\<forall>pg \<in> set (ump_vm_pages ?y). page_of m pg"
        unfolding vp using r(2) bs(2) pieces_of_blocks by (fastforce simp: page_of_def)
      have k: "0 < nat i" using c(1) by simp
      have "ump_parts n K (?S(s \<mapsto> ?d')) (?A(a \<mapsto> x1))
          (?T(tr \<mapsto> \<lparr>tracker_references = 1, tracker_descriptor = a\<rparr>)) (?V(v \<mapsto> ?y)) w"
        by (rule parts_begin[where k = "nat i" and d = d and m = m and x = x1])
          (use p s a c(3-5) x1 k tt y(2) h pg in \<open>simp_all add: y1_def\<close>)
      then have "ump_ok n K (set_session s (Some ?d') w3)"
        by (rule ump_okI) (simp_all add: w3)
      moreover have "ump_vm_pages ?y = ump_vm_pages y @ pieces (ump_vm_start y) 0 sz bs" using vp e all by simp
      ultimately show ?thesis
        using mapped[OF i2 bs(1) r'[unfolded True[THEN eqTrueI]] _ _ x1_def] w3 by simp
    qed
  qed
qed

subsection \<open>The operations\<close>

lemma map_mem_step:
  assumes ok: "mapped_ok n K v w" and y: "ump_vmas w v = Some y" "v \<noteq> 0" "ump_vm_pages y = []"
    and s: "map_ctx args \<noteq> 0" "sessions w (map_ctx args) = Some d" and pr: "map_private args = v"
    and f: "few_references K w" and env: "env_ok env w" and sid: "sint (map_secure_id args) \<noteq> 0"
  obtains err args' w' n' where "ump_ukk_map_mem env args w = Some (err, args', w')" "n \<le> n'"
    "(\<forall>q. \<not> interrupted env q) \<longrightarrow> n' = n"
    "if err = osk_code ERR_OK then ump_ok n' K w' \<and> is_mapped (map_ctx args) v (map_secure_id args) (map_size args) y w'
     else mapped_ok n' K v w'"
proof (cases "new_allocation env")
  case None
  then show ?thesis using that[of "osk_code ERR_NOMEM" args w n] s(1) ok by (simp add: ump_ukk_map_mem_def)
next
  case (Some a)
  have a: "a \<noteq> 0" "allocations w a = None" using env Some by (simp_all add: env_ok_def)
  have tr: "t \<noteq> 0 \<and> trackers w t = None" if "new_tracker env = Some t" for t using env that by (simp add: env_ok_def)
  note hp = ump_partsD[OF ok[unfolded mapped_ok_def]]
  show ?thesis
  proof (rule parts_lookup[OF ok[unfolded mapped_ok_def] sid f[unfolded few_references_def]])
    assume "ump_dd_handle_create_from_secure_id (map_secure_id args) w = Some (UMP_DD_HANDLE_INVALID, w)"
    then show ?thesis using that[of "osk_code ERR_FAULT" args w n] s(1) ok Some by (simp add: ump_ukk_map_mem_def)
  next
    fix h m k w0
    assume l: "mems w h = Some m" "secure_id m = map_secure_id args" "h \<noteq> UMP_DD_HANDLE_INVALID"
      "ump_dd_handle_create_from_secure_id (map_secure_id args) w = Some (h, w0)" "w0 = set_mem h (Some (m\<lparr>ref_count := k\<rparr>)) w"
      "ump_parts n (add_mset h K) (sessions w) (allocations w) (trackers w) ((ump_vmas w)(v := None)) w0"
    let ?m = "m\<lparr>ref_count := k\<rparr>"
    have w0: "sessions w0 = sessions w" "allocations w0 = allocations w" "trackers w0 = trackers w" "ump_vmas w0 = ump_vmas w"
      "mems w0 h = Some ?m" by (simp_all add: l(5))
    have ok0: "mapped_ok n (add_mset h K) v w0" using l(6) by (simp add: mapped_ok_def w0)
    obtain wr nr where wr: "ump_dd_reference_release env h w0 = Some wr" "mapped_ok nr K v wr" "n \<le> nr"
      "(\<forall>q. \<not> interrupted env q) \<longrightarrow> nr = n" by (rule mapped_release[OF ok0, where env = env])
    show ?thesis
    proof (cases "size_bytes m = map_size args")
      case False
      then show ?thesis using that[of "osk_code ERR_FAULT" args wr nr] s(1) Some l(3,4) w0 wr by (simp add: ump_ukk_map_mem_def)
    next
      case True
      have wf: "wf_mapping (cookies_map d)" using session_of(1)[OF hp(2) s(2)] by (simp add: session_ok_def)
      obtain i c where i: "ump_descriptor_mapping_allocate_mapping (table_calloc env) (cookies_map d) a = Done (i, c)"
        "if i < 0 then c = cookies_map d
         else 0 < i \<and> sint (word_of_int i :: u32) = i \<and> wf_mapping c \<and>
           map_contents c = (map_contents (cookies_map d))(nat i \<mapsto> a) \<and> map_contents (cookies_map d) (nat i) = None"
        by (rule ump_allocate_cases[OF wf])
      show ?thesis
      proof (cases "i < 0")
        case neg: True
        have "set_session (map_ctx args) (Some (d\<lparr>cookies_map := c\<rparr>)) w0 = w0"
          using neg i(2) s(2) w0(1) by (simp add: fun_upd_idem)
        then show ?thesis using that[of "osk_code ERR_NOMEM" args wr nr] s Some l(3,4) w0 wr True neg i(1)
          by (simp add: ump_ukk_map_mem_def)
      next
        case pos: False
        then have ii: "0 < i" "sint (word_of_int i :: u32) = i" "wf_mapping c"
          "map_contents c = (map_contents (cookies_map d))(nat i \<mapsto> a)" "map_contents (cookies_map d) (nat i) = None"
          using i(2) by auto
        define x where "x = \<lparr>ump_phys_addr = map_phys_addr args, ump_mapping = 0, ump_size = map_size args, handle = h,
          process_mapping_info = v, ump_cookie = word_of_int i, ump_session = map_ctx args, ump_is_cached = is_cached ?m\<rparr>"
        let ?args = "args\<lparr>map_is_cached := is_cached m\<rparr>"
        let ?w1 = "set_allocation a (Some x) (set_session (map_ctx args) (Some (d\<lparr>cookies_map := c\<rparr>)) w0)"
        note ev = s Some l(3,4) w0 True pos i(1) pr
        note mr = map_region_step[where env = env and d = d and c = c and sz = "map_size args" and x = x and a = a and i = i,
            OF ok0 _ y(2,3) _ w0(5) a(1)]
        show ?thesis
        proof (rule mr)
          show "x = \<lparr>ump_phys_addr = map_phys_addr args, ump_mapping = 0, ump_size = map_size args, handle = h, process_mapping_info = v,
            ump_cookie = word_of_int i, ump_session = map_ctx args, ump_is_cached = is_cached ?m\<rparr>" by (rule x_def)
        next
          fix w' n'
          assume r: "ump_osk_mem_mapregion_init env a ?w1 = Some (1, ?w1)"
            "(do { w \<leftarrow> free_cookie (map_ctx args) i ?w1; ump_dd_reference_release env h (set_allocation a None w) }) = Some w'"
            "mapped_ok n' K v w'" "n \<le> n'" "(\<forall>q. \<not> interrupted env q) \<longrightarrow> n' = n"
          have "ump_ukk_map_mem env args w = Some (1, ?args, w')"
            using ev r(1,2) by (simp add: ump_ukk_map_mem_def x_def bind_assoc Option.bind_eq_Some_conv)
          then show ?thesis using that[of 1 ?args w' n'] r(3-5) by simp
        next
          fix w2 w3 bs w' n'
          assume r: "ump_osk_mem_mapregion_init env a ?w1 = Some (0, w2)" "nr_block_list ?m = Some bs"
            "ump_map_blocks env a 0 0 (map_size args) bs w2 = Some (False, w3)"
            "(do { w \<leftarrow> free_cookie (map_ctx args) i w3; w \<leftarrow> ump_dd_reference_release env h w;
               w \<leftarrow> ump_osk_mem_mapregion_term a w; Some (set_allocation a None w) }) = Some w'"
            "mapped_ok n' K v w'" "n \<le> n'" "(\<forall>q. \<not> interrupted env q) \<longrightarrow> n' = n"
          have "ump_ukk_map_mem env args w = Some (osk_code ERR_FAULT, ?args, w')"
            using ev r(1-4) by (simp add: ump_ukk_map_mem_def x_def Option.bind_eq_Some_conv)
          then show ?thesis using that[of "osk_code ERR_FAULT" ?args w' n'] r(5-7) by simp
        next
          fix w2 w3 bs x'
          assume r: "ump_osk_mem_mapregion_init env a ?w1 = Some (0, w2)" "nr_block_list ?m = Some bs"
            "ump_map_blocks env a 0 0 (map_size args) bs w2 = Some (True, w3)"
            "sessions w3 (map_ctx args) = Some (d\<lparr>cookies_map := c\<rparr>)" "allocations w3 a = Some x'"
            "x' = x\<lparr>ump_mapping := ump_vm_start y\<rparr>"
            "ump_ok n K (set_session (map_ctx args) (Some (d\<lparr>cookies_map := c, session_mappings_list := a # session_mappings_list d\<rparr>)) w3)"
            "mems w3 = mems w0" "\<exists>y'. ump_vmas w3 v = Some y' \<and> ump_vm_pages y' = ump_vm_pages y @ pieces (ump_vm_start y) 0 (map_size args) bs"
          let ?w = "set_session (map_ctx args) (Some (d\<lparr>cookies_map := c, session_mappings_list := a # session_mappings_list d\<rparr>)) w3"
          let ?a = "?args\<lparr>map_mapping := ump_mapping x', map_cookie := ump_cookie x'\<rparr>"
          have "ump_ukk_map_mem env args w = Some (0, ?a, ?w)"
            using ev r(1-5) by (simp add: ump_ukk_map_mem_def x_def)
          moreover have "is_mapped (map_ctx args) v (map_secure_id args) (map_size args) y ?w"
            unfolding is_mapped_def
            by (rule exI[of _ a], rule exI[of _ x'], rule exI[of _ ?m])
              (use r(2,5,6,8,9) w0(5) l(2) True in \<open>auto simp: x_def\<close>)
          ultimately show ?thesis using that[of 0 ?a ?w n] r(7) by simp
        qed (use w0 a y s tr ii in simp_all)
      qed
    qed
  qed
qed

lemma cookie_get:
  assumes "wf_mapping c" "map_contents c (nat i) = Some a" "0 < i"
  shows "ump_descriptor_mapping_get c i = (0, a)"
  using get_spec[OF assms(1), of "nat i"] assms(2,3) by (simp add: ump_get_eq ump_err_def)

lemma cookie_free:
  assumes "wf_mapping c" "0 < i"
  obtains c' where "ump_descriptor_mapping_free c i = Done c'" "wf_mapping c'" "map_contents c' = (map_contents c)(nat i := None)"
proof -
  obtain c' where "mali_descriptor_mapping_free c (int (nat i)) = Done c'" "wf_mapping c'"
    "map_contents c' = (map_contents c)(nat i := None)"
    by (rule free_spec[OF assms(1), of "nat i"]) (use assms(2) in simp)
  then show ?thesis using that[of c'] assms(2) by (simp add: ump_free_eq)
qed

lemma unmap_step:
  assumes ok: "ump_ok n K w" and v: "ump_vmas w v = Some y"
    and t: "trackers w (ump_vm_private_data y) = Some t" "tracker_references t = 1"
    and x: "allocations w (tracker_descriptor t) = Some x"
  obtains w' n' where "ump_ukk_unmap_mem env (ump_session x) (ump_cookie x)
      (set_tracker (ump_vm_private_data y) (Some t') w) = Some w'"
    "ump_ok n' K (set_ump_vma v None w')" "n \<le> n'" "(\<forall>q. \<not> interrupted env q) \<longrightarrow> n' = n"
proof -
  note p = ok[unfolded ump_ok_def] and hp = ump_partsD[OF ok[unfolded ump_ok_def]]
  let ?a = "tracker_descriptor t" and ?s = "ump_session x" and ?p = "ump_vm_private_data y"
  have pv: "process_mapping_info x = v" by (rule areas_ok_end(1)[OF hp(3) v t x])
  have p0: "?p \<noteq> 0" using areas_okD(3)[OF hp(3)] t(1) by auto
  have "?s \<in> dom (sessions w)" "0 < sint (ump_cookie x)" using hp(2) x unfolding sessions_ok_def by blast+
  then obtain d where d: "sessions w ?s = Some d" "0 < sint (ump_cookie x)" by auto
  note so = session_of[OF hp(2) d(1)]
  have wf: "wf_mapping (cookies_map d)" and own: "map_contents (cookies_map d) (nat (sint (ump_cookie x))) = Some ?a"
    using so(1) x d(2) by (auto simp: session_ok_def)
  obtain c where c: "ump_descriptor_mapping_free (cookies_map d) (sint (ump_cookie x)) = Done c" "wf_mapping c"
    "map_contents c = (map_contents (cookies_map d))(nat (sint (ump_cookie x)) := None)"
    by (rule cookie_free[OF wf d(2)])
  let ?d = "d\<lparr>session_mappings_list := remove1 ?a (session_mappings_list d)\<rparr>"
  let ?wt = "set_tracker ?p (Some t') w"
  let ?w1 = "set_session ?s (Some (?d\<lparr>cookies_map := c\<rparr>)) (set_session ?s (Some ?d) ?wt)"
  have f: "free_cookie ?s (sint (ump_cookie x)) (set_session ?s (Some ?d) ?wt) = Some ?w1"
    by (rule free_cookie_ok) (simp_all add: c(1))
  have "ump_parts n (add_mset (handle x) K) ((sessions w)(?s \<mapsto> ?d\<lparr>cookies_map := c\<rparr>)) ((allocations w)(?a := None))
      ((trackers w)(?p := None)) ((ump_vmas w)(v := None)) ?w1"
    unfolding parts_frame by (rule parts_end[OF p v t x d(1) c(2,3)]) simp_all
  then obtain w2 n' where w2: "ump_dd_reference_release env (handle x) ?w1 = Some w2" "same_user w2 ?w1"
    "ump_parts n' K ((sessions w)(?s \<mapsto> ?d\<lparr>cookies_map := c\<rparr>)) ((allocations w)(?a := None))
      ((trackers w)(?p := None)) ((ump_vmas w)(v := None)) w2" "n \<le> n'" "(\<forall>q. \<not> interrupted env q) \<longrightarrow> n' = n"
    by (rule parts_release'[where env = env])
  have u2: "sessions w2 = (sessions w)(?s \<mapsto> ?d\<lparr>cookies_map := c\<rparr>)" "allocations w2 = allocations w"
    "trackers w2 = (trackers w)(?p \<mapsto> t')" "ump_vmas w2 = ump_vmas w"
    using w2(2) by (simp_all add: same_user_def)
  have tm: "ump_osk_mem_mapregion_term ?a w2 = Some (set_tracker ?p None w2)"
    using u2 x pv v p0 by (simp add: ump_osk_mem_mapregion_term_def)
  let ?w' = "set_allocation ?a None (set_tracker ?p None w2)"
  have "ump_ukk_unmap_mem env ?s (ump_cookie x) ?wt = Some ?w'"
    using so(2) d(1) cookie_get[OF wf own d(2)] x mapping_handle(3)[OF p x] f w2(1) tm
    by (simp add: ump_ukk_unmap_mem_def UMP_DD_HANDLE_INVALID_def)
  moreover have "ump_ok n' K (set_ump_vma v None ?w')"
    by (rule ump_okI[OF w2(3)]) (simp_all add: u2)
  ultimately show ?thesis using that w2(4,5) by blast
qed

subsection \<open>Areas of a process\<close>

text \<open>
  Linux calls \<open>mmap\<close> with a new area, which it forgets when the call fails; it calls the hook of an area that
  has been copied and of one that is about to go.
\<close>

definition linux_mmap :: "ump_env \<Rightarrow> ptr \<Rightarrow> ptr \<Rightarrow> ump_vma \<Rightarrow> ump_state \<Rightarrow> (int \<times> ump_state) option" where
  "linux_mmap env s v y w = do {
     (err, w) \<leftarrow> ump_file_mmap env s v (set_ump_vma v (Some y) w);
     Some (err, if err = 0 then w else set_ump_vma v None w)
   }"

definition linux_copy_vma :: "ptr \<Rightarrow> ptr \<Rightarrow> ump_vma \<Rightarrow> ump_state \<Rightarrow> ump_state option" where
  "linux_copy_vma v u y w = ump_vma_open u (set_ump_vma u (Some y) w)"

definition linux_close_vma :: "ump_env \<Rightarrow> ptr \<Rightarrow> ump_state \<Rightarrow> ump_state option" where
  "linux_close_vma env v w = map_option (set_ump_vma v None) (ump_vma_close env v w)"

lemma env_ok_vma [simp]: "env_ok env (set_ump_vma v x w) = env_ok env w"
  by (simp add: env_ok_def)

lemma few_references_vma [simp]: "few_references K (set_ump_vma v x w) = few_references K w"
  by (simp add: few_references_def)

lemma ump_mmap_step:
  assumes ok: "ump_ok n K w" and v: "ump_vmas w v = None" "v \<noteq> 0" and y: "ump_vm_pages y = []"
    and s: "sessions w s = Some d" and f: "few_references K w" and env: "env_ok env w" and sid: "sint (ump_vm_pgoff y) \<noteq> 0"
  obtains err w' n' where "linux_mmap env s v y w = Some (err, w')" "ump_ok n' K w'" "n \<le> n'"
    "(\<forall>q. \<not> interrupted env q) \<longrightarrow> n' = n"
    "err = 0 \<Longrightarrow> is_mapped s v (ump_vm_pgoff y) (ump_vm_end y - ump_vm_start y) y w'"
proof -
  note hp = ump_partsD[OF ok[unfolded ump_ok_def]]
  have s0: "s \<noteq> 0" by (rule session_of(2)[OF hp(2) s])
  let ?y = "y\<lparr>ump_vm_shared := True\<rparr>"
  let ?w = "set_ump_vma v (Some ?y) (set_ump_vma v (Some y) w)"
  let ?args = "\<lparr>map_ctx = s, map_mapping = 0, map_phys_addr = 0, map_size = ump_vm_end y - ump_vm_start y,
    map_secure_id = ump_vm_pgoff y, map_private = v, map_cookie = 0, map_is_cached = (\<not> ump_vm_shared y)\<rparr>"
  have ok': "mapped_ok n K v ?w"
    by (rule mapped_okI[OF ok[unfolded ump_ok_def]]) (use v in \<open>simp_all add: fun_upd_idem\<close>)
  obtain err args' w' n' where r: "ump_ukk_map_mem env ?args ?w = Some (err, args', w')" "n \<le> n'"
    "(\<forall>q. \<not> interrupted env q) \<longrightarrow> n' = n"
    "if err = osk_code ERR_OK
     then ump_ok n' K w' \<and> is_mapped (map_ctx ?args) v (map_secure_id ?args) (map_size ?args) ?y w'
     else mapped_ok n' K v w'"
    by (rule map_mem_step[OF ok', where y = ?y and args = ?args and d = d and env = env])
      (use v y s s0 f env sid in simp_all)
  have m: "is_mapped s v (ump_vm_pgoff y) (ump_vm_end y - ump_vm_start y) y w'" if "err = 0"
    using r(4) that by (simp add: is_mapped_def)
  have e: "ump_file_mmap env s v (set_ump_vma v (Some y) w) = Some (map_errcode err, w')"
    using s0 r(1) by (simp add: ump_file_mmap_def)
  show ?thesis
  proof (cases "err = 0")
    case True
    then show ?thesis using that[of 0 w' n'] e m r by (simp add: linux_mmap_def)
  next
    case False
    then show ?thesis using that[of "map_errcode err" "set_ump_vma v None w'" n'] e r
      by (simp add: linux_mmap_def mapped_ok_close)
  qed
qed

lemma copy_step:
  assumes ok: "ump_ok n K w" and v: "ump_vmas w v = Some y" and u: "ump_vmas w u = None" "u \<noteq> 0"
    and y': "ump_vm_private_data y' = ump_vm_private_data y" "set (ump_vm_pages y') \<subseteq> set (ump_vm_pages y)"
    and t: "trackers w (ump_vm_private_data y) = Some t" "tracker_references t + 1 < 2 ^ 31"
  obtains w' where "linux_copy_vma v u y' w = Some w'" "ump_ok n K w'"
proof -
  note p = ok[unfolded ump_ok_def] and hp = ump_partsD[OF ok[unfolded ump_ok_def]]
  let ?p = "ump_vm_private_data y" and ?t = "t\<lparr>tracker_references := tracker_references t + 1\<rparr>"
  have p0: "?p \<noteq> 0" using areas_okD(3)[OF hp(3)] t(1) by auto
  have i: "int32 (tracker_references t + 1) = tracker_references t + 1"
    by (rule int32_id) (use t(2) areas_okD(6)[OF hp(3) t(1)] in simp_all)
  have a: "areas_ok (allocations w) ((trackers w)(?p \<mapsto> ?t)) ((ump_vmas w)(u \<mapsto> y'))"
    by (rule areas_ok_copy[OF hp(3) v t u y'(1)])
  have g: "pages_ok (mems w) (allocations w) ((trackers w)(?p \<mapsto> ?t)) ((ump_vmas w)(u \<mapsto> y'))"
  proof (rule pages_ok_sub[OF hp(4)])
    fix z q r x
    assume z: "((ump_vmas w)(u \<mapsto> y')) z = Some q" "((trackers w)(?p \<mapsto> ?t)) (ump_vm_private_data q) = Some r"
      "allocations w (tracker_descriptor r) = Some x"
    obtain r0 where r0: "trackers w (ump_vm_private_data q) = Some r0" "tracker_descriptor r0 = tracker_descriptor r"
      using z(2) t(1) by (cases "ump_vm_private_data q = ?p") auto
    show "\<exists>v0 y0 t0. ump_vmas w v0 = Some y0 \<and> set (ump_vm_pages q) \<subseteq> set (ump_vm_pages y0) \<and>
        trackers w (ump_vm_private_data y0) = Some t0 \<and> allocations w (tracker_descriptor t0) = Some x"
    proof (cases "z = u")
      case True
      then show ?thesis using z(1,3) v y' r0 by (intro exI[of _ v] exI[of _ y] exI[of _ r0]) auto
    next
      case False
      then show ?thesis using z(1,3) r0 by (intro exI[of _ z] exI[of _ q] exI[of _ r0]) auto
    qed
  qed
  have "ump_parts n K (sessions w) (allocations w) ((trackers w)(?p \<mapsto> ?t)) ((ump_vmas w)(u \<mapsto> y')) w"
    using p a g by (simp add: ump_parts_def)
  then have "ump_ok n K (set_tracker ?p (Some ?t) (set_ump_vma u (Some y') w))" by (rule ump_okI) simp_all
  moreover have "linux_copy_vma v u y' w = Some (set_tracker ?p (Some ?t) (set_ump_vma u (Some y') w))"
    using p0 t(1) y'(1) i by (simp add: linux_copy_vma_def ump_vma_open_def)
  ultimately show ?thesis using that by blast
qed

lemma cut_step:
  assumes ok: "ump_ok n K w" and v: "ump_vmas w v = Some y"
    and y': "ump_vm_private_data y' = ump_vm_private_data y" "set (ump_vm_pages y') \<subseteq> set (ump_vm_pages y)"
  shows "ump_ok n K (set_ump_vma v (Some y') w)"
proof -
  note p = ok[unfolded ump_ok_def] and hp = ump_partsD[OF ok[unfolded ump_ok_def]]
  have g: "pages_ok (mems w) (allocations w) (trackers w) ((ump_vmas w)(v \<mapsto> y'))"
  proof (rule pages_ok_sub[OF hp(4)])
    fix z q r x
    assume z: "((ump_vmas w)(v \<mapsto> y')) z = Some q" "trackers w (ump_vm_private_data q) = Some r"
      "allocations w (tracker_descriptor r) = Some x"
    then show "\<exists>v0 y0 t0. ump_vmas w v0 = Some y0 \<and> set (ump_vm_pages q) \<subseteq> set (ump_vm_pages y0) \<and>
        trackers w (ump_vm_private_data y0) = Some t0 \<and> allocations w (tracker_descriptor t0) = Some x"
      using v y' by (cases "z = v") auto
  qed
  have "ump_parts n K (sessions w) (allocations w) (trackers w) ((ump_vmas w)(v \<mapsto> y')) w"
    using p areas_ok_cut[OF hp(3) v y'(1)] g by (simp add: ump_parts_def)
  then show ?thesis by (rule ump_okI) simp_all
qed

text \<open>
  The hook of the first area of a mapping is not called while copies of it are there: the end of the
  mapping would then read the area that is gone.
\<close>

definition first_area_last :: "ptr \<Rightarrow> ump_state \<Rightarrow> bool" where
  "first_area_last v w \<longleftrightarrow> (\<forall>y t x. ump_vmas w v = Some y \<longrightarrow> trackers w (ump_vm_private_data y) = Some t \<longrightarrow>
     allocations w (tracker_descriptor t) = Some x \<longrightarrow> process_mapping_info x = v \<longrightarrow> tracker_references t = 1)"

lemma close_vma_step:
  assumes ok: "ump_ok n K w" and v: "ump_vmas w v = Some y" and l: "first_area_last v w"
  obtains w' n' where "linux_close_vma env v w = Some w'" "ump_ok n' K w'" "n \<le> n'"
    "(\<forall>q. \<not> interrupted env q) \<longrightarrow> n' = n"
proof -
  note p = ok[unfolded ump_ok_def] and hp = ump_partsD[OF ok[unfolded ump_ok_def]]
  let ?p = "ump_vm_private_data y"
  obtain t where t: "trackers w ?p = Some t" using areas_okD(5)[OF hp(3) v] by blast
  obtain x where x: "allocations w (tracker_descriptor t) = Some x" using areas_okD(8)[OF hp(3) t] by blast
  have p0: "?p \<noteq> 0" using areas_okD(3)[OF hp(3)] t by auto
  have vs: "v \<in> showing (ump_vmas w) ?p" using v by (auto simp: showing_def)
  have pos: "0 < tracker_references t"
    using areas_okD(6)[OF hp(3) t] vs showing_finite[OF hp(7), of ?p] by (auto simp: card_gt_0_iff)
  let ?t = "t\<lparr>tracker_references := tracker_references t - 1\<rparr>"
  have i: "int32 (tracker_references t - 1) = tracker_references t - 1"
    by (rule int32_id) (use pos areas_okD(7)[OF hp(3) t] in simp_all)
  show ?thesis
  proof (cases "tracker_references t = 1")
    case True
    obtain w' n' where r: "ump_ukk_unmap_mem env (ump_session x) (ump_cookie x) (set_tracker ?p (Some ?t) w) = Some w'"
      "ump_ok n' K (set_ump_vma v None w')" "n \<le> n'" "(\<forall>q. \<not> interrupted env q) \<longrightarrow> n' = n"
      by (rule unmap_step[OF ok v t True x, where env = env and t' = ?t])
    have "linux_close_vma env v w = Some (set_ump_vma v None w')"
      using v p0 t i True x r(1) by (simp add: linux_close_vma_def ump_vma_close_def)
    then show ?thesis using that r(2-4) by blast
  next
    case False
    have nv: "process_mapping_info x \<noteq> v" using l v t x False unfolding first_area_last_def by blast
    have a: "areas_ok (allocations w) ((trackers w)(?p \<mapsto> ?t)) ((ump_vmas w)(v := None))"
      by (rule areas_ok_close[OF hp(3) v t x nv])
    have g: "pages_ok (mems w) (allocations w) ((trackers w)(?p \<mapsto> ?t)) ((ump_vmas w)(v := None))"
    proof (rule pages_ok_sub[OF hp(4)])
      fix z q r x'
      assume z: "((ump_vmas w)(v := None)) z = Some q" "((trackers w)(?p \<mapsto> ?t)) (ump_vm_private_data q) = Some r"
        "allocations w (tracker_descriptor r) = Some x'"
      obtain r0 where r0: "trackers w (ump_vm_private_data q) = Some r0" "tracker_descriptor r0 = tracker_descriptor r"
        using z(2) t by (cases "ump_vm_private_data q = ?p") auto
      show "\<exists>v0 y0 t0. ump_vmas w v0 = Some y0 \<and> set (ump_vm_pages q) \<subseteq> set (ump_vm_pages y0) \<and>
          trackers w (ump_vm_private_data y0) = Some t0 \<and> allocations w (tracker_descriptor t0) = Some x'"
        using z(1,3) r0 by (intro exI[of _ z] exI[of _ q] exI[of _ r0]) (auto split: if_splits)
    qed
    have "ump_parts n K (sessions w) (allocations w) ((trackers w)(?p \<mapsto> ?t)) ((ump_vmas w)(v := None)) w"
      using p a g by (simp add: ump_parts_def)
    then have "ump_ok n K (set_ump_vma v None (set_tracker ?p (Some ?t) w))" by (rule ump_okI) simp_all
    moreover have "linux_close_vma env v w = Some (set_ump_vma v None (set_tracker ?p (Some ?t) w))"
      using v p0 t i False by (simp add: linux_close_vma_def ump_vma_close_def Let_def)
    ultimately show ?thesis using that by blast
  qed
qed

subsection \<open>Maintenance of the caches\<close>

lemma msync_step:
  assumes ok: "ump_ok n K w" and f: "few_references K w"
  obtains args' calls w' n' where "ump_ukk_msync env acc args w = Some (args', calls, w')" "ump_ok n' K w'" "n \<le> n'"
    "(\<forall>q. \<not> interrupted env q) \<longrightarrow> n' = n" "same_user w' w"
proof -
  note hp = ump_partsD[OF ok[unfolded ump_ok_def]] and hk = handles_okD[OF ump_partsD(1)[OF ok[unfolded ump_ok_def]]]
  have zero: "ump_descriptor_mapping_get (secure_id_map w) 0 = (0, 0)" using lookup_zero hk(1) by (simp add: ids_ok_def)
  show ?thesis
  proof (cases "sint (msync_secure_id args) = 0 \<or> map_contents (secure_id_map w) (nat (sint (msync_secure_id args))) = None")
    case True
    then have "snd (ump_descriptor_mapping_get (secure_id_map w) (sint (msync_secure_id args))) = 0"
      using ids_ok_lookup[OF hk(1), of "msync_secure_id args"] zero by (cases "sint (msync_secure_id args) = 0") auto
    then show ?thesis using that[of args "[]" w n] ok by (simp add: ump_ukk_msync_def)
  next
    case False
    then obtain p where Some: "map_contents (secure_id_map w) (nat (sint (msync_secure_id args))) = Some p" by auto
    have g: "snd (ump_descriptor_mapping_get (secure_id_map w) (sint (msync_secure_id args))) = p"
      using ids_ok_lookup[OF hk(1), of "msync_secure_id args"] False Some by simp
    have pd: "p \<in> dom (mems w)" using hk(1) Some by (auto simp: ids_ok_def)
    then have p0: "p \<noteq> 0" using handle_okD(4)[OF hp(1)] by auto
    obtain w1 where w1: "ump_dd_reference_add p w = Some w1" "same_user w1 w" "ump_ok n (add_mset p K) w1"
      by (rule add_step[OF ok pd f])
    have h1: "handles_ok n (session_refs (sessions w1) + mapping_refs (allocations w1) + add_mset p K) w1"
      using ump_partsD(1)[OF w1(3)[unfolded ump_ok_def]] .
    obtain m where m: "mems w1 p = Some m" using handles_okD(3)[OF h1] by auto
    obtain bs where bs: "nr_block_list m = Some bs" "set bs \<subseteq> set (array_blocks (block_array m))"
      by (rule handle_blocks'[OF h1 m])
    obtain w2 n' where w2: "ump_dd_reference_release env p w1 = Some w2" "same_user w2 w1" "ump_ok n' K w2" "n \<le> n'"
      "(\<forall>q. \<not> interrupted env q) \<longrightarrow> n' = n" by (rule release_step[OF w1(3), where env = env])
    have u: "same_user w2 w" using w1(2) w2(2) by (simp add: same_user_def)
    obtain cs where cs: "msync_calls acc m args = Some cs"
      by (cases "msync_calls acc m args") (auto simp: msync_calls_def ump_osk_msync_def bs(1) Let_def split: if_splits)
    have "ump_ukk_msync env acc args w = Some (args\<lparr>msync_is_cached := is_cached m\<rparr>, cs, w2)"
      using g p0 w1(1) m w2(1) cs by (simp add: ump_ukk_msync_def)
    then show ?thesis by (rule that[OF _ w2(3-5) u])
  qed
qed

end
