(* ===== verification/Ump_Requests.thy ===== *)
theory Ump_Requests
  imports Ump_Mapping
begin

text \<open>
  The file operations keep the invariant: opening and closing the device and every control request,
  whether or not the copies from and to user space succeed.
\<close>

subsection \<open>Opening and closing\<close>

lemma file_open_step:
  assumes ok: "ump_ok n K w" and env: "env_ok env w"
  obtains err r w' where "ump_file_open env minor w = Some (err, r, w')" "ump_ok n K w'"
    "if err = 0 then \<exists>s. r = Some s \<and> s \<in> dom (sessions w') else r = None \<and> w' = w"
proof (cases "minor = 0")
  case True
  obtain e r w' where o: "ump_ukk_open env w = Some (e, r, w')" "ump_ok n K w'"
    "if e = osk_code ERR_OK then \<exists>s d. r = Some s \<and> new_session env = Some s \<and> w' = set_session s (Some d) w \<and>
       session_memory_list d = [] \<and> session_mappings_list d = [] \<and> map_contents (cookies_map d) = Map.empty
     else r = None \<and> w' = w"
    by (rule open_step[OF ok env])
  show ?thesis
  proof (cases "e = 0")
    case e: True
    then have "\<exists>s. r = Some s \<and> s \<in> dom (sessions w')" using o(3) by auto
    then show ?thesis using that[of 0 r w'] o(1,2) e True by (simp add: ump_file_open_def)
  next
    case False
    then show ?thesis using that[of "map_errcode e" None w'] o True by (simp add: ump_file_open_def)
  qed
next
  case False
  then show ?thesis using that[of "- ENODEV" None w] ok by (simp add: ump_file_open_def errno_defs)
qed

lemma file_release_step:
  assumes ok: "ump_ok n K w" and s: "sessions w s = Some d" and no: "session_mappings_list d = []"
  obtains w' n' where "ump_file_release env s w = Some (0, w')" "ump_ok n' K w'" "n \<le> n'"
    "(\<forall>q. \<not> interrupted env q) \<longrightarrow> n' = n"
proof -
  obtain w' n' where c: "ump_ukk_close env s w = Some (osk_code ERR_OK, w')" "ump_ok n' K w'" "n \<le> n'"
    "(\<forall>q. \<not> interrupted env q) \<longrightarrow> n' = n" "same_user w' (set_session s None w)"
    by (rule close_step[OF ok s no, where env = env])
  then show ?thesis using that[of w' n'] by (simp add: ump_file_release_def)
qed

subsection \<open>Requests\<close>

text \<open>A size does not wrap when it is rounded up, and the secure id 0 is not asked for.\<close>

fun request_ok :: "ump_request \<Rightarrow> bool" where
  "request_ok (Allocate_request sz constraints) \<longleftrightarrow> no_wrap sz"
| "request_ok (Size_get_request sid) \<longleftrightarrow> sint sid \<noteq> 0"
| "request_ok _ \<longleftrightarrow> True"

lemma version_request:
  assumes ok: "ump_ok n K w" and s: "sessions w s = Some d"
  shows "\<exists>err ans w'. ump_get_api_version_wrapper u s version w = Some (err, ans, w') \<and> ump_ok n K w'"
proof -
  obtain r w' where r: "ump_uku_get_api_version s version w = Some (osk_code ERR_OK, r, w')" "ump_ok n K w'"
    by (rule version_step[OF ok s])
  then show ?thesis using ok by (cases r; simp add: ump_get_api_version_wrapper_def)
qed

lemma release_request:
  assumes ok: "ump_ok n K w" and s: "sessions w s = Some d"
  shows "\<exists>err ans w' n'. ump_release_wrapper env u s sid w = Some (err, ans, w') \<and> ump_ok n' K w' \<and> n \<le> n' \<and>
    ((\<forall>q. \<not> interrupted env q) \<longrightarrow> n' = n)"
proof (rule ukk_release_step[OF ok s, of env sid])
  assume "ump_ukk_release env s sid w = Some (osk_code ERR_INVALID_FUNC, w)"
  then show ?thesis using ok by (auto simp: ump_release_wrapper_def)
next
  fix w' n'
  assume "ump_ukk_release env s sid w = Some (osk_code ERR_OK, w')" "ump_ok n' K w'" "n \<le> n'"
    "(\<forall>q. \<not> interrupted env q) \<longrightarrow> n' = n"
  then show ?thesis using ok by (cases "s = 0 \<or> \<not> copy_in u"; auto simp: ump_release_wrapper_def)
qed

lemma size_get_request:
  assumes ok: "ump_ok n K w" and sid: "sint sid \<noteq> 0"
  shows "\<exists>err ans. ump_size_get_wrapper u s sid w = Some (err, ans, w)"
  using size_get_step[OF ok sid] by (auto simp: ump_size_get_wrapper_def split: option.splits)

lemma allocate_request:
  assumes ok: "ump_ok n K w" and f: "few_references K w" and env: "env_ok env w" and s: "sessions w s = Some d" and sz: "no_wrap sz"
  shows "\<exists>err ans w' n'. ump_allocate_wrapper env u s sz constraints w = Some (err, ans, w') \<and> ump_ok n' K w' \<and> n \<le> n' \<and>
    ((\<forall>q. \<not> interrupted env q) \<longrightarrow> n' = n)"
proof (cases "\<not> argument u \<or> s = 0 \<or> \<not> copy_in u")
  case True
  then show ?thesis using ok by (auto simp: ump_allocate_wrapper_def)
next
  case False
  let ?args = "\<lparr>allocate_ctx = s, allocate_secure_id = 0, allocate_size = sz, allocate_constraints = constraints\<rparr>"
  obtain e args' w' where a: "ump_ukk_allocate env ?args w = Some (e, args', w')" "ump_ok n K w'"
    "if e = osk_code ERR_OK
     then \<exists>p m. new_mem env = Some p \<and> mems w' = (mems w)(p \<mapsto> m) \<and> ref_count m = 1 \<and> release_func m = Backend_release \<and>
       allocate_secure_id args' = secure_id m \<and> allocate_size args' = size_bytes m \<and>
       max 1 (unat (allocate_size ?args)) \<le> unat (size_bytes m) \<and>
       w' = set_session (allocate_ctx ?args) (Some (d\<lparr>session_memory_list := p # session_memory_list d\<rparr>))
         (w\<lparr>secure_id_map := secure_id_map w', backend := backend w', mems := mems w'\<rparr>)
     else mems w' = mems w \<and> same_user w' w"
    by (rule allocate_step[OF ok f env, of ?args]) (use s sz in simp_all)
  show ?thesis
  proof (cases "e = 0 \<and> \<not> copy_out u")
    case True
    then obtain d' where s': "sessions w' s = Some d'" using a(3)
      by (auto simp: fun_upd_same dest!: arg_cong[where f = "\<lambda>w. sessions w s"])
    have "\<exists>r w2 n'. ump_ukk_release env s (allocate_secure_id args') w' = Some (r, w2) \<and> ump_ok n' K w2 \<and> n \<le> n' \<and>
        ((\<forall>q. \<not> interrupted env q) \<longrightarrow> n' = n)"
      by (rule ukk_release_step[OF a(2) s', of env "allocate_secure_id args'"]) (use a(2) in blast)+
    then show ?thesis using False True a(1) by (auto simp: ump_allocate_wrapper_def)
  next
    case other: False
    then show ?thesis using False a by (auto simp: ump_allocate_wrapper_def)
  qed
qed

lemma msync_request:
  assumes ok: "ump_ok n K w" and f: "few_references K w"
  shows "\<exists>err ans calls w' n'. ump_msync_wrapper env acc u s args w = Some (err, ans, calls, w') \<and> ump_ok n' K w' \<and> n \<le> n' \<and>
    ((\<forall>q. \<not> interrupted env q) \<longrightarrow> n' = n)"
proof (cases "\<not> argument u \<or> s = 0 \<or> \<not> copy_in u")
  case True
  then show ?thesis using ok by (auto simp: ump_msync_wrapper_def)
next
  case False
  obtain args' calls w' n' where r: "ump_ukk_msync env acc args w = Some (args', calls, w')" "ump_ok n' K w'" "n \<le> n'"
    "(\<forall>q. \<not> interrupted env q) \<longrightarrow> n' = n" by (rule msync_step[OF ok f])
  then show ?thesis using False by (auto simp: ump_msync_wrapper_def)
qed

lemma ioctl_step:
  assumes ok: "ump_ok n K w" and f: "few_references K w" and env: "env_ok env w" and s: "sessions w s = Some d" and r: "request_ok r"
  obtains err ans calls w' n' where "ump_file_ioctl env acc u s r w = Some (err, ans, calls, w')" "ump_ok n' K w'" "n \<le> n'"
    "(\<forall>q. \<not> interrupted env q) \<longrightarrow> n' = n"
proof -
  have s0: "s \<noteq> 0" by (rule session_of(2)[OF ump_partsD(2)[OF ok[unfolded ump_ok_def]] s])
  have "\<exists>err ans calls w' n'. ump_file_ioctl env acc u s r w = Some (err, ans, calls, w') \<and> ump_ok n' K w' \<and> n \<le> n' \<and>
    ((\<forall>q. \<not> interrupted env q) \<longrightarrow> n' = n)"
  proof (cases r)
    case (Query_api_version version)
    then show ?thesis using version_request[OF ok s, of u version] s0 by (auto simp: ump_file_ioctl_def)
  next
    case (Allocate_request sz constraints)
    then show ?thesis using allocate_request[OF ok f env s, of sz u constraints] r s0 by (fastforce simp: ump_file_ioctl_def)
  next
    case (Release_request sid)
    then show ?thesis using release_request[OF ok s, of env u sid] s0 by (fastforce simp: ump_file_ioctl_def)
  next
    case (Size_get_request sid)
    then show ?thesis using size_get_request[OF ok, of sid u s] r s0 ok by (fastforce simp: ump_file_ioctl_def)
  next
    case (Msync_request args)
    then show ?thesis using msync_request[OF ok f, of env acc u s args] s0 by (simp add: ump_file_ioctl_def)
  next
    case Other_request
    then show ?thesis using s0 ok by (auto simp: ump_file_ioctl_def)
  qed
  then show ?thesis using that by blast
qed

end
