(* ===== verification/Ump_Reach.thy ===== *)
theory Ump_Reach
  imports Ump_Requests
begin

text \<open>
  The UMP driver as a machine: processes open and close the device, send requests, map memory, and copy, cut
  and close their areas; other drivers look up, hold and release memory of their own or of others.  All of it
  in any order and with any outcome of the calls of the operating system.
\<close>

subsection \<open>The machine\<close>

text \<open>
  The state has the references that other drivers hold.  In a calm run no signal interrupts a release.
  A file is open as long as an area shows memory of it; the secure id 0 is not asked for.
\<close>

type_synonym ump_system = "ptr multiset \<times> ump_state"

definition calm :: "bool \<Rightarrow> ump_env \<Rightarrow> bool" where
  "calm quiet env \<longleftrightarrow> (quiet \<longrightarrow> (\<forall>q. \<not> interrupted env q))"

inductive ump_step :: "bool \<Rightarrow> ump_system \<Rightarrow> ump_system \<Rightarrow> bool" for quiet :: bool where
  opened: "env_ok env w \<Longrightarrow> ump_file_open env minor w = Some (err, r, w') \<Longrightarrow> ump_step quiet (K, w) (K, w')"
| closed: "sessions w s = Some d \<Longrightarrow> session_mappings_list d = [] \<Longrightarrow> calm quiet env \<Longrightarrow>
    ump_file_release env s w = Some (err, w') \<Longrightarrow> ump_step quiet (K, w) (K, w')"
| request: "s \<in> dom (sessions w) \<Longrightarrow> request_ok r \<Longrightarrow> few_references K w \<Longrightarrow> env_ok env w \<Longrightarrow> calm quiet env \<Longrightarrow>
    ump_file_ioctl env acc u s r w = Some (err, ans, calls, w') \<Longrightarrow> ump_step quiet (K, w) (K, w')"
| mmap: "s \<in> dom (sessions w) \<Longrightarrow> ump_vmas w v = None \<Longrightarrow> v \<noteq> 0 \<Longrightarrow> ump_vm_pages y = [] \<Longrightarrow> sint (ump_vm_pgoff y) \<noteq> 0 \<Longrightarrow>
    few_references K w \<Longrightarrow> env_ok env w \<Longrightarrow> calm quiet env \<Longrightarrow>
    linux_mmap env s v y w = Some (err, w') \<Longrightarrow> ump_step quiet (K, w) (K, w')"
| copy: "ump_vmas w v = Some y \<Longrightarrow> ump_vmas w u = None \<Longrightarrow> u \<noteq> 0 \<Longrightarrow>
    ump_vm_private_data y' = ump_vm_private_data y \<Longrightarrow> set (ump_vm_pages y') \<subseteq> set (ump_vm_pages y) \<Longrightarrow>
    trackers w (ump_vm_private_data y) = Some t \<Longrightarrow> tracker_references t + 1 < 2 ^ 31 \<Longrightarrow>
    linux_copy_vma v u y' w = Some w' \<Longrightarrow> ump_step quiet (K, w) (K, w')"
| cut: "ump_vmas w v = Some y \<Longrightarrow> ump_vm_private_data y' = ump_vm_private_data y \<Longrightarrow>
    set (ump_vm_pages y') \<subseteq> set (ump_vm_pages y) \<Longrightarrow> ump_step quiet (K, w) (K, set_ump_vma v (Some y') w)"
| close_vma: "ump_vmas w v = Some y \<Longrightarrow> first_area_last v w \<Longrightarrow> calm quiet env \<Longrightarrow>
    linux_close_vma env v w = Some w' \<Longrightarrow> ump_step quiet (K, w) (K, w')"
| create: "few_references K w \<Longrightarrow> env_ok env w \<Longrightarrow>
    ump_dd_handle_create_from_phys_blocks env blocks w = Some (p, w') \<Longrightarrow>
    ump_step quiet (K, w) (if p = UMP_DD_HANDLE_INVALID then K else add_mset p K, w')"
| look_up: "sint sid \<noteq> 0 \<Longrightarrow> few_references K w \<Longrightarrow> ump_dd_handle_create_from_secure_id sid w = Some (p, w') \<Longrightarrow>
    ump_step quiet (K, w) (if p = UMP_DD_HANDLE_INVALID then K else add_mset p K, w')"
| hold: "p \<in># K \<Longrightarrow> few_references K w \<Longrightarrow> ump_dd_reference_add p w = Some w' \<Longrightarrow> ump_step quiet (K, w) (add_mset p K, w')"
| drop: "p \<in># K \<Longrightarrow> calm quiet env \<Longrightarrow> ump_dd_reference_release env p w = Some w' \<Longrightarrow> ump_step quiet (K, w) (K - {#p#}, w')"

inductive_cases ump_step_E [elim]: "ump_step quiet (K, w) t"

subsection \<open>The start\<close>

text \<open>The region of the dedicated backend is page aligned and does not reach past the end of the memory.\<close>

definition region_fits :: "u32 \<Rightarrow> u32 \<Rightarrow> bool" where
  "region_fits address sz \<longleftrightarrow> 4096 dvd unat address \<and> unat address + blocks_needed sz * 2 ^ 18 \<le> 2 ^ 32"

definition ump_starts :: "ump_state \<Rightarrow> bool" where
  "ump_starts w \<longleftrightarrow> (\<exists>env osk kind address sz memory. region_fits address sz \<and>
     ump_kernel_constructor env osk kind address sz memory = Some (osk_code ERR_OK, Some w))"

lemma create_backend_ok:
  assumes "ump_memory_backend_create kind address sz region memory = Some b" "region_fits address sz"
  shows "backend_ok 0 {#} b"
proof (cases "kind = 0")
  case True
  then obtain a where a: "ump_block_allocator_create memory address sz = Some a" "b = Dedicated_backend a"
    using assms(1) by (auto simp: ump_memory_backend_create_def split: if_splits)
  let ?n = "((sz + UMP_BLOCK_SIZE - 1) AND NOT (UMP_BLOCK_SIZE - 1)) div UMP_BLOCK_SIZE"
  have n: "ump_num_blocks a = ?n"
    using a(1) by (auto simp: ump_block_allocator_create_def Let_def create_fields split: if_splits)
  have "unat ?n \<le> blocks_needed sz" unfolding block_count by simp
  then have "block_ok 0 {#} a"
    using assms(2) by (intro ump_block_create_ok[OF a(1)]) (auto simp: region_fits_def n)
  then show ?thesis using a(2) by (simp add: backend_ok_def)
next
  case False
  then show ?thesis using assms(1) ump_os_create_ok
    by (auto simp: ump_memory_backend_create_def backend_ok_def split: if_splits)
qed

lemma constructor_cases:
  assumes "ump_kernel_constructor env osk kind address sz memory = Some (osk_code ERR_OK, Some w)"
  obtains ids b where "wf_mapping ids" "map_contents ids = Map.empty"
    "ump_memory_backend_create kind address sz (mem_region env) memory = Some b"
    "w = \<lparr>secure_id_map = ids, backend = b, mems = Map.empty, sessions = Map.empty,
      allocations = Map.empty, trackers = Map.empty, ump_vmas = Map.empty\<rparr>"
proof -
  from cookies_create[OF refl, of "new_mapping env" "table_calloc env" "map_lock env"]
  show ?thesis using that assms by (auto simp: ump_kernel_constructor_def split: if_splits option.splits)
qed

lemma start_ok:
  assumes "ump_starts w"
  shows "ump_ok 0 {#} w"
proof -
  obtain env osk kind address sz memory where k: "region_fits address sz"
    "ump_kernel_constructor env osk kind address sz memory = Some (osk_code ERR_OK, Some w)"
    using assms by (auto simp: ump_starts_def)
  obtain ids b where ids: "wf_mapping ids" "map_contents ids = Map.empty"
    and b: "ump_memory_backend_create kind address sz (mem_region env) memory = Some b"
    and w: "w = \<lparr>secure_id_map = ids, backend = b, mems = Map.empty, sessions = Map.empty,
      allocations = Map.empty, trackers = Map.empty, ump_vmas = Map.empty\<rparr>"
    by (rule constructor_cases[OF k(2)])
  have "backend_ok 0 {#} b" by (rule create_backend_ok[OF b k(1)])
  then show ?thesis using ids
    by (simp add: w ump_ok_def ump_parts_def handles_ok_def ids_ok_def sessions_ok_def areas_ok_def pages_ok_def
        session_refs_def mapping_refs_def)
qed

subsection \<open>The invariant\<close>

text \<open>\<open>n\<close> units of memory are lost, none in a calm run.\<close>

fun ump_system_ok :: "bool \<Rightarrow> ump_system \<Rightarrow> bool" where
  "ump_system_ok quiet (K, w) \<longleftrightarrow> (\<exists>n. ump_ok n K w \<and> (quiet \<longrightarrow> n = 0))"

lemma ump_system_okI:
  "ump_ok n' K' w' \<Longrightarrow> ((\<forall>q. \<not> interrupted env q) \<longrightarrow> n' = n) \<Longrightarrow> calm quiet env \<Longrightarrow> quiet \<longrightarrow> n = 0 \<Longrightarrow>
    ump_system_ok quiet (K', w')"
  by (auto simp: calm_def)

lemma step_ump_system_ok:
  assumes "ump_step quiet (K, w) t" "ump_system_ok quiet (K, w)"
  shows "ump_system_ok quiet t"
proof -
  obtain n where ok: "ump_ok n K w" and q: "quiet \<longrightarrow> n = 0" using assms(2) by auto
  from assms(1) show ?thesis
  proof cases
    case (opened env minor err r w')
    show ?thesis by (rule file_open_step[OF ok opened(2), of minor]) (use opened(1,3) q in \<open>simp, blast\<close>)
  next
    case (closed s d env err w')
    show ?thesis by (rule file_release_step[OF ok closed(2,3), of env]) (use closed(1,4,5) q ump_system_okI in auto)
  next
    case (request s r env acc u err ans calls w')
    then obtain d where d: "sessions w s = Some d" by auto
    show ?thesis by (rule ioctl_step[OF ok request(4,5) d request(3), of acc u]) (use request(1,6,7) q ump_system_okI in auto)
  next
    case (mmap s v y env err w')
    then obtain d where d: "sessions w s = Some d" by auto
    show ?thesis by (rule ump_mmap_step[OF ok mmap(3-5) d mmap(7,8,6)]) (use mmap(1,9,10) q ump_system_okI in auto)
  next
    case (copy v y u y' t' w')
    show ?thesis by (rule copy_step[OF ok copy(2-8)]) (use copy(1,9) q in auto)
  next
    case (cut v y y')
    show ?thesis using cut_step[OF ok cut(2-4)] cut(1) q by auto
  next
    case (close_vma v y env w')
    show ?thesis by (rule close_vma_step[OF ok close_vma(2,3), of env]) (use close_vma(1,4,5) q ump_system_okI in auto)
  next
    case (create env blocks p w')
    show ?thesis by (rule phys_blocks_step[OF ok create(2,3), of blocks]) (use create(1,4) q in \<open>auto split: if_splits\<close>)
  next
    case (look_up sid p w')
    show ?thesis by (rule lookup_step[OF ok look_up(2,3)]) (use look_up(1,4) q ok in auto)
  next
    case (hold p w')
    have h: "p \<in> dom (mems w)" using hold(2) handles_okD(3)[OF ump_partsD(1)[OF ok[unfolded ump_ok_def]]] by auto
    show ?thesis by (rule add_step[OF ok h hold(3)]) (use hold(1,4) q in auto)
  next
    case (drop p env w')
    have d: "ump_ok n (add_mset p (K - {#p#})) w" using ok drop(2) by simp
    show ?thesis by (rule release_step[OF d, of env]) (use drop(1,3,4) q ump_system_okI in auto)
  qed
qed

lemma reach_ump_ok:
  assumes "(ump_step quiet)\<^sup>*\<^sup>* ({#}, w0) x" "ump_starts w0"
  shows "ump_system_ok quiet x"
  using assms(1)
proof (induction rule: rtranclp_induct)
  case base
  then show ?case using start_ok[OF assms(2)] by auto
next
  case (step y z)
  then show ?case using step_ump_system_ok by (cases y) auto
qed

end
