(* ===== verification/Ump_Demo.thy ===== *)
theory Ump_Demo
  imports Ump_Reach
begin

text \<open>
  A small system, for concrete runs: a process opens the device, allocates 5000 bytes of cached memory, which
  are two pages, and maps them at 1 GB.
\<close>

definition ump_demo_env :: ump_env where
  "ump_demo_env = \<lparr>new_mem = Some 100, new_allocation = Some 200, new_tracker = Some 300, new_session = Some 400,
     new_element = True, new_array = True, new_lock = True, new_mapping = True, map_lock = True, table_calloc = Some (\<lambda>_. 0),
     vmalloc = Some \<lparr>block_addr = 0, block_size = 0\<rparr>, interrupted = \<lambda>_. False,
     ump_alloc_page = (\<lambda>_. None)(0 \<mapsto> 0x10000000, 1 \<mapsto> 0x10002000), remap = \<lambda>_. True, mem_region = True\<rparr>"

definition ump_demo_env1 :: ump_env where
  "ump_demo_env1 = ump_demo_env\<lparr>new_session := None\<rparr>"

text \<open>Later calls of the operating system give out nothing that is in use.\<close>

definition ump_demo_env2 :: ump_env where
  "ump_demo_env2 = ump_demo_env\<lparr>new_mem := None, new_session := None, ump_alloc_page := \<lambda>_. None\<rparr>"

definition ump_demo_env3 :: ump_env where
  "ump_demo_env3 = ump_demo_env2\<lparr>new_allocation := None, new_tracker := None\<rparr>"

definition ump_demo_user :: user_copy where
  "ump_demo_user = \<lparr>argument = True, copy_in = True, copy_out = True\<rparr>"

definition ump_demo_start :: ump_state where
  "ump_demo_start = the (snd (the (ump_kernel_constructor ump_demo_env True 1 0 0x100000 True)))"

definition ump_demo_opened :: ump_state where
  "ump_demo_opened = snd (snd (the (ump_file_open ump_demo_env 0 ump_demo_start)))"

abbreviation ump_demo_request :: ump_request where "ump_demo_request \<equiv> Allocate_request 5000 4"

definition ump_demo_allocated :: ump_state where
  "ump_demo_allocated = snd (snd (snd (the (ump_file_ioctl ump_demo_env1 (\<lambda>_ _. True) ump_demo_user 400 ump_demo_request ump_demo_opened))))"

definition ump_demo_vma :: ump_vma where
  "ump_demo_vma = \<lparr>ump_vm_start = 0x40000000, ump_vm_end = 0x40002000, ump_vm_pgoff = 1, ump_vm_shared = True,
     ump_vm_writecombine = False, ump_vm_private_data = 0, ump_vm_pages = []\<rparr>"

definition ump_demo_mapped :: ump_state where
  "ump_demo_mapped = snd (the (linux_mmap ump_demo_env2 400 500 ump_demo_vma ump_demo_allocated))"

declare find_first_zero_loop.simps [code] ump_release_blocks.simps [code] ump_put_back.simps [code] ump_take_pages.simps [code] ump_take_blocks.simps [code]

subsection \<open>Its run\<close>

lemma demo_starts: "ump_starts ump_demo_start" "mems ump_demo_start = Map.empty" "sessions ump_demo_start = Map.empty"
  "allocations ump_demo_start = Map.empty" "trackers ump_demo_start = Map.empty" "ump_vmas ump_demo_start = Map.empty"
proof -
  have "map_option (\<lambda>(e, w). (e, Option.is_none w)) (ump_kernel_constructor ump_demo_env True 1 0 0x100000 True) = Some (0, False)"
    by code_simp
  then obtain w where w: "ump_kernel_constructor ump_demo_env True 1 0 0x100000 True = Some (0, Some w)"
    by (auto simp: Option.is_none_def)
  then have e: "ump_demo_start = w" by (simp add: ump_demo_start_def)
  have "region_fits 0 0x100000" by (simp add: region_fits_def blocks_needed_def)
  then show "ump_starts ump_demo_start"
    unfolding ump_starts_def e
    by (intro exI[of _ ump_demo_env] exI[of _ True] exI[of _ 1] exI[of _ 0] exI[of _ "0x100000"]) (use w in simp)
  show "mems ump_demo_start = Map.empty" "sessions ump_demo_start = Map.empty"
    "allocations ump_demo_start = Map.empty" "trackers ump_demo_start = Map.empty" "ump_vmas ump_demo_start = Map.empty"
    unfolding e by (rule constructor_cases[of ump_demo_env True 1 0 "0x100000" True w]; use w in simp)+
qed

lemma demo_calm [simp]: "calm quiet ump_demo_env" "calm quiet ump_demo_env1" "calm quiet ump_demo_env2" "calm quiet ump_demo_env3"
  by (simp_all add: calm_def ump_demo_env_def ump_demo_env1_def ump_demo_env2_def ump_demo_env3_def)

lemma demo_pages: "fresh_pages ump_demo_env {#}"
  by (auto simp: fresh_pages_def ump_demo_env_def split: if_splits)

lemma demo_env_ok: "env_ok ump_demo_env ump_demo_start"
  using demo_pages by (simp add: env_ok_def demo_starts) (simp add: ump_demo_env_def)

text \<open>The device is opened.\<close>

lemma demo_opened:
  "ump_file_open ump_demo_env 0 ump_demo_start = Some (0, Some 400, ump_demo_opened)"
  "\<exists>d. sessions ump_demo_opened = [400 \<mapsto> d] \<and> session_memory_list d = [] \<and> session_mappings_list d = []"
  "mems ump_demo_opened = Map.empty" "allocations ump_demo_opened = Map.empty" "trackers ump_demo_opened = Map.empty"
  "ump_vmas ump_demo_opened = Map.empty" "(ump_step quiet)\<^sup>*\<^sup>* ({#}, ump_demo_start) ({#}, ump_demo_opened)"
proof -
  have "map_option (\<lambda>(e, s, w). (e, s)) (ump_file_open ump_demo_env 0 ump_demo_start) = Some (0, Some 400)"
    by code_simp
  then show o: "ump_file_open ump_demo_env 0 ump_demo_start = Some (0, Some 400, ump_demo_opened)"
    by (auto simp: ump_demo_opened_def)
  obtain e r w' where s: "ump_ukk_open ump_demo_env ump_demo_start = Some (e, r, w')" "ump_ok 0 {#} w'"
    "if e = osk_code ERR_OK then \<exists>s d. r = Some s \<and> new_session ump_demo_env = Some s \<and> w' = set_session s (Some d) ump_demo_start \<and>
       session_memory_list d = [] \<and> session_mappings_list d = [] \<and> map_contents (cookies_map d) = Map.empty
     else r = None \<and> w' = ump_demo_start"
    by (rule open_step[OF start_ok[OF demo_starts(1)] demo_env_ok])
  have "e = 0" "r = Some 400" "w' = ump_demo_opened" using o s(1) by (auto simp: ump_file_open_def split: if_splits)
  then obtain d where d: "ump_demo_opened = set_session 400 (Some d) ump_demo_start" "session_memory_list d = []"
    "session_mappings_list d = []" using s(3) by auto
  have "sessions ump_demo_opened = [400 \<mapsto> d]" by (simp add: d(1) demo_starts)
  then show "\<exists>d. sessions ump_demo_opened = [400 \<mapsto> d] \<and> session_memory_list d = [] \<and> session_mappings_list d = []"
    using d(2,3) by blast
  show "mems ump_demo_opened = Map.empty" "allocations ump_demo_opened = Map.empty" "trackers ump_demo_opened = Map.empty"
    "ump_vmas ump_demo_opened = Map.empty" by (simp_all add: d(1) demo_starts)
  show "(ump_step quiet)\<^sup>*\<^sup>* ({#}, ump_demo_start) ({#}, ump_demo_opened)"
    by (rule r_into_rtranclp, rule ump_step.opened[OF demo_env_ok o])
qed

lemma demo_opened_refs: "session_refs (sessions ump_demo_opened) = {#}" "few_references {#} ump_demo_opened"
proof -
  obtain d where d: "sessions ump_demo_opened = [400 \<mapsto> d]" "session_memory_list d = []" using demo_opened(2) by blast
  show r: "session_refs (sessions ump_demo_opened) = {#}"
    using map_sum_new[of Map.empty 400 "mset \<circ> session_memory_list" d] by (simp add: session_refs_def d)
  show "few_references {#} ump_demo_opened"
    by (simp add: few_references_def r demo_opened(4) mapping_refs_def)
qed

lemma demo_opened_env: "env_ok ump_demo_env1 ump_demo_opened"
proof -
  have "fresh_pages ump_demo_env1 {#}" using demo_pages by (simp add: fresh_pages_def ump_demo_env1_def)
  then show ?thesis by (simp add: env_ok_def demo_opened) (simp add: ump_demo_env1_def ump_demo_env_def)
qed

text \<open>Two pages are allocated.\<close>

lemma demo_allocated:
  "ump_file_ioctl ump_demo_env1 (\<lambda>_ _. True) ump_demo_user 400 ump_demo_request ump_demo_opened =
     Some (0, Allocate_answer 1 8192, [], ump_demo_allocated)"
  "\<exists>d. sessions ump_demo_allocated = [400 \<mapsto> d] \<and> session_memory_list d = [100] \<and> session_mappings_list d = []"
  "\<exists>m. mems ump_demo_allocated = [100 \<mapsto> m] \<and> ref_count m = 1 \<and> release_func m = Backend_release \<and> secure_id m = 1 \<and> size_bytes m = 8192"
  "allocations ump_demo_allocated = Map.empty" "trackers ump_demo_allocated = Map.empty" "ump_vmas ump_demo_allocated = Map.empty"
  "(ump_step quiet)\<^sup>*\<^sup>* ({#}, ump_demo_start) ({#}, ump_demo_allocated)"
proof -
  have "map_option (\<lambda>(e, s, w). (e, s)) (ump_file_ioctl ump_demo_env1 (\<lambda>_ _. True) ump_demo_user 400 ump_demo_request ump_demo_opened) =
      Some (0, Allocate_answer 1 8192)" by code_simp
  moreover have "fst (snd (snd (the (ump_file_ioctl ump_demo_env1 (\<lambda>_ _. True) ump_demo_user 400 ump_demo_request ump_demo_opened)))) = []"
    by code_simp
  ultimately show i: "ump_file_ioctl ump_demo_env1 (\<lambda>_ _. True) ump_demo_user 400 ump_demo_request ump_demo_opened =
     Some (0, Allocate_answer 1 8192, [], ump_demo_allocated)" by (auto simp: ump_demo_allocated_def)
  obtain d where d: "sessions ump_demo_opened = [400 \<mapsto> d]" "session_memory_list d = []" "session_mappings_list d = []"
    using demo_opened(2) by blast
  have ok: "ump_ok 0 {#} ump_demo_opened" using reach_ump_ok[OF demo_opened(7)[of True] demo_starts(1)] by auto
  let ?args = "\<lparr>allocate_ctx = 400, allocate_secure_id = 0, allocate_size = 5000, allocate_constraints = 4\<rparr>"
  have nw: "no_wrap 5000" by (simp add: no_wrap_def)
  obtain e args' w' where s: "ump_ukk_allocate ump_demo_env1 ?args ump_demo_opened = Some (e, args', w')"
    "if e = osk_code ERR_OK
     then \<exists>p m. new_mem ump_demo_env1 = Some p \<and> mems w' = (mems ump_demo_opened)(p \<mapsto> m) \<and> ref_count m = 1 \<and> release_func m = Backend_release \<and>
       allocate_secure_id args' = secure_id m \<and> allocate_size args' = size_bytes m \<and>
       max 1 (unat (allocate_size ?args)) \<le> unat (size_bytes m) \<and>
       w' = set_session (allocate_ctx ?args) (Some (d\<lparr>session_memory_list := p # session_memory_list d\<rparr>))
         (ump_demo_opened\<lparr>secure_id_map := secure_id_map w', backend := backend w', mems := mems w'\<rparr>)
     else mems w' = mems ump_demo_opened \<and> same_user w' ump_demo_opened"
    by (rule allocate_step[OF ok demo_opened_refs(2) demo_opened_env, of ?args d]) (use d nw in simp_all)
  have e: "e = 0" "allocate_secure_id args' = 1" "allocate_size args' = 8192" "w' = ump_demo_allocated"
    using i s(1) by (auto simp: ump_file_ioctl_def ump_allocate_wrapper_def ump_demo_user_def split: if_splits)
  obtain p m where m: "p = 100" "mems ump_demo_allocated = (mems ump_demo_opened)(p \<mapsto> m)" "ref_count m = 1" "release_func m = Backend_release"
    "secure_id m = 1" "size_bytes m = 8192" "ump_demo_allocated = set_session 400 (Some (d\<lparr>session_memory_list := p # session_memory_list d\<rparr>))
         (ump_demo_opened\<lparr>secure_id_map := secure_id_map ump_demo_allocated, backend := backend ump_demo_allocated,
           mems := mems ump_demo_allocated\<rparr>)"
    using s(2) e by (auto simp: ump_demo_env1_def ump_demo_env_def)
  have "mems ump_demo_allocated = [100 \<mapsto> m]" using m(1,2) demo_opened(3) by simp
  then show "\<exists>m. mems ump_demo_allocated = [100 \<mapsto> m] \<and> ref_count m = 1 \<and> release_func m = Backend_release \<and> secure_id m = 1 \<and> size_bytes m = 8192"
    using m(3-6) by blast
  have "sessions ump_demo_allocated = [400 \<mapsto> d\<lparr>session_memory_list := [100]\<rparr>]"
    by (subst m(7)) (simp add: d m(1))
  then show "\<exists>d. sessions ump_demo_allocated = [400 \<mapsto> d] \<and> session_memory_list d = [100] \<and> session_mappings_list d = []"
    using d(3) by (intro exI[of _ "d\<lparr>session_memory_list := [100]\<rparr>"]) simp
  show "allocations ump_demo_allocated = Map.empty" "trackers ump_demo_allocated = Map.empty" "ump_vmas ump_demo_allocated = Map.empty"
    by (subst m(7), simp add: demo_opened)+
  have "ump_step quiet ({#}, ump_demo_opened) ({#}, ump_demo_allocated)"
    by (rule ump_step.request[OF _ _ demo_opened_refs(2) demo_opened_env _ i]) (use d nw in simp_all)
  then show "(ump_step quiet)\<^sup>*\<^sup>* ({#}, ump_demo_start) ({#}, ump_demo_allocated)"
    by (rule rtranclp.rtrancl_into_rtrancl[OF demo_opened(7)])
qed

lemma demo_allocated_refs: "session_refs (sessions ump_demo_allocated) = {#100#}" "few_references {#} ump_demo_allocated"
proof -
  obtain d where d: "sessions ump_demo_allocated = [400 \<mapsto> d]" "session_memory_list d = [100]" using demo_allocated(2) by blast
  show r: "session_refs (sessions ump_demo_allocated) = {#100#}"
    using map_sum_new[of Map.empty 400 "mset \<circ> session_memory_list" d] by (simp add: session_refs_def d)
  show "few_references {#} ump_demo_allocated"
    by (simp add: few_references_def r demo_allocated(4) mapping_refs_def)
qed

lemma demo_allocated_env: "env_ok ump_demo_env2 ump_demo_allocated"
  by (simp add: env_ok_def demo_allocated(4,5) fresh_pages_def) (simp add: ump_demo_env2_def ump_demo_env_def)

text \<open>They are mapped.\<close>

lemma demo_mapped:
  "linux_mmap ump_demo_env2 400 500 ump_demo_vma ump_demo_allocated = Some (0, ump_demo_mapped)"
  "is_mapped 400 500 1 8192 ump_demo_vma ump_demo_mapped"
  "(ump_step quiet)\<^sup>*\<^sup>* ({#}, ump_demo_start) ({#}, ump_demo_mapped)"
proof -
  have "map_option fst (linux_mmap ump_demo_env2 400 500 ump_demo_vma ump_demo_allocated) = Some 0" by code_simp
  then show i: "linux_mmap ump_demo_env2 400 500 ump_demo_vma ump_demo_allocated = Some (0, ump_demo_mapped)"
    by (auto simp: ump_demo_mapped_def)
  obtain d where d: "sessions ump_demo_allocated 400 = Some d" using demo_allocated(2) by auto
  have ok: "ump_ok 0 {#} ump_demo_allocated" using reach_ump_ok[OF demo_allocated(7)[of True] demo_starts(1)] by auto
  have v: "ump_vmas ump_demo_allocated 500 = None" "(500 :: ptr) \<noteq> 0" "ump_vm_pages ump_demo_vma = []"
    "sint (ump_vm_pgoff ump_demo_vma) \<noteq> 0" by (simp_all add: demo_allocated ump_demo_vma_def)
  show "is_mapped 400 500 1 8192 ump_demo_vma ump_demo_mapped"
  proof (rule ump_mmap_step[OF ok v(1-3) d demo_allocated_refs(2) demo_allocated_env v(4)])
    fix err w' and n' :: nat
    assume r: "linux_mmap ump_demo_env2 400 500 ump_demo_vma ump_demo_allocated = Some (err, w')"
      "err = 0 \<Longrightarrow> is_mapped 400 500 (ump_vm_pgoff ump_demo_vma) (ump_vm_end ump_demo_vma - ump_vm_start ump_demo_vma) ump_demo_vma w'"
    then show ?thesis using i by (simp add: ump_demo_vma_def)
  qed
  have "ump_step quiet ({#}, ump_demo_allocated) ({#}, ump_demo_mapped)"
    by (rule ump_step.mmap[OF _ v demo_allocated_refs(2) demo_allocated_env _ i]) (use d in auto)
  then show "(ump_step quiet)\<^sup>*\<^sup>* ({#}, ump_demo_start) ({#}, ump_demo_mapped)"
    by (rule rtranclp.rtrancl_into_rtrancl[OF demo_allocated(7)])
qed

text \<open>The device is closed instead.\<close>

lemma demo_closed:
  obtains w where "ump_file_release ump_demo_env2 400 ump_demo_allocated = Some (0, w)" "sessions w = Map.empty"
    "(ump_step quiet)\<^sup>*\<^sup>* ({#}, ump_demo_start) ({#}, w)"
proof -
  obtain d where d: "sessions ump_demo_allocated = [400 \<mapsto> d]" "session_mappings_list d = []" using demo_allocated(2) by blast
  then have s: "sessions ump_demo_allocated 400 = Some d" by simp
  have ok: "ump_ok 0 {#} ump_demo_allocated" using reach_ump_ok[OF demo_allocated(7)[of True] demo_starts(1)] by auto
  obtain w n' where w: "ump_ukk_close ump_demo_env2 400 ump_demo_allocated = Some (osk_code ERR_OK, w)"
    "same_user w (set_session 400 None ump_demo_allocated)"
    by (rule close_step[OF ok s d(2), of ump_demo_env2])
  have r: "ump_file_release ump_demo_env2 400 ump_demo_allocated = Some (0, w)" using w(1) by (simp add: ump_file_release_def)
  have e: "sessions w = Map.empty" using w(2) d(1) by (simp add: same_user_def)
  have "ump_step quiet ({#}, ump_demo_allocated) ({#}, w)" by (rule ump_step.closed[OF s d(2) _ r]) simp
  then have "(ump_step quiet)\<^sup>*\<^sup>* ({#}, ump_demo_start) ({#}, w)" by (rule rtranclp.rtrancl_into_rtrancl[OF demo_allocated(7)])
  then show ?thesis using that[OF r e] by blast
qed

text \<open>Another driver makes a handle for memory of its own.\<close>

definition ump_demo_created :: ump_state where
  "ump_demo_created = snd (the (ump_dd_handle_create_from_phys_blocks ump_demo_env1 [\<lparr>block_addr = 0x20000000, block_size = 4096\<rparr>]
     ump_demo_opened))"

lemma demo_created:
  "(ump_step quiet)\<^sup>*\<^sup>* ({#}, ump_demo_start) ({#100#}, ump_demo_created)"
  "\<exists>m. mems ump_demo_created 100 = Some m \<and> ref_count m = 1 \<and> sint (secure_id m) = 1"
  "\<exists>w'. ump_dd_reference_release ump_demo_env2 100 ump_demo_created = Some w'"
proof -
  let ?c = "ump_dd_handle_create_from_phys_blocks ump_demo_env1 [\<lparr>block_addr = 0x20000000, block_size = 4096\<rparr>] ump_demo_opened"
  have "map_option fst ?c = Some 100" by code_simp
  then have c: "?c = Some (100, ump_demo_created)" by (auto simp: ump_demo_created_def)
  have "ump_step quiet ({#}, ump_demo_opened) (if (100 :: ptr) = UMP_DD_HANDLE_INVALID then {#} else {#100#}, ump_demo_created)"
    by (rule ump_step.create[OF demo_opened_refs(2) demo_opened_env c])
  then have s: "ump_step quiet ({#}, ump_demo_opened) ({#100#}, ump_demo_created)"
    by (simp add: UMP_DD_HANDLE_INVALID_def)
  show "(ump_step quiet)\<^sup>*\<^sup>* ({#}, ump_demo_start) ({#100#}, ump_demo_created)"
    by (rule rtranclp.rtrancl_into_rtrancl[OF demo_opened(7) s])
  have "map_option (\<lambda>m. (ref_count m, sint (secure_id m))) (mems ump_demo_created 100) = Some (1, 1)" by code_simp
  then show "\<exists>m. mems ump_demo_created 100 = Some m \<and> ref_count m = 1 \<and> sint (secure_id m) = 1" by auto
  have "Option.is_none (ump_dd_reference_release ump_demo_env2 100 ump_demo_created) = False" by code_simp
  then show "\<exists>w'. ump_dd_reference_release ump_demo_env2 100 ump_demo_created = Some w'" by (auto simp: Option.is_none_def split: option.splits)
qed

text \<open>A part of the memory is flushed that crosses from the first page to the second.\<close>

definition ump_demo_msync :: ump_uk_msync_s where
  "ump_demo_msync = \<lparr>msync_mapping = 0x40000000, msync_address = 0x40000800, msync_size = 0x1000, msync_op = 0,
     msync_secure_id = 1, msync_is_cached = False\<rparr>"

abbreviation demo_blocks :: "ump_dd_physical_block list" where
  "demo_blocks \<equiv> [\<lparr>block_addr = 0x10000000, block_size = 4096\<rparr>, \<lparr>block_addr = 0x10002000, block_size = 4096\<rparr>]"

abbreviation demo_calls :: "cache_call list" where
  "demo_calls \<equiv> [Dmac_flush_range 0x40000800 0x400017FF, Outer_clean_range 0x10000800 0x10000FFF,
     Outer_clean_range 0x10002000 0x100027FF]"

lemma demo_msync:
  obtains m args' w' where "mems ump_demo_allocated 100 = Some m" "release_func m = Backend_release" "is_cached m" "secure_id m = 1"
    "size_bytes m = 8192" "block_array m = Some demo_blocks"
    "ump_ukk_msync ump_demo_env2 (\<lambda>_ _. True) ump_demo_msync ump_demo_allocated = Some (args', demo_calls, w')"
proof -
  have "map_option (\<lambda>m. (release_func m, is_cached m, secure_id m, size_bytes m, block_array m)) (mems ump_demo_allocated 100) =
      Some (Backend_release, True, 1, 8192, Some demo_blocks)" by code_simp
  moreover have "map_option (\<lambda>(a, c, w). c) (ump_ukk_msync ump_demo_env2 (\<lambda>_ _. True) ump_demo_msync ump_demo_allocated) = Some demo_calls"
    by code_simp
  ultimately show ?thesis using that by auto
qed

text \<open>The dedicated backend, for a size that wraps.\<close>

definition ump_demo_dedicated :: ump_state where
  "ump_demo_dedicated = the (snd (the (ump_kernel_constructor ump_demo_env True 0 0x80000000 0x100000 True)))"

lemma demo_dedicated:
  obtains a ids where "backend ump_demo_dedicated = Dedicated_backend a"
    "returned (ump_descriptor_mapping_allocate_mapping (table_calloc ump_demo_env) (secure_id_map ump_demo_dedicated) 100) = Some (1, ids)"
proof -
  have "(case backend ump_demo_dedicated of Dedicated_backend a \<Rightarrow> True | Os_backend a \<Rightarrow> False)" by code_simp
  moreover have "map_option fst (returned (ump_descriptor_mapping_allocate_mapping (table_calloc ump_demo_env)
      (secure_id_map ump_demo_dedicated) 100)) = Some 1" by code_simp
  ultimately show ?thesis using that by (auto split: ump_backend.splits)
qed

text \<open>The process that maps the memory forks.\<close>

definition ump_demo_forked :: ump_state where
  "ump_demo_forked = the (linux_copy_vma 500 600 (the (ump_vmas ump_demo_mapped 500)) ump_demo_mapped)"

lemma demo_forked:
  obtains y t x where "(ump_step quiet)\<^sup>*\<^sup>* ({#}, ump_demo_start) ({#}, ump_demo_forked)"
    "ump_vmas ump_demo_forked 500 = Some y" "ump_vmas ump_demo_forked 600 = Some y"
    "trackers ump_demo_forked (ump_vm_private_data y) = Some t" "tracker_references t = 2"
    "allocations ump_demo_forked (tracker_descriptor t) = Some x" "process_mapping_info x = 500"
proof -
  have f: "map_option ump_vm_private_data (ump_vmas ump_demo_mapped 500) = Some 300"
    "map_option tracker_references (trackers ump_demo_mapped 300) = Some 1" "Option.is_none (ump_vmas ump_demo_mapped 600)"
    "Option.is_none (linux_copy_vma 500 600 (the (ump_vmas ump_demo_mapped 500)) ump_demo_mapped) = False"
    "map_option (\<lambda>t. (tracker_references t, tracker_descriptor t)) (trackers ump_demo_forked 300) = Some (2, 200)"
    "map_option process_mapping_info (allocations ump_demo_forked 200) = Some 500"
    by code_simp+
  obtain y t where y: "ump_vmas ump_demo_mapped 500 = Some y" "ump_vm_private_data y = 300" "trackers ump_demo_mapped 300 = Some t"
    "tracker_references t = 1" using f(1,2) by auto
  have n: "ump_vmas ump_demo_mapped 600 = None" using f(3) by (simp add: Option.is_none_def)
  have c: "linux_copy_vma 500 600 y ump_demo_mapped = Some ump_demo_forked"
    using f(4) y(1) by (auto simp: ump_demo_forked_def Option.is_none_def split: option.splits)
  have ty: "trackers ump_demo_mapped (ump_vm_private_data y) = Some t" "tracker_references t + 1 < 2 ^ 31" using y by simp_all
  have "ump_step quiet ({#}, ump_demo_mapped) ({#}, ump_demo_forked)"
    by (rule ump_step.copy[OF y(1) n _ refl order_refl ty c]) simp
  then have r: "(ump_step quiet)\<^sup>*\<^sup>* ({#}, ump_demo_start) ({#}, ump_demo_forked)"
    by (rule rtranclp.rtrancl_into_rtrancl[OF demo_mapped(3)])
  have "ump_vmas ump_demo_forked = (ump_vmas ump_demo_mapped)(600 \<mapsto> y)"
    using c y by (auto simp: linux_copy_vma_def ump_vma_open_def dest!: arg_cong[where f = ump_vmas] split: if_splits)
  then have v: "ump_vmas ump_demo_forked 500 = Some y" "ump_vmas ump_demo_forked 600 = Some y" using y(1) by simp_all
  obtain t' x where "trackers ump_demo_forked 300 = Some t'" "tracker_references t' = 2" "tracker_descriptor t' = 200"
    "allocations ump_demo_forked 200 = Some x" "process_mapping_info x = 500" using f(5,6) by auto
  then show ?thesis using that[OF r v] y(2) by auto
qed

end
