(* ===== verification/Ump_Bytes.thy ===== *)
theory Ump_Bytes
  imports Ump_Mapping
begin

text \<open>
  Which bytes of physical memory the maintenance of the caches and a mapping reach: the bytes of a memory are
  those of its blocks, one block after the other.
\<close>

subsection \<open>Bytes\<close>

definition memory_bytes :: "ump_dd_physical_block list \<Rightarrow> nat list" where
  "memory_bytes bs = concat (map (\<lambda>b. [unat (block_addr b)..<unat (block_addr b) + unat (block_size b)]) bs)"

lemma memory_bytes_simps [simp]:
  "memory_bytes [] = []"
  "memory_bytes (b # bs) = [unat (block_addr b)..<unat (block_addr b) + unat (block_size b)] @ memory_bytes bs"
  by (simp_all add: memory_bytes_def)

lemma memory_bytes_length: "length (memory_bytes bs) = sum_list (map (unat \<circ> block_size) bs)"
  by (induction bs) simp_all

lemma memory_bytes_set: "set (memory_bytes bs) = (\<Union>b \<in> set bs. byte_range b)"
  by (induction bs) (auto simp: byte_range_def)

text \<open>
  Linux documents the end of a range of the second level cache as exclusive, the first byte that is not
  handled.  The first level cache is not called by physical addresses.
\<close>

fun range_bytes :: "cache_call \<Rightarrow> nat list" where
  "range_bytes (Outer_clean_range s e) = [unat s..<unat e]"
| "range_bytes (Outer_flush_range s e) = [unat s..<unat e]"
| "range_bytes (Dmac_flush_range s e) = []"

lemma range_bytes_outer:
  "op = UMP_UK_MSYNC_CLEAN \<or> op = UMP_UK_MSYNC_CLEAN_AND_INVALIDATE \<Longrightarrow> map range_bytes (outer_range op s e) = [[unat s..<unat e]]"
  by (auto simp: outer_range_def)

text \<open>The bytes of a range with its end, for what is reached at most.\<close>

fun closed_range :: "cache_call \<Rightarrow> nat set" where
  "closed_range (Outer_clean_range s e) = {unat s..unat e}"
| "closed_range (Outer_flush_range s e) = {unat s..unat e}"
| "closed_range (Dmac_flush_range s e) = {}"

text \<open>A part of a memory is cut into pieces by the ends of the blocks; each piece is in one block.\<close>

definition cut :: "ump_dd_physical_block list \<Rightarrow> nat list \<Rightarrow> nat list list \<Rightarrow> bool" where
  "cut bs part ps \<longleftrightarrow> concat ps = part \<and> (\<forall>p \<in> set ps. p \<noteq> [] \<and> (\<exists>b \<in> set bs. set p \<subseteq> byte_range b))"

lemma cut_Nil: "cut bs [] []"
  by (simp add: cut_def)

lemma cut_more: "cut bs part ps \<Longrightarrow> set bs \<subseteq> set bs' \<Longrightarrow> cut bs' part ps"
  unfolding cut_def by blast

lemma cut_Cons: "cut bs part ps \<Longrightarrow> p \<noteq> [] \<Longrightarrow> b \<in> set bs \<Longrightarrow> set p \<subseteq> byte_range b \<Longrightarrow> cut bs (p @ part) (p # ps)"
  by (auto simp: cut_def)

subsection \<open>Flushing\<close>

text \<open>One block of the loop, with the two cases of an offset in one.\<close>

lemma flush_block:
  "flush_blocks op offset sz (b # bs) =
     (if block_size b \<le> offset then flush_blocks op (offset - block_size b) sz bs
      else if sz < block_size b - offset then outer_range op (block_addr b + offset) (block_addr b + offset + sz - 1)
      else outer_range op (block_addr b + offset) (block_addr b + block_size b - 1) @
        (if sz - (block_size b - offset) = 0 then [] else flush_blocks op 0 (sz - (block_size b - offset)) bs))"
proof (cases "offset = 0")
  case True
  then show ?thesis by (simp add: Let_def)
next
  case False
  then show ?thesis by (simp add: Let_def add_diff_eq)
qed

declare flush_blocks.simps(2) [simp del]

text \<open>The numbers of one block.\<close>

lemma last_byte:
  fixes a n :: u32
  assumes "n \<noteq> 0" "unat a + unat n \<le> 2 ^ 32"
  shows "unat (a + n - 1) = unat a + unat n - 1"
proof -
  have n: "0 < unat n" "unat (n - 1) = unat n - 1"
    using assms(1) by (simp_all add: unat_gt_0 unat_sub word_le_nat_alt Suc_le_eq)
  have "a + n - 1 = a + (n - 1)" by simp
  then show ?thesis using n assms(2) by (simp only: unat_word_ariths) simp
qed

lemma block_numbers:
  fixes a n offset sz :: u32
  assumes "unat a + unat n \<le> 2 ^ 32" "\<not> n \<le> offset"
  shows "unat (a + offset) = unat a + unat offset" "unat (n - offset) = unat n - unat offset"
    "unat (a + n - 1) = unat a + unat n - 1" "unat offset < unat n"
    "sz < n - offset \<longleftrightarrow> unat sz < unat n - unat offset"
    "sz < n - offset \<Longrightarrow> sz \<noteq> 0 \<Longrightarrow> unat (a + offset + sz - 1) = unat a + unat offset + unat sz - 1"
    "\<not> sz < n - offset \<Longrightarrow> unat (sz - (n - offset)) = unat sz - (unat n - unat offset)"
proof -
  show l: "unat offset < unat n" using assms(2) by (simp add: word_le_nat_alt)
  show p: "unat (a + offset) = unat a + unat offset" using assms(1) l by (simp add: unat_word_ariths)
  show d: "unat (n - offset) = unat n - unat offset" by (rule unat_sub) (use l in \<open>simp add: word_le_nat_alt\<close>)
  show e: "sz < n - offset \<longleftrightarrow> unat sz < unat n - unat offset" by (simp add: word_less_nat_alt d)
  show "unat (a + n - 1) = unat a + unat n - 1" by (rule last_byte[OF _ assms(1)]) (use l in auto)
  show "unat (a + offset + sz - 1) = unat a + unat offset + unat sz - 1" if "sz < n - offset" "sz \<noteq> 0"
    using last_byte[OF that(2), of "a + offset"] that(1) assms(1) l by (simp add: p e)
  show "unat (sz - (n - offset)) = unat sz - (unat n - unat offset)" if "\<not> sz < n - offset"
    unfolding d[symmetric] by (rule unat_sub) (use that in simp)
qed

lemma butlast_upt [simp]: "butlast [m..<n] = [m..<n - 1]"
  by (cases "m < n") (simp_all add: butlast_conv_take take_upt)

text \<open>
  The second level cache is called once for each piece of the part asked for, with all of its bytes but the
  last one.
\<close>

lemma flush_exact:
  assumes "\<forall>b \<in> set bs. block_wf b" "sz \<noteq> 0" "unat offset + unat sz \<le> length (memory_bytes bs)"
    and op: "op = UMP_UK_MSYNC_CLEAN \<or> op = UMP_UK_MSYNC_CLEAN_AND_INVALIDATE"
  shows "\<exists>ps. cut bs (take (unat sz) (drop (unat offset) (memory_bytes bs))) ps \<and>
    map range_bytes (flush_blocks op offset sz bs) = map butlast ps"
  using assms(1-3)
proof (induction bs arbitrary: offset sz)
  case Nil
  then show ?case by (simp add: unat_eq_0)
next
  case (Cons b bs)
  let ?a = "block_addr b" and ?n = "block_size b"
  have wf: "unat ?a + unat ?n \<le> 2 ^ 32" "\<forall>b \<in> set bs. block_wf b" using Cons.prems(1) by (simp_all add: block_wf_def)
  have len: "length (memory_bytes (b # bs)) = unat ?n + length (memory_bytes bs)" by simp
  have sub: "set bs \<subseteq> set (b # bs)" by auto
  show ?case
  proof (cases "?n \<le> offset")
    case True
    then have o: "unat (offset - ?n) = unat offset - unat ?n" "unat ?n \<le> unat offset"
      by (simp_all add: unat_sub word_le_nat_alt)
    have "\<exists>ps. cut bs (take (unat sz) (drop (unat (offset - ?n)) (memory_bytes bs))) ps \<and>
        map range_bytes (flush_blocks op (offset - ?n) sz bs) = map butlast ps"
      by (rule Cons.IH[OF wf(2) Cons.prems(2)]) (use Cons.prems(3) o len in simp)
    then show ?thesis using True o cut_more[OF _ sub] by (simp add: flush_block) blast
  next
    case False
    note nr = block_numbers[OF wf(1) False]
    show ?thesis
    proof (cases "sz < ?n - offset")
      case less: True
      let ?p = "[unat ?a + unat offset..<unat ?a + unat offset + unat sz]"
      have s: "0 < unat sz" using Cons.prems(2) by (simp add: unat_gt_0)
      have "map range_bytes (flush_blocks op offset sz (b # bs)) = [butlast ?p]"
        using less False nr(1) nr(6)[OF less Cons.prems(2)] s by (simp add: flush_block range_bytes_outer[OF op])
      moreover have "?p = take (unat sz) (drop (unat offset) (memory_bytes (b # bs)))"
        using less nr(4) nr(5)[of sz] by (simp add: take_upt)
      moreover have "cut (b # bs) (?p @ []) [?p]"
        by (rule cut_Cons[OF cut_Nil, of _ b]) (use s less nr(5)[of sz] in \<open>auto simp: byte_range_def\<close>)
      ultimately show ?thesis by (intro exI[of _ "[?p]"]) simp
    next
      case more: False
      let ?left = "sz - (?n - offset)" and ?p = "[unat ?a + unat offset..<unat ?a + unat ?n]"
      note l = nr(7)[OF more]
      have s: "unat ?n - unat offset \<le> unat sz" using more nr(5)[of sz] by simp
      obtain ps where ps: "cut bs (take (unat ?left) (memory_bytes bs)) ps"
        "map range_bytes (if ?left = 0 then [] else flush_blocks op 0 ?left bs) = map butlast ps"
      proof (cases "?left = 0")
        case True
        show thesis by (rule that[of "[]"]) (simp_all add: True cut_Nil)
      next
        case nz: False
        have "\<exists>ps. cut bs (take (unat ?left) (drop (unat (0 :: u32)) (memory_bytes bs))) ps \<and>
            map range_bytes (flush_blocks op 0 ?left bs) = map butlast ps"
          by (rule Cons.IH[OF wf(2) nz]) (use Cons.prems(3) l len s nr(4) in simp)
        then show thesis using nz that by auto
      qed
      have "map range_bytes (flush_blocks op offset sz (b # bs)) = map butlast (?p # ps)"
        using more False nr(1,3,4) ps(2) by (simp add: flush_block range_bytes_outer[OF op])
      moreover have "?p @ take (unat ?left) (memory_bytes bs) = take (unat sz) (drop (unat offset) (memory_bytes (b # bs)))"
        using s nr(4) l by simp
      moreover have "cut (b # bs) (?p @ take (unat ?left) (memory_bytes bs)) (?p # ps)"
        by (rule cut_Cons[OF cut_more[OF ps(1) sub], of _ b]) (use nr(4) in \<open>auto simp: byte_range_def\<close>)
      ultimately show ?thesis by (intro exI[of _ "?p # ps"]) simp
    qed
  qed
qed

lemma flush_none: "length (memory_bytes bs) \<le> unat offset \<Longrightarrow> flush_blocks op offset sz bs = []"
proof (induction bs arbitrary: offset)
  case (Cons b bs)
  then have "block_size b \<le> offset" "unat (offset - block_size b) = unat offset - unat (block_size b)"
    by (simp_all add: word_le_nat_alt unat_sub)
  then show ?case using Cons by (simp add: flush_block)
qed simp


text \<open>Whatever is asked for, only bytes of the memory are reached.\<close>

definition within :: "ump_dd_physical_block list \<Rightarrow> cache_call \<Rightarrow> bool" where
  "within bs c \<longleftrightarrow> (\<forall>s e. c \<noteq> Dmac_flush_range s e) \<and> (\<exists>b \<in> set bs. closed_range c \<subseteq> byte_range b)"

lemma outer_within:
  assumes "b \<in> set bs" "unat (block_addr b) \<le> unat s" "unat e < unat (block_addr b) + unat (block_size b)"
  shows "\<forall>c \<in> set (outer_range op s e). within bs c"
  using assms by (auto simp: outer_range_def within_def byte_range_def intro!: bexI[of _ b])

lemma flush_within:
  assumes "\<forall>b \<in> set bs. block_wf b" "sz \<noteq> 0"
  shows "\<forall>c \<in> set (flush_blocks op offset sz bs). within bs c"
  using assms
proof (induction bs arbitrary: offset sz)
  case (Cons b bs)
  let ?a = "block_addr b" and ?n = "block_size b"
  have wf: "unat ?a + unat ?n \<le> 2 ^ 32" "\<forall>b \<in> set bs. block_wf b" using Cons.prems(1) by (simp_all add: block_wf_def)
  have ih: "\<forall>c \<in> set (flush_blocks op o' sz' bs). within (b # bs) c" if "sz' \<noteq> 0" for o' sz'
    using Cons.IH[OF wf(2) that] by (auto simp: within_def)
  show ?case
  proof (cases "?n \<le> offset")
    case True
    then show ?thesis using ih[OF Cons.prems(2)] by (simp add: flush_block)
  next
    case False
    note nr = block_numbers[OF wf(1) False]
    show ?thesis
    proof (cases "sz < ?n - offset")
      case less: True
      have "\<forall>c \<in> set (outer_range op (?a + offset) (?a + offset + sz - 1)). within (b # bs) c"
        by (rule outer_within[of b]) (use nr(1,4) nr(5)[of sz] nr(6)[OF less Cons.prems(2)] less in simp_all)
      then show ?thesis using less False by (simp add: flush_block)
    next
      case more: False
      have "\<forall>c \<in> set (outer_range op (?a + offset) (?a + ?n - 1)). within (b # bs) c"
        by (rule outer_within[of b]) (use nr(1,3,4) in simp_all)
      then show ?thesis using more False ih[of "sz - (?n - offset)" 0] by (cases "sz = ?n - offset") (auto simp: flush_block)
    qed
  qed
qed simp

subsection \<open>Mapping\<close>

fun consecutive :: "u32 \<Rightarrow> (u32 \<times> u32 \<times> u32) list \<Rightarrow> bool" where
  "consecutive virt [] \<longleftrightarrow> True"
| "consecutive virt ((v, p, s) # ps) \<longleftrightarrow> v = virt \<and> consecutive (virt + s) ps"

definition shown_bytes :: "(u32 \<times> u32 \<times> u32) list \<Rightarrow> nat list" where
  "shown_bytes ps = concat (map (\<lambda>(v, p, s). [unat p..<unat p + unat s]) ps)"

lemma page_base_aligned: "4096 dvd unat x \<Longrightarrow> page_base x = x"
proof -
  assume a: "4096 dvd unat x"
  have "unat (take_bit 12 x) = take_bit 12 (unat x)" by (rule unsigned_take_bit_eq)
  then have "take_bit 12 x = 0" using a by (simp add: take_bit_eq_mod unat_eq_0[symmetric])
  then have "push_bit 12 (drop_bit 12 x) = x" using bits_ident[of 12 x] by simp
  then show ?thesis by (simp add: page_base_def)
qed

lemma pieces_consecutive: "consecutive (base + offset) (pieces base offset left bs)"
  by (induction bs arbitrary: offset left) (simp_all add: Let_def add.assoc)

lemma pieces_exact:
  assumes "\<forall>b \<in> set bs. block_wf b" "unat left = sum_list (map (unat \<circ> block_size) bs)"
  shows "shown_bytes (pieces base offset left bs) = memory_bytes bs"
  using assms
proof (induction bs arbitrary: offset left)
  case Nil
  then show ?case by (simp add: shown_bytes_def)
next
  case (Cons b bs)
  have le: "unat (block_size b) \<le> unat left" using Cons.prems(2) by simp
  then have m: "(if block_size b < left then block_size b else left) = block_size b"
    by (auto simp: word_less_nat_alt word_unat_eq_iff)
  have l: "unat (left - block_size b) = sum_list (map (unat \<circ> block_size) bs)"
    using le Cons.prems(2) by (simp add: unat_sub word_le_nat_alt comp_def)
  have "shown_bytes (pieces base (offset + block_size b) (left - block_size b) bs) = memory_bytes bs"
    by (rule Cons.IH[OF _ l]) (use Cons.prems(1) in simp)
  moreover have "page_base (block_addr b) = block_addr b"
    using Cons.prems(1) page_base_aligned by (simp add: block_wf_def)
  ultimately show ?case by (simp add: m Let_def shown_bytes_def)
qed

end
