(* ===== verification/Ump_Properties.thy ===== *)
theory Ump_Properties
  imports Ump_Demo Ump_Bytes
begin

text \<open>The properties of the UMP driver, on all reachable states.\<close>

lemma reached:
  assumes "(ump_step quiet)\<^sup>*\<^sup>* ({#}, w0) (K, w)" "ump_starts w0"
  obtains n where "ump_ok n K w" "quiet \<longrightarrow> n = 0" "ump_parts n K (sessions w) (allocations w) (trackers w) (ump_vmas w) w"
  using reach_ump_ok[OF assms] by (auto simp: ump_ok_def)

lemma live_held: "handles_ok n R w \<Longrightarrow> mems w p = Some m \<Longrightarrow> 0 < ref_count m"
  unfolding handle_okD(1) using handle_okD(2) by (simp only: of_nat_0_less_iff)

lemma sint_zero: "sint (x :: u32) = 0 \<longleftrightarrow> x = 0"
  by (simp add: signed_eq_0_iff)

text \<open>The secure id 0, which is never given out but whose entry is taken, leads to a null pointer.\<close>

lemma zero_fails:
  assumes ok: "ump_ok n K w"
  shows "ump_dd_handle_create_from_secure_id 0 w = None" "ump_ukk_size_get 0 w = None"
proof -
  note h = ump_partsD(1)[OF ok[unfolded ump_ok_def]]
  have m0: "mems w 0 = None" using handle_okD(4)[OF h, of 0] by (cases "mems w 0") auto
  have z: "ump_descriptor_mapping_get (secure_id_map w) 0 = (0, 0)" using lookup_zero handles_okD(1)[OF h] by (simp add: ids_ok_def)
  show "ump_ukk_size_get 0 w = None" using z m0 by (simp add: ump_ukk_size_get_def)
  show "ump_dd_handle_create_from_secure_id 0 w = None" by (rule lookup_zero_fails[OF h])
qed

subsection \<open>No operation fails in the kernel\<close>

text \<open>
  C9: the operations of the driver have a result, no \<open>BUG_ON\<close> is hit, no loop goes round for ever and no memory is
  used that is not there, but for three kinds of calls: with the secure id 0, with a size within a page of 4
  GB, and the end of the first area of a mapping while copies of it are left, all of which fail (C30 to
  C32).  In every state that is reached without such calls, a result have: opening the device, every other
  control request of a session, closing a file without mappings, mapping at an offset other than 0, the end of an area
  that is not the first of its mapping or is the last, and the functions that other drivers call, of which the
  lookup, like the query for the size, has a result exactly for the other secure ids.
\<close>

theorem ump_operations_return:
  assumes "ump_starts w0" "(ump_step quiet)\<^sup>*\<^sup>* ({#}, w0) (K, w)" "few_references K w" "env_ok env w"
  shows "ump_file_open env minor w \<noteq> None \<and>
    (\<forall>s d. sessions w s = Some d \<longrightarrow>
      ((\<forall>sz c. r = Allocate_request sz c \<longrightarrow> unat sz \<le> 2 ^ 32 - 4096) \<and> (\<forall>i. r = Size_get_request i \<longrightarrow> i \<noteq> 0) \<longrightarrow>
        ump_file_ioctl env acc u s r w \<noteq> None) \<and>
      (session_mappings_list d = [] \<longrightarrow> ump_file_release env s w \<noteq> None) \<and>
      (\<forall>v y. ump_vmas w v = None \<and> v \<noteq> 0 \<and> ump_vm_pages y = [] \<and> ump_vm_pgoff y \<noteq> 0 \<longrightarrow> linux_mmap env s v y w \<noteq> None)) \<and>
    (\<forall>v \<in> dom (ump_vmas w). first_area_last v w \<longrightarrow> linux_close_vma env v w \<noteq> None) \<and>
    (\<forall>p. p \<in># K \<longrightarrow> ump_dd_reference_add p w \<noteq> None \<and> ump_dd_reference_release env p w \<noteq> None) \<and>
    (ump_dd_handle_create_from_secure_id sid w \<noteq> None \<longleftrightarrow> sid \<noteq> 0) \<and> (ump_ukk_size_get sid w \<noteq> None \<longleftrightarrow> sid \<noteq> 0) \<and>
    ump_dd_handle_create_from_phys_blocks env blocks w \<noteq> None"
proof -
  obtain n where ok: "ump_ok n K w" by (rule reached[OF assms(2,1)])
  note f = assms(3) and e = assms(4)
  have "ump_file_open env minor w \<noteq> None" by (rule file_open_step[OF ok e, of minor]) simp
  moreover have "ump_file_ioctl env acc u s r w \<noteq> None"
    if "sessions w s = Some d" "(\<forall>sz c. r = Allocate_request sz c \<longrightarrow> unat sz \<le> 2 ^ 32 - 4096) \<and> (\<forall>i. r = Size_get_request i \<longrightarrow> i \<noteq> 0)"
    for s d
  proof -
    have "request_ok r" using that(2) by (cases r) (auto simp: no_wrap_def sint_zero)
    then show ?thesis by (rule ioctl_step[OF ok f e that(1), of r acc u]) simp
  qed
  moreover have "ump_file_release env s w \<noteq> None" if "sessions w s = Some d" "session_mappings_list d = []" for s d
    by (rule file_release_step[OF ok that, of env]) simp
  moreover have "linux_mmap env s v y w \<noteq> None"
    if "sessions w s = Some d" "ump_vmas w v = None \<and> v \<noteq> 0 \<and> ump_vm_pages y = [] \<and> ump_vm_pgoff y \<noteq> 0" for s d v y
    using that(2) by (elim conjE) (rule ump_mmap_step[OF ok _ _ _ that(1) f e, of v y], simp_all add: sint_zero)
  moreover have "linux_close_vma env v w \<noteq> None" if v: "v \<in> dom (ump_vmas w)" and l: "first_area_last v w" for v
  proof -
    obtain y where "ump_vmas w v = Some y" using v by auto
    then show ?thesis by (rule close_vma_step[OF ok _ l, of y env]) simp
  qed
  moreover have "ump_dd_reference_add p w \<noteq> None" "ump_dd_reference_release env p w \<noteq> None" if p: "p \<in># K" for p
  proof -
    have "p \<in> dom (mems w)" using p handles_okD(3)[OF ump_partsD(1)[OF ok[unfolded ump_ok_def]]] by auto
    then show "ump_dd_reference_add p w \<noteq> None" by (rule add_step[OF ok _ f]) simp
    have "ump_ok n (add_mset p (K - {#p#})) w" using ok p by simp
    then show "ump_dd_reference_release env p w \<noteq> None" by (rule release_step[where env = env]) simp
  qed
  moreover have "ump_dd_handle_create_from_secure_id sid w \<noteq> None \<longleftrightarrow> sid \<noteq> 0"
  proof (cases "sid = 0")
    case False
    then have "sint sid \<noteq> 0" by (simp add: sint_zero)
    then have "ump_dd_handle_create_from_secure_id sid w \<noteq> None" by (rule lookup_step[OF ok _ f]) simp_all
    then show ?thesis using False by simp
  qed (simp add: zero_fails[OF ok])
  moreover have "ump_ukk_size_get sid w \<noteq> None \<longleftrightarrow> sid \<noteq> 0"
    using size_get_step[OF ok, of sid] zero_fails(2)[OF ok] by (cases "sid = 0") (simp_all add: sint_zero)
  moreover have "ump_dd_handle_create_from_phys_blocks env blocks w \<noteq> None"
    by (rule phys_blocks_step[OF ok f e, of blocks]) simp
  ultimately show ?thesis by (intro conjI ballI allI impI) (assumption | simp)+
qed

theorem ump_operations_return_witness:
  "linux_mmap ump_demo_env2 400 500 ump_demo_vma ump_demo_allocated \<noteq> None \<and>
   ump_file_ioctl ump_demo_env2 (\<lambda>_ _. True) ump_demo_user 400 (Release_request 1) ump_demo_allocated \<noteq> None"
proof -
  obtain d where d: "sessions ump_demo_allocated 400 = Some d" using demo_allocated(2) by auto
  have v: "ump_vmas ump_demo_allocated 500 = None \<and> (500 :: ptr) \<noteq> 0 \<and> ump_vm_pages ump_demo_vma = [] \<and>
    ump_vm_pgoff ump_demo_vma \<noteq> 0" by (simp add: demo_allocated(6) ump_demo_vma_def)
  show ?thesis
    using ump_operations_return[OF demo_starts(1) demo_allocated(7)[of True] demo_allocated_refs(2) demo_allocated_env,
        where r = "Release_request 1" and acc = "\<lambda>_ _. True" and u = ump_demo_user] d v
    by simp
qed

subsection \<open>References\<close>

text \<open>
  C10: in every reachable state the count of a handle is the number of those who hold it: entries
  in the memory lists of sessions, mappings, and references of other drivers; nobody holds memory that is gone,
  and a secure id leads to the one live handle that has it.
\<close>

theorem ump_references_counted:
  assumes "ump_starts w0" "(ump_step quiet)\<^sup>*\<^sup>* ({#}, w0) (K, w)"
  shows "(\<forall>p m. mems w p = Some m \<longrightarrow> 0 < ref_count m \<and>
      ref_count m = int (count (session_refs (sessions w) + mapping_refs (allocations w) + K) p)) \<and>
    set_mset (session_refs (sessions w) + mapping_refs (allocations w) + K) \<subseteq> dom (mems w) \<and>
    (\<forall>i p. map_contents (secure_id_map w) i = Some p \<longleftrightarrow> (\<exists>m. mems w p = Some m \<and> sint (secure_id m) = int i))"
proof -
  obtain n where ok: "ump_ok n K w" by (rule reached[OF assms(2,1)])
  note h = ump_partsD(1)[OF ok[unfolded ump_ok_def]]
  have "\<forall>p m. mems w p = Some m \<longrightarrow> 0 < ref_count m \<and>
      ref_count m = int (count (session_refs (sessions w) + mapping_refs (allocations w) + K) p)"
  proof (intro allI impI conjI)
    fix p m assume m: "mems w p = Some m"
    show "ref_count m = int (count (session_refs (sessions w) + mapping_refs (allocations w) + K) p)"
      by (rule handle_okD(1)[OF h m])
    show "0 < ref_count m" by (rule live_held[OF h m])
  qed
  moreover have "\<forall>i p. map_contents (secure_id_map w) i = Some p \<longleftrightarrow> (\<exists>m. mems w p = Some m \<and> sint (secure_id m) = int i)"
    using handles_okD(1)[OF h] by (simp add: ids_ok_def)
  ultimately show ?thesis using handles_okD(3)[OF h] by blast
qed

theorem ump_references_counted_witness:
  "map_contents (secure_id_map ump_demo_allocated) 1 = Some 100 \<and>
   (\<exists>m. mems ump_demo_allocated 100 = Some m \<and> ref_count m = int (count (session_refs (sessions ump_demo_allocated)) 100))"
proof -
  note r = ump_references_counted[OF demo_starts(1) demo_allocated(7)[of True]]
  obtain m where m: "mems ump_demo_allocated = [100 \<mapsto> m]" "secure_id m = 1" using demo_allocated(3) by blast
  show ?thesis using r m by (simp add: demo_allocated(4) mapping_refs_def)
qed

definition used_units :: "ump_backend \<Rightarrow> nat" where
  "used_units b = (case b of Dedicated_backend a \<Rightarrow> unat (ump_num_blocks a) - unat (ump_num_free a) | Os_backend a \<Rightarrow> unat (ump_pages_allocated a))"

lemma chain_pages: "(\<And>bs. bs \<in># L \<Longrightarrow> length bs < 2 ^ 32) \<Longrightarrow> extent_pages (image_mset (chain_extent a) L) = size (chain_blocks L)"
  by (induction L) (simp_all add: chain_extent_def unat_of_nat)

lemma backend_units:
  assumes "backend_ok n X b"
  shows "used_units b = extent_pages X + n"
proof (cases b)
  case (Os_backend a)
  then show ?thesis using assms by (simp add: backend_ok_def os_ok_def used_units_def)
next
  case (Dedicated_backend a)
  then obtain fs L lost where l: "block_account fs L lost a" "size lost = n" "X = image_mset (chain_extent a) L"
    using assms by (auto simp: backend_ok_def block_ok_def)
  have e: "mset fs + chain_blocks L + lost = mset [0..<unat (ump_num_blocks a)]" and f: "unat (ump_num_free a) = length fs"
    using l(1) by (simp_all add: block_account_def)
  have "size (mset fs + chain_blocks L + lost) = unat (ump_num_blocks a)" unfolding e by (simp only: size_mset length_upt diff_zero)
  then have t: "length fs + size (chain_blocks L) + n = unat (ump_num_blocks a)" using l(2) by simp
  have "length bs < 2 ^ 32" if b: "bs \<in># L" for bs
  proof -
    obtain L' where "L = add_mset bs L'" using multi_member_split[OF b] by blast
    then have "length bs \<le> unat (ump_num_blocks a)" using t by simp
    then show ?thesis using unsigned_less[of "ump_num_blocks a", where 'a = nat] by simp
  qed
  then have "extent_pages X = size (chain_blocks L)" unfolding l(3) by (rule chain_pages)
  then show ?thesis using t f Dedicated_backend by (simp add: used_units_def)
qed

lemma units_of_handle:
  assumes "finite (dom M)" "M p = Some m" "release_func m = Backend_release"
  shows "extent_pages (live_extents M) = unat (nr_blocks m) + extent_pages (live_extents (M(p := None)))"
  using map_sum_at[where M = M, OF assms(1,2), of handle_extent] assms(3)
  by (simp add: live_extents_def handle_extent_def extent_def)

text \<open>
  C21: giving back a reference that is not the last only lowers the count of the handle; the last
  one removes the handle and its secure id, and gives its memory back to the backend.
\<close>

theorem ump_last_reference:
  assumes "ump_starts w0" "(ump_step quiet)\<^sup>*\<^sup>* ({#}, w0) (K, w)" "p \<in># K" "mems w p = Some m"
    "ump_dd_reference_release env p w = Some w'"
  shows "if ref_count m = 1
    then mems w' = (mems w)(p := None) \<and>
      (\<forall>i. map_contents (secure_id_map w') i = (if int i = sint (secure_id m) then None else map_contents (secure_id_map w) i)) \<and>
      (release_func m = Backend_release \<and> \<not> interrupted env p \<longrightarrow>
        used_units (backend w') + unat (nr_blocks m) = used_units (backend w))
    else mems w' = (mems w)(p \<mapsto> m\<lparr>ref_count := ref_count m - 1\<rparr>) \<and> secure_id_map w' = secure_id_map w \<and> backend w' = backend w"
proof -
  obtain n where ok: "ump_ok n K w" by (rule reached[OF assms(2,1)])
  note h = ump_partsD(1)[OF ok[unfolded ump_ok_def]]
  define R where "R = session_refs (sessions w) + mapping_refs (allocations w) + (K - {#p#})"
  have a: "session_refs (sessions w) + mapping_refs (allocations w) + K = add_mset p R" using assms(3) by (simp add: R_def)
  note h' = h[unfolded a]
  obtain m2 w2 where o: "mems w p = Some m2" "ump_dd_reference_release env p w = Some w2"
    "if p \<in># R then w2 = set_mem p (Some (m2\<lparr>ref_count := int (count R p)\<rparr>)) w \<and> handles_ok n R w2
     else (\<exists>ids b. w2 = w\<lparr>secure_id_map := ids, backend := b, mems := (mems w)(p := None)\<rparr>) \<and>
       handles_ok (n + lost_units env p m2) R w2"
    by (rule reference_release_ok[OF h'])
  have e: "m2 = m" "w2 = w'" using o(1,2) assms(4,5) by simp_all
  note r = o(3)[unfolded e]
  have c: "ref_count m = int (count R p) + 1" using handle_okD(1)[OF h' assms(4)] by simp
  show ?thesis
  proof (cases "p \<in># R")
    case True
    then have "0 < count R p" by (simp only: count_greater_zero_iff)
    then have "ref_count m \<noteq> 1" "ref_count m - 1 = int (count R p)" unfolding c by simp_all
    then show ?thesis using r True by simp
  next
    case False
    then have "ref_count m = 1" unfolding c by (simp only: not_in_iff)
    moreover have k: "mems w' = (mems w)(p := None)" "handles_ok (n + lost_units env p m) R w'" using r False by auto
    moreover have "map_contents (secure_id_map w') i = (if int i = sint (secure_id m) then None else map_contents (secure_id_map w) i)" for i
    proof -
      note id = handles_okD(1)[OF h, unfolded ids_ok_def, THEN conjunct2, rule_format, of i] and
        id' = handles_okD(1)[OF k(2), unfolded ids_ok_def, THEN conjunct2, rule_format, of i]
      show ?thesis
      proof (cases "int i = sint (secure_id m)")
        case True
        then have "map_contents (secure_id_map w) i = Some p" using id[of p] assms(4) by auto
        then have "map_contents (secure_id_map w') i \<noteq> Some q" for q using id'[of q] id[of q] k(1) by auto
        then show ?thesis using True by (cases "map_contents (secure_id_map w') i") auto
      next
        case ne: False
        have "map_contents (secure_id_map w') i = Some q \<longleftrightarrow> map_contents (secure_id_map w) i = Some q" for q
          using id'[of q] id[of q] k(1) ne assms(4) by auto
        then show ?thesis using ne by (metis not_None_eq)
      qed
    qed
    moreover have "used_units (backend w') + unat (nr_blocks m) = used_units (backend w)"
      if "release_func m = Backend_release \<and> \<not> interrupted env p"
      using backend_units[OF handles_okD(5)[OF h]] backend_units[OF handles_okD(5)[OF k(2)]] k(1) that
        units_of_handle[OF handles_okD(2)[OF h] assms(4)] by (simp add: lost_units_def)
    ultimately show ?thesis by simp
  qed
qed

theorem ump_last_reference_witness:
  "\<exists>w'. ump_dd_reference_release ump_demo_env2 100 ump_demo_created = Some w' \<and> mems w' 100 = None \<and>
     map_contents (secure_id_map w') 1 = None"
proof -
  obtain m where m: "mems ump_demo_created 100 = Some m" "ref_count m = 1" "sint (secure_id m) = 1"
    using demo_created(2) by blast
  obtain w' where r: "ump_dd_reference_release ump_demo_env2 100 ump_demo_created = Some w'"
    using demo_created(3) by blast
  show ?thesis
    using ump_last_reference[OF demo_starts(1) demo_created(1)[of True] _ m(1) r] m(2,3) r by simp
qed

subsection \<open>Nothing is left behind\<close>

lemma no_sessions:
  assumes ok: "ump_ok n {#} w" and s: "sessions w = Map.empty"
  shows "allocations w = Map.empty" "mems w = Map.empty"
proof -
  note h = ump_partsD[OF ok[unfolded ump_ok_def]]
  have "allocations w a \<noteq> Some x" for a x using h(2) s by (auto simp: sessions_ok_def)
  then show a: "allocations w = Map.empty" by (intro ext) (metis not_None_eq)
  have "mems w p \<noteq> Some m" for p m
    using handle_okD(2)[OF h(1), of p m] by (auto simp: s a session_refs_def mapping_refs_def)
  then show "mems w = Map.empty" by (intro ext) (metis not_None_eq)
qed

text \<open>
  C12: in a run in which no signal interrupts a release, when every process has closed the device
  and other drivers hold nothing, no handle, mapping or secure id is left and all memory is back in the
  backend.
\<close>

theorem ump_nothing_leaks:
  assumes "ump_starts w0" "(ump_step True)\<^sup>*\<^sup>* ({#}, w0) ({#}, w)" "sessions w = Map.empty"
  shows "mems w = Map.empty \<and> allocations w = Map.empty \<and> map_contents (secure_id_map w) = Map.empty \<and> used_units (backend w) = 0"
proof -
  obtain n where ok: "ump_ok n {#} w" "n = 0" by (rule reached[OF assms(2,1)]) simp
  note e = no_sessions[OF ok(1) assms(3)] and h = handles_okD[OF ump_partsD(1)[OF ok(1)[unfolded ump_ok_def]]]
  have "map_contents (secure_id_map w) i \<noteq> Some p" for i p using h(1) e(2) by (simp add: ids_ok_def)
  then have "map_contents (secure_id_map w) = Map.empty" by (intro ext) (metis not_None_eq)
  moreover have "used_units (backend w) = 0" using backend_units[OF h(5)] e(2) ok(2) by (simp add: extent_pages_def)
  ultimately show ?thesis using e by simp
qed

theorem ump_nothing_leaks_witness:
  "\<exists>w. ump_file_release ump_demo_env2 400 ump_demo_allocated = Some (0, w) \<and> mems w = Map.empty \<and> used_units (backend w) = 0"
proof -
  obtain w where w: "ump_file_release ump_demo_env2 400 ump_demo_allocated = Some (0, w)" "sessions w = Map.empty"
    "(ump_step True)\<^sup>*\<^sup>* ({#}, ump_demo_start) ({#}, w)" by (rule demo_closed)
  then show ?thesis using ump_nothing_leaks[OF demo_starts(1) w(3,2)] by blast
qed

subsection \<open>Memory of a handle\<close>

abbreviation handle_bytes :: "ump_dd_mem \<Rightarrow> nat list" where
  "handle_bytes m \<equiv> memory_bytes (array_blocks (block_array m))"

lemma backend_blocks:
  assumes h: "handles_ok n R w" and m: "mems w p = Some m" "release_func m = Backend_release"
  obtains bs where "block_array m = Some bs" "nr_block_list m = Some bs" "\<forall>b \<in> set bs. block_wf b"
    "unat (size_bytes m) = sum_list (map (unat \<circ> block_size) bs)" "handle_bytes m = memory_bytes bs"
proof -
  have "extent m \<in># live_extents (mems w)" by (rule live_extent_member[OF handles_okD(2)[OF h] m])
  from backend.extents_wf[OF handles_okD(5)[OF h] this] obtain bs where bs: "block_array m = Some bs" "length bs = unat (nr_blocks m)"
    "\<forall>b \<in> set bs. block_wf b" "unat (size_bytes m) = sum_list (map (unat \<circ> block_size) bs)" by (auto simp: extent_def)
  then have "nr_block_list m = Some bs" by (simp add: nr_block_list_def)
  then show ?thesis using that[OF bs(1) _ bs(3,4)] bs(1) by simp
qed

lemma handles_apart:
  assumes h: "handles_ok n R w" and m: "mems w p = Some m" "release_func m = Backend_release"
    and q: "mems w q = Some m'" "release_func m' = Backend_release" "p \<noteq> q"
  shows "set (handle_bytes m) \<inter> set (handle_bytes m') = {}"
proof -
  have f: "finite (dom (mems w))" "finite (dom ((mems w)(p := None)))" using handles_okD(2)[OF h] by simp_all
  have q': "((mems w)(p := None)) q = Some m'" using q(1,3) by simp
  have "live_extents (mems w) = handle_extent m + (handle_extent m' + live_extents ((mems w)(p := None, q := None)))"
    using map_sum_at[where M = "mems w", OF f(1) m(1), of handle_extent]
      map_sum_at[where M = "(mems w)(p := None)", OF f(2) q', of handle_extent] by (simp only: live_extents_def)
  then have "live_extents (mems w) = add_mset (extent m) (add_mset (extent m') (live_extents ((mems w)(p := None, q := None))))"
    using m(2) q(2) by (simp add: handle_extent_def)
  then have "backend_ok n (add_mset (extent m) (add_mset (extent m') (live_extents ((mems w)(p := None, q := None))))) (backend w)"
    using handles_okD(5)[OF h] by simp
  then have "byte_range b \<inter> byte_range b' = {}"
    if "b \<in> set (array_blocks (block_array m))" "b' \<in> set (array_blocks (block_array m'))" for b b'
    using backend.extents_apart that unfolding extent_def by blast
  then show ?thesis unfolding memory_bytes_set by blast
qed

text \<open>The handle whose memory an area shows.\<close>

definition area_memory :: "ump_state \<Rightarrow> ptr \<Rightarrow> ptr option" where
  "area_memory w v = do {
     y \<leftarrow> ump_vmas w v;
     t \<leftarrow> trackers w (ump_vm_private_data y);
     x \<leftarrow> allocations w (tracker_descriptor t);
     Some (handle x)
   }"

text \<open>
  C11: in every reachable state an area of a process shows memory of one live handle, and
  of memory from the backend only bytes of that handle, none of any other handle.
\<close>

theorem ump_areas_show_own_memory:
  assumes "ump_starts w0" "(ump_step quiet)\<^sup>*\<^sup>* ({#}, w0) (K, w)" "ump_vmas w v = Some y"
  shows "\<exists>p m. area_memory w v = Some p \<and> mems w p = Some m \<and> 0 < ref_count m \<and>
    (release_func m = Backend_release \<longrightarrow> set (shown_bytes (ump_vm_pages y)) \<subseteq> set (handle_bytes m) \<and>
      (\<forall>q m'. q \<noteq> p \<longrightarrow> mems w q = Some m' \<longrightarrow> release_func m' = Backend_release \<longrightarrow>
        set (shown_bytes (ump_vm_pages y)) \<inter> set (handle_bytes m') = {}))"
proof -
  obtain n where ok: "ump_ok n K w" by (rule reached[OF assms(2,1)])
  note h = ump_partsD[OF ok[unfolded ump_ok_def]]
  obtain t where t: "trackers w (ump_vm_private_data y) = Some t" using areas_okD(5)[OF h(3) assms(3)] by blast
  obtain x where x: "allocations w (tracker_descriptor t) = Some x" using areas_okD(8)[OF h(3) t] by blast
  have "handle x \<in> dom (mems w)" by (rule mapping_handle(2)[OF ok[unfolded ump_ok_def] x])
  then obtain m where m: "mems w (handle x) = Some m" by auto
  have a: "area_memory w v = Some (handle x)" by (simp add: area_memory_def assms(3) t x)
  have c: "0 < ref_count m" by (rule live_held[OF h(1) m])
  have pg: "\<forall>pg \<in> set (ump_vm_pages y). page_of m pg" using h(4) assms(3) t x m unfolding pages_ok_def by blast
  have own: "set (shown_bytes (ump_vm_pages y)) \<subseteq> set (handle_bytes m)" if b: "release_func m = Backend_release"
  proof -
    obtain bs where bs: "block_array m = Some bs" "\<forall>b \<in> set bs. block_wf b"
      by (rule backend_blocks[OF h(1) m b])
    have "\<exists>b \<in> set bs. {unat q..<unat q + unat s} \<subseteq> byte_range b" if p: "(u, q, s) \<in> set (ump_vm_pages y)" for u q s
    proof -
      obtain b where b: "b \<in> set bs" "q = page_base (block_addr b)" "s \<le> block_size b" using pg p bs(1) by (fastforce simp: page_of_def)
      moreover have "page_base (block_addr b) = block_addr b" using bs(2) b(1) by (simp add: page_base_aligned block_wf_def)
      ultimately show ?thesis by (intro bexI[of _ b]) (auto simp: byte_range_def word_le_nat_alt)
    qed
    then show ?thesis unfolding memory_bytes_set bs(1) array_blocks_Some by (fastforce simp: shown_bytes_def)
  qed
  show ?thesis
  proof (intro exI conjI impI allI)
    fix q m'
    assume b: "release_func m = Backend_release" and q: "q \<noteq> handle x" "mems w q = Some m'" "release_func m' = Backend_release"
    show "set (shown_bytes (ump_vm_pages y)) \<inter> set (handle_bytes m') = {}"
      using own[OF b] handles_apart[OF h(1) m b q(2,3)] q(1) by blast
  qed (use a m c own in simp_all)
qed

theorem ump_areas_show_own_memory_witness:
  "\<exists>p m. area_memory ump_demo_mapped 500 = Some p \<and> mems ump_demo_mapped p = Some m \<and> 0 < ref_count m"
proof -
  obtain y where y: "ump_vmas ump_demo_mapped 500 = Some y" using demo_mapped(2) by (auto simp: is_mapped_def)
  show ?thesis using ump_areas_show_own_memory[OF demo_starts(1) demo_mapped(3)[of True] y] by blast
qed

text \<open>
  C19: a successful \<open>mmap\<close> shows the memory with the secure id of its offset, whose size is that of
  the area, from the start of the area on and without a gap; of memory from the backend every byte, in order.
\<close>

theorem ump_mmap_shows_memory:
  assumes "ump_starts w0" "(ump_step quiet)\<^sup>*\<^sup>* ({#}, w0) (K, w)" "few_references K w" "env_ok env w"
    "s \<in> dom (sessions w)" "ump_vmas w v = None" "v \<noteq> 0" "ump_vm_pages y = []" "sint (ump_vm_pgoff y) \<noteq> 0"
    "linux_mmap env s v y w = Some (0, w')"
  shows "\<exists>p m y'. area_memory w' v = Some p \<and> mems w' p = Some m \<and> secure_id m = ump_vm_pgoff y \<and>
    size_bytes m = ump_vm_end y - ump_vm_start y \<and> ump_vmas w' v = Some y' \<and>
    consecutive (ump_vm_start y) (ump_vm_pages y') \<and>
    (release_func m = Backend_release \<longrightarrow> shown_bytes (ump_vm_pages y') = handle_bytes m)"
proof -
  obtain n where ok: "ump_ok n K w" by (rule reached[OF assms(2,1)])
  obtain d where d: "sessions w s = Some d" using assms(5) by auto
  obtain n' where ok': "ump_ok n' K w'" and im: "is_mapped s v (ump_vm_pgoff y) (ump_vm_end y - ump_vm_start y) y w'"
    by (rule ump_mmap_step[OF ok assms(6-8) d assms(3,4,9)]) (use assms(10) in simp)
  obtain a x m y' bs where i: "allocations w' a = Some x" "process_mapping_info x = v" "mems w' (handle x) = Some m"
    "secure_id m = ump_vm_pgoff y" "size_bytes m = ump_vm_end y - ump_vm_start y" "ump_vmas w' v = Some y'"
    "nr_block_list m = Some bs" "ump_vm_pages y' = pieces (ump_vm_start y) 0 (size_bytes m) bs"
    using im assms(8) by (auto simp: is_mapped_def)
  note h = ump_partsD[OF ok'[unfolded ump_ok_def]]
  obtain t where t: "trackers w' (ump_vm_private_data y') = Some t" "tracker_descriptor t = a"
    using areas_okD(4)[OF h(3) i(1)] i(2,6) by auto
  have am: "area_memory w' v = Some (handle x)" by (simp add: area_memory_def i(1,6) t)
  have "consecutive (ump_vm_start y) (ump_vm_pages y')"
    using pieces_consecutive[of "ump_vm_start y" 0] i(8) by simp
  moreover have "shown_bytes (ump_vm_pages y') = handle_bytes m" if b: "release_func m = Backend_release"
  proof -
    obtain cs where cs: "nr_block_list m = Some cs" "\<forall>b \<in> set cs. block_wf b"
      "unat (size_bytes m) = sum_list (map (unat \<circ> block_size) cs)" "handle_bytes m = memory_bytes cs"
      by (rule backend_blocks[OF h(1) i(3) b])
    then have "cs = bs" using i(7) by simp
    then show ?thesis unfolding i(8) cs(4) using pieces_exact[OF cs(2,3)] by simp
  qed
  ultimately show ?thesis using am i(3-6) by blast
qed

theorem ump_mmap_shows_memory_witness:
  "\<exists>p m y'. area_memory ump_demo_mapped 500 = Some p \<and> mems ump_demo_mapped p = Some m \<and> secure_id m = 1 \<and>
     size_bytes m = 8192 \<and> ump_vmas ump_demo_mapped 500 = Some y' \<and> consecutive 0x40000000 (ump_vm_pages y')"
proof -
  have s: "400 \<in> dom (sessions ump_demo_allocated)" using demo_allocated(2) by auto
  have v: "ump_vmas ump_demo_allocated 500 = None" "(500 :: ptr) \<noteq> 0" "ump_vm_pages ump_demo_vma = []"
    "sint (ump_vm_pgoff ump_demo_vma) \<noteq> 0" by (simp_all add: demo_allocated(6) ump_demo_vma_def)
  have n: "ump_vm_pgoff ump_demo_vma = 1" "ump_vm_end ump_demo_vma = 0x40002000"
    "ump_vm_start ump_demo_vma = 0x40000000" by (simp_all add: ump_demo_vma_def)
  show ?thesis
    using ump_mmap_shows_memory[OF demo_starts(1) demo_allocated(7)[of True] demo_allocated_refs(2) demo_allocated_env s v demo_mapped(1)]
    by (simp add: n) blast
qed

subsection \<open>Allocation\<close>

text \<open>
  C20: an allocation gives a new handle, held once, with a secure id of its own, at least the
  size asked for and the blocks for it taken from the backend; or it fails and neither handles nor sessions nor the
  backend have changed.
\<close>

theorem ump_allocate_all_or_nothing:
  assumes "ump_starts w0" "(ump_step quiet)\<^sup>*\<^sup>* ({#}, w0) (K, w)" "few_references K w" "env_ok env w"
    "sessions w (allocate_ctx args) = Some d" "no_wrap (allocate_size args)" "ump_ukk_allocate env args w = Some (err, args', w')"
  shows "if err = osk_code ERR_OK
    then \<exists>p m. mems w p = None \<and> mems w' = (mems w)(p \<mapsto> m) \<and> ref_count m = 1 \<and>
      sessions w' = (sessions w)(allocate_ctx args \<mapsto> d\<lparr>session_memory_list := p # session_memory_list d\<rparr>) \<and>
      allocate_secure_id args' = secure_id m \<and> (\<forall>q m'. mems w q = Some m' \<longrightarrow> secure_id m' \<noteq> secure_id m) \<and>
      allocate_size args' = size_bytes m \<and> max 1 (unat (allocate_size args)) \<le> unat (size_bytes m) \<and>
      length (handle_bytes m) = unat (size_bytes m) \<and>
      used_units (backend w') = used_units (backend w) + unat (nr_blocks m)
    else mems w' = mems w \<and> same_user w' w \<and> used_units (backend w') = used_units (backend w)"
proof -
  obtain n where ok: "ump_ok n K w" by (rule reached[OF assms(2,1)])
  obtain e a x where o: "ump_ukk_allocate env args w = Some (e, a, x)" "ump_ok n K x"
    "if e = osk_code ERR_OK
     then \<exists>p m. new_mem env = Some p \<and> mems x = (mems w)(p \<mapsto> m) \<and> ref_count m = 1 \<and> release_func m = Backend_release \<and>
       allocate_secure_id a = secure_id m \<and> allocate_size a = size_bytes m \<and>
       max 1 (unat (allocate_size args)) \<le> unat (size_bytes m) \<and>
       x = set_session (allocate_ctx args) (Some (d\<lparr>session_memory_list := p # session_memory_list d\<rparr>))
         (w\<lparr>secure_id_map := secure_id_map x, backend := backend x, mems := mems x\<rparr>)
     else mems x = mems w \<and> same_user x w"
    by (rule allocate_step[OF ok assms(3-6)])
  have eq: "e = err" "a = args'" "x = w'" using o(1) assms(7) by simp_all
  note r = o(2,3)[unfolded eq]
  note h = handles_okD[OF ump_partsD(1)[OF ok[unfolded ump_ok_def]]] and h1 = ump_partsD(1)[OF r(1)[unfolded ump_ok_def]]
  note h' = handles_okD[OF h1]
  show ?thesis
  proof (cases "err = osk_code ERR_OK")
    case False
    then show ?thesis using r(2) backend_units[OF h(5)] backend_units[OF h'(5)] by simp
  next
    case True
    then obtain p m where m: "new_mem env = Some p" "mems w' = (mems w)(p \<mapsto> m)" "ref_count m = 1" "release_func m = Backend_release"
      "allocate_secure_id args' = secure_id m" "allocate_size args' = size_bytes m"
      "max 1 (unat (allocate_size args)) \<le> unat (size_bytes m)"
      "w' = set_session (allocate_ctx args) (Some (d\<lparr>session_memory_list := p # session_memory_list d\<rparr>))
         (w\<lparr>secure_id_map := secure_id_map w', backend := backend w', mems := mems w'\<rparr>)"
      using r(2)[unfolded True simp_thms if_True] by blast
    have np: "mems w p = None" using assms(4) m(1) by (simp add: env_ok_def)
    have at: "mems w' p = Some m" using m(2) by simp
    have "sessions w' = (sessions w)(allocate_ctx args \<mapsto> d\<lparr>session_memory_list := p # session_memory_list d\<rparr>)"
      by (subst m(8)) simp
    moreover have "secure_id m' \<noteq> secure_id m" if q: "mems w q = Some m'" for q m'
    proof
      assume e: "secure_id m' = secure_id m"
      have "q \<noteq> p" using q np by auto
      then have "mems w' q = Some m'" using q m(2) by simp
      from ids_ok_unique[OF h'(1) at this handle_okD(3)[OF h1 at]] e \<open>q \<noteq> p\<close> show False by simp
    qed
    moreover have "length (handle_bytes m) = unat (size_bytes m)"
    proof -
      obtain bs where "unat (size_bytes m) = sum_list (map (unat \<circ> block_size) bs)" "handle_bytes m = memory_bytes bs"
        by (rule backend_blocks[OF h1 at m(4)])
      then show ?thesis by (simp only: memory_bytes_length)
    qed
    moreover have "used_units (backend w') = used_units (backend w) + unat (nr_blocks m)"
    proof -
      have "(mems w')(p := None) = mems w" using m(2) np by (simp add: fun_upd_idem)
      then show ?thesis using units_of_handle[where M = "mems w'", OF h'(2) at m(4)] backend_units[OF h(5)] backend_units[OF h'(5)] by simp
    qed
    ultimately show ?thesis using np m(2,3,5-7) unfolding if_P[OF True] by blast
  qed
qed

theorem ump_allocate_all_or_nothing_witness:
  "\<exists>args' w'. ump_ukk_allocate ump_demo_env1 \<lparr>allocate_ctx = 400, allocate_secure_id = 0, allocate_size = 5000, allocate_constraints = 4\<rparr>
       ump_demo_opened = Some (0, args', w') \<and> allocate_size args' = 8192 \<and> used_units (backend w') = 2"
proof -
  let ?args = "\<lparr>allocate_ctx = 400, allocate_secure_id = 0, allocate_size = 5000, allocate_constraints = 4\<rparr>"
  let ?r = "ump_ukk_allocate ump_demo_env1 ?args ump_demo_opened"
  have "map_option (\<lambda>(e, a, w). (e, allocate_size a, map_option nr_blocks (mems w 100))) ?r = Some (0, 8192, Some 2)" by code_simp
  then obtain args' w' m0 where r: "?r = Some (0, args', w')" "allocate_size args' = 8192" "mems w' 100 = Some m0" "nr_blocks m0 = 2" by auto
  have u: "used_units (backend ump_demo_opened) = 0" by code_simp
  obtain d where d: "sessions ump_demo_opened (allocate_ctx ?args) = Some d" using demo_opened(2) by auto
  have nw: "no_wrap (allocate_size ?args)" by (simp add: no_wrap_def)
  obtain p m where m: "mems w' = (mems ump_demo_opened)(p \<mapsto> m)" "used_units (backend w') = used_units (backend ump_demo_opened) + unat (nr_blocks m)"
    using ump_allocate_all_or_nothing[OF demo_starts(1) demo_opened(7)[of True] demo_opened_refs(2) demo_opened_env d nw r(1)] by auto
  have "m = m0" using m(1) r(3) demo_opened(3) by (simp split: if_splits)
  then show ?thesis using r m(2) u by auto
qed

subsection \<open>Maintenance of the caches\<close>

text \<open>What \<open>_ump_ukk_msync\<close> does for a secure id, on the handle it belongs to.\<close>

lemma msync_of_handle:
  assumes h: "handles_ok n R w" and m: "mems w p = Some m" "secure_id m = msync_secure_id args"
    and r: "ump_ukk_msync env acc args w = Some (args', calls, w')"
  shows "msync_calls acc m args = Some calls"
proof -
  have pos: "0 < sint (secure_id m)" and p0: "p \<noteq> 0" using handle_okD(3,4)[OF h m(1)] by simp_all
  have "map_contents (secure_id_map w) (nat (sint (secure_id m))) = Some p"
    using handles_okD(1)[OF h] m(1) pos by (auto simp: ids_ok_def)
  then have g: "snd (ump_descriptor_mapping_get (secure_id_map w) (sint (msync_secure_id args))) = p"
    using ids_ok_lookup[OF handles_okD(1)[OF h], of "secure_id m"] pos m(2) by simp
  have "nr_block_list (m\<lparr>ref_count := k\<rparr>) = nr_block_list m" for k by (simp add: nr_block_list_def)
  then have "ump_osk_msync acc (m\<lparr>ref_count := k\<rparr>) = ump_osk_msync acc m" for k by (intro ext) (simp add: ump_osk_msync_def)
  then have "msync_calls acc (m\<lparr>ref_count := k\<rparr>) args = msync_calls acc m args" for k by (simp add: msync_calls_def Let_def)
  then show ?thesis using r g p0 m(1)
    by (cases "msync_calls acc m args") (auto simp: ump_ukk_msync_def ump_dd_reference_add_def Option.bind_eq_Some_conv)
qed

text \<open>
  C23: whatever address, mapping, size and operation a process passes, also where their sum
  wraps, the second level cache is called only with bytes of one block of the memory named by the secure id,
  and the first level cache only with a range that the process may write.
\<close>

theorem ump_msync_within_memory:
  assumes "ump_starts w0" "(ump_step quiet)\<^sup>*\<^sup>* ({#}, w0) (K, w)" "mems w p = Some m" "release_func m = Backend_release"
    "secure_id m = msync_secure_id args" "ump_ukk_msync env acc args w = Some (args', calls, w')" "c \<in> set calls"
  shows "within (array_blocks (block_array m)) c \<or> (\<exists>virt sz. acc virt sz \<and> c = Dmac_flush_range virt (virt + sz - 1))"
proof -
  obtain n where ok: "ump_ok n K w" by (rule reached[OF assms(2,1)])
  note h = ump_partsD(1)[OF ok[unfolded ump_ok_def]]
  obtain bs where bs: "block_array m = Some bs" "nr_block_list m = Some bs" "\<forall>b \<in> set bs. block_wf b"
    "unat (size_bytes m) = sum_list (map (unat \<circ> block_size) bs)" by (rule backend_blocks[OF h assms(3,4)])
  define virt where "virt = (if msync_address args \<noteq> 0 then msync_address args else msync_mapping args)"
  define off where "off = (if msync_address args \<noteq> 0 then msync_address args - msync_mapping args else 0)"
  define sz where "sz = (if msync_size args \<noteq> 0 then msync_size args else size_bytes m - off)"
  have "calls = [] \<or> acc virt sz \<and> calls = Dmac_flush_range virt (virt + sz - 1) # flush_blocks (msync_op args) off sz bs"
    using msync_of_handle[OF h assms(3,5,6)] bs(2)
    by (simp add: msync_calls_def ump_osk_msync_def Let_def virt_def[symmetric] off_def[symmetric] sz_def[symmetric] split: if_splits)
  then have c: "acc virt sz" "c = Dmac_flush_range virt (virt + sz - 1) \<or> c \<in> set (flush_blocks (msync_op args) off sz bs)"
    using assms(7) by auto
  have "within bs c" if f: "c \<in> set (flush_blocks (msync_op args) off sz bs)"
  proof (cases "sz = 0")
    case True
    then have "off = size_bytes m" unfolding sz_def by (simp split: if_splits)
    then have "flush_blocks (msync_op args) off sz bs = []" by (intro flush_none) (simp only: memory_bytes_length bs(4) order_refl)
    then show ?thesis using f by simp
  next
    case False
    then show ?thesis using flush_within[OF bs(3) False, of "msync_op args" off] f by blast
  qed
  then show ?thesis using c bs(1) by auto
qed

theorem ump_msync_within_memory_witness:
  "within demo_blocks (Outer_clean_range 0x10002000 0x100027FF)"
proof (rule demo_msync)
  fix m args' w'
  assume m: "mems ump_demo_allocated 100 = Some m" "release_func m = Backend_release" "secure_id m = 1" "block_array m = Some demo_blocks"
    "ump_ukk_msync ump_demo_env2 (\<lambda>_ _. True) ump_demo_msync ump_demo_allocated = Some (args', demo_calls, w')"
  have i: "secure_id m = msync_secure_id ump_demo_msync" using m(3) by (simp add: ump_demo_msync_def)
  have c: "Outer_clean_range 0x10002000 0x100027FF \<in> set demo_calls" by simp
  show ?thesis using ump_msync_within_memory[OF demo_starts(1) demo_allocated(7)[of True] m(1,2) i m(5) c] m(4) by simp
qed



subsection \<open>Where the driver fails\<close>

text \<open>
  C30: in every reachable state the secure id 0, which is never given out but whose entry is taken, makes
  the driver use a null pointer: when another driver looks it up, when a process asks for its size, and when a
  process maps at offset 0.
\<close>

theorem ump_secure_id_zero:
  assumes "ump_starts w0" "(ump_step quiet)\<^sup>*\<^sup>* ({#}, w0) (K, w)"
  shows "ump_dd_handle_create_from_secure_id 0 w = None \<and> ump_ukk_size_get 0 w = None \<and>
    (\<forall>s v y. s \<in> dom (sessions w) \<longrightarrow> ump_vm_pgoff y = 0 \<longrightarrow> new_allocation env \<noteq> None \<longrightarrow> linux_mmap env s v y w = None)"
proof -
  obtain n where ok: "ump_ok n K w" by (rule reached[OF assms(2,1)])
  note h = ump_partsD[OF ok[unfolded ump_ok_def]]
  have m0: "mems w 0 = None" using handle_okD(4)[OF h(1), of 0] by (cases "mems w 0") auto
  have z: "ump_descriptor_mapping_get (secure_id_map w) 0 = (0, 0)" using lookup_zero handles_okD(1)[OF h(1)] by (simp add: ids_ok_def)
  have "linux_mmap env s v y w = None" if p: "s \<in> dom (sessions w)" "ump_vm_pgoff y = 0" "new_allocation env \<noteq> None" for s v y
  proof -
    obtain d where "sessions w s = Some d" using p(1) by auto
    then have s0: "s \<noteq> 0" by (rule session_of(2)[OF h(2)])
    obtain a where a: "new_allocation env = Some a" using p(3) by auto
    show ?thesis using s0 p(2) a m0 z
      by (simp add: linux_mmap_def ump_file_mmap_def ump_ukk_map_mem_def ump_dd_handle_create_from_secure_id_def ump_dd_reference_add_def)
  qed
  moreover have "ump_ukk_size_get 0 w = None" using z m0 by (simp add: ump_ukk_size_get_def)
  ultimately show ?thesis using lookup_zero_fails[OF h(1)] by blast
qed

theorem ump_secure_id_zero_witness:
  "ump_ukk_size_get 0 ump_demo_allocated = None \<and>
   linux_mmap ump_demo_env2 400 500 (ump_demo_vma\<lparr>ump_vm_pgoff := 0\<rparr>) ump_demo_allocated = None"
proof -
  have s: "400 \<in> dom (sessions ump_demo_allocated)" using demo_allocated(2) by auto
  have a: "new_allocation ump_demo_env2 \<noteq> None" by (simp add: ump_demo_env2_def ump_demo_env_def)
  show ?thesis using ump_secure_id_zero[OF demo_starts(1) demo_allocated(7)[of True], of ump_demo_env2] s a by simp
qed

text \<open>
  C31: a request of a process for a size within a page of 4 GB becomes the size 0, on which the dedicated
  backend stops the kernel.
\<close>

theorem ump_wrapped_size:
  assumes "backend w = Dedicated_backend a" "new_element env" "new_mem env = Some p"
    "returned (ump_descriptor_mapping_allocate_mapping (table_calloc env) (secure_id_map w) p) = Some (i, ids)" "0 \<le> i"
    "2 ^ 32 - 4096 < unat sz" "argument u" "copy_in u" "s \<noteq> 0"
  shows "ump_file_ioctl env acc u s (Allocate_request sz constraints) w = None"
proof -
  have "sz \<noteq> 0" using assms(6) by auto
  then show ?thesis
    using assms size_align_wraps[OF assms(6)]
    by (simp add: ump_file_ioctl_def ump_allocate_wrapper_def ump_ukk_allocate_def ump_backend_allocate_def
        ump_block_allocator_allocate_def Let_def)
qed

theorem ump_wrapped_size_witness:
  "ump_file_ioctl ump_demo_env (\<lambda>_ _. True) ump_demo_user 400 (Allocate_request 0xFFFFFFFF 0) ump_demo_dedicated = None"
proof (rule demo_dedicated)
  fix a ids
  assume d: "backend ump_demo_dedicated = Dedicated_backend a"
    "returned (ump_descriptor_mapping_allocate_mapping (table_calloc ump_demo_env) (secure_id_map ump_demo_dedicated) 100) = Some (1, ids)"
  have e: "new_element ump_demo_env" "new_mem ump_demo_env = Some 100" by (simp_all add: ump_demo_env_def)
  show ?thesis by (rule ump_wrapped_size[OF d(1) e d(2)]) (simp_all add: ump_demo_user_def)
qed

lemma release_frame:
  assumes "ump_dd_reference_release env p w = Some w'"
  shows "allocations w' = allocations w \<and> ump_vmas w' = ump_vmas w"
proof -
  obtain m where m: "mems w p = Some m" using assms by (auto simp: ump_dd_reference_release_def Option.bind_eq_Some_conv)
  show ?thesis using assms m
    by (cases "release_func m") (auto simp: ump_dd_reference_release_def run_release_func_def Let_def Option.bind_eq_Some_conv split: if_splits)
qed

text \<open>
  C32: when a process that mapped memory forks and its own area goes first, the last close, that of the
  copy, reads the area that is gone to find the usage tracker.
\<close>

theorem ump_first_area_gone:
  assumes "ump_starts w0" "(ump_step quiet)\<^sup>*\<^sup>* ({#}, w0) (K, w)" "ump_vmas w v = Some y" "ump_vmas w u = Some z" "u \<noteq> v"
    "ump_vm_private_data z = ump_vm_private_data y" "trackers w (ump_vm_private_data y) = Some t" "tracker_references t = 2"
    "allocations w (tracker_descriptor t) = Some x" "process_mapping_info x = v"
  shows "\<exists>w1. linux_close_vma env v w = Some w1 \<and> linux_close_vma env' u w1 = None"
proof -
  obtain n where ok: "ump_ok n K w" by (rule reached[OF assms(2,1)])
  note h = ump_partsD[OF ok[unfolded ump_ok_def]]
  let ?p = "ump_vm_private_data y"
  have p0: "?p \<noteq> 0" using areas_okD(3)[OF h(3)] assms(7) by auto
  have i: "int32 1 = 1" "int32 0 = 0" by (rule int32_id; simp)+
  let ?w1 = "set_ump_vma v None (set_tracker ?p (Some (t\<lparr>tracker_references := 1\<rparr>)) w)"
  let ?w2 = "set_tracker ?p (Some (t\<lparr>tracker_references := 0\<rparr>)) ?w1"
  have c1: "linux_close_vma env v w = Some ?w1"
    using assms(3,7,8) p0 i(1) by (simp add: linux_close_vma_def ump_vma_close_def Let_def)
  have "ump_ukk_unmap_mem env' (ump_session x) (ump_cookie x) ?w2 = None"
  proof -
    let ?s = "ump_session x"
    have "?s \<in> dom (sessions w)" and ck: "0 < sint (ump_cookie x)" using h(2) assms(9) unfolding sessions_ok_def by blast+
    then obtain d where d: "sessions w ?s = Some d" by auto
    note so = session_of[OF h(2) d]
    have wf: "wf_mapping (cookies_map d)" and own: "map_contents (cookies_map d) (nat (sint (ump_cookie x))) = Some (tracker_descriptor t)"
      using so(1) assms(9) ck by (auto simp: session_ok_def)
    have tm: "ump_osk_mem_mapregion_term (tracker_descriptor t) w' = None"
      if "allocations w' = allocations w" "ump_vmas w' = (ump_vmas w)(v := None)" for w'
      using that assms(9,10) by (simp add: ump_osk_mem_mapregion_term_def)
    let ?f = "free_cookie ?s (sint (ump_cookie x))
      (set_session ?s (Some (d\<lparr>session_mappings_list := remove1 (tracker_descriptor t) (session_mappings_list d)\<rparr>)) ?w2)"
    have "ump_ukk_unmap_mem env' ?s (ump_cookie x) ?w2 = (do { w \<leftarrow> ?f; w \<leftarrow> ump_dd_reference_release env' (handle x) w;
        w \<leftarrow> ump_osk_mem_mapregion_term (tracker_descriptor t) w; Some (set_allocation (tracker_descriptor t) None w) })"
      using so(2) d cookie_get[OF wf own ck] assms(9) mapping_handle(3)[OF ok[unfolded ump_ok_def] assms(9)]
      by (simp add: ump_ukk_unmap_mem_def UMP_DD_HANDLE_INVALID_def)
    also have "\<dots> = None"
    proof (cases ?f)
      case (Some w3)
      then have e3: "allocations w3 = allocations w" "ump_vmas w3 = (ump_vmas w)(v := None)"
        by (auto simp: free_cookie_def Option.bind_eq_Some_conv)
      show ?thesis
      proof (cases "ump_dd_reference_release env' (handle x) w3")
        case None
        then show ?thesis using \<open>?f = Some w3\<close> by (simp only: Option.bind.simps)
      next
        case (Some w4)
        then have "ump_osk_mem_mapregion_term (tracker_descriptor t) w4 = None" using tm release_frame[OF Some] e3 by simp
        then show ?thesis using Some \<open>?f = Some w3\<close> by (simp only: Option.bind.simps)
      qed
    qed (simp only: Option.bind.simps)
    finally show ?thesis .
  qed
  then have "linux_close_vma env' u ?w1 = None"
    using assms(4-9) p0 i(2) by (simp add: linux_close_vma_def ump_vma_close_def Let_def)
  then show ?thesis using c1 by blast
qed

theorem ump_first_area_gone_witness:
  "\<exists>w1. linux_close_vma ump_demo_env3 500 ump_demo_forked = Some w1 \<and> linux_close_vma ump_demo_env3 600 w1 = None"
proof (rule demo_forked[of True])
  fix y t x
  assume f: "(ump_step True)\<^sup>*\<^sup>* ({#}, ump_demo_start) ({#}, ump_demo_forked)"
    "ump_vmas ump_demo_forked 500 = Some y" "ump_vmas ump_demo_forked 600 = Some y"
    "trackers ump_demo_forked (ump_vm_private_data y) = Some t" "tracker_references t = 2"
    "allocations ump_demo_forked (tracker_descriptor t) = Some x" "process_mapping_info x = 500"
  show ?thesis by (rule ump_first_area_gone[OF demo_starts(1) f(1-3) _ refl f(4-7)]) simp
qed

end
