(* ===== verification/Pmm_State.thy ===== *)
theory Pmm_State
  imports Prelude
begin

text \<open>
  The state of the power management module (pmm/mali\_pmm.h, mali\_pmm\_state.h, mali\_pmm\_policy.h)
  and the operations of pmm/mali\_pmm\_state.c on it.

  The build options are those of the headers: \<open>MALI_PMM_TRACE\<close>, \<open>PMM_OS_TEST\<close>, \<open>MALI_PMM_NO_PMU\<close> and
  \<open>MALI_PMM_ALWAYS_ON\<close> are 0, \<open>MALI_STATE_TRACKING\<close> is off, and \<open>MALI_DEBUG_ASSERT\<close> is empty (release
  build).  The power lock makes every operation atomic except where the code drops it to signal a
  core; what happens in such a window is part of the signal functions of the environment.
\<close>

subsection \<open>Data\<close>

datatype mali_pmm_event_id =
    EVENT_OS_POWER_UP
  | EVENT_OS_POWER_DOWN
  | EVENT_JOB_SCHEDULED
  | EVENT_JOB_QUEUED
  | EVENT_JOB_FINISHED
  | EVENT_TIMEOUT
  | EVENT_DVFS_PAUSE
  | EVENT_DVFS_RESUME
  | EVENT_UKS
  | EVENT_UK_EXAMPLE
  | EVENT_INTERNALS
  | EVENT_INTERNAL_POWER_UP_ACK
  | EVENT_INTERNAL_POWER_DOWN_ACK

fun event_num :: "mali_pmm_event_id \<Rightarrow> nat" where
  "event_num EVENT_OS_POWER_UP = 0"
| "event_num EVENT_OS_POWER_DOWN = 1"
| "event_num EVENT_JOB_SCHEDULED = 2"
| "event_num EVENT_JOB_QUEUED = 3"
| "event_num EVENT_JOB_FINISHED = 4"
| "event_num EVENT_TIMEOUT = 5"
| "event_num EVENT_DVFS_PAUSE = 6"
| "event_num EVENT_DVFS_RESUME = 7"
| "event_num EVENT_UKS = 200"
| "event_num EVENT_UK_EXAMPLE = 201"
| "event_num EVENT_INTERNALS = 1000"
| "event_num EVENT_INTERNAL_POWER_UP_ACK = 1001"
| "event_num EVENT_INTERNAL_POWER_DOWN_ACK = 1002"

text \<open>The core ids \<open>mali_pmm_core_id\<close> are bits of a core mask.\<close>

definition CORE_SYSTEM :: u32 where "CORE_SYSTEM = 0"
definition CORE_GP :: u32 where "CORE_GP = 1"
definition CORE_L2 :: u32 where "CORE_L2 = 2"
definition CORE_PP0 :: u32 where "CORE_PP0 = 4"
definition CORE_PP1 :: u32 where "CORE_PP1 = 8"
definition CORE_PP2 :: u32 where "CORE_PP2 = 0x10"
definition CORE_PP3 :: u32 where "CORE_PP3 = 0x20"
definition CORE_PP_ALL :: u32 where "CORE_PP_ALL = 0x3C"

lemmas core_ids = CORE_SYSTEM_def CORE_GP_def CORE_L2_def CORE_PP0_def CORE_PP1_def CORE_PP2_def
  CORE_PP3_def CORE_PP_ALL_def

datatype mali_pmm_state =
    STATE_UNAVAILABLE
  | STATE_SYSTEM_ON
  | STATE_SYSTEM_OFF
  | STATE_SYSTEM_TRANSITION

datatype mali_pmm_policy =
    POLICY_NONE
  | POLICY_ALWAYS_ON
  | POLICY_JOB_CONTROL
  | POLICY_RUNTIME_JOB_CONTROL

datatype mali_pmm_status =
    STATUS_IDLE
  | STATUS_POLICY_POWER_DOWN
  | STATUS_POLICY_POWER_UP
  | STATUS_OS_WAITING
  | STATUS_OS_POWER_DOWN
  | STATUS_DVFS_PAUSE
  | STATUS_OS_POWER_UP
  | STATUS_OFF

record mali_pmm_message =
  msg_id :: mali_pmm_event_id
  msg_data :: u32
  msg_ts :: u32

text \<open>
  A policy timer; \<open>armed\<close> is the delay that the operating system's timer was last started with, or
  \<open>None\<close> when it is not running.
\<close>

record pmm_policy_timer =
  timer_timeout :: u32
  timer_event_id :: mali_pmm_event_id
  armed :: "u32 option"
  timer_set :: bool
  timer_expired :: bool
  timer_start :: u32

record pmm_policy_data_job_control =
  latency :: pmm_policy_timer
  core_active_start :: u32
  jc_timeout :: u32

text \<open>What the module tells the operating system and asks of the power management unit, in order.\<close>

datatype power_call =
    PowerUpDone u32
  | PowerDownDone u32
  | DvfsDone u32
  | PmuUp u32
  | PmuDown u32

text \<open>
  The internal state \<open>_mali_pmm_internal_state_t\<close>, with the policy data of the static pointer
  \<open>data_job_control\<close> (\<open>None\<close> when it is \<open>NULL\<close>), the work request of the worker thread, the tick
  counter, and the calls made.
\<close>

record pmm =
  status :: mali_pmm_status
  policy :: mali_pmm_policy
  check_policy :: bool
  state :: mali_pmm_state
  cores_registered :: u32
  cores_powered :: u32
  cores_idle :: u32
  cores_pend_down :: u32
  cores_pend_up :: u32
  cores_ack_down :: u32
  cores_ack_up :: u32
  queue :: "mali_pmm_message list"
  iqueue :: "mali_pmm_message list"
  os_data :: u32
  pmu_initialized :: bool
  messages_queued :: u32
  waiting :: u32
  no_events :: u32
  missed :: u32
  fatal_power_err :: bool
  is_dvfs_active :: u32
  data_job_control :: "pmm_policy_data_job_control option"
  work_scheduled :: bool
  ticks :: u32
  calls :: "power_call list"

text \<open>
  The environment: what the PMU answers, whether a message can be allocated, the signals to the
  render cores (made with the power lock dropped, so they include what other threads do meanwhile),
  and what other threads do before the \<open>n\<close>-th poll of a busy loop.
\<close>

record 'a pmm_env =
  pmu_up :: "u32 \<Rightarrow> 'a pmm_scheme \<Rightarrow> osk_err"
  pmu_down :: "u32 \<Rightarrow> 'a pmm_scheme \<Rightarrow> osk_err"
  msg_alloc :: "'a pmm_scheme \<Rightarrow> bool"
  sig_up :: "u32 \<Rightarrow> bool \<Rightarrow> 'a pmm_scheme \<Rightarrow> osk_err \<times> 'a pmm_scheme"
  sig_down :: "u32 \<Rightarrow> bool \<Rightarrow> 'a pmm_scheme \<Rightarrow> osk_err \<times> 'a pmm_scheme"
  spin :: "nat \<Rightarrow> 'a pmm_scheme \<Rightarrow> 'a pmm_scheme"

definition emit :: "power_call \<Rightarrow> 'a pmm_scheme \<Rightarrow> 'a pmm_scheme" where
  "emit c p = p\<lparr>calls := calls p @ [c]\<rparr>"

text \<open>\<open>_mali_osk_pmm_power_up_done\<close> and its companions: calls out of the module.\<close>

definition power_up_done :: "u32 \<Rightarrow> 'a pmm_scheme \<Rightarrow> 'a pmm_scheme" where
  "power_up_done d = emit (PowerUpDone d)"

definition power_down_done :: "u32 \<Rightarrow> 'a pmm_scheme \<Rightarrow> 'a pmm_scheme" where
  "power_down_done d = emit (PowerDownDone d)"

definition dvfs_operation_done :: "u32 \<Rightarrow> 'a pmm_scheme \<Rightarrow> 'a pmm_scheme" where
  "dvfs_operation_done d = emit (DvfsDone d)"

definition platform_powerup :: "'a pmm_env \<Rightarrow> u32 \<Rightarrow> 'a pmm_scheme \<Rightarrow> osk_err \<times> 'a pmm_scheme" where
  "platform_powerup env cores p = (pmu_up env cores p, emit (PmuUp cores) p)"

definition platform_powerdown :: "'a pmm_env \<Rightarrow> u32 \<Rightarrow> 'a pmm_scheme \<Rightarrow> osk_err \<times> 'a pmm_scheme" where
  "platform_powerdown env cores p = (pmu_down env cores p, emit (PmuDown cores) p)"

definition schedulework :: "'a pmm_scheme \<Rightarrow> 'a pmm_scheme" where
  "schedulework p = p\<lparr>work_scheduled := True\<rparr>"

subsection \<open>Sending a message (mali\_pmm.c)\<close>

definition mali_ukk_pmm_event_message ::
  "('a pmm_scheme \<Rightarrow> bool) \<Rightarrow> mali_pmm_event_id \<Rightarrow> u32 \<Rightarrow> 'a pmm_scheme \<Rightarrow> 'a pmm_scheme" where
  "mali_ukk_pmm_event_message alloc eid data p =
     schedulework
       (if alloc p then
          (let event = \<lparr>msg_id = eid, msg_data = data, msg_ts = ticks p\<rparr>;
               p = p\<lparr>messages_queued := messages_queued p + 1\<rparr>
           in if event_num eid > event_num EVENT_INTERNALS
              then p\<lparr>iqueue := iqueue p @ [event]\<rparr>
              else p\<lparr>queue := queue p @ [event]\<rparr>)
        else p\<lparr>missed := missed p + 1\<rparr>)"

subsection \<open>Operations of mali\_pmm\_state.c\<close>

definition cores_list :: "u32 list" where
  "cores_list = [CORE_L2, CORE_GP, CORE_PP0, CORE_PP1, CORE_PP2, CORE_PP3]"

definition pmm_update_system_state :: "'a pmm_scheme \<Rightarrow> 'a pmm_scheme" where
  "pmm_update_system_state p =
     p\<lparr>state := (if cores_registered p = 0 then STATE_UNAVAILABLE
                else if cores_powered p = 0 then STATE_SYSTEM_OFF
                else if cores_powered p = cores_registered p then STATE_SYSTEM_ON
                else STATE_SYSTEM_TRANSITION)\<rparr>"

definition pmm_cores_from_event_data :: "'a pmm_scheme \<Rightarrow> mali_pmm_message \<Rightarrow> u32" where
  "pmm_cores_from_event_data p event =
     (if msg_id event \<in> {EVENT_OS_POWER_UP, EVENT_OS_POWER_DOWN} then cores_registered p
      else if msg_id event \<in> {EVENT_JOB_SCHEDULED, EVENT_JOB_QUEUED, EVENT_JOB_FINISHED,
                               EVENT_INTERNAL_POWER_UP_ACK, EVENT_INTERNAL_POWER_DOWN_ACK} then
        (if msg_data event = CORE_SYSTEM then cores_registered p
         else if msg_data event = CORE_PP_ALL then cores_registered p AND CORE_PP_ALL
         else msg_data event)
      else cores_powered p)"

definition pmm_cores_to_power_up :: "u32 \<Rightarrow> 'a pmm_scheme \<Rightarrow> u32 \<times> 'a pmm_scheme" where
  "pmm_cores_to_power_up cores p =
     (let cores_subset = NOT (cores_powered p) AND cores
      in (cores_subset, if cores_subset \<noteq> 0 then p\<lparr>cores_pend_up := cores_subset\<rparr> else p))"

text \<open>One round of the loop of \<open>pmm_cores_to_power_down\<close>: \<open>c\<close> is \<open>cores_list[n]\<close>.\<close>

definition power_down_core ::
  "'a pmm_env \<Rightarrow> u32 \<Rightarrow> bool \<Rightarrow> u32 \<Rightarrow> u32 \<times> 'a pmm_scheme \<Rightarrow> u32 \<times> 'a pmm_scheme" where
  "power_down_core env cores immediate_only c = (\<lambda>(cores_subset, p).
     if c AND cores_subset \<noteq> 0 then
       (let p = p\<lparr>cores_pend_down := cores_pend_down p OR c\<rparr>;
            (err, p) = sig_down env c immediate_only p;
            cores_subset = cores_powered p AND cores
        in (cores_subset,
            if err = ERR_OK then p\<lparr>cores_ack_down := cores_ack_down p OR (c AND cores_subset)\<rparr> else p))
     else (cores_subset, p))"

definition pmm_cores_to_power_down ::
  "'a pmm_env \<Rightarrow> u32 \<Rightarrow> bool \<Rightarrow> 'a pmm_scheme \<Rightarrow> u32 \<times> 'a pmm_scheme" where
  "pmm_cores_to_power_down env cores immediate_only p =
     (let cores_subset = cores_powered p AND cores
      in if cores_subset \<noteq> 0
         then fold (power_down_core env cores immediate_only) (rev cores_list) (cores_subset, p)
         else (cores_subset, p))"

text \<open>One round of the loop of \<open>pmm_power_down_cancel\<close>; \<open>pd\<close> is its local copy of the pending cores.\<close>

definition cancel_core ::
  "'a pmm_env \<Rightarrow> u32 \<Rightarrow> u32 \<times> 'a pmm_scheme \<Rightarrow> u32 \<times> 'a pmm_scheme" where
  "cancel_core env c = (\<lambda>(pd, p).
     if c AND pd \<noteq> 0 then (let (err, p) = sig_up env c True p in (pd AND cores_registered p, p))
     else (pd, p))"

definition pmm_power_down_cancel :: "'a pmm_env \<Rightarrow> 'a pmm_scheme \<Rightarrow> 'a pmm_scheme" where
  "pmm_power_down_cancel env p =
     snd (fold (cancel_core env) cores_list
            (cores_pend_down p, p\<lparr>cores_pend_down := 0, cores_ack_down := 0\<rparr>))"

definition pmm_power_down_okay :: "'a pmm_scheme \<Rightarrow> bool" where
  "pmm_power_down_okay p \<longleftrightarrow> cores_pend_down p = cores_ack_down p"

definition pmm_invoke_power_down :: "'a pmm_env \<Rightarrow> 'a pmm_scheme \<Rightarrow> bool \<times> 'a pmm_scheme" where
  "pmm_invoke_power_down env p =
     (if \<not> pmm_power_down_okay p then (False, p)
      else (let (err, p) = platform_powerdown env (cores_pend_down p) p
            in (True,
                if err = ERR_OK then
                  p\<lparr>cores_powered := cores_powered p AND NOT (cores_pend_down p),
                    cores_idle := cores_idle p AND NOT (cores_pend_down p),
                    cores_pend_down := 0, cores_ack_down := 0\<rparr>
                else p\<lparr>fatal_power_err := True\<rparr>)))"

definition pmm_power_up_okay :: "'a pmm_scheme \<Rightarrow> bool" where
  "pmm_power_up_okay p \<longleftrightarrow> cores_pend_up p = cores_ack_up p"

definition power_up_core :: "'a pmm_env \<Rightarrow> u32 \<Rightarrow> 'a pmm_scheme \<Rightarrow> 'a pmm_scheme" where
  "power_up_core env c p = (if c AND cores_pend_up p \<noteq> 0 then snd (sig_up env c False p) else p)"

definition pmm_invoke_power_up :: "'a pmm_env \<Rightarrow> 'a pmm_scheme \<Rightarrow> bool \<times> 'a pmm_scheme" where
  "pmm_invoke_power_up env p =
     (if pmm_power_up_okay p then
        (let p = fold (power_up_core env) cores_list p
         in (True, p\<lparr>cores_powered := cores_powered p OR cores_pend_up p,
                     cores_idle := cores_idle p OR cores_pend_up p,
                     cores_pend_up := 0, cores_ack_up := 0\<rparr>))
      else
        (let (err, p) = platform_powerup env (cores_pend_up p) p
         in (False,
             if err \<noteq> ERR_OK then p\<lparr>fatal_power_err := True\<rparr>
             else mali_ukk_pmm_event_message (msg_alloc env) EVENT_INTERNAL_POWER_UP_ACK (cores_pend_up p) p)))"

definition pmm_cores_set_active :: "u32 \<Rightarrow> 'a pmm_scheme \<Rightarrow> 'a pmm_scheme" where
  "pmm_cores_set_active cores p = p\<lparr>cores_idle := cores_idle p AND NOT cores\<rparr>"

definition pmm_cores_set_idle :: "u32 \<Rightarrow> 'a pmm_scheme \<Rightarrow> 'a pmm_scheme" where
  "pmm_cores_set_idle cores p = p\<lparr>cores_idle := cores_idle p OR cores\<rparr>"

definition pmm_cores_set_down_ack :: "u32 \<Rightarrow> 'a pmm_scheme \<Rightarrow> 'a pmm_scheme" where
  "pmm_cores_set_down_ack cores p = p\<lparr>cores_ack_down := cores_ack_down p OR cores\<rparr>"

definition pmm_cores_set_up_ack :: "u32 \<Rightarrow> 'a pmm_scheme \<Rightarrow> 'a pmm_scheme" where
  "pmm_cores_set_up_ack cores p = p\<lparr>cores_ack_up := cores_ack_up p OR cores\<rparr>"

definition pmm_save_os_event_data :: "u32 \<Rightarrow> 'a pmm_scheme \<Rightarrow> 'a pmm_scheme" where
  "pmm_save_os_event_data d p = p\<lparr>os_data := d\<rparr>"

definition pmm_retrieve_os_event_data :: "'a pmm_scheme \<Rightarrow> u32 \<times> 'a pmm_scheme" where
  "pmm_retrieve_os_event_data p = (os_data p, p\<lparr>os_data := 0\<rparr>)"

subsection \<open>The fatal reset\<close>

text \<open>
  The two purge loops poll until a message is there.  They need not end: \<open>None\<close> is a loop that runs
  forever.  \<open>i\<close> counts the polls; other threads run before each of them.
\<close>

partial_function (option) purge_iqueue :: "'a pmm_env \<Rightarrow> nat \<Rightarrow> 'a pmm_scheme \<Rightarrow> 'a pmm_scheme option" where
  "purge_iqueue env i p =
     (let p = spin env i p
      in case iqueue p of [] \<Rightarrow> purge_iqueue env (Suc i) p | msg # msgs \<Rightarrow> Some (p\<lparr>iqueue := msgs\<rparr>))"

partial_function (option) purge_queue :: "'a pmm_env \<Rightarrow> nat \<Rightarrow> 'a pmm_scheme \<Rightarrow> 'a pmm_scheme option" where
  "purge_queue env i p =
     (let p = spin env i p
      in case queue p of [] \<Rightarrow> purge_queue env (Suc i) p | msg # msgs \<Rightarrow> Some (p\<lparr>queue := msgs\<rparr>))"

definition reset_core_power :: "'a pmm_env \<Rightarrow> u32 \<Rightarrow> 'a pmm_scheme \<Rightarrow> 'a pmm_scheme" where
  "reset_core_power env c p =
     (if c AND cores_registered p \<noteq> 0 then snd (sig_up env c False p) else p)"

text \<open>Lines 505 to 576: clear the bookkeeping and power every registered core.\<close>

definition fatal_reset_power :: "'a pmm_env \<Rightarrow> 'a pmm_scheme \<Rightarrow> 'a pmm_scheme" where
  "fatal_reset_power env p =
     (let p = p\<lparr>waiting := 0, missed := 0, fatal_power_err := False, no_events := 0,
                check_policy := False, cores_pend_down := 0, cores_pend_up := 0,
                cores_ack_down := 0, cores_ack_up := 0, is_dvfs_active := 0,
                state := STATE_UNAVAILABLE, status := STATUS_OFF,
                cores_powered := cores_registered p, cores_idle := cores_registered p\<rparr>
      in if cores_registered p \<noteq> 0
         then fold (reset_core_power env) (rev cores_list)
                (snd (platform_powerup env (cores_registered p) p))
         else p)"

text \<open>Lines 578 to 593: answer the operating system's request that was under way.\<close>

definition fatal_reset_unblock :: "mali_pmm_status \<Rightarrow> 'a pmm_scheme \<Rightarrow> 'a pmm_scheme" where
  "fatal_reset_unblock old p =
     (let p = (if old = STATUS_OS_POWER_UP
               then (let (d, p) = pmm_retrieve_os_event_data p in power_up_done d p) else p)
      in if old = STATUS_OS_POWER_DOWN
         then (let (d, p) = pmm_retrieve_os_event_data p in power_down_done d p) else p)"

definition pmm_fatal_reset :: "'a pmm_env \<Rightarrow> 'a pmm_scheme \<Rightarrow> 'a pmm_scheme outcome" where
  "pmm_fatal_reset env p =
     (let old = status p;
          p = fatal_reset_unblock old (fatal_reset_power env p)
      in case purge_iqueue env 0 p of
           None \<Rightarrow> Diverge
         | Some p \<Rightarrow>
             (case purge_queue env 0 p of
                None \<Rightarrow> Diverge
              | Some p \<Rightarrow> Done (pmm_update_system_state (p\<lparr>status := STATUS_IDLE\<rparr>))))"

subsection \<open>Core names\<close>

definition pmm_trace_cores :: "(u32 \<times> string) list" where
  "pmm_trace_cores =
     [(CORE_SYSTEM, ''SYSTEM''), (CORE_GP, ''GP''), (CORE_L2, ''L2''), (CORE_PP0, ''PP0''),
      (CORE_PP1, ''PP1''), (CORE_PP2, ''PP2''), (CORE_PP3, ''PP3''), (CORE_PP_ALL, ''PP (all)''),
      (CORE_GP OR CORE_L2 OR CORE_PP0, ''GP+L2+PP0''),
      (CORE_GP OR CORE_PP0, ''GP+PP0''),
      (CORE_GP OR CORE_L2 OR CORE_PP0 OR CORE_PP1, ''GP+L2+PP0+PP1''),
      (CORE_GP OR CORE_PP0 OR CORE_PP1, ''GP+PP0+PP1'')]"

definition pmm_trace_get_core_name :: "u32 \<Rightarrow> string" where
  "pmm_trace_get_core_name cores =
     (case map_of pmm_trace_cores cores of Some n \<Rightarrow> n | None \<Rightarrow> ''[multi-core]'')"

end
