(* ===== verification/Pmm_Policy.thy ===== *)
theory Pmm_Policy
  imports Pmm_State
begin

text \<open>
  The power management policies: pmm/mali\_pmm\_policy.c (timers and dispatch),
  mali\_pmm\_policy\_alwayson.c and mali\_pmm\_policy\_jobcontrol.c.  An operation that would dereference
  the policy data before it exists has the outcome \<open>Corrupt\<close>.
\<close>

subsection \<open>Policy timers\<close>

definition pmm_policy_timer_init ::
  "bool \<Rightarrow> u32 \<Rightarrow> mali_pmm_event_id \<Rightarrow> pmm_policy_timer option" where
  "pmm_policy_timer_init timer_ok timeout eid =
     (if timer_ok then
        Some \<lparr>timer_timeout = timeout, timer_event_id = eid, armed = None, timer_set = False,
              timer_expired = False, timer_start = 0\<rparr>
      else None)"

definition malipmm_set_policy_check :: "'a pmm_scheme \<Rightarrow> 'a pmm_scheme" where
  "malipmm_set_policy_check p = schedulework (p\<lparr>check_policy := True\<rparr>)"

text \<open>The timer of the job control policy runs out: the operating system calls back.\<close>

definition pmm_policy_timer_callback :: "'a pmm_scheme \<Rightarrow> 'a pmm_scheme" where
  "pmm_policy_timer_callback p =
     (case data_job_control p of
        None \<Rightarrow> p
      | Some d \<Rightarrow>
          malipmm_set_policy_check
            (p\<lparr>data_job_control :=
                 Some (d\<lparr>latency := (latency d)\<lparr>timer_expired := True, armed := None\<rparr>\<rparr>)\<rparr>))"

definition pmm_policy_timer_start :: "u32 \<Rightarrow> pmm_policy_timer \<Rightarrow> bool \<times> pmm_policy_timer" where
  "pmm_policy_timer_start now t =
     (if \<not> timer_set t then
        (True, t\<lparr>timer_set := True, timer_expired := False, timer_start := now,
                 armed := Some (timer_timeout t)\<rparr>)
      else (False, t))"

definition pmm_policy_timer_stop :: "pmm_policy_timer \<Rightarrow> bool \<times> pmm_policy_timer" where
  "pmm_policy_timer_stop t =
     (if timer_set t then (True, t\<lparr>armed := None, timer_set := False, timer_expired := False\<rparr>)
      else (False, t))"

definition pmm_policy_timer_raise_event ::
  "'a pmm_env \<Rightarrow> pmm_policy_data_job_control \<Rightarrow> 'a pmm_scheme \<Rightarrow> bool \<times> 'a pmm_scheme" where
  "pmm_policy_timer_raise_event env d p =
     (let t = latency d
      in if timer_expired t then
           (True, mali_ukk_pmm_event_message (msg_alloc env) (timer_event_id t) (timer_start t)
                    (p\<lparr>data_job_control :=
                         Some (d\<lparr>latency := t\<lparr>timer_expired := False, timer_set := False\<rparr>\<rparr>)\<rparr>))
         else (False, p))"

text \<open>\<open>_mali_osk_time_after\<close> is the kernel's \<open>time_after\<close>: a signed comparison of wrapping ticks.\<close>

definition time_after :: "u32 \<Rightarrow> u32 \<Rightarrow> bool" where
  "time_after a b \<longleftrightarrow> sint (b - a) < 0"

definition pmm_policy_timer_valid :: "u32 \<Rightarrow> u32 \<Rightarrow> bool" where
  "pmm_policy_timer_valid start other_start \<longleftrightarrow> \<not> time_after other_start start"

subsection \<open>The job control policy\<close>

definition INACTIVITY_TIMEOUT :: u32 where "INACTIVITY_TIMEOUT = 50"

definition job_control_timeout_setup :: "'a pmm_scheme \<Rightarrow> pmm_policy_timer \<Rightarrow> pmm_policy_timer" where
  "job_control_timeout_setup p t =
     (if timer_timeout t > 0 \<and> cores_powered p \<noteq> 0 then
        (if status p = STATUS_IDLE \<and> cores_idle p = cores_powered p
         then snd (pmm_policy_timer_start (ticks p) t)
         else snd (pmm_policy_timer_stop t))
      else t)"

definition job_control_timeout_valid ::
  "'a pmm_scheme \<Rightarrow> pmm_policy_data_job_control \<Rightarrow> u32 \<Rightarrow> bool" where
  "job_control_timeout_valid p d start \<longleftrightarrow>
     timer_timeout (latency d) \<noteq> 0 \<and>
     cores_powered p \<noteq> 0 \<and> cores_idle p = cores_powered p \<and>
     pmm_policy_timer_valid start (core_active_start d)"

text \<open>\<open>data_alloc\<close> and \<open>timer_ok\<close>: whether the memory and the operating system's timer can be had.\<close>

definition pmm_policy_init_job_control ::
  "bool \<Rightarrow> bool \<Rightarrow> 'a pmm_scheme \<Rightarrow> osk_err \<times> 'a pmm_scheme" where
  "pmm_policy_init_job_control data_alloc timer_ok p =
     (if data_alloc then
        (case pmm_policy_timer_init timer_ok INACTIVITY_TIMEOUT EVENT_TIMEOUT of
           None \<Rightarrow> (ERR_FAULT, p\<lparr>data_job_control := None\<rparr>)
         | Some t \<Rightarrow>
             (ERR_OK, p\<lparr>data_job_control :=
                          Some \<lparr>latency = job_control_timeout_setup p t,
                                core_active_start = ticks p, jc_timeout = INACTIVITY_TIMEOUT\<rparr>\<rparr>))
      else (ERR_NOMEM, p\<lparr>data_job_control := None\<rparr>))"

definition pmm_policy_term_job_control :: "'a pmm_scheme \<Rightarrow> 'a pmm_scheme" where
  "pmm_policy_term_job_control p = p\<lparr>data_job_control := None\<rparr>"

definition pmm_policy_job_control_job_queued :: "'a pmm_env \<Rightarrow> 'a pmm_scheme \<Rightarrow> 'a pmm_scheme" where
  "pmm_policy_job_control_job_queued env p =
     (let (cores_subset, p) = pmm_cores_to_power_up (cores_registered p) p
      in if cores_subset \<noteq> 0 then
           (let (up, p) = pmm_invoke_power_up env p
            in if \<not> up then p\<lparr>status := STATUS_POLICY_POWER_UP\<rparr> else p)
         else p)"

text \<open>
  The cases of \<open>pmm_policy_process_job_control\<close>, one definition for each status.  A result with
  \<open>ERR_OK\<close> goes on to the end of the function, another error is its early return.
\<close>

definition job_control_timeout ::
  "'a pmm_env \<Rightarrow> u32 \<Rightarrow> u32 \<Rightarrow> 'a pmm_scheme \<Rightarrow> (osk_err \<times> 'a pmm_scheme) outcome" where
  "job_control_timeout env cores start p =
     (case data_job_control p of
        None \<Rightarrow> Corrupt
      | Some d \<Rightarrow>
          Done (ERR_OK,
            if job_control_timeout_valid p d start then
              (let (cores_subset, p) = pmm_cores_to_power_down env cores True p
               in if cores_subset \<noteq> 0 then
                    (let (down, p) = pmm_invoke_power_down env p
                     in if \<not> down then pmm_power_down_cancel env p else p)
                  else p)
            else p))"

definition job_control_dvfs_pause :: "'a pmm_env \<Rightarrow> u32 \<Rightarrow> u32 \<Rightarrow> 'a pmm_scheme \<Rightarrow> 'a pmm_scheme" where
  "job_control_dvfs_pause env cores data p =
     (let (cores_subset, p) = pmm_cores_to_power_down env cores False p
      in if cores_subset \<noteq> 0 \<and> \<not> pmm_power_down_okay p
         then pmm_save_os_event_data data
                (p\<lparr>is_dvfs_active := 1, status := STATUS_OS_POWER_DOWN\<rparr>)
         else dvfs_operation_done 0 (p\<lparr>status := STATUS_DVFS_PAUSE\<rparr>))"

definition job_control_os_power_down :: "'a pmm_env \<Rightarrow> u32 \<Rightarrow> u32 \<Rightarrow> 'a pmm_scheme \<Rightarrow> 'a pmm_scheme" where
  "job_control_os_power_down env cores data p =
     (let (cores_subset, p) = pmm_cores_to_power_down env cores False p;
          (down, p) = (if cores_subset \<noteq> 0 then pmm_invoke_power_down env p else (True, p))
      in if \<not> down then pmm_save_os_event_data data (p\<lparr>status := STATUS_OS_POWER_DOWN\<rparr>)
         else power_down_done data (p\<lparr>status := STATUS_OS_WAITING\<rparr>))"

definition job_control_idle ::
  "'a pmm_env \<Rightarrow> u32 \<Rightarrow> mali_pmm_message \<Rightarrow> 'a pmm_scheme \<Rightarrow> (osk_err \<times> 'a pmm_scheme) outcome" where
  "job_control_idle env cores event p =
     (case msg_id event of
        EVENT_OS_POWER_UP \<Rightarrow> Done (ERR_OK, p)
      | EVENT_JOB_SCHEDULED \<Rightarrow>
          (let p = pmm_cores_set_active cores p
           in case data_job_control p of
                None \<Rightarrow> Corrupt
              | Some d \<Rightarrow>
                  Done (ERR_OK, pmm_policy_job_control_job_queued env
                    (p\<lparr>data_job_control := Some (d\<lparr>core_active_start := msg_ts event\<rparr>)\<rparr>)))
      | EVENT_JOB_QUEUED \<Rightarrow> Done (ERR_OK, pmm_policy_job_control_job_queued env p)
      | EVENT_DVFS_PAUSE \<Rightarrow> Done (ERR_OK, job_control_dvfs_pause env cores (msg_data event) p)
      | EVENT_OS_POWER_DOWN \<Rightarrow> Done (ERR_OK, job_control_os_power_down env cores (msg_data event) p)
      | EVENT_JOB_FINISHED \<Rightarrow>
          (let p = pmm_cores_set_idle cores p
           in case data_job_control p of
                None \<Rightarrow> Corrupt
              | Some d \<Rightarrow>
                  if jc_timeout d > 0 then Done (ERR_OK, p)
                  else job_control_timeout env (cores_powered p) (msg_data event) p)
      | EVENT_TIMEOUT \<Rightarrow> job_control_timeout env cores (msg_data event) p
      | _ \<Rightarrow> Done (ERR_ITEM_NOT_FOUND, p))"

definition job_control_paused :: "'a pmm_env \<Rightarrow> mali_pmm_message \<Rightarrow> 'a pmm_scheme \<Rightarrow> 'a pmm_scheme" where
  "job_control_paused env event p =
     (case msg_id event of
        EVENT_DVFS_RESUME \<Rightarrow>
          dvfs_operation_done 0
            (if cores_powered p \<noteq> 0
             then (pmm_power_down_cancel env (p\<lparr>cores_ack_down := 0\<rparr>))\<lparr>status := STATUS_IDLE\<rparr>
             else pmm_policy_job_control_job_queued env p)
      | EVENT_OS_POWER_DOWN \<Rightarrow>
          (let p = p\<lparr>status := STATUS_OS_WAITING\<rparr>
           in power_down_done 0
                (if cores_powered p \<noteq> 0 then snd (pmm_invoke_power_down env p) else p))
      | _ \<Rightarrow> p)"

definition job_control_power_up ::
  "'a pmm_env \<Rightarrow> u32 \<Rightarrow> mali_pmm_message \<Rightarrow> 'a pmm_scheme \<Rightarrow> osk_err \<times> 'a pmm_scheme" where
  "job_control_power_up env cores event p =
     (case msg_id event of
        EVENT_INTERNAL_POWER_UP_ACK \<Rightarrow>
          (let (up, p) = pmm_invoke_power_up env (pmm_cores_set_up_ack cores p)
           in (ERR_OK,
               if up then
                 (let p = (if status p = STATUS_OS_POWER_UP
                           then (let (d, p) = pmm_retrieve_os_event_data p in power_up_done d p)
                           else p)
                  in p\<lparr>status := STATUS_IDLE\<rparr>)
               else p))
      | _ \<Rightarrow> (ERR_ITEM_NOT_FOUND, p))"

definition job_control_power_down ::
  "'a pmm_env \<Rightarrow> u32 \<Rightarrow> mali_pmm_message \<Rightarrow> 'a pmm_scheme \<Rightarrow> osk_err \<times> 'a pmm_scheme" where
  "job_control_power_down env cores event p =
     (case msg_id event of
        EVENT_INTERNAL_POWER_DOWN_ACK \<Rightarrow>
          (let p = pmm_cores_set_down_ack cores p
           in (ERR_OK,
               if is_dvfs_active p = 1 then
                 (if pmm_power_down_okay p then
                    (let (d, p) = pmm_retrieve_os_event_data
                                    (p\<lparr>is_dvfs_active := 0, status := STATUS_DVFS_PAUSE\<rparr>)
                     in dvfs_operation_done d p)
                  else p)
               else
                 (let (down, p) = pmm_invoke_power_down env p
                  in if down then
                       (let p = (if status p = STATUS_OS_POWER_DOWN
                                 then (let (d, p) = pmm_retrieve_os_event_data p
                                       in power_down_done d p)
                                 else p)
                        in p\<lparr>status := STATUS_OS_WAITING\<rparr>)
                     else p)))
      | _ \<Rightarrow> (ERR_ITEM_NOT_FOUND, p))"

definition job_control_os_waiting ::
  "'a pmm_env \<Rightarrow> u32 \<Rightarrow> mali_pmm_message \<Rightarrow> 'a pmm_scheme \<Rightarrow> 'a pmm_scheme" where
  "job_control_os_waiting env cores event p =
     (case msg_id event of
        EVENT_OS_POWER_UP \<Rightarrow>
          (let (cores_subset, p) = pmm_cores_to_power_up cores p;
               (up, p) = (if cores_subset \<noteq> 0 then pmm_invoke_power_up env p else (True, p))
           in if \<not> up then pmm_save_os_event_data (msg_data event) (p\<lparr>status := STATUS_OS_POWER_UP\<rparr>)
              else power_up_done (msg_data event) (p\<lparr>status := STATUS_IDLE\<rparr>))
      | _ \<Rightarrow> p)"

text \<open>Lines 438 to 449: the end of the function.\<close>

definition job_control_finish :: "'a pmm_scheme \<Rightarrow> (osk_err \<times> 'a pmm_scheme) outcome" where
  "job_control_finish p =
     (case data_job_control p of
        None \<Rightarrow> Corrupt
      | Some d \<Rightarrow>
          Done (ERR_OK, pmm_update_system_state
            (p\<lparr>data_job_control := Some (d\<lparr>latency := job_control_timeout_setup p (latency d)\<rparr>)\<rparr>)))"

definition job_control_status ::
  "'a pmm_env \<Rightarrow> u32 \<Rightarrow> mali_pmm_message \<Rightarrow> 'a pmm_scheme \<Rightarrow> (osk_err \<times> 'a pmm_scheme) outcome" where
  "job_control_status env cores event p =
     (case status p of
        STATUS_IDLE \<Rightarrow> job_control_idle env cores event p
      | STATUS_DVFS_PAUSE \<Rightarrow> Done (ERR_OK, job_control_paused env event p)
      | STATUS_OS_POWER_UP \<Rightarrow> Done (job_control_power_up env cores event p)
      | STATUS_POLICY_POWER_UP \<Rightarrow> Done (job_control_power_up env cores event p)
      | STATUS_OS_POWER_DOWN \<Rightarrow> Done (job_control_power_down env cores event p)
      | STATUS_POLICY_POWER_DOWN \<Rightarrow> Done (job_control_power_down env cores event p)
      | STATUS_OS_WAITING \<Rightarrow> Done (ERR_OK, job_control_os_waiting env cores event p)
      | STATUS_OFF \<Rightarrow> Done (ERR_FAULT, p))"

definition pmm_policy_process_job_control ::
  "'a pmm_env \<Rightarrow> mali_pmm_message \<Rightarrow> 'a pmm_scheme \<Rightarrow> (osk_err \<times> 'a pmm_scheme) outcome" where
  "pmm_policy_process_job_control env event p =
     bind_outcome (job_control_status env (pmm_cores_from_event_data p event) event p)
       (\<lambda>(err, p). if err = ERR_OK then job_control_finish p else Done (err, p))"

definition pmm_policy_check_job_control :: "'a pmm_env \<Rightarrow> 'a pmm_scheme \<Rightarrow> 'a pmm_scheme outcome" where
  "pmm_policy_check_job_control env p =
     (case data_job_control p of
        None \<Rightarrow> Corrupt
      | Some d \<Rightarrow> Done (snd (pmm_policy_timer_raise_event env d p)))"

subsection \<open>The always on policy\<close>

definition pmm_policy_process_always_on ::
  "mali_pmm_message \<Rightarrow> 'a pmm_scheme \<Rightarrow> osk_err \<times> 'a pmm_scheme" where
  "pmm_policy_process_always_on event p =
     (case msg_id event of
        EVENT_OS_POWER_DOWN \<Rightarrow> (ERR_OK, power_down_done (msg_data event) p)
      | EVENT_INTERNAL_POWER_UP_ACK \<Rightarrow> (ERR_OK, p)
      | EVENT_INTERNAL_POWER_DOWN_ACK \<Rightarrow> (ERR_OK, p)
      | EVENT_OS_POWER_UP \<Rightarrow> (ERR_OK, power_up_done (msg_data event) p)
      | EVENT_JOB_SCHEDULED \<Rightarrow> (ERR_OK, p)
      | EVENT_JOB_QUEUED \<Rightarrow> (ERR_OK, p)
      | EVENT_JOB_FINISHED \<Rightarrow> (ERR_OK, p)
      | EVENT_TIMEOUT \<Rightarrow> (ERR_OK, p)
      | _ \<Rightarrow> (ERR_ITEM_NOT_FOUND, p))"

subsection \<open>Dispatch on the policy\<close>

definition pmm_policy_init :: "bool \<Rightarrow> bool \<Rightarrow> 'a pmm_scheme \<Rightarrow> osk_err \<times> 'a pmm_scheme" where
  "pmm_policy_init data_alloc timer_ok p =
     (case policy p of
        POLICY_ALWAYS_ON \<Rightarrow> (ERR_OK, p)
      | POLICY_JOB_CONTROL \<Rightarrow> pmm_policy_init_job_control data_alloc timer_ok p
      | _ \<Rightarrow> (ERR_FAULT, p))"

definition pmm_policy_term :: "'a pmm_scheme \<Rightarrow> 'a pmm_scheme" where
  "pmm_policy_term p =
     (case policy p of
        POLICY_ALWAYS_ON \<Rightarrow> p
      | POLICY_JOB_CONTROL \<Rightarrow> pmm_policy_term_job_control p
      | _ \<Rightarrow> p)"

definition pmm_policy_process ::
  "'a pmm_env \<Rightarrow> mali_pmm_message \<Rightarrow> 'a pmm_scheme \<Rightarrow> (osk_err \<times> 'a pmm_scheme) outcome" where
  "pmm_policy_process env event p =
     (case policy p of
        POLICY_ALWAYS_ON \<Rightarrow> Done (pmm_policy_process_always_on event p)
      | POLICY_JOB_CONTROL \<Rightarrow> pmm_policy_process_job_control env event p
      | _ \<Rightarrow> Done (ERR_FAULT, p))"

definition pmm_policy_check_policy :: "'a pmm_env \<Rightarrow> 'a pmm_scheme \<Rightarrow> 'a pmm_scheme outcome" where
  "pmm_policy_check_policy env p =
     (case policy p of
        POLICY_JOB_CONTROL \<Rightarrow> pmm_policy_check_job_control env p
      | _ \<Rightarrow> Done p)"

end
