(* ===== verification/Pmm.thy ===== *)
theory Pmm
  imports Pmm_Policy
begin

text \<open>
  The power management module itself, pmm/mali\_pmm.c: creation and termination, the registration of
  cores, the event loop and the bottom half that the worker thread runs.
\<close>

definition mali_pmm_state :: "int \<Rightarrow> 'a pmm_scheme option \<Rightarrow> mali_pmm_state" where
  "mali_pmm_state subsystem_id pm =
     (case pm of Some p \<Rightarrow> if subsystem_id \<noteq> -1 then state p else STATE_UNAVAILABLE
      | None \<Rightarrow> STATE_UNAVAILABLE)"

definition mali_pmm_cores_list :: "'a pmm_scheme \<Rightarrow> u32" where
  "mali_pmm_cores_list p = cores_registered p"

definition mali_pmm_cores_powered :: "'a pmm_scheme \<Rightarrow> u32" where
  "mali_pmm_cores_powered p = cores_powered p"

text \<open>The two policy stubs, and the query; \<open>out\<close> says whether a place for the result was given.\<close>

definition mali_pmm_list_policies :: osk_err where
  "mali_pmm_list_policies = ERR_UNSUPPORTED"

definition mali_pmm_set_policy :: "mali_pmm_policy \<Rightarrow> osk_err" where
  "mali_pmm_set_policy pol = ERR_UNSUPPORTED"

definition mali_pmm_get_policy :: "bool \<Rightarrow> 'a pmm_scheme option \<Rightarrow> osk_err \<times> mali_pmm_policy option" where
  "mali_pmm_get_policy out pm =
     (if out then
        (case pm of Some p \<Rightarrow> (ERR_OK, Some (policy p)) | None \<Rightarrow> (ERR_FAULT, Some POLICY_NONE))
      else (ERR_INVALID_ARGS, None))"

text \<open>
  Creation: each flag says whether one of the resources can be had, in the order of the calls.  A
  failure at any point undoes what was set up and leaves no state.
\<close>

record create_results =
  state_alloc :: bool
  platform_init :: bool
  queue_init :: bool
  iqueue_init :: bool
  irq_init :: bool
  lock_init :: bool
  atomic_init :: bool

definition malipmm_create :: "create_results \<Rightarrow> u32 \<Rightarrow> osk_err \<times> pmm option" where
  "malipmm_create r now =
     (if \<not> state_alloc r then (ERR_NOMEM, None)
      else if platform_init r \<and> queue_init r \<and> iqueue_init r \<and> irq_init r \<and> lock_init r \<and> atomic_init r then
        (ERR_OK, Some
          \<lparr>status = STATUS_IDLE, policy = POLICY_JOB_CONTROL, check_policy = False,
           state = STATE_UNAVAILABLE, cores_registered = 0, cores_powered = 0, cores_idle = 0,
           cores_pend_down = 0, cores_pend_up = 0, cores_ack_down = 0, cores_ack_up = 0,
           queue = [], iqueue = [], os_data = 0, pmu_initialized = True, messages_queued = 0,
           waiting = 0, no_events = 0, missed = 0, fatal_power_err = False, is_dvfs_active = 0,
           data_job_control = None, work_scheduled = False, ticks = now, calls = []\<rparr>)
      else (ERR_FAULT, None))"

definition malipmm_kernel_load_complete :: "bool \<Rightarrow> bool \<Rightarrow> 'a pmm_scheme \<Rightarrow> osk_err \<times> 'a pmm_scheme" where
  "malipmm_kernel_load_complete data_alloc timer_ok p = pmm_policy_init data_alloc timer_ok p"

text \<open>\<open>flush\<close> is what the pending work does while the work queue is flushed.\<close>

definition malipmm_force_powerup ::
  "'a pmm_env \<Rightarrow> ('a pmm_scheme \<Rightarrow> 'a pmm_scheme) \<Rightarrow> 'a pmm_scheme \<Rightarrow> u32 \<times> 'a pmm_scheme" where
  "malipmm_force_powerup env flush p =
     (let registered_mask = cores_registered p;
          p = flush (p\<lparr>status := STATUS_OFF\<rparr>)
      in (registered_mask,
          if cores_powered p = 0 then snd (platform_powerup env registered_mask p) else p))"

definition malipmm_force_powerdown :: "'a pmm_env \<Rightarrow> u32 \<Rightarrow> 'a pmm_scheme \<Rightarrow> 'a pmm_scheme" where
  "malipmm_force_powerdown env registered_mask p = snd (platform_powerdown env registered_mask p)"

definition malipmm_core_register :: "'a pmm_env \<Rightarrow> u32 \<Rightarrow> 'a pmm_scheme \<Rightarrow> osk_err \<times> 'a pmm_scheme" where
  "malipmm_core_register env core p =
     (let (err, p) = platform_powerup env core p
      in (err,
          if err = ERR_OK then
            pmm_update_system_state
              (p\<lparr>cores_registered := cores_registered p OR core,
                 cores_idle := cores_idle p OR core,
                 cores_powered := cores_powered p OR core\<rparr>)
          else p))"

definition malipmm_core_unregister :: "u32 \<Rightarrow> 'a pmm_scheme \<Rightarrow> 'a pmm_scheme" where
  "malipmm_core_unregister core p =
     pmm_update_system_state
       (p\<lparr>cores_registered := cores_registered p AND NOT core,
          cores_idle := cores_idle p AND NOT core,
          cores_powered := cores_powered p AND NOT core,
          cores_pend_down := cores_pend_down p AND NOT core,
          cores_pend_up := cores_pend_up p AND NOT core,
          cores_ack_down := cores_ack_down p AND NOT core,
          cores_ack_up := cores_ack_up p AND NOT core\<rparr>)"

definition malipmm_core_power_down_okay :: "('a pmm_scheme \<Rightarrow> bool) \<Rightarrow> u32 \<Rightarrow> 'a pmm_scheme \<Rightarrow> 'a pmm_scheme" where
  "malipmm_core_power_down_okay alloc core p =
     mali_ukk_pmm_event_message alloc EVENT_INTERNAL_POWER_DOWN_ACK core p"

subsection \<open>The event loop\<close>

text \<open>
  Which message the loop takes: an internal one if there is one; otherwise, in a status in which
  the module is not in the middle of a change, a real one.
\<close>

datatype 's next_message =
    Process mali_pmm_message 's
  | Stop 's

definition may_take_real_event :: "'a pmm_scheme \<Rightarrow> bool" where
  "may_take_real_event p \<longleftrightarrow>
     status p = STATUS_IDLE \<or> status p = STATUS_OS_WAITING \<or> status p = STATUS_DVFS_PAUSE"

definition pmm_next_message :: "'a pmm_scheme \<Rightarrow> 'a pmm_scheme next_message" where
  "pmm_next_message p =
     (case iqueue p of
        msg # msgs \<Rightarrow> Process msg (p\<lparr>iqueue := msgs\<rparr>)
      | [] \<Rightarrow>
          if may_take_real_event p then
            (let p = (if waiting p > 0 then p\<lparr>waiting := waiting p - 1\<rparr> else p)
             in case queue p of
                  [] \<Rightarrow> Stop (p\<lparr>no_events := no_events p + 1\<rparr>)
                | msg # msgs \<Rightarrow> Process msg (p\<lparr>queue := msgs\<rparr>))
          else Stop (p\<lparr>waiting := waiting p + 1\<rparr>))"

text \<open>The loop of \<open>pmm_event_process\<close>; the number is \<open>process_messages\<close>.\<close>

fun event_process_loop :: "'a pmm_env \<Rightarrow> nat \<Rightarrow> 'a pmm_scheme \<Rightarrow> 'a pmm_scheme outcome" where
  "event_process_loop env 0 p =
     Done (if status p = STATUS_IDLE \<and> waiting p > 0 then schedulework p else p)"
| "event_process_loop env (Suc n) p =
     (case pmm_next_message p of
        Stop p' \<Rightarrow> Done p'
      | Process event p' \<Rightarrow>
          bind_outcome (pmm_policy_process env event (p'\<lparr>messages_queued := messages_queued p' - 1\<rparr>))
            (\<lambda>(err, p''). if fatal_power_err p'' then Done p'' else event_process_loop env n p''))"

definition pmm_event_process :: "'a pmm_env \<Rightarrow> 'a pmm_scheme \<Rightarrow> 'a pmm_scheme outcome" where
  "pmm_event_process env p = event_process_loop env (unat (messages_queued p)) p"

text \<open>The bottom half: what the worker thread does for one piece of scheduled work.\<close>

definition malipmm_irq_bhandler :: "'a pmm_env \<Rightarrow> 'a pmm_scheme \<Rightarrow> 'a pmm_scheme outcome" where
  "malipmm_irq_bhandler env p =
     (if status p = STATUS_OFF then Done p
      else
        bind_outcome (if missed p > 0 then pmm_fatal_reset env p else Done p)
          (\<lambda>p. if check_policy p then pmm_policy_check_policy env (p\<lparr>check_policy := False\<rparr>)
               else bind_outcome (pmm_event_process env p)
                      (\<lambda>p. if fatal_power_err p then pmm_fatal_reset env p else Done p)))"

end
