(* ===== verification/Rendercore.thy ===== *)
theory Rendercore
  imports Pmm
begin

text \<open>
  The render cores and their scheduler, mali\_kernel\_rendercore.c.  The state extends the power
  management state, because the scheduler posts power events.  Cores, jobs, sessions and subsystems
  are numbered objects; a linked list is the list of its members (the head first), and moving a
  member unlinks it from whatever list it is in.  The global mutex makes every operation atomic.

  The hardware and the other parts of the driver answer through the record \<open>hw_env\<close>: whether the
  MMU can activate the page table of a session for a core, what starting a job returns, and so on.
  Their register accesses are not modelled, and the callbacks of the MMU are later calls of the
  scheduler.  Magic numbers are not modelled.
\<close>

subsection \<open>Data\<close>

datatype mali_core_status =
    CORE_IDLE
  | CORE_WORKING
  | CORE_WATCHDOG_TIMEOUT
  | CORE_POLL
  | CORE_HANG_CHECK_TIMEOUT
  | CORE_OFF

datatype mali_subsystem_reschedule_option = SUBSYSTEM_RESCHEDULE | SUBSYSTEM_WAIT

datatype mali_subsystem_job_end_code =
    JOB_STATUS_CONTINUE_RUN
  | JOB_STATUS_END_SUCCESS
  | JOB_STATUS_END_OOM
  | JOB_STATUS_END_ABORT
  | JOB_STATUS_END_TIMEOUT_SW
  | JOB_STATUS_END_HANG
  | JOB_STATUS_END_SEG_FAULT
  | JOB_STATUS_END_ILLEGAL_JOB
  | JOB_STATUS_END_UNKNOWN_ERR
  | JOB_STATUS_END_SHUTDOWN
  | JOB_STATUS_END_SYSTEM_UNUSABLE

datatype mali_core_type = MALI_GP2 | MALI_200 | MALI_400_GP | MALI_400_PP

record renderunit =
  core_subsystem :: nat
  core_state :: mali_core_status
  error_recovery :: bool
  in_detach_function :: bool
  current_job :: "nat option"
  core_timer :: "u32 option"
  hang_timer :: "u32 option"
  core_mmu :: "nat option"
  pmm_id :: u32
  pend_power_down :: bool
  core_number :: nat

record core_job =
  job_session :: nat
  job_priority :: nat
  watchdog_msecs :: u32
  render_time_msecs :: u32
  start_time_jiffies :: u32
  watchdog_jiffies :: u32
  abort_id :: u32

record core_session =
  session_subsystem :: nat
  renderunits_working :: "nat list"
  job_waiting_to_run :: "nat option"

record core_subsystem =
  mali_core_array :: "nat list"
  subsys_core_type :: mali_core_type
  renderunit_idle :: "nat list"
  renderunit_off :: "nat list"
  awaiting_sessions :: "nat \<Rightarrow> nat list"
  awaiting_sessions_sum :: u32
  all_sessions :: "nat list"

text \<open>
  \<open>returned\<close> lists the calls of \<open>return_job_to_user\<close>, which hands a job back and frees it.
  \<open>mmu_releases\<close> lists the cores that gave their reference to their MMU's page directory back, by a
  call of \<open>mali_memory_core_mmu_release_address_space_reference\<close>.
\<close>

record gpu = pmm +
  rcores :: "nat \<Rightarrow> renderunit"
  jobs :: "nat \<Rightarrow> core_job"
  sessions :: "nat \<Rightarrow> core_session"
  subsystems :: "nat \<Rightarrow> core_subsystem"
  returned :: "(nat \<times> mali_subsystem_job_end_code) list"
  mmu_releases :: "nat list"

text \<open>The other parts of the driver and the hardware.\<close>

record hw_env =
  hw_msg_alloc :: "gpu \<Rightarrow> bool"
  hw_start_job :: "nat \<Rightarrow> nat \<Rightarrow> gpu \<Rightarrow> osk_err"
  hw_l2_invalidate :: "gpu \<Rightarrow> osk_err"
  hw_mmu_activate :: "nat \<Rightarrow> nat \<Rightarrow> gpu \<Rightarrow> bool"
  hw_mstoticks :: "u32 \<Rightarrow> u32"
  hw_tickstoms :: "u32 \<Rightarrow> u32"
  mali_benchmark :: bool

definition PRIORITY_LEVELS :: nat where "PRIORITY_LEVELS = 3"
definition PRIORITY_MAX :: nat where "PRIORITY_MAX = 0"
definition PRIORITY_MIN :: nat where "PRIORITY_MIN = PRIORITY_MAX + PRIORITY_LEVELS - 1"

definition HANG_CHECK_MSECS_MIN :: u32 where "HANG_CHECK_MSECS_MIN = 100"
definition HANG_CHECK_MSECS_MAX :: u32 where "HANG_CHECK_MSECS_MAX = 2000"
definition WATCHDOG_MSECS_MIN :: u32 where "WATCHDOG_MSECS_MIN = 2 * HANG_CHECK_MSECS_MIN"
definition WATCHDOG_MSECS_MAX :: u32 where "WATCHDOG_MSECS_MAX = 3600000"
definition JOB_MAX_JIFFIES :: u32 where "JOB_MAX_JIFFIES = 100000"

definition job_has_higher_priority :: "core_job \<Rightarrow> core_job \<Rightarrow> bool" where
  "job_has_higher_priority a b \<longleftrightarrow> job_priority a < job_priority b"

definition job_priority_set :: "nat \<Rightarrow> core_job \<Rightarrow> core_job" where
  "job_priority_set priority j =
     (if priority > PRIORITY_MIN then j\<lparr>job_priority := PRIORITY_MIN\<rparr> else j\<lparr>job_priority := priority\<rparr>)"

definition job_watchdog_set :: "u32 \<Rightarrow> u32 \<Rightarrow> core_job \<Rightarrow> core_job" where
  "job_watchdog_set mali_max_job_runtime msecs j =
     (if msecs = 0 then j\<lparr>watchdog_msecs := mali_max_job_runtime\<rparr>
      else if msecs > WATCHDOG_MSECS_MAX then j\<lparr>watchdog_msecs := WATCHDOG_MSECS_MAX\<rparr>
      else if msecs < WATCHDOG_MSECS_MIN then j\<lparr>watchdog_msecs := WATCHDOG_MSECS_MIN\<rparr>
      else j\<lparr>watchdog_msecs := msecs\<rparr>)"

text \<open>
  \<open>mali_hang_check_interval\<close> is a C \<open>int\<close>, compared with \<open>int\<close> constants; the capped value is stored
  and returned.
\<close>

definition mali_core_hang_check_timeout_get :: "int \<Rightarrow> int \<times> u32" where
  "mali_core_hang_check_timeout_get interval =
     (let interval = (if interval > 2000 then 2000 else if interval < 100 then 100 else interval)
      in (interval, word_of_int interval))"

subsection \<open>Access to the objects\<close>

definition upd_core :: "nat \<Rightarrow> (renderunit \<Rightarrow> renderunit) \<Rightarrow> gpu \<Rightarrow> gpu" where
  "upd_core c f g = g\<lparr>rcores := (rcores g)(c := f (rcores g c))\<rparr>"

definition upd_job :: "nat \<Rightarrow> (core_job \<Rightarrow> core_job) \<Rightarrow> gpu \<Rightarrow> gpu" where
  "upd_job j f g = g\<lparr>jobs := (jobs g)(j := f (jobs g j))\<rparr>"

definition upd_session :: "nat \<Rightarrow> (core_session \<Rightarrow> core_session) \<Rightarrow> gpu \<Rightarrow> gpu" where
  "upd_session s f g = g\<lparr>sessions := (sessions g)(s := f (sessions g s))\<rparr>"

definition upd_subsys :: "nat \<Rightarrow> (core_subsystem \<Rightarrow> core_subsystem) \<Rightarrow> gpu \<Rightarrow> gpu" where
  "upd_subsys u f g = g\<lparr>subsystems := (subsystems g)(u := f (subsystems g u))\<rparr>"

text \<open>Take the list element of a core out of the list it is in.\<close>

definition unlink_core :: "nat \<Rightarrow> gpu \<Rightarrow> gpu" where
  "unlink_core c g =
     g\<lparr>subsystems := (\<lambda>u. (subsystems g u)\<lparr>renderunit_idle := removeAll c (renderunit_idle (subsystems g u)),
                                           renderunit_off := removeAll c (renderunit_off (subsystems g u))\<rparr>),
       sessions := (\<lambda>s. (sessions g s)\<lparr>renderunits_working := removeAll c (renderunits_working (sessions g s))\<rparr>)\<rparr>"

definition move_to_idle :: "nat \<Rightarrow> gpu \<Rightarrow> gpu" where
  "move_to_idle c g =
     upd_subsys (core_subsystem (rcores g c)) (\<lambda>u. u\<lparr>renderunit_idle := c # renderunit_idle u\<rparr>)
       (unlink_core c g)"

definition move_to_off :: "nat \<Rightarrow> gpu \<Rightarrow> gpu" where
  "move_to_off c g =
     upd_subsys (core_subsystem (rcores g c)) (\<lambda>u. u\<lparr>renderunit_off := c # renderunit_off u\<rparr>)
       (unlink_core c g)"

definition move_to_working :: "nat \<Rightarrow> nat \<Rightarrow> gpu \<Rightarrow> gpu" where
  "move_to_working c s g =
     upd_session s (\<lambda>x. x\<lparr>renderunits_working := c # renderunits_working x\<rparr>) (unlink_core c g)"

definition unlink_awaiting :: "nat \<Rightarrow> nat \<Rightarrow> gpu \<Rightarrow> gpu" where
  "unlink_awaiting u s = upd_subsys u (\<lambda>x. x\<lparr>awaiting_sessions := (\<lambda>i. removeAll s (awaiting_sessions x i))\<rparr>)"

definition return_job_to_user :: "nat \<Rightarrow> mali_subsystem_job_end_code \<Rightarrow> gpu \<Rightarrow> gpu" where
  "return_job_to_user j e g = g\<lparr>returned := returned g @ [(j, e)]\<rparr>"

definition mmu_release :: "nat \<Rightarrow> gpu \<Rightarrow> gpu" where
  "mmu_release c g = g\<lparr>mmu_releases := mmu_releases g @ [c]\<rparr>"

definition post :: "hw_env \<Rightarrow> mali_pmm_event_id \<Rightarrow> u32 \<Rightarrow> gpu \<Rightarrow> gpu" where
  "post h = mali_ukk_pmm_event_message (hw_msg_alloc h)"

lemma upd_core_fields [simp]:
  "rcores (upd_core c f g) = (rcores g)(c := f (rcores g c))" "jobs (upd_core c f g) = jobs g"
  "sessions (upd_core c f g) = sessions g" "subsystems (upd_core c f g) = subsystems g"
  "returned (upd_core c f g) = returned g" "ticks (upd_core c f g) = ticks g"
  "queue (upd_core c f g) = queue g" "iqueue (upd_core c f g) = iqueue g"
  "mmu_releases (upd_core c f g) = mmu_releases g"
  by (simp_all add: upd_core_def)

lemma upd_job_fields [simp]:
  "rcores (upd_job j f g) = rcores g" "jobs (upd_job j f g) = (jobs g)(j := f (jobs g j))"
  "sessions (upd_job j f g) = sessions g" "subsystems (upd_job j f g) = subsystems g"
  "returned (upd_job j f g) = returned g" "ticks (upd_job j f g) = ticks g"
  "queue (upd_job j f g) = queue g" "iqueue (upd_job j f g) = iqueue g"
  "mmu_releases (upd_job j f g) = mmu_releases g"
  by (simp_all add: upd_job_def)

lemma upd_session_fields [simp]:
  "rcores (upd_session s f g) = rcores g" "jobs (upd_session s f g) = jobs g"
  "sessions (upd_session s f g) = (sessions g)(s := f (sessions g s))"
  "subsystems (upd_session s f g) = subsystems g"
  "returned (upd_session s f g) = returned g" "ticks (upd_session s f g) = ticks g"
  "queue (upd_session s f g) = queue g" "iqueue (upd_session s f g) = iqueue g"
  "mmu_releases (upd_session s f g) = mmu_releases g"
  by (simp_all add: upd_session_def)

lemma upd_subsys_fields [simp]:
  "rcores (upd_subsys u f g) = rcores g" "jobs (upd_subsys u f g) = jobs g"
  "sessions (upd_subsys u f g) = sessions g"
  "subsystems (upd_subsys u f g) = (subsystems g)(u := f (subsystems g u))"
  "returned (upd_subsys u f g) = returned g" "ticks (upd_subsys u f g) = ticks g"
  "queue (upd_subsys u f g) = queue g" "iqueue (upd_subsys u f g) = iqueue g"
  "mmu_releases (upd_subsys u f g) = mmu_releases g"
  by (simp_all add: upd_subsys_def)

lemma unlink_core_fields [simp]:
  "rcores (unlink_core c g) = rcores g" "jobs (unlink_core c g) = jobs g"
  "renderunits_working (sessions (unlink_core c g) s) = removeAll c (renderunits_working (sessions g s))"
  "job_waiting_to_run (sessions (unlink_core c g) s) = job_waiting_to_run (sessions g s)"
  "session_subsystem (sessions (unlink_core c g) s) = session_subsystem (sessions g s)"
  "renderunit_idle (subsystems (unlink_core c g) u) = removeAll c (renderunit_idle (subsystems g u))"
  "renderunit_off (subsystems (unlink_core c g) u) = removeAll c (renderunit_off (subsystems g u))"
  "awaiting_sessions (subsystems (unlink_core c g) u) = awaiting_sessions (subsystems g u)"
  "awaiting_sessions_sum (subsystems (unlink_core c g) u) = awaiting_sessions_sum (subsystems g u)"
  "all_sessions (subsystems (unlink_core c g) u) = all_sessions (subsystems g u)"
  "mali_core_array (subsystems (unlink_core c g) u) = mali_core_array (subsystems g u)"
  "subsys_core_type (subsystems (unlink_core c g) u) = subsys_core_type (subsystems g u)"
  "returned (unlink_core c g) = returned g" "ticks (unlink_core c g) = ticks g"
  "queue (unlink_core c g) = queue g" "iqueue (unlink_core c g) = iqueue g"
  "mmu_releases (unlink_core c g) = mmu_releases g"
  by (simp_all add: unlink_core_def)

lemma return_job_fields [simp]:
  "rcores (return_job_to_user j e g) = rcores g" "jobs (return_job_to_user j e g) = jobs g"
  "sessions (return_job_to_user j e g) = sessions g" "subsystems (return_job_to_user j e g) = subsystems g"
  "returned (return_job_to_user j e g) = returned g @ [(j, e)]" "ticks (return_job_to_user j e g) = ticks g"
  "queue (return_job_to_user j e g) = queue g" "iqueue (return_job_to_user j e g) = iqueue g"
  "mmu_releases (return_job_to_user j e g) = mmu_releases g"
  by (simp_all add: return_job_to_user_def)

lemma mmu_release_fields [simp]:
  "rcores (mmu_release c g) = rcores g" "jobs (mmu_release c g) = jobs g"
  "sessions (mmu_release c g) = sessions g" "subsystems (mmu_release c g) = subsystems g"
  "returned (mmu_release c g) = returned g" "ticks (mmu_release c g) = ticks g"
  "queue (mmu_release c g) = queue g" "iqueue (mmu_release c g) = iqueue g"
  "mmu_releases (mmu_release c g) = mmu_releases g @ [c]"
  by (simp_all add: mmu_release_def)

lemma post_fields [simp]:
  "rcores (post h ev d g) = rcores g" "jobs (post h ev d g) = jobs g"
  "sessions (post h ev d g) = sessions g" "subsystems (post h ev d g) = subsystems g"
  "returned (post h ev d g) = returned g" "ticks (post h ev d g) = ticks g"
  "mmu_releases (post h ev d g) = mmu_releases g"
  by (simp_all add: post_def mali_ukk_pmm_event_message_def schedulework_def Let_def)

lemma power_down_okay_fields [simp]:
  "rcores (malipmm_core_power_down_okay al d g) = rcores g" "jobs (malipmm_core_power_down_okay al d g) = jobs g"
  "sessions (malipmm_core_power_down_okay al d g) = sessions g"
  "subsystems (malipmm_core_power_down_okay al d g) = subsystems g"
  "returned (malipmm_core_power_down_okay al d g) = returned g" "ticks (malipmm_core_power_down_okay al d g) = ticks g"
  "mmu_releases (malipmm_core_power_down_okay al d g) = mmu_releases g"
  for g :: gpu
  by (simp_all add: malipmm_core_power_down_okay_def mali_ukk_pmm_event_message_def schedulework_def Let_def)

definition mali_core_renderunit_get_mali_core_nr :: "nat \<Rightarrow> nat \<Rightarrow> gpu \<Rightarrow> nat option" where
  "mali_core_renderunit_get_mali_core_nr u n g =
     (let a = mali_core_array (subsystems g u) in if length a \<le> n then None else Some (a ! n))"

subsection \<open>Moving cores between idle, working and off\<close>

definition mali_core_subsystem_move_core_set_idle :: "hw_env \<Rightarrow> nat \<Rightarrow> gpu \<Rightarrow> gpu" where
  "mali_core_subsystem_move_core_set_idle h c g =
     (let g = upd_core c (\<lambda>x. x\<lparr>core_timer := None, hang_timer := None, current_job := None\<rparr>) g;
          oldstatus = core_state (rcores g c);
          pend = pend_power_down (rcores g c);
          g = (if \<not> pend then move_to_idle c (upd_core c (\<lambda>x. x\<lparr>core_state := CORE_IDLE\<rparr>) g) else g);
          g = (if oldstatus \<noteq> CORE_OFF
               then mmu_release c (post h EVENT_JOB_FINISHED (pmm_id (rcores g c)) g) else g)
      in if pend then
           malipmm_core_power_down_okay (hw_msg_alloc h) (pmm_id (rcores g c))
             (upd_core c (\<lambda>x. x\<lparr>pend_power_down := False\<rparr>)
               (move_to_off c (upd_core c (\<lambda>x. x\<lparr>core_state := CORE_OFF\<rparr>) g)))
         else g)"

definition mali_core_subsystem_move_set_working :: "nat \<Rightarrow> nat \<Rightarrow> gpu \<Rightarrow> gpu" where
  "mali_core_subsystem_move_set_working c j g =
     move_to_working c (job_session (jobs g j))
       (upd_job j (\<lambda>x. x\<lparr>start_time_jiffies := ticks g\<rparr>)
         (upd_core c (\<lambda>x. x\<lparr>current_job := Some j, core_state := CORE_WORKING\<rparr>) g))"

definition mali_core_subsystem_move_core_set_off :: "nat \<Rightarrow> gpu \<Rightarrow> gpu" where
  "mali_core_subsystem_move_core_set_off c g =
     move_to_off c (upd_core c (\<lambda>x. x\<lparr>current_job := None, core_state := CORE_OFF\<rparr>) g)"

subsection \<open>Scheduling\<close>

definition mali_core_subsystem_get_waiting_session :: "nat \<Rightarrow> gpu \<Rightarrow> nat option" where
  "mali_core_subsystem_get_waiting_session u g =
     (let x = subsystems g u
      in if awaiting_sessions_sum x = 0 then None
         else case concat (map (awaiting_sessions x) [0..<PRIORITY_LEVELS]) of
                [] \<Rightarrow> None | s # _ \<Rightarrow> Some s)"

definition mali_core_subsystem_release_session_get_job ::
  "nat \<Rightarrow> nat \<Rightarrow> gpu \<Rightarrow> nat option \<times> gpu" where
  "mali_core_subsystem_release_session_get_job u s g =
     (let g = upd_subsys u (\<lambda>x. x\<lparr>awaiting_sessions_sum := awaiting_sessions_sum x - 1\<rparr>)
                (unlink_awaiting u s g)
      in (job_waiting_to_run (sessions g s),
          upd_session s (\<lambda>x. x\<lparr>job_waiting_to_run := None\<rparr>) g))"

definition mali_core_job_start_on_core :: "hw_env \<Rightarrow> nat \<Rightarrow> nat \<Rightarrow> gpu \<Rightarrow> gpu" where
  "mali_core_job_start_on_core h j c g =
     (let g = mali_core_subsystem_move_set_working c j g
      in if hw_l2_invalidate h g \<noteq> ERR_OK then
           return_job_to_user j JOB_STATUS_END_SYSTEM_UNUSABLE
             (mali_core_subsystem_move_core_set_idle h c g)
         else if hw_start_job h j c g \<noteq> ERR_OK then
           return_job_to_user j JOB_STATUS_END_ILLEGAL_JOB
             (mali_core_subsystem_move_core_set_idle h c g)
         else
           (let delay = hw_mstoticks h (watchdog_msecs (jobs g j)) + 1
            in upd_core c (\<lambda>x. x\<lparr>core_timer := Some (if mali_benchmark h then 1 else delay)\<rparr>)
                 (upd_job j (\<lambda>x. x\<lparr>watchdog_jiffies := ticks g + delay\<rparr>) g)))"

text \<open>
  One scheduling step: the job of the first waiting session is started on the first idle core whose
  MMU takes the session's page table.  (A released session always has a job, by the invariant below;
  the code does not check for \<open>NULL\<close>.)
\<close>

definition mali_core_subsystem_schedule :: "hw_env \<Rightarrow> nat \<Rightarrow> gpu \<Rightarrow> gpu" where
  "mali_core_subsystem_schedule h u g =
     (if awaiting_sessions_sum (subsystems g u) = 0 then g
      else case mali_core_subsystem_get_waiting_session u g of
        None \<Rightarrow> g
      | Some s \<Rightarrow>
          (case find (\<lambda>c. hw_mmu_activate h c s g) (renderunit_idle (subsystems g u)) of
             Some c \<Rightarrow>
               (case mali_core_subsystem_release_session_get_job u s g of
                  (None, g) \<Rightarrow> g
                | (Some j, g) \<Rightarrow>
                    mali_core_job_start_on_core h j c
                      (post h EVENT_JOB_SCHEDULED (pmm_id (rcores g c)) g))
           | None \<Rightarrow>
               post h EVENT_JOB_QUEUED
                 (if subsys_core_type (subsystems g u) \<in> {MALI_GP2, MALI_400_GP}
                  then CORE_GP else CORE_PP_ALL) g))"

subsection \<open>Sessions and jobs\<close>

definition mali_core_session_begin :: "nat \<Rightarrow> gpu \<Rightarrow> gpu" where
  "mali_core_session_begin s g =
     (let u = session_subsystem (sessions g s);
          g = upd_session s (\<lambda>x. x\<lparr>renderunits_working := [], job_waiting_to_run := None\<rparr>) g
      in upd_subsys u (\<lambda>x. x\<lparr>all_sessions := s # all_sessions x\<rparr>) g)"

definition mali_core_job_set_run_time :: "hw_env \<Rightarrow> nat \<Rightarrow> gpu \<Rightarrow> gpu" where
  "mali_core_job_set_run_time h j g =
     (let used = ticks g - start_time_jiffies (jobs g j);
          used = (if used > JOB_MAX_JIFFIES then 0 else used)
      in upd_job j (\<lambda>x. x\<lparr>render_time_msecs := hw_tickstoms h used\<rparr>) g)"

definition mali_core_renderunit_detach_job_from_core ::
  "hw_env \<Rightarrow> nat \<Rightarrow> mali_subsystem_reschedule_option \<Rightarrow> mali_subsystem_job_end_code \<Rightarrow> gpu \<Rightarrow> gpu" where
  "mali_core_renderunit_detach_job_from_core h c reschedule end_status g =
     (let job = current_job (rcores g c)
      in if in_detach_function (rcores g c) then g
         else
           (let g = upd_core c (\<lambda>x. x\<lparr>in_detach_function := True\<rparr>) g;
                g = (case job of None \<Rightarrow> g
                     | Some j \<Rightarrow> upd_core c (\<lambda>x. x\<lparr>current_job := None\<rparr>) (mali_core_job_set_run_time h j g));
                g = (if core_state (rcores g c) \<noteq> CORE_IDLE
                     then mali_core_subsystem_move_core_set_idle h c g else g);
                g = upd_core c (\<lambda>x. x\<lparr>in_detach_function := False\<rparr>) g;
                g = (if reschedule = SUBSYSTEM_RESCHEDULE
                     then mali_core_subsystem_schedule h (core_subsystem (rcores g c)) g else g)
            in case job of None \<Rightarrow> g | Some j \<Rightarrow> return_job_to_user j end_status g))"

definition mali_core_session_add_job ::
  "hw_env \<Rightarrow> nat \<Rightarrow> nat \<Rightarrow> gpu \<Rightarrow> osk_err \<times> nat option \<times> gpu" where
  "mali_core_session_add_job h s j g =
     (let u = session_subsystem (sessions g s);
          enqueue = (\<lambda>g.
            (let p = job_priority (jobs g j);
                 g = upd_session s (\<lambda>x. x\<lparr>job_waiting_to_run := Some j\<rparr>) g;
                 g = upd_subsys u (\<lambda>x. x\<lparr>awaiting_sessions :=
                         (awaiting_sessions x)(p := awaiting_sessions x p @ [s]),
                       awaiting_sessions_sum := awaiting_sessions_sum x + 1\<rparr>) g
             in mali_core_subsystem_schedule h u g))
      in case job_waiting_to_run (sessions g s) of
           Some old \<Rightarrow>
             if job_has_higher_priority (jobs g j) (jobs g old) then
               (ERR_OK, Some old,
                enqueue (upd_subsys u (\<lambda>x. x\<lparr>awaiting_sessions_sum := awaiting_sessions_sum x - 1\<rparr>)
                          (unlink_awaiting u s g)))
             else (ERR_FAULT, None, g)
         | None \<Rightarrow> (ERR_OK, None, enqueue g))"

text \<open>Closing a session: the loop over its working cores ends with \<open>break\<close> after the first one.\<close>

definition mali_core_session_close :: "hw_env \<Rightarrow> nat \<Rightarrow> gpu \<Rightarrow> gpu" where
  "mali_core_session_close h s g =
     (let u = session_subsystem (sessions g s);
          g = (case job_waiting_to_run (sessions g s) of
                 None \<Rightarrow> g
               | Some j \<Rightarrow>
                   upd_subsys u (\<lambda>x. x\<lparr>awaiting_sessions_sum := awaiting_sessions_sum x - 1\<rparr>)
                     (unlink_awaiting u s
                       (upd_session s (\<lambda>x. x\<lparr>job_waiting_to_run := None\<rparr>)
                         (return_job_to_user j JOB_STATUS_END_SHUTDOWN g))));
          g = (case renderunits_working (sessions g s) of
                 [] \<Rightarrow> g
               | c # _ \<Rightarrow> mali_core_renderunit_detach_job_from_core h c SUBSYSTEM_RESCHEDULE
                           JOB_STATUS_END_SHUTDOWN g);
          g = upd_session s (\<lambda>x. x\<lparr>renderunits_working := []\<rparr>) g
      in upd_subsys u (\<lambda>x. x\<lparr>all_sessions := removeAll s (all_sessions x)\<rparr>) g)"

definition job_should_be_aborted :: "core_job \<Rightarrow> u32 \<Rightarrow> bool" where
  "job_should_be_aborted j aid \<longleftrightarrow> abort_id j = aid"

text \<open>The loop over the working cores; the next core is read before the body runs.\<close>

fun abort_cores :: "hw_env \<Rightarrow> u32 \<Rightarrow> nat list \<Rightarrow> gpu \<Rightarrow> gpu" where
  "abort_cores h aid [] g = g"
| "abort_cores h aid (c # cs) g =
     (case current_job (rcores g c) of
        None \<Rightarrow> abort_cores h aid cs g
      | Some j \<Rightarrow>
          if job_should_be_aborted (jobs g j) aid then
            if core_state (rcores g c) = CORE_IDLE then g
            else abort_cores h aid cs
                   (mali_core_renderunit_detach_job_from_core h c SUBSYSTEM_RESCHEDULE JOB_STATUS_END_ABORT g)
          else abort_cores h aid cs g)"

definition find_and_abort :: "hw_env \<Rightarrow> nat \<Rightarrow> u32 \<Rightarrow> gpu \<Rightarrow> gpu" where
  "find_and_abort h s aid g =
     (let u = session_subsystem (sessions g s);
          g = (case job_waiting_to_run (sessions g s) of
                 None \<Rightarrow> g
               | Some j \<Rightarrow>
                   if job_should_be_aborted (jobs g j) aid then
                     return_job_to_user j JOB_STATUS_END_ABORT
                       (upd_subsys u (\<lambda>x. x\<lparr>awaiting_sessions_sum := awaiting_sessions_sum x - 1\<rparr>)
                         (unlink_awaiting u s (upd_session s (\<lambda>x. x\<lparr>job_waiting_to_run := None\<rparr>) g)))
                   else g)
      in abort_cores h aid (renderunits_working (sessions g s)) g)"

end
