(* ===== verification/Pmm_Invariant.thy ===== *)
theory Pmm_Invariant
  imports Pmm
begin

text \<open>
  The invariants of the power management module.  The interface to the render cores is a locale:
  what the module may assume of a signal to a core, during which the power lock is dropped.  The
  preservation lemmas are proved once inside it; the render core model interprets it.
\<close>

subsection \<open>What other threads may do while the lock is dropped\<close>

definition strip_timer :: "pmm_policy_data_job_control \<Rightarrow> pmm_policy_data_job_control" where
  "strip_timer d = d\<lparr>latency := (latency d)\<lparr>timer_expired := False, armed := None\<rparr>\<rparr>"

text \<open>
  They may unregister cores, post messages (or fail to) and let the latency timer expire; they do
  not touch what belongs to the worker thread.  The final termination of the module is not among
  them.
\<close>

definition pmm_rely :: "'a pmm_scheme \<Rightarrow> 'a pmm_scheme \<Rightarrow> bool" where
  "pmm_rely p p' \<longleftrightarrow>
     (\<exists>gone qs is.
        cores_registered p' = cores_registered p AND NOT gone \<and>
        cores_powered p' = cores_powered p AND NOT gone \<and>
        cores_idle p' = cores_idle p AND NOT gone \<and>
        cores_pend_down p' = cores_pend_down p AND NOT gone \<and>
        cores_pend_up p' = cores_pend_up p AND NOT gone \<and>
        cores_ack_down p' = cores_ack_down p AND NOT gone \<and>
        cores_ack_up p' = cores_ack_up p AND NOT gone \<and>
        queue p' = queue p @ qs \<and> iqueue p' = iqueue p @ is \<and>
        messages_queued p' = messages_queued p + of_nat (length qs + length is)) \<and>
     status p' = status p \<and>
     policy p' = policy p \<and> os_data p' = os_data p \<and> is_dvfs_active p' = is_dvfs_active p \<and>
     fatal_power_err p' = fatal_power_err p \<and> calls p' = calls p \<and>
     map_option strip_timer (data_job_control p') = map_option strip_timer (data_job_control p)"

lemma rely_refl [simp]: "pmm_rely p p"
  unfolding pmm_rely_def by (intro conjI exI[of _ 0] exI[of _ "[]"]) simp_all

lemma and_not_and_not: "(a AND NOT g) AND NOT h = a AND NOT (g OR h)" for a :: u32
  by (auto simp: mask_eq_bits bits)

lemma rely_trans:
  assumes "pmm_rely p q" "pmm_rely q r"
  shows "pmm_rely p r"
proof -
  obtain g1 q1 i1 where 1:
    "cores_registered q = cores_registered p AND NOT g1" "cores_powered q = cores_powered p AND NOT g1"
    "cores_idle q = cores_idle p AND NOT g1" "cores_pend_down q = cores_pend_down p AND NOT g1"
    "cores_pend_up q = cores_pend_up p AND NOT g1" "cores_ack_down q = cores_ack_down p AND NOT g1"
    "cores_ack_up q = cores_ack_up p AND NOT g1"
    "queue q = queue p @ q1" "iqueue q = iqueue p @ i1"
    "messages_queued q = messages_queued p + of_nat (length q1 + length i1)"
    using assms(1) unfolding pmm_rely_def by blast
  obtain g2 q2 i2 where 2:
    "cores_registered r = cores_registered q AND NOT g2" "cores_powered r = cores_powered q AND NOT g2"
    "cores_idle r = cores_idle q AND NOT g2" "cores_pend_down r = cores_pend_down q AND NOT g2"
    "cores_pend_up r = cores_pend_up q AND NOT g2" "cores_ack_down r = cores_ack_down q AND NOT g2"
    "cores_ack_up r = cores_ack_up q AND NOT g2"
    "queue r = queue q @ q2" "iqueue r = iqueue q @ i2"
    "messages_queued r = messages_queued q + of_nat (length q2 + length i2)"
    using assms(2) unfolding pmm_rely_def by blast
  have "\<exists>gone qs is.
        cores_registered r = cores_registered p AND NOT gone \<and>
        cores_powered r = cores_powered p AND NOT gone \<and>
        cores_idle r = cores_idle p AND NOT gone \<and>
        cores_pend_down r = cores_pend_down p AND NOT gone \<and>
        cores_pend_up r = cores_pend_up p AND NOT gone \<and>
        cores_ack_down r = cores_ack_down p AND NOT gone \<and>
        cores_ack_up r = cores_ack_up p AND NOT gone \<and>
        queue r = queue p @ qs \<and> iqueue r = iqueue p @ is \<and>
        messages_queued r = messages_queued p + of_nat (length qs + length is)"
    by (intro exI[of _ "g1 OR g2"] exI[of _ "q1 @ q2"] exI[of _ "i1 @ i2"])
      (simp add: 1 2 and_not_and_not)
  then show ?thesis using assms unfolding pmm_rely_def by auto
qed

subsection \<open>The mask invariant\<close>

text \<open>
  Powered cores are registered, cores pending power down are powered, and cores pending power up
  are registered and not powered.
\<close>

definition pmm_wf :: "'a pmm_scheme \<Rightarrow> bool" where
  "pmm_wf p \<longleftrightarrow>
     submask (cores_powered p) (cores_registered p) \<and>
     submask (cores_pend_down p) (cores_powered p) \<and>
     submask (cores_pend_up p) (cores_registered p) \<and>
     disjmask (cores_pend_up p) (cores_powered p)"

text \<open>How far the counter of queued messages is above the number of messages in the two queues.\<close>

definition messages_excess :: "'a pmm_scheme \<Rightarrow> u32" where
  "messages_excess p = messages_queued p - of_nat (length (queue p) + length (iqueue p))"

lemma submask_and_not: "submask a b \<Longrightarrow> submask (a AND NOT g) (b AND NOT g)"
  by (auto simp: mask_conv bits)

lemma disjmask_and_not: "disjmask a b \<Longrightarrow> disjmask (a AND NOT g) (b AND NOT g)"
  by (auto simp: mask_conv bits)

lemma rely_wf: "pmm_rely p p' \<Longrightarrow> pmm_wf p \<Longrightarrow> pmm_wf p'"
  unfolding pmm_rely_def pmm_wf_def by (auto simp: submask_and_not disjmask_and_not)

lemma rely_messages: "pmm_rely p p' \<Longrightarrow> messages_excess p' = messages_excess p"
  unfolding pmm_rely_def messages_excess_def by (auto simp: algebra_simps)

lemma event_message_wf [simp]: "pmm_wf (mali_ukk_pmm_event_message alloc eid d p) = pmm_wf p"
  by (simp add: mali_ukk_pmm_event_message_def schedulework_def pmm_wf_def Let_def)

lemma event_message_excess: "messages_excess (mali_ukk_pmm_event_message alloc eid d p) = messages_excess p"
  by (simp add: mali_ukk_pmm_event_message_def schedulework_def messages_excess_def Let_def algebra_simps)

text \<open>Posting a message is something other threads may do.\<close>

lemma event_message_rely: "pmm_rely p (mali_ukk_pmm_event_message alloc eid d p)"
proof -
  define m :: mali_pmm_message where "m = \<lparr>msg_id = eid, msg_data = d, msg_ts = ticks p\<rparr>"
  have *: "\<exists>gone qs is.
      cores_registered p = cores_registered p AND NOT gone \<and>
      cores_powered p = cores_powered p AND NOT gone \<and>
      cores_idle p = cores_idle p AND NOT gone \<and>
      cores_pend_down p = cores_pend_down p AND NOT gone \<and>
      cores_pend_up p = cores_pend_up p AND NOT gone \<and>
      cores_ack_down p = cores_ack_down p AND NOT gone \<and>
      cores_ack_up p = cores_ack_up p AND NOT gone \<and>
      queue p @ q = queue p @ qs \<and> iqueue p @ i = iqueue p @ is \<and>
      messages_queued p + of_nat (length q + length i) = messages_queued p + of_nat (length qs + length is)"
    for q i
    by (intro exI[of _ 0] exI[of _ q] exI[of _ i]) simp
  show ?thesis
    using *[of "[]" "[]"] *[of "[m]" "[]"] *[of "[]" "[m]"]
    unfolding pmm_rely_def mali_ukk_pmm_event_message_def schedulework_def
    by (simp add: m_def Let_def)
qed

lemma unregister_rely: "pmm_rely p (malipmm_core_unregister core p)"
proof -
  have "\<exists>gone qs is.
      cores_registered p AND NOT core = cores_registered p AND NOT gone \<and>
      cores_powered p AND NOT core = cores_powered p AND NOT gone \<and>
      cores_idle p AND NOT core = cores_idle p AND NOT gone \<and>
      cores_pend_down p AND NOT core = cores_pend_down p AND NOT gone \<and>
      cores_pend_up p AND NOT core = cores_pend_up p AND NOT gone \<and>
      cores_ack_down p AND NOT core = cores_ack_down p AND NOT gone \<and>
      cores_ack_up p AND NOT core = cores_ack_up p AND NOT gone \<and>
      queue p = queue p @ qs \<and> iqueue p = iqueue p @ is \<and>
      messages_queued p = messages_queued p + of_nat (length qs + length is)"
    by (intro exI[of _ core] exI[of _ "[]"]) simp
  then show ?thesis
    unfolding pmm_rely_def malipmm_core_unregister_def pmm_update_system_state_def by simp
qed

subsection \<open>One core\<close>

lemma core_single_bit:
  "c \<in> set cores_list \<Longrightarrow> c AND s \<noteq> 0 \<longleftrightarrow> submask c s"
proof -
  have *: "2 ^ k AND s \<noteq> 0 \<longleftrightarrow> submask (2 ^ k) s" if "k < 32" for k
    using that by (auto simp: mask_conv bits)
  assume "c \<in> set cores_list"
  then have "c \<in> (\<lambda>k. 2 ^ k) ` {0, 1, 2, 3, 4, 5 :: nat}" by (auto simp: cores_list_def core_ids)
  then obtain k :: nat where "k \<in> {0, 1, 2, 3, 4, 5}" "c = 2 ^ k" by blast
  moreover from this(1) have "k < 32" by auto
  ultimately show ?thesis using * by blast
qed

lemma wf_pend_core:
  "pmm_wf p \<Longrightarrow> submask c (cores_powered p) \<Longrightarrow> pmm_wf (p\<lparr>cores_pend_down := cores_pend_down p OR c\<rparr>)"
  by (simp add: pmm_wf_def)

lemma wf_ack [simp]:
  "pmm_wf (p\<lparr>cores_ack_down := a\<rparr>) = pmm_wf p" "pmm_wf (p\<lparr>cores_ack_up := a\<rparr>) = pmm_wf p"
  "pmm_wf (p\<lparr>cores_idle := a\<rparr>) = pmm_wf p" "pmm_wf (p\<lparr>status := st\<rparr>) = pmm_wf p"
  "pmm_wf (p\<lparr>os_data := d\<rparr>) = pmm_wf p" "pmm_wf (p\<lparr>is_dvfs_active := n\<rparr>) = pmm_wf p"
  "pmm_wf (p\<lparr>fatal_power_err := b\<rparr>) = pmm_wf p" "pmm_wf (p\<lparr>check_policy := b\<rparr>) = pmm_wf p"
  "pmm_wf (p\<lparr>data_job_control := j\<rparr>) = pmm_wf p" "pmm_wf (p\<lparr>state := sy\<rparr>) = pmm_wf p"
  "pmm_wf (p\<lparr>iqueue := q\<rparr>) = pmm_wf p" "pmm_wf (p\<lparr>queue := q\<rparr>) = pmm_wf p"
  "pmm_wf (p\<lparr>waiting := n\<rparr>) = pmm_wf p" "pmm_wf (p\<lparr>no_events := n\<rparr>) = pmm_wf p"
  "pmm_wf (p\<lparr>messages_queued := n\<rparr>) = pmm_wf p" "pmm_wf (p\<lparr>work_scheduled := b\<rparr>) = pmm_wf p"
  "pmm_wf (p\<lparr>calls := cs\<rparr>) = pmm_wf p"
  by (simp_all add: pmm_wf_def)

lemma messages_excess_frame [simp]:
  "messages_excess (p\<lparr>cores_ack_down := a\<rparr>) = messages_excess p" "messages_excess (p\<lparr>cores_ack_up := a\<rparr>) = messages_excess p"
  "messages_excess (p\<lparr>cores_idle := a\<rparr>) = messages_excess p" "messages_excess (p\<lparr>status := st\<rparr>) = messages_excess p"
  "messages_excess (p\<lparr>os_data := d\<rparr>) = messages_excess p" "messages_excess (p\<lparr>is_dvfs_active := n\<rparr>) = messages_excess p"
  "messages_excess (p\<lparr>fatal_power_err := b\<rparr>) = messages_excess p" "messages_excess (p\<lparr>check_policy := b\<rparr>) = messages_excess p"
  "messages_excess (p\<lparr>data_job_control := j\<rparr>) = messages_excess p" "messages_excess (p\<lparr>state := sy\<rparr>) = messages_excess p"
  "messages_excess (p\<lparr>waiting := n\<rparr>) = messages_excess p" "messages_excess (p\<lparr>no_events := n\<rparr>) = messages_excess p"
  "messages_excess (p\<lparr>work_scheduled := b\<rparr>) = messages_excess p" "messages_excess (p\<lparr>calls := cs\<rparr>) = messages_excess p"
  "messages_excess (p\<lparr>cores_pend_down := a\<rparr>) = messages_excess p" "messages_excess (p\<lparr>cores_pend_up := a\<rparr>) = messages_excess p"
  "messages_excess (p\<lparr>cores_powered := a\<rparr>) = messages_excess p"
  by (simp_all add: messages_excess_def)

definition pmm_good :: "u32 \<Rightarrow> 'a pmm_scheme \<Rightarrow> bool" where
  "pmm_good k p \<longleftrightarrow> pmm_wf p \<and> messages_excess p = k"

named_theorems good_frame \<open>operations that keep the invariant\<close>

lemma good_update [simp]:
  "pmm_good k (p\<lparr>cores_ack_down := a\<rparr>) = pmm_good k p" "pmm_good k (p\<lparr>cores_ack_up := a\<rparr>) = pmm_good k p"
  "pmm_good k (p\<lparr>cores_idle := a\<rparr>) = pmm_good k p" "pmm_good k (p\<lparr>status := st\<rparr>) = pmm_good k p"
  "pmm_good k (p\<lparr>os_data := d\<rparr>) = pmm_good k p" "pmm_good k (p\<lparr>is_dvfs_active := n\<rparr>) = pmm_good k p"
  "pmm_good k (p\<lparr>fatal_power_err := b\<rparr>) = pmm_good k p" "pmm_good k (p\<lparr>check_policy := b\<rparr>) = pmm_good k p"
  "pmm_good k (p\<lparr>data_job_control := j\<rparr>) = pmm_good k p" "pmm_good k (p\<lparr>state := sy\<rparr>) = pmm_good k p"
  "pmm_good k (p\<lparr>waiting := n\<rparr>) = pmm_good k p" "pmm_good k (p\<lparr>no_events := n\<rparr>) = pmm_good k p"
  "pmm_good k (p\<lparr>work_scheduled := b\<rparr>) = pmm_good k p" "pmm_good k (p\<lparr>calls := cs\<rparr>) = pmm_good k p"
  by (simp_all add: pmm_good_def)

lemma good_emit [simp]:
  "pmm_good k (emit c p) = pmm_good k p" "pmm_good k (power_up_done d p) = pmm_good k p"
  "pmm_good k (power_down_done d p) = pmm_good k p" "pmm_good k (dvfs_operation_done d p) = pmm_good k p"
  "pmm_good k (schedulework p) = pmm_good k p" "pmm_good k (pmm_update_system_state p) = pmm_good k p"
  "pmm_good k (pmm_cores_set_active c' p) = pmm_good k p" "pmm_good k (pmm_cores_set_idle c' p) = pmm_good k p"
  "pmm_good k (pmm_cores_set_down_ack c' p) = pmm_good k p" "pmm_good k (pmm_cores_set_up_ack c' p) = pmm_good k p"
  "pmm_good k (pmm_save_os_event_data d p) = pmm_good k p"
  "pmm_good k (snd (pmm_retrieve_os_event_data p)) = pmm_good k p"
  by (simp_all add: emit_def power_up_done_def power_down_done_def dvfs_operation_done_def
      schedulework_def pmm_update_system_state_def pmm_cores_set_active_def pmm_cores_set_idle_def
      pmm_cores_set_down_ack_def pmm_cores_set_up_ack_def pmm_save_os_event_data_def
      pmm_retrieve_os_event_data_def)

lemma good_message [good_frame]:
  "pmm_good k p \<Longrightarrow> pmm_good k (mali_ukk_pmm_event_message alloc eid d p)"
  by (simp add: pmm_good_def event_message_excess)

lemma rely_good [good_frame]: "pmm_rely p p' \<Longrightarrow> pmm_good k p \<Longrightarrow> pmm_good k p'"
  by (simp add: pmm_good_def rely_wf rely_messages)

lemma good_cores_to_power_up:
  "pmm_good k p \<Longrightarrow> submask cores (cores_registered p) \<Longrightarrow> pmm_good k (snd (pmm_cores_to_power_up cores p))"
  by (auto simp: pmm_good_def pmm_cores_to_power_up_def pmm_wf_def messages_excess_def Let_def mask_conv bits)

lemma good_invoke_power_down [good_frame]:
  "pmm_good k p \<Longrightarrow> pmm_good k (snd (pmm_invoke_power_down env p))"
  by (auto simp: pmm_good_def pmm_invoke_power_down_def platform_powerdown_def emit_def pmm_wf_def
      messages_excess_def Let_def mask_conv bits)

text \<open>What holds before a purge loop and is kept by the polls and by taking a message holds after it.\<close>

lemma purge_iqueue_inv:
  assumes "purge_iqueue env n p = Some p'" "P p"
    and spin: "\<And>n q. P q \<Longrightarrow> P (spin env n q)"
  shows "\<exists>q m ms. P q \<and> iqueue q = m # ms \<and> p' = q\<lparr>iqueue := ms\<rparr>"
proof -
  let ?Q = "\<lambda>e p p'. e = env \<longrightarrow> P p \<longrightarrow>
      (\<exists>q m ms. P q \<and> iqueue q = m # ms \<and> p' = q\<lparr>iqueue := ms\<rparr>)"
  have "?Q env p p'"
  proof (rule purge_iqueue.raw_induct[where P = "\<lambda>e n p p'. ?Q e p p'", OF _ assms(1)])
    fix rec e i q y
    assume ih: "\<And>i p b y. rec i p b = Some y \<Longrightarrow> ?Q i b y"
      and r: "(let p = spin e i q in case iqueue p of [] \<Rightarrow> rec e (Suc i) p
                 | msg # msgs \<Rightarrow> Some (p\<lparr>iqueue := msgs\<rparr>)) = Some y"
    show "?Q e q y"
      using ih[of e "Suc i" "spin e i q" y] r spin[of q i]
      by (cases "iqueue (spin e i q)") (auto simp: Let_def)
  qed
  then show ?thesis using assms(2) by blast
qed

lemma purge_queue_inv:
  assumes "purge_queue env n p = Some p'" "P p"
    and spin: "\<And>n q. P q \<Longrightarrow> P (spin env n q)"
  shows "\<exists>q m ms. P q \<and> queue q = m # ms \<and> p' = q\<lparr>queue := ms\<rparr>"
proof -
  let ?Q = "\<lambda>e p p'. e = env \<longrightarrow> P p \<longrightarrow>
      (\<exists>q m ms. P q \<and> queue q = m # ms \<and> p' = q\<lparr>queue := ms\<rparr>)"
  have "?Q env p p'"
  proof (rule purge_queue.raw_induct[where P = "\<lambda>e n p p'. ?Q e p p'", OF _ assms(1)])
    fix rec e i q y
    assume ih: "\<And>i p b y. rec i p b = Some y \<Longrightarrow> ?Q i b y"
      and r: "(let p = spin e i q in case queue p of [] \<Rightarrow> rec e (Suc i) p
                 | msg # msgs \<Rightarrow> Some (p\<lparr>queue := msgs\<rparr>)) = Some y"
    show "?Q e q y"
      using ih[of e "Suc i" "spin e i q" y] r spin[of q i]
      by (cases "queue (spin e i q)") (auto simp: Let_def)
  qed
  then show ?thesis using assms(2) by blast
qed

subsection \<open>The interface to the render cores\<close>

text \<open>
  The contract of the signals: whatever a signal does, and whatever other threads do meanwhile,
  stays within \<open>pmm_rely\<close>.
\<close>

locale core_signals =
  fixes env :: "'a pmm_env"
  assumes sig_up_rely: "pmm_rely p (snd (sig_up env c queue_only p))"
    and sig_down_rely: "pmm_rely p (snd (sig_down env c immediate_only p))"
    and spin_rely: "pmm_rely p (spin env n p)"
begin

lemma good_power_down_core:
  assumes "pmm_good k p" "s = cores_powered p AND cores" "c \<in> set cores_list"
  shows "pmm_good k (snd (power_down_core env cores im c (s, p))) \<and>
         fst (power_down_core env cores im c (s, p)) =
           cores_powered (snd (power_down_core env cores im c (s, p))) AND cores"
proof (cases "c AND s = 0")
  case True
  then show ?thesis using assms by (simp add: power_down_core_def)
next
  case False
  then have "submask c (cores_powered p)"
    using core_single_bit[OF assms(3), of s] assms(2) by (auto simp: mask_conv bits)
  then have "pmm_good k (p\<lparr>cores_pend_down := cores_pend_down p OR c\<rparr>)"
    using assms(1) by (simp add: pmm_good_def wf_pend_core)
  from rely_good[OF sig_down_rely this] show ?thesis
    using False by (simp add: power_down_core_def Let_def split_beta)
qed

lemma good_cores_to_power_down [good_frame]:
  assumes "pmm_good k p"
  shows "pmm_good k (snd (pmm_cores_to_power_down env cores im p))"
proof -
  have "pmm_good k (snd (fold (power_down_core env cores im) (rev cores_list) (cores_powered p AND cores, p))) \<and>
      fst (fold (power_down_core env cores im) (rev cores_list) (cores_powered p AND cores, p)) =
        cores_powered (snd (fold (power_down_core env cores im) (rev cores_list)
          (cores_powered p AND cores, p))) AND cores"
    by (rule fold_invariant[where Q = "\<lambda>c. c \<in> set cores_list"])
      (use assms good_power_down_core in auto)
  then show ?thesis using assms by (simp add: pmm_cores_to_power_down_def Let_def)
qed

lemma good_power_down_cancel [good_frame]:
  assumes "pmm_good k p"
  shows "pmm_good k (pmm_power_down_cancel env p)"
proof -
  have "pmm_good k (p\<lparr>cores_pend_down := 0, cores_ack_down := 0\<rparr>)"
    using assms by (simp add: pmm_good_def pmm_wf_def)
  moreover have "pmm_good k (snd (cancel_core env c s))" if "pmm_good k (snd s)" for c s
    using rely_good[OF sig_up_rely that] that by (cases s) (simp add: cancel_core_def split_beta)
  ultimately show ?thesis
    unfolding pmm_power_down_cancel_def
    by (intro fold_invariant[where Q = "\<lambda>_. True" and P = "\<lambda>s. pmm_good k (snd s)"]) auto
qed

lemma good_power_up_core: "pmm_good k p \<Longrightarrow> pmm_good k (power_up_core env c p)"
  using rely_good[OF sig_up_rely] by (simp add: power_up_core_def)

lemma good_invoke_power_up [good_frame]:
  assumes "pmm_good k p"
  shows "pmm_good k (snd (pmm_invoke_power_up env p))"
proof -
  have "pmm_good k (fold (power_up_core env) cores_list p)"
    by (rule fold_invariant[where Q = "\<lambda>_. True"]) (use assms good_power_up_core in auto)
  then have "pmm_good k (let q = fold (power_up_core env) cores_list p in
      q\<lparr>cores_powered := cores_powered q OR cores_pend_up q,
         cores_idle := cores_idle q OR cores_pend_up q, cores_pend_up := 0, cores_ack_up := 0\<rparr>)"
    by (auto simp: Let_def pmm_good_def pmm_wf_def messages_excess_def intro: submask_or_left)
  then show ?thesis using assms
    by (auto simp: pmm_invoke_power_up_def platform_powerup_def Let_def good_message)
qed

lemma good_job_queued [good_frame]:
  "pmm_good k p \<Longrightarrow> pmm_good k (pmm_policy_job_control_job_queued env p)"
  by (simp add: pmm_policy_job_control_job_queued_def good_cores_to_power_up good_invoke_power_up
      split_beta)

lemma good_dvfs_pause [good_frame]:
  "pmm_good k p \<Longrightarrow> pmm_good k (job_control_dvfs_pause env cores d p)"
  by (simp add: job_control_dvfs_pause_def good_cores_to_power_down split_beta)

lemma good_os_power_down [good_frame]:
  "pmm_good k p \<Longrightarrow> pmm_good k (job_control_os_power_down env cores d p)"
  by (simp add: job_control_os_power_down_def good_cores_to_power_down good_invoke_power_down
      split_beta)

lemma good_timeout:
  "pmm_good k p \<Longrightarrow> job_control_timeout env cores st p = Done (e, p') \<Longrightarrow> pmm_good k p'"
  by (auto simp: job_control_timeout_def good_cores_to_power_down good_invoke_power_down
      good_power_down_cancel split_beta split: option.splits if_splits)

lemma good_idle:
  "pmm_good k p \<Longrightarrow> job_control_idle env cores ev p = Done (e, p') \<Longrightarrow> pmm_good k p'"
  by (cases "msg_id ev")
    (auto simp: job_control_idle_def Let_def good_job_queued good_dvfs_pause good_os_power_down
      dest: good_timeout[rotated] split: option.splits if_splits)

lemma good_paused: "pmm_good k p \<Longrightarrow> pmm_good k (job_control_paused env ev p)"
  by (cases "msg_id ev")
    (simp_all add: job_control_paused_def Let_def good_power_down_cancel good_job_queued
      good_invoke_power_down)

lemma good_power_up: "pmm_good k p \<Longrightarrow> pmm_good k (snd (job_control_power_up env cores ev p))"
  by (auto simp: job_control_power_up_def Let_def split_beta good_invoke_power_up
      split: mali_pmm_event_id.splits)

lemma good_power_down: "pmm_good k p \<Longrightarrow> pmm_good k (snd (job_control_power_down env cores ev p))"
  by (auto simp: job_control_power_down_def Let_def split_beta good_invoke_power_down
      split: mali_pmm_event_id.splits)

lemma good_os_waiting:
  "pmm_good k p \<Longrightarrow> submask cores (cores_registered p) \<or> msg_id ev \<noteq> EVENT_OS_POWER_UP \<Longrightarrow>
     pmm_good k (job_control_os_waiting env cores ev p)"
  by (auto simp: job_control_os_waiting_def split_beta good_invoke_power_up
      good_cores_to_power_up split: mali_pmm_event_id.splits)

lemma good_finish: "pmm_good k p \<Longrightarrow> job_control_finish p = Done (e, p') \<Longrightarrow> pmm_good k p'"
  by (auto simp: job_control_finish_def split: option.splits)

lemma good_status:
  assumes "pmm_good k p" "job_control_status env (pmm_cores_from_event_data p ev) ev p = Done (e, p')"
  shows "pmm_good k p'"
proof -
  have sub: "submask (pmm_cores_from_event_data p ev) (cores_registered p) \<or> msg_id ev \<noteq> EVENT_OS_POWER_UP"
    by (simp add: pmm_cores_from_event_data_def)
  show ?thesis
    using assms sub good_power_up[OF assms(1), of "pmm_cores_from_event_data p ev" ev]
      good_power_down[OF assms(1), of "pmm_cores_from_event_data p ev" ev]
    by (cases "status p")
      (auto simp: job_control_status_def good_paused good_os_waiting dest: good_idle[rotated])
qed

lemma good_process_job_control:
  assumes "pmm_good k p" "pmm_policy_process_job_control env ev p = Done (e, p')"
  shows "pmm_good k p'"
proof (cases "job_control_status env (pmm_cores_from_event_data p ev) ev p")
  case (Done r)
  then obtain e1 p1 where r: "job_control_status env (pmm_cores_from_event_data p ev) ev p = Done (e1, p1)"
    by (cases r) auto
  have "pmm_good k p1" by (rule good_status[OF assms(1) r])
  then show ?thesis using assms(2) r
    by (auto simp: pmm_policy_process_job_control_def split: if_splits dest: good_finish[rotated])
qed (use assms(2) in \<open>simp_all add: pmm_policy_process_job_control_def\<close>)

lemma good_process:
  assumes "pmm_good k p" "pmm_policy_process env ev p = Done (e, p')"
  shows "pmm_good k p'"
proof (cases "policy p")
  case POLICY_ALWAYS_ON
  then show ?thesis using assms
    by (cases "msg_id ev") (auto simp: pmm_policy_process_def pmm_policy_process_always_on_def)
next
  case POLICY_JOB_CONTROL
  then show ?thesis using assms good_process_job_control by (simp add: pmm_policy_process_def)
qed (use assms in \<open>auto simp: pmm_policy_process_def\<close>)

text \<open>Taking a message off its queue and counting it down.\<close>

lemma good_next_message:
  assumes "pmm_good k p"
  shows "pmm_next_message p = Stop p' \<Longrightarrow> pmm_good k p'"
    "pmm_next_message p = Process ev p' \<Longrightarrow> pmm_good k (p'\<lparr>messages_queued := messages_queued p' - 1\<rparr>)"
proof -
  show "pmm_next_message p = Stop p' \<Longrightarrow> pmm_good k p'"
    using assms by (auto simp: pmm_next_message_def Let_def split: list.splits if_splits)
  show "pmm_next_message p = Process ev p' \<Longrightarrow> pmm_good k (p'\<lparr>messages_queued := messages_queued p' - 1\<rparr>)"
    using assms
    by (auto simp: pmm_next_message_def Let_def pmm_good_def pmm_wf_def messages_excess_def
        split: list.splits if_splits)
qed

lemma good_event_loop:
  "pmm_good k p \<Longrightarrow> event_process_loop env n p = Done p' \<Longrightarrow> pmm_good k p'"
proof (induction n arbitrary: p)
  case 0
  then show ?case by (auto split: if_splits)
next
  case (Suc n)
  show ?case
  proof (cases "pmm_next_message p")
    case (Stop q)
    then show ?thesis using Suc.prems good_next_message(1)[OF Suc.prems(1) Stop] by simp
  next
    case (Process ev q)
    let ?q = "q\<lparr>messages_queued := messages_queued q - 1\<rparr>"
    have q: "pmm_good k ?q" by (rule good_next_message(2)[OF Suc.prems(1) Process])
    show ?thesis
    proof (cases "pmm_policy_process env ev ?q")
      case (Done r)
      obtain e1 p1 where r: "r = (e1, p1)" by (cases r)
      have "pmm_good k p1" using good_process[OF q] Done r by simp
      then show ?thesis using Suc Process Done r by (auto split: if_splits)
    qed (use Suc.prems Process in simp_all)
  qed
qed

text \<open>The fatal reset restores the mask invariant from whatever state.\<close>

lemma good_fatal_reset_power:
  assumes "messages_excess p = k"
  shows "pmm_good k (fatal_reset_power env p)"
proof -
  have step: "pmm_good k q \<Longrightarrow> pmm_good k (reset_core_power env c q)" for c q
    using rely_good[OF sig_up_rely] by (simp add: reset_core_power_def)
  have "pmm_good k (fold (reset_core_power env) cs q)" if "pmm_good k q" for cs q
    by (rule fold_invariant[where Q = "\<lambda>_. True"]) (use that step in auto)
  then show ?thesis using assms
    by (simp add: fatal_reset_power_def Let_def platform_powerup_def emit_def pmm_wf_def pmm_good_def
        messages_excess_def)
qed

lemma good_unblock [simp]: "pmm_good k (fatal_reset_unblock st p) = pmm_good k p"
  by (simp add: fatal_reset_unblock_def pmm_retrieve_os_event_data_def split_beta)

lemma good_purge_iqueue:
  assumes "purge_iqueue env n p = Some p'" "pmm_good k p"
  shows "pmm_good (k + 1) p'"
proof -
  obtain q m ms where "pmm_good k q" "iqueue q = m # ms" "p' = q\<lparr>iqueue := ms\<rparr>"
    using purge_iqueue_inv[where P = "pmm_good k", OF assms rely_good[OF spin_rely]] by blast
  then show ?thesis by (auto simp: pmm_good_def messages_excess_def)
qed

lemma good_purge_queue:
  assumes "purge_queue env n p = Some p'" "pmm_good k p"
  shows "pmm_good (k + 1) p'"
proof -
  obtain q m ms where "pmm_good k q" "queue q = m # ms" "p' = q\<lparr>queue := ms\<rparr>"
    using purge_queue_inv[where P = "pmm_good k", OF assms rely_good[OF spin_rely]] by blast
  then show ?thesis by (auto simp: pmm_good_def messages_excess_def)
qed

lemma good_fatal_reset:
  assumes "pmm_fatal_reset env p = Done p'" "messages_excess p = k"
  shows "pmm_good (k + 2) p'"
proof -
  let ?q = "fatal_reset_unblock (status p) (fatal_reset_power env p)"
  obtain p1 p2 where p: "purge_iqueue env 0 ?q = Some p1" "purge_queue env 0 p1 = Some p2"
    "p' = pmm_update_system_state (p2\<lparr>status := STATUS_IDLE\<rparr>)"
    using assms(1) by (auto simp: pmm_fatal_reset_def Let_def split: option.splits)
  have "pmm_good k ?q" using good_fatal_reset_power[OF assms(2)] by simp
  from good_purge_queue[OF p(2) good_purge_iqueue[OF p(1) this]] show ?thesis
    by (simp add: p(3) add.assoc)
qed

lemma good_check_policy:
  "pmm_good k p \<Longrightarrow> pmm_policy_check_policy env p = Done p' \<Longrightarrow> pmm_good k p'"
  by (cases "policy p")
    (auto simp: pmm_policy_check_policy_def pmm_policy_check_job_control_def
      pmm_policy_timer_raise_event_def Let_def good_message split: option.splits if_splits)

text \<open>
  The bottom half keeps the mask invariant on every path, and every fatal reset it makes leaves the
  message counter two higher than before.
\<close>

lemma good_bhandler:
  assumes "pmm_wf p" "malipmm_irq_bhandler env p = Done p'"
  shows "pmm_wf p' \<and>
    (messages_excess p' = messages_excess p \<or> messages_excess p' = messages_excess p + 2 \<or>
     messages_excess p' = messages_excess p + 4)"
proof (cases "status p = STATUS_OFF")
  case True
  then show ?thesis using assms by (simp add: malipmm_irq_bhandler_def)
next
  case False
  obtain q where q: "(if missed p > 0 then pmm_fatal_reset env p else Done p) = Done q"
    using assms(2) False by (auto simp: malipmm_irq_bhandler_def elim: bind_outcome.elims)
  define k where "k = messages_excess q"
  have gq: "pmm_good k q" "k = messages_excess p \<or> k = messages_excess p + 2"
    using q assms(1) good_fatal_reset[of p q] by (auto simp: k_def pmm_good_def split: if_splits)
  show ?thesis
  proof (cases "check_policy q")
    case True
    then have "pmm_policy_check_policy env (q\<lparr>check_policy := False\<rparr>) = Done p'"
      using assms(2) False q by (simp add: malipmm_irq_bhandler_def)
    from good_check_policy[OF _ this] have "pmm_good k p'" using gq(1) by simp
    then show ?thesis using gq(2) by (auto simp: pmm_good_def)
  next
    case check: False
    then obtain r where r: "pmm_event_process env q = Done r"
      "(if fatal_power_err r then pmm_fatal_reset env r else Done r) = Done p'"
      using assms(2) False q by (auto simp: malipmm_irq_bhandler_def elim: bind_outcome.elims)
    have "pmm_good k r" using r(1) gq(1) good_event_loop by (auto simp: pmm_event_process_def)
    then have "pmm_good k p' \<or> pmm_good (k + 2) p'"
      using r(2) good_fatal_reset[of r p'] by (auto simp: pmm_good_def split: if_splits)
    then show ?thesis using gq(2) by (auto simp: pmm_good_def add.assoc)
  qed
qed

end

end
