(* ===== verification/Rendercore_Power.thy ===== *)
theory Rendercore_Power
  imports Rendercore Pmm_Invariant
begin

text \<open>
  The rest of mali\_kernel\_rendercore.c: interrupts, timers, the MMU recovery, registration of
  cores, and the power signals, which mali\_kernel\_core.c dispatches on the core id.  With them the
  environment of the power management module is made of the module's own callers, and the interface
  \<open>core_signals\<close> is interpreted.
\<close>

subsection \<open>Interrupts and timers\<close>

text \<open>\<open>job_status\<close> is what the core's own \<open>irq_handler_bottom_half\<close> reports.\<close>

definition mali_core_irq_handler_bottom_half ::
  "hw_env \<Rightarrow> mali_subsystem_job_end_code \<Rightarrow> nat \<Rightarrow> gpu \<Rightarrow> gpu" where
  "mali_core_irq_handler_bottom_half h job_status c g =
     (if core_state (rcores g c) = CORE_IDLE then g
      else if job_status \<noteq> JOB_STATUS_CONTINUE_RUN then
        mali_core_renderunit_detach_job_from_core h c SUBSYSTEM_RESCHEDULE job_status g
      else
        (case core_state (rcores g c) of
           CORE_WATCHDOG_TIMEOUT \<Rightarrow>
             mali_core_renderunit_detach_job_from_core h c SUBSYSTEM_RESCHEDULE JOB_STATUS_END_TIMEOUT_SW g
         | CORE_POLL \<Rightarrow> upd_core c (\<lambda>x. x\<lparr>core_state := CORE_WORKING, core_timer := Some 1\<rparr>) g
         | _ \<Rightarrow> g))"

text \<open>The upper half: \<open>None\<close> for a missing core or handler, else whether an interrupt is pending.\<close>

definition mali_core_irq_handler_upper_half :: "bool \<Rightarrow> bool option \<Rightarrow> osk_err" where
  "mali_core_irq_handler_upper_half benchmark pending =
     (case pending of
        None \<Rightarrow> ERR_INVALID_ARGS
      | Some p \<Rightarrow> if p \<or> benchmark then ERR_OK else ERR_FAULT)"

definition mali_core_renderunit_timeout_function_hang_detection :: "nat \<Rightarrow> gpu \<Rightarrow> gpu" where
  "mali_core_renderunit_timeout_function_hang_detection c g =
     (if core_state (rcores g c) \<in> {CORE_WATCHDOG_TIMEOUT, CORE_IDLE} then g
      else upd_core c (\<lambda>x. x\<lparr>core_state := CORE_HANG_CHECK_TIMEOUT\<rparr>) g)"

definition mali_core_renderunit_timeout_function :: "hw_env \<Rightarrow> nat \<Rightarrow> gpu \<Rightarrow> gpu" where
  "mali_core_renderunit_timeout_function h c g =
     (if mali_benchmark h \<and>
         (case current_job (rcores g c) of None \<Rightarrow> False
          | Some j \<Rightarrow> sint (ticks g - watchdog_jiffies (jobs g j)) < 0)
      then upd_core c (\<lambda>x. x\<lparr>core_state := CORE_POLL\<rparr>) g
      else upd_core c (\<lambda>x. x\<lparr>core_state := CORE_WATCHDOG_TIMEOUT\<rparr>) g)"

subsection \<open>Recovery from an MMU fault\<close>

definition behind_mmu :: "nat option \<Rightarrow> nat \<Rightarrow> gpu \<Rightarrow> bool" where
  "behind_mmu mmu c g \<longleftrightarrow> mmu = None \<or> core_mmu (rcores g c) = mmu"

definition stop_bus_for_all_cores_on_mmu :: "nat \<Rightarrow> nat option \<Rightarrow> gpu \<Rightarrow> gpu" where
  "stop_bus_for_all_cores_on_mmu u mmu g =
     fold (\<lambda>c g. if behind_mmu mmu c g \<and> core_state (rcores g c) \<noteq> CORE_IDLE
                 then upd_core c (\<lambda>x. x\<lparr>error_recovery := True\<rparr>) g else g)
       (mali_core_array (subsystems g u)) g"

definition reset_all_cores_on_mmu :: "hw_env \<Rightarrow> nat \<Rightarrow> nat option \<Rightarrow> gpu \<Rightarrow> gpu" where
  "reset_all_cores_on_mmu h u mmu g =
     fold (\<lambda>c g. if behind_mmu mmu c g \<and> core_state (rcores g c) \<noteq> CORE_IDLE
                 then mali_core_renderunit_detach_job_from_core h c SUBSYSTEM_WAIT
                        JOB_STATUS_END_SEG_FAULT g
                 else g)
       (mali_core_array (subsystems g u)) g"

text \<open>Schedule as often as there are waiting jobs, but at most once for every core.\<close>

definition continue_job_handling :: "hw_env \<Rightarrow> nat \<Rightarrow> gpu \<Rightarrow> gpu" where
  "continue_job_handling h u g =
     (let a = mali_core_array (subsystems g u);
          g = fold (\<lambda>c. upd_core c (\<lambda>x. x\<lparr>error_recovery := False\<rparr>)) a g
      in ((mali_core_subsystem_schedule h u) ^^ min (length a) (unat (awaiting_sessions_sum (subsystems g u)))) g)"

datatype mali_core_notification_message =
    MMU_KILL_STEP0_LOCK_SUBSYSTEM
  | MMU_KILL_STEP1_STOP_BUS_FOR_ALL_CORES
  | MMU_KILL_STEP2_RESET_ALL_CORES_AND_ABORT_THEIR_JOBS
  | MMU_KILL_STEP3_CONTINUE_JOB_HANDLING
  | MMU_KILL_STEP4_UNLOCK_SUBSYSTEM

definition mali_core_subsystem_broadcast_notification ::
  "hw_env \<Rightarrow> nat \<Rightarrow> mali_core_notification_message \<Rightarrow> nat option \<Rightarrow> gpu \<Rightarrow> gpu" where
  "mali_core_subsystem_broadcast_notification h u message mmu g =
     (case message of
        MMU_KILL_STEP0_LOCK_SUBSYSTEM \<Rightarrow> g
      | MMU_KILL_STEP1_STOP_BUS_FOR_ALL_CORES \<Rightarrow> stop_bus_for_all_cores_on_mmu u mmu g
      | MMU_KILL_STEP2_RESET_ALL_CORES_AND_ABORT_THEIR_JOBS \<Rightarrow> reset_all_cores_on_mmu h u mmu g
      | MMU_KILL_STEP3_CONTINUE_JOB_HANDLING \<Rightarrow> continue_job_handling h u g
      | MMU_KILL_STEP4_UNLOCK_SUBSYSTEM \<Rightarrow> g)"

subsection \<open>Subsystems and their cores\<close>

text \<open>\<open>has_functions\<close>: the name and the five function pointers are set.\<close>

definition mali_core_subsystem_init :: "bool \<Rightarrow> nat \<Rightarrow> gpu \<Rightarrow> osk_err \<times> gpu" where
  "mali_core_subsystem_init has_functions u g =
     (if \<not> has_functions then (ERR_FAULT, g)
      else (ERR_OK, upd_subsys u (\<lambda>x. x\<lparr>renderunit_idle := [], renderunit_off := [],
              awaiting_sessions := (\<lambda>i. if i < PRIORITY_LEVELS then [] else awaiting_sessions x i),
              all_sessions := []\<rparr>) g))"

text \<open>
  \<open>fields_set\<close>, \<open>irq_ok\<close> and \<open>array_ok\<close>: the core structure is complete, the interrupt and the
  memory for the longer array can be had.
\<close>

definition mali_core_subsystem_register_renderunit ::
  "bool \<Rightarrow> bool \<Rightarrow> bool \<Rightarrow> nat \<Rightarrow> nat \<Rightarrow> gpu \<Rightarrow> osk_err \<times> gpu" where
  "mali_core_subsystem_register_renderunit fields_set irq_ok array_ok u c g =
     (if \<not> fields_set then (ERR_INVALID_ARGS, g)
      else if \<not> irq_ok then (ERR_FAULT, g)
      else
        (let nr = length (mali_core_array (subsystems g u));
             g = upd_core c (\<lambda>x. x\<lparr>core_number := nr\<rparr>) g
         in if \<not> array_ok then (ERR_NOMEM, g)
            else (ERR_OK, upd_subsys u (\<lambda>x. x\<lparr>mali_core_array := mali_core_array x @ [c],
                            renderunit_idle := c # renderunit_idle x\<rparr>) g)))"

subsection \<open>Power signals\<close>

definition mali_core_subsystem_signal_power_down ::
  "nat \<Rightarrow> nat \<Rightarrow> bool \<Rightarrow> gpu \<Rightarrow> osk_err \<times> gpu" where
  "mali_core_subsystem_signal_power_down u n immediate_only g =
     (case mali_core_renderunit_get_mali_core_nr u n g of
        None \<Rightarrow> (ERR_FAULT, g)
      | Some c \<Rightarrow>
          if core_state (rcores g c) \<noteq> CORE_IDLE then
            (ERR_BUSY, if \<not> immediate_only then upd_core c (\<lambda>x. x\<lparr>pend_power_down := True\<rparr>) g else g)
          else (ERR_OK, mali_core_subsystem_move_core_set_off c g))"

definition mali_core_subsystem_signal_power_up ::
  "hw_env \<Rightarrow> nat \<Rightarrow> nat \<Rightarrow> bool \<Rightarrow> gpu \<Rightarrow> osk_err \<times> gpu" where
  "mali_core_subsystem_signal_power_up h u n queue_only g =
     (case mali_core_renderunit_get_mali_core_nr u n g of
        None \<Rightarrow> (ERR_FAULT, g)
      | Some c \<Rightarrow>
          if core_state (rcores g c) \<noteq> CORE_OFF then
            (ERR_BUSY, upd_core c (\<lambda>x. x\<lparr>pend_power_down := False\<rparr>) g)
          else
            (ERR_OK, mali_core_subsystem_schedule h u (mali_core_subsystem_move_core_set_idle h c g)))"

text \<open>The GP subsystem is number 0, the PP subsystem number 1.\<close>

definition SUBSYS_GP :: nat where "SUBSYS_GP = 0"
definition SUBSYS_PP :: nat where "SUBSYS_PP = 1"

definition maligp_signal_power_up :: "hw_env \<Rightarrow> bool \<Rightarrow> gpu \<Rightarrow> osk_err \<times> gpu" where
  "maligp_signal_power_up h queue_only = mali_core_subsystem_signal_power_up h SUBSYS_GP 0 queue_only"

definition maligp_signal_power_down :: "bool \<Rightarrow> gpu \<Rightarrow> osk_err \<times> gpu" where
  "maligp_signal_power_down immediate_only = mali_core_subsystem_signal_power_down SUBSYS_GP 0 immediate_only"

definition malipp_signal_power_up :: "hw_env \<Rightarrow> nat \<Rightarrow> bool \<Rightarrow> gpu \<Rightarrow> osk_err \<times> gpu" where
  "malipp_signal_power_up h n queue_only = mali_core_subsystem_signal_power_up h SUBSYS_PP n queue_only"

definition malipp_signal_power_down :: "nat \<Rightarrow> bool \<Rightarrow> gpu \<Rightarrow> osk_err \<times> gpu" where
  "malipp_signal_power_down n immediate_only = mali_core_subsystem_signal_power_down SUBSYS_PP n immediate_only"

definition mali_core_signal_power_up :: "hw_env \<Rightarrow> u32 \<Rightarrow> bool \<Rightarrow> gpu \<Rightarrow> osk_err \<times> gpu" where
  "mali_core_signal_power_up h core queue_only g =
     (if core = CORE_GP then maligp_signal_power_up h queue_only g
      else if core = CORE_L2 then (if \<not> queue_only then hw_l2_invalidate h g else ERR_OK, g)
      else if core = CORE_PP0 then malipp_signal_power_up h 0 queue_only g
      else if core = CORE_PP1 then malipp_signal_power_up h 1 queue_only g
      else if core = CORE_PP2 then malipp_signal_power_up h 2 queue_only g
      else if core = CORE_PP3 then malipp_signal_power_up h 3 queue_only g
      else (ERR_INVALID_ARGS, g))"

definition mali_core_signal_power_down :: "u32 \<Rightarrow> bool \<Rightarrow> gpu \<Rightarrow> osk_err \<times> gpu" where
  "mali_core_signal_power_down core immediate_only g =
     (if core = CORE_GP then maligp_signal_power_down immediate_only g
      else if core = CORE_L2 then (ERR_OK, g)
      else if core = CORE_PP0 then malipp_signal_power_down 0 immediate_only g
      else if core = CORE_PP1 then malipp_signal_power_down 1 immediate_only g
      else if core = CORE_PP2 then malipp_signal_power_down 2 immediate_only g
      else if core = CORE_PP3 then malipp_signal_power_down 3 immediate_only g
      else (ERR_INVALID_ARGS, g))"

subsection \<open>The environment of the power management module\<close>

text \<open>
  What other threads may do while the power lock is dropped: operations of this model that do not
  wait for the lock, and the two that take it.
\<close>

datatype other_op =
    OtherPost mali_pmm_event_id u32
  | OtherUnregister u32
  | OtherTimerExpires
  | OtherTick u32
  | OtherAddJob nat nat
  | OtherIrq nat mali_subsystem_job_end_code
  | OtherAbort nat u32
  | OtherSessionClose nat

fun run_other :: "hw_env \<Rightarrow> other_op \<Rightarrow> gpu \<Rightarrow> gpu" where
  "run_other h (OtherPost e d) g = post h e d g"
| "run_other h (OtherUnregister c) g = malipmm_core_unregister c g"
| "run_other h OtherTimerExpires g = pmm_policy_timer_callback g"
| "run_other h (OtherTick t) g = g\<lparr>ticks := t\<rparr>"
| "run_other h (OtherAddJob s j) g = snd (snd (mali_core_session_add_job h s j g))"
| "run_other h (OtherIrq c e) g = mali_core_irq_handler_bottom_half h e c g"
| "run_other h (OtherAbort s aid) g = find_and_abort h s aid g"
| "run_other h (OtherSessionClose s) g = mali_core_session_close h s g"

definition run_others :: "hw_env \<Rightarrow> other_op list \<Rightarrow> gpu \<Rightarrow> gpu" where
  "run_others h ops g = fold (run_other h) ops g"

text \<open>
  The environment: the answers of the PMU, the memory allocator and the hardware, and what the
  other threads do before and after each signal and before each poll.
\<close>

record gpu_env =
  e_hw :: hw_env
  e_pmu_up :: "u32 \<Rightarrow> gpu \<Rightarrow> osk_err"
  e_pmu_down :: "u32 \<Rightarrow> gpu \<Rightarrow> osk_err"
  e_before :: "u32 \<Rightarrow> gpu \<Rightarrow> other_op list"
  e_after :: "u32 \<Rightarrow> gpu \<Rightarrow> other_op list"
  e_spin :: "nat \<Rightarrow> gpu \<Rightarrow> other_op list"

definition in_window :: "gpu_env \<Rightarrow> u32 \<Rightarrow> (gpu \<Rightarrow> osk_err \<times> gpu) \<Rightarrow> gpu \<Rightarrow> osk_err \<times> gpu" where
  "in_window e c f g =
     (let (err, g) = f (run_others (e_hw e) (e_before e c g) g)
      in (err, run_others (e_hw e) (e_after e c g) g))"

definition power_env :: "gpu_env \<Rightarrow> unit gpu_ext pmm_env" where
  "power_env e =
     \<lparr>pmu_up = e_pmu_up e, pmu_down = e_pmu_down e, msg_alloc = hw_msg_alloc (e_hw e),
      sig_up = (\<lambda>c queue_only. in_window e c (mali_core_signal_power_up (e_hw e) c queue_only)),
      sig_down = (\<lambda>c immediate_only. in_window e c (mali_core_signal_power_down c immediate_only)),
      spin = (\<lambda>n g. run_others (e_hw e) (e_spin e n g) g)\<rparr>"

subsection \<open>The signals keep to the interface\<close>

named_theorems rely \<open>operations that only do what the power management module relies on\<close>

lemma rely_frame [simp]:
  "pmm_rely p (g\<lparr>rcores := cs\<rparr>) = pmm_rely p g" "pmm_rely p (g\<lparr>jobs := js\<rparr>) = pmm_rely p g"
  "pmm_rely p (g\<lparr>sessions := ss\<rparr>) = pmm_rely p g" "pmm_rely p (g\<lparr>subsystems := us\<rparr>) = pmm_rely p g"
  "pmm_rely p (g\<lparr>returned := rs\<rparr>) = pmm_rely p g" "pmm_rely p (g\<lparr>mmu_releases := ms\<rparr>) = pmm_rely p g"
  "pmm_rely p (g\<lparr>ticks := t\<rparr>) = pmm_rely p g"
  for p g :: gpu
  by (simp_all add: pmm_rely_def)

lemma rely_upd [simp]:
  "pmm_rely p (upd_core c f1 g) = pmm_rely p g" "pmm_rely p (upd_job j f2 g) = pmm_rely p g"
  "pmm_rely p (upd_session s f3 g) = pmm_rely p g" "pmm_rely p (upd_subsys u f4 g) = pmm_rely p g"
  "pmm_rely p (unlink_core c g) = pmm_rely p g" "pmm_rely p (unlink_awaiting u s g) = pmm_rely p g"
  "pmm_rely p (return_job_to_user j e g) = pmm_rely p g" "pmm_rely p (mmu_release c g) = pmm_rely p g"
  by (simp_all add: upd_core_def upd_job_def upd_session_def upd_subsys_def unlink_core_def
      unlink_awaiting_def return_job_to_user_def mmu_release_def)

lemma rely_move [simp]:
  "pmm_rely p (move_to_idle c g) = pmm_rely p g" "pmm_rely p (move_to_off c g) = pmm_rely p g"
  "pmm_rely p (move_to_working c s g) = pmm_rely p g"
  "pmm_rely p (mali_core_subsystem_move_set_working c j g) = pmm_rely p g"
  "pmm_rely p (mali_core_subsystem_move_core_set_off c g) = pmm_rely p g"
  "pmm_rely p (mali_core_job_set_run_time h j g) = pmm_rely p g"
  by (simp_all add: move_to_idle_def move_to_off_def move_to_working_def mali_core_job_set_run_time_def
      mali_core_subsystem_move_set_working_def mali_core_subsystem_move_core_set_off_def Let_def)

lemma rely_post [rely]: "pmm_rely p g \<Longrightarrow> pmm_rely p (post h e d g)"
  unfolding post_def by (rule rely_trans[OF _ event_message_rely])

lemma rely_power_down_okay [rely]: "pmm_rely p g \<Longrightarrow> pmm_rely p (malipmm_core_power_down_okay al c g)"
  unfolding malipmm_core_power_down_okay_def by (rule rely_trans[OF _ event_message_rely])

lemma rely_set_idle [rely]:
  "pmm_rely p g \<Longrightarrow> pmm_rely p (mali_core_subsystem_move_core_set_idle h c g)"
  by (auto simp: mali_core_subsystem_move_core_set_idle_def Let_def intro!: rely)

lemma rely_start [rely]: "pmm_rely p g \<Longrightarrow> pmm_rely p (mali_core_job_start_on_core h j c g)"
  by (auto simp: mali_core_job_start_on_core_def Let_def intro!: rely)

lemma rely_release [simp]:
  "pmm_rely p (snd (mali_core_subsystem_release_session_get_job u s g)) = pmm_rely p g"
  by (simp add: mali_core_subsystem_release_session_get_job_def Let_def)

lemma rely_schedule [rely]: "pmm_rely p g \<Longrightarrow> pmm_rely p (mali_core_subsystem_schedule h u g)"
  using rely_release[of p u _ g]
  by (auto simp: mali_core_subsystem_schedule_def intro!: rely split: option.splits prod.splits)
    (metis snd_conv rely_release)+

lemma rely_detach [rely]:
  "pmm_rely p g \<Longrightarrow> pmm_rely p (mali_core_renderunit_detach_job_from_core h c r e g)"
  by (auto simp: mali_core_renderunit_detach_job_from_core_def Let_def intro!: rely split: option.splits)

lemma rely_add_job [rely]:
  "pmm_rely p g \<Longrightarrow> pmm_rely p (snd (snd (mali_core_session_add_job h s j g)))"
  by (auto simp: mali_core_session_add_job_def Let_def intro!: rely split: option.splits)

lemma rely_session_close [rely]: "pmm_rely p g \<Longrightarrow> pmm_rely p (mali_core_session_close h s g)"
  by (auto simp: mali_core_session_close_def Let_def intro!: rely split: option.splits list.splits)

lemma rely_abort_cores: "pmm_rely p g \<Longrightarrow> pmm_rely p (abort_cores h aid cs g)"
  by (induction h aid cs g rule: abort_cores.induct) (auto split: option.splits intro!: rely)

lemma rely_find_and_abort [rely]: "pmm_rely p g \<Longrightarrow> pmm_rely p (find_and_abort h s aid g)"
  by (auto simp: find_and_abort_def Let_def intro!: rely_abort_cores split: option.splits)

lemma rely_irq [rely]: "pmm_rely p g \<Longrightarrow> pmm_rely p (mali_core_irq_handler_bottom_half h e c g)"
  by (auto simp: mali_core_irq_handler_bottom_half_def intro!: rely split: mali_core_status.splits)

lemma rely_signal_down [rely]:
  "pmm_rely p g \<Longrightarrow> pmm_rely p (snd (mali_core_subsystem_signal_power_down u n im g))"
  by (auto simp: mali_core_subsystem_signal_power_down_def split: option.splits)

lemma rely_signal_up [rely]:
  "pmm_rely p g \<Longrightarrow> pmm_rely p (snd (mali_core_subsystem_signal_power_up h u n q g))"
  by (auto simp: mali_core_subsystem_signal_power_up_def intro!: rely split: option.splits)

lemma rely_core_signals [rely]:
  "pmm_rely p g \<Longrightarrow> pmm_rely p (snd (mali_core_signal_power_up h c q g))"
  "pmm_rely p g \<Longrightarrow> pmm_rely p (snd (mali_core_signal_power_down c im g))"
  by (simp_all add: mali_core_signal_power_up_def mali_core_signal_power_down_def
      maligp_signal_power_up_def maligp_signal_power_down_def malipp_signal_power_up_def
      malipp_signal_power_down_def rely_signal_up rely_signal_down)

lemma rely_timer_callback [rely]: "pmm_rely p g \<Longrightarrow> pmm_rely p (pmm_policy_timer_callback g)"
proof (erule rely_trans)
  show "pmm_rely g (pmm_policy_timer_callback g)"
    by (cases "data_job_control g")
      (auto simp: pmm_policy_timer_callback_def malipmm_set_policy_check_def schedulework_def
        pmm_rely_def strip_timer_def intro!: exI[of _ 0] exI[of _ "[]"])
qed

lemma rely_run_other: "pmm_rely p g \<Longrightarrow> pmm_rely p (run_other h op g)"
proof (cases op)
  case (OtherUnregister c)
  show "pmm_rely p g \<Longrightarrow> ?thesis"
    by (simp add: OtherUnregister rely_trans[OF _ unregister_rely])
qed (auto intro!: rely)

lemma rely_run_others [rely]: "pmm_rely p g \<Longrightarrow> pmm_rely p (run_others h ops g)"
  unfolding run_others_def
  by (rule fold_invariant[where Q = "\<lambda>_. True"]) (auto intro: rely_run_other)

lemma rely_in_window:
  assumes "\<And>p g. pmm_rely p g \<Longrightarrow> pmm_rely p (snd (f g))"
  shows "pmm_rely g (snd (in_window e c f g))"
  by (auto simp: in_window_def split_beta Let_def intro!: rely_run_others assms)

text \<open>The interface holds for the model of the render cores, whatever the other threads do.\<close>

interpretation gpu_power: core_signals "power_env e" for e
proof
  fix p :: gpu and c :: u32 and b :: bool and n :: nat
  show "pmm_rely p (snd (sig_up (power_env e) c b p))"
    by (simp add: power_env_def) (rule rely_in_window, rule rely_core_signals)
  show "pmm_rely p (snd (sig_down (power_env e) c b p))"
    by (simp add: power_env_def) (rule rely_in_window, rule rely_core_signals)
  show "pmm_rely p (spin (power_env e) n p)"
    by (simp add: power_env_def rely_run_others)
qed

end
