(* ===== verification/Rendercore_Invariant.thy ===== *)
theory Rendercore_Invariant
  imports Rendercore_Power
begin

text \<open>
  The invariant of the scheduler of render cores.  It says where every core, session and job is:
  a registered core is in exactly one list, the one of its state, unless the closing of its session has
  left it at work, when it is in none until its job ends; a session is in the waiting list
  of its subsystem that its waiting job's priority names; a job that was accepted is in exactly one
  place, waiting, running, or handed back.  Inside an operation some cores (\<open>X\<close>) are between two
  lists and some jobs (\<open>H\<close>) are in the operation's hands; between operations both sets are empty.
\<close>

definition busy :: "mali_core_status \<Rightarrow> bool" where
  "busy st \<longleftrightarrow> st \<noteq> CORE_IDLE \<and> st \<noteq> CORE_OFF"

definition registered :: "gpu \<Rightarrow> nat \<Rightarrow> bool" where
  "registered g c \<longleftrightarrow> c \<in> set (mali_core_array (subsystems g (core_subsystem (rcores g c))))"

text \<open>
  The session that a core works for.  \<open>L\<close> are the jobs that the closing of a session has left at
  work: it stops one core of the session only, and the others go on in no session's list.
\<close>

definition works_for :: "nat set \<Rightarrow> gpu \<Rightarrow> nat \<Rightarrow> nat \<Rightarrow> bool" where
  "works_for L g c s \<longleftrightarrow> (\<exists>j. current_job (rcores g c) = Some j \<and> job_session (jobs g j) = s \<and> j \<notin> L)"

definition core_lists :: "nat set \<Rightarrow> gpu \<Rightarrow> nat \<Rightarrow> bool" where
  "core_lists L g c \<longleftrightarrow>
     (\<forall>u. count_list (renderunit_idle (subsystems g u)) c =
        of_bool (registered g c \<and> u = core_subsystem (rcores g c) \<and> core_state (rcores g c) = CORE_IDLE)) \<and>
     (\<forall>u. count_list (renderunit_off (subsystems g u)) c =
        of_bool (registered g c \<and> u = core_subsystem (rcores g c) \<and> core_state (rcores g c) = CORE_OFF)) \<and>
     (\<forall>s. count_list (renderunits_working (sessions g s)) c =
        of_bool (registered g c \<and> busy (core_state (rcores g c)) \<and> works_for L g c s))"

definition core_fields :: "gpu \<Rightarrow> nat \<Rightarrow> bool" where
  "core_fields g c \<longleftrightarrow>
     (current_job (rcores g c) = None \<longrightarrow>
        \<not> busy (core_state (rcores g c)) \<and> core_timer (rcores g c) = None \<and> hang_timer (rcores g c) = None) \<and>
     (\<forall>j. current_job (rcores g c) = Some j \<longrightarrow> busy (core_state (rcores g c)) \<and>
        session_subsystem (sessions g (job_session (jobs g j))) = core_subsystem (rcores g c)) \<and>
     (core_state (rcores g c) = CORE_IDLE \<longrightarrow> \<not> pend_power_down (rcores g c))"

definition core_ok :: "nat set \<Rightarrow> gpu \<Rightarrow> nat \<Rightarrow> bool" where
  "core_ok L g c \<longleftrightarrow> core_lists L g c \<and> (registered g c \<longrightarrow> core_fields g c)"

definition waiting_at :: "gpu \<Rightarrow> nat \<Rightarrow> nat \<Rightarrow> nat \<Rightarrow> bool" where
  "waiting_at g s u i \<longleftrightarrow> u = session_subsystem (sessions g s) \<and>
     (\<exists>j. job_waiting_to_run (sessions g s) = Some j \<and> job_priority (jobs g j) = i)"

definition session_ok :: "gpu \<Rightarrow> nat \<Rightarrow> bool" where
  "session_ok g s \<longleftrightarrow>
     (\<forall>u. \<forall>i<PRIORITY_LEVELS. count_list (awaiting_sessions (subsystems g u) i) s = of_bool (waiting_at g s u i)) \<and>
     (\<forall>j. job_waiting_to_run (sessions g s) = Some j \<longrightarrow>
        job_session (jobs g j) = s \<and> job_priority (jobs g j) < PRIORITY_LEVELS)"

definition awaiting_total :: "core_subsystem \<Rightarrow> nat" where
  "awaiting_total x = (\<Sum>i<PRIORITY_LEVELS. length (awaiting_sessions x i))"

definition subsys_ok :: "gpu \<Rightarrow> nat \<Rightarrow> bool" where
  "subsys_ok g u \<longleftrightarrow>
     awaiting_sessions_sum (subsystems g u) = of_nat (awaiting_total (subsystems g u)) \<and>
     (\<forall>c \<in> set (mali_core_array (subsystems g u)). core_subsystem (rcores g c) = u)"

definition waiting_jobs :: "gpu \<Rightarrow> nat set" where
  "waiting_jobs g = {j. \<exists>s. job_waiting_to_run (sessions g s) = Some j}"

definition running_on :: "nat set \<Rightarrow> gpu \<Rightarrow> nat \<Rightarrow> nat \<Rightarrow> bool" where
  "running_on X g c j \<longleftrightarrow> c \<notin> X \<and> registered g c \<and> current_job (rcores g c) = Some j"

text \<open>
  Where the accepted jobs \<open>A\<close> are: in hand (\<open>H\<close>), waiting (\<open>W\<close>), handed back (\<open>R\<close>) or running on a
  core, and in one of these places only.
\<close>

definition places :: "nat set \<Rightarrow> nat set \<Rightarrow> nat set \<Rightarrow> nat set \<Rightarrow> (nat \<Rightarrow> nat \<Rightarrow> bool) \<Rightarrow> bool" where
  "places A H W R run \<longleftrightarrow>
     (\<forall>j. j \<in> A \<longleftrightarrow> j \<in> H \<or> j \<in> W \<or> j \<in> R \<or> (\<exists>c. run c j)) \<and>
     H \<inter> W = {} \<and> H \<inter> R = {} \<and> W \<inter> R = {} \<and>
     (\<forall>c j. run c j \<longrightarrow> j \<notin> H \<and> j \<notin> W \<and> j \<notin> R) \<and>
     (\<forall>c d j. run c j \<longrightarrow> run d j \<longrightarrow> c = d)"

lemma places_take:
  assumes "places A H W R run" "run c j" "\<And>k. run c k \<Longrightarrow> k = j"
  shows "places A (insert j H) W R (\<lambda>d k. d \<noteq> c \<and> run d k)" "j \<notin> H" "j \<in> A"
proof -
  show "j \<notin> H" "j \<in> A" using assms(1,2) unfolding places_def by blast+
  show "places A (insert j H) W R (\<lambda>d k. d \<noteq> c \<and> run d k)"
    unfolding places_def
  proof (intro conjI allI)
    fix i show "i \<in> A \<longleftrightarrow> i \<in> insert j H \<or> i \<in> W \<or> i \<in> R \<or> (\<exists>d. d \<noteq> c \<and> run d i)"
      using assms unfolding places_def by (metis insert_iff)
  qed (use assms(1,2) in \<open>unfold places_def, blast+\<close>)
qed

lemma places_return: "places A (insert j H) W R run \<Longrightarrow> j \<notin> H \<Longrightarrow> places A H W (insert j R) run"
  unfolding places_def by auto

lemma places_release: "places A H (insert j W) R run \<Longrightarrow> j \<notin> W \<Longrightarrow> places A (insert j H) W R run"
  unfolding places_def by auto

lemma places_wait: "places A (insert j H) W R run \<Longrightarrow> j \<notin> H \<Longrightarrow> places A H (insert j W) R run"
  unfolding places_def by auto

lemma places_accept: "places A H W R run \<Longrightarrow> j \<notin> A \<Longrightarrow> places (insert j A) (insert j H) W R run"
  unfolding places_def by auto

lemma places_leave: "places A (insert j H) W R run \<Longrightarrow> j \<notin> H \<Longrightarrow> places (A - {j}) H W R run"
  unfolding places_def by auto

lemma places_start:
  "places A (insert j H) W R run \<Longrightarrow> j \<notin> H \<Longrightarrow> places A H W R (\<lambda>d k. d = c \<and> k = j \<or> run d k)"
  unfolding places_def by auto

definition jobs_ok :: "nat set \<Rightarrow> nat set \<Rightarrow> nat set \<Rightarrow> nat set \<Rightarrow> gpu \<Rightarrow> bool" where
  "jobs_ok L A X H g \<longleftrightarrow>
     places A H (waiting_jobs g) (fst ` set (returned g)) (running_on X g) \<and> distinct (map fst (returned g)) \<and>
     L \<subseteq> A \<and> L \<inter> waiting_jobs g = {}"

definition rc_ok :: "nat set \<Rightarrow> nat set \<Rightarrow> nat set \<Rightarrow> nat set \<Rightarrow> gpu \<Rightarrow> bool" where
  "rc_ok L A X H g \<longleftrightarrow>
     (\<forall>c. c \<notin> X \<longrightarrow> core_ok L g c) \<and> (\<forall>c \<in> X. registered g c) \<and>
     (\<forall>s. session_ok g s) \<and> (\<forall>u. subsys_ok g u) \<and> jobs_ok L A X H g"

definition rc_wf :: "nat set \<Rightarrow> nat set \<Rightarrow> gpu \<Rightarrow> bool" where
  "rc_wf L A g \<longleftrightarrow> rc_ok L A {} {} g \<and> (\<forall>c. \<not> in_detach_function (rcores g c))"

lemma count_removeAll [simp]: "count_list (removeAll c xs) d = (if c = d then 0 else count_list xs d)"
  by (induction xs) auto

lemma length_removeAll_count: "length (removeAll c xs) + count_list xs c = length xs"
  by (induction xs) auto

lemma count_list_pos: "count_list xs x = of_bool P \<Longrightarrow> x \<in> set xs \<longleftrightarrow> P"
  by (metis count_list_0_iff of_bool_eq(1) of_bool_eq(2) zero_neq_one)

subsection \<open>The steps that operations are made of\<close>

text \<open>A job of a core is taken in hand: the core is now between two lists.\<close>

lemma ok_take_job:
  assumes "rc_ok L A X H g" "c \<notin> X" "registered g c" "current_job (rcores g c) = Some j"
  shows "rc_ok L A (insert c X) (insert j H) g" "j \<notin> H" "j \<in> A"
proof -
  have e: "running_on (insert c X) g = (\<lambda>d k. d \<noteq> c \<and> running_on X g d k)"
    by (auto simp: running_on_def fun_eq_iff)
  have "running_on X g c j" "running_on X g c k \<Longrightarrow> k = j" for k
    using assms by (simp_all add: running_on_def)
  from places_take[of A H "waiting_jobs g" "fst ` set (returned g)" "running_on X g", OF _ this]
  show "rc_ok L A (insert c X) (insert j H) g" "j \<notin> H" "j \<in> A"
    using assms by (simp_all add: rc_ok_def jobs_ok_def e)
qed

lemma ok_take_none:
  assumes "rc_ok L A X H g" "registered g c" "current_job (rcores g c) = None"
  shows "rc_ok L A (insert c X) H g"
proof -
  have "running_on (insert c X) g = running_on X g"
    using assms by (auto simp: running_on_def fun_eq_iff)
  then show ?thesis using assms by (simp add: rc_ok_def jobs_ok_def)
qed

lemma ok_return_job:
  assumes "rc_ok L A X (insert j H) g" "j \<notin> H"
  shows "rc_ok L A X H (return_job_to_user j e g)"
proof -
  have "running_on X (return_job_to_user j e g) = running_on X g"
    "waiting_jobs (return_job_to_user j e g) = waiting_jobs g"
    "core_ok L (return_job_to_user j e g) c = core_ok L g c" 
    "registered (return_job_to_user j e g) c = registered g c"
    "session_ok (return_job_to_user j e g) s = session_ok g s"
    "subsys_ok (return_job_to_user j e g) s = subsys_ok g s" for c s
    by (simp_all add: running_on_def fun_eq_iff registered_def waiting_jobs_def core_ok_def core_lists_def
        core_fields_def works_for_def session_ok_def waiting_at_def subsys_ok_def)
  moreover have "j \<notin> fst ` set (returned g)"
    using assms(1) by (simp add: rc_ok_def jobs_ok_def places_def)
  ultimately show ?thesis
    using assms places_return[of A j H "waiting_jobs g" "fst ` set (returned g)" "running_on X g"]
    by (simp add: rc_ok_def jobs_ok_def)
qed

text \<open>Updates that leave the invariant alone.\<close>

definition rc_same :: "gpu \<Rightarrow> gpu \<Rightarrow> bool" where
  "rc_same g g' \<longleftrightarrow> rcores g' = rcores g \<and> sessions g' = sessions g \<and> subsystems g' = subsystems g \<and>
     returned g' = returned g \<and>
     (\<forall>j. job_session (jobs g' j) = job_session (jobs g j) \<and> job_priority (jobs g' j) = job_priority (jobs g j))"

lemma ok_same:
  assumes "rc_same g g'"
  shows "rc_ok L A X H g' = rc_ok L A X H g"
proof -
  have "running_on X g' = running_on X g" "registered g' = registered g" "waiting_jobs g' = waiting_jobs g"
    "subsys_ok g' = subsys_ok g" "core_ok L g' = core_ok L g" "session_ok g' = session_ok g"
    using assms by (simp_all add: rc_same_def running_on_def registered_def waiting_jobs_def subsys_ok_def
        core_ok_def core_lists_def core_fields_def works_for_def session_ok_def waiting_at_def fun_eq_iff)
  then show ?thesis using assms by (simp add: rc_ok_def jobs_ok_def rc_same_def)
qed

lemma ok_post [simp]: "rc_ok L A X H (post h ev d g) = rc_ok L A X H g"
  by (rule ok_same) (simp add: rc_same_def)

lemma ok_power_down_okay [simp]: "rc_ok L A X H (malipmm_core_power_down_okay al d g) = rc_ok L A X H g"
  by (rule ok_same) (simp add: rc_same_def)

lemma ok_mmu_release [simp]: "rc_ok L A X H (mmu_release c g) = rc_ok L A X H g"
  by (rule ok_same) (simp add: rc_same_def)

lemma ok_set_run_time [simp]: "rc_ok L A X H (mali_core_job_set_run_time h j g) = rc_ok L A X H g"
  by (rule ok_same) (simp add: rc_same_def mali_core_job_set_run_time_def Let_def)

lemma ok_upd_job:
  "(\<And>x. job_session (f x) = job_session x) \<Longrightarrow> (\<And>x. job_priority (f x) = job_priority x) \<Longrightarrow>
     rc_ok L A X H (upd_job j f g) = rc_ok L A X H g"
  by (rule ok_same) (simp add: rc_same_def)

text \<open>A core between two lists may be changed freely, but it stays in its subsystem.\<close>

lemma registered_upd_core:
  "core_subsystem (f (rcores g c)) = core_subsystem (rcores g c) \<Longrightarrow> registered (upd_core c f g) d = registered g d"
  by (simp add: registered_def)

lemma ok_upd_exempt:
  assumes "c \<in> X" "core_subsystem (f (rcores g c)) = core_subsystem (rcores g c)"
  shows "rc_ok L A X H (upd_core c f g) = rc_ok L A X H g"
proof -
  note reg = registered_upd_core[where f = f, OF assms(2)]
  have "running_on X (upd_core c f g) = running_on X g"
    using assms(1) by (auto simp: running_on_def reg fun_eq_iff)
  moreover have "core_ok L (upd_core c f g) d = core_ok L g d" if "d \<notin> X" for d
    using that assms(1) by (auto simp: core_ok_def core_lists_def core_fields_def works_for_def reg)
  moreover have "session_ok (upd_core c f g) = session_ok g"
    by (simp add: session_ok_def waiting_at_def fun_eq_iff)
  moreover have "subsys_ok (upd_core c f g) = subsys_ok g"
    using assms(2) by (auto simp: subsys_ok_def fun_eq_iff)
  moreover have "waiting_jobs (upd_core c f g) = waiting_jobs g" by (simp add: waiting_jobs_def)
  ultimately show ?thesis unfolding rc_ok_def jobs_ok_def by (simp add: reg)
qed

text \<open>A core that stays in its list may change its bookkeeping.\<close>

lemma ok_upd_core:
  assumes "rc_ok L A X H g" "core_subsystem (f (rcores g c)) = core_subsystem (rcores g c)"
    "current_job (f (rcores g c)) = current_job (rcores g c)"
    "busy (core_state (f (rcores g c))) = busy (core_state (rcores g c))"
    "\<not> busy (core_state (rcores g c)) \<Longrightarrow> core_state (f (rcores g c)) = core_state (rcores g c) \<and>
       core_timer (f (rcores g c)) = core_timer (rcores g c) \<and> hang_timer (f (rcores g c)) = hang_timer (rcores g c)"
    "core_state (rcores g c) = CORE_IDLE \<Longrightarrow> pend_power_down (f (rcores g c)) \<Longrightarrow> pend_power_down (rcores g c)"
  shows "rc_ok L A X H (upd_core c f g)"
proof -
  note reg = registered_upd_core[where f = f, OF assms(2)]
  have "running_on X (upd_core c f g) = running_on X g"
    using assms(3) by (auto simp: running_on_def reg fun_eq_iff)
  moreover have "core_ok L (upd_core c f g) d" if "core_ok L g d" for d
  proof (cases "d = c")
    case True
    have st: "core_state (f (rcores g c)) = x \<longleftrightarrow> core_state (rcores g c) = x" if "\<not> busy x" for x
      using assms(4,5) that by (cases "busy (core_state (rcores g c))") auto
    have "core_lists L (upd_core c f g) c = core_lists L g c"
      by (simp add: core_lists_def works_for_def reg assms(2-4) st busy_def)
    moreover have "core_fields (upd_core c f g) c" if "core_fields g c"
      using that assms(4,5,6) st[of CORE_IDLE]
      by (auto simp: core_fields_def assms(2,3) busy_def split: option.splits)
    ultimately show ?thesis using \<open>core_ok L g d\<close> True by (simp add: core_ok_def reg)
  next
    case False
    then show ?thesis using that
      by (simp add: core_ok_def core_lists_def core_fields_def works_for_def reg)
  qed
  moreover have "session_ok (upd_core c f g) = session_ok g"
    by (simp add: session_ok_def waiting_at_def fun_eq_iff)
  moreover have "subsys_ok (upd_core c f g) = subsys_ok g"
    using assms(2) by (auto simp: subsys_ok_def fun_eq_iff)
  moreover have "waiting_jobs (upd_core c f g) = waiting_jobs g" by (simp add: waiting_jobs_def)
  ultimately show ?thesis using assms(1) unfolding rc_ok_def jobs_ok_def by (auto simp: reg)
qed

subsection \<open>Moving a core into the list of its state\<close>

lemma move_fields [simp]:
  "rcores (move_to_idle c g) = rcores g" "rcores (move_to_off c g) = rcores g"
  "rcores (move_to_working c s g) = rcores g"
  "jobs (move_to_idle c g) = jobs g" "jobs (move_to_off c g) = jobs g" "jobs (move_to_working c s g) = jobs g"
  "returned (move_to_idle c g) = returned g" "returned (move_to_off c g) = returned g"
  "returned (move_to_working c s g) = returned g"
  by (simp_all add: move_to_idle_def move_to_off_def move_to_working_def)

lemma move_sessions [simp]:
  "job_waiting_to_run (sessions (move_to_idle c g) s) = job_waiting_to_run (sessions g s)"
  "job_waiting_to_run (sessions (move_to_off c g) s) = job_waiting_to_run (sessions g s)"
  "job_waiting_to_run (sessions (move_to_working c t g) s) = job_waiting_to_run (sessions g s)"
  "session_subsystem (sessions (move_to_idle c g) s) = session_subsystem (sessions g s)"
  "session_subsystem (sessions (move_to_off c g) s) = session_subsystem (sessions g s)"
  "session_subsystem (sessions (move_to_working c t g) s) = session_subsystem (sessions g s)"
  "renderunits_working (sessions (move_to_idle c g) s) = removeAll c (renderunits_working (sessions g s))"
  "renderunits_working (sessions (move_to_off c g) s) = removeAll c (renderunits_working (sessions g s))"
  "renderunits_working (sessions (move_to_working c t g) s) =
     (if s = t then [c] else []) @ removeAll c (renderunits_working (sessions g s))"
  by (simp_all add: move_to_idle_def move_to_off_def move_to_working_def)

lemma move_subsystems [simp]:
  "mali_core_array (subsystems (move_to_idle c g) u) = mali_core_array (subsystems g u)"
  "mali_core_array (subsystems (move_to_off c g) u) = mali_core_array (subsystems g u)"
  "mali_core_array (subsystems (move_to_working c t g) u) = mali_core_array (subsystems g u)"
  "awaiting_sessions (subsystems (move_to_idle c g) u) = awaiting_sessions (subsystems g u)"
  "awaiting_sessions (subsystems (move_to_off c g) u) = awaiting_sessions (subsystems g u)"
  "awaiting_sessions (subsystems (move_to_working c t g) u) = awaiting_sessions (subsystems g u)"
  "awaiting_sessions_sum (subsystems (move_to_idle c g) u) = awaiting_sessions_sum (subsystems g u)"
  "awaiting_sessions_sum (subsystems (move_to_off c g) u) = awaiting_sessions_sum (subsystems g u)"
  "awaiting_sessions_sum (subsystems (move_to_working c t g) u) = awaiting_sessions_sum (subsystems g u)"
  "renderunit_idle (subsystems (move_to_idle c g) u) =
     (if u = core_subsystem (rcores g c) then [c] else []) @ removeAll c (renderunit_idle (subsystems g u))"
  "renderunit_idle (subsystems (move_to_off c g) u) = removeAll c (renderunit_idle (subsystems g u))"
  "renderunit_idle (subsystems (move_to_working c t g) u) = removeAll c (renderunit_idle (subsystems g u))"
  "renderunit_off (subsystems (move_to_off c g) u) =
     (if u = core_subsystem (rcores g c) then [c] else []) @ removeAll c (renderunit_off (subsystems g u))"
  "renderunit_off (subsystems (move_to_idle c g) u) = removeAll c (renderunit_off (subsystems g u))"
  "renderunit_off (subsystems (move_to_working c t g) u) = removeAll c (renderunit_off (subsystems g u))"
  by (simp_all add: move_to_idle_def move_to_off_def move_to_working_def)

text \<open>The part of the invariant that does not mention the lists of cores.\<close>

lemma move_static [simp]:
  "registered (move_to_idle c g) = registered g" "registered (move_to_off c g) = registered g"
  "registered (move_to_working c t g) = registered g"
  "works_for L (move_to_idle c g) = works_for L g" "works_for L (move_to_off c g) = works_for L g"
  "works_for L (move_to_working c t g) = works_for L g"
  "core_fields (move_to_idle c g) = core_fields g" "core_fields (move_to_off c g) = core_fields g"
  "core_fields (move_to_working c t g) = core_fields g"
  "waiting_jobs (move_to_idle c g) = waiting_jobs g" "waiting_jobs (move_to_off c g) = waiting_jobs g"
  "waiting_jobs (move_to_working c t g) = waiting_jobs g"
  "session_ok (move_to_idle c g) = session_ok g" "session_ok (move_to_off c g) = session_ok g"
  "session_ok (move_to_working c t g) = session_ok g"
  "subsys_ok (move_to_idle c g) = subsys_ok g" "subsys_ok (move_to_off c g) = subsys_ok g"
  "subsys_ok (move_to_working c t g) = subsys_ok g"
  "running_on X (move_to_idle c g) = running_on X g" "running_on X (move_to_off c g) = running_on X g"
  "running_on X (move_to_working c t g) = running_on X g"
  by (simp_all add: running_on_def registered_def waiting_jobs_def subsys_ok_def core_fields_def
      works_for_def session_ok_def waiting_at_def awaiting_total_def fun_eq_iff)

lemma move_core_ok:
  assumes "d \<noteq> c"
  shows "core_ok L (move_to_idle c g) d = core_ok L g d" "core_ok L (move_to_off c g) d = core_ok L g d"
    "core_ok L (move_to_working c t g) d = core_ok L g d"
  using assms by (simp_all add: core_ok_def core_lists_def)

lemma ok_moved:
  assumes ok: "rc_ok L A (insert c X) H g" "c \<notin> X"
    and g': "g' = move_to_idle c g \<and> st = CORE_IDLE \<or> g' = move_to_off c g \<and> st = CORE_OFF"
    and st: "current_job (rcores g c) = None" "core_timer (rcores g c) = None" "hang_timer (rcores g c) = None"
      "core_state (rcores g c) = st" "st = CORE_IDLE \<Longrightarrow> \<not> pend_power_down (rcores g c)"
  shows "rc_ok L A X H g'"
proof -
  have r: "registered g c" using ok by (simp add: rc_ok_def)
  have run: "running_on (insert c X) g = running_on X g"
    using st(1) by (auto simp: running_on_def fun_eq_iff)
  have "core_fields g c" using st g' by (auto simp: core_fields_def busy_def)
  moreover have "core_lists L g' c"
    using g' r st(1,4) by (elim disjE) (simp_all add: core_lists_def busy_def works_for_def)
  ultimately have "core_ok L g' c" using g' by (auto simp: core_ok_def)
  then have "core_ok L g' d" if "d \<notin> X" for d
    using that ok move_core_ok[of d c] g' by (cases "d = c") (auto simp: rc_ok_def)
  then show ?thesis
    using ok g' run by (auto simp: rc_ok_def jobs_ok_def)
qed

lemma ok_set_idle:
  assumes "rc_ok L A (insert c X) H g" "c \<notin> X"
  shows "rc_ok L A X H (mali_core_subsystem_move_core_set_idle h c g)"
proof -
  let ?g = "upd_core c (\<lambda>x. x\<lparr>core_timer := None, hang_timer := None, current_job := None\<rparr>) g"
  have ok: "rc_ok L A (insert c X) H ?g" using assms by (simp add: ok_upd_exempt)
  show ?thesis
  proof (cases "pend_power_down (rcores g c)")
    case False
    have "rc_ok L A X H (move_to_idle c (upd_core c (\<lambda>x. x\<lparr>core_state := CORE_IDLE\<rparr>) ?g))"
      by (rule ok_moved[where st = CORE_IDLE and g = "upd_core c (\<lambda>x. x\<lparr>core_state := CORE_IDLE\<rparr>) ?g",
            OF _ assms(2) disjI1])
        (use ok False in \<open>simp_all add: ok_upd_exempt\<close>)
    then show ?thesis using False
      by (simp add: mali_core_subsystem_move_core_set_idle_def Let_def)
  next
    case True
    let ?q = "if core_state (rcores g c) \<noteq> CORE_OFF then mmu_release c (post h EVENT_JOB_FINISHED (pmm_id (rcores g c)) ?g) else ?g"
    have q: "rc_ok L A (insert c X) H ?q" using ok by simp
    have rq: "rcores ?q = rcores ?g" by simp
    have m: "rc_ok L A X H (move_to_off c (upd_core c (\<lambda>x. x\<lparr>core_state := CORE_OFF\<rparr>) ?q))"
      by (rule ok_moved[where st = CORE_OFF and g = "upd_core c (\<lambda>x. x\<lparr>core_state := CORE_OFF\<rparr>) ?q",
            OF _ assms(2) disjI2])
        (use q in \<open>simp_all add: ok_upd_exempt rq del: if_split\<close>)
    have "rc_ok L A X H (upd_core c (\<lambda>x. x\<lparr>pend_power_down := False\<rparr>)
        (move_to_off c (upd_core c (\<lambda>x. x\<lparr>core_state := CORE_OFF\<rparr>) ?q)))"
      by (rule ok_upd_core[OF m]) simp_all
    then show ?thesis using True
      by (simp add: mali_core_subsystem_move_core_set_idle_def Let_def split: if_splits)
  qed
qed

lemma ok_set_off:
  assumes "rc_ok L A X H g" "c \<notin> X" "registered g c" "core_state (rcores g c) = CORE_IDLE"
  shows "rc_ok L A X H (mali_core_subsystem_move_core_set_off c g)"
proof -
  have f: "core_fields g c" using assms by (simp add: rc_ok_def core_ok_def)
  then have n: "current_job (rcores g c) = None" "core_timer (rcores g c) = None" "hang_timer (rcores g c) = None"
    using assms(4) by (auto simp: core_fields_def busy_def)
  have "rc_ok L A (insert c X) H (upd_core c (\<lambda>x. x\<lparr>current_job := None, core_state := CORE_OFF\<rparr>) g)"
    using ok_take_none[OF assms(1,3) n(1)] by (simp add: ok_upd_exempt)
  from ok_moved[where st = CORE_OFF, OF this assms(2) disjI2] show ?thesis
    using n by (simp add: mali_core_subsystem_move_core_set_off_def)
qed

text \<open>Putting a core to work on a job in hand.\<close>

lemma ok_set_working:
  assumes ok: "rc_ok L A X (insert j H) g" "j \<notin> H" "c \<notin> X" "registered g c" "current_job (rcores g c) = None"
    and l: "j \<notin> L" and s: "session_subsystem (sessions g (job_session (jobs g j))) = core_subsystem (rcores g c)"
  shows "rc_ok L A X H (mali_core_subsystem_move_set_working c j g)"
proof -
  let ?g = "upd_job j (\<lambda>x. x\<lparr>start_time_jiffies := ticks g\<rparr>)
              (upd_core c (\<lambda>x. x\<lparr>current_job := Some j, core_state := CORE_WORKING\<rparr>) g)"
  let ?g' = "move_to_working c (job_session (jobs g j)) ?g"
  have 0: "rc_ok L A (insert c X) (insert j H) ?g"
    using ok_take_none[OF ok(1,4,5)] by (simp add: ok_upd_exempt ok_upd_job)
  have r: "registered ?g c" using ok(4) by (simp add: registered_def)
  have "core_lists L ?g' c" using r l by (auto simp: core_lists_def busy_def works_for_def)
  moreover have "core_fields ?g' c" using s by (simp add: core_fields_def busy_def)
  ultimately have "core_ok L ?g' c" by (simp add: core_ok_def)
  then have cs: "core_ok L ?g' d" if "d \<notin> X" for d
    using that 0 move_core_ok[of d c] by (cases "d = c") (auto simp: rc_ok_def)
  have "running_on X ?g' = (\<lambda>d k. d = c \<and> k = j \<or> running_on (insert c X) ?g d k)"
    using r ok(3) by (auto simp: running_on_def fun_eq_iff)
  then have "jobs_ok L A X H ?g'"
    using 0 ok(2) places_start[of A j H "waiting_jobs ?g" "fst ` set (returned ?g)" "running_on (insert c X) ?g" c]
    by (simp add: rc_ok_def jobs_ok_def)
  then have "rc_ok L A X H ?g'" using 0 cs by (auto simp: rc_ok_def)
  then show ?thesis by (simp add: mali_core_subsystem_move_set_working_def)
qed

subsection \<open>Waiting sessions\<close>

lemma ok_running_busy:
  assumes "rc_ok L A X H g" "c \<notin> X" "registered g c"
  shows "busy (core_state (rcores g c)) \<longleftrightarrow> current_job (rcores g c) \<noteq> None"
  using assms by (auto simp: rc_ok_def core_ok_def core_fields_def)

lemma ok_in_idle:
  assumes "rc_ok L A {} H g" "c \<in> set (renderunit_idle (subsystems g u))"
  shows "registered g c" "core_subsystem (rcores g c) = u" "core_state (rcores g c) = CORE_IDLE"
    "current_job (rcores g c) = None"
proof -
  have ok: "core_ok L g c" using assms(1) by (simp add: rc_ok_def)
  then have "c \<in> set (renderunit_idle (subsystems g u)) \<longleftrightarrow>
      registered g c \<and> u = core_subsystem (rcores g c) \<and> core_state (rcores g c) = CORE_IDLE"
    by (intro count_list_pos) (simp add: core_ok_def core_lists_def)
  then show 1: "registered g c" "core_subsystem (rcores g c) = u" "core_state (rcores g c) = CORE_IDLE"
    using assms(2) by auto
  then show "current_job (rcores g c) = None"
    using ok_running_busy[OF assms(1), of c] by (simp add: busy_def)
qed

lemma ok_in_awaiting:
  assumes "rc_ok L A X H g" "i < PRIORITY_LEVELS" "s \<in> set (awaiting_sessions (subsystems g u) i)"
  obtains j where "job_waiting_to_run (sessions g s) = Some j" "session_subsystem (sessions g s) = u"
    "job_session (jobs g j) = s" "job_priority (jobs g j) = i"
proof -
  have ok: "session_ok g s" using assms(1) by (simp add: rc_ok_def)
  then have "s \<in> set (awaiting_sessions (subsystems g u) i) \<longleftrightarrow> waiting_at g s u i"
    using assms(2) by (intro count_list_pos) (simp add: session_ok_def)
  with assms(3) ok show thesis by (auto simp: waiting_at_def session_ok_def intro: that)
qed

lemma get_waiting_Some:
  assumes "mali_core_subsystem_get_waiting_session u g = Some s"
  obtains i where "i < PRIORITY_LEVELS" "s \<in> set (awaiting_sessions (subsystems g u) i)"
    "\<And>k. k < i \<Longrightarrow> awaiting_sessions (subsystems g u) k = []"
proof -
  let ?a = "awaiting_sessions (subsystems g u)"
  have first: "\<exists>i<n. s \<in> set (?a i) \<and> (\<forall>k<i. ?a k = [])" if "concat (map ?a [0..<n]) = s # r" for n r
    using that
  proof (induction n arbitrary: r)
    case (Suc n)
    show ?case
    proof (cases "concat (map ?a [0..<n])")
      case Nil
      then have "\<forall>k<n. ?a k = []" by auto
      moreover have "?a n = s # r" using Suc.prems Nil by simp
      ultimately show ?thesis by (intro exI[of _ n]) simp
    next
      case (Cons x xs)
      then have "concat (map ?a [0..<n]) = s # xs" using Suc.prems by simp
      from Suc.IH[OF this] show ?thesis by (metis less_Suc_eq)
    qed
  qed simp
  from assms obtain r where "concat (map ?a [0..<PRIORITY_LEVELS]) = s # r"
    by (auto simp: mali_core_subsystem_get_waiting_session_def Let_def split: if_splits list.splits)
  from first[OF this] show thesis using that by blast
qed

text \<open>The job of a session leaves the waiting list, into the hands of the operation.\<close>

lemma awaiting_total_sum [simp]: "awaiting_total (x\<lparr>awaiting_sessions_sum := k\<rparr>) = awaiting_total x"
  by (simp add: awaiting_total_def)

lemma total_unlink:
  assumes "\<And>i. i < PRIORITY_LEVELS \<Longrightarrow> count_list (awaiting_sessions x i) s = of_bool (p = i)" "p < PRIORITY_LEVELS"
  shows "awaiting_total x = Suc (awaiting_total (x\<lparr>awaiting_sessions := \<lambda>i. removeAll s (awaiting_sessions x i)\<rparr>))"
proof -
  have "length (awaiting_sessions x i) = length (removeAll s (awaiting_sessions x i)) + of_bool (p = i)"
    if "i < PRIORITY_LEVELS" for i
    using length_removeAll_count[of s "awaiting_sessions x i"] assms(1)[OF that] by simp
  then have "awaiting_total x = (\<Sum>i<PRIORITY_LEVELS. length (removeAll s (awaiting_sessions x i)) + of_bool (p = i))"
    unfolding awaiting_total_def by (intro sum.cong) auto
  also have "\<dots> = (\<Sum>i<PRIORITY_LEVELS. length (removeAll s (awaiting_sessions x i))) + 1"
    using assms(2) by (simp add: sum.distrib of_bool_def)
  finally show ?thesis by (simp add: awaiting_total_def)
qed

definition unwait :: "nat \<Rightarrow> gpu \<Rightarrow> gpu" where
  "unwait s g =
     upd_session s (\<lambda>x. x\<lparr>job_waiting_to_run := None\<rparr>)
       (upd_subsys (session_subsystem (sessions g s)) (\<lambda>x. x\<lparr>awaiting_sessions_sum := awaiting_sessions_sum x - 1\<rparr>)
         (unlink_awaiting (session_subsystem (sessions g s)) s g))"

lemma unwait_fields [simp]:
  "rcores (unwait s g) = rcores g" "jobs (unwait s g) = jobs g" "returned (unwait s g) = returned g"
  "ticks (unwait s g) = ticks g"
  "session_subsystem (sessions (unwait s g) t) = session_subsystem (sessions g t)"
  "renderunits_working (sessions (unwait s g) t) = renderunits_working (sessions g t)"
  "mali_core_array (subsystems (unwait s g) u) = mali_core_array (subsystems g u)"
  "renderunit_idle (subsystems (unwait s g) u) = renderunit_idle (subsystems g u)"
  "renderunit_off (subsystems (unwait s g) u) = renderunit_off (subsystems g u)"
  by (simp_all add: unwait_def unlink_awaiting_def)

lemma ok_unwait:
  assumes ok: "rc_ok L A X H g" and w: "job_waiting_to_run (sessions g s) = Some j"
  shows "rc_ok L A X (insert j H) (unwait s g)" "j \<notin> H" "j \<in> A" "j \<notin> L"
proof -
  let ?u = "session_subsystem (sessions g s)"
  have s: "session_ok g s" and J: "jobs_ok L A X H g" using ok by (auto simp: rc_ok_def)
  have j: "job_session (jobs g j) = s" "job_priority (jobs g j) < PRIORITY_LEVELS"
    using s w by (auto simp: session_ok_def)
  have W: "waiting_jobs g = insert j (waiting_jobs (unwait s g))" "j \<notin> waiting_jobs (unwait s g)"
  proof -
    have "job_session (jobs g k) = t" if "job_waiting_to_run (sessions g t) = Some k" for k t
      using that ok by (auto simp: rc_ok_def session_ok_def)
    moreover have v: "job_waiting_to_run (sessions (unwait s g) t) =
        (if t = s then None else job_waiting_to_run (sessions g t))" for t
      by (simp add: unwait_def unlink_awaiting_def)
    ultimately show "j \<notin> waiting_jobs (unwait s g)"
      using j(1) by (auto simp: waiting_jobs_def)
    show "waiting_jobs g = insert j (waiting_jobs (unwait s g))"
      using w unfolding waiting_jobs_def v by (auto split: if_splits) (metis option.inject)
  qed
  have "j \<in> waiting_jobs g" using W by simp
  then show "j \<notin> H" "j \<in> A" "j \<notin> L" using J by (auto simp: jobs_ok_def places_def)
  have core: "core_ok L (unwait s g) c = core_ok L g c" "registered (unwait s g) c = registered g c"
    "running_on X (unwait s g) = running_on X g" for c
    by (simp_all add: core_ok_def core_lists_def core_fields_def works_for_def registered_def running_on_def
        fun_eq_iff)
  have "session_ok (unwait s g) t" for t
  proof (cases "t = s")
    case True
    have "count_list (awaiting_sessions (subsystems (unwait s g) u) i) s = 0" if "i < PRIORITY_LEVELS" for u i
      using s that by (cases "u = ?u")
        (simp_all add: session_ok_def waiting_at_def unwait_def unlink_awaiting_def)
    then show ?thesis using True by (simp add: session_ok_def waiting_at_def) (simp add: unwait_def)
  next
    case False
    have "session_ok g t" using ok by (simp add: rc_ok_def)
    moreover have "count_list (awaiting_sessions (subsystems (unwait s g) u) i) t =
        count_list (awaiting_sessions (subsystems g u) i) t" for u i
      using False by (simp add: unwait_def unlink_awaiting_def)
    moreover have "sessions (unwait s g) t = sessions g t" using False by (simp add: unwait_def unlink_awaiting_def)
    ultimately show ?thesis by (simp add: session_ok_def waiting_at_def)
  qed
  moreover have "subsys_ok (unwait s g) u" for u
  proof (cases "u = ?u")
    case True
    have "awaiting_total (subsystems g ?u) = Suc (awaiting_total ((subsystems g ?u)
        \<lparr>awaiting_sessions := \<lambda>i. removeAll s (awaiting_sessions (subsystems g ?u) i)\<rparr>))"
      by (rule total_unlink[OF _ j(2)]) (use s w in \<open>simp add: session_ok_def waiting_at_def\<close>)
    then show ?thesis using ok True
      by (simp add: rc_ok_def subsys_ok_def unwait_def unlink_awaiting_def)
  next
    case False
    then show ?thesis using ok by (simp add: rc_ok_def subsys_ok_def unwait_def unlink_awaiting_def)
  qed
  moreover have "jobs_ok L A X (insert j H) (unwait s g)"
    using J places_release[of A H j "waiting_jobs (unwait s g)" "fst ` set (returned g)" "running_on X g"] W
    by (auto simp: jobs_ok_def core)
  ultimately show "rc_ok L A X (insert j H) (unwait s g)" using ok by (simp add: rc_ok_def core)
qed

lemma release_unwait:
  "session_subsystem (sessions g s) = u \<Longrightarrow>
     mali_core_subsystem_release_session_get_job u s g = (job_waiting_to_run (sessions g s), unwait s g)"
  by (simp add: mali_core_subsystem_release_session_get_job_def unwait_def unlink_awaiting_def Let_def)

lemma abort_unwait:
  "session_subsystem (sessions g s) = u \<Longrightarrow>
     upd_subsys u (\<lambda>x. x\<lparr>awaiting_sessions_sum := awaiting_sessions_sum x - 1\<rparr>)
       (unlink_awaiting u s (upd_session s (\<lambda>x. x\<lparr>job_waiting_to_run := None\<rparr>) g)) = unwait s g"
  by (simp add: unwait_def unlink_awaiting_def upd_session_def upd_subsys_def)

lemma return_unwait: "unwait s (return_job_to_user j e g) = return_job_to_user j e (unwait s g)"
  by (simp add: unwait_def unlink_awaiting_def upd_session_def upd_subsys_def return_job_to_user_def)

subsection \<open>Scheduling keeps the invariant\<close>

lemma working_fields [simp]:
  "core_subsystem (rcores (mali_core_subsystem_move_set_working c j g) d) = core_subsystem (rcores g d)"
  "current_job (rcores (mali_core_subsystem_move_set_working c j g) c) = Some j"
  "core_state (rcores (mali_core_subsystem_move_set_working c j g) c) = CORE_WORKING"
  "mali_core_array (subsystems (mali_core_subsystem_move_set_working c j g) u) = mali_core_array (subsystems g u)"
  by (simp_all add: mali_core_subsystem_move_set_working_def)

lemma ok_start_fails:
  assumes "rc_ok L A {} H g" "registered g c" "current_job (rcores g c) = Some j"
  shows "rc_ok L A {} H (return_job_to_user j e (mali_core_subsystem_move_core_set_idle h c g))"
proof -
  note t = ok_take_job[OF assms(1) _ assms(2,3)]
  have "rc_ok L A {} (insert j H) (mali_core_subsystem_move_core_set_idle h c g)"
    by (rule ok_set_idle) (use t(1) in simp_all)
  then show ?thesis using t(2) by (simp add: ok_return_job)
qed

lemma ok_start:
  assumes "rc_ok L A {} (insert j H) g" "j \<notin> H" "registered g c" "current_job (rcores g c) = None" "j \<notin> L"
    "session_subsystem (sessions g (job_session (jobs g j))) = core_subsystem (rcores g c)"
  shows "rc_ok L A {} H (mali_core_job_start_on_core h j c g)"
proof -
  let ?w = "mali_core_subsystem_move_set_working c j g"
  have w: "rc_ok L A {} H ?w" by (rule ok_set_working[OF assms(1,2) _ assms(3-6)]) simp
  have r: "registered ?w c" using assms(3) by (simp add: registered_def)
  have f: "rc_ok L A {} H (return_job_to_user j e (mali_core_subsystem_move_core_set_idle h c ?w))" for e
    by (rule ok_start_fails[OF w r]) simp
  have "rc_ok L A {} H (upd_core c (\<lambda>x. x\<lparr>core_timer := Some t\<rparr>) (upd_job j (\<lambda>x. x\<lparr>watchdog_jiffies := k\<rparr>) ?w))" for t k
    by (rule ok_upd_core) (simp_all add: ok_upd_job w busy_def)
  then show ?thesis using f by (simp add: mali_core_job_start_on_core_def Let_def)
qed

lemma ok_schedule:
  assumes ok: "rc_ok L A {} H g"
  shows "rc_ok L A {} H (mali_core_subsystem_schedule h u g)"
proof (cases "awaiting_sessions_sum (subsystems g u) = 0 \<or> mali_core_subsystem_get_waiting_session u g = None")
  case True
  then show ?thesis using ok by (auto simp: mali_core_subsystem_schedule_def)
next
  case False
  then obtain s where s: "awaiting_sessions_sum (subsystems g u) \<noteq> 0"
    "mali_core_subsystem_get_waiting_session u g = Some s" by auto
  obtain i where i: "i < PRIORITY_LEVELS" "s \<in> set (awaiting_sessions (subsystems g u) i)"
    by (rule get_waiting_Some[OF s(2)])
  obtain j where j: "job_waiting_to_run (sessions g s) = Some j" "session_subsystem (sessions g s) = u"
    "job_session (jobs g j) = s" by (rule ok_in_awaiting[OF ok i])
  show ?thesis
  proof (cases "find (\<lambda>c. hw_mmu_activate h c s g) (renderunit_idle (subsystems g u))")
    case None
    then show ?thesis using s ok by (simp add: mali_core_subsystem_schedule_def)
  next
    case (Some c)
    then have "c \<in> set (renderunit_idle (subsystems g u))" by (metis find_Some_iff nth_mem)
    note c = ok_in_idle[OF ok this]
    let ?g = "post h EVENT_JOB_SCHEDULED (pmm_id (rcores g c)) (unwait s g)"
    note w = ok_unwait[OF ok j(1)]
    have "rc_ok L A {} H (mali_core_job_start_on_core h j c ?g)"
    proof (rule ok_start)
      show "registered ?g c" using c(1) by (simp add: registered_def)
    qed (use w c j in simp_all)
    then show ?thesis using s Some
      by (simp add: mali_core_subsystem_schedule_def release_unwait[OF j(2)] j(1))
  qed
qed

subsection \<open>What the operations leave alone\<close>

text \<open>The subsystem of a core, its being in the array, and the flag of the detach function.\<close>

definition rc_fixed :: "gpu \<Rightarrow> gpu \<Rightarrow> bool" where
  "rc_fixed g g' \<longleftrightarrow>
     (\<forall>c. core_subsystem (rcores g' c) = core_subsystem (rcores g c) \<and>
          in_detach_function (rcores g' c) = in_detach_function (rcores g c)) \<and>
     (\<forall>u. mali_core_array (subsystems g' u) = mali_core_array (subsystems g u)) \<and>
     (\<forall>s. session_subsystem (sessions g' s) = session_subsystem (sessions g s)) \<and>
     (\<forall>j. job_session (jobs g' j) = job_session (jobs g j) \<and> job_priority (jobs g' j) = job_priority (jobs g j) \<and>
          abort_id (jobs g' j) = abort_id (jobs g j))"

lemma fixed_refl [simp]: "rc_fixed g g"
  by (simp add: rc_fixed_def)

lemma fixed_trans: "rc_fixed g g' \<Longrightarrow> rc_fixed g' g'' \<Longrightarrow> rc_fixed g g''"
  by (simp add: rc_fixed_def)

lemma fixed_registered: "rc_fixed g g' \<Longrightarrow> registered g' c = registered g c"
  by (simp add: rc_fixed_def registered_def)

lemma fixed_basic [simp]:
  "rc_fixed g (move_to_idle c g') = rc_fixed g g'" "rc_fixed g (move_to_off c g') = rc_fixed g g'"
  "rc_fixed g (move_to_working c s g') = rc_fixed g g'" "rc_fixed g (return_job_to_user j e g') = rc_fixed g g'"
  "rc_fixed g (post h ev d g') = rc_fixed g g'" "rc_fixed g (malipmm_core_power_down_okay al d g') = rc_fixed g g'"
  "rc_fixed g (unwait s g') = rc_fixed g g'" "rc_fixed g (mmu_release c g') = rc_fixed g g'"
  by (simp_all add: rc_fixed_def)

lemma fixed_upd_core:
  "rc_fixed g g' \<Longrightarrow> (\<And>x. core_subsystem (f x) = core_subsystem x) \<Longrightarrow>
     (\<And>x. in_detach_function (f x) = in_detach_function x) \<Longrightarrow> rc_fixed g (upd_core c f g')"
  by (simp add: rc_fixed_def)

lemma fixed_upd_job:
  "rc_fixed g g' \<Longrightarrow> (\<And>x. job_session (f x) = job_session x \<and> job_priority (f x) = job_priority x \<and> abort_id (f x) = abort_id x)
     \<Longrightarrow> rc_fixed g (upd_job j f g')"
  by (simp add: rc_fixed_def)

lemma fixed_set_idle: "rc_fixed g g' \<Longrightarrow> rc_fixed g (mali_core_subsystem_move_core_set_idle h c g')"
  by (simp add: mali_core_subsystem_move_core_set_idle_def Let_def fixed_upd_core)

lemma fixed_start: "rc_fixed g g' \<Longrightarrow> rc_fixed g (mali_core_job_start_on_core h j c g')"
  by (simp add: mali_core_job_start_on_core_def Let_def fixed_upd_core fixed_upd_job fixed_set_idle
      mali_core_subsystem_move_set_working_def)

lemma fixed_release: "rc_fixed g g' \<Longrightarrow> rc_fixed g (snd (mali_core_subsystem_release_session_get_job u s g'))"
  by (simp add: mali_core_subsystem_release_session_get_job_def Let_def rc_fixed_def unlink_awaiting_def)

lemma fixed_schedule: "rc_fixed g g' \<Longrightarrow> rc_fixed g (mali_core_subsystem_schedule h u g')"
proof -
  assume g: "rc_fixed g g'"
  have "rc_fixed g q" if "mali_core_subsystem_release_session_get_job u s g' = (x, q)" for s x q
    using fixed_release[OF g, of u s] that by simp
  then show ?thesis
    using g by (auto simp: mali_core_subsystem_schedule_def intro!: fixed_start split: option.splits prod.splits)
qed

subsection \<open>The operations keep the invariant\<close>

text \<open>\<open>detach\<close> up to the point where the core is free again; the job is still in hand.\<close>

definition stop_core :: "hw_env \<Rightarrow> nat \<Rightarrow> gpu \<Rightarrow> gpu" where
  "stop_core h c g =
     (let g = (case current_job (rcores g c) of None \<Rightarrow> g
               | Some j \<Rightarrow> upd_core c (\<lambda>x. x\<lparr>current_job := None\<rparr>) (mali_core_job_set_run_time h j g))
      in if core_state (rcores g c) \<noteq> CORE_IDLE
         then mali_core_subsystem_move_core_set_idle h c g else g)"

definition free_core :: "hw_env \<Rightarrow> nat \<Rightarrow> gpu \<Rightarrow> gpu" where
  "free_core h c g =
     upd_core c (\<lambda>x. x\<lparr>in_detach_function := False\<rparr>)
       (stop_core h c (upd_core c (\<lambda>x. x\<lparr>in_detach_function := True\<rparr>) g))"

lemma detach_free:
  "\<not> in_detach_function (rcores g c) \<Longrightarrow>
     mali_core_renderunit_detach_job_from_core h c r e g =
       (let g' = free_core h c g;
            g' = (if r = SUBSYSTEM_RESCHEDULE then mali_core_subsystem_schedule h (core_subsystem (rcores g' c)) g' else g')
        in case current_job (rcores g c) of None \<Rightarrow> g' | Some j \<Rightarrow> return_job_to_user j e g')"
  by (simp add: mali_core_renderunit_detach_job_from_core_def free_core_def stop_core_def Let_def)

lemma run_time_fields [simp]:
  "rcores (mali_core_job_set_run_time h j g) = rcores g" "sessions (mali_core_job_set_run_time h j g) = sessions g"
  "subsystems (mali_core_job_set_run_time h j g) = subsystems g" "returned (mali_core_job_set_run_time h j g) = returned g"
  by (simp_all add: mali_core_job_set_run_time_def Let_def)

lemma fixed_run_time: "rc_fixed g g' \<Longrightarrow> rc_fixed g (mali_core_job_set_run_time h j g')"
  by (simp add: mali_core_job_set_run_time_def Let_def fixed_upd_job)

lemma fixed_flag: "rc_fixed (upd_core c (\<lambda>x. x\<lparr>in_detach_function := b\<rparr>) g) g' \<Longrightarrow>
    in_detach_function (rcores g c) = b' \<Longrightarrow> rc_fixed g (upd_core c (\<lambda>x. x\<lparr>in_detach_function := b'\<rparr>) g')"
  by (auto simp: rc_fixed_def split: if_splits)

lemma fixed_free:
  assumes "\<not> in_detach_function (rcores g c)"
  shows "rc_fixed g (free_core h c g)"
proof -
  have "rc_fixed q (stop_core h c q)" for q
    by (auto simp: stop_core_def Let_def fixed_set_idle fixed_upd_core fixed_run_time split: option.split)
  from fixed_flag[OF this, where b' = False] show ?thesis
    using assms by (simp add: free_core_def)
qed

lemma ok_flag: "rc_ok L A X H g \<Longrightarrow> rc_ok L A X H (upd_core c (\<lambda>x. x\<lparr>in_detach_function := b\<rparr>) g)"
  by (rule ok_upd_core) simp_all

lemma ok_free_job:
  assumes "rc_ok L A {} H g" "registered g c" "current_job (rcores g c) = Some j"
  shows "rc_ok L A {} (insert j H) (free_core h c g)" "j \<notin> H" "j \<in> A"
proof -
  let ?g = "upd_core c (\<lambda>x. x\<lparr>in_detach_function := True\<rparr>) g"
  have "rc_ok L A {} H ?g" by (rule ok_flag[OF assms(1)])
  note t = ok_take_job[OF this, of c j]
  have r: "registered ?g c" using assms(2) by (simp add: registered_def)
  show "j \<notin> H" "j \<in> A" using t r assms(3) by auto
  have "core_state (rcores g c) \<noteq> CORE_IDLE"
    using ok_running_busy[OF assms(1) _ assms(2)] assms(3) by (auto simp: busy_def)
  then show "rc_ok L A {} (insert j H) (free_core h c g)"
    using t(1) r assms(3)
    by (auto simp: free_core_def stop_core_def Let_def ok_upd_exempt intro!: ok_flag ok_set_idle)
qed

lemma ok_free_none:
  assumes "rc_ok L A {} H g" "registered g c" "current_job (rcores g c) = None"
  shows "rc_ok L A {} H (free_core h c g)"
proof -
  let ?g = "upd_core c (\<lambda>x. x\<lparr>in_detach_function := True\<rparr>) g"
  have ok: "rc_ok L A {} H ?g" by (rule ok_flag[OF assms(1)])
  have "rc_ok L A {c} H ?g"
    by (rule ok_take_none[OF ok]) (use assms in \<open>simp_all add: registered_def\<close>)
  then show ?thesis
    using ok assms(3) by (auto simp: free_core_def stop_core_def Let_def intro!: ok_flag ok_set_idle)
qed

lemma wf_detach:
  assumes wf: "rc_wf L A g" and c: "registered g c"
  shows "rc_wf L A (mali_core_renderunit_detach_job_from_core h c r e g)"
    and "rc_fixed g (mali_core_renderunit_detach_job_from_core h c r e g)"
proof -
  let ?d = "mali_core_renderunit_detach_job_from_core h c r e g"
  have n: "\<not> in_detach_function (rcores g d)" for d using wf by (simp add: rc_wf_def)
  have ok: "rc_ok L A {} {} g" using wf by (simp add: rc_wf_def)
  show fx: "rc_fixed g ?d"
    using fixed_free[OF n, of h c]
    by (auto simp: detach_free[OF n] Let_def fixed_schedule split: option.split)
  have "rc_ok L A {} {} ?d"
  proof (cases "current_job (rcores g c)")
    case None
    show ?thesis using ok_free_none[OF ok c None] None
      by (simp add: detach_free[OF n] Let_def ok_schedule)
  next
    case (Some j)
    show ?thesis using ok_free_job[OF ok c Some] Some
      by (simp add: detach_free[OF n] Let_def ok_schedule ok_return_job)
  qed
  then show "rc_wf L A ?d" using fx n by (simp add: rc_wf_def rc_fixed_def)
qed

lemma wf_fixedI: "rc_ok L A {} {} g' \<Longrightarrow> rc_fixed g g' \<Longrightarrow> rc_wf L B g \<Longrightarrow> rc_wf L A g'"
  by (simp add: rc_wf_def rc_fixed_def)

lemma wf_schedule: "rc_wf L A g \<Longrightarrow> rc_wf L A (mali_core_subsystem_schedule h u g)"
  by (rule wf_fixedI[where g = g and B = A]) (simp_all add: rc_wf_def ok_schedule fixed_schedule)

text \<open>A job in hand is put into the slot of its session, which had none.\<close>

definition enqueue :: "nat \<Rightarrow> nat \<Rightarrow> gpu \<Rightarrow> gpu" where
  "enqueue s j g =
     (let p = job_priority (jobs g j);
          g = upd_session s (\<lambda>x. x\<lparr>job_waiting_to_run := Some j\<rparr>) g
      in upd_subsys (session_subsystem (sessions g s))
           (\<lambda>x. x\<lparr>awaiting_sessions := (awaiting_sessions x)(p := awaiting_sessions x p @ [s]),
                  awaiting_sessions_sum := awaiting_sessions_sum x + 1\<rparr>) g)"

lemma enqueue_fields [simp]:
  "rcores (enqueue s j g) = rcores g" "jobs (enqueue s j g) = jobs g" "returned (enqueue s j g) = returned g"
  "session_subsystem (sessions (enqueue s j g) t) = session_subsystem (sessions g t)"
  "renderunits_working (sessions (enqueue s j g) t) = renderunits_working (sessions g t)"
  "mali_core_array (subsystems (enqueue s j g) u) = mali_core_array (subsystems g u)"
  "renderunit_idle (subsystems (enqueue s j g) u) = renderunit_idle (subsystems g u)"
  "renderunit_off (subsystems (enqueue s j g) u) = renderunit_off (subsystems g u)"
  "job_waiting_to_run (sessions (enqueue s j g) t) = (if t = s then Some j else job_waiting_to_run (sessions g t))"
  "awaiting_sessions (subsystems (enqueue s j g) u) i =
     (if u = session_subsystem (sessions g s) \<and> i = job_priority (jobs g j)
      then awaiting_sessions (subsystems g u) i @ [s] else awaiting_sessions (subsystems g u) i)"
  "awaiting_sessions_sum (subsystems (enqueue s j g) u) =
     (if u = session_subsystem (sessions g s) then awaiting_sessions_sum (subsystems g u) + 1
      else awaiting_sessions_sum (subsystems g u))"
  by (simp_all add: enqueue_def Let_def)

lemma count_snoc [simp]: "count_list (xs @ [a]) b = count_list xs b + (if a = b then 1 else 0)"
  by simp

lemma ok_enqueue:
  assumes ok: "rc_ok L A X (insert j H) g" "j \<notin> H" "j \<notin> L" and s: "job_session (jobs g j) = s"
    and p: "job_priority (jobs g j) < PRIORITY_LEVELS" and free: "job_waiting_to_run (sessions g s) = None"
  shows "rc_ok L A X H (enqueue s j g)"
proof -
  let ?g = "enqueue s j g"
  let ?u = "session_subsystem (sessions g s)"
  have core: "core_ok L ?g c = core_ok L g c" "registered ?g c = registered g c" "running_on X ?g = running_on X g" for c
    by (simp_all add: core_ok_def core_lists_def core_fields_def works_for_def registered_def running_on_def fun_eq_iff)
  have "session_ok ?g t" for t
  proof -
    have "session_ok g t" using ok by (simp add: rc_ok_def)
    then show ?thesis using free s p
      by (cases "t = s") (auto simp: session_ok_def waiting_at_def of_bool_def)
  qed
  moreover have "subsys_ok ?g u" for u
  proof -
    have "awaiting_total (subsystems ?g ?u) = Suc (awaiting_total (subsystems g ?u))"
    proof -
      have "awaiting_total (subsystems ?g ?u) =
          (\<Sum>i<PRIORITY_LEVELS. length (awaiting_sessions (subsystems g ?u) i) + of_bool (i = job_priority (jobs g j)))"
        unfolding awaiting_total_def by (rule sum.cong) auto
      also have "\<dots> = Suc (awaiting_total (subsystems g ?u))"
        using p by (simp add: sum.distrib awaiting_total_def of_bool_def)
      finally show ?thesis .
    qed
    moreover have "awaiting_total (subsystems ?g u) = awaiting_total (subsystems g u)" if "u \<noteq> ?u"
      using that by (simp add: awaiting_total_def)
    ultimately show ?thesis using ok by (cases "u = ?u") (simp_all add: rc_ok_def subsys_ok_def add.commute)
  qed
  moreover have "waiting_jobs ?g = insert j (waiting_jobs g)"
    using free by (auto simp: waiting_jobs_def split: if_splits) (metis option.distinct(1))
  then have "jobs_ok L A X H ?g"
    using ok places_wait[of A j H "waiting_jobs g" "fst ` set (returned g)" "running_on X g"]
    by (simp add: rc_ok_def jobs_ok_def core)
  ultimately show ?thesis using ok by (simp add: rc_ok_def core)
qed

lemma ok_accept: "rc_ok L A X H g \<Longrightarrow> j \<notin> A \<Longrightarrow> rc_ok L (insert j A) X (insert j H) g"
  by (auto simp: rc_ok_def jobs_ok_def places_accept)

lemma wf_not_left: "rc_wf L A g \<Longrightarrow> j \<notin> A \<Longrightarrow> j \<notin> L"
  by (auto simp: rc_wf_def rc_ok_def jobs_ok_def)

lemma ok_leave: "rc_ok L A X (insert j H) g \<Longrightarrow> j \<notin> H \<Longrightarrow> j \<notin> L \<Longrightarrow> rc_ok L (A - {j}) X H g"
  by (auto simp: rc_ok_def jobs_ok_def places_leave)

lemma enqueue_unwait:
  "session_subsystem (sessions g s) = u \<Longrightarrow>
     enqueue s j (upd_subsys u (\<lambda>x. x\<lparr>awaiting_sessions_sum := awaiting_sessions_sum x - 1\<rparr>)
       (unlink_awaiting u s g)) = enqueue s j (unwait s g)"
  by (simp add: enqueue_def unwait_def unlink_awaiting_def upd_session_def upd_subsys_def Let_def)

lemma add_job_enqueue:
  "mali_core_session_add_job h s j g =
     (let u = session_subsystem (sessions g s)
      in case job_waiting_to_run (sessions g s) of
           None \<Rightarrow> (ERR_OK, None, mali_core_subsystem_schedule h u (enqueue s j g))
         | Some old \<Rightarrow>
             if job_has_higher_priority (jobs g j) (jobs g old)
             then (ERR_OK, Some old, mali_core_subsystem_schedule h u (enqueue s j (unwait s g)))
             else (ERR_FAULT, None, g))"
  by (simp add: enqueue_unwait[OF refl, symmetric] mali_core_session_add_job_def Let_def split: option.split)
    (simp add: enqueue_def unlink_awaiting_def Let_def)

text \<open>The jobs accepted after a call of \<open>add_job\<close>: a replaced job goes back to the caller.\<close>

definition accepted_after :: "nat set \<Rightarrow> nat \<Rightarrow> osk_err \<times> nat option \<times> gpu \<Rightarrow> nat set" where
  "accepted_after A j r =
     (case r of (err, old, g) \<Rightarrow> if err = ERR_OK then insert j (A - set_option old) else A)"

lemma fixed_enqueue [simp]: "rc_fixed g (enqueue s j g') = rc_fixed g g'"
  by (simp add: rc_fixed_def)

lemma wf_add_job:
  assumes wf: "rc_wf L A g" and j: "j \<notin> A" "job_session (jobs g j) = s" "job_priority (jobs g j) < PRIORITY_LEVELS"
  shows "rc_wf L (accepted_after A j (mali_core_session_add_job h s j g))
           (snd (snd (mali_core_session_add_job h s j g)))"
proof (cases "job_waiting_to_run (sessions g s)")
  case None
  have "rc_ok L (insert j A) {} {} (enqueue s j g)"
    by (rule ok_enqueue) (use wf wf_not_left[OF wf j(1)] j None in \<open>simp_all add: rc_wf_def ok_accept\<close>)
  from ok_schedule[OF this] show ?thesis
    using None by (auto simp: add_job_enqueue Let_def accepted_after_def fixed_schedule intro: wf_fixedI[OF _ _ wf])
next
  case (Some old)
  note w = ok_unwait[OF wf[unfolded rc_wf_def, THEN conjunct1] Some]
  have "rc_ok L (A - {old}) {} {} (unwait s g)" using ok_leave[OF w(1,2,4)] .
  then have "rc_ok L (insert j (A - {old})) {} {j} (unwait s g)" using ok_accept[of L "A - {old}" "{}" "{}" "unwait s g" j] j by simp
  then have "rc_ok L (insert j (A - {old})) {} {} (enqueue s j (unwait s g))"
    by (intro ok_enqueue) (use j wf_not_left[OF wf j(1)] in \<open>simp_all add: unwait_def unlink_awaiting_def\<close>)
  from ok_schedule[OF this] show ?thesis
    using Some wf by (auto simp: add_job_enqueue Let_def accepted_after_def fixed_schedule intro: wf_fixedI[OF _ _ wf])
qed

lemma wf_working_registered:
  assumes "rc_wf L A g" "c \<in> set (renderunits_working (sessions g s))"
  shows "registered g c" "busy (core_state (rcores g c))" "works_for L g c s"
proof -
  have "core_ok L g c" using assms(1) by (simp add: rc_wf_def rc_ok_def)
  then have "c \<in> set (renderunits_working (sessions g s)) \<longleftrightarrow>
      registered g c \<and> busy (core_state (rcores g c)) \<and> works_for L g c s"
    by (intro count_list_pos) (simp add: core_ok_def core_lists_def)
  with assms(2) show "registered g c" "busy (core_state (rcores g c))" "works_for L g c s" by auto
qed

lemma wf_unwait:
  assumes wf: "rc_wf L A g" and w: "job_waiting_to_run (sessions g s) = Some j"
  shows "rc_wf L A (return_job_to_user j e (unwait s g))"
  by (rule wf_fixedI[OF _ _ wf]) (use ok_unwait[OF wf[unfolded rc_wf_def, THEN conjunct1] w] in \<open>simp_all add: ok_return_job\<close>)

lemma wf_abort_cores:
  "rc_wf L A g \<Longrightarrow> \<forall>c \<in> set cs. registered g c \<Longrightarrow> rc_wf L A (abort_cores h aid cs g)"
proof (induction h aid cs g rule: abort_cores.induct)
  case (2 h aid c cs g)
  show ?case
    using 2 wf_detach[OF 2(4), of c h SUBSYSTEM_RESCHEDULE JOB_STATUS_END_ABORT]
    by (auto simp: fixed_registered split: option.split)
qed simp

lemma wf_find_and_abort:
  assumes wf: "rc_wf L A g"
  shows "rc_wf L A (find_and_abort h s aid g)"
proof -
  have *: "rc_wf L A (abort_cores h aid (renderunits_working (sessions q s)) q)" if "rc_wf L A q" for q
    using that wf_abort_cores wf_working_registered by blast
  show ?thesis
    using *[OF wf] *[OF wf_unwait[OF wf]]
    by (auto simp: find_and_abort_def Let_def abort_unwait split: option.split)
qed

lemma wf_upd_core:
  assumes wf: "rc_wf L A g" and "core_subsystem (f (rcores g c)) = core_subsystem (rcores g c)"
    "current_job (f (rcores g c)) = current_job (rcores g c)"
    "in_detach_function (f (rcores g c)) = in_detach_function (rcores g c)"
    "busy (core_state (f (rcores g c))) = busy (core_state (rcores g c))"
    "\<not> busy (core_state (rcores g c)) \<Longrightarrow> core_state (f (rcores g c)) = core_state (rcores g c) \<and>
       core_timer (f (rcores g c)) = core_timer (rcores g c) \<and> hang_timer (f (rcores g c)) = hang_timer (rcores g c)"
    "core_state (rcores g c) = CORE_IDLE \<Longrightarrow> pend_power_down (f (rcores g c)) \<Longrightarrow> pend_power_down (rcores g c)"
  shows "rc_wf L A (upd_core c f g)"
  using ok_upd_core[of L A "{}" "{}" g f c] assms by (simp add: rc_wf_def)

lemma wf_irq:
  assumes wf: "rc_wf L A g" and c: "registered g c"
  shows "rc_wf L A (mali_core_irq_handler_bottom_half h e c g)"
proof -
  have "rc_wf L A (upd_core c (\<lambda>x. x\<lparr>core_state := CORE_WORKING, core_timer := Some 1\<rparr>) g)"
    if "core_state (rcores g c) = CORE_POLL"
    by (rule wf_upd_core[OF wf]) (use that in \<open>simp_all add: busy_def\<close>)
  then show ?thesis
    using wf wf_detach(1)[OF wf c]
    by (auto simp: mali_core_irq_handler_bottom_half_def split: mali_core_status.split)
qed

lemma wf_timeout:
  assumes wf: "rc_wf L A g" and c: "registered g c" "core_timer (rcores g c) \<noteq> None"
  shows "rc_wf L A (mali_core_renderunit_timeout_function h c g)"
proof -
  have "core_fields g c" using wf c by (simp add: rc_wf_def rc_ok_def core_ok_def)
  then have b: "busy (core_state (rcores g c))" using c(2) by (auto simp: core_fields_def)
  have "rc_wf L A (upd_core c (\<lambda>x. x\<lparr>core_state := st\<rparr>) g)" if "busy st" for st
    by (rule wf_upd_core[OF wf]) (use b that in \<open>auto simp: busy_def\<close>)
  then show ?thesis by (simp add: mali_core_renderunit_timeout_function_def busy_def)
qed

lemma wf_hang:
  assumes wf: "rc_wf L A g" and b: "busy (core_state (rcores g c))"
  shows "rc_wf L A (mali_core_renderunit_timeout_function_hang_detection c g)"
proof -
  have "rc_wf L A (upd_core c (\<lambda>x. x\<lparr>core_state := CORE_HANG_CHECK_TIMEOUT\<rparr>) g)"
    by (rule wf_upd_core[OF wf]) (use b in \<open>auto simp: busy_def\<close>)
  then show ?thesis using wf by (simp add: mali_core_renderunit_timeout_function_hang_detection_def)
qed

end
