(* ===== verification/Rendercore_Frames.thy ===== *)
theory Rendercore_Frames
  imports Rendercore_Invariant
begin

text \<open>
  What scheduling and the end of a job leave alone, in states of the invariant: a scheduling step
  concerns one idle core, and taking a job off a core concerns this core and then one scheduling step.
\<close>

subsection \<open>Scheduling\<close>

lemma iqueue_frame [simp]:
  "iqueue (move_to_idle c g) = iqueue g" "iqueue (move_to_off c g) = iqueue g"
  "iqueue (move_to_working c s g) = iqueue g" "iqueue (unwait s g) = iqueue g"
  "event_num ev \<le> 1000 \<Longrightarrow> iqueue (post h ev d g) = iqueue g"
  by (simp_all add: move_to_idle_def move_to_off_def move_to_working_def unwait_def unlink_awaiting_def
      post_def mali_ukk_pmm_event_message_def schedulework_def Let_def)

lemma start_result:
  fixes h j c g
  defines "g' \<equiv> mali_core_job_start_on_core h j c g"
  assumes "\<not> pend_power_down (rcores g c)"
  shows "d \<noteq> c \<Longrightarrow> rcores g' d = rcores g d"
    and "current_job (rcores g' c) = Some j \<and> core_state (rcores g' c) = CORE_WORKING \<and> returned g' = returned g \<or>
      current_job (rcores g' c) = None \<and> core_state (rcores g' c) = CORE_IDLE \<and>
      (\<exists>e \<in> {JOB_STATUS_END_SYSTEM_UNUSABLE, JOB_STATUS_END_ILLEGAL_JOB}. returned g' = returned g @ [(j, e)])"
    and "\<forall>q. hw_l2_invalidate h q = ERR_OK \<Longrightarrow> \<forall>q. hw_start_job h j c q = ERR_OK \<Longrightarrow> current_job (rcores g' c) = Some j"
    and "job_waiting_to_run (sessions g' s) = job_waiting_to_run (sessions g s)"
    and "awaiting_sessions (subsystems g' u) = awaiting_sessions (subsystems g u)"
    and "awaiting_sessions_sum (subsystems g' u) = awaiting_sessions_sum (subsystems g u)"
    and "iqueue g' = iqueue g"
  using assms(2)
  by (simp_all add: g'_def mali_core_job_start_on_core_def Let_def mali_core_subsystem_move_set_working_def
      mali_core_subsystem_move_core_set_idle_def iqueue_frame)

lemma schedule_cases:
  assumes ok: "rc_ok L A {} H g"
  obtains
    (nothing) "mali_core_subsystem_schedule h u g = g"
      "awaiting_sessions_sum (subsystems g u) = 0 \<or> mali_core_subsystem_get_waiting_session u g = None"
  | (queued) s where "mali_core_subsystem_get_waiting_session u g = Some s"
      "find (\<lambda>c. hw_mmu_activate h c s g) (renderunit_idle (subsystems g u)) = None"
      "mali_core_subsystem_schedule h u g = post h EVENT_JOB_QUEUED
         (if subsys_core_type (subsystems g u) \<in> {MALI_GP2, MALI_400_GP} then CORE_GP else CORE_PP_ALL) g"
  | (started) s j c where "mali_core_subsystem_get_waiting_session u g = Some s"
      "find (\<lambda>c. hw_mmu_activate h c s g) (renderunit_idle (subsystems g u)) = Some c"
      "job_waiting_to_run (sessions g s) = Some j" "job_session (jobs g j) = s" "session_subsystem (sessions g s) = u"
      "registered g c" "core_subsystem (rcores g c) = u" "core_state (rcores g c) = CORE_IDLE"
      "c \<in> set (renderunit_idle (subsystems g u))" "\<not> pend_power_down (rcores g c)"
      "mali_core_subsystem_schedule h u g =
         mali_core_job_start_on_core h j c (post h EVENT_JOB_SCHEDULED (pmm_id (rcores g c)) (unwait s g))"
proof (cases "awaiting_sessions_sum (subsystems g u) = 0 \<or> mali_core_subsystem_get_waiting_session u g = None")
  case True
  then have "mali_core_subsystem_schedule h u g = g" by (auto simp: mali_core_subsystem_schedule_def)
  from this True show thesis by (rule nothing)
next
  case False
  then obtain s where s: "awaiting_sessions_sum (subsystems g u) \<noteq> 0"
    "mali_core_subsystem_get_waiting_session u g = Some s" by auto
  obtain i where i: "i < PRIORITY_LEVELS" "s \<in> set (awaiting_sessions (subsystems g u) i)"
    by (rule get_waiting_Some[OF s(2)])
  obtain j where j: "job_waiting_to_run (sessions g s) = Some j" "session_subsystem (sessions g s) = u"
    "job_session (jobs g j) = s" by (rule ok_in_awaiting[OF ok i])
  show thesis
  proof (cases "find (\<lambda>c. hw_mmu_activate h c s g) (renderunit_idle (subsystems g u))")
    case None
    then show thesis using s by (intro queued) (simp_all add: mali_core_subsystem_schedule_def)
  next
    case (Some c)
    then have m: "c \<in> set (renderunit_idle (subsystems g u))" by (metis find_Some_iff nth_mem)
    note c = ok_in_idle[OF ok m]
    have "core_fields g c" using ok c(1) by (simp add: rc_ok_def core_ok_def)
    then have p: "\<not> pend_power_down (rcores g c)" using c(3) by (simp add: core_fields_def)
    show thesis
      by (rule started[OF s(2) Some j(1,3,2) c(1-3) m p])
        (use s Some j in \<open>simp add: mali_core_subsystem_schedule_def release_unwait\<close>)
  qed
qed

text \<open>Scheduling concerns idle cores only, and posts no internal message.\<close>

lemma schedule_frame:
  assumes ok: "rc_ok L A {} H g"
  shows "core_state (rcores g c) \<noteq> CORE_IDLE \<Longrightarrow> rcores (mali_core_subsystem_schedule h u g) c = rcores g c"
    and "iqueue (mali_core_subsystem_schedule h u g) = iqueue g"
    and "set (returned g) \<subseteq> set (returned (mali_core_subsystem_schedule h u g))"
proof -
  have "(core_state (rcores g c) \<noteq> CORE_IDLE \<longrightarrow> rcores (mali_core_subsystem_schedule h u g) c = rcores g c) \<and>
      iqueue (mali_core_subsystem_schedule h u g) = iqueue g \<and>
      set (returned g) \<subseteq> set (returned (mali_core_subsystem_schedule h u g))"
    using ok
  proof (cases rule: schedule_cases[where h = h and u = u])
    case (started s j d)
    let ?g = "post h EVENT_JOB_SCHEDULED (pmm_id (rcores g d)) (unwait s g)"
    have p: "\<not> pend_power_down (rcores ?g d)" using started by simp
    show ?thesis
      using start_result(1)[OF p, of c h j] start_result(2)[OF p, of h j] start_result(7)[OF p, of h j]
        started(8,11) by auto
  qed auto
  then show "core_state (rcores g c) \<noteq> CORE_IDLE \<Longrightarrow> rcores (mali_core_subsystem_schedule h u g) c = rcores g c"
    "iqueue (mali_core_subsystem_schedule h u g) = iqueue g"
    "set (returned g) \<subseteq> set (returned (mali_core_subsystem_schedule h u g))" by auto
qed

subsection \<open>The end of a job\<close>

lemma free_core_result:
  assumes "\<not> in_detach_function (rcores g c)" "core_state (rcores g c) \<noteq> CORE_IDLE"
  shows "core_state (rcores (free_core h c g) c) = (if pend_power_down (rcores g c) then CORE_OFF else CORE_IDLE)"
    and "\<not> pend_power_down (rcores (free_core h c g) c)" "current_job (rcores (free_core h c g) c) = None"
    and "core_subsystem (rcores (free_core h c g) c) = core_subsystem (rcores g c)"
    and "d \<noteq> c \<Longrightarrow> rcores (free_core h c g) d = rcores g d"
    and "returned (free_core h c g) = returned g"
    and "\<forall>q. hw_msg_alloc h q \<Longrightarrow> iqueue (free_core h c g) = iqueue g @
      (if pend_power_down (rcores g c)
       then [\<lparr>msg_id = EVENT_INTERNAL_POWER_DOWN_ACK, msg_data = pmm_id (rcores g c), msg_ts = ticks g\<rparr>] else [])"
proof -
  have t: "ticks (mali_core_job_set_run_time h j q) = ticks q" "iqueue (mali_core_job_set_run_time h j q) = iqueue q" for j q
    by (simp_all add: mali_core_job_set_run_time_def Let_def)
  have m: "ticks (move_to_off c q) = ticks q" for q by (simp add: move_to_off_def)
  have a: "\<forall>q. hw_msg_alloc h q \<Longrightarrow> iqueue (malipmm_core_power_down_okay (hw_msg_alloc h) d q) =
      iqueue q @ [\<lparr>msg_id = EVENT_INTERNAL_POWER_DOWN_ACK, msg_data = d, msg_ts = ticks q\<rparr>]" for d and q :: gpu
    by (simp add: malipmm_core_power_down_okay_def mali_ukk_pmm_event_message_def schedulework_def)
  show "core_state (rcores (free_core h c g) c) = (if pend_power_down (rcores g c) then CORE_OFF else CORE_IDLE)"
    "\<not> pend_power_down (rcores (free_core h c g) c)" "current_job (rcores (free_core h c g) c) = None"
    "core_subsystem (rcores (free_core h c g) c) = core_subsystem (rcores g c)"
    "d \<noteq> c \<Longrightarrow> rcores (free_core h c g) d = rcores g d"
    "returned (free_core h c g) = returned g"
    "\<forall>q. hw_msg_alloc h q \<Longrightarrow> iqueue (free_core h c g) = iqueue g @
      (if pend_power_down (rcores g c)
       then [\<lparr>msg_id = EVENT_INTERNAL_POWER_DOWN_ACK, msg_data = pmm_id (rcores g c), msg_ts = ticks g\<rparr>] else [])"
    using assms
    by (simp_all add: free_core_def stop_core_def Let_def mali_core_subsystem_move_core_set_idle_def t m a
        split: option.split)
qed

lemma detach_result:
  assumes wf: "rc_wf L A g" and c: "registered g c" and j: "current_job (rcores g c) = Some j"
  shows "(j, e) \<in> set (returned (mali_core_renderunit_detach_job_from_core h c r e g))"
    and "core_state (rcores g d) \<noteq> CORE_IDLE \<Longrightarrow> d \<noteq> c \<Longrightarrow>
      rcores (mali_core_renderunit_detach_job_from_core h c r e g) d = rcores g d"
proof -
  have ok: "rc_ok L A {} {} g" and nd: "\<not> in_detach_function (rcores g c)" using wf by (simp_all add: rc_wf_def)
  have b: "core_state (rcores g c) \<noteq> CORE_IDLE"
    using ok_running_busy[OF ok _ c] j by (auto simp: busy_def)
  note f = free_core_result[OF nd b]
  note w = ok_free_job(1)[OF ok c j]
  show "(j, e) \<in> set (returned (mali_core_renderunit_detach_job_from_core h c r e g))"
    using j by (simp add: detach_free[where g = g, OF nd] Let_def)
  show "rcores (mali_core_renderunit_detach_job_from_core h c r e g) d = rcores g d"
    if "core_state (rcores g d) \<noteq> CORE_IDLE" "d \<noteq> c"
    using j that f(5)[OF that(2)] schedule_frame(1)[OF w]
    by (simp add: detach_free[where g = g, OF nd] Let_def)
qed

end
