(* ===== verification/Pmm_Handshake.thy ===== *)
theory Pmm_Handshake
  imports Rendercore_Power
begin

text \<open>
  What the power management module does for each event, and the handshake with the operating system.
  The lemmas are proved for any environment that keeps to the interface \<open>core_signals\<close>; the properties
  are about the environment made of the render core model.
\<close>

subsection \<open>What signalling the cores leaves alone\<close>

definition pmm_frame :: "'a pmm_scheme \<Rightarrow> 'a pmm_scheme \<Rightarrow> bool" where
  "pmm_frame p p' \<longleftrightarrow>
     status p' = status p \<and>
     policy p' = policy p \<and> os_data p' = os_data p \<and> is_dvfs_active p' = is_dvfs_active p \<and>
     fatal_power_err p' = fatal_power_err p \<and> calls p' = calls p \<and>
     map_option strip_timer (data_job_control p') = map_option strip_timer (data_job_control p) \<and>
     submask (cores_registered p') (cores_registered p) \<and>
     submask (cores_powered p') (cores_powered p) \<and>
     submask (cores_pend_up p') (cores_pend_up p)"

lemma frame_refl [simp]: "pmm_frame p p"
  by (simp add: pmm_frame_def)

lemma frame_trans: "pmm_frame p q \<Longrightarrow> pmm_frame q r \<Longrightarrow> pmm_frame p r"
  unfolding pmm_frame_def by (auto intro: submask_trans)

lemma rely_frame_ok: "pmm_rely p p' \<Longrightarrow> pmm_frame p p'"
  unfolding pmm_rely_def pmm_frame_def by (auto simp: submask_minus submask_or_left)

lemma frame_upd [simp]:
  "pmm_frame p (q\<lparr>cores_pend_down := m\<rparr>) = pmm_frame p q" "pmm_frame p (q\<lparr>cores_ack_down := m\<rparr>) = pmm_frame p q"
  "pmm_frame p (q\<lparr>cores_ack_up := m\<rparr>) = pmm_frame p q" "pmm_frame p (q\<lparr>cores_idle := m\<rparr>) = pmm_frame p q"
  "pmm_frame (p\<lparr>cores_pend_down := m\<rparr>) q = pmm_frame p q" "pmm_frame (p\<lparr>cores_ack_down := m\<rparr>) q = pmm_frame p q"
  by (simp_all add: pmm_frame_def)

text \<open>All the known cores, as a mask.\<close>

definition known_cores :: u32 where "known_cores = 0x3F"

lemma known_cores_list: "foldr (OR) cores_list 0 = known_cores"
  by (simp add: cores_list_def core_ids known_cores_def)

lemma foldr_or_init: "foldr (OR) xs a = foldr (OR) xs 0 OR a" for a :: u32
  by (induction xs) (simp_all add: or.assoc)

lemma foldr_or_rev: "foldr (OR) (rev cs) (0 :: u32) = foldr (OR) cs 0"
proof (induction cs)
  case (Cons c cs)
  then show ?case using foldr_or_init[of "rev cs" c] by (simp add: or.commute)
qed simp

text \<open>What the reset establishes before it purges the queues, and what other threads keep.\<close>

definition all_up :: "power_call list \<Rightarrow> 'a pmm_scheme \<Rightarrow> bool" where
  "all_up cs q \<longleftrightarrow>
     cores_powered q = cores_registered q \<and> cores_idle q = cores_registered q \<and>
     cores_pend_down q = 0 \<and> cores_pend_up q = 0 \<and> cores_ack_down q = 0 \<and> cores_ack_up q = 0 \<and>
     \<not> fatal_power_err q \<and> is_dvfs_active q = 0 \<and> calls q = cs"

text \<open>The answer that the reset gives the operating system for the request under way.\<close>

definition unblock_calls :: "mali_pmm_status \<Rightarrow> u32 \<Rightarrow> power_call list" where
  "unblock_calls st d =
     (if st = STATUS_OS_POWER_UP then [PowerUpDone d]
      else if st = STATUS_OS_POWER_DOWN then [PowerDownDone d] else [])"

context core_signals
begin

lemma frame_power_down_core: "pmm_frame p (snd sq) \<Longrightarrow> pmm_frame p (snd (power_down_core env cores im c sq))"
  using rely_frame_ok[OF sig_down_rely, of "snd sq\<lparr>cores_pend_down := cores_pend_down (snd sq) OR c\<rparr>" c im]
  by (cases sq) (auto simp: power_down_core_def Let_def split_beta elim: frame_trans)

lemma frame_power_down_fold:
  "pmm_frame p (snd sq) \<Longrightarrow> pmm_frame p (snd (fold (power_down_core env cores im) cs sq))"
  by (rule fold_invariant[where Q = "\<lambda>_. True" and P = "\<lambda>sq. pmm_frame p (snd sq)"])
    (simp_all add: frame_power_down_core)

lemma frame_to_power_down: "pmm_frame p (snd (pmm_cores_to_power_down env cores im p))"
  by (simp add: pmm_cores_to_power_down_def Let_def frame_power_down_fold)

lemma frame_cancel_core: "pmm_frame p (snd sq) \<Longrightarrow> pmm_frame p (snd (cancel_core env c sq))"
  using rely_frame_ok[OF sig_up_rely, of "snd sq" c True]
  by (cases sq) (auto simp: cancel_core_def split_beta elim: frame_trans)

lemma frame_cancel: "pmm_frame p (pmm_power_down_cancel env p)"
proof -
  have "pmm_frame p (snd sq) \<Longrightarrow> pmm_frame p (snd (fold (cancel_core env) cs sq))" for cs sq
    by (rule fold_invariant[where Q = "\<lambda>_. True" and P = "\<lambda>sq. pmm_frame p (snd sq)"])
      (simp_all add: frame_cancel_core)
  then show ?thesis by (simp add: pmm_power_down_cancel_def)
qed

text \<open>Cancelling leaves nothing pending.\<close>

lemma cancel_clears:
  "cores_pend_down (pmm_power_down_cancel env p) = 0 \<and> cores_ack_down (pmm_power_down_cancel env p) = 0"
proof -
  let ?P = "\<lambda>q. cores_pend_down q = 0 \<and> cores_ack_down q = 0"
  have rely: "pmm_rely q q' \<Longrightarrow> ?P q \<Longrightarrow> ?P q'" for q q'
    unfolding pmm_rely_def by auto
  have "?P (snd (cancel_core env c sq))" if "?P (snd sq)" for c sq
    using rely[OF sig_up_rely that] that by (cases sq) (simp add: cancel_core_def split_beta)
  then have "?P (snd (fold (cancel_core env) cs sq))" if "?P (snd sq)" for cs sq
    using that by (induction cs arbitrary: sq) auto
  then show ?thesis by (simp add: pmm_power_down_cancel_def)
qed

lemma pend_step:
  "submask (a AND cores AND m) d \<Longrightarrow> submask ((a AND NOT gone) AND cores AND (c OR m)) ((d OR c) AND NOT gone)"
  by (auto simp: mask_conv bits)

text \<open>After the loop every powered core of the given ones is pending power down.\<close>

lemma power_down_core_pends:
  assumes "s = cores_powered p AND cores" "submask (cores_powered p AND cores AND m) (cores_pend_down p)"
    and "power_down_core env cores im c (s, p) = (s', p')"
  shows "s' = cores_powered p' AND cores \<and>
         submask (cores_powered p' AND cores AND (c OR m)) (cores_pend_down p')"
proof (cases "c AND s = 0")
  case True
  then have "s' = s" "p' = p" using assms(3) by (simp_all add: power_down_core_def)
  then show ?thesis using assms(1,2) True by (auto simp: mask_conv bits)
next
  case False
  let ?q = "p\<lparr>cores_pend_down := cores_pend_down p OR c\<rparr>"
  obtain gone where g: "cores_powered (snd (sig_down env c im ?q)) = cores_powered p AND NOT gone"
    "cores_pend_down (snd (sig_down env c im ?q)) = (cores_pend_down p OR c) AND NOT gone"
    using sig_down_rely[of ?q c im] unfolding pmm_rely_def by auto
  have e: "s' = cores_powered (snd (sig_down env c im ?q)) AND cores"
    "cores_powered p' = cores_powered (snd (sig_down env c im ?q))"
    "cores_pend_down p' = cores_pend_down (snd (sig_down env c im ?q))"
    using assms(3) False by (auto simp: power_down_core_def Let_def split_beta)
  show ?thesis using pend_step[OF assms(2)] by (simp only: e g simp_thms)
qed

lemma power_down_fold_pends:
  assumes "s = cores_powered p AND cores" "submask (cores_powered p AND cores AND m) (cores_pend_down p)"
    and "fold (power_down_core env cores im) cs (s, p) = (s', p')"
  shows "s' = cores_powered p' AND cores \<and>
         submask (cores_powered p' AND cores AND (foldr (OR) cs m)) (cores_pend_down p')"
  using assms
proof (induction cs arbitrary: s p m)
  case (Cons c cs)
  obtain s1 p1 where 1: "power_down_core env cores im c (s, p) = (s1, p1)" by fastforce
  note step = power_down_core_pends[OF Cons.prems(1,2) 1]
  have swap: "foldr (OR) cs (c OR m) = c OR foldr (OR) cs m"
    by (induction cs) (simp_all add: or.left_commute)
  show ?case
    using Cons.IH[of s1 p1 "c OR m"] step Cons.prems(3) 1 swap by simp
qed simp

lemma to_power_down_pends:
  assumes "submask (cores_powered p) known_cores" "pmm_cores_to_power_down env cores im p = (s', p')"
  shows "s' = cores_powered p' AND cores \<and> submask (cores_powered p' AND cores) (cores_pend_down p')"
proof (cases "cores_powered p AND cores = 0")
  case True
  then show ?thesis using assms by (auto simp: pmm_cores_to_power_down_def Let_def)
next
  case False
  then have f: "fold (power_down_core env cores im) (rev cores_list) (cores_powered p AND cores, p) = (s', p')"
    using assms(2) by (simp add: pmm_cores_to_power_down_def Let_def)
  have "submask (cores_powered p') (cores_powered p)"
    using frame_power_down_fold[of p "(cores_powered p AND cores, p)" cores im "rev cores_list"] f
    by (simp add: pmm_frame_def)
  then have k: "submask (cores_powered p') known_cores" using assms(1) by (rule submask_trans)
  have "s' = cores_powered p' AND cores \<and>
      submask (cores_powered p' AND cores AND foldr (OR) (rev cores_list) 0) (cores_pend_down p')"
    by (rule power_down_fold_pends[OF refl _ f]) simp
  then show ?thesis using k
    by (simp only: foldr_or_rev known_cores_list) (auto simp: mask_conv bits)
qed

text \<open>Only cores pending power down are acknowledged by the loop.\<close>

lemma ack_step:
  "submask a d \<Longrightarrow> submask (a AND NOT gone OR (c AND (w AND NOT gone) AND cores)) ((d OR c) AND NOT gone)"
  by (auto simp: mask_conv bits)

lemma power_down_core_acks:
  assumes "submask (cores_ack_down (snd sq)) (cores_pend_down (snd sq))"
  shows "submask (cores_ack_down (snd (power_down_core env cores im c sq)))
           (cores_pend_down (snd (power_down_core env cores im c sq)))"
proof -
  obtain s p where sq: "sq = (s, p)" by fastforce
  let ?q = "p\<lparr>cores_pend_down := cores_pend_down p OR c\<rparr>"
  obtain gone where g: "cores_powered (snd (sig_down env c im ?q)) = cores_powered p AND NOT gone"
    "cores_pend_down (snd (sig_down env c im ?q)) = (cores_pend_down p OR c) AND NOT gone"
    "cores_ack_down (snd (sig_down env c im ?q)) = cores_ack_down p AND NOT gone"
    using sig_down_rely[of ?q c im] unfolding pmm_rely_def by auto
  have 1: "submask (cores_ack_down p) (cores_pend_down p)" using assms sq by simp
  have "submask (cores_ack_down p AND NOT gone) ((cores_pend_down p OR c) AND NOT gone)"
    using 1 by (auto simp: mask_conv bits)
  then show ?thesis using ack_step[OF 1] 1
    by (simp add: sq power_down_core_def Let_def split_beta g)
qed

lemma to_power_down_acks:
  assumes "submask (cores_ack_down p) (cores_pend_down p)"
  shows "submask (cores_ack_down (snd (pmm_cores_to_power_down env cores im p)))
           (cores_pend_down (snd (pmm_cores_to_power_down env cores im p)))"
proof -
  have "submask (cores_ack_down (snd (fold (power_down_core env cores im) cs sq)))
      (cores_pend_down (snd (fold (power_down_core env cores im) cs sq)))"
    if "submask (cores_ack_down (snd sq)) (cores_pend_down (snd sq))" for cs sq
    by (rule fold_invariant[where Q = "\<lambda>_. True" and
          P = "\<lambda>sq. submask (cores_ack_down (snd sq)) (cores_pend_down (snd sq))"])
      (use that power_down_core_acks in auto)
  then show ?thesis using assms by (simp add: pmm_cores_to_power_down_def Let_def)
qed

text \<open>The request of the operating system to power down, in the idle status.\<close>

lemma os_power_down_idle:
  assumes wf: "pmm_wf p" and known: "submask (cores_registered p) known_cores"
    and fatal: "\<not> fatal_power_err p"
    and q: "q = snd (pmm_cores_to_power_down env (cores_registered p) False p)"
    and p': "p' = job_control_os_power_down env (cores_registered p) d p"
  shows "submask (cores_powered q) (cores_registered p) \<and> submask (cores_powered q) (cores_pend_down q) \<and>
    (if cores_powered q = 0 then
       status p' = STATUS_OS_WAITING \<and> cores_powered p' = 0 \<and> \<not> fatal_power_err p' \<and> calls p' = calls p @ [PowerDownDone d]
     else if cores_pend_down q \<noteq> cores_ack_down q then
       status p' = STATUS_OS_POWER_DOWN \<and> os_data p' = d \<and> calls p' = calls p \<and> \<not> fatal_power_err p' \<and>
       cores_powered p' = cores_powered q \<and> cores_pend_down p' = cores_pend_down q \<and> cores_ack_down p' = cores_ack_down q
     else
       status p' = STATUS_OS_WAITING \<and> calls p' = calls p @ [PmuDown (cores_pend_down q), PowerDownDone d] \<and>
       (if pmu_down env (cores_pend_down q) q = ERR_OK
        then \<not> fatal_power_err p' \<and> cores_powered p' = 0 \<and> cores_pend_down p' = 0 \<and> cores_ack_down p' = 0
        else fatal_power_err p' \<and> cores_powered p' = cores_powered q \<and> cores_pend_down p' = cores_pend_down q))"
proof -
  obtain s where s: "pmm_cores_to_power_down env (cores_registered p) False p = (s, q)" by (simp add: q prod_eq_iff)
  have sub: "submask (cores_powered p) (cores_registered p)" using wf by (simp add: pmm_wf_def)
  have fr: "pmm_frame p q" using frame_to_power_down[of p "cores_registered p" False] s by simp
  then have qp: "submask (cores_powered q) (cores_registered p)" "calls q = calls p"
    "\<not> fatal_power_err q"
    using sub fatal by (auto simp: pmm_frame_def intro: submask_trans)
  have pd: "s = cores_powered q AND cores_registered p"
    "submask (cores_powered q AND cores_registered p) (cores_pend_down q)"
    using to_power_down_pends[OF submask_trans[OF sub known] s] by auto
  have all: "cores_powered q AND cores_registered p = cores_powered q"
    using qp(1) by (auto simp: mask_conv bits)
  have off: "cores_powered q AND NOT (cores_pend_down q) = 0"
    using pd(2) all by (auto simp: mask_conv bits)
  have "if cores_powered q = 0 then
       status p' = STATUS_OS_WAITING \<and> cores_powered p' = 0 \<and> \<not> fatal_power_err p' \<and> calls p' = calls p @ [PowerDownDone d]
     else if cores_pend_down q \<noteq> cores_ack_down q then
       status p' = STATUS_OS_POWER_DOWN \<and> os_data p' = d \<and> calls p' = calls p \<and> \<not> fatal_power_err p' \<and>
       cores_powered p' = cores_powered q \<and> cores_pend_down p' = cores_pend_down q \<and> cores_ack_down p' = cores_ack_down q
     else
       status p' = STATUS_OS_WAITING \<and> calls p' = calls p @ [PmuDown (cores_pend_down q), PowerDownDone d] \<and>
       (if pmu_down env (cores_pend_down q) q = ERR_OK
        then \<not> fatal_power_err p' \<and> cores_powered p' = 0 \<and> cores_pend_down p' = 0 \<and> cores_ack_down p' = 0
        else fatal_power_err p' \<and> cores_powered p' = cores_powered q \<and> cores_pend_down p' = cores_pend_down q)"
    using pd(1) all qp off
    by (auto simp: p' job_control_os_power_down_def s pmm_invoke_power_down_def pmm_power_down_okay_def Let_def
        platform_powerdown_def power_down_done_def pmm_save_os_event_data_def emit_def)
  then show ?thesis using qp(1) pd(2) all by simp
qed

text \<open>A timeout of the latency timer: all cores go down together, or the attempt is cancelled.\<close>

lemma timeout_all_or_nothing:
  assumes wf: "pmm_wf p" and known: "submask (cores_registered p) known_cores"
    and r: "job_control_timeout env (cores_powered p) start p = Done (ERR_OK, p')"
    and start: "cores_pend_down p = 0" "cores_ack_down p = 0" "\<not> fatal_power_err p"
  shows "status p' = status p \<and>
         (fatal_power_err p' \<or> cores_pend_down p' = 0 \<and> cores_ack_down p' = 0 \<and>
            (calls p' = calls p \<or> cores_powered p' = 0 \<and> (\<exists>m. calls p' = calls p @ [PmuDown m])))"
proof -
  obtain d where d: "data_job_control p = Some d" using r by (auto simp: job_control_timeout_def split: option.splits)
  show ?thesis
  proof (cases "job_control_timeout_valid p d start")
    case False
    then show ?thesis using r d start by (simp add: job_control_timeout_def)
  next
    case True
    obtain s q where q: "pmm_cores_to_power_down env (cores_powered p) True p = (s, q)" by fastforce
    have sub: "submask (cores_powered p) (cores_registered p)" using wf by (simp add: pmm_wf_def)
    have fr: "pmm_frame p q" using frame_to_power_down[of p "cores_powered p" True] q by simp
    have pd: "s = cores_powered q AND cores_powered p"
      "submask (cores_powered q AND cores_powered p) (cores_pend_down q)"
      using to_power_down_pends[OF submask_trans[OF sub known] q] by auto
    have all: "cores_powered q AND cores_powered p = cores_powered q"
      using fr by (auto simp: pmm_frame_def mask_conv bits)
    have good: "pmm_wf q"
      using good_cores_to_power_down[of "messages_excess p" p "cores_powered p" True] wf q
      by (simp add: pmm_good_def)
    show ?thesis
    proof (cases "s = 0")
      case True
      then have "cores_pend_down q = 0" using pd(1) all good by (simp add: pmm_wf_def)
      moreover from this have "cores_ack_down q = 0"
        using to_power_down_acks[of p "cores_powered p" True] start q by simp
      moreover have "p' = q"
        using r d True q \<open>job_control_timeout_valid p d start\<close> by (simp add: job_control_timeout_def)
      ultimately show ?thesis using fr by (simp add: pmm_frame_def)
    next
      case False
      show ?thesis
      proof (cases "pmm_power_down_okay q")
        case True
        have off: "cores_powered q AND NOT (cores_pend_down q) = 0"
          using pd(2) all by (auto simp: mask_conv bits)
        have "p' = snd (pmm_invoke_power_down env q)"
          using r d False True q \<open>job_control_timeout_valid p d start\<close>
          by (simp add: job_control_timeout_def pmm_invoke_power_down_def Let_def split_beta)
        then show ?thesis using True off fr
          by (auto simp: pmm_invoke_power_down_def Let_def platform_powerdown_def emit_def pmm_frame_def)
      next
        case nok: False
        then have "p' = pmm_power_down_cancel env q"
          using r d False q \<open>job_control_timeout_valid p d start\<close>
          by (simp add: job_control_timeout_def pmm_invoke_power_down_def)
        then show ?thesis using cancel_clears[of q] frame_trans[OF fr frame_cancel]
          by (simp add: pmm_frame_def)
      qed
    qed
  qed
qed

subsection \<open>The fatal reset\<close>

lemma rely_all_up: "pmm_rely q q' \<Longrightarrow> all_up cs q \<Longrightarrow> all_up cs q'"
  unfolding pmm_rely_def all_up_def by auto

lemma fatal_reset_power_up:
  "all_up (calls p @ (if cores_registered p = 0 then [] else [PmuUp (cores_registered p)]))
     (fatal_reset_power env p)"
proof -
  have step: "all_up cs q \<Longrightarrow> all_up cs (reset_core_power env c q)" for c q cs
    using rely_all_up[OF sig_up_rely] by (simp add: reset_core_power_def)
  have fold: "all_up cs (fold (reset_core_power env) xs q)" if "all_up cs q" for cs xs q
    by (rule fold_invariant[where Q = "\<lambda>_. True"]) (use that step in auto)
  show ?thesis
  proof (cases "cores_registered p = 0")
    case True
    then show ?thesis by (simp add: fatal_reset_power_def Let_def all_up_def)
  next
    case False
    show ?thesis using False
      by (auto simp: fatal_reset_power_def Let_def platform_powerup_def emit_def intro!: fold)
        (simp add: all_up_def)
  qed
qed

lemma fatal_reset_os_data:
  "os_data (fatal_reset_power env p) = os_data p"
proof -
  have step: "os_data (reset_core_power env c q) = os_data q" for c q
    using sig_up_rely[of q c False] by (simp add: reset_core_power_def pmm_rely_def)
  have "os_data (fold (reset_core_power env) xs q) = os_data q" for xs q
    by (induction xs arbitrary: q) (simp_all add: step)
  then show ?thesis by (simp add: fatal_reset_power_def Let_def platform_powerup_def emit_def)
qed

lemma unblock_all_up:
  "all_up cs q \<Longrightarrow> all_up (cs @ unblock_calls st (os_data q)) (fatal_reset_unblock st q)"
  by (auto simp: all_up_def unblock_calls_def fatal_reset_unblock_def pmm_retrieve_os_event_data_def
      power_up_done_def power_down_done_def emit_def)

lemma fatal_reset_result:
  assumes "pmm_fatal_reset env p = Done p'"
  shows "status p' = STATUS_IDLE \<and>
         all_up (calls p @ (if cores_registered p = 0 then [] else [PmuUp (cores_registered p)])
                   @ unblock_calls (status p) (os_data p)) p'"
proof -
  let ?cs = "calls p @ (if cores_registered p = 0 then [] else [PmuUp (cores_registered p)])
               @ unblock_calls (status p) (os_data p)"
  let ?q = "fatal_reset_unblock (status p) (fatal_reset_power env p)"
  obtain p1 p2 where p: "purge_iqueue env 0 ?q = Some p1" "purge_queue env 0 p1 = Some p2"
    "p' = pmm_update_system_state (p2\<lparr>status := STATUS_IDLE\<rparr>)"
    using assms by (auto simp: pmm_fatal_reset_def Let_def split: option.splits)
  have "all_up ?cs ?q"
    using unblock_all_up[OF fatal_reset_power_up, of p "status p"]
    by (simp add: fatal_reset_os_data)
  from purge_iqueue_inv[where P = "all_up ?cs", OF p(1) this rely_all_up[OF spin_rely]]
  have "all_up ?cs p1" by (auto simp: all_up_def)
  from purge_queue_inv[where P = "all_up ?cs", OF p(2) this rely_all_up[OF spin_rely]]
  have "all_up ?cs p2" by (auto simp: all_up_def)
  then show ?thesis by (simp add: p(3) pmm_update_system_state_def all_up_def)
qed

text \<open>With an empty internal queue and nobody posting to it, the first purge loop never ends.\<close>

lemma purge_iqueue_diverges:
  assumes "\<And>n q. iqueue q = [] \<Longrightarrow> iqueue (spin env n q) = []" "iqueue p = []"
  shows "purge_iqueue env n p = None"
proof (rule ccontr)
  assume "purge_iqueue env n p \<noteq> None"
  then obtain p' where "purge_iqueue env n p = Some p'" by auto
  from purge_iqueue_inv[where P = "\<lambda>q. iqueue q = []", OF this assms(2,1)] show False by auto
qed

subsection \<open>Powering up\<close>

lemma power_up_fold:
  "pmm_frame p (fold (power_up_core env) cs p) \<and>
   (\<exists>gone. cores_registered (fold (power_up_core env) cs p) = cores_registered p AND NOT gone \<and>
      cores_powered (fold (power_up_core env) cs p) = cores_powered p AND NOT gone \<and>
      cores_pend_up (fold (power_up_core env) cs p) = cores_pend_up p AND NOT gone)"
proof -
  have step: "pmm_rely q (power_up_core env c q)" for c q
    using sig_up_rely by (simp add: power_up_core_def)
  have "pmm_rely p (fold (power_up_core env) cs p)"
    by (induction cs arbitrary: p) (auto intro: rely_trans[OF step])
  moreover from this have "pmm_frame p (fold (power_up_core env) cs p)" by (rule rely_frame_ok)
  ultimately show ?thesis unfolding pmm_rely_def by blast
qed

text \<open>The acknowledgement of the power up of all pending cores completes it.\<close>

lemma power_up_acked:
  assumes pend: "cores_pend_up p = cores" "cores_ack_up p = 0" "cores_powered p OR cores = cores_registered p"
    and st: "status p = STATUS_OS_POWER_UP" and ev: "msg_id ev = EVENT_INTERNAL_POWER_UP_ACK"
    and r: "job_control_power_up env cores ev p = (e, p')"
  shows "e = ERR_OK \<and> status p' = STATUS_IDLE \<and> cores_powered p' = cores_registered p' \<and>
         submask (cores_registered p') (cores_registered p) \<and>
         calls p' = calls p @ [PowerUpDone (os_data p)] \<and>
         cores_pend_up p' = 0 \<and> fatal_power_err p' = fatal_power_err p \<and> policy p' = policy p \<and>
         map_option strip_timer (data_job_control p') = map_option strip_timer (data_job_control p)"
proof -
  let ?p = "pmm_cores_set_up_ack cores p"
  let ?q = "fold (power_up_core env) cores_list ?p"
  have ok: "pmm_power_up_okay ?p"
    by (simp add: pmm_power_up_okay_def pmm_cores_set_up_ack_def pend)
  have fr: "pmm_frame p ?q" using power_up_fold[of ?p cores_list] by (simp add: pmm_cores_set_up_ack_def pmm_frame_def)
  obtain gone where g: "cores_registered ?q = cores_registered p AND NOT gone"
    "cores_powered ?q = cores_powered p AND NOT gone" "cores_pend_up ?q = cores AND NOT gone"
    using power_up_fold[of ?p cores_list] pend by (auto simp: pmm_cores_set_up_ack_def)
  have all: "cores_powered ?q OR cores_pend_up ?q = cores_registered ?q"
    unfolding g using pend(3) by (auto simp: mask_conv bits)
  show ?thesis
    using r ok fr st all ev
    by (auto simp: job_control_power_up_def pmm_invoke_power_up_def Let_def pmm_frame_def
        pmm_retrieve_os_event_data_def power_up_done_def emit_def split: if_splits)
qed

end

end
