(* ===== verification/Pmm_Properties.thy ===== *)
theory Pmm_Properties
  imports Pmm_Handshake
begin

text \<open>
  The properties of the power management module together with the render cores: the environment is
  \<open>power_env e\<close> for an arbitrary \<open>e\<close>, so they hold whatever the PMU and the memory allocator answer
  and whatever other threads do while the power lock is dropped, unless a hypothesis says otherwise.
\<close>

subsection \<open>A concrete system for the witnesses\<close>

text \<open>A GP core (number 0) and a pixel processor (number 1), both idle and powered, no sessions.\<close>

definition demo_core :: "nat \<Rightarrow> u32 \<Rightarrow> renderunit" where
  "demo_core u p = \<lparr>core_subsystem = u, core_state = CORE_IDLE, error_recovery = False,
     in_detach_function = False, current_job = None, core_timer = None, hang_timer = None,
     core_mmu = None, pmm_id = p, pend_power_down = False, core_number = 0\<rparr>"

definition demo_subsystem :: "nat \<Rightarrow> core_subsystem" where
  "demo_subsystem c = \<lparr>mali_core_array = [c],
     subsys_core_type = (if c = 0 then MALI_400_GP else MALI_400_PP),
     renderunit_idle = [c], renderunit_off = [], awaiting_sessions = (\<lambda>_. []),
     awaiting_sessions_sum = 0, all_sessions = []\<rparr>"

definition demo_job_control :: pmm_policy_data_job_control where
  "demo_job_control = \<lparr>latency = \<lparr>timer_timeout = 50, timer_event_id = EVENT_TIMEOUT, armed = None,
     timer_set = False, timer_expired = False, timer_start = 0\<rparr>, core_active_start = 0, jc_timeout = 50\<rparr>"

definition demo_gpu :: gpu where
  "demo_gpu = \<lparr>status = STATUS_IDLE, policy = POLICY_JOB_CONTROL, check_policy = False,
     state = STATE_SYSTEM_ON, cores_registered = 5, cores_powered = 5, cores_idle = 5,
     cores_pend_down = 0, cores_pend_up = 0, cores_ack_down = 0, cores_ack_up = 0,
     queue = [], iqueue = [], os_data = 0, pmu_initialized = True, messages_queued = 0,
     waiting = 0, no_events = 0, missed = 0, fatal_power_err = False, is_dvfs_active = 0,
     data_job_control = Some demo_job_control, work_scheduled = False, ticks = 100, calls = [],
     rcores = (\<lambda>c. if c = 0 then demo_core 0 CORE_GP else demo_core 1 CORE_PP0),
     jobs = (\<lambda>_. \<lparr>job_session = 0, job_priority = 0, watchdog_msecs = 0, render_time_msecs = 0,
       start_time_jiffies = 0, watchdog_jiffies = 0, abort_id = 0\<rparr>),
     sessions = (\<lambda>_. \<lparr>session_subsystem = 0, renderunits_working = [], job_waiting_to_run = None\<rparr>),
     subsystems = (\<lambda>u. demo_subsystem u), returned = [], mmu_releases = []\<rparr>"

definition quiet_hw :: hw_env where
  "quiet_hw = \<lparr>hw_msg_alloc = (\<lambda>_. True), hw_start_job = (\<lambda>_ _ _. ERR_OK),
     hw_l2_invalidate = (\<lambda>_. ERR_OK), hw_mmu_activate = (\<lambda>_ _ _. True), hw_mstoticks = id,
     hw_tickstoms = id, mali_benchmark = False\<rparr>"

text \<open>Everything succeeds and no other thread interferes.\<close>

definition quiet_env :: gpu_env where
  "quiet_env = \<lparr>e_hw = quiet_hw, e_pmu_up = (\<lambda>_ _. ERR_OK), e_pmu_down = (\<lambda>_ _. ERR_OK),
     e_before = (\<lambda>_ _. []), e_after = (\<lambda>_ _. []), e_spin = (\<lambda>_ _. [])\<rparr>"

lemmas demo_defs = demo_gpu_def demo_job_control_def

lemma demo_wf [simp]: "pmm_wf demo_gpu"
  by (simp add: pmm_wf_def demo_defs)

subsection \<open>The invariant of the bottom half\<close>

text \<open>
  C5: whatever work the worker thread is woken for, and whatever messages it finds: powered cores
  stay registered, cores pending power down stay powered, cores pending power up stay registered and
  off; and the counter of queued messages moves with the queues, except that every fatal reset
  leaves it two too high.
\<close>

theorem bhandler_keeps_masks:
  assumes "pmm_wf g" "malipmm_irq_bhandler (power_env e) g = Done g'"
  shows "pmm_wf g' \<and>
    (messages_excess g' = messages_excess g \<or> messages_excess g' = messages_excess g + 2 \<or>
     messages_excess g' = messages_excess g + 4)"
  by (rule gpu_power.good_bhandler[OF assms])

theorem bhandler_keeps_masks_witness:
  "\<exists>g'. malipmm_irq_bhandler (power_env quiet_env) demo_gpu = Done g' \<and> pmm_wf g'"
proof -
  have "malipmm_irq_bhandler (power_env quiet_env) demo_gpu = Done demo_gpu"
    by (simp add: malipmm_irq_bhandler_def pmm_event_process_def demo_defs)
  from bhandler_keeps_masks[OF demo_wf this] show ?thesis
    using \<open>malipmm_irq_bhandler _ _ = _\<close> by blast
qed

subsection \<open>The handshake with the operating system\<close>

lemma process_idle:
  assumes "policy p = POLICY_JOB_CONTROL" "status p = STATUS_IDLE"
    "job_control_idle env (pmm_cores_from_event_data p ev) ev p = Done (ERR_OK, q)"
    "data_job_control q = Some d"
  shows "pmm_policy_process env ev p = Done (ERR_OK, pmm_update_system_state
           (q\<lparr>data_job_control := Some (d\<lparr>latency := job_control_timeout_setup q (latency d)\<rparr>)\<rparr>))"
  using assms
  by (simp add: pmm_policy_process_def pmm_policy_process_job_control_def job_control_status_def
      job_control_finish_def)

lemma update_system_state_simps [simp]:
  "status (pmm_update_system_state p) = status p" "calls (pmm_update_system_state p) = calls p"
  "cores_powered (pmm_update_system_state p) = cores_powered p"
  "cores_registered (pmm_update_system_state p) = cores_registered p"
  "cores_pend_down (pmm_update_system_state p) = cores_pend_down p"
  "cores_ack_down (pmm_update_system_state p) = cores_ack_down p"
  "cores_pend_up (pmm_update_system_state p) = cores_pend_up p"
  "cores_idle (pmm_update_system_state p) = cores_idle p"
  "os_data (pmm_update_system_state p) = os_data p"
  "fatal_power_err (pmm_update_system_state p) = fatal_power_err p"
  "data_job_control (pmm_update_system_state p) = data_job_control p"
  "is_dvfs_active (pmm_update_system_state p) = is_dvfs_active p"
  "policy (pmm_update_system_state p) = policy p"
  by (simp_all add: pmm_update_system_state_def)

lemma os_power_down_data:
  "map_option strip_timer (data_job_control (job_control_os_power_down (power_env e) cs d p)) =
     map_option strip_timer (data_job_control p)"
proof -
  obtain s q where q: "pmm_cores_to_power_down (power_env e) cs False p = (s, q)" by fastforce
  have "map_option strip_timer (data_job_control q) = map_option strip_timer (data_job_control p)"
    using gpu_power.frame_to_power_down[of p e cs False] q by (simp add: pmm_frame_def)
  then show ?thesis
    by (simp add: job_control_os_power_down_def q pmm_invoke_power_down_def Let_def
        platform_powerdown_def power_down_done_def emit_def pmm_save_os_event_data_def split_beta)
qed

text \<open>
  C6: the operating system's request to power down, met in the idle status with no fatal error pending,
  first signals every registered core; \<open>q\<close> is the state after that.  If no core is powered then, the
  request is answered with its own data at once.  If some core has not acknowledged, the request is
  kept, with its data, unanswered, and the masks stay.  Otherwise the PMU is asked to turn exactly
  the pending cores off, which are all that are powered or more, and the request is answered: if the PMU
  agrees no core is powered or pending any more and no error is recorded, and if it refuses a fatal
  error is recorded and the cores count as powered as before.
\<close>

theorem os_power_down_answered:
  fixes g :: gpu and e :: gpu_env
  defines "q \<equiv> snd (pmm_cores_to_power_down (power_env e) (cores_registered g) False g)"
  assumes "pmm_wf g" "submask (cores_registered g) known_cores" "\<not> fatal_power_err g"
    "policy g = POLICY_JOB_CONTROL" "status g = STATUS_IDLE" "data_job_control g \<noteq> None"
    "msg_id ev = EVENT_OS_POWER_DOWN"
  shows "\<exists>g'. pmm_policy_process (power_env e) ev g = Done (ERR_OK, g') \<and>
    submask (cores_powered q) (cores_pend_down q) \<and>
    (if cores_powered q = 0 then
       status g' = STATUS_OS_WAITING \<and> cores_powered g' = 0 \<and> \<not> fatal_power_err g' \<and>
       calls g' = calls g @ [PowerDownDone (msg_data ev)]
     else if cores_pend_down q \<noteq> cores_ack_down q then
       status g' = STATUS_OS_POWER_DOWN \<and> os_data g' = msg_data ev \<and> calls g' = calls g \<and> \<not> fatal_power_err g' \<and>
       cores_powered g' = cores_powered q \<and> cores_pend_down g' = cores_pend_down q \<and> cores_ack_down g' = cores_ack_down q
     else
       status g' = STATUS_OS_WAITING \<and>
       calls g' = calls g @ [PmuDown (cores_pend_down q), PowerDownDone (msg_data ev)] \<and>
       (if e_pmu_down e (cores_pend_down q) q = ERR_OK
        then \<not> fatal_power_err g' \<and> cores_powered g' = 0 \<and> cores_pend_down g' = 0 \<and> cores_ack_down g' = 0
        else fatal_power_err g' \<and> cores_powered g' = cores_powered q \<and> cores_pend_down g' = cores_pend_down q))"
proof -
  let ?q = "job_control_os_power_down (power_env e) (cores_registered g) (msg_data ev) g"
  have cs: "pmm_cores_from_event_data g ev = cores_registered g"
    using assms(8) by (simp add: pmm_cores_from_event_data_def)
  obtain d where d: "data_job_control ?q = Some d"
    using os_power_down_data[of e "cores_registered g" "msg_data ev" g] assms(7) by auto
  have "job_control_idle (power_env e) (pmm_cores_from_event_data g ev) ev g = Done (ERR_OK, ?q)"
    using assms(8) by (simp add: job_control_idle_def cs)
  note p = process_idle[OF assms(5,6) this d]
  have "pmu_down (power_env e) = e_pmu_down e" by (simp add: power_env_def)
  note r = gpu_power.os_power_down_idle[OF assms(2-4) q_def[THEN meta_eq_to_obj_eq] refl, of "msg_data ev", unfolded this]
  show ?thesis by (rule exI, rule conjI, rule p) (use r in simp)
qed

lemmas demo_down_defs = pmm_cores_to_power_down_def power_down_core_def cores_list_def core_ids demo_defs demo_core_def
  demo_subsystem_def power_env_def quiet_env_def quiet_hw_def in_window_def run_others_def
  mali_core_signal_power_down_def maligp_signal_power_down_def malipp_signal_power_down_def
  mali_core_subsystem_signal_power_down_def mali_core_renderunit_get_mali_core_nr_def SUBSYS_GP_def SUBSYS_PP_def
  mali_core_subsystem_move_core_set_off_def move_to_off_def unlink_core_def upd_core_def upd_subsys_def Let_def

text \<open>Both cores of the demonstration system are idle: they go off at once, and the PMU agrees.\<close>

theorem os_power_down_answered_witness:
  "\<exists>g'. pmm_policy_process (power_env quiet_env) \<lparr>msg_id = EVENT_OS_POWER_DOWN, msg_data = 7, msg_ts = 0\<rparr>
          demo_gpu = Done (ERR_OK, g') \<and> status g' = STATUS_OS_WAITING \<and> cores_powered g' = 0 \<and> \<not> fatal_power_err g'"
proof -
  let ?q = "snd (pmm_cores_to_power_down (power_env quiet_env) (cores_registered demo_gpu) False demo_gpu)"
  have "cores_pend_down ?q = cores_ack_down ?q"
    by (simp add: demo_down_defs)
  with os_power_down_answered[of demo_gpu "\<lparr>msg_id = EVENT_OS_POWER_DOWN, msg_data = 7, msg_ts = 0\<rparr>" quiet_env]
  show ?thesis by (auto simp: demo_defs pmm_wf_def submask_def known_cores_def quiet_env_def split: if_splits)
qed

text \<open>
  C16: while the operating system's power down is under way, an acknowledgement that leaves cores
  outstanding changes nothing but the record of acknowledgements; the last one makes the module
  power the pending cores down (and only them), answer with the saved data, and wait for the power
  up; if the PMU refuses, the error is recorded.
\<close>

theorem power_down_ack_completes:
  assumes "policy g = POLICY_JOB_CONTROL" "status g = STATUS_OS_POWER_DOWN" "data_job_control g \<noteq> None"
    "is_dvfs_active g \<noteq> 1" "msg_id ev = EVENT_INTERNAL_POWER_DOWN_ACK"
    "msg_data ev \<notin> {CORE_SYSTEM, CORE_PP_ALL}"
  shows "\<exists>g'. pmm_policy_process (power_env e) ev g = Done (ERR_OK, g') \<and>
    (if cores_ack_down g OR msg_data ev = cores_pend_down g then
       status g' = STATUS_OS_WAITING \<and> os_data g' = 0 \<and>
       calls g' = calls g @ [PmuDown (cores_pend_down g), PowerDownDone (os_data g)] \<and>
       (if e_pmu_down e (cores_pend_down g) (g\<lparr>cores_ack_down := cores_pend_down g\<rparr>) = ERR_OK
        then cores_powered g' = cores_powered g AND NOT (cores_pend_down g) \<and>
             cores_idle g' = cores_idle g AND NOT (cores_pend_down g) \<and>
             cores_pend_down g' = 0 \<and> cores_ack_down g' = 0
        else fatal_power_err g' \<and> cores_powered g' = cores_powered g)
     else
       status g' = STATUS_OS_POWER_DOWN \<and> os_data g' = os_data g \<and> calls g' = calls g \<and>
       cores_ack_down g' = cores_ack_down g OR msg_data ev \<and>
       cores_pend_down g' = cores_pend_down g \<and> cores_powered g' = cores_powered g)"
proof -
  have cs: "pmm_cores_from_event_data g ev = msg_data ev"
    using assms(5,6) by (simp add: pmm_cores_from_event_data_def)
  obtain d where d: "data_job_control g = Some d" using assms(3) by auto
  show ?thesis
    using assms(1,2,4,5) d
    by (auto simp: pmm_policy_process_def pmm_policy_process_job_control_def job_control_status_def
        cs job_control_power_down_def Let_def pmm_cores_set_down_ack_def pmm_invoke_power_down_def
        pmm_power_down_okay_def platform_powerdown_def emit_def pmm_retrieve_os_event_data_def
        power_down_done_def job_control_finish_def power_env_def)
qed

theorem power_down_ack_completes_witness:
  "\<exists>g'. pmm_policy_process (power_env quiet_env)
          \<lparr>msg_id = EVENT_INTERNAL_POWER_DOWN_ACK, msg_data = CORE_GP, msg_ts = 0\<rparr>
          (demo_gpu\<lparr>status := STATUS_OS_POWER_DOWN, os_data := 7, cores_pend_down := 5, cores_ack_down := 4\<rparr>) =
          Done (ERR_OK, g') \<and> status g' = STATUS_OS_WAITING \<and> cores_powered g' = 0"
  using power_down_ack_completes[of
      "demo_gpu\<lparr>status := STATUS_OS_POWER_DOWN, os_data := 7, cores_pend_down := 5, cores_ack_down := 4\<rparr>"
      "\<lparr>msg_id = EVENT_INTERNAL_POWER_DOWN_ACK, msg_data = CORE_GP, msg_ts = 0\<rparr>" quiet_env]
  by (auto simp: demo_defs core_ids quiet_env_def)

text \<open>One run of the bottom half that finds exactly one message.\<close>

lemma bhandler_one_message:
  assumes "status g \<noteq> STATUS_OFF" "missed g = 0" "\<not> check_policy g"
    "pmm_next_message g = Process ev g0" "messages_queued g = 1"
    "pmm_policy_process env ev (g0\<lparr>messages_queued := messages_queued g0 - 1\<rparr>) = Done (err, g')"
    "\<not> fatal_power_err g'"
  shows "malipmm_irq_bhandler env g =
           Done (if status g' = STATUS_IDLE \<and> waiting g' > 0 then schedulework g' else g')"
  using assms by (simp add: malipmm_irq_bhandler_def pmm_event_process_def schedulework_def numeral_nat)

lemma os_waiting_power_up:
  fixes g :: gpu
  assumes "policy g = POLICY_JOB_CONTROL" "status g = STATUS_OS_WAITING" "data_job_control g = Some d"
    and ev: "msg_id ev = EVENT_OS_POWER_UP"
    and off: "NOT (cores_powered g) AND cores_registered g \<noteq> 0" "cores_ack_up g = 0"
    and ok: "\<forall>m q. e_pmu_up e m q = ERR_OK" "\<forall>q. hw_msg_alloc (e_hw e) q"
  defines "m \<equiv> NOT (cores_powered g) AND cores_registered g"
  shows "\<exists>g'. pmm_policy_process (power_env e) ev g = Done (ERR_OK, g') \<and>
    status g' = STATUS_OS_POWER_UP \<and> os_data g' = msg_data ev \<and> calls g' = calls g @ [PmuUp m] \<and>
    cores_pend_up g' = m \<and> cores_ack_up g' = 0 \<and> cores_powered g' = cores_powered g \<and>
    cores_registered g' = cores_registered g \<and> fatal_power_err g' = fatal_power_err g \<and>
    missed g' = missed g \<and> check_policy g' = check_policy g \<and> policy g' = policy g \<and>
    (\<exists>d'. data_job_control g' = Some d') \<and> queue g' = queue g \<and>
    iqueue g' = iqueue g @ [\<lparr>msg_id = EVENT_INTERNAL_POWER_UP_ACK, msg_data = m, msg_ts = ticks g\<rparr>] \<and>
    messages_queued g' = messages_queued g + 1"
  using assms
  by (simp add: pmm_policy_process_def pmm_policy_process_job_control_def job_control_status_def
      pmm_cores_from_event_data_def job_control_os_waiting_def pmm_cores_to_power_up_def Let_def
      pmm_invoke_power_up_def pmm_power_up_okay_def platform_powerup_def emit_def power_env_def
      mali_ukk_pmm_event_message_def schedulework_def pmm_save_os_event_data_def
      job_control_finish_def pmm_update_system_state_def)

lemma os_power_up_acked:
  fixes g :: gpu
  assumes "policy g = POLICY_JOB_CONTROL" "status g = STATUS_OS_POWER_UP" "data_job_control g = Some d"
    and m: "cores_pend_up g = m" "cores_ack_up g = 0" "cores_powered g OR m = cores_registered g" "m \<noteq> 0"
    and ev: "msg_id ev = EVENT_INTERNAL_POWER_UP_ACK" "msg_data ev = m"
  shows "\<exists>g'. pmm_policy_process (power_env e) ev g = Done (ERR_OK, g') \<and>
    status g' = STATUS_IDLE \<and> cores_powered g' = cores_registered g' \<and>
    submask (cores_registered g') (cores_registered g) \<and>
    calls g' = calls g @ [PowerUpDone (os_data g)] \<and> cores_pend_up g' = 0 \<and>
    fatal_power_err g' = fatal_power_err g"
proof -
  have "m AND cores_registered g = m" using m(3) by (auto simp: mask_conv bits)
  then have cs: "pmm_cores_from_event_data g ev = m"
    using ev m(4) by (cases "m = CORE_PP_ALL")
      (simp_all add: pmm_cores_from_event_data_def CORE_SYSTEM_def and.commute[of "cores_registered g"])
  obtain err q where q: "job_control_power_up (power_env e) m ev g = (err, q)" by fastforce
  note a = gpu_power.power_up_acked[OF m(1-3) assms(2) ev(1) q]
  obtain d' where "data_job_control q = Some d'" using a assms(3) by auto
  then show ?thesis
    using a q cs assms(1,2)
    by (simp add: pmm_policy_process_def pmm_policy_process_job_control_def job_control_status_def
        job_control_finish_def)
qed

text \<open>
  C15: waking up.  A power up request that finds the module waiting for it is served by two runs of
  the worker thread: the first asks the PMU for the missing cores and waits for the acknowledgement,
  the second puts the cores to work again and answers the operating system with the data of its
  request.  In the end every registered core is powered and the module is idle.
\<close>

theorem os_power_up_round_trip:
  fixes g :: gpu
  assumes "pmm_wf g" "policy g = POLICY_JOB_CONTROL" "status g = STATUS_OS_WAITING" "data_job_control g \<noteq> None"
    and "missed g = 0" "\<not> check_policy g" "\<not> fatal_power_err g" "cores_ack_up g = 0"
    and "iqueue g = []" "queue g = [ev]" "messages_queued g = 1" "msg_id ev = EVENT_OS_POWER_UP"
    and "cores_powered g \<noteq> cores_registered g"
    and "\<forall>m q. e_pmu_up e m q = ERR_OK" "\<forall>q. hw_msg_alloc (e_hw e) q"
  shows "\<exists>g1 g2. malipmm_irq_bhandler (power_env e) g = Done g1 \<and> status g1 = STATUS_OS_POWER_UP \<and>
    malipmm_irq_bhandler (power_env e) g1 = Done g2 \<and> status g2 = STATUS_IDLE \<and>
    cores_powered g2 = cores_registered g2 \<and> submask (cores_registered g2) (cores_registered g) \<and>
    calls g2 = calls g @ [PmuUp (NOT (cores_powered g) AND cores_registered g), PowerUpDone (msg_data ev)]"
proof -
  let ?m = "NOT (cores_powered g) AND cores_registered g"
  have sub: "submask (cores_powered g) (cores_registered g)" using assms(1) by (simp add: pmm_wf_def)
  have nz: "?m \<noteq> 0"
    using assms(13) submask_antisym[OF sub] by (auto simp: submask_def)
  have full: "cores_powered g OR ?m = cores_registered g" using sub by (auto simp: mask_conv bits dest: bit_u32_bound)
  define g0 where "g0 = (if waiting g > 0 then g\<lparr>waiting := waiting g - 1\<rparr> else g)\<lparr>queue := []\<rparr>"
  have n0: "pmm_next_message g = Process ev g0"
    using assms(3,9,10) by (simp add: pmm_next_message_def may_take_real_event_def Let_def g0_def)
  define gq where "gq = g0\<lparr>messages_queued := messages_queued g0 - 1\<rparr>"
  have gq: "policy gq = policy g" "status gq = status g" "data_job_control gq = data_job_control g"
    "cores_powered gq = cores_powered g" "cores_registered gq = cores_registered g"
    "cores_ack_up gq = 0" "calls gq = calls g" "fatal_power_err gq = fatal_power_err g"
    "missed gq = missed g" "check_policy gq = check_policy g" "queue gq = []" "iqueue gq = []"
    "messages_queued gq = 0"
    using assms(8,9,11) by (simp_all add: gq_def g0_def)
  obtain d where d: "data_job_control gq = Some d" using assms(4) gq by auto
  obtain g1 where g1: "pmm_policy_process (power_env e) ev gq = Done (ERR_OK, g1)"
    "status g1 = STATUS_OS_POWER_UP" "os_data g1 = msg_data ev" "calls g1 = calls g @ [PmuUp ?m]"
    "cores_pend_up g1 = ?m" "cores_ack_up g1 = 0" "cores_powered g1 = cores_powered g"
    "cores_registered g1 = cores_registered g" "\<not> fatal_power_err g1" "missed g1 = 0"
    "\<not> check_policy g1" "policy g1 = POLICY_JOB_CONTROL" "\<exists>d'. data_job_control g1 = Some d'"
    "queue g1 = []" "messages_queued g1 = 1"
    "iqueue g1 = [\<lparr>msg_id = EVENT_INTERNAL_POWER_UP_ACK, msg_data = ?m, msg_ts = ticks gq\<rparr>]"
    using os_waiting_power_up[of gq d ev e] d gq assms(2,3,5-7,12,14,15) nz by auto
  have b1: "malipmm_irq_bhandler (power_env e) g = Done g1"
    using bhandler_one_message[OF _ assms(5,6) n0 assms(11) g1(1)[unfolded gq_def] g1(9)] assms(3) g1(2)
    by simp
  define ack :: mali_pmm_message
    where "ack = \<lparr>msg_id = EVENT_INTERNAL_POWER_UP_ACK, msg_data = ?m, msg_ts = ticks gq\<rparr>"
  define gr where "gr = g1\<lparr>iqueue := [], messages_queued := messages_queued g1 - 1\<rparr>"
  have n1: "pmm_next_message g1 = Process ack (g1\<lparr>iqueue := []\<rparr>)"
    by (simp add: pmm_next_message_def g1(16) ack_def)
  obtain d' where d': "data_job_control g1 = Some d'" using g1(13) by auto
  have "policy gr = POLICY_JOB_CONTROL" "status gr = STATUS_OS_POWER_UP" "data_job_control gr = Some d'"
    "cores_pend_up gr = ?m" "cores_ack_up gr = 0" "cores_powered gr OR ?m = cores_registered gr"
    using g1 d' full by (simp_all add: gr_def)
  from os_power_up_acked[OF this nz, of ack e]
  obtain g2 where g2: "pmm_policy_process (power_env e) ack gr = Done (ERR_OK, g2)"
    "status g2 = STATUS_IDLE" "cores_powered g2 = cores_registered g2"
    "submask (cores_registered g2) (cores_registered gr)"
    "calls g2 = calls gr @ [PowerUpDone (os_data gr)]" "fatal_power_err g2 = fatal_power_err gr"
    by (auto simp: ack_def)
  have "\<not> fatal_power_err g2" using g2(6) g1(9) by (simp add: gr_def)
  moreover have "pmm_policy_process (power_env e) ack
      ((g1\<lparr>iqueue := []\<rparr>)\<lparr>messages_queued := messages_queued (g1\<lparr>iqueue := []\<rparr>) - 1\<rparr>) = Done (ERR_OK, g2)"
    using g2(1) by (simp add: gr_def)
  ultimately have "malipmm_irq_bhandler (power_env e) g1 =
      Done (if status g2 = STATUS_IDLE \<and> waiting g2 > 0 then schedulework g2 else g2)"
    using bhandler_one_message[OF _ g1(10,11) n1 g1(15)] g1(2) by simp
  then show ?thesis
    using b1 g1(2-4,8) g2(2-5)
    by (intro exI[of _ g1] exI[of _ "if status g2 = STATUS_IDLE \<and> waiting g2 > 0 then schedulework g2 else g2"])
      (auto simp: gr_def schedulework_def)
qed

theorem os_power_up_round_trip_witness:
  "\<exists>g2. bind_outcome (malipmm_irq_bhandler (power_env quiet_env)
            (demo_gpu\<lparr>status := STATUS_OS_WAITING, cores_powered := 0, messages_queued := 1,
               queue := [\<lparr>msg_id = EVENT_OS_POWER_UP, msg_data = 7, msg_ts = 0\<rparr>]\<rparr>))
          (malipmm_irq_bhandler (power_env quiet_env)) = Done g2 \<and>
        status g2 = STATUS_IDLE \<and> calls g2 = [PmuUp 5, PowerUpDone 7]"
  using os_power_up_round_trip[of "demo_gpu\<lparr>status := STATUS_OS_WAITING, cores_powered := 0,
      messages_queued := 1, queue := [\<lparr>msg_id = EVENT_OS_POWER_UP, msg_data = 7, msg_ts = 0\<rparr>]\<rparr>"
      "\<lparr>msg_id = EVENT_OS_POWER_UP, msg_data = 7, msg_ts = 0\<rparr>" quiet_env]
  by (auto simp: demo_defs pmm_wf_def quiet_env_def quiet_hw_def)

subsection \<open>Inactivity\<close>

lemma timeout_data:
  assumes "job_control_timeout (power_env e) cs start p = Done (err, q)"
  shows "map_option strip_timer (data_job_control q) = map_option strip_timer (data_job_control p)"
proof -
  obtain s r where r: "pmm_cores_to_power_down (power_env e) cs True p = (s, r)" by fastforce
  have 1: "map_option strip_timer (data_job_control r) = map_option strip_timer (data_job_control p)"
    using gpu_power.frame_to_power_down[of p e cs True] r by (simp add: pmm_frame_def)
  have 2: "map_option strip_timer (data_job_control (pmm_power_down_cancel (power_env e) r)) =
      map_option strip_timer (data_job_control r)"
    using gpu_power.frame_cancel[of r e] by (simp add: pmm_frame_def)
  show ?thesis using assms 1 2
    by (auto simp: job_control_timeout_def r pmm_invoke_power_down_def Let_def platform_powerdown_def
        emit_def split_beta split: option.splits if_splits)
qed

text \<open>
  An inactivity timeout is all or nothing: the module stays idle, nothing is left pending, and
  either every core was powered down by one request to the PMU or the PMU was not asked at all.
\<close>

theorem inactivity_timeout_all_or_nothing:
  fixes g :: gpu
  assumes "pmm_wf g" "submask (cores_registered g) known_cores" "\<not> fatal_power_err g"
    "policy g = POLICY_JOB_CONTROL" "status g = STATUS_IDLE" "data_job_control g \<noteq> None"
    "cores_pend_down g = 0" "cores_ack_down g = 0" "msg_id ev = EVENT_TIMEOUT"
  shows "\<exists>g'. pmm_policy_process (power_env e) ev g = Done (ERR_OK, g') \<and> status g' = STATUS_IDLE \<and>
    (fatal_power_err g' \<or>
     cores_pend_down g' = 0 \<and> cores_ack_down g' = 0 \<and>
       (calls g' = calls g \<or> cores_powered g' = 0 \<and> (\<exists>m. calls g' = calls g @ [PmuDown m])))"
proof -
  have cs: "pmm_cores_from_event_data g ev = cores_powered g"
    using assms(9) by (simp add: pmm_cores_from_event_data_def)
  obtain q where q: "job_control_timeout (power_env e) (cores_powered g) (msg_data ev) g = Done (ERR_OK, q)"
    using assms(6) by (auto simp: job_control_timeout_def split: option.splits)
  obtain d where d: "data_job_control q = Some d" using timeout_data[OF q] assms(6) by auto
  have "job_control_idle (power_env e) (pmm_cores_from_event_data g ev) ev g = Done (ERR_OK, q)"
    using assms(9) q by (simp add: job_control_idle_def cs)
  from process_idle[OF assms(4,5) this d] show ?thesis
    using gpu_power.timeout_all_or_nothing[OF assms(1,2) q assms(7,8,3)] assms(5) by simp
qed

theorem inactivity_timeout_all_or_nothing_witness:
  "\<exists>g'. pmm_policy_process (power_env quiet_env) \<lparr>msg_id = EVENT_TIMEOUT, msg_data = 60, msg_ts = 0\<rparr>
          demo_gpu = Done (ERR_OK, g') \<and> status g' = STATUS_IDLE"
  using inactivity_timeout_all_or_nothing[of demo_gpu
      "\<lparr>msg_id = EVENT_TIMEOUT, msg_data = 60, msg_ts = 0\<rparr>" quiet_env]
  by (auto simp: demo_defs pmm_wf_def submask_def known_cores_def)

lemma time_after_add:
  assumes "0 < n" "n < 2 ^ 31"
  shows "time_after (t + of_nat n) t"
proof -
  have "t - (t + of_nat n) = (word_of_int (- int n) :: u32)" by simp
  then have "sint (t - (t + of_nat n)) = signed_take_bit 31 (- int n)"
    by (simp only: signed_of_int) simp
  also have "\<dots> = - int n" using assms by (simp add: signed_take_bit_int_eq_self)
  finally show ?thesis using assms(1) by (simp add: time_after_def)
qed

text \<open>
  A timeout whose timer was started before the last job was scheduled is stale: it changes no
  core mask and asks for nothing.  "Before" survives the wrap-around of the tick counter, up to
  \<open>2 ^ 31 - 1\<close> ticks.
\<close>

theorem stale_timeout_ignored:
  fixes g :: gpu
  assumes "policy g = POLICY_JOB_CONTROL" "status g = STATUS_IDLE" "data_job_control g = Some d"
    "msg_id ev = EVENT_TIMEOUT" "core_active_start d = msg_data ev + of_nat n" "0 < n" "n < 2 ^ 31"
  shows "\<exists>g'. pmm_policy_process (power_env e) ev g = Done (ERR_OK, g') \<and> status g' = STATUS_IDLE \<and>
    cores_powered g' = cores_powered g \<and> cores_idle g' = cores_idle g \<and>
    cores_pend_down g' = cores_pend_down g \<and> cores_ack_down g' = cores_ack_down g \<and> calls g' = calls g"
proof -
  have "\<not> job_control_timeout_valid g d (msg_data ev)"
    using time_after_add[OF assms(6,7), of "msg_data ev"] assms(5)
    by (simp add: job_control_timeout_valid_def pmm_policy_timer_valid_def)
  then have "job_control_idle (power_env e) (pmm_cores_from_event_data g ev) ev g = Done (ERR_OK, g)"
    using assms(3,4) by (simp add: job_control_idle_def job_control_timeout_def)
  from process_idle[OF assms(1,2) this assms(3)] show ?thesis using assms(2) by simp
qed

theorem stale_timeout_ignored_witness:
  "\<exists>g'. pmm_policy_process (power_env quiet_env) \<lparr>msg_id = EVENT_TIMEOUT, msg_data = - 10, msg_ts = 0\<rparr>
          demo_gpu = Done (ERR_OK, g') \<and> cores_powered g' = 5"
  using stale_timeout_ignored[of demo_gpu demo_job_control
      "\<lparr>msg_id = EVENT_TIMEOUT, msg_data = - 10, msg_ts = 0\<rparr>" 10 quiet_env]
  by (auto simp: demo_defs)

text \<open>
  After every message that the job control policy has processed without an error, with some
  core powered, the latency timer is set exactly when the module is idle and all powered cores are.
\<close>

theorem latency_timer_set_iff_idle:
  assumes "pmm_policy_process_job_control (power_env e) ev g = Done (ERR_OK, g')"
    "data_job_control g' = Some d" "timer_timeout (latency d) > 0" "cores_powered g' \<noteq> 0"
  shows "timer_set (latency d) \<longleftrightarrow> status g' = STATUS_IDLE \<and> cores_idle g' = cores_powered g'"
proof -
  obtain q where q: "job_control_finish q = Done (ERR_OK, g')"
    using assms(1)
    by (auto simp: pmm_policy_process_job_control_def elim!: bind_outcome.elims split: if_splits)
  then obtain d0 where d0: "data_job_control q = Some d0"
    "g' = pmm_update_system_state (q\<lparr>data_job_control :=
        Some (d0\<lparr>latency := job_control_timeout_setup q (latency d0)\<rparr>)\<rparr>)"
    by (auto simp: job_control_finish_def split: option.splits)
  have "d = d0\<lparr>latency := job_control_timeout_setup q (latency d0)\<rparr>" using d0(2) assms(2) by simp
  then show ?thesis
    using assms(3,4) d0(2)
    by (auto simp: job_control_timeout_setup_def pmm_policy_timer_start_def pmm_policy_timer_stop_def
        split: if_splits)
qed

theorem latency_timer_set_iff_idle_witness:
  "\<exists>g' d. pmm_policy_process_job_control (power_env quiet_env)
            \<lparr>msg_id = EVENT_JOB_FINISHED, msg_data = CORE_GP, msg_ts = 0\<rparr> demo_gpu = Done (ERR_OK, g') \<and>
          data_job_control g' = Some d \<and> timer_set (latency d)"
proof -
  obtain g' d where g': "pmm_policy_process_job_control (power_env quiet_env)
      \<lparr>msg_id = EVENT_JOB_FINISHED, msg_data = CORE_GP, msg_ts = 0\<rparr> demo_gpu = Done (ERR_OK, g')"
    "data_job_control g' = Some d" "timer_timeout (latency d) > 0" "cores_powered g' \<noteq> 0"
    "status g' = STATUS_IDLE" "cores_idle g' = cores_powered g'"
    by (simp add: pmm_policy_process_job_control_def job_control_status_def job_control_idle_def
        pmm_cores_from_event_data_def pmm_cores_set_idle_def job_control_finish_def demo_defs core_ids
        job_control_timeout_setup_def pmm_policy_timer_start_def)
  from latency_timer_set_iff_idle[OF g'(1-4)] show ?thesis using g' by blast
qed

text \<open>
  With an inactivity timeout of zero, a finished job was meant to turn all cores off at once,
  but the test that the code falls through to rejects every timeout of zero: nothing is ever
  powered down.
\<close>

theorem zero_timeout_never_powers_down:
  fixes g :: gpu
  assumes "policy g = POLICY_JOB_CONTROL" "status g = STATUS_IDLE" "data_job_control g = Some d"
    "jc_timeout d = 0" "timer_timeout (latency d) = 0" "msg_id ev \<in> {EVENT_JOB_FINISHED, EVENT_TIMEOUT}"
  shows "\<exists>g'. pmm_policy_process (power_env e) ev g = Done (ERR_OK, g') \<and> status g' = STATUS_IDLE \<and>
    cores_powered g' = cores_powered g \<and> cores_pend_down g' = cores_pend_down g \<and> calls g' = calls g"
proof -
  have nv: "\<not> job_control_timeout_valid q d (msg_data ev)" for q :: gpu
    using assms(5) by (simp add: job_control_timeout_valid_def)
  define q where "q = (if msg_id ev = EVENT_JOB_FINISHED
      then pmm_cores_set_idle (pmm_cores_from_event_data g ev) g else g)"
  have "job_control_idle (power_env e) (pmm_cores_from_event_data g ev) ev g = Done (ERR_OK, q)"
    using assms(3,4,6) nv
    by (auto simp: job_control_idle_def job_control_timeout_def q_def pmm_cores_set_idle_def)
  moreover have "data_job_control q = Some d" using assms(3) by (simp add: q_def pmm_cores_set_idle_def)
  ultimately show ?thesis
    using process_idle[OF assms(1,2)] assms(2) by (simp add: q_def pmm_cores_set_idle_def)
qed

theorem zero_timeout_never_powers_down_witness:
  "\<exists>g'. pmm_policy_process (power_env quiet_env) \<lparr>msg_id = EVENT_JOB_FINISHED, msg_data = 5, msg_ts = 0\<rparr>
          (demo_gpu\<lparr>data_job_control := Some (demo_job_control\<lparr>jc_timeout := 0,
             latency := (latency demo_job_control)\<lparr>timer_timeout := 0\<rparr>\<rparr>)\<rparr>) = Done (ERR_OK, g') \<and>
        cores_powered g' = 5"
  using zero_timeout_never_powers_down[of "demo_gpu\<lparr>data_job_control := Some (demo_job_control\<lparr>jc_timeout := 0,
      latency := (latency demo_job_control)\<lparr>timer_timeout := 0\<rparr>\<rparr>)\<rparr>" _
      "\<lparr>msg_id = EVENT_JOB_FINISHED, msg_data = 5, msg_ts = 0\<rparr>" quiet_env]
  by (auto simp: demo_defs)

end
