(* ===== verification/Pmm_Recovery.thy ===== *)
theory Pmm_Recovery
  imports Pmm_Properties
begin

text \<open>
  Error paths and the remaining transitions of the power management module: the fatal reset, the
  loss of an event, DVFS, the order of messages, and the registration of cores.
\<close>

subsection \<open>The fatal reset\<close>

lemma purge_iqueue_takes: "iqueue (spin env n p) = m # ms \<Longrightarrow> purge_iqueue env n p = Some ((spin env n p)\<lparr>iqueue := ms\<rparr>)"
  by (subst purge_iqueue.simps) (simp add: Let_def)

lemma purge_queue_takes: "queue (spin env n p) = m # ms \<Longrightarrow> purge_queue env n p = Some ((spin env n p)\<lparr>queue := ms\<rparr>)"
  by (subst purge_queue.simps) (simp add: Let_def)

text \<open>No internal message is there, and no core has a power down pending that could post one.\<close>

definition no_acks :: "gpu \<Rightarrow> bool" where
  "no_acks g \<longleftrightarrow> iqueue g = [] \<and> (\<forall>c. \<not> pend_power_down (rcores g c))"

named_theorems acks \<open>operations that post no acknowledgement\<close>

lemma no_acks_upd [simp]:
  "no_acks (upd_job j f2 g) = no_acks g" "no_acks (upd_session s f3 g) = no_acks g"
  "no_acks (upd_subsys u f4 g) = no_acks g" "no_acks (unlink_core c g) = no_acks g"
  "no_acks (unlink_awaiting u s g) = no_acks g" "no_acks (return_job_to_user j e g) = no_acks g"
  "no_acks (move_to_idle c g) = no_acks g" "no_acks (move_to_working c s g) = no_acks g"
  "no_acks (mmu_release c g) = no_acks g"
  by (simp_all add: no_acks_def mmu_release_def upd_job_def upd_session_def upd_subsys_def unlink_core_def
      unlink_awaiting_def return_job_to_user_def move_to_idle_def move_to_working_def)

lemma no_acks_core [acks]:
  "no_acks g \<Longrightarrow> \<not> pend_power_down (f (rcores g c)) \<Longrightarrow> no_acks (upd_core c f g)"
  by (simp add: no_acks_def upd_core_def)

lemma no_acksD [simp]: "no_acks g \<Longrightarrow> \<not> pend_power_down (rcores g c)"
  by (simp add: no_acks_def)

lemma no_acks_post [acks]: "no_acks g \<Longrightarrow> event_num ev \<le> 1000 \<Longrightarrow> no_acks (post h ev d g)"
  by (simp add: no_acks_def post_def mali_ukk_pmm_event_message_def schedulework_def Let_def)

lemma no_acks_set_idle [acks]: "no_acks g \<Longrightarrow> no_acks (mali_core_subsystem_move_core_set_idle h c g)"
  by (auto simp: mali_core_subsystem_move_core_set_idle_def Let_def upd_core_def intro!: acks)
    (simp_all add: no_acks_def)

lemma no_acks_working [acks]: "no_acks g \<Longrightarrow> no_acks (mali_core_subsystem_move_set_working c j g)"
  by (auto simp: mali_core_subsystem_move_set_working_def intro!: acks)

lemma no_acks_start [acks]: "no_acks g \<Longrightarrow> no_acks (mali_core_job_start_on_core h j c g)"
  using no_acks_working[of g c j]
  by (auto simp: mali_core_job_start_on_core_def Let_def intro!: acks)

lemma no_acks_release [simp]:
  "no_acks (snd (mali_core_subsystem_release_session_get_job u s g)) = no_acks g"
  by (simp add: mali_core_subsystem_release_session_get_job_def Let_def)

lemma no_acks_schedule [acks]: "no_acks g \<Longrightarrow> no_acks (mali_core_subsystem_schedule h u g)"
  using no_acks_release[of u _ g]
  by (auto simp: mali_core_subsystem_schedule_def intro!: acks split: option.splits prod.splits)
    (metis snd_conv no_acks_release)+

lemma no_acks_subsystem_up:
  "no_acks g \<Longrightarrow> no_acks (snd (mali_core_subsystem_signal_power_up h u n q g))"
  by (simp add: mali_core_subsystem_signal_power_up_def no_acks_core no_acks_schedule no_acks_set_idle
      split: option.split)

lemma no_acks_signal_up [acks]:
  "no_acks g \<Longrightarrow> no_acks (snd (mali_core_signal_power_up h c q g))"
  by (simp add: mali_core_signal_power_up_def maligp_signal_power_up_def malipp_signal_power_up_def
      no_acks_subsystem_up)

lemma no_acks_reset:
  assumes "no_acks g" "\<And>c q. e_before e c q = []" "\<And>c q. e_after e c q = []"
  shows "no_acks (fatal_reset_unblock st (fatal_reset_power (power_env e) g))"
proof -
  have step: "no_acks q \<Longrightarrow> no_acks (reset_core_power (power_env e) c q)" for c q
    by (simp add: reset_core_power_def power_env_def in_window_def assms run_others_def split_beta acks)
  have fold: "no_acks (fold (reset_core_power (power_env e)) xs q)" if "no_acks q" for xs q
    by (rule fold_invariant[where Q = "\<lambda>_. True"]) (use that step in auto)
  have "no_acks (fatal_reset_power (power_env e) g)"
    using assms(1) by (auto simp: fatal_reset_power_def Let_def platform_powerup_def emit_def intro!: fold)
      (simp_all add: no_acks_def)
  then show ?thesis
    by (simp add: fatal_reset_unblock_def pmm_retrieve_os_event_data_def power_up_done_def
        power_down_done_def emit_def no_acks_def Let_def)
qed

text \<open>
  C17: one event lost for want of memory stops the worker thread for good.  It starts a fatal reset;
  if no internal message happens to be queued and no core still owes an acknowledgement, the
  purge loop waits for a message that only an acknowledgement could bring, whatever the PMU and the
  hardware answer, as long as no other thread interferes.
\<close>

theorem missed_event_hangs:
  assumes "missed g > 0" "status g \<noteq> STATUS_OFF" "iqueue g = []" "\<forall>c. \<not> pend_power_down (rcores g c)"
    and "\<forall>c q. e_before e c q = []" "\<forall>c q. e_after e c q = []" "\<forall>n q. e_spin e n q = []"
  shows "malipmm_irq_bhandler (power_env e) g = Diverge"
proof -
  have "no_acks g" using assms(3,4) by (simp add: no_acks_def)
  from no_acks_reset[OF this, of e "status g"] assms(5,6)
  have "iqueue (fatal_reset_unblock (status g) (fatal_reset_power (power_env e) g)) = []"
    by (simp add: no_acks_def)
  then have "purge_iqueue (power_env e) 0 (fatal_reset_unblock (status g) (fatal_reset_power (power_env e) g)) = None"
    using assms(7) by (intro gpu_power.purge_iqueue_diverges) (simp_all add: power_env_def run_others_def)
  then show ?thesis using assms(1,2) by (simp add: malipmm_irq_bhandler_def pmm_fatal_reset_def Let_def)
qed

theorem missed_event_hangs_witness:
  "malipmm_irq_bhandler (power_env quiet_env)
     (mali_ukk_pmm_event_message (\<lambda>_. False) EVENT_JOB_FINISHED CORE_GP demo_gpu) = Diverge"
  using missed_event_hangs[of "mali_ukk_pmm_event_message (\<lambda>_. False) EVENT_JOB_FINISHED CORE_GP demo_gpu" quiet_env]
  by (simp add: mali_ukk_pmm_event_message_def schedulework_def demo_defs demo_core_def quiet_env_def)

subsection \<open>The order of messages\<close>

text \<open>
  While a change of the power state waits for its acknowledgements, and none has arrived, the
  worker thread defers the real events: it leaves the queues and the power state alone and only
  counts that it is wanted; and the acknowledgement that arrives is taken before any of them.
\<close>

theorem real_events_deferred:
  fixes g :: gpu
  assumes "status g \<in> {STATUS_OS_POWER_DOWN, STATUS_OS_POWER_UP, STATUS_POLICY_POWER_UP,
                        STATUS_POLICY_POWER_DOWN}"
    and "missed g = 0" "\<not> check_policy g" "\<not> fatal_power_err g" "messages_queued g \<noteq> 0"
  shows "(iqueue g = [] \<longrightarrow> malipmm_irq_bhandler (power_env e) g = Done (g\<lparr>waiting := waiting g + 1\<rparr>)) \<and>
    (\<forall>a ms. iqueue g = a # ms \<longrightarrow> pmm_next_message g = Process a (g\<lparr>iqueue := ms\<rparr>))"
proof -
  obtain n where n: "unat (messages_queued g) = Suc n"
    using assms(5) by (cases "unat (messages_queued g)") (auto simp: unat_eq_0)
  show ?thesis
    using assms(1-4)
    by (auto simp: malipmm_irq_bhandler_def pmm_event_process_def n pmm_next_message_def may_take_real_event_def)
qed

theorem real_events_deferred_witness:
  "malipmm_irq_bhandler (power_env quiet_env)
     (demo_gpu\<lparr>status := STATUS_OS_POWER_DOWN, messages_queued := 1, cores_pend_down := 5,
        queue := [\<lparr>msg_id = EVENT_OS_POWER_UP, msg_data = 1, msg_ts = 0\<rparr>]\<rparr>) =
   Done (demo_gpu\<lparr>status := STATUS_OS_POWER_DOWN, messages_queued := 1, cores_pend_down := 5,
        queue := [\<lparr>msg_id = EVENT_OS_POWER_UP, msg_data = 1, msg_ts = 0\<rparr>], waiting := 1\<rparr>)"
  using real_events_deferred[of "demo_gpu\<lparr>status := STATUS_OS_POWER_DOWN, messages_queued := 1, cores_pend_down := 5,
        queue := [\<lparr>msg_id = EVENT_OS_POWER_UP, msg_data = 1, msg_ts = 0\<rparr>]\<rparr>" quiet_env]
  by (simp add: demo_defs)

subsection \<open>Dynamic voltage and frequency scaling\<close>

text \<open>
  Resuming after a pause with cores powered cancels what was pending, makes the module idle and
  answers; with no core powered it asks for all cores and answers before they are up.
\<close>

theorem dvfs_resume:
  fixes g :: gpu
  assumes "policy g = POLICY_JOB_CONTROL" "status g = STATUS_DVFS_PAUSE" "data_job_control g \<noteq> None"
    "msg_id ev = EVENT_DVFS_RESUME" "cores_powered g \<noteq> 0"
  shows "\<exists>g'. pmm_policy_process (power_env e) ev g = Done (ERR_OK, g') \<and>
    status g' = STATUS_IDLE \<and> cores_pend_down g' = 0 \<and> cores_ack_down g' = 0 \<and>
    calls g' = calls g @ [DvfsDone 0] \<and> submask (cores_powered g') (cores_powered g)"
proof -
  let ?q = "pmm_power_down_cancel (power_env e) (g\<lparr>cores_ack_down := 0\<rparr>)"
  have fr: "pmm_frame (g\<lparr>cores_ack_down := 0\<rparr>) ?q" by (rule gpu_power.frame_cancel)
  obtain d where d: "data_job_control ?q = Some d" using fr assms(3) by (auto simp: pmm_frame_def)
  show ?thesis
    using assms(1,2,4,5) fr gpu_power.cancel_clears[of e "g\<lparr>cores_ack_down := 0\<rparr>"] d
    by (auto simp: pmm_policy_process_def pmm_policy_process_job_control_def job_control_status_def
        job_control_paused_def job_control_finish_def dvfs_operation_done_def emit_def pmm_frame_def)
qed

theorem dvfs_resume_witness:
  "\<exists>g'. pmm_policy_process (power_env quiet_env) \<lparr>msg_id = EVENT_DVFS_RESUME, msg_data = 0, msg_ts = 0\<rparr>
     (demo_gpu\<lparr>status := STATUS_DVFS_PAUSE, cores_pend_down := 5, cores_ack_down := 5\<rparr>) = Done (ERR_OK, g') \<and>
     status g' = STATUS_IDLE \<and> calls g' = [DvfsDone 0]"
  using dvfs_resume[of "demo_gpu\<lparr>status := STATUS_DVFS_PAUSE, cores_pend_down := 5, cores_ack_down := 5\<rparr>"
      "\<lparr>msg_id = EVENT_DVFS_RESUME, msg_data = 0, msg_ts = 0\<rparr>" quiet_env]
  by (auto simp: demo_defs)

text \<open>
  A power down request of the operating system that arrives during a DVFS pause is answered with
  0, not with the data of the request as every other one is.
\<close>

theorem dvfs_pause_power_down_answers_zero:
  fixes g :: gpu
  assumes "policy g = POLICY_JOB_CONTROL" "status g = STATUS_DVFS_PAUSE" "data_job_control g \<noteq> None"
    "msg_id ev = EVENT_OS_POWER_DOWN" "cores_powered g \<noteq> 0" "cores_pend_down g = cores_ack_down g"
  shows "\<exists>g'. pmm_policy_process (power_env e) ev g = Done (ERR_OK, g') \<and> status g' = STATUS_OS_WAITING \<and>
    calls g' = calls g @ [PmuDown (cores_pend_down g), PowerDownDone 0]"
  using assms
  by (auto simp: pmm_policy_process_def pmm_policy_process_job_control_def job_control_status_def
      job_control_paused_def job_control_finish_def pmm_invoke_power_down_def pmm_power_down_okay_def
      platform_powerdown_def power_down_done_def emit_def Let_def)

theorem dvfs_pause_power_down_answers_zero_witness:
  "\<exists>g'. pmm_policy_process (power_env quiet_env) \<lparr>msg_id = EVENT_OS_POWER_DOWN, msg_data = 7, msg_ts = 0\<rparr>
     (demo_gpu\<lparr>status := STATUS_DVFS_PAUSE, cores_pend_down := 5, cores_ack_down := 5\<rparr>) = Done (ERR_OK, g') \<and>
     calls g' = [PmuDown 5, PowerDownDone 0]"
  using dvfs_pause_power_down_answers_zero[of
      "demo_gpu\<lparr>status := STATUS_DVFS_PAUSE, cores_pend_down := 5, cores_ack_down := 5\<rparr>"
      "\<lparr>msg_id = EVENT_OS_POWER_DOWN, msg_data = 7, msg_ts = 0\<rparr>" quiet_env]
  by (auto simp: demo_defs)

subsection \<open>Registration of cores and creation\<close>

text \<open>
  Registering a core powers it up and adds it to the registered, powered and idle ones, or, if
  the PMU refuses, changes no mask; unregistering it afterwards gives the masks back, with the core
  gone from the pending ones too.
\<close>

theorem register_unregister:
  fixes g :: gpu
  assumes "pmm_wf g" "disjmask c (cores_registered g)" "submask (cores_idle g) (cores_registered g)"
    "malipmm_core_register (power_env e) c g = (err, g')"
  shows "pmm_wf g' \<and>
    (if err = ERR_OK then
       cores_registered g' = cores_registered g OR c \<and> cores_powered g' = cores_powered g OR c \<and>
       cores_idle g' = cores_idle g OR c \<and>
       cores_registered (malipmm_core_unregister c g') = cores_registered g \<and>
       cores_powered (malipmm_core_unregister c g') = cores_powered g \<and>
       cores_idle (malipmm_core_unregister c g') = cores_idle g \<and>
       cores_pend_down (malipmm_core_unregister c g') = cores_pend_down g
     else cores_registered g' = cores_registered g \<and> cores_powered g' = cores_powered g \<and>
       cores_idle g' = cores_idle g)"
proof -
  have sub: "submask (cores_powered g) (cores_registered g)" "submask (cores_pend_down g) (cores_powered g)"
    using assms(1) by (auto simp: pmm_wf_def)
  have gb: "(m OR c) AND NOT c = m" if "submask m (cores_registered g)" for m
    using that assms(2) by (auto simp: mask_conv bits dest: bit_u32_bound)
  have pend: "cores_pend_down g AND NOT c = cores_pend_down g"
    using sub assms(2) by (auto simp: mask_conv bits dest: bit_u32_bound)
  have wf: "pmm_wf (g\<lparr>cores_registered := cores_registered g OR c, cores_idle := cores_idle g OR c,
      cores_powered := cores_powered g OR c\<rparr>)"
    using assms(1,2) by (simp add: pmm_wf_def submask_or_left) (auto simp: mask_conv bits)
  show ?thesis
  proof (cases "e_pmu_up e c g = ERR_OK")
    case True
    then have "err = ERR_OK" and g': "g' = pmm_update_system_state (emit (PmuUp c) g
        \<lparr>cores_registered := cores_registered g OR c, cores_idle := cores_idle g OR c,
         cores_powered := cores_powered g OR c\<rparr>)"
      using assms(4) by (auto simp: malipmm_core_register_def platform_powerup_def emit_def power_env_def)
    then show ?thesis
      using wf gb[OF sub(1)] gb[OF assms(3)] gb[OF submask_refl] pend
      by (simp add: malipmm_core_unregister_def pmm_update_system_state_def emit_def pmm_wf_def)
  next
    case False
    then have "err \<noteq> ERR_OK" "g' = emit (PmuUp c) g"
      using assms(4) by (auto simp: malipmm_core_register_def platform_powerup_def power_env_def)
    then show ?thesis using assms(1) by (simp add: emit_def pmm_wf_def)
  qed
qed

theorem register_unregister_witness:
  "cores_powered (malipmm_core_unregister CORE_PP1 (snd (malipmm_core_register (power_env quiet_env) CORE_PP1 demo_gpu))) = 5"
proof -
  obtain g' where g': "malipmm_core_register (power_env quiet_env) CORE_PP1 demo_gpu = (ERR_OK, g')"
    by (simp add: malipmm_core_register_def platform_powerup_def power_env_def quiet_env_def)
  from register_unregister[OF demo_wf _ _ this] show ?thesis
    unfolding g' by (simp add: demo_defs disjmask_def submask_def core_ids)
qed

text \<open>
  Creation succeeds exactly when every resource can be had, and then gives a well-formed idle
  module that has no core; the policy's data comes with the completion of the load, so that before
  it a message of the job control policy would use a null pointer.
\<close>

theorem create_wf:
  "case malipmm_create r now of
     (err, None) \<Rightarrow> err \<noteq> ERR_OK
   | (err, Some p) \<Rightarrow> err = ERR_OK \<and> pmm_wf p \<and> status p = STATUS_IDLE \<and> cores_registered p = 0 \<and>
       messages_excess p = 0 \<and>
       pmm_policy_process env \<lparr>msg_id = EVENT_TIMEOUT, msg_data = d, msg_ts = t\<rparr> p = Corrupt \<and>
       (\<exists>q. malipmm_kernel_load_complete True True p = (ERR_OK, q) \<and> data_job_control q \<noteq> None \<and>
          (\<exists>q'. pmm_policy_process env \<lparr>msg_id = EVENT_TIMEOUT, msg_data = d, msg_ts = t\<rparr> q = Done (ERR_OK, q')))"
  by (simp add: malipmm_create_def pmm_wf_def messages_excess_def malipmm_kernel_load_complete_def
      pmm_policy_init_def pmm_policy_init_job_control_def pmm_policy_timer_init_def
      pmm_policy_process_def pmm_policy_process_job_control_def job_control_status_def job_control_idle_def
      job_control_timeout_def job_control_timeout_valid_def job_control_finish_def)

end
