(* ===== verification/Rendercore_Steps.thy ===== *)
theory Rendercore_Steps
  imports Rendercore_Frames Pmm_Recovery
begin

text \<open>
  The scheduler as a transition system: every entry point of mali\_kernel\_rendercore.c is a step, the
  invariant of \<open>Rendercore_Invariant\<close> holds in every reachable state, and the properties of the
  scheduler follow from it.
\<close>

subsection \<open>The remaining entry points\<close>

lemma set_idle_sessions [simp]:
  "job_waiting_to_run (sessions (mali_core_subsystem_move_core_set_idle h c g) s) = job_waiting_to_run (sessions g s)"
  "renderunits_working (sessions (mali_core_subsystem_move_core_set_idle h c g) s) =
     removeAll c (renderunits_working (sessions g s))"
  by (simp_all add: mali_core_subsystem_move_core_set_idle_def Let_def removeAll_id)

lemma free_core_sessions:
  "job_waiting_to_run (sessions (free_core h c g) s) = job_waiting_to_run (sessions g s)"
  "core_state (rcores g c) \<noteq> CORE_IDLE \<Longrightarrow>
     renderunits_working (sessions (free_core h c g) s) = removeAll c (renderunits_working (sessions g s))"
  by (simp_all add: free_core_def stop_core_def Let_def split: option.split)

text \<open>Scheduling does not put a core to work for a session that has no waiting job.\<close>

lemma start_working:
  assumes "job_session (jobs g j) \<noteq> s"
  shows "set (renderunits_working (sessions (mali_core_job_start_on_core h j c g) s))
           \<subseteq> set (renderunits_working (sessions g s))"
  using assms by (auto simp: mali_core_job_start_on_core_def Let_def mali_core_subsystem_move_set_working_def)

lemma schedule_working:
  assumes ok: "rc_ok L A {} H g" and s: "job_waiting_to_run (sessions g s) = None"
  shows "set (renderunits_working (sessions (mali_core_subsystem_schedule h u g) s))
           \<subseteq> set (renderunits_working (sessions g s))"
proof (cases "mali_core_subsystem_get_waiting_session u g")
  case None
  then show ?thesis by (simp add: mali_core_subsystem_schedule_def)
next
  case (Some t)
  obtain i where i: "i < PRIORITY_LEVELS" "t \<in> set (awaiting_sessions (subsystems g u) i)"
    by (rule get_waiting_Some[OF Some])
  obtain j where j: "job_waiting_to_run (sessions g t) = Some j" "session_subsystem (sessions g t) = u"
    "job_session (jobs g j) = t" by (rule ok_in_awaiting[OF ok i])
  have "t \<noteq> s" using j(1) s by auto
  have "set (renderunits_working (sessions (mali_core_job_start_on_core h j c
            (post h EVENT_JOB_SCHEDULED (pmm_id (rcores g c)) (unwait t g))) s))
          \<subseteq> set (renderunits_working (sessions g s))" for c
    using start_working[of "post h EVENT_JOB_SCHEDULED (pmm_id (rcores g c)) (unwait t g)" j s h c] j(3) \<open>t \<noteq> s\<close>
    by simp
  then show ?thesis
    by (simp add: mali_core_subsystem_schedule_def Some release_unwait[OF j(2)] j(1) split: option.split)
qed

text \<open>The list of all sessions of a subsystem is not part of the invariant.\<close>

lemma wf_all_sessions:
  assumes "rc_wf L A g"
  shows "rc_wf L A (upd_subsys v (\<lambda>x. x\<lparr>all_sessions := f x\<rparr>) g)"
proof -
  define q where "q = upd_subsys v (\<lambda>x. x\<lparr>all_sessions := f x\<rparr>) g"
  have q: "rcores q = rcores g" "jobs q = jobs g" "sessions q = sessions g" "returned q = returned g"
    "mali_core_array (subsystems q u) = mali_core_array (subsystems g u)"
    "renderunit_idle (subsystems q u) = renderunit_idle (subsystems g u)"
    "renderunit_off (subsystems q u) = renderunit_off (subsystems g u)"
    "awaiting_sessions (subsystems q u) = awaiting_sessions (subsystems g u)"
    "awaiting_sessions_sum (subsystems q u) = awaiting_sessions_sum (subsystems g u)" for u
    by (simp_all add: q_def)
  have "running_on {} q = running_on {} g" "registered q = registered g" "waiting_jobs q = waiting_jobs g"
    "subsys_ok q = subsys_ok g" "core_ok L q = core_ok L g" "session_ok q = session_ok g"
    by (simp_all add: running_on_def registered_def waiting_jobs_def subsys_ok_def awaiting_total_def
        core_ok_def core_lists_def core_fields_def works_for_def session_ok_def waiting_at_def fun_eq_iff q)
  then have "rc_wf L A q" using assms by (simp add: rc_wf_def rc_ok_def jobs_ok_def q)
  then show ?thesis by (simp only: q_def)
qed

text \<open>
  Closing a session stops the first of its cores that are at work.  The jobs of the others are left at
  work, and their cores go out of every list.
\<close>

definition left_at_work :: "nat \<Rightarrow> gpu \<Rightarrow> nat set" where
  "left_at_work s g = {j. \<exists>c \<in> set (tl (renderunits_working (sessions g s))). current_job (rcores g c) = Some j}"

definition close_waiting :: "nat \<Rightarrow> gpu \<Rightarrow> gpu" where
  "close_waiting s g = (case job_waiting_to_run (sessions g s) of None \<Rightarrow> g
     | Some j \<Rightarrow> unwait s (return_job_to_user j JOB_STATUS_END_SHUTDOWN g))"

definition close_first :: "hw_env \<Rightarrow> nat \<Rightarrow> gpu \<Rightarrow> gpu" where
  "close_first h s g = (case renderunits_working (sessions g s) of [] \<Rightarrow> g
     | c # _ \<Rightarrow> mali_core_renderunit_detach_job_from_core h c SUBSYSTEM_RESCHEDULE JOB_STATUS_END_SHUTDOWN g)"

lemma session_close_parts:
  "mali_core_session_close h s g =
     upd_subsys (session_subsystem (sessions g s)) (\<lambda>x. x\<lparr>all_sessions := removeAll s (all_sessions x)\<rparr>)
       (upd_session s (\<lambda>x. x\<lparr>renderunits_working := []\<rparr>) (close_first h s (close_waiting s g)))"
proof -
  let ?u = "session_subsystem (sessions g s)"
  have "upd_subsys ?u (\<lambda>x. x\<lparr>awaiting_sessions_sum := awaiting_sessions_sum x - 1\<rparr>)
      (unlink_awaiting ?u s (upd_session s (\<lambda>x. x\<lparr>job_waiting_to_run := None\<rparr>)
        (return_job_to_user j JOB_STATUS_END_SHUTDOWN g))) = unwait s (return_job_to_user j JOB_STATUS_END_SHUTDOWN g)" for j
    by (rule abort_unwait) simp
  then show ?thesis unfolding mali_core_session_close_def Let_def close_first_def close_waiting_def by (simp only:)
qed

lemma close_waiting_wf:
  assumes "rc_wf L A g"
  shows "rc_wf L A (close_waiting s g)"
  using assms wf_unwait[OF assms] by (auto simp: close_waiting_def return_unwait split: option.split)

lemma close_waiting_fields [simp]:
  "rcores (close_waiting s g) = rcores g" "jobs (close_waiting s g) = jobs g"
  "renderunits_working (sessions (close_waiting s g) t) = renderunits_working (sessions g t)"
  "mali_core_array (subsystems (close_waiting s g) u) = mali_core_array (subsystems g u)"
  "renderunit_idle (subsystems (close_waiting s g) u) = renderunit_idle (subsystems g u)"
  "renderunit_off (subsystems (close_waiting s g) u) = renderunit_off (subsystems g u)"
  "job_waiting_to_run (sessions (close_waiting s g) s) = None"
  by (simp_all add: close_waiting_def split: option.split) (simp_all add: unwait_def unlink_awaiting_def)

lemma wf_working_nodup:
  assumes "rc_wf L A g" "renderunits_working (sessions g s) = c # cs"
  shows "c \<notin> set cs"
proof -
  have "core_lists L g c" using assms(1) by (simp add: rc_wf_def rc_ok_def core_ok_def)
  then have "count_list (renderunits_working (sessions g s)) c \<le> 1" by (simp add: core_lists_def)
  then have "count_list cs c = 0" by (simp add: assms(2))
  then show ?thesis by (simp add: count_list_0_iff)
qed

text \<open>After the first core is stopped, the others are still in the session's list, at work on the same jobs.\<close>

lemma close_first_wf:
  assumes wf: "rc_wf L A g" and n: "job_waiting_to_run (sessions g s) = None"
  shows "rc_wf L A (close_first h s g)"
    and "set (renderunits_working (sessions (close_first h s g) s)) = set (tl (renderunits_working (sessions g s)))"
    and "c \<in> set (tl (renderunits_working (sessions g s))) \<Longrightarrow> rcores (close_first h s g) c = rcores g c"
proof -
  let ?q = "close_first h s g"
  have "rc_wf L A ?q \<and> set (renderunits_working (sessions ?q s)) = set (tl (renderunits_working (sessions g s))) \<and>
    (\<forall>c \<in> set (tl (renderunits_working (sessions g s))). rcores ?q c = rcores g c)"
  proof (cases "renderunits_working (sessions g s)")
    case Nil
    then show ?thesis using wf by (simp add: close_first_def)
  next
    case (Cons c cs)
    have q: "?q = mali_core_renderunit_detach_job_from_core h c SUBSYSTEM_RESCHEDULE JOB_STATUS_END_SHUTDOWN g"
      using Cons by (simp add: close_first_def)
    have c: "registered g c" "busy (core_state (rcores g c))" using wf_working_registered[OF wf, of c s] Cons by auto
    obtain j where j: "current_job (rcores g c) = Some j"
      using ok_running_busy[of L A "{}" "{}" g c] wf c by (auto simp: rc_wf_def)
    note d = wf_detach[OF wf c(1), of h SUBSYSTEM_RESCHEDULE JOB_STATUS_END_SHUTDOWN, folded q]
    have nd: "\<not> in_detach_function (rcores g c)" using wf by (simp add: rc_wf_def)
    have ok: "rc_ok L A {} {j} (free_core h c g)"
      using ok_free_job(1)[of L A "{}" g c j h] wf c j by (simp add: rc_wf_def)
    have ne: "c \<notin> set cs" by (rule wf_working_nodup[OF wf Cons])
    have "renderunits_working (sessions (free_core h c g) s) = cs"
      using free_core_sessions(2)[of g c h s] c(2) Cons ne by (simp add: busy_def removeAll_id)
    with schedule_working[OF ok, of s h] n
    have sub: "set (renderunits_working (sessions ?q s)) \<subseteq> set cs"
      by (simp add: q detach_free[where g = g, OF nd] j Let_def free_core_sessions(1))
    have same: "rcores ?q e = rcores g e \<and> e \<in> set (renderunits_working (sessions ?q s))" if "e \<in> set cs" for e
    proof -
      have e: "registered g e" "busy (core_state (rcores g e))" "works_for L g e s"
        using wf_working_registered[OF wf, of e s] Cons that by auto
      have r: "rcores ?q e = rcores g e"
        unfolding q by (rule detach_result(2)[OF wf c(1) j]) (use e(2) that ne in \<open>auto simp: busy_def\<close>)
      have "core_lists L ?q e" using d(1) by (simp add: rc_wf_def rc_ok_def core_ok_def)
      then have "e \<in> set (renderunits_working (sessions ?q s)) \<longleftrightarrow>
          registered ?q e \<and> busy (core_state (rcores ?q e)) \<and> works_for L ?q e s"
        by (intro count_list_pos) (simp add: core_lists_def)
      moreover have "works_for L ?q e s" using e(3) r d(2) by (auto simp: works_for_def rc_fixed_def)
      ultimately show ?thesis using r e fixed_registered[OF d(2)] by simp
    qed
    then show ?thesis using d(1) sub Cons by auto
  qed
  then show "rc_wf L A ?q" "set (renderunits_working (sessions ?q s)) = set (tl (renderunits_working (sessions g s)))"
    "c \<in> set (tl (renderunits_working (sessions g s))) \<Longrightarrow> rcores ?q c = rcores g c" by auto
qed

text \<open>Forgetting the working cores of a session.\<close>

lemma wf_forget:
  assumes wf: "rc_wf L A g"
    and J: "J = {j. \<exists>c \<in> set (renderunits_working (sessions g s)). current_job (rcores g c) = Some j}"
  shows "rc_wf (L \<union> J) A (upd_session s (\<lambda>x. x\<lparr>renderunits_working := []\<rparr>) g)"
proof -
  let ?q = "upd_session s (\<lambda>x. x\<lparr>renderunits_working := []\<rparr>) g"
  have sess: "job_waiting_to_run (sessions ?q t) = job_waiting_to_run (sessions g t)"
    "session_subsystem (sessions ?q t) = session_subsystem (sessions g t)" "rcores ?q = rcores g" "jobs ?q = jobs g"
    "subsystems ?q = subsystems g" "returned ?q = returned g" for t by simp_all
  have same: "registered ?q = registered g" "waiting_jobs ?q = waiting_jobs g" "running_on {} ?q = running_on {} g"
    "session_ok ?q = session_ok g" "subsys_ok ?q = subsys_ok g" "core_fields ?q = core_fields g"
    unfolding registered_def waiting_jobs_def running_on_def session_ok_def waiting_at_def subsys_ok_def
        core_fields_def fun_eq_iff sess by (rule refl | intro allI refl)+
  have J': "\<exists>c. running_on {} g c j \<and> job_session (jobs g j) = s" if "j \<in> J" for j
  proof -
    obtain c where c: "c \<in> set (renderunits_working (sessions g s))" "current_job (rcores g c) = Some j"
      using \<open>j \<in> J\<close> by (auto simp: J)
    then show ?thesis using wf_working_registered[OF wf c(1)] by (auto simp: running_on_def works_for_def)
  qed
  have pl: "places A {} (waiting_jobs g) (fst ` set (returned g)) (running_on {} g)" "L \<subseteq> A" "L \<inter> waiting_jobs g = {}"
    using wf by (simp_all add: rc_wf_def rc_ok_def jobs_ok_def)
  have inJ: "j \<in> J \<longleftrightarrow> job_session (jobs g j) = s \<and> j \<notin> L"
    if c: "registered g c" "current_job (rcores g c) = Some j" for c j
  proof -
    have o: "rc_ok L A {} {} g" using wf by (simp add: rc_wf_def)
    have b: "busy (core_state (rcores g c))" using ok_running_busy[OF o _ c(1)] c(2) by simp
    have "core_lists L g c" using o by (simp add: rc_ok_def core_ok_def)
    then have in_list: "c \<in> set (renderunits_working (sessions g s)) \<longleftrightarrow> job_session (jobs g j) = s \<and> j \<notin> L"
      using c b by (subst count_list_pos) (auto simp: core_lists_def works_for_def)
    have "j \<in> J \<longleftrightarrow> c \<in> set (renderunits_working (sessions g s))"
    proof
      assume "j \<in> J"
      then obtain d where d: "d \<in> set (renderunits_working (sessions g s))" "current_job (rcores g d) = Some j"
        by (auto simp: J)
      have "registered g d" using wf_working_registered(1)[OF wf d(1)] .
      then have "running_on {} g d j" "running_on {} g c j" using c d by (simp_all add: running_on_def)
      then have "d = c" using pl(1) by (simp add: places_def)
      then show "c \<in> set (renderunits_working (sessions g s))" using d(1) by simp
    qed (use c in \<open>auto simp: J\<close>)
    then show ?thesis using in_list by simp
  qed
  have lists: "core_lists (L \<union> J) ?q c" if "core_lists L g c" for c
  proof -
    have w: "registered g c \<and> works_for (L \<union> J) ?q c t \<longleftrightarrow> registered g c \<and> t \<noteq> s \<and> works_for L g c t" for t
      using inJ[of c] by (auto simp: works_for_def)
    have "count_list (renderunits_working (sessions ?q t)) c =
        of_bool (registered ?q c \<and> busy (core_state (rcores ?q c)) \<and> works_for (L \<union> J) ?q c t)" for t
      using that w[of t] by (cases "t = s") (auto simp: core_lists_def same)
    then show ?thesis using that by (simp add: core_lists_def same)
  qed
  have sub: "L \<union> J \<subseteq> A" "(L \<union> J) \<inter> waiting_jobs g = {}"
  proof -
    have "j \<in> A \<and> j \<notin> waiting_jobs g" if j: "j \<in> J" for j
    proof -
      obtain c where "running_on {} g c j" using J'[OF j] by blast
      then show ?thesis using pl(1) by (auto simp: places_def)
    qed
    then show "L \<union> J \<subseteq> A" "(L \<union> J) \<inter> waiting_jobs g = {}" using pl by blast+
  qed
  have o: "rc_ok L A {} {} g" and nd: "\<not> in_detach_function (rcores g c)" for c using wf by (simp_all add: rc_wf_def)
  have "jobs_ok (L \<union> J) A {} {} ?q"
    using o sub unfolding rc_ok_def jobs_ok_def same sess by simp
  moreover have "core_ok (L \<union> J) ?q c" for c
    using o lists[of c] unfolding rc_ok_def core_ok_def same by simp
  moreover have "session_ok ?q t" "subsys_ok ?q u" for t u
    using o unfolding rc_ok_def same by simp_all
  ultimately show ?thesis using nd unfolding rc_wf_def rc_ok_def sess by blast
qed

lemma wf_session_close:
  assumes wf: "rc_wf L A g"
  shows "rc_wf (L \<union> left_at_work s g) A (mali_core_session_close h s g)"
proof -
  let ?w = "close_waiting s g"
  have w: "rc_wf L A ?w" by (rule close_waiting_wf[OF wf])
  have "job_waiting_to_run (sessions ?w s) = None" by simp
  note f = close_first_wf[OF w this]
  have "left_at_work s g = {j. \<exists>c \<in> set (renderunits_working (sessions (close_first h s ?w) s)).
      current_job (rcores (close_first h s ?w) c) = Some j}"
    using f(2,3)[where h = h] by (auto simp: left_at_work_def)
  from wf_all_sessions[OF wf_forget[OF f(1) this]] show ?thesis by (simp add: session_close_parts)
qed

lemma close_registered:
  assumes "rc_wf L A g"
  shows "registered (mali_core_session_close h s g) c = registered g c"
proof -
  let ?w = "close_waiting s g"
  have "rc_fixed g ?w" by (simp add: close_waiting_def split: option.split)
  moreover have "rc_fixed ?w (close_first h s ?w)"
  proof (cases "renderunits_working (sessions ?w s)")
    case (Cons d ds)
    have "registered ?w d" using wf_working_registered(1)[OF close_waiting_wf[OF assms], of d s s] Cons by simp
    from wf_detach(2)[OF close_waiting_wf[OF assms] this] show ?thesis using Cons by (simp add: close_first_def)
  qed (simp add: close_first_def)
  ultimately have "rc_fixed g (close_first h s ?w)" by (rule fixed_trans)
  from fixed_registered[OF this, of c] show ?thesis by (auto simp: session_close_parts registered_def)
qed

lemma wf_signal_power_down:
  assumes wf: "rc_wf L A g"
  shows "rc_wf L A (snd (mali_core_subsystem_signal_power_down u n im g))"
proof (cases "mali_core_renderunit_get_mali_core_nr u n g")
  case None
  then show ?thesis using wf by (simp add: mali_core_subsystem_signal_power_down_def)
next
  case (Some c)
  then have m: "c \<in> set (mali_core_array (subsystems g u))"
    by (auto simp: mali_core_renderunit_get_mali_core_nr_def Let_def split: if_splits)
  then have c: "registered g c" using wf by (auto simp: rc_wf_def rc_ok_def subsys_ok_def registered_def)
  have "rc_wf L A (upd_core c (\<lambda>x. x\<lparr>pend_power_down := True\<rparr>) g)" if "core_state (rcores g c) \<noteq> CORE_IDLE"
    by (rule wf_upd_core[OF wf]) (use that in simp_all)
  moreover have "rc_wf L A (mali_core_subsystem_move_core_set_off c g)" if "core_state (rcores g c) = CORE_IDLE"
    by (rule wf_fixedI[where g = g and B = A])
      (use wf c that in \<open>simp_all add: rc_wf_def ok_set_off mali_core_subsystem_move_core_set_off_def
        fixed_upd_core ok_set_off[unfolded mali_core_subsystem_move_core_set_off_def]\<close>)
  ultimately show ?thesis using Some wf by (simp add: mali_core_subsystem_signal_power_down_def)
qed

lemma wf_signal_power_up:
  assumes wf: "rc_wf L A g"
  shows "rc_wf L A (snd (mali_core_subsystem_signal_power_up h u n q g))"
proof (cases "mali_core_renderunit_get_mali_core_nr u n g")
  case None
  then show ?thesis using wf by (simp add: mali_core_subsystem_signal_power_up_def)
next
  case (Some c)
  then have m: "c \<in> set (mali_core_array (subsystems g u))"
    by (auto simp: mali_core_renderunit_get_mali_core_nr_def Let_def split: if_splits)
  then have c: "registered g c" using wf by (auto simp: rc_wf_def rc_ok_def subsys_ok_def registered_def)
  have ok: "rc_ok L A {} {} g" using wf by (simp add: rc_wf_def)
  have "rc_wf L A (upd_core c (\<lambda>x. x\<lparr>pend_power_down := False\<rparr>) g)"
    by (rule wf_upd_core[OF wf]) simp_all
  moreover have "rc_wf L A (mali_core_subsystem_move_core_set_idle h c g)" if "core_state (rcores g c) = CORE_OFF"
  proof (rule wf_fixedI[OF ok_set_idle _ wf])
    have "current_job (rcores g c) = None"
      using ok_running_busy[OF ok _ c] that by (simp add: busy_def)
    from ok_take_none[OF ok c this] show "rc_ok L A {c} {} g" .
  qed (simp_all add: fixed_set_idle)
  ultimately show ?thesis using Some wf by (simp add: mali_core_subsystem_signal_power_up_def wf_schedule)
qed

lemma wf_stop_bus: "rc_wf L A g \<Longrightarrow> rc_wf L A (stop_bus_for_all_cores_on_mmu u mmu g)"
  unfolding stop_bus_for_all_cores_on_mmu_def
  by (rule fold_invariant[where Q = "\<lambda>_. True"]) (auto intro!: wf_upd_core)

lemma wf_reset_cores:
  assumes "rc_wf L A g"
  shows "rc_wf L A (reset_all_cores_on_mmu h u mmu g)"
proof -
  have "rc_wf L A (reset_all_cores_on_mmu h u mmu g) \<and> rc_fixed g (reset_all_cores_on_mmu h u mmu g)"
    unfolding reset_all_cores_on_mmu_def
  proof (rule fold_invariant[where Q = "\<lambda>c. registered g c" and P = "\<lambda>q. rc_wf L A q \<and> rc_fixed g q"])
    fix c assume "c \<in> set (mali_core_array (subsystems g u))"
    then show "registered g c" using assms by (auto simp: rc_wf_def rc_ok_def subsys_ok_def registered_def)
  next
    fix c q assume "registered g c" "rc_wf L A q \<and> rc_fixed g q"
    then show "rc_wf L A (if behind_mmu mmu c q \<and> core_state (rcores q c) \<noteq> CORE_IDLE
        then mali_core_renderunit_detach_job_from_core h c SUBSYSTEM_WAIT JOB_STATUS_END_SEG_FAULT q else q) \<and>
      rc_fixed g (if behind_mmu mmu c q \<and> core_state (rcores q c) \<noteq> CORE_IDLE
        then mali_core_renderunit_detach_job_from_core h c SUBSYSTEM_WAIT JOB_STATUS_END_SEG_FAULT q else q)"
      using wf_detach[of L A q c h SUBSYSTEM_WAIT JOB_STATUS_END_SEG_FAULT] fixed_registered[of g q c]
      by (auto intro: fixed_trans)
  qed (use assms in simp)
  then show ?thesis ..
qed

lemma wf_continue: "rc_wf L A g \<Longrightarrow> rc_wf L A (continue_job_handling h u g)"
proof -
  assume wf: "rc_wf L A g"
  have "rc_wf L A (fold (\<lambda>c. upd_core c (\<lambda>x. x\<lparr>error_recovery := False\<rparr>)) cs g)" for cs
    by (rule fold_invariant[where Q = "\<lambda>_. True"]) (use wf in \<open>auto intro!: wf_upd_core\<close>)
  moreover have "rc_wf L A q \<Longrightarrow> rc_wf L A ((mali_core_subsystem_schedule h u ^^ n) q)" for n q
    by (induction n) (simp_all add: wf_schedule)
  ultimately show ?thesis by (simp add: continue_job_handling_def Let_def)
qed

lemma wf_broadcast: "rc_wf L A g \<Longrightarrow> rc_wf L A (mali_core_subsystem_broadcast_notification h u msg mmu g)"
  by (simp add: mali_core_subsystem_broadcast_notification_def wf_stop_bus wf_reset_cores wf_continue
      split: mali_core_notification_message.split)

text \<open>A new core: idle, without a job, and in no subsystem yet.\<close>

definition fresh_core :: "gpu \<Rightarrow> nat \<Rightarrow> nat \<Rightarrow> bool" where
  "fresh_core g u c \<longleftrightarrow> core_subsystem (rcores g c) = u \<and> core_state (rcores g c) = CORE_IDLE \<and>
     current_job (rcores g c) = None \<and> core_timer (rcores g c) = None \<and> hang_timer (rcores g c) = None \<and>
     \<not> pend_power_down (rcores g c) \<and> \<not> in_detach_function (rcores g c) \<and>
     c \<notin> set (mali_core_array (subsystems g u))"

lemma wf_register:
  assumes wf: "rc_wf L A g" and c: "fresh_core g u c"
  shows "rc_wf L A (snd (mali_core_subsystem_register_renderunit fs irq ar u c g))"
proof -
  define n where "n = length (mali_core_array (subsystems g u))"
  define q where "q = upd_core c (\<lambda>x. x\<lparr>core_number := n\<rparr>) g"
  have wq: "rc_wf L A q" unfolding q_def by (rule wf_upd_core[OF wf]) simp_all
  have cq: "fresh_core q u c" using c by (simp add: q_def fresh_core_def)
  define r where "r = upd_subsys u (\<lambda>x. x\<lparr>mali_core_array := mali_core_array x @ [c],
      renderunit_idle := c # renderunit_idle x\<rparr>) q"
  have r: "rcores r = rcores q" "jobs r = jobs q" "sessions r = sessions q" "returned r = returned q"
    "mali_core_array (subsystems r v) = mali_core_array (subsystems q v) @ (if v = u then [c] else [])"
    "renderunit_idle (subsystems r v) = (if v = u then [c] else []) @ renderunit_idle (subsystems q v)"
    "renderunit_off (subsystems r v) = renderunit_off (subsystems q v)"
    "awaiting_sessions (subsystems r v) = awaiting_sessions (subsystems q v)"
    "awaiting_sessions_sum (subsystems r v) = awaiting_sessions_sum (subsystems q v)" for v
    by (simp_all add: r_def)
  have nr: "\<not> registered q c" using cq by (auto simp: fresh_core_def registered_def)
  have reg: "registered r d \<longleftrightarrow> d = c \<or> registered q d" for d
    using cq by (auto simp: registered_def r fresh_core_def)
  have "core_ok L q d" for d using wq by (simp add: rc_wf_def rc_ok_def)
  then have "core_ok L r d" for d
    using cq nr by (cases "d = c")
      (simp_all add: core_ok_def core_lists_def core_fields_def works_for_def r reg fresh_core_def busy_def)
  moreover have "running_on {} r = running_on {} q"
    using cq nr by (auto simp: running_on_def reg r fresh_core_def fun_eq_iff)
  moreover have "subsys_ok r v" for v
    using wq cq by (auto simp: rc_wf_def rc_ok_def subsys_ok_def awaiting_total_def r fresh_core_def)
  moreover have "session_ok r = session_ok q" "waiting_jobs r = waiting_jobs q"
    by (simp_all add: session_ok_def waiting_at_def waiting_jobs_def fun_eq_iff r)
  ultimately have "rc_wf L A r"
    using wq by (simp add: rc_wf_def rc_ok_def jobs_ok_def r)
  then show ?thesis
    using wf wq by (simp add: mali_core_subsystem_register_renderunit_def Let_def q_def r_def n_def)
qed

end
