(* ===== verification/Rendercore_Properties.thy ===== *)
theory Rendercore_Properties
  imports Rendercore_Steps
begin

text \<open>
  The transition system of the render core scheduler and its properties.  A state has the set of jobs
  left at work by the closing of their session, the set of jobs accepted so far, which only the
  properties use, and the state of the driver.
\<close>

subsection \<open>The transition system\<close>

text \<open>A driver that has just been loaded: no core, no session, no job.\<close>

definition rc_boot :: "gpu \<Rightarrow> bool" where
  "rc_boot g \<longleftrightarrow>
     (\<forall>u. mali_core_array (subsystems g u) = [] \<and> renderunit_idle (subsystems g u) = [] \<and>
          renderunit_off (subsystems g u) = [] \<and> (\<forall>i. awaiting_sessions (subsystems g u) i = []) \<and>
          awaiting_sessions_sum (subsystems g u) = 0) \<and>
     (\<forall>s. renderunits_working (sessions g s) = [] \<and> job_waiting_to_run (sessions g s) = None) \<and>
     (\<forall>c. \<not> in_detach_function (rcores g c)) \<and> returned g = []"

text \<open>
  The steps: registration of a core, sessions coming and going, a job being described and submitted,
  interrupts and timers, aborts, the MMU's recovery, the signals of the power management, and
  whatever else the driver does that does not concern the scheduler.  What the callers see to is in
  the premises: a core is registered once, a session begins in memory that no open session uses,
  a job is submitted once and with one of the three priorities, an interrupt is one of a registered
  core, and a timer fires only while it is set.  A session is closed at any time, and the set of
  the jobs left at work grows by those that this close does not stop.
\<close>

inductive core_step :: "hw_env \<Rightarrow> nat set \<times> nat set \<times> gpu \<Rightarrow> nat set \<times> nat set \<times> gpu \<Rightarrow> bool" for h where
  register: "fresh_core g u c \<Longrightarrow>
    core_step h (L, A, g) (L, A, snd (mali_core_subsystem_register_renderunit fs irq ar u c g))"
| session_begin: "renderunits_working (sessions g s) = [] \<Longrightarrow> job_waiting_to_run (sessions g s) = None \<Longrightarrow>
    core_step h (L, A, g) (L, A, mali_core_session_begin s g)"
| describe_job: "j \<notin> A \<Longrightarrow> core_step h (L, A, g) (L, A, upd_job j (\<lambda>_. x) g)"
| add_job: "j \<notin> A \<Longrightarrow> job_session (jobs g j) = s \<Longrightarrow> job_priority (jobs g j) < PRIORITY_LEVELS \<Longrightarrow>
    core_step h (L, A, g) (L, accepted_after A j (mali_core_session_add_job h s j g),
                        snd (snd (mali_core_session_add_job h s j g)))"
| irq: "registered g c \<Longrightarrow> core_step h (L, A, g) (L, A, mali_core_irq_handler_bottom_half h e c g)"
| watchdog: "registered g c \<Longrightarrow> core_timer (rcores g c) \<noteq> None \<Longrightarrow>
    core_step h (L, A, g) (L, A, mali_core_renderunit_timeout_function h c g)"
| hang_check: "busy (core_state (rcores g c)) \<Longrightarrow>
    core_step h (L, A, g) (L, A, mali_core_renderunit_timeout_function_hang_detection c g)"
| abort: "core_step h (L, A, g) (L, A, find_and_abort h s aid g)"
| session_close: "core_step h (L, A, g) (L \<union> left_at_work s g, A, mali_core_session_close h s g)"
| broadcast: "core_step h (L, A, g) (L, A, mali_core_subsystem_broadcast_notification h u msg mmu g)"
| power_down: "core_step h (L, A, g) (L, A, snd (mali_core_signal_power_down core im g))"
| power_up: "core_step h (L, A, g) (L, A, snd (mali_core_signal_power_up h core q g))"
| other: "rc_same g g' \<Longrightarrow> core_step h (L, A, g) (L, A, g')"

abbreviation core_reach :: "hw_env \<Rightarrow> nat set \<times> nat set \<times> gpu \<Rightarrow> nat set \<times> nat set \<times> gpu \<Rightarrow> bool" where
  "core_reach h \<equiv> (core_step h)\<^sup>*\<^sup>*"

lemma boot_wf: "rc_boot g \<Longrightarrow> rc_wf {} {} g"
  by (auto simp: rc_boot_def rc_wf_def rc_ok_def core_ok_def core_lists_def registered_def session_ok_def
      waiting_at_def subsys_ok_def awaiting_total_def jobs_ok_def places_def waiting_jobs_def running_on_def)

lemma wf_session_begin:
  assumes "rc_wf L A g" "renderunits_working (sessions g s) = []" "job_waiting_to_run (sessions g s) = None"
  shows "rc_wf L A (mali_core_session_begin s g)"
proof -
  have "sessions g s\<lparr>renderunits_working := [], job_waiting_to_run := None\<rparr> = sessions g s"
    by (rule core_session.equality) (simp_all add: assms(2,3))
  then have "upd_session s (\<lambda>x. x\<lparr>renderunits_working := [], job_waiting_to_run := None\<rparr>) g = g"
    by (cases g) (simp add: upd_session_def)
  then show ?thesis using wf_all_sessions[OF assms(1)] by (simp add: mali_core_session_begin_def Let_def)
qed

lemma wf_mentions:
  assumes "rc_wf L A g"
  shows "job_waiting_to_run (sessions g s) = Some j \<Longrightarrow> j \<in> A"
    and "registered g c \<Longrightarrow> current_job (rcores g c) = Some j \<Longrightarrow> j \<in> A"
  using assms by (auto simp: rc_wf_def rc_ok_def jobs_ok_def places_def waiting_jobs_def running_on_def)

lemma wf_describe:
  assumes wf: "rc_wf L A g" and j: "j \<notin> A"
  shows "rc_wf L A (upd_job j f g)"
proof -
  let ?g = "upd_job j f g"
  have w: "job_waiting_to_run (sessions g s) \<noteq> Some j" for s using wf_mentions(1)[OF wf] j by blast
  have r: "registered g c \<Longrightarrow> current_job (rcores g c) \<noteq> Some j" for c using wf_mentions(2)[OF wf] j by blast
  have reg: "registered ?g = registered g" by (simp add: registered_def fun_eq_iff)
  have wk: "works_for L ?g c s = works_for L g c s" if "registered g c" for c s
    using r[OF that] by (auto simp: works_for_def)
  have "core_ok L ?g c = core_ok L g c" for c
    using r[of c] wk[of c] by (auto simp: core_ok_def core_lists_def core_fields_def reg)
  moreover have "session_ok ?g s = session_ok g s" for s
  proof -
    have "waiting_at ?g s u i = waiting_at g s u i" for u i using w[of s] by (auto simp: waiting_at_def)
    then show ?thesis using w[of s] by (auto simp: session_ok_def)
  qed
  moreover have "running_on {} ?g = running_on {} g" "waiting_jobs ?g = waiting_jobs g" "subsys_ok ?g = subsys_ok g"
    by (simp_all add: running_on_def reg waiting_jobs_def subsys_ok_def fun_eq_iff)
  ultimately show ?thesis using wf by (simp add: rc_wf_def rc_ok_def jobs_ok_def reg)
qed

lemma wf_core_signals:
  assumes "rc_wf L A g"
  shows "rc_wf L A (snd (mali_core_signal_power_down core im g))"
    and "rc_wf L A (snd (mali_core_signal_power_up h core q g))"
  using assms
  by (simp_all add: mali_core_signal_power_down_def mali_core_signal_power_up_def maligp_signal_power_down_def
      malipp_signal_power_down_def maligp_signal_power_up_def malipp_signal_power_up_def
      wf_signal_power_down wf_signal_power_up)

lemma step_wf: "core_step h s s' \<Longrightarrow> rc_wf (fst s) (fst (snd s)) (snd (snd s)) \<Longrightarrow> rc_wf (fst s') (fst (snd s')) (snd (snd s'))"
proof (induction rule: core_step.induct)
  case (other g g' L A)
  then show ?case by (simp add: rc_wf_def ok_same) (simp add: rc_same_def)
qed (simp_all add: wf_register wf_session_begin wf_describe wf_add_job wf_irq wf_timeout wf_hang
    wf_find_and_abort wf_session_close wf_broadcast wf_core_signals)

lemma reach_wf:
  assumes "core_reach h s s'" "rc_wf (fst s) (fst (snd s)) (snd (snd s))"
  shows "rc_wf (fst s') (fst (snd s')) (snd (snd s'))"
  using assms by (induction rule: rtranclp_induct) (auto dest: step_wf)

subsection \<open>A concrete run for the witnesses\<close>

definition boot_gpu :: gpu where
  "boot_gpu = demo_gpu\<lparr>subsystems := \<lambda>u. \<lparr>mali_core_array = [],
     subsys_core_type = (if u = 0 then MALI_400_GP else MALI_400_PP), renderunit_idle = [], renderunit_off = [],
     awaiting_sessions = (\<lambda>_. []), awaiting_sessions_sum = 0, all_sessions = []\<rparr>\<rparr>"

lemma boot_demo: "rc_boot boot_gpu"
  by (simp add: rc_boot_def boot_gpu_def demo_gpu_def demo_core_def)

text \<open>The GP core is registered.\<close>

definition one_core_gpu :: gpu where
  "one_core_gpu = snd (mali_core_subsystem_register_renderunit True True True 0 0 boot_gpu)"

lemma fresh_demo: "fresh_core boot_gpu 0 0"
  by (simp add: fresh_core_def boot_gpu_def demo_gpu_def demo_core_def)

lemma reach_one_core: "core_reach quiet_hw ({}, {}, boot_gpu) ({}, {}, one_core_gpu)"
  unfolding one_core_gpu_def by (rule r_into_rtranclp, rule core_step.register[OF fresh_demo])

text \<open>Job 7 is submitted, and started at once.\<close>

definition one_job_gpu :: gpu where
  "one_job_gpu = snd (snd (mali_core_session_add_job quiet_hw 0 7 one_core_gpu))"

lemma demo_add_job:
  "mali_core_session_add_job quiet_hw 0 7 one_core_gpu = (ERR_OK, None, one_job_gpu)"
  by (simp add: one_job_gpu_def add_job_enqueue Let_def one_core_gpu_def
      mali_core_subsystem_register_renderunit_def boot_gpu_def demo_gpu_def)

lemma reach_one_job: "core_reach quiet_hw ({}, {}, boot_gpu) ({}, {7}, one_job_gpu)"
proof -
  have "core_step quiet_hw ({}, {}, one_core_gpu) ({}, accepted_after {} 7 (mali_core_session_add_job quiet_hw 0 7 one_core_gpu),
      snd (snd (mali_core_session_add_job quiet_hw 0 7 one_core_gpu)))"
    by (rule core_step.add_job) (simp_all add: one_core_gpu_def mali_core_subsystem_register_renderunit_def Let_def
        boot_gpu_def demo_gpu_def PRIORITY_LEVELS_def)
  then have "core_step quiet_hw ({}, {}, one_core_gpu) ({}, {7}, one_job_gpu)"
    by (simp add: demo_add_job accepted_after_def)
  with reach_one_core show ?thesis by (rule rtranclp.rtrancl_into_rtrancl)
qed

subsection \<open>No job is lost, none is run or returned twice\<close>

lemma places_one:
  assumes "places A {} W R run" "j \<in> A"
  shows "j \<in> W \<and> \<not> (\<exists>c. run c j) \<and> j \<notin> R \<or> j \<notin> W \<and> (\<exists>c. run c j) \<and> j \<notin> R \<or>
    j \<notin> W \<and> \<not> (\<exists>c. run c j) \<and> j \<in> R"
proof -
  have "j \<in> W \<or> j \<in> R \<or> (\<exists>c. run c j)" using assms unfolding places_def by simp
  moreover have "run c j \<Longrightarrow> j \<notin> W \<and> j \<notin> R" for c using assms(1) unfolding places_def by simp
  moreover have "W \<inter> R = {}" using assms(1) unfolding places_def by simp
  ultimately show ?thesis by blast
qed

lemma places_inj: "places A H W R run \<Longrightarrow> run c j \<Longrightarrow> run d j \<Longrightarrow> d = c"
  unfolding places_def by simp

text \<open>
  C1: in every state that the scheduler can reach from the loading of the driver, sessions being closed
  with any number of cores at work included, a job that it has accepted is in exactly one place: waiting in the slot of its own session, running on exactly one
  registered core that belongs to the session's subsystem, or handed back to the user, once.
\<close>

theorem accepted_jobs_in_one_place:
  assumes "rc_boot g0" "core_reach h ({}, {}, g0) (L, A, g)" "j \<in> A"
  defines "waits \<equiv> \<exists>s. job_waiting_to_run (sessions g s) = Some j"
    and "runs \<equiv> \<exists>c. registered g c \<and> current_job (rcores g c) = Some j"
    and "back \<equiv> \<exists>e. (j, e) \<in> set (returned g)"
  shows "(waits \<and> \<not> runs \<and> \<not> back \<or> \<not> waits \<and> runs \<and> \<not> back \<or> \<not> waits \<and> \<not> runs \<and> back) \<and>
    (\<forall>s. job_waiting_to_run (sessions g s) = Some j \<longrightarrow> s = job_session (jobs g j)) \<and>
    (\<forall>c. registered g c \<and> current_job (rcores g c) = Some j \<longrightarrow>
       busy (core_state (rcores g c)) \<and>
       core_subsystem (rcores g c) = session_subsystem (sessions g (job_session (jobs g j))) \<and>
       (\<forall>d. registered g d \<and> current_job (rcores g d) = Some j \<longrightarrow> d = c)) \<and>
    distinct (map fst (returned g))"
proof -
  have wf: "rc_wf L A g" using reach_wf[OF assms(2)] boot_wf[OF assms(1)] by simp
  then have J: "jobs_ok L A {} {} g" and S: "session_ok g s" and C: "core_ok L g c" for s c
    by (simp_all add: rc_wf_def rc_ok_def)
  have run: "running_on {} g c j \<longleftrightarrow> registered g c \<and> current_job (rcores g c) = Some j" for c
    by (simp add: running_on_def)
  have pl: "places A {} (waiting_jobs g) (fst ` set (returned g)) (running_on {} g)" "distinct (map fst (returned g))"
    using J by (simp_all add: jobs_ok_def)
  have w: "waits \<longleftrightarrow> j \<in> waiting_jobs g" by (simp add: waits_def waiting_jobs_def)
  have r: "runs \<longleftrightarrow> (\<exists>c. running_on {} g c j)" by (simp add: runs_def run)
  have b: "back \<longleftrightarrow> j \<in> fst ` set (returned g)" by (force simp: back_def)
  have one: "waits \<and> \<not> runs \<and> \<not> back \<or> \<not> waits \<and> runs \<and> \<not> back \<or> \<not> waits \<and> \<not> runs \<and> back"
    unfolding w r b by (rule places_one[OF pl(1) assms(3)])
  have inj: "d = c" if "registered g c \<and> current_job (rcores g c) = Some j"
      "registered g d \<and> current_job (rcores g d) = Some j" for c d
    by (rule places_inj[OF pl(1), of c j]) (simp_all add: run that)
  have slot: "s = job_session (jobs g j)" if "job_waiting_to_run (sessions g s) = Some j" for s
    using S[of s] that by (simp add: session_ok_def)
  have core: "busy (core_state (rcores g c))"
      "core_subsystem (rcores g c) = session_subsystem (sessions g (job_session (jobs g j)))"
    if "registered g c \<and> current_job (rcores g c) = Some j" for c
    using C[of c] that by (simp_all add: core_ok_def core_fields_def)
  show ?thesis
    by (intro conjI allI impI) (rule one pl(2) | erule slot core | erule (1) inj)+
qed

theorem accepted_jobs_in_one_place_witness:
  "distinct (map fst (returned one_job_gpu)) \<and> (7 :: nat) \<in> {7}"
  using accepted_jobs_in_one_place[OF boot_demo reach_one_job, of 7] by simp



subsection \<open>Scheduling\<close>

lemma total_pos:
  assumes "rc_ok L A X H g" "awaiting_sessions_sum (subsystems g u) \<noteq> 0"
  obtains s where "mali_core_subsystem_get_waiting_session u g = Some s"
proof -
  have "subsys_ok g u" using assms(1) by (simp add: rc_ok_def)
  then have "awaiting_sessions_sum (subsystems g u) = of_nat (awaiting_total (subsystems g u))"
    unfolding subsys_ok_def by blast
  then have "awaiting_total (subsystems g u) \<noteq> 0" using assms(2) by (intro notI) simp
  then have "concat (map (awaiting_sessions (subsystems g u)) [0..<PRIORITY_LEVELS]) \<noteq> []"
    unfolding awaiting_total_def by auto
  then show thesis using assms(2) that
    by (cases "concat (map (awaiting_sessions (subsystems g u)) [0..<PRIORITY_LEVELS])")
      (auto simp: mali_core_subsystem_get_waiting_session_def Let_def)
qed

lemma get_waiting_first:
  assumes "mali_core_subsystem_get_waiting_session u g = Some s"
  obtains i r where "i < PRIORITY_LEVELS" "awaiting_sessions (subsystems g u) i = s # r"
    "\<forall>k<i. awaiting_sessions (subsystems g u) k = []"
proof -
  let ?a = "awaiting_sessions (subsystems g u)"
  obtain i where i: "i < PRIORITY_LEVELS" "s \<in> set (?a i)" "\<forall>k<i. ?a k = []"
    using get_waiting_Some[OF assms] by blast
  have "[0..<PRIORITY_LEVELS] = [0..<i] @ i # [Suc i..<PRIORITY_LEVELS]"
    using i(1) upt_add_eq_append[of 0 i "PRIORITY_LEVELS - i"] upt_conv_Cons[of i PRIORITY_LEVELS] by simp
  then have "concat (map ?a [0..<PRIORITY_LEVELS]) = ?a i @ concat (map ?a [Suc i..<PRIORITY_LEVELS])"
    using i(3) by (simp add: concat_eq_Nil_conv)
  moreover obtain r where "?a i = hd (?a i) # r" using i(2) by (cases "?a i") auto
  ultimately have "?a i = s # r"
    using assms by (auto simp: mali_core_subsystem_get_waiting_session_def Let_def split: if_splits list.splits)
      (metis append_Cons list.sel(1))
  then show thesis using i that by blast
qed

text \<open>
  C18: one scheduling step with jobs waiting takes the session that has waited longest among those of
  the highest priority present, and the first idle core whose MMU takes the session's page table.
  The session's slot is emptied and the job put to work there, or, if the hardware refuses it, handed
  back with an error while the core stays idle.  With no such core nothing moves, and the power
  management is told that a job is queued.
\<close>

theorem schedule_picks:
  fixes h :: hw_env and u :: nat and g :: gpu
  assumes "rc_wf L A g" "awaiting_sessions_sum (subsystems g u) \<noteq> 0"
  defines "g' \<equiv> mali_core_subsystem_schedule h u g"
  shows "\<exists>i s r j. i < PRIORITY_LEVELS \<and> awaiting_sessions (subsystems g u) i = s # r \<and>
    (\<forall>k<i. awaiting_sessions (subsystems g u) k = []) \<and>
    job_waiting_to_run (sessions g s) = Some j \<and> job_priority (jobs g j) = i \<and>
    (case find (\<lambda>c. hw_mmu_activate h c s g) (renderunit_idle (subsystems g u)) of
       None \<Rightarrow> rcores g' = rcores g \<and> sessions g' = sessions g \<and> subsystems g' = subsystems g \<and> returned g' = returned g \<and>
         (hw_msg_alloc h g \<longrightarrow> (\<exists>m. queue g' = queue g @ [m] \<and> msg_id m = EVENT_JOB_QUEUED))
     | Some c \<Rightarrow> job_waiting_to_run (sessions g' s) = None \<and>
         awaiting_sessions_sum (subsystems g' u) = awaiting_sessions_sum (subsystems g u) - 1 \<and>
         (\<forall>d. d \<noteq> c \<longrightarrow> rcores g' d = rcores g d) \<and>
         ((\<forall>q. hw_l2_invalidate h q = ERR_OK) \<and> (\<forall>q. hw_start_job h j c q = ERR_OK) \<longrightarrow> current_job (rcores g' c) = Some j) \<and>
         (current_job (rcores g' c) = Some j \<and> core_state (rcores g' c) = CORE_WORKING \<and> returned g' = returned g \<or>
          current_job (rcores g' c) = None \<and> core_state (rcores g' c) = CORE_IDLE \<and>
            (\<exists>e \<in> {JOB_STATUS_END_SYSTEM_UNUSABLE, JOB_STATUS_END_ILLEGAL_JOB}. returned g' = returned g @ [(j, e)])))"
proof -
  have ok: "rc_ok L A {} {} g" using assms(1) by (simp add: rc_wf_def)
  obtain s where s: "mali_core_subsystem_get_waiting_session u g = Some s" by (rule total_pos[OF ok assms(2)])
  obtain i r where i: "i < PRIORITY_LEVELS" "awaiting_sessions (subsystems g u) i = s # r"
    "\<forall>k<i. awaiting_sessions (subsystems g u) k = []" by (rule get_waiting_first[OF s])
  obtain j where j: "job_waiting_to_run (sessions g s) = Some j" "job_priority (jobs g j) = i"
    by (rule ok_in_awaiting[OF ok i(1), of s u]) (use i(2) in simp)
  have main: "case find (\<lambda>c. hw_mmu_activate h c s g) (renderunit_idle (subsystems g u)) of
       None \<Rightarrow> rcores g' = rcores g \<and> sessions g' = sessions g \<and> subsystems g' = subsystems g \<and> returned g' = returned g \<and>
         (hw_msg_alloc h g \<longrightarrow> (\<exists>m. queue g' = queue g @ [m] \<and> msg_id m = EVENT_JOB_QUEUED))
     | Some c \<Rightarrow> job_waiting_to_run (sessions g' s) = None \<and>
         awaiting_sessions_sum (subsystems g' u) = awaiting_sessions_sum (subsystems g u) - 1 \<and>
         (\<forall>d. d \<noteq> c \<longrightarrow> rcores g' d = rcores g d) \<and>
         ((\<forall>q. hw_l2_invalidate h q = ERR_OK) \<and> (\<forall>q. hw_start_job h j c q = ERR_OK) \<longrightarrow> current_job (rcores g' c) = Some j) \<and>
         (current_job (rcores g' c) = Some j \<and> core_state (rcores g' c) = CORE_WORKING \<and> returned g' = returned g \<or>
          current_job (rcores g' c) = None \<and> core_state (rcores g' c) = CORE_IDLE \<and>
            (\<exists>e \<in> {JOB_STATUS_END_SYSTEM_UNUSABLE, JOB_STATUS_END_ILLEGAL_JOB}. returned g' = returned g @ [(j, e)]))"
      using ok
    proof (cases rule: schedule_cases[where h = h and u = u])
      case nothing
      then show ?thesis using assms(2) s by simp
    next
      case (queued t)
      then show ?thesis using s
        by (auto simp: g'_def post_def mali_ukk_pmm_event_message_def schedulework_def Let_def)
    next
      case (started t k c)
      let ?q = "post h EVENT_JOB_SCHEDULED (pmm_id (rcores g c)) (unwait t g)"
      have e: "t = s" "k = j" using started(1,3) s j(1) by auto
      have p: "\<not> pend_power_down (rcores ?q c)" using started by simp
      have sum: "awaiting_sessions_sum (subsystems (unwait s g) u) = awaiting_sessions_sum (subsystems g u) - 1"
        "job_waiting_to_run (sessions (unwait s g) s) = None"
        using started(5) e by (simp_all add: unwait_def unlink_awaiting_def)
      show ?thesis
        using start_result(2-6)[OF p, of h k] start_result(1)[OF p, of _ h k] started(2,11) e sum by (simp add: g'_def)
    qed
  show ?thesis
    by (rule exI[of _ i], rule exI[of _ s], rule exI[of _ r], rule exI[of _ j], intro conjI i j main)
qed

lemma demo_waiting_wf: "rc_wf {} {7} (enqueue 0 7 one_core_gpu)"
proof -
  have wf: "rc_wf {} {} one_core_gpu" using reach_wf[OF reach_one_core] boot_wf[OF boot_demo] by simp
  have "rc_ok {} {7} {} {} (enqueue 0 7 one_core_gpu)"
    by (rule ok_enqueue) (use wf in \<open>simp_all add: rc_wf_def ok_accept one_core_gpu_def Let_def
      mali_core_subsystem_register_renderunit_def boot_gpu_def demo_gpu_def PRIORITY_LEVELS_def\<close>)
  from wf_fixedI[OF this _ wf] show ?thesis by simp
qed

theorem schedule_picks_witness:
  "current_job (rcores (mali_core_subsystem_schedule quiet_hw 0 (enqueue 0 7 one_core_gpu)) 0) = Some 7"
proof -
  have "awaiting_sessions_sum (subsystems (enqueue 0 7 one_core_gpu) 0) \<noteq> 0"
    by (simp add: one_core_gpu_def mali_core_subsystem_register_renderunit_def boot_gpu_def Let_def demo_gpu_def)
  from schedule_picks[OF demo_waiting_wf this, of quiet_hw]
  show ?thesis
    by (auto simp: one_core_gpu_def mali_core_subsystem_register_renderunit_def boot_gpu_def Let_def demo_gpu_def
        quiet_hw_def split: if_splits)
qed

subsection \<open>The end of a job\<close>

text \<open>
  The power down handshake, seen from a core.  When the job of a core that owes the power
  management an acknowledgement ends, the core goes off instead of idle, is not given another
  job, posts the acknowledgement with its own id, once, and the job is handed back with the status
  that the hardware reported.
\<close>

theorem pending_core_goes_off:
  fixes h c g e
  assumes "rc_wf L A g" "registered g c" "current_job (rcores g c) = Some j" "pend_power_down (rcores g c)"
    "e \<noteq> JOB_STATUS_CONTINUE_RUN" "\<forall>q. hw_msg_alloc h q"
  defines "g' \<equiv> mali_core_irq_handler_bottom_half h e c g"
  shows "core_state (rcores g' c) = CORE_OFF \<and> \<not> pend_power_down (rcores g' c) \<and> current_job (rcores g' c) = None \<and>
    iqueue g' = iqueue g @
      [\<lparr>msg_id = EVENT_INTERNAL_POWER_DOWN_ACK, msg_data = pmm_id (rcores g c), msg_ts = ticks g\<rparr>] \<and>
    (j, e) \<in> set (returned g')"
proof -
  have ok: "rc_ok L A {} {} g" and nd: "\<not> in_detach_function (rcores g c)" using assms(1) by (simp_all add: rc_wf_def)
  have b: "core_state (rcores g c) \<noteq> CORE_IDLE"
    using ok_running_busy[OF ok _ assms(2)] assms(3) by (auto simp: busy_def)
  note f = free_core_result[OF nd b]
  note op = ok_free_job(1)[OF ok assms(2,3)]
  have g': "g' = return_job_to_user j e (mali_core_subsystem_schedule h (core_subsystem (rcores g c)) (free_core h c g))"
    using assms(3,5) b f(4) by (simp add: g'_def mali_core_irq_handler_bottom_half_def detach_free[where g = g, OF nd])
  have "core_state (rcores (free_core h c g) c) = CORE_OFF" using f(1) assms(4) by simp
  then have "rcores (mali_core_subsystem_schedule h u (free_core h c g)) c = rcores (free_core h c g) c" for u
    by (intro schedule_frame(1)[OF op]) simp
  then show ?thesis
    using f assms(4,6) schedule_frame(2)[OF op] by (simp add: g')
qed

theorem pending_core_goes_off_witness:
  "core_state (rcores (mali_core_irq_handler_bottom_half quiet_hw JOB_STATUS_END_SUCCESS 0
     (upd_core 0 (\<lambda>x. x\<lparr>pend_power_down := True\<rparr>) one_job_gpu)) 0) = CORE_OFF"
proof -
  have wf: "rc_wf {} {7} one_job_gpu" using reach_wf[OF reach_one_job] boot_wf[OF boot_demo] by simp
  have e: "one_job_gpu = mali_core_subsystem_schedule quiet_hw 0 (enqueue 0 7 one_core_gpu)"
    by (simp add: one_job_gpu_def add_job_enqueue Let_def one_core_gpu_def
      mali_core_subsystem_register_renderunit_def boot_gpu_def demo_gpu_def)
  have j: "current_job (rcores one_job_gpu 0) = Some 7" "core_state (rcores one_job_gpu 0) = CORE_WORKING"
    unfolding e by (simp_all add: one_core_gpu_def mali_core_subsystem_register_renderunit_def boot_gpu_def Let_def
      demo_gpu_def demo_core_def quiet_hw_def mali_core_subsystem_schedule_def mali_core_subsystem_get_waiting_session_def
      mali_core_subsystem_release_session_get_job_def PRIORITY_LEVELS_def upt_conv_Cons unlink_awaiting_def
      mali_core_job_start_on_core_def mali_core_subsystem_move_set_working_def)
  let ?g = "upd_core 0 (\<lambda>x. x\<lparr>pend_power_down := True\<rparr>) one_job_gpu"
  have w: "rc_wf {} {7} ?g" by (rule wf_upd_core[OF wf]) (simp_all add: j)
  have r: "registered ?g 0"
    unfolding e by (simp add: fixed_registered[OF fixed_schedule[OF fixed_refl]] registered_upd_core)
      (simp add: registered_def one_core_gpu_def mali_core_subsystem_register_renderunit_def boot_gpu_def Let_def
        demo_gpu_def demo_core_def)
  from pending_core_goes_off[OF w r, of 7 JOB_STATUS_END_SUCCESS quiet_hw] show ?thesis
    using j by (simp add: quiet_hw_def)
qed

end
