(* ===== verification/Rendercore_Faults.thy ===== *)
theory Rendercore_Faults
  imports Rendercore_Properties
begin

text \<open>
  The error paths of the scheduler: watchdogs, replaced and refused jobs, sessions that are closed,
  and the recovery from an MMU fault, with the states in which they go wrong.
\<close>

subsection \<open>Submitting a job\<close>

text \<open>
  A session has one slot.  A job for an empty slot is accepted; a job for an occupied one is refused,
  without any effect, unless its priority is strictly higher; then it takes the slot and the job
  that was there goes back to the caller, and is nowhere in the driver any more.
\<close>

theorem add_job_replaces:
  fixes h s j g
  assumes "rc_wf L A g" "j \<notin> A" "job_session (jobs g j) = s" "job_priority (jobs g j) < PRIORITY_LEVELS"
    "mali_core_session_add_job h s j g = (err, old, g')"
  shows "case job_waiting_to_run (sessions g s) of
      None \<Rightarrow> err = ERR_OK \<and> old = None \<and> rc_wf L (insert j A) g'
    | Some k \<Rightarrow>
        if job_priority (jobs g j) < job_priority (jobs g k)
        then err = ERR_OK \<and> old = Some k \<and> rc_wf L (insert j (A - {k})) g' \<and> k \<noteq> j \<and>
          (\<forall>t. job_waiting_to_run (sessions g' t) \<noteq> Some k) \<and>
          (\<forall>c. registered g' c \<longrightarrow> current_job (rcores g' c) \<noteq> Some k)
        else err = ERR_FAULT \<and> old = None \<and> g' = g"
proof (cases "job_waiting_to_run (sessions g s)")
  case None
  then show ?thesis using wf_add_job[OF assms(1-4), of h] assms(5)
    by (auto simp: add_job_enqueue Let_def accepted_after_def)
next
  case (Some k)
  have kA: "k \<in> A" using wf_mentions(1)[OF assms(1) Some] .
  show ?thesis
  proof (cases "job_priority (jobs g j) < job_priority (jobs g k)")
    case True
    have r: "err = ERR_OK" "old = Some k"
      using assms(5) Some True by (auto simp: add_job_enqueue Let_def job_has_higher_priority_def)
    have wf: "rc_wf L (insert j (A - {k})) g'"
      using wf_add_job[OF assms(1-4), of h] by (simp add: assms(5) r accepted_after_def)
    have "k \<notin> insert j (A - {k})" using kA assms(2) by auto
    then have "job_waiting_to_run (sessions g' t) \<noteq> Some k"
      "registered g' c \<Longrightarrow> current_job (rcores g' c) \<noteq> Some k" for t c
      using wf_mentions[OF wf] by blast+
    then show ?thesis using Some True r wf kA assms(2) by auto
  next
    case False
    then show ?thesis using assms(5) Some by (simp add: add_job_enqueue Let_def job_has_higher_priority_def)
  qed
qed

theorem add_job_replaces_witness:
  "rc_wf {} {7} one_job_gpu"
  using add_job_replaces[OF _ _ _ _ demo_add_job, of "{}"] reach_wf[OF reach_one_core] boot_wf[OF boot_demo]
  by (simp add: one_core_gpu_def mali_core_subsystem_register_renderunit_def Let_def boot_gpu_def demo_gpu_def
      PRIORITY_LEVELS_def)

subsection \<open>The watchdog\<close>

text \<open>
  C39: a job that runs past its time is ended.  When the core's timer fires, the next interrupt
  processing that finds the hardware still busy takes the job off the core and hands it back with
  the software timeout status; a normal end found instead is reported as such.
\<close>

theorem watchdog_ends_job:
  fixes h c g
  assumes "rc_wf L A g" "registered g c" "current_job (rcores g c) = Some j" "core_timer (rcores g c) \<noteq> None"
    "\<not> mali_benchmark h"
  shows "(j, if e = JOB_STATUS_CONTINUE_RUN then JOB_STATUS_END_TIMEOUT_SW else e)
    \<in> set (returned (mali_core_irq_handler_bottom_half h e c (mali_core_renderunit_timeout_function h c g)))"
proof -
  let ?g = "mali_core_renderunit_timeout_function h c g"
  have wf: "rc_wf L A ?g" by (rule wf_timeout[OF assms(1,2,4)])
  have c: "registered ?g c" "current_job (rcores ?g c) = Some j" "core_state (rcores ?g c) = CORE_WATCHDOG_TIMEOUT"
    using assms(2,3,5) by (simp_all add: mali_core_renderunit_timeout_function_def registered_upd_core)
  show ?thesis
    using detach_result(1)[OF wf c(1,2)] c(3) by (simp add: mali_core_irq_handler_bottom_half_def)
qed

lemma one_job_facts:
  "rc_wf {} {7} one_job_gpu" "registered one_job_gpu 0" "current_job (rcores one_job_gpu 0) = Some 7"
  "core_state (rcores one_job_gpu 0) = CORE_WORKING" "core_timer (rcores one_job_gpu 0) = Some 1"
  "core_subsystem (rcores one_job_gpu 0) = 0" "pend_power_down (rcores one_job_gpu 0) = False"
proof -
  have e: "one_job_gpu = mali_core_subsystem_schedule quiet_hw 0 (enqueue 0 7 one_core_gpu)"
    by (simp add: one_job_gpu_def add_job_enqueue Let_def one_core_gpu_def
      mali_core_subsystem_register_renderunit_def boot_gpu_def demo_gpu_def)
  show "rc_wf {} {7} one_job_gpu" using reach_wf[OF reach_one_job] boot_wf[OF boot_demo] by simp
  show "registered one_job_gpu 0"
    unfolding e by (simp add: fixed_registered[OF fixed_schedule[OF fixed_refl]])
      (simp add: registered_def one_core_gpu_def mali_core_subsystem_register_renderunit_def boot_gpu_def Let_def
        demo_gpu_def demo_core_def)
  show "current_job (rcores one_job_gpu 0) = Some 7" "core_state (rcores one_job_gpu 0) = CORE_WORKING"
    "core_timer (rcores one_job_gpu 0) = Some 1" "core_subsystem (rcores one_job_gpu 0) = 0"
    "pend_power_down (rcores one_job_gpu 0) = False"
    unfolding e by (simp_all add: one_core_gpu_def mali_core_subsystem_register_renderunit_def boot_gpu_def Let_def
      demo_gpu_def demo_core_def quiet_hw_def mali_core_subsystem_schedule_def mali_core_subsystem_get_waiting_session_def
      mali_core_subsystem_release_session_get_job_def PRIORITY_LEVELS_def upt_conv_Cons unlink_awaiting_def
      mali_core_job_start_on_core_def mali_core_subsystem_move_set_working_def)
qed

theorem watchdog_ends_job_witness:
  "(7, JOB_STATUS_END_TIMEOUT_SW) \<in> set (returned (mali_core_irq_handler_bottom_half quiet_hw JOB_STATUS_CONTINUE_RUN 0
     (mali_core_renderunit_timeout_function quiet_hw 0 one_job_gpu)))"
  using watchdog_ends_job[OF one_job_facts(1-3), of quiet_hw JOB_STATUS_CONTINUE_RUN] one_job_facts(5)
  by (simp add: quiet_hw_def)

text \<open>
  The limits put on what user space asks for.  A watchdog of a job is the configured maximum run
  time when none is asked for and otherwise between 200 milliseconds and one hour; a priority is one of
  the three levels; the interval of the hang check is between 100 and 2000 milliseconds, whatever
  \<open>int\<close> the module parameter held.
\<close>

theorem job_limits:
  "(if msecs = 0 then watchdog_msecs (job_watchdog_set dflt msecs j) = dflt
    else 200 \<le> watchdog_msecs (job_watchdog_set dflt msecs j) \<and> watchdog_msecs (job_watchdog_set dflt msecs j) \<le> 3600000) \<and>
   job_priority (job_priority_set p j) < PRIORITY_LEVELS \<and>
   fst (mali_core_hang_check_timeout_get i) \<in> {100..2000} \<and>
   unat (snd (mali_core_hang_check_timeout_get i)) = nat (fst (mali_core_hang_check_timeout_get i)) \<and>
   fst (mali_core_hang_check_timeout_get (fst (mali_core_hang_check_timeout_get i))) = fst (mali_core_hang_check_timeout_get i)"
proof -
  have n: "unat (word_of_int k :: u32) = nat k" if "0 \<le> k" "k < 2 ^ 32" for k
    using that by (simp add: unat_eq_nat_uint uint_word_of_int take_bit_int_eq_self)
  have "unat (snd (mali_core_hang_check_timeout_get i)) = nat (fst (mali_core_hang_check_timeout_get i))"
    by (simp add: mali_core_hang_check_timeout_get_def Let_def n)
  moreover have "fst (mali_core_hang_check_timeout_get i) \<in> {100..2000}"
    "fst (mali_core_hang_check_timeout_get (fst (mali_core_hang_check_timeout_get i))) = fst (mali_core_hang_check_timeout_get i)"
    by (simp_all add: mali_core_hang_check_timeout_get_def Let_def)
  moreover have "if msecs = 0 then watchdog_msecs (job_watchdog_set dflt msecs j) = dflt
    else 200 \<le> watchdog_msecs (job_watchdog_set dflt msecs j) \<and> watchdog_msecs (job_watchdog_set dflt msecs j) \<le> 3600000"
    by (auto simp: job_watchdog_set_def WATCHDOG_MSECS_MAX_def WATCHDOG_MSECS_MIN_def HANG_CHECK_MSECS_MIN_def
        not_less)
  moreover have "job_priority (job_priority_set p j) < PRIORITY_LEVELS"
    by (simp add: job_priority_set_def PRIORITY_LEVELS_def PRIORITY_MIN_def PRIORITY_MAX_def)
  ultimately show ?thesis by blast
qed

subsection \<open>Closing a session\<close>


text \<open>Two cores of the same subsystem, and two jobs of session 0 at work on them.\<close>

definition two_cores_gpu :: gpu where
  "two_cores_gpu =
     snd (mali_core_subsystem_register_renderunit True True True 0 1
       (snd (mali_core_subsystem_register_renderunit True True True 0 0
         (boot_gpu\<lparr>rcores := \<lambda>c. demo_core 0 (if c = 0 then CORE_PP0 else CORE_PP1)\<rparr>))))"

lemma two_cores_wf: "rc_wf {} {} two_cores_gpu"
proof -
  let ?b = "boot_gpu\<lparr>rcores := \<lambda>c. demo_core 0 (if c = 0 then CORE_PP0 else CORE_PP1)\<rparr>"
  let ?r = "snd (mali_core_subsystem_register_renderunit True True True 0 0 ?b)"
  have "rc_boot ?b" by (simp add: rc_boot_def boot_gpu_def demo_gpu_def demo_core_def)
  from wf_register[OF boot_wf[OF this], of 0 0] have r: "rc_wf {} {} ?r"
    by (simp add: fresh_core_def demo_core_def boot_gpu_def)
  have "fresh_core ?r 0 1"
    by (simp add: fresh_core_def demo_core_def boot_gpu_def mali_core_subsystem_register_renderunit_def Let_def)
  from wf_register[OF r this] show ?thesis by (simp add: two_cores_gpu_def)
qed

definition two_jobs_gpu :: gpu where
  "two_jobs_gpu = snd (snd (mali_core_session_add_job quiet_hw 0 8
     (snd (snd (mali_core_session_add_job quiet_hw 0 7 two_cores_gpu)))))"

lemmas run_demo = two_cores_gpu_def mali_core_subsystem_register_renderunit_def boot_gpu_def Let_def
  demo_gpu_def demo_core_def quiet_hw_def mali_core_subsystem_schedule_def mali_core_subsystem_get_waiting_session_def
  mali_core_subsystem_release_session_get_job_def PRIORITY_LEVELS_def upt_conv_Cons unlink_awaiting_def
  mali_core_job_start_on_core_def mali_core_subsystem_move_set_working_def

definition first_job_gpu :: gpu where
  "first_job_gpu = snd (snd (mali_core_session_add_job quiet_hw 0 7 two_cores_gpu))"

lemma first_job_facts:
  "mali_core_session_add_job quiet_hw 0 7 two_cores_gpu = (ERR_OK, None, first_job_gpu)"
  "renderunit_idle (subsystems first_job_gpu 0) = [0]" "renderunits_working (sessions first_job_gpu 0) = [1]"
  "job_waiting_to_run (sessions first_job_gpu 0) = None" "awaiting_sessions (subsystems first_job_gpu 0) k = []"
  "awaiting_sessions_sum (subsystems first_job_gpu 0) = 0" "session_subsystem (sessions first_job_gpu 0) = 0"
  "job_session (jobs first_job_gpu 8) = 0" "job_priority (jobs first_job_gpu 8) = 0"
  by (simp_all add: first_job_gpu_def add_job_enqueue run_demo)

lemma two_jobs_facts:
  "rc_wf {} {7, 8} two_jobs_gpu" "renderunits_working (sessions two_jobs_gpu 0) = [0, 1]"
proof -
  have b: "jobs two_cores_gpu = (\<lambda>_. jobs demo_gpu 0)" "renderunits_working (sessions two_cores_gpu s) = []" for s
    by (simp_all add: two_cores_gpu_def mali_core_subsystem_register_renderunit_def boot_gpu_def demo_gpu_def Let_def)
  have w1: "rc_wf {} {7} first_job_gpu"
    using wf_add_job[OF two_cores_wf, of 7 0 quiet_hw] first_job_facts(1) b
    by (simp add: accepted_after_def PRIORITY_LEVELS_def demo_gpu_def)
  have t: "two_jobs_gpu = snd (snd (mali_core_session_add_job quiet_hw 0 8 first_job_gpu))"
    by (simp only: two_jobs_gpu_def first_job_gpu_def)
  have e: "mali_core_session_add_job quiet_hw 0 8 first_job_gpu = (ERR_OK, None, two_jobs_gpu)"
    unfolding t using first_job_facts(4) by (simp add: add_job_enqueue Let_def)
  show "rc_wf {} {7, 8} two_jobs_gpu"
    using wf_add_job[OF w1, of 8 0 quiet_hw] e first_job_facts(8,9)
    by (simp add: accepted_after_def PRIORITY_LEVELS_def insert_commute)
  have s2: "two_jobs_gpu = mali_core_subsystem_schedule quiet_hw 0 (enqueue 0 8 first_job_gpu)"
    unfolding t using first_job_facts(4,7) by (simp add: add_job_enqueue Let_def)
  show "renderunits_working (sessions two_jobs_gpu 0) = [0, 1]"
    unfolding s2 by (simp add: quiet_hw_def mali_core_subsystem_schedule_def mali_core_subsystem_get_waiting_session_def Let_def
        mali_core_subsystem_release_session_get_job_def PRIORITY_LEVELS_def upt_conv_Cons unlink_awaiting_def
        mali_core_job_start_on_core_def mali_core_subsystem_move_set_working_def first_job_facts)
qed


subsection \<open>Recovery from an MMU fault\<close>

lemma detach_other:
  assumes wf: "rc_wf L A g" and c: "registered g c" and d: "d \<noteq> c"
  shows "rcores (mali_core_renderunit_detach_job_from_core h c SUBSYSTEM_WAIT e g) d = rcores g d"
proof -
  have ok: "rc_ok L A {} {} g" and nd: "\<not> in_detach_function (rcores g c)" using wf by (simp_all add: rc_wf_def)
  show ?thesis
  proof (cases "core_state (rcores g c) = CORE_IDLE")
    case True
    have "current_job (rcores g c) = None"
      using ok_running_busy[OF ok _ c] True by (simp add: busy_def)
    then show ?thesis using True d by (simp add: detach_free[where g = g, OF nd] free_core_def stop_core_def)
  next
    case False
    from free_core_result(5)[OF nd this d] show ?thesis
      by (simp add: detach_free[where g = g, OF nd] Let_def split: option.split)
  qed
qed

text \<open>
  C34: the reset of the cores behind a faulting MMU does not tell a core that is off from one that
  is busy.  A core that the power management has turned off comes out of it idle, ready to be given
  a job, though the power management has not been asked and still counts it as off.
\<close>

theorem reset_wakes_core_that_is_off:
  fixes h u mmu g c
  assumes wf: "rc_wf L A g" and c: "c \<in> set (mali_core_array (subsystems g u))" "core_state (rcores g c) = CORE_OFF"
    "\<not> pend_power_down (rcores g c)" "behind_mmu mmu c g"
  defines "g' \<equiv> reset_all_cores_on_mmu h u mmu g"
  shows "core_state (rcores g' c) = CORE_IDLE \<and> c \<in> set (renderunit_idle (subsystems g' u)) \<and>
    calls g' = calls g \<and> submask (cores_powered g') (cores_powered g)"
proof -
  define f where "f = (\<lambda>c g. if behind_mmu mmu c g \<and> core_state (rcores g c) \<noteq> CORE_IDLE
      then mali_core_renderunit_detach_job_from_core h c SUBSYSTEM_WAIT JOB_STATUS_END_SEG_FAULT g else g)"
  have sub: "core_subsystem (rcores g d) = u" if "d \<in> set (mali_core_array (subsystems g u))" for d
    using wf that by (auto simp: rc_wf_def rc_ok_def subsys_ok_def)
  have fx: "rc_wf L A (f d q) \<and> rc_fixed g (f d q)"
    if "rc_wf L A q" "rc_fixed g q" "registered g d" for d q
    using wf_detach[OF that(1), of d h SUBSYSTEM_WAIT JOB_STATUS_END_SEG_FAULT] that fixed_registered[OF that(2), of d]
    by (auto simp: f_def intro: fixed_trans)
  have off: "core_state (rcores (f c q) c) = CORE_IDLE"
    if "rc_wf L A q" "core_state (rcores q c) = CORE_IDLE \<or> rcores q c = rcores g c" for q
  proof (cases "core_state (rcores q c) = CORE_IDLE")
    case False
    then have e: "rcores q c = rcores g c" using that by blast
    have nd: "\<not> in_detach_function (rcores q c)" using that(1) by (simp add: rc_wf_def)
    show ?thesis using c e free_core_result(1)[OF nd False]
      by (simp add: f_def behind_mmu_def detach_free[where g = q, OF nd] Let_def split: option.split)
  qed (simp add: f_def)
  have other: "rcores (f d q) c = rcores q c" if "rc_wf L A q" "registered q d" "d \<noteq> c" for d q
    using detach_other[OF that(1,2), of c] that(3) by (simp add: f_def)
  have main: "rc_wf L A (fold f cs q) \<and> rc_fixed g (fold f cs q) \<and>
      (core_state (rcores q c) = CORE_IDLE \<or> c \<in> set cs \<longrightarrow> core_state (rcores (fold f cs q) c) = CORE_IDLE)"
    if "rc_wf L A q" "rc_fixed g q" "\<forall>d \<in> set cs. registered g d"
      "core_state (rcores q c) = CORE_IDLE \<or> rcores q c = rcores g c" for cs q
    using that
  proof (induction cs arbitrary: q)
    case (Cons d cs)
    have r: "registered g d" "registered q d" using Cons.prems fixed_registered[of g q d] by auto
    note n = fx[OF Cons.prems(1,2) r(1)]
    show ?case
    proof (cases "d = c")
      case True
      have "core_state (rcores (f d q) c) = CORE_IDLE" using off[OF Cons.prems(1,4)] True by simp
      with Cons.IH[of "f d q"] n Cons.prems(3) show ?thesis by simp
    next
      case False
      have "rcores (f d q) c = rcores q c" by (rule other[OF Cons.prems(1) r(2) False])
      with Cons.IH[of "f d q"] n Cons.prems(3,4) False show ?thesis by simp
    qed
  qed auto
  have reg: "registered g d" if "d \<in> set (mali_core_array (subsystems g u))" for d
    using that sub[OF that] by (simp add: registered_def)
  have g': "g' = fold f (mali_core_array (subsystems g u)) g"
    by (simp add: g'_def reset_all_cores_on_mmu_def f_def)
  have m: "rc_wf L A g'" "rc_fixed g g'" "core_state (rcores g' c) = CORE_IDLE"
    using main[of g "mali_core_array (subsystems g u)"] wf c(1) reg by (auto simp: g')
  have "registered g' c" "core_subsystem (rcores g' c) = u"
    using m(2) reg[OF c(1)] sub[OF c(1)] fixed_registered[OF m(2)] by (auto simp: rc_fixed_def)
  moreover have "core_lists L g' c" using m(1) by (simp add: rc_wf_def rc_ok_def core_ok_def)
  ultimately have idle: "c \<in> set (renderunit_idle (subsystems g' u))"
    using m(3) by (metis (mono_tags, lifting) core_lists_def count_list_pos)
  have "pmm_rely g g'"
    unfolding g'_def reset_all_cores_on_mmu_def
    by (rule fold_invariant[where Q = "\<lambda>_. True"]) (auto intro: rely_detach)
  then have "calls g' = calls g" by (simp add: pmm_rely_def)
  moreover have "submask (cores_powered g') (cores_powered g)"
    using rely_frame_ok[OF \<open>pmm_rely g g'\<close>] by (simp add: pmm_frame_def)
  ultimately show ?thesis using m(3) idle by simp
qed

theorem reset_wakes_core_that_is_off_witness:
  "core_state (rcores (reset_all_cores_on_mmu quiet_hw 0 None
     (snd (mali_core_subsystem_signal_power_down 0 0 False one_core_gpu))) 0) = CORE_IDLE"
proof -
  have wf: "rc_wf {} {} one_core_gpu" using reach_wf[OF reach_one_core] boot_wf[OF boot_demo] by simp
  let ?g = "snd (mali_core_subsystem_signal_power_down 0 0 False one_core_gpu)"
  have "rc_wf {} {} ?g" by (rule wf_signal_power_down[OF wf])
  moreover have "0 \<in> set (mali_core_array (subsystems ?g 0))" "core_state (rcores ?g 0) = CORE_OFF"
    "\<not> pend_power_down (rcores ?g 0)" "behind_mmu None 0 ?g"
    by (simp_all add: mali_core_subsystem_signal_power_down_def one_core_gpu_def Let_def behind_mmu_def
        mali_core_subsystem_register_renderunit_def boot_gpu_def demo_gpu_def demo_core_def
        mali_core_renderunit_get_mali_core_nr_def mali_core_subsystem_move_core_set_off_def)
  ultimately show ?thesis using reset_wakes_core_that_is_off[of "{}" "{}" ?g 0 0 None quiet_hw] by blast
qed

end
