(* ===== verification/Pmm_Reset.thy ===== *)
theory Pmm_Reset
  imports Rendercore_Faults
begin

text \<open>
  The fatal reset of the power management module, seen from the render cores: every registered core
  is signalled, and none of them is off or about to go off when the module is idle again.
\<close>

subsection \<open>Cores that are awake\<close>

text \<open>The core is not off, and does not owe the power management an acknowledgement.\<close>

definition awake :: "gpu \<Rightarrow> nat \<Rightarrow> bool" where
  "awake g c \<longleftrightarrow> core_state (rcores g c) \<noteq> CORE_OFF \<and> \<not> pend_power_down (rcores g c)"

text \<open>No core that is off owes an acknowledgement: it would stay off when it is signalled.\<close>

definition off_settled :: "gpu \<Rightarrow> bool" where
  "off_settled g \<longleftrightarrow> (\<forall>c. core_state (rcores g c) = CORE_OFF \<longrightarrow> \<not> pend_power_down (rcores g c))"

text \<open>The core that a name of the power management stands for.\<close>

definition core_named :: "u32 \<Rightarrow> gpu \<Rightarrow> nat option" where
  "core_named k g =
     (if k = CORE_GP then mali_core_renderunit_get_mali_core_nr SUBSYS_GP 0 g
      else if k = CORE_PP0 then mali_core_renderunit_get_mali_core_nr SUBSYS_PP 0 g
      else if k = CORE_PP1 then mali_core_renderunit_get_mali_core_nr SUBSYS_PP 1 g
      else if k = CORE_PP2 then mali_core_renderunit_get_mali_core_nr SUBSYS_PP 2 g
      else if k = CORE_PP3 then mali_core_renderunit_get_mali_core_nr SUBSYS_PP 3 g
      else None)"

lemma awake_start:
  assumes "\<not> pend_power_down (rcores g c)"
  shows "awake (mali_core_job_start_on_core h j c g) c"
  using assms by (simp add: awake_def mali_core_job_start_on_core_def Let_def mali_core_subsystem_move_set_working_def
      mali_core_subsystem_move_core_set_idle_def)

lemma rcores_schedule:
  assumes ok: "rc_ok L A {} H g"
  shows "rcores (mali_core_subsystem_schedule h u g) c = rcores g c \<or> awake (mali_core_subsystem_schedule h u g) c"
  using ok
proof (cases rule: schedule_cases[where h = h and u = u])
  case (started s j d)
  have p: "\<not> pend_power_down (rcores (post h EVENT_JOB_SCHEDULED (pmm_id (rcores g d)) (unwait s g)) d)"
    using started by simp
  show ?thesis using start_result(1)[OF p, of c h j] awake_start[OF p, of h j] started(11) by (cases "c = d") auto
qed auto

lemma set_idle_awake:
  "rcores (mali_core_subsystem_move_core_set_idle h d g) c = rcores g c" if "c \<noteq> d"
  using that by (simp add: mali_core_subsystem_move_core_set_idle_def Let_def)

lemma set_idle_wakes: "\<not> pend_power_down (rcores g c) \<Longrightarrow> awake (mali_core_subsystem_move_core_set_idle h c g) c"
  by (simp add: mali_core_subsystem_move_core_set_idle_def Let_def awake_def)

text \<open>A power up signal wakes its core, and puts no other one to sleep.\<close>

lemma subsystem_up_awake:
  fixes h :: hw_env and u n :: nat and q :: bool and g :: gpu
  assumes wf: "rc_wf L A g" and off: "off_settled g"
  defines "g' \<equiv> snd (mali_core_subsystem_signal_power_up h u n q g)"
  shows "off_settled g'" and "awake g c \<Longrightarrow> awake g' c"
    and "mali_core_renderunit_get_mali_core_nr u n g = Some c \<Longrightarrow> awake g' c"
proof -
  have "off_settled g' \<and> (awake g c \<longrightarrow> awake g' c) \<and>
      (mali_core_renderunit_get_mali_core_nr u n g = Some c \<longrightarrow> awake g' c)"
  proof (cases "mali_core_renderunit_get_mali_core_nr u n g")
    case None
    then show ?thesis using off by (simp add: g'_def mali_core_subsystem_signal_power_up_def)
  next
    case (Some d)
    then have m: "d \<in> set (mali_core_array (subsystems g u))"
      by (auto simp: mali_core_renderunit_get_mali_core_nr_def Let_def split: if_splits)
    then have d: "registered g d" using wf by (auto simp: rc_wf_def rc_ok_def subsys_ok_def registered_def)
    show ?thesis
    proof (cases "core_state (rcores g d) = CORE_OFF")
      case False
      then show ?thesis using off Some
        by (auto simp: g'_def mali_core_subsystem_signal_power_up_def awake_def off_settled_def)
    next
      case True
      let ?i = "mali_core_subsystem_move_core_set_idle h d g"
      have g': "g' = mali_core_subsystem_schedule h u ?i"
        using True Some by (simp add: g'_def mali_core_subsystem_signal_power_up_def)
      have ok: "rc_ok L A {} {} g" using wf by (simp add: rc_wf_def)
      have "current_job (rcores g d) = None"
        using ok_running_busy[OF ok _ d] True by (simp add: busy_def)
      from ok_set_idle[OF ok_take_none[OF ok d this]] have i: "rc_ok L A {} {} ?i" by simp
      have w: "awake ?i d" using off True by (intro set_idle_wakes) (simp add: off_settled_def)
      have e: "awake ?i e \<or> rcores ?i e = rcores g e" for e using w set_idle_awake[of e d h g] by (cases "e = d") auto
      have e': "awake g' e \<or> rcores g' e = rcores ?i e" for e using rcores_schedule[OF i] g' by auto
      have "awake g' e \<or> rcores g' e = rcores g e" for e using e[of e] e'[of e] by (auto simp: awake_def)
      moreover have "awake g' d" using e'[of d] w by (auto simp: awake_def)
      ultimately show ?thesis using off Some by (fastforce simp: awake_def off_settled_def)
    qed
  qed
  then show "off_settled g'" "awake g c \<Longrightarrow> awake g' c"
    "mali_core_renderunit_get_mali_core_nr u n g = Some c \<Longrightarrow> awake g' c" by auto
qed

lemma signal_up_awake:
  assumes "rc_wf L A g" "off_settled g"
  shows "off_settled (snd (mali_core_signal_power_up h k q g))"
    and "awake g c \<Longrightarrow> awake (snd (mali_core_signal_power_up h k q g)) c"
    and "core_named k g = Some c \<Longrightarrow> awake (snd (mali_core_signal_power_up h k q g)) c"
  using subsystem_up_awake[OF assms] assms(2)
  by (simp_all add: mali_core_signal_power_up_def maligp_signal_power_up_def malipp_signal_power_up_def core_named_def
      core_ids split: if_splits)

subsection \<open>What a signal leaves alone\<close>

lemma registered_mask_upd [simp]:
  "cores_registered (upd_core c f1 g) = cores_registered g" "cores_registered (upd_job j f2 g) = cores_registered g"
  "cores_registered (upd_session s f3 g) = cores_registered g" "cores_registered (upd_subsys u f4 g) = cores_registered g"
  "cores_registered (move_to_idle c g) = cores_registered g" "cores_registered (move_to_off c g) = cores_registered g"
  "cores_registered (move_to_working c s g) = cores_registered g"
  "cores_registered (unlink_awaiting u s g) = cores_registered g"
  "cores_registered (return_job_to_user j e g) = cores_registered g" "cores_registered (mmu_release c g) = cores_registered g"
  "cores_registered (post h ev d g) = cores_registered g"
  "cores_registered (malipmm_core_power_down_okay al d g) = cores_registered g"
  for g :: gpu
  by (simp_all add: upd_core_def upd_job_def upd_session_def upd_subsys_def unlink_awaiting_def mmu_release_def
      move_to_idle_def move_to_off_def move_to_working_def unlink_core_def return_job_to_user_def post_def
      malipmm_core_power_down_okay_def mali_ukk_pmm_event_message_def schedulework_def Let_def)

lemma registered_mask_set_idle [simp]:
  "cores_registered (mali_core_subsystem_move_core_set_idle h c g) = cores_registered g"
  by (simp add: mali_core_subsystem_move_core_set_idle_def Let_def)

lemma registered_mask_schedule [simp]:
  "cores_registered (mali_core_subsystem_schedule h u g) = cores_registered g"
  by (simp add: mali_core_subsystem_schedule_def mali_core_subsystem_release_session_get_job_def Let_def
      mali_core_job_start_on_core_def mali_core_subsystem_move_set_working_def split: option.split prod.split)

lemma signal_up_keeps:
  "cores_registered (snd (mali_core_signal_power_up h k q g)) = cores_registered g"
  "rc_fixed g (snd (mali_core_signal_power_up h k q g))"
  by (simp_all add: mali_core_signal_power_up_def maligp_signal_power_up_def malipp_signal_power_up_def
      mali_core_subsystem_signal_power_up_def fixed_schedule fixed_set_idle fixed_upd_core split: option.split)

lemma fixed_named: "rc_fixed g g' \<Longrightarrow> core_named k g' = core_named k g"
  by (simp add: rc_fixed_def core_named_def mali_core_renderunit_get_mali_core_nr_def)

subsection \<open>The reset\<close>

definition no_interference :: "gpu_env \<Rightarrow> bool" where
  "no_interference e \<longleftrightarrow> (\<forall>c q. e_before e c q = [] \<and> e_after e c q = []) \<and> (\<forall>n q. e_spin e n q = [])"

lemma reset_core_alone:
  "no_interference e \<Longrightarrow> reset_core_power (power_env e) k g =
     (if k AND cores_registered g \<noteq> 0 then snd (mali_core_signal_power_up (e_hw e) k False g) else g)"
  by (simp add: no_interference_def reset_core_power_def power_env_def in_window_def run_others_def split_beta)

lemma reset_cores_awake:
  fixes g :: gpu and ks :: "u32 list"
  assumes e: "no_interference e" and "rc_wf L A g" "off_settled g"
  defines "g' \<equiv> fold (reset_core_power (power_env e)) ks g"
  shows "cores_registered g' = cores_registered g \<and> rc_fixed g g' \<and> (awake g c \<longrightarrow> awake g' c) \<and>
    (\<forall>k \<in> set ks. k AND cores_registered g \<noteq> 0 \<longrightarrow> core_named k g = Some c \<longrightarrow> awake g' c)"
  using assms(2,3) unfolding g'_def
proof (induction ks arbitrary: g)
  case (Cons k ks)
  let ?q = "reset_core_power (power_env e) k g"
  have q: "rc_wf L A ?q" "off_settled ?q" "cores_registered ?q = cores_registered g" "rc_fixed g ?q"
    "awake g c \<longrightarrow> awake ?q c" "k AND cores_registered g \<noteq> 0 \<longrightarrow> core_named k g = Some c \<longrightarrow> awake ?q c"
    using signal_up_awake[OF Cons.prems, where h = "e_hw e" and k = k and q = False] 
      signal_up_keeps[where h = "e_hw e" and k = k and q = False and g = g]
      wf_core_signals(2)[OF Cons.prems(1), where h = "e_hw e" and core = k and q = False] Cons.prems
    by (auto simp: reset_core_alone[OF e])
  show ?case using Cons.IH[OF q(1,2)] q(3-6) fixed_trans[OF q(4)] by (auto simp: fixed_named[OF q(4)])
qed simp

lemma purge_alone:
  assumes e: "no_interference e" and p: "purge_iqueue (power_env e) 0 p = Some p1" "purge_queue (power_env e) 0 p1 = Some p2"
  shows "rcores p2 = rcores p \<and> subsystems p2 = subsystems p \<and> cores_registered p2 = cores_registered p"
proof -
  have s: "spin (power_env e) n q = q" for n q
    using e by (simp add: no_interference_def power_env_def run_others_def)
  let ?P = "\<lambda>q. rcores q = rcores p \<and> subsystems q = subsystems p \<and> cores_registered q = cores_registered p"
  have "?P p1" using purge_iqueue_inv[OF p(1), of ?P] by (auto simp: s)
  then show ?thesis using purge_queue_inv[OF p(2), of ?P] by (auto simp: s)
qed

text \<open>
  C40: a fatal reset that returns, other threads keeping out of the way, leaves the module idle, with
  nothing pending, no error recorded, one power up request to the PMU for the registered cores, and
  the operating system's request that was under way answered with its own data.  Every registered
  core is signalled: the scheduler's core of that name is not off any more and owes no
  acknowledgement, and a core that was so before still is.  A refusal of the PMU is
  printed and changes nothing: the registered cores count as powered and idle all the same.
\<close>

theorem fatal_reset_restores:
  fixes g :: gpu
  assumes "rc_wf L A g" "off_settled g" "no_interference e" "pmm_fatal_reset (power_env e) g = Done g'"
  shows "status g' = STATUS_IDLE \<and> \<not> fatal_power_err g' \<and> cores_registered g' = cores_registered g \<and>
    cores_powered g' = cores_registered g \<and> cores_idle g' = cores_registered g \<and>
    cores_pend_down g' = 0 \<and> cores_pend_up g' = 0 \<and> cores_ack_down g' = 0 \<and> cores_ack_up g' = 0 \<and>
    calls g' = calls g @ (if cores_registered g = 0 then [] else [PmuUp (cores_registered g)]) @
      (if status g = STATUS_OS_POWER_UP then [PowerUpDone (os_data g)]
       else if status g = STATUS_OS_POWER_DOWN then [PowerDownDone (os_data g)] else []) \<and>
    (\<forall>k \<in> set cores_list. k AND cores_registered g \<noteq> 0 \<longrightarrow> (\<forall>c. core_named k g = Some c \<longrightarrow> awake g' c)) \<and>
    (\<forall>c. awake g c \<longrightarrow> awake g' c)"
proof -
  define r where "r = fatal_reset_power (power_env e) g"
  obtain p1 p2 where p: "purge_iqueue (power_env e) 0 (fatal_reset_unblock (status g) r) = Some p1"
    "purge_queue (power_env e) 0 p1 = Some p2" "g' = pmm_update_system_state (p2\<lparr>status := STATUS_IDLE\<rparr>)"
    using assms(4) by (auto simp: pmm_fatal_reset_def r_def Let_def split: option.splits)
  have u: "rcores (fatal_reset_unblock st q) = rcores q" "cores_registered (fatal_reset_unblock st q) = cores_registered q"
    for st and q :: gpu
    by (simp_all add: fatal_reset_unblock_def pmm_retrieve_os_event_data_def power_up_done_def power_down_done_def
        emit_def Let_def)
  have s: "rcores (pmm_update_system_state q) = rcores q" for q :: gpu by (simp add: pmm_update_system_state_def Let_def)
  have g': "rcores g' = rcores r" "cores_registered g' = cores_registered r"
    using purge_alone[OF assms(3) p(1,2)] by (simp_all add: p(3) u s)
  have main: "cores_registered r = cores_registered g \<and> (awake g c \<longrightarrow> awake r c) \<and>
    (\<forall>k \<in> set cores_list. k AND cores_registered g \<noteq> 0 \<longrightarrow> core_named k g = Some c \<longrightarrow> awake r c)" for c
  proof (cases "cores_registered g = 0")
    case True
    then show ?thesis by (simp add: r_def fatal_reset_power_def Let_def awake_def)
  next
    case False
    define q where "q = snd (platform_powerup (power_env e) (cores_registered g) (g\<lparr>waiting := 0, missed := 0,
      fatal_power_err := False, no_events := 0, check_policy := False, cores_pend_down := 0, cores_pend_up := 0,
      cores_ack_down := 0, cores_ack_up := 0, is_dvfs_active := 0, state := STATE_UNAVAILABLE, status := STATUS_OFF,
      cores_powered := cores_registered g, cores_idle := cores_registered g\<rparr>))"
    have same: "rc_same g q" "rcores q = rcores g" "cores_registered q = cores_registered g" "subsystems q = subsystems g"
      by (simp_all add: q_def rc_same_def platform_powerup_def emit_def)
    have wf: "rc_wf L A q" using assms(1) ok_same[OF same(1)] by (simp add: rc_wf_def same)
    have "off_settled q" using assms(2) by (simp add: off_settled_def same)
    from reset_cores_awake[OF assms(3) wf this, of "rev cores_list" c]
    show ?thesis using False
      by (simp add: r_def fatal_reset_power_def Let_def q_def[symmetric] same awake_def core_named_def
          mali_core_renderunit_get_mali_core_nr_def)
  qed
  have a: "awake g' c = awake r c" for c by (simp add: awake_def g')
  show ?thesis
    using gpu_power.fatal_reset_result[OF assms(4)] main by (simp add: all_up_def unblock_calls_def g' a)
qed

text \<open>The GP core is registered and off, and the system's request to power down is under way.\<close>

definition sleeping_gpu :: gpu where
  "sleeping_gpu = (snd (mali_core_subsystem_signal_power_down 0 0 False one_core_gpu))
     \<lparr>cores_registered := CORE_GP, cores_powered := 0, cores_idle := 0, status := STATUS_OS_POWER_DOWN, os_data := 7,
      iqueue := [\<lparr>msg_id = EVENT_INTERNAL_POWER_DOWN_ACK, msg_data = 1, msg_ts = 0\<rparr>],
      queue := [\<lparr>msg_id = EVENT_JOB_FINISHED, msg_data = 1, msg_ts = 0\<rparr>]\<rparr>"

lemma sleeping_facts:
  "rc_wf {} {} sleeping_gpu" "off_settled sleeping_gpu" "core_named CORE_GP sleeping_gpu = Some 0"
  "core_state (rcores sleeping_gpu 0) = CORE_OFF" "cores_registered sleeping_gpu = CORE_GP"
  "status sleeping_gpu = STATUS_OS_POWER_DOWN" "calls sleeping_gpu = []" "os_data sleeping_gpu = 7"
proof -
  let ?g = "snd (mali_core_subsystem_signal_power_down 0 0 False one_core_gpu)"
  have "rc_wf {} {} ?g" using reach_wf[OF reach_one_core] boot_wf[OF boot_demo] by (simp add: wf_signal_power_down)
  moreover have "rc_same ?g sleeping_gpu" "rcores sleeping_gpu = rcores ?g" by (simp_all add: rc_same_def sleeping_gpu_def)
  ultimately show "rc_wf {} {} sleeping_gpu" using ok_same by (simp add: rc_wf_def)
  note d = sleeping_gpu_def mali_core_subsystem_signal_power_down_def one_core_gpu_def Let_def
    mali_core_subsystem_register_renderunit_def boot_gpu_def demo_gpu_def demo_core_def
    mali_core_renderunit_get_mali_core_nr_def mali_core_subsystem_move_core_set_off_def move_to_off_def
    unlink_core_def upd_core_def upd_subsys_def
  show "off_settled sleeping_gpu" "core_named CORE_GP sleeping_gpu = Some 0" "core_state (rcores sleeping_gpu 0) = CORE_OFF"
    "cores_registered sleeping_gpu = CORE_GP" "status sleeping_gpu = STATUS_OS_POWER_DOWN" "calls sleeping_gpu = []"
    "os_data sleeping_gpu = 7"
    by (simp_all add: d off_settled_def core_named_def SUBSYS_GP_def)
qed

lemma reset_returns:
  assumes "iqueue g = a # as" "queue g = b # bs" "no_interference e"
  shows "\<exists>g'. pmm_fatal_reset (power_env e) g = Done g'"
proof -
  have s: "spin (power_env e) n q = q" for n q
    using assms(3) by (simp add: no_interference_def power_env_def run_others_def)
  have step: "pmm_rely q (reset_core_power (power_env e) k q)" for k q
    by (simp add: reset_core_alone[OF assms(3)] rely_core_signals)
  have fold: "pmm_rely q (fold (reset_core_power (power_env e)) ks q)" for ks q
    by (induction ks arbitrary: q) (auto intro: rely_trans[OF step])
  have q: "iqueue q' \<noteq> [] \<and> queue q' \<noteq> []" if "pmm_rely q q'" "iqueue q = a # as" "queue q = b # bs" for q q' :: gpu
    using that by (auto simp: pmm_rely_def)
  let ?r = "fatal_reset_unblock (status g) (fatal_reset_power (power_env e) g)"
  have "iqueue (fatal_reset_power (power_env e) g) \<noteq> [] \<and> queue (fatal_reset_power (power_env e) g) \<noteq> []"
    using assms(1,2) q[OF fold] by (simp add: fatal_reset_power_def Let_def platform_powerup_def emit_def)
  then have "iqueue ?r \<noteq> []" "queue ?r \<noteq> []"
    by (simp_all add: fatal_reset_unblock_def pmm_retrieve_os_event_data_def power_up_done_def power_down_done_def
        emit_def Let_def)
  then obtain m ms n ns where "iqueue ?r = m # ms" "queue ?r = n # ns" by (metis neq_Nil_conv)
  then show ?thesis
    by (simp add: pmm_fatal_reset_def Let_def purge_iqueue_takes purge_queue_takes s)
qed

theorem fatal_reset_restores_witness:
  "\<exists>g'. pmm_fatal_reset (power_env quiet_env) sleeping_gpu = Done g' \<and> core_state (rcores sleeping_gpu 0) = CORE_OFF \<and>
     status g' = STATUS_IDLE \<and> core_state (rcores g' 0) \<noteq> CORE_OFF \<and> cores_powered g' = CORE_GP \<and>
     calls g' = [PmuUp CORE_GP, PowerDownDone 7]"
proof -
  have n: "no_interference quiet_env" by (simp add: no_interference_def quiet_env_def)
  obtain g' where g': "pmm_fatal_reset (power_env quiet_env) sleeping_gpu = Done g'"
    using reset_returns[OF _ _ n, of sleeping_gpu] by (auto simp: sleeping_gpu_def)
  from fatal_reset_restores[OF sleeping_facts(1,2) n g'] g' show ?thesis
    using sleeping_facts(3-) by (simp add: cores_list_def core_ids awake_def)
qed

end
