(* ===== verification/Osk_List.thy ===== *)
theory Osk_List
  imports Prelude
begin

text \<open>
  The circular doubly linked lists of common/mali\_osk\_list.h.  The memory is the two link fields of
  every list element, as functions of its address, of any type \<open>'a\<close> because the source never computes
  with these addresses; the functions are the source's sequences of stores, each reading the memory
  as the source does.
\<close>

subsection \<open>The functions\<close>

record 'a list_mem =
  next_of :: "'a \<Rightarrow> 'a"
  prev_of :: "'a \<Rightarrow> 'a"

definition set_next :: "'a \<Rightarrow> 'a \<Rightarrow> 'a list_mem \<Rightarrow> 'a list_mem" where
  "set_next a b h = h\<lparr>next_of := (next_of h)(a := b)\<rparr>"

definition set_prev :: "'a \<Rightarrow> 'a \<Rightarrow> 'a list_mem \<Rightarrow> 'a list_mem" where
  "set_prev a b h = h\<lparr>prev_of := (prev_of h)(a := b)\<rparr>"

definition list_add_between :: "'a \<Rightarrow> 'a \<Rightarrow> 'a \<Rightarrow> 'a list_mem \<Rightarrow> 'a list_mem" where
  "list_add_between new_entry prv nxt h =
     set_next prv new_entry (set_prev new_entry prv (set_next new_entry nxt (set_prev nxt new_entry h)))"

definition list_del_between :: "'a \<Rightarrow> 'a \<Rightarrow> 'a list_mem \<Rightarrow> 'a list_mem" where
  "list_del_between prv nxt h = set_next prv nxt (set_prev nxt prv h)"

definition mali_osk_list_init :: "'a \<Rightarrow> 'a list_mem \<Rightarrow> 'a list_mem" where
  "mali_osk_list_init l h = set_prev l l (set_next l l h)"

definition mali_osk_list_add :: "'a \<Rightarrow> 'a \<Rightarrow> 'a list_mem \<Rightarrow> 'a list_mem" where
  "mali_osk_list_add new_entry l h = list_add_between new_entry l (next_of h l) h"

definition mali_osk_list_addtail :: "'a \<Rightarrow> 'a \<Rightarrow> 'a list_mem \<Rightarrow> 'a list_mem" where
  "mali_osk_list_addtail new_entry l h = list_add_between new_entry (prev_of h l) l h"

definition mali_osk_list_del :: "'a \<Rightarrow> 'a list_mem \<Rightarrow> 'a list_mem" where
  "mali_osk_list_del l h = list_del_between (prev_of h l) (next_of h l) h"

definition mali_osk_list_delinit :: "'a \<Rightarrow> 'a list_mem \<Rightarrow> 'a list_mem" where
  "mali_osk_list_delinit l h = mali_osk_list_init l (list_del_between (prev_of h l) (next_of h l) h)"

definition mali_osk_list_empty :: "'a \<Rightarrow> 'a list_mem \<Rightarrow> bool" where
  "mali_osk_list_empty l h \<longleftrightarrow> next_of h l = l"

definition mali_osk_list_move :: "'a \<Rightarrow> 'a \<Rightarrow> 'a list_mem \<Rightarrow> 'a list_mem" where
  "mali_osk_list_move e l h =
     mali_osk_list_add e l (list_del_between (prev_of h e) (next_of h e) h)"

definition mali_osk_list_splice :: "'a \<Rightarrow> 'a \<Rightarrow> 'a list_mem \<Rightarrow> 'a list_mem" where
  "mali_osk_list_splice l at_entry h =
     (if \<not> mali_osk_list_empty l h then
        (let first = next_of h l; last = prev_of h l; split = next_of h at_entry
         in set_prev split last (set_next last split (set_next at_entry first (set_prev first at_entry h))))
      else h)"

subsection \<open>The list that a head represents\<close>

text \<open>From \<open>a\<close> over the elements \<open>xs\<close> to \<open>b\<close>, in both directions.\<close>

fun chain :: "'a list_mem \<Rightarrow> 'a \<Rightarrow> 'a list \<Rightarrow> 'a \<Rightarrow> bool" where
  "chain h a [] b \<longleftrightarrow> next_of h a = b \<and> prev_of h b = a"
| "chain h a (x # xs) b \<longleftrightarrow> next_of h a = x \<and> prev_of h x = a \<and> chain h x xs b"

definition dlist :: "'a list_mem \<Rightarrow> 'a \<Rightarrow> 'a list \<Rightarrow> bool" where
  "dlist h l xs \<longleftrightarrow> chain h l xs l \<and> distinct (l # xs)"

lemma set_simps [simp]:
  "next_of (set_next a b h) = (next_of h)(a := b)" "prev_of (set_next a b h) = prev_of h"
  "prev_of (set_prev a b h) = (prev_of h)(a := b)" "next_of (set_prev a b h) = next_of h"
  by (simp_all add: set_next_def set_prev_def)

lemma chain_append: "chain h a (xs @ y # ys) b \<longleftrightarrow> chain h a xs y \<and> chain h y ys b"
  by (induction xs arbitrary: a) auto

lemma chain_cong:
  "(\<And>x. x \<in> set (a # xs) \<Longrightarrow> next_of h' x = next_of h x) \<Longrightarrow>
   (\<And>x. x \<in> set (xs @ [b]) \<Longrightarrow> prev_of h' x = prev_of h x) \<Longrightarrow> chain h' a xs b = chain h a xs b"
  by (induction xs arbitrary: a) auto

lemma chain_first: "chain h a xs b \<Longrightarrow> next_of h a = hd (xs @ [b])"
  by (cases xs) auto

lemma chain_last: "chain h a xs b \<Longrightarrow> prev_of h b = last (a # xs)"
  by (induction xs arbitrary: a) auto

lemma dlist_frame:
  assumes "dlist h l xs" "\<And>x. x \<in> set (l # xs) \<Longrightarrow> next_of h' x = next_of h x \<and> prev_of h' x = prev_of h x"
  shows "dlist h' l xs"
  using assms chain_cong[of l xs h' h l] by (auto simp: dlist_def)

lemma dlist_empty: "dlist h l xs \<Longrightarrow> mali_osk_list_empty l h \<longleftrightarrow> xs = []"
  by (cases xs) (auto simp: dlist_def mali_osk_list_empty_def)

lemma dlist_init: "dlist (mali_osk_list_init l h) l []"
  by (simp add: dlist_def mali_osk_list_init_def)

lemma dlist_add:
  assumes "dlist h l xs" "e \<notin> set (l # xs)"
  shows "dlist (mali_osk_list_add e l h) l (e # xs)"
proof (cases xs)
  case Nil
  then show ?thesis using assms by (auto simp: dlist_def mali_osk_list_add_def list_add_between_def)
next
  case (Cons y ys)
  have c: "chain h l (y # ys) l" "distinct (l # y # ys)" using assms Cons by (auto simp: dlist_def)
  have "chain (list_add_between e l y h) y ys l = chain h y ys l"
    using c assms(2) Cons by (intro chain_cong) (auto simp: list_add_between_def)
  then show ?thesis using c assms(2) Cons
    by (auto simp: dlist_def mali_osk_list_add_def list_add_between_def)
qed

lemma dlist_addtail:
  assumes "dlist h l xs" "e \<notin> set (l # xs)"
  shows "dlist (mali_osk_list_addtail e l h) l (xs @ [e])"
proof (cases xs rule: rev_cases)
  case Nil
  then show ?thesis using assms by (auto simp: dlist_def mali_osk_list_addtail_def list_add_between_def)
next
  case (snoc ys y)
  have c: "chain h l ys y" "chain h y [] l" "distinct (l # ys @ [y])"
    using assms snoc by (auto simp: dlist_def chain_append)
  have "chain (list_add_between e y l h) l ys y = chain h l ys y"
    using c assms(2) snoc by (intro chain_cong) (auto simp: list_add_between_def)
  then show ?thesis using c assms(2) snoc
    by (auto simp: dlist_def mali_osk_list_addtail_def list_add_between_def chain_append)
qed

lemma dlist_del:
  assumes "dlist h l (ys @ e # zs)"
  shows "dlist (mali_osk_list_del e h) l (ys @ zs)"
proof -
  let ?a = "last (l # ys)" and ?b = "hd (zs @ [l])"
  have c: "chain h l ys e" "chain h e zs l" "distinct (l # ys @ e # zs)"
    using assms by (auto simp: dlist_def chain_append)
  have p: "prev_of h e = ?a" "next_of h e = ?b" using chain_last[OF c(1)] chain_first[OF c(2)] by auto
  let ?h = "list_del_between ?a ?b h"
  have left: "chain ?h l ys ?b"
  proof (cases ys rule: rev_cases)
    case Nil
    then show ?thesis by (auto simp: list_del_between_def)
  next
    case (snoc us y)
    have "chain ?h l us y = chain h l us y"
      using c(3) snoc by (intro chain_cong; cases zs) (auto simp: list_del_between_def)
    then show ?thesis using c(1) snoc by (auto simp: chain_append list_del_between_def)
  qed
  have "chain ?h l (ys @ zs) l"
  proof (cases zs)
    case Nil
    then show ?thesis using left by simp
  next
    case (Cons z ws)
    have "chain ?h z ws l = chain h z ws l"
      using c(3) Cons by (intro chain_cong; cases ys rule: rev_cases) (auto simp: list_del_between_def)
    then show ?thesis using left c(2) Cons by (simp add: chain_append)
  qed
  then show ?thesis using c(3) p by (auto simp: dlist_def mali_osk_list_del_def)
qed

text \<open>Only the neighbours of the removed element, which are in its list, are written.\<close>

lemma del_frame:
  assumes "dlist h l (ys @ e # zs)" "x \<notin> set (l # ys @ zs)"
  shows "next_of (list_del_between (prev_of h e) (next_of h e) h) x = next_of h x \<and>
         prev_of (list_del_between (prev_of h e) (next_of h e) h) x = prev_of h x"
proof -
  have c: "chain h l ys e" "chain h e zs l" using assms(1) by (auto simp: dlist_def chain_append)
  have "prev_of h e \<in> set (l # ys)" unfolding chain_last[OF c(1)] by (rule last_in_set) simp
  moreover have "next_of h e \<in> set (zs @ [l])" unfolding chain_first[OF c(2)] by (rule hd_in_set) simp
  ultimately show ?thesis using assms(2) by (auto simp: list_del_between_def)
qed

lemma add_frame:
  assumes "dlist h l xs" "x \<notin> set (l # xs)" "x \<noteq> e"
  shows "next_of (mali_osk_list_add e l h) x = next_of h x" "prev_of (mali_osk_list_add e l h) x = prev_of h x"
proof -
  have "next_of h l \<in> set (xs @ [l])"
    using assms(1) chain_first[of h l xs l] hd_in_set[of "xs @ [l]"] by (simp add: dlist_def)
  then show "next_of (mali_osk_list_add e l h) x = next_of h x" "prev_of (mali_osk_list_add e l h) x = prev_of h x"
    using assms(2,3) by (auto simp: mali_osk_list_add_def list_add_between_def)
qed

lemma dlist_delinit:
  assumes "dlist h l (ys @ e # zs)"
  shows "dlist (mali_osk_list_delinit e h) l (ys @ zs)" "dlist (mali_osk_list_delinit e h) e []"
proof -
  have d: "distinct (l # ys @ e # zs)" using assms by (simp add: dlist_def)
  have "dlist (list_del_between (prev_of h e) (next_of h e) h) l (ys @ zs)"
    using dlist_del[OF assms] by (simp add: mali_osk_list_del_def)
  then show "dlist (mali_osk_list_delinit e h) l (ys @ zs)"
    by (rule dlist_frame) (use d in \<open>auto simp: mali_osk_list_delinit_def mali_osk_list_init_def\<close>)
  show "dlist (mali_osk_list_delinit e h) e []"
    by (simp add: mali_osk_list_delinit_def dlist_init)
qed

subsection \<open>Moving between lists\<close>

text \<open>A move to the head of another list, and what it does to that list, its own, and any third one.\<close>

lemma move_other:
  assumes "dlist h l1 (ys @ e # zs)" "dlist h l2 xs" "set (l1 # ys @ e # zs) \<inter> set (l2 # xs) = {}"
  shows "dlist (mali_osk_list_move e l2 h) l1 (ys @ zs)"
    and "dlist (mali_osk_list_move e l2 h) l2 (e # xs)"
    and "dlist h l3 us \<Longrightarrow> set (l3 # us) \<inter> set (l1 # ys @ e # zs) = {} \<Longrightarrow>
      set (l3 # us) \<inter> set (l2 # xs) = {} \<Longrightarrow> dlist (mali_osk_list_move e l2 h) l3 us"
proof -
  let ?h = "list_del_between (prev_of h e) (next_of h e) h"
  have d: "distinct (l1 # ys @ e # zs)" using assms(1) by (simp add: dlist_def)
  have 1: "dlist ?h l1 (ys @ zs)" using dlist_del[OF assms(1)] by (simp add: mali_osk_list_del_def)
  have 2: "dlist ?h l2 xs"
    by (rule dlist_frame[OF assms(2)]) (intro del_frame[OF assms(1)], use assms(3) in auto)
  have e: "e \<notin> set (l2 # xs)" using assms(3) by auto
  show "dlist (mali_osk_list_move e l2 h) l2 (e # xs)"
    using dlist_add[OF 2 e] by (simp add: mali_osk_list_move_def)
  have "x \<in> set (l1 # ys @ zs) \<Longrightarrow> x \<notin> set (l2 # xs) \<and> x \<noteq> e" for x using assms(3) d by auto
  then show "dlist (mali_osk_list_move e l2 h) l1 (ys @ zs)"
    unfolding mali_osk_list_move_def by (intro dlist_frame[OF 1]) (use add_frame[OF 2] in blast)
  assume u: "dlist h l3 us" "set (l3 # us) \<inter> set (l1 # ys @ e # zs) = {}" "set (l3 # us) \<inter> set (l2 # xs) = {}"
  have 3: "dlist ?h l3 us" by (rule dlist_frame[OF u(1)]) (intro del_frame[OF assms(1)], use u(2) in auto)
  have "x \<in> set (l3 # us) \<Longrightarrow> x \<notin> set (l2 # xs) \<and> x \<noteq> e" for x using u(2,3) by auto
  then show "dlist (mali_osk_list_move e l2 h) l3 us"
    unfolding mali_osk_list_move_def by (intro dlist_frame[OF 3]) (use add_frame[OF 2] in blast)
qed

text \<open>A move to the head of the list that the element is in already.\<close>

lemma move_same:
  assumes "dlist h l (ys @ e # zs)"
  shows "dlist (mali_osk_list_move e l h) l (e # ys @ zs)"
    and "dlist h l3 us \<Longrightarrow> set (l3 # us) \<inter> set (l # ys @ e # zs) = {} \<Longrightarrow>
      dlist (mali_osk_list_move e l h) l3 us"
proof -
  let ?h = "list_del_between (prev_of h e) (next_of h e) h"
  have d: "distinct (l # ys @ e # zs)" using assms by (simp add: dlist_def)
  have 1: "dlist ?h l (ys @ zs)" using dlist_del[OF assms] by (simp add: mali_osk_list_del_def)
  have e: "e \<notin> set (l # ys @ zs)" using d by auto
  show "dlist (mali_osk_list_move e l h) l (e # ys @ zs)"
    using dlist_add[OF 1 e] by (simp add: mali_osk_list_move_def)
  assume u: "dlist h l3 us" "set (l3 # us) \<inter> set (l # ys @ e # zs) = {}"
  have 3: "dlist ?h l3 us" by (rule dlist_frame[OF u(1)]) (intro del_frame[OF assms], use u(2) in auto)
  have "x \<in> set (l3 # us) \<Longrightarrow> x \<notin> set (l # ys @ zs) \<and> x \<noteq> e" for x using u(2) by auto
  then show "dlist (mali_osk_list_move e l h) l3 us"
    unfolding mali_osk_list_move_def by (intro dlist_frame[OF 3]) (use add_frame[OF 1] in blast)
qed

text \<open>
  Splicing a list in behind the head of another one; the spliced head itself is left as it was, and no
  longer is the head of a list.
\<close>

lemma dlist_splice:
  assumes "dlist h l1 xs" "dlist h l2 zs" "set (l1 # xs) \<inter> set (l2 # zs) = {}"
  shows "dlist (mali_osk_list_splice l1 l2 h) l2 (xs @ zs)"
proof (cases xs rule: rev_cases)
  case Nil
  then show ?thesis using assms(1,2) dlist_empty[OF assms(1)] by (simp add: mali_osk_list_splice_def)
next
  case (snoc ys z)
  let ?h = "mali_osk_list_splice l1 l2 h" and ?x = "hd xs" and ?s = "hd (zs @ [l2])"
  have c: "chain h l1 xs l1" "chain h l2 zs l2" "distinct (l1 # xs)" "distinct (l2 # zs)"
    using assms(1,2) by (simp_all add: dlist_def)
  have mem: "?x \<in> set xs" "z \<in> set xs" using snoc hd_in_set[of xs] by auto
  have "next_of h l1 = ?x" using chain_first[OF c(1)] snoc by (cases ys) auto
  moreover have "prev_of h l1 = z" "next_of h l2 = ?s"
    using chain_last[OF c(1)] chain_first[OF c(2)] snoc by auto
  ultimately have f: "next_of h l1 = ?x" "prev_of h l1 = z" "next_of h l2 = ?s" by auto
  have h: "?h = set_prev ?s z (set_next z ?s (set_next l2 ?x (set_prev ?x l2 h)))"
    using dlist_empty[OF assms(1)] snoc f by (simp add: mali_osk_list_splice_def Let_def)
  have n: "?s \<in> set (l2 # zs)" using hd_in_set[of "zs @ [l2]"] by auto
  have xs: "chain ?h l2 xs ?s"
  proof (cases ys)
    case Nil
    then show ?thesis using snoc assms(3) n by (auto simp: h)
  next
    case (Cons y vs)
    then have e: "?x = y" "xs = y # vs @ [z]" using snoc by auto
    have "chain h y (vs @ [z]) l1" using c(1) e by simp
    then have "chain h y vs z" by (simp add: chain_append)
    moreover have "chain ?h y vs z = chain h y vs z"
      using c(3,4) assms(3) e n unfolding h e(1) by (intro chain_cong) auto
    ultimately have "chain ?h l2 (y # vs @ [z]) ?s"
      using c(3) assms(3) n by (auto simp: h e chain_append)
    then show ?thesis by (simp add: e(2))
  qed
  show ?thesis
  proof (cases zs)
    case Nil
    then show ?thesis using xs c(3,4) assms(3) by (auto simp: dlist_def)
  next
    case (Cons w ws)
    have "chain ?h w ws l2 = chain h w ws l2"
      using c(3,4) assms(3) Cons mem unfolding h by (intro chain_cong) auto
    then show ?thesis using xs c Cons assms(3) by (auto simp: dlist_def chain_append)
  qed
qed

end
