(* ===== verification/Core_Lists.thy ===== *)
theory Core_Lists
  imports Rendercore_Faults Osk_List
begin

text \<open>
  The lists of cores in memory.  The scheduler's model keeps the idle, off and working cores as
  HOL lists; the driver keeps them as linked lists through the element \<open>list\<close> of every core.  Here
  the two are related, and the stores of mali\_osk\_list.h are shown to implement the moves.
\<close>

text \<open>The list elements: one head per list, and one element in every core.\<close>

datatype core_link = Idle_head nat | Off_head nat | Working_head nat | Core_link nat

fun cores_at :: "gpu \<Rightarrow> core_link \<Rightarrow> nat list" where
  "cores_at g (Idle_head u) = renderunit_idle (subsystems g u)"
| "cores_at g (Off_head u) = renderunit_off (subsystems g u)"
| "cores_at g (Working_head s) = renderunits_working (sessions g s)"
| "cores_at g (Core_link c) = []"

fun is_head :: "core_link \<Rightarrow> bool" where
  "is_head (Core_link _) = False"
| "is_head _ = True"

definition linked :: "core_link list_mem \<Rightarrow> gpu \<Rightarrow> bool" where
  "linked m g \<longleftrightarrow>
     (\<forall>k. is_head k \<longrightarrow> dlist m k (map Core_link (cores_at g k))) \<and>
     (\<forall>k k'. k \<noteq> k' \<longrightarrow> set (cores_at g k) \<inter> set (cores_at g k') = {})"

text \<open>The stores of the three functions that move a core, in the source's order of tests.\<close>

definition set_idle_links :: "nat \<Rightarrow> gpu \<Rightarrow> core_link list_mem \<Rightarrow> core_link list_mem" where
  "set_idle_links c g m =
     (let m = (if \<not> pend_power_down (rcores g c)
               then mali_osk_list_move (Core_link c) (Idle_head (core_subsystem (rcores g c))) m else m)
      in if pend_power_down (rcores g c)
         then mali_osk_list_move (Core_link c) (Off_head (core_subsystem (rcores g c))) m else m)"

definition set_working_links :: "nat \<Rightarrow> nat \<Rightarrow> gpu \<Rightarrow> core_link list_mem \<Rightarrow> core_link list_mem" where
  "set_working_links c j g = mali_osk_list_move (Core_link c) (Working_head (job_session (jobs g j)))"

definition set_off_links :: "nat \<Rightarrow> gpu \<Rightarrow> core_link list_mem \<Rightarrow> core_link list_mem" where
  "set_off_links c g = mali_osk_list_move (Core_link c) (Off_head (core_subsystem (rcores g c)))"

text \<open>A move in general: the element comes out of its list and to the front of the given one.\<close>

lemma linked_move:
  assumes l: "linked m g" and h: "is_head k" "is_head k'" and c: "c \<in> set (cores_at g k)"
    and g': "\<And>i. cores_at g' i = (if i = k' then c # removeAll c (cores_at g i) else removeAll c (cores_at g i))"
  shows "linked (mali_osk_list_move (Core_link c) k' m) g'"
proof -
  let ?L = "\<lambda>i. map Core_link (cores_at g i)"
  have D: "\<And>i. is_head i \<Longrightarrow> dlist m i (?L i)"
    and I: "\<And>i j. i \<noteq> j \<Longrightarrow> set (cores_at g i) \<inter> set (cores_at g j) = {}"
    using l by (auto simp: linked_def)
  have S: "i \<noteq> j \<Longrightarrow> is_head i \<Longrightarrow> is_head j \<Longrightarrow> set (i # ?L i) \<inter> set (j # ?L j) = {}" for i j
    using I[of i j] by auto
  obtain ys zs where s: "cores_at g k = ys @ c # zs" using c by (meson split_list)
  have d: "distinct (cores_at g k)" using D[OF h(1)] by (simp add: dlist_def distinct_map)
  have n: "removeAll c ys = ys" "removeAll c zs = zs" using d unfolding s by auto
  have ro: "i \<noteq> k \<Longrightarrow> removeAll c (cores_at g i) = cores_at g i" for i
    using I[of i k] c by (intro removeAll_id) auto
  have s': "?L k = map Core_link ys @ Core_link c # map Core_link zs" by (simp add: s)
  have "dlist (mali_osk_list_move (Core_link c) k' m) i (map Core_link (cores_at g' i))" if i: "is_head i" for i
  proof (cases "k' = k")
    case True
    then show ?thesis
      using move_same(1)[OF D[OF h(1), unfolded s']] move_same(2)[OF D[OF h(1), unfolded s'], of i "?L i"] D[OF i] S[of i k] i h
      by (cases "i = k") (auto simp: g' n ro s)
  next
    case False
    note mo = move_other(1,2)[OF D[OF h(1), unfolded s'] D[OF h(2)]]
      move_other(3)[OF D[OF h(1), unfolded s'] D[OF h(2)], of i "?L i"]
    show ?thesis
      using mo D[OF i] S[of k k'] S[of i k] S[of i k'] i h False
      by (cases "i = k"; cases "i = k'") (auto simp: g' n ro s)
  qed
  moreover have "i \<noteq> j \<Longrightarrow> set (cores_at g' i) \<inter> set (cores_at g' j) = {}" for i j
    using I[of i j] by (auto simp: g')
  ultimately show ?thesis by (simp add: linked_def)
qed

lemma cores_at_move:
  "cores_at (move_to_idle c g) i =
     (if i = Idle_head (core_subsystem (rcores g c)) then c # removeAll c (cores_at g i) else removeAll c (cores_at g i))"
  "cores_at (move_to_off c g) i =
     (if i = Off_head (core_subsystem (rcores g c)) then c # removeAll c (cores_at g i) else removeAll c (cores_at g i))"
  "cores_at (move_to_working c s g) i =
     (if i = Working_head s then c # removeAll c (cores_at g i) else removeAll c (cores_at g i))"
  by (cases i; simp add: move_to_idle_def move_to_off_def move_to_working_def)+

lemma cores_at_cong: "subsystems g = subsystems g' \<Longrightarrow> sessions g = sessions g' \<Longrightarrow> cores_at g = cores_at g'"
  by (rule ext, case_tac x) auto

text \<open>
  C27: the stores of \<open>_mali_osk_list_move\<close> implement the three functions that move a core: when the
  linked lists in memory represent the lists of the scheduler and the core is in one of them, they
  represent the lists after the function as well, in both directions and in the same order.
\<close>

theorem core_moves_refine:
  assumes "linked m g" "is_head k" "c \<in> set (cores_at g k)"
  shows "linked (set_idle_links c g m) (mali_core_subsystem_move_core_set_idle h c g) \<and>
    linked (set_working_links c j g m) (mali_core_subsystem_move_set_working c j g) \<and>
    linked (set_off_links c g m) (mali_core_subsystem_move_core_set_off c g)"
proof -
  have idle: "cores_at (mali_core_subsystem_move_core_set_idle h c g) i =
      cores_at (if pend_power_down (rcores g c) then move_to_off c g else move_to_idle c g) i" for i
    by (cases i; simp add: mali_core_subsystem_move_core_set_idle_def move_to_off_def move_to_idle_def Let_def)
  have work: "cores_at (mali_core_subsystem_move_set_working c j g) i =
      cores_at (move_to_working c (job_session (jobs g j)) g) i" for i
    by (cases i; simp add: mali_core_subsystem_move_set_working_def move_to_working_def)
  have off: "cores_at (mali_core_subsystem_move_core_set_off c g) i = cores_at (move_to_off c g) i" for i
    by (cases i; simp add: mali_core_subsystem_move_core_set_off_def move_to_off_def)
  note mv = linked_move[OF assms(1,2) _ assms(3)]
  have "linked (set_idle_links c g m) (mali_core_subsystem_move_core_set_idle h c g)"
    by (cases "pend_power_down (rcores g c)")
      (simp_all add: set_idle_links_def mv idle cores_at_move)
  moreover have "linked (set_working_links c j g m) (mali_core_subsystem_move_set_working c j g)"
    "linked (set_off_links c g m) (mali_core_subsystem_move_core_set_off c g)"
    by (simp_all add: set_working_links_def set_off_links_def mv work off cores_at_move)
  ultimately show ?thesis by simp
qed

text \<open>At a state that the scheduler reaches: the GP core has been registered and is idle.\<close>

definition one_core_links :: "core_link list_mem" where
  "one_core_links = mali_osk_list_add (Core_link 0) (Idle_head 0) \<lparr>next_of = id, prev_of = id\<rparr>"

lemma linked_one_core: "linked one_core_links one_core_gpu"
proof -
  have "cores_at one_core_gpu k = (if k = Idle_head 0 then [0] else [])" for k
    by (cases k) (simp_all add: one_core_gpu_def mali_core_subsystem_register_renderunit_def Let_def
        boot_gpu_def demo_gpu_def demo_core_def)
  moreover have "dlist one_core_links k (map Core_link (if k = Idle_head 0 then [0] else []))" if "is_head k" for k
    using that by (auto simp: dlist_def one_core_links_def mali_osk_list_add_def list_add_between_def)
  ultimately show ?thesis by (auto simp: linked_def)
qed

theorem core_moves_refine_witness:
  "linked (set_off_links 0 one_core_gpu one_core_links) (mali_core_subsystem_move_core_set_off 0 one_core_gpu) \<and>
   next_of (set_off_links 0 one_core_gpu one_core_links) (Off_head 0) = Core_link 0"
proof -
  have "cores_at one_core_gpu (Idle_head 0) = [0]" "core_subsystem (rcores one_core_gpu 0) = 0"
    by (simp_all add: one_core_gpu_def mali_core_subsystem_register_renderunit_def Let_def
        boot_gpu_def demo_gpu_def demo_core_def)
  then show ?thesis
    using core_moves_refine[OF linked_one_core, of "Idle_head 0" 0]
    by (simp add: set_off_links_def mali_osk_list_move_def list_del_between_def one_core_links_def
        mali_osk_list_add_def list_add_between_def)
qed

end
