(* ===== verification/Memory_Engine.thy ===== *)
theory Memory_Engine
  imports Prelude "HOL-Library.Multiset" "HOL-Library.Monad_Syntax"
begin

text \<open>
  The memory engine, common/mali\_kernel\_memory\_engine.c.  An allocation reserves addresses with two
  address managers (the Mali MMU's and the process's) and commits physical memory to them from a
  list of physical allocators.  The managers and the allocators are tables of function pointers in
  the source, and records of functions here; \<open>'w\<close> is the state of the memory system.  An operation
  returns \<open>None\<close> when the source would not return: it follows a null pointer or does not leave a loop.

  A tracker (\<open>mali_physical_memory_allocation\<close>) holds a release function, its context and its handle;
  \<open>'h\<close> stands for the three together, and a blank tracker, all zero, is \<open>None\<close>.
\<close>

subsection \<open>Data\<close>

datatype mali_physical_memory_allocation_result =
    MALI_MEM_ALLOC_FINISHED
  | MALI_MEM_ALLOC_PARTIAL
  | MALI_MEM_ALLOC_NONE
  | MALI_MEM_ALLOC_INTERNAL_FAILURE

definition FLAG_MAP_INTO_USERSPACE :: u32 where "FLAG_MAP_INTO_USERSPACE = 1"
definition FLAG_MAP_GUARD_PAGE :: u32 where "FLAG_MAP_GUARD_PAGE = 2"
definition FLAG_OS_ALLOCATED_PHYSADDR :: u32 where "FLAG_OS_ALLOCATED_PHYSADDR = 1"
definition OS_ALLOCATED_PHYSADDR_MAGIC :: u32 where "OS_ALLOCATED_PHYSADDR_MAGIC = - 1"

definition OSK_CPU_PAGE_ORDER :: nat where "OSK_CPU_PAGE_ORDER = 12"
definition OSK_CPU_PAGE_SIZE :: u32 where "OSK_CPU_PAGE_SIZE = push_bit OSK_CPU_PAGE_ORDER 1"

text \<open>The descriptor of an allocation; \<open>mali_addr_mapping_info\<close> is the number of the session.\<close>

record mali_memory_allocation =
  mapping :: u32
  mali_address :: u32
  alloc_size :: u32
  permission :: u32
  alloc_flags :: u32
  mali_addr_mapping_info :: nat
  process_addr_mapping_info :: ptr

definition into_userspace :: "mali_memory_allocation \<Rightarrow> bool" where
  "into_userspace d \<longleftrightarrow> alloc_flags d AND FLAG_MAP_INTO_USERSPACE \<noteq> 0"

record 'w mali_kernel_mem_address_manager =
  am_allocate :: "mali_memory_allocation \<Rightarrow> 'w \<Rightarrow> (osk_err \<times> mali_memory_allocation \<times> 'w) option"
  am_release :: "mali_memory_allocation \<Rightarrow> 'w \<Rightarrow> 'w option"
  am_map_physical :: "mali_memory_allocation \<Rightarrow> u32 \<Rightarrow> u32 \<Rightarrow> u32 \<Rightarrow> 'w \<Rightarrow> (osk_err \<times> u32 \<times> 'w) option"
  am_unmap_physical :: "(mali_memory_allocation \<Rightarrow> u32 \<Rightarrow> u32 \<Rightarrow> u32 \<Rightarrow> 'w \<Rightarrow> 'w option) option"

record 'w memory_engine =
  eng_mali_address :: "'w mali_kernel_mem_address_manager"
  eng_process_address :: "'w mali_kernel_mem_address_manager"

text \<open>A page table block, and the table of a physical allocator; \<open>'al\<close> names the allocator.\<close>

record 'p mali_page_table_block =
  pt_release :: 'p
  pt_size :: u32
  pt_phys_base :: u32
  pt_mapping :: u32

record ('al, 'h, 'p, 'w) mali_physical_memory_allocator =
  pa_allocate :: "'al \<Rightarrow> mali_memory_allocation \<Rightarrow> u32 \<Rightarrow> 'w
     \<Rightarrow> (mali_physical_memory_allocation_result \<times> 'h option \<times> u32 \<times> 'w) option"
  pa_release :: "'h \<Rightarrow> 'w \<Rightarrow> 'w option"
  pa_allocate_page_table_block :: "'al \<Rightarrow> 'w
     \<Rightarrow> (mali_physical_memory_allocation_result \<times> 'p mali_page_table_block option \<times> 'w) option"

subsection \<open>Mapping\<close>

definition call_unmap ::
  "'w mali_kernel_mem_address_manager \<Rightarrow> mali_memory_allocation \<Rightarrow> u32 \<Rightarrow> u32 \<Rightarrow> u32 \<Rightarrow> 'w \<Rightarrow> 'w option" where
  "call_unmap m d offset sz flags w =
     (case am_unmap_physical m of None \<Rightarrow> None | Some f \<Rightarrow> f d offset sz flags w)"

text \<open>The process side, which comes first; it returns the Mali physical address.\<close>

definition engine_map_process ::
  "'w memory_engine \<Rightarrow> mali_memory_allocation \<Rightarrow> u32 \<Rightarrow> u32 \<Rightarrow> u32 \<Rightarrow> u32 \<Rightarrow> 'w \<Rightarrow> (osk_err \<times> u32 \<times> 'w) option" where
  "engine_map_process engine d offset phys cpu_usage_adjust sz w =
     (if into_userspace d then
        (if phys = OS_ALLOCATED_PHYSADDR_MAGIC then do {
           (err, phys, w) \<leftarrow> am_map_physical (eng_process_address engine) d offset phys sz w;
           Some (err, phys - cpu_usage_adjust, w)
         } else do {
           (err, cpu_phys, w) \<leftarrow>
             am_map_physical (eng_process_address engine) d offset (phys + cpu_usage_adjust) sz w;
           Some (err, phys, w)
         })
      else Some (ERR_OK, phys, w))"

definition mali_allocation_engine_map_physical ::
  "'w memory_engine \<Rightarrow> mali_memory_allocation \<Rightarrow> u32 \<Rightarrow> u32 \<Rightarrow> u32 \<Rightarrow> u32 \<Rightarrow> 'w \<Rightarrow> (osk_err \<times> 'w) option" where
  "mali_allocation_engine_map_physical engine d offset phys cpu_usage_adjust sz w =
     (let unmap_flags = (if into_userspace d \<and> phys = OS_ALLOCATED_PHYSADDR_MAGIC
                         then FLAG_OS_ALLOCATED_PHYSADDR else 0)
      in do {
        (err, phys, w) \<leftarrow> engine_map_process engine d offset phys cpu_usage_adjust sz w;
        if err \<noteq> ERR_OK then Some (err, w)
        else do {
          (err, phys, w) \<leftarrow> am_map_physical (eng_mali_address engine) d offset phys sz w;
          if err \<noteq> ERR_OK then
            (if into_userspace d then do {
               w \<leftarrow> call_unmap (eng_process_address engine) d offset sz unmap_flags w;
               Some (err, w)
             } else Some (err, w))
          else Some (ERR_OK, w)
        }
      })"

definition mali_allocation_engine_unmap_physical ::
  "'w memory_engine \<Rightarrow> mali_memory_allocation \<Rightarrow> u32 \<Rightarrow> u32 \<Rightarrow> u32 \<Rightarrow> 'w \<Rightarrow> 'w option" where
  "mali_allocation_engine_unmap_physical engine d offset sz unmap_flags w = do {
     w \<leftarrow> (if into_userspace d then call_unmap (eng_process_address engine) d offset sz unmap_flags w
          else Some w);
     if am_unmap_physical (eng_mali_address engine) \<noteq> None
     then call_unmap (eng_mali_address engine) d offset sz unmap_flags w else Some w
   }"

subsection \<open>Allocating and releasing\<close>

text \<open>
  \<open>track\<close> inserts the allocation in the tracking list of the caller (nothing for a null list), and
  \<open>untrack\<close> takes it out of the list that it is in.
\<close>

text \<open>
  The loop over the allocators.  \<open>ts\<close> are the trackers before the active one; the result says whether
  the allocation was finished, and lists all trackers.  \<open>tracker_ok\<close> says whether the tracker that a
  partial allocation needs can be allocated.
\<close>

fun commit_memory ::
  "('al, 'h, 'p, 'w) mali_physical_memory_allocator \<Rightarrow> ('w \<Rightarrow> bool) \<Rightarrow> mali_memory_allocation \<Rightarrow> 'al list
     \<Rightarrow> u32 \<Rightarrow> 'h option list \<Rightarrow> 'w \<Rightarrow> (bool \<times> 'h option list \<times> 'w) option" where
  "commit_memory ph tracker_ok d [] offset ts w = Some (False, ts @ [None], w)"
| "commit_memory ph tracker_ok d (a # as) offset ts w = do {
     (result, t, offset, w) \<leftarrow> pa_allocate ph a d offset w;
     (case result of
        MALI_MEM_ALLOC_FINISHED \<Rightarrow> Some (True, ts @ [t], w)
      | MALI_MEM_ALLOC_NONE \<Rightarrow> commit_memory ph tracker_ok d as offset ts w
      | MALI_MEM_ALLOC_PARTIAL \<Rightarrow>
          if as \<noteq> [] \<and> tracker_ok w then commit_memory ph tracker_ok d as offset (ts @ [t]) w
          else Some (False, ts @ [t], w)
      | MALI_MEM_ALLOC_INTERNAL_FAILURE \<Rightarrow> Some (False, ts @ [t], w))
   }"

fun release_trackers ::
  "('al, 'h, 'p, 'w) mali_physical_memory_allocator \<Rightarrow> 'h option list \<Rightarrow> 'w \<Rightarrow> 'w option" where
  "release_trackers ph [] w = Some w"
| "release_trackers ph (t # ts) w = do {
     w \<leftarrow> (case t of None \<Rightarrow> Some w | Some h \<Rightarrow> pa_release ph h w);
     release_trackers ph ts w
   }"

definition mali_allocation_engine_allocate_memory ::
  "'w memory_engine \<Rightarrow> ('al, 'h, 'p, 'w) mali_physical_memory_allocator \<Rightarrow> ('w \<Rightarrow> bool)
     \<Rightarrow> (mali_memory_allocation \<Rightarrow> 'h option list \<Rightarrow> 'w \<Rightarrow> 'w) \<Rightarrow> mali_memory_allocation \<Rightarrow> 'al list \<Rightarrow> 'w
     \<Rightarrow> (osk_err \<times> mali_memory_allocation \<times> 'h option list \<times> 'w) option" where
  "mali_allocation_engine_allocate_memory engine ph tracker_ok track d allocators w = do {
     (err, d, w) \<leftarrow> am_allocate (eng_mali_address engine) d w;
     if err \<noteq> ERR_OK then Some (ERR_FAULT, d, [None], w)
     else do {
       (res, d, w) \<leftarrow> (if into_userspace d then am_allocate (eng_process_address engine) d w
                     else Some (ERR_OK, d, w));
       if res \<noteq> ERR_OK then do {
         w \<leftarrow> am_release (eng_mali_address engine) d w;
         Some (ERR_FAULT, d, [None], w)
       } else do {
         (done, ts, w) \<leftarrow> commit_memory ph tracker_ok d allocators 0 [] w;
         if done then Some (ERR_OK, d, ts, track d ts w)
         else do {
           w \<leftarrow> release_trackers ph ts w;
           w \<leftarrow> (if into_userspace d then am_release (eng_process_address engine) d w else Some w);
           w \<leftarrow> am_release (eng_mali_address engine) d w;
           Some (ERR_FAULT, d, ts, w)
         }
       }
     }
   }"

text \<open>A release calls the release function of every tracker without a test for a blank one.\<close>

fun release_all_trackers ::
  "('al, 'h, 'p, 'w) mali_physical_memory_allocator \<Rightarrow> 'h option list \<Rightarrow> 'w \<Rightarrow> 'w option" where
  "release_all_trackers ph [] w = Some w"
| "release_all_trackers ph (t # ts) w = do {
     w \<leftarrow> (case t of None \<Rightarrow> None | Some h \<Rightarrow> pa_release ph h w);
     release_all_trackers ph ts w
   }"

definition mali_allocation_engine_release_memory ::
  "'w memory_engine \<Rightarrow> ('al, 'h, 'p, 'w) mali_physical_memory_allocator
     \<Rightarrow> (mali_memory_allocation \<Rightarrow> 'w \<Rightarrow> 'w) \<Rightarrow> mali_memory_allocation \<Rightarrow> 'h option list \<Rightarrow> 'w \<Rightarrow> 'w option" where
  "mali_allocation_engine_release_memory engine ph untrack d ts w = do {
     w \<leftarrow> am_release (eng_mali_address engine) d (untrack d w);
     w \<leftarrow> release_all_trackers ph ts w;
     if into_userspace d then am_release (eng_process_address engine) d w else Some w
   }"

text \<open>\<open>allocate_block\<close> is the field \<open>allocate_page_table_block\<close> of the allocators.\<close>

fun mali_allocation_engine_allocate_page_tables ::
  "('al \<Rightarrow> 'w \<Rightarrow> (mali_physical_memory_allocation_result \<times> 'p mali_page_table_block option \<times> 'w) option)
     \<Rightarrow> 'al list \<Rightarrow> 'w \<Rightarrow> (osk_err \<times> 'p mali_page_table_block option \<times> 'w) option" where
  "mali_allocation_engine_allocate_page_tables allocate_block [] w = Some (ERR_FAULT, None, w)"
| "mali_allocation_engine_allocate_page_tables allocate_block (a # as) w = do {
     (result, b, w) \<leftarrow> allocate_block a w;
     (case result of
        MALI_MEM_ALLOC_FINISHED \<Rightarrow> Some (ERR_OK, b, w)
      | MALI_MEM_ALLOC_NONE \<Rightarrow> mali_allocation_engine_allocate_page_tables allocate_block as w
      | _ \<Rightarrow> Some (ERR_FAULT, None, w))
   }"

subsection \<open>The contract of the parts\<close>

text \<open>
  What the engine relies on.  \<open>inv M P H w\<close> says that the state is well formed with the addresses of
  the allocations \<open>M\<close> reserved in the MMU, those of \<open>P\<close> in the process, and the physical memory of the
  handles \<open>H\<close> committed, and nothing else.  Every manager and every allocator accounts for what it
  hands out and takes back; \<open>valid\<close> are the descriptors that they support.  The addresses in the process
  go when no memory is committed to them any more.
\<close>

text \<open>The trackers in use, and that their pieces cover a range without gap or overlap.\<close>

definition live_trackers :: "'h option list \<Rightarrow> 'h list" where
  "live_trackers ts = List.map_filter id ts"

lemma live_trackers_simps [simp]:
  "live_trackers [] = []" "live_trackers (None # ts) = live_trackers ts"
  "live_trackers (Some h # ts) = h # live_trackers ts" "live_trackers (map Some hs) = hs"
  by (induction hs) (simp_all add: live_trackers_def List.map_filter_simps)

fun tiles :: "('h \<Rightarrow> u32) \<Rightarrow> ('h \<Rightarrow> u32) \<Rightarrow> u32 \<Rightarrow> 'h list \<Rightarrow> u32 \<Rightarrow> bool" where
  "tiles st len a [] b \<longleftrightarrow> a = b"
| "tiles st len a (h # hs) b \<longleftrightarrow> st h = a \<and> tiles st len (a + len h) hs b"

text \<open>The managers of addresses may set the fields that describe the mapping into the process, no others.\<close>

definition same_range :: "mali_memory_allocation \<Rightarrow> mali_memory_allocation \<Rightarrow> bool" where
  "same_range d' d \<longleftrightarrow>
     d' = d\<lparr>mapping := mapping d', process_addr_mapping_info := process_addr_mapping_info d'\<rparr>"

lemma same_range_refl [simp]: "same_range d d"
  by (simp add: same_range_def)

lemma same_range_fields:
  assumes "same_range d' d"
  shows "alloc_size d' = alloc_size d" "mali_address d' = mali_address d" "alloc_flags d' = alloc_flags d"
    "mali_addr_mapping_info d' = mali_addr_mapping_info d" "into_userspace d' = into_userspace d"
  using assms by (auto simp: same_range_def into_userspace_def dest: arg_cong[where f = alloc_size]
      arg_cong[where f = mali_address] arg_cong[where f = alloc_flags] arg_cong[where f = mali_addr_mapping_info])

lemma same_range_trans: "same_range c d \<Longrightarrow> same_range d e \<Longrightarrow> same_range c e"
  by (cases c; cases d; cases e) (simp add: same_range_def)

locale memory_parts =
  fixes engine :: "'w memory_engine"
    and ph :: "('al, 'h, 'p, 'w) mali_physical_memory_allocator"
    and valid :: "mali_memory_allocation \<Rightarrow> bool"
    and h_descriptor :: "'h \<Rightarrow> mali_memory_allocation" and h_start :: "'h \<Rightarrow> u32" and h_length :: "'h \<Rightarrow> u32"
    and inv :: "mali_memory_allocation multiset \<Rightarrow> mali_memory_allocation multiset \<Rightarrow> 'h multiset \<Rightarrow> 'w \<Rightarrow> bool"
  assumes mali_allocate: "inv M P H w \<Longrightarrow> valid d \<Longrightarrow> size M < 2 ^ 32 - 1 \<Longrightarrow> \<exists>err d' w'.
      am_allocate (eng_mali_address engine) d w = Some (err, d', w') \<and>
      valid d' \<and> same_range d' d \<and>
      inv (if err = ERR_OK then add_mset d' M else M) P H w'"
    and process_allocate: "inv (add_mset d M) P H w \<Longrightarrow> valid d \<Longrightarrow> into_userspace d \<Longrightarrow> \<exists>err d' w'.
      am_allocate (eng_process_address engine) d w = Some (err, d', w') \<and>
      valid d' \<and> same_range d' d \<and>
      inv (add_mset d' M) (if err = ERR_OK then add_mset d' P else P) H w'"
    and mali_release: "inv (add_mset d M) P H w \<Longrightarrow> valid d \<Longrightarrow>
      \<exists>w'. am_release (eng_mali_address engine) d w = Some w' \<and> inv M P H w'"
    and process_release: "inv M (add_mset d P) H w \<Longrightarrow> valid d \<Longrightarrow>
      \<forall>h \<in># H. into_userspace (h_descriptor h) \<longrightarrow> h_descriptor h \<in># P \<Longrightarrow>
      \<exists>w'. am_release (eng_process_address engine) d w = Some w' \<and> inv M P H w'"
    and physical_allocate: "inv M P H w \<Longrightarrow> valid d \<Longrightarrow> d \<in># M \<Longrightarrow> (into_userspace d \<longrightarrow> d \<in># P) \<Longrightarrow>
      4096 dvd unat offset \<Longrightarrow> offset < alloc_size d \<Longrightarrow> \<exists>result t offset' w'.
        pa_allocate ph a d offset w = Some (result, t, offset', w') \<and>
        (if result \<in> {MALI_MEM_ALLOC_FINISHED, MALI_MEM_ALLOC_PARTIAL} then
           \<exists>h. t = Some h \<and> h_descriptor h = d \<and> h_start h = offset \<and> offset' = offset + h_length h \<and>
             4096 dvd unat offset' \<and>
             (if result = MALI_MEM_ALLOC_FINISHED then offset' = alloc_size d else offset' < alloc_size d) \<and>
             inv M P (add_mset h H) w'
         else t = None \<and> (result = MALI_MEM_ALLOC_NONE \<longrightarrow> offset' = offset) \<and> inv M P H w')"
    and physical_release: "inv M P (add_mset h H) w \<Longrightarrow>
      (into_userspace (h_descriptor h) \<longrightarrow> h_descriptor h \<in># P) \<Longrightarrow>
      \<exists>w'. pa_release ph h w = Some w' \<and> inv M P H w'"

begin

lemma commit_memory_ok:
  assumes "inv M P H w" "valid d" "d \<in># M" "into_userspace d \<longrightarrow> d \<in># P"
    "4096 dvd unat offset" "offset < alloc_size d"
  shows "\<exists>done us w'. commit_memory ph tracker_ok d as offset ts w = Some (done, ts @ us, w') \<and>
    inv M P (mset (live_trackers us) + H) w' \<and> (\<forall>h \<in> set (live_trackers us). h_descriptor h = d) \<and>
    (done \<longrightarrow> us = map Some (live_trackers us) \<and> tiles h_start h_length offset (live_trackers us) (alloc_size d))"
  using assms(1,5,6)
proof (induction as arbitrary: offset ts w H)
  case Nil
  then show ?case by auto
next
  case (Cons a as)
  obtain result t offset' w' where a: "pa_allocate ph a d offset w = Some (result, t, offset', w')"
    and r: "if result \<in> {MALI_MEM_ALLOC_FINISHED, MALI_MEM_ALLOC_PARTIAL} then
           \<exists>h. t = Some h \<and> h_descriptor h = d \<and> h_start h = offset \<and> offset' = offset + h_length h \<and>
             4096 dvd unat offset' \<and>
             (if result = MALI_MEM_ALLOC_FINISHED then offset' = alloc_size d else offset' < alloc_size d) \<and>
             inv M P (add_mset h H) w'
         else t = None \<and> (result = MALI_MEM_ALLOC_NONE \<longrightarrow> offset' = offset) \<and> inv M P H w'"
    using physical_allocate[OF Cons.prems(1) assms(2,3,4) Cons.prems(2,3), of a] by (elim exE conjE) (rule that)
  show ?case
  proof (cases result)
    case MALI_MEM_ALLOC_FINISHED
    then obtain h where h: "t = Some h" "h_descriptor h = d" "h_start h = offset" "offset' = offset + h_length h"
      "offset' = alloc_size d" "inv M P (add_mset h H) w'" using r by auto
    then show ?thesis using a MALI_MEM_ALLOC_FINISHED
      by (intro exI[of _ True] exI[of _ "[t]"] exI[of _ w']) simp
  next
    case MALI_MEM_ALLOC_INTERNAL_FAILURE
    then have "t = None" "inv M P H w'" using r by auto
    then show ?thesis using a MALI_MEM_ALLOC_INTERNAL_FAILURE
      by (intro exI[of _ False] exI[of _ "[t]"] exI[of _ w']) simp
  next
    case MALI_MEM_ALLOC_NONE
    then have n: "t = None" "offset' = offset" "inv M P H w'" using r by auto
    then show ?thesis using a MALI_MEM_ALLOC_NONE Cons.IH[OF n(3) Cons.prems(2,3), of ts] by simp
  next
    case MALI_MEM_ALLOC_PARTIAL
    then obtain h where h: "t = Some h" "h_descriptor h = d" "h_start h = offset" "offset' = offset + h_length h"
      "4096 dvd unat offset'" "offset' < alloc_size d" "inv M P (add_mset h H) w'" using r by auto
    show ?thesis
    proof (cases "as \<noteq> [] \<and> tracker_ok w'")
      case True
      obtain don us w'' where u: "commit_memory ph tracker_ok d as offset' (ts @ [t]) w' = Some (don, (ts @ [t]) @ us, w'')"
        "inv M P (mset (live_trackers us) + add_mset h H) w''" "\<forall>h \<in> set (live_trackers us). h_descriptor h = d"
        "don \<longrightarrow> us = map Some (live_trackers us) \<and> tiles h_start h_length offset' (live_trackers us) (alloc_size d)"
        using Cons.IH[OF h(7,5,6), of "ts @ [t]"] by blast
      then show ?thesis using a h MALI_MEM_ALLOC_PARTIAL True
        by (intro exI[of _ don] exI[of _ "t # us"] exI[of _ w'']) simp
    next
      case False
      then show ?thesis using a h MALI_MEM_ALLOC_PARTIAL
        by (intro exI[of _ False] exI[of _ "[t]"] exI[of _ w']) auto
    qed
  qed
qed

lemma release_trackers_ok:
  assumes "inv M P (mset (live_trackers ts) + H) w"
    "\<And>h. h \<in> set (live_trackers ts) \<Longrightarrow> into_userspace (h_descriptor h) \<Longrightarrow> h_descriptor h \<in># P"
  shows "\<exists>w'. release_trackers ph ts w = Some w' \<and> inv M P H w'"
  using assms
proof (induction ts arbitrary: w)
  case (Cons t ts)
  show ?case
  proof (cases t)
    case (Some h)
    then obtain w' where "pa_release ph h w = Some w'" "inv M P (mset (live_trackers ts) + H) w'"
      using physical_release[of M P h "mset (live_trackers ts) + H" w] Cons.prems by auto
    then show ?thesis using Cons.IH[of w'] Cons.prems(2) Some by simp
  qed (use Cons in simp)
qed simp

lemma release_all_trackers_eq: "release_all_trackers ph (map Some hs) = release_trackers ph (map Some hs)"
proof (induction hs)
  case (Cons h hs)
  then show ?case by (intro ext) simp
qed (simp add: fun_eq_iff)

text \<open>Allocating is all or nothing, and returns.\<close>

lemma allocate_memory_ok:
  assumes i: "inv M P H w" and v: "valid d" "0 < alloc_size d" "size M < 2 ^ 32 - 1"
    and u: "\<forall>h \<in># H. into_userspace (h_descriptor h) \<longrightarrow> h_descriptor h \<in># P"
    and track: "\<And>M P H d ts w. inv M P H (track d ts w) = inv M P H w"
  shows "\<exists>err d' ts w'. mali_allocation_engine_allocate_memory engine ph tracker_ok track d as w = Some (err, d', ts, w') \<and>
    (if err = ERR_OK then \<exists>hs. ts = map Some hs \<and> tiles h_start h_length 0 hs (alloc_size d) \<and>
        (\<forall>h \<in> set hs. h_descriptor h = d') \<and> valid d' \<and> same_range d' d \<and>
        inv (add_mset d' M) (if into_userspace d' then add_mset d' P else P) (mset hs + H) w'
     else err = ERR_FAULT \<and> inv M P H w')"
proof -
  note defs = mali_allocation_engine_allocate_memory_def
  obtain e1 d1 w1 where 1: "am_allocate (eng_mali_address engine) d w = Some (e1, d1, w1)" "valid d1" "same_range d1 d"
    "inv (if e1 = ERR_OK then add_mset d1 M else M) P H w1"
    using mali_allocate[OF i v(1,3)] by blast
  note d1 = same_range_fields[OF 1(3)]
  show ?thesis
  proof (cases "e1 = ERR_OK")
    case False
    then show ?thesis using 1 by (simp add: defs)
  next
    case ok1: True
    obtain e2 d2 w2 where 2: "(if into_userspace d1 then am_allocate (eng_process_address engine) d1 w1
          else Some (ERR_OK, d1, w1)) = Some (e2, d2, w2)" "valid d2" "same_range d2 d1"
        "inv (add_mset d2 M) (if e2 = ERR_OK \<and> into_userspace d1 then add_mset d2 P else P) H w2"
      using process_allocate[of d1 M P H w1] 1 ok1 by (cases "into_userspace d1") auto
    note d2 = same_range_fields[OF 2(3)]
    show ?thesis
    proof (cases "e2 = ERR_OK")
      case False
      then obtain w3 where "am_release (eng_mali_address engine) d2 w2 = Some w3" "inv M P H w3"
        using mali_release[of d2 M P H w2] 2 by auto
      then show ?thesis using 1 2 d1 d2 ok1 False by (simp add: defs)
    next
      case ok2: True
      let ?P = "if into_userspace d2 then add_mset d2 P else P"
      have i2: "inv (add_mset d2 M) ?P H w2" using 2 d2 ok2 by simp
      have u2: "into_userspace d2 \<longrightarrow> d2 \<in># ?P" by simp
      obtain don us w3 where 3: "commit_memory ph tracker_ok d2 as 0 [] w2 = Some (don, us, w3)"
        "inv (add_mset d2 M) ?P (mset (live_trackers us) + H) w3" "\<forall>h \<in> set (live_trackers us). h_descriptor h = d2"
        "don \<longrightarrow> us = map Some (live_trackers us) \<and> tiles h_start h_length 0 (live_trackers us) (alloc_size d2)"
        using commit_memory_ok[OF i2 2(2) _ u2, of 0 tracker_ok as "[]"] v(2) d1 d2 by auto
      show ?thesis
      proof (cases don)
        case True
        then show ?thesis using 1 2 3 d1 d2 ok1 ok2 track same_range_trans[OF 2(3) 1(3)] by (auto simp: defs)
      next
        case False
        obtain w4 where 4: "release_trackers ph us w3 = Some w4" "inv (add_mset d2 M) ?P H w4"
          using release_trackers_ok[OF 3(2)] 3(3) by auto
        obtain w5 where 5: "(if into_userspace d2 then am_release (eng_process_address engine) d2 w4 else Some w4) = Some w5"
          "inv (add_mset d2 M) P H w5"
          using process_release[of "add_mset d2 M" d2 P H w4] 4(2) 2(2) u by (cases "into_userspace d2") auto
        obtain w6 where "am_release (eng_mali_address engine) d2 w5 = Some w6" "inv M P H w6"
          using mali_release[OF 5(2) 2(2)] by blast
        then show ?thesis using 1 2 3 4 5 d1 d2 ok1 ok2 False by (simp add: defs)
      qed
    qed
  qed
qed

text \<open>Releasing what was allocated returns and gives everything back.\<close>

lemma release_memory_ok:
  assumes i: "inv (add_mset d M) (if into_userspace d then add_mset d P else P) (mset hs + H) w"
    and v: "valid d" "\<forall>h \<in> set hs. h_descriptor h = d"
    and u: "\<forall>h \<in># H. into_userspace (h_descriptor h) \<longrightarrow> h_descriptor h \<in># P"
    and untrack: "\<And>M P H d w. inv M P H (untrack d w) = inv M P H w"
  shows "\<exists>w'. mali_allocation_engine_release_memory engine ph untrack d (map Some hs) w = Some w' \<and> inv M P H w'"
proof -
  let ?P = "if into_userspace d then add_mset d P else P"
  obtain w1 where 1: "am_release (eng_mali_address engine) d (untrack d w) = Some w1" "inv M ?P (mset hs + H) w1"
    using mali_release[OF _ v(1), of M ?P "mset hs + H" "untrack d w"] i untrack by auto
  obtain w2 where 2: "release_trackers ph (map Some hs) w1 = Some w2" "inv M ?P H w2"
    using release_trackers_ok[of M ?P "map Some hs" H w1] 1(2) v(2) by auto
  show ?thesis
  proof (cases "into_userspace d")
    case True
    then obtain w3 where "am_release (eng_process_address engine) d w2 = Some w3" "inv M P H w3"
      using process_release[of M d P H w2] 2(2) v(1) u by auto
    then show ?thesis using 1 2 True
      by (simp add: mali_allocation_engine_release_memory_def release_all_trackers_eq)
  next
    case False
    then show ?thesis using 1 2
      by (simp add: mali_allocation_engine_release_memory_def release_all_trackers_eq)
  qed
qed

end

end
