(* ===== verification/Block_Allocator.thy ===== *)
theory Block_Allocator
  imports Memory_Engine
begin

text \<open>
  The physical allocators' state, and the block allocator of common/mali\_block\_allocator.c: a region
  of physical memory in blocks of 256 kB.  The array \<open>all_blocks\<close> holds one link per block, and a
  pointer into it is the number of its block; the links make the list of free blocks and, in reverse
  order, the list of the blocks of every allocation.

  The operating system answers through \<open>os_env\<close>: whether a \<open>kmalloc\<close> or an \<open>ioremap\<close> succeeds and
  whether a signal interrupts the wait for a lock that allows it.
\<close>

subsection \<open>Data\<close>

datatype kmalloc_site =
    Block_allocation_site
  | Os_allocation_site
  | Tracker_site
  | Table_allocation_site
  | Usage_map_site
  | Mapping_info_site
  | Usage_tracker_site
  | Allocation_list_site
  | Descriptor_site
  | Session_site

record 'w os_env =
  kmalloc :: "kmalloc_site \<Rightarrow> 'w \<Rightarrow> bool"
  kmalloc_address :: "'w \<Rightarrow> ptr"
  lock_interrupted :: "'w \<Rightarrow> bool"
  ioremap :: "u32 \<Rightarrow> u32 \<Rightarrow> 'w \<Rightarrow> bool"
  dma_alloc_coherent :: "u32 \<Rightarrow> 'w \<Rightarrow> u32 option"
  alloc_page :: "'w \<Rightarrow> u32 option"
  remap_pfn_range :: "u32 \<Rightarrow> u32 \<Rightarrow> u32 \<Rightarrow> 'w \<Rightarrow> bool"

record block_allocator =
  block_next :: "nat \<Rightarrow> nat option"
  first_free :: "nat option"
  block_base :: u32
  block_cpu_usage_adjust :: u32
  num_blocks :: u32

record block_allocation =
  last_allocated :: "nat option"
  block_descriptor :: mali_memory_allocation
  start_offset :: u32
  mapping_length :: u32

record os_allocator =
  num_pages_max :: u32
  num_pages_allocated :: u32
  os_cpu_usage_adjust :: u32

record alloc_state =
  blk :: "nat \<Rightarrow> block_allocator"
  osa :: "nat \<Rightarrow> os_allocator"

text \<open>What the release function of a page table block is, with the allocator and the handle.\<close>

datatype pt_release = Block_pt nat nat | Os_pt nat nat

definition MALI_BLOCK_SIZE :: u32 where "MALI_BLOCK_SIZE = 256 * 1024"

definition set_blk :: "nat \<Rightarrow> block_allocator \<Rightarrow> 'a alloc_state_scheme \<Rightarrow> 'a alloc_state_scheme" where
  "set_blk i a w = w\<lparr>blk := (blk w)(i := a)\<rparr>"

definition set_osa :: "nat \<Rightarrow> os_allocator \<Rightarrow> 'a alloc_state_scheme \<Rightarrow> 'a alloc_state_scheme" where
  "set_osa i a w = w\<lparr>osa := (osa w)(i := a)\<rparr>"

lemma set_alloc_fields [simp]:
  "blk (set_blk i a w) = (blk w)(i := a)" "osa (set_blk i a w) = osa w"
  "osa (set_osa i b w) = (osa w)(i := b)" "blk (set_osa i b w) = blk w"
  by (simp_all add: set_blk_def set_osa_def)

subsection \<open>Operations\<close>

definition push_free :: "nat \<Rightarrow> block_allocator \<Rightarrow> block_allocator" where
  "push_free b a = a\<lparr>block_next := (block_next a)(b := first_free a), first_free := Some b\<rparr>"

definition mali_block_allocator_create :: "u32 \<Rightarrow> u32 \<Rightarrow> u32 \<Rightarrow> bool \<Rightarrow> block_allocator option" where
  "mali_block_allocator_create base_address cpu_usage_adjust sz memory =
     (let usable_size = sz AND NOT (MALI_BLOCK_SIZE - 1);
          num = usable_size div MALI_BLOCK_SIZE
      in if usable_size = 0 \<or> \<not> memory then None
         else Some (fold push_free [0..<unat num]
                \<lparr>block_next = \<lambda>_. None, first_free = None, block_base = base_address,
                 block_cpu_usage_adjust = cpu_usage_adjust, num_blocks = num\<rparr>))"

definition get_phys :: "block_allocator \<Rightarrow> nat \<Rightarrow> u32" where
  "get_phys a b = block_base a + of_nat b * MALI_BLOCK_SIZE"

text \<open>The loops that put the blocks of a list back into the list of free blocks.\<close>

partial_function (option) relink :: "nat option \<Rightarrow> block_allocator \<Rightarrow> block_allocator option" where
  "relink p a = (case p of None \<Rightarrow> Some a | Some b \<Rightarrow> relink (block_next a b) (push_free b a))"

definition take_block :: "nat \<Rightarrow> nat option \<Rightarrow> block_allocator \<Rightarrow> block_allocator" where
  "take_block b lst a = a\<lparr>first_free := block_next a b, block_next := (block_next a)(b := lst)\<rparr>"

definition piece_size :: "u32 \<Rightarrow> u32 \<Rightarrow> u32" where
  "piece_size offset left =
     (let padding = offset AND (MALI_BLOCK_SIZE - 1)
      in if MALI_BLOCK_SIZE - padding < left then MALI_BLOCK_SIZE - padding else left)"

lemma padding_mod: "unat (offset AND (MALI_BLOCK_SIZE - 1)) = unat offset mod 2 ^ 18"
proof -
  have "offset AND (MALI_BLOCK_SIZE - 1) = take_bit 18 offset"
    by (simp add: MALI_BLOCK_SIZE_def take_bit_eq_mask mask_eq_exp_minus_1)
  then have "unat (offset AND (MALI_BLOCK_SIZE - 1)) = take_bit 18 (unat offset)"
    by (simp only: unsigned_take_bit_eq)
  then show ?thesis by (simp only: take_bit_eq_mod)
qed

lemma unat_piece_size: "unat (piece_size offset left) = min (2 ^ 18 - unat offset mod 2 ^ 18) (unat left)"
proof -
  let ?p = "offset AND (MALI_BLOCK_SIZE - 1)"
  have "?p \<le> MALI_BLOCK_SIZE" using padding_mod[of offset] mod_less_divisor[of "2 ^ 18" "unat offset"]
    by (simp add: word_le_nat_alt MALI_BLOCK_SIZE_def)
  then have "unat (MALI_BLOCK_SIZE - ?p) = 2 ^ 18 - unat offset mod 2 ^ 18"
    by (simp add: unat_sub padding_mod) (simp add: MALI_BLOCK_SIZE_def)
  then show ?thesis by (simp add: piece_size_def Let_def word_less_nat_alt min_def)
qed

lemma piece_size_bounds:
  "left \<noteq> 0 \<Longrightarrow> 0 < unat (piece_size offset left)" "unat (piece_size offset left) \<le> unat left"
  by (simp_all add: unat_piece_size unat_eq_0 unat_gt_0)

text \<open>
  The loop of an allocation.  \<open>mapped\<close> is the mapping length so far and \<open>lst\<close> the last block taken; the
  result is the return value so far, the offset, what is left, the mapping length and the last block.
\<close>

function block_commit ::
  "'a alloc_state_scheme memory_engine \<Rightarrow> nat \<Rightarrow> mali_memory_allocation \<Rightarrow> u32 \<Rightarrow> u32 \<Rightarrow> u32 \<Rightarrow> u32 \<Rightarrow> nat option
     \<Rightarrow> 'a alloc_state_scheme
     \<Rightarrow> (mali_physical_memory_allocation_result \<times> u32 \<times> u32 \<times> u32 \<times> nat option \<times> 'a alloc_state_scheme) option" where
  "block_commit engine i d start offset left mapped lst w =
     (if left = 0 then Some (MALI_MEM_ALLOC_NONE, offset, left, mapped, lst, w)
      else case first_free (blk w i) of
        None \<Rightarrow> Some (MALI_MEM_ALLOC_NONE, offset, left, mapped, lst, w)
      | Some b \<Rightarrow>
          let w = set_blk i (take_block b lst (blk w i)) w;
              phys_addr = get_phys (blk w i) b;
              padding = offset AND (MALI_BLOCK_SIZE - 1);
              sz = piece_size offset left
          in do {
            (err, w) \<leftarrow> mali_allocation_engine_map_physical engine d offset (phys_addr + padding)
                          (block_cpu_usage_adjust (blk w i)) sz w;
            if err \<noteq> ERR_OK then do {
              w \<leftarrow> mali_allocation_engine_unmap_physical engine d start mapped 0 w;
              a \<leftarrow> relink (Some b) (blk w i);
              Some (MALI_MEM_ALLOC_INTERNAL_FAILURE, offset, left, mapped, None, set_blk i a w)
            } else block_commit engine i d start (offset + sz) (left - sz) (mapped + sz) (Some b) w
          })"
  by pat_completeness auto
termination
proof (relation "measure (\<lambda>(engine, i, d, start, offset, left, mapped, lst, w). unat left)", goal_cases)
  case (2 engine i d start offset left)
  then show ?case
    using piece_size_bounds(1)[of left offset] piece_size_bounds(2)[of offset left]
    by (simp add: unat_sub word_le_nat_alt)
qed simp

declare block_commit.simps [simp del]

definition block_allocator_allocate ::
  "'a alloc_state_scheme os_env \<Rightarrow> 'a alloc_state_scheme memory_engine \<Rightarrow> nat \<Rightarrow> mali_memory_allocation \<Rightarrow> u32
     \<Rightarrow> 'a alloc_state_scheme
     \<Rightarrow> (mali_physical_memory_allocation_result \<times> block_allocation option \<times> u32 \<times> 'a alloc_state_scheme) option" where
  "block_allocator_allocate env engine i d offset w =
     (if lock_interrupted env w then Some (MALI_MEM_ALLOC_INTERNAL_FAILURE, None, offset, w)
      else if \<not> kmalloc env Block_allocation_site w then Some (MALI_MEM_ALLOC_NONE, None, offset, w)
      else do {
        (result, offset', left, mapped, lst, w) \<leftarrow>
          block_commit engine i d offset offset (alloc_size d - offset) 0 None w;
        if lst \<noteq> None then
          Some (if left \<noteq> 0 then MALI_MEM_ALLOC_PARTIAL else MALI_MEM_ALLOC_FINISHED,
                Some \<lparr>last_allocated = lst, block_descriptor = d, start_offset = offset, mapping_length = mapped\<rparr>,
                offset', w)
        else Some (result, None, offset', w)
      })"

definition block_allocator_release ::
  "'a alloc_state_scheme os_env \<Rightarrow> 'a alloc_state_scheme memory_engine \<Rightarrow> nat \<Rightarrow> block_allocation
     \<Rightarrow> 'a alloc_state_scheme \<Rightarrow> 'a alloc_state_scheme option" where
  "block_allocator_release env engine i allocation w =
     (if lock_interrupted env w then Some w
      else do {
        w \<leftarrow> mali_allocation_engine_unmap_physical engine (block_descriptor allocation)
               (start_offset allocation) (mapping_length allocation) 0 w;
        a \<leftarrow> relink (last_allocated allocation) (blk w i);
        Some (set_blk i a w)
      })"

text \<open>
  A page table block is one block, mapped into the kernel: the mapping is of the address that is passed
  to \<open>ioremap\<close>.
\<close>

definition block_allocator_allocate_page_table_block ::
  "'a alloc_state_scheme os_env \<Rightarrow> nat \<Rightarrow> 'a alloc_state_scheme
     \<Rightarrow> mali_physical_memory_allocation_result \<times> pt_release mali_page_table_block option \<times> 'a alloc_state_scheme" where
  "block_allocator_allocate_page_table_block env i w =
     (if lock_interrupted env w then (MALI_MEM_ALLOC_INTERNAL_FAILURE, None, w)
      else case first_free (blk w i) of
        None \<Rightarrow> (MALI_MEM_ALLOC_NONE, None, w)
      | Some b \<Rightarrow>
          let phys = get_phys (blk w i) b
          in if ioremap env phys MALI_BLOCK_SIZE w
             then (MALI_MEM_ALLOC_FINISHED,
                   Some \<lparr>pt_release = Block_pt i b, pt_size = MALI_BLOCK_SIZE, pt_phys_base = phys, pt_mapping = phys\<rparr>,
                   set_blk i (take_block b None (blk w i)) w)
             else (MALI_MEM_ALLOC_INTERNAL_FAILURE, None, w))"

definition block_allocator_release_page_table_block ::
  "'a alloc_state_scheme os_env \<Rightarrow> nat \<Rightarrow> nat \<Rightarrow> 'a alloc_state_scheme \<Rightarrow> 'a alloc_state_scheme option" where
  "block_allocator_release_page_table_block env i b w =
     (if lock_interrupted env w then Some w
      else do { a \<leftarrow> relink (Some b) (blk w i); Some (set_blk i a w) })"

end
