(* ===== verification/Block_Lists.thy ===== *)
theory Block_Lists
  imports Block_Allocator Links
begin

text \<open>
  The block allocator keeps track of its blocks: they are partitioned into the free list and one list
  per live allocation, and the loops that walk these lists end.  The allocator relies on the engine
  to map memory without touching it, which the locale \<open>engine_mapping\<close> states.
\<close>

subsection \<open>Linked lists of blocks\<close>

lemma push_free_fields [simp]:
  "block_next (push_free b a) = (block_next a)(b := first_free a)" "first_free (push_free b a) = Some b"
  "block_base (push_free b a) = block_base a" "num_blocks (push_free b a) = num_blocks a"
  "block_cpu_usage_adjust (push_free b a) = block_cpu_usage_adjust a"
  by (simp_all add: push_free_def)

lemma take_block_fields [simp]:
  "block_next (take_block b p a) = (block_next a)(b := p)" "first_free (take_block b p a) = block_next a b"
  "block_base (take_block b p a) = block_base a" "num_blocks (take_block b p a) = num_blocks a"
  "block_cpu_usage_adjust (take_block b p a) = block_cpu_usage_adjust a"
  by (simp_all add: take_block_def)

text \<open>The region that an allocator manages does not change.\<close>

definition same_region :: "block_allocator \<Rightarrow> block_allocator \<Rightarrow> bool" where
  "same_region a b \<longleftrightarrow> block_base a = block_base b \<and> num_blocks a = num_blocks b \<and>
     block_cpu_usage_adjust a = block_cpu_usage_adjust b"

lemma same_region_simps [simp]:
  "same_region a a" "same_region (push_free b a) c = same_region a c" "same_region (take_block b p a) c = same_region a c"
  "same_region c (push_free b a) = same_region c a" "same_region c (take_block b p a) = same_region c a"
  by (simp_all add: same_region_def)

lemma same_region_trans: "same_region a b \<Longrightarrow> same_region b c \<Longrightarrow> same_region a c"
  by (simp add: same_region_def)

lemma relink_links:
  assumes "links (block_next a) p xs" "links (block_next a) (first_free a) fs" "distinct (xs @ fs)"
  shows "\<exists>a'. relink p a = Some a' \<and> links (block_next a') (first_free a') (rev xs @ fs) \<and>
    (\<forall>b. b \<notin> set xs \<longrightarrow> block_next a' b = block_next a b) \<and> same_region a' a"
  using assms
proof (induction xs arbitrary: p a fs)
  case Nil
  then show ?case by (subst relink.simps) simp
next
  case (Cons b xs)
  have p: "p = Some b" "links (block_next a) (block_next a b) xs" using Cons.prems(1) by auto
  have "\<exists>a'. relink (block_next a b) (push_free b a) = Some a' \<and>
      links (block_next a') (first_free a') (rev xs @ (b # fs)) \<and>
      (\<forall>c. c \<notin> set xs \<longrightarrow> block_next a' c = block_next (push_free b a) c) \<and> same_region a' (push_free b a)"
  proof (rule Cons.IH[where p = "block_next a b" and a = "push_free b a" and fs = "b # fs"])
    show "links (block_next (push_free b a)) (block_next a b) xs"
      using p(2) Cons.prems(3) by simp
    show "links (block_next (push_free b a)) (first_free (push_free b a)) (b # fs)"
      using Cons.prems(2,3) by simp
  qed (use Cons.prems(3) in auto)
  then show ?case by (subst relink.simps) (auto simp: p)
qed

subsection \<open>The partition of the blocks\<close>

text \<open>
  \<open>L\<close> is the multiset of the first pointers of the lists of live allocations; together with the free
  list they hold every block once.
\<close>

definition blk_inv :: "block_allocator \<Rightarrow> nat option multiset \<Rightarrow> bool" where
  "blk_inv a L \<longleftrightarrow> (\<exists>fs C. links (block_next a) (first_free a) fs \<and>
     (\<forall>p \<in># L. links (block_next a) p (C p)) \<and>
     mset fs + (\<Sum>p \<in># L. mset (C p)) = mset [0..<unat (num_blocks a)])"

lemma blk_inv_None [simp]: "blk_inv a (add_mset None L) \<longleftrightarrow> blk_inv a L"
proof
  show "blk_inv a L" if "blk_inv a (add_mset None L)"
    using that unfolding blk_inv_def by (elim exE conjE, intro exI conjI) auto
  assume "blk_inv a L"
  then obtain fs C where C: "links (block_next a) (first_free a) fs" "\<forall>p \<in># L. links (block_next a) p (C p)"
    "mset fs + (\<Sum>p \<in># L. mset (C p)) = mset [0..<unat (num_blocks a)]" unfolding blk_inv_def by blast
  have e: "(\<Sum>p \<in># L. mset ((C(None := [])) p)) = (\<Sum>p \<in># L. mset (C p))"
    by (intro arg_cong[where f = sum_mset] image_mset_cong) (use C(2) in auto)
  show "blk_inv a (add_mset None L)"
    unfolding blk_inv_def using C e by (intro exI[of _ fs] exI[of _ "C(None := [])"]) auto
qed

text \<open>The lists of different allocations have no block in common.\<close>

lemma partition_disjoint:
  assumes "mset fs + (\<Sum>p \<in># add_mset q L. mset (C p)) = mset [0..<n]"
  shows "distinct (C q @ fs)" "p \<in># L \<Longrightarrow> set (C p) \<inter> set (C q @ fs) = {}"
proof -
  have D: "distinct xs" if "mset xs + M = mset [0..<n]" for xs M
  proof -
    obtain ys where "mset ys = M" using ex_mset by blast
    then have "mset (xs @ ys) = mset [0..<n]" using that by simp
    then have "distinct (xs @ ys)" using mset_eq_imp_distinct_iff distinct_upt by blast
    then show ?thesis by simp
  qed
  have e: "mset (C q @ fs) + (\<Sum>p \<in># L. mset (C p)) = mset [0..<n]"
    using assms by (simp add: ac_simps)
  show "distinct (C q @ fs)" by (rule D[OF e])
  assume "p \<in># L"
  then obtain M where "L = add_mset p M" by (metis mset_add)
  then have "mset ((C q @ fs) @ C p) + (\<Sum>p \<in># M. mset (C p)) = mset [0..<n]"
    using e by (simp add: ac_simps)
  from D[OF this] show "set (C p) \<inter> set (C q @ fs) = {}" by auto
qed

lemma blk_inv_take:
  assumes "blk_inv a (add_mset p L)" "first_free a = Some b"
  shows "blk_inv (take_block b p a) (add_mset (Some b) L)" "b < unat (num_blocks a)"
proof -
  obtain fs C where C: "links (block_next a) (first_free a) fs" "\<forall>q \<in># add_mset p L. links (block_next a) q (C q)"
    "mset fs + (\<Sum>q \<in># add_mset p L. mset (C q)) = mset [0..<unat (num_blocks a)]"
    using assms(1) unfolding blk_inv_def by blast
  obtain gs where fs: "fs = b # gs" "links (block_next a) (block_next a b) gs"
    using C(1) assms(2) by (auto elim: links_SomeE)
  note d = partition_disjoint[OF C(3)]
  have n: "b \<notin> set (C p)" "b \<notin> set gs" using d(1) fs by auto
  have o: "b \<notin> set (C q) \<and> q \<noteq> Some b" if "q \<in># L" for q
  proof -
    have "b \<notin> set (C q)" using d(2)[OF that] fs by auto
    moreover have "links (block_next a) q (C q)" using C(2) that by simp
    ultimately show ?thesis by (cases "C q") auto
  qed
  let ?C = "C(Some b := b # C p)"
  have s: "(\<Sum>q \<in># L. mset (?C q)) = (\<Sum>q \<in># L. mset (C q))"
    by (intro arg_cong[where f = sum_mset] image_mset_cong) (use o in auto)
  have "\<forall>q \<in># add_mset (Some b) L. links ((block_next a)(b := p)) q (?C q)"
    using C(2) o n by auto
  moreover have "mset gs + (\<Sum>q \<in># add_mset (Some b) L. mset (?C q)) = mset [0..<unat (num_blocks a)]"
    using C(3) s by (simp add: fs ac_simps)
  ultimately show "blk_inv (take_block b p a) (add_mset (Some b) L)"
    unfolding blk_inv_def using fs n by (intro exI[of _ gs] exI[of _ ?C]) simp
  have "b \<in># mset [0..<unat (num_blocks a)]" unfolding C(3)[symmetric] by (simp add: fs)
  then show "b < unat (num_blocks a)" by simp
qed

text \<open>The loops that give blocks back end, and account for them.\<close>

lemma blk_inv_relink:
  assumes "blk_inv a (add_mset p L)"
  shows "\<exists>a'. relink p a = Some a' \<and> blk_inv a' L \<and> same_region a' a"
proof -
  obtain fs C where C: "links (block_next a) (first_free a) fs" "\<forall>q \<in># add_mset p L. links (block_next a) q (C q)"
    "mset fs + (\<Sum>q \<in># add_mset p L. mset (C q)) = mset [0..<unat (num_blocks a)]"
    using assms unfolding blk_inv_def by blast
  note d = partition_disjoint[OF C(3)]
  obtain a' where a': "relink p a = Some a'" "links (block_next a') (first_free a') (rev (C p) @ fs)"
    "\<forall>b. b \<notin> set (C p) \<longrightarrow> block_next a' b = block_next a b" "same_region a' a"
    using relink_links[OF _ C(1) d(1), of p] C(2) by auto
  have "links (block_next a') q (C q)" if "q \<in># L" for q
  proof -
    have "set (C q) \<inter> set (C p) = {}" using d(2)[OF that] by auto
    then have "links (block_next a') q (C q) = links (block_next a) q (C q)"
      by (intro links_cong) (use a'(3) in auto)
    then show ?thesis using C(2) that by simp
  qed
  moreover have "mset (rev (C p) @ fs) + (\<Sum>q \<in># L. mset (C q)) = mset [0..<unat (num_blocks a')]"
    using C(3) a'(4) by (simp add: same_region_def ac_simps)
  ultimately show ?thesis unfolding blk_inv_def using a' by blast
qed

subsection \<open>Taking blocks and giving them back at once\<close>

text \<open>\<open>a\<close> is \<open>a0\<close> after some blocks have been taken from its free list; \<open>p\<close> is the last of them.\<close>

definition popped :: "block_allocator \<Rightarrow> nat option \<Rightarrow> block_allocator \<Rightarrow> bool" where
  "popped a0 p a \<longleftrightarrow> (\<exists>ls fs. links (block_next a0) (first_free a0) (rev ls @ fs) \<and> distinct (rev ls @ fs) \<and>
     links (block_next a) p ls \<and> links (block_next a) (first_free a) fs \<and>
     (\<forall>x. x \<notin> set ls \<longrightarrow> block_next a x = block_next a0 x) \<and> same_region a a0)"

lemma popped_init:
  assumes "blk_inv a L"
  shows "popped a None a"
proof -
  have "blk_inv a (add_mset None L)" using assms by simp
  then obtain fs C where C: "links (block_next a) (first_free a) fs"
    "mset fs + (\<Sum>q \<in># add_mset None L. mset (C q)) = mset [0..<unat (num_blocks a)]"
    unfolding blk_inv_def by blast
  have "distinct fs" using partition_disjoint(1)[OF C(2)] by simp
  then show ?thesis using C(1) unfolding popped_def by (intro exI[of _ "[]"] exI[of _ fs]) simp
qed

lemma popped_take:
  assumes "popped a0 p a" "first_free a = Some b"
  shows "popped a0 (Some b) (take_block b p a)"
proof -
  obtain ls fs where l: "links (block_next a0) (first_free a0) (rev ls @ fs)" "distinct (rev ls @ fs)"
     "links (block_next a) p ls" "links (block_next a) (first_free a) fs"
     "\<forall>x. x \<notin> set ls \<longrightarrow> block_next a x = block_next a0 x" "same_region a a0"
    using assms(1) unfolding popped_def by blast
  obtain gs where fs: "fs = b # gs" "links (block_next a) (block_next a b) gs"
    using l(4) assms(2) by (auto elim: links_SomeE)
  show ?thesis unfolding popped_def
    using l fs by (intro exI[of _ "b # ls"] exI[of _ gs]) auto
qed

lemma popped_relink: "popped a0 p a \<Longrightarrow> relink p a = Some a0"
proof -
  have "relink p a = Some a0"
    if "links (block_next a0) (first_free a0) (rev ls @ fs)" "distinct (rev ls @ fs)"
     "links (block_next a) p ls" "links (block_next a) (first_free a) fs"
     "\<forall>x. x \<notin> set ls \<longrightarrow> block_next a x = block_next a0 x" "same_region a a0" for ls fs
    using that
  proof (induction ls arbitrary: p a fs)
    case Nil
    then have "first_free a = first_free a0" by (cases fs) auto
    moreover have "block_next a = block_next a0" using Nil by auto
    ultimately show ?case using Nil by (subst relink.simps) (simp add: same_region_def)
  next
    case (Cons b ls)
    have p: "p = Some b" "links (block_next a) (block_next a b) ls" using Cons.prems(3) by auto
    have "links (block_next a0) (block_next a0 b) fs"
      using links_tail[of "block_next a0" "first_free a0" "rev ls" b fs] Cons.prems(1) by simp
    moreover have "links (block_next a0) (first_free a) fs = links (block_next a) (first_free a) fs"
      by (intro links_cong) (use Cons.prems in auto)
    ultimately have e: "block_next a0 b = first_free a" using Cons.prems(4) by (auto intro: links_head)
    have "relink (block_next a b) (push_free b a) = Some a0"
    proof (rule Cons.IH[where p = "block_next a b" and a = "push_free b a" and fs = "b # fs"])
      show "links (block_next (push_free b a)) (block_next a b) ls" using p(2) Cons.prems(2) by simp
      show "links (block_next (push_free b a)) (first_free (push_free b a)) (b # fs)"
        using Cons.prems(2,4) by simp
    qed (use Cons.prems e in auto)
    then show ?case by (subst relink.simps) (simp add: p)
  qed
  then show "popped a0 p a \<Longrightarrow> relink p a = Some a0" unfolding popped_def by blast
qed

subsection \<open>The engine, as the allocators see it\<close>

text \<open>Whole pages inside the allocation.\<close>

definition page_range :: "mali_memory_allocation \<Rightarrow> u32 \<Rightarrow> u32 \<Rightarrow> bool" where
  "page_range d offset sz \<longleftrightarrow> 4096 dvd unat offset \<and> 4096 dvd unat sz \<and> unat offset + unat sz \<le> unat (alloc_size d)"

text \<open>
  The offsets of the \<open>n\<close> pages of the operating system from \<open>start\<close> on, which are listed in the
  mapping of the process at \<open>k\<close>.
\<close>

definition page_offsets :: "mali_memory_allocation \<Rightarrow> u32 \<Rightarrow> nat \<Rightarrow> ptr \<Rightarrow> u32 multiset" where
  "page_offsets d start n k =
     (if into_userspace d \<and> k = process_addr_mapping_info d
      then mset (map (\<lambda>j. start + of_nat j * 4096) [0..<n]) else {#})"

lemma page_offsets_0 [simp]: "page_offsets d start 0 = (\<lambda>_. {#})"
  by (simp add: page_offsets_def fun_eq_iff)

lemma page_offsets_Suc:
  "page_offsets d start (Suc n) k = page_offsets d start n k + page_offsets d (start + of_nat n * 4096) 1 k"
  by (simp add: page_offsets_def)

text \<open>
  \<open>held\<close> are the offsets of the pages that the process side has for every mapping: a page is had
  by mapping the magic address, and given back by unmapping with the flag for such pages.
\<close>

locale engine_mapping =
  fixes engine :: "'a alloc_state_scheme memory_engine"
    and good :: "'a alloc_state_scheme \<Rightarrow> bool"
    and can_map can_unmap :: "mali_memory_allocation \<Rightarrow> bool"
    and held :: "'a alloc_state_scheme \<Rightarrow> ptr \<Rightarrow> u32 multiset"
  assumes map_ok: "good w \<Longrightarrow> can_map d \<Longrightarrow> page_range d offset sz \<Longrightarrow> \<exists>err w'.
      mali_allocation_engine_map_physical engine d offset phys adjust sz w = Some (err, w') \<and>
      good w' \<and> blk w' = blk w \<and> osa w' = osa w \<and>
      (4096 dvd unat phys \<longrightarrow> 4096 dvd unat adjust \<longrightarrow> held w' = held w) \<and>
      (phys = OS_ALLOCATED_PHYSADDR_MAGIC \<longrightarrow> sz = OSK_CPU_PAGE_SIZE \<longrightarrow>
        held w' = (\<lambda>k. held w k + (if err = ERR_OK then page_offsets d offset 1 k else {#})))"
    and unmap_ok: "good w \<Longrightarrow> can_unmap d \<Longrightarrow> page_range d offset sz \<Longrightarrow> \<exists>w'.
      mali_allocation_engine_unmap_physical engine d offset sz flags w = Some w' \<and>
      good w' \<and> blk w' = blk w \<and> osa w' = osa w \<and> (flags = 0 \<longrightarrow> held w' = held w) \<and>
      (\<forall>f. flags = FLAG_OS_ALLOCATED_PHYSADDR \<longrightarrow> held w = (\<lambda>k. f k + page_offsets d offset (unat sz div 4096) k) \<longrightarrow>
        held w' = f)"
    and map_unmap: "can_map d \<Longrightarrow> can_unmap d"
    and good_blk: "good (set_blk i a w) = good w"
    and good_osa: "good (set_osa i b w) = good w"
    and held_blk: "held (set_blk i a w) = held w"
    and held_osa: "held (set_osa i b w) = held w"

lemma set_blk_same [simp]: "set_blk i (blk w i) w = w"
  by (simp add: set_blk_def)

lemma fun_upd_other: "f = g(i := x) \<Longrightarrow> f(i := y) = g(i := y)"
  by simp

lemma piece_size_aligned:
  assumes "4096 dvd unat offset" "4096 dvd unat left"
  shows "4096 dvd unat (piece_size offset left)"
proof -
  have "(4096 :: nat) dvd 2 ^ 18" by simp
  then have "4096 dvd 2 ^ 18 - unat offset mod 2 ^ 18"
    using assms(1) by (metis dvd_diff_nat dvd_mod)
  then show ?thesis using assms(2) unfolding unat_piece_size by (simp add: min_def)
qed

text \<open>A region of whole pages.\<close>

definition paged_region :: "block_allocator \<Rightarrow> bool" where
  "paged_region a \<longleftrightarrow> 4096 dvd unat (block_base a) \<and> 4096 dvd unat (block_cpu_usage_adjust a)"

lemma paged_region_same: "same_region a b \<Longrightarrow> paged_region a = paged_region b"
  by (simp add: same_region_def paged_region_def)

lemma paged_add: "4096 dvd unat (a :: u32) \<Longrightarrow> 4096 dvd unat b \<Longrightarrow> 4096 dvd unat (a + b)"
  by (simp add: unat_word_ariths dvd_mod)

lemma block_page_aligned:
  assumes "paged_region a" "4096 dvd unat offset"
  shows "4096 dvd unat (get_phys a b + (offset AND (MALI_BLOCK_SIZE - 1)))"
proof -
  have "4096 dvd unat (of_nat b * MALI_BLOCK_SIZE :: u32)"
    by (simp add: unat_word_ariths MALI_BLOCK_SIZE_def dvd_mod)
  then have "4096 dvd unat (get_phys a b)" using assms(1) by (simp add: get_phys_def paged_region_def paged_add)
  moreover have "offset AND (MALI_BLOCK_SIZE - 1) = take_bit 18 offset"
    by (simp add: MALI_BLOCK_SIZE_def take_bit_eq_mask mask_eq_exp_minus_1)
  then have "4096 dvd unat (offset AND (MALI_BLOCK_SIZE - 1))"
    using assms(2) by (simp only: unsigned_take_bit_eq) (simp add: take_bit_eq_mod dvd_mod)
  ultimately show ?thesis by (rule paged_add)
qed

text \<open>What the loop has done at its end.\<close>

definition block_committed ::
  "nat option multiset \<Rightarrow> block_allocator \<Rightarrow> nat \<Rightarrow> mali_memory_allocation \<Rightarrow> u32 \<Rightarrow> 'a alloc_state_scheme
     \<Rightarrow> mali_physical_memory_allocation_result \<Rightarrow> u32 \<Rightarrow> u32 \<Rightarrow> u32 \<Rightarrow> nat option \<Rightarrow> 'a alloc_state_scheme \<Rightarrow> bool" where
  "block_committed L a0 i d start w result offset' left' mapped' lst' w' \<longleftrightarrow>
     osa w' = osa w \<and> (\<forall>j. j \<noteq> i \<longrightarrow> blk w' j = blk w j) \<and> same_region (blk w' i) (blk w i) \<and>
     blk_inv (blk w' i) (add_mset lst' L) \<and>
     (if result = MALI_MEM_ALLOC_INTERNAL_FAILURE then lst' = None \<and> blk w' i = a0
      else result = MALI_MEM_ALLOC_NONE \<and> popped a0 lst' (blk w' i) \<and> (lst' \<noteq> None \<longleftrightarrow> mapped' \<noteq> 0) \<and>
        4096 dvd unat offset' \<and> 4096 dvd unat mapped' \<and>
        unat offset' = unat start + unat mapped' \<and> unat offset' + unat left' = unat (alloc_size d) \<and>
        (left' \<noteq> 0 \<longrightarrow> first_free (blk w' i) = None))"

lemma block_committed_step:
  assumes "block_committed L a0 i d start w1 result offset' left' mapped' lst' w'"
    "osa w1 = osa w" "\<forall>j. j \<noteq> i \<longrightarrow> blk w1 j = blk w j" "same_region (blk w1 i) (blk w i)"
  shows "block_committed L a0 i d start w result offset' left' mapped' lst' w'"
  using assms unfolding block_committed_def same_region_def
  by (cases "result = MALI_MEM_ALLOC_INTERNAL_FAILURE") auto

context engine_mapping
begin

text \<open>
  The loop of an allocation ends.  When a mapping fails, the allocator is back to what it was before the
  first block was taken; otherwise the blocks taken are those of the list of \<open>lst'\<close>.
\<close>

lemma block_commit_ok:
  assumes "good w" "can_map d" "blk_inv (blk w i) (add_mset lst L)" "popped a0 lst (blk w i)"
    and "4096 dvd unat offset" "4096 dvd unat left" "4096 dvd unat start" "4096 dvd unat mapped"
    and "unat offset = unat start + unat mapped" "unat offset + unat left = unat (alloc_size d)"
    and "lst \<noteq> None \<longleftrightarrow> mapped \<noteq> 0" "paged_region (blk w i)"
  shows "\<exists>result offset' left' mapped' lst' w'.
    block_commit engine i d start offset left mapped lst w = Some (result, offset', left', mapped', lst', w') \<and>
    good w' \<and> block_committed L a0 i d start w result offset' left' mapped' lst' w' \<and> held w' = held w"
  using assms(1,3-6,8-)
proof (induction "unat left" arbitrary: offset left mapped lst w rule: less_induct)
  case less
  show ?case
  proof (cases "left = 0 \<or> first_free (blk w i) = None")
    case True
    then have "block_commit engine i d start offset left mapped lst w =
        Some (MALI_MEM_ALLOC_NONE, offset, left, mapped, lst, w)"
      by (subst block_commit.simps) auto
    then show ?thesis using less.prems True unfolding block_committed_def
      by (intro exI[of _ MALI_MEM_ALLOC_NONE] exI[of _ offset] exI[of _ left] exI[of _ mapped] exI[of _ lst]
          exI[of _ w]) auto
  next
    case False
    then obtain b where b: "first_free (blk w i) = Some b" and left: "left \<noteq> 0" by auto
    let ?a = "take_block b lst (blk w i)" and ?sz = "piece_size offset left"
    let ?w = "set_blk i ?a w"
    have sz: "0 < unat ?sz" "unat ?sz \<le> unat left" "4096 dvd unat ?sz"
      using piece_size_bounds[of left offset] piece_size_bounds(2)[of offset left]
        piece_size_aligned[of offset left] left less.prems by auto
    have range: "page_range d offset ?sz" using less.prems sz by (simp add: page_range_def)
    obtain err w1 where m: "mali_allocation_engine_map_physical engine d offset
        (get_phys ?a b + (offset AND (MALI_BLOCK_SIZE - 1))) (block_cpu_usage_adjust ?a) ?sz ?w = Some (err, w1)"
      "good w1" "blk w1 = blk ?w" "osa w1 = osa ?w"
      "4096 dvd unat (get_phys ?a b + (offset AND (MALI_BLOCK_SIZE - 1))) \<longrightarrow> 4096 dvd unat (block_cpu_usage_adjust ?a) \<longrightarrow>
        held w1 = held ?w"
      using map_ok[OF _ assms(2) range, of ?w "get_phys ?a b + (offset AND (MALI_BLOCK_SIZE - 1))"
          "block_cpu_usage_adjust ?a"] less.prems(1) good_blk by blast
    have pr: "paged_region ?a" using less.prems(10) paged_region_same[of ?a "blk w i"] by simp
    then have h1: "held w1 = held w"
      using m(5) block_page_aligned[OF pr less.prems(4)] held_blk by (simp add: paged_region_def)
    have inv: "blk_inv (blk w1 i) (add_mset (Some b) L)" using blk_inv_take[OF less.prems(2) b] m(3) by simp
    have pop: "popped a0 (Some b) (blk w1 i)" using popped_take[OF less.prems(3) b] m(3) by simp
    show ?thesis
    proof (cases "err = ERR_OK")
      case False
      have "page_range d start mapped" using less.prems assms(7) by (simp add: page_range_def)
      then obtain w2 where u: "mali_allocation_engine_unmap_physical engine d start mapped 0 w1 = Some w2"
        "good w2" "blk w2 = blk w1" "osa w2 = osa w1" "held w2 = held w1"
        using unmap_ok[OF m(2) map_unmap[OF assms(2)]] by blast
      obtain a' where r: "relink (Some b) (blk w2 i) = Some a'" "blk_inv a' L" "same_region a' (blk w2 i)"
        using blk_inv_relink[OF inv] u(3) by auto
      have "a' = a0" using popped_relink[OF pop] r(1) u(3) by simp
      then show ?thesis using False b left m u r
        by (subst block_commit.simps) (auto simp: Let_def good_blk held_blk h1 block_committed_def)
    next
      case True
      have left': "unat (left - ?sz) = unat left - unat ?sz" using sz(2) by (simp add: unat_sub word_le_nat_alt)
      have "unat (alloc_size d) < 2 ^ 32" using unsigned_less[of "alloc_size d", where 'a = nat] by simp
      then have add: "unat (offset + ?sz) = unat offset + unat ?sz" "unat (mapped + ?sz) = unat mapped + unat ?sz"
        using less.prems sz(2) by (simp_all add: unat_plus_simple[THEN iffD1] word_le_nat_alt unat_word_ariths)
      have nz: "mapped + ?sz \<noteq> 0" using add(2) sz(1) by (metis add_gr_0 less_numeral_extra(3) unat_0)
      have "block_commit engine i d start offset left mapped lst w =
          block_commit engine i d start (offset + ?sz) (left - ?sz) (mapped + ?sz) (Some b) w1"
        using left b m True by (subst block_commit.simps) (simp add: Let_def)
      moreover have "same_region (blk w1 i) (blk w i)" "\<forall>j. j \<noteq> i \<longrightarrow> blk w1 j = blk w j" "osa w1 = osa w"
        using m by auto
      moreover have "\<exists>result offset' left' mapped' lst' w'.
          block_commit engine i d start (offset + ?sz) (left - ?sz) (mapped + ?sz) (Some b) w1 =
            Some (result, offset', left', mapped', lst', w') \<and>
          good w' \<and> block_committed L a0 i d start w1 result offset' left' mapped' lst' w' \<and> held w' = held w1"
        by (rule less.hyps[OF _ m(2) inv pop]) (use less.prems sz left' add nz pr m(3) in simp_all)
      ultimately show ?thesis unfolding h1 by (auto dest: block_committed_step)
    qed
  qed
qed

lemma block_allocate_ok:
  assumes "good w" "can_map d" "blk_inv (blk w i) L"
    and "4096 dvd unat offset" "4096 dvd unat (alloc_size d)" "offset < alloc_size d" "paged_region (blk w i)"
  shows "\<exists>result t offset' w'. block_allocator_allocate env engine i d offset w = Some (result, t, offset', w') \<and>
    good w' \<and> held w' = held w \<and> osa w' = osa w \<and> (\<forall>j. j \<noteq> i \<longrightarrow> blk w' j = blk w j) \<and> same_region (blk w' i) (blk w i) \<and>
    (if result \<in> {MALI_MEM_ALLOC_FINISHED, MALI_MEM_ALLOC_PARTIAL} then
       \<exists>h. t = Some h \<and> block_descriptor h = d \<and> start_offset h = offset \<and> offset' = offset + mapping_length h \<and>
         page_range d offset (mapping_length h) \<and> 4096 dvd unat offset' \<and>
         (if result = MALI_MEM_ALLOC_FINISHED then offset' = alloc_size d
          else offset' < alloc_size d \<and> first_free (blk w' i) = None) \<and>
         blk_inv (blk w' i) (add_mset (last_allocated h) L) \<and>
         relink (last_allocated h) (blk w' i) = Some (blk w i)
     else t = None \<and> blk w' = blk w \<and> (result = MALI_MEM_ALLOC_NONE \<longrightarrow> offset' = offset))"
proof (cases "lock_interrupted env w \<or> \<not> kmalloc env Block_allocation_site w")
  case True
  then show ?thesis using assms(1) by (auto simp: block_allocator_allocate_def)
next
  case False
  let ?left = "alloc_size d - offset"
  have left: "unat ?left = unat (alloc_size d) - unat offset" "unat offset \<le> unat (alloc_size d)"
    using assms(6) by (simp_all add: unat_sub word_le_nat_alt word_less_nat_alt)
  obtain result offset' left' mapped' lst' w' where
    c: "block_commit engine i d offset offset ?left 0 None w = Some (result, offset', left', mapped', lst', w')"
      "good w'" "block_committed L (blk w i) i d offset w result offset' left' mapped' lst' w'" "held w' = held w"
    using block_commit_ok[OF assms(1,2), of i None L "blk w i" offset ?left offset 0] assms left
      popped_init[OF assms(3)] by auto
  have others: "(\<forall>j. j \<noteq> i \<longrightarrow> blk w' j = blk w j)" "osa w' = osa w" "same_region (blk w' i) (blk w i)"
    "blk_inv (blk w' i) (add_mset lst' L)" using c(3) by (auto simp: block_committed_def)
  show ?thesis
  proof (cases "lst' = None")
    case True
    have "blk w' i = blk w i"
      using c(3) True popped_relink[of "blk w i" None "blk w' i"] relink.simps[of None "blk w' i"]
      by (auto simp: block_committed_def split: if_splits)
    then have "blk w' = blk w" using others(1) by (metis ext)
    moreover have "result \<in> {MALI_MEM_ALLOC_NONE, MALI_MEM_ALLOC_INTERNAL_FAILURE}"
      "result = MALI_MEM_ALLOC_NONE \<longrightarrow> offset' = offset"
      using c(3) True by (auto simp: block_committed_def word_unat_eq_iff split: if_splits)
    ultimately show ?thesis using False c True others by (auto simp: block_allocator_allocate_def)
  next
    case some: False
    then have n: "popped (blk w i) lst' (blk w' i)" "4096 dvd unat offset'" "4096 dvd unat mapped'"
        "unat offset' = unat offset + unat mapped'" "unat offset' + unat left' = unat (alloc_size d)"
        "left' \<noteq> 0 \<longrightarrow> first_free (blk w' i) = None"
      using c(3) by (auto simp: block_committed_def split: if_splits)
    have "unat (alloc_size d) < 2 ^ 32" using unsigned_less[of "alloc_size d", where 'a = nat] by simp
    then have o: "offset' = offset + mapped'"
      using n(4,5) by (simp add: word_unat_eq_iff unat_word_ariths)
    have l: "offset' = alloc_size d" if "left' = 0" using n(5) that by (simp add: word_unat_eq_iff)
    have l': "offset' < alloc_size d" if "left' \<noteq> 0"
    proof -
      have "unat left' \<noteq> 0" using that by (simp add: unat_eq_0)
      then show ?thesis using n(5) by (simp add: word_less_nat_alt)
    qed
    have "page_range d offset mapped'" using n assms(4) by (simp add: page_range_def)
    then show ?thesis using False c(1,2,4) some others n o l l' popped_relink[OF n(1)]
      by (simp add: block_allocator_allocate_def)
  qed
qed

lemma block_release_ok:
  assumes "good w" "can_unmap (block_descriptor h)" "blk_inv (blk w i) (add_mset (last_allocated h) L)"
    and "page_range (block_descriptor h) (start_offset h) (mapping_length h)" "\<not> lock_interrupted env w"
  shows "\<exists>w'. block_allocator_release env engine i h w = Some w' \<and> good w' \<and> held w' = held w \<and> osa w' = osa w \<and>
    (\<forall>j. j \<noteq> i \<longrightarrow> blk w' j = blk w j) \<and> same_region (blk w' i) (blk w i) \<and> blk_inv (blk w' i) L \<and>
    relink (last_allocated h) (blk w i) = Some (blk w' i)"
proof -
  obtain w1 where 1: "mali_allocation_engine_unmap_physical engine (block_descriptor h) (start_offset h)
      (mapping_length h) 0 w = Some w1" "good w1" "blk w1 = blk w" "osa w1 = osa w" "held w1 = held w"
    using unmap_ok[OF assms(1,2,4)] by blast
  moreover obtain a where "relink (last_allocated h) (blk w i) = Some a" "blk_inv a L" "same_region a (blk w i)"
    using blk_inv_relink[OF assms(3)] by blast
  ultimately show ?thesis using assms(5) by (simp add: block_allocator_release_def good_blk held_blk)
qed

end

text \<open>Page table blocks.\<close>

lemma block_page_table_ok:
  assumes "blk_inv (blk w i) L" "block_allocator_allocate_page_table_block env i w = (result, t, w')"
  shows "osa w' = osa w \<and> (\<exists>a. w' = set_blk i a w) \<and> same_region (blk w' i) (blk w i) \<and>
    (if result = MALI_MEM_ALLOC_FINISHED then
       \<exists>b. t = Some \<lparr>pt_release = Block_pt i b, pt_size = MALI_BLOCK_SIZE, pt_phys_base = get_phys (blk w i) b,
                pt_mapping = get_phys (blk w i) b\<rparr> \<and> b < unat (num_blocks (blk w i)) \<and>
           blk_inv (blk w' i) (add_mset (Some b) L)
     else t = None \<and> result \<noteq> MALI_MEM_ALLOC_PARTIAL \<and> w' = w)"
proof (cases "lock_interrupted env w \<or> first_free (blk w i) = None")
  case True
  then show ?thesis using assms(2)
    by (auto simp: block_allocator_allocate_page_table_block_def split: if_splits intro!: exI[of _ "blk w i"])
next
  case False
  then obtain b where b: "first_free (blk w i) = Some b" by auto
  have "blk_inv (blk w i) (add_mset None L)" using assms(1) by simp
  note t = blk_inv_take[OF this b]
  show ?thesis
  proof (cases "ioremap env (get_phys (blk w i) b) MALI_BLOCK_SIZE w")
    case True
    then show ?thesis using assms(2) False b t
      by (auto simp: block_allocator_allocate_page_table_block_def Let_def)
  next
    case False
    then show ?thesis using assms(2) b
      by (auto simp: block_allocator_allocate_page_table_block_def Let_def split: if_splits
          intro!: exI[of _ "blk w i"])
  qed
qed

lemma block_release_page_table_ok:
  assumes "blk_inv (blk w i) (add_mset (Some b) L)" "\<not> lock_interrupted env w"
  shows "\<exists>a. block_allocator_release_page_table_block env i b w = Some (set_blk i a w) \<and> blk_inv a L \<and>
    same_region a (blk w i)"
  using blk_inv_relink[OF assms(1)] assms(2) by (auto simp: block_allocator_release_page_table_block_def)

text \<open>A new allocator has all its blocks in the free list.\<close>

lemma block_create_ok:
  assumes "mali_block_allocator_create base adjust sz mem = Some a"
  shows "blk_inv a {#}" "unat (num_blocks a) = unat sz div 2 ^ 18" "block_base a = base"
proof -
  let ?a = "\<lambda>n. fold push_free [0..<n] \<lparr>block_next = \<lambda>_. None, first_free = None, block_base = base,
      block_cpu_usage_adjust = adjust, num_blocks = (sz AND NOT (MALI_BLOCK_SIZE - 1)) div MALI_BLOCK_SIZE\<rparr>"
  have f: "links (block_next (?a n)) (first_free (?a n)) (rev [0..<n]) \<and> block_base (?a n) = base \<and>
      num_blocks (?a n) = (sz AND NOT (MALI_BLOCK_SIZE - 1)) div MALI_BLOCK_SIZE" for n
  proof (induction n)
    case (Suc n)
    have "links ((block_next (?a n))(n := first_free (?a n))) (first_free (?a n)) (rev [0..<n])"
      by (rule links_update[THEN iffD2]) (use Suc in simp_all)
    then show ?case using Suc by (simp del: fun_upd_apply add: fun_upd_same)
  qed simp
  have a: "a = ?a (unat ((sz AND NOT (MALI_BLOCK_SIZE - 1)) div MALI_BLOCK_SIZE))"
    using assms by (simp add: mali_block_allocator_create_def Let_def split: if_splits)
  show "blk_inv a {#}" unfolding blk_inv_def
    using f[of "unat (num_blocks a)"] f a by (intro exI[of _ "rev [0..<unat (num_blocks a)]"]) simp
  show "block_base a = base" using f a by simp
  have "sz AND NOT (MALI_BLOCK_SIZE - 1) = sz AND NOT (mask 18)"
    by (simp add: MALI_BLOCK_SIZE_def mask_eq_exp_minus_1)
  then have "unat (sz AND NOT (MALI_BLOCK_SIZE - 1)) = 2 ^ 18 * (unat sz div 2 ^ 18)"
    by (simp only: unat_align_down)
  then show "unat (num_blocks a) = unat sz div 2 ^ 18"
    using f a by (simp add: unat_div) (simp add: MALI_BLOCK_SIZE_def)
qed

end
