(* ===== verification/Os_Allocator.thy ===== *)
theory Os_Allocator
  imports Block_Lists
begin

text \<open>
  The allocator of operating system pages, common/mali\_kernel\_mem\_os.c.  It counts the pages it has
  handed out against a limit; the pages themselves are allocated by the process address manager when
  they are mapped.
\<close>

record os_allocation =
  num_pages :: u32
  offset_start :: u32
  os_descriptor :: mali_memory_allocation

text \<open>On Linux the test of the overall usage always succeeds.\<close>

definition mali_osk_mem_check_allocated :: "u32 \<Rightarrow> bool" where
  "mali_osk_mem_check_allocated max_allocated = True"

definition mali_os_allocator_create :: "u32 \<Rightarrow> u32 \<Rightarrow> bool \<Rightarrow> os_allocator option" where
  "mali_os_allocator_create max_allocation cpu_usage_adjust memory =
     (let max_allocation = (max_allocation + OSK_CPU_PAGE_SIZE - 1) AND NOT (OSK_CPU_PAGE_SIZE - 1)
      in if \<not> memory then None
         else Some \<lparr>num_pages_max = max_allocation div OSK_CPU_PAGE_SIZE, num_pages_allocated = 0,
                    os_cpu_usage_adjust = cpu_usage_adjust\<rparr>)"

text \<open>The loop over the pages; the result is the return value so far, the offset, what is left and the pages.\<close>

function os_commit ::
  "'a alloc_state_scheme memory_engine \<Rightarrow> nat \<Rightarrow> mali_memory_allocation \<Rightarrow> u32 \<Rightarrow> u32 \<Rightarrow> u32 \<Rightarrow> u32
     \<Rightarrow> 'a alloc_state_scheme
     \<Rightarrow> (mali_physical_memory_allocation_result \<times> u32 \<times> u32 \<times> u32 \<times> 'a alloc_state_scheme) option" where
  "os_commit engine i d start offset left pages w =
     (if left > 0 \<and> num_pages_allocated (osa w i) + pages < num_pages_max (osa w i) \<and>
         mali_osk_mem_check_allocated (num_pages_max (osa w i) * OSK_CPU_PAGE_SIZE)
      then do {
        (err, w) \<leftarrow> mali_allocation_engine_map_physical engine d offset OS_ALLOCATED_PHYSADDR_MAGIC
                      (os_cpu_usage_adjust (osa w i)) OSK_CPU_PAGE_SIZE w;
        if err = ERR_NOMEM then Some (MALI_MEM_ALLOC_NONE, offset, left, pages, w)
        else if err \<noteq> ERR_OK then do {
          w \<leftarrow> (if pages > 0
               then mali_allocation_engine_unmap_physical engine d start (OSK_CPU_PAGE_SIZE * pages)
                      FLAG_OS_ALLOCATED_PHYSADDR w
               else Some w);
          Some (MALI_MEM_ALLOC_INTERNAL_FAILURE, offset, left, 0, w)
        } else os_commit engine i d start (offset + OSK_CPU_PAGE_SIZE)
                 (if left < OSK_CPU_PAGE_SIZE then 0 else left - OSK_CPU_PAGE_SIZE) (pages + 1) w
      }
      else Some (MALI_MEM_ALLOC_NONE, offset, left, pages, w))"
  by pat_completeness auto
termination
proof (relation "measure (\<lambda>(engine, i, d, start, offset, left, pages, w). unat left)", goal_cases)
  case (2 engine i d start offset left)
  then show ?case
    by (auto simp: unat_sub word_le_nat_alt word_less_nat_alt OSK_CPU_PAGE_SIZE_def OSK_CPU_PAGE_ORDER_def)
qed simp

declare os_commit.simps [simp del]

definition os_allocator_allocate ::
  "'a alloc_state_scheme os_env \<Rightarrow> 'a alloc_state_scheme memory_engine \<Rightarrow> nat \<Rightarrow> mali_memory_allocation \<Rightarrow> u32
     \<Rightarrow> 'a alloc_state_scheme
     \<Rightarrow> (mali_physical_memory_allocation_result \<times> os_allocation option \<times> u32 \<times> 'a alloc_state_scheme) option" where
  "os_allocator_allocate env engine i d offset w =
     (if \<not> kmalloc env Os_allocation_site w then Some (MALI_MEM_ALLOC_NONE, None, offset, w)
      else do {
        (result, offset', left, pages, w) \<leftarrow> os_commit engine i d offset offset (alloc_size d - offset) 0 w;
        if pages \<noteq> 0 then
          Some (if left \<noteq> 0 then MALI_MEM_ALLOC_PARTIAL else MALI_MEM_ALLOC_FINISHED,
                Some \<lparr>num_pages = pages, offset_start = offset, os_descriptor = d\<rparr>, offset',
                set_osa i ((osa w i)\<lparr>num_pages_allocated := num_pages_allocated (osa w i) + pages\<rparr>) w)
        else Some (result, None, offset', w)
      })"

definition os_allocator_release ::
  "'a alloc_state_scheme memory_engine \<Rightarrow> nat \<Rightarrow> os_allocation \<Rightarrow> 'a alloc_state_scheme
     \<Rightarrow> 'a alloc_state_scheme option" where
  "os_allocator_release engine i allocation w =
     mali_allocation_engine_unmap_physical engine (os_descriptor allocation) (offset_start allocation)
       (OSK_CPU_PAGE_SIZE * num_pages allocation) FLAG_OS_ALLOCATED_PHYSADDR
       (set_osa i ((osa w i)\<lparr>num_pages_allocated := num_pages_allocated (osa w i) - num_pages allocation\<rparr>) w)"

text \<open>A page table block is 64 contiguous pages, mapped where they are.\<close>

definition os_pt_order :: nat where "os_pt_order = 6"

definition os_allocator_allocate_page_table_block ::
  "'a alloc_state_scheme os_env \<Rightarrow> nat \<Rightarrow> 'a alloc_state_scheme
     \<Rightarrow> mali_physical_memory_allocation_result \<times> pt_release mali_page_table_block option \<times> 'a alloc_state_scheme" where
  "os_allocator_allocate_page_table_block env i w =
     (let pages_to_allocate = push_bit os_pt_order 1;
          sz = push_bit os_pt_order OSK_CPU_PAGE_SIZE;
          info = osa w i
      in if num_pages_allocated info + pages_to_allocate > num_pages_max info \<and>
            mali_osk_mem_check_allocated (num_pages_max info * OSK_CPU_PAGE_SIZE)
         then (MALI_MEM_ALLOC_NONE, None, w)
         else case dma_alloc_coherent env sz w of
           None \<Rightarrow> (MALI_MEM_ALLOC_NONE, None, w)
         | Some cpu_phys_base \<Rightarrow>
             (MALI_MEM_ALLOC_FINISHED,
              Some \<lparr>pt_release = Os_pt i os_pt_order, pt_size = sz,
                    pt_phys_base = cpu_phys_base - os_cpu_usage_adjust info, pt_mapping = cpu_phys_base\<rparr>,
              set_osa i (info\<lparr>num_pages_allocated := num_pages_allocated info + pages_to_allocate\<rparr>) w))"

definition os_allocator_page_table_block_release ::
  "nat \<Rightarrow> nat \<Rightarrow> 'a alloc_state_scheme \<Rightarrow> 'a alloc_state_scheme" where
  "os_allocator_page_table_block_release i allocation_order w =
     set_osa i ((osa w i)\<lparr>num_pages_allocated := num_pages_allocated (osa w i) - push_bit allocation_order 1\<rparr>) w"

subsection \<open>Counting the pages\<close>

text \<open>\<open>n\<close> pages are handed out; the limit stays below the size of the address space.\<close>

definition os_inv :: "os_allocator \<Rightarrow> nat \<Rightarrow> bool" where
  "os_inv a n \<longleftrightarrow> unat (num_pages_allocated a) = n \<and> n \<le> unat (num_pages_max a) \<and> unat (num_pages_max a) \<le> 2 ^ 20"

lemma page_size_eq: "OSK_CPU_PAGE_SIZE = 4096"
  by (simp add: OSK_CPU_PAGE_SIZE_def OSK_CPU_PAGE_ORDER_def)

lemma os_create_ok:
  assumes "mali_os_allocator_create max_allocation adjust mem = Some a"
  shows "os_inv a 0" and "unat max_allocation + 4095 < 2 ^ 32 \<Longrightarrow> unat (num_pages_max a) = (unat max_allocation + 4095) div 4096"
proof -
  let ?m = "max_allocation + 4095"
  have a: "a = \<lparr>num_pages_max = (?m AND NOT (mask 12)) div 4096, num_pages_allocated = 0, os_cpu_usage_adjust = adjust\<rparr>"
    using assms by (simp add: mali_os_allocator_create_def page_size_eq mask_eq_exp_minus_1 add.commute split: if_splits)
  have n: "unat (num_pages_max a) = unat ?m div 4096"
    unfolding a by (simp add: unat_div unat_align_down)
  have "unat ?m < 2 ^ 32" using unsigned_less[of ?m, where 'a = nat] by simp
  then have "unat ?m div 4096 \<le> 2 ^ 20" by simp
  then show "os_inv a 0" unfolding os_inv_def using n a by simp
  assume "unat max_allocation + 4095 < 2 ^ 32"
  then have "unat ?m = unat max_allocation + 4095" by (simp add: unat_word_ariths)
  then show "unat (num_pages_max a) = (unat max_allocation + 4095) div 4096" using n by simp
qed

text \<open>A limit in the last page of the address space is rounded up to no page at all.\<close>

lemma os_create_wraps:
  "mali_os_allocator_create 0xFFFFFFFF adjust True =
     Some \<lparr>num_pages_max = 0, num_pages_allocated = 0, os_cpu_usage_adjust = adjust\<rparr>"
  by (simp add: mali_os_allocator_create_def page_size_eq)

context engine_mapping
begin

lemma os_commit_ok:
  assumes "good w" "can_map d" "os_inv (osa w i) n" "n + unat pages \<le> unat (num_pages_max (osa w i))"
    and "4096 dvd unat start" "4096 dvd unat left" "unat offset = unat start + 4096 * unat pages"
    and "unat offset + unat left = unat (alloc_size d)"
    and "held w = (\<lambda>k. f k + page_offsets d start (unat pages) k)"
  shows "\<exists>result offset' left' pages' w'.
    os_commit engine i d start offset left pages w = Some (result, offset', left', pages', w') \<and>
    good w' \<and> blk w' = blk w \<and> osa w' = osa w \<and> held w' = (\<lambda>k. f k + page_offsets d start (unat pages') k) \<and>
    (if result = MALI_MEM_ALLOC_INTERNAL_FAILURE then pages' = 0
     else result = MALI_MEM_ALLOC_NONE \<and> n + unat pages' \<le> unat (num_pages_max (osa w i)) \<and>
       unat offset' = unat start + 4096 * unat pages' \<and> unat offset' + unat left' = unat (alloc_size d))"
  using assms(1,3,4,6-)
proof (induction "unat left" arbitrary: offset left pages w rule: less_induct)
  case less
  let ?a = "osa w i"
  have bound: "unat (num_pages_allocated ?a + pages) = n + unat pages"
    using less.prems(2,3) by (simp add: os_inv_def unat_word_ariths)
  show ?case
  proof (cases "left > 0 \<and> num_pages_allocated ?a + pages < num_pages_max ?a")
    case False
    then have "os_commit engine i d start offset left pages w = Some (MALI_MEM_ALLOC_NONE, offset, left, pages, w)"
      by (subst os_commit.simps) auto
    then show ?thesis using less.prems
      by (intro exI[of _ MALI_MEM_ALLOC_NONE] exI[of _ offset] exI[of _ left] exI[of _ pages] exI[of _ w]) simp
  next
    case True
    then have left: "4096 \<le> unat left" using less.prems(4) by (auto simp: word_less_nat_alt dest: dvd_imp_le)
    have room: "n + unat pages < unat (num_pages_max ?a)" using True bound by (simp add: word_less_nat_alt)
    have size: "unat (alloc_size d) < 2 ^ 32" using unsigned_less[of "alloc_size d", where 'a = nat] by simp
    have range: "page_range d offset OSK_CPU_PAGE_SIZE"
      using less.prems left assms(5) by (simp add: page_range_def page_size_eq)
    obtain err w1 where m: "mali_allocation_engine_map_physical engine d offset OS_ALLOCATED_PHYSADDR_MAGIC
        (os_cpu_usage_adjust ?a) OSK_CPU_PAGE_SIZE w = Some (err, w1)" "good w1" "blk w1 = blk w" "osa w1 = osa w"
      "held w1 = (\<lambda>k. held w k + (if err = ERR_OK then page_offsets d offset 1 k else {#}))"
      using map_ok[OF less.prems(1) assms(2) range] by blast
    have small: "4096 * unat pages < 2 ^ 32" using less.prems(5,6) size by simp
    have off: "offset = start + of_nat (unat pages) * 4096"
      using less.prems(5,6) size by (simp add: word_unat_eq_iff unat_word_ariths)
    consider "err = ERR_NOMEM" | "err = ERR_OK" | "err \<noteq> ERR_NOMEM" "err \<noteq> ERR_OK" by blast
    then show ?thesis
    proof cases
      case 1
      then have "os_commit engine i d start offset left pages w = Some (MALI_MEM_ALLOC_NONE, offset, left, pages, w1)"
        using True m by (subst os_commit.simps) (simp add: mali_osk_mem_check_allocated_def)
      moreover have "held w1 = held w" unfolding m(5) using 1 by simp
      ultimately show ?thesis using less.prems m(1-4)
        by (intro exI[of _ MALI_MEM_ALLOC_NONE] exI[of _ offset] exI[of _ left] exI[of _ pages] exI[of _ w1]) simp
    next
      case 2
      define r where "r = (if left < OSK_CPU_PAGE_SIZE then 0 else left - OSK_CPU_PAGE_SIZE)"
      have l: "unat r = unat left - 4096"
        using left by (simp add: r_def page_size_eq word_less_nat_alt unat_sub word_le_nat_alt)
      have p: "unat (pages + 1) = Suc (unat pages)"
        using room less.prems(2) by (simp add: os_inv_def unat_word_ariths)
      have h1: "held w1 = (\<lambda>k. f k + page_offsets d start (unat (pages + 1)) k)"
        unfolding m(5) less.prems(7) p page_offsets_Suc off[symmetric] using 2 by (simp add: ac_simps)
      have o: "unat (offset + OSK_CPU_PAGE_SIZE) = unat offset + 4096"
        using less.prems(6) left size by (simp add: page_size_eq unat_word_ariths)
      have "os_commit engine i d start offset left pages w =
          os_commit engine i d start (offset + OSK_CPU_PAGE_SIZE) r (pages + 1) w1"
        using True m 2 by (subst os_commit.simps) (simp add: mali_osk_mem_check_allocated_def r_def)
      moreover have "\<exists>result offset' left' pages' w'.
          os_commit engine i d start (offset + OSK_CPU_PAGE_SIZE) r (pages + 1) w1 =
            Some (result, offset', left', pages', w') \<and>
          good w' \<and> blk w' = blk w1 \<and> osa w' = osa w1 \<and> held w' = (\<lambda>k. f k + page_offsets d start (unat pages') k) \<and>
          (if result = MALI_MEM_ALLOC_INTERNAL_FAILURE then pages' = 0
           else result = MALI_MEM_ALLOC_NONE \<and> n + unat pages' \<le> unat (num_pages_max (osa w1 i)) \<and>
             unat offset' = unat start + 4096 * unat pages' \<and> unat offset' + unat left' = unat (alloc_size d))"
      proof (rule less.hyps)
        show "4096 dvd unat r" using l less.prems(4) by (simp add: dvd_diff_nat)
      qed (use less.prems(1-6) h1 m l p o room left in simp_all)
      ultimately show ?thesis by (simp only: m(3,4))
    next
      case 3
      have "page_range d start (OSK_CPU_PAGE_SIZE * pages)"
        using less.prems(5,6) assms(5) size
        by (simp add: page_range_def page_size_eq unat_word_ariths)
      then obtain w2 where u: "mali_allocation_engine_unmap_physical engine d start (OSK_CPU_PAGE_SIZE * pages)
          FLAG_OS_ALLOCATED_PHYSADDR w1 = Some w2" "good w2" "blk w2 = blk w1" "osa w2 = osa w1"
        "held w1 = (\<lambda>k. f k + page_offsets d start (unat (OSK_CPU_PAGE_SIZE * pages) div 4096) k) \<longrightarrow> held w2 = f"
        using unmap_ok[OF m(2) map_unmap[OF assms(2)]] by blast
      have h1: "held w1 = held w" unfolding m(5) using 3 by simp
      have "unat (OSK_CPU_PAGE_SIZE * pages) div 4096 = unat pages"
        using small by (simp add: page_size_eq unat_word_ariths)
      then have h2: "held w2 = f" using u(5) h1 less.prems(7) by simp
      have h3: "held w1 = f" if "\<not> pages > 0" 
      proof -
        have "pages = 0" using that by (simp add: word_neq_0_conv[symmetric])
        then show ?thesis using h1 less.prems(7) by simp
      qed
      have "os_commit engine i d start offset left pages w =
          Some (MALI_MEM_ALLOC_INTERNAL_FAILURE, offset, left, 0, if pages > 0 then w2 else w1)"
        using True m 3 u by (subst os_commit.simps) (simp add: mali_osk_mem_check_allocated_def)
      then show ?thesis using m u h2 h3
        by (intro exI[of _ MALI_MEM_ALLOC_INTERNAL_FAILURE] exI[of _ offset] exI[of _ left] exI[of _ 0]
            exI[of _ "if pages > 0 then w2 else w1"]) simp
    qed
  qed
qed

lemma os_allocate_ok:
  assumes "good w" "can_map d" "os_inv (osa w i) n"
    and "4096 dvd unat offset" "4096 dvd unat (alloc_size d)" "offset < alloc_size d"
  shows "\<exists>result t offset' w'. os_allocator_allocate env engine i d offset w = Some (result, t, offset', w') \<and>
    good w' \<and>
    held w' = (\<lambda>k. held w k + (case t of None \<Rightarrow> {#} | Some h \<Rightarrow> page_offsets d (offset_start h) (unat (num_pages h)) k)) \<and>
    (\<forall>h. t = Some h \<longrightarrow> unat (num_pages h) < 2 ^ 20) \<and> blk w' = blk w \<and> (\<forall>j. j \<noteq> i \<longrightarrow> osa w' j = osa w j) \<and>
    (\<forall>j. os_cpu_usage_adjust (osa w' j) = os_cpu_usage_adjust (osa w j)) \<and>
    (if result \<in> {MALI_MEM_ALLOC_FINISHED, MALI_MEM_ALLOC_PARTIAL} then
       \<exists>h. t = Some h \<and> os_descriptor h = d \<and> offset_start h = offset \<and>
         offset' = offset + OSK_CPU_PAGE_SIZE * num_pages h \<and>
         page_range d offset (OSK_CPU_PAGE_SIZE * num_pages h) \<and> 4096 dvd unat offset' \<and>
         (if result = MALI_MEM_ALLOC_FINISHED then offset' = alloc_size d else offset' < alloc_size d) \<and>
         os_inv (osa w' i) (n + unat (num_pages h))
     else t = None \<and> osa w' = osa w \<and> (result = MALI_MEM_ALLOC_NONE \<longrightarrow> offset' = offset))"
proof (cases "kmalloc env Os_allocation_site w")
  case False
  then show ?thesis using assms(1) by (auto simp: os_allocator_allocate_def)
next
  case True
  let ?left = "alloc_size d - offset"
  have left: "unat ?left = unat (alloc_size d) - unat offset" "unat offset \<le> unat (alloc_size d)"
    using assms(6) by (simp_all add: unat_sub word_le_nat_alt word_less_nat_alt)
  obtain result offset' left' pages' w' where
    c: "os_commit engine i d offset offset ?left 0 w = Some (result, offset', left', pages', w')"
      "good w'" "blk w' = blk w" "osa w' = osa w" "held w' = (\<lambda>k. held w k + page_offsets d offset (unat pages') k)"
      "if result = MALI_MEM_ALLOC_INTERNAL_FAILURE then pages' = 0
       else result = MALI_MEM_ALLOC_NONE \<and> n + unat pages' \<le> unat (num_pages_max (osa w i)) \<and>
         unat offset' = unat offset + 4096 * unat pages' \<and> unat offset' + unat left' = unat (alloc_size d)"
    using os_commit_ok[OF assms(1-3), of 0 offset ?left offset "held w"] assms left by (auto simp: os_inv_def)
  have size: "unat (alloc_size d) < 2 ^ 32" using unsigned_less[of "alloc_size d", where 'a = nat] by simp
  show ?thesis
  proof (cases "pages' = 0")
    case True
    then have "result \<in> {MALI_MEM_ALLOC_NONE, MALI_MEM_ALLOC_INTERNAL_FAILURE}"
      "result = MALI_MEM_ALLOC_NONE \<longrightarrow> offset' = offset"
      using c(6) by (auto simp: word_unat_eq_iff split: if_splits)
    then show ?thesis using \<open>kmalloc env Os_allocation_site w\<close> c True by (auto simp: os_allocator_allocate_def)
  next
    case False
    then have n: "n + unat pages' \<le> unat (num_pages_max (osa w i))" "unat offset' = unat offset + 4096 * unat pages'"
      "unat offset' + unat left' = unat (alloc_size d)" using c(6) by (auto split: if_splits)
    have o: "offset' = offset + OSK_CPU_PAGE_SIZE * pages'"
      using n(2,3) size by (simp add: word_unat_eq_iff unat_word_ariths page_size_eq)
    have l: "offset' = alloc_size d" if "left' = 0" using n(3) that by (simp add: word_unat_eq_iff)
    have l': "offset' < alloc_size d" if "left' \<noteq> 0"
    proof -
      have "unat left' \<noteq> 0" using that by (simp add: unat_eq_0)
      then show ?thesis using n(3) by (simp add: word_less_nat_alt)
    qed
    have r: "page_range d offset (OSK_CPU_PAGE_SIZE * pages')"
      using n(2,3) size assms(4) by (simp add: page_range_def page_size_eq unat_word_ariths)
    have al: "4096 dvd unat offset'" using n(2) assms(4) by simp
    have few: "unat pages' < 2 ^ 20" using n(2,3) size by simp
    have inv: "os_inv ((osa w i)\<lparr>num_pages_allocated := num_pages_allocated (osa w i) + pages'\<rparr>) (n + unat pages')"
      using assms(3) n(1) by (simp add: os_inv_def unat_word_ariths)
    show ?thesis using \<open>kmalloc env Os_allocation_site w\<close> c False o l l' r al inv few
      by (simp add: os_allocator_allocate_def good_osa held_osa)
  qed
qed

lemma os_release_ok:
  assumes "good w" "can_unmap (os_descriptor h)" "os_inv (osa w i) (n + unat (num_pages h))"
    and "page_range (os_descriptor h) (offset_start h) (OSK_CPU_PAGE_SIZE * num_pages h)"
    and "unat (num_pages h) < 2 ^ 20"
    and "held w = (\<lambda>k. f k + page_offsets (os_descriptor h) (offset_start h) (unat (num_pages h)) k)"
  shows "\<exists>w'. os_allocator_release engine i h w = Some w' \<and> good w' \<and> held w' = f \<and> blk w' = blk w \<and>
    (\<forall>j. j \<noteq> i \<longrightarrow> osa w' j = osa w j) \<and>
    (\<forall>j. os_cpu_usage_adjust (osa w' j) = os_cpu_usage_adjust (osa w j)) \<and> os_inv (osa w' i) n"
proof -
  let ?a = "(osa w i)\<lparr>num_pages_allocated := num_pages_allocated (osa w i) - num_pages h\<rparr>"
  have "unat (OSK_CPU_PAGE_SIZE * num_pages h) div 4096 = unat (num_pages h)"
    using assms(5) by (simp add: page_size_eq unat_word_ariths)
  then have h: "held (set_osa i ?a w) =
      (\<lambda>k. f k + page_offsets (os_descriptor h) (offset_start h) (unat (OSK_CPU_PAGE_SIZE * num_pages h) div 4096) k)"
    using assms(6) held_osa by simp
  obtain w' where "mali_allocation_engine_unmap_physical engine (os_descriptor h) (offset_start h)
      (OSK_CPU_PAGE_SIZE * num_pages h) FLAG_OS_ALLOCATED_PHYSADDR (set_osa i ?a w) = Some w'"
    "good w'" "blk w' = blk w" "osa w' = (osa w)(i := ?a)" "held w' = f"
    using unmap_ok[OF _ assms(2,4), of "set_osa i ?a w" FLAG_OS_ALLOCATED_PHYSADDR] assms(1) good_osa h by auto
  moreover have "os_inv ?a n" using assms(3) by (simp add: os_inv_def unat_sub word_le_nat_alt)
  ultimately show ?thesis by (simp add: os_allocator_release_def)
qed

end

lemma os_page_table_ok:
  assumes "os_inv (osa w i) n" "os_allocator_allocate_page_table_block env i w = (result, t, w')"
  shows "(\<exists>a. w' = set_osa i a w \<and> os_cpu_usage_adjust a = os_cpu_usage_adjust (osa w i)) \<and>
    (if result = MALI_MEM_ALLOC_FINISHED then
       \<exists>phys. dma_alloc_coherent env (64 * 4096) w = Some phys \<and>
         t = Some \<lparr>pt_release = Os_pt i 6, pt_size = 64 * 4096, pt_phys_base = phys - os_cpu_usage_adjust (osa w i),
                   pt_mapping = phys\<rparr> \<and> os_inv (osa w' i) (n + 64)
     else t = None \<and> result = MALI_MEM_ALLOC_NONE \<and> w' = w)"
proof -
  have b: "unat (num_pages_allocated (osa w i) + 64) = n + 64"
    using assms(1) by (simp add: os_inv_def unat_word_ariths)
  have s: "set_osa i (osa w i) w = w" by (simp add: set_osa_def)
  show ?thesis
  proof (cases "num_pages_allocated (osa w i) + 64 > num_pages_max (osa w i) \<or> dma_alloc_coherent env (64 * 4096) w = None")
    case True
    then show ?thesis using assms(2) s
      by (auto simp: os_allocator_allocate_page_table_block_def os_pt_order_def page_size_eq Let_def mali_osk_mem_check_allocated_def
          split: if_splits intro!: exI[of _ "osa w i"])
  next
    case False
    then have "os_inv ((osa w i)\<lparr>num_pages_allocated := num_pages_allocated (osa w i) + 64\<rparr>) (n + 64)"
      using assms(1) b by (simp add: os_inv_def word_less_nat_alt not_less)
    then show ?thesis using assms(2) False
      by (auto simp: os_allocator_allocate_page_table_block_def os_pt_order_def page_size_eq Let_def mali_osk_mem_check_allocated_def
          split: if_splits)
  qed
qed

lemma os_page_table_release_ok:
  assumes "os_inv (osa w i) (n + 64)"
  shows "\<exists>a. os_allocator_page_table_block_release i 6 w = set_osa i a w \<and> os_inv a n \<and>
    os_cpu_usage_adjust a = os_cpu_usage_adjust (osa w i)"
  using assms by (auto simp: os_allocator_page_table_block_release_def os_inv_def unat_sub word_le_nat_alt)

end
