(* ===== verification/Physical_Memory.thy ===== *)
theory Physical_Memory
  imports Os_Allocator
begin

text \<open>
  The physical allocators together: the table of functions that the memory engine calls, for block
  allocators and for allocators of operating system pages, and the account of all physical memory.
\<close>

datatype allocator_id = Block_allocator nat | Os_allocator nat

datatype phys_handle = Block_handle nat block_allocation | Os_handle nat os_allocation

subsection \<open>The function table\<close>

fun physical_allocate ::
  "'a alloc_state_scheme os_env \<Rightarrow> 'a alloc_state_scheme memory_engine \<Rightarrow> allocator_id \<Rightarrow> mali_memory_allocation \<Rightarrow> u32
     \<Rightarrow> 'a alloc_state_scheme
     \<Rightarrow> (mali_physical_memory_allocation_result \<times> phys_handle option \<times> u32 \<times> 'a alloc_state_scheme) option" where
  "physical_allocate env engine (Block_allocator i) d offset w = do {
     (result, h, offset, w) \<leftarrow> block_allocator_allocate env engine i d offset w;
     Some (result, map_option (Block_handle i) h, offset, w)
   }"
| "physical_allocate env engine (Os_allocator i) d offset w = do {
     (result, h, offset, w) \<leftarrow> os_allocator_allocate env engine i d offset w;
     Some (result, map_option (Os_handle i) h, offset, w)
   }"

fun physical_release ::
  "'a alloc_state_scheme os_env \<Rightarrow> 'a alloc_state_scheme memory_engine \<Rightarrow> phys_handle \<Rightarrow> 'a alloc_state_scheme
     \<Rightarrow> 'a alloc_state_scheme option" where
  "physical_release env engine (Block_handle i h) w = block_allocator_release env engine i h w"
| "physical_release env engine (Os_handle i h) w = os_allocator_release engine i h w"

fun physical_page_tables ::
  "'a alloc_state_scheme os_env \<Rightarrow> allocator_id \<Rightarrow> 'a alloc_state_scheme
     \<Rightarrow> mali_physical_memory_allocation_result \<times> pt_release mali_page_table_block option \<times> 'a alloc_state_scheme" where
  "physical_page_tables env (Block_allocator i) w = block_allocator_allocate_page_table_block env i w"
| "physical_page_tables env (Os_allocator i) w = os_allocator_allocate_page_table_block env i w"

fun release_page_tables ::
  "'a alloc_state_scheme os_env \<Rightarrow> pt_release \<Rightarrow> 'a alloc_state_scheme \<Rightarrow> 'a alloc_state_scheme option" where
  "release_page_tables env (Block_pt i b) w = block_allocator_release_page_table_block env i b w"
| "release_page_tables env (Os_pt i n) w = Some (os_allocator_page_table_block_release i n w)"

definition physical_allocators ::
  "'a alloc_state_scheme os_env \<Rightarrow> 'a alloc_state_scheme memory_engine
     \<Rightarrow> (allocator_id, phys_handle, pt_release, 'a alloc_state_scheme) mali_physical_memory_allocator" where
  "physical_allocators env engine =
     \<lparr>pa_allocate = physical_allocate env engine, pa_release = physical_release env engine,
      pa_allocate_page_table_block = (\<lambda>a w. Some (physical_page_tables env a w))\<rparr>"

fun handle_descriptor :: "phys_handle \<Rightarrow> mali_memory_allocation" where
  "handle_descriptor (Block_handle i h) = block_descriptor h"
| "handle_descriptor (Os_handle i h) = os_descriptor h"

fun handle_start :: "phys_handle \<Rightarrow> u32" where
  "handle_start (Block_handle i h) = start_offset h"
| "handle_start (Os_handle i h) = offset_start h"

fun handle_length :: "phys_handle \<Rightarrow> u32" where
  "handle_length (Block_handle i h) = mapping_length h"
| "handle_length (Os_handle i h) = OSK_CPU_PAGE_SIZE * num_pages h"

subsection \<open>The account of physical memory\<close>

text \<open>
  \<open>H\<close> are the live handles and \<open>T\<close> the page table blocks: every block of a block allocator is free or in
  exactly one of them, and the page counts are theirs.
\<close>

fun handle_list :: "nat \<Rightarrow> phys_handle \<Rightarrow> nat option multiset" where
  "handle_list i (Block_handle j h) = (if j = i then {#last_allocated h#} else {#})"
| "handle_list i (Os_handle j h) = {#}"

fun pt_list :: "nat \<Rightarrow> pt_release \<Rightarrow> nat option multiset" where
  "pt_list i (Block_pt j b) = (if j = i then {#Some b#} else {#})"
| "pt_list i (Os_pt j n) = {#}"

fun handle_pages :: "nat \<Rightarrow> phys_handle \<Rightarrow> nat" where
  "handle_pages i (Block_handle j h) = 0"
| "handle_pages i (Os_handle j h) = (if j = i then unat (num_pages h) else 0)"

fun pt_pages :: "nat \<Rightarrow> pt_release \<Rightarrow> nat" where
  "pt_pages i (Block_pt j b) = 0"
| "pt_pages i (Os_pt j n) = (if j = i then 2 ^ n else 0)"

definition alloc_inv :: "phys_handle multiset \<Rightarrow> pt_release multiset \<Rightarrow> 'a alloc_state_scheme \<Rightarrow> bool" where
  "alloc_inv H T w \<longleftrightarrow>
     (\<forall>i. blk_inv (blk w i) ((\<Sum>h \<in># H. handle_list i h) + (\<Sum>t \<in># T. pt_list i t))) \<and>
     (\<forall>i. os_inv (osa w i) ((\<Sum>h \<in># H. handle_pages i h) + (\<Sum>t \<in># T. pt_pages i t))) \<and>
     (\<forall>h \<in># H. page_range (handle_descriptor h) (handle_start h) (handle_length h)) \<and>
     (\<forall>i n. Os_pt i n \<in># T \<longrightarrow> n = os_pt_order)"

text \<open>The offsets of the pages of the operating system in the mapping at \<open>k\<close> are those of the handles.\<close>

fun handle_offsets :: "ptr \<Rightarrow> phys_handle \<Rightarrow> u32 multiset" where
  "handle_offsets k (Block_handle j h) = {#}"
| "handle_offsets k (Os_handle j h) = page_offsets (os_descriptor h) (offset_start h) (unat (num_pages h)) k"

fun few_pages :: "phys_handle \<Rightarrow> bool" where
  "few_pages (Block_handle j h) = True"
| "few_pages (Os_handle j h) = (unat (num_pages h) < 2 ^ 20)"

definition held_inv :: "(ptr \<Rightarrow> u32 multiset) \<Rightarrow> phys_handle multiset \<Rightarrow> bool" where
  "held_inv f H \<longleftrightarrow> f = (\<lambda>k. \<Sum>h \<in># H. handle_offsets k h) \<and> (\<forall>h \<in># H. few_pages h)"

lemma held_inv_add:
  "held_inv f (add_mset h H) \<longleftrightarrow> few_pages h \<and> held_inv (\<lambda>k. \<Sum>h \<in># H. handle_offsets k h) H \<and>
     f = (\<lambda>k. (\<Sum>h \<in># H. handle_offsets k h) + handle_offsets k h)"
  by (auto simp: held_inv_def ac_simps)

lemma alloc_inv_frame:
  "blk w' = blk w \<Longrightarrow> osa w' = osa w \<Longrightarrow> alloc_inv H T w' = alloc_inv H T w"
  by (simp add: alloc_inv_def)

text \<open>The regions of the block allocators never change.\<close>

definition same_regions :: "'a alloc_state_scheme \<Rightarrow> 'a alloc_state_scheme \<Rightarrow> bool" where
  "same_regions w' w \<longleftrightarrow> (\<forall>i. same_region (blk w' i) (blk w i)) \<and>
     (\<forall>i. os_cpu_usage_adjust (osa w' i) = os_cpu_usage_adjust (osa w i))"

lemma same_regions_refl [simp]: "same_regions w w"
  by (simp add: same_regions_def)

lemma same_regions_trans: "same_regions a b \<Longrightarrow> same_regions b c \<Longrightarrow> same_regions a c"
  by (auto simp: same_regions_def intro: same_region_trans)

lemma alloc_inv_change_block:
  assumes "alloc_inv H T w" "blk_inv a ((\<Sum>h \<in># H'. handle_list i h) + (\<Sum>t \<in># T'. pt_list i t))"
    "\<And>j. j \<noteq> i \<Longrightarrow> (\<Sum>h \<in># H'. handle_list j h) + (\<Sum>t \<in># T'. pt_list j t) =
       (\<Sum>h \<in># H. handle_list j h) + (\<Sum>t \<in># T. pt_list j t)"
    "\<And>j. (\<Sum>h \<in># H'. handle_pages j h) + (\<Sum>t \<in># T'. pt_pages j t) =
       (\<Sum>h \<in># H. handle_pages j h) + (\<Sum>t \<in># T. pt_pages j t)"
    "\<forall>h \<in># H'. page_range (handle_descriptor h) (handle_start h) (handle_length h)"
    "\<forall>i n. Os_pt i n \<in># T' \<longrightarrow> n = os_pt_order"
    "blk w' i = a" "\<And>j. j \<noteq> i \<Longrightarrow> blk w' j = blk w j" "osa w' = osa w"
  shows "alloc_inv H' T' w'"
proof -
  have "blk_inv (blk w' j) ((\<Sum>h \<in># H'. handle_list j h) + (\<Sum>t \<in># T'. pt_list j t))" for j
    using assms(1-3,7,8) unfolding alloc_inv_def by (cases "j = i") (auto simp: assms(3))
  then show ?thesis using assms(1,4,5,6,9) unfolding alloc_inv_def by simp
qed

lemma alloc_inv_change_os:
  assumes "alloc_inv H T w" "os_inv a ((\<Sum>h \<in># H'. handle_pages i h) + (\<Sum>t \<in># T'. pt_pages i t))"
    "\<And>j. (\<Sum>h \<in># H'. handle_list j h) + (\<Sum>t \<in># T'. pt_list j t) =
       (\<Sum>h \<in># H. handle_list j h) + (\<Sum>t \<in># T. pt_list j t)"
    "\<And>j. j \<noteq> i \<Longrightarrow> (\<Sum>h \<in># H'. handle_pages j h) + (\<Sum>t \<in># T'. pt_pages j t) =
       (\<Sum>h \<in># H. handle_pages j h) + (\<Sum>t \<in># T. pt_pages j t)"
    "\<forall>h \<in># H'. page_range (handle_descriptor h) (handle_start h) (handle_length h)"
    "\<forall>i n. Os_pt i n \<in># T' \<longrightarrow> n = os_pt_order"
    "osa w' i = a" "\<And>j. j \<noteq> i \<Longrightarrow> osa w' j = osa w j" "blk w' = blk w"
  shows "alloc_inv H' T' w'"
proof -
  have "os_inv (osa w' j) ((\<Sum>h \<in># H'. handle_pages j h) + (\<Sum>t \<in># T'. pt_pages j t))" for j
    using assms(1,2,4,7,8) unfolding alloc_inv_def by (cases "j = i") (auto simp: assms(4))
  then show ?thesis using assms(1,3,5,6,9) unfolding alloc_inv_def by simp
qed

subsection \<open>Page table blocks\<close>

text \<open>What a new page table block is: a block of a block allocator, or memory from the system.\<close>

definition new_pt :: "'a alloc_state_scheme os_env \<Rightarrow> 'a alloc_state_scheme \<Rightarrow> pt_release mali_page_table_block \<Rightarrow> bool" where
  "new_pt env w b \<longleftrightarrow> pt_size b = 64 * 4096 \<and>
     (case pt_release b of
        Block_pt i n \<Rightarrow> n < unat (num_blocks (blk w i)) \<and> pt_phys_base b = get_phys (blk w i) n \<and>
          pt_mapping b = pt_phys_base b
      | Os_pt i n \<Rightarrow> \<exists>phys. dma_alloc_coherent env (64 * 4096) w = Some phys \<and>
          pt_phys_base b = phys - os_cpu_usage_adjust (osa w i) \<and> pt_mapping b = phys)"

lemma physical_page_tables_ok:
  assumes "alloc_inv H T w" "physical_page_tables env a w = (result, t, w')"
  shows "(\<exists>f g. w' = w\<lparr>blk := f, osa := g\<rparr>) \<and> same_regions w' w \<and>
    (if result = MALI_MEM_ALLOC_FINISHED then
       \<exists>b. t = Some b \<and> new_pt env w b \<and> alloc_inv H (add_mset (pt_release b) T) w'
     else t = None \<and> w' = w \<and> result \<noteq> MALI_MEM_ALLOC_PARTIAL)"
proof (cases a)
  case (Block_allocator i)
  have inv: "blk_inv (blk w i) ((\<Sum>h \<in># H. handle_list i h) + (\<Sum>t \<in># T. pt_list i t))"
    using assms(1) by (simp add: alloc_inv_def)
  have "block_allocator_allocate_page_table_block env i w = (result, t, w')"
    using assms(2) Block_allocator by simp
  note b = block_page_table_ok[OF inv this]
  obtain a' where w': "w' = set_blk i a' w" using b by blast
  have r: "same_regions w' w" using b w' by (auto simp: same_regions_def)
  have f: "\<exists>f g. w' = w\<lparr>blk := f, osa := g\<rparr>"
    by (intro exI[of _ "blk w'"] exI[of _ "osa w'"]) (simp add: w' set_blk_def)
  have "alloc_inv H (add_mset (Block_pt i n) T) w'" if "blk_inv a' (add_mset (Some n) ((\<Sum>h \<in># H. handle_list i h) + (\<Sum>t \<in># T. pt_list i t)))" for n
    by (rule alloc_inv_change_block[OF assms(1), where i = i and a = a'])
      (use that w' assms(1) in \<open>auto simp: alloc_inv_def\<close>)
  then have "if result = MALI_MEM_ALLOC_FINISHED then
       \<exists>b. t = Some b \<and> new_pt env w b \<and> alloc_inv H (add_mset (pt_release b) T) w'
     else t = None \<and> w' = w \<and> result \<noteq> MALI_MEM_ALLOC_PARTIAL"
    using b w' by (auto simp: new_pt_def MALI_BLOCK_SIZE_def split: if_splits)
  then show ?thesis using f r by blast
next
  case (Os_allocator i)
  have inv: "os_inv (osa w i) ((\<Sum>h \<in># H. handle_pages i h) + (\<Sum>t \<in># T. pt_pages i t))"
    using assms(1) by (simp add: alloc_inv_def)
  have "os_allocator_allocate_page_table_block env i w = (result, t, w')"
    using assms(2) Os_allocator by simp
  note b = os_page_table_ok[OF inv this]
  obtain a' where w': "w' = set_osa i a' w" "os_cpu_usage_adjust a' = os_cpu_usage_adjust (osa w i)"
    using conjunct1[OF b] by blast
  have r: "same_regions w' w" using w' by (auto simp: same_regions_def)
  have f: "\<exists>f g. w' = w\<lparr>blk := f, osa := g\<rparr>"
    by (intro exI[of _ "blk w'"] exI[of _ "osa w'"]) (simp add: w' set_osa_def)
  have "alloc_inv H (add_mset (Os_pt i 6) T) w'" if "os_inv a' ((\<Sum>h \<in># H. handle_pages i h) + (\<Sum>t \<in># T. pt_pages i t) + 64)"
    by (rule alloc_inv_change_os[OF assms(1), where i = i and a = a'])
      (use that w' assms(1) in \<open>auto simp: alloc_inv_def os_pt_order_def ac_simps\<close>)
  then have "if result = MALI_MEM_ALLOC_FINISHED then
       \<exists>b. t = Some b \<and> new_pt env w b \<and> alloc_inv H (add_mset (pt_release b) T) w'
     else t = None \<and> w' = w \<and> result \<noteq> MALI_MEM_ALLOC_PARTIAL"
    using b w' by (auto simp: new_pt_def split: if_splits)
  then show ?thesis using f r by blast
qed

lemma release_page_tables_ok:
  assumes "alloc_inv H (add_mset t T) w" "\<not> lock_interrupted env w"
  shows "\<exists>f g. release_page_tables env t w = Some (w\<lparr>blk := f, osa := g\<rparr>) \<and>
    same_regions (w\<lparr>blk := f, osa := g\<rparr>) w \<and> alloc_inv H T (w\<lparr>blk := f, osa := g\<rparr>)"
proof (cases t)
  case (Block_pt i b)
  let ?L = "(\<Sum>h \<in># H. handle_list i h) + (\<Sum>t \<in># T. pt_list i t)"
  have "blk_inv (blk w i) (add_mset (Some b) ?L)" using assms(1) Block_pt
    unfolding alloc_inv_def by (elim conjE allE[of _ i]) (simp add: ac_simps)
  then obtain a where a: "block_allocator_release_page_table_block env i b w = Some (set_blk i a w)" "blk_inv a ?L"
    "same_region a (blk w i)" using block_release_page_table_ok assms(2) by blast
  have "alloc_inv H T (set_blk i a w)"
    by (rule alloc_inv_change_block[OF assms(1), where i = i and a = a])
      (use a assms(1) Block_pt in \<open>auto simp: alloc_inv_def\<close>)
  then show ?thesis using a Block_pt
    by (intro exI[of _ "(blk w)(i := a)"] exI[of _ "osa w"]) (simp add: same_regions_def set_blk_def)
next
  case (Os_pt i n)
  let ?n = "(\<Sum>h \<in># H. handle_pages i h) + (\<Sum>t \<in># T. pt_pages i t)"
  have n: "n = 6" using assms(1) Os_pt by (auto simp: alloc_inv_def os_pt_order_def)
  have "os_inv (osa w i) (?n + 64)" using assms(1) Os_pt n
    unfolding alloc_inv_def by (elim conjE allE[of _ i]) (simp add: ac_simps)
  then obtain a where a: "os_allocator_page_table_block_release i 6 w = set_osa i a w" "os_inv a ?n"
    "os_cpu_usage_adjust a = os_cpu_usage_adjust (osa w i)" using os_page_table_release_ok by blast
  have "alloc_inv H T (set_osa i a w)"
    by (rule alloc_inv_change_os[OF assms(1), where i = i and a = a])
      (use a assms(1) Os_pt n in \<open>auto simp: alloc_inv_def\<close>)
  then show ?thesis using a Os_pt n
    by (intro exI[of _ "blk w"] exI[of _ "(osa w)(i := a)"]) (simp add: same_regions_def set_osa_def)
qed

subsection \<open>Memory of allocations\<close>

context engine_mapping
begin

lemma physical_allocate_inv:
  assumes "good w" "can_map d" "alloc_inv H T w"
    and "4096 dvd unat offset" "4096 dvd unat (alloc_size d)" "offset < alloc_size d"
    and "\<And>i. paged_region (blk w i)" "held_inv (held w) H"
  shows "\<exists>result t offset' w'. physical_allocate env engine a d offset w = Some (result, t, offset', w') \<and>
    good w' \<and> same_regions w' w \<and>
    (if result \<in> {MALI_MEM_ALLOC_FINISHED, MALI_MEM_ALLOC_PARTIAL} then
       \<exists>h. t = Some h \<and> handle_descriptor h = d \<and> handle_start h = offset \<and>
         offset' = offset + handle_length h \<and> 4096 dvd unat offset' \<and>
         (if result = MALI_MEM_ALLOC_FINISHED then offset' = alloc_size d else offset' < alloc_size d) \<and>
         alloc_inv (add_mset h H) T w' \<and> held_inv (held w') (add_mset h H)
     else t = None \<and> (result = MALI_MEM_ALLOC_NONE \<longrightarrow> offset' = offset) \<and> alloc_inv H T w' \<and> held_inv (held w') H)"
proof (cases a)
  case (Block_allocator i)
  have inv: "blk_inv (blk w i) ((\<Sum>h \<in># H. handle_list i h) + (\<Sum>t \<in># T. pt_list i t))"
    using assms(3) by (simp add: alloc_inv_def)
  obtain result t offset' w' where b: "block_allocator_allocate env engine i d offset w = Some (result, t, offset', w')"
    "good w'" "held w' = held w" "osa w' = osa w" "\<forall>j. j \<noteq> i \<longrightarrow> blk w' j = blk w j" "same_region (blk w' i) (blk w i)"
    "if result \<in> {MALI_MEM_ALLOC_FINISHED, MALI_MEM_ALLOC_PARTIAL} then
       \<exists>h. t = Some h \<and> block_descriptor h = d \<and> start_offset h = offset \<and> offset' = offset + mapping_length h \<and>
         page_range d offset (mapping_length h) \<and> 4096 dvd unat offset' \<and>
         (if result = MALI_MEM_ALLOC_FINISHED then offset' = alloc_size d
          else offset' < alloc_size d \<and> first_free (blk w' i) = None) \<and>
         blk_inv (blk w' i) (add_mset (last_allocated h) ((\<Sum>h \<in># H. handle_list i h) + (\<Sum>t \<in># T. pt_list i t))) \<and>
         relink (last_allocated h) (blk w' i) = Some (blk w i)
     else t = None \<and> blk w' = blk w \<and> (result = MALI_MEM_ALLOC_NONE \<longrightarrow> offset' = offset)"
    using block_allocate_ok[OF assms(1,2) inv assms(4-7), of env] by (elim exE conjE) (rule that)
  have r: "same_regions w' w"
    using b(4-6) unfolding same_regions_def by (metis same_region_simps(1))
  show ?thesis
  proof (cases "result \<in> {MALI_MEM_ALLOC_FINISHED, MALI_MEM_ALLOC_PARTIAL}")
    case False
    then show ?thesis using Block_allocator b r assms(3,8) alloc_inv_frame[of w' w H T] by simp
  next
    case True
    then obtain h where h: "t = Some h" "block_descriptor h = d" "start_offset h = offset"
      "offset' = offset + mapping_length h" "page_range d offset (mapping_length h)" "4096 dvd unat offset'"
      "if result = MALI_MEM_ALLOC_FINISHED then offset' = alloc_size d else offset' < alloc_size d"
      "blk_inv (blk w' i) (add_mset (last_allocated h) ((\<Sum>h \<in># H. handle_list i h) + (\<Sum>t \<in># T. pt_list i t)))"
      using b(7) by (auto split: if_splits)
    have "alloc_inv (add_mset (Block_handle i h) H) T w'"
      by (rule alloc_inv_change_block[OF assms(3), where i = i and a = "blk w' i"])
        (use h b(4,5) assms(3) in \<open>auto simp: alloc_inv_def\<close>)
    moreover have "held_inv (held w') (add_mset (Block_handle i h) H)"
      using assms(8) b(3) by (simp add: held_inv_def)
    ultimately show ?thesis using Block_allocator b(1,2) r h True by (auto split: if_splits)
  qed
next
  case (Os_allocator i)
  have inv: "os_inv (osa w i) ((\<Sum>h \<in># H. handle_pages i h) + (\<Sum>t \<in># T. pt_pages i t))"
    using assms(3) by (simp add: alloc_inv_def)
  obtain result t offset' w' where b: "os_allocator_allocate env engine i d offset w = Some (result, t, offset', w')"
    "good w'"
    "held w' = (\<lambda>k. held w k + (case t of None \<Rightarrow> {#} | Some h \<Rightarrow> page_offsets d (offset_start h) (unat (num_pages h)) k))"
    "\<forall>h. t = Some h \<longrightarrow> unat (num_pages h) < 2 ^ 20" "blk w' = blk w" "\<forall>j. j \<noteq> i \<longrightarrow> osa w' j = osa w j"
    "\<forall>j. os_cpu_usage_adjust (osa w' j) = os_cpu_usage_adjust (osa w j)"
    "if result \<in> {MALI_MEM_ALLOC_FINISHED, MALI_MEM_ALLOC_PARTIAL} then
       \<exists>h. t = Some h \<and> os_descriptor h = d \<and> offset_start h = offset \<and>
         offset' = offset + OSK_CPU_PAGE_SIZE * num_pages h \<and>
         page_range d offset (OSK_CPU_PAGE_SIZE * num_pages h) \<and> 4096 dvd unat offset' \<and>
         (if result = MALI_MEM_ALLOC_FINISHED then offset' = alloc_size d else offset' < alloc_size d) \<and>
         os_inv (osa w' i) ((\<Sum>h \<in># H. handle_pages i h) + (\<Sum>t \<in># T. pt_pages i t) + unat (num_pages h))
     else t = None \<and> osa w' = osa w \<and> (result = MALI_MEM_ALLOC_NONE \<longrightarrow> offset' = offset)"
    using os_allocate_ok[OF assms(1,2) inv assms(4-6), of env] by (elim exE conjE) (rule that)
  have r: "same_regions w' w" using b(5,7) unfolding same_regions_def by simp
  show ?thesis
  proof (cases "result \<in> {MALI_MEM_ALLOC_FINISHED, MALI_MEM_ALLOC_PARTIAL}")
    case False
    then show ?thesis using Os_allocator b r assms(3,8) alloc_inv_frame[of w' w H T] by simp
  next
    case True
    then obtain h where h: "t = Some h" "os_descriptor h = d" "offset_start h = offset"
      "offset' = offset + OSK_CPU_PAGE_SIZE * num_pages h"
      "page_range d offset (OSK_CPU_PAGE_SIZE * num_pages h)" "4096 dvd unat offset'"
      "if result = MALI_MEM_ALLOC_FINISHED then offset' = alloc_size d else offset' < alloc_size d"
      "os_inv (osa w' i) ((\<Sum>h \<in># H. handle_pages i h) + (\<Sum>t \<in># T. pt_pages i t) + unat (num_pages h))"
      using b(8) by (auto split: if_splits)
    have "alloc_inv (add_mset (Os_handle i h) H) T w'"
      by (rule alloc_inv_change_os[OF assms(3), where i = i and a = "osa w' i"])
        (use h b(5,6) assms(3) in \<open>auto simp: alloc_inv_def ac_simps\<close>)
    moreover have "held_inv (held w') (add_mset (Os_handle i h) H)"
      using assms(8) b(3,4) h(1,2) by (auto simp: held_inv_def ac_simps)
    ultimately show ?thesis using Os_allocator b(1,2) r h True by (auto split: if_splits)
  qed
qed

lemma physical_release_inv:
  assumes "good w" "can_unmap (handle_descriptor h)" "alloc_inv (add_mset h H) T w" "\<not> lock_interrupted env w"
    and "held_inv (held w) (add_mset h H)"
  shows "\<exists>w'. physical_release env engine h w = Some w' \<and> good w' \<and> same_regions w' w \<and> alloc_inv H T w' \<and> held_inv (held w') H"
proof (cases h)
  case (Block_handle i b)
  let ?L = "(\<Sum>h \<in># H. handle_list i h) + (\<Sum>t \<in># T. pt_list i t)"
  have inv: "blk_inv (blk w i) (add_mset (last_allocated b) ?L)" using assms(3) Block_handle
    unfolding alloc_inv_def by (elim conjE allE[of _ i]) (simp add: ac_simps)
  have range: "page_range (block_descriptor b) (start_offset b) (mapping_length b)"
    using assms(3) Block_handle by (auto simp: alloc_inv_def)
  obtain w' where b: "block_allocator_release env engine i b w = Some w'" "good w'" "held w' = held w" "osa w' = osa w"
    "\<forall>j. j \<noteq> i \<longrightarrow> blk w' j = blk w j" "same_region (blk w' i) (blk w i)" "blk_inv (blk w' i) ?L"
    using block_release_ok[OF assms(1) _ inv range assms(4)] assms(2) Block_handle by auto
  have "same_regions w' w"
    using b(4-6) unfolding same_regions_def by (metis same_region_simps(1))
  moreover have "alloc_inv H T w'"
    by (rule alloc_inv_change_block[OF assms(3), where i = i and a = "blk w' i"])
      (use b assms(3) Block_handle in \<open>auto simp: alloc_inv_def\<close>)
  moreover have "held_inv (held w') H" using assms(5) b(3) Block_handle by (simp add: held_inv_def)
  ultimately show ?thesis using b(1,2) Block_handle by simp
next
  case (Os_handle i b)
  let ?n = "(\<Sum>h \<in># H. handle_pages i h) + (\<Sum>t \<in># T. pt_pages i t)"
  have inv: "os_inv (osa w i) (?n + unat (num_pages b))" using assms(3) Os_handle
    unfolding alloc_inv_def by (elim conjE allE[of _ i]) (simp add: ac_simps)
  have range: "page_range (os_descriptor b) (offset_start b) (OSK_CPU_PAGE_SIZE * num_pages b)"
    using assms(3) Os_handle by (auto simp: alloc_inv_def)
  let ?f = "\<lambda>k. \<Sum>h \<in># H. handle_offsets k h"
  have few: "unat (num_pages b) < 2 ^ 20"
    and held: "held w = (\<lambda>k. ?f k + page_offsets (os_descriptor b) (offset_start b) (unat (num_pages b)) k)"
    and fH: "held_inv ?f H"
    using assms(5) Os_handle by (simp_all add: held_inv_add)
  obtain w' where b: "os_allocator_release engine i b w = Some w'" "good w'" "blk w' = blk w"
    "\<forall>j. j \<noteq> i \<longrightarrow> osa w' j = osa w j" "\<forall>j. os_cpu_usage_adjust (osa w' j) = os_cpu_usage_adjust (osa w j)"
    "os_inv (osa w' i) ?n" "held w' = ?f"
    using os_release_ok[OF assms(1) _ inv range few held] assms(2) Os_handle by auto
  have "alloc_inv H T w'"
    by (rule alloc_inv_change_os[OF assms(3), where i = i and a = "osa w' i"])
      (use b assms(3) Os_handle in \<open>auto simp: alloc_inv_def\<close>)
  then show ?thesis using b Os_handle fH by (simp add: same_regions_def)
qed

end

end
