(* ===== verification/Page_Table_Cache.thy ===== *)
theory Page_Table_Cache
  imports Physical_Memory Osk_Bitops
begin

text \<open>
  The MMU's pages for page tables and page directories, common/mali\_kernel\_mem\_mmu.c: blocks of 64
  pages from the physical allocators, each with a bitmap of the pages in use, in a list of blocks
  with a free page and a list of full blocks.

  Memory that the CPU has mapped is addressed by its CPU physical address: \<open>phys_mem\<close> maps the address
  of a word to its value, and a pointer from \<open>ioremap\<close> or \<open>dma_alloc_coherent\<close> is the physical address
  it points to.
\<close>

subsection \<open>Data\<close>

record table_allocation =
  usage_map :: words
  usage_count :: u32
  table_pages :: u32
  table_block :: "pt_release mali_page_table_block"

record memory_session =
  page_directory :: u32
  page_directory_mapped :: u32
  page_entries_mapped :: "nat \<Rightarrow> u32 option"
  page_entries_usage_count :: "nat \<Rightarrow> u32"

record mmu_state = alloc_state +
  pt_partial :: "table_allocation list"
  pt_full :: "table_allocation list"
  phys_mem :: "u32 \<Rightarrow> u32"
  msessions :: "nat \<Rightarrow> memory_session"

definition MALI_MMU_PAGE_SIZE :: u32 where "MALI_MMU_PAGE_SIZE = 0x1000"
definition MALI_INVALID_PAGE :: u32 where "MALI_INVALID_PAGE = - 1"

definition iowrite32 :: "u32 \<Rightarrow> u32 \<Rightarrow> u32 \<Rightarrow> 'a mmu_state_scheme \<Rightarrow> 'a mmu_state_scheme" where
  "iowrite32 addr offset v w = w\<lparr>phys_mem := (phys_mem w)(addr + offset := v)\<rparr>"

definition ioread32 :: "u32 \<Rightarrow> u32 \<Rightarrow> 'a mmu_state_scheme \<Rightarrow> u32" where
  "ioread32 addr offset w = phys_mem w (addr + offset)"

definition fill_page :: "u32 \<Rightarrow> u32 \<Rightarrow> 'a mmu_state_scheme \<Rightarrow> 'a mmu_state_scheme" where
  "fill_page addr v w = fold (\<lambda>i. iowrite32 addr (of_nat i * 4) v) [0..<1024] w"

subsection \<open>Operations\<close>

definition mali_mmu_page_table_cache_create :: "bool \<Rightarrow> 'a mmu_state_scheme \<Rightarrow> osk_err \<times> 'a mmu_state_scheme" where
  "mali_mmu_page_table_cache_create lock_ok w =
     (if \<not> lock_ok then (ERR_FAULT, w) else (ERR_OK, w\<lparr>pt_partial := [], pt_full := []\<rparr>))"

fun release_tables ::
  "'a mmu_state_scheme os_env \<Rightarrow> table_allocation list \<Rightarrow> 'a mmu_state_scheme \<Rightarrow> 'a mmu_state_scheme option" where
  "release_tables env [] w = Some w"
| "release_tables env (a # as) w = do {
     w \<leftarrow> release_page_tables env (pt_release (table_block a)) w;
     release_tables env as w
   }"

definition mali_mmu_page_table_cache_destroy ::
  "'a mmu_state_scheme os_env \<Rightarrow> 'a mmu_state_scheme \<Rightarrow> 'a mmu_state_scheme option" where
  "mali_mmu_page_table_cache_destroy env w = do {
     w \<leftarrow> release_tables env (pt_partial w) w;
     w \<leftarrow> release_tables env (pt_full w) (w\<lparr>pt_partial := []\<rparr>);
     Some (w\<lparr>pt_full := []\<rparr>)
   }"

definition mali_mmu_get_table_page ::
  "'a mmu_state_scheme os_env \<Rightarrow> allocator_id list \<Rightarrow> 'a mmu_state_scheme
     \<Rightarrow> (osk_err \<times> u32 \<times> u32 option \<times> 'a mmu_state_scheme) option" where
  "mali_mmu_get_table_page env allocators w =
     (case pt_partial w of
        a # as \<Rightarrow> do {
          page_number \<leftarrow> mali_osk_find_first_zero_bit (usage_map a) (table_pages a);
          let a = a\<lparr>usage_map := mali_osk_set_nonatomic_bit page_number (usage_map a), usage_count := usage_count a + 1\<rparr>;
          let w = (if table_pages a = usage_count a
                   then w\<lparr>pt_partial := as, pt_full := a # pt_full w\<rparr>
                   else w\<lparr>pt_partial := a # as\<rparr>);
          Some (ERR_OK, MALI_MMU_PAGE_SIZE * page_number + pt_phys_base (table_block a),
                Some (MALI_MMU_PAGE_SIZE * page_number + pt_mapping (table_block a)), w)
        }
      | [] \<Rightarrow>
          if \<not> kmalloc env Table_allocation_site w then Some (ERR_NOMEM, MALI_INVALID_PAGE, None, w)
          else do {
            (err, block, w) \<leftarrow>
              mali_allocation_engine_allocate_page_tables (\<lambda>a w. Some (physical_page_tables env a w)) allocators w;
            case block of
              Some b \<Rightarrow>
                if err \<noteq> ERR_OK then Some (ERR_NOMEM, MALI_INVALID_PAGE, None, w)
                else if \<not> kmalloc env Usage_map_site w then do {
                  w \<leftarrow> release_page_tables env (pt_release b) w;
                  Some (ERR_NOMEM, MALI_INVALID_PAGE, None, w)
                } else do {
                  let a = \<lparr>usage_map = mali_osk_set_nonatomic_bit 0 (\<lambda>_. 0), usage_count = 1,
                           table_pages = pt_size b div MALI_MMU_PAGE_SIZE, table_block = b\<rparr>;
                  let w = fill_page (pt_mapping b) 0 w;
                  Some (ERR_OK, pt_phys_base b, Some (pt_mapping b), w\<lparr>pt_partial := [a]\<rparr>)
                }
            | None \<Rightarrow> Some (ERR_NOMEM, MALI_INVALID_PAGE, None, w)
          })"

definition covers_page :: "u32 \<Rightarrow> table_allocation \<Rightarrow> bool" where
  "covers_page pa a \<longleftrightarrow>
     (let start = pt_phys_base (table_block a); lst = start + (table_pages a - 1) * MALI_MMU_PAGE_SIZE
      in start \<le> pa \<and> pa \<le> lst)"

text \<open>Take a page of an allocation back: its bit, the count, and its contents.\<close>

definition clear_page_bit :: "u32 \<Rightarrow> table_allocation \<Rightarrow> table_allocation" where
  "clear_page_bit pa a =
     a\<lparr>usage_map := mali_osk_clear_nonatomic_bit ((pa - pt_phys_base (table_block a)) div MALI_MMU_PAGE_SIZE) (usage_map a),
       usage_count := usage_count a - 1\<rparr>"

definition zero_page :: "u32 \<Rightarrow> table_allocation \<Rightarrow> 'a mmu_state_scheme \<Rightarrow> 'a mmu_state_scheme" where
  "zero_page pa a = fill_page (pt_mapping (table_block a) + (pa - pt_phys_base (table_block a))) 0"

definition mali_mmu_release_table_page ::
  "'a mmu_state_scheme os_env \<Rightarrow> u32 \<Rightarrow> 'a mmu_state_scheme \<Rightarrow> 'a mmu_state_scheme option" where
  "mali_mmu_release_table_page env pa w =
     (case List.extract (covers_page pa) (pt_partial w) of
        Some (ys, a, zs) \<Rightarrow>
          let a' = clear_page_bit pa a; w = zero_page pa a w
          in if usage_count a' = 0
             then release_page_tables env (pt_release (table_block a')) (w\<lparr>pt_partial := ys @ zs\<rparr>)
             else Some (w\<lparr>pt_partial := ys @ a' # zs\<rparr>)
      | None \<Rightarrow>
          (case List.extract (covers_page pa) (pt_full w) of
             Some (ys, a, zs) \<Rightarrow>
               let a' = clear_page_bit pa a; w = zero_page pa a w
               in Some (w\<lparr>pt_full := ys @ zs, pt_partial := a' # pt_partial w\<rparr>)
           | None \<Rightarrow> Some w))"

subsection \<open>Well-formed allocations\<close>

definition used :: "table_allocation \<Rightarrow> nat set" where
  "used a = {n. n < 64 \<and> usage_bit (usage_map a) n}"

definition table_base :: "table_allocation \<Rightarrow> nat" where
  "table_base a = unat (pt_phys_base (table_block a))"

definition table_range :: "table_allocation \<Rightarrow> nat set" where
  "table_range a = {table_base a..<table_base a + 2 ^ 18}"

definition used_pages :: "table_allocation \<Rightarrow> u32 set" where
  "used_pages a = (\<lambda>n. pt_phys_base (table_block a) + of_nat n * 4096) ` used a"

definition table_ok :: "table_allocation \<Rightarrow> bool" where
  "table_ok a \<longleftrightarrow> table_pages a = 64 \<and> pt_mapping (table_block a) = pt_phys_base (table_block a) \<and>
     4096 dvd table_base a \<and> table_base a + 2 ^ 18 \<le> 2 ^ 32 \<and> unat (usage_count a) = card (used a) \<and> used a \<noteq> {}"

lemma finite_used [simp]: "finite (used a)"
  by (simp add: used_def)

lemma card_used_le: "card (used a) \<le> 64"
proof -
  have "used a \<subseteq> {..<64}" by (auto simp: used_def)
  from card_mono[OF _ this] show ?thesis by simp
qed

lemma unat_page: "table_ok a \<Longrightarrow> n < 64 \<Longrightarrow> unat (pt_phys_base (table_block a) + of_nat n * 4096) = table_base a + n * 4096"
  by (simp add: table_ok_def table_base_def unat_word_ariths unat_of_nat)

lemma covers_range: "table_ok a \<Longrightarrow> p \<in> used_pages a \<Longrightarrow> covers_page p a"
proof -
  assume a: "table_ok a" and "p \<in> used_pages a"
  then obtain n where n: "n < 64" "p = pt_phys_base (table_block a) + of_nat n * 4096"
    by (auto simp: used_pages_def used_def)
  have "(63 :: u32) * 4096 = of_nat 63 * 4096" by simp
  then have "unat (pt_phys_base (table_block a) + (table_pages a - 1) * MALI_MMU_PAGE_SIZE) = table_base a + 63 * 4096"
    using unat_page[OF a, of 63] a by (simp add: table_ok_def MALI_MMU_PAGE_SIZE_def)
  then show ?thesis using unat_page[OF a n(1)] n
    by (simp add: covers_page_def Let_def word_le_nat_alt table_base_def)
qed

lemma covers_in_range: "table_ok a \<Longrightarrow> covers_page p a \<Longrightarrow> unat p \<in> table_range a"
proof -
  assume a: "table_ok a" "covers_page p a"
  have "(63 :: u32) * 4096 = of_nat 63 * 4096" by simp
  then have "unat (pt_phys_base (table_block a) + (table_pages a - 1) * MALI_MMU_PAGE_SIZE) = table_base a + 63 * 4096"
    using unat_page[OF a(1), of 63] a by (simp add: table_ok_def MALI_MMU_PAGE_SIZE_def)
  then show ?thesis using a(2)
    by (simp add: covers_page_def Let_def word_le_nat_alt table_range_def table_base_def)
qed

lemma page_number:
  assumes "n < 64"
  shows "(b + of_nat n * 4096 - b) div MALI_MMU_PAGE_SIZE = (of_nat n :: u32)"
proof -
  have m: "unat (of_nat n * 4096 :: u32) = n * 4096" using assms by (simp add: unat_word_ariths unat_of_nat)
  have "unat (of_nat n * 4096 div 4096 :: u32) = n"
    unfolding unat_div m by simp
  moreover have "unat (of_nat n :: u32) = n" using assms by (simp add: unat_of_nat)
  ultimately have e: "of_nat n * 4096 div 4096 = (of_nat n :: u32)" by (simp only: word_unat_eq_iff)
  have f: "b + of_nat n * 4096 - b = of_nat n * 4096" by (rule add_diff_cancel_left')
  have g: "MALI_MMU_PAGE_SIZE = 4096" by (simp add: MALI_MMU_PAGE_SIZE_def)
  show ?thesis unfolding f g by (rule e)
qed

lemma used_pages_aligned: "table_ok a \<Longrightarrow> p \<in> used_pages a \<Longrightarrow> 4096 dvd unat p"
proof -
  assume a: "table_ok a" "p \<in> used_pages a"
  then obtain n where "n < 64" "p = pt_phys_base (table_block a) + of_nat n * 4096"
    by (auto simp: used_pages_def used_def)
  then have "unat p = table_base a + n * 4096" using unat_page[OF a(1)] by blast
  moreover have "4096 dvd table_base a" using a(1) by (simp add: table_ok_def)
  ultimately show ?thesis by simp
qed

lemma page_inj: "table_ok a \<Longrightarrow> n < 64 \<Longrightarrow> m < 64 \<Longrightarrow>
    pt_phys_base (table_block a) + of_nat n * 4096 = pt_phys_base (table_block a) + (of_nat m * 4096 :: u32) \<Longrightarrow> n = m"
proof -
  assume a: "table_ok a" "n < 64" "m < 64"
    "pt_phys_base (table_block a) + of_nat n * 4096 = pt_phys_base (table_block a) + (of_nat m * 4096 :: u32)"
  from a(4) have "table_base a + n * 4096 = table_base a + m * 4096"
    unfolding unat_page[OF a(1,2), symmetric] unat_page[OF a(1,3), symmetric] by (rule arg_cong)
  then show "n = m" by simp
qed

text \<open>Filling a page writes its words.\<close>

definition page_words :: "u32 \<Rightarrow> u32 set" where
  "page_words p = (\<lambda>i. p + of_nat i * 4) ` {..<1024}"

lemma fill_page_mem:
  "fill_page p v w = w\<lparr>phys_mem := \<lambda>q. if q \<in> page_words p then v else phys_mem w q\<rparr>"
proof -
  have "fold (\<lambda>i. iowrite32 p (of_nat i * 4) v) [0..<n] w =
      w\<lparr>phys_mem := \<lambda>q. if q \<in> (\<lambda>i. p + of_nat i * 4) ` {..<n} then v else phys_mem w q\<rparr>" for n
    by (induction n) (auto simp: iowrite32_def lessThan_Suc fun_eq_iff)
  then show ?thesis by (simp add: fill_page_def page_words_def)
qed

subsection \<open>The invariant of the memory system\<close>

definition tables :: "'a mmu_state_scheme \<Rightarrow> table_allocation list" where
  "tables w = pt_partial w @ pt_full w"

definition blk_region :: "'a alloc_state_scheme \<Rightarrow> nat \<Rightarrow> nat set" where
  "blk_region w i = {unat (block_base (blk w i))..<unat (block_base (blk w i)) + unat (num_blocks (blk w i)) * 2 ^ 18}"

definition regions_ok :: "'a alloc_state_scheme \<Rightarrow> bool" where
  "regions_ok w \<longleftrightarrow>
     (\<forall>i. paged_region (blk w i)) \<and>
     (\<forall>i. 4096 dvd unat (block_base (blk w i)) \<and>
        unat (block_base (blk w i)) + unat (num_blocks (blk w i)) * 2 ^ 18 \<le> 2 ^ 32) \<and>
     (\<forall>i j. i \<noteq> j \<longrightarrow> blk_region w i \<inter> blk_region w j = {}) \<and> (\<forall>i. os_cpu_usage_adjust (osa w i) = 0)"

lemma same_regions_region: "same_regions w' w \<Longrightarrow> blk_region w' = blk_region w"
  by (simp add: same_regions_def same_region_def blk_region_def fun_eq_iff)

lemma same_regions_ok: "same_regions w' w \<Longrightarrow> regions_ok w' = regions_ok w"
  by (simp add: regions_ok_def same_regions_region) (simp add: same_regions_def same_region_def paged_region_def)

text \<open>Where the memory of a block of tables is: in its block allocator's region, or outside all of them.\<close>

definition placed :: "'a alloc_state_scheme \<Rightarrow> table_allocation \<Rightarrow> bool" where
  "placed w a \<longleftrightarrow>
     (case pt_release (table_block a) of
        Block_pt i n \<Rightarrow> n < unat (num_blocks (blk w i)) \<and> pt_phys_base (table_block a) = get_phys (blk w i) n
      | Os_pt i n \<Rightarrow> \<forall>j. table_range a \<inter> blk_region w j = {})"

text \<open>
  The operating system: no signal interrupts a wait for a lock, and \<open>dma_alloc_coherent\<close> returns page
  aligned memory that nobody uses.
\<close>

definition env_ok :: "'a mmu_state_scheme os_env \<Rightarrow> bool" where
  "env_ok env \<longleftrightarrow> (\<forall>w. \<not> lock_interrupted env w) \<and>
     (\<forall>w p. dma_alloc_coherent env (64 * 4096) w = Some p \<longrightarrow> 4096 dvd unat p \<and> unat p + 2 ^ 18 \<le> 2 ^ 32 \<and>
        (\<forall>j. {unat p..<unat p + 2 ^ 18} \<inter> blk_region w j = {}) \<and>
        (\<forall>a \<in> set (tables w). \<forall>i n. pt_release (table_block a) = Os_pt i n \<longrightarrow>
           {unat p..<unat p + 2 ^ 18} \<inter> table_range a = {}))"

definition table_releases :: "'a mmu_state_scheme \<Rightarrow> pt_release multiset" where
  "table_releases w = image_mset (\<lambda>a. pt_release (table_block a)) (mset (tables w))"

text \<open>\<open>U\<close> are the pages that are handed out.\<close>

definition cache_inv :: "u32 set \<Rightarrow> 'a mmu_state_scheme \<Rightarrow> bool" where
  "cache_inv U w \<longleftrightarrow> (\<forall>a \<in> set (tables w). table_ok a \<and> placed w a) \<and>
     (\<forall>a \<in> set (pt_partial w). card (used a) < 64) \<and> (\<forall>a \<in> set (pt_full w). card (used a) = 64) \<and>
     sorted_wrt (\<lambda>a b. table_range a \<inter> table_range b = {}) (tables w) \<and> U = (\<Union>a \<in> set (tables w). used_pages a)"

definition mem_inv :: "'a mmu_state_scheme os_env \<Rightarrow> phys_handle multiset \<Rightarrow> u32 set \<Rightarrow> 'a mmu_state_scheme \<Rightarrow> bool" where
  "mem_inv env H U w \<longleftrightarrow> env_ok env \<and> regions_ok w \<and> alloc_inv H (table_releases w) w \<and> cache_inv U w"

text \<open>What the cache changes of the state.\<close>

definition cache_frame :: "'a mmu_state_scheme \<Rightarrow> 'a mmu_state_scheme \<Rightarrow> bool" where
  "cache_frame w' w \<longleftrightarrow> msessions w' = msessions w \<and> mmu_state.more w' = mmu_state.more w"

lemma cache_frame_trans: "cache_frame a b \<Longrightarrow> cache_frame b c \<Longrightarrow> cache_frame a c"
  by (simp add: cache_frame_def)

lemma placed_same: "same_regions w' w \<Longrightarrow> placed w' a = placed w a"
  by (auto simp: placed_def same_regions_region split: pt_release.splits)
    (auto simp: same_regions_def same_region_def get_phys_def)

lemma used_pages_range: "table_ok a \<Longrightarrow> p \<in> used_pages a \<Longrightarrow> unat p \<in> table_range a"
  using covers_range covers_in_range by blast

end
