(* ===== verification/Page_Table_Pages.thy ===== *)
theory Page_Table_Pages
  imports Page_Table_Cache
begin

text \<open>
  Handing out a page for a page table and taking it back: a page is never handed out twice, and all
  memory stays accounted for.
\<close>

subsection \<open>Setting and clearing a bit of the map\<close>

lemma used_set:
  "n < 64 \<Longrightarrow> used (a\<lparr>usage_map := mali_osk_set_nonatomic_bit (of_nat n) (usage_map a), usage_count := c\<rparr>) = insert n (used a)"
  by (auto simp: used_def unat_of_nat)

lemma same_block_simps:
  "table_block b = table_block a \<Longrightarrow> table_range b = table_range a"
  "table_block b = table_block a \<Longrightarrow> placed w b = placed w a"
  by (auto simp: table_range_def table_base_def placed_def split: pt_release.splits)

lemma page_inj_on: "table_ok a \<Longrightarrow> inj_on (\<lambda>n. pt_phys_base (table_block a) + of_nat n * 4096) {..<64}"
  using page_inj by (auto intro!: inj_onI)

lemma used_sub: "used a \<subseteq> {..<64}"
  by (auto simp: used_def)

text \<open>A table gains the page \<open>n\<close>.\<close>

lemma gain_page:
  assumes a: "table_ok a" and n: "n < 64" "n \<notin> used a"
    and b: "b = a\<lparr>usage_map := mali_osk_set_nonatomic_bit (of_nat n) (usage_map a), usage_count := usage_count a + 1\<rparr>"
  shows "table_ok b" "card (used b) = card (used a) + 1"
    "used_pages b = insert (pt_phys_base (table_block a) + of_nat n * 4096) (used_pages a)"
    "pt_phys_base (table_block a) + of_nat n * 4096 \<notin> used_pages a" "table_block b = table_block a"
proof -
  have u: "used b = insert n (used a)" using used_set[OF n(1)] by (simp add: b)
  show c: "card (used b) = card (used a) + 1" using n(2) by (simp add: u)
  have "unat (usage_count a + 1) = unat (usage_count a) + 1"
    using card_used_le[of a] a by (simp add: table_ok_def unat_word_ariths)
  then show "table_ok b" using a c u by (simp add: table_ok_def b table_base_def)
  show "table_block b = table_block a" by (simp add: b)
  show "used_pages b = insert (pt_phys_base (table_block a) + of_nat n * 4096) (used_pages a)"
    by (simp add: used_pages_def u) (simp add: b)
  show "pt_phys_base (table_block a) + of_nat n * 4096 \<notin> used_pages a"
    using inj_on_image_mem_iff[OF page_inj_on[OF a], of n "used a"] n used_sub by (auto simp: used_pages_def)
qed

text \<open>A table loses the page \<open>n\<close>; its range stays.\<close>

lemma lose_page:
  assumes a: "table_ok a" and n: "n \<in> used a" and p: "p = pt_phys_base (table_block a) + of_nat n * 4096"
  shows "used (clear_page_bit p a) = used a - {n}" "unat (usage_count (clear_page_bit p a)) = card (used a) - 1"
    "used_pages (clear_page_bit p a) = used_pages a - {p}" "table_block (clear_page_bit p a) = table_block a"
    "card (used a) > 0" "table_pages (clear_page_bit p a) = table_pages a"
proof -
  have n64: "n < 64" using n by (simp add: used_def)
  have i: "(p - pt_phys_base (table_block a)) div MALI_MMU_PAGE_SIZE = of_nat n"
    unfolding p by (rule page_number[OF n64])
  show u: "used (clear_page_bit p a) = used a - {n}"
    using n64 by (auto simp: clear_page_bit_def i used_def unat_of_nat)
  show c: "card (used a) > 0" using n by (auto simp: card_gt_0_iff)
  then have "unat (usage_count a) > 0" using a by (simp add: table_ok_def)
  then show "unat (usage_count (clear_page_bit p a)) = card (used a) - 1"
    using a by (simp add: clear_page_bit_def table_ok_def unat_sub word_le_nat_alt)
  show "table_block (clear_page_bit p a) = table_block a" "table_pages (clear_page_bit p a) = table_pages a"
    by (simp_all add: clear_page_bit_def)
  then have "used_pages (clear_page_bit p a) = (\<lambda>n. pt_phys_base (table_block a) + of_nat n * 4096) ` (used a - {n})"
    by (simp add: used_pages_def u)
  also have "\<dots> = used_pages a - {p}"
    using inj_on_image_set_diff[OF page_inj_on[OF a], of "used a" "{n}"] n64 used_sub
    by (auto simp: used_pages_def p)
  finally show "used_pages (clear_page_bit p a) = used_pages a - {p}" .
qed

lemma lose_page_ok:
  assumes "table_ok a" "n \<in> used a" "p = pt_phys_base (table_block a) + of_nat n * 4096" "card (used a) > 1"
  shows "table_ok (clear_page_bit p a)" "card (used (clear_page_bit p a)) = card (used a) - 1"
proof -
  note l = lose_page[OF assms(1-3)]
  show c: "card (used (clear_page_bit p a)) = card (used a) - 1" using assms(2) by (simp add: l(1))
  then have "used (clear_page_bit p a) \<noteq> {}" using assms(4) by auto
  then show "table_ok (clear_page_bit p a)"
    using assms(1) c l by (simp add: table_ok_def table_base_def)
qed

subsection \<open>Handing out a page\<close>

lemma get_partial:
  assumes m: "mem_inv env H U w" and w: "pt_partial w = a # as"
  shows "\<exists>p w'. mali_mmu_get_table_page env allocators w = Some (ERR_OK, p, Some p, w') \<and>
    mem_inv env H (insert p U) w' \<and> p \<notin> U \<and> 4096 dvd unat p \<and> cache_frame w' w \<and> phys_mem w' = phys_mem w"
proof -
  have c: "cache_inv U w" using m by (simp add: mem_inv_def)
  have a: "table_ok a" "card (used a) < 64" using c w by (auto simp: cache_inv_def tables_def)
  have tp: "table_pages a = of_nat 64" using a by (simp add: table_ok_def)
  obtain n where n: "mali_osk_find_first_zero_bit (usage_map a) (table_pages a) = Some (of_nat n)" "first_zero (usage_map a) 64 n"
    using find_first_zero_bit_correct[of 64 "usage_map a"] unfolding tp by auto
  have n64: "n < 64"
  proof (rule ccontr)
    assume "\<not> n < 64"
    then have "used a = {..<64}" using n(2) by (auto simp: first_zero_def used_def)
    then show False using a(2) by simp
  qed
  then have nu: "n \<notin> used a" using n(2) by (simp add: first_zero_def used_def)
  define b where "b = a\<lparr>usage_map := mali_osk_set_nonatomic_bit (of_nat n) (usage_map a), usage_count := usage_count a + 1\<rparr>"
  define p where "p = pt_phys_base (table_block a) + (of_nat n :: u32) * 4096"
  note g = gain_page[OF a(1) n64 nu b_def, folded p_def]
  define w' where "w' = (if table_pages b = usage_count b then w\<lparr>pt_partial := as, pt_full := b # pt_full w\<rparr>
                        else w\<lparr>pt_partial := b # as\<rparr>)"
  have full: "table_pages b = usage_count b \<longleftrightarrow> card (used b) = 64"
    using g(1) by (auto simp: table_ok_def word_unat_eq_iff)
  have "pt_mapping (table_block a) = pt_phys_base (table_block a)" using a by (simp add: table_ok_def)
  then have r: "mali_mmu_get_table_page env allocators w = Some (ERR_OK, p, Some p, w')"
    using w n(1) unfolding w'_def b_def
    by (simp add: mali_mmu_get_table_page_def p_def MALI_MMU_PAGE_SIZE_def Let_def mult.commute
        add.commute[of _ "pt_phys_base (table_block a)"])
  have reg: "same_regions w' w" "same_regions w w'" by (simp_all add: w'_def same_regions_def)
  have s: "table_range b = table_range a" "table_block b = table_block a" "\<And>v. placed v b = placed v a"
    using g(5) same_block_simps[OF g(5)] by auto
  have T: "table_releases w' = table_releases w"
    by (simp add: table_releases_def tables_def w'_def w s)
  have "p \<in> used_pages b" by (simp add: g(3))
  have p: "p \<notin> used_pages x" if "x \<in> set (as @ pt_full w)" for x
  proof -
    have "table_ok x" "table_range a \<inter> table_range x = {}" using c w that by (auto simp: cache_inv_def tables_def)
    moreover have "unat p \<in> table_range a" using used_pages_range[OF g(1) \<open>p \<in> used_pages b\<close>] s(1) by simp
    ultimately show ?thesis using used_pages_range[of x p] by blast
  qed
  have U: "U = used_pages a \<union> (\<Union>x \<in> set (as @ pt_full w). used_pages x)" 
    using c unfolding cache_inv_def by (simp add: tables_def w)
  have "p \<notin> U" using p g(4) by (auto simp: U)
  moreover have "cache_inv (insert p U) w'"
  proof (cases "card (used b) = 64")
    case True
    then have "tables w' = as @ b # pt_full w" "pt_partial w' = as" "pt_full w' = b # pt_full w"
      using full by (simp_all add: w'_def tables_def)
    then show ?thesis using c w g(1,3) s True placed_same[OF reg(1)]
      unfolding cache_inv_def U by (auto simp: tables_def sorted_wrt_append Int_commute)
  next
    case False
    then have "tables w' = b # as @ pt_full w" "pt_partial w' = b # as" "pt_full w' = pt_full w"
      using full by (simp_all add: w'_def tables_def)
    then show ?thesis using c w g(1,3) s False card_used_le[of b] placed_same[OF reg(1)]
      unfolding cache_inv_def U by (auto simp: tables_def)
  qed
  moreover have "alloc_inv H (table_releases w') w'"
    using m alloc_inv_frame[of w' w H "table_releases w"] by (simp add: mem_inv_def T) (simp add: w'_def)
  ultimately show ?thesis
    using r m same_regions_ok[OF reg(1)] used_pages_aligned[OF g(1) \<open>p \<in> used_pages b\<close>]
    by (auto simp: mem_inv_def cache_frame_def w'_def intro!: exI[of _ p])
qed

text \<open>A new block of page tables.\<close>

lemma allocate_page_tables_ok:
  assumes "alloc_inv H T w"
  shows "\<exists>err t w'. mali_allocation_engine_allocate_page_tables (\<lambda>a w. Some (physical_page_tables env a w)) as w =
      Some (err, t, w') \<and> (\<exists>f g. w' = w\<lparr>blk := f, osa := g\<rparr>) \<and> same_regions w' w \<and>
    (if err = ERR_OK then \<exists>b. t = Some b \<and> new_pt env w b \<and> alloc_inv H (add_mset (pt_release b) T) w'
     else t = None \<and> w' = w)"
proof (induction as)
  case Nil
  then show ?case by (auto intro!: exI[of _ "blk w"] exI[of _ "osa w"])
next
  case (Cons a as)
  obtain result t w' where r: "physical_page_tables env a w = (result, t, w')" by (cases "physical_page_tables env a w")
  note p = physical_page_tables_ok[OF assms r]
  show ?case
  proof (cases result)
    case MALI_MEM_ALLOC_FINISHED
    then show ?thesis using p r by simp
  next
    case MALI_MEM_ALLOC_NONE
    then show ?thesis using p r Cons.IH by simp
  next
    case MALI_MEM_ALLOC_PARTIAL
    then show ?thesis using p by simp
  next
    case MALI_MEM_ALLOC_INTERNAL_FAILURE
    then show ?thesis using p r by (auto intro!: exI[of _ "blk w"] exI[of _ "osa w"])
  qed
qed

lemma block_range:
  assumes "regions_ok w" "n < unat (num_blocks (blk w i))"
  shows "unat (get_phys (blk w i) n) = unat (block_base (blk w i)) + n * 2 ^ 18"
    "{unat (get_phys (blk w i) n)..<unat (get_phys (blk w i) n) + 2 ^ 18} \<subseteq> blk_region w i"
    "4096 dvd unat (get_phys (blk w i) n)" "unat (get_phys (blk w i) n) + 2 ^ 18 \<le> 2 ^ 32"
proof -
  let ?b = "unat (block_base (blk w i))"
  have r: "?b + unat (num_blocks (blk w i)) * 2 ^ 18 \<le> 2 ^ 32" "4096 dvd ?b" using assms(1) by (auto simp: regions_ok_def)
  have n: "(n + 1) * 2 ^ 18 \<le> unat (num_blocks (blk w i)) * 2 ^ 18" using assms(2) by (intro mult_right_mono) auto
  then have l: "?b + n * 2 ^ 18 + 2 ^ 18 \<le> 2 ^ 32" using r by simp
  have "unat (of_nat n :: u32) = n"
  proof -
    have "n < 2 ^ 32" using l by simp
    then show ?thesis by (simp add: unat_of_nat)
  qed
  then have "unat (of_nat n * MALI_BLOCK_SIZE) = n * 2 ^ 18"
    using l by (simp add: MALI_BLOCK_SIZE_def unat_word_ariths)
  then show e: "unat (get_phys (blk w i) n) = ?b + n * 2 ^ 18"
    using l by (simp add: get_phys_def unat_word_ariths)
  show "{unat (get_phys (blk w i) n)..<unat (get_phys (blk w i) n) + 2 ^ 18} \<subseteq> blk_region w i"
    unfolding e blk_region_def using n by auto
  have "(4096 :: nat) dvd n * 2 ^ 18" by simp
  then show "4096 dvd unat (get_phys (blk w i) n)" unfolding e using r(2) by (rule dvd_add[rotated])
  show "unat (get_phys (blk w i) n) + 2 ^ 18 \<le> 2 ^ 32" unfolding e by (rule l)
qed

lemma blk_inv_fresh: "blk_inv a (add_mset (Some n) L) \<Longrightarrow> Some n \<notin># L"
proof
  assume i: "blk_inv a (add_mset (Some n) L)" and m: "Some n \<in># L"
  then obtain fs C where C: "\<forall>p \<in># add_mset (Some n) L. links (block_next a) p (C p)"
    "mset fs + (\<Sum>p \<in># add_mset (Some n) L. mset (C p)) = mset [0..<unat (num_blocks a)]"
    unfolding blk_inv_def by blast
  have "n \<in> set (C (Some n))" using C(1) by (auto elim!: links_SomeE)
  then show False using partition_disjoint(2)[OF C(2) m] by auto
qed

lemma pt_list_mem: "Block_pt i n \<in># T \<Longrightarrow> Some n \<in># (\<Sum>t \<in># T. pt_list i t)"
  by (induction T) auto

lemma alloc_fresh: "alloc_inv H (add_mset (Block_pt i n) T) w \<Longrightarrow> Block_pt i n \<notin># T"
proof
  assume "alloc_inv H (add_mset (Block_pt i n) T) w" and m: "Block_pt i n \<in># T"
  then have "blk_inv (blk w i) (add_mset (Some n) ((\<Sum>h \<in># H. handle_list i h) + (\<Sum>t \<in># T. pt_list i t)))"
    unfolding alloc_inv_def by (elim conjE allE[of _ i]) (simp add: ac_simps)
  from blk_inv_fresh[OF this] show False using pt_list_mem[OF m] by simp
qed

text \<open>The memory of a new block of tables is not that of another one.\<close>

lemma new_pt_place:
  assumes "new_pt env w b" "regions_ok w" "env_ok env"
  defines "base \<equiv> unat (pt_phys_base b)"
  shows "pt_mapping b = pt_phys_base b" "4096 dvd base" "base + 2 ^ 18 \<le> 2 ^ 32"
    "table_block a = b \<Longrightarrow> placed w a"
proof -
  have "pt_mapping b = pt_phys_base b \<and> 4096 dvd base \<and> base + 2 ^ 18 \<le> 2 ^ 32 \<and> (table_block a = b \<longrightarrow> placed w a)" for a
  proof (cases "pt_release b")
    case (Block_pt i n)
    then show ?thesis using assms(1) block_range[OF assms(2), of n i]
      by (auto simp: new_pt_def base_def placed_def)
  next
    case (Os_pt i n)
    then obtain p where "dma_alloc_coherent env (64 * 4096) w = Some p" "pt_phys_base b = p" "pt_mapping b = p"
      using assms(1,2) by (auto simp: new_pt_def regions_ok_def)
    then show ?thesis using assms(3) Os_pt
      unfolding env_ok_def by (auto simp: base_def placed_def table_range_def table_base_def)
  qed
  then show "pt_mapping b = pt_phys_base b" "4096 dvd base" "base + 2 ^ 18 \<le> 2 ^ 32"
    "table_block a = b \<Longrightarrow> placed w a" by blast+
qed

lemma new_pt_disjoint:
  assumes new: "new_pt env w b" and reg: "regions_ok w" and env: "env_ok env" and x: "x \<in> set (tables w)" "placed w x"
    and fresh: "\<And>i n. pt_release b = Block_pt i n \<Longrightarrow> pt_release (table_block x) \<noteq> Block_pt i n"
  shows "{unat (pt_phys_base b)..<unat (pt_phys_base b) + 2 ^ 18} \<inter> table_range x = {}"
proof -
  have R: "i \<noteq> j \<Longrightarrow> blk_region w i \<inter> blk_region w j = {}" for i j using reg by (simp add: regions_ok_def)
  have X: "table_range x \<subseteq> blk_region w j" if "pt_release (table_block x) = Block_pt j m" for j m
    using block_range(2)[OF reg, of m j] x(2) that by (simp add: placed_def table_range_def table_base_def)
  show ?thesis
  proof (cases "pt_release b")
    case (Block_pt i n)
    then have b: "n < unat (num_blocks (blk w i))" "pt_phys_base b = get_phys (blk w i) n"
      using new by (auto simp: new_pt_def)
    note B = block_range[OF reg b(1)]
    show ?thesis
    proof (cases "pt_release (table_block x)")
      case xb: (Block_pt j m)
      show ?thesis
      proof (cases "i = j")
        case True
        then have m: "m \<noteq> n" "m < unat (num_blocks (blk w i))" "pt_phys_base (table_block x) = get_phys (blk w i) m"
          using fresh[OF Block_pt] xb x(2) by (auto simp: placed_def)
        have "n * 2 ^ 18 + 2 ^ 18 \<le> m * 2 ^ 18 \<or> m * 2 ^ 18 + 2 ^ 18 \<le> (n :: nat) * 2 ^ 18"
          using m(1) by (cases "n < m") (auto simp: not_less dest!: Suc_leI)
        then show ?thesis
          using B(1) block_range(1)[OF reg m(2)] unfolding table_range_def table_base_def b(2) m(3) by auto
      next
        case False
        then show ?thesis using R[OF False] X[OF xb] B(2) unfolding b(2) by blast
      qed
    next
      case (Os_pt j m)
      then have "table_range x \<inter> blk_region w i = {}" using x(2) by (simp add: placed_def)
      then show ?thesis using B(2) unfolding b(2) by blast
    qed
  next
    case (Os_pt i n)
    then obtain p where p: "dma_alloc_coherent env (64 * 4096) w = Some p" "pt_phys_base b = p"
      using new reg by (auto simp: new_pt_def regions_ok_def)
    have e: "{unat p..<unat p + 2 ^ 18} \<inter> blk_region w j = {}"
      "pt_release (table_block x) = Os_pt j m \<Longrightarrow> {unat p..<unat p + 2 ^ 18} \<inter> table_range x = {}" for j m
      using env p(1) x(1) unfolding env_ok_def by blast+
    show ?thesis
    proof (cases "pt_release (table_block x)")
      case (Block_pt j m)
      then show ?thesis using e(1)[of j] X[OF Block_pt] unfolding p(2) by blast
    next
      case (Os_pt j m)
      then show ?thesis using e(2) unfolding p(2) by blast
    qed
  qed
qed

lemma get_new:
  assumes m: "mem_inv env H U w" and w: "pt_partial w = []"
  shows "\<exists>err p q w'. mali_mmu_get_table_page env allocators w = Some (err, p, q, w') \<and> cache_frame w' w \<and>
    (if err = ERR_OK then q = Some p \<and> mem_inv env H (insert p U) w' \<and> p \<notin> U \<and> 4096 dvd unat p \<and>
       (\<forall>x. x \<notin> page_words p \<longrightarrow> phys_mem w' x = phys_mem w x)
     else err = ERR_NOMEM \<and> mem_inv env H U w' \<and> phys_mem w' = phys_mem w)"
proof (cases "kmalloc env Table_allocation_site w")
  case False
  then show ?thesis using m w by (simp add: mali_mmu_get_table_page_def cache_frame_def)
next
  case mal: True
  let ?T = "table_releases w"
  have inv: "env_ok env" "regions_ok w" "alloc_inv H ?T w" "cache_inv U w" using m by (auto simp: mem_inv_def)
  obtain err t w1 where a: "mali_allocation_engine_allocate_page_tables (\<lambda>a w. Some (physical_page_tables env a w))
      allocators w = Some (err, t, w1)" "\<exists>f g. w1 = w\<lparr>blk := f, osa := g\<rparr>" "same_regions w1 w"
    "if err = ERR_OK then \<exists>b. t = Some b \<and> new_pt env w b \<and> alloc_inv H (add_mset (pt_release b) ?T) w1
     else t = None \<and> w1 = w"
    using allocate_page_tables_ok[OF inv(3), of env allocators] by (elim exE conjE) (rule that, assumption, blast)
  obtain f g where fg: "w1 = w\<lparr>blk := f, osa := g\<rparr>" using a(2) by blast
  show ?thesis
  proof (cases "err = ERR_OK")
    case False
    then show ?thesis using a m w mal by (simp add: mali_mmu_get_table_page_def cache_frame_def)
  next
    case True
    then obtain b where b: "t = Some b" "new_pt env w b" "alloc_inv H (add_mset (pt_release b) ?T) w1" using a(4) by auto
    have reg1: "regions_ok w1" using same_regions_ok[OF a(3)] inv(2) by simp
    have tab: "tables w1 = tables w" "pt_partial w1 = pt_partial w" "pt_full w1 = pt_full w" by (simp_all add: fg tables_def)
    have placed: "placed w1 x = placed w x" for x by (rule placed_same[OF a(3)])
    have cache1: "cache_inv U w1" using inv(4) by (simp add: cache_inv_def tab placed)
    show ?thesis
    proof (cases "kmalloc env Usage_map_site w1")
      case False
      have "\<not> lock_interrupted env w1" using inv(1) by (simp add: env_ok_def)
      from release_page_tables_ok[OF b(3) this] obtain f' g' where
        r: "release_page_tables env (pt_release b) w1 = Some (w1\<lparr>blk := f', osa := g'\<rparr>)"
          "same_regions (w1\<lparr>blk := f', osa := g'\<rparr>) w1" "alloc_inv H ?T (w1\<lparr>blk := f', osa := g'\<rparr>)" by blast
      let ?w = "w1\<lparr>blk := f', osa := g'\<rparr>"
      have "mem_inv env H U ?w"
        using inv(1) same_regions_ok[OF r(2)] reg1 r(3) cache1 placed_same[OF r(2)]
        by (simp add: mem_inv_def cache_inv_def tables_def table_releases_def fg)
      then show ?thesis using w mal a(1) b(1) True False r(1)
        by (simp add: mali_mmu_get_table_page_def cache_frame_def fg)
    next
      case um: True
      define x where "x = \<lparr>usage_map = mali_osk_set_nonatomic_bit 0 (\<lambda>_. 0), usage_count = 1,
        table_pages = pt_size b div MALI_MMU_PAGE_SIZE, table_block = b\<rparr>"
      define w2 where "w2 = (fill_page (pt_mapping b) 0 w1)\<lparr>pt_partial := [x]\<rparr>"
      note pl = new_pt_place[OF b(2) inv(2,1)]
      have "\<not> usage_bit (\<lambda>_. 0) k" for k by (simp add: usage_bit_def)
      then have ux: "used x = {0}" by (auto simp: used_def x_def)
      have px: "used_pages x = {pt_phys_base b}" by (simp add: used_pages_def ux) (simp add: x_def)
      have "pt_size b div MALI_MMU_PAGE_SIZE = 64" using b(2) by (simp add: new_pt_def MALI_MMU_PAGE_SIZE_def)
      then have xok: "table_ok x" using pl by (simp add: table_ok_def ux) (simp add: x_def table_base_def)
      have rx: "table_range x = {unat (pt_phys_base b)..<unat (pt_phys_base b) + 2 ^ 18}"
        by (simp add: table_range_def table_base_def x_def)
      have dis: "table_range x \<inter> table_range y = {}" if y: "y \<in> set (tables w)" for y
      proof -
        have "placed w y" using inv(4) y by (simp add: cache_inv_def)
        moreover have "pt_release (table_block y) \<in># ?T" using y by (simp add: table_releases_def)
        then have "pt_release (table_block y) \<noteq> Block_pt i n" if "pt_release b = Block_pt i n" for i n
          using alloc_fresh[of H i n ?T w1] b(3) that by auto
        ultimately show ?thesis unfolding rx using new_pt_disjoint[OF b(2) inv(2,1) y] by blast
      qed
      have t2: "tables w2 = x # tables w" "pt_partial w2 = [x]" "pt_full w2 = pt_full w" "tables w = pt_full w"
        using w by (simp_all add: w2_def tables_def fill_page_mem fg)
      have s2: "same_regions w2 w" using a(3) by (simp add: same_regions_def w2_def fill_page_mem)
      have "table_releases w2 = add_mset (pt_release b) ?T" by (simp add: table_releases_def t2) (simp add: x_def)
      then have al: "alloc_inv H (table_releases w2) w2"
        using b(3) alloc_inv_frame[of w2 w1] by (simp add: w2_def fill_page_mem)
      have U: "U = (\<Union>y \<in> set (tables w). used_pages y)" using inv(4) by (simp add: cache_inv_def)
      have "cache_inv (insert (pt_phys_base b) U) w2"
        using inv(4) xok dis pl(4)[of x] ux placed_same[OF s2] px
        unfolding cache_inv_def U t2(1,2,3) by (auto simp: x_def t2(4))
      moreover have "pt_phys_base b \<notin> U"
      proof
        assume "pt_phys_base b \<in> U"
        then obtain y where y: "y \<in> set (tables w)" "pt_phys_base b \<in> used_pages y" unfolding U by blast
        then have "unat (pt_phys_base b) \<in> table_range y" using inv(4) used_pages_range by (auto simp: cache_inv_def)
        moreover have "unat (pt_phys_base b) \<in> table_range x" unfolding rx by simp
        ultimately show False using dis[OF y(1)] by blast
      qed
      moreover have "mali_mmu_get_table_page env allocators w = Some (ERR_OK, pt_phys_base b, Some (pt_phys_base b), w2)"
        using w mal a(1) b(1) True um pl(1) unfolding w2_def x_def by (simp add: mali_mmu_get_table_page_def Let_def)
      moreover have "cache_frame w2 w" by (simp add: cache_frame_def w2_def fill_page_mem fg)
      moreover have "\<forall>q. q \<notin> page_words (pt_phys_base b) \<longrightarrow> phys_mem w2 q = phys_mem w q"
        by (simp add: w2_def fill_page_mem pl(1) fg)
      ultimately show ?thesis using inv(1) same_regions_ok[OF s2] inv(2) al pl(2)
        by (auto simp: mem_inv_def)
    qed
  qed
qed

text \<open>A page that is handed out was free, and stays accounted for.\<close>

lemma get_table_page_ok:
  assumes "mem_inv env H U w"
  shows "\<exists>err p q w'. mali_mmu_get_table_page env allocators w = Some (err, p, q, w') \<and> cache_frame w' w \<and>
    (if err = ERR_OK then q = Some p \<and> mem_inv env H (insert p U) w' \<and> p \<notin> U \<and> 4096 dvd unat p \<and>
       (\<forall>x. x \<notin> page_words p \<longrightarrow> phys_mem w' x = phys_mem w x)
     else err = ERR_NOMEM \<and> mem_inv env H U w' \<and> phys_mem w' = phys_mem w)"
proof (cases "pt_partial w")
  case Nil
  then show ?thesis using get_new[OF assms] by blast
next
  case (Cons a as)
  from get_partial[OF assms this, of allocators] obtain p w' where
    "mali_mmu_get_table_page env allocators w = Some (ERR_OK, p, Some p, w')" "mem_inv env H (insert p U) w'"
    "p \<notin> U" "4096 dvd unat p" "cache_frame w' w" "phys_mem w' = phys_mem w" by blast
  then show ?thesis by simp
qed

subsection \<open>Taking a page back\<close>

lemma sorted_wrt_pair:
  "sorted_wrt P xs \<Longrightarrow> (\<And>x y. P x y \<Longrightarrow> P y x) \<Longrightarrow> x \<in> set xs \<Longrightarrow> y \<in> set xs \<Longrightarrow> x \<noteq> y \<Longrightarrow> P x y"
  by (induction xs) auto

text \<open>The table that covers a page in use is the one that has it.\<close>

lemma cover_unique:
  assumes c: "cache_inv U w" and p: "p \<in> U" and x: "x \<in> set (tables w)" "covers_page p x"
  shows "p \<in> used_pages x"
proof -
  obtain a where a: "a \<in> set (tables w)" "p \<in> used_pages a" using c p by (auto simp: cache_inv_def)
  have ok: "table_ok a" "table_ok x" using c a(1) x(1) by (auto simp: cache_inv_def)
  have r: "unat p \<in> table_range a" "unat p \<in> table_range x"
    using used_pages_range[OF ok(1) a(2)] covers_in_range[OF ok(2) x(2)] by auto
  have s: "sorted_wrt (\<lambda>a b. table_range a \<inter> table_range b = {}) (tables w)" using c by (simp add: cache_inv_def)
  have "a = x"
  proof (rule ccontr)
    assume "a \<noteq> x"
    from sorted_wrt_pair[OF s _ a(1) x(1) this] have "table_range a \<inter> table_range x = {}" by blast
    then show False using r by blast
  qed
  then show ?thesis using a(2) by simp
qed

lemma zero_page_mem: "table_ok x \<Longrightarrow> zero_page p x w = w\<lparr>phys_mem := \<lambda>q. if q \<in> page_words p then 0 else phys_mem w q\<rparr>"
  by (simp add: zero_page_def table_ok_def fill_page_mem)

text \<open>A table loses a page, in whatever list it is.\<close>

lemma cache_lose:
  assumes c: "cache_inv U w" and p: "p \<in> U" and t: "tables w = as @ x # bs" "covers_page p x"
  shows "table_ok x" "p \<in> used_pages x" "U - {p} = (\<Union>y \<in> set (as @ bs). used_pages y) \<union> (used_pages x - {p})"
    "\<exists>n \<in> used x. p = pt_phys_base (table_block x) + of_nat n * 4096"
proof -
  have x: "x \<in> set (tables w)" by (simp add: t(1))
  show ok: "table_ok x" using c x by (auto simp: cache_inv_def)
  show px: "p \<in> used_pages x" by (rule cover_unique[OF c p x t(2)])
  then show "\<exists>n \<in> used x. p = pt_phys_base (table_block x) + of_nat n * 4096" by (auto simp: used_pages_def)
  have "p \<notin> used_pages y" if y: "y \<in> set (as @ bs)" for y
  proof -
    have "table_range y \<inter> table_range x = {}" "table_ok y"
      using c y unfolding cache_inv_def t(1) by (auto simp: sorted_wrt_append)
    then show ?thesis using used_pages_range[OF ok px] used_pages_range[of y p] by blast
  qed
  moreover have "U = (\<Union>y \<in> set (as @ bs). used_pages y) \<union> used_pages x"
    using c unfolding cache_inv_def t(1) by auto
  ultimately show "U - {p} = (\<Union>y \<in> set (as @ bs). used_pages y) \<union> (used_pages x - {p})" by auto
qed

lemma release_table_page_ok:
  assumes m: "mem_inv env H U w" and p: "p \<in> U"
  shows "\<exists>w'. mali_mmu_release_table_page env p w = Some w' \<and> cache_frame w' w \<and> mem_inv env H (U - {p}) w' \<and>
    (\<forall>q. q \<notin> page_words p \<longrightarrow> phys_mem w' q = phys_mem w q)"
proof -
  have inv: "env_ok env" "regions_ok w" "alloc_inv H (table_releases w) w" "cache_inv U w" using m by (auto simp: mem_inv_def)
  show ?thesis
  proof (cases "List.extract (covers_page p) (pt_partial w)")
    case (Some yxz)
    then obtain ys x zs where e: "List.extract (covers_page p) (pt_partial w) = Some (ys, x, zs)"
      by (cases yxz) auto
    then have P: "pt_partial w = ys @ x # zs" "covers_page p x" by (auto simp: extract_Some_iff)
    have t: "tables w = ys @ x # (zs @ pt_full w)" by (simp add: tables_def P(1))
    note L = cache_lose[OF inv(4) p t P(2)]
    obtain n where n: "n \<in> used x" "p = pt_phys_base (table_block x) + of_nat n * 4096" using L(4) by blast
    let ?x = "clear_page_bit p x"
    note l = lose_page[OF L(1) n]
    have xl: "card (used x) < 64" using inv(4) P(1) by (auto simp: cache_inv_def)
    define w1 where "w1 = w\<lparr>phys_mem := \<lambda>q. if q \<in> page_words p then 0 else phys_mem w q\<rparr>"
    have z: "zero_page p x w = w1" using zero_page_mem[OF L(1)] by (simp add: w1_def)
    show ?thesis
    proof (cases "card (used x) = 1")
      case True
      then have c0: "usage_count ?x = 0" using l(2) by (simp add: unat_eq_0)
      have u: "used_pages x = {p}"
      proof -
        obtain k where "used x = {k}" using True card_1_singletonE by blast
        then show ?thesis using n by (auto simp: used_pages_def)
      qed
      let ?w = "w1\<lparr>pt_partial := ys @ zs\<rparr>"
      have r: "table_releases w = add_mset (pt_release (table_block x)) (table_releases ?w)"
        by (simp add: table_releases_def t) (simp add: tables_def w1_def)
      have "alloc_inv H (add_mset (pt_release (table_block x)) (table_releases ?w)) ?w"
        using inv(3) alloc_inv_frame[of ?w w] by (simp add: r w1_def)
      moreover have "\<not> lock_interrupted env ?w" using inv(1) by (simp add: env_ok_def)
      ultimately obtain f g where R: "release_page_tables env (pt_release (table_block x)) ?w = Some (?w\<lparr>blk := f, osa := g\<rparr>)"
        "same_regions (?w\<lparr>blk := f, osa := g\<rparr>) ?w" "alloc_inv H (table_releases ?w) (?w\<lparr>blk := f, osa := g\<rparr>)"
        using release_page_tables_ok by blast
      let ?v = "?w\<lparr>blk := f, osa := g\<rparr>"
      have s: "same_regions ?v w" using R(2) by (simp add: same_regions_def w1_def)
      have tv: "tables ?v = ys @ zs @ pt_full w" by (simp add: tables_def w1_def)
      have "cache_inv (U - {p}) ?v"
        using inv(4) L(3) u placed_same[OF s] P(1) unfolding cache_inv_def tv t
        by (auto simp: sorted_wrt_append w1_def)
      moreover have "table_releases ?v = table_releases ?w" by (simp add: table_releases_def tables_def)
      ultimately have "mem_inv env H (U - {p}) ?v"
        using inv(1,2) same_regions_ok[OF s] R(3) by (simp add: mem_inv_def)
      moreover have "mali_mmu_release_table_page env p w = Some ?v"
        using e z c0 l(4) R(1) by (simp add: mali_mmu_release_table_page_def Let_def)
      ultimately show ?thesis by (simp add: cache_frame_def w1_def)
    next
      case False
      then have c1: "card (used x) > 1" using l(5) by simp
      note k = lose_page_ok[OF L(1) n c1]
      have c0: "usage_count ?x \<noteq> 0" using l(2) c1 by (auto simp: unat_eq_0[symmetric])
      let ?v = "w1\<lparr>pt_partial := ys @ ?x # zs\<rparr>"
      have s: "same_regions ?v w" by (simp add: same_regions_def w1_def)
      have tv: "tables ?v = ys @ ?x # (zs @ pt_full w)" by (simp add: tables_def w1_def)
      have rx: "table_range ?x = table_range x" "placed w ?x = placed w x"
        using same_block_simps[OF l(4)] by auto
      have "cache_inv (U - {p}) ?v"
        using inv(4) L(3) k l(3) rx xl placed_same[OF s] P(1) unfolding cache_inv_def tv t
        by (auto simp: sorted_wrt_append w1_def)
      moreover have "table_releases ?v = table_releases w" by (simp add: table_releases_def tv t l(4))
      then have "alloc_inv H (table_releases ?v) ?v"
        using inv(3) alloc_inv_frame[of ?v w] by (simp add: w1_def)
      ultimately have "mem_inv env H (U - {p}) ?v"
        using inv(1,2) same_regions_ok[OF s] by (simp add: mem_inv_def)
      moreover have "mali_mmu_release_table_page env p w = Some ?v"
        using e z c0 by (simp add: mali_mmu_release_table_page_def Let_def)
      ultimately show ?thesis by (simp add: cache_frame_def w1_def)
    qed
  next
    case None
    then have none: "\<forall>y \<in> set (pt_partial w). \<not> covers_page p y" by (simp add: extract_None_iff)
    obtain a where a: "a \<in> set (tables w)" "p \<in> used_pages a" using inv(4) p by (auto simp: cache_inv_def)
    then have "covers_page p a" using inv(4) covers_range by (auto simp: cache_inv_def)
    then have "\<exists>y \<in> set (pt_full w). covers_page p y" using a(1) none by (auto simp: tables_def)
    then obtain yxz where "List.extract (covers_page p) (pt_full w) = Some yxz"
      by (cases "List.extract (covers_page p) (pt_full w)") (auto simp: extract_None_iff)
    then obtain ys x zs where e: "List.extract (covers_page p) (pt_full w) = Some (ys, x, zs)"
      by (cases yxz) auto
    then have P: "pt_full w = ys @ x # zs" "covers_page p x" by (auto simp: extract_Some_iff)
    have t: "tables w = (pt_partial w @ ys) @ x # zs" by (simp add: tables_def P(1))
    note L = cache_lose[OF inv(4) p t P(2)]
    obtain n where n: "n \<in> used x" "p = pt_phys_base (table_block x) + of_nat n * 4096" using L(4) by blast
    let ?x = "clear_page_bit p x"
    note l = lose_page[OF L(1) n]
    have xl: "card (used x) = 64" using inv(4) P(1) by (auto simp: cache_inv_def)
    then have k: "table_ok ?x" "card (used ?x) = 63" using lose_page_ok[OF L(1) n] by auto
    define w1 where "w1 = w\<lparr>phys_mem := \<lambda>q. if q \<in> page_words p then 0 else phys_mem w q\<rparr>"
    have z: "zero_page p x w = w1" using zero_page_mem[OF L(1)] by (simp add: w1_def)
    let ?v = "w1\<lparr>pt_full := ys @ zs, pt_partial := ?x # pt_partial w1\<rparr>"
    have s: "same_regions ?v w" by (simp add: same_regions_def w1_def)
    have tv: "tables ?v = ?x # (pt_partial w @ ys @ zs)" by (simp add: tables_def w1_def)
    have rx: "table_range ?x = table_range x" "placed w ?x = placed w x"
      using same_block_simps[OF l(4)] by auto
    have "cache_inv (U - {p}) ?v"
      using inv(4) L(3) k l(3) rx placed_same[OF s] P(1) unfolding cache_inv_def tv t
      by (auto simp: sorted_wrt_append w1_def Int_commute)
    moreover have "table_releases ?v = table_releases w" by (simp add: table_releases_def tv t l(4))
    then have "alloc_inv H (table_releases ?v) ?v"
      using inv(3) alloc_inv_frame[of ?v w] by (simp add: w1_def)
    ultimately have "mem_inv env H (U - {p}) ?v"
      using inv(1,2) same_regions_ok[OF s] by (simp add: mem_inv_def)
    moreover have "mali_mmu_release_table_page env p w = Some ?v"
      using e z None by (simp add: mali_mmu_release_table_page_def Let_def)
    ultimately show ?thesis by (simp add: cache_frame_def w1_def)
  qed
qed

end
