(* ===== verification/Mmu_Address_Manager.thy ===== *)
theory Mmu_Address_Manager
  imports Page_Table_Pages
begin

text \<open>
  The Mali side of an allocation, the address manager of common/mali\_kernel\_mem\_mmu.c: a session has a
  page directory of 1024 entries, each for a page table of 1024 pages, and counts the allocations that
  use each table.  The build without the Mali-400 L2 cache is modelled, as on this board.
\<close>

definition MALI_MMU_PDE_ENTRY :: "u32 \<Rightarrow> nat" where
  "MALI_MMU_PDE_ENTRY address = unat (drop_bit 22 address AND 0x03FF)"

definition MALI_MMU_PTE_ENTRY :: "u32 \<Rightarrow> nat" where
  "MALI_MMU_PTE_ENTRY address = unat (drop_bit 12 address AND 0x03FF)"

definition MALI_MMU_ENTRY_ADDRESS :: "u32 \<Rightarrow> u32" where
  "MALI_MMU_ENTRY_ADDRESS v = v AND 0xFFFFFC00"

definition MALI_MMU_FLAGS_PRESENT :: u32 where "MALI_MMU_FLAGS_PRESENT = 1"
definition MALI_MMU_FLAGS_READ_PERMISSION :: u32 where "MALI_MMU_FLAGS_READ_PERMISSION = 2"
definition MALI_MMU_FLAGS_WRITE_PERMISSION :: u32 where "MALI_MMU_FLAGS_WRITE_PERMISSION = 4"

definition upd_ms :: "nat \<Rightarrow> (memory_session \<Rightarrow> memory_session) \<Rightarrow> 'a mmu_state_scheme \<Rightarrow> 'a mmu_state_scheme" where
  "upd_ms s f w = w\<lparr>msessions := (msessions w)(s := f (msessions w s))\<rparr>"

definition read_pde :: "nat \<Rightarrow> nat \<Rightarrow> 'a mmu_state_scheme \<Rightarrow> u32" where
  "read_pde s i w = ioread32 (page_directory_mapped (msessions w s)) (of_nat i * 4) w"

definition write_pde :: "nat \<Rightarrow> nat \<Rightarrow> u32 \<Rightarrow> 'a mmu_state_scheme \<Rightarrow> 'a mmu_state_scheme" where
  "write_pde s i v w = iowrite32 (page_directory_mapped (msessions w s)) (of_nat i * 4) v w"

definition set_usage :: "nat \<Rightarrow> nat \<Rightarrow> u32 \<Rightarrow> 'a mmu_state_scheme \<Rightarrow> 'a mmu_state_scheme" where
  "set_usage s i c = upd_ms s (\<lambda>m. m\<lparr>page_entries_usage_count := (page_entries_usage_count m)(i := c)\<rparr>)"

definition set_mapped :: "nat \<Rightarrow> nat \<Rightarrow> u32 option \<Rightarrow> 'a mmu_state_scheme \<Rightarrow> 'a mmu_state_scheme" where
  "set_mapped s i p = upd_ms s (\<lambda>m. m\<lparr>page_entries_mapped := (page_entries_mapped m)(i := p)\<rparr>)"

definition usage_of :: "nat \<Rightarrow> nat \<Rightarrow> 'a mmu_state_scheme \<Rightarrow> u32" where
  "usage_of s i w = page_entries_usage_count (msessions w s) i"

definition mapped_of :: "nat \<Rightarrow> nat \<Rightarrow> 'a mmu_state_scheme \<Rightarrow> u32 option" where
  "mapped_of s i w = page_entries_mapped (msessions w s) i"

subsection \<open>Reserving\<close>

text \<open>
  The loop over the page directory entries; the result is the entry at which no page could be had.
\<close>

fun reserve_pdes ::
  "'a mmu_state_scheme os_env \<Rightarrow> allocator_id list \<Rightarrow> nat \<Rightarrow> nat list \<Rightarrow> 'a mmu_state_scheme
     \<Rightarrow> (nat option \<times> 'a mmu_state_scheme) option" where
  "reserve_pdes env allocators s [] w = Some (None, w)"
| "reserve_pdes env allocators s (i # is) w =
     (if read_pde s i w AND MALI_MMU_FLAGS_PRESENT = 0 then do {
        (err, pte_phys, pte_mapped, w) \<leftarrow> mali_mmu_get_table_page env allocators w;
        if err = ERR_OK then do {
          let w = set_mapped s i pte_mapped w;
          let w = write_pde s i (pte_phys OR MALI_MMU_FLAGS_PRESENT) w;
          reserve_pdes env allocators s is (set_usage s i (usage_of s i w + 1) w)
        } else Some (Some i, w)
      } else reserve_pdes env allocators s is (set_usage s i (usage_of s i w + 1) w))"

text \<open>The last reference to a page table gives it back.\<close>

definition free_pde :: "'a mmu_state_scheme os_env \<Rightarrow> nat \<Rightarrow> nat \<Rightarrow> 'a mmu_state_scheme \<Rightarrow> 'a mmu_state_scheme option" where
  "free_pde env s i w = do {
     w \<leftarrow> mali_mmu_release_table_page env (MALI_MMU_ENTRY_ADDRESS (read_pde s i w)) w;
     Some (write_pde s i 0 (set_mapped s i None w))
   }"

fun unreserve_pdes ::
  "'a mmu_state_scheme os_env \<Rightarrow> nat \<Rightarrow> nat list \<Rightarrow> 'a mmu_state_scheme \<Rightarrow> 'a mmu_state_scheme option" where
  "unreserve_pdes env s [] w = Some w"
| "unreserve_pdes env s (i # is) w = do {
     let w = set_usage s i (usage_of s i w - 1) w;
     w \<leftarrow> (if usage_of s i w = 0 then free_pde env s i w else Some w);
     unreserve_pdes env s is w
   }"

definition first_pde :: "mali_memory_allocation \<Rightarrow> nat" where
  "first_pde d = MALI_MMU_PDE_ENTRY (mali_address d)"

definition last_pde_reserved :: "mali_memory_allocation \<Rightarrow> nat" where
  "last_pde_reserved d =
     (if alloc_flags d AND FLAG_MAP_GUARD_PAGE \<noteq> 0
      then MALI_MMU_PDE_ENTRY (mali_address d + MALI_MMU_PAGE_SIZE + alloc_size d - 1)
      else MALI_MMU_PDE_ENTRY (mali_address d + alloc_size d - 1))"

definition mali_address_manager_allocate ::
  "'a mmu_state_scheme os_env \<Rightarrow> allocator_id list \<Rightarrow> mali_memory_allocation \<Rightarrow> 'a mmu_state_scheme
     \<Rightarrow> (osk_err \<times> mali_memory_allocation \<times> 'a mmu_state_scheme) option" where
  "mali_address_manager_allocate env allocators d w =
     (let s = mali_addr_mapping_info d
      in do {
        (failed, w) \<leftarrow> reserve_pdes env allocators s [first_pde d..<Suc (last_pde_reserved d)] w;
        (case failed of
           None \<Rightarrow> Some (ERR_OK, d, w)
         | Some i \<Rightarrow> do {
             w \<leftarrow> unreserve_pdes env s (rev [first_pde d..<i]) w;
             Some (ERR_NOMEM, d, w)
           })
      })"

subsection \<open>Releasing\<close>

definition last_pde_released :: "mali_memory_allocation \<Rightarrow> nat" where
  "last_pde_released d = MALI_MMU_PDE_ENTRY (mali_address d + alloc_size d - 1)"

definition size_inside_pte :: "u32 \<Rightarrow> u32" where
  "size_inside_pte left = (if left < 0x400000 then left else 0x400000)"

definition zap_ptes :: "nat \<Rightarrow> nat \<Rightarrow> u32 \<Rightarrow> u32 \<Rightarrow> 'a mmu_state_scheme \<Rightarrow> 'a mmu_state_scheme option" where
  "zap_ptes s i addr sz w =
     (let first_pte_idx = MALI_MMU_PTE_ENTRY addr; last_pte_idx = MALI_MMU_PTE_ENTRY (addr + sz - 1)
      in if first_pte_idx \<le> last_pte_idx
         then map_option (\<lambda>m. fold (\<lambda>j. iowrite32 m (of_nat j * 4) 0) [first_pte_idx..<Suc last_pte_idx] w) (mapped_of s i w)
         else Some w)"

fun release_pdes ::
  "'a mmu_state_scheme os_env \<Rightarrow> nat \<Rightarrow> nat list \<Rightarrow> u32 \<Rightarrow> u32 \<Rightarrow> 'a mmu_state_scheme \<Rightarrow> 'a mmu_state_scheme option" where
  "release_pdes env s [] addr left w = Some w"
| "release_pdes env s (i # is) addr left w =
     (let sz = size_inside_pte left; w = set_usage s i (usage_of s i w - 1) w
      in if usage_of s i w = 0 then do {
           w \<leftarrow> free_pde env s i w;
           release_pdes env s is addr (left - sz) w
         } else do {
           w \<leftarrow> zap_ptes s i addr sz w;
           release_pdes env s is (addr + sz) (left - sz) w
         })"

definition mali_address_manager_release ::
  "'a mmu_state_scheme os_env \<Rightarrow> mali_memory_allocation \<Rightarrow> 'a mmu_state_scheme \<Rightarrow> 'a mmu_state_scheme option" where
  "mali_address_manager_release env d w =
     release_pdes env (mali_addr_mapping_info d) [first_pde d..<Suc (last_pde_released d)]
       (mali_address d) (alloc_size d) w"

subsection \<open>Mapping\<close>

partial_function (option) map_pages ::
  "nat \<Rightarrow> u32 \<Rightarrow> u32 \<Rightarrow> u32 \<Rightarrow> 'a mmu_state_scheme \<Rightarrow> 'a mmu_state_scheme option" where
  "map_pages s addr addr_end phys w =
     (if addr < addr_end then
        (case mapped_of s (MALI_MMU_PDE_ENTRY addr) w of
           None \<Rightarrow> None
         | Some m \<Rightarrow>
             map_pages s (addr + MALI_MMU_PAGE_SIZE) addr_end (phys + MALI_MMU_PAGE_SIZE)
               (iowrite32 m (of_nat (MALI_MMU_PTE_ENTRY addr) * 4)
                  (phys OR MALI_MMU_FLAGS_WRITE_PERMISSION OR MALI_MMU_FLAGS_READ_PERMISSION OR MALI_MMU_FLAGS_PRESENT) w))
      else Some w)"

definition mali_address_manager_map ::
  "mali_memory_allocation \<Rightarrow> u32 \<Rightarrow> u32 \<Rightarrow> u32 \<Rightarrow> 'a mmu_state_scheme \<Rightarrow> (osk_err \<times> u32 \<times> 'a mmu_state_scheme) option" where
  "mali_address_manager_map d offset phys sz w = do {
     w \<leftarrow> map_pages (mali_addr_mapping_info d) (mali_address d + offset) (mali_address d + offset + sz) phys w;
     Some (ERR_OK, phys, w)
   }"

definition mali_address_manager ::
  "'a mmu_state_scheme os_env \<Rightarrow> allocator_id list \<Rightarrow> 'a mmu_state_scheme mali_kernel_mem_address_manager" where
  "mali_address_manager env allocators =
     \<lparr>am_allocate = mali_address_manager_allocate env allocators,
      am_release = mali_address_manager_release env,
      am_map_physical = mali_address_manager_map,
      am_unmap_physical = None\<rparr>"

end
