(* ===== verification/Mmu_Invariant.thy ===== *)
theory Mmu_Invariant
  imports Mmu_Address_Manager
begin

text \<open>
  The invariant of the page directories: the usage counts are the numbers of allocations, a table
  exists exactly while it is used, and no page serves two purposes.
\<close>

subsection \<open>Words of different pages\<close>

lemma page_word_inj:
  assumes "4096 dvd unat (p :: u32)" "4096 dvd unat q" "i < 1024" "j < 1024" "p + of_nat i * 4 = q + of_nat j * 4"
  shows "p = q \<and> i = j"
proof -
  have b: "unat (p + of_nat k * 4) = unat p + k * 4" if "4096 dvd unat p" "k < 1024" for p :: u32 and k
  proof -
    have "unat p < 2 ^ 32" using unsigned_less[of p, where 'a = nat] by simp
    then have "unat p \<le> 2 ^ 32 - 4096" using that(1) by (auto simp: dvd_def)
    then show ?thesis using that(2) by (simp add: unat_word_ariths unat_of_nat)
  qed
  have e: "unat p + i * 4 = unat q + j * 4" using assms(5) b[OF assms(1,3)] b[OF assms(2,4)] by metis
  have "(unat p + i * 4) div 4096 = unat p div 4096" "(unat q + j * 4) div 4096 = unat q div 4096"
    using assms(1-4) by (auto simp: dvd_def)
  then have "unat p div 4096 = unat q div 4096" using e by metis
  then have "unat p = unat q" using assms(1,2) by (metis dvd_div_mult_self)
  then show ?thesis using e by (simp add: word_unat_eq_iff)
qed

lemma page_words_disjoint:
  "4096 dvd unat (p :: u32) \<Longrightarrow> 4096 dvd unat q \<Longrightarrow> p \<noteq> q \<Longrightarrow> page_words p \<inter> page_words q = {}"
  unfolding page_words_def using page_word_inj[of p q] by auto

lemma word_in_page: "i < 1024 \<Longrightarrow> p + of_nat i * 4 \<in> page_words p"
  by (auto simp: page_words_def)

lemma present_bit: "(p OR MALI_MMU_FLAGS_PRESENT) AND MALI_MMU_FLAGS_PRESENT \<noteq> 0"
proof -
  have "bit ((p OR 1) AND 1 :: u32) 0" by (simp add: bit_simps)
  then have "(p OR 1) AND 1 \<noteq> (0 :: u32)" by (metis bit_0_eq bot_apply bot_bool_def)
  then show ?thesis by (simp add: MALI_MMU_FLAGS_PRESENT_def)
qed

lemma entry_address:
  assumes "4096 dvd unat (p :: u32)"
  shows "MALI_MMU_ENTRY_ADDRESS (p OR MALI_MMU_FLAGS_PRESENT) = p"
proof -
  have z: "\<not> bit p n" if "n < 12" for n
  proof -
    have "take_bit 12 (unat p) = 0" using assms by (simp add: take_bit_eq_mod)
    then have "\<not> bit (unat p) n" using that by (metis bit_0_eq bit_take_bit_iff bot_apply bot_bool_def)
    then show ?thesis using that bit_unsigned_iff[of p n, where ?'a = nat] by simp
  qed
  have m: "(0xFFFFFC00 :: u32) = NOT (mask 10)" by (simp add: mask_eq_exp_minus_1)
  have "bit ((p OR 1) AND NOT (mask 10)) n = bit p n" for n
    using z[of n] by (cases "n < 10") (auto simp: bit_simps dest: bit_u32_bound)
  then show ?thesis by (simp add: MALI_MMU_ENTRY_ADDRESS_def MALI_MMU_FLAGS_PRESENT_def m mask_eq_bits)
qed

subsection \<open>Access to a session\<close>

lemma upd_ms_fields [simp]:
  "msessions (upd_ms s f w) = (msessions w)(s := f (msessions w s))" "phys_mem (upd_ms s f w) = phys_mem w"
  "tables (upd_ms s f w) = tables w" "blk (upd_ms s f w) = blk w" "osa (upd_ms s f w) = osa w"
  "pt_partial (upd_ms s f w) = pt_partial w" "pt_full (upd_ms s f w) = pt_full w"
  "mmu_state.more (upd_ms s f w) = mmu_state.more w"
  by (simp_all add: upd_ms_def tables_def)

lemma iowrite_fields [simp]:
  "msessions (iowrite32 a b v w) = msessions w" "phys_mem (iowrite32 a b v w) = (phys_mem w)(a + b := v)"
  "tables (iowrite32 a b v w) = tables w" "blk (iowrite32 a b v w) = blk w" "osa (iowrite32 a b v w) = osa w"
  "pt_partial (iowrite32 a b v w) = pt_partial w" "pt_full (iowrite32 a b v w) = pt_full w"
  "mmu_state.more (iowrite32 a b v w) = mmu_state.more w"
  by (simp_all add: iowrite32_def tables_def)

lemma mem_inv_frame:
  assumes "mem_inv env H U w" "blk w' = blk w" "osa w' = osa w" "pt_partial w' = pt_partial w" "pt_full w' = pt_full w"
  shows "mem_inv env H U w'"
proof -
  have t: "tables w' = tables w" using assms by (simp add: tables_def)
  have "same_regions w' w" using assms by (simp add: same_regions_def)
  then show ?thesis
    using assms(1) t alloc_inv_frame[of w' w] assms(2-5) placed_same[of w' w] same_regions_ok[of w' w]
    by (simp add: mem_inv_def cache_inv_def table_releases_def)
qed

subsection \<open>The page directories\<close>

text \<open>
  \<open>L\<close> are the live sessions, \<open>F\<close> the pages in other use, \<open>C s i\<close> the number of allocations of session
  \<open>s\<close> in its entry \<open>i\<close>, and \<open>U\<close> all pages handed out by the cache.
\<close>

definition pd_page :: "'a mmu_state_scheme \<Rightarrow> nat \<Rightarrow> u32" where
  "pd_page w s = page_directory_mapped (msessions w s)"

definition table_pages_of :: "nat set \<Rightarrow> 'a mmu_state_scheme \<Rightarrow> u32 set" where
  "table_pages_of L w = {p. \<exists>s \<in> L. \<exists>i < 1024. mapped_of s i w = Some p}"

definition entry_ok :: "nat \<Rightarrow> nat \<Rightarrow> nat \<Rightarrow> 'a mmu_state_scheme \<Rightarrow> bool" where
  "entry_ok c s i w \<longleftrightarrow> c < 2 ^ 32 \<and> usage_of s i w = of_nat c \<and>
     (if c = 0 then read_pde s i w AND MALI_MMU_FLAGS_PRESENT = 0 \<and> mapped_of s i w = None
      else \<exists>p. mapped_of s i w = Some p \<and> read_pde s i w = p OR MALI_MMU_FLAGS_PRESENT)"

definition pd_inv :: "nat set \<Rightarrow> u32 set \<Rightarrow> (nat \<Rightarrow> nat \<Rightarrow> nat) \<Rightarrow> u32 set \<Rightarrow> 'a mmu_state_scheme \<Rightarrow> bool" where
  "pd_inv L F C U w \<longleftrightarrow> inj_on (pd_page w) L \<and> (\<forall>s \<in> L. \<forall>i < 1024. entry_ok (C s i) s i w) \<and>
     (\<forall>s \<in> L. \<forall>t \<in> L. \<forall>i < 1024. \<forall>j < 1024. \<forall>p. mapped_of s i w = Some p \<longrightarrow> mapped_of t j w = Some p \<longrightarrow> s = t \<and> i = j) \<and>
     pd_page w ` L \<inter> F = {} \<and> table_pages_of L w \<inter> (pd_page w ` L \<union> F) = {} \<and>
     U = pd_page w ` L \<union> F \<union> table_pages_of L w \<and> (\<forall>p \<in> U. 4096 dvd unat p) \<and>
     (\<forall>s \<in> L. page_directory (msessions w s) = pd_page w s)"

definition pages_ok ::
  "'a mmu_state_scheme os_env \<Rightarrow> nat set \<Rightarrow> u32 set \<Rightarrow> (nat \<Rightarrow> nat \<Rightarrow> nat) \<Rightarrow> phys_handle multiset \<Rightarrow> 'a mmu_state_scheme \<Rightarrow> bool" where
  "pages_ok env L F C H w \<longleftrightarrow> (\<exists>U. mem_inv env H U w \<and> pd_inv L F C U w)"

text \<open>A change of memory outside the page directories.\<close>

lemma pd_inv_mem:
  assumes "pd_inv L F C U w" "msessions w' = msessions w"
    "\<And>s q. s \<in> L \<Longrightarrow> q \<in> page_words (pd_page w s) \<Longrightarrow> phys_mem w' q = phys_mem w q"
  shows "pd_inv L F C U w'"
proof -
  have s: "pd_page w' = pd_page w" "mapped_of s i w' = mapped_of s i w" "usage_of s i w' = usage_of s i w"
    "table_pages_of L w' = table_pages_of L w" for s i
    using assms(2) by (simp_all add: pd_page_def mapped_of_def usage_of_def table_pages_of_def fun_eq_iff)
  have "read_pde s i w' = read_pde s i w" if "s \<in> L" "i < 1024" for s i
    using assms(3)[OF that(1) word_in_page[OF that(2)]] assms(2)
    by (simp add: read_pde_def ioread32_def pd_page_def)
  then have "entry_ok c s i w' = entry_ok c s i w" if "s \<in> L" "i < 1024" for c s i
    using that by (simp add: entry_ok_def s)
  then show ?thesis using assms(1,2) by (simp add: pd_inv_def s)
qed

text \<open>A change of one entry.\<close>

lemma ex_pair_update:
  assumes "s \<in> L" "i < (n :: nat)"
  shows "(\<exists>t \<in> L. \<exists>j < n. if (t, j) = (s, i) then A else B t j) \<longleftrightarrow> A \<or> (\<exists>t \<in> L. \<exists>j < n. (t, j) \<noteq> (s, i) \<and> B t j)"
proof (cases A)
  case True
  have "\<exists>j < n. if (s, j) = (s, i) then A else B s j" using assms(2) True by (intro exI[of _ i]) simp
  then show ?thesis using assms(1) True by blast
next
  case False
  then have "(if (t, j) = (s, i) then A else B t j) = ((t, j) \<noteq> (s, i) \<and> B t j)" for t j by simp
  then show ?thesis using False by (simp only: simp_thms)
qed

lemma pd_inv_upd:
  assumes inv: "pd_inv L F C U w" and s: "s \<in> L" "i < 1024" and pg: "pd_page w' = pd_page w"
    and dir: "\<And>t. page_directory (msessions w' t) = page_directory (msessions w t)"
    and other: "\<And>t j. t \<in> L \<Longrightarrow> j < 1024 \<Longrightarrow> (t, j) \<noteq> (s, i) \<Longrightarrow>
      usage_of t j w' = usage_of t j w \<and> mapped_of t j w' = mapped_of t j w \<and> read_pde t j w' = read_pde t j w"
    and e: "entry_ok c s i w'"
    and new: "\<And>p. mapped_of s i w' = Some p \<Longrightarrow> mapped_of s i w = Some p \<or> p \<notin> U \<and> 4096 dvd unat p"
  shows "pd_inv L F (C(s := (C s)(i := c)))
    (U - set_option (mapped_of s i w) \<union> set_option (mapped_of s i w')) w'"
proof -
  let ?o = "mapped_of s i w" and ?n = "mapped_of s i w'"
  have i1: "inj_on (pd_page w) L" and i2: "\<And>t j. t \<in> L \<Longrightarrow> j < 1024 \<Longrightarrow> entry_ok (C t j) t j w"
    and i3: "\<And>t u j k p. t \<in> L \<Longrightarrow> u \<in> L \<Longrightarrow> j < 1024 \<Longrightarrow> k < 1024 \<Longrightarrow> mapped_of t j w = Some p \<Longrightarrow>
      mapped_of u k w = Some p \<Longrightarrow> t = u \<and> j = k"
    and i4: "pd_page w ` L \<inter> F = {}" "table_pages_of L w \<inter> (pd_page w ` L \<union> F) = {}"
    and i5: "U = pd_page w ` L \<union> F \<union> table_pages_of L w" and i6: "\<And>p. p \<in> U \<Longrightarrow> 4096 dvd unat p"
    and i7: "\<And>t. t \<in> L \<Longrightarrow> page_directory (msessions w t) = pd_page w t"
    using inv unfolding pd_inv_def by blast+
  have tp: "p \<in> table_pages_of L w" if "t \<in> L" "j < 1024" "mapped_of t j w = Some p" for t j p
    using that unfolding table_pages_of_def by blast
  have en: "entry_ok ((C(s := (C s)(i := c))) t j) t j w'" if "t \<in> L" "j < 1024" for t j
  proof (cases "(t, j) = (s, i)")
    case False
    then have "(C(s := (C s)(i := c))) t j = C t j" by auto
    then show ?thesis using other[OF that False] i2[OF that] by (simp add: entry_ok_def)
  qed (use e in simp)
  have mp: "mapped_of t j w' = Some p \<longleftrightarrow> (if (t, j) = (s, i) then ?n = Some p else mapped_of t j w = Some p)"
    if "t \<in> L" "j < 1024" for t j p using other[OF that] by auto
  have tpn: "table_pages_of L w' = table_pages_of L w - set_option ?o \<union> set_option ?n"
  proof (rule set_eqI)
    fix p
    have "p \<in> table_pages_of L w' \<longleftrightarrow>
        (\<exists>t \<in> L. \<exists>j < 1024. if (t, j) = (s, i) then ?n = Some p else mapped_of t j w = Some p)"
      unfolding table_pages_of_def mem_Collect_eq by (intro bex_cong refl ex_cong1 conj_cong) (rule mp)
    then have "p \<in> table_pages_of L w' \<longleftrightarrow> ?n = Some p \<or> (\<exists>t \<in> L. \<exists>j < 1024. (t, j) \<noteq> (s, i) \<and> mapped_of t j w = Some p)"
      unfolding ex_pair_update[OF s, of "?n = Some p" "\<lambda>t j. mapped_of t j w = Some p"] .
    moreover have "(\<exists>t \<in> L. \<exists>j < 1024. (t, j) \<noteq> (s, i) \<and> mapped_of t j w = Some p) \<longleftrightarrow>
        p \<in> table_pages_of L w \<and> ?o \<noteq> Some p"
    proof
      assume "\<exists>t \<in> L. \<exists>j < 1024. (t, j) \<noteq> (s, i) \<and> mapped_of t j w = Some p"
      then obtain t j where t: "t \<in> L" "j < 1024" "(t, j) \<noteq> (s, i)" "mapped_of t j w = Some p" by blast
      then show "p \<in> table_pages_of L w \<and> ?o \<noteq> Some p"
        using tp[OF t(1,2,4)] i3[OF t(1) s(1) t(2) s(2) t(4)] by auto
    next
      assume "p \<in> table_pages_of L w \<and> ?o \<noteq> Some p"
      then show "\<exists>t \<in> L. \<exists>j < 1024. (t, j) \<noteq> (s, i) \<and> mapped_of t j w = Some p"
        unfolding table_pages_of_def mem_Collect_eq by (elim conjE bexE exE) (rule bexI exI conjI | assumption | auto)+
    qed
    ultimately show "p \<in> table_pages_of L w' \<longleftrightarrow> p \<in> table_pages_of L w - set_option ?o \<union> set_option ?n" by auto
  qed
  have nw: "p \<in> table_pages_of L w \<or> p \<notin> U" "4096 dvd unat p" if "?n = Some p" for p
    using new[OF that] tp[OF s] i6 i5 by blast+
  have c3: "t = u \<and> j = k" if "t \<in> L" "u \<in> L" "j < 1024" "k < 1024" "mapped_of t j w' = Some p" "mapped_of u k w' = Some p" for t u j k p
  proof -
    have f: False if "?n = Some p" "v \<in> L" "l < 1024" "(v, l) \<noteq> (s, i)" "mapped_of v l w = Some p" for v l
    proof -
      have "p \<in> U" using tp[OF that(2,3,5)] i5 by blast
      then have "?o = Some p" using new[OF that(1)] by blast
      then show False using i3[OF that(2) s(1) that(3) s(2) that(5)] that(4) by blast
    qed
    have "if (t, j) = (s, i) then ?n = Some p else mapped_of t j w = Some p"
      "if (u, k) = (s, i) then ?n = Some p else mapped_of u k w = Some p"
      using mp[OF that(1,3)] mp[OF that(2,4)] that(5,6) by blast+
    then show ?thesis using f[OF _ that(1,3)] f[OF _ that(2,4)] i3[OF that(1-4), of p]
      by (cases "(t, j) = (s, i)"; cases "(u, k) = (s, i)") simp_all
  qed
  have d: "table_pages_of L w' \<inter> (pd_page w' ` L \<union> F) = {}"
    unfolding tpn pg using i4(2) i5 nw(1) by auto
  have u: "U - set_option ?o \<union> set_option ?n = pd_page w' ` L \<union> F \<union> table_pages_of L w'"
  proof -
    have "set_option ?o \<inter> (pd_page w ` L \<union> F) = {}" using tp[OF s] i4(2) by (cases ?o) auto
    then show ?thesis unfolding tpn pg i5 by blast
  qed
  have al: "4096 dvd unat p" if "p \<in> U - set_option ?o \<union> set_option ?n" for p using that i6 nw(2) by auto
  have i8: "page_directory (msessions w' t) = pd_page w t" if "t \<in> L" for t using i7[OF that] dir by simp
  show ?thesis unfolding pd_inv_def using i1 en c3 i4(1) d u al i8 unfolding pg by blast
qed

text \<open>The state after a list of entries has been changed.\<close>

lemma reserve_pdes_Cons:
  "reserve_pdes env allocators s (i # is) w = do {
     (failed, w) \<leftarrow> reserve_pdes env allocators s [i] w;
     if failed = None then reserve_pdes env allocators s is w else Some (failed, w)
   }"
proof (cases "read_pde s i w AND MALI_MMU_FLAGS_PRESENT = 0")
  case True
  then show ?thesis
    by (cases "mali_mmu_get_table_page env allocators w") (auto simp: Let_def)
qed (simp add: Let_def)

definition used_once_more :: "nat \<Rightarrow> nat \<Rightarrow> (nat \<Rightarrow> nat \<Rightarrow> nat) \<Rightarrow> nat \<Rightarrow> nat \<Rightarrow> nat" where
  "used_once_more s i C = C(s := (C s)(i := C s i + 1))"

lemma pd_parts:
  assumes "pd_inv L F C U w" "s \<in> L" "i < 1024"
  shows "entry_ok (C s i) s i w" "4096 dvd unat (pd_page w s)" "pd_page w s \<in> U"
    "mapped_of s i w = Some p \<Longrightarrow> p \<in> U \<and> 4096 dvd unat p"
proof -
  note i = assms(1)[unfolded pd_inv_def]
  have u: "U = pd_page w ` L \<union> F \<union> table_pages_of L w" using i by (elim conjE)
  have e: "\<forall>s \<in> L. \<forall>i < 1024. entry_ok (C s i) s i w" using i by (elim conjE)
  have a: "\<forall>p \<in> U. 4096 dvd unat p" using i by (elim conjE)
  show "entry_ok (C s i) s i w" using e assms(2,3) by simp
  show m: "pd_page w s \<in> U" using u assms(2) by blast
  show "4096 dvd unat (pd_page w s)" using a m by blast
  assume "mapped_of s i w = Some p"
  then have "p \<in> table_pages_of L w" using assms(2,3) unfolding table_pages_of_def by blast
  then show "p \<in> U \<and> 4096 dvd unat p" using u a by blast
qed

text \<open>A write to an entry leaves the other entries as they are.\<close>

lemma read_pde_write:
  assumes "pd_inv L F C U w0" "s \<in> L" "i < 1024" "t \<in> L" "j < 1024" "pd_page w = pd_page w0" "pd_page w' = pd_page w"
    "phys_mem w' = (phys_mem w)(pd_page w s + of_nat i * 4 := v)"
  shows "read_pde t j w' = (if (t, j) = (s, i) then v else read_pde t j w)"
proof -
  have a: "4096 dvd unat (pd_page w s)" "4096 dvd unat (pd_page w t)"
    using pd_parts(2)[OF assms(1,2,3)] pd_parts(2)[OF assms(1,4,5)] assms(6) by simp_all
  have "inj_on (pd_page w) L" using assms(1) unfolding pd_inv_def assms(6) by (elim conjE)
  then have "pd_page w t + of_nat j * 4 = pd_page w s + of_nat i * 4 \<longleftrightarrow> (t, j) = (s, i)"
    using page_word_inj[OF a(2,1) assms(5,3)] assms(2,4) by (auto simp: inj_on_def)
  then show ?thesis using assms(7,8) by (simp add: read_pde_def ioread32_def pd_page_def fun_eq_iff)
qed

end
