(* ===== verification/Mmu_Steps.thy ===== *)
theory Mmu_Steps
  imports Mmu_Invariant
begin

text \<open>
  The steps of the address manager on one page directory entry, and its operations: they keep the
  invariant and count one allocation more or less in the entries of the range.
\<close>

subsection \<open>One entry\<close>

lemma pages_okI: "mem_inv env H U w \<Longrightarrow> pd_inv L F C U w \<Longrightarrow> pages_ok env L F C H w"
  by (auto simp: pages_ok_def)

lemma ms_access [simp]:
  "usage_of t j (set_usage s i c w) = (if t = s \<and> j = i then c else usage_of t j w)"
  "usage_of t j (set_mapped s i m w) = usage_of t j w" "usage_of t j (write_pde s i v w) = usage_of t j w"
  "mapped_of t j (set_mapped s i m w) = (if t = s \<and> j = i then m else mapped_of t j w)"
  "mapped_of t j (set_usage s i c w) = mapped_of t j w" "mapped_of t j (write_pde s i v w) = mapped_of t j w"
  "pd_page (set_usage s i c w) = pd_page w" "pd_page (set_mapped s i m w) = pd_page w"
  "pd_page (write_pde s i v w) = pd_page w"
  "page_directory (msessions (set_usage s i c w) t) = page_directory (msessions w t)"
  "page_directory (msessions (set_mapped s i m w) t) = page_directory (msessions w t)"
  "page_directory (msessions (write_pde s i v w) t) = page_directory (msessions w t)"
  "read_pde t j (set_usage s i c w) = read_pde t j w" "read_pde t j (set_mapped s i m w) = read_pde t j w"
  by (auto simp: usage_of_def mapped_of_def pd_page_def read_pde_def write_pde_def set_usage_def set_mapped_def
      ioread32_def fun_eq_iff)

lemma ms_frame [simp]:
  "blk (set_usage s i c w) = blk w" "osa (set_usage s i c w) = osa w" "pt_partial (set_usage s i c w) = pt_partial w"
  "pt_full (set_usage s i c w) = pt_full w" "mmu_state.more (set_usage s i c w) = mmu_state.more w"
  "blk (set_mapped s i m w) = blk w" "osa (set_mapped s i m w) = osa w" "pt_partial (set_mapped s i m w) = pt_partial w"
  "pt_full (set_mapped s i m w) = pt_full w" "mmu_state.more (set_mapped s i m w) = mmu_state.more w"
  "blk (write_pde s i v w) = blk w" "osa (write_pde s i v w) = osa w" "pt_partial (write_pde s i v w) = pt_partial w"
  "pt_full (write_pde s i v w) = pt_full w" "mmu_state.more (write_pde s i v w) = mmu_state.more w"
  by (simp_all add: set_usage_def set_mapped_def write_pde_def)

lemma phys_mem_ms [simp]:
  "phys_mem (set_usage s i c w) = phys_mem w" "phys_mem (set_mapped s i m w) = phys_mem w"
  "phys_mem (write_pde s i v w) = (phys_mem w)(pd_page w s + of_nat i * 4 := v)"
  by (simp_all add: set_usage_def set_mapped_def write_pde_def pd_page_def)

lemma other_memory:
  assumes "pd_inv L F C U w" "p \<notin> U" "4096 dvd unat p" "msessions w' = msessions w"
    "\<And>q. q \<notin> page_words p \<Longrightarrow> phys_mem w' q = phys_mem w q"
  shows "pd_inv L F C U w'"
proof (rule pd_inv_mem[OF assms(1,4)])
  fix s q assume s: "s \<in> L" "q \<in> page_words (pd_page w s)"
  have "pd_page w s \<noteq> p" "4096 dvd unat (pd_page w s)"
    using pd_parts(2,3)[OF assms(1) s(1), of 0] assms(2) by auto
  then have "q \<notin> page_words p" using page_words_disjoint[OF _ assms(3)] s(2) by blast
  then show "phys_mem w' q = phys_mem w q" by (rule assms(5))
qed

lemma entry_used: "entry_ok c s i w \<Longrightarrow> (read_pde s i w AND MALI_MMU_FLAGS_PRESENT = 0) = (c = 0)"
  using present_bit by (auto simp: entry_ok_def split: if_splits)

lemma reserve_one:
  assumes inv: "mem_inv env H U w" "pd_inv L F C U w" and s: "s \<in> L" "i < 1024" "C s i + 1 < 2 ^ 32"
  shows "\<exists>f w'. reserve_pdes env allocators s [i] w = Some (f, w') \<and> mmu_state.more w' = mmu_state.more w \<and>
    (if f = None then pages_ok env L F (C(s := (C s)(i := C s i + 1))) H w' else f = Some i \<and> pages_ok env L F C H w')"
proof -
  note e = pd_parts(1)[OF inv(2) s(1,2)]
  let ?C = "C(s := (C s)(i := C s i + 1))"
  show ?thesis
  proof (cases "C s i = 0")
    case False
    let ?w = "set_usage s i (usage_of s i w + 1) w"
    have m: "mapped_of s i w = Some p \<Longrightarrow> p \<in> U" for p using pd_parts(4)[OF inv(2) s(1,2)] by simp
    have ok: "entry_ok (C s i + 1) s i ?w" using e s(3) False by (simp add: entry_ok_def)
    have "pd_inv L F ?C (U - set_option (mapped_of s i w) \<union> set_option (mapped_of s i ?w)) ?w"
      by (rule pd_inv_upd[OF inv(2) s(1,2) _ _ _ ok]) auto
    moreover have "U - set_option (mapped_of s i w) \<union> set_option (mapped_of s i ?w) = U"
      using m by (cases "mapped_of s i w") auto
    moreover have "mem_inv env H U ?w" by (rule mem_inv_frame[OF inv(1)]) simp_all
    ultimately have "pages_ok env L F ?C H ?w" by (auto intro: pages_okI)
    then show ?thesis using False entry_used[OF e]
      by (intro exI[of _ None] exI[of _ ?w]) simp
  next
    case True
    have none: "mapped_of s i w = None" "usage_of s i w = 0" using e True by (simp_all add: entry_ok_def)
    have pr: "read_pde s i w AND MALI_MMU_FLAGS_PRESENT = 0" using entry_used[OF e] True by simp
    obtain err p q w1 where g: "mali_mmu_get_table_page env allocators w = Some (err, p, q, w1)" "cache_frame w1 w"
      "if err = ERR_OK then q = Some p \<and> mem_inv env H (insert p U) w1 \<and> p \<notin> U \<and> 4096 dvd unat p \<and>
         (\<forall>x. x \<notin> page_words p \<longrightarrow> phys_mem w1 x = phys_mem w x)
       else err = ERR_NOMEM \<and> mem_inv env H U w1 \<and> phys_mem w1 = phys_mem w"
      using get_table_page_ok[OF inv(1)] by blast
    have fr: "msessions w1 = msessions w" "mmu_state.more w1 = mmu_state.more w"
      using g(2) by (simp_all add: cache_frame_def)
    have ms: "mapped_of s i w1 = mapped_of s i w" "usage_of s i w1 = usage_of s i w"
      using fr by (simp_all add: mapped_of_def usage_of_def)
    show ?thesis
    proof (cases "err = ERR_OK")
      case False
      then have "mem_inv env H U w1" "phys_mem w1 = phys_mem w" using g(3) by simp_all
      then have "pages_ok env L F C H w1" using pd_inv_mem[OF inv(2) fr(1)] by (auto intro: pages_okI)
      then show ?thesis using g(1) False pr fr(2)
        by (intro exI[of _ "Some i"] exI[of _ w1]) simp
    next
      case ok: True
      then have p: "q = Some p" "mem_inv env H (insert p U) w1" "p \<notin> U" "4096 dvd unat p"
        "\<And>x. x \<notin> page_words p \<Longrightarrow> phys_mem w1 x = phys_mem w x" using g(3) by simp_all
      have i1: "pd_inv L F C U w1" by (rule other_memory[OF inv(2) p(3,4) fr(1) p(5)])
      let ?w2 = "set_mapped s i (Some p) w1"
      let ?w3 = "write_pde s i (p OR MALI_MMU_FLAGS_PRESENT) ?w2"
      let ?w = "set_usage s i (usage_of s i ?w3 + 1) ?w3"
      have rd: "read_pde t j ?w = (if (t, j) = (s, i) then p OR MALI_MMU_FLAGS_PRESENT else read_pde t j w1)"
        if "t \<in> L" "j < 1024" for t j
      proof -
        have "read_pde t j ?w3 = (if (t, j) = (s, i) then p OR MALI_MMU_FLAGS_PRESENT else read_pde t j w1)"
          using read_pde_write[OF i1 s(1,2) that, of w1 ?w3 "p OR MALI_MMU_FLAGS_PRESENT"] by simp
        then show ?thesis by simp
      qed
      have ok4: "entry_ok (C s i + 1) s i ?w"
        using rd[OF s(1,2)] s(3) True none ms by (simp add: entry_ok_def)
      have "pd_inv L F ?C (U - set_option (mapped_of s i w1) \<union> set_option (mapped_of s i ?w)) ?w"
        by (rule pd_inv_upd[OF i1 s(1,2) _ _ _ ok4]) (use rd p(3,4) in auto)
      then have "pd_inv L F ?C (insert p U) ?w" using none ms by simp
      moreover have "mem_inv env H (insert p U) ?w" by (rule mem_inv_frame[OF p(2)]) simp_all
      ultimately have "pages_ok env L F ?C H ?w" by (auto intro: pages_okI)
      then show ?thesis using ok p(1) g(1) pr fr(2)
        by (intro exI[of _ None] exI[of _ ?w]) simp
    qed
  qed
qed

text \<open>One allocation less; the last one gives the table back.\<close>

lemma table_page_no_directory:
  assumes "pd_inv L F C U w" "s \<in> L" "i < 1024" "mapped_of s i w = Some p"
  shows "p \<notin> pd_page w ` L"
proof -
  note j = assms(1)[unfolded pd_inv_def]
  have "table_pages_of L w \<inter> (pd_page w ` L \<union> F) = {}" using j by (elim conjE)
  moreover have "p \<in> table_pages_of L w" using assms(2-4) unfolding table_pages_of_def by blast
  ultimately show ?thesis by blast
qed

lemma read_pde_other_page:
  assumes "pd_inv L F C U w" "t \<in> L" "j < 1024" "p \<notin> pd_page w ` L" "4096 dvd unat p" "pd_page w' = pd_page w"
    "\<And>q. q \<notin> page_words p \<Longrightarrow> phys_mem w' q = phys_mem w q"
  shows "read_pde t j w' = read_pde t j w"
proof -
  have "4096 dvd unat (pd_page w t)" "pd_page w t \<noteq> p" using pd_parts(2)[OF assms(1,2,3)] assms(2,4) by auto
  then have "pd_page w t + of_nat j * 4 \<notin> page_words p"
    using page_words_disjoint[OF _ assms(5)] word_in_page[OF assms(3)] by blast
  then show ?thesis using assms(6,7) by (simp add: read_pde_def ioread32_def pd_page_def fun_eq_iff)
qed

lemma of_nat_diff_one: "0 < c \<Longrightarrow> (of_nat c :: u32) - 1 = of_nat (c - 1)"
  by (cases c) simp_all

lemma of_nat_zero: "c < 2 ^ 32 \<Longrightarrow> (of_nat c = (0 :: u32)) = (c = 0)"
  by (auto simp: word_of_nat_eq_0_iff dest: dvd_imp_le)

lemma drop_one:
  assumes inv: "mem_inv env H U w" "pd_inv L F C U w" and s: "s \<in> L" "i < 1024" "0 < C s i"
  defines "w1 \<equiv> set_usage s i (usage_of s i w - 1) w"
  shows "if usage_of s i w1 = 0
    then \<exists>w'. free_pde env s i w1 = Some w' \<and> mmu_state.more w' = mmu_state.more w \<and>
      pages_ok env L F (C(s := (C s)(i := C s i - 1))) H w'
    else pages_ok env L F (C(s := (C s)(i := C s i - 1))) H w1 \<and> mmu_state.more w1 = mmu_state.more w \<and>
      (\<exists>p. mapped_of s i w1 = Some p)"
proof -
  let ?C = "C(s := (C s)(i := C s i - 1))"
  note e = pd_parts(1)[OF inv(2) s(1,2)]
  obtain p where p: "mapped_of s i w = Some p" "read_pde s i w = p OR MALI_MMU_FLAGS_PRESENT"
    "usage_of s i w = of_nat (C s i)" "C s i < 2 ^ 32" using e s(3) by (auto simp: entry_ok_def)
  have pU: "p \<in> U" "4096 dvd unat p" using pd_parts(4)[OF inv(2) s(1,2) p(1)] by simp_all
  have u: "usage_of s i w1 = of_nat (C s i - 1)" using p(3) of_nat_diff_one[OF s(3)] by (simp add: w1_def)
  have z: "usage_of s i w1 = 0 \<longleftrightarrow> C s i = 1" using u of_nat_zero[of "C s i - 1"] p(4) s(3) by auto
  have m1: "mem_inv env H U w1" by (rule mem_inv_frame[OF inv(1)]) (simp_all add: w1_def)
  show ?thesis
  proof (cases "C s i = 1")
    case False
    have ok: "entry_ok (C s i - 1) s i w1"
      using p u False s(3) by (simp add: entry_ok_def) (simp add: w1_def)
    have "pd_inv L F ?C (U - set_option (mapped_of s i w) \<union> set_option (mapped_of s i w1)) w1"
      by (rule pd_inv_upd[OF inv(2) s(1,2) _ _ _ ok]) (auto simp: w1_def)
    moreover have "U - set_option (mapped_of s i w) \<union> set_option (mapped_of s i w1) = U"
      using p(1) pU by (auto simp: w1_def)
    ultimately have "pages_ok env L F ?C H w1" using m1 by (auto intro: pages_okI)
    then show ?thesis using False z p(1) by (simp add: w1_def)
  next
    case True
    have a: "MALI_MMU_ENTRY_ADDRESS (read_pde s i w1) = p" using p(2) entry_address[OF pU(2)] by (simp add: w1_def)
    obtain w2 where 2: "mali_mmu_release_table_page env p w1 = Some w2" "cache_frame w2 w1" "mem_inv env H (U - {p}) w2"
      "\<forall>q. q \<notin> page_words p \<longrightarrow> phys_mem w2 q = phys_mem w1 q"
      using release_table_page_ok[OF m1 pU(1)] by blast
    have fr: "msessions w2 = msessions w1" "mmu_state.more w2 = mmu_state.more w1"
      using 2(2) by (simp_all add: cache_frame_def)
    have ms: "mapped_of t j w2 = mapped_of t j w1" "usage_of t j w2 = usage_of t j w1" "pd_page w2 = pd_page w"
      "page_directory (msessions w2 t) = page_directory (msessions w t)" for t j
      using fr by (auto simp: mapped_of_def usage_of_def pd_page_def w1_def set_usage_def)
    let ?w = "write_pde s i 0 (set_mapped s i None w2)"
    have rd: "read_pde t j ?w = (if (t, j) = (s, i) then 0 else read_pde t j w)" if "t \<in> L" "j < 1024" for t j
    proof -
      have "read_pde t j w2 = read_pde t j w"
        using 2(4) by (intro read_pde_other_page[OF inv(2) that table_page_no_directory[OF inv(2) s(1,2) p(1)] pU(2) ms(3)])
          (simp add: w1_def)
      then show ?thesis using read_pde_write[OF inv(2) s(1,2) that, of w2 ?w 0] ms(3) by simp
    qed
    have ok: "entry_ok (C s i - 1) s i ?w"
      using rd[OF s(1,2)] True u ms by (simp add: entry_ok_def)
    have "pd_inv L F ?C (U - set_option (mapped_of s i w) \<union> set_option (mapped_of s i ?w)) ?w"
      by (rule pd_inv_upd[OF inv(2) s(1,2) _ _ _ ok]) (use rd ms in \<open>auto simp: w1_def\<close>)
    then have "pd_inv L F ?C (U - {p}) ?w" using p(1) by simp
    moreover have "mem_inv env H (U - {p}) ?w" by (rule mem_inv_frame[OF 2(3)]) simp_all
    ultimately have "pages_ok env L F ?C H ?w" by (auto intro: pages_okI)
    then show ?thesis using True z a 2(1) fr(2) by (simp add: free_pde_def w1_def)
  qed
qed

subsection \<open>A range of entries\<close>

definition bump :: "nat \<Rightarrow> nat set \<Rightarrow> (nat \<Rightarrow> nat \<Rightarrow> nat) \<Rightarrow> nat \<Rightarrow> nat \<Rightarrow> nat" where
  "bump s A C = C(s := \<lambda>i. C s i + of_bool (i \<in> A))"

lemma bump_empty [simp]: "bump s {} C = C"
  by (auto simp: bump_def)

lemma bump_apply: "bump s A C t i = C t i + of_bool (t = s \<and> i \<in> A)"
  by (auto simp: bump_def)

lemma bump_insert: "i \<notin> A \<Longrightarrow> bump s (insert i A) C = bump s A (C(s := (C s)(i := C s i + 1)))"
  by (auto simp: bump_def fun_eq_iff)

lemma bump_less: "i \<notin> A \<Longrightarrow> (bump s (insert i A) C)(s := (bump s (insert i A) C s)(i := bump s (insert i A) C s i - 1)) = bump s A C"
  by (auto simp: bump_def fun_eq_iff)

lemma pages_ok_D: "pages_ok env L F C H w \<Longrightarrow> (\<And>U. mem_inv env H U w \<Longrightarrow> pd_inv L F C U w \<Longrightarrow> thesis) \<Longrightarrow> thesis"
  by (auto simp: pages_ok_def)

lemma reserve_range:
  assumes "pages_ok env L F C H w" "s \<in> L" "distinct is" "\<forall>i \<in> set is. i < 1024 \<and> C s i + 1 < 2 ^ 32"
  shows "\<exists>f w'. reserve_pdes env allocators s is w = Some (f, w') \<and> mmu_state.more w' = mmu_state.more w \<and>
    (case f of None \<Rightarrow> pages_ok env L F (bump s (set is) C) H w'
     | Some i \<Rightarrow> \<exists>ys zs. is = ys @ i # zs \<and> pages_ok env L F (bump s (set ys) C) H w')"
  using assms
proof (induction "is" arbitrary: C w)
  case (Cons i "is")
  obtain U where U: "mem_inv env H U w" "pd_inv L F C U w" using Cons.prems(1) by (auto simp: pages_ok_def)
  have i: "i < 1024" "C s i + 1 < 2 ^ 32" using Cons.prems(4) by simp_all
  let ?C = "C(s := (C s)(i := C s i + 1))"
  obtain f w1 where 1: "reserve_pdes env allocators s [i] w = Some (f, w1)" "mmu_state.more w1 = mmu_state.more w"
    "if f = None then pages_ok env L F ?C H w1 else f = Some i \<and> pages_ok env L F C H w1"
    using reserve_one[OF U Cons.prems(2) i, of allocators] by (elim exE conjE) (rule that)
  note c = reserve_pdes_Cons[of env allocators s i "is" w]
  show ?case
  proof (cases f)
    case (Some j)
    then have j: "j = i" "pages_ok env L F C H w1" using 1 by simp_all
    then have "\<exists>ys zs. i # is = ys @ i # zs \<and> pages_ok env L F (bump s (set ys) C) H w1"
      by (intro exI[of _ "[]"] exI[of _ "is"]) simp
    then show ?thesis using 1(1,2) c Some j(1)
      by (intro exI[of _ "Some i"] exI[of _ w1]) (simp del: reserve_pdes.simps)
  next
    case None
    then have p: "pages_ok env L F ?C H w1" using 1 by simp
    have b: "\<forall>j \<in> set is. j < 1024 \<and> ?C s j + 1 < 2 ^ 32" using Cons.prems(3,4) by auto
    have d: "distinct is" using Cons.prems(3) by simp
    obtain g w2 where 2: "reserve_pdes env allocators s is w1 = Some (g, w2)"
      "mmu_state.more w2 = mmu_state.more w1" "case g of None \<Rightarrow> pages_ok env L F (bump s (set is) ?C) H w2
        | Some k \<Rightarrow> \<exists>ys zs. is = ys @ k # zs \<and> pages_ok env L F (bump s (set ys) ?C) H w2"
      using Cons.IH[OF p Cons.prems(2) d b] by (elim exE conjE) (rule that)
    have r: "reserve_pdes env allocators s (i # is) w = Some (g, w2)" using c 1(1) 2(1) None by simp
    have i: "i \<notin> set is" using Cons.prems(3) by simp
    show ?thesis
    proof (cases g)
      case None
      then show ?thesis using r 1(2) 2(2,3) bump_insert[OF i, of s C] by simp
    next
      case (Some k)
      then obtain ys zs where y: "is = ys @ k # zs" "pages_ok env L F (bump s (set ys) ?C) H w2" using 2(3) by auto
      then have "pages_ok env L F (bump s (set (i # ys)) C) H w2" using bump_insert[of i "set ys" s C] i by simp
      then have "\<exists>ys zs. i # is = ys @ k # zs \<and> pages_ok env L F (bump s (set ys) C) H w2"
        using y(1) by (intro exI[of _ "i # ys"] exI[of _ zs]) simp
      then show ?thesis using r 1(2) 2(2) Some by simp
    qed
  qed
qed simp

lemma unreserve_range:
  assumes "pages_ok env L F (bump s (set is) C) H w" "s \<in> L" "distinct is" "set is \<subseteq> {..<1024}"
  shows "\<exists>w'. unreserve_pdes env s is w = Some w' \<and> mmu_state.more w' = mmu_state.more w \<and> pages_ok env L F C H w'"
  using assms
proof (induction "is" arbitrary: w)
  case (Cons i "is")
  obtain U where U: "mem_inv env H U w" "pd_inv L F (bump s (set (i # is)) C) U w"
    by (rule pages_ok_D[OF Cons.prems(1)])
  define w1 where "w1 = set_usage s i (usage_of s i w - 1) w"
  have i: "i \<notin> set is" "i < 1024" using Cons.prems(3,4) by simp_all
  let ?B = "bump s (insert i (set is)) C"
  have B: "?B(s := (?B s)(i := ?B s i - 1)) = bump s (set is) C" using bump_less[OF i(1)] by simp
  have pos: "0 < ?B s i" by (simp add: bump_apply)
  note 1 = drop_one[OF U[unfolded list.set] Cons.prems(2) i(2) pos, folded w1_def, unfolded B]
  obtain w2 where 2: "(if usage_of s i w1 = 0 then free_pde env s i w1 else Some w1) = Some w2"
    "mmu_state.more w2 = mmu_state.more w" "pages_ok env L F (bump s (set is) C) H w2"
    using 1 by (cases "usage_of s i w1 = 0") (simp, blast, simp)
  have "unreserve_pdes env s (i # is) w = unreserve_pdes env s is w2"
    using 2(1) unfolding unreserve_pdes.simps Let_def w1_def[symmetric] by simp
  then show ?case using Cons.IH[OF 2(3) Cons.prems(2)] Cons.prems(3,4) 2(2) by simp
qed simp

text \<open>Zeroing entries of a table changes no page directory.\<close>

lemma fold_write_mem:
  "fold (\<lambda>j. iowrite32 p (of_nat j * 4) v) js w =
    w\<lparr>phys_mem := \<lambda>q. if q \<in> (\<lambda>j. p + of_nat j * 4) ` set js then v else phys_mem w q\<rparr>"
  by (induction js arbitrary: w) (auto simp: iowrite32_def fun_eq_iff)

lemma table_write:
  assumes "pd_inv L F C U w" "s \<in> L" "i < 1024" "mapped_of s i w = Some p"
    "w' = w\<lparr>phys_mem := m\<rparr>" "\<And>q. q \<notin> page_words p \<Longrightarrow> m q = phys_mem w q"
  shows "pd_inv L F C U w'"
proof (rule pd_inv_mem[OF assms(1)])
  show "msessions w' = msessions w" using assms(5) by simp
  fix t q assume t: "t \<in> L" "q \<in> page_words (pd_page w t)"
  have "p \<notin> pd_page w ` L" by (rule table_page_no_directory[OF assms(1-4)])
  then have "page_words (pd_page w t) \<inter> page_words p = {}"
    using page_words_disjoint pd_parts(2)[OF assms(1) t(1), of 0] pd_parts(4)[OF assms(1-4)] t(1) by auto
  then show "phys_mem w' q = phys_mem w q" using assms(5,6) t(2) by auto
qed

lemma table_write_ok:
  assumes "pages_ok env L F C H w" "s \<in> L" "i < 1024" "mapped_of s i w = Some p"
    "w' = w\<lparr>phys_mem := m\<rparr>" "\<And>q. q \<notin> page_words p \<Longrightarrow> m q = phys_mem w q"
  shows "pages_ok env L F C H w'"
proof -
  obtain U where U: "mem_inv env H U w" "pd_inv L F C U w" using assms(1) by (auto simp: pages_ok_def)
  have "mem_inv env H U w'" by (rule mem_inv_frame[OF U(1)]) (simp_all add: assms(5))
  moreover have "pd_inv L F C U w'" by (rule table_write[OF U(2) assms(2-6)])
  ultimately show ?thesis by (rule pages_okI)
qed

lemma pte_entry_bound: "MALI_MMU_PTE_ENTRY a < 1024" "MALI_MMU_PDE_ENTRY a < 1024"
proof -
  have "x AND 0x3FF = take_bit 10 x" for x :: u32 by (simp add: take_bit_eq_mask mask_eq_exp_minus_1)
  then show "MALI_MMU_PTE_ENTRY a < 1024" "MALI_MMU_PDE_ENTRY a < 1024"
    using take_bit_nat_less_exp[of 10] by (simp_all add: MALI_MMU_PTE_ENTRY_def MALI_MMU_PDE_ENTRY_def unsigned_take_bit_eq)
qed

lemma zap_ptes_ok:
  assumes "pages_ok env L F C H w" "s \<in> L" "i < 1024" "mapped_of s i w = Some p"
  shows "\<exists>w'. zap_ptes s i addr sz w = Some w' \<and> mmu_state.more w' = mmu_state.more w \<and> pages_ok env L F C H w'"
proof -
  let ?js = "[MALI_MMU_PTE_ENTRY addr..<Suc (MALI_MMU_PTE_ENTRY (addr + sz - 1))]"
  let ?w = "fold (\<lambda>j. iowrite32 p (of_nat j * 4) 0) ?js w"
  have "(\<lambda>j. p + of_nat j * 4) ` set ?js \<subseteq> page_words p"
    using pte_entry_bound(1)[of "addr + sz - 1"] unfolding page_words_def by auto
  then have "pages_ok env L F C H ?w"
    by (intro table_write_ok[OF assms fold_write_mem]) auto
  then show ?thesis using assms(1,4) by (simp add: zap_ptes_def Let_def fold_write_mem del: upt_Suc)
qed

lemma release_range:
  assumes "pages_ok env L F (bump s (set is) C) H w" "s \<in> L" "distinct is" "set is \<subseteq> {..<1024}"
  shows "\<exists>w'. release_pdes env s is addr left w = Some w' \<and> mmu_state.more w' = mmu_state.more w \<and> pages_ok env L F C H w'"
  using assms
proof (induction "is" arbitrary: w addr left)
  case (Cons i "is")
  obtain U where U: "mem_inv env H U w" "pd_inv L F (bump s (set (i # is)) C) U w"
    by (rule pages_ok_D[OF Cons.prems(1)])
  define w1 where "w1 = set_usage s i (usage_of s i w - 1) w"
  have i: "i \<notin> set is" "i < 1024" using Cons.prems(3,4) by simp_all
  let ?B = "bump s (insert i (set is)) C"
  have B: "?B(s := (?B s)(i := ?B s i - 1)) = bump s (set is) C" using bump_less[OF i(1)] by simp
  have pos: "0 < ?B s i" by (simp add: bump_apply)
  note 1 = drop_one[OF U[unfolded list.set] Cons.prems(2) i(2) pos, folded w1_def, unfolded B]
  have d: "distinct is" "set is \<subseteq> {..<1024}" using Cons.prems(3,4) by simp_all
  show ?case
  proof (cases "usage_of s i w1 = 0")
    case True
    then obtain w2 where "free_pde env s i w1 = Some w2" "mmu_state.more w2 = mmu_state.more w"
      "pages_ok env L F (bump s (set is) C) H w2" using 1 by auto
    moreover from this(3) obtain w3 where "release_pdes env s is addr (left - size_inside_pte left) w2 = Some w3"
      "mmu_state.more w3 = mmu_state.more w2" "pages_ok env L F C H w3" using Cons.IH[OF _ Cons.prems(2) d] by blast
    ultimately show ?thesis using True unfolding release_pdes.simps Let_def w1_def[symmetric] by simp
  next
    case False
    then obtain p where "pages_ok env L F (bump s (set is) C) H w1" "mmu_state.more w1 = mmu_state.more w"
      "mapped_of s i w1 = Some p" using 1 by auto
    then obtain w2 where "zap_ptes s i addr (size_inside_pte left) w1 = Some w2" "mmu_state.more w2 = mmu_state.more w"
      "pages_ok env L F (bump s (set is) C) H w2" using zap_ptes_ok[of env L F _ H w1 s i p] Cons.prems(2) i(2) by metis
    moreover from this(3) obtain w3 where "release_pdes env s is (addr + size_inside_pte left) (left - size_inside_pte left) w2 = Some w3"
      "mmu_state.more w3 = mmu_state.more w2" "pages_ok env L F C H w3" using Cons.IH[OF _ Cons.prems(2) d] by blast
    ultimately show ?thesis using False unfolding release_pdes.simps Let_def w1_def[symmetric] by simp
  qed
qed simp

end
