(* ===== verification/Mmu_Contracts.thy ===== *)
theory Mmu_Contracts
  imports Mmu_Steps
begin

text \<open>
  What the operations of the address manager do: an allocation counts in the entries of its range, and
  a mapping writes the page table entries of its pages and no others.
\<close>

subsection \<open>Entries\<close>

lemma pde_nat: "MALI_MMU_PDE_ENTRY a = unat a div 4194304"
proof -
  have "drop_bit 22 a AND 0x3FF = take_bit 10 (drop_bit 22 a)" by (simp add: take_bit_eq_mask mask_eq_exp_minus_1)
  then have "MALI_MMU_PDE_ENTRY a = take_bit 10 (drop_bit 22 (unat a))"
    by (simp add: MALI_MMU_PDE_ENTRY_def unsigned_take_bit_eq unsigned_drop_bit_eq take_bit_drop_bit)
  moreover have "unat a < 2 ^ 32" using unsigned_less[of a, where 'a = nat] by simp
  ultimately show ?thesis by (simp add: take_bit_eq_mod drop_bit_eq_div)
qed

lemma pte_nat: "MALI_MMU_PTE_ENTRY a = unat a div 4096 mod 1024"
proof -
  have "drop_bit 12 a AND 0x3FF = take_bit 10 (drop_bit 12 a)" by (simp add: take_bit_eq_mask mask_eq_exp_minus_1)
  then have "MALI_MMU_PTE_ENTRY a = take_bit 10 (drop_bit 12 (unat a))"
    by (simp add: MALI_MMU_PTE_ENTRY_def unsigned_take_bit_eq unsigned_drop_bit_eq take_bit_drop_bit)
  then show ?thesis by (simp add: take_bit_eq_mod drop_bit_eq_div)
qed

lemma same_page:
  "(MALI_MMU_PDE_ENTRY b = MALI_MMU_PDE_ENTRY a \<and> MALI_MMU_PTE_ENTRY b = MALI_MMU_PTE_ENTRY a) =
    (unat b div 4096 = unat a div 4096)"
proof -
  have "unat x div 4194304 = unat x div 4096 div 1024" for x :: u32 by (simp add: div_mult2_eq[symmetric])
  then show ?thesis unfolding pde_nat pte_nat by (metis div_mult_mod_eq)
qed

definition pde_range :: "mali_memory_allocation \<Rightarrow> nat set" where
  "pde_range d = set [first_pde d..<Suc (last_pde_released d)]"

definition mali_count :: "mali_memory_allocation multiset \<Rightarrow> nat \<Rightarrow> nat \<Rightarrow> nat" where
  "mali_count M s i = size {#d \<in># M. mali_addr_mapping_info d = s \<and> i \<in> pde_range d#}"

lemma mali_count_add: "mali_count (add_mset d M) = bump (mali_addr_mapping_info d) (pde_range d) (mali_count M)"
  by (auto simp: fun_eq_iff mali_count_def bump_apply)

lemma mali_count_size: "mali_count M s i \<le> size M"
  unfolding mali_count_def by (rule size_filter_mset_lesseq)

lemma mali_count_pos: "d \<in># M \<Longrightarrow> i \<in> pde_range d \<Longrightarrow> 0 < mali_count M (mali_addr_mapping_info d) i"
proof -
  assume "d \<in># M" "i \<in> pde_range d"
  then have "d \<in># {#x \<in># M. mali_addr_mapping_info x = mali_addr_mapping_info d \<and> i \<in> pde_range x#}" by simp
  then show ?thesis unfolding mali_count_def by (metis gr0I multi_member_this size_eq_0_iff_empty empty_iff set_mset_empty)
qed

lemma pde_range_bound: "pde_range d \<subseteq> {..<1024}"
  using pte_entry_bound(2)[of "mali_address d + alloc_size d - 1"] by (auto simp: pde_range_def last_pde_released_def)

subsection \<open>Allocating and releasing\<close>

lemma upt_split: "[m..<n] = ys @ i # zs \<Longrightarrow> ys = [m..<i]"
proof (induction ys arbitrary: m)
  case Nil
  then show ?case by (simp add: upt_eq_Cons_conv)
next
  case (Cons y ys)
  then have y: "m < n" "y = m" "[Suc m..<n] = ys @ i # zs" by (auto simp: upt_eq_Cons_conv)
  have "i \<in> set [Suc m..<n]" unfolding y(3) by simp
  then show ?case using Cons.IH[OF y(3)] y(2) by (simp add: upt_rec[of m i])
qed

lemma mali_address_manager_allocate_ok:
  assumes "pages_ok env L F (mali_count M) H w" "mali_addr_mapping_info d \<in> L"
    "last_pde_reserved d = last_pde_released d" "size M + 1 < 2 ^ 32"
  shows "\<exists>err w'. mali_address_manager_allocate env allocators d w = Some (err, d, w') \<and>
    mmu_state.more w' = mmu_state.more w \<and>
    (if err = ERR_OK then pages_ok env L F (mali_count (add_mset d M)) H w'
     else err = ERR_NOMEM \<and> pages_ok env L F (mali_count M) H w')"
proof -
  let ?s = "mali_addr_mapping_info d" and ?is = "[first_pde d..<Suc (last_pde_reserved d)]"
  have b: "i < 1024 \<and> mali_count M ?s i + 1 < 2 ^ 32" if "i \<in> set ?is" for i
    using that pde_range_bound[of d] mali_count_size[of M ?s i] assms(3,4) unfolding pde_range_def by fastforce
  have "distinct ?is" by (rule distinct_upt)
  then obtain f w1 where 1: "reserve_pdes env allocators ?s ?is w = Some (f, w1)" "mmu_state.more w1 = mmu_state.more w"
    "case f of None \<Rightarrow> pages_ok env L F (bump ?s (set ?is) (mali_count M)) H w1
     | Some i \<Rightarrow> \<exists>ys zs. ?is = ys @ i # zs \<and> pages_ok env L F (bump ?s (set ys) (mali_count M)) H w1"
    using reserve_range[OF assms(1,2), of ?is allocators] b by blast
  show ?thesis
  proof (cases f)
    case None
    then have "pages_ok env L F (mali_count (add_mset d M)) H w1"
      using 1(3) assms(3) by (simp add: mali_count_add pde_range_def del: upt_Suc)
    then show ?thesis using 1 None by (simp add: mali_address_manager_allocate_def del: upt_Suc)
  next
    case (Some i)
    then obtain ys zs where y: "?is = ys @ i # zs" "pages_ok env L F (bump ?s (set ys) (mali_count M)) H w1"
      using 1(3) by auto
    have ys: "ys = [first_pde d..<i]" "set ys \<subseteq> {..<1024}"
    proof -
      show "ys = [first_pde d..<i]" using upt_split[OF y(1)] .
      show "set ys \<subseteq> {..<1024}" using y(1) b by (metis Un_iff lessThan_iff set_append subsetI)
    qed
    have "distinct (rev ys)" using ys(1) by simp
    then obtain w2 where 2: "unreserve_pdes env ?s (rev ys) w1 = Some w2" "mmu_state.more w2 = mmu_state.more w1"
      "pages_ok env L F (mali_count M) H w2"
      using unreserve_range[of env L F ?s "rev ys" "mali_count M" H w1] y(2) assms(2) ys(2) by auto
    then show ?thesis using 1 Some ys(1) by (simp add: mali_address_manager_allocate_def del: upt_Suc)
  qed
qed

lemma mali_address_manager_release_ok:
  assumes "pages_ok env L F (mali_count (add_mset d M)) H w" "mali_addr_mapping_info d \<in> L"
  shows "\<exists>w'. mali_address_manager_release env d w = Some w' \<and> mmu_state.more w' = mmu_state.more w \<and>
    pages_ok env L F (mali_count M) H w'"
  using release_range[OF assms(1)[unfolded mali_count_add pde_range_def] assms(2)] pde_range_bound[of d]
  unfolding mali_address_manager_release_def pde_range_def by (auto simp del: upt_Suc)

subsection \<open>Mapping\<close>

text \<open>The page table entry of an address, as the MMU finds it.\<close>

definition pte_word :: "nat \<Rightarrow> u32 \<Rightarrow> 'a mmu_state_scheme \<Rightarrow> u32 option" where
  "pte_word s a w =
     (let pde = read_pde s (MALI_MMU_PDE_ENTRY a) w
      in if pde AND MALI_MMU_FLAGS_PRESENT = 0 then None
         else Some (ioread32 (MALI_MMU_ENTRY_ADDRESS pde) (of_nat (MALI_MMU_PTE_ENTRY a) * 4) w))"

definition mapped_pte :: "u32 \<Rightarrow> u32" where
  "mapped_pte phys = phys OR MALI_MMU_FLAGS_WRITE_PERMISSION OR MALI_MMU_FLAGS_READ_PERMISSION OR MALI_MMU_FLAGS_PRESENT"

lemma pte_word_eq:
  assumes "pd_inv L F C U w" "s \<in> L"
  shows "pte_word s a w = map_option (\<lambda>p. phys_mem w (p + of_nat (MALI_MMU_PTE_ENTRY a) * 4)) (mapped_of s (MALI_MMU_PDE_ENTRY a) w)"
proof -
  note e = pd_parts(1)[OF assms pte_entry_bound(2)[of a]]
  show ?thesis
  proof (cases "mapped_of s (MALI_MMU_PDE_ENTRY a) w")
    case None
    then show ?thesis using e by (auto simp: pte_word_def entry_ok_def Let_def split: if_splits)
  next
    case (Some p)
    then have "read_pde s (MALI_MMU_PDE_ENTRY a) w = p OR MALI_MMU_FLAGS_PRESENT"
      using e by (auto simp: entry_ok_def split: if_splits)
    then show ?thesis using Some pd_parts(4)[OF assms pte_entry_bound(2) Some] present_bit entry_address
      by (simp add: pte_word_def ioread32_def)
  qed
qed

lemma map_one:
  fixes v :: u32
  assumes inv: "pd_inv L F C U w" and s: "s \<in> L" and p: "mapped_of s (MALI_MMU_PDE_ENTRY a) w = Some p"
  defines "w' \<equiv> iowrite32 p (of_nat (MALI_MMU_PTE_ENTRY a) * 4) v w"
  shows "pd_inv L F C U w'"
    "t \<in> L \<Longrightarrow> pte_word t b w' = (if t = s \<and> unat b div 4096 = unat a div 4096 then Some v else pte_word t b w)"
proof -
  let ?q = "p + of_nat (MALI_MMU_PTE_ENTRY a) * 4"
  have w': "w' = w\<lparr>phys_mem := (phys_mem w)(?q := v)\<rparr>" by (simp add: w'_def iowrite32_def)
  show i: "pd_inv L F C U w'"
    by (rule table_write[OF inv s pte_entry_bound(2) p w']) (use word_in_page[OF pte_entry_bound(1), of p a] in auto)
  assume t: "t \<in> L"
  have m: "mapped_of t (MALI_MMU_PDE_ENTRY b) w' = mapped_of t (MALI_MMU_PDE_ENTRY b) w"
    by (simp add: w' mapped_of_def)
  note e = pte_word_eq[OF i t, of b, unfolded m] pte_word_eq[OF inv t, of b]
  show "pte_word t b w' = (if t = s \<and> unat b div 4096 = unat a div 4096 then Some v else pte_word t b w)"
  proof (cases "mapped_of t (MALI_MMU_PDE_ENTRY b) w")
    case None
    then show ?thesis using e p same_page[of b a] by auto
  next
    case (Some q)
    have al: "4096 dvd unat p" "4096 dvd unat q"
      using pd_parts(4)[OF inv s pte_entry_bound(2) p] pd_parts(4)[OF inv t pte_entry_bound(2) Some] by simp_all
    have one: "\<forall>s \<in> L. \<forall>t \<in> L. \<forall>i < 1024. \<forall>j < 1024. \<forall>p. mapped_of s i w = Some p \<longrightarrow> mapped_of t j w = Some p \<longrightarrow> s = t \<and> i = j"
      using inv unfolding pd_inv_def by (elim conjE)
    have "q = p \<Longrightarrow> t = s \<and> MALI_MMU_PDE_ENTRY b = MALI_MMU_PDE_ENTRY a"
      using one[rule_format, OF t s pte_entry_bound(2) pte_entry_bound(2) Some] p by simp
    then have "q + of_nat (MALI_MMU_PTE_ENTRY b) * 4 = ?q \<longleftrightarrow> t = s \<and> unat b div 4096 = unat a div 4096"
      using page_word_inj[OF al(2,1) pte_entry_bound(1) pte_entry_bound(1)] same_page[of b a] p Some by auto
    then show ?thesis using e Some by (simp add: w')
  qed
qed

lemma pages_same:
  assumes "pages_ok env L F C H w" "w' = w\<lparr>phys_mem := m\<rparr>" "\<And>U. pd_inv L F C U w \<Longrightarrow> pd_inv L F C U w'"
  shows "pages_ok env L F C H w'"
  using assms mem_inv_frame[of env H _ w w'] unfolding pages_ok_def by auto

text \<open>The entries after the pages \<open>a\<close> to \<open>a + n\<close> of a session have been mapped.\<close>

definition pages_mapped :: "nat set \<Rightarrow> nat \<Rightarrow> u32 \<Rightarrow> nat \<Rightarrow> u32 \<Rightarrow> 'a mmu_state_scheme \<Rightarrow> 'a mmu_state_scheme \<Rightarrow> bool" where
  "pages_mapped L s a n phys w w' \<longleftrightarrow> (\<forall>t \<in> L. \<forall>b. pte_word t b w' =
     (let k = unat b div 4096; f = unat a div 4096
      in if t = s \<and> f \<le> k \<and> k < f + n then Some (mapped_pte (phys + of_nat (k - f) * 4096)) else pte_word t b w))"

lemma map_pages_ok:
  assumes "pd_inv L F C U w" "s \<in> L" "unat a + n * 4096 < 2 ^ 32"
    "\<And>k. k < n \<Longrightarrow> 0 < C s (MALI_MMU_PDE_ENTRY (a + of_nat k * 4096))"
  shows "\<exists>m. map_pages s a (a + of_nat n * 4096) phys w = Some (w\<lparr>phys_mem := m\<rparr>) \<and>
    pd_inv L F C U (w\<lparr>phys_mem := m\<rparr>) \<and> pages_mapped L s a n phys w (w\<lparr>phys_mem := m\<rparr>)"
  using assms
proof (induction n arbitrary: a phys w)
  case 0
  then show ?case
    by (intro exI[of _ "phys_mem w"]) (auto simp: map_pages.simps pages_mapped_def Let_def)
next
  case (Suc n)
  let ?top = "a + of_nat (Suc n) * 4096"
  have e: "unat ?top = unat a + Suc n * 4096" using Suc.prems(3) by (simp add: unat_word_ariths unat_of_nat)
  then have lt: "a < ?top" by (simp add: word_less_nat_alt)
  have a1: "unat (a + 4096) = unat a + 4096" using Suc.prems(3) by (simp add: unat_word_ariths)
  have c0: "0 < C s (MALI_MMU_PDE_ENTRY a)" using Suc.prems(4)[of 0] by simp
  obtain p where p: "mapped_of s (MALI_MMU_PDE_ENTRY a) w = Some p"
    using pd_parts(1)[OF Suc.prems(1,2) pte_entry_bound(2), of a] c0 by (auto simp: entry_ok_def)
  let ?w = "iowrite32 p (of_nat (MALI_MMU_PTE_ENTRY a) * 4) (mapped_pte phys) w"
  note one = map_one[OF Suc.prems(1,2) p, where v = "mapped_pte phys"]
  have eq: "a + 4096 + of_nat n * 4096 = ?top" by simp
  have c: "0 < C s (MALI_MMU_PDE_ENTRY (a + 4096 + of_nat k * 4096))" if "k < n" for k
    using Suc.prems(4)[of "Suc k"] that by (simp add: algebra_simps)
  obtain m where m: "map_pages s (a + 4096) ?top (phys + 4096) ?w = Some (?w\<lparr>phys_mem := m\<rparr>)"
    "pd_inv L F C U (?w\<lparr>phys_mem := m\<rparr>)" "pages_mapped L s (a + 4096) n (phys + 4096) ?w (?w\<lparr>phys_mem := m\<rparr>)"
    using Suc.IH[OF one(1) Suc.prems(2) _ c, of "phys + 4096"] Suc.prems(3) a1 unfolding eq by auto
  have w: "?w\<lparr>phys_mem := m\<rparr> = w\<lparr>phys_mem := m\<rparr>" by (simp add: iowrite32_def)
  have r: "map_pages s a ?top phys w = Some (w\<lparr>phys_mem := m\<rparr>)"
    using m(1) lt p unfolding map_pages.simps[of s a] w[symmetric]
    by (simp add: MALI_MMU_PAGE_SIZE_def mapped_pte_def)
  have "pages_mapped L s a (Suc n) phys w (w\<lparr>phys_mem := m\<rparr>)"
    unfolding pages_mapped_def
  proof (intro ballI allI)
    fix t and b :: u32
    assume t: "t \<in> L"
    let ?k = "unat b div 4096" and ?f = "unat a div 4096"
    have f: "unat (a + 4096) div 4096 = Suc ?f" using a1 by simp
    have "pte_word t b (w\<lparr>phys_mem := m\<rparr>) =
        (if t = s \<and> Suc ?f \<le> ?k \<and> ?k < Suc ?f + n then Some (mapped_pte (phys + 4096 + of_nat (?k - Suc ?f) * 4096))
         else if t = s \<and> ?k = ?f then Some (mapped_pte phys) else pte_word t b w)"
      using m(3)[unfolded pages_mapped_def w f Let_def, rule_format, OF t, of b]
      unfolding one(2)[OF t, where b = b] by simp
    moreover have "phys + 4096 + of_nat (?k - Suc ?f) * 4096 = phys + of_nat (?k - ?f) * 4096" if "Suc ?f \<le> ?k"
    proof -
      have "?k - ?f = Suc (?k - Suc ?f)" using that by simp
      then have "(of_nat (?k - ?f) :: u32) = of_nat (?k - Suc ?f) + 1" by simp
      then show ?thesis by (simp add: algebra_simps)
    qed
    ultimately show "pte_word t b (w\<lparr>phys_mem := m\<rparr>) = (let k = ?k; f = ?f
      in if t = s \<and> f \<le> k \<and> k < f + Suc n then Some (mapped_pte (phys + of_nat (k - f) * 4096)) else pte_word t b w)"
      by (auto simp: Let_def not_less_eq_eq)
  qed
  then show ?case using r m(2) unfolding w by blast
qed

text \<open>A descriptor whose range the address manager handles.\<close>

definition mali_range :: "mali_memory_allocation \<Rightarrow> bool" where
  "mali_range d \<longleftrightarrow> 4096 dvd unat (mali_address d) \<and> 4096 dvd unat (alloc_size d) \<and> alloc_size d \<noteq> 0 \<and>
     unat (mali_address d) + unat (alloc_size d) < 2 ^ 32"

lemma mali_range_entry:
  assumes "mali_range d" "a < unat (alloc_size d)"
  shows "MALI_MMU_PDE_ENTRY (mali_address d + of_nat a) \<in> pde_range d"
proof -
  have "unat (mali_address d + of_nat a) = unat (mali_address d) + a"
    using assms by (simp add: mali_range_def unat_word_ariths unat_of_nat)
  moreover have "unat (mali_address d + alloc_size d - 1) = unat (mali_address d) + unat (alloc_size d) - 1"
  proof -
    have s: "unat (mali_address d + alloc_size d) = unat (mali_address d) + unat (alloc_size d)"
      using assms(1) by (simp add: mali_range_def unat_word_ariths)
    moreover have "0 < unat (alloc_size d)" using assms(2) by simp
    ultimately show ?thesis by (simp add: unat_sub word_le_nat_alt)
  qed
  ultimately show ?thesis using assms(2)
    unfolding pde_range_def first_pde_def last_pde_released_def pde_nat by (auto intro!: div_le_mono)
qed

lemma mali_address_manager_map_ok:
  assumes "pd_inv L F (mali_count M) U w" "d \<in># M" "mali_addr_mapping_info d \<in> L" "mali_range d" "page_range d offset sz"
  shows "\<exists>m. mali_address_manager_map d offset phys sz w = Some (ERR_OK, phys, w\<lparr>phys_mem := m\<rparr>) \<and>
    pd_inv L F (mali_count M) U (w\<lparr>phys_mem := m\<rparr>) \<and>
    pages_mapped L (mali_addr_mapping_info d) (mali_address d + offset) (unat sz div 4096) phys w (w\<lparr>phys_mem := m\<rparr>)"
proof -
  let ?s = "mali_addr_mapping_info d" and ?a = "mali_address d + offset" and ?n = "unat sz div 4096"
  have r: "4096 dvd unat sz" "unat offset + unat sz \<le> unat (alloc_size d)" using assms(5) by (simp_all add: page_range_def)
  have v: "unat (mali_address d) + unat (alloc_size d) < 2 ^ 32" using assms(4) by (simp add: mali_range_def)
  have sz: "(of_nat ?n * 4096 :: u32) = sz"
  proof -
    have "(of_nat ?n * 4096 :: u32) = of_nat (?n * 4096)" by simp
    then show ?thesis using r(1) by simp
  qed
  have ua: "unat ?a = unat (mali_address d) + unat offset" using r(2) v by (simp add: unat_word_ariths)
  have b: "unat ?a + ?n * 4096 < 2 ^ 32" using ua r v by simp
  have c: "0 < mali_count M ?s (MALI_MMU_PDE_ENTRY (?a + of_nat k * 4096))" if "k < ?n" for k
  proof -
    have "k * 4096 < unat sz" using that using r(1) by (auto elim!: dvdE)
    then have "unat offset + k * 4096 < unat (alloc_size d)" using r(2) by linarith
    from mali_range_entry[OF assms(4) this] have "MALI_MMU_PDE_ENTRY (?a + of_nat k * 4096) \<in> pde_range d"
      by (simp add: algebra_simps)
    then show ?thesis by (rule mali_count_pos[OF assms(2)])
  qed
  show ?thesis using map_pages_ok[OF assms(1,3) b c, of phys] unfolding sz
    by (auto simp: mali_address_manager_map_def)
qed

end
