(* ===== verification/Mmu_Registers.thy ===== *)
theory Mmu_Registers
  imports Page_Table_Cache
begin

text \<open>
  The MMU units and their registers, common/mali\_kernel\_mem\_mmu.c.  \<open>mmu_log\<close> lists the accesses to the
  registers, the latest first, and a register read answers what the hardware makes of them: \<open>hw\<close> gives
  the value from the unit, the register and the accesses so far.
\<close>

subsection \<open>Data\<close>

datatype mali_mmu_register =
    MALI_MMU_REGISTER_DTE_ADDR
  | MALI_MMU_REGISTER_STATUS
  | MALI_MMU_REGISTER_COMMAND
  | MALI_MMU_REGISTER_PAGE_FAULT_ADDR
  | MALI_MMU_REGISTER_ZAP_ONE_LINE
  | MALI_MMU_REGISTER_INT_RAWSTAT
  | MALI_MMU_REGISTER_INT_CLEAR
  | MALI_MMU_REGISTER_INT_MASK
  | MALI_MMU_REGISTER_INT_STATUS

definition MALI_MMU_INTERRUPT_PAGE_FAULT :: u32 where "MALI_MMU_INTERRUPT_PAGE_FAULT = 1"
definition MALI_MMU_INTERRUPT_READ_BUS_ERROR :: u32 where "MALI_MMU_INTERRUPT_READ_BUS_ERROR = 2"

definition MALI_MMU_COMMAND_ENABLE_PAGING :: u32 where "MALI_MMU_COMMAND_ENABLE_PAGING = 0"
definition MALI_MMU_COMMAND_ENABLE_STALL :: u32 where "MALI_MMU_COMMAND_ENABLE_STALL = 2"
definition MALI_MMU_COMMAND_DISABLE_STALL :: u32 where "MALI_MMU_COMMAND_DISABLE_STALL = 3"
definition MALI_MMU_COMMAND_ZAP_CACHE :: u32 where "MALI_MMU_COMMAND_ZAP_CACHE = 4"
definition MALI_MMU_COMMAND_PAGE_FAULT_DONE :: u32 where "MALI_MMU_COMMAND_PAGE_FAULT_DONE = 5"
definition MALI_MMU_COMMAND_SOFT_RESET :: u32 where "MALI_MMU_COMMAND_SOFT_RESET = 6"

definition MALI_MMU_STATUS_BIT_PAGING_ENABLED :: u32 where "MALI_MMU_STATUS_BIT_PAGING_ENABLED = 1"
definition MALI_MMU_STATUS_BIT_PAGE_FAULT_ACTIVE :: u32 where "MALI_MMU_STATUS_BIT_PAGE_FAULT_ACTIVE = 2"
definition MALI_MMU_STATUS_BIT_STALL_ACTIVE :: u32 where "MALI_MMU_STATUS_BIT_STALL_ACTIVE = 4"
definition MALI_MMU_STATUS_BIT_REPLAY_BUFFER_EMPTY :: u32 where "MALI_MMU_STATUS_BIT_REPLAY_BUFFER_EMPTY = 16"

datatype mmu_access = Mmu_read nat mali_mmu_register | Mmu_write nat mali_mmu_register u32

type_synonym mmu_hw = "nat \<Rightarrow> mali_mmu_register \<Rightarrow> mmu_access list \<Rightarrow> u32"

text \<open>
  A unit is named by its id.  A callback is a function and its argument, both numbers; \<open>active_mmus\<close> is
  the list of that name in every session.
\<close>

record mali_kernel_memory_mmu =
  mmu_flags :: u32
  active_session :: "nat option"
  mmu_usage_count :: u32
  callbacks :: "(nat \<times> nat) list"
  in_page_fault_handler :: bool

record mmu_units = mmu_state +
  mmus :: "nat \<Rightarrow> mali_kernel_memory_mmu"
  mmu_head :: "nat list"
  active_mmus :: "nat \<Rightarrow> nat list"
  mmu_log :: "mmu_access list"
  mmu_benchmark :: bool
  mali_empty_page_directory :: u32
  mali_page_fault_flush_page_directory :: u32
  mali_page_fault_flush_page_table :: u32
  mali_page_fault_flush_data_page :: u32

subsection \<open>Access\<close>

definition mali_mmu_register_read ::
  "mmu_hw \<Rightarrow> nat \<Rightarrow> mali_mmu_register \<Rightarrow> 'a mmu_units_scheme \<Rightarrow> u32 \<times> 'a mmu_units_scheme" where
  "mali_mmu_register_read hw m reg w =
     (if mmu_benchmark w then (0, w)
      else (hw m reg (mmu_log w), w\<lparr>mmu_log := Mmu_read m reg # mmu_log w\<rparr>))"

definition mali_mmu_register_write ::
  "nat \<Rightarrow> mali_mmu_register \<Rightarrow> u32 \<Rightarrow> 'a mmu_units_scheme \<Rightarrow> 'a mmu_units_scheme" where
  "mali_mmu_register_write m reg v w =
     (if mmu_benchmark w then w else w\<lparr>mmu_log := Mmu_write m reg v # mmu_log w\<rparr>)"

text \<open>A loop that reads a register until it has the wanted value, at most so many times.\<close>

fun poll ::
  "mmu_hw \<Rightarrow> nat \<Rightarrow> mali_mmu_register \<Rightarrow> (u32 \<Rightarrow> bool) \<Rightarrow> nat \<Rightarrow> 'a mmu_units_scheme \<Rightarrow> bool \<times> 'a mmu_units_scheme" where
  "poll hw m reg ok 0 w = (False, w)"
| "poll hw m reg ok (Suc n) w =
     (let (v, w) = mali_mmu_register_read hw m reg w in if ok v then (True, w) else poll hw m reg ok n w)"

definition mali_mmu_raw_reset :: "mmu_hw \<Rightarrow> nat \<Rightarrow> 'a mmu_units_scheme \<Rightarrow> 'a mmu_units_scheme" where
  "mali_mmu_raw_reset hw m w =
     (let w = mali_mmu_register_write m MALI_MMU_REGISTER_DTE_ADDR 0xCAFEBABE w;
          w = mali_mmu_register_write m MALI_MMU_REGISTER_COMMAND MALI_MMU_COMMAND_SOFT_RESET w
      in if mmu_benchmark w then w else snd (poll hw m MALI_MMU_REGISTER_DTE_ADDR (\<lambda>v. v = 0) 100 w))"

definition mali_mmu_enable_paging :: "mmu_hw \<Rightarrow> nat \<Rightarrow> 'a mmu_units_scheme \<Rightarrow> 'a mmu_units_scheme" where
  "mali_mmu_enable_paging hw m w =
     (let w = mali_mmu_register_write m MALI_MMU_REGISTER_COMMAND MALI_MMU_COMMAND_ENABLE_PAGING w
      in if mmu_benchmark w then w
         else snd (poll hw m MALI_MMU_REGISTER_STATUS (\<lambda>v. v AND MALI_MMU_STATUS_BIT_PAGING_ENABLED \<noteq> 0) 100 w))"

definition mali_mmu_enable_stall :: "mmu_hw \<Rightarrow> nat \<Rightarrow> 'a mmu_units_scheme \<Rightarrow> bool \<times> 'a mmu_units_scheme" where
  "mali_mmu_enable_stall hw m w =
     (let w = mali_mmu_register_write m MALI_MMU_REGISTER_COMMAND MALI_MMU_COMMAND_ENABLE_STALL w
      in if mmu_benchmark w then (True, w)
         else poll hw m MALI_MMU_REGISTER_STATUS (\<lambda>v. v AND MALI_MMU_STATUS_BIT_STALL_ACTIVE \<noteq> 0) 100 w)"

definition mali_mmu_disable_stall :: "mmu_hw \<Rightarrow> nat \<Rightarrow> 'a mmu_units_scheme \<Rightarrow> 'a mmu_units_scheme" where
  "mali_mmu_disable_stall hw m w =
     (let w = mali_mmu_register_write m MALI_MMU_REGISTER_COMMAND MALI_MMU_COMMAND_DISABLE_STALL w
      in if mmu_benchmark w then w
         else snd (poll hw m MALI_MMU_REGISTER_STATUS (\<lambda>v. v AND MALI_MMU_STATUS_BIT_STALL_ACTIVE = 0) 100 w))"

definition mali_mmu_activate_address_space :: "mmu_hw \<Rightarrow> nat \<Rightarrow> u32 \<Rightarrow> 'a mmu_units_scheme \<Rightarrow> 'a mmu_units_scheme" where
  "mali_mmu_activate_address_space hw m pd w =
     (let (_, w) = mali_mmu_enable_stall hw m w;
          w = mali_mmu_register_write m MALI_MMU_REGISTER_DTE_ADDR pd w;
          w = mali_mmu_register_write m MALI_MMU_REGISTER_COMMAND MALI_MMU_COMMAND_ZAP_CACHE w
      in mali_mmu_disable_stall hw m w)"

subsection \<open>What register accesses change\<close>

text \<open>All of them change nothing but the list of accesses.\<close>

definition log_only :: "'a mmu_units_scheme \<Rightarrow> 'a mmu_units_scheme \<Rightarrow> bool" where
  "log_only w' w \<longleftrightarrow> (\<exists>l. w' = w\<lparr>mmu_log := l @ mmu_log w\<rparr>)"

lemma log_only_refl [simp]: "log_only w w"
  unfolding log_only_def by (intro exI[of _ "[]"]) simp

lemma log_only_trans: "log_only a b \<Longrightarrow> log_only b c \<Longrightarrow> log_only a c"
  unfolding log_only_def by (elim exE, rule_tac x = "l @ la" in exI) simp

lemma log_only_write [simp]: "log_only (mali_mmu_register_write m reg v w) w"
  unfolding log_only_def mali_mmu_register_write_def
  by (intro exI[of _ "if mmu_benchmark w then [] else [Mmu_write m reg v]"]) simp

lemma log_only_read: "mali_mmu_register_read hw m reg w = (v, w') \<Longrightarrow> log_only w' w"
  unfolding log_only_def mali_mmu_register_read_def
  by (intro exI[of _ "if mmu_benchmark w then [] else [Mmu_read m reg]"]) (auto split: if_splits)

lemma log_only_poll: "log_only (snd (poll hw m reg ok n w)) w"
proof (induction n arbitrary: w)
  case (Suc n)
  obtain v w1 where r: "mali_mmu_register_read hw m reg w = (v, w1)" by fastforce
  show ?case using Suc[of w1] log_only_trans[OF _ log_only_read[OF r]] log_only_read[OF r] r by simp
qed simp

lemma log_only_fields:
  "log_only w' w \<Longrightarrow> msessions w' = msessions w \<and> phys_mem w' = phys_mem w \<and> blk w' = blk w \<and> osa w' = osa w \<and>
     pt_partial w' = pt_partial w \<and> pt_full w' = pt_full w \<and> mmus w' = mmus w \<and> mmu_head w' = mmu_head w \<and>
     active_mmus w' = active_mmus w \<and> mmu_benchmark w' = mmu_benchmark w \<and>
     mali_empty_page_directory w' = mali_empty_page_directory w \<and> mmu_units.more w' = mmu_units.more w"
  by (auto simp: log_only_def)

text \<open>The value that was last written to a register.\<close>

fun last_written :: "nat \<Rightarrow> mali_mmu_register \<Rightarrow> mmu_access list \<Rightarrow> u32 option" where
  "last_written m reg [] = None"
| "last_written m reg (Mmu_write n r v # l) = (if n = m \<and> r = reg then Some v else last_written m reg l)"
| "last_written m reg (Mmu_read n r # l) = last_written m reg l"

lemma last_written_write:
  "\<not> mmu_benchmark w \<Longrightarrow> last_written m reg (mmu_log (mali_mmu_register_write n r v w)) =
     (if n = m \<and> r = reg then Some v else last_written m reg (mmu_log w))"
  by (simp add: mali_mmu_register_write_def)

lemma last_written_read:
  "mali_mmu_register_read hw n r w = (v, w') \<Longrightarrow> last_written m reg (mmu_log w') = last_written m reg (mmu_log w)"
  by (auto simp: mali_mmu_register_read_def split: if_splits)

lemma last_written_poll: "last_written m reg (mmu_log (snd (poll hw n r ok k w))) = last_written m reg (mmu_log w)"
proof (induction k arbitrary: w)
  case (Suc k)
  obtain v w1 where r: "mali_mmu_register_read hw n r w = (v, w1)" by fastforce
  show ?case using Suc[of w1] last_written_read[OF r, of m reg] r by simp
qed simp

subsection \<open>The page directory that a unit uses\<close>

definition dte :: "nat \<Rightarrow> 'a mmu_units_scheme \<Rightarrow> u32 option" where
  "dte m w = last_written m MALI_MMU_REGISTER_DTE_ADDR (mmu_log w)"

lemma dte_write:
  "\<not> mmu_benchmark w \<Longrightarrow> dte m (mali_mmu_register_write n r v w) =
     (if n = m \<and> r = MALI_MMU_REGISTER_DTE_ADDR then Some v else dte m w)"
  by (simp add: dte_def last_written_write)

lemma dte_poll [simp]: "dte m (snd (poll hw n r ok k w)) = dte m w"
  by (simp add: dte_def last_written_poll)

lemma benchmark_write [simp]: "mmu_benchmark (mali_mmu_register_write n r v w) = mmu_benchmark w"
  by (simp add: mali_mmu_register_write_def)

lemma benchmark_poll [simp]: "mmu_benchmark (snd (poll hw n r ok k w)) = mmu_benchmark w"
  using log_only_fields[OF log_only_poll[of hw n r ok k w]] by simp

lemma log_only_poll_trans: "log_only w w0 \<Longrightarrow> log_only (snd (poll hw n r ok k w)) w0"
  by (rule log_only_trans[OF log_only_poll])

lemma log_only_write_trans: "log_only w w0 \<Longrightarrow> log_only (mali_mmu_register_write n r v w) w0"
  by (rule log_only_trans[OF log_only_write])

lemmas log_only_steps = log_only_poll_trans log_only_write_trans log_only_refl

lemma raw_reset_log: "log_only (mali_mmu_raw_reset hw m w) w"
  by (simp add: mali_mmu_raw_reset_def Let_def log_only_steps)

lemma enable_paging_log: "log_only (mali_mmu_enable_paging hw m w) w"
  by (simp add: mali_mmu_enable_paging_def Let_def log_only_steps)

lemma enable_stall_log: "log_only (snd (mali_mmu_enable_stall hw m w)) w"
  by (simp add: mali_mmu_enable_stall_def Let_def log_only_steps)

lemma disable_stall_log: "log_only (mali_mmu_disable_stall hw m w) w"
  by (simp add: mali_mmu_disable_stall_def Let_def log_only_steps)

lemma activate_log: "log_only (mali_mmu_activate_address_space hw m pd w) w"
proof -
  obtain b w1 where e: "mali_mmu_enable_stall hw m w = (b, w1)" by fastforce
  have "log_only w1 w" using enable_stall_log[of hw m w] e by simp
  then show ?thesis
    unfolding mali_mmu_activate_address_space_def e Let_def prod.case
    by (intro log_only_trans[OF disable_stall_log] log_only_write_trans)
qed

lemma enable_stall_dte: "\<not> mmu_benchmark w \<Longrightarrow> dte n (snd (mali_mmu_enable_stall hw m w)) = dte n w"
  by (simp add: mali_mmu_enable_stall_def Let_def dte_write)

lemma disable_stall_dte: "\<not> mmu_benchmark w \<Longrightarrow> dte n (mali_mmu_disable_stall hw m w) = dte n w"
  by (simp add: mali_mmu_disable_stall_def Let_def dte_write)

lemma enable_paging_dte: "\<not> mmu_benchmark w \<Longrightarrow> dte n (mali_mmu_enable_paging hw m w) = dte n w"
  by (simp add: mali_mmu_enable_paging_def Let_def dte_write)

lemma raw_reset_dte: "\<not> mmu_benchmark w \<Longrightarrow> dte n (mali_mmu_raw_reset hw m w) = (if n = m then Some 0xCAFEBABE else dte n w)"
  by (auto simp: mali_mmu_raw_reset_def Let_def dte_write)

lemma activate_dte:
  assumes "\<not> mmu_benchmark w"
  shows "dte n (mali_mmu_activate_address_space hw m pd w) = (if n = m then Some pd else dte n w)"
proof -
  obtain b w1 where e: "mali_mmu_enable_stall hw m w = (b, w1)" by fastforce
  have "\<not> mmu_benchmark w1" "dte n w1 = dte n w"
    using log_only_fields[OF enable_stall_log[of hw m w]] enable_stall_dte[OF assms, of n hw m] e assms by simp_all
  then show ?thesis
    by (auto simp: mali_mmu_activate_address_space_def e disable_stall_dte dte_write)
qed

text \<open>The loops read a register at most as often as their limit.\<close>

lemma poll_reads: "\<not> mmu_benchmark w \<Longrightarrow> \<exists>k \<le> n. mmu_log (snd (poll hw m reg ok n w)) = replicate k (Mmu_read m reg) @ mmu_log w"
proof (induction n arbitrary: w)
  case (Suc n)
  let ?w = "w\<lparr>mmu_log := Mmu_read m reg # mmu_log w\<rparr>"
  obtain k where k: "k \<le> n" "mmu_log (snd (poll hw m reg ok n ?w)) = replicate k (Mmu_read m reg) @ mmu_log ?w"
    using Suc.IH[of ?w] Suc.prems by auto
  show ?case
  proof (cases "ok (hw m reg (mmu_log w))")
    case True
    then show ?thesis using Suc.prems by (intro exI[of _ 1]) (simp add: mali_mmu_register_read_def)
  next
    case False
    then show ?thesis using Suc.prems k
      by (intro exI[of _ "Suc k"]) (simp add: mali_mmu_register_read_def replicate_app_Cons_same)
  qed
qed simp

end
