(* ===== verification/Process_Address.thy ===== *)
theory Process_Address
  imports Mmu_Contracts Mmu_Registers
begin

text \<open>
  The process side of an allocation, linux/mali\_osk\_low\_level\_mem.c: a region of the process's address
  space (a vma of Linux), for which a \<open>MappingInfo\<close> lists the operating system pages mapped into it.

  \<open>kernel_pages\<close> are the pages that the driver has from the page allocator of Linux.  The usage tracker
  of a vma is identified with the field \<open>vm_private_data\<close> that points to it, and its cookie, the
  address of the descriptor, is left out.
\<close>

subsection \<open>Data\<close>

record mali_vma_usage_tracker =
  references :: int

record vm_area_struct =
  vm_start :: u32
  vm_private_data :: "mali_vma_usage_tracker option"

record AllocationList =
  item_offset :: u32
  physaddr :: u32

record MappingInfo =
  vma :: ptr
  alloc_list :: "AllocationList list"

record os_mem = mmu_units +
  vmas :: "ptr \<Rightarrow> vm_area_struct"
  infos :: "ptr \<Rightarrow> MappingInfo option"
  pre_allocated_memory :: "u32 list"
  pre_allocated_memory_size_current :: int
  kernel_pages :: "u32 multiset"
  memory_head :: "nat \<Rightarrow> (mali_memory_allocation \<times> phys_handle option list) list"

definition PAGE_SIZE :: int where "PAGE_SIZE = 4096"

definition pre_allocated_memory_size_max :: int where
  "pre_allocated_memory_size_max = 6 * 1024 * 1024"

subsection \<open>Pages\<close>

definition kernel_page_allocate :: "os_mem os_env \<Rightarrow> os_mem \<Rightarrow> u32 \<times> os_mem" where
  "kernel_page_allocate env w =
     (case alloc_page env w of None \<Rightarrow> (0, w) | Some p \<Rightarrow> (p, w\<lparr>kernel_pages := add_mset p (kernel_pages w)\<rparr>))"

definition kernel_page_release :: "u32 \<Rightarrow> os_mem \<Rightarrow> os_mem" where
  "kernel_page_release p w = w\<lparr>kernel_pages := kernel_pages w - {#p#}\<rparr>"

fun low_level_mem_term :: "u32 list \<Rightarrow> os_mem \<Rightarrow> os_mem" where
  "low_level_mem_term [] w = w\<lparr>pre_allocated_memory_size_current := 0\<rparr>"
| "low_level_mem_term (p # ps) w = low_level_mem_term ps (kernel_page_release p (w\<lparr>pre_allocated_memory := ps\<rparr>))"

definition mali_osk_low_level_mem_init :: "os_mem \<Rightarrow> os_mem" where
  "mali_osk_low_level_mem_init w = w\<lparr>pre_allocated_memory := []\<rparr>"

definition mali_osk_low_level_mem_term :: "os_mem \<Rightarrow> os_mem" where
  "mali_osk_low_level_mem_term w = low_level_mem_term (pre_allocated_memory w) w"

definition allocation_list_item_get :: "os_mem os_env \<Rightarrow> os_mem \<Rightarrow> u32 option \<times> os_mem" where
  "allocation_list_item_get env w =
     (case pre_allocated_memory w of
        p # ps \<Rightarrow>
          (Some p, w\<lparr>pre_allocated_memory := ps,
                     pre_allocated_memory_size_current := pre_allocated_memory_size_current w - PAGE_SIZE\<rparr>)
      | [] \<Rightarrow>
          if \<not> kmalloc env Allocation_list_site w then (None, w)
          else let (p, w) = kernel_page_allocate env w
               in if p = 0 then (None, w) else (Some p, w))"

definition allocation_list_item_release :: "u32 \<Rightarrow> os_mem \<Rightarrow> os_mem" where
  "allocation_list_item_release p w =
     (if pre_allocated_memory_size_current w < pre_allocated_memory_size_max
      then w\<lparr>pre_allocated_memory := p # pre_allocated_memory w,
             pre_allocated_memory_size_current := pre_allocated_memory_size_current w + PAGE_SIZE\<rparr>
      else kernel_page_release p w)"

subsection \<open>Regions\<close>

definition set_vma :: "ptr \<Rightarrow> vm_area_struct \<Rightarrow> os_mem \<Rightarrow> os_mem" where
  "set_vma v a w = w\<lparr>vmas := (vmas w)(v := a)\<rparr>"

definition set_info :: "ptr \<Rightarrow> MappingInfo option \<Rightarrow> os_mem \<Rightarrow> os_mem" where
  "set_info k i w = w\<lparr>infos := (infos w)(k := i)\<rparr>"

text \<open>The first step saves the vma in the new \<open>MappingInfo\<close>, whose address replaces it in the descriptor.\<close>

definition mali_osk_mem_mapregion_init ::
  "os_mem os_env \<Rightarrow> mali_memory_allocation \<Rightarrow> os_mem \<Rightarrow> (osk_err \<times> mali_memory_allocation \<times> os_mem) option" where
  "mali_osk_mem_mapregion_init env d w =
     (let v = process_addr_mapping_info d
      in if v = 0 then Some (ERR_FAULT, d, w)
         else if \<not> kmalloc env Mapping_info_site w then Some (ERR_FAULT, d, w)
         else if \<not> kmalloc env Usage_tracker_site w then Some (ERR_FAULT, d, w)
         else
           let k = kmalloc_address env w;
               w = set_info k (Some \<lparr>vma = v, alloc_list = []\<rparr>) w;
               d = d\<lparr>process_addr_mapping_info := k, mapping := vm_start (vmas w v)\<rparr>
           in Some (ERR_OK, d, set_vma v ((vmas w v)\<lparr>vm_private_data := Some \<lparr>references = 1\<rparr>\<rparr>) w))"

definition mali_osk_mem_mapregion_term :: "mali_memory_allocation \<Rightarrow> os_mem \<Rightarrow> os_mem option" where
  "mali_osk_mem_mapregion_term d w =
     (case infos w (process_addr_mapping_info d) of
        None \<Rightarrow> None
      | Some info \<Rightarrow>
          let v = vma info; w = set_vma v ((vmas w v)\<lparr>vm_private_data := None\<rparr>) w
          in Some (set_info (process_addr_mapping_info d) None w))"

definition mali_osk_mem_mapregion_map ::
  "os_mem os_env \<Rightarrow> mali_memory_allocation \<Rightarrow> u32 \<Rightarrow> u32 \<Rightarrow> u32 \<Rightarrow> os_mem \<Rightarrow> (osk_err \<times> u32 \<times> os_mem) option" where
  "mali_osk_mem_mapregion_map env d offset phys sz w =
     (if mapping d = 0 then Some (ERR_INVALID_ARGS, phys, w)
      else if alloc_size d - offset < sz then Some (ERR_FAULT, phys, w)
      else case infos w (process_addr_mapping_info d) of
        None \<Rightarrow> None
      | Some info \<Rightarrow>
          if vma info = 0 then Some (ERR_FAULT, phys, w)
          else if phys = OS_ALLOCATED_PHYSADDR_MAGIC then
            (case allocation_list_item_get env w of
               (None, _) \<Rightarrow> None
             | (Some p, w) \<Rightarrow>
                 if remap_pfn_range env (mapping d + offset) (drop_bit 12 p) sz w
                 then Some (ERR_FAULT, phys, allocation_list_item_release p w)
                 else Some (ERR_OK, p,
                        set_info (process_addr_mapping_info d)
                          (Some (info\<lparr>alloc_list := \<lparr>item_offset = offset, physaddr = p\<rparr> # alloc_list info\<rparr>)) w))
          else Some (if remap_pfn_range env (mapping d + offset) (drop_bit 12 phys) sz w then ERR_FAULT else ERR_OK,
                     phys, w))"

text \<open>The loop over the pages of a range whose pages were allocated by the mapping.\<close>

partial_function (option) unmap_pages :: "ptr \<Rightarrow> u32 \<Rightarrow> u32 \<Rightarrow> os_mem \<Rightarrow> os_mem option" where
  "unmap_pages k offset sz w =
     (if sz = 0 then Some w
      else case infos w k of
        None \<Rightarrow> None
      | Some info \<Rightarrow>
          (case List.extract (\<lambda>a. item_offset a = offset) (alloc_list info) of
             None \<Rightarrow> unmap_pages k (offset + OSK_CPU_PAGE_SIZE) (sz - OSK_CPU_PAGE_SIZE) w
           | Some (ys, a, zs) \<Rightarrow>
               unmap_pages k (offset + OSK_CPU_PAGE_SIZE) (sz - OSK_CPU_PAGE_SIZE)
                 (set_info k (Some (info\<lparr>alloc_list := ys @ zs\<rparr>)) (kernel_page_release (physaddr a) w))))"

definition mali_osk_mem_mapregion_unmap ::
  "mali_memory_allocation \<Rightarrow> u32 \<Rightarrow> u32 \<Rightarrow> u32 \<Rightarrow> os_mem \<Rightarrow> os_mem option" where
  "mali_osk_mem_mapregion_unmap d offset sz flags w =
     (if mapping d = 0 then Some w
      else if alloc_size d - offset < sz then Some w
      else if flags AND FLAG_OS_ALLOCATED_PHYSADDR \<noteq> 0
      then unmap_pages (process_addr_mapping_info d) offset sz w
      else Some w)"

definition process_address_manager :: "os_mem os_env \<Rightarrow> os_mem mali_kernel_mem_address_manager" where
  "process_address_manager env =
     \<lparr>am_allocate = mali_osk_mem_mapregion_init env,
      am_release = mali_osk_mem_mapregion_term,
      am_map_physical = mali_osk_mem_mapregion_map env,
      am_unmap_physical = Some mali_osk_mem_mapregion_unmap\<rparr>"

subsection \<open>Accounting\<close>

text \<open>
  What is asked of Linux.  \<open>page_supply\<close>: there always is a page, and memory for the item that lists it;
  an object from \<open>kmalloc\<close> has an address that no other \<open>MappingInfo\<close> has.
\<close>

definition page_supply :: "os_mem os_env \<Rightarrow> bool" where
  "page_supply env \<longleftrightarrow> (\<forall>w. kmalloc env Allocation_list_site w \<and> (\<exists>p. alloc_page env w = Some p \<and> p \<noteq> 0))"

definition fresh_infos :: "os_mem os_env \<Rightarrow> bool" where
  "fresh_infos env \<longleftrightarrow> (\<forall>w. kmalloc env Mapping_info_site w \<longrightarrow> infos w (kmalloc_address env w) = None)"

definition proc_env :: "os_mem os_env \<Rightarrow> bool" where
  "proc_env env \<longleftrightarrow> page_supply env \<and> fresh_infos env"

text \<open>Without a page, the mapping follows the null pointer that it got instead of an item of the list.\<close>

lemma mapregion_map_without_page:
  assumes "infos w (process_addr_mapping_info d) = Some info" "vma info \<noteq> 0" "mapping d \<noteq> 0" "\<not> alloc_size d - offset < sz"
    and "pre_allocated_memory w = []" "\<not> kmalloc env Allocation_list_site w \<or> alloc_page env w = None"
  shows "mali_osk_mem_mapregion_map env d offset OS_ALLOCATED_PHYSADDR_MAGIC sz w = None"
  using assms by (auto simp: mali_osk_mem_mapregion_map_def allocation_list_item_get_def kernel_page_allocate_def)

text \<open>
  The items that a \<open>MappingInfo\<close> lists; the offsets of its pages; and the pages themselves, of all.  The
  driver has these pages of Linux and those of its reserve, no others.
\<close>

definition info_list :: "os_mem \<Rightarrow> ptr \<Rightarrow> AllocationList list" where
  "info_list w k = (case infos w k of None \<Rightarrow> [] | Some info \<Rightarrow> alloc_list info)"

definition held_pages :: "os_mem \<Rightarrow> ptr \<Rightarrow> u32 multiset" where
  "held_pages w k = mset (map item_offset (info_list w k))"

definition listed_pages :: "os_mem \<Rightarrow> u32 multiset" where
  "listed_pages w = (\<Sum>k \<in> dom (infos w). mset (map physaddr (info_list w k)))"

definition page_account :: "os_mem \<Rightarrow> bool" where
  "page_account w \<longleftrightarrow> kernel_pages w = mset (pre_allocated_memory w) + listed_pages w"

text \<open>
  There is one \<open>MappingInfo\<close> for every region in use, the pages add up, and a region that was not placed
  lists none.
\<close>

definition proc_inv :: "mali_memory_allocation multiset \<Rightarrow> os_mem \<Rightarrow> bool" where
  "proc_inv P w \<longleftrightarrow> finite (dom (infos w)) \<and> image_mset process_addr_mapping_info P = mset_set (dom (infos w)) \<and>
     0 \<notin># mset (pre_allocated_memory w) \<and> page_account w \<and>
     (\<forall>d \<in># P. mapping d = 0 \<longrightarrow> held_pages w (process_addr_mapping_info d) = {#})"

text \<open>What the operations of the process manager leave alone.\<close>

definition proc_frame :: "os_mem \<Rightarrow> os_mem \<Rightarrow> bool" where
  "proc_frame w' w \<longleftrightarrow> mmu_units.truncate w' = mmu_units.truncate w \<and> memory_head w' = memory_head w"

lemma proc_frame_refl [simp]: "proc_frame w w"
  by (simp add: proc_frame_def)

lemma proc_frame_trans: "proc_frame a b \<Longrightarrow> proc_frame b c \<Longrightarrow> proc_frame a c"
  by (simp add: proc_frame_def)

lemma proc_frame_fields:
  "proc_frame w' w \<Longrightarrow> blk w' = blk w \<and> osa w' = osa w \<and> pt_partial w' = pt_partial w \<and> pt_full w' = pt_full w \<and>
     msessions w' = msessions w \<and> phys_mem w' = phys_mem w"
  by (simp add: proc_frame_def mmu_units.truncate_def)

lemma proc_frame_updates [simp]:
  "proc_frame (set_vma v a w) w" "proc_frame (set_info k i w) w"
  "proc_frame (w\<lparr>pre_allocated_memory := ps, pre_allocated_memory_size_current := n\<rparr>) w"
  "proc_frame (w\<lparr>kernel_pages := ks\<rparr>) w"
  by (simp_all add: proc_frame_def set_vma_def set_info_def mmu_units.truncate_def)

lemma set_info_fields [simp]:
  "infos (set_info k i w) = (infos w)(k := i)" "infos (set_vma v a w) = infos w"
  "pre_allocated_memory (set_info k i w) = pre_allocated_memory w"
  "pre_allocated_memory (set_vma v a w) = pre_allocated_memory w"
  "vmas (set_info k i w) = vmas w" "kernel_pages (set_info k i w) = kernel_pages w"
  "kernel_pages (set_vma v a w) = kernel_pages w"
  by (simp_all add: set_vma_def set_info_def)

lemma infos_only:
  "infos w' = infos w \<Longrightarrow> info_list w' = info_list w" "infos w' = infos w \<Longrightarrow> held_pages w' = held_pages w"
  "infos w' = infos w \<Longrightarrow> listed_pages w' = listed_pages w"
  by (simp_all add: info_list_def[abs_def] held_pages_def[abs_def] listed_pages_def)

lemma kernel_page_release_fields [simp]:
  "infos (kernel_page_release p w) = infos w" "pre_allocated_memory (kernel_page_release p w) = pre_allocated_memory w"
  "kernel_pages (kernel_page_release p w) = kernel_pages w - {#p#}"
  by (simp_all add: kernel_page_release_def)

lemma info_list_set [simp]:
  "info_list (set_info k i w) = (info_list w)(k := (case i of None \<Rightarrow> [] | Some info \<Rightarrow> alloc_list info))"
  by (auto simp: info_list_def fun_eq_iff)

lemma held_pages_set:
  "held_pages (set_info k i w) = (held_pages w)(k := mset (map item_offset (case i of None \<Rightarrow> [] | Some info \<Rightarrow> alloc_list info)))"
  by (auto simp: held_pages_def fun_eq_iff)

lemma listed_set:
  assumes "finite (dom (infos w))"
  shows "listed_pages (set_info k (Some info) w) + mset (map physaddr (info_list w k)) =
    listed_pages w + mset (map physaddr (alloc_list info))"
proof -
  let ?D = "dom (infos w)" and ?g = "\<lambda>k. mset (map physaddr (info_list w k))"
  have d: "dom (infos (set_info k (Some info) w)) = insert k ?D" by auto
  have "listed_pages (set_info k (Some info) w) = mset (map physaddr (alloc_list info)) + sum ?g (?D - {k})"
    unfolding listed_pages_def d by (subst sum.insert_remove) (use assms in \<open>auto intro!: sum.cong\<close>)
  moreover have "listed_pages w = ?g k + sum ?g (?D - {k})"
  proof (cases "k \<in> ?D")
    case True
    then show ?thesis unfolding listed_pages_def using assms by (intro sum.remove) auto
  next
    case False
    then have "?g k = {#}" by (auto simp: info_list_def split: option.split)
    then show ?thesis using False by (simp add: listed_pages_def)
  qed
  ultimately show ?thesis by (simp add: ac_simps)
qed

lemma listed_unset:
  assumes "finite (dom (infos w))" "info_list w k = []"
  shows "listed_pages (set_info k None w) = listed_pages w"
proof -
  let ?D = "dom (infos w)" and ?g = "\<lambda>k. mset (map physaddr (info_list w k))"
  have "listed_pages (set_info k None w) = sum ?g (?D - {k})"
    unfolding listed_pages_def by (rule sum.cong) auto
  also have "\<dots> = sum ?g ?D" using assms by (intro sum.mono_neutral_left) auto
  finally show ?thesis by (simp add: listed_pages_def)
qed

lemma proc_inv_info: "proc_inv P w \<Longrightarrow> d \<in># P \<Longrightarrow> \<exists>info. infos w (process_addr_mapping_info d) = Some info"
proof -
  assume p: "proc_inv P w" and "d \<in># P"
  then have "process_addr_mapping_info d \<in># image_mset process_addr_mapping_info P" by simp
  then have "process_addr_mapping_info d \<in> dom (infos w)"
    using p unfolding proc_inv_def by (metis finite_set_mset_mset_set)
  then show ?thesis by auto
qed

text \<open>Two regions do not share a \<open>MappingInfo\<close>.\<close>

lemma proc_inv_key:
  assumes "proc_inv P w" "d \<in># P" "d' \<in># P" "process_addr_mapping_info d' = process_addr_mapping_info d"
  shows "d' = d"
proof (rule ccontr)
  assume n: "d' \<noteq> d"
  obtain R where R: "P = add_mset d R" using assms(2) by (metis mset_add)
  then have "d' \<in># R" using assms(3) n by auto
  then obtain S where "R = add_mset d' S" by (metis mset_add)
  then have "count (image_mset process_addr_mapping_info P) (process_addr_mapping_info d) \<ge> 2" using R assms(4) by simp
  moreover have "count (mset_set (dom (infos w))) (process_addr_mapping_info d) \<le> 1"
    using assms(1) by (cases "process_addr_mapping_info d \<in> dom (infos w)") (simp_all add: proc_inv_def)
  ultimately show False using assms(1) by (simp add: proc_inv_def)
qed

lemma mapregion_init_ok:
  assumes "proc_inv P w" "proc_env env"
  shows "\<exists>err d' w'. mali_osk_mem_mapregion_init env d w = Some (err, d', w') \<and> proc_frame w' w \<and> held_pages w' = held_pages w \<and>
    (if err = ERR_OK then d' = d\<lparr>process_addr_mapping_info := process_addr_mapping_info d', mapping := mapping d'\<rparr> \<and>
       proc_inv (add_mset d' P) w'
     else d' = d \<and> w' = w)"
proof -
  let ?v = "process_addr_mapping_info d" and ?k = "kmalloc_address env w"
  let ?w1 = "set_info ?k (Some \<lparr>vma = ?v, alloc_list = []\<rparr>) w"
  let ?w = "set_vma ?v ((vmas ?w1 ?v)\<lparr>vm_private_data := Some \<lparr>references = 1\<rparr>\<rparr>) ?w1"
  have f: "proc_frame ?w w" by (rule proc_frame_trans[OF proc_frame_updates(1) proc_frame_updates(2)])
  have n: "infos w ?k = None" if "kmalloc env Mapping_info_site w"
    using assms(2) that by (auto simp: proc_env_def fresh_infos_def)
  have h: "held_pages ?w = held_pages w" "listed_pages ?w = listed_pages w" if "kmalloc env Mapping_info_site w"
  proof -
    have e: "info_list w ?k = []" using n[OF that] by (simp add: info_list_def)
    have "held_pages ?w1 = held_pages w" unfolding held_pages_set using e by (auto simp: held_pages_def fun_eq_iff)
    then show "held_pages ?w = held_pages w" using infos_only(2)[of ?w ?w1] by simp
    have "listed_pages ?w1 = listed_pages w" using listed_set[of w ?k "\<lparr>vma = ?v, alloc_list = []\<rparr>"] e assms(1) by (simp add: proc_inv_def)
    then show "listed_pages ?w = listed_pages w" using infos_only(3)[of ?w ?w1] by simp
  qed
  have "proc_inv (add_mset (d\<lparr>process_addr_mapping_info := ?k, mapping := m\<rparr>) P) ?w" if k: "kmalloc env Mapping_info_site w" for m
  proof -
    have "held_pages w ?k = {#}" using n[OF k] by (simp add: held_pages_def info_list_def)
    moreover have "?k \<notin> dom (infos w)" using n[OF k] by auto
    ultimately show ?thesis using assms(1) h[OF k] by (simp add: proc_inv_def page_account_def)
  qed
  then show ?thesis using f h by (simp add: mali_osk_mem_mapregion_init_def Let_def)
qed

text \<open>A region is taken down when its pages have been given back.\<close>

lemma mapregion_term_ok:
  assumes "proc_inv (add_mset d P) w" "held_pages w (process_addr_mapping_info d) = {#}"
  shows "\<exists>w'. mali_osk_mem_mapregion_term d w = Some w' \<and> proc_frame w' w \<and> proc_inv P w' \<and> held_pages w' = held_pages w"
proof -
  let ?k = "process_addr_mapping_info d"
  obtain info where i: "infos w ?k = Some info" using proc_inv_info[OF assms(1), of d] by auto
  let ?v = "vma info"
  let ?w1 = "set_vma ?v ((vmas w ?v)\<lparr>vm_private_data := None\<rparr>) w"
  let ?w = "set_info ?k None ?w1"
  have m: "mset_set (dom (infos w)) = add_mset ?k (image_mset process_addr_mapping_info P)" and fin: "finite (dom (infos w))"
    using assms(1) by (simp_all add: proc_inv_def)
  have e: "info_list w ?k = []" using assms(2) by (simp add: held_pages_def)
  have w1: "info_list ?w1 = info_list w" "held_pages ?w1 = held_pages w" "listed_pages ?w1 = listed_pages w" by (rule infos_only; simp)+
  have h: "held_pages ?w = held_pages w" unfolding held_pages_set w1(2) using assms(2) by (simp add: fun_eq_iff)
  have l: "listed_pages ?w = listed_pages w" using listed_unset[of ?w1 ?k] fin e w1 by simp
  have "mset_set (dom (infos w) - {?k}) = mset_set (dom (infos w)) - {#?k#}"
    using i fin by (subst mset_set_Diff) auto
  then have "proc_inv P ?w" using assms(1) m h l by (simp add: proc_inv_def page_account_def)
  moreover have "proc_frame ?w w" by (rule proc_frame_trans[OF proc_frame_updates(2) proc_frame_updates(1)])
  ultimately show ?thesis using i h by (simp add: mali_osk_mem_mapregion_term_def Let_def)
qed

lemma item_get_ok:
  assumes "page_supply env" "0 \<notin> set (pre_allocated_memory w)" "kernel_pages w = mset (pre_allocated_memory w) + K"
  shows "\<exists>p w'. allocation_list_item_get env w = (Some p, w') \<and> p \<noteq> 0 \<and> proc_frame w' w \<and> infos w' = infos w \<and>
    0 \<notin> set (pre_allocated_memory w') \<and> kernel_pages w' = mset (pre_allocated_memory w') + add_mset p K"
proof (cases "pre_allocated_memory w")
  case Nil
  obtain p where "kmalloc env Allocation_list_site w" "alloc_page env w = Some p" "p \<noteq> 0"
    using assms(1) by (auto simp: page_supply_def)
  then show ?thesis using Nil assms(3) by (simp add: allocation_list_item_get_def kernel_page_allocate_def)
next
  case (Cons p ps)
  then show ?thesis using assms(2,3) by (simp add: allocation_list_item_get_def)
qed

lemma item_release_ok:
  assumes "p \<noteq> 0" "0 \<notin> set (pre_allocated_memory w)" "kernel_pages w = mset (pre_allocated_memory w) + add_mset p K"
  shows "proc_frame (allocation_list_item_release p w) w" "infos (allocation_list_item_release p w) = infos w"
    "0 \<notin> set (pre_allocated_memory (allocation_list_item_release p w))"
    "kernel_pages (allocation_list_item_release p w) = mset (pre_allocated_memory (allocation_list_item_release p w)) + K"
  using assms by (simp_all add: allocation_list_item_release_def) (simp add: kernel_page_release_def)

text \<open>Mapping at the magic address lists one more page.\<close>

lemma mapregion_map_ok:
  assumes "proc_inv P w" "proc_env env" "d \<in># P"
  shows "\<exists>err phys' w'. mali_osk_mem_mapregion_map env d offset phys sz w = Some (err, phys', w') \<and>
    proc_frame w' w \<and> proc_inv P w' \<and>
    held_pages w' = (\<lambda>k. held_pages w k +
      (if phys = OS_ALLOCATED_PHYSADDR_MAGIC \<and> err = ERR_OK \<and> k = process_addr_mapping_info d then {#offset#} else {#}))"
proof -
  let ?k = "process_addr_mapping_info d"
  obtain info where i: "infos w ?k = Some info" using proc_inv_info[OF assms(1,3)] by auto
  have z: "0 \<notin> set (pre_allocated_memory w)" "page_supply env" "kernel_pages w = mset (pre_allocated_memory w) + listed_pages w"
    and fin: "finite (dom (infos w))"
    using assms(1,2) by (simp_all add: proc_inv_def proc_env_def page_account_def)
  obtain p w1 where g: "allocation_list_item_get env w = (Some p, w1)" "p \<noteq> 0" "proc_frame w1 w" "infos w1 = infos w"
    "0 \<notin> set (pre_allocated_memory w1)" "kernel_pages w1 = mset (pre_allocated_memory w1) + add_mset p (listed_pages w)"
    using item_get_ok[OF z(2,1,3)] by blast
  let ?r = "allocation_list_item_release p w1" and ?j = "info\<lparr>alloc_list := \<lparr>item_offset = offset, physaddr = p\<rparr> # alloc_list info\<rparr>"
  let ?m = "set_info ?k (Some ?j) w1"
  note r = item_release_ok[OF g(2,5,6)]
  note same = infos_only[of ?r w, OF r(2)[unfolded g(4)]] infos_only[of w1 w, OF g(4)]
  have "proc_inv P ?r" "proc_frame ?r w"
    using assms(1) r g same proc_frame_trans[of ?r w1 w] by (simp_all add: proc_inv_def page_account_def)
  moreover have "listed_pages ?m = add_mset p (listed_pages w)"
  proof -
    have "finite (dom (infos w1))" using fin g(4) by simp
    from listed_set[OF this, of ?k ?j] show ?thesis using i same(4,6) by (simp add: info_list_def)
  qed
  moreover have h: "held_pages ?m = (\<lambda>k. held_pages w k + (if k = ?k then {#offset#} else {#}))"
    unfolding held_pages_set same(5) using i by (auto simp: held_pages_def info_list_def fun_eq_iff)
  moreover have "held_pages ?m (process_addr_mapping_info d') = {#}" if "mapping d \<noteq> 0" "d' \<in># P" "mapping d' = 0" for d'
  proof -
    have "process_addr_mapping_info d' \<noteq> ?k" using proc_inv_key[OF assms(1,3) that(2)] that(1,3) by auto
    then show ?thesis unfolding h using assms(1) that(2,3) by (simp add: proc_inv_def)
  qed
  ultimately have m: "proc_inv P ?m" if "mapping d \<noteq> 0"
    using assms(1) g i that by (auto simp: proc_inv_def page_account_def insert_absorb domI)
  have f: "proc_frame ?m w" using proc_frame_trans[of ?m w1 w] g(3) by simp
  show ?thesis using i g(1) assms(1) m f h same(2) \<open>proc_inv P ?r\<close> \<open>proc_frame ?r w\<close>
    by (simp add: mali_osk_mem_mapregion_map_def)
qed

text \<open>A range of listed pages is given back.\<close>

lemma unmap_pages_ok:
  assumes "infos w k \<noteq> None" "unat sz = n * 4096" "finite (dom (infos w))" "page_account w"
  shows "\<exists>w'. unmap_pages k offset sz w = Some w' \<and> proc_frame w' w \<and> dom (infos w') = dom (infos w) \<and>
    pre_allocated_memory w' = pre_allocated_memory w \<and> page_account w' \<and> (\<forall>j. j \<noteq> k \<longrightarrow> held_pages w' j = held_pages w j) \<and>
    (\<forall>X. held_pages w k = X + mset (map (\<lambda>j. offset + of_nat j * 4096) [0..<n]) \<longrightarrow> held_pages w' k = X)"
  using assms
proof (induction n arbitrary: sz offset w)
  case 0
  then have "sz = 0" by (simp add: unat_eq_0)
  then show ?case using 0 by (simp add: unmap_pages.simps)
next
  case (Suc n)
  obtain info where i: "infos w k = Some info" using Suc.prems(1) by auto
  have p: "OSK_CPU_PAGE_SIZE = 4096" by (simp add: OSK_CPU_PAGE_SIZE_def OSK_CPU_PAGE_ORDER_def)
  have s: "sz \<noteq> 0" using Suc.prems(2) by auto
  have n: "unat (sz - OSK_CPU_PAGE_SIZE) = n * 4096"
    using Suc.prems(2) by (simp add: p unat_sub word_le_nat_alt)
  have offs: "mset (map (\<lambda>j. offset + of_nat j * 4096) [0..<Suc n]) =
      add_mset offset (mset (map (\<lambda>j. offset + OSK_CPU_PAGE_SIZE + of_nat j * 4096) [0..<n]))"
    unfolding upt_conv_Cons[OF zero_less_Suc] map_Suc_upt[symmetric] by (simp add: p comp_def algebra_simps)
  have li: "info_list w k = alloc_list info" using i by (simp add: info_list_def)
  show ?case
  proof (cases "List.extract (\<lambda>a. item_offset a = offset) (alloc_list info)")
    case None
    then have "offset \<notin># held_pages w k" unfolding extract_None_iff held_pages_def li by auto
    then have "held_pages w k \<noteq> add_mset offset X" for X by auto
    then have v: "held_pages w k \<noteq> X + mset (map (\<lambda>j. offset + of_nat j * 4096) [0..<Suc n])" for X unfolding offs by simp
    from None i s Suc.IH[OF Suc.prems(1) n Suc.prems(3,4), of "offset + OSK_CPU_PAGE_SIZE"] v show ?thesis
      by (simp add: unmap_pages.simps[of k offset sz] del: upt_Suc) blast
  next
    case (Some yaz)
    obtain ys a zs where y: "yaz = (ys, a, zs)" by (cases yaz)
    have ex: "alloc_list info = ys @ a # zs" "item_offset a = offset" using extract_SomeE[OF Some[unfolded y]] by auto
    let ?r = "kernel_page_release (physaddr a) w"
    let ?w = "set_info k (Some (info\<lparr>alloc_list := ys @ zs\<rparr>)) ?r"
    note same = infos_only[of ?r w, OF kernel_page_release_fields(1)]
    have f: "proc_frame ?w w" "dom (infos ?w) = dom (infos w)" "pre_allocated_memory ?w = pre_allocated_memory w" "infos ?w k \<noteq> None"
      using proc_frame_trans[OF proc_frame_updates(2), of ?r w] i by (auto simp: kernel_page_release_def)
    have "add_mset (physaddr a) (listed_pages ?w) = listed_pages w"
      using listed_set[of ?r k "info\<lparr>alloc_list := ys @ zs\<rparr>"] Suc.prems(3) same ex(1) li by simp
    then have acc: "page_account ?w" using Suc.prems(4) unfolding page_account_def by (metis add_diff_cancel_right' add_mset_add_single
        kernel_page_release_fields(2,3) set_info_fields(3,6) union_assoc)
    have hk: "held_pages w k = add_mset offset (held_pages ?w k)" "j \<noteq> k \<Longrightarrow> held_pages ?w j = held_pages w j" for j
      unfolding held_pages_set same(2) using ex li by (simp_all add: held_pages_def)
    have "finite (dom (infos ?w))" using Suc.prems(3) f(2) by simp
    from Suc.IH[OF f(4) n this acc, of "offset + OSK_CPU_PAGE_SIZE"]
    obtain w' where w': "unmap_pages k (offset + OSK_CPU_PAGE_SIZE) (sz - OSK_CPU_PAGE_SIZE) ?w = Some w'"
      "proc_frame w' ?w" "dom (infos w') = dom (infos ?w)" "pre_allocated_memory w' = pre_allocated_memory ?w" "page_account w'"
      "\<forall>j. j \<noteq> k \<longrightarrow> held_pages w' j = held_pages ?w j"
      "\<forall>X. held_pages ?w k = X + mset (map (\<lambda>j. offset + OSK_CPU_PAGE_SIZE + of_nat j * 4096) [0..<n]) \<longrightarrow> held_pages w' k = X"
      by blast
    have "held_pages w' k = X" if "held_pages w k = X + mset (map (\<lambda>j. offset + of_nat j * 4096) [0..<Suc n])" for X
      using w'(7) that unfolding hk(1) offs by simp
    then show ?thesis using w' i s Some y f hk(2) proc_frame_trans[of w' ?w w]
      by (simp add: unmap_pages.simps[of k offset sz] del: upt_Suc)
  qed
qed

lemma mapregion_unmap_ok:
  assumes "proc_inv P w" "d \<in># P" "4096 dvd unat sz" "unat offset + unat sz \<le> unat (alloc_size d)"
  shows "\<exists>w'. mali_osk_mem_mapregion_unmap d offset sz flags w = Some w' \<and> proc_frame w' w \<and> proc_inv P w' \<and>
    (flags = 0 \<longrightarrow> held_pages w' = held_pages w) \<and>
    (\<forall>f. flags = FLAG_OS_ALLOCATED_PHYSADDR \<longrightarrow>
      held_pages w = (\<lambda>k. f k + (if k = process_addr_mapping_info d
        then mset (map (\<lambda>j. offset + of_nat j * 4096) [0..<unat sz div 4096]) else {#})) \<longrightarrow> held_pages w' = f)"
proof -
  let ?k = "process_addr_mapping_info d" and ?os = "mset (map (\<lambda>j. offset + of_nat j * 4096) [0..<unat sz div 4096])"
  have "unat (alloc_size d - offset) = unat (alloc_size d) - unat offset" using assms(4) by (simp add: unat_sub word_le_nat_alt)
  then have room: "\<not> alloc_size d - offset < sz" using assms(4) by (simp add: word_less_nat_alt)
  have "infos w ?k \<noteq> None" using proc_inv_info[OF assms(1,2)] by auto
  moreover have "unat sz = unat sz div 4096 * 4096" using assms(3) by simp
  moreover have "finite (dom (infos w))" "page_account w" using assms(1) by (simp_all add: proc_inv_def)
  ultimately obtain w' where w': "unmap_pages ?k offset sz w = Some w'" "proc_frame w' w"
    "dom (infos w') = dom (infos w)" "pre_allocated_memory w' = pre_allocated_memory w" "page_account w'"
    "\<forall>j. j \<noteq> ?k \<longrightarrow> held_pages w' j = held_pages w j" "\<forall>X. held_pages w ?k = X + ?os \<longrightarrow> held_pages w' ?k = X"
    using unmap_pages_ok by blast
  show ?thesis
  proof (cases "mapping d = 0")
    case True
    have "held_pages w = f" if "held_pages w = (\<lambda>k. f k + (if k = ?k then ?os else {#}))" for f
    proof -
      have "held_pages w ?k = {#}" using assms(1,2) True by (simp add: proc_inv_def)
      then have "?os = {#}" using fun_cong[OF that, of ?k] by simp
      then show ?thesis using that by (simp add: fun_eq_iff)
    qed
    then show ?thesis using True assms(1) by (simp add: mali_osk_mem_mapregion_unmap_def)
  next
    case False
    have "held_pages w' (process_addr_mapping_info d') = {#}" if d': "d' \<in># P" "mapping d' = 0" for d'
    proof -
      have "process_addr_mapping_info d' \<noteq> ?k" using proc_inv_key[OF assms(1,2) d'(1)] False d'(2) by auto
      then show ?thesis using w'(6) assms(1) d' by (simp add: proc_inv_def)
    qed
    then have "proc_inv P w'" using assms(1) w'(3-5) by (simp add: proc_inv_def)
    moreover have "held_pages w' = f" if "held_pages w = (\<lambda>k. f k + (if k = ?k then ?os else {#}))" for f
    proof (rule ext)
      fix j show "held_pages w' j = f j" using w'(6,7) fun_cong[OF that, of j] by (cases "j = ?k") simp_all
    qed
    moreover have "flags AND FLAG_OS_ALLOCATED_PHYSADDR = 0 \<Longrightarrow> flags \<noteq> FLAG_OS_ALLOCATED_PHYSADDR"
      by (auto simp: FLAG_OS_ALLOCATED_PHYSADDR_def)
    moreover have "flags AND FLAG_OS_ALLOCATED_PHYSADDR \<noteq> 0 \<Longrightarrow> flags \<noteq> 0" by auto
    ultimately show ?thesis using False room w'(1,2) assms(1)
      by (cases "flags AND FLAG_OS_ALLOCATED_PHYSADDR = 0") (simp_all add: mali_osk_mem_mapregion_unmap_def)
  qed
qed

end
