(* ===== verification/Memory_System.thy ===== *)
theory Memory_System
  imports Process_Address
begin

text \<open>
  The memory system as it is put together by common/mali\_kernel\_mem\_mmu.c: the engine with the Mali and
  the process address managers and the physical allocators.  Both meet the contracts of the engine and
  of the allocators' loops, so that the lemmas of those hold of this system.
\<close>

definition mali_allocation_engine_create ::
  "os_mem mali_kernel_mem_address_manager \<Rightarrow> os_mem mali_kernel_mem_address_manager \<Rightarrow> bool \<Rightarrow> os_mem memory_engine option" where
  "mali_allocation_engine_create mali process memory =
     (if memory then Some \<lparr>eng_mali_address = mali, eng_process_address = process\<rparr> else None)"

definition mali_engine :: "os_mem os_env \<Rightarrow> allocator_id list \<Rightarrow> os_mem memory_engine" where
  "mali_engine env allocators =
     \<lparr>eng_mali_address = mali_address_manager env allocators, eng_process_address = process_address_manager env\<rparr>"

lemma mali_engine_simps [simp]:
  "eng_mali_address (mali_engine env as) = mali_address_manager env as"
  "eng_process_address (mali_engine env as) = process_address_manager env"
  "am_allocate (mali_address_manager env as) = mali_address_manager_allocate env as"
  "am_release (mali_address_manager env as) = mali_address_manager_release env"
  "am_map_physical (mali_address_manager env as) = mali_address_manager_map"
  "am_unmap_physical (mali_address_manager env as) = None"
  "am_allocate (process_address_manager env) = mali_osk_mem_mapregion_init env"
  "am_release (process_address_manager env) = mali_osk_mem_mapregion_term"
  "am_map_physical (process_address_manager env) = mali_osk_mem_mapregion_map env"
  "am_unmap_physical (process_address_manager env) = Some mali_osk_mem_mapregion_unmap"
  by (simp_all add: mali_engine_def mali_address_manager_def process_address_manager_def)

subsection \<open>The invariant\<close>

definition valid_range :: "nat set \<Rightarrow> mali_memory_allocation \<Rightarrow> bool" where
  "valid_range L d \<longleftrightarrow> mali_addr_mapping_info d \<in> L \<and> mali_range d \<and> last_pde_reserved d = last_pde_released d"

definition memory_ok ::
  "os_mem os_env \<Rightarrow> nat set \<Rightarrow> u32 set \<Rightarrow> mali_memory_allocation multiset \<Rightarrow> mali_memory_allocation multiset
     \<Rightarrow> phys_handle multiset \<Rightarrow> os_mem \<Rightarrow> bool" where
  "memory_ok env L F M P H w \<longleftrightarrow> proc_env env \<and> pages_ok env L F (mali_count M) H w \<and> proc_inv P w \<and>
     held_inv (held_pages w) H"

definition map_state ::
  "os_mem os_env \<Rightarrow> nat set \<Rightarrow> u32 set \<Rightarrow> mali_memory_allocation multiset \<Rightarrow> mali_memory_allocation multiset
     \<Rightarrow> u32 set \<Rightarrow> table_allocation list \<Rightarrow> table_allocation list \<Rightarrow> os_mem \<Rightarrow> bool" where
  "map_state env L F M P U pp pf w \<longleftrightarrow> proc_env env \<and> pd_inv L F (mali_count M) U w \<and> proc_inv P w \<and>
     pt_partial w = pp \<and> pt_full w = pf"

definition mappable :: "nat set \<Rightarrow> mali_memory_allocation multiset \<Rightarrow> mali_memory_allocation multiset \<Rightarrow> mali_memory_allocation \<Rightarrow> bool" where
  "mappable L M P d \<longleftrightarrow> valid_range L d \<and> d \<in># M \<and> (into_userspace d \<longrightarrow> d \<in># P)"

definition unmappable :: "mali_memory_allocation multiset \<Rightarrow> mali_memory_allocation \<Rightarrow> bool" where
  "unmappable P d \<longleftrightarrow> (into_userspace d \<longrightarrow> d \<in># P)"

lemma more_fields:
  "mmu_state.more w' = mmu_state.more (w :: os_mem) \<Longrightarrow> infos w' = infos w \<and> pre_allocated_memory w' = pre_allocated_memory w \<and>
     kernel_pages w' = kernel_pages w"
  by (cases w; cases w') simp

lemma proc_inv_frame:
  "proc_inv P w \<Longrightarrow> infos w' = infos w \<Longrightarrow> pre_allocated_memory w' = pre_allocated_memory w \<Longrightarrow>
     kernel_pages w' = kernel_pages w \<Longrightarrow> proc_inv P w'"
  using infos_only[of w' w] by (simp add: proc_inv_def page_account_def)

lemma proc_inv_more: "proc_inv P w \<Longrightarrow> mmu_state.more w' = mmu_state.more (w :: os_mem) \<Longrightarrow> proc_inv P w'"
  using more_fields[of w' w] by (intro proc_inv_frame[of P w w']) auto

lemma held_more: "mmu_state.more w' = mmu_state.more (w :: os_mem) \<Longrightarrow> held_pages w' = held_pages w"
  using more_fields[of w' w] infos_only(2)[of w' w] by auto

lemma pd_inv_proc: "pd_inv L F C U w \<Longrightarrow> proc_frame w' w \<Longrightarrow> pd_inv L F C U w'"
  using proc_frame_fields[of w' w] by (intro pd_inv_mem[of L F C U w w']) auto

lemma pages_ok_proc: "pages_ok env L F C H w \<Longrightarrow> proc_frame w' w \<Longrightarrow> pages_ok env L F C H w'"
  using proc_frame_fields[of w' w] mem_inv_frame[of env H _ w w'] pd_inv_proc unfolding pages_ok_def by blast

lemma map_state_proc: "map_state env L F M P U pp pf w \<Longrightarrow> proc_frame w' w \<Longrightarrow> proc_inv P w' \<Longrightarrow> map_state env L F M P U pp pf w'"
  using proc_frame_fields[of w' w] pd_inv_proc[of L F "mali_count M" U w w'] by (simp add: map_state_def)

subsection \<open>Mapping\<close>

lemma magic_not_paged: "4096 dvd unat x \<Longrightarrow> x \<noteq> OS_ALLOCATED_PHYSADDR_MAGIC"
  by (auto simp: OS_ALLOCATED_PHYSADDR_MAGIC_def unsigned_minus_1_eq_mask mask_eq_exp_minus_1)

lemma engine_map_ok:
  assumes "map_state env L F M P U pp pf w" "mappable L M P d" "page_range d offset sz"
  shows "\<exists>err w'. mali_allocation_engine_map_physical (mali_engine env as) d offset phys adjust sz w = Some (err, w') \<and>
    map_state env L F M P U pp pf w' \<and> blk w' = blk w \<and> osa w' = osa w \<and>
    (4096 dvd unat phys \<longrightarrow> 4096 dvd unat adjust \<longrightarrow> held_pages w' = held_pages w) \<and>
    (phys = OS_ALLOCATED_PHYSADDR_MAGIC \<longrightarrow> sz = OSK_CPU_PAGE_SIZE \<longrightarrow>
      held_pages w' = (\<lambda>k. held_pages w k + (if err = ERR_OK then page_offsets d offset 1 k else {#})))"
proof -
  let ?h = "\<lambda>w' err k. held_pages w k + (if (phys = OS_ALLOCATED_PHYSADDR_MAGIC \<or> phys + adjust = OS_ALLOCATED_PHYSADDR_MAGIC) \<and>
      err = ERR_OK \<and> into_userspace d \<and> k = process_addr_mapping_info d then {#offset#} else {#})"
  have p: "proc_env env" "proc_inv P w" using assms(1) by (simp_all add: map_state_def)
  have d: "d \<in># M" "mali_addr_mapping_info d \<in> L" "mali_range d" using assms(2) by (simp_all add: mappable_def valid_range_def)
  obtain err phys1 w1 where 1: "engine_map_process (mali_engine env as) d offset phys adjust sz w = Some (err, phys1, w1)"
    "proc_frame w1 w" "proc_inv P w1" "phys = OS_ALLOCATED_PHYSADDR_MAGIC \<or> 4096 dvd unat phys \<and> 4096 dvd unat adjust \<Longrightarrow>
      held_pages w1 = ?h w1 err"
  proof (cases "into_userspace d")
    case True
    then have "d \<in># P" using assms(2) by (simp add: mappable_def)
    note m = mapregion_map_ok[OF p(2,1) this, of offset _ sz]
    obtain e ph w1 where a: "mali_osk_mem_mapregion_map env d offset phys sz w = Some (e, ph, w1)" "proc_frame w1 w" "proc_inv P w1"
      "held_pages w1 = (\<lambda>k. held_pages w k +
        (if phys = OS_ALLOCATED_PHYSADDR_MAGIC \<and> e = ERR_OK \<and> k = process_addr_mapping_info d then {#offset#} else {#}))"
      using m by blast
    obtain e' ph' w1' where b: "mali_osk_mem_mapregion_map env d offset (phys + adjust) sz w = Some (e', ph', w1')"
      "proc_frame w1' w" "proc_inv P w1'"
      "held_pages w1' = (\<lambda>k. held_pages w k +
        (if phys + adjust = OS_ALLOCATED_PHYSADDR_MAGIC \<and> e' = ERR_OK \<and> k = process_addr_mapping_info d then {#offset#} else {#}))"
      using m by blast
    show ?thesis
    proof (cases "phys = OS_ALLOCATED_PHYSADDR_MAGIC")
      case magic: True
      show ?thesis by (rule that[of e "ph - adjust" w1]) (use a True magic in \<open>simp_all add: engine_map_process_def\<close>)
    next
      case False
      show ?thesis by (rule that[of e' phys w1']) (use b True False in \<open>simp_all add: engine_map_process_def\<close>)
    qed
  qed (use that[of ERR_OK phys w] p in \<open>simp add: engine_map_process_def\<close>)
  have held: "4096 dvd unat phys \<longrightarrow> 4096 dvd unat adjust \<longrightarrow> held_pages w1 = held_pages w"
    "phys = OS_ALLOCATED_PHYSADDR_MAGIC \<longrightarrow>
      held_pages w1 = (\<lambda>k. held_pages w k + (if err = ERR_OK then page_offsets d offset 1 k else {#}))"
    using 1(4) magic_not_paged[of phys] magic_not_paged[OF paged_add[of phys adjust]] by (auto simp: page_offsets_def fun_eq_iff)
  note s1 = map_state_proc[OF assms(1) 1(2,3)]
  have f1: "blk w1 = blk w" "osa w1 = osa w" using proc_frame_fields[OF 1(2)] by simp_all
  show ?thesis
  proof (cases "err = ERR_OK")
    case False
    then show ?thesis using 1(1) s1 f1 held by (simp add: mali_allocation_engine_map_physical_def)
  next
    case True
    have "pd_inv L F (mali_count M) U w1" using s1 by (simp add: map_state_def)
    from mali_address_manager_map_ok[OF this d assms(3), of phys1] obtain m where
      2: "mali_address_manager_map d offset phys1 sz w1 = Some (ERR_OK, phys1, w1\<lparr>phys_mem := m\<rparr>)"
      "pd_inv L F (mali_count M) U (w1\<lparr>phys_mem := m\<rparr>)" by blast
    have "proc_inv P (w1\<lparr>phys_mem := m\<rparr>)" by (rule proc_inv_frame[OF 1(3)]) simp_all
    then have "map_state env L F M P U pp pf (w1\<lparr>phys_mem := m\<rparr>)" using s1 2(2) by (simp add: map_state_def)
    moreover have "held_pages (w1\<lparr>phys_mem := m\<rparr>) = held_pages w1" by (rule infos_only(2)) simp
    ultimately show ?thesis using 1(1) 2(1) True f1 held by (simp add: mali_allocation_engine_map_physical_def Let_def)
  qed
qed

lemma engine_unmap_ok:
  assumes "map_state env L F M P U pp pf w" "unmappable P d" "page_range d offset sz"
  shows "\<exists>w'. mali_allocation_engine_unmap_physical (mali_engine env as) d offset sz flags w = Some w' \<and>
    map_state env L F M P U pp pf w' \<and> blk w' = blk w \<and> osa w' = osa w \<and> (flags = 0 \<longrightarrow> held_pages w' = held_pages w) \<and>
    (\<forall>f. flags = FLAG_OS_ALLOCATED_PHYSADDR \<longrightarrow>
      held_pages w = (\<lambda>k. f k + page_offsets d offset (unat sz div 4096) k) \<longrightarrow> held_pages w' = f)"
proof (cases "into_userspace d")
  case True
  have p: "proc_inv P w" "d \<in># P" "4096 dvd unat sz" "unat offset + unat sz \<le> unat (alloc_size d)"
    using assms True by (simp_all add: map_state_def unmappable_def page_range_def)
  have o: "page_offsets d offset (unat sz div 4096) = (\<lambda>k. if k = process_addr_mapping_info d
      then mset (map (\<lambda>j. offset + of_nat j * 4096) [0..<unat sz div 4096]) else {#})"
    using True by (simp add: page_offsets_def fun_eq_iff)
  obtain w' where "mali_osk_mem_mapregion_unmap d offset sz flags w = Some w'" "proc_frame w' w" "proc_inv P w'"
    "flags = 0 \<longrightarrow> held_pages w' = held_pages w" "\<forall>f. flags = FLAG_OS_ALLOCATED_PHYSADDR \<longrightarrow>
      held_pages w = (\<lambda>k. f k + page_offsets d offset (unat sz div 4096) k) \<longrightarrow> held_pages w' = f"
    using mapregion_unmap_ok[OF p, of flags] unfolding o by blast
  then show ?thesis using True map_state_proc[OF assms(1)] proc_frame_fields[of w' w]
    by (simp add: mali_allocation_engine_unmap_physical_def call_unmap_def)
next
  case False
  then have "page_offsets d offset n = (\<lambda>_. {#})" for n by (simp add: page_offsets_def fun_eq_iff)
  then show ?thesis using False assms(1) by (simp add: mali_allocation_engine_unmap_physical_def)
qed

lemma map_state_alloc:
  "map_state env L F M P U pp pf (set_blk i a w) = map_state env L F M P U pp pf w"
  "map_state env L F M P U pp pf (set_osa i b w) = map_state env L F M P U pp pf w"
proof -
  have eq: "map_state env L F M P U pp pf w' = map_state env L F M P U pp pf w"
    if "msessions w' = msessions w" "phys_mem w' = phys_mem w" "infos w' = infos w" "pt_partial w' = pt_partial w"
      "pt_full w' = pt_full w" "pre_allocated_memory w' = pre_allocated_memory w" "kernel_pages w' = kernel_pages w" for w' w :: os_mem
    using that pd_inv_mem[of L F "mali_count M" U w w'] pd_inv_mem[of L F "mali_count M" U w' w]
      proc_inv_frame[of P w w'] proc_inv_frame[of P w' w]
    unfolding map_state_def by auto
  show "map_state env L F M P U pp pf (set_blk i a w) = map_state env L F M P U pp pf w"
    "map_state env L F M P U pp pf (set_osa i b w) = map_state env L F M P U pp pf w"
    by (rule eq; simp add: set_blk_def set_osa_def)+
qed

interpretation mapping: engine_mapping "mali_engine env as" "map_state env L F M P U pp pf" "mappable L M P" "unmappable P" held_pages
  for env "as" L F M P U pp pf
proof
  show "\<exists>err w'. mali_allocation_engine_map_physical (mali_engine env as) d offset phys adjust sz w = Some (err, w') \<and>
      map_state env L F M P U pp pf w' \<and> blk w' = blk w \<and> osa w' = osa w \<and>
      (4096 dvd unat phys \<longrightarrow> 4096 dvd unat adjust \<longrightarrow> held_pages w' = held_pages w) \<and>
      (phys = OS_ALLOCATED_PHYSADDR_MAGIC \<longrightarrow> sz = OSK_CPU_PAGE_SIZE \<longrightarrow>
        held_pages w' = (\<lambda>k. held_pages w k + (if err = ERR_OK then page_offsets d offset 1 k else {#})))"
    if "map_state env L F M P U pp pf w" "mappable L M P d" "page_range d offset sz" for w d offset sz phys adjust
    using that by (rule engine_map_ok)
  show "\<exists>w'. mali_allocation_engine_unmap_physical (mali_engine env as) d offset sz flags w = Some w' \<and>
      map_state env L F M P U pp pf w' \<and> blk w' = blk w \<and> osa w' = osa w \<and> (flags = 0 \<longrightarrow> held_pages w' = held_pages w) \<and>
      (\<forall>f. flags = FLAG_OS_ALLOCATED_PHYSADDR \<longrightarrow>
        held_pages w = (\<lambda>k. f k + page_offsets d offset (unat sz div 4096) k) \<longrightarrow> held_pages w' = f)"
    if "map_state env L F M P U pp pf w" "unmappable P d" "page_range d offset sz" for w d offset sz flags
    using that by (rule engine_unmap_ok)
  show "unmappable P d" if "mappable L M P d" for d
    using that by (simp add: mappable_def unmappable_def)
  show "held_pages (set_blk i a w) = held_pages w" for i a and w :: os_mem by (rule infos_only(2)) (simp add: set_blk_def)
  show "held_pages (set_osa i b w) = held_pages w" for i b and w :: os_mem by (rule infos_only(2)) (simp add: set_osa_def)
qed (rule map_state_alloc)+

subsection \<open>The parts of the engine\<close>

lemma mali_allocate_law:
  assumes "memory_ok env L F M P H w" "valid_range L d" "size M < 2 ^ 32 - 1"
  shows "\<exists>err d' w'. mali_address_manager_allocate env as d w = Some (err, d', w') \<and>
      valid_range L d' \<and> same_range d' d \<and>
      memory_ok env L F (if err = ERR_OK then add_mset d' M else M) P H w'"
proof -
  have i: "proc_env env" "pages_ok env L F (mali_count M) H w" "proc_inv P w" "held_inv (held_pages w) H"
    using assms(1) by (simp_all add: memory_ok_def)
  have v: "mali_addr_mapping_info d \<in> L" "last_pde_reserved d = last_pde_released d" "size M + 1 < 2 ^ 32"
    using assms(2,3) by (simp_all add: valid_range_def)
  obtain err w' where r: "mali_address_manager_allocate env as d w = Some (err, d, w')" "mmu_state.more w' = mmu_state.more w"
    "if err = ERR_OK then pages_ok env L F (mali_count (add_mset d M)) H w'
     else err = ERR_NOMEM \<and> pages_ok env L F (mali_count M) H w'"
    using mali_address_manager_allocate_ok[OF i(2) v] by blast
  have "memory_ok env L F (if err = ERR_OK then add_mset d M else M) P H w'"
    using r(3) i(1,4) proc_inv_more[OF i(3) r(2)] held_more[OF r(2)] by (simp add: memory_ok_def split: if_splits)
  then show ?thesis using r(1) assms(2) same_range_refl by blast
qed

lemma mali_count_same:
  "mali_addr_mapping_info d' = mali_addr_mapping_info d \<Longrightarrow> pde_range d' = pde_range d \<Longrightarrow>
     mali_count (add_mset d' M) = mali_count (add_mset d M)"
  by (simp add: mali_count_add)

lemma process_allocate_law:
  assumes "memory_ok env L F (add_mset d M) P H w" "valid_range L d" "into_userspace d"
  shows "\<exists>err d' w'. mali_osk_mem_mapregion_init env d w = Some (err, d', w') \<and>
      valid_range L d' \<and> same_range d' d \<and>
      memory_ok env L F (add_mset d' M) (if err = ERR_OK then add_mset d' P else P) H w'"
proof -
  have i: "proc_env env" "pages_ok env L F (mali_count (add_mset d M)) H w" "proc_inv P w" "held_inv (held_pages w) H"
    using assms(1) by (simp_all add: memory_ok_def)
  obtain err d' w' where r: "mali_osk_mem_mapregion_init env d w = Some (err, d', w')" "proc_frame w' w"
    "held_pages w' = held_pages w"
    "if err = ERR_OK then d' = d\<lparr>process_addr_mapping_info := process_addr_mapping_info d', mapping := mapping d'\<rparr> \<and>
       proc_inv (add_mset d' P) w' else d' = d \<and> w' = w"
    using mapregion_init_ok[OF i(3,1)] by blast
  obtain k m where d': "d' = d\<lparr>process_addr_mapping_info := k, mapping := m\<rparr>"
  proof (cases "err = ERR_OK")
    case False
    then show ?thesis using r(4) that[of "mapping d" "process_addr_mapping_info d"] by simp
  qed (use r(4) that in auto)
  have same: "mali_count (add_mset d' M) = mali_count (add_mset d M)"
    by (rule mali_count_same) (simp_all add: d' pde_range_def first_pde_def last_pde_released_def)
  have v: "valid_range L d'" "same_range d' d"
    using assms(2) by (auto simp: d' same_range_def valid_range_def mali_range_def last_pde_reserved_def last_pde_released_def)
  have "pages_ok env L F (mali_count (add_mset d' M)) H w'" using pages_ok_proc[OF i(2) r(2)] same by simp
  then have "memory_ok env L F (add_mset d' M) (if err = ERR_OK then add_mset d' P else P) H w'"
    using r(3,4) i(1,3,4) by (simp add: memory_ok_def split: if_splits)
  then show ?thesis using r(1) v by blast
qed

lemma mali_release_law:
  assumes "memory_ok env L F (add_mset d M) P H w" "valid_range L d"
  shows "\<exists>w'. mali_address_manager_release env d w = Some w' \<and> memory_ok env L F M P H w'"
proof -
  have i: "proc_env env" "pages_ok env L F (mali_count (add_mset d M)) H w" "proc_inv P w" "held_inv (held_pages w) H"
    using assms(1) by (simp_all add: memory_ok_def)
  have "mali_addr_mapping_info d \<in> L" using assms(2) by (simp add: valid_range_def)
  then obtain w' where r: "mali_address_manager_release env d w = Some w'" "mmu_state.more w' = mmu_state.more w"
    "pages_ok env L F (mali_count M) H w'" using mali_address_manager_release_ok[OF i(2)] by blast
  then show ?thesis using i(1,4) proc_inv_more[OF i(3) r(2)] held_more[OF r(2)] by (simp add: memory_ok_def)
qed

lemma no_pages_held:
  assumes "proc_inv (add_mset d P) w" "held_inv (held_pages w) H"
    "\<forall>h \<in># H. into_userspace (handle_descriptor h) \<longrightarrow> handle_descriptor h \<in># P"
  shows "held_pages w (process_addr_mapping_info d) = {#}"
proof -
  let ?k = "process_addr_mapping_info d"
  have key: "process_addr_mapping_info d' \<noteq> ?k" if d': "d' \<in># P" for d'
  proof
    assume e: "process_addr_mapping_info d' = ?k"
    obtain R where "P = add_mset d' R" using d' by (metis mset_add)
    then have "count (image_mset process_addr_mapping_info (add_mset d P)) ?k \<ge> 2" using e by simp
    moreover have "count (mset_set (dom (infos w))) ?k \<le> 1"
      using assms(1) by (cases "?k \<in> dom (infos w)") (simp_all add: proc_inv_def)
    moreover have "count (image_mset process_addr_mapping_info (add_mset d P)) ?k = count (mset_set (dom (infos w))) ?k"
      using assms(1) by (simp only: proc_inv_def)
    ultimately show False by linarith
  qed
  have "handle_offsets ?k h = {#}" if "h \<in># H" for h
    using assms(3) that key by (cases h) (fastforce simp: page_offsets_def)+
  then have "(\<Sum>h \<in># H. handle_offsets ?k h) = (\<Sum>h \<in># H. {#})" by (intro arg_cong[where f = sum_mset] image_mset_cong)
  moreover have "held_pages w ?k = (\<Sum>h \<in># H. handle_offsets ?k h)" using assms(2) by (simp add: held_inv_def)
  ultimately show ?thesis by simp
qed

lemma process_release_law:
  assumes "memory_ok env L F M (add_mset d P) H w"
    "\<forall>h \<in># H. into_userspace (handle_descriptor h) \<longrightarrow> handle_descriptor h \<in># P"
  shows "\<exists>w'. mali_osk_mem_mapregion_term d w = Some w' \<and> memory_ok env L F M P H w'"
proof -
  have i: "proc_env env" "pages_ok env L F (mali_count M) H w" "proc_inv (add_mset d P) w"
    "held_inv (held_pages w) H"
    using assms(1) by (simp_all add: memory_ok_def)
  obtain w' where r: "mali_osk_mem_mapregion_term d w = Some w'" "proc_frame w' w" "proc_inv P w'" "held_pages w' = held_pages w"
    using mapregion_term_ok[OF i(3) no_pages_held[OF i(3,4) assms(2)]] by blast
  then show ?thesis using i(1,4) pages_ok_proc[OF i(2) r(2)] by (simp add: memory_ok_def)
qed

text \<open>The parts of the invariant that mapping works with, and back.\<close>

lemma memory_ok_open:
  assumes "memory_ok env L F M P H w"
  obtains U where "map_state env L F M P U (pt_partial w) (pt_full w) w" "env_ok env" "regions_ok w"
    "alloc_inv H (table_releases w) w" "cache_inv U w" "held_inv (held_pages w) H"
  using assms unfolding memory_ok_def map_state_def pages_ok_def mem_inv_def by auto

lemma memory_ok_close:
  assumes "map_state env L F M P U (pt_partial w) (pt_full w) w'" "env_ok env" "regions_ok w" "cache_inv U w"
    "alloc_inv H (table_releases w) w'" "same_regions w' w" "held_inv (held_pages w') H"
  shows "memory_ok env L F M P H w'"
proof -
  have t: "pt_partial w' = pt_partial w" "pt_full w' = pt_full w" using assms(1) by (simp_all add: map_state_def)
  then have t': "tables w' = tables w" "table_releases w' = table_releases w" by (simp_all add: tables_def table_releases_def)
  have "cache_inv U w'" using assms(4) t t' placed_same[OF assms(6)] by (simp add: cache_inv_def)
  moreover have "regions_ok w'" using same_regions_ok[OF assms(6)] assms(3) by simp
  ultimately have "mem_inv env H U w'" using assms(2,5) t' by (simp add: mem_inv_def)
  then show ?thesis using assms(1,7) unfolding memory_ok_def map_state_def pages_ok_def by blast
qed

lemma physical_allocate_law:
  assumes "memory_ok env L F M P H w" "valid_range L d" "d \<in># M" "into_userspace d \<longrightarrow> d \<in># P"
    "4096 dvd unat offset" "offset < alloc_size d"
  shows "\<exists>result t offset' w'. physical_allocate env (mali_engine env as) a d offset w = Some (result, t, offset', w') \<and>
    (if result \<in> {MALI_MEM_ALLOC_FINISHED, MALI_MEM_ALLOC_PARTIAL} then
       \<exists>h. t = Some h \<and> handle_descriptor h = d \<and> handle_start h = offset \<and> offset' = offset + handle_length h \<and>
         4096 dvd unat offset' \<and>
         (if result = MALI_MEM_ALLOC_FINISHED then offset' = alloc_size d else offset' < alloc_size d) \<and>
         memory_ok env L F M P (add_mset h H) w'
     else t = None \<and> (result = MALI_MEM_ALLOC_NONE \<longrightarrow> offset' = offset) \<and> memory_ok env L F M P H w')"
proof -
  obtain U where o: "map_state env L F M P U (pt_partial w) (pt_full w) w" "env_ok env" "regions_ok w"
    "alloc_inv H (table_releases w) w" "cache_inv U w" "held_inv (held_pages w) H"
    by (rule memory_ok_open[OF assms(1)])
  have pr: "\<And>i. paged_region (blk w i)" using o(3) by (simp add: regions_ok_def)
  have m: "mappable L M P d" using assms(2-4) by (simp add: mappable_def)
  have sz: "4096 dvd unat (alloc_size d)" using assms(2) by (simp add: valid_range_def mali_range_def)
  obtain result t offset' w' where r: "physical_allocate env (mali_engine env as) a d offset w = Some (result, t, offset', w')"
    "map_state env L F M P U (pt_partial w) (pt_full w) w'" "same_regions w' w"
    "if result \<in> {MALI_MEM_ALLOC_FINISHED, MALI_MEM_ALLOC_PARTIAL} then
       \<exists>h. t = Some h \<and> handle_descriptor h = d \<and> handle_start h = offset \<and>
         offset' = offset + handle_length h \<and> 4096 dvd unat offset' \<and>
         (if result = MALI_MEM_ALLOC_FINISHED then offset' = alloc_size d else offset' < alloc_size d) \<and>
         alloc_inv (add_mset h H) (table_releases w) w' \<and> held_inv (held_pages w') (add_mset h H)
     else t = None \<and> (result = MALI_MEM_ALLOC_NONE \<longrightarrow> offset' = offset) \<and> alloc_inv H (table_releases w) w' \<and>
       held_inv (held_pages w') H"
    using mapping.physical_allocate_inv[OF o(1) m o(4) assms(5) sz assms(6) pr o(6), of env "as" a] by (elim exE conjE) (rule that)
  note c = memory_ok_close[OF r(2) o(2,3,5) _ r(3)]
  show ?thesis
  proof (cases "result \<in> {MALI_MEM_ALLOC_FINISHED, MALI_MEM_ALLOC_PARTIAL}")
    case True
    then show ?thesis using r(1,4) c by auto
  next
    case False
    then show ?thesis using r(1,4) c by auto
  qed
qed

lemma physical_release_law:
  assumes "memory_ok env L F M P (add_mset h H) w" "into_userspace (handle_descriptor h) \<longrightarrow> handle_descriptor h \<in># P"
  shows "\<exists>w'. physical_release env (mali_engine env as) h w = Some w' \<and> memory_ok env L F M P H w'"
proof -
  obtain U where o: "map_state env L F M P U (pt_partial w) (pt_full w) w" "env_ok env" "regions_ok w"
    "alloc_inv (add_mset h H) (table_releases w) w" "cache_inv U w" "held_inv (held_pages w) (add_mset h H)"
    by (rule memory_ok_open[OF assms(1)])
  have u: "unmappable P (handle_descriptor h)" using assms(2) by (simp add: unmappable_def)
  have l: "\<not> lock_interrupted env w" using o(2) by (simp add: env_ok_def)
  obtain w' where r: "physical_release env (mali_engine env as) h w = Some w'"
    "map_state env L F M P U (pt_partial w) (pt_full w) w'" "same_regions w' w" "alloc_inv H (table_releases w) w'"
    "held_inv (held_pages w') H"
    using mapping.physical_release_inv[OF o(1) u o(4) l o(6)] by blast
  then show ?thesis using memory_ok_close[OF r(2) o(2,3,5) r(4,3,5)] by blast
qed

interpretation memory: memory_parts "mali_engine env as" "physical_allocators env (mali_engine env as)" "valid_range L"
    handle_descriptor handle_start handle_length "memory_ok env L F"
  for env "as" L F
proof
  fix M P H w d
  show "\<exists>err d' w'. am_allocate (eng_mali_address (mali_engine env as)) d w = Some (err, d', w') \<and>
      valid_range L d' \<and> same_range d' d \<and>
      memory_ok env L F (if err = ERR_OK then add_mset d' M else M) P H w'"
    if "memory_ok env L F M P H w" "valid_range L d" "size M < 2 ^ 32 - 1"
    using mali_allocate_law[OF that] by simp
  show "\<exists>err d' w'. am_allocate (eng_process_address (mali_engine env as)) d w = Some (err, d', w') \<and>
      valid_range L d' \<and> same_range d' d \<and>
      memory_ok env L F (add_mset d' M) (if err = ERR_OK then add_mset d' P else P) H w'"
    if "memory_ok env L F (add_mset d M) P H w" "valid_range L d" "into_userspace d"
    using process_allocate_law[OF that] by simp
  show "\<exists>w'. am_release (eng_mali_address (mali_engine env as)) d w = Some w' \<and> memory_ok env L F M P H w'"
    if "memory_ok env L F (add_mset d M) P H w" "valid_range L d"
    using mali_release_law[OF that] by simp
  show "\<exists>w'. am_release (eng_process_address (mali_engine env as)) d w = Some w' \<and> memory_ok env L F M P H w'"
    if "memory_ok env L F M (add_mset d P) H w" "valid_range L d"
      "\<forall>h \<in># H. into_userspace (handle_descriptor h) \<longrightarrow> handle_descriptor h \<in># P"
    using process_release_law[OF that(1,3)] by simp
next
  fix M P H w d and offset :: u32 and a
  show "\<exists>result t offset' w'.
        pa_allocate (physical_allocators env (mali_engine env as)) a d offset w = Some (result, t, offset', w') \<and>
        (if result \<in> {MALI_MEM_ALLOC_FINISHED, MALI_MEM_ALLOC_PARTIAL} then
           \<exists>h. t = Some h \<and> handle_descriptor h = d \<and> handle_start h = offset \<and> offset' = offset + handle_length h \<and>
             4096 dvd unat offset' \<and>
             (if result = MALI_MEM_ALLOC_FINISHED then offset' = alloc_size d else offset' < alloc_size d) \<and>
             memory_ok env L F M P (add_mset h H) w'
         else t = None \<and> (result = MALI_MEM_ALLOC_NONE \<longrightarrow> offset' = offset) \<and> memory_ok env L F M P H w')"
    if "memory_ok env L F M P H w" "valid_range L d" "d \<in># M" "into_userspace d \<longrightarrow> d \<in># P"
      "4096 dvd unat offset" "offset < alloc_size d"
    using physical_allocate_law[OF that, of "as" a] by (simp only: physical_allocators_def mali_physical_memory_allocator.simps)
next
  fix M P h H w
  show "\<exists>w'. pa_release (physical_allocators env (mali_engine env as)) h w = Some w' \<and> memory_ok env L F M P H w'"
    if "memory_ok env L F M P (add_mset h H) w" "into_userspace (handle_descriptor h) \<longrightarrow> handle_descriptor h \<in># P"
    using physical_release_law[OF that] by (simp only: physical_allocators_def mali_physical_memory_allocator.simps)
qed

end
