(* ===== verification/Memory_Session.thy ===== *)
theory Memory_Session
  imports Memory_System
begin

text \<open>
  The operations of common/mali\_kernel\_mem\_mmu.c that the rest of the driver calls: resources, the
  helper pages, sessions, and mapping and unmapping memory for a process.  The build cleans up
  mappings when a process ends (\<open>MALI_UKK_HAS_IMPLICIT_MMAP_CLEANUP\<close>), so the end of a session
  finds none.  The descriptor mapping of a session, which lists external memory only, is the subject of
  another theory; here it is created or not.
\<close>

subsection \<open>Resources\<close>

text \<open>The physical allocators are ordered; the last one registered of those with the same order is the first.\<close>

fun link_allocator :: "u32 \<Rightarrow> 'a \<Rightarrow> (u32 \<times> 'a) list \<Rightarrow> (u32 \<times> 'a) list" where
  "link_allocator order a [] = [(order, a)]"
| "link_allocator order a (x # xs) = (if fst x < order then x # link_allocator order a xs else (order, a) # x # xs)"

definition mali_memory_core_resource_os_memory ::
  "bool \<Rightarrow> nat \<Rightarrow> u32 \<Rightarrow> u32 \<Rightarrow> u32 \<Rightarrow> (u32 \<times> allocator_id) list \<Rightarrow> 'a alloc_state_scheme
     \<Rightarrow> osk_err \<times> (u32 \<times> allocator_id) list \<times> 'a alloc_state_scheme" where
  "mali_memory_core_resource_os_memory memory i sz cpu_usage_adjust order allocators w =
     (case mali_os_allocator_create sz cpu_usage_adjust memory of
        None \<Rightarrow> (ERR_FAULT, allocators, w)
      | Some a \<Rightarrow> (ERR_OK, link_allocator order (Os_allocator i) allocators, set_osa i a w))"

text \<open>
  \<open>region\<close> is the outcome of the request of the memory region, \<open>cleanup\<close> that of the allocation of the
  record for its release, and \<open>module\<close> the base and the size given to the module, all ones for none.
\<close>

definition mali_memory_core_resource_dedicated_memory ::
  "bool \<Rightarrow> bool \<Rightarrow> bool \<Rightarrow> u32 \<times> u32 \<Rightarrow> nat \<Rightarrow> u32 \<Rightarrow> u32 \<Rightarrow> u32 \<Rightarrow> u32 \<Rightarrow> (u32 \<times> allocator_id) list
     \<Rightarrow> 'a alloc_state_scheme \<Rightarrow> osk_err \<times> (u32 \<times> allocator_id) list \<times> 'a alloc_state_scheme" where
  "mali_memory_core_resource_dedicated_memory region memory cleanup module i base sz cpu_usage_adjust order allocators w =
     (let base = (if fst module \<noteq> - 1 then fst module else base);
          sz = (if snd module \<noteq> - 1 then snd module else sz)
      in if \<not> region then (ERR_FAULT, allocators, w)
         else case mali_block_allocator_create base cpu_usage_adjust sz memory of
           None \<Rightarrow> (ERR_FAULT, allocators, w)
         | Some a \<Rightarrow>
             if \<not> cleanup then (ERR_FAULT, allocators, w)
             else (ERR_OK, link_allocator order (Block_allocator i) allocators, set_blk i a w))"

subsection \<open>Helper pages\<close>

text \<open>The empty page directory, and the page, table and directory of the flush after a page fault.\<close>

definition mali_allocate_empty_page_directory ::
  "'a mmu_units_scheme os_env \<Rightarrow> allocator_id list \<Rightarrow> 'a mmu_units_scheme \<Rightarrow> (osk_err \<times> 'a mmu_units_scheme) option" where
  "mali_allocate_empty_page_directory env allocators w = do {
     (err, page, mapping, w) \<leftarrow> mali_mmu_get_table_page env allocators w;
     let w = w\<lparr>mali_empty_page_directory := page\<rparr>;
     if err \<noteq> ERR_OK then Some (err, w)
     else case mapping of None \<Rightarrow> None | Some m \<Rightarrow> Some (ERR_OK, fill_page m 0 w)
   }"

definition mali_free_empty_page_directory :: "'a mmu_units_scheme os_env \<Rightarrow> 'a mmu_units_scheme \<Rightarrow> 'a mmu_units_scheme option" where
  "mali_free_empty_page_directory env w =
     (if mali_empty_page_directory w \<noteq> MALI_INVALID_PAGE then do {
        w \<leftarrow> mali_mmu_release_table_page env (mali_empty_page_directory w) w;
        Some (w\<lparr>mali_empty_page_directory := MALI_INVALID_PAGE\<rparr>)
      } else Some w)"

definition mali_allocate_fault_flush_pages ::
  "'a mmu_units_scheme os_env \<Rightarrow> allocator_id list \<Rightarrow> 'a mmu_units_scheme \<Rightarrow> (osk_err \<times> 'a mmu_units_scheme) option" where
  "mali_allocate_fault_flush_pages env allocators w = do {
     (err, data, data_m, w) \<leftarrow> mali_mmu_get_table_page env allocators w;
     let w = w\<lparr>mali_page_fault_flush_data_page := data\<rparr>;
     if err \<noteq> ERR_OK then Some (err, w)
     else do {
       (err, table, table_m, w) \<leftarrow> mali_mmu_get_table_page env allocators w;
       let w = w\<lparr>mali_page_fault_flush_page_table := table\<rparr>;
       if err \<noteq> ERR_OK then do {
         w \<leftarrow> mali_mmu_release_table_page env data w;
         Some (err, w\<lparr>mali_page_fault_flush_data_page := MALI_INVALID_PAGE\<rparr>)
       } else do {
         (err, directory, directory_m, w) \<leftarrow> mali_mmu_get_table_page env allocators w;
         let w = w\<lparr>mali_page_fault_flush_page_directory := directory\<rparr>;
         if err \<noteq> ERR_OK then do {
           w \<leftarrow> mali_mmu_release_table_page env table w;
           let w = w\<lparr>mali_page_fault_flush_page_table := MALI_INVALID_PAGE\<rparr>;
           w \<leftarrow> mali_mmu_release_table_page env data w;
           Some (err, w\<lparr>mali_page_fault_flush_data_page := MALI_INVALID_PAGE\<rparr>)
         } else
           (case (data_m, table_m, directory_m) of
              (Some dm, Some tm, Some pm) \<Rightarrow>
                Some (ERR_OK,
                  fill_page pm (table OR MALI_MMU_FLAGS_PRESENT)
                   (fill_page tm (data OR MALI_MMU_FLAGS_WRITE_PERMISSION OR MALI_MMU_FLAGS_READ_PERMISSION OR MALI_MMU_FLAGS_PRESENT)
                     (fill_page dm 0 w)))
            | _ \<Rightarrow> None)
       }
     }
   }"

text \<open>The pages that are there are given back, the directory first.\<close>

definition free_page :: "'a mmu_units_scheme os_env \<Rightarrow> u32 \<Rightarrow> 'a mmu_units_scheme \<Rightarrow> 'a mmu_units_scheme option" where
  "free_page env p w = (if p \<noteq> MALI_INVALID_PAGE then mali_mmu_release_table_page env p w else Some w)"

definition mali_free_fault_flush_pages :: "'a mmu_units_scheme os_env \<Rightarrow> 'a mmu_units_scheme \<Rightarrow> 'a mmu_units_scheme option" where
  "mali_free_fault_flush_pages env w = do {
     w \<leftarrow> free_page env (mali_page_fault_flush_page_directory w) w;
     let w = w\<lparr>mali_page_fault_flush_page_directory := MALI_INVALID_PAGE\<rparr>;
     w \<leftarrow> free_page env (mali_page_fault_flush_page_table w) w;
     let w = w\<lparr>mali_page_fault_flush_page_table := MALI_INVALID_PAGE\<rparr>;
     w \<leftarrow> free_page env (mali_page_fault_flush_data_page w) w;
     Some (w\<lparr>mali_page_fault_flush_data_page := MALI_INVALID_PAGE\<rparr>)
   }"

subsection \<open>Sessions\<close>

text \<open>
  \<open>slot\<close> is the slot of the session: absent for a null pointer, or with the data it has.  The new session
  gets the number \<open>s\<close>.
\<close>

definition mali_memory_core_session_begin ::
  "os_mem os_env \<Rightarrow> allocator_id list \<Rightarrow> bool \<Rightarrow> bool \<Rightarrow> nat \<Rightarrow> nat option option \<Rightarrow> os_mem
     \<Rightarrow> (osk_err \<times> nat option option \<times> os_mem) option" where
  "mali_memory_core_session_begin env allocators mapping_ok lock_ok s slot w =
     (if slot \<noteq> Some None then Some (ERR_INVALID_ARGS, slot, w)
      else if \<not> kmalloc env Session_site w then Some (ERR_NOMEM, slot, w)
      else if \<not> mapping_ok then Some (ERR_NOMEM, slot, w)
      else do {
        (err, page, mapped, w) \<leftarrow> mali_mmu_get_table_page env allocators w;
        if err \<noteq> ERR_OK then Some (err, slot, w)
        else (case mapped of
          None \<Rightarrow> None
        | Some m \<Rightarrow>
            let w = fill_page m 0
                      (upd_ms s (\<lambda>_. \<lparr>page_directory = page, page_directory_mapped = m,
                                  page_entries_mapped = \<lambda>_. None, page_entries_usage_count = \<lambda>_. 0\<rparr>) w);
                w = w\<lparr>active_mmus := (active_mmus w)(s := [])\<rparr>
            in if \<not> lock_ok then do {
                 w \<leftarrow> mali_mmu_release_table_page env page w;
                 Some (ERR_FAULT, slot, w)
               } else Some (ERR_OK, Some (Some s), w\<lparr>memory_head := (memory_head w)(s := [])\<rparr>))
      })"

definition MALI_MMU_FLAGS_MASK :: u32 where "MALI_MMU_FLAGS_MASK = 7"

text \<open>The page tables that are left at the end of a session.\<close>

fun release_page_entries ::
  "'a mmu_state_scheme os_env \<Rightarrow> nat \<Rightarrow> nat list \<Rightarrow> 'a mmu_state_scheme \<Rightarrow> 'a mmu_state_scheme option" where
  "release_page_entries env s [] w = Some w"
| "release_page_entries env s (i # is) w =
     (if read_pde s i w AND MALI_MMU_FLAGS_PRESENT \<noteq> 0 then do {
        w \<leftarrow> mali_mmu_release_table_page env (read_pde s i w AND NOT MALI_MMU_FLAGS_MASK) w;
        release_page_entries env s is (write_pde s i 0 w)
      } else release_page_entries env s is w)"

definition mali_memory_core_session_end ::
  "os_mem os_env \<Rightarrow> nat option option \<Rightarrow> os_mem \<Rightarrow> (nat option option \<times> os_mem) option" where
  "mali_memory_core_session_end env slot w =
     (case slot of
        Some (Some s) \<Rightarrow> do {
          w \<leftarrow> release_page_entries env s [0..<1024] w;
          w \<leftarrow> (if page_directory (msessions w s) \<noteq> MALI_INVALID_PAGE
                then do {
                  w \<leftarrow> mali_mmu_release_table_page env (page_directory (msessions w s)) w;
                  Some (upd_ms s (\<lambda>x. x\<lparr>page_directory := MALI_INVALID_PAGE\<rparr>) w)
                } else Some w);
          Some (Some None, w)
        }
      | _ \<Rightarrow> Some (slot, w))"

subsection \<open>Memory of a process\<close>

text \<open>The list of the allocations of a session; an allocation is its descriptor with the trackers.\<close>

definition track :: "mali_memory_allocation \<Rightarrow> phys_handle option list \<Rightarrow> os_mem \<Rightarrow> os_mem" where
  "track d ts w = w\<lparr>memory_head := (memory_head w)(mali_addr_mapping_info d := (d, ts) # memory_head w (mali_addr_mapping_info d))\<rparr>"

definition untrack :: "mali_memory_allocation \<Rightarrow> os_mem \<Rightarrow> os_mem" where
  "untrack d w =
     (case List.extract (\<lambda>x. fst x = d) (memory_head w (mali_addr_mapping_info d)) of
        None \<Rightarrow> w
      | Some (ys, _, zs) \<Rightarrow> w\<lparr>memory_head := (memory_head w)(mali_addr_mapping_info d := ys @ zs)\<rparr>)"

definition mmap_descriptor :: "nat \<Rightarrow> u32 \<Rightarrow> u32 \<Rightarrow> ptr \<Rightarrow> mali_memory_allocation" where
  "mmap_descriptor s phys_addr sz ukk_private =
     \<lparr>mapping = 0, mali_address = phys_addr, alloc_size = sz, permission = 0, alloc_flags = FLAG_MAP_INTO_USERSPACE,
      mali_addr_mapping_info = s, process_addr_mapping_info = ukk_private\<rparr>"

fun zap_mmus :: "mmu_hw \<Rightarrow> nat list \<Rightarrow> 'a mmu_units_scheme \<Rightarrow> 'a mmu_units_scheme" where
  "zap_mmus hw [] w = w"
| "zap_mmus hw (m # ms) w =
     (let (_, w) = mali_mmu_enable_stall hw m w;
          w = mali_mmu_register_write m MALI_MMU_REGISTER_COMMAND MALI_MMU_COMMAND_ZAP_CACHE w
      in zap_mmus hw ms (mali_mmu_disable_stall hw m w))"

definition mali_ukk_mem_mmap ::
  "mmu_hw \<Rightarrow> os_mem os_env \<Rightarrow> allocator_id list \<Rightarrow> nat option \<Rightarrow> u32 \<Rightarrow> u32 \<Rightarrow> ptr \<Rightarrow> os_mem
     \<Rightarrow> (osk_err \<times> (mali_memory_allocation \<times> phys_handle option list) option \<times> os_mem) option" where
  "mali_ukk_mem_mmap hw env allocators session phys_addr sz ukk_private w =
     (case session of
        None \<Rightarrow> Some (ERR_FAULT, None, w)
      | Some s \<Rightarrow>
          if \<not> kmalloc env Descriptor_site w then Some (ERR_NOMEM, None, w)
          else do {
            (err, d, ts, w) \<leftarrow>
              mali_allocation_engine_allocate_memory (mali_engine env allocators)
                (physical_allocators env (mali_engine env allocators)) (kmalloc env Tracker_site) track
                (mmap_descriptor s phys_addr sz ukk_private) allocators w;
            if err = ERR_OK then Some (ERR_OK, Some (d, ts), zap_mmus hw (active_mmus w s) w)
            else Some (ERR_FAULT, None, w)
          })"

text \<open>Unmapping stalls all units that use the session; one that cannot be stalled ends the attempt.\<close>

fun stall_mmus :: "mmu_hw \<Rightarrow> nat list \<Rightarrow> 'a mmu_units_scheme \<Rightarrow> bool \<times> 'a mmu_units_scheme" where
  "stall_mmus hw [] w = (True, w)"
| "stall_mmus hw (m # ms) w = (let (ok, w) = mali_mmu_enable_stall hw m w in if ok then stall_mmus hw ms w else (False, w))"

fun resume_mmus :: "mmu_hw \<Rightarrow> nat list \<Rightarrow> 'a mmu_units_scheme \<Rightarrow> 'a mmu_units_scheme" where
  "resume_mmus hw [] w = w"
| "resume_mmus hw (m # ms) w =
     resume_mmus hw ms (mali_mmu_disable_stall hw m
       (mali_mmu_register_write m MALI_MMU_REGISTER_COMMAND MALI_MMU_COMMAND_ZAP_CACHE w))"

definition mali_ukk_mem_munmap_internal ::
  "mmu_hw \<Rightarrow> os_mem os_env \<Rightarrow> allocator_id list \<Rightarrow> mali_memory_allocation \<times> phys_handle option list \<Rightarrow> os_mem
     \<Rightarrow> (osk_err \<times> os_mem) option" where
  "mali_ukk_mem_munmap_internal hw env allocators cookie w =
     (let (d, ts) = cookie; s = mali_addr_mapping_info d;
          (ok, w) = stall_mmus hw (active_mmus w s) w
      in if \<not> ok then Some (ERR_BUSY, w)
         else do {
           w \<leftarrow> mali_allocation_engine_release_memory (mali_engine env allocators)
                 (physical_allocators env (mali_engine env allocators)) untrack d ts w;
           Some (ERR_OK, resume_mmus hw (active_mmus w s) w)
         })"

text \<open>A unit in the middle of a page fault cannot be stalled, and the caller tries again.\<close>

partial_function (option) mali_ukk_mem_munmap ::
  "mmu_hw \<Rightarrow> os_mem os_env \<Rightarrow> allocator_id list \<Rightarrow> mali_memory_allocation \<times> phys_handle option list \<Rightarrow> os_mem
     \<Rightarrow> (osk_err \<times> os_mem) option" where
  "mali_ukk_mem_munmap hw env allocators cookie w = do {
     (err, w) \<leftarrow> mali_ukk_mem_munmap_internal hw env allocators cookie w;
     if err = ERR_BUSY then mali_ukk_mem_munmap hw env allocators cookie w else Some (err, w)
   }"

text \<open>The hooks of the vma: the last close unmaps the memory.\<close>

definition mali_kernel_memory_vma_open :: "ptr \<Rightarrow> os_mem \<Rightarrow> os_mem option" where
  "mali_kernel_memory_vma_open v w =
     (case vm_private_data (vmas w v) of
        None \<Rightarrow> None
      | Some t \<Rightarrow> Some (set_vma v ((vmas w v)\<lparr>vm_private_data := Some (t\<lparr>references := references t + 1\<rparr>)\<rparr>) w))"

definition mali_kernel_memory_vma_close ::
  "mmu_hw \<Rightarrow> os_mem os_env \<Rightarrow> allocator_id list \<Rightarrow> ptr \<Rightarrow> mali_memory_allocation \<times> phys_handle option list \<Rightarrow> os_mem
     \<Rightarrow> os_mem option" where
  "mali_kernel_memory_vma_close hw env allocators v cookie w =
     (case vm_private_data (vmas w v) of
        None \<Rightarrow> None
      | Some t \<Rightarrow>
          if references t = 0 then None
          else let w = set_vma v ((vmas w v)\<lparr>vm_private_data := Some (t\<lparr>references := references t - 1\<rparr>)\<rparr>) w
               in if references t - 1 \<noteq> 0 then Some w
                  else map_option snd (mali_ukk_mem_munmap hw env allocators cookie w))"

end
