(* ===== verification/Session_Lemmas.thy ===== *)
theory Session_Lemmas
  imports Memory_Session
begin

text \<open>
  What the operations on pages, sessions and process memory keep: the invariant of the memory system, with
  the pages, sessions and allocations that each of them adds or takes away.
\<close>

subsection \<open>Pages that the driver itself uses\<close>

lemma pd_inv_cong:
  assumes inv: "pd_inv L F C U w" and s: "\<And>t. t \<in> L \<Longrightarrow> msessions w' t = msessions w t"
    and m: "\<And>t q. t \<in> L \<Longrightarrow> q \<in> page_words (pd_page w t) \<Longrightarrow> phys_mem w' q = phys_mem w q"
  shows "pd_inv L F C U w'"
proof -
  define v where "v = w'\<lparr>msessions := msessions w\<rparr>"
  have v: "pd_inv L F C U v" by (rule pd_inv_mem[OF inv]) (use m in \<open>auto simp: v_def\<close>)
  have a: "pd_page w' t = pd_page v t" "mapped_of t i w' = mapped_of t i v" "usage_of t i w' = usage_of t i v"
    "read_pde t i w' = read_pde t i v" if "t \<in> L" for t i
    using s[OF that] by (simp_all add: v_def pd_page_def mapped_of_def usage_of_def read_pde_def ioread32_def)
  have e: "entry_ok c t i w' = entry_ok c t i v" if "t \<in> L" for c t i using a[OF that] by (simp add: entry_ok_def)
  have im: "pd_page w' ` L = pd_page v ` L" "table_pages_of L w' = table_pages_of L v" "inj_on (pd_page w') L = inj_on (pd_page v) L"
    using a by (auto simp: table_pages_of_def inj_on_def image_def)
  have mp: "(\<forall>s \<in> L. \<forall>t \<in> L. \<forall>i < 1024. \<forall>j < 1024. \<forall>p. mapped_of s i w' = Some p \<longrightarrow> mapped_of t j w' = Some p \<longrightarrow> s = t \<and> i = j) =
      (\<forall>s \<in> L. \<forall>t \<in> L. \<forall>i < 1024. \<forall>j < 1024. \<forall>p. mapped_of s i v = Some p \<longrightarrow> mapped_of t j v = Some p \<longrightarrow> s = t \<and> i = j)"
    by (intro ball_cong all_cong refl) (simp only: a)
  have en: "(\<forall>s \<in> L. \<forall>i < 1024. entry_ok (C s i) s i w') = (\<forall>s \<in> L. \<forall>i < 1024. entry_ok (C s i) s i v)"
    by (intro ball_cong all_cong refl) (simp only: e)
  have dr: "(\<forall>t \<in> L. page_directory (msessions w' t) = pd_page w' t) = (\<forall>t \<in> L. page_directory (msessions v t) = pd_page v t)"
    by (intro ball_cong refl) (simp only: a, simp add: s v_def)
  show ?thesis using v unfolding pd_inv_def im mp en dr .
qed

lemma pd_inv_F:
  assumes "pd_inv L F C U w"
  shows "p \<notin> U \<Longrightarrow> 4096 dvd unat p \<Longrightarrow> pd_inv L (insert p F) C (insert p U) w"
    and "p \<in> F \<Longrightarrow> pd_inv L (F - {p}) C (U - {p}) w"
    and "p \<in> F \<Longrightarrow> p \<in> U \<and> 4096 dvd unat p \<and> p \<notin> pd_page w ` L"
proof -
  note i = assms[unfolded pd_inv_def]
  have 1: "inj_on (pd_page w) L" using i by (elim conjE)
  have 2: "\<forall>s \<in> L. \<forall>i < 1024. entry_ok (C s i) s i w" using i by (elim conjE)
  have 3: "\<forall>s \<in> L. \<forall>t \<in> L. \<forall>i < 1024. \<forall>j < 1024. \<forall>p. mapped_of s i w = Some p \<longrightarrow> mapped_of t j w = Some p \<longrightarrow> s = t \<and> i = j"
    using i by (elim conjE)
  have 4: "pd_page w ` L \<inter> F = {}" using i by (elim conjE)
  have 5: "table_pages_of L w \<inter> (pd_page w ` L \<union> F) = {}" using i by (elim conjE)
  have 6: "U = pd_page w ` L \<union> F \<union> table_pages_of L w" using i by (elim conjE)
  have 7: "\<forall>p \<in> U. 4096 dvd unat p" using i by (elim conjE)
  have 8: "\<forall>s \<in> L. page_directory (msessions w s) = pd_page w s" using i by (elim conjE)
  show "pd_inv L (insert p F) C (insert p U) w" if "p \<notin> U" "4096 dvd unat p"
    unfolding pd_inv_def
  proof (intro conjI)
    show "pd_page w ` L \<inter> insert p F = {}" "table_pages_of L w \<inter> (pd_page w ` L \<union> insert p F) = {}"
      using 4 5 6 that(1) by blast+
    show "insert p U = pd_page w ` L \<union> insert p F \<union> table_pages_of L w" using 6 by blast
    show "\<forall>q \<in> insert p U. 4096 dvd unat q" using 7 that(2) by blast
  qed (fact 1 2 3 8)+
  show "pd_inv L (F - {p}) C (U - {p}) w" if "p \<in> F"
    unfolding pd_inv_def
  proof (intro conjI)
    show "pd_page w ` L \<inter> (F - {p}) = {}" "table_pages_of L w \<inter> (pd_page w ` L \<union> (F - {p})) = {}"
      using 4 5 by blast+
    show "U - {p} = pd_page w ` L \<union> (F - {p}) \<union> table_pages_of L w" using 4 5 6 that by blast
    show "\<forall>q \<in> U - {p}. 4096 dvd unat q" using 7 by blast
  qed (fact 1 2 3 8)+
  show "p \<in> U \<and> 4096 dvd unat p \<and> p \<notin> pd_page w ` L" if "p \<in> F" using 4 6 7 that by blast
qed

lemma write_page_F:
  assumes "pages_ok env L F C H w" "p \<in> F" "\<And>t. t \<in> L \<Longrightarrow> msessions w' t = msessions w t"
    "\<And>q. q \<notin> page_words p \<Longrightarrow> phys_mem w' q = phys_mem w q"
    "blk w' = blk w" "osa w' = osa w" "pt_partial w' = pt_partial w" "pt_full w' = pt_full w"
  shows "pages_ok env L F C H w'"
proof -
  obtain U where U: "mem_inv env H U w" "pd_inv L F C U w" by (rule pages_ok_D[OF assms(1)])
  note p = pd_inv_F(3)[OF U(2) assms(2)]
  have "pd_inv L F C U w'"
  proof (rule pd_inv_cong[OF U(2) assms(3)])
    fix t q assume t: "t \<in> L" "q \<in> page_words (pd_page w t)"
    have "page_words (pd_page w t) \<inter> page_words p = {}"
      using page_words_disjoint pd_parts(2)[OF U(2) t(1), of 0] p t(1) by auto
    then show "phys_mem w' q = phys_mem w q" using assms(4) t(2) by blast
  qed
  then show ?thesis using mem_inv_frame[OF U(1) assms(5-8)] by (auto intro: pages_okI)
qed

lemma get_page_ok:
  assumes "pages_ok env L F C H w"
  shows "\<exists>err p q w'. mali_mmu_get_table_page env allocators w = Some (err, p, q, w') \<and> cache_frame w' w \<and>
    (if err = ERR_OK then q = Some p \<and> p \<notin> F \<and> 4096 dvd unat p \<and> pages_ok env L (insert p F) C H w' \<and>
       (\<forall>x. x \<notin> page_words p \<longrightarrow> phys_mem w' x = phys_mem w x)
     else err = ERR_NOMEM \<and> pages_ok env L F C H w' \<and> phys_mem w' = phys_mem w)"
proof -
  obtain U where U: "mem_inv env H U w" "pd_inv L F C U w" by (rule pages_ok_D[OF assms])
  obtain err p q w' where g: "mali_mmu_get_table_page env allocators w = Some (err, p, q, w')" "cache_frame w' w"
    "if err = ERR_OK then q = Some p \<and> mem_inv env H (insert p U) w' \<and> p \<notin> U \<and> 4096 dvd unat p \<and>
       (\<forall>x. x \<notin> page_words p \<longrightarrow> phys_mem w' x = phys_mem w x)
     else err = ERR_NOMEM \<and> mem_inv env H U w' \<and> phys_mem w' = phys_mem w"
    using get_table_page_ok[OF U(1)] by blast
  have ms: "msessions w' = msessions w" using g(2) by (simp add: cache_frame_def)
  have FU: "F \<subseteq> U" using pd_inv_F(3)[OF U(2)] by blast
  show ?thesis
  proof (cases "err = ERR_OK")
    case True
    then have i: "pd_inv L F C U w'" using other_memory[OF U(2) _ _ ms, of p] g(3) by auto
    have "pd_inv L (insert p F) C (insert p U) w'" using pd_inv_F(1)[OF i] True g(3) by auto
    then show ?thesis using g True FU by (auto intro: pages_okI)
  next
    case False
    then have "pd_inv L F C U w'" using pd_inv_mem[OF U(2) ms] g(3) by auto
    then show ?thesis using g False by (auto intro: pages_okI)
  qed
qed

lemma release_page_ok:
  assumes "pages_ok env L F C H w" "p \<in> F"
  shows "\<exists>w'. mali_mmu_release_table_page env p w = Some w' \<and> cache_frame w' w \<and> pages_ok env L (F - {p}) C H w' \<and>
    (\<forall>q. q \<notin> page_words p \<longrightarrow> phys_mem w' q = phys_mem w q)"
proof -
  obtain U where U: "mem_inv env H U w" "pd_inv L F C U w" by (rule pages_ok_D[OF assms(1)])
  note p = pd_inv_F(3)[OF U(2) assms(2)]
  obtain w' where r: "mali_mmu_release_table_page env p w = Some w'" "cache_frame w' w" "mem_inv env H (U - {p}) w'"
    "\<forall>q. q \<notin> page_words p \<longrightarrow> phys_mem w' q = phys_mem w q"
    using release_table_page_ok[OF U(1)] p by blast
  have "pd_inv L (F - {p}) C (U - {p}) w" by (rule pd_inv_F(2)[OF U(2) assms(2)])
  then have "pd_inv L (F - {p}) C (U - {p}) w'"
    using other_memory[of L "F - {p}" C "U - {p}" w p w'] p r(2,4) by (simp add: cache_frame_def)
  then show ?thesis using r by (auto intro: pages_okI)
qed

subsection \<open>A session comes and goes\<close>

definition tables_of :: "nat \<Rightarrow> 'a mmu_state_scheme \<Rightarrow> u32 set" where
  "tables_of s w = {p. \<exists>i < 1024. mapped_of s i w = Some p}"

lemma table_pages_session: "table_pages_of L w = (\<Union>s \<in> L. tables_of s w)"
  by (auto simp: table_pages_of_def tables_of_def)

lemma pd_inv_enter:
  assumes inv: "pd_inv L (insert p F) C U w" and s: "s \<notin> L" "p \<notin> F"
    and ms: "msessions w' = (msessions w)(s := \<lparr>page_directory = p, page_directory_mapped = p,
      page_entries_mapped = \<lambda>_. None, page_entries_usage_count = \<lambda>_. 0\<rparr>)"
    and zero: "\<And>q. phys_mem w' q = (if q \<in> page_words p then 0 else phys_mem w q)" and c: "\<And>i. i < 1024 \<Longrightarrow> C s i = 0"
  shows "pd_inv (insert s L) F C U w'"
proof -
  note p = pd_inv_F(3)[OF inv, of p, simplified]
  have v: "pd_inv L (insert p F) C U w'"
  proof (rule pd_inv_cong[OF inv])
    show "msessions w' t = msessions w t" if "t \<in> L" for t using that s(1) ms by auto
    fix t q assume t: "t \<in> L" "q \<in> page_words (pd_page w t)"
    have "page_words (pd_page w t) \<inter> page_words p = {}"
      using page_words_disjoint pd_parts(2)[OF inv t(1), of 0] p t(1) by auto
    then show "phys_mem w' q = phys_mem w q" using zero t(2) by auto
  qed
  have new: "pd_page w' s = p" "mapped_of s i w' = None" "usage_of s i w' = 0" for i
    using ms by (simp_all add: pd_page_def mapped_of_def usage_of_def)
  have "read_pde s i w' = 0" if "i < 1024" for i
    using zero word_in_page[OF that, of p] new(1) by (simp add: read_pde_def ioread32_def pd_page_def)
  then have e: "entry_ok (C s i) s i w'" if "i < 1024" for i using that new c by (simp add: entry_ok_def)
  have t: "tables_of s w' = {}" using new by (simp add: tables_of_def)
  note j = v[unfolded pd_inv_def]
  have 1: "inj_on (pd_page w') L" using j by (elim conjE)
  have 2: "\<forall>s \<in> L. \<forall>i < 1024. entry_ok (C s i) s i w'" using j by (elim conjE)
  have 3: "\<forall>s \<in> L. \<forall>t \<in> L. \<forall>i < 1024. \<forall>j < 1024. \<forall>p. mapped_of s i w' = Some p \<longrightarrow> mapped_of t j w' = Some p \<longrightarrow> s = t \<and> i = j"
    using j by (elim conjE)
  have 4: "pd_page w' ` L \<inter> insert p F = {}" using j by (elim conjE)
  have 5: "table_pages_of L w' \<inter> (pd_page w' ` L \<union> insert p F) = {}" using j by (elim conjE)
  have 6: "U = pd_page w' ` L \<union> insert p F \<union> table_pages_of L w'" using j by (elim conjE)
  have 7: "\<forall>p \<in> U. 4096 dvd unat p" using j by (elim conjE)
  have 8: "\<forall>s \<in> L. page_directory (msessions w' s) = pd_page w' s" using j by (elim conjE)
  have tp: "table_pages_of (insert s L) w' = table_pages_of L w'" by (simp add: table_pages_session t)
  show ?thesis
    unfolding pd_inv_def tp
  proof (intro conjI)
    show "inj_on (pd_page w') (insert s L)" using 1 4 new(1) s(1) by (auto simp: inj_on_insert)
    show "\<forall>t \<in> insert s L. \<forall>i < 1024. entry_ok (C t i) t i w'" using 2 e by blast
    show "\<forall>a \<in> insert s L. \<forall>t \<in> insert s L. \<forall>i < 1024. \<forall>j < 1024. \<forall>p. mapped_of a i w' = Some p \<longrightarrow> mapped_of t j w' = Some p \<longrightarrow> a = t \<and> i = j"
    proof (intro ballI allI impI)
      fix a t i j p
      assume a: "a \<in> insert s L" "t \<in> insert s L" "i < 1024" "j < 1024" "mapped_of a i w' = Some p" "mapped_of t j w' = Some p"
      then have "a \<in> L" "t \<in> L" using new(2) by auto
      then show "a = t \<and> i = j" using 3[rule_format, of a t i j p] a(3-6) by blast
    qed
    show "pd_page w' ` insert s L \<inter> F = {}" using 4 new(1) s(2) by auto
    show "table_pages_of L w' \<inter> (pd_page w' ` insert s L \<union> F) = {}" using 5 new(1) by auto
    show "U = pd_page w' ` insert s L \<union> F \<union> table_pages_of L w'" using 6 new(1) by auto
    show "\<forall>p \<in> U. 4096 dvd unat p" by (fact 7)
    show "\<forall>t \<in> insert s L. page_directory (msessions w' t) = pd_page w' t" using 8 ms new(1) by simp
  qed
qed

lemma leave_sets:
  "insert x A \<inter> F = {} \<Longrightarrow> (TP \<union> T) \<inter> (insert x A \<union> F) = {} \<Longrightarrow> x \<notin> A \<Longrightarrow> TP \<inter> T = {} \<Longrightarrow>
    A \<inter> (F \<union> insert x T) = {} \<and> TP \<inter> (A \<union> (F \<union> insert x T)) = {} \<and>
    insert x A \<union> F \<union> (TP \<union> T) = A \<union> (F \<union> insert x T) \<union> TP"
  by blast

lemma pd_inv_leave:
  assumes inv: "pd_inv L F C U w" and s: "s \<in> L"
  shows "pd_inv (L - {s}) (F \<union> insert (pd_page w s) (tables_of s w)) C U w"
proof -
  let ?L = "L - {s}"
  note j = inv[unfolded pd_inv_def]
  have 1: "inj_on (pd_page w) L" using j by (elim conjE)
  have 2: "\<forall>s \<in> L. \<forall>i < 1024. entry_ok (C s i) s i w" using j by (elim conjE)
  have 3: "\<forall>s \<in> L. \<forall>t \<in> L. \<forall>i < 1024. \<forall>j < 1024. \<forall>p. mapped_of s i w = Some p \<longrightarrow> mapped_of t j w = Some p \<longrightarrow> s = t \<and> i = j"
    using j by (elim conjE)
  have 4: "pd_page w ` L \<inter> F = {}" using j by (elim conjE)
  have 5: "table_pages_of L w \<inter> (pd_page w ` L \<union> F) = {}" using j by (elim conjE)
  have 6: "U = pd_page w ` L \<union> F \<union> table_pages_of L w" using j by (elim conjE)
  have 7: "\<forall>p \<in> U. 4096 dvd unat p" using j by (elim conjE)
  have 8: "\<forall>s \<in> L. page_directory (msessions w s) = pd_page w s" using j by (elim conjE)
  have tp: "table_pages_of L w = table_pages_of ?L w \<union> tables_of s w" using s by (auto simp: table_pages_session)
  have pd: "pd_page w ` L = insert (pd_page w s) (pd_page w ` ?L)" using s by auto
  have np: "pd_page w s \<notin> pd_page w ` ?L" using 1 s by (auto simp: inj_on_def)
  have nt: "table_pages_of ?L w \<inter> tables_of s w = {}"
  proof (rule ccontr)
    assume "table_pages_of ?L w \<inter> tables_of s w \<noteq> {}"
    then obtain t i j p where "t \<in> ?L" "i < 1024" "j < 1024" "mapped_of t i w = Some p" "mapped_of s j w = Some p"
      by (auto simp: table_pages_session tables_of_def)
    then show False using 3 s by blast
  qed
  show ?thesis
    unfolding pd_inv_def
  proof (intro conjI)
    show "inj_on (pd_page w) ?L" using 1 by (rule inj_on_subset) blast
    show "\<forall>t \<in> ?L. \<forall>i < 1024. entry_ok (C t i) t i w" using 2 by blast
    show "\<forall>a \<in> ?L. \<forall>t \<in> ?L. \<forall>i < 1024. \<forall>j < 1024. \<forall>p. mapped_of a i w = Some p \<longrightarrow> mapped_of t j w = Some p \<longrightarrow> a = t \<and> i = j"
      by (intro ballI allI impI) (rule 3[rule_format], simp_all)
    note sets = leave_sets[OF 4[unfolded pd] 5[unfolded tp pd] np nt]
    show "pd_page w ` ?L \<inter> (F \<union> insert (pd_page w s) (tables_of s w)) = {}" using sets by (elim conjE)
    show "table_pages_of ?L w \<inter> (pd_page w ` ?L \<union> (F \<union> insert (pd_page w s) (tables_of s w))) = {}"
      using sets by (elim conjE)
    show "U = pd_page w ` ?L \<union> (F \<union> insert (pd_page w s) (tables_of s w)) \<union> table_pages_of ?L w"
      using sets unfolding 6[unfolded tp pd] by (elim conjE)
    show "\<forall>p \<in> U. 4096 dvd unat p" by (fact 7)
    show "\<forall>t \<in> ?L. page_directory (msessions w t) = pd_page w t" using 8 by blast
  qed
qed

lemma entry_unmasked:
  assumes "4096 dvd unat (p :: u32)"
  shows "(p OR MALI_MMU_FLAGS_PRESENT) AND NOT MALI_MMU_FLAGS_MASK = p"
proof -
  have z: "\<not> bit p n" if "n < 12" for n
  proof -
    have "take_bit 12 (unat p) = 0" using assms by (simp add: take_bit_eq_mod)
    then have "\<not> bit (unat p) n" using that by (metis bit_0_eq bit_take_bit_iff bot_apply bot_bool_def)
    then show ?thesis using that bit_unsigned_iff[of p n, where ?'a = nat] by simp
  qed
  have m: "(7 :: u32) = mask 3" by (simp add: mask_eq_exp_minus_1)
  have "bit ((p OR 1) AND NOT (mask 3)) n = bit p n" for n
    using z[of n] by (cases "n < 10") (auto simp: bit_simps dest: bit_u32_bound)
  then show ?thesis by (simp add: MALI_MMU_FLAGS_MASK_def MALI_MMU_FLAGS_PRESENT_def m mask_eq_bits)
qed

text \<open>The loop at the end of a session gives back the tables that are left, and nothing else.\<close>

lemma release_page_entries_ok:
  assumes "pages_ok env L (G \<union> {p. \<exists>i \<in> set is. T i = Some p}) C H w" "distinct is" "set is \<subseteq> {..<1024}" "s \<notin> L"
    "pd_page w s \<in> G"
    "\<And>i. i \<in> set is \<Longrightarrow> case T i of None \<Rightarrow> read_pde s i w AND MALI_MMU_FLAGS_PRESENT = 0
       | Some p \<Rightarrow> read_pde s i w = p OR MALI_MMU_FLAGS_PRESENT \<and> p \<notin> G"
    "\<forall>i \<in> set is. \<forall>j \<in> set is. \<forall>p. T i = Some p \<longrightarrow> T j = Some p \<longrightarrow> i = j"
  shows "\<exists>w'. release_page_entries env s is w = Some w' \<and> pages_ok env L G C H w' \<and>
    msessions w' = msessions w \<and> mmu_state.more w' = mmu_state.more w"
  using assms
proof (induction "is" arbitrary: w)
  case (Cons i "is")
  have d: "distinct is" "set is \<subseteq> {..<1024}" "i \<notin> set is" "i < 1024" using Cons.prems(2,3) by simp_all
  show ?case
  proof (cases "T i")
    case None
    then have e: "{p. \<exists>j \<in> set (i # is). T j = Some p} = {p. \<exists>j \<in> set is. T j = Some p}" by auto
    have "read_pde s i w AND MALI_MMU_FLAGS_PRESENT = 0" using Cons.prems(6)[of i] None by simp
    then show ?thesis
      using Cons.IH[OF Cons.prems(1)[unfolded e] d(1,2) Cons.prems(4,5) Cons.prems(6)] Cons.prems(7) by simp
  next
    case (Some p)
    let ?F = "G \<union> {q. \<exists>j \<in> set (i # is). T j = Some q}"
    have p: "read_pde s i w = p OR MALI_MMU_FLAGS_PRESENT" "p \<notin> G" "p \<in> ?F"
      using Cons.prems(6)[of i] Some by auto
    obtain U where U: "mem_inv env H U w" "pd_inv L ?F C U w" by (rule pages_ok_D[OF Cons.prems(1)])
    have al: "4096 dvd unat p" "4096 dvd unat (pd_page w s)"
      using pd_inv_F(3)[OF U(2)] p(3) Cons.prems(5) by blast+
    have ne: "pd_page w s \<noteq> p" using p(2) Cons.prems(5) by blast
    obtain w1 where 1: "mali_mmu_release_table_page env p w = Some w1" "cache_frame w1 w" "pages_ok env L (?F - {p}) C H w1"
      "\<forall>q. q \<notin> page_words p \<longrightarrow> phys_mem w1 q = phys_mem w q" using release_page_ok[OF Cons.prems(1) p(3)] by blast
    have ms: "msessions w1 = msessions w" "mmu_state.more w1 = mmu_state.more w" "pd_page w1 = pd_page w"
      using 1(2) by (simp_all add: cache_frame_def pd_page_def fun_eq_iff)
    have F': "?F - {p} = G \<union> {q. \<exists>j \<in> set is. T j = Some q}"
      using p(2) Some d(3) Cons.prems(7) by fastforce
    let ?w = "write_pde s i 0 w1"
    have msw: "msessions ?w = msessions w" "mmu_state.more ?w = mmu_state.more w" using ms by (simp_all add: write_pde_def)
    have in_F: "pd_page w s \<in> ?F - {p}" using Cons.prems(5) ne by blast
    have 2: "pages_ok env L (G \<union> {q. \<exists>j \<in> set is. T j = Some q}) C H ?w"
      unfolding F'[symmetric]
    proof (rule write_page_F[OF 1(3) in_F])
      show "msessions ?w t = msessions w1 t" for t using msw ms by simp
      show "phys_mem ?w q = phys_mem w1 q" if "q \<notin> page_words (pd_page w s)" for q
        using that word_in_page[OF d(4), of "pd_page w s"] ms(3) by auto
    qed simp_all
    have rd: "read_pde s j ?w = read_pde s j w" if "j \<in> set is" for j
    proof -
      have j: "j < 1024" "j \<noteq> i" using that d by auto
      have "pd_page w s + of_nat j * 4 \<noteq> pd_page w s + of_nat i * 4"
        using page_word_inj[OF al(2,2) j(1) d(4)] j(2) by blast
      moreover have "pd_page w s + of_nat j * 4 \<notin> page_words p"
        using page_words_disjoint[OF al(2,1) ne] word_in_page[OF j(1)] by blast
      ultimately show ?thesis using 1(4) ms by (simp add: read_pde_def ioread32_def write_pde_def pd_page_def)
    qed
    have pd: "pd_page ?w s \<in> G" using Cons.prems(5) ms(3) by simp
    have T: "case T j of None \<Rightarrow> read_pde s j ?w AND MALI_MMU_FLAGS_PRESENT = 0
       | Some p \<Rightarrow> read_pde s j ?w = p OR MALI_MMU_FLAGS_PRESENT \<and> p \<notin> G" if "j \<in> set is" for j
      using Cons.prems(6)[of j] that unfolding rd[OF that] by simp
    obtain w' where 3: "release_page_entries env s is ?w = Some w'" "pages_ok env L G C H w'"
      "msessions w' = msessions ?w" "mmu_state.more w' = mmu_state.more ?w"
      using Cons.IH[OF 2 d(1,2) Cons.prems(4) pd T] Cons.prems(7) by auto
    have "read_pde s i w AND MALI_MMU_FLAGS_PRESENT \<noteq> 0" using p(1) present_bit by simp
    moreover have "read_pde s i w AND NOT MALI_MMU_FLAGS_MASK = p" using p(1) entry_unmasked[OF al(1)] by simp
    ultimately show ?thesis using 1(1) 3 msw by simp
  qed
qed simp

lemma leave_pages:
  assumes "pages_ok env L F C H w" "s \<in> L"
  shows "\<exists>w1 w2. release_page_entries env s [0..<1024] w = Some w1 \<and> page_directory (msessions w1 s) = pd_page w s \<and>
    mali_mmu_release_table_page env (pd_page w s) w1 = Some w2 \<and> pages_ok env (L - {s}) F C H w2 \<and>
    msessions w2 = msessions w \<and> mmu_state.more w2 = mmu_state.more w"
proof -
  obtain U where U: "mem_inv env H U w" "pd_inv L F C U w" by (rule pages_ok_D[OF assms(1)])
  let ?G = "insert (pd_page w s) F" and ?T = "\<lambda>i. mapped_of s i w"
  note j = U(2)[unfolded pd_inv_def]
  have 3: "\<forall>s \<in> L. \<forall>t \<in> L. \<forall>i < 1024. \<forall>j < 1024. \<forall>p. mapped_of s i w = Some p \<longrightarrow> mapped_of t j w = Some p \<longrightarrow> s = t \<and> i = j"
    using j by (elim conjE)
  have 4: "pd_page w ` L \<inter> F = {}" using j by (elim conjE)
  have 5: "table_pages_of L w \<inter> (pd_page w ` L \<union> F) = {}" using j by (elim conjE)
  have nG: "p \<notin> ?G" if "i < 1024" "?T i = Some p" for i p
  proof -
    have "p \<in> table_pages_of L w" using that assms(2) by (auto simp: table_pages_of_def)
    then show ?thesis using 5 assms(2) by blast
  qed
  have "F \<union> insert (pd_page w s) (tables_of s w) = ?G \<union> {p. \<exists>i \<in> set [0..<1024]. ?T i = Some p}"
    by (auto simp: tables_of_def)
  then have ok: "pages_ok env (L - {s}) (?G \<union> {p. \<exists>i \<in> set [0..<1024]. ?T i = Some p}) C H w"
    using pd_inv_leave[OF U(2) assms(2)] U(1) by (metis pages_okI)
  have T: "case ?T i of None \<Rightarrow> read_pde s i w AND MALI_MMU_FLAGS_PRESENT = 0
       | Some p \<Rightarrow> read_pde s i w = p OR MALI_MMU_FLAGS_PRESENT \<and> p \<notin> ?G" if "i \<in> set [0..<1024]" for i
    using that pd_parts(1)[OF U(2) assms(2), of i] nG[of i] by (auto simp: entry_ok_def split: option.splits if_splits)
  have inj: "\<forall>i \<in> set [0..<1024]. \<forall>j \<in> set [0..<1024]. \<forall>p. ?T i = Some p \<longrightarrow> ?T j = Some p \<longrightarrow> i = j"
    using 3[rule_format, of s s] assms(2) by simp
  have sub: "set [0..<1024] \<subseteq> {..<(1024 :: nat)}" "s \<notin> L - {s}" "pd_page w s \<in> ?G" by auto
  have dir: "page_directory (msessions w s) = pd_page w s" using j assms(2) by (elim conjE) blast
  obtain w1 where 1: "release_page_entries env s [0..<1024] w = Some w1" "pages_ok env (L - {s}) ?G C H w1"
    "msessions w1 = msessions w" "mmu_state.more w1 = mmu_state.more w"
    using release_page_entries_ok[OF ok distinct_upt sub T inj] by blast
  obtain w2 where 2: "mali_mmu_release_table_page env (pd_page w s) w1 = Some w2" "cache_frame w2 w1"
    "pages_ok env (L - {s}) (?G - {pd_page w s}) C H w2" using release_page_ok[OF 1(2), of "pd_page w s"] by auto
  have "?G - {pd_page w s} = F" using 4 assms(2) by auto
  then show ?thesis using 1 2 dir by (simp add: cache_frame_def)
qed

subsection \<open>The whole memory system\<close>

lemma memory_ok_frame:
  assumes "memory_ok env L F M P H w" "msessions w' = msessions w" "phys_mem w' = phys_mem w" "blk w' = blk w"
    "osa w' = osa w" "pt_partial w' = pt_partial w" "pt_full w' = pt_full w" "infos w' = infos w"
    "pre_allocated_memory w' = pre_allocated_memory w" "kernel_pages w' = kernel_pages w"
  shows "memory_ok env L F M P H w'"
proof -
  have i: "proc_env env" "pages_ok env L F (mali_count M) H w" "proc_inv P w"
    "held_inv (held_pages w) H" using assms(1) by (simp_all add: memory_ok_def)
  obtain U where U: "mem_inv env H U w" "pd_inv L F (mali_count M) U w" by (rule pages_ok_D[OF i(2)])
  have "pages_ok env L F (mali_count M) H w'"
    using mem_inv_frame[OF U(1) assms(4-7)] pd_inv_mem[OF U(2) assms(2)] assms(3) by (auto intro: pages_okI)
  then show ?thesis using i proc_inv_frame[OF i(3) assms(8-10)] infos_only(2)[OF assms(8)] by (simp add: memory_ok_def)
qed

lemma units_more_fields:
  "mmu_units.more w' = mmu_units.more (w :: os_mem) \<Longrightarrow> infos w' = infos w \<and> pre_allocated_memory w' = pre_allocated_memory w \<and>
     memory_head w' = memory_head w \<and> vmas w' = vmas w \<and> kernel_pages w' = kernel_pages w"
  by (cases w; cases w') simp

lemma memory_ok_log: "memory_ok env L F M P H w \<Longrightarrow> log_only w' w \<Longrightarrow> memory_ok env L F M P H w'"
  using log_only_fields[of w' w] units_more_fields[of w' w] by (intro memory_ok_frame[of env L F M P H w w']) auto

lemma memory_ok_track: "memory_ok env L F M P H (track d ts w) = memory_ok env L F M P H w"
proof
  assume "memory_ok env L F M P H (track d ts w)"
  then show "memory_ok env L F M P H w" by (rule memory_ok_frame) (simp_all add: track_def)
next
  assume "memory_ok env L F M P H w"
  then show "memory_ok env L F M P H (track d ts w)" by (rule memory_ok_frame) (simp_all add: track_def)
qed

lemma memory_ok_untrack: "memory_ok env L F M P H (untrack d w) = memory_ok env L F M P H w"
proof
  assume "memory_ok env L F M P H (untrack d w)"
  then show "memory_ok env L F M P H w" by (rule memory_ok_frame) (simp_all add: untrack_def split: option.splits)
next
  assume "memory_ok env L F M P H w"
  then show "memory_ok env L F M P H (untrack d w)" by (rule memory_ok_frame) (simp_all add: untrack_def split: option.splits)
qed

lemma zap_mmus_log: "log_only (zap_mmus hw ms w) w"
proof (induction ms arbitrary: w)
  case (Cons m ms)
  obtain b w1 where e: "mali_mmu_enable_stall hw m w = (b, w1)" by fastforce
  have "log_only w1 w" using enable_stall_log[of hw m w] e by simp
  then have "log_only (mali_mmu_disable_stall hw m (mali_mmu_register_write m MALI_MMU_REGISTER_COMMAND MALI_MMU_COMMAND_ZAP_CACHE w1)) w"
    by (intro log_only_trans[OF disable_stall_log] log_only_write_trans)
  from log_only_trans[OF Cons.IH this] show ?case using e by simp
qed simp

lemma resume_mmus_log: "log_only (resume_mmus hw ms w) w"
proof (induction ms arbitrary: w)
  case (Cons m ms)
  have "log_only (mali_mmu_disable_stall hw m (mali_mmu_register_write m MALI_MMU_REGISTER_COMMAND MALI_MMU_COMMAND_ZAP_CACHE w)) w"
    by (intro log_only_trans[OF disable_stall_log] log_only_write)
  from log_only_trans[OF Cons.IH this] show ?case by simp
qed simp

lemma stall_mmus_log: "log_only (snd (stall_mmus hw ms w)) w"
proof (induction ms arbitrary: w)
  case (Cons m ms)
  obtain b w1 where e: "mali_mmu_enable_stall hw m w = (b, w1)" by fastforce
  have "log_only w1 w" using enable_stall_log[of hw m w] e by simp
  then show ?case using log_only_trans[OF Cons.IH] e by simp
qed simp

end
