(* ===== verification/Session_Contracts.thy ===== *)
theory Session_Contracts
  imports Session_Lemmas
begin

text \<open>
  The contracts of the operations that the rest of the driver calls: mapping and unmapping the memory of a
  process, the beginning and the end of a session, and the helper pages.  Each returns, keeps the invariant
  of the memory system and says what it added or gave back.
\<close>

lemma mmap_ok:
  assumes i: "memory_ok env L F M P H w" and s: "s \<in> L" and v: "mali_range (mmap_descriptor s a sz v)"
    and m: "size M < 2 ^ 32 - 1" and u: "\<forall>h \<in># H. into_userspace (handle_descriptor h) \<longrightarrow> handle_descriptor h \<in># P"
  shows "\<exists>err r w'. mali_ukk_mem_mmap hw env as (Some s) a sz v w = Some (err, r, w') \<and>
    (if err = ERR_OK then \<exists>d hs. r = Some (d, map Some hs) \<and> valid_range L d \<and> same_range d (mmap_descriptor s a sz v) \<and>
       tiles handle_start handle_length 0 hs sz \<and> (\<forall>h \<in> set hs. handle_descriptor h = d) \<and>
       memory_ok env L F (add_mset d M) (add_mset d P) (mset hs + H) w'
     else r = None \<and> memory_ok env L F M P H w')"
proof (cases "kmalloc env Descriptor_site w")
  case False
  then show ?thesis using i by (simp add: mali_ukk_mem_mmap_def)
next
  case True
  let ?d = "mmap_descriptor s a sz v"
  have d: "valid_range L ?d" "0 < alloc_size ?d" "alloc_size ?d = sz" "into_userspace ?d"
    using s v by (auto simp: valid_range_def last_pde_reserved_def last_pde_released_def mali_range_def mmap_descriptor_def
        FLAG_MAP_GUARD_PAGE_def FLAG_MAP_INTO_USERSPACE_def into_userspace_def word_neq_0_conv)
  obtain err d' ts w1 where r: "mali_allocation_engine_allocate_memory (mali_engine env as) (physical_allocators env (mali_engine env as))
      (kmalloc env Tracker_site) track ?d as w = Some (err, d', ts, w1)"
    "if err = ERR_OK then \<exists>hs. ts = map Some hs \<and> tiles handle_start handle_length 0 hs (alloc_size ?d) \<and>
        (\<forall>h \<in> set hs. handle_descriptor h = d') \<and> valid_range L d' \<and> same_range d' ?d \<and>
        memory_ok env L F (add_mset d' M) (if into_userspace d' then add_mset d' P else P) (mset hs + H) w1
     else err = ERR_FAULT \<and> memory_ok env L F M P H w1"
    using memory.allocate_memory_ok[OF i d(1,2) m u, of track "as" "kmalloc env Tracker_site" "as", OF memory_ok_track]
    by (elim exE conjE) (rule that)
  show ?thesis
  proof (cases "err = ERR_OK")
    case ok: True
    obtain hs where h: "ts = map Some hs" "tiles handle_start handle_length 0 hs sz" "\<forall>h \<in> set hs. handle_descriptor h = d'"
      "valid_range L d'" "same_range d' ?d" "memory_ok env L F (add_mset d' M) (add_mset d' P) (mset hs + H) w1"
      using r(2) ok d(3,4) same_range_fields[of d' ?d] by auto
    let ?w = "zap_mmus hw (active_mmus w1 s) w1"
    have "memory_ok env L F (add_mset d' M) (add_mset d' P) (mset hs + H) ?w"
      by (rule memory_ok_log[OF h(6) zap_mmus_log])
    then show ?thesis using True r(1) ok h
      by (intro exI[of _ ERR_OK] exI[of _ "Some (d', ts)"] exI[of _ ?w]) (auto simp: mali_ukk_mem_mmap_def)
  next
    case False
    then show ?thesis using True r by (simp add: mali_ukk_mem_mmap_def)
  qed
qed


text \<open>Unmapping gives everything back, or, with a unit that cannot be stalled, changes nothing.\<close>

lemma munmap_internal_ok:
  assumes i: "memory_ok env L F (add_mset d M) (if into_userspace d then add_mset d P else P) (mset hs + H) w"
    and v: "valid_range L d" "\<forall>h \<in> set hs. handle_descriptor h = d"
    and u: "\<forall>h \<in># H. into_userspace (handle_descriptor h) \<longrightarrow> handle_descriptor h \<in># P"
  shows "\<exists>w'. mali_ukk_mem_munmap_internal hw env as (d, map Some hs) w =
      Some (if fst (stall_mmus hw (active_mmus w (mali_addr_mapping_info d)) w) then ERR_OK else ERR_BUSY, w') \<and>
    (if fst (stall_mmus hw (active_mmus w (mali_addr_mapping_info d)) w) then memory_ok env L F M P H w'
     else w' = snd (stall_mmus hw (active_mmus w (mali_addr_mapping_info d)) w) \<and>
       memory_ok env L F (add_mset d M) (if into_userspace d then add_mset d P else P) (mset hs + H) w')"
proof -
  obtain ok w1 where s: "stall_mmus hw (active_mmus w (mali_addr_mapping_info d)) w = (ok, w1)" by fastforce
  have l: "log_only w1 w" using stall_mmus_log[of hw "active_mmus w (mali_addr_mapping_info d)" w] s by simp
  note i1 = memory_ok_log[OF i l]
  show ?thesis
  proof (cases ok)
    case True
    obtain w2 where 2: "mali_allocation_engine_release_memory (mali_engine env as) (physical_allocators env (mali_engine env as))
        untrack d (map Some hs) w1 = Some w2" "memory_ok env L F M P H w2"
      using memory.release_memory_ok[OF i1 v u, of untrack, OF memory_ok_untrack] by blast
    have "memory_ok env L F M P H (resume_mmus hw (active_mmus w2 (mali_addr_mapping_info d)) w2)"
      by (rule memory_ok_log[OF 2(2) resume_mmus_log])
    then show ?thesis using s True 2(1) by (simp add: mali_ukk_mem_munmap_internal_def)
  next
    case False
    then show ?thesis using s i1 by (simp add: mali_ukk_mem_munmap_internal_def)
  qed
qed

lemma munmap_ok:
  assumes "memory_ok env L F (add_mset d M) (if into_userspace d then add_mset d P else P) (mset hs + H) w"
    "valid_range L d" "\<forall>h \<in> set hs. handle_descriptor h = d"
    "\<forall>h \<in># H. into_userspace (handle_descriptor h) \<longrightarrow> handle_descriptor h \<in># P"
    "fst (stall_mmus hw (active_mmus w (mali_addr_mapping_info d)) w)"
  shows "\<exists>w'. mali_ukk_mem_munmap hw env as (d, map Some hs) w = Some (ERR_OK, w') \<and> memory_ok env L F M P H w'"
proof -
  obtain w' where "mali_ukk_mem_munmap_internal hw env as (d, map Some hs) w = Some (ERR_OK, w')" "memory_ok env L F M P H w'"
    using munmap_internal_ok[OF assms(1-4), of hw "as"] assms(5) by auto
  then show ?thesis by (subst mali_ukk_mem_munmap.simps) simp
qed


subsection \<open>Sessions\<close>

lemma memory_ok_pages:
  assumes "memory_ok env L F M P H w" "pages_ok env L' F' (mali_count M) H w'" "mmu_state.more w' = mmu_state.more w"
  shows "memory_ok env L' F' M P H w'"
  using assms proc_inv_more[of P w w'] held_more[of w' w] by (simp add: memory_ok_def)

lemma mem_inv_fill: "mem_inv env H U w \<Longrightarrow> mem_inv env H U (fill_page p v w)"
  by (rule mem_inv_frame[of env H U w]) (simp_all add: fill_page_mem)

definition new_session :: "nat \<Rightarrow> u32 \<Rightarrow> 'a mmu_state_scheme \<Rightarrow> 'a mmu_state_scheme" where
  "new_session s p w = fill_page p 0 (upd_ms s (\<lambda>_. \<lparr>page_directory = p, page_directory_mapped = p,
     page_entries_mapped = \<lambda>_. None, page_entries_usage_count = \<lambda>_. 0\<rparr>) w)"

lemma new_session_pages:
  assumes "pages_ok env L (insert p F) C H w" "s \<notin> L" "p \<notin> F" "\<And>i. i < 1024 \<Longrightarrow> C s i = 0"
  shows "pages_ok env (insert s L) F C H (new_session s p w)"
proof -
  obtain U where U: "mem_inv env H U w" "pd_inv L (insert p F) C U w" by (rule pages_ok_D[OF assms(1)])
  have "mem_inv env H U (new_session s p w)"
    using U(1) unfolding new_session_def by (intro mem_inv_fill) (rule mem_inv_frame[of env H U w], simp_all add: upd_ms_def)
  moreover have "pd_inv (insert s L) F C U (new_session s p w)"
    by (rule pd_inv_enter[OF U(2) assms(2,3)]) (simp_all add: new_session_def fill_page_mem upd_ms_def assms(4))
  ultimately show ?thesis by (rule pages_okI)
qed

text \<open>The failed session leaves its page directory cleared, and free.\<close>

lemma lost_session_pages:
  assumes "pages_ok env L (insert p F) C H w" "s \<notin> L"
  shows "pages_ok env L (insert p F) C H (new_session s p w)"
  by (rule write_page_F[OF assms(1), of p]) (use assms(2) in \<open>auto simp: new_session_def fill_page_mem upd_ms_def\<close>)

lemma session_begin_ok:
  assumes i: "memory_ok env L F M P H w" and s: "s \<notin> L" "\<And>i. i < 1024 \<Longrightarrow> mali_count M s i = 0"
  shows "\<exists>err slot' w'. mali_memory_core_session_begin env as mapping_ok lock_ok s slot w = Some (err, slot', w') \<and>
    (if err = ERR_OK then slot = Some None \<and> slot' = Some (Some s) \<and> memory_ok env (insert s L) F M P H w' \<and>
       (\<forall>i. mapped_of s i w' = None)
     else slot' = slot \<and> memory_ok env L F M P H w')"
proof (cases "slot = Some None \<and> kmalloc env Session_site w \<and> mapping_ok")
  case False
  then show ?thesis using i by (auto simp: mali_memory_core_session_begin_def)
next
  case True
  have po: "pages_ok env L F (mali_count M) H w" using i by (simp add: memory_ok_def)
  obtain err p q w1 where g: "mali_mmu_get_table_page env as w = Some (err, p, q, w1)" "cache_frame w1 w"
    "if err = ERR_OK then q = Some p \<and> p \<notin> F \<and> 4096 dvd unat p \<and> pages_ok env L (insert p F) (mali_count M) H w1 \<and>
       (\<forall>x. x \<notin> page_words p \<longrightarrow> phys_mem w1 x = phys_mem w x)
     else err = ERR_NOMEM \<and> pages_ok env L F (mali_count M) H w1 \<and> phys_mem w1 = phys_mem w"
    using get_page_ok[OF po] by blast
  have m1: "mmu_state.more w1 = mmu_state.more w" using g(2) by (simp add: cache_frame_def)
  show ?thesis
  proof (cases "err = ERR_OK")
    case False
    then show ?thesis using True g memory_ok_pages[OF i _ m1] by (simp add: mali_memory_core_session_begin_def)
  next
    case ok: True
    have p: "q = Some p" "p \<notin> F" "pages_ok env L (insert p F) (mali_count M) H w1" using g(3) ok by simp_all
    let ?n = "new_session s p w1"
    have mn: "mmu_state.more ?n = mmu_state.more w" using m1 by (simp add: new_session_def fill_page_mem upd_ms_def)
    show ?thesis
    proof (cases lock_ok)
      case l: True
      have n: "memory_ok env (insert s L) F M P H ?n"
        by (rule memory_ok_pages[OF i new_session_pages[OF p(3) s(1) p(2) s(2)] mn])
      let ?w = "?n\<lparr>active_mmus := (active_mmus ?n)(s := []), memory_head := (memory_head ?n)(s := [])\<rparr>"
      have "memory_ok env (insert s L) F M P H ?w" by (rule memory_ok_frame[OF n]) simp_all
      moreover have "mapped_of s i ?w = None" for i by (simp add: mapped_of_def new_session_def fill_page_mem upd_ms_def)
      ultimately show ?thesis using True ok g(1) p(1) l
        by (simp add: mali_memory_core_session_begin_def new_session_def Let_def)
    next
      case l: False
      have n: "memory_ok env L (insert p F) M P H ?n"
        by (rule memory_ok_pages[OF i lost_session_pages[OF p(3) s(1)] mn])
      let ?w = "?n\<lparr>active_mmus := (active_mmus ?n)(s := [])\<rparr>"
      have w: "memory_ok env L (insert p F) M P H ?w" by (rule memory_ok_frame[OF n]) simp_all
      then have "pages_ok env L (insert p F) (mali_count M) H ?w" by (simp add: memory_ok_def)
      then obtain w' where r: "mali_mmu_release_table_page env p ?w = Some w'" "cache_frame w' ?w"
        "pages_ok env L (insert p F - {p}) (mali_count M) H w'" using release_page_ok[of env L "insert p F" _ H ?w p] by auto
      have "memory_ok env L F M P H w'"
        using memory_ok_pages[OF w, of L F w'] r(2,3) p(2) by (simp add: cache_frame_def)
      then show ?thesis using True ok g(1) p(1) l r(1)
        by (simp add: mali_memory_core_session_begin_def new_session_def Let_def)
    qed
  qed
qed

text \<open>At the end all pages of the session are free again, and those of the others are kept.\<close>

lemma session_end_ok:
  assumes i: "memory_ok env L F M P H w" and s: "s \<in> L"
  shows "\<exists>w'. mali_memory_core_session_end env (Some (Some s)) w = Some (Some None, w') \<and> memory_ok env (L - {s}) F M P H w' \<and>
    (\<forall>t \<in> L - {s}. msessions w' t = msessions w t)"
proof -
  have po: "pages_ok env L F (mali_count M) H w" using i by (simp add: memory_ok_def)
  obtain w1 w2 where 1: "release_page_entries env s [0..<1024] w = Some w1" "page_directory (msessions w1 s) = pd_page w s"
    "mali_mmu_release_table_page env (pd_page w s) w1 = Some w2" "pages_ok env (L - {s}) F (mali_count M) H w2"
    "msessions w2 = msessions w" "mmu_state.more w2 = mmu_state.more w" using leave_pages[OF po s] by blast
  obtain U where U: "mem_inv env H U w" "pd_inv L F (mali_count M) U w" by (rule pages_ok_D[OF po])
  have al: "4096 dvd unat (pd_page w s)" using pd_parts(2,3)[OF U(2) s, of 0] by auto
  then have ne: "pd_page w s \<noteq> MALI_INVALID_PAGE" by (auto simp: MALI_INVALID_PAGE_def unsigned_minus_1_eq_mask mask_eq_exp_minus_1)
  let ?w = "upd_ms s (\<lambda>x. x\<lparr>page_directory := MALI_INVALID_PAGE\<rparr>) w2"
  have m2: "memory_ok env (L - {s}) F M P H w2" by (rule memory_ok_pages[OF i 1(4,6)])
  obtain V where V: "mem_inv env H V w2" "pd_inv (L - {s}) F (mali_count M) V w2" by (rule pages_ok_D[OF 1(4)])
  have "pages_ok env (L - {s}) F (mali_count M) H ?w"
  proof (rule pages_okI)
    show "mem_inv env H V ?w" by (rule mem_inv_frame[OF V(1)]) (simp_all add: upd_ms_def)
    show "pd_inv (L - {s}) F (mali_count M) V ?w" by (rule pd_inv_cong[OF V(2)]) (auto simp: upd_ms_def)
  qed
  then have "memory_ok env (L - {s}) F M P H ?w" by (rule memory_ok_pages[OF m2]) (simp add: upd_ms_def)
  moreover have "\<forall>t \<in> L - {s}. msessions ?w t = msessions w t" using 1(5) by (simp add: upd_ms_def)
  ultimately show ?thesis using 1(1-3) ne by (simp add: mali_memory_core_session_end_def)
qed


subsection \<open>Helper pages\<close>

lemma other_page_kept:
  assumes "pages_ok env L F C H w" "p \<in> F" "q \<in> F" "p \<noteq> q" "x \<in> page_words q"
  shows "x \<notin> page_words p"
proof -
  obtain U where U: "pd_inv L F C U w" by (rule pages_ok_D[OF assms(1)])
  have "4096 dvd unat p" "4096 dvd unat q" using pd_inv_F(3)[OF U] assms(2,3) by blast+
  then show ?thesis using page_words_disjoint assms(4,5) by blast
qed

lemma fill_memory_ok:
  assumes "memory_ok env L F M P H w" "p \<in> F"
  shows "memory_ok env L F M P H (fill_page p v w)"
proof (rule memory_ok_pages[OF assms(1)])
  have "pages_ok env L F (mali_count M) H w" using assms(1) by (simp add: memory_ok_def)
  then show "pages_ok env L F (mali_count M) H (fill_page p v w)"
    by (rule write_page_F[OF _ assms(2)]) (simp_all add: fill_page_mem)
qed (simp add: fill_page_mem)

lemma get_page_memory_ok:
  assumes i: "memory_ok env L F M P H w"
  shows "\<exists>err p q w'. mali_mmu_get_table_page env as w = Some (err, p, q, w') \<and> cache_frame w' w \<and>
    (if err = ERR_OK then q = Some p \<and> p \<notin> F \<and> 4096 dvd unat p \<and> memory_ok env L (insert p F) M P H w'
     else err = ERR_NOMEM \<and> memory_ok env L F M P H w')"
proof -
  have "pages_ok env L F (mali_count M) H w" using i by (simp add: memory_ok_def)
  from get_page_ok[OF this, of "as"] obtain err p q w' where g: "mali_mmu_get_table_page env as w = Some (err, p, q, w')" "cache_frame w' w"
    "if err = ERR_OK then q = Some p \<and> p \<notin> F \<and> 4096 dvd unat p \<and> pages_ok env L (insert p F) (mali_count M) H w' \<and>
       (\<forall>x. x \<notin> page_words p \<longrightarrow> phys_mem w' x = phys_mem w x)
     else err = ERR_NOMEM \<and> pages_ok env L F (mali_count M) H w' \<and> phys_mem w' = phys_mem w" by blast
  show ?thesis using g memory_ok_pages[OF i, of _ _ w'] by (auto simp: cache_frame_def)
qed

lemma release_page_memory_ok:
  assumes i: "memory_ok env L F M P H w" and p: "p \<in> F"
  shows "\<exists>w'. mali_mmu_release_table_page env p w = Some w' \<and> memory_ok env L (F - {p}) M P H w'"
proof -
  have "pages_ok env L F (mali_count M) H w" using i by (simp add: memory_ok_def)
  from release_page_ok[OF this p] obtain w' where "mali_mmu_release_table_page env p w = Some w'" "cache_frame w' w"
    "pages_ok env L (F - {p}) (mali_count M) H w'" by blast
  then show ?thesis using memory_ok_pages[OF i] by (auto simp: cache_frame_def)
qed

lemma not_invalid_page: "4096 dvd unat p \<Longrightarrow> p \<noteq> MALI_INVALID_PAGE"
  by (auto simp: MALI_INVALID_PAGE_def unsigned_minus_1_eq_mask mask_eq_exp_minus_1)

lemma empty_page_directory_ok:
  assumes "memory_ok env L F M P H w"
  shows "\<exists>err w'. mali_allocate_empty_page_directory env as w = Some (err, w') \<and>
    (if err = ERR_OK then mali_empty_page_directory w' \<notin> F \<and> mali_empty_page_directory w' \<noteq> MALI_INVALID_PAGE \<and>
       memory_ok env L (insert (mali_empty_page_directory w') F) M P H w' \<and>
       (\<forall>i < 1024. phys_mem w' (mali_empty_page_directory w' + of_nat i * 4) = 0)
     else err = ERR_NOMEM \<and> memory_ok env L F M P H w')"
proof -
  obtain err p q w1 where g: "mali_mmu_get_table_page env as w = Some (err, p, q, w1)"
    "if err = ERR_OK then q = Some p \<and> p \<notin> F \<and> 4096 dvd unat p \<and> memory_ok env L (insert p F) M P H w1
     else err = ERR_NOMEM \<and> memory_ok env L F M P H w1" using get_page_memory_ok[OF assms, of "as"] by blast
  let ?w = "w1\<lparr>mali_empty_page_directory := p\<rparr>"
  have f: "memory_ok env L X M P H w1 \<Longrightarrow> memory_ok env L X M P H ?w" for X
    by (rule memory_ok_frame[of env L X M P H w1]) simp_all
  show ?thesis
  proof (cases "err = ERR_OK")
    case True
    then have "memory_ok env L (insert p F) M P H ?w" using g(2) f by simp
    then have "memory_ok env L (insert p F) M P H (fill_page p 0 ?w)" by (rule fill_memory_ok) simp
    then show ?thesis using g True not_invalid_page word_in_page[of _ p]
      by (simp add: mali_allocate_empty_page_directory_def fill_page_mem)
  next
    case False
    then show ?thesis using g f by (simp add: mali_allocate_empty_page_directory_def)
  qed
qed


lemma free_empty_page_directory_ok:
  assumes i: "memory_ok env L F M P H w" and p: "mali_empty_page_directory w \<in> F"
  shows "\<exists>w'. mali_free_empty_page_directory env w = Some w' \<and> mali_empty_page_directory w' = MALI_INVALID_PAGE \<and>
    memory_ok env L (F - {mali_empty_page_directory w}) M P H w'"
proof -
  let ?p = "mali_empty_page_directory w"
  have "pages_ok env L F (mali_count M) H w" using i by (simp add: memory_ok_def)
  then obtain U where "pd_inv L F (mali_count M) U w" by (rule pages_ok_D)
  then have ne: "?p \<noteq> MALI_INVALID_PAGE" using pd_inv_F(3) p not_invalid_page by blast
  obtain w1 where 1: "mali_mmu_release_table_page env ?p w = Some w1" "memory_ok env L (F - {?p}) M P H w1"
    using release_page_memory_ok[OF i p] by blast
  have "memory_ok env L (F - {?p}) M P H (w1\<lparr>mali_empty_page_directory := MALI_INVALID_PAGE\<rparr>)"
    by (rule memory_ok_frame[OF 1(2)]) simp_all
  then show ?thesis using 1(1) ne by (simp add: mali_free_empty_page_directory_def)
qed

text \<open>The flush pages are a directory whose entries all lead to one table, whose entries all lead to one page.\<close>

definition flush_chain :: "'a mmu_units_scheme \<Rightarrow> bool" where
  "flush_chain w \<longleftrightarrow> (\<forall>i < 1024.
     phys_mem w (mali_page_fault_flush_page_directory w + of_nat i * 4) =
       mali_page_fault_flush_page_table w OR MALI_MMU_FLAGS_PRESENT \<and>
     phys_mem w (mali_page_fault_flush_page_table w + of_nat i * 4) =
       mali_page_fault_flush_data_page w OR MALI_MMU_FLAGS_WRITE_PERMISSION OR MALI_MMU_FLAGS_READ_PERMISSION OR MALI_MMU_FLAGS_PRESENT \<and>
     phys_mem w (mali_page_fault_flush_data_page w + of_nat i * 4) = 0)"

definition flush_pages :: "'a mmu_units_scheme \<Rightarrow> u32 list" where
  "flush_pages w = [mali_page_fault_flush_page_directory w, mali_page_fault_flush_page_table w, mali_page_fault_flush_data_page w]"

lemma memory_ok_fields [simp]:
  "memory_ok env L F M P H (w\<lparr>mali_empty_page_directory := p\<rparr>) = memory_ok env L F M P H w"
  "memory_ok env L F M P H (w\<lparr>mali_page_fault_flush_page_directory := p\<rparr>) = memory_ok env L F M P H w"
  "memory_ok env L F M P H (w\<lparr>mali_page_fault_flush_page_table := p\<rparr>) = memory_ok env L F M P H w"
  "memory_ok env L F M P H (w\<lparr>mali_page_fault_flush_data_page := p\<rparr>) = memory_ok env L F M P H w"
  by (auto elim: memory_ok_frame)

lemma flush_fields:
  "cache_frame w' (w :: os_mem) \<Longrightarrow> mali_page_fault_flush_page_directory w' = mali_page_fault_flush_page_directory w"
  "cache_frame w' (w :: os_mem) \<Longrightarrow> mali_page_fault_flush_page_table w' = mali_page_fault_flush_page_table w"
  "cache_frame w' (w :: os_mem) \<Longrightarrow> mali_page_fault_flush_data_page w' = mali_page_fault_flush_data_page w"
  by (cases w; cases w'; simp add: cache_frame_def)+

lemma give_back_page:
  "memory_ok env L (insert p F) M P H w \<Longrightarrow> p \<notin> F \<Longrightarrow>
     \<exists>w'. mali_mmu_release_table_page env p w = Some w' \<and> memory_ok env L F M P H w'"
  using release_page_memory_ok[of env L "insert p F" M P H w p] by simp

lemma flush_filled:
  assumes i: "memory_ok env L F M P H w" and s: "set (flush_pages w) \<subseteq> F" "distinct (flush_pages w)"
    and v: "v = fill_page (mali_page_fault_flush_page_directory w) (mali_page_fault_flush_page_table w OR MALI_MMU_FLAGS_PRESENT)
        (fill_page (mali_page_fault_flush_page_table w) (mali_page_fault_flush_data_page w OR
            MALI_MMU_FLAGS_WRITE_PERMISSION OR MALI_MMU_FLAGS_READ_PERMISSION OR MALI_MMU_FLAGS_PRESENT)
          (fill_page (mali_page_fault_flush_data_page w) 0 w))"
  shows "memory_ok env L F M P H v \<and> flush_chain v \<and> flush_pages v = flush_pages w"
proof -
  have po: "pages_ok env L F (mali_count M) H w" using i by (simp add: memory_ok_def)
  have m: "mali_page_fault_flush_page_directory w \<in> F" "mali_page_fault_flush_page_table w \<in> F" "mali_page_fault_flush_data_page w \<in> F"
    and d: "mali_page_fault_flush_page_directory w \<noteq> mali_page_fault_flush_page_table w"
    "mali_page_fault_flush_page_directory w \<noteq> mali_page_fault_flush_data_page w"
    "mali_page_fault_flush_page_table w \<noteq> mali_page_fault_flush_data_page w"
    using s by (auto simp: flush_pages_def)
  note k = other_page_kept[OF po m(1,2) d(1)] other_page_kept[OF po m(1,3) d(2)] other_page_kept[OF po m(2,3) d(3)]
  have "flush_chain v" unfolding v flush_chain_def
    using k word_in_page[of _ "mali_page_fault_flush_page_directory w"] word_in_page[of _ "mali_page_fault_flush_page_table w"]
      word_in_page[of _ "mali_page_fault_flush_data_page w"]
    by (auto simp: fill_page_mem)
  moreover have "memory_ok env L F M P H v" unfolding v by (intro fill_memory_ok i m)
  moreover have "flush_pages v = flush_pages w" unfolding v by (simp add: fill_page_mem flush_pages_def)
  ultimately show ?thesis by blast
qed

lemma fault_flush_pages_ok:
  assumes i: "memory_ok env L F M P H w"
  shows "\<exists>err w'. mali_allocate_fault_flush_pages env as w = Some (err, w') \<and>
    (if err = ERR_OK then distinct (flush_pages w') \<and> set (flush_pages w') \<inter> F = {} \<and> flush_chain w' \<and>
       memory_ok env L (set (flush_pages w') \<union> F) M P H w'
     else err = ERR_NOMEM \<and> memory_ok env L F M P H w')"
proof -
  note defs = mali_allocate_fault_flush_pages_def
  obtain e1 a aq w1 where 1: "mali_mmu_get_table_page env as w = Some (e1, a, aq, w1)"
    "if e1 = ERR_OK then aq = Some a \<and> a \<notin> F \<and> memory_ok env L (insert a F) M P H w1
     else e1 = ERR_NOMEM \<and> memory_ok env L F M P H w1" using get_page_memory_ok[OF i, of "as"] by metis
  let ?w1 = "w1\<lparr>mali_page_fault_flush_data_page := a\<rparr>"
  show ?thesis
  proof (cases "e1 = ERR_OK")
    case False
    then show ?thesis using 1 by (simp add: defs)
  next
    case ok1: True
    then have a: "aq = Some a" "a \<notin> F" "memory_ok env L (insert a F) M P H ?w1" using 1(2) by simp_all
    obtain e2 b bq w2 where 2: "mali_mmu_get_table_page env as ?w1 = Some (e2, b, bq, w2)" "cache_frame w2 ?w1"
      "if e2 = ERR_OK then bq = Some b \<and> b \<notin> insert a F \<and> memory_ok env L (insert b (insert a F)) M P H w2
       else e2 = ERR_NOMEM \<and> memory_ok env L (insert a F) M P H w2" using get_page_memory_ok[OF a(3), of "as"] by metis
    let ?w2 = "w2\<lparr>mali_page_fault_flush_page_table := b\<rparr>"
    show ?thesis
    proof (cases "e2 = ERR_OK")
      case False
      then have e: "e2 = ERR_NOMEM" "memory_ok env L (insert a F) M P H ?w2" using 2(3) by simp_all
      from give_back_page[OF e(2) a(2)] show ?thesis using 1 2 a ok1 e(1) by (auto simp: defs)
    next
      case ok2: True
      then have b: "bq = Some b" "b \<notin> insert a F" "memory_ok env L (insert b (insert a F)) M P H ?w2" using 2(3) by simp_all
      obtain e3 c cq w3 where 3: "mali_mmu_get_table_page env as ?w2 = Some (e3, c, cq, w3)" "cache_frame w3 ?w2"
        "if e3 = ERR_OK then cq = Some c \<and> c \<notin> insert b (insert a F) \<and> memory_ok env L (insert c (insert b (insert a F))) M P H w3
         else e3 = ERR_NOMEM \<and> memory_ok env L (insert b (insert a F)) M P H w3" using get_page_memory_ok[OF b(3), of "as"] by metis
      let ?w3 = "w3\<lparr>mali_page_fault_flush_page_directory := c\<rparr>"
      show ?thesis
      proof (cases "e3 = ERR_OK")
        case False
        then have e: "e3 = ERR_NOMEM" "memory_ok env L (insert b (insert a F)) M P H ?w3" using 3(3) by simp_all
        obtain w4 where 4: "mali_mmu_release_table_page env b ?w3 = Some w4" "memory_ok env L (insert a F) M P H w4"
          using give_back_page[OF e(2) b(2)] by blast
        then have "memory_ok env L (insert a F) M P H (w4\<lparr>mali_page_fault_flush_page_table := MALI_INVALID_PAGE\<rparr>)" by simp
        from give_back_page[OF this a(2)] show ?thesis using 1 2 3 a b ok1 ok2 e(1) 4(1) by (auto simp: defs)
      next
        case ok3: True
        let ?F = "insert c (insert b (insert a F))"
        have c: "cq = Some c" "c \<notin> insert b (insert a F)" "memory_ok env L ?F M P H ?w3" using 3(3) ok3 by simp_all
        have f: "flush_pages ?w3 = [c, b, a]"
          using flush_fields[OF 2(2)] flush_fields[OF 3(2)] by (simp add: flush_pages_def)
        then have g: "mali_page_fault_flush_page_table w3 = b" "mali_page_fault_flush_data_page w3 = a" by (simp_all add: flush_pages_def)
        have "set (flush_pages ?w3) \<subseteq> ?F" "distinct (flush_pages ?w3)" using f b(2) c(2) by auto
        note w = flush_filled[OF c(3) this refl]
        have "set (flush_pages ?w3) \<union> F = ?F" "set (flush_pages ?w3) \<inter> F = {}" using f a(2) b(2) c(2) by auto
        then show ?thesis using w 1(1) 2(1) 3(1) a(1) b(1,2) c(1,2) ok1 ok2 ok3 f g by (simp add: defs)
      qed
    qed
  qed
qed

text \<open>Freed, all three pages are available again.\<close>

lemma free_page_ok:
  assumes "memory_ok env L (insert p F) M P H w" "p \<notin> F"
  shows "\<exists>w'. free_page env p w = Some w' \<and> cache_frame w' w \<and> memory_ok env L F M P H w'"
proof -
  have po: "pages_ok env L (insert p F) (mali_count M) H w" using assms(1) by (simp add: memory_ok_def)
  obtain U where U: "pd_inv L (insert p F) (mali_count M) U w" by (rule pages_ok_D[OF po])
  have "p \<noteq> MALI_INVALID_PAGE" using pd_inv_F(3)[OF U, of p] not_invalid_page by blast
  moreover obtain w' where "mali_mmu_release_table_page env p w = Some w'" "cache_frame w' w" "memory_ok env L F M P H w'"
    using give_back_page[OF assms] release_page_ok[OF po, of p] by auto
  ultimately show ?thesis by (simp add: free_page_def)
qed

lemma free_fault_flush_pages_ok:
  assumes i: "memory_ok env L (set (flush_pages w) \<union> F) M P H w" and d: "distinct (flush_pages w)" "set (flush_pages w) \<inter> F = {}"
  shows "\<exists>w'. mali_free_fault_flush_pages env w = Some w' \<and> memory_ok env L F M P H w' \<and>
    flush_pages w' = [MALI_INVALID_PAGE, MALI_INVALID_PAGE, MALI_INVALID_PAGE]"
proof -
  let ?c = "mali_page_fault_flush_page_directory w" and ?b = "mali_page_fault_flush_page_table w" and ?a = "mali_page_fault_flush_data_page w"
  have n: "?c \<notin> insert ?b (insert ?a F)" "?b \<notin> insert ?a F" "?a \<notin> F" using d by (auto simp: flush_pages_def)
  have "memory_ok env L (insert ?c (insert ?b (insert ?a F))) M P H w" using i by (simp add: flush_pages_def)
  from free_page_ok[OF this n(1)] obtain w1 where 1: "free_page env ?c w = Some w1" "cache_frame w1 w"
    "memory_ok env L (insert ?b (insert ?a F)) M P H w1" by blast
  let ?w1 = "w1\<lparr>mali_page_fault_flush_page_directory := MALI_INVALID_PAGE\<rparr>"
  have m1: "memory_ok env L (insert ?b (insert ?a F)) M P H ?w1" using 1(3) by simp
  from free_page_ok[OF m1 n(2)] obtain w2 where 2: "free_page env ?b ?w1 = Some w2" "cache_frame w2 ?w1"
    "memory_ok env L (insert ?a F) M P H w2" by blast
  let ?w2 = "w2\<lparr>mali_page_fault_flush_page_table := MALI_INVALID_PAGE\<rparr>"
  have m2: "memory_ok env L (insert ?a F) M P H ?w2" using 2(3) by simp
  from free_page_ok[OF m2 n(3)] obtain w3 where 3: "free_page env ?a ?w2 = Some w3" "cache_frame w3 ?w2"
    "memory_ok env L F M P H w3" by blast
  show ?thesis using 1(1) 2(1) 3(1,3) flush_fields[OF 1(2)] flush_fields[OF 2(2)] flush_fields[OF 3(2)]
    by (simp add: mali_free_fault_flush_pages_def flush_pages_def)
qed

end
