(* ===== verification/Memory_Reach.thy ===== *)
theory Memory_Reach
  imports Session_Contracts
begin

text \<open>
  The memory system as a machine: sessions begin and end, and memory is mapped and unmapped, in any order
  and with any outcome; between these steps the rest of the driver changes what is not memory.  The
  invariant of all reachable states is the account of the whole physical memory.
\<close>

subsection \<open>The machine\<close>

text \<open>
  The state has the live sessions, the mappings with the cookies that unmap them, and the memory.  A
  range is page aligned, not empty and ends before the end of the address space; a session ends when
  nothing is mapped in it.
\<close>

type_synonym cookie = "mali_memory_allocation \<times> phys_handle option list"
type_synonym system = "nat set \<times> cookie list \<times> os_mem"

definition same_memory :: "os_mem \<Rightarrow> os_mem \<Rightarrow> bool" where
  "same_memory w' w \<longleftrightarrow> msessions w' = msessions w \<and> phys_mem w' = phys_mem w \<and> blk w' = blk w \<and> osa w' = osa w \<and>
     pt_partial w' = pt_partial w \<and> pt_full w' = pt_full w \<and> infos w' = infos w \<and>
     pre_allocated_memory w' = pre_allocated_memory w \<and> kernel_pages w' = kernel_pages w"

inductive mem_step :: "mmu_hw \<Rightarrow> os_mem os_env \<Rightarrow> allocator_id list \<Rightarrow> system \<Rightarrow> system \<Rightarrow> bool"
  for hw :: mmu_hw and env :: "os_mem os_env" and allocators :: "allocator_id list" where
  session_begin: "s \<notin> L \<Longrightarrow>
    mali_memory_core_session_begin env allocators mapping_ok lock_ok s slot w = Some (err, slot', w') \<Longrightarrow>
    mem_step hw env allocators (L, C, w) (if err = ERR_OK then insert s L else L, C, w')"
| session_end: "s \<in> L \<Longrightarrow> \<forall>c \<in> set C. mali_addr_mapping_info (fst c) \<noteq> s \<Longrightarrow>
    mali_memory_core_session_end env (Some (Some s)) w = Some (slot', w') \<Longrightarrow>
    mem_step hw env allocators (L, C, w) (L - {s}, C, w')"
| mmap: "s \<in> L \<Longrightarrow> mali_range (mmap_descriptor s a sz v) \<Longrightarrow> length C < 2 ^ 32 - 1 \<Longrightarrow>
    mali_ukk_mem_mmap hw env allocators (Some s) a sz v w = Some (err, r, w') \<Longrightarrow>
    mem_step hw env allocators (L, C, w) (L, case r of None \<Rightarrow> C | Some c \<Rightarrow> c # C, w')"
| munmap: "c \<in> set C \<Longrightarrow> mali_ukk_mem_munmap_internal hw env allocators c w = Some (err, w') \<Longrightarrow>
    mem_step hw env allocators (L, C, w) (L, if err = ERR_OK then remove1 c C else C, w')"
| other: "same_memory w' w \<Longrightarrow> mem_step hw env allocators (L, C, w) (L, C, w')"

inductive_cases mem_step_E [elim]: "mem_step hw env allocators (L, C, w) t"

subsection \<open>What is asked of Linux, and of the start\<close>

text \<open>
  \<open>uninterrupted\<close>: no signal ends the wait for the mutex of a block allocator.  \<open>fresh_memory\<close>:
  memory had from Linux is aligned, and nobody else's: not that of a block allocator, not that of another
  block of page tables, nor a \<open>MappingInfo\<close> in use.  \<open>page_supply\<close> is in Process\_Address.
\<close>

definition uninterrupted :: "'a mmu_state_scheme os_env \<Rightarrow> bool" where
  "uninterrupted env \<longleftrightarrow> (\<forall>w. \<not> lock_interrupted env w)"

definition fresh_memory :: "os_mem os_env \<Rightarrow> bool" where
  "fresh_memory env \<longleftrightarrow> fresh_infos env \<and>
     (\<forall>w p. dma_alloc_coherent env (64 * 4096) w = Some p \<longrightarrow> 4096 dvd unat p \<and> unat p + 2 ^ 18 \<le> 2 ^ 32 \<and>
        (\<forall>j. {unat p..<unat p + 2 ^ 18} \<inter> blk_region w j = {}) \<and>
        (\<forall>a \<in> set (tables w). \<forall>i n. pt_release (table_block a) = Os_pt i n \<longrightarrow>
           {unat p..<unat p + 2 ^ 18} \<inter> table_range a = {}))"

text \<open>
  The start: the regions of the block allocators are apart, all their blocks are free, nothing is mapped, and
  the only pages of Linux are those in the reserve; \<open>F\<close> are the helper pages.
\<close>

definition memory_starts :: "u32 set \<Rightarrow> os_mem \<Rightarrow> bool" where
  "memory_starts F w \<longleftrightarrow> regions_ok w \<and> alloc_inv {#} (table_releases w) w \<and>
     (\<exists>U. cache_inv U w \<and> pd_inv {} F (mali_count {#}) U w) \<and> proc_inv {#} w \<and> held_inv (held_pages w) {#}"

lemma memory_starts_ok:
  "uninterrupted env \<Longrightarrow> page_supply env \<Longrightarrow> fresh_memory env \<Longrightarrow> memory_starts F w \<Longrightarrow> memory_ok env {} F {#} {#} {#} w"
  by (auto simp: memory_starts_def memory_ok_def proc_env_def pages_ok_def mem_inv_def env_ok_def uninterrupted_def fresh_memory_def)

subsection \<open>The invariant\<close>

fun cookie_ok :: "nat set \<Rightarrow> cookie \<Rightarrow> bool" where
  "cookie_ok L (d, ts) \<longleftrightarrow> valid_range L d \<and> into_userspace d \<and> ts = map Some (live_trackers ts) \<and>
     (\<forall>h \<in> set (live_trackers ts). handle_descriptor h = d) \<and>
     tiles handle_start handle_length 0 (live_trackers ts) (alloc_size d)"

abbreviation cookie_ranges :: "cookie list \<Rightarrow> mali_memory_allocation multiset" where
  "cookie_ranges C \<equiv> mset (map fst C)"

definition cookie_handles :: "cookie list \<Rightarrow> phys_handle multiset" where
  "cookie_handles C = mset (concat (map (live_trackers \<circ> snd) C))"

lemma cookie_handles_simps [simp]:
  "cookie_handles [] = {#}" "cookie_handles ((d, ts) # C) = mset (live_trackers ts) + cookie_handles C"
  by (simp_all add: cookie_handles_def)

lemma cookie_remove:
  assumes "(d, ts) \<in> set C"
  shows "cookie_ranges C = add_mset d (cookie_ranges (remove1 (d, ts) C))"
    "cookie_handles C = mset (live_trackers ts) + cookie_handles (remove1 (d, ts) C)"
proof -
  have m: "mset C = add_mset (d, ts) (mset (remove1 (d, ts) C))" using assms by simp
  have "image_mset fst (mset C) = add_mset d (image_mset fst (mset (remove1 (d, ts) C)))" unfolding m by simp
  then show "cookie_ranges C = add_mset d (cookie_ranges (remove1 (d, ts) C))" by simp
  have h: "cookie_handles X = (\<Sum>c \<in># mset X. mset (live_trackers (snd c)))" for X
    by (induction X) (auto simp: cookie_handles_def)
  show "cookie_handles C = mset (live_trackers ts) + cookie_handles (remove1 (d, ts) C)"
    unfolding h m by simp
qed

fun system_ok :: "os_mem os_env \<Rightarrow> u32 set \<Rightarrow> system \<Rightarrow> bool" where
  "system_ok env F (L, C, w) \<longleftrightarrow> memory_ok env L F (cookie_ranges C) (cookie_ranges C) (cookie_handles C) w \<and>
     (\<forall>c \<in> set C. cookie_ok L c)"

lemma cookie_ok_mono:
  "cookie_ok L c \<Longrightarrow> L \<subseteq> L' \<Longrightarrow> cookie_ok L' c"
  "cookie_ok L c \<Longrightarrow> mali_addr_mapping_info (fst c) \<noteq> s \<Longrightarrow> cookie_ok (L - {s}) c"
  by (cases c; auto simp: valid_range_def)+

lemma cookie_handles_ranges:
  assumes "\<forall>c \<in> set C. cookie_ok L c"
  shows "\<forall>h \<in># cookie_handles C. handle_descriptor h \<in># cookie_ranges C \<and> into_userspace (handle_descriptor h)"
proof
  fix h assume "h \<in># cookie_handles C"
  then obtain d ts where c: "(d, ts) \<in> set C" "h \<in> set (live_trackers ts)" by (auto simp: cookie_handles_def)
  have "cookie_ok L (d, ts)" using assms c(1) by blast
  then have "handle_descriptor h = d" "into_userspace d" using c(2) by simp_all
  then show "handle_descriptor h \<in># cookie_ranges C \<and> into_userspace (handle_descriptor h)" using c(1) by force
qed

lemma no_use_of_new_session:
  assumes "\<forall>c \<in> set C. cookie_ok L c" "s \<notin> L"
  shows "mali_count (cookie_ranges C) s i = 0"
proof -
  have "mali_addr_mapping_info d \<noteq> s" if d: "d \<in># cookie_ranges C" for d
  proof -
    obtain ts where "(d, ts) \<in> set C" using d by auto
    then show ?thesis using assms by (auto simp: valid_range_def dest: bspec)
  qed
  then have "{#d \<in># cookie_ranges C. mali_addr_mapping_info d = s \<and> i \<in> pde_range d#} = {#}"
    by (intro multiset_eqI) (auto simp: count_eq_zero_iff)
  then show ?thesis by (simp add: mali_count_def)
qed

lemma mmap_descriptor_userspace: "same_range d (mmap_descriptor s a sz v) \<Longrightarrow> into_userspace d \<and> alloc_size d = sz"
  using same_range_fields[of d "mmap_descriptor s a sz v"]
  by (simp add: mmap_descriptor_def into_userspace_def FLAG_MAP_INTO_USERSPACE_def)

lemma begin_step:
  assumes i: "system_ok env F (L, C, w)" and s: "s \<notin> L"
  shows "\<exists>err slot' w'. mali_memory_core_session_begin env as mapping_ok lock_ok s slot w = Some (err, slot', w') \<and>
    system_ok env F (if err = ERR_OK then insert s L else L, C, w')"
proof -
  have m: "memory_ok env L F (cookie_ranges C) (cookie_ranges C) (cookie_handles C) w" "\<forall>c \<in> set C. cookie_ok L c"
    using i by simp_all
  note n = no_use_of_new_session[OF m(2) s]
  obtain err slot' w' where "mali_memory_core_session_begin env as mapping_ok lock_ok s slot w = Some (err, slot', w')"
    "if err = ERR_OK then slot = Some None \<and> slot' = Some (Some s) \<and>
       memory_ok env (insert s L) F (cookie_ranges C) (cookie_ranges C) (cookie_handles C) w' \<and> (\<forall>i. mapped_of s i w' = None)
     else slot' = slot \<and> memory_ok env L F (cookie_ranges C) (cookie_ranges C) (cookie_handles C) w'"
    using session_begin_ok[OF m(1) s n, of "as" mapping_ok lock_ok slot] by blast
  then show ?thesis using m(2) cookie_ok_mono(1)[of L _ "insert s L"] by (auto split: if_splits)
qed

lemma end_step:
  assumes i: "system_ok env F (L, C, w)" and s: "s \<in> L" "\<forall>c \<in> set C. mali_addr_mapping_info (fst c) \<noteq> s"
  shows "\<exists>w'. mali_memory_core_session_end env (Some (Some s)) w = Some (Some None, w') \<and> system_ok env F (L - {s}, C, w')"
proof -
  have m: "memory_ok env L F (cookie_ranges C) (cookie_ranges C) (cookie_handles C) w" "\<forall>c \<in> set C. cookie_ok L c"
    using i by simp_all
  from session_end_ok[OF m(1) s(1)] show ?thesis using m(2) s(2) cookie_ok_mono(2)[of L _ s] by auto
qed

lemma mmap_step:
  assumes i: "system_ok env F (L, C, w)" and s: "s \<in> L" "mali_range (mmap_descriptor s a sz v)" "length C < 2 ^ 32 - 1"
  shows "\<exists>err r w'. mali_ukk_mem_mmap hw env as (Some s) a sz v w = Some (err, r, w') \<and>
    system_ok env F (L, case r of None \<Rightarrow> C | Some c \<Rightarrow> c # C, w') \<and>
    (err = ERR_OK \<longleftrightarrow> r \<noteq> None) \<and> (\<forall>d ts. r = Some (d, ts) \<longrightarrow> same_range d (mmap_descriptor s a sz v))"
proof -
  have m: "memory_ok env L F (cookie_ranges C) (cookie_ranges C) (cookie_handles C) w" "\<forall>c \<in> set C. cookie_ok L c"
    using i by simp_all
  have sz: "size (cookie_ranges C) < 2 ^ 32 - 1" using s(3) by simp
  obtain err r w' where r: "mali_ukk_mem_mmap hw env as (Some s) a sz v w = Some (err, r, w')"
    "if err = ERR_OK then \<exists>d hs. r = Some (d, map Some hs) \<and> valid_range L d \<and> same_range d (mmap_descriptor s a sz v) \<and>
       tiles handle_start handle_length 0 hs sz \<and> (\<forall>h \<in> set hs. handle_descriptor h = d) \<and>
       memory_ok env L F (add_mset d (cookie_ranges C)) (add_mset d (cookie_ranges C)) (mset hs + cookie_handles C) w'
     else r = None \<and> memory_ok env L F (cookie_ranges C) (cookie_ranges C) (cookie_handles C) w'"
    using mmap_ok[OF m(1) s(1,2) sz, of hw "as"] cookie_handles_ranges[OF m(2)] by blast
  show ?thesis
  proof (cases "err = ERR_OK")
    case True
    then obtain d hs where h: "r = Some (d, map Some hs)" "valid_range L d" "same_range d (mmap_descriptor s a sz v)"
      "tiles handle_start handle_length 0 hs sz" "\<forall>h \<in> set hs. handle_descriptor h = d"
      "memory_ok env L F (add_mset d (cookie_ranges C)) (add_mset d (cookie_ranges C)) (mset hs + cookie_handles C) w'"
      using r(2) by auto
    then show ?thesis using r(1) True m(2) mmap_descriptor_userspace[OF h(3)] by simp
  qed (use r m in simp)
qed

lemma munmap_step:
  assumes i: "system_ok env F (L, C, w)" and c: "c \<in> set C"
  shows "\<exists>err w'. mali_ukk_mem_munmap_internal hw env as c w = Some (err, w') \<and> err \<in> {ERR_OK, ERR_BUSY} \<and>
    system_ok env F (L, if err = ERR_OK then remove1 c C else C, w')"
proof -
  obtain d ts where dt: "c = (d, ts)" by (cases c)
  let ?C = "remove1 (d, ts) C"
  have k: "cookie_ok L (d, ts)" "\<forall>c \<in> set C. cookie_ok L c" using i c dt by auto
  then have t: "ts = map Some (live_trackers ts)" "into_userspace d" "valid_range L d"
    "\<forall>h \<in> set (live_trackers ts). handle_descriptor h = d" by simp_all
  note e = cookie_remove[OF c[unfolded dt]]
  have m: "memory_ok env L F (add_mset d (cookie_ranges ?C)) (if into_userspace d then add_mset d (cookie_ranges ?C) else cookie_ranges ?C)
      (mset (live_trackers ts) + cookie_handles ?C) w"
    using i t(2) e by simp
  have kC: "\<forall>c \<in> set ?C. cookie_ok L c" using k(2) set_remove1_subset[of "(d, ts)" C] by blast
  then have u: "\<forall>h \<in># cookie_handles ?C. into_userspace (handle_descriptor h) \<longrightarrow> handle_descriptor h \<in># cookie_ranges ?C"
    using cookie_handles_ranges by blast
  show ?thesis
    using kC munmap_internal_ok[OF m t(3,4) u, of hw "as"] i k(2) t(1,2) e unfolding dt
    by (cases "fst (stall_mmus hw (active_mmus w (mali_addr_mapping_info d)) w)") auto
qed

theorem step_system_ok:
  assumes "mem_step hw env as x y" "system_ok env F x"
  shows "system_ok env F y"
  using assms
proof (induction rule: mem_step.induct)
  case (session_begin s L mapping_ok lock_ok slot w err slot' w' C)
  from begin_step[OF session_begin(3,1), of "as" mapping_ok lock_ok slot] session_begin(2) show ?case by auto
next
  case (session_end s L C w slot' w')
  from end_step[OF session_end(4,1,2)] session_end(3) show ?case by auto
next
  case (mmap s L a sz v C w err r w')
  from mmap_step[OF mmap(5,1-3), of hw "as"] mmap(4) show ?case by auto
next
  case (munmap c C w err w' L)
  from munmap_step[OF munmap(3,1), of hw "as"] munmap(2) show ?case by auto
next
  case (other w' w L C)
  then show ?case using memory_ok_frame[of env L F _ _ _ w w'] by (auto simp: same_memory_def)
qed

lemma reachable_system_ok:
  assumes "(mem_step hw env as)\<^sup>*\<^sup>* ({}, [], w0) x" "memory_ok env {} F {#} {#} {#} w0"
  shows "system_ok env F x"
  using assms(1)
proof (induction rule: rtranclp_induct)
  case base
  then show ?case using assms(2) by simp
qed (rule step_system_ok)

end
