(* ===== verification/Memory_Accounts.thy ===== *)
theory Memory_Accounts
  imports Memory_Reach
begin

text \<open>
  What the invariant says of the reachable states: every block of physical memory is in one place, the
  pages of the page tables are apart from each other and from the memory of the processes, and when
  everything is released nothing is lost.
\<close>

subsection \<open>The blocks of a list\<close>

fun blocks_of :: "nat \<Rightarrow> (nat \<Rightarrow> nat option) \<Rightarrow> nat option \<Rightarrow> nat list" where
  "blocks_of (Suc n) nx (Some b) = b # blocks_of n nx (nx b)"
| "blocks_of n nx p = []"

lemma blocks_of_links: "links nx p xs \<Longrightarrow> length xs \<le> n \<Longrightarrow> blocks_of n nx p = xs"
proof (induction xs arbitrary: n p)
  case (Cons b xs)
  then show ?case by (cases n) auto
qed (cases n; simp)

definition list_blocks :: "'a alloc_state_scheme \<Rightarrow> nat \<Rightarrow> nat option \<Rightarrow> nat list" where
  "list_blocks w i p = blocks_of (unat (num_blocks (blk w i))) (block_next (blk w i)) p"

definition used_lists :: "phys_handle multiset \<Rightarrow> 'a mmu_state_scheme \<Rightarrow> nat \<Rightarrow> nat option multiset" where
  "used_lists H w i = (\<Sum>h \<in># H. handle_list i h) + (\<Sum>t \<in># table_releases w. pt_list i t)"

lemma used_blocks:
  assumes "alloc_inv H (table_releases w) w"
  shows "mset (list_blocks w i (first_free (blk w i))) + (\<Sum>p \<in># used_lists H w i. mset (list_blocks w i p)) =
      mset [0..<unat (num_blocks (blk w i))]"
    "Some b \<in># used_lists H w i \<Longrightarrow> b \<in> set (list_blocks w i (Some b))"
proof -
  let ?n = "unat (num_blocks (blk w i))" and ?nx = "block_next (blk w i)"
  obtain fs C where C: "links ?nx (first_free (blk w i)) fs" "\<forall>p \<in># used_lists H w i. links ?nx p (C p)"
    "mset fs + (\<Sum>p \<in># used_lists H w i. mset (C p)) = mset [0..<?n]"
    using assms unfolding alloc_inv_def used_lists_def blk_inv_def by blast
  have fs: "list_blocks w i (first_free (blk w i)) = fs"
  proof -
    have "size (mset fs) \<le> ?n" using arg_cong[OF C(3), of size] by simp
    then show ?thesis unfolding list_blocks_def by (intro blocks_of_links C(1)) simp
  qed
  have l: "list_blocks w i p = C p" if p: "p \<in># used_lists H w i" for p
  proof -
    obtain M where "used_lists H w i = add_mset p M" using p by (metis mset_add)
    then have "size (mset (C p)) \<le> ?n" using arg_cong[OF C(3), of size] by simp
    then show ?thesis unfolding list_blocks_def using C(2) p by (intro blocks_of_links) auto
  qed
  have "(\<Sum>p \<in># used_lists H w i. mset (list_blocks w i p)) = (\<Sum>p \<in># used_lists H w i. mset (C p))"
    by (intro arg_cong[where f = sum_mset] image_mset_cong) (simp add: l)
  then show "mset (list_blocks w i (first_free (blk w i))) + (\<Sum>p \<in># used_lists H w i. mset (list_blocks w i p)) = mset [0..<?n]"
    using C(3) fs by simp
  show "b \<in> set (list_blocks w i (Some b))" if "Some b \<in># used_lists H w i"
    using C(2) that l[OF that] by (auto elim!: links_SomeE)
qed

lemma used_blocks_apart:
  assumes a: "alloc_inv H (table_releases w) w" and h: "Block_handle i h \<in># H" "b \<in> set (list_blocks w i (last_allocated h))"
    and t: "Block_pt i m \<in># table_releases w"
  shows "b < unat (num_blocks (blk w i))" "b \<noteq> m"
proof -
  obtain H' T' where HT: "H = add_mset (Block_handle i h) H'" "table_releases w = add_mset (Block_pt i m) T'"
    using h(1) t by (metis mset_add)
  define R where "R = add_mset (Some m) ((\<Sum>h \<in># H'. handle_list i h) + (\<Sum>t \<in># T'. pt_list i t))"
  have u: "used_lists H w i = add_mset (last_allocated h) R"
    by (simp add: used_lists_def HT R_def)
  note p = used_blocks(1)[OF a, of i, unfolded u]
  have s: "set (list_blocks w i (last_allocated h)) \<subseteq> {..<unat (num_blocks (blk w i))}"
    using arg_cong[OF p, of set_mset] by auto
  then show "b < unat (num_blocks (blk w i))" using h(2) by auto
  have "m \<in> set (list_blocks w i (Some m))" using used_blocks(2)[OF a, of m i] u by (simp add: R_def)
  moreover have "set (list_blocks w i (Some m)) \<inter> set (list_blocks w i (last_allocated h)) = {}"
    using partition_disjoint(2)[OF p, of "Some m"] by (auto simp: R_def)
  ultimately show "b \<noteq> m" using h(2) by blast
qed

subsection \<open>Page tables and data\<close>

definition block_bytes :: "'a alloc_state_scheme \<Rightarrow> nat \<Rightarrow> nat \<Rightarrow> nat set" where
  "block_bytes w i b = {unat (get_phys (blk w i) b)..<unat (get_phys (blk w i) b) + 2 ^ 18}"

definition page_bytes :: "u32 \<Rightarrow> nat set" where
  "page_bytes p = {unat p..<unat p + 4096}"

lemma page_in_table: "table_ok a \<Longrightarrow> p \<in> used_pages a \<Longrightarrow> page_bytes p \<subseteq> table_range a"
proof -
  assume a: "table_ok a" "p \<in> used_pages a"
  then obtain n where n: "n < 64" "p = pt_phys_base (table_block a) + of_nat n * 4096"
    by (auto simp: used_pages_def used_def)
  have u: "unat p = table_base a + n * 4096" using unat_page[OF a(1) n(1)] n(2) by simp
  have "n * 4096 + 4096 \<le> 2 ^ 18" using n(1) by simp
  then show ?thesis unfolding page_bytes_def table_range_def u by (intro ivl_subset[THEN iffD2] disjI2 conjI) simp_all
qed

lemma table_page_apart:
  assumes m: "mem_inv env H U w" and p: "p \<in> U"
    and h: "Block_handle i h \<in># H" "b \<in> set (list_blocks w i (last_allocated h))"
  shows "page_bytes p \<inter> block_bytes w i b = {}"
proof -
  have r: "regions_ok w" "alloc_inv H (table_releases w) w" "cache_inv U w" using m by (simp_all add: mem_inv_def)
  obtain a where a: "a \<in> set (tables w)" "table_ok a" "placed w a" "p \<in> used_pages a"
    using r(3) p by (auto simp: cache_inv_def)
  have sub: "page_bytes p \<subseteq> table_range a" by (rule page_in_table[OF a(2,4)])
  have b: "b < unat (num_blocks (blk w i))"
  proof -
    obtain H' where "H = add_mset (Block_handle i h) H'" using h(1) by (metis mset_add)
    then have "last_allocated h \<in># used_lists H w i" by (simp add: used_lists_def)
    then obtain R where "used_lists H w i = add_mset (last_allocated h) R" by (metis mset_add)
    from arg_cong[OF used_blocks(1)[OF r(2), of i, unfolded this], of set_mset] show ?thesis using h(2) by auto
  qed
  note bb = block_range[OF r(1) b, folded block_bytes_def]
  have "table_range a \<inter> block_bytes w i b = {}"
  proof (cases "pt_release (table_block a)")
    case (Block_pt j m)
    then have k: "m < unat (num_blocks (blk w j))" "pt_phys_base (table_block a) = get_phys (blk w j) m"
      using a(3) by (simp_all add: placed_def)
    have tr: "table_range a = block_bytes w j m" by (simp add: table_range_def table_base_def block_bytes_def k(2))
    show ?thesis
    proof (cases "j = i")
      case True
      have "Block_pt i m \<in># table_releases w" using a(1) Block_pt True by (force simp: table_releases_def)
      then have "b \<noteq> m" using used_blocks_apart[OF r(2) h] by blast
      then have "m * 2 ^ 18 + 2 ^ 18 \<le> b * 2 ^ 18 \<or> b * 2 ^ 18 + 2 ^ 18 \<le> (m :: nat) * 2 ^ 18"
        by (cases "b < m") (auto simp: not_less dest!: Suc_leI)
      then show ?thesis using block_range(1)[OF r(1) k(1)] bb(1) True unfolding tr block_bytes_def by auto
    next
      case False
      then have "blk_region w j \<inter> blk_region w i = {}" using r(1) by (simp add: regions_ok_def)
      then show ?thesis unfolding tr using block_range(2)[OF r(1) k(1), folded block_bytes_def] bb(2) by blast
    qed
  next
    case (Os_pt j n)
    then have "table_range a \<inter> blk_region w i = {}" using a(3) by (simp add: placed_def)
    then show ?thesis using bb(2) by blast
  qed
  then show ?thesis using sub by blast
qed

subsection \<open>The pages of Linux\<close>

fun os_pages :: "phys_handle \<Rightarrow> nat" where
  "os_pages (Block_handle i h) = 0"
| "os_pages (Os_handle i h) = unat (num_pages h)"

lemma size_sum:
  fixes f :: "'a \<Rightarrow> 'b multiset"
  shows "size (sum f A) = (\<Sum>x \<in> A. size (f x))"
  by (induction A rule: infinite_finite_induct) simp_all

lemma size_handle_offsets:
  assumes "finite D" "process_addr_mapping_info (handle_descriptor h) \<in> D" "into_userspace (handle_descriptor h)"
  shows "(\<Sum>k \<in> D. size (handle_offsets k h)) = os_pages h"
proof (cases h)
  case (Os_handle i a)
  have "size (handle_offsets k h) = (if k = process_addr_mapping_info (os_descriptor a) then unat (num_pages a) else 0)" for k
    using assms(3) Os_handle by (simp add: page_offsets_def)
  then show ?thesis using assms(1,2) Os_handle by (simp add: sum.delta)
qed simp

lemma size_offsets:
  assumes "finite D" "\<forall>h \<in># H. process_addr_mapping_info (handle_descriptor h) \<in> D \<and> into_userspace (handle_descriptor h)"
  shows "(\<Sum>k \<in> D. size (\<Sum>h \<in># H. handle_offsets k h)) = (\<Sum>h \<in># H. os_pages h)"
  using assms(2)
proof (induction H)
  case (add h H)
  then show ?case using size_handle_offsets[OF assms(1), of h] by (simp add: sum.distrib)
qed simp

lemma kernel_pages_count:
  assumes "memory_ok env L F M P H w" "\<forall>h \<in># H. handle_descriptor h \<in># P \<and> into_userspace (handle_descriptor h)"
  shows "size (kernel_pages w) = length (pre_allocated_memory w) + (\<Sum>h \<in># H. os_pages h)"
proof -
  have i: "proc_inv P w" "held_inv (held_pages w) H" using assms(1) by (simp_all add: memory_ok_def)
  have "finite (dom (infos w))" using i(1) by (simp add: proc_inv_def)
  moreover have "\<forall>h \<in># H. process_addr_mapping_info (handle_descriptor h) \<in> dom (infos w) \<and> into_userspace (handle_descriptor h)"
    using proc_inv_info[OF i(1)] assms(2) by blast
  ultimately have "(\<Sum>k \<in> dom (infos w). size (held_pages w k)) = (\<Sum>h \<in># H. os_pages h)"
    using size_offsets[of "dom (infos w)" H] i(2) by (simp add: held_inv_def)
  moreover have "size (listed_pages w) = (\<Sum>k \<in> dom (infos w). size (held_pages w k))"
    by (simp add: listed_pages_def held_pages_def size_sum)
  moreover have "kernel_pages w = mset (pre_allocated_memory w) + listed_pages w"
    using i(1) by (simp add: proc_inv_def page_account_def)
  ultimately show ?thesis by simp
qed

text \<open>The pages that the driver has of Linux are those in its reserve and those of the live mappings.\<close>

definition pages_counted :: "cookie list \<Rightarrow> os_mem \<Rightarrow> bool" where
  "pages_counted C w \<longleftrightarrow> size (kernel_pages w) = length (pre_allocated_memory w) + (\<Sum>h \<in># cookie_handles C. os_pages h)"

lemma system_pages:
  assumes "system_ok env F (L, C, w)"
  shows "pages_counted C w"
  unfolding pages_counted_def using assms kernel_pages_count[of env L F "cookie_ranges C" "cookie_ranges C" "cookie_handles C" w] cookie_handles_ranges[of C L]
  by simp

lemma no_listed_pages:
  assumes "memory_ok env L F M {#} H w"
  shows "kernel_pages w = mset (pre_allocated_memory w)" "infos w = (\<lambda>_. None)"
proof -
  have "proc_inv {#} w" using assms by (simp add: memory_ok_def)
  then have "mset_set (dom (infos w)) = {#}" "finite (dom (infos w))" "page_account w" by (simp_all add: proc_inv_def)
  then show "kernel_pages w = mset (pre_allocated_memory w)" "infos w = (\<lambda>_. None)"
    by (auto simp: page_account_def listed_pages_def mset_set_empty_iff)
qed

subsection \<open>Everything released\<close>

lemma all_free:
  assumes m: "memory_ok env {} {} M P {#} w"
  shows "tables w = []" "mset (list_blocks w i (first_free (blk w i))) = mset [0..<unat (num_blocks (blk w i))]"
    "num_pages_allocated (osa w i) = 0"
proof -
  have "pages_ok env {} {} (mali_count M) {#} w" using m by (simp add: memory_ok_def)
  then obtain U where U: "mem_inv env {#} U w" "pd_inv {} {} (mali_count M) U w" by (rule pages_ok_D)
  have "U = {}" using U(2) by (simp add: pd_inv_def table_pages_of_def)
  then have c: "\<forall>a \<in> set (tables w). table_ok a" "\<forall>a \<in> set (tables w). used_pages a = {}"
    using U(1) by (auto simp: mem_inv_def cache_inv_def)
  have "a \<notin> set (tables w)" for a
    using c by (auto simp: table_ok_def used_pages_def)
  then show t: "tables w = []" by (metis list.set_intros(1) neq_Nil_conv)
  have a: "alloc_inv {#} (table_releases w) w" "table_releases w = {#}" using U(1) t by (simp_all add: mem_inv_def table_releases_def)
  show "mset (list_blocks w i (first_free (blk w i))) = mset [0..<unat (num_blocks (blk w i))]"
    using used_blocks(1)[OF a(1), of i] a(2) by (simp add: used_lists_def)
  show "num_pages_allocated (osa w i) = 0" using a by (simp add: alloc_inv_def os_inv_def unat_eq_0)
qed

text \<open>The pages of a session: its page directory and its page tables.\<close>

definition session_pages :: "nat \<Rightarrow> 'a mmu_state_scheme \<Rightarrow> u32 set" where
  "session_pages s w = insert (page_directory (msessions w s)) (tables_of s w)"

lemma pages_of_sessions:
  assumes "pd_inv L F C U w" "s \<in> L"
  shows "session_pages s w \<subseteq> U" "session_pages s w \<inter> F = {}" "t \<in> L \<Longrightarrow> s \<noteq> t \<Longrightarrow> session_pages s w \<inter> session_pages t w = {}"
proof -
  note j = assms(1)[unfolded pd_inv_def]
  have 1: "inj_on (pd_page w) L" using j by (elim conjE)
  have 3: "\<forall>s \<in> L. \<forall>t \<in> L. \<forall>i < 1024. \<forall>j < 1024. \<forall>p. mapped_of s i w = Some p \<longrightarrow> mapped_of t j w = Some p \<longrightarrow> s = t \<and> i = j"
    using j by (elim conjE)
  have 4: "pd_page w ` L \<inter> F = {}" using j by (elim conjE)
  have 5: "table_pages_of L w \<inter> (pd_page w ` L \<union> F) = {}" using j by (elim conjE)
  have 6: "U = pd_page w ` L \<union> F \<union> table_pages_of L w" using j by (elim conjE)
  have 8: "\<forall>s \<in> L. page_directory (msessions w s) = pd_page w s" using j by (elim conjE)
  have e: "session_pages t w = insert (pd_page w t) (tables_of t w)" if "t \<in> L" for t
    using 8 that by (simp add: session_pages_def)
  have sub: "tables_of t w \<subseteq> table_pages_of L w" if "t \<in> L" for t using that by (auto simp: table_pages_session)
  show "session_pages s w \<subseteq> U" unfolding e[OF assms(2)] 6 using sub[OF assms(2)] assms(2) by blast
  show "session_pages s w \<inter> F = {}" unfolding e[OF assms(2)] using sub[OF assms(2)] assms(2) 4 5 by blast
  show "session_pages s w \<inter> session_pages t w = {}" if t: "t \<in> L" "s \<noteq> t"
  proof -
    have "pd_page w s \<noteq> pd_page w t" using 1 assms(2) t by (auto simp: inj_on_def)
    moreover have "tables_of s w \<inter> tables_of t w = {}"
    proof (rule ccontr)
      assume "tables_of s w \<inter> tables_of t w \<noteq> {}"
      then obtain i j p where "i < 1024" "j < 1024" "mapped_of s i w = Some p" "mapped_of t j w = Some p"
        by (auto simp: tables_of_def)
      then show False using 3 assms(2) t by blast
    qed
    ultimately show ?thesis unfolding e[OF assms(2)] e[OF t(1)] using sub[OF assms(2)] sub[OF t(1)] 5 assms(2) t(1) by blast
  qed
qed

end
