(* ===== verification/Memory_Demo.thy ===== *)
theory Memory_Demo
  imports Memory_Accounts
begin

text \<open>A small system, for concrete runs: one block allocator with four blocks at 256 MB.\<close>

definition demo_env :: "os_mem os_env" where
  "demo_env = \<lparr>kmalloc = \<lambda>site w. site \<noteq> Mapping_info_site \<or> infos w 64 = None, kmalloc_address = \<lambda>_. 64,
     lock_interrupted = \<lambda>_. False, ioremap = \<lambda>_ _ _. True, dma_alloc_coherent = \<lambda>_ _. None,
     alloc_page = \<lambda>_. Some 0x9000, remap_pfn_range = \<lambda>_ _ _ _. False\<rparr>"

definition demo_mem :: os_mem where
  "demo_mem = \<lparr>
     blk = \<lambda>i. if i = 0 then \<lparr>block_next = (\<lambda>_. None)(1 := Some 0, 2 := Some 1, 3 := Some 2), first_free = Some 3,
         block_base = 0x10000000, block_cpu_usage_adjust = 0, num_blocks = 4\<rparr>
       else \<lparr>block_next = \<lambda>_. None, first_free = None, block_base = 0, block_cpu_usage_adjust = 0, num_blocks = 0\<rparr>,
     osa = \<lambda>_. \<lparr>num_pages_max = 256, num_pages_allocated = 0, os_cpu_usage_adjust = 0\<rparr>,
     pt_partial = [], pt_full = [], phys_mem = \<lambda>_. 0,
     msessions = \<lambda>_. \<lparr>page_directory = 0, page_directory_mapped = 0, page_entries_mapped = \<lambda>_. None, page_entries_usage_count = \<lambda>_. 0\<rparr>,
     mmus = \<lambda>_. \<lparr>mmu_flags = 0, active_session = None, mmu_usage_count = 0, callbacks = [], in_page_fault_handler = False\<rparr>, mmu_head = [], active_mmus = \<lambda>_. [], mmu_log = [], mmu_benchmark = False,
     mali_empty_page_directory = 0, mali_page_fault_flush_page_directory = 0, mali_page_fault_flush_page_table = 0,
     mali_page_fault_flush_data_page = 0,
     vmas = \<lambda>_. \<lparr>vm_start = 0x40000000, vm_private_data = None\<rparr>, infos = \<lambda>_. None,
     pre_allocated_memory = [], pre_allocated_memory_size_current = 0, kernel_pages = {#}, memory_head = \<lambda>_. []\<rparr>"

definition demo_allocators :: "allocator_id list" where "demo_allocators = [Block_allocator 0]"

text \<open>The loops that may not end unfold.\<close>

declare find_first_zero_loop.simps [code] relink.simps [code] map_pages.simps [code]

text \<open>Filling a page in one step, for evaluation.\<close>

definition filled :: "u32 \<Rightarrow> u32 \<Rightarrow> (u32 \<Rightarrow> u32) \<Rightarrow> u32 \<Rightarrow> u32" where
  "filled p v m q = (if q - p < 4096 \<and> (q - p) AND 3 = 0 then v else m q)"

lemma page_words_iff: "q \<in> page_words p \<longleftrightarrow> q - p < 4096 \<and> (q - p) AND 3 = 0"
proof
  assume "q \<in> page_words p"
  then obtain i where i: "i < 1024" "q - p = of_nat i * 4" by (auto simp: page_words_def)
  then have u: "unat (q - p) = i * 4" by (simp add: unat_word_ariths unat_of_nat)
  have "unat (take_bit 2 (q - p)) = 0" unfolding unsigned_take_bit_eq u by (simp add: take_bit_eq_mod)
  moreover have "(q - p) AND 3 = take_bit 2 (q - p)" by (simp add: take_bit_eq_mask mask_eq_exp_minus_1)
  ultimately show "q - p < 4096 \<and> (q - p) AND 3 = 0" using i(1) u by (simp add: word_less_nat_alt unat_eq_0)
next
  assume a: "q - p < 4096 \<and> (q - p) AND 3 = 0"
  have "(q - p) AND 3 = take_bit 2 (q - p)" by (simp add: take_bit_eq_mask mask_eq_exp_minus_1)
  then have "take_bit 2 (unat (q - p)) = 0" using a by (metis unsigned_take_bit_eq unsigned_0)
  then have m: "4 dvd unat (q - p)" by (simp add: take_bit_eq_mod dvd_eq_mod_eq_0)
  have l: "unat (q - p) < 4096" using a by (simp add: word_less_nat_alt)
  have "of_nat (unat (q - p)) = (of_nat (unat (q - p) div 4 * 4) :: u32)" using m by simp
  then have "q - p = of_nat (unat (q - p) div 4) * 4" by simp
  then have "q = p + of_nat (unat (q - p) div 4) * 4" by (metis add.commute diff_add_cancel)
  then show "q \<in> page_words p" using l by (auto simp: page_words_def)
qed

lemma fill_page_filled [code]: "fill_page p v w = w\<lparr>phys_mem := filled p v (phys_mem w)\<rparr>"
  unfolding fill_page_mem by (intro arg_cong[where f = "\<lambda>f. w\<lparr>phys_mem := f\<rparr>"]) (auto simp: filled_def fun_eq_iff page_words_iff)

text \<open>The first session gets the first page of a new block of page tables.\<close>

lemma bit0: "mali_osk_set_nonatomic_bit 0 (\<lambda>_. 0) = (\<lambda>_. 0)(0 := 1)"
  by (simp add: mali_osk_set_nonatomic_bit_def mali_internal_set_bit_def)

definition demo_table :: table_allocation where
  "demo_table = \<lparr>usage_map = (\<lambda>_. 0)(0 := 1), usage_count = 1, table_pages = 64,
     table_block = \<lparr>pt_release = Block_pt 0 3, pt_size = 0x40000, pt_phys_base = 0x100C0000, pt_mapping = 0x100C0000\<rparr>\<rparr>"

definition demo_begun :: os_mem where
  "demo_begun = demo_mem\<lparr>
     blk := (blk demo_mem)(0 := (blk demo_mem 0)\<lparr>block_next := (\<lambda>_. None)(1 := Some 0, 2 := Some 1), first_free := Some 2\<rparr>),
     pt_partial := [demo_table], phys_mem := filled 0x100C0000 0 (filled 0x100C0000 0 (\<lambda>_. 0)),
     msessions := (msessions demo_mem)(0 := \<lparr>page_directory = 0x100C0000, page_directory_mapped = 0x100C0000,
       page_entries_mapped = \<lambda>_. None, page_entries_usage_count = \<lambda>_. 0\<rparr>),
     active_mmus := (\<lambda>_. [])(0 := []), memory_head := (\<lambda>_. [])(0 := [])\<rparr>"

lemmas demo_defs = demo_env_def demo_allocators_def demo_mem_def demo_table_def

lemma demo_begin: "mali_memory_core_session_begin demo_env demo_allocators True True 0 (Some None) demo_mem =
    Some (ERR_OK, Some (Some 0), demo_begun)"
  by (simp add: mali_memory_core_session_begin_def demo_begun_def demo_defs mali_mmu_get_table_page_def
   block_allocator_allocate_page_table_block_def fill_page_filled bit0 get_phys_def MALI_BLOCK_SIZE_def MALI_MMU_PAGE_SIZE_def
   set_blk_def take_block_def upd_ms_def)

definition demo_hw :: mmu_hw where "demo_hw = (\<lambda>m r log. 0)"

lemma bit1: "mali_osk_find_first_zero_bit ((\<lambda>_. 0)(0 := 1)) 64 = Some 1"
  by code_simp
lemma set_bit1: "mali_osk_set_nonatomic_bit 1 ((\<lambda>_. 0)(0 := 1)) = (\<lambda>_. 0)(0 := 3)"
  by (simp add: mali_osk_set_nonatomic_bit_def mali_internal_set_bit_def)

text \<open>
  Then a process maps two pages, at 4 kB; the page table is the second page of the block, and the pages are
  in the next block.
\<close>

definition demo_mapped :: os_mem where
  "demo_mapped = snd (snd (the (mali_ukk_mem_mmap demo_hw demo_env demo_allocators (Some 0) 0x1000 0x2000 7 demo_begun)))"

definition demo_range :: mali_memory_allocation where
  "demo_range = \<lparr>mapping = 0x40000000, mali_address = 0x1000, alloc_size = 0x2000, permission = 0, alloc_flags = 1,
     mali_addr_mapping_info = 0, process_addr_mapping_info = 64\<rparr>"

definition demo_block :: block_allocation where
  "demo_block = \<lparr>last_allocated = Some 2, block_descriptor = demo_range, start_offset = 0, mapping_length = 0x2000\<rparr>"

definition demo_cookie :: cookie where
  "demo_cookie = (demo_range, [Some (Block_handle 0 demo_block)])"

lemmas demo_map_defs = mali_ukk_mem_mmap_def mali_allocation_engine_allocate_memory_def mali_engine_def mali_address_manager_def
  process_address_manager_def mali_address_manager_allocate_def demo_begun_def demo_defs mmap_descriptor_def
  last_pde_reserved_def first_pde_def MALI_MMU_PDE_ENTRY_def FLAG_MAP_GUARD_PAGE_def FLAG_MAP_INTO_USERSPACE_def
  read_pde_def ioread32_def filled_def MALI_MMU_FLAGS_PRESENT_def mali_mmu_get_table_page_def bit1 set_bit1
  MALI_MMU_PAGE_SIZE_def set_mapped_def upd_ms_def write_pde_def iowrite32_def set_usage_def usage_of_def
  into_userspace_def mali_osk_mem_mapregion_init_def set_info_def set_vma_def physical_allocators_def
  block_allocator_allocate_def block_commit.simps piece_size_def MALI_BLOCK_SIZE_def set_blk_def take_block_def
  get_phys_def mali_allocation_engine_map_physical_def engine_map_process_def mali_osk_mem_mapregion_map_def
  OS_ALLOCATED_PHYSADDR_MAGIC_def mali_address_manager_map_def map_pages.simps mapped_of_def MALI_MMU_PTE_ENTRY_def track_def

lemma demo_map:
  "mali_ukk_mem_mmap demo_hw demo_env demo_allocators (Some 0) 0x1000 0x2000 7 demo_begun =
     Some (ERR_OK, Some demo_cookie, demo_mapped)"
  "block_next (blk demo_mapped 0) = (\<lambda>_. None)(1 := Some 0)" "first_free (blk demo_mapped 0) = Some 1"
  "num_blocks (blk demo_mapped 0) = 4"
  "page_entries_mapped (msessions demo_mapped 0) = (\<lambda>_. None)(0 := Some 0x100C1000)"
  "page_directory (msessions demo_mapped 0) = 0x100C0000"
  "active_mmus demo_mapped 0 = []"
  by (simp_all add: demo_mapped_def demo_map_defs demo_range_def demo_block_def demo_cookie_def)

text \<open>The start is well formed, and the two steps are steps of the machine.\<close>

lemma demo_memory_environment: "uninterrupted demo_env" "page_supply demo_env" "fresh_memory demo_env"
  by (simp_all add: uninterrupted_def page_supply_def fresh_memory_def fresh_infos_def demo_env_def)

lemma demo_memory_starts: "memory_starts {} demo_mem"
proof -
  have q: "proc_inv {#} demo_mem" by (simp add: proc_inv_def page_account_def listed_pages_def demo_mem_def)
  have i: "held_inv (held_pages demo_mem) {#}" by (simp add: held_inv_def held_pages_def info_list_def demo_mem_def fun_eq_iff)
  have t: "tables demo_mem = []" "table_releases demo_mem = {#}" by (simp_all add: tables_def table_releases_def demo_mem_def)
  have r: "regions_ok demo_mem"
    unfolding regions_ok_def blk_region_def by (auto simp: demo_mem_def paged_region_def)
  have b: "blk_inv (blk demo_mem i) {#}" for i
  proof (cases "i = 0")
    case True
    have n: "mset [0..<4] = {#3, 2, 1, 0 :: nat#}" by code_simp
    have "links (block_next (blk demo_mem 0)) (first_free (blk demo_mem 0)) [3, 2, 1, 0]" "unat (num_blocks (blk demo_mem 0)) = 4"
      by (simp_all add: demo_mem_def)
    then show ?thesis using True n unfolding blk_inv_def by (intro exI[of _ "[3, 2, 1, 0]"]) simp
  next
    case False
    then show ?thesis unfolding blk_inv_def by (intro exI[of _ "[]"]) (simp add: demo_mem_def)
  qed
  have o: "os_inv (osa demo_mem i) 0" for i by (simp add: os_inv_def demo_mem_def)
  have "alloc_inv {#} (table_releases demo_mem) demo_mem" using b o t by (simp add: alloc_inv_def)
  moreover have "cache_inv {} demo_mem" using t by (simp add: cache_inv_def demo_mem_def tables_def)
  moreover have "pd_inv {} {} (mali_count {#}) {} demo_mem" by (simp add: pd_inv_def table_pages_of_def)
  ultimately show ?thesis using r q i by (auto simp: memory_starts_def)
qed

lemma demo_ok: "memory_ok demo_env {} {} {#} {#} {#} demo_mem"
  by (rule memory_starts_ok[OF demo_memory_environment demo_memory_starts])

lemma demo_reach: "(mem_step demo_hw demo_env demo_allocators)\<^sup>*\<^sup>* ({}, [], demo_mem) ({0}, [demo_cookie], demo_mapped)"
proof -
  have "mem_step demo_hw demo_env demo_allocators ({}, [], demo_mem) ({0}, [], demo_begun)"
    by (rule mem_step.session_begin[OF _ demo_begin, of "{}" demo_hw "[]", simplified])
  moreover have "mali_range (mmap_descriptor 0 0x1000 0x2000 7)" by (simp add: mali_range_def mmap_descriptor_def)
  then have "mem_step demo_hw demo_env demo_allocators ({0}, [], demo_begun) ({0}, [demo_cookie], demo_mapped)"
    by (intro mem_step.mmap[OF _ _ _ demo_map(1), of "{0}" "[]", simplified option.case])  simp_all
  ultimately show ?thesis by (rule converse_rtranclp_into_rtranclp[OF _ r_into_rtranclp])
qed

end
