(* ===== verification/Mmu_Core.thy ===== *)
theory Mmu_Core
  imports Mmu_Registers Rendercore_Power
begin

text \<open>
  The MMU units, common/mali\_kernel\_mem\_mmu.c: which session's page directory a unit uses, with a count
  of the jobs that use it and callbacks for those that wait, the interrupt handlers and the resets.

  A callback of another subsystem is run by \<open>run\<close>, and a message to all subsystems is delivered by
  \<open>broadcast\<close>; what they do is a parameter here.  The build for Mali-200 is modelled, which has the flush
  of the replay buffer.
\<close>

definition MALI_MMU_DISALLOW_PARALLELL_WORK_OF_MALI_CORES :: u32 where
  "MALI_MMU_DISALLOW_PARALLELL_WORK_OF_MALI_CORES = 1"

definition upd_mmu :: "nat \<Rightarrow> (mali_kernel_memory_mmu \<Rightarrow> mali_kernel_memory_mmu) \<Rightarrow> 'a mmu_units_scheme \<Rightarrow> 'a mmu_units_scheme" where
  "upd_mmu m f w = w\<lparr>mmus := (mmus w)(m := f (mmus w m))\<rparr>"

definition mali_memory_core_mmu_lookup :: "nat \<Rightarrow> 'a mmu_units_scheme \<Rightarrow> nat option" where
  "mali_memory_core_mmu_lookup i w = (if i \<in> set (mmu_head w) then Some i else None)"

subsection \<open>Activation\<close>

text \<open>The unit goes before the first one with a greater id.\<close>

fun insert_mmu :: "nat \<Rightarrow> nat list \<Rightarrow> nat list" where
  "insert_mmu m [] = [m]"
| "insert_mmu m (n # ns) = (if m < n then m # n # ns else n # insert_mmu m ns)"

definition mali_memory_core_mmu_activate_page_table ::
  "mmu_hw \<Rightarrow> ('a mmu_units_scheme \<Rightarrow> bool) \<Rightarrow> nat \<Rightarrow> nat \<Rightarrow> nat option \<Rightarrow> nat \<Rightarrow> 'a mmu_units_scheme
     \<Rightarrow> osk_err \<times> 'a mmu_units_scheme" where
  "mali_memory_core_mmu_activate_page_table hw memory m s callback arg w =
     (if mmu_usage_count (mmus w m) = 0 then
        let w = upd_mmu m (\<lambda>x. x\<lparr>active_session := Some s, mmu_usage_count := 1\<rparr>) w;
            w = mali_mmu_activate_address_space hw m (page_directory (msessions w s)) w
        in (ERR_OK, w\<lparr>active_mmus := (active_mmus w)(s := insert_mmu m (active_mmus w s))\<rparr>)
      else if \<not> in_page_fault_handler (mmus w m) \<and> active_session (mmus w m) = Some s \<and>
              mmu_flags (mmus w m) AND MALI_MMU_DISALLOW_PARALLELL_WORK_OF_MALI_CORES = 0 then
        (ERR_OK, upd_mmu m (\<lambda>x. x\<lparr>mmu_usage_count := mmu_usage_count x + 1\<rparr>) w)
      else case callback of
        None \<Rightarrow> (ERR_FAULT, w)
      | Some c \<Rightarrow>
          if c \<in> fst ` set (callbacks (mmus w m)) then (ERR_BUSY, w)
          else if memory w then (ERR_BUSY, upd_mmu m (\<lambda>x. x\<lparr>callbacks := callbacks x @ [(c, arg)]\<rparr>) w)
          else (ERR_FAULT, w))"

text \<open>
  The last reference switches the unit to the empty page directory.  \<open>release_locked\<close> is the part that holds
  the locks, with the callbacks to be called; their list in the unit is empty by then.
\<close>

definition release_locked :: "mmu_hw \<Rightarrow> nat \<Rightarrow> 'a mmu_units_scheme \<Rightarrow> (nat \<times> nat) list \<times> 'a mmu_units_scheme" where
  "release_locked hw m w =
     (let w = upd_mmu m (\<lambda>x. x\<lparr>mmu_usage_count := mmu_usage_count x - 1\<rparr>) w
      in if mmu_usage_count (mmus w m) \<noteq> 0 then ([], w)
         else
           let w = mali_mmu_activate_address_space hw m (mali_empty_page_directory w) w;
               w = w\<lparr>active_mmus := \<lambda>s. remove1 m (active_mmus w s)\<rparr>
           in (callbacks (mmus w m), upd_mmu m (\<lambda>x. x\<lparr>active_session := None, callbacks := []\<rparr>) w))"

definition mali_memory_core_mmu_release_address_space_reference ::
  "mmu_hw \<Rightarrow> (nat \<Rightarrow> nat \<Rightarrow> 'a mmu_units_scheme \<Rightarrow> 'a mmu_units_scheme) \<Rightarrow> nat \<Rightarrow> 'a mmu_units_scheme \<Rightarrow> 'a mmu_units_scheme" where
  "mali_memory_core_mmu_release_address_space_reference hw run m w =
     (let (cs, w) = release_locked hw m w in fold (\<lambda>(c, arg). run c arg) cs w)"

fun drop_callback :: "nat \<Rightarrow> (nat \<times> nat) list \<Rightarrow> (nat \<times> nat) list" where
  "drop_callback c [] = []"
| "drop_callback c (x # xs) = (if fst x = c then xs else x # drop_callback c xs)"

definition mali_memory_core_mmu_unregister_callback :: "nat \<Rightarrow> nat \<Rightarrow> 'a mmu_units_scheme \<Rightarrow> 'a mmu_units_scheme" where
  "mali_memory_core_mmu_unregister_callback m c = upd_mmu m (\<lambda>x. x\<lparr>callbacks := drop_callback c (callbacks x)\<rparr>)"

subsection \<open>Interrupts\<close>

text \<open>The result says whether the work of the bottom half is scheduled.\<close>

definition mali_kernel_memory_mmu_interrupt_handler_upper_half ::
  "mmu_hw \<Rightarrow> nat \<Rightarrow> 'a mmu_units_scheme \<Rightarrow> osk_err \<times> bool \<times> 'a mmu_units_scheme" where
  "mali_kernel_memory_mmu_interrupt_handler_upper_half hw m w =
     (if mmu_benchmark w then (ERR_OK, False, w)
      else
        let (int_stat, w) = mali_mmu_register_read hw m MALI_MMU_REGISTER_INT_STATUS w
        in if int_stat = 0 then (ERR_FAULT, False, w)
           else
             let w = mali_mmu_register_write m MALI_MMU_REGISTER_INT_MASK 0 w;
                 (_, w) = mali_mmu_register_read hw m MALI_MMU_REGISTER_STATUS w;
                 work = (int_stat AND MALI_MMU_INTERRUPT_PAGE_FAULT \<noteq> 0)
             in if int_stat AND MALI_MMU_INTERRUPT_READ_BUS_ERROR \<noteq> 0 then
                  let w = mali_mmu_register_write m MALI_MMU_REGISTER_INT_CLEAR MALI_MMU_INTERRUPT_READ_BUS_ERROR w;
                      (mask, w) = mali_mmu_register_read hw m MALI_MMU_REGISTER_INT_MASK w
                  in (ERR_OK, work,
                      mali_mmu_register_write m MALI_MMU_REGISTER_INT_MASK (mask OR MALI_MMU_INTERRUPT_READ_BUS_ERROR) w)
                else (ERR_OK, work, w))"

definition reprogram_mmu :: "mmu_hw \<Rightarrow> nat \<Rightarrow> 'a mmu_units_scheme \<Rightarrow> 'a mmu_units_scheme" where
  "reprogram_mmu hw m w =
     (let w = mali_mmu_raw_reset hw m w;
          w = mali_mmu_register_write m MALI_MMU_REGISTER_INT_MASK
                (MALI_MMU_INTERRUPT_PAGE_FAULT OR MALI_MMU_INTERRUPT_READ_BUS_ERROR) w;
          w = mali_mmu_register_write m MALI_MMU_REGISTER_DTE_ADDR (mali_empty_page_directory w) w
      in mali_mmu_enable_paging hw m w)"

text \<open>The requests in the replay buffer all go to the flush page.\<close>

definition flush_replay_buffer :: "mmu_hw \<Rightarrow> nat \<Rightarrow> 'a mmu_units_scheme \<Rightarrow> 'a mmu_units_scheme" where
  "flush_replay_buffer hw m w =
     (let w = mali_mmu_register_write m MALI_MMU_REGISTER_DTE_ADDR (mali_page_fault_flush_page_directory w) w;
          w = mali_mmu_register_write m MALI_MMU_REGISTER_COMMAND MALI_MMU_COMMAND_ZAP_CACHE w;
          w = mali_mmu_register_write m MALI_MMU_REGISTER_INT_CLEAR MALI_MMU_INTERRUPT_PAGE_FAULT w;
          w = mali_mmu_register_write m MALI_MMU_REGISTER_COMMAND MALI_MMU_COMMAND_PAGE_FAULT_DONE w
      in if mmu_benchmark w then w
         else snd (poll hw m MALI_MMU_REGISTER_STATUS
                     (\<lambda>v. v AND MALI_MMU_STATUS_BIT_REPLAY_BUFFER_EMPTY \<noteq> 0) 100 w))"

type_synonym 'w broadcast = "mali_core_notification_message \<Rightarrow> nat \<Rightarrow> 'w \<Rightarrow> 'w"

definition mali_kernel_mmu_bus_reset ::
  "mmu_hw \<Rightarrow> 'a mmu_units_scheme broadcast \<Rightarrow> (nat \<Rightarrow> nat \<Rightarrow> 'a mmu_units_scheme \<Rightarrow> 'a mmu_units_scheme) \<Rightarrow> nat
     \<Rightarrow> 'a mmu_units_scheme \<Rightarrow> 'a mmu_units_scheme" where
  "mali_kernel_mmu_bus_reset hw broadcast run m w =
     (let w = upd_mmu m (\<lambda>x. x\<lparr>mmu_usage_count := mmu_usage_count x + 1\<rparr>) w;
          w = broadcast MMU_KILL_STEP1_STOP_BUS_FOR_ALL_CORES m w;
          w = flush_replay_buffer hw m w;
          w = broadcast MMU_KILL_STEP2_RESET_ALL_CORES_AND_ABORT_THEIR_JOBS m w;
          w = reprogram_mmu hw m w;
          w = mali_memory_core_mmu_release_address_space_reference hw run m w
      in broadcast MMU_KILL_STEP3_CONTINUE_JOB_HANDLING m w)"

definition mali_kernel_mmu_reset :: "mmu_hw \<Rightarrow> nat \<Rightarrow> 'a mmu_units_scheme \<Rightarrow> 'a mmu_units_scheme" where
  "mali_kernel_mmu_reset hw m w = (if in_page_fault_handler (mmus w m) then w else reprogram_mmu hw m w)"

definition mali_kernel_mmu_force_bus_reset ::
  "mmu_hw \<Rightarrow> 'a mmu_units_scheme broadcast \<Rightarrow> (nat \<Rightarrow> nat \<Rightarrow> 'a mmu_units_scheme \<Rightarrow> 'a mmu_units_scheme) \<Rightarrow> nat
     \<Rightarrow> 'a mmu_units_scheme \<Rightarrow> 'a mmu_units_scheme" where
  "mali_kernel_mmu_force_bus_reset hw broadcast run m w =
     (if in_page_fault_handler (mmus w m) then w
      else mali_kernel_mmu_bus_reset hw broadcast run m (mali_mmu_register_write m MALI_MMU_REGISTER_INT_MASK 0 w))"

text \<open>The handler of a page fault; \<open>data\<close> is the argument of the work item.\<close>

definition mali_kernel_memory_mmu_interrupt_handler_bottom_half ::
  "mmu_hw \<Rightarrow> 'a mmu_units_scheme broadcast \<Rightarrow> (nat \<Rightarrow> nat \<Rightarrow> 'a mmu_units_scheme \<Rightarrow> 'a mmu_units_scheme) \<Rightarrow> nat option
     \<Rightarrow> 'a mmu_units_scheme \<Rightarrow> 'a mmu_units_scheme" where
  "mali_kernel_memory_mmu_interrupt_handler_bottom_half hw broadcast run data w =
     (case data of
        None \<Rightarrow> w
      | Some m \<Rightarrow>
          let w = broadcast MMU_KILL_STEP0_LOCK_SUBSYSTEM m w;
              (raw, w) = mali_mmu_register_read hw m MALI_MMU_REGISTER_INT_RAWSTAT w;
              (status, w) = mali_mmu_register_read hw m MALI_MMU_REGISTER_STATUS w
          in if raw AND MALI_MMU_INTERRUPT_PAGE_FAULT = 0 \<and> status AND MALI_MMU_STATUS_BIT_PAGE_FAULT_ACTIVE = 0
             then broadcast MMU_KILL_STEP4_UNLOCK_SUBSYSTEM m w
             else
               let w = upd_mmu m (\<lambda>x. x\<lparr>in_page_fault_handler := True\<rparr>) w;
                   (_, w) = mali_mmu_register_read hw m MALI_MMU_REGISTER_PAGE_FAULT_ADDR w;
                   w = mali_kernel_mmu_bus_reset hw broadcast run m w;
                   w = upd_mmu m (\<lambda>x. x\<lparr>in_page_fault_handler := False\<rparr>) w
               in broadcast MMU_KILL_STEP4_UNLOCK_SUBSYSTEM m w)"

text \<open>The probe of the interrupt line.\<close>

definition mali_mmu_probe_irq_trigger :: "nat \<Rightarrow> 'a mmu_units_scheme \<Rightarrow> 'a mmu_units_scheme" where
  "mali_mmu_probe_irq_trigger m = mali_mmu_register_write m MALI_MMU_REGISTER_INT_RAWSTAT
     (MALI_MMU_INTERRUPT_PAGE_FAULT OR MALI_MMU_INTERRUPT_READ_BUS_ERROR)"

definition mali_mmu_probe_irq_acknowledge :: "mmu_hw \<Rightarrow> nat \<Rightarrow> 'a mmu_units_scheme \<Rightarrow> osk_err \<times> 'a mmu_units_scheme" where
  "mali_mmu_probe_irq_acknowledge hw m w =
     (let (int_stat, w) = mali_mmu_register_read hw m MALI_MMU_REGISTER_INT_STATUS w;
          w = (if int_stat AND MALI_MMU_INTERRUPT_PAGE_FAULT \<noteq> 0
               then mali_mmu_register_write m MALI_MMU_REGISTER_INT_CLEAR MALI_MMU_INTERRUPT_PAGE_FAULT w else w);
          w = (if int_stat AND MALI_MMU_INTERRUPT_READ_BUS_ERROR \<noteq> 0
               then mali_mmu_register_write m MALI_MMU_REGISTER_INT_CLEAR MALI_MMU_INTERRUPT_READ_BUS_ERROR w else w);
          both = MALI_MMU_INTERRUPT_PAGE_FAULT OR MALI_MMU_INTERRUPT_READ_BUS_ERROR
      in (if int_stat AND both = both then ERR_OK else ERR_FAULT, w))"

subsection \<open>Units\<close>

text \<open>The steps of the registration of a unit that the system may refuse.\<close>

datatype mmu_resource_site = Mmu_reqregion | Mmu_calloc | Mmu_lock_init | Mmu_mapioregion | Mmu_irq_init

definition new_mmu :: "u32 \<Rightarrow> mali_kernel_memory_mmu" where
  "new_mmu flags = \<lparr>mmu_flags = flags, active_session = None, mmu_usage_count = 0, callbacks = [],
     in_page_fault_handler = False\<rparr>"

definition reset_mmu :: "mmu_hw \<Rightarrow> nat \<Rightarrow> 'a mmu_units_scheme \<Rightarrow> 'a mmu_units_scheme" where
  "reset_mmu hw m w =
     mali_mmu_register_write m MALI_MMU_REGISTER_INT_MASK
       (MALI_MMU_INTERRUPT_PAGE_FAULT OR MALI_MMU_INTERRUPT_READ_BUS_ERROR) (mali_mmu_raw_reset hw m w)"

definition mali_memory_core_resource_mmu ::
  "mmu_hw \<Rightarrow> (mmu_resource_site \<Rightarrow> bool) \<Rightarrow> nat \<Rightarrow> u32 \<Rightarrow> 'a mmu_units_scheme \<Rightarrow> osk_err \<times> 'a mmu_units_scheme" where
  "mali_memory_core_resource_mmu hw ok m flags w =
     (if mali_memory_core_mmu_lookup m w \<noteq> None then (ERR_FAULT, w)
      else if \<not> ok Mmu_reqregion then (ERR_FAULT, w)
      else if \<not> ok Mmu_calloc then (ERR_NOMEM, w)
      else if \<not> ok Mmu_lock_init then (ERR_FAULT, w)
      else if \<not> ok Mmu_mapioregion then (ERR_FAULT, w)
      else
        let w0 = w; w = upd_mmu m (\<lambda>_. new_mmu flags) w;
            w = reset_mmu hw m w;
            w = w\<lparr>mmu_head := mmu_head w @ [m]\<rparr>
        in if \<not> ok Mmu_irq_init then (ERR_FAULT, w\<lparr>mmu_head := mmu_head w0\<rparr>)
           else (ERR_OK, reset_mmu hw m w))"

text \<open>The last step of the start: every unit gets the empty page directory.\<close>

fun activate_empty :: "mmu_hw \<Rightarrow> nat list \<Rightarrow> 'a mmu_units_scheme \<Rightarrow> 'a mmu_units_scheme" where
  "activate_empty hw [] w = w"
| "activate_empty hw (m # ms) w =
     activate_empty hw ms (mali_mmu_enable_paging hw m
       (mali_mmu_register_write m MALI_MMU_REGISTER_DTE_ADDR (mali_empty_page_directory w) w))"

end
