(* ===== verification/Mmu_Activation.thy ===== *)
theory Mmu_Activation
  imports Mmu_Core
begin

text \<open>
  Who uses a unit: the invariant of the units under activations and releases in any order, and what the
  handling of a page fault leaves.
\<close>

subsection \<open>The invariant\<close>

definition expected_dte :: "'a mmu_units_scheme \<Rightarrow> nat option \<Rightarrow> u32" where
  "expected_dte w a = (case a of None \<Rightarrow> mali_empty_page_directory w | Some s \<Rightarrow> page_directory (msessions w s))"

definition unit_ok :: "nat \<Rightarrow> 'a mmu_units_scheme \<Rightarrow> bool" where
  "unit_ok m w \<longleftrightarrow>
     (mmu_usage_count (mmus w m) = 0 \<longleftrightarrow> active_session (mmus w m) = None) \<and>
     (active_session (mmus w m) = None \<longrightarrow> callbacks (mmus w m) = []) \<and>
     distinct (map fst (callbacks (mmus w m))) \<and>
     dte m w = Some (expected_dte w (active_session (mmus w m)))"

definition links_ok :: "'a mmu_units_scheme \<Rightarrow> bool" where
  "links_ok w \<longleftrightarrow> (\<forall>s. sorted_wrt (<) (active_mmus w s) \<and>
     set (active_mmus w s) = {m \<in> set (mmu_head w). active_session (mmus w m) = Some s})"

definition units_ok :: "'a mmu_units_scheme \<Rightarrow> bool" where
  "units_ok w \<longleftrightarrow> \<not> mmu_benchmark w \<and> (\<forall>m \<in> set (mmu_head w). unit_ok m w) \<and> links_ok w"

lemma upd_mmu_fields [simp]:
  "mmus (upd_mmu m f w) = (mmus w)(m := f (mmus w m))" "mmu_head (upd_mmu m f w) = mmu_head w"
  "active_mmus (upd_mmu m f w) = active_mmus w" "mmu_benchmark (upd_mmu m f w) = mmu_benchmark w"
  "mali_empty_page_directory (upd_mmu m f w) = mali_empty_page_directory w" "msessions (upd_mmu m f w) = msessions w"
  "mmu_log (upd_mmu m f w) = mmu_log w" "dte n (upd_mmu m f w) = dte n w"
  "expected_dte (upd_mmu m f w) = expected_dte w"
  by (simp_all add: upd_mmu_def dte_def expected_dte_def fun_eq_iff cong: option.case_cong)

lemma expected_dte_simps [simp]:
  "expected_dte w None = mali_empty_page_directory w" "expected_dte w (Some s) = page_directory (msessions w s)"
  "expected_dte (w\<lparr>active_mmus := a\<rparr>) = expected_dte w"
  by (simp_all add: expected_dte_def fun_eq_iff cong: option.case_cong)

lemma insert_mmu_sorted:
  "sorted_wrt (<) ns \<Longrightarrow> m \<notin> set ns \<Longrightarrow> sorted_wrt (<) (insert_mmu m ns) \<and> set (insert_mmu m ns) = insert m (set ns)"
  by (induction ns) auto

lemma sorted_remove1: "sorted_wrt (<) (ns :: nat list) \<Longrightarrow> sorted_wrt (<) (remove1 m ns) \<and> set (remove1 m ns) = set ns - {m}"
  by (induction ns) auto

lemma activate_fields:
  "mmus (mali_mmu_activate_address_space hw m pd w) = mmus w"
  "mmu_head (mali_mmu_activate_address_space hw m pd w) = mmu_head w"
  "active_mmus (mali_mmu_activate_address_space hw m pd w) = active_mmus w"
  "mmu_benchmark (mali_mmu_activate_address_space hw m pd w) = mmu_benchmark w"
  "mali_empty_page_directory (mali_mmu_activate_address_space hw m pd w) = mali_empty_page_directory w"
  "msessions (mali_mmu_activate_address_space hw m pd w) = msessions w"
  "expected_dte (mali_mmu_activate_address_space hw m pd w) = expected_dte w"
  using log_only_fields[OF activate_log[of hw m pd w]] by (simp_all add: expected_dte_def fun_eq_iff cong: option.case_cong)

lemma dte_more [simp]: "dte n (w\<lparr>active_mmus := a\<rparr>) = dte n w"
  by (simp add: dte_def)

text \<open>Activation: it succeeds on an idle unit, and then counts, and changes nothing but the callbacks otherwise.\<close>

lemma activate_page_table_ok:
  assumes u: "units_ok w" and m: "m \<in> set (mmu_head w)" and b: "mmu_usage_count (mmus w m) \<noteq> - 1"
    and r: "mali_memory_core_mmu_activate_page_table hw mem m s c arg w = (err, w')"
  shows "units_ok w' \<and> mmu_head w' = mmu_head w \<and> msessions w' = msessions w \<and> (\<forall>n. n \<noteq> m \<longrightarrow> mmus w' n = mmus w n) \<and>
    (if err = ERR_OK then active_session (mmus w' m) = Some s \<and>
       mmu_usage_count (mmus w' m) = mmu_usage_count (mmus w m) + 1 \<and> active_session (mmus w m) \<in> {None, Some s}
     else active_session (mmus w' m) = active_session (mmus w m) \<and>
       mmu_usage_count (mmus w' m) = mmu_usage_count (mmus w m) \<and> active_session (mmus w m) \<noteq> None)"
proof -
  have nb: "\<not> mmu_benchmark w" and um: "unit_ok m w" and l: "links_ok w"
    and us: "\<And>n. n \<in> set (mmu_head w) \<Longrightarrow> unit_ok n w" using u m by (simp_all add: units_ok_def)
  show ?thesis
  proof (cases "mmu_usage_count (mmus w m) = 0")
    case True
    then have idle: "active_session (mmus w m) = None" "callbacks (mmus w m) = []" using um by (simp_all add: unit_ok_def)
    let ?w1 = "upd_mmu m (\<lambda>x. x\<lparr>active_session := Some s, mmu_usage_count := 1\<rparr>) w"
    let ?w2 = "mali_mmu_activate_address_space hw m (page_directory (msessions ?w1 s)) ?w1"
    have w': "w' = ?w2\<lparr>active_mmus := (active_mmus w)(s := insert_mmu m (active_mmus w s))\<rparr>" "err = ERR_OK"
      using r True by (auto simp: mali_memory_core_mmu_activate_page_table_def Let_def activate_fields)
    have "unit_ok n w'" if "n \<in> set (mmu_head w)" for n
      using us[OF that] idle by (cases "n = m") (simp_all add: unit_ok_def activate_dte nb w'(1) activate_fields)
    moreover have "links_ok w'"
    proof -
      have "m \<notin> set (active_mmus w s)" using l idle by (simp add: links_ok_def)
      then have "sorted_wrt (<) (insert_mmu m (active_mmus w s)) \<and> set (insert_mmu m (active_mmus w s)) = insert m (set (active_mmus w s))"
        using insert_mmu_sorted l by (simp add: links_ok_def)
      then show ?thesis using l idle m by (auto simp: links_ok_def w'(1) activate_fields)
    qed
    ultimately show ?thesis using nb True idle w' by (simp add: units_ok_def activate_fields)
  next
    case busy: False
    then have act: "active_session (mmus w m) \<noteq> None" using um by (simp add: unit_ok_def)
    have keep: "units_ok (upd_mmu m f w)"
      if "\<And>x. active_session (f x) = active_session x" "mmu_usage_count (f (mmus w m)) \<noteq> 0"
        "distinct (map fst (callbacks (f (mmus w m))))" for f
    proof -
      have "unit_ok n (upd_mmu m f w)" if "n \<in> set (mmu_head w)" for n
        using us[OF that] act that \<open>\<And>x. active_session (f x) = active_session x\<close> \<open>mmu_usage_count (f (mmus w m)) \<noteq> 0\<close>
          \<open>distinct (map fst (callbacks (f (mmus w m))))\<close> by (cases "n = m") (auto simp: unit_ok_def)
      moreover have "links_ok (upd_mmu m f w)" using l that(1) by (auto simp: links_ok_def)
      ultimately show ?thesis using nb by (simp add: units_ok_def)
    qed
    have cb: "distinct (map fst (callbacks (mmus w m)))" using um by (simp add: unit_ok_def)
    show ?thesis
    proof (cases "\<not> in_page_fault_handler (mmus w m) \<and> active_session (mmus w m) = Some s \<and>
              mmu_flags (mmus w m) AND MALI_MMU_DISALLOW_PARALLELL_WORK_OF_MALI_CORES = 0")
      case True
      have "mmu_usage_count (mmus w m) + 1 \<noteq> 0" using b by (metis eq_neg_iff_add_eq_0)
      then have "units_ok (upd_mmu m (\<lambda>x. x\<lparr>mmu_usage_count := mmu_usage_count x + 1\<rparr>) w)"
        using cb by (intro keep) simp_all
      then show ?thesis using r True busy by (auto simp: mali_memory_core_mmu_activate_page_table_def)
    next
      case False
      then have "err \<noteq> ERR_OK \<and> (w' = w \<or> (\<exists>k. k \<notin> fst ` set (callbacks (mmus w m)) \<and>
          w' = upd_mmu m (\<lambda>x. x\<lparr>callbacks := callbacks x @ [(k, arg)]\<rparr>) w))"
        using r busy by (auto simp: mali_memory_core_mmu_activate_page_table_def split: option.splits if_splits)
      moreover have "units_ok (upd_mmu m (\<lambda>x. x\<lparr>callbacks := callbacks x @ [(k, arg)]\<rparr>) w)"
        if "k \<notin> fst ` set (callbacks (mmus w m))" for k using cb that busy by (intro keep) simp_all
      ultimately show ?thesis using u act by auto
    qed
  qed
qed

lemma release_locked_ok:
  assumes u: "units_ok w" and m: "m \<in> set (mmu_head w)" and b: "mmu_usage_count (mmus w m) \<noteq> 0"
    and r: "release_locked hw m w = (cs, w')"
  shows "units_ok w' \<and> mmu_head w' = mmu_head w \<and> msessions w' = msessions w \<and> (\<forall>n. n \<noteq> m \<longrightarrow> mmus w' n = mmus w n) \<and>
    mmu_usage_count (mmus w' m) = mmu_usage_count (mmus w m) - 1 \<and>
    (if mmu_usage_count (mmus w m) = 1 then active_session (mmus w' m) = None \<and> cs = callbacks (mmus w m)
     else active_session (mmus w' m) = active_session (mmus w m) \<and> cs = [])"
proof -
  have nb: "\<not> mmu_benchmark w" and um: "unit_ok m w" and l: "links_ok w"
    and us: "\<And>n. n \<in> set (mmu_head w) \<Longrightarrow> unit_ok n w" using u m by (simp_all add: units_ok_def)
  have act: "active_session (mmus w m) \<noteq> None" using um b by (simp add: unit_ok_def)
  let ?w1 = "upd_mmu m (\<lambda>x. x\<lparr>mmu_usage_count := mmu_usage_count x - 1\<rparr>) w"
  show ?thesis
  proof (cases "mmu_usage_count (mmus w m) = 1")
    case False
    then have w': "w' = ?w1" "cs = []" using r by (auto simp: release_locked_def Let_def)
    have "unit_ok n w'" if "n \<in> set (mmu_head w)" for n
      using us[OF that] act False by (cases "n = m") (auto simp: unit_ok_def w'(1))
    moreover have "links_ok w'" using l by (auto simp: links_ok_def w'(1))
    ultimately show ?thesis using nb False w' by (simp add: units_ok_def)
  next
    case True
    let ?w2 = "mali_mmu_activate_address_space hw m (mali_empty_page_directory ?w1) ?w1"
    let ?w3 = "?w2\<lparr>active_mmus := \<lambda>s. remove1 m (active_mmus ?w2 s)\<rparr>"
    have w': "w' = upd_mmu m (\<lambda>x. x\<lparr>active_session := None, callbacks := []\<rparr>) ?w3" "cs = callbacks (mmus w m)"
      using r True by (auto simp: release_locked_def Let_def activate_fields)
    have "unit_ok n w'" if "n \<in> set (mmu_head w)" for n
      using us[OF that] True by (cases "n = m") (simp_all add: unit_ok_def activate_dte nb w'(1) activate_fields)
    moreover have "links_ok w'"
      using l sorted_remove1 by (auto simp: links_ok_def w'(1) activate_fields)
    ultimately show ?thesis using nb True w' by (simp add: units_ok_def activate_fields)
  qed
qed

subsection \<open>Any number of jobs\<close>

text \<open>
  \<open>J\<close> are the uses of units that are not released yet, each with its unit and session.  A job asks for a
  use and may get it, or gives one back; callbacks are dropped; the page tables and all other state of
  the memory system change as long as the page directories of sessions stay.
\<close>

definition same_units :: "'a mmu_units_scheme \<Rightarrow> 'a mmu_units_scheme \<Rightarrow> bool" where
  "same_units w' w \<longleftrightarrow> mmus w' = mmus w \<and> mmu_head w' = mmu_head w \<and> active_mmus w' = active_mmus w \<and>
     mmu_log w' = mmu_log w \<and> mmu_benchmark w' = mmu_benchmark w \<and>
     mali_empty_page_directory w' = mali_empty_page_directory w \<and>
     (\<forall>s. page_directory (msessions w' s) = page_directory (msessions w s))"

inductive unit_step :: "mmu_hw \<Rightarrow> 'a mmu_units_scheme \<times> (nat \<times> nat) multiset \<Rightarrow> 'a mmu_units_scheme \<times> (nat \<times> nat) multiset \<Rightarrow> bool"
  for hw where
  activate: "m \<in> set (mmu_head w) \<Longrightarrow> size J < 2 ^ 32 - 1 \<Longrightarrow>
    mali_memory_core_mmu_activate_page_table hw mem m s c arg w = (err, w') \<Longrightarrow>
    unit_step hw (w, J) (w', if err = ERR_OK then add_mset (m, s) J else J)"
| release: "(m, s) \<in># J \<Longrightarrow> release_locked hw m w = (cs, w') \<Longrightarrow> unit_step hw (w, J) (w', J - {#(m, s)#})"
| unregister: "m \<in> set (mmu_head w) \<Longrightarrow> unit_step hw (w, J) (mali_memory_core_mmu_unregister_callback m c w, J)"
| other: "same_units w' w \<Longrightarrow> unit_step hw (w, J) (w', J)"

definition uses_of :: "nat \<Rightarrow> (nat \<times> nat) multiset \<Rightarrow> nat" where
  "uses_of m J = size {#j \<in># J. fst j = m#}"

definition jobs_ok :: "'a mmu_units_scheme \<Rightarrow> (nat \<times> nat) multiset \<Rightarrow> bool" where
  "jobs_ok w J \<longleftrightarrow> units_ok w \<and> (\<forall>m \<in> set (mmu_head w). unat (mmu_usage_count (mmus w m)) = uses_of m J) \<and>
     (\<forall>m s. (m, s) \<in># J \<longrightarrow> m \<in> set (mmu_head w) \<and> active_session (mmus w m) = Some s)"

lemma uses_of_simps:
  "uses_of m (add_mset (n, s) J) = (if n = m then Suc (uses_of m J) else uses_of m J)"
  "(n, s) \<in># J \<Longrightarrow> uses_of m (J - {#(n, s)#}) = (if n = m then uses_of m J - 1 else uses_of m J)"
proof -
  show "uses_of m (add_mset (n, s) J) = (if n = m then Suc (uses_of m J) else uses_of m J)" by (simp add: uses_of_def)
  assume "(n, s) \<in># J"
  then obtain K where "J = add_mset (n, s) K" by (metis insert_DiffM)
  then show "uses_of m (J - {#(n, s)#}) = (if n = m then uses_of m J - 1 else uses_of m J)" by (simp add: uses_of_def)
qed

lemma uses_of_size: "uses_of m J \<le> size J"
  unfolding uses_of_def by (rule size_filter_mset_lesseq)

lemma uses_of_pos: "(m, s) \<in># J \<Longrightarrow> 0 < uses_of m J"
  using uses_of_simps(1)[of m m s "J - {#(m, s)#}"] by simp

lemma drop_callback_sub: "set (drop_callback c xs) \<subseteq> set xs"
  by (induction xs) auto

lemma drop_callback_distinct: "distinct (map fst xs) \<Longrightarrow> distinct (map fst (drop_callback c xs))"
proof (induction xs)
  case (Cons x xs)
  then show ?case using drop_callback_sub[of c xs] by auto
qed simp

lemma unregister_ok: "units_ok w \<Longrightarrow> units_ok (mali_memory_core_mmu_unregister_callback m c w)"
proof -
  assume u: "units_ok w"
  let ?w = "mali_memory_core_mmu_unregister_callback m c w"
  have "unit_ok n ?w" if "n \<in> set (mmu_head w)" for n
    using u that drop_callback_distinct[of "callbacks (mmus w m)" c]
    by (cases "n = m") (auto simp: units_ok_def unit_ok_def mali_memory_core_mmu_unregister_callback_def)
  moreover have "links_ok ?w" using u
    by (auto simp: units_ok_def links_ok_def mali_memory_core_mmu_unregister_callback_def)
  ultimately show ?thesis using u by (simp add: units_ok_def) (simp add: mali_memory_core_mmu_unregister_callback_def)
qed

lemma step_jobs_ok:
  assumes step: "unit_step hw (w, J) (w', J')" and j: "jobs_ok w J"
  shows "jobs_ok w' J'"
  using step
proof cases
  case (activate m mem s c arg err)
  note J' = activate(1) and m = activate(2,3) and r = activate(4)
  have u: "units_ok w" "unat (mmu_usage_count (mmus w m)) = uses_of m J"
    "\<And>n t. (n, t) \<in># J \<Longrightarrow> n \<in> set (mmu_head w) \<and> active_session (mmus w n) = Some t"
    using j m(1) by (auto simp: jobs_ok_def)
  have c: "unat (mmu_usage_count (mmus w m)) < 2 ^ 32 - 1" using u(2) uses_of_size[of m J] m(2) by linarith
  have "unat (- 1 :: u32) = 2 ^ 32 - 1" by (simp add: unsigned_minus_1_eq_mask mask_eq_exp_minus_1)
  then have "mmu_usage_count (mmus w m) \<noteq> - 1" using c by auto
  note a = activate_page_table_ok[OF u(1) m(1) this r]
  have succ: "unat (mmu_usage_count (mmus w m) + 1) = Suc (unat (mmu_usage_count (mmus w m)))"
    using c by (simp add: unat_word_ariths)
  show ?thesis
  proof (cases "err = ERR_OK")
    case True
    have "unat (mmu_usage_count (mmus w' n)) = uses_of n J'" if "n \<in> set (mmu_head w')" for n
      using a j that True J' succ u(2) by (cases "n = m") (auto simp: jobs_ok_def uses_of_simps)
    moreover have "n \<in> set (mmu_head w') \<and> active_session (mmus w' n) = Some t" if "(n, t) \<in># J'" for n t
      using a that True J' u(3)[of n t] m(1) by (cases "n = m") auto
    ultimately show ?thesis using a by (simp add: jobs_ok_def)
  next
    case False
    have "unat (mmu_usage_count (mmus w' n)) = uses_of n J'" if "n \<in> set (mmu_head w')" for n
      using a j that False J' by (cases "n = m") (auto simp: jobs_ok_def)
    moreover have "n \<in> set (mmu_head w') \<and> active_session (mmus w' n) = Some t" if "(n, t) \<in># J'" for n t
      using a that False J' u(3)[of n t] by (cases "n = m") auto
    ultimately show ?thesis using a by (simp add: jobs_ok_def)
  qed
next
  case (release m s cs)
  note J' = release(1) and m = release(2) and r = release(3)
  have u: "units_ok w" "m \<in> set (mmu_head w)" "active_session (mmus w m) = Some s" "unat (mmu_usage_count (mmus w m)) = uses_of m J"
    "\<And>n t. (n, t) \<in># J \<Longrightarrow> n \<in> set (mmu_head w) \<and> active_session (mmus w n) = Some t"
    using j m by (auto simp: jobs_ok_def)
  have nz: "mmu_usage_count (mmus w m) \<noteq> 0" using u(4) uses_of_pos[OF m] by (auto simp: unat_eq_0)
  note a = release_locked_ok[OF u(1,2) nz r]
  have pred: "unat (mmu_usage_count (mmus w m) - 1) = unat (mmu_usage_count (mmus w m)) - 1"
    using nz by (simp add: unat_sub word_le_nat_alt unat_gt_0 Suc_leI)
  have "unat (mmu_usage_count (mmus w' n)) = uses_of n J'" if "n \<in> set (mmu_head w')" for n
    using a j that J' pred u(4) uses_of_simps(2)[OF m] by (cases "n = m") (auto simp: jobs_ok_def)
  moreover have "n \<in> set (mmu_head w') \<and> active_session (mmus w' n) = Some t" if k: "(n, t) \<in># J'" for n t
  proof -
    have kJ: "(n, t) \<in># J" using k J' by (metis in_diffD)
    show ?thesis
    proof (cases "n = m")
      case True
      have "uses_of m J' = uses_of m J - 1" using J' uses_of_simps(2)[OF m] by simp
      then have "uses_of m J \<noteq> 1" using uses_of_pos[of m t J'] k True by simp
      then have "mmu_usage_count (mmus w m) \<noteq> 1" using u(4) by auto
      then show ?thesis using a True u(2) u(5)[OF kJ] by simp
    next
      case False
      then show ?thesis using a u(5)[OF kJ] by simp
    qed
  qed
  ultimately show ?thesis using a by (simp add: jobs_ok_def)
next
  case (unregister m c)
  then show ?thesis using j unregister_ok[of w m c]
    by (auto simp: jobs_ok_def) (auto simp: mali_memory_core_mmu_unregister_callback_def)
next
  case other
  then show ?thesis using j
    by (auto simp: jobs_ok_def same_units_def units_ok_def unit_ok_def links_ok_def dte_def expected_dte_def split: option.splits)
qed

end
