(* ===== verification/Mmu_Faults.thy ===== *)
theory Mmu_Faults
  imports Mmu_Activation
begin

text \<open>
  The registration of units, and the steps of the handling of a page fault on one unit; the whole of it, with
  the render cores, is in Mmu\_Recovery.
\<close>

subsection \<open>Start\<close>

lemma raw_reset_fields: "log_only (reset_mmu hw m w) w"
  unfolding reset_mmu_def by (intro log_only_write_trans raw_reset_log)

lemma activate_empty_ok:
  assumes "\<not> mmu_benchmark w"
  shows "log_only (activate_empty hw ms w) w \<and>
    (\<forall>n. dte n (activate_empty hw ms w) = (if n \<in> set ms then Some (mali_empty_page_directory w) else dte n w))"
  using assms
proof (induction ms arbitrary: w)
  case (Cons m ms)
  let ?v = "mali_mmu_register_write m MALI_MMU_REGISTER_DTE_ADDR (mali_empty_page_directory w) w"
  let ?w = "mali_mmu_enable_paging hw m ?v"
  have l: "log_only ?w w" by (rule log_only_trans[OF enable_paging_log log_only_write])
  have f: "\<not> mmu_benchmark ?w" "mali_empty_page_directory ?w = mali_empty_page_directory w"
    using log_only_fields[OF l] Cons.prems by simp_all
  have d: "dte n ?w = (if n = m then Some (mali_empty_page_directory w) else dte n w)" for n
    using Cons.prems by (simp add: enable_paging_dte dte_write)
  show ?case using Cons.IH[OF f(1)] l log_only_trans f(2) d by auto
qed simp

text \<open>A unit is registered once, and not at all when the system refuses a part of it.\<close>

lemma resource_mmu_ok:
  assumes "mali_memory_core_resource_mmu hw ok m flags w = (err, w')"
  shows "if err = ERR_OK then m \<notin> set (mmu_head w) \<and> mmu_head w' = mmu_head w @ [m] \<and> mmus w' = (mmus w)(m := new_mmu flags)
    else mmu_head w' = mmu_head w \<and> (\<forall>n \<in> set (mmu_head w). mmus w' n = mmus w n)"
proof (cases "err = ERR_OK")
  case True
  have "mmus (reset_mmu hw m v) = mmus v" "mmu_head (reset_mmu hw m v) = mmu_head v" for v :: "'a mmu_units_scheme"
    using log_only_fields[OF raw_reset_fields[of hw m v]] by simp_all
  then show ?thesis using assms True
    by (auto simp: mali_memory_core_resource_mmu_def mali_memory_core_mmu_lookup_def Let_def split: if_splits)
next
  case False
  have "mmus (reset_mmu hw m v) = mmus v" "mmu_head (reset_mmu hw m v) = mmu_head v" for v :: "'a mmu_units_scheme"
    using log_only_fields[OF raw_reset_fields[of hw m v]] by simp_all
  then show ?thesis using assms False
    by (auto simp: mali_memory_core_resource_mmu_def mali_memory_core_mmu_lookup_def Let_def split: if_splits)
qed

subsection \<open>Page faults\<close>

text \<open>What a step does to one unit and its page directory register, and to nothing else.\<close>

definition unit_change :: "nat \<Rightarrow> mali_kernel_memory_mmu \<Rightarrow> 'a mmu_units_scheme \<Rightarrow> 'a mmu_units_scheme \<Rightarrow> bool" where
  "unit_change m u w' w \<longleftrightarrow> mmus w' = (mmus w)(m := u) \<and> mmu_head w' = mmu_head w \<and> active_mmus w' = active_mmus w \<and>
     mmu_benchmark w' = mmu_benchmark w \<and> mali_empty_page_directory w' = mali_empty_page_directory w \<and>
     msessions w' = msessions w \<and> (\<forall>n. n \<noteq> m \<longrightarrow> dte n w' = dte n w)"

lemma unit_change_trans: "unit_change m u w2 w1 \<Longrightarrow> unit_change m v w1 w \<Longrightarrow> unit_change m u w2 w"
  by (auto simp: unit_change_def)

lemma unit_change_upd: "unit_change m (f (mmus w m)) (upd_mmu m f w) w"
  by (simp add: unit_change_def)

lemma unit_change_log:
  "log_only w' w \<Longrightarrow> (\<And>n. n \<noteq> m \<Longrightarrow> dte n w' = dte n w) \<Longrightarrow> unit_change m (mmus w m) w' w"
  using log_only_fields[of w' w] by (simp add: unit_change_def)

lemma flush_change:
  assumes "\<not> mmu_benchmark w"
  shows "unit_change m (mmus w m) (flush_replay_buffer hw m w) w"
proof (rule unit_change_log)
  show "log_only (flush_replay_buffer hw m w) w"
    by (simp add: flush_replay_buffer_def Let_def log_only_steps)
  show "dte n (flush_replay_buffer hw m w) = dte n w" if "n \<noteq> m" for n
    using assms that by (simp add: flush_replay_buffer_def Let_def dte_write)
qed

lemma reprogram_log: "log_only (reprogram_mmu hw m w) w"
  unfolding reprogram_mmu_def Let_def
  by (intro log_only_trans[OF enable_paging_log] log_only_write_trans raw_reset_log)

lemma reprogram_dte:
  assumes "\<not> mmu_benchmark w"
  shows "dte n (reprogram_mmu hw m w) = (if n = m then Some (mali_empty_page_directory w) else dte n w)"
proof -
  let ?r = "mali_mmu_raw_reset hw m w"
  have "\<not> mmu_benchmark ?r" "mali_empty_page_directory ?r = mali_empty_page_directory w"
    using log_only_fields[OF raw_reset_log[of hw m w]] assms by simp_all
  moreover have "mali_empty_page_directory (mali_mmu_register_write m r v ?r) = mali_empty_page_directory ?r" for r v
    using log_only_fields[OF log_only_write[of m r v ?r]] by simp
  ultimately show ?thesis using assms
    by (simp add: reprogram_mmu_def Let_def enable_paging_dte dte_write raw_reset_dte)
qed

lemma reprogram_change: "\<not> mmu_benchmark w \<Longrightarrow> unit_change m (mmus w m) (reprogram_mmu hw m w) w"
  by (intro unit_change_log[OF reprogram_log]) (simp add: reprogram_dte)

text \<open>The handler's own use is the last one.\<close>

lemma unit_swap:
  "x\<lparr>in_page_fault_handler := f, mmu_usage_count := c\<rparr> = x\<lparr>mmu_usage_count := c, in_page_fault_handler := f\<rparr>"
  by (cases x) simp

lemma last_release:
  assumes u: "units_ok w0" and m: "m \<in> set (mmu_head w0)"
    and c: "unit_change m ((mmus w0 m)\<lparr>mmu_usage_count := 1, in_page_fault_handler := f\<rparr>) w w0"
  shows "\<exists>w1. release_locked hw m w = (callbacks (mmus w0 m), w1) \<and> units_ok w1 \<and> mmu_head w1 = mmu_head w0 \<and>
    mmus w1 = (mmus w0)(m := (mmus w0 m)\<lparr>mmu_usage_count := 0, in_page_fault_handler := f, active_session := None, callbacks := []\<rparr>)"
proof -
  let ?w1 = "upd_mmu m (\<lambda>x. x\<lparr>mmu_usage_count := mmu_usage_count x - 1\<rparr>) w"
  let ?w2 = "mali_mmu_activate_address_space hw m (mali_empty_page_directory ?w1) ?w1"
  let ?w3 = "?w2\<lparr>active_mmus := \<lambda>s. remove1 m (active_mmus ?w2 s)\<rparr>"
  let ?w = "upd_mmu m (\<lambda>x. x\<lparr>active_session := None, callbacks := []\<rparr>) ?w3"
  have nb: "\<not> mmu_benchmark w" and us: "\<And>n. n \<in> set (mmu_head w0) \<Longrightarrow> unit_ok n w0" and l: "links_ok w0"
    using u c by (simp_all add: units_ok_def unit_change_def)
  have r: "release_locked hw m w = (callbacks (mmus w0 m), ?w)"
    using c by (simp add: release_locked_def Let_def activate_fields unit_change_def)
  have mm: "mmus ?w = (mmus w0)(m := (mmus w0 m)\<lparr>mmu_usage_count := 0, in_page_fault_handler := f, active_session := None, callbacks := []\<rparr>)"
    using c by (simp add: activate_fields unit_change_def unit_swap)
  have dir: "expected_dte w a = expected_dte w0 a" for a
    using c by (simp add: unit_change_def expected_dte_def split: option.splits)
  have "unit_ok n ?w" if "n \<in> set (mmu_head w0)" for n
  proof (cases "n = m")
    case True
    then show ?thesis using c by (simp add: unit_ok_def activate_dte nb activate_fields unit_change_def)
  next
    case False
    then have "dte n w = dte n w0" "mmus w n = mmus w0 n" using c by (simp_all add: unit_change_def)
    then show ?thesis using us[OF that] False dir by (simp add: unit_ok_def activate_dte nb activate_fields)
  qed
  moreover have "links_ok ?w"
    using l sorted_remove1 c by (auto simp: links_ok_def activate_fields unit_change_def)
  ultimately have "units_ok ?w" using nb c by (simp add: units_ok_def activate_fields unit_change_def)
  moreover have "mmu_head ?w = mmu_head w0" using c by (simp add: activate_fields unit_change_def)
  ultimately show ?thesis using r mm by blast
qed

end
