(* ===== verification/Memory_Properties.thy ===== *)
theory Memory_Properties
  imports Memory_Demo Mmu_Faults
begin

text \<open>
  The properties of the memory management: of the reachable states of the whole system, of the
  translation that the MMU makes, of the units and of the allocators, with concrete runs.
\<close>

subsection \<open>Reachable states of the memory system\<close>

lemma munmap_stalled:
  assumes ok: "system_ok env F (L, C, w)" and c: "c \<in> set C"
    and s: "fst (stall_mmus hw (active_mmus w (mali_addr_mapping_info (fst c))) w)"
  shows "\<exists>w'. mali_ukk_mem_munmap hw env as c w = Some (ERR_OK, w') \<and> system_ok env F (L, remove1 c C, w')"
proof -
  obtain err w' where 1: "mali_ukk_mem_munmap_internal hw env as c w = Some (err, w')"
    "system_ok env F (L, if err = ERR_OK then remove1 c C else C, w')" using munmap_step[OF ok c, of hw "as"] by blast
  obtain d ts where dt: "c = (d, ts)" by (cases c)
  have "err = ERR_OK" using 1(1) s unfolding dt mali_ukk_mem_munmap_internal_def
    by (auto simp: Let_def split: prod.splits bind_splits)
  then show ?thesis using 1 by (subst mali_ukk_mem_munmap.simps) simp
qed

text \<open>
  C3: when no signal interrupts the wait for a lock, Linux always has a page, and the memory it gives is nobody
  else's, these operations return in every state that beginning and ending sessions, mapping page aligned
  ranges that end below 4 GB, and unmapping can reach: beginning and ending a session, mapping, one attempt to unmap, unmapping once the units can be
  stalled, and getting the empty page directory and the flush pages.  They follow no null pointer and no
  circular list of blocks.
\<close>

theorem memory_operations_return:
  assumes "uninterrupted env" "page_supply env" "fresh_memory env" "memory_starts F w0"
    and "(mem_step hw env as)\<^sup>*\<^sup>* ({}, [], w0) (L, C, w)"
  shows "(\<forall>s. s \<notin> L \<longrightarrow> mali_memory_core_session_begin env as mapping_ok lock_ok s slot w \<noteq> None) \<and>
    (\<forall>s \<in> L. mali_memory_core_session_end env (Some (Some s)) w \<noteq> None) \<and>
    (\<forall>s \<in> L. mali_range (mmap_descriptor s a sz v) \<and> length C < 2 ^ 32 - 1 \<longrightarrow>
      mali_ukk_mem_mmap hw env as (Some s) a sz v w \<noteq> None) \<and>
    (\<forall>c \<in> set C. mali_ukk_mem_munmap_internal hw env as c w \<noteq> None) \<and>
    (\<forall>c \<in> set C. fst (stall_mmus hw (active_mmus w (mali_addr_mapping_info (fst c))) w) \<longrightarrow>
      mali_ukk_mem_munmap hw env as c w \<noteq> None) \<and>
    mali_allocate_empty_page_directory env as w \<noteq> None \<and> mali_allocate_fault_flush_pages env as w \<noteq> None"
proof (intro conjI)
  have ok: "system_ok env F (L, C, w)" by (rule reachable_system_ok[OF assms(5) memory_starts_ok[OF assms(1-4)]])
  then have m: "memory_ok env L F (cookie_ranges C) (cookie_ranges C) (cookie_handles C) w" by simp
  show "\<forall>s. s \<notin> L \<longrightarrow> mali_memory_core_session_begin env as mapping_ok lock_ok s slot w \<noteq> None"
    using begin_step[OF ok, of _ "as" mapping_ok lock_ok slot] by fastforce
  show "\<forall>s \<in> L. mali_memory_core_session_end env (Some (Some s)) w \<noteq> None"
    using session_end_ok[OF m] by fastforce
  show "\<forall>s \<in> L. mali_range (mmap_descriptor s a sz v) \<and> length C < 2 ^ 32 - 1 \<longrightarrow>
      mali_ukk_mem_mmap hw env as (Some s) a sz v w \<noteq> None"
    using mmap_step[OF ok, of _ a sz v hw "as"] by fastforce
  show "\<forall>c \<in> set C. mali_ukk_mem_munmap_internal hw env as c w \<noteq> None"
    using munmap_step[OF ok, of _ hw "as"] by fastforce
  show "\<forall>c \<in> set C. fst (stall_mmus hw (active_mmus w (mali_addr_mapping_info (fst c))) w) \<longrightarrow>
      mali_ukk_mem_munmap hw env as c w \<noteq> None"
    using munmap_stalled[OF ok, of _ hw "as"] by fastforce
  show "mali_allocate_empty_page_directory env as w \<noteq> None" using empty_page_directory_ok[OF m, of "as"] by auto
  show "mali_allocate_fault_flush_pages env as w \<noteq> None" using fault_flush_pages_ok[OF m, of "as"] by auto
qed

theorem memory_operations_return_witness:
  "mali_ukk_mem_munmap demo_hw demo_env demo_allocators demo_cookie demo_mapped \<noteq> None"
  using memory_operations_return[OF demo_memory_environment demo_memory_starts demo_reach] by (simp add: demo_cookie_def demo_range_def demo_map)

text \<open>
  The first two assumptions are needed.  Without a page the mapping follows a null pointer; and a release
  that a signal interrupts does nothing, so that the blocks stay out of the free list for good.
\<close>

lemma mmap_without_page:
  "mali_ukk_mem_mmap demo_hw (demo_env\<lparr>alloc_page := \<lambda>_. None\<rparr>) [Os_allocator 0] (Some 0) 0x1000 0x2000 7 demo_begun = None"
  by (simp add: demo_map_defs os_allocator_allocate_def os_commit.simps mali_osk_mem_check_allocated_def
      OSK_CPU_PAGE_SIZE_def OSK_CPU_PAGE_ORDER_def allocation_list_item_get_def kernel_page_allocate_def)

lemma interrupted_release_loses_blocks:
  assumes "lock_interrupted env w"
  shows "release_all_trackers (physical_allocators env engine) (map (\<lambda>h. Some (Block_handle i h)) hs) w = Some w"
proof (induction hs)
  case (Cons h hs)
  then show ?case using assms by (simp add: physical_allocators_def block_allocator_release_def)
qed simp

text \<open>
  C4: when no signal interrupts the wait for a lock (an interrupted release loses its blocks), Linux always
  has a page and gives memory that is nobody else's, each block of a block allocator is in exactly one
  place in every state that beginning and ending sessions, mapping page aligned ranges that end below 4 GB, and
  unmapping can reach: the list of free
  blocks, the list of one live allocation, or a block of page tables.
\<close>

theorem blocks_in_one_place:
  assumes "uninterrupted env" "page_supply env" "fresh_memory env" "memory_starts F w0"
    and "(mem_step hw env as)\<^sup>*\<^sup>* ({}, [], w0) (L, C, w)"
  shows "mset (list_blocks w i (first_free (blk w i))) +
      (\<Sum>p \<in># used_lists (cookie_handles C) w i. mset (list_blocks w i p)) = mset [0..<unat (num_blocks (blk w i))]"
proof -
  have "system_ok env F (L, C, w)" by (rule reachable_system_ok[OF assms(5) memory_starts_ok[OF assms(1-4)]])
  then have "pages_ok env L F (mali_count (cookie_ranges C)) (cookie_handles C) w" by (simp add: memory_ok_def)
  then obtain U where "mem_inv env (cookie_handles C) U w" by (rule pages_ok_D)
  then have "alloc_inv (cookie_handles C) (table_releases w) w" by (simp add: mem_inv_def)
  then show ?thesis by (rule used_blocks(1))
qed

theorem blocks_in_one_place_witness:
  "mset (list_blocks demo_mapped 0 (Some 1)) +
     (\<Sum>p \<in># used_lists (cookie_handles [demo_cookie]) demo_mapped 0. mset (list_blocks demo_mapped 0 p)) = mset [0..<4]"
  using blocks_in_one_place[OF demo_memory_environment demo_memory_starts demo_reach, of 0] by (simp add: demo_map)

text \<open>
  C7: in every reachable state the page directory and the page tables of a session lie outside all
  blocks that are mapped for processes, and two sessions share none of these pages.
\<close>

theorem page_tables_apart:
  assumes "(mem_step hw env as)\<^sup>*\<^sup>* ({}, [], w0) (L, C, w)" "memory_ok env {} F {#} {#} {#} w0" "s \<in> L" "p \<in> session_pages s w"
  shows "(\<forall>i h b. Block_handle i h \<in># cookie_handles C \<longrightarrow> b \<in> set (list_blocks w i (last_allocated h)) \<longrightarrow>
      page_bytes p \<inter> block_bytes w i b = {}) \<and>
    (\<forall>t \<in> L. t \<noteq> s \<longrightarrow> p \<notin> session_pages t w) \<and> p \<notin> F"
proof -
  have "system_ok env F (L, C, w)" by (rule reachable_system_ok[OF assms(1,2)])
  then have "pages_ok env L F (mali_count (cookie_ranges C)) (cookie_handles C) w" by (simp add: memory_ok_def)
  then obtain U where U: "mem_inv env (cookie_handles C) U w" "pd_inv L F (mali_count (cookie_ranges C)) U w"
    by (rule pages_ok_D)
  note s = pages_of_sessions[OF U(2) assms(3)]
  have "p \<in> U" using s(1) assms(4) by blast
  then have "\<forall>i h b. Block_handle i h \<in># cookie_handles C \<longrightarrow> b \<in> set (list_blocks w i (last_allocated h)) \<longrightarrow>
      page_bytes p \<inter> block_bytes w i b = {}" using table_page_apart[OF U(1)] by blast
  then show ?thesis using s(2,3) assms(4) by blast
qed

theorem page_tables_apart_witness:
  "page_bytes 0x100C1000 \<inter> block_bytes demo_mapped 0 2 = {}"
proof -
  have p: "0x100C1000 \<in> session_pages 0 demo_mapped"
    by (auto simp: session_pages_def tables_of_def mapped_of_def demo_map intro: exI[of _ 0])
  have h: "Block_handle 0 demo_block \<in># cookie_handles [demo_cookie]" by (simp add: demo_cookie_def)
  have b: "2 \<in> set (list_blocks demo_mapped 0 (last_allocated demo_block))"
  proof -
    have "blocks_of (Suc 3) ((\<lambda>_. None)(1 := Some 0)) (Some 2) = [2]" by (simp add: numeral_eq_Suc)
    then show ?thesis by (simp add: list_blocks_def demo_map demo_block_def)
  qed
  show ?thesis using page_tables_apart[OF demo_reach demo_ok _ p] h b by blast
qed

text \<open>
  C8: when no signal interrupts the wait for a lock, Linux always has a page and gives memory that is nobody
  else's, nothing is lost when all mappings, of page aligned ranges that end below 4 GB, are gone and all sessions have ended: all blocks are in the free
  lists, no page is counted as allocated, no page table and no record of a mapping is left, and every page had
  of Linux has been given back or is in the driver's reserve.
\<close>

theorem nothing_leaks:
  assumes "uninterrupted env" "page_supply env" "fresh_memory env" "memory_starts {} w0"
    and "(mem_step hw env as)\<^sup>*\<^sup>* ({}, [], w0) ({}, [], w)"
  shows "mset (list_blocks w i (first_free (blk w i))) = mset [0..<unat (num_blocks (blk w i))] \<and>
    num_pages_allocated (osa w i) = 0 \<and> pt_partial w = [] \<and> pt_full w = [] \<and> infos w = (\<lambda>_. None) \<and>
    kernel_pages w = mset (pre_allocated_memory w)"
proof -
  have "system_ok env {} ({}, [], w)" by (rule reachable_system_ok[OF assms(5) memory_starts_ok[OF assms(1-4)]])
  then have m: "memory_ok env {} {} {#} {#} {#} w" by simp
  show ?thesis using all_free[OF m] no_listed_pages[OF m] by (simp add: tables_def)
qed

text \<open>The whole life of a mapping and of its session.\<close>

lemma demo_unmapped:
  "\<exists>w. (mem_step demo_hw demo_env demo_allocators)\<^sup>*\<^sup>* ({}, [], demo_mem) ({}, [], w)"
proof -
  have ok: "system_ok demo_env {} ({0}, [demo_cookie], demo_mapped)" by (rule reachable_system_ok[OF demo_reach demo_ok])
  then obtain err w1 where 1: "mali_ukk_mem_munmap_internal demo_hw demo_env demo_allocators demo_cookie demo_mapped = Some (err, w1)"
    "system_ok demo_env {} ({0}, if err = ERR_OK then [] else [demo_cookie], w1)"
    using munmap_step[OF ok, of demo_cookie demo_hw demo_allocators] by auto
  have e: "err = ERR_OK" using 1(1) demo_map(7)
    by (auto simp: mali_ukk_mem_munmap_internal_def demo_cookie_def demo_range_def split: bind_splits)
  have s1: "mem_step demo_hw demo_env demo_allocators ({0}, [demo_cookie], demo_mapped) ({0}, [], w1)"
    using mem_step.munmap[OF _ 1(1), of "[demo_cookie]" "{0}"] e by simp
  obtain w2 where 2: "mali_memory_core_session_end demo_env (Some (Some 0)) w1 = Some (Some None, w2)"
    using end_step[of demo_env "{}" "{0}" "[]" w1 0] 1(2) e by auto
  have "mem_step demo_hw demo_env demo_allocators ({0}, [], w1) ({}, [], w2)"
    using mem_step.session_end[OF _ _ 2, of "{0}" "[]"] by simp
  then show ?thesis using demo_reach s1 by (meson rtranclp.rtrancl_into_rtrancl)
qed

theorem nothing_leaks_witness:
  "\<exists>w. (mem_step demo_hw demo_env demo_allocators)\<^sup>*\<^sup>* ({}, [], demo_mem) ({}, [], w) \<and> pt_partial w = [] \<and> pt_full w = [] \<and>
     kernel_pages w = mset (pre_allocated_memory w)"
proof -
  obtain w where w: "(mem_step demo_hw demo_env demo_allocators)\<^sup>*\<^sup>* ({}, [], demo_mem) ({}, [], w)" using demo_unmapped by blast
  show ?thesis using w nothing_leaks[OF demo_memory_environment demo_memory_starts w] by blast
qed

subsection \<open>The operations on reachable states\<close>

text \<open>
  C24: mapping a page aligned range that ends below 4 GB is all or nothing, when no signal interrupts the wait for a lock, Linux always has a page and
  gives memory that is nobody else's.  It gives a range as it was asked for, whose pieces of physical memory
  follow each other without a gap from the beginning to the end; or it fails, and everything that it took is given
  back: the account of the whole memory is that of the mappings there were before, and so is the number
  of the pages that the driver has of Linux besides its reserve.
\<close>

theorem mmap_all_or_nothing:
  assumes "uninterrupted env" "page_supply env" "fresh_memory env" "memory_starts F w0"
    and "(mem_step hw env as)\<^sup>*\<^sup>* ({}, [], w0) (L, C, w)"
    and "s \<in> L" "mali_range (mmap_descriptor s a sz v)" "length C < 2 ^ 32 - 1"
    and "mali_ukk_mem_mmap hw env as (Some s) a sz v w = Some (err, r, w')"
  shows "if err = ERR_OK then \<exists>d hs. r = Some (d, map Some hs) \<and> same_range d (mmap_descriptor s a sz v) \<and>
      tiles handle_start handle_length 0 hs sz \<and> (\<forall>h \<in> set hs. handle_descriptor h = d) \<and>
      system_ok env F (L, (d, map Some hs) # C, w') \<and> pages_counted ((d, map Some hs) # C) w'
    else r = None \<and> system_ok env F (L, C, w') \<and> pages_counted C w'"
proof -
  have ok: "system_ok env F (L, C, w)" by (rule reachable_system_ok[OF assms(5) memory_starts_ok[OF assms(1-4)]])
  from mmap_step[OF ok assms(6-8), of hw "as"] assms(9)
  have s: "system_ok env F (L, case r of None \<Rightarrow> C | Some c \<Rightarrow> c # C, w')" "err = ERR_OK \<longleftrightarrow> r \<noteq> None"
    "\<And>d ts. r = Some (d, ts) \<Longrightarrow> same_range d (mmap_descriptor s a sz v)" by auto
  note n = system_pages[OF s(1)]
  show ?thesis
  proof (cases r)
    case (Some c)
    obtain d ts where c: "c = (d, ts)" by (cases c)
    have k: "cookie_ok L (d, ts)" using s(1) Some c by simp
    have d: "same_range d (mmap_descriptor s a sz v)" using s(3) Some c by simp
    have "tiles handle_start handle_length 0 (live_trackers ts) sz" "ts = map Some (live_trackers ts)"
      "\<forall>h \<in> set (live_trackers ts). handle_descriptor h = d"
      using k mmap_descriptor_userspace[OF d] by simp_all
    then show ?thesis using s(1,2) n Some c d by (intro if_bool_eq_conj[THEN iffD2] conjI impI exI[of _ d] exI[of _ "live_trackers ts"]) simp_all
  qed (use s n in simp)
qed

theorem mmap_all_or_nothing_witness:
  "\<exists>d hs. demo_cookie = (d, map Some hs) \<and> same_range d (mmap_descriptor 0 0x1000 0x2000 7) \<and>
     tiles handle_start handle_length 0 hs 0x2000 \<and> pages_counted [demo_cookie] demo_mapped"
proof -
  have b: "(mem_step demo_hw demo_env demo_allocators)\<^sup>*\<^sup>* ({}, [], demo_mem) ({0}, [], demo_begun)"
    using mem_step.session_begin[OF _ demo_begin, of "{}" demo_hw "[]"] by (simp add: r_into_rtranclp)
  have r: "mali_range (mmap_descriptor 0 0x1000 0x2000 7)" by (simp add: mali_range_def mmap_descriptor_def)
  from mmap_all_or_nothing[OF demo_memory_environment demo_memory_starts b _ r _ demo_map(1)]
  obtain d hs where "demo_cookie = (d, map Some hs)" "same_range d (mmap_descriptor 0 0x1000 0x2000 7)"
    "tiles handle_start handle_length 0 hs 0x2000" "pages_counted [(d, map Some hs)] demo_mapped" by auto
  then show ?thesis by (intro exI[of _ d] exI[of _ hs]) simp
qed

text \<open>
  C25: a mapping is undone by unmapping it, once the units of its session can be stalled, when no signal
  interrupts the wait for a lock (an interrupted release returns all the same and loses its blocks), Linux always has a
  page and gives memory that is nobody else's: the blocks, the pages of Linux, the page tables and
  the addresses are given back, and the account of the memory is that of the other mappings.  A unit that cannot
  be stalled ends the attempt with an error and without a change, but for the accesses to the units.
\<close>

theorem munmap_undoes_mmap:
  assumes "uninterrupted env" "page_supply env" "fresh_memory env" "memory_starts F w0"
    and "(mem_step hw env as)\<^sup>*\<^sup>* ({}, [], w0) (L, C, w)" "c \<in> set C"
  shows "if fst (stall_mmus hw (active_mmus w (mali_addr_mapping_info (fst c))) w)
    then \<exists>w'. mali_ukk_mem_munmap hw env as c w = Some (ERR_OK, w') \<and> system_ok env F (L, remove1 c C, w') \<and>
      pages_counted (remove1 c C) w'
    else \<exists>w'. mali_ukk_mem_munmap_internal hw env as c w = Some (ERR_BUSY, w') \<and> log_only w' w \<and> system_ok env F (L, C, w')"
proof (cases "fst (stall_mmus hw (active_mmus w (mali_addr_mapping_info (fst c))) w)")
  case True
  have ok: "system_ok env F (L, C, w)" by (rule reachable_system_ok[OF assms(5) memory_starts_ok[OF assms(1-4)]])
  show ?thesis using munmap_stalled[OF ok assms(6) True, of "as"] True system_pages by fastforce
next
  case False
  have ok: "system_ok env F (L, C, w)" by (rule reachable_system_ok[OF assms(5) memory_starts_ok[OF assms(1-4)]])
  obtain err w' where 1: "mali_ukk_mem_munmap_internal hw env as c w = Some (err, w')"
    "system_ok env F (L, if err = ERR_OK then remove1 c C else C, w')" using munmap_step[OF ok assms(6), of hw "as"] by blast
  obtain d ts where c: "c = (d, ts)" by (cases c)
  have e: "err = ERR_BUSY" "w' = snd (stall_mmus hw (active_mmus w (mali_addr_mapping_info d)) w)"
    using 1(1) False unfolding c mali_ukk_mem_munmap_internal_def by (auto simp: Let_def split: prod.splits)
  then show ?thesis using 1 False c stall_mmus_log[of hw "active_mmus w (mali_addr_mapping_info d)" w] by simp
qed

theorem munmap_undoes_mmap_witness:
  "\<exists>w. mali_ukk_mem_munmap demo_hw demo_env demo_allocators demo_cookie demo_mapped = Some (ERR_OK, w) \<and>
     system_ok demo_env {} ({0}, [], w) \<and> pages_counted [] w"
  using munmap_undoes_mmap[OF demo_memory_environment demo_memory_starts demo_reach, of demo_cookie] by (simp add: demo_map demo_cookie_def demo_range_def)

text \<open>
  C37: beginning a session is all or nothing: a new session has a slot and a page directory of its own
  with no page tables; after any failure the slot is what it was and the page directory is free again.
\<close>

theorem session_begin_all_or_nothing:
  assumes "(mem_step hw env as)\<^sup>*\<^sup>* ({}, [], w0) (L, C, w)" "memory_ok env {} F {#} {#} {#} w0" "s \<notin> L"
    and "mali_memory_core_session_begin env as mapping_ok lock_ok s slot w = Some (err, slot', w')"
  shows "if err = ERR_OK then slot = Some None \<and> slot' = Some (Some s) \<and> system_ok env F (insert s L, C, w') \<and>
      (\<forall>a. pte_word s a w' = None)
    else slot' = slot \<and> system_ok env F (L, C, w')"
proof -
  have ok: "system_ok env F (L, C, w)" by (rule reachable_system_ok[OF assms(1,2)])
  then have m: "memory_ok env L F (cookie_ranges C) (cookie_ranges C) (cookie_handles C) w" "\<forall>c \<in> set C. cookie_ok L c" by simp_all
  have r: "if err = ERR_OK then slot = Some None \<and> slot' = Some (Some s) \<and>
       memory_ok env (insert s L) F (cookie_ranges C) (cookie_ranges C) (cookie_handles C) w' \<and> (\<forall>i. mapped_of s i w' = None)
     else slot' = slot \<and> memory_ok env L F (cookie_ranges C) (cookie_ranges C) (cookie_handles C) w'"
    using session_begin_ok[OF m(1) assms(3) no_use_of_new_session[OF m(2) assms(3)], of "as" mapping_ok lock_ok slot] assms(4) by auto
  show ?thesis
  proof (cases "err = ERR_OK")
    case True
    then have i: "memory_ok env (insert s L) F (cookie_ranges C) (cookie_ranges C) (cookie_handles C) w'" "\<forall>i. mapped_of s i w' = None"
      using r by simp_all
    then have "pages_ok env (insert s L) F (mali_count (cookie_ranges C)) (cookie_handles C) w'" by (simp add: memory_ok_def)
    then obtain U where U: "pd_inv (insert s L) F (mali_count (cookie_ranges C)) U w'" by (rule pages_ok_D)
    have "pte_word s a w' = None" for a using pte_word_eq[OF U, of s a] i(2) by simp
    then show ?thesis using r True i(1) m(2) cookie_ok_mono(1)[of L _ "insert s L"] by auto
  qed (use r m(2) in simp)
qed

theorem session_begin_all_or_nothing_witness:
  "pte_word 0 0x1000 demo_begun = None"
  using session_begin_all_or_nothing[OF _ demo_ok _ demo_begin, of demo_hw "{}" "[]"] by simp

text \<open>
  C38: every piece of physical memory of a live mapping is page aligned and lies within the range of its
  mapping, and a mapping belongs to a live session.
\<close>

theorem pieces_within_ranges:
  assumes "(mem_step hw env as)\<^sup>*\<^sup>* ({}, [], w0) (L, C, w)" "memory_ok env {} F {#} {#} {#} w0" "h \<in># cookie_handles C"
  shows "page_range (handle_descriptor h) (handle_start h) (handle_length h) \<and>
    mali_addr_mapping_info (handle_descriptor h) \<in> L \<and> handle_descriptor h \<in> set (map fst C)"
proof -
  have ok: "system_ok env F (L, C, w)" by (rule reachable_system_ok[OF assms(1,2)])
  then have "pages_ok env L F (mali_count (cookie_ranges C)) (cookie_handles C) w" by (simp add: memory_ok_def)
  then obtain U where "mem_inv env (cookie_handles C) U w" by (rule pages_ok_D)
  then have "page_range (handle_descriptor h) (handle_start h) (handle_length h)"
    using assms(3) by (simp add: mem_inv_def alloc_inv_def)
  moreover obtain d ts where c: "(d, ts) \<in> set C" "h \<in> set (live_trackers ts)"
    using assms(3) by (auto simp: cookie_handles_def)
  then have "cookie_ok L (d, ts)" using ok by auto
  then have "handle_descriptor h = d" "mali_addr_mapping_info d \<in> L" using c(2) by (simp_all add: valid_range_def)
  ultimately show ?thesis using c(1) by force
qed

theorem pieces_within_ranges_witness: "page_range demo_range 0 0x2000"
  using pieces_within_ranges[OF demo_reach demo_ok, of "Block_handle 0 demo_block"]
  by (simp add: demo_cookie_def demo_block_def)

subsection \<open>Allocators and helper pages\<close>

text \<open>
  Releasing what the block allocator gave out last puts it back exactly as it was, the order of its
  free list included.
\<close>

theorem block_release_undoes_allocate:
  assumes "(mem_step hw env as)\<^sup>*\<^sup>* ({}, [], w0) (L, C, w)" "memory_ok env {} F {#} {#} {#} w0" "(d, ts) \<in> set C"
    and "4096 dvd unat offset" "offset < alloc_size d"
    and "block_allocator_allocate env (mali_engine env as) i d offset w = Some (result, Some h, offset', w')"
  shows "\<exists>w''. block_allocator_release env (mali_engine env as) i h w' = Some w'' \<and> blk w'' = blk w"
proof -
  have ok: "system_ok env F (L, C, w)" by (rule reachable_system_ok[OF assms(1,2)])
  then have m: "memory_ok env L F (cookie_ranges C) (cookie_ranges C) (cookie_handles C) w" by simp
  obtain U where o: "map_state env L F (cookie_ranges C) (cookie_ranges C) U (pt_partial w) (pt_full w) w" "env_ok env" "regions_ok w"
    "alloc_inv (cookie_handles C) (table_releases w) w" "cache_inv U w" by (rule memory_ok_open[OF m])
  have pr: "paged_region (blk w i)" using o(3) by (simp add: regions_ok_def)
  have k: "cookie_ok L (d, ts)" using ok assms(3) by auto
  have dC: "d \<in># cookie_ranges C" using assms(3) by force
  have d: "mappable L (cookie_ranges C) (cookie_ranges C) d" using k dC by (simp add: mappable_def)
  have sz: "4096 dvd unat (alloc_size d)" using k by (simp add: valid_range_def mali_range_def)
  have b: "blk_inv (blk w i) (used_lists (cookie_handles C) w i)" using o(4) by (simp add: alloc_inv_def used_lists_def)
  from mapping.block_allocate_ok[OF o(1) d b assms(4) sz assms(5) pr, of env "as"] assms(6)
  have h: "map_state env L F (cookie_ranges C) (cookie_ranges C) U (pt_partial w) (pt_full w) w'"
    "\<forall>j. j \<noteq> i \<longrightarrow> blk w' j = blk w j" "block_descriptor h = d" "start_offset h = offset"
    "page_range d offset (mapping_length h)" "blk_inv (blk w' i) (add_mset (last_allocated h) (used_lists (cookie_handles C) w i))"
    "relink (last_allocated h) (blk w' i) = Some (blk w i)"
    by (auto split: if_splits)
  have u: "unmappable (cookie_ranges C) (block_descriptor h)" using dC h(3) by (simp add: unmappable_def)
  have r: "page_range (block_descriptor h) (start_offset h) (mapping_length h)" using h(3-5) by simp
  have l: "\<not> lock_interrupted env w'" using o(2) by (simp add: env_ok_def)
  from mapping.block_release_ok[OF h(1) u h(6) r l, of "as"]
  obtain w'' where w: "block_allocator_release env (mali_engine env as) i h w' = Some w''" "\<forall>j. j \<noteq> i \<longrightarrow> blk w'' j = blk w' j"
    "relink (last_allocated h) (blk w' i) = Some (blk w'' i)" by blast
  then have "blk w'' = blk w" using h(2,7) by (metis ext option.inject)
  then show ?thesis using w(1) by blast
qed

lemma demo_allocate:
  "\<exists>h offset' w. block_allocator_allocate demo_env (mali_engine demo_env demo_allocators) 0 demo_range 0x1000 demo_mapped =
     Some (MALI_MEM_ALLOC_FINISHED, Some h, offset', w) \<and> last_allocated h = Some 1"
  by (simp add: demo_mapped_def demo_map_defs demo_range_def)

theorem block_release_undoes_allocate_witness:
  "\<exists>h w v. block_allocator_release demo_env (mali_engine demo_env demo_allocators) 0 h w = Some v \<and> last_allocated h = Some 1 \<and>
     blk v = blk demo_mapped"
proof -
  obtain h o' w where w: "block_allocator_allocate demo_env (mali_engine demo_env demo_allocators) 0 demo_range 0x1000 demo_mapped =
      Some (MALI_MEM_ALLOC_FINISHED, Some h, o', w)" "last_allocated h = Some 1" using demo_allocate by blast
  have c: "(demo_range, [Some (Block_handle 0 demo_block)]) \<in> set [demo_cookie]" by (simp add: demo_cookie_def)
  show ?thesis using block_release_undoes_allocate[OF demo_reach demo_ok c _ _ w(1)] w(2) by (auto simp: demo_range_def)
qed

text \<open>
  The physical allocators are tried in their order; a new one comes before those of the same order that
  are already there.
\<close>

theorem allocators_in_order:
  "link_allocator order a xs = takeWhile (\<lambda>x. fst x < order) xs @ (order, a) # dropWhile (\<lambda>x. fst x < order) xs \<and>
    (sorted (map fst xs) \<longrightarrow> sorted (map fst (link_allocator order a xs)))"
proof -
  have e: "link_allocator order a xs = takeWhile (\<lambda>x. fst x < order) xs @ (order, a) # dropWhile (\<lambda>x. fst x < order) xs"
    by (induction xs) auto
  have "sorted (map fst xs) \<Longrightarrow> sorted (map fst (link_allocator order a xs))"
  proof (induction xs)
    case (Cons x xs)
    have "set (map fst (link_allocator order a xs)) = insert order (set (map fst xs))" by (induction xs) auto
    then show ?case using Cons by (auto simp: not_less)
  qed simp
  then show ?thesis using e by blast
qed

theorem allocators_in_order_witness:
  "sorted (map fst (link_allocator 2 ''b'' [(1, ''a''), (3, ''c'')]))"
  using allocators_in_order[of 2 "''b''" "[(1, ''a''), (3, ''c'')]"] by simp

text \<open>
  The pages for the flush after a page fault are had together or not at all.  They are a directory
  whose entries all lead to one table, whose entries all lead to one cleared page; freeing them gives all
  three back.
\<close>

theorem flush_pages_all_or_nothing:
  assumes "memory_ok env L F M P H w" "mali_allocate_fault_flush_pages env as w = Some (err, w')"
  shows "if err = ERR_OK then flush_chain w' \<and> distinct (flush_pages w') \<and> set (flush_pages w') \<inter> F = {} \<and>
      memory_ok env L (set (flush_pages w') \<union> F) M P H w' \<and>
      (\<exists>w''. mali_free_fault_flush_pages env w' = Some w'' \<and> memory_ok env L F M P H w'')
    else err = ERR_NOMEM \<and> memory_ok env L F M P H w'"
proof -
  have r: "if err = ERR_OK then distinct (flush_pages w') \<and> set (flush_pages w') \<inter> F = {} \<and> flush_chain w' \<and>
       memory_ok env L (set (flush_pages w') \<union> F) M P H w'
     else err = ERR_NOMEM \<and> memory_ok env L F M P H w'"
    using fault_flush_pages_ok[OF assms(1), of "as"] assms(2) by auto
  show ?thesis
  proof (cases "err = ERR_OK")
    case True
    then show ?thesis using r free_fault_flush_pages_ok[of env L w' F M P H] by auto
  qed (use r in simp)
qed

lemma bit2: "mali_osk_find_first_zero_bit ((\<lambda>_. 0)(0 := 3)) 64 = Some 2"
  by code_simp

lemma set_bit2: "mali_osk_set_nonatomic_bit 2 ((\<lambda>_. 0)(0 := 3)) = (\<lambda>_. 0)(0 := 7)"
  by (simp add: mali_osk_set_nonatomic_bit_def mali_internal_set_bit_def)

lemma demo_flush: "\<exists>w. mali_allocate_fault_flush_pages demo_env demo_allocators demo_mem = Some (ERR_OK, w)"
  by (simp add: mali_allocate_fault_flush_pages_def demo_defs mali_mmu_get_table_page_def
      block_allocator_allocate_page_table_block_def fill_page_filled bit0 bit1 set_bit1 bit2 set_bit2 get_phys_def
      MALI_BLOCK_SIZE_def MALI_MMU_PAGE_SIZE_def set_blk_def take_block_def)

theorem flush_pages_all_or_nothing_witness:
  "\<exists>w. mali_allocate_fault_flush_pages demo_env demo_allocators demo_mem = Some (ERR_OK, w) \<and> flush_chain w"
proof -
  obtain w where "mali_allocate_fault_flush_pages demo_env demo_allocators demo_mem = Some (ERR_OK, w)" using demo_flush by blast
  then show ?thesis using flush_pages_all_or_nothing[OF demo_ok] by auto
qed

end
