(* ===== verification/Mmu_Properties.thy ===== *)
theory Mmu_Properties
  imports Memory_Demo Mmu_Faults
begin

text \<open>
  The properties of the MMU: the translation that mapping makes and what releasing leaves of it, who is
  on which page directory, and the recovery from page faults.
\<close>

subsection \<open>Translation\<close>

text \<open>
  C14: mapping a piece of a live range of a session writes exactly the entries of its pages, one after the
  other; every other translation of every session is what it was.
\<close>

theorem mapping_translates:
  assumes "(mem_step hw env as)\<^sup>*\<^sup>* ({}, [], w0) (L, C, w)" "memory_ok env {} F {#} {#} {#} w0" "(d, ts) \<in> set C"
    and "page_range d offset sz"
  shows "\<exists>w'. mali_address_manager_map d offset phys sz w = Some (ERR_OK, phys, w') \<and>
    (\<forall>t \<in> L. \<forall>b. pte_word t b w' =
      (let k = unat b div 4096; f = unat (mali_address d + offset) div 4096
       in if t = mali_addr_mapping_info d \<and> f \<le> k \<and> k < f + unat sz div 4096
          then Some (mapped_pte (phys + of_nat (k - f) * 4096)) else pte_word t b w))"
proof -
  have ok: "system_ok env F (L, C, w)" by (rule reachable_system_ok[OF assms(1,2)])
  then have "pages_ok env L F (mali_count (cookie_ranges C)) (cookie_handles C) w" by (simp add: memory_ok_def)
  then obtain U where U: "pd_inv L F (mali_count (cookie_ranges C)) U w" by (rule pages_ok_D)
  have "cookie_ok L (d, ts)" using ok assms(3) by auto
  then have d: "mali_addr_mapping_info d \<in> L" "mali_range d" by (simp_all add: valid_range_def)
  have "d \<in># cookie_ranges C" using assms(3) by force
  from mali_address_manager_map_ok[OF U this d assms(4), of phys] show ?thesis by (auto simp: pages_mapped_def)
qed

theorem mapping_translates_witness:
  "\<exists>w. mali_address_manager_map demo_range 0x1000 0x20000000 0x1000 demo_mapped = Some (ERR_OK, 0x20000000, w) \<and>
     pte_word 0 0x2000 w = Some 0x20000007"
proof -
  have p: "page_range demo_range 0x1000 0x1000" by (simp add: page_range_def demo_range_def)
  have c: "(demo_range, [Some (Block_handle 0 demo_block)]) \<in> set [demo_cookie]" by (simp add: demo_cookie_def)
  obtain w where w: "mali_address_manager_map demo_range 0x1000 0x20000000 0x1000 demo_mapped = Some (ERR_OK, 0x20000000, w)"
    "\<forall>b. pte_word 0 b w = (let k = unat b div 4096 in if 2 \<le> k \<and> k < 3
       then Some (mapped_pte (0x20000000 + of_nat (k - 2) * 4096)) else pte_word 0 b demo_mapped)"
    using mapping_translates[OF demo_reach demo_ok c p, where phys = "0x20000000"] by (auto simp: demo_range_def)
  show ?thesis using w(1) w(2)[rule_format, of "0x2000"]
    by (simp add: mapped_pte_def MALI_MMU_FLAGS_PRESENT_def MALI_MMU_FLAGS_READ_PERMISSION_def MALI_MMU_FLAGS_WRITE_PERMISSION_def)
qed

text \<open>
  A range below 4 MB that crosses from one page directory entry to the next, where other mappings keep
  both page tables, is released without clearing a single entry: the memory of the mapping stays
  reachable for the units after it is free.
\<close>

lemma no_ptes_zapped:
  assumes "unat (a + sz - 1) div 4096 mod 1024 < unat a div 4096 mod 1024"
  shows "zap_ptes s i a sz w = Some w"
  using assms by (simp add: zap_ptes_def pte_nat)

lemma crossing_entries:
  fixes A S :: nat
  assumes "4096 dvd A" "4096 dvd S" "0 < S" "S < 0x400000" "(A + S - 1) div 0x400000 = Suc (A div 0x400000)"
  shows "(A + S - 1) div 4096 mod 1024 < A div 4096 mod 1024" "(A + S - 1) div 4096 mod 1024 < (A + S) div 4096 mod 1024"
proof -
  obtain a b where ab: "A = 4096 * a" "S = 4096 * Suc b"
    using assms(1-3) by (metis dvdE gr0_conv_Suc mult_zero_right neq0_conv)
  have e: "A + S - 1 = 4096 * (a + b) + 4095" using ab by simp
  have d: "(A + S - 1) div 4096 = a + b" "(A + S) div 4096 = Suc (a + b)" "A div 4096 = a" unfolding e using ab by simp_all
  have big: "(4096 * (a + b) + 4095) div 0x400000 = (a + b) div 1024" "(4096 * a) div 0x400000 = a div 1024"
    by (simp_all add: div_mult2_eq[of _ 4096 1024, simplified])
  have q: "(a + b) div 1024 = Suc (a div 1024)" using assms(5) unfolding e unfolding ab(1) big .
  have b: "b < 1023" using assms(4) ab(2) by simp
  have lt: "(a + b) mod 1024 < a mod 1024"
  proof -
    obtain k m n where v: "k = a div 1024" "m = a mod 1024" "n = (a + b) mod 1024" by simp
    have "1024 * k + m = a" "1024 + 1024 * k + n = a + b"
      using mult_div_mod_eq[of 1024 a] mult_div_mod_eq[of 1024 "a + b"] unfolding q v by simp_all
    then have "n < m" using b by linarith
    then show ?thesis unfolding v .
  qed
  show "(A + S - 1) div 4096 mod 1024 < A div 4096 mod 1024" unfolding d by (rule lt)
  have "Suc ((a + b) mod 1024) < 1024" using lt mod_less_divisor[of 1024 a] by linarith
  then have "Suc (a + b) mod 1024 = Suc ((a + b) mod 1024)" by (simp add: mod_Suc)
  then show "(A + S - 1) div 4096 mod 1024 < (A + S) div 4096 mod 1024" unfolding d by simp
qed

theorem release_leaves_entries:
  assumes "mali_range d" "unat (alloc_size d) < 0x400000" "last_pde_released d = Suc (first_pde d)"
    and "1 < usage_of (mali_addr_mapping_info d) (first_pde d) w"
    and "1 < usage_of (mali_addr_mapping_info d) (last_pde_released d) w"
  shows "\<exists>w'. mali_address_manager_release env d w = Some w' \<and> phys_mem w' = phys_mem w \<and>
    (\<forall>t a. pte_word t a w' = pte_word t a w)"
proof -
  let ?s = "mali_addr_mapping_info d" and ?a = "mali_address d" and ?z = "alloc_size d" and ?i = "first_pde d"
  have r: "4096 dvd unat ?a" "4096 dvd unat ?z" "0 < unat ?z" "unat ?a + unat ?z < 2 ^ 32"
    using assms(1) by (simp_all add: mali_range_def unat_gt_0)
  have u: "unat (?a + ?z) = unat ?a + unat ?z" using r(4) by (simp add: unat_word_ariths)
  have nz: "?a + ?z \<noteq> 0" using u r(3) by (metis add_gr_0 less_numeral_extra(3) unsigned_0)
  have u1: "unat (?a + ?z - 1) = unat ?a + unat ?z - 1"
    using nz u by (metis unat_minus_one)
  have x: "(unat ?a + unat ?z - 1) div 0x400000 = Suc (unat ?a div 0x400000)"
    using assms(3) by (simp add: last_pde_released_def first_pde_def pde_nat u1)
  note c = crossing_entries[OF r(1,2,3) assms(2) x]
  have z: "zap_ptes s j ?a ?z v = Some v" "zap_ptes s j (?a + ?z) 0 v = Some v" for s j and v :: "'a mmu_state_scheme"
    using c by (intro no_ptes_zapped; simp add: u u1)+
  have l: "[?i..<Suc (last_pde_released d)] = [?i, Suc ?i]" using assms(3) by (simp add: upt_rec)
  have sz: "size_inside_pte ?z = ?z" "size_inside_pte 0 = 0"
    using assms(2) by (simp_all add: size_inside_pte_def word_less_nat_alt)
  let ?w1 = "set_usage ?s ?i (usage_of ?s ?i w - 1) w"
  let ?w2 = "set_usage ?s (Suc ?i) (usage_of ?s (Suc ?i) ?w1 - 1) ?w1"
  have n: "usage_of ?s ?i ?w1 \<noteq> 0" "usage_of ?s (Suc ?i) ?w2 \<noteq> 0"
    using assms(3-5) by (auto simp: usage_of_def set_usage_def upd_ms_def)
  have "mali_address_manager_release env d w = Some ?w2"
    unfolding mali_address_manager_release_def l using n z sz by (simp add: Let_def)
  moreover have "read_pde t i (set_usage s j c v) = read_pde t i v" for t i s j c and v :: "'a mmu_state_scheme"
    by (simp add: read_pde_def ioread32_def set_usage_def upd_ms_def)
  then have "pte_word t a (set_usage s j c v) = pte_word t a v" for t a s j c and v :: "'a mmu_state_scheme"
    by (simp add: pte_word_def Let_def) (simp add: ioread32_def set_usage_def upd_ms_def)
  then have "pte_word t a ?w2 = pte_word t a w" for t a by simp
  ultimately show ?thesis by (simp add: set_usage_def upd_ms_def)
qed

theorem release_leaves_entries_witness:
  "\<exists>w. mali_address_manager_release demo_env (mmap_descriptor 0 0x3FF000 0x2000 7)
     (set_usage 0 0 2 (set_usage 0 1 2 demo_mem)) = Some w \<and> phys_mem w = phys_mem demo_mem"
proof -
  let ?d = "mmap_descriptor 0 0x3FF000 0x2000 7" and ?w = "set_usage 0 0 2 (set_usage 0 1 2 demo_mem)"
  have d: "mali_range ?d" "unat (alloc_size ?d) < 0x400000" "first_pde ?d = 0" "last_pde_released ?d = Suc 0"
    "mali_addr_mapping_info ?d = 0"
    by (simp_all add: mali_range_def mmap_descriptor_def first_pde_def last_pde_released_def pde_nat)
  have "usage_of 0 0 ?w = 2" "usage_of 0 (Suc 0) ?w = 2" "phys_mem ?w = phys_mem demo_mem"
    by (simp_all add: usage_of_def set_usage_def upd_ms_def)
  then show ?thesis using release_leaves_entries[OF d(1,2), of ?w demo_env] d by auto
qed

text \<open>
  A page table whose page comes from a block that is in use already is not cleared: its entries are
  whatever the memory held.  Only the first page of a block is cleared, and a page when it is released.
\<close>

theorem fresh_table_not_cleared:
  assumes "mem_inv env H U w" "pt_partial w \<noteq> []"
  shows "\<exists>p w'. mali_mmu_get_table_page env as w = Some (ERR_OK, p, Some p, w') \<and> p \<notin> U \<and> phys_mem w' = phys_mem w"
proof -
  obtain a rest where "pt_partial w = a # rest" using assms(2) by (cases "pt_partial w") auto
  from get_partial[OF assms(1) this] show ?thesis by blast
qed

theorem fresh_table_not_cleared_witness:
  "\<exists>p w. mali_mmu_get_table_page demo_env demo_allocators demo_mapped = Some (ERR_OK, p, Some p, w) \<and>
     phys_mem w = phys_mem demo_mapped"
proof -
  have "system_ok demo_env {} ({0}, [demo_cookie], demo_mapped)" by (rule reachable_system_ok[OF demo_reach demo_ok])
  then have "pages_ok demo_env {0} {} (mali_count (cookie_ranges [demo_cookie])) (cookie_handles [demo_cookie]) demo_mapped"
    by (simp add: memory_ok_def)
  then obtain U where U: "mem_inv demo_env (cookie_handles [demo_cookie]) U demo_mapped" by (rule pages_ok_D)
  have "pt_partial demo_mapped \<noteq> []" by (simp add: demo_mapped_def demo_map_defs)
  from fresh_table_not_cleared[OF U this, of demo_allocators] show ?thesis by blast
qed

text \<open>
  A mapping that ends exactly at the end of the address space writes no entry at all, and is reported as
  a success.
\<close>

theorem map_at_the_top_maps_nothing:
  assumes "mali_address d + offset + sz = 0"
  shows "mali_address_manager_map d offset phys sz w = Some (ERR_OK, phys, w)"
  using assms by (simp add: mali_address_manager_map_def map_pages.simps)

theorem map_at_the_top_maps_nothing_witness:
  "mali_address_manager_map (mmap_descriptor 0 0xFFFFE000 0x2000 7) 0 0x20000000 0x2000 demo_begun =
     Some (ERR_OK, 0x20000000, demo_begun)"
  using map_at_the_top_maps_nothing[of "mmap_descriptor 0 0xFFFFE000 0x2000 7" 0 "0x2000" "0x20000000" demo_begun]
  by (simp add: mmap_descriptor_def)

subsection \<open>Units\<close>


definition demo_units :: os_mem where
  "demo_units = demo_begun\<lparr>mmu_head := [1], mmu_log := [Mmu_write 1 MALI_MMU_REGISTER_DTE_ADDR 0]\<rparr>"

lemma demo_units_ok: "jobs_ok demo_units {#}"
  by (auto simp: jobs_ok_def units_ok_def unit_ok_def links_ok_def uses_of_def demo_units_def demo_begun_def demo_defs
      dte_def expected_dte_def)

lemma demo_activate:
  "\<exists>w. mali_memory_core_mmu_activate_page_table demo_hw (\<lambda>_. True) 1 0 (Some 5) 6 demo_units = (ERR_OK, w)"
  by (simp add: mali_memory_core_mmu_activate_page_table_def demo_units_def demo_begun_def demo_defs upd_mmu_def Let_def)


end
