(* ===== verification/Mmu_Recovery.thy ===== *)
theory Mmu_Recovery
  imports Mmu_Properties Rendercore_Faults
begin

text \<open>
  The handling of a page fault across the MMU units and the render cores.  The messages of the handler
  go to the two subsystems of render cores; every core that is reset gives its use of its unit back,
  which is how the handler comes to hold the last one.
\<close>

subsection \<open>The messages\<close>

text \<open>The MMU units together with the render cores that use them.\<close>

record gpu_units = mmu_units +
  the_cores :: gpu

text \<open>
  A core gives the use of its unit back.  The scheduler does not look at the units but through
  \<open>hw_mmu_activate\<close>, so that the releases of a message are made after it, in their order.
\<close>

definition core_release :: "mmu_hw \<Rightarrow> (nat \<Rightarrow> nat \<Rightarrow> gpu_units \<Rightarrow> gpu_units) \<Rightarrow> gpu \<Rightarrow> nat \<Rightarrow> gpu_units \<Rightarrow> gpu_units" where
  "core_release hw run g c w =
     (case core_mmu (rcores g c) of
        None \<Rightarrow> w
      | Some m \<Rightarrow> mali_memory_core_mmu_release_address_space_reference hw run m w)"

definition notify_subsystems :: "hw_env \<Rightarrow> mali_core_notification_message \<Rightarrow> nat \<Rightarrow> gpu \<Rightarrow> gpu" where
  "notify_subsystems h msg m g =
     fold (\<lambda>u. mali_core_subsystem_broadcast_notification h u msg (Some m)) [SUBSYS_GP, SUBSYS_PP] g"

definition core_broadcast :: "hw_env \<Rightarrow> mmu_hw \<Rightarrow> (nat \<Rightarrow> nat \<Rightarrow> gpu_units \<Rightarrow> gpu_units) \<Rightarrow> gpu_units broadcast" where
  "core_broadcast h hw run msg m w =
     (let g = the_cores w; g' = notify_subsystems h msg m g
      in fold (core_release hw run g') (drop (length (mmu_releases g)) (mmu_releases g')) (w\<lparr>the_cores := g'\<rparr>))"

subsection \<open>The cores\<close>

text \<open>The cores behind a unit that are at work.\<close>

definition at_work :: "nat list \<Rightarrow> nat \<Rightarrow> gpu \<Rightarrow> nat set" where
  "at_work cs m g = {c \<in> set cs. core_mmu (rcores g c) = Some m \<and> busy (core_state (rcores g c))}"

lemma set_idle_core:
  "mmu_releases (mali_core_subsystem_move_core_set_idle h c g) =
     mmu_releases g @ (if core_state (rcores g c) \<noteq> CORE_OFF then [c] else [])"
  "core_mmu (rcores (mali_core_subsystem_move_core_set_idle h c g) d) = core_mmu (rcores g d)"
  by (simp_all add: mali_core_subsystem_move_core_set_idle_def Let_def move_to_idle_def move_to_off_def)

lemma detach_wait:
  fixes h :: hw_env and e :: mali_subsystem_job_end_code
  assumes wf: "rc_wf L A g" and c: "registered g c" "core_state (rcores g c) \<noteq> CORE_IDLE"
  defines "g' \<equiv> mali_core_renderunit_detach_job_from_core h c SUBSYSTEM_WAIT e g"
  shows "mmu_releases g' = mmu_releases g @ (if busy (core_state (rcores g c)) then [c] else [])"
    and "core_mmu (rcores g' d) = core_mmu (rcores g d)"
    and "\<not> busy (core_state (rcores g' c)) \<and> current_job (rcores g' c) = None"
    and "set (returned g) \<subseteq> set (returned g')"
    and "current_job (rcores g c) = Some j \<Longrightarrow> (j, e) \<in> set (returned g')"
proof -
  have nd: "\<not> in_detach_function (rcores g c)" using wf by (simp add: rc_wf_def)
  have r: "mmu_releases (mali_core_job_set_run_time h j q) = mmu_releases q" for j q
    by (simp add: mali_core_job_set_run_time_def Let_def)
  have "mmu_releases (free_core h c g) = mmu_releases g @ (if core_state (rcores g c) \<noteq> CORE_OFF then [c] else [])"
    "core_mmu (rcores (free_core h c g) d) = core_mmu (rcores g d)"
    using c(2) by (simp_all add: free_core_def stop_core_def Let_def set_idle_core r split: option.split)
  then show "mmu_releases g' = mmu_releases g @ (if busy (core_state (rcores g c)) then [c] else [])"
    "core_mmu (rcores g' d) = core_mmu (rcores g d)"
    using c(2) by (simp_all add: g'_def detach_free[where g = g, OF nd] Let_def busy_def split: option.split)
  show "\<not> busy (core_state (rcores g' c)) \<and> current_job (rcores g' c) = None"
    using free_core_result(1,3)[OF nd c(2)]
    by (simp add: g'_def detach_free[where g = g, OF nd] Let_def busy_def split: option.split)
  show "set (returned g) \<subseteq> set (returned g')" "current_job (rcores g c) = Some j \<Longrightarrow> (j, e) \<in> set (returned g')"
    using free_core_result(6)[OF nd c(2)] by (auto simp: g'_def detach_free[where g = g, OF nd] Let_def split: option.split)
qed

definition reset_behind :: "hw_env \<Rightarrow> nat \<Rightarrow> nat \<Rightarrow> gpu \<Rightarrow> gpu" where
  "reset_behind h m c g =
     (if behind_mmu (Some m) c g \<and> core_state (rcores g c) \<noteq> CORE_IDLE
      then mali_core_renderunit_detach_job_from_core h c SUBSYSTEM_WAIT JOB_STATUS_END_SEG_FAULT g else g)"

text \<open>What the reset of the cores behind a unit leads to.\<close>

definition reset_done :: "nat set \<Rightarrow> nat set \<Rightarrow> nat list \<Rightarrow> nat \<Rightarrow> gpu \<Rightarrow> gpu \<Rightarrow> bool" where
  "reset_done L A cs m g g' \<longleftrightarrow> rc_wf L A g' \<and> rc_fixed g g' \<and>
     (\<exists>rs. mmu_releases g' = mmu_releases g @ rs \<and> distinct rs \<and> set rs = at_work cs m g) \<and>
     (\<forall>c. core_mmu (rcores g' c) = core_mmu (rcores g c)) \<and>
     (\<forall>c. c \<notin> set cs \<or> core_mmu (rcores g c) \<noteq> Some m \<longrightarrow> rcores g' c = rcores g c) \<and>
     (\<forall>c \<in> set cs. core_mmu (rcores g c) = Some m \<longrightarrow> \<not> busy (core_state (rcores g' c)) \<and> current_job (rcores g' c) = None) \<and>
     set (returned g) \<subseteq> set (returned g') \<and>
     (\<forall>c \<in> at_work cs m g. \<forall>j. current_job (rcores g c) = Some j \<longrightarrow> (j, JOB_STATUS_END_SEG_FAULT) \<in> set (returned g'))"

lemma reset_done_nil: "rc_wf L A g \<Longrightarrow> reset_done L A [] m g g"
  by (simp add: reset_done_def at_work_def)

lemma reset_done_one:
  assumes wf: "rc_wf L A g" and c: "registered g c"
  shows "reset_done L A [c] m g (reset_behind h m c g)"
proof (cases "core_mmu (rcores g c) = Some m \<and> core_state (rcores g c) \<noteq> CORE_IDLE")
  case True
  let ?g = "mali_core_renderunit_detach_job_from_core h c SUBSYSTEM_WAIT JOB_STATUS_END_SEG_FAULT g"
  have e: "reset_behind h m c g = ?g" using True by (simp add: reset_behind_def behind_mmu_def)
  note d = detach_wait[OF wf c conjunct2[OF True], where h = h and e = JOB_STATUS_END_SEG_FAULT]
  have "\<exists>rs. mmu_releases ?g = mmu_releases g @ rs \<and> distinct rs \<and> set rs = at_work [c] m g"
    using d(1) True by (intro exI[of _ "if busy (core_state (rcores g c)) then [c] else []"]) (auto simp: at_work_def)
  moreover have "rcores ?g k = rcores g k" if "k \<noteq> c" for k by (rule detach_other[OF wf c that])
  ultimately show ?thesis
    unfolding e reset_done_def using wf_detach[OF wf c] d(2-5) conjunct1[OF True]
    by (intro conjI) (auto simp: at_work_def)
next
  case False
  then have "reset_behind h m c g = g" by (auto simp: reset_behind_def behind_mmu_def)
  moreover have "\<not> busy (core_state (rcores g c)) \<and> current_job (rcores g c) = None" if "core_mmu (rcores g c) = Some m"
  proof -
    have "\<not> busy (core_state (rcores g c))" using False that by (simp add: busy_def)
    then show ?thesis using ok_running_busy[of L A "{}" "{}" g c] wf c by (auto simp: rc_wf_def)
  qed
  ultimately show ?thesis using wf by (auto simp: reset_done_def at_work_def)
qed

lemma reset_done_append:
  assumes 1: "reset_done L A cs m g g'" and 2: "reset_done L A ds m g' g''"
  shows "reset_done L A (cs @ ds) m g g''"
proof -
  obtain rs where rs: "mmu_releases g' = mmu_releases g @ rs" "distinct rs" "set rs = at_work cs m g"
    using 1 by (auto simp: reset_done_def)
  obtain rs' where rs': "mmu_releases g'' = mmu_releases g' @ rs'" "distinct rs'" "set rs' = at_work ds m g'"
    using 2 by (auto simp: reset_done_def)
  have m: "core_mmu (rcores g' c) = core_mmu (rcores g c)" for c using 1 by (simp add: reset_done_def)
  have off: "\<not> busy (core_state (rcores g' c)) \<and> current_job (rcores g' c) = None"
    if "c \<in> set cs" "core_mmu (rcores g c) = Some m" for c using 1 that by (simp add: reset_done_def)
  have same: "rcores g' c = rcores g c" if "c \<notin> set cs \<or> core_mmu (rcores g c) \<noteq> Some m" for c
    using 1 that by (simp add: reset_done_def)
  have same2: "rcores g'' c = rcores g' c" if "c \<notin> set ds \<or> core_mmu (rcores g c) \<noteq> Some m" for c
    using 2 that by (simp add: reset_done_def m)
  have off2: "\<not> busy (core_state (rcores g'' c)) \<and> current_job (rcores g'' c) = None"
    if "c \<in> set ds" "core_mmu (rcores g c) = Some m" for c using 2 that by (simp add: reset_done_def m)
  have w: "at_work ds m g' = at_work ds m g - at_work cs m g"
  proof (intro set_eqI iffI)
    fix c assume a: "c \<in> at_work ds m g'"
    then have "c \<notin> set cs" using off[of c] by (auto simp: at_work_def m)
    then show "c \<in> at_work ds m g - at_work cs m g" using a same[of c] by (simp add: at_work_def)
  next
    fix c assume a: "c \<in> at_work ds m g - at_work cs m g"
    then have "c \<notin> set cs" by (auto simp: at_work_def)
    then show "c \<in> at_work ds m g'" using a same[of c] by (simp add: at_work_def)
  qed
  have "distinct (rs @ rs')" "set (rs @ rs') = at_work (cs @ ds) m g"
    using rs rs' w by (auto simp: at_work_def)
  moreover have "(j, JOB_STATUS_END_SEG_FAULT) \<in> set (returned g'')"
    if "c \<in> at_work (cs @ ds) m g" "current_job (rcores g c) = Some j" for c j
  proof (cases "c \<in> set cs")
    case True
    then show ?thesis using 1 2 that by (auto simp: reset_done_def at_work_def)
  next
    case False
    then have "c \<in> at_work ds m g'" "current_job (rcores g' c) = Some j" using that same[of c] by (auto simp: at_work_def)
    then show ?thesis using 2 by (auto simp: reset_done_def)
  qed
  moreover have "\<not> busy (core_state (rcores g'' c)) \<and> current_job (rcores g'' c) = None"
    if "c \<in> set (cs @ ds)" "core_mmu (rcores g c) = Some m" for c
    using off[of c] off2[of c] same2[of c] that by (cases "c \<in> set ds") auto
  moreover have "rc_wf L A g''" "rc_fixed g g''" "set (returned g) \<subseteq> set (returned g'')"
    "core_mmu (rcores g'' c) = core_mmu (rcores g c)" for c
    using 1 2 fixed_trans by (auto simp: reset_done_def)
  moreover have "rcores g'' c = rcores g c" if "c \<notin> set (cs @ ds) \<or> core_mmu (rcores g c) \<noteq> Some m" for c
    using same[of c] same2[of c] that by auto
  ultimately show ?thesis using rs(1) rs'(1) unfolding reset_done_def by (intro conjI exI[of _ "rs @ rs'"]) auto
qed

lemma reset_done_fold:
  "rc_wf L A g \<Longrightarrow> \<forall>c \<in> set cs. registered g c \<Longrightarrow> reset_done L A cs m g (fold (reset_behind h m) cs g)"
proof (induction cs arbitrary: g)
  case (Cons c cs)
  have 1: "reset_done L A [c] m g (reset_behind h m c g)" using Cons.prems by (simp add: reset_done_one)
  then have "rc_wf L A (reset_behind h m c g)" "\<forall>d \<in> set cs. registered (reset_behind h m c g) d"
    using Cons.prems fixed_registered by (auto simp: reset_done_def)
  from reset_done_append[OF 1 Cons.IH[OF this]] show ?case by simp
qed (simp add: reset_done_nil)

lemma array_registered: "rc_wf L A g \<Longrightarrow> c \<in> set (mali_core_array (subsystems g u)) \<Longrightarrow> registered g c"
  by (auto simp: rc_wf_def rc_ok_def subsys_ok_def registered_def)

text \<open>The cores of both subsystems.\<close>

definition all_cores :: "gpu \<Rightarrow> nat list" where
  "all_cores g = mali_core_array (subsystems g SUBSYS_GP) @ mali_core_array (subsystems g SUBSYS_PP)"

lemma notify_reset:
  assumes "rc_wf L A g"
  shows "reset_done L A (all_cores g) m g
    (notify_subsystems h MMU_KILL_STEP2_RESET_ALL_CORES_AND_ABORT_THEIR_JOBS m g)"
proof -
  have e: "reset_all_cores_on_mmu h u (Some m) q = fold (reset_behind h m) (mali_core_array (subsystems q u)) q" for u q
    unfolding reset_all_cores_on_mmu_def by (rule fold_cong) (simp_all add: reset_behind_def fun_eq_iff)
  let ?q = "reset_all_cores_on_mmu h SUBSYS_GP (Some m) g"
  have 1: "reset_done L A (mali_core_array (subsystems g SUBSYS_GP)) m g ?q"
    unfolding e by (rule reset_done_fold[OF assms]) (use array_registered[OF assms] in blast)
  then have q: "rc_wf L A ?q" "mali_core_array (subsystems ?q SUBSYS_PP) = mali_core_array (subsystems g SUBSYS_PP)"
    by (simp_all add: reset_done_def rc_fixed_def)
  have "reset_done L A (mali_core_array (subsystems ?q SUBSYS_PP)) m ?q (reset_all_cores_on_mmu h SUBSYS_PP (Some m) ?q)"
    unfolding e by (rule reset_done_fold[OF q(1)[unfolded e]]) (use array_registered[OF q(1)] in \<open>unfold e, blast\<close>)
  from reset_done_append[OF 1 this[unfolded q(2)]] show ?thesis
    by (simp add: notify_subsystems_def mali_core_subsystem_broadcast_notification_def all_cores_def)
qed

text \<open>The message to stop the bus marks cores, and nothing else.\<close>

definition marked :: "gpu \<Rightarrow> gpu \<Rightarrow> bool" where
  "marked g g' \<longleftrightarrow> subsystems g' = subsystems g \<and> returned g' = returned g \<and> mmu_releases g' = mmu_releases g \<and>
     (\<forall>c. core_mmu (rcores g' c) = core_mmu (rcores g c) \<and> core_state (rcores g' c) = core_state (rcores g c) \<and>
          current_job (rcores g' c) = current_job (rcores g c))"

lemma marked_stop_bus: "marked g (stop_bus_for_all_cores_on_mmu u mmu g)"
  unfolding stop_bus_for_all_cores_on_mmu_def
  by (rule fold_invariant[where Q = "\<lambda>_. True" and P = "marked g"]) (auto simp: marked_def)

lemma notify_stop_bus:
  assumes "rc_wf L A g"
  shows "rc_wf L A (notify_subsystems h MMU_KILL_STEP1_STOP_BUS_FOR_ALL_CORES m g)"
    and "marked g (notify_subsystems h MMU_KILL_STEP1_STOP_BUS_FOR_ALL_CORES m g)"
proof -
  let ?q = "stop_bus_for_all_cores_on_mmu SUBSYS_GP (Some m) g"
  have n: "notify_subsystems h MMU_KILL_STEP1_STOP_BUS_FOR_ALL_CORES m g = stop_bus_for_all_cores_on_mmu SUBSYS_PP (Some m) ?q"
    by (simp add: notify_subsystems_def mali_core_subsystem_broadcast_notification_def)
  show "rc_wf L A (notify_subsystems h MMU_KILL_STEP1_STOP_BUS_FOR_ALL_CORES m g)"
    unfolding n by (intro wf_stop_bus assms)
  have "marked g ?q" "marked ?q (stop_bus_for_all_cores_on_mmu SUBSYS_PP (Some m) ?q)" by (rule marked_stop_bus)+
  then show "marked g (notify_subsystems h MMU_KILL_STEP1_STOP_BUS_FOR_ALL_CORES m g)" unfolding n marked_def by simp
qed

lemma marked_at_work: "marked g g' \<Longrightarrow> all_cores g' = all_cores g \<and> at_work cs m g' = at_work cs m g"
  by (simp add: marked_def at_work_def all_cores_def)

subsection \<open>The uses of the unit\<close>

lemma cores_field [simp]:
  "the_cores (upd_mmu m f w) = the_cores w"
  by (simp add: upd_mmu_def)

lemma log_only_cores: "log_only w' w \<Longrightarrow> the_cores w' = the_cores w" for w :: gpu_units
  by (auto simp: log_only_def)

lemma unit_change_cores: "unit_change m (mmus w m) (w\<lparr>the_cores := g\<rparr>) w"
  by (simp add: unit_change_def dte_def)

lemma release_one:
  assumes "mmu_usage_count (mmus w m) - 1 \<noteq> 0"
  shows "mali_memory_core_mmu_release_address_space_reference hw run m w =
    upd_mmu m (\<lambda>x. x\<lparr>mmu_usage_count := mmu_usage_count x - 1\<rparr>) w"
  using assms by (simp add: mali_memory_core_mmu_release_address_space_reference_def release_locked_def Let_def)

lemma of_nat_pos: "of_nat n + 1 \<noteq> (0 :: u32)" if "n + 1 < 2 ^ 32"
proof -
  have "unat (of_nat (n + 1) :: u32) = n + 1" using that by (simp only: unat_of_nat) simp
  then show ?thesis by (metis Suc_eq_plus1 nat.simps(3) of_nat_Suc add.commute unsigned_0)
qed

text \<open>The cores that are reset give back all uses but the handler's own.\<close>

lemma core_releases:
  assumes "\<forall>c \<in> set cs. core_mmu (rcores g c) = Some m" "mmu_usage_count (mmus w m) = of_nat (length cs) + 1"
    "length cs + 1 < 2 ^ 32"
  shows "fold (core_release hw run g) cs w = upd_mmu m (\<lambda>x. x\<lparr>mmu_usage_count := 1\<rparr>) w"
  using assms
proof (induction cs arbitrary: w)
  case Nil
  then have "(mmus w m)\<lparr>mmu_usage_count := 1\<rparr> = mmus w m" by (cases "mmus w m") simp
  then show ?case by (simp add: upd_mmu_def)
next
  case (Cons c cs)
  let ?w = "upd_mmu m (\<lambda>x. x\<lparr>mmu_usage_count := mmu_usage_count x - 1\<rparr>) w"
  have u: "mmu_usage_count (mmus ?w m) = of_nat (length cs) + 1" using Cons.prems(2) by simp
  then have "mmu_usage_count (mmus w m) - 1 = of_nat (length cs) + 1" by simp
  moreover have "of_nat (length cs) + 1 \<noteq> (0 :: u32)" by (rule of_nat_pos) (use Cons.prems(3) in simp)
  ultimately have "mmu_usage_count (mmus w m) - 1 \<noteq> 0" by (simp only: not_False_eq_True)
  from release_one[OF this] have "core_release hw run g c w = ?w"
    using Cons.prems(1) by (simp add: core_release_def)
  then show ?case using Cons.IH[OF _ u] Cons.prems(1,3) by (simp add: upd_mmu_def)
qed

lemma last_release_cores:
  "the_cores (snd (release_locked hw m w)) = the_cores w" for w :: gpu_units
proof -
  have "log_only (mali_mmu_activate_address_space hw m pd v) v" for pd and v :: gpu_units
    by (rule activate_log)
  then have "the_cores (mali_mmu_activate_address_space hw m pd v) = the_cores v" for pd and v :: gpu_units
    by (rule log_only_cores)
  then show ?thesis by (simp add: release_locked_def Let_def)
qed

subsection \<open>The handler\<close>

text \<open>Up to the point where the cores are to be reset: the unit plays its buffer back into the flush page.\<close>

definition before_reset :: "hw_env \<Rightarrow> mmu_hw \<Rightarrow> (nat \<Rightarrow> nat \<Rightarrow> gpu_units \<Rightarrow> gpu_units) \<Rightarrow> nat \<Rightarrow> gpu_units \<Rightarrow> gpu_units" where
  "before_reset h hw run m w =
     flush_replay_buffer hw m (core_broadcast h hw run MMU_KILL_STEP1_STOP_BUS_FOR_ALL_CORES m
       (upd_mmu m (\<lambda>x. x\<lparr>mmu_usage_count := mmu_usage_count x + 1\<rparr>) w))"

lemma stop_bus_broadcast:
  assumes "rc_wf L A (the_cores w)"
  shows "core_broadcast h hw run MMU_KILL_STEP1_STOP_BUS_FOR_ALL_CORES m w =
    w\<lparr>the_cores := notify_subsystems h MMU_KILL_STEP1_STOP_BUS_FOR_ALL_CORES m (the_cores w)\<rparr>"
  using notify_stop_bus(2)[OF assms] by (simp add: core_broadcast_def Let_def marked_def)

lemma flush_dte:
  "\<not> mmu_benchmark w \<Longrightarrow> dte m (flush_replay_buffer hw m w) = Some (mali_page_fault_flush_page_directory w)"
  by (simp add: flush_replay_buffer_def Let_def dte_write)

lemma log_only_flush_directory:
  "log_only w' w \<Longrightarrow> mali_page_fault_flush_page_directory w' = mali_page_fault_flush_page_directory w"
  by (auto simp: log_only_def)

lemma before_reset_ok:
  fixes h :: hw_env
  assumes wf: "rc_wf L A (the_cores w)" and nb: "\<not> mmu_benchmark w"
  assumes w0_def: "w0 = before_reset h hw run m w"
  shows "unit_change m ((mmus w m)\<lparr>mmu_usage_count := mmu_usage_count (mmus w m) + 1\<rparr>) w0 w"
    and "rc_wf L A (the_cores w0)" and "marked (the_cores w) (the_cores w0)"
    and "dte m w0 = Some (mali_page_fault_flush_page_directory w0)"
proof -
  let ?a = "upd_mmu m (\<lambda>x. x\<lparr>mmu_usage_count := mmu_usage_count x + 1\<rparr>) w"
  define g1 where "g1 = notify_subsystems h MMU_KILL_STEP1_STOP_BUS_FOR_ALL_CORES m (the_cores w)"
  let ?b = "?a\<lparr>the_cores := g1\<rparr>"
  have b: "core_broadcast h hw run MMU_KILL_STEP1_STOP_BUS_FOR_ALL_CORES m ?a = ?b"
    using stop_bus_broadcast[of L A ?a h hw run m] wf by (simp add: g1_def)
  then have w0: "w0 = flush_replay_buffer hw m ?b" by (simp add: w0_def before_reset_def)
  have nbb: "\<not> mmu_benchmark ?b" using nb by simp
  have log: "log_only w0 ?b"
    unfolding w0 by (simp add: flush_replay_buffer_def Let_def log_only_steps)
  have c: "the_cores w0 = g1" using log_only_cores[OF log] by simp
  show "rc_wf L A (the_cores w0)" "marked (the_cores w) (the_cores w0)"
    unfolding c g1_def by (rule notify_stop_bus[OF wf])+
  have 1: "unit_change m (mmus ?b m) w0 ?b" unfolding w0 by (rule flush_change[OF nbb])
  have 2: "unit_change m (mmus ?a m) ?b ?a" by (rule unit_change_cores)
  have 3: "unit_change m ((mmus w m)\<lparr>mmu_usage_count := mmu_usage_count (mmus w m) + 1\<rparr>) ?a w"
    by (rule unit_change_upd)
  have m: "mmus ?b m = (mmus w m)\<lparr>mmu_usage_count := mmu_usage_count (mmus w m) + 1\<rparr>" by simp
  show "unit_change m ((mmus w m)\<lparr>mmu_usage_count := mmu_usage_count (mmus w m) + 1\<rparr>) w0 w"
    using unit_change_trans[OF 1 unit_change_trans[OF 2 3]] unfolding m .
  show "dte m w0 = Some (mali_page_fault_flush_page_directory w0)"
    using flush_dte[OF nbb, of m hw] log_only_flush_directory[OF log] by (simp add: w0)
qed

text \<open>The reset of the cores leaves the handler with the only use of the unit.\<close>

lemma reset_broadcast:
  fixes h :: hw_env
  assumes wf: "rc_wf L A (the_cores w)"
    and u: "mmu_usage_count (mmus w m) = of_nat (card (at_work (all_cores (the_cores w)) m (the_cores w))) + 1"
    and n: "card (at_work (all_cores (the_cores w)) m (the_cores w)) + 1 < 2 ^ 32"
  defines "g' \<equiv> notify_subsystems h MMU_KILL_STEP2_RESET_ALL_CORES_AND_ABORT_THEIR_JOBS m (the_cores w)"
  shows "core_broadcast h hw run MMU_KILL_STEP2_RESET_ALL_CORES_AND_ABORT_THEIR_JOBS m w =
    upd_mmu m (\<lambda>x. x\<lparr>mmu_usage_count := 1\<rparr>) (w\<lparr>the_cores := g'\<rparr>)"
proof -
  have d: "reset_done L A (all_cores (the_cores w)) m (the_cores w) g'" unfolding g'_def by (rule notify_reset[OF wf])
  then obtain rs where rs: "mmu_releases g' = mmu_releases (the_cores w) @ rs" "distinct rs"
    "set rs = at_work (all_cores (the_cores w)) m (the_cores w)" by (auto simp: reset_done_def)
  have l: "length rs = card (at_work (all_cores (the_cores w)) m (the_cores w))"
    using rs(2,3) distinct_card by fastforce
  have "\<forall>c \<in> set rs. core_mmu (rcores g' c) = Some m" using rs(3) d by (auto simp: at_work_def reset_done_def)
  from core_releases[OF this, of "w\<lparr>the_cores := g'\<rparr>" hw run] show ?thesis
    using u n by (simp add: core_broadcast_def Let_def g'_def[symmetric] rs(1) l)
qed

text \<open>
  C26: the handling of a page fault, across the unit and the render cores.  The uses of the unit are those of
  the cores at work behind it.  When the cores are told to abort their jobs, in \<open>w0\<close>, the unit is on the
  flush page directory, and the same cores are at work on the same jobs.  After that and the reset of
  the unit, in \<open>w1\<close>, no use is left: the cores behind the unit are not at work and have no job, each
  job that they had is handed back with the status of a segmentation fault, and other cores are as
  before; the unit is idle on the empty page directory, without session and callbacks, and the other
  units are as before.  Only then are the waiting callbacks called, the job handling is told to go on,
  and the subsystems are told to unlock.
\<close>

theorem page_fault_ends_idle:
  fixes w :: gpu_units and m :: nat
  defines "g \<equiv> the_cores w"
  assumes "units_ok w" "m \<in> set (mmu_head w)" "rc_wf L A g"
    and "mmu_usage_count (mmus w m) = of_nat (card (at_work (all_cores g) m g))"
    and "card (at_work (all_cores g) m g) + 1 < 2 ^ 32"
    and "fst (mali_mmu_register_read hw m MALI_MMU_REGISTER_INT_RAWSTAT w) AND MALI_MMU_INTERRUPT_PAGE_FAULT \<noteq> 0"
  shows "\<exists>w0 w1. mali_kernel_memory_mmu_interrupt_handler_bottom_half hw (core_broadcast h hw run) run (Some m) w =
      core_broadcast h hw run MMU_KILL_STEP4_UNLOCK_SUBSYSTEM m
        (upd_mmu m (\<lambda>x. x\<lparr>in_page_fault_handler := False\<rparr>)
          (core_broadcast h hw run MMU_KILL_STEP3_CONTINUE_JOB_HANDLING m
            (fold (\<lambda>(c, arg). run c arg) (callbacks (mmus w m)) w1))) \<and>
    w1 = snd (release_locked hw m (reprogram_mmu hw m
      (core_broadcast h hw run MMU_KILL_STEP2_RESET_ALL_CORES_AND_ABORT_THEIR_JOBS m w0))) \<and>
    dte m w0 = Some (mali_page_fault_flush_page_directory w0) \<and> marked g (the_cores w0) \<and>
    reset_done L A (all_cores g) m (the_cores w0) (the_cores w1) \<and>
    units_ok w1 \<and> mmu_usage_count (mmus w1 m) = 0 \<and> active_session (mmus w1 m) = None \<and> callbacks (mmus w1 m) = [] \<and>
    dte m w1 = Some (mali_empty_page_directory w1) \<and> (\<forall>k. k \<noteq> m \<longrightarrow> mmus w1 k = mmus w k)"
proof -
  have idle: "core_broadcast h hw run MMU_KILL_STEP0_LOCK_SUBSYSTEM k v = v" for k v
    by (simp add: core_broadcast_def notify_subsystems_def mali_core_subsystem_broadcast_notification_def)
  obtain raw w2 where 2: "mali_mmu_register_read hw m MALI_MMU_REGISTER_INT_RAWSTAT w = (raw, w2)" by fastforce
  obtain status w3 where 3: "mali_mmu_register_read hw m MALI_MMU_REGISTER_STATUS w2 = (status, w3)" by fastforce
  let ?w4 = "upd_mmu m (\<lambda>x. x\<lparr>in_page_fault_handler := True\<rparr>) w3"
  obtain a w5 where 5: "mali_mmu_register_read hw m MALI_MMU_REGISTER_PAGE_FAULT_ADDR ?w4 = (a, w5)" by fastforce
  have same: "unit_change m (mmus v m) v' v" if "mali_mmu_register_read hw m r v = (x, v')" for r v x v'
    using unit_change_log[OF log_only_read[OF that]] last_written_read[OF that] by (simp add: dte_def)
  note c3 = unit_change_trans[OF same[OF 3] same[OF 2]]
  then have m3: "mmus w3 m = mmus w m" using same[OF 2] by (simp add: unit_change_def)
  have "unit_change m ((mmus w3 m)\<lparr>in_page_fault_handler := True\<rparr>) ?w4 w3" by (rule unit_change_upd)
  from unit_change_trans[OF this c3] have c4: "unit_change m ((mmus w m)\<lparr>in_page_fault_handler := True\<rparr>) ?w4 w" using m3 by simp
  have "unit_change m (mmus ?w4 m) w5 ?w4" by (rule same[OF 5])
  from unit_change_trans[OF this c4] have c5: "unit_change m ((mmus w m)\<lparr>in_page_fault_handler := True\<rparr>) w5 w" using m3 by simp
  have g5: "the_cores w5 = g"
    using log_only_cores[OF log_only_read[OF 2]] log_only_cores[OF log_only_read[OF 3]] log_only_cores[OF log_only_read[OF 5]]
    by (simp add: g_def)
  have nb5: "\<not> mmu_benchmark w5" using c5 assms(2) by (simp add: unit_change_def units_ok_def)
  define w0 where "w0 = before_reset h hw run m w5"
  note b = before_reset_ok[of L A w5, unfolded g5, OF assms(4) nb5 w0_def]
  have at: "at_work (all_cores (the_cores w0)) m (the_cores w0) = at_work (all_cores g) m g" "all_cores (the_cores w0) = all_cores g"
    using marked_at_work[OF b(3)] by simp_all
  have m5: "mmus w5 m = (mmus w m)\<lparr>in_page_fault_handler := True\<rparr>" using c5 by (simp add: unit_change_def)
  have u0: "mmu_usage_count (mmus w0 m) = of_nat (card (at_work (all_cores (the_cores w0)) m (the_cores w0))) + 1"
    using b(1) assms(5) m5 at by (simp add: unit_change_def)
  define g2 where "g2 = notify_subsystems h MMU_KILL_STEP2_RESET_ALL_CORES_AND_ABORT_THEIR_JOBS m (the_cores w0)"
  let ?k = "w0\<lparr>the_cores := g2\<rparr>"
  let ?c = "upd_mmu m (\<lambda>x. x\<lparr>mmu_usage_count := 1\<rparr>) ?k"
  have r: "core_broadcast h hw run MMU_KILL_STEP2_RESET_ALL_CORES_AND_ABORT_THEIR_JOBS m w0 = ?c"
    unfolding g2_def by (rule reset_broadcast[OF b(2) u0]) (use assms(6) at in simp)
  let ?d = "reprogram_mmu hw m ?c"
  let ?unit = "(mmus w m)\<lparr>mmu_usage_count := 1, in_page_fault_handler := True\<rparr>"
  have mc: "mmus ?c m = ?unit" using b(1) m5 by (simp add: unit_change_def unit_swap)
  have nbc: "\<not> mmu_benchmark ?c" using b(1) nb5 by (simp add: unit_change_def)
  have "unit_change m (mmus ?c m) ?c ?k" by (simp add: unit_change_def)
  from unit_change_trans[OF this unit_change_trans[OF unit_change_cores unit_change_trans[OF b(1) c5]]]
  have cw: "unit_change m ?unit ?c w" unfolding mc .
  from unit_change_trans[OF reprogram_change[OF nbc, of m hw] this] have dw: "unit_change m ?unit ?d w" unfolding mc .
  obtain w1 where w1: "release_locked hw m ?d = (callbacks (mmus w m), w1)" "units_ok w1" "mmu_head w1 = mmu_head w"
    "mmus w1 = (mmus w)(m := (mmus w m)\<lparr>mmu_usage_count := 0, in_page_fault_handler := True, active_session := None, callbacks := []\<rparr>)"
    using last_release[OF assms(2,3) dw, of hw] by blast
  have "the_cores w1 = g2"
    using last_release_cores[of hw m ?d] w1(1) log_only_cores[OF reprogram_log[of hw m ?c]] by simp
  moreover have "reset_done L A (all_cores g) m (the_cores w0) g2"
    using notify_reset[OF b(2), of m h] at by (simp add: g2_def)
  moreover have "dte m w1 = Some (mali_empty_page_directory w1)"
    using w1(2-4) assms(3) by (auto simp: units_ok_def unit_ok_def)
  moreover have "mali_kernel_mmu_bus_reset hw (core_broadcast h hw run) run m w5 =
      core_broadcast h hw run MMU_KILL_STEP3_CONTINUE_JOB_HANDLING m (fold (\<lambda>(c, arg). run c arg) (callbacks (mmus w m)) w1)"
    using r w1(1) by (simp add: mali_kernel_mmu_bus_reset_def Let_def w0_def before_reset_def
        mali_memory_core_mmu_release_address_space_reference_def)
  then have "mali_kernel_memory_mmu_interrupt_handler_bottom_half hw (core_broadcast h hw run) run (Some m) w =
      core_broadcast h hw run MMU_KILL_STEP4_UNLOCK_SUBSYSTEM m
        (upd_mmu m (\<lambda>x. x\<lparr>in_page_fault_handler := False\<rparr>)
          (core_broadcast h hw run MMU_KILL_STEP3_CONTINUE_JOB_HANDLING m
            (fold (\<lambda>(c, arg). run c arg) (callbacks (mmus w m)) w1)))"
    using 2 3 5 assms(7) by (simp add: mali_kernel_memory_mmu_interrupt_handler_bottom_half_def idle)
  ultimately show ?thesis
    using b(3,4) w1 r by (intro exI[of _ w0] exI[of _ w1]) auto
qed

definition fault_hw :: mmu_hw where "fault_hw = (\<lambda>m r log. 1)"

text \<open>The GP core is at work behind unit 1, for session 0.\<close>

definition working_gpu :: gpu where
  "working_gpu = upd_core 0 (\<lambda>x. x\<lparr>core_mmu := Some 1\<rparr>) one_job_gpu"

definition idle_units :: gpu_units where
  "idle_units = mmu_units.extend (mmu_units.truncate demo_units) (gpu_units.fields working_gpu)"

lemma working_facts:
  "rc_wf {} {7} working_gpu" "all_cores working_gpu = [0]" "current_job (rcores working_gpu 0) = Some 7"
  "core_mmu (rcores working_gpu 0) = Some 1" "core_state (rcores working_gpu 0) = CORE_WORKING"
proof -
  show "rc_wf {} {7} working_gpu" unfolding working_gpu_def by (rule wf_upd_core[OF one_job_facts(1)]) simp_all
  have e: "one_job_gpu = mali_core_subsystem_schedule quiet_hw 0 (enqueue 0 7 one_core_gpu)"
    by (simp add: one_job_gpu_def add_job_enqueue Let_def one_core_gpu_def
      mali_core_subsystem_register_renderunit_def boot_gpu_def demo_gpu_def)
  have "rc_fixed one_core_gpu one_job_gpu" unfolding e by (intro fixed_schedule) simp
  then have "mali_core_array (subsystems one_job_gpu u) = mali_core_array (subsystems one_core_gpu u)" for u
    by (simp add: rc_fixed_def)
  then show "all_cores working_gpu = [0]"
    by (simp add: all_cores_def working_gpu_def SUBSYS_GP_def SUBSYS_PP_def one_core_gpu_def boot_gpu_def demo_gpu_def
        mali_core_subsystem_register_renderunit_def Let_def)
  show "current_job (rcores working_gpu 0) = Some 7" "core_mmu (rcores working_gpu 0) = Some 1"
    "core_state (rcores working_gpu 0) = CORE_WORKING"
    using one_job_facts(3,4) by (simp_all add: working_gpu_def)
qed

lemma idle_units_facts:
  "units_ok idle_units" "1 \<in> set (mmu_head idle_units)" "mmu_usage_count (mmus idle_units 1) = 0" "the_cores idle_units = working_gpu"
proof -
  have f: "mmus idle_units = mmus demo_units" "mmu_head idle_units = mmu_head demo_units" "active_mmus idle_units = active_mmus demo_units"
    "mmu_log idle_units = mmu_log demo_units" "mmu_benchmark idle_units = mmu_benchmark demo_units"
    "mali_empty_page_directory idle_units = mali_empty_page_directory demo_units" "msessions idle_units = msessions demo_units"
    by (simp_all add: idle_units_def mmu_units.extend_def mmu_units.truncate_def)
  show "the_cores idle_units = working_gpu" by (simp add: idle_units_def mmu_units.extend_def gpu_units.fields_def)
  have j: "Mmu_Activation.jobs_ok demo_units {#}" by (rule demo_units_ok)
  have h: "1 \<in> set (mmu_head demo_units)" by (simp add: demo_units_def)
  have d: "units_ok demo_units" "unat (mmu_usage_count (mmus demo_units 1)) = uses_of 1 {#}"
    using j h by (simp_all only: Mmu_Activation.jobs_ok_def)
  have x: "expected_dte idle_units = expected_dte demo_units"
    by (simp add: expected_dte_def f fun_eq_iff cong: option.case_cong)
  show "units_ok idle_units" "1 \<in> set (mmu_head idle_units)" "mmu_usage_count (mmus idle_units 1) = 0"
    using d h by (simp_all add: units_ok_def unit_ok_def links_ok_def dte_def x f uses_of_def unat_eq_0)
qed

lemma activate_cores:
  "mali_memory_core_mmu_activate_page_table hw mem m s cb arg w = (err, w') \<Longrightarrow> the_cores w' = the_cores w" for w :: gpu_units
  using log_only_cores[OF activate_log]
  by (auto simp: mali_memory_core_mmu_activate_page_table_def Let_def split: if_splits option.splits)

theorem page_fault_ends_idle_witness:
  "\<exists>w w1. the_cores w = working_gpu \<and> mmu_usage_count (mmus w 1) = 1 \<and>
     mali_kernel_memory_mmu_interrupt_handler_bottom_half fault_hw (core_broadcast quiet_hw fault_hw (\<lambda>c a w. w))
       (\<lambda>c a w. w) (Some 1) w =
     core_broadcast quiet_hw fault_hw (\<lambda>c a w. w) MMU_KILL_STEP4_UNLOCK_SUBSYSTEM 1
       (upd_mmu 1 (\<lambda>x. x\<lparr>in_page_fault_handler := False\<rparr>)
         (core_broadcast quiet_hw fault_hw (\<lambda>c a w. w) MMU_KILL_STEP3_CONTINUE_JOB_HANDLING 1 w1)) \<and>
     mmu_usage_count (mmus w1 1) = 0 \<and> (7, JOB_STATUS_END_SEG_FAULT) \<in> set (returned (the_cores w1))"
proof -
  obtain w where w: "mali_memory_core_mmu_activate_page_table demo_hw (\<lambda>_. True) 1 0 (Some 5) 6 idle_units = (ERR_OK, w)"
    using idle_units_facts(3) by (simp add: mali_memory_core_mmu_activate_page_table_def Let_def)
  note u = idle_units_facts
  have nb: "mmu_usage_count (mmus idle_units 1) \<noteq> - 1" using u(3) by simp
  have a: "units_ok w" "1 \<in> set (mmu_head w)" "mmu_usage_count (mmus w 1) = 1"
    using activate_page_table_ok[OF u(1,2) nb w] u(2,3) by simp_all
  have c: "the_cores w = working_gpu" using activate_cores[OF w] u(4) by simp
  have at: "at_work (all_cores working_gpu) 1 working_gpu = {0}"
    using working_facts by (auto simp: at_work_def busy_def)
  have f: "fst (mali_mmu_register_read fault_hw 1 MALI_MMU_REGISTER_INT_RAWSTAT w) AND MALI_MMU_INTERRUPT_PAGE_FAULT \<noteq> 0"
    using a(1) by (simp add: mali_mmu_register_read_def units_ok_def fault_hw_def MALI_MMU_INTERRUPT_PAGE_FAULT_def)
  have e: "fold (\<lambda>(c, arg). (\<lambda>w. w)) cs v = v" for cs :: "(nat \<times> nat) list" and v :: gpu_units by (induction cs) auto
  have n: "mmu_usage_count (mmus w 1) = of_nat (card (at_work (all_cores (the_cores w)) 1 (the_cores w)))"
    "card (at_work (all_cores (the_cores w)) 1 (the_cores w)) + 1 < 2 ^ 32" "rc_wf {} {7} (the_cores w)"
    using a(3) c at working_facts(1) by simp_all
  from page_fault_ends_idle[OF a(1,2) n(3,1,2) f, where h = quiet_hw and run = "\<lambda>c a w. w"] show ?thesis
    unfolding c e
  proof (elim exE conjE)
    fix w0 w1
    assume r: "marked working_gpu (the_cores w0)" "reset_done {} {7} (all_cores working_gpu) 1 (the_cores w0) (the_cores w1)"
      "mmu_usage_count (mmus w1 1) = 0"
      and h: "mali_kernel_memory_mmu_interrupt_handler_bottom_half fault_hw (core_broadcast quiet_hw fault_hw (\<lambda>c a w. w))
        (\<lambda>c a w. w) (Some 1) w =
       core_broadcast quiet_hw fault_hw (\<lambda>c a w. w) MMU_KILL_STEP4_UNLOCK_SUBSYSTEM 1
         (upd_mmu 1 (\<lambda>x. x\<lparr>in_page_fault_handler := False\<rparr>)
           (core_broadcast quiet_hw fault_hw (\<lambda>c a w. w) MMU_KILL_STEP3_CONTINUE_JOB_HANDLING 1 w1))"
    have "0 \<in> at_work (all_cores working_gpu) 1 (the_cores w0)" "current_job (rcores (the_cores w0) 0) = Some 7"
      using at working_facts(3) marked_at_work[OF r(1)] r(1) by (auto simp: marked_def)
    then have "(7, JOB_STATUS_END_SEG_FAULT) \<in> set (returned (the_cores w1))" using r(2) by (auto simp: reset_done_def)
    then show ?thesis using r(3) h a(3) c by blast
  qed
qed

end
