(* ===== verification/Spec2Isabelle.thy ===== *)
theory Spec2Isabelle
  imports Descriptor_Mapping Ump_Properties Pmm_Reset Core_Lists Memory_Properties Mmu_Recovery
begin

text \<open>
  Verification of the Mali GPU kernel driver of the SPEAr1340 board, and of the driver of the unified memory
  provider (UMP), which shares memory between processes and drivers.

  The repository is an Android device tree; the C code that decides anything is the kernel driver for the
  Mali GPU under src/SPEAr1340/hardware/arm/mali/src/devicedrv/mali and the UMP driver beside it.  File names
  below are relative to that directory.

  \<^bold>\<open>The program.\<close>  A process has a session with the driver.  It maps memory for the GPU into its
  address space and into the page tables of its session (common/mali\_kernel\_mem\_mmu.c), for which the memory
  engine (common/mali\_kernel\_memory\_engine.c) combines two address managers with a list of physical
  allocators, one for blocks of reserved memory (common/mali\_block\_allocator.c), one for pages of the operating
  system (common/mali\_kernel\_mem\_os.c).  It queues jobs, which the scheduler (common/mali\_kernel\_rendercore.c)
  starts on render cores; a job holds a use of the MMU unit of its core, which keeps the unit on the page
  directory of the session.  A page fault stops the cores, flushes the unit and aborts the jobs on it.  The power
  management module (common/pmm) reacts to job and operating system events through a policy and switches cores on
  and off, with the scheduler acknowledging when a core is idle.  UMP and external memory are named by
  descriptors, indices into a growing table with a bitmap of the indices in use.

  The UMP driver (ump/common, ump/linux) gives out memory behind handles with a count of references.  Its memory
  comes from a backend, a reserved region in blocks of 256 kB or pages of the operating system, or from another
  driver.  A process has a session, with a list of the memory it holds and a table of cookies for its mappings; it
  names memory by secure ids, entries of the device's table.  A mapping has a usage tracker, which counts the areas
  of processes that show it; the hook of the last of them ends the mapping.  Other drivers look handles up, hold and
  release them.

  \<^bold>\<open>The theories.\<close>  Prelude and Id\_Map hold generic lemmas and the interface of a table of ids.

  Descriptors: Osk\_Bitops (common/mali\_osk\_bitops.h: the bit search and the bitmaps, with their view as a set of
  numbers), Descriptor\_Table (a table and its bitmap, with the abstract map from ids to targets),
  Descriptor\_Mapping (common/mali\_kernel\_descriptor\_mapping.c) and Ump\_Descriptor\_Mapping
  (ump/common/ump\_kernel\_descriptor\_mapping.c), both interpretations of the interface in Id\_Map.

  Power management: Pmm\_State (common/pmm/mali\_pmm\_state.c and the records of mali\_pmm.h), Pmm\_Policy
  (mali\_pmm\_policy.c, mali\_pmm\_policy\_jobcontrol.c, mali\_pmm\_policy\_alwayson.c), Pmm (mali\_pmm.c: messages,
  registration and the worker thread).  Pmm\_Invariant has the relations between the masks of cores and that every
  function keeps them; Pmm\_Handshake the requests of the operating system and their answers; Pmm\_Properties and
  Pmm\_Recovery the properties, among them the loops of the fatal reset that may not end; Pmm\_Reset, with the scheduler,
  what a fatal reset that returns has done to the cores.

  Scheduler: Rendercore (jobs, sessions, cores and scheduling), Rendercore\_Power (power signals, the dispatch of
  common/mali\_kernel\_core.c, \_GP2.c and \_MALI200.c, interrupts and timeouts), Rendercore\_Invariant,
  Rendercore\_Frames (what the parts of an operation leave alone), Rendercore\_Steps (the step relation of all operations in
  any order), Rendercore\_Properties and Rendercore\_Faults.  A session may be closed with several cores at work, of which
  the code stops the first; the jobs of the others are the ghost set \<open>L\<close> of the invariant.  Osk\_List (common/mali\_osk\_list.h) has the doubly linked lists on explicit next and previous
  pointers, and Core\_Lists shows that the moves of cores between them refine the moves between sequences that
  Rendercore uses.

  Memory: Memory\_Engine (the engine, with the locale memory\_parts for what it relies on), Block\_Allocator and
  Block\_Lists (the blocks and the partition into lists, with the locale engine\_mapping for what an allocator
  relies on), Os\_Allocator, Physical\_Memory (the table of functions and the account of all physical memory),
  Page\_Table\_Cache and Page\_Table\_Pages (pages for page tables), Mmu\_Address\_Manager with Mmu\_Invariant, Mmu\_Steps
  and Mmu\_Contracts (page directories and tables in memory, and what reserving, releasing and mapping do to
  them), Process\_Address (linux/mali\_osk\_low\_level\_mem.c), Memory\_System (the parts put together; both locales are
  interpreted there), Memory\_Session (resources, helper pages, sessions, mmap and munmap), Session\_Lemmas and
  Session\_Contracts, Memory\_Reach (the step relation of the whole memory system), Memory\_Accounts, Memory\_Demo (a
  small system in which a session begins and maps memory, for the witnesses), Memory\_Properties.

  MMU units: Mmu\_Registers (register accesses as a log; a value read is a function of the accesses so far),
  Mmu\_Core (activation, release, callbacks, interrupts, page faults, registration), Mmu\_Activation (the invariant
  of units under any number of jobs), Mmu\_Faults, Mmu\_Properties, and Mmu\_Recovery: the handling of a page fault with
  the units and the render cores in one state, the messages of the handler going to the subsystems of cores, and each
  core that is reset giving its use of the unit back.

  UMP: Ump\_Types (handles, sizes, the answers of the operating system), Ump\_Backend (the locale
  ump\_memory\_backend, what a backend promises), Ump\_Block\_Backend (linux/ump\_kernel\_memory\_backend\_dedicated.c) and
  Ump\_Os\_Backend (linux/ump\_kernel\_memory\_backend\_os.c), both interpretations of it, Links (chains of pointers, which
  the block allocators share), Ump\_Handles (the dispatch between backends, itself an interpretation, and
  common/ump\_kernel\_api.c), Ump\_References (counts, table of secure ids and backend under all operations on
  handles), Ump\_Sessions (common/ump\_kernel\_common.c, ump\_kernel\_ref\_drv.c and the mapping of regions), Ump\_Linux
  (file operations, wrappers, hooks of areas, maintenance of caches).  Ump\_Accounts has the invariant, Ump\_Areas how it
  changes, Ump\_Steps, Ump\_Mapping and Ump\_Requests that every operation returns and keeps it, Ump\_Reach the step
  relation of processes and other drivers.  Ump\_Bytes says which bytes a flush and a mapping reach; Ump\_Demo is a
  small system for the witnesses, Ump\_Properties has the properties.

  \<^bold>\<open>State and data.\<close>  A C struct is a record with the source's field names, an enum a datatype or named words, a
  \<open>u32\<close> a 32 bit word whose wrap-around is that of C.  A pointer is the number or key of the object it points to;
  a list with links is a sequence where only its order matters, and an explicit store of links where the links are
  the matter (Osk\_List, the blocks of the block allocator).  Memory that the MMU reads is a map from addresses to
  words.  An operation returns the new state, with an error code where the code returns one; \<open>None\<close> is a null
  pointer that is followed or a loop that does not end (\<open>partial_function\<close>), so that every theorem of the form
  \<open>\<exists>x. f a = Some x\<close> says that the code returns.

  \<^bold>\<open>What the lemmas show.\<close>  Each component has an invariant that its operations keep on every branch, failures
  included, and contracts that say what was added or given back; the properties follow from these for all
  reachable states of the step relations.  For the memory system the invariant is the account of physical memory:
  which blocks, pages and page tables are in use, by whom, with nothing counted twice; the pages had of the page
  allocator of Linux are those in the driver's reserve and those listed for the live mappings, whose offsets are the ones
  of the live allocations.  For UMP it says that the count of
  a handle is the number of its holders (sessions, mappings, other drivers), that cookies and secure ids lead to live
  objects, that a tracker counts its areas and these show memory of its handle, and what the backend has given out.

  \<^bold>\<open>Bounds.\<close>  Registers are polled up to 100 times, as in the code.  Reference counts are 32 bits wide: the steps
  that raise one are guarded by less than \<open>2 ^ 32 - 1\<close> live uses.  A range of Mali addresses is page aligned, not empty and
  ends before the end of the address space; the property on the very end shows why.  Lists of blocks are read with
  the number of blocks as fuel, which is enough because a list holds each block at most once.  The loops of the UMP
  backends are \<open>partial_function\<close>s, or functions whose measure is the size left to allocate.  References to UMP memory are
  fewer than \<open>2 ^ 31\<close> (\<open>few_references\<close>), and a size asked for does not wrap when it is rounded up to pages (\<open>no_wrap\<close>); a
  property shows what happens when it does.

  \<^bold>\<open>Assumptions.\<close>  The modelled build is a release build (assertions, debug output and statistics are empty) for
  Mali-200 without the L2 cache, with the MMU, implicit clean-up of mappings when a process ends, page fault
  handling as the code has it, and the operating system test of the power management off.  Operations that hold a
  common lock are atomic; a lock wait that a signal can interrupt is an outcome of the environment.  The properties of
  memory assume, by name: no signal arrives (\<open>uninterrupted\<close>; an interrupted release loses its blocks), the page
  allocator always has a page (\<open>page_supply\<close>; without one the code follows a null pointer), memory from
  \<open>dma_alloc_coherent\<close> is page aligned and nobody else's (\<open>fresh_memory\<close>), and at the start (\<open>memory_starts\<close>) the
  regions of reserved memory are page aligned and do not overlap, and the only pages had of Linux are in the reserve;
  where a property has \<open>memory_ok\<close> as its start, that has all of these.  The environment (\<open>os_env\<close>) also
  decides whether an allocation succeeds.  The kernel mapping of
  memory is identified with its CPU physical address, and the adjustment between CPU and Mali addresses is 0 for
  page tables.  For UMP, \<open>kmalloc\<close> gives addresses that are not in use and pages that nobody has (\<open>env_ok\<close>); the region
  of the dedicated backend is page aligned and ends, rounded up to blocks, within the 32 bit address space
  (\<open>region_fits\<close>); a file stays open while an area shows memory through it, as Linux has it; and the secure id 0 is not
  used and the first area of a mapping is the last to go, both shown to be needed.  A signal may interrupt the release
  of memory, which is then lost and counted as such.

  \<^bold>\<open>Not modelled.\<close>  The GP2 and MALI200 subsystems apart from power signals (register sequences for hardware), the
  start and end of the Mali driver, copying of its arguments from and to user space, UMP and external memory inside a
  Mali session, the shutdown of UMP, the registration of its device and its CPU fault handler (which reports a fault that
  cannot happen), dumps of page tables, the buddy allocator and the L2 cache (not in this build),
  statistics, and the Linux adaptation.  Outside the driver: the rtl8192cu wireless driver (a vendored driver whose
  behaviour is that of its hardware and firmware), the C++ hardware libraries, and resources.
\<close>

end
